(* ===== verification/Prelude.thy ===== *)
theory Prelude
  imports Main "HOL-Library.Word"
begin

text \<open>
  What every component shares.  Bytes are 8-bit words; a C \<^verbatim>\<open>int\<close> that cannot overflow is an
  \<^typ>\<open>int\<close>, and where the code can overflow one the model says so.  An operation that may run
  into undefined behaviour or may not return yields an outcome: \<open>Inl\<close> of the fault, or \<open>Inr\<close> of
  its result and the new state.  \<open>andthen\<close> sequences two such operations; \<open>run_ok F Q m\<close> states
  that \<open>m\<close> either ends in a fault of \<open>F\<close> or returns a result and a state that satisfy \<open>Q\<close>, and its
  equations compute the weakest precondition of a sequence of calls.  A pointer into a memory
  block is the list of the bytes from that position to the end of the block.
\<close>

unbundle bit_operations_syntax

type_synonym byte = "8 word"

section \<open>Faults and outcomes\<close>

text \<open>\<open>Aborts\<close> is a failed \<^verbatim>\<open>assert\<close>.\<close>

datatype fault = NullPtr | OutOfBounds | IntOverflow | Diverges | Aborts

type_synonym ('a, 's) outcome = "fault + 'a \<times> 's"

definition andthen ::
  "('a, 's) outcome \<Rightarrow> ('a \<Rightarrow> 's \<Rightarrow> ('b, 's) outcome) \<Rightarrow> ('b, 's) outcome" where
  "andthen m k = (case m of Inl e \<Rightarrow> Inl e | Inr (x, s) \<Rightarrow> k x s)"

definition run_ok :: "fault set \<Rightarrow> ('a \<Rightarrow> 's \<Rightarrow> bool) \<Rightarrow> ('a, 's) outcome \<Rightarrow> bool" where
  "run_ok F Q m = (case m of Inl e \<Rightarrow> e \<in> F | Inr (x, s) \<Rightarrow> Q x s)"

lemma andthen_simps [simp]:
  "andthen (Inl e) k = Inl e"
  "andthen (Inr (x, s)) k = k x s"
  by (simp_all add: andthen_def)

lemma andthen_Inr: "andthen m k = Inr r \<longleftrightarrow> (\<exists>x s. m = Inr (x, s) \<and> k x s = Inr r)"
  by (auto simp: andthen_def split: sum.splits)

lemma run_ok_simps [simp]:
  "run_ok F Q (Inl e) \<longleftrightarrow> e \<in> F"
  "run_ok F Q (Inr (x, s)) \<longleftrightarrow> Q x s"
  by (simp_all add: run_ok_def)

lemma run_ok_andthen [simp]:
  "run_ok F Q (andthen m k) \<longleftrightarrow> run_ok F (\<lambda>x s. run_ok F Q (k x s)) m"
  by (simp add: andthen_def run_ok_def split: sum.split)

lemma run_ok_if [simp]:
  "run_ok F Q (if b then m else m') \<longleftrightarrow> (if b then run_ok F Q m else run_ok F Q m')"
  by simp

lemma run_ok_mono:
  "run_ok F Q m \<Longrightarrow> (\<And>x s. Q x s \<Longrightarrow> Q' x s) \<Longrightarrow> run_ok F Q' m"
  by (auto simp: run_ok_def split: sum.splits)

lemma run_ok_weaken:
  "run_ok F Q m \<Longrightarrow> F \<subseteq> F' \<Longrightarrow> (\<And>x s. Q x s \<Longrightarrow> Q' x s) \<Longrightarrow> run_ok F' Q' m"
  by (auto simp: run_ok_def split: sum.splits)

lemma run_ok_InrD: "run_ok F Q m \<Longrightarrow> m = Inr (x, s) \<Longrightarrow> Q x s"
  by simp

lemma run_ok_returns: "run_ok {} Q m \<Longrightarrow> \<exists>x s. m = Inr (x, s) \<and> Q x s"
  by (auto simp: run_ok_def split: sum.splits)

section \<open>Memory blocks\<close>

text \<open>\<open>put_at off bs m\<close> is the block \<open>m\<close> after \<open>memcpy(m + off, bs, length bs)\<close>.\<close>

definition put_at :: "nat \<Rightarrow> 'a list \<Rightarrow> 'a list \<Rightarrow> 'a list" where
  "put_at off bs m = take off m @ bs @ drop (off + length bs) m"

definition bytes_at :: "int \<Rightarrow> int \<Rightarrow> 'a list \<Rightarrow> 'a list" where
  "bytes_at off n m = take (nat n) (drop (nat off) m)"

lemma length_put_at [simp]:
  "off + length bs \<le> length m \<Longrightarrow> length (put_at off bs m) = length m"
  by (simp add: put_at_def)

lemma length_bytes_at [simp]:
  "0 \<le> off \<Longrightarrow> 0 \<le> n \<Longrightarrow> off + n \<le> int (length m) \<Longrightarrow> length (bytes_at off n m) = nat n"
  by (simp add: bytes_at_def)

lemma bytes_at_append [simp]:
  assumes "0 \<le> off" "off + n \<le> int (length m)"
  shows "bytes_at off n (m @ r) = bytes_at off n m"
proof -
  have "nat n \<le> length m - nat off \<or> nat n = 0" using assms by linarith
  then show ?thesis by (auto simp: bytes_at_def)
qed

lemma bytes_at_0 [simp]: "bytes_at off 0 m = []"
  by (simp add: bytes_at_def)

lemma bytes_at_all [simp]: "n = int (length m) \<Longrightarrow> bytes_at 0 n m = m"
  by (simp add: bytes_at_def)

lemma put_at_0 [simp]: "put_at 0 bs m = bs @ drop (length bs) m"
  by (simp add: put_at_def)

lemma take_put_at [simp]:
  "off + length bs \<le> length m \<Longrightarrow> take off (put_at off bs m) = take off m"
  by (simp add: put_at_def)

lemma drop_put_at [simp]:
  "off + length bs \<le> length m \<Longrightarrow> drop off (put_at off bs m) = bs @ drop (off + length bs) m"
  by (simp add: put_at_def)

section \<open>The integer macros\<close>

text \<open>
  \<^verbatim>\<open>get_int*\<close> read big-endian integers from a pointer, \<^verbatim>\<open>get_little_int32\<close> a little-endian one;
  the four-byte ones have type \<^verbatim>\<open>int\<close>, so their value is signed.  \<^verbatim>\<open>put_int*\<close> store the low bytes
  of an \<^verbatim>\<open>int\<close>; \<open>w8\<close> is the conversion to \<^verbatim>\<open>char\<close>, after which \<^verbatim>\<open>& 0xff\<close> changes nothing.
\<close>

abbreviation w32 :: "byte \<Rightarrow> 32 word" where "w32 \<equiv> ucast"
abbreviation w8 :: "32 word \<Rightarrow> byte" where "w8 \<equiv> ucast"
abbreviation cint :: "int \<Rightarrow> 32 word" where "cint \<equiv> word_of_int"

definition get_int8 :: "byte list \<Rightarrow> int" where
  "get_int8 s = uint (s ! 0)"

definition get_int16 :: "byte list \<Rightarrow> int" where
  "get_int16 s = sint (push_bit 8 (w32 (s ! 0)) OR w32 (s ! 1))"

definition get_int24 :: "byte list \<Rightarrow> int" where
  "get_int24 s =
     sint (push_bit 16 (w32 (s ! 0)) OR push_bit 8 (w32 (s ! 1)) OR w32 (s ! 2))"

definition get_int32 :: "byte list \<Rightarrow> int" where
  "get_int32 s =
     sint (push_bit 24 (w32 (s ! 0)) OR push_bit 16 (w32 (s ! 1)) OR
           push_bit 8 (w32 (s ! 2)) OR w32 (s ! 3))"

definition get_little_int32 :: "byte list \<Rightarrow> int" where
  "get_little_int32 s =
     sint (push_bit 24 (w32 (s ! 3)) OR push_bit 16 (w32 (s ! 2)) OR
           push_bit 8 (w32 (s ! 1)) OR w32 (s ! 0))"

definition put_int8 :: "int \<Rightarrow> byte list" where
  "put_int8 i = [w8 (cint i)]"

definition put_int16 :: "int \<Rightarrow> byte list" where
  "put_int16 i = [w8 (drop_bit 8 (cint i)), w8 (cint i)]"

definition put_int32 :: "int \<Rightarrow> byte list" where
  "put_int32 i =
     [w8 (drop_bit 24 (cint i)), w8 (drop_bit 16 (cint i)),
      w8 (drop_bit 8 (cint i)), w8 (cint i)]"

lemma length_put_int [simp]:
  "length (put_int8 i) = Suc 0" "length (put_int16 i) = 2" "length (put_int32 i) = 4"
  by (simp_all add: put_int8_def put_int16_def put_int32_def)

lemma byte_bound: "0 \<le> uint (b :: byte)" "uint (b :: byte) < 256"
  using uint_lt2p [of b] by simp_all

lemma small_sint: "0 \<le> k \<Longrightarrow> k < 2147483648 \<Longrightarrow> signed_take_bit 31 (k :: int) = k"
  by (rule signed_take_bit_int_eq_self) simp_all

lemma uint_two_bytes: "uint (push_bit 8 (w32 a) OR w32 b) = uint a * 256 + uint b"
proof -
  have "push_bit 8 (w32 a) OR w32 b = push_bit 8 (w32 a) + w32 b"
    by (rule disjunctive_add [symmetric]) (auto simp: bit_simps dest: bit_imp_le_length)
  then show ?thesis using byte_bound [of a] byte_bound [of b]
    by (simp add: push_bit_eq_mult uint_word_ariths unsigned_ucast_eq take_bit_eq_mod)
qed

lemma get_int16_eq: "get_int16 s = uint (s ! 0) * 256 + uint (s ! 1)"
proof -
  have "signed_take_bit 31 (uint (s ! 0) * 256 + uint (s ! 1)) = uint (s ! 0) * 256 + uint (s ! 1)"
    by (rule small_sint) (use byte_bound [of "s ! 0"] byte_bound [of "s ! 1"] in linarith)+
  then show ?thesis by (simp add: get_int16_def sint_uint uint_two_bytes)
qed

lemma sint_cint: "- (2 ^ 31) \<le> i \<Longrightarrow> i < 2 ^ 31 \<Longrightarrow> sint (cint i) = i"
  by (subst sint_sbintrunc') (auto intro!: signed_take_bit_int_eq_self)

lemma get_put_int8 [simp]: "get_int8 (put_int8 i @ r) = i mod 256"
  by (simp add: get_int8_def put_int8_def unsigned_ucast_eq uint_word_of_int_eq)
     (simp add: take_bit_eq_mod)

lemma get_put_int16 [simp]: "get_int16 (put_int16 i @ r) = i mod 65536"
proof -
  have "push_bit 8 (w32 (w8 (drop_bit 8 (cint i)))) OR w32 (w8 (cint i)) = take_bit 16 (cint i)"
    (is "?l = ?r")
  proof (rule bit_word_eqI)
    fix n :: nat
    show "bit ?l n = bit ?r n" by (cases "n < 8") (auto simp: bit_simps)
  qed
  moreover have "uint (take_bit 16 (cint i)) = i mod 65536"
    by (simp add: unsigned_take_bit_eq uint_word_of_int_eq) (simp add: take_bit_eq_mod)
  moreover have "signed_take_bit 31 (i mod 65536) = i mod 65536"
    by (rule small_sint) (use pos_mod_bound [of 65536 i] in simp_all)
  ultimately show ?thesis by (simp add: get_int16_def put_int16_def sint_uint)
qed

lemma four_bytes_word:
  "push_bit 24 (w32 (w8 (drop_bit 24 x))) OR push_bit 16 (w32 (w8 (drop_bit 16 x))) OR
   push_bit 8 (w32 (w8 (drop_bit 8 x))) OR w32 (w8 x) = x" (is "?l = x")
proof (rule bit_word_eqI)
  fix n assume "n < LENGTH(32)"
  then have "n < 8 \<or> 8 \<le> n \<and> n < 16 \<or> 16 \<le> n \<and> n < 24 \<or> 24 \<le> n \<and> n < 32"
    by auto
  then show "bit ?l n = bit x n" by (elim disjE) (simp_all add: bit_simps, auto)
qed

lemma get_put_int32_word: "get_int32 (put_int32 i @ r) = sint (cint i)"
  by (simp add: get_int32_def put_int32_def four_bytes_word)

lemma get_put_int32: "- (2 ^ 31) \<le> i \<Longrightarrow> i < 2 ^ 31 \<Longrightarrow> get_int32 (put_int32 i @ r) = i"
  by (simp only: get_put_int32_word sint_cint)

lemma get_int8_bounds: "0 \<le> get_int8 s" "get_int8 s < 256"
  using byte_bound by (simp_all add: get_int8_def)

lemma get_int16_bounds: "0 \<le> get_int16 s" "get_int16 s < 65536"
  using byte_bound [of "s ! 0"] byte_bound [of "s ! 1"] by (simp_all add: get_int16_eq)

lemma get_int32_bounds: "- 2147483648 \<le> get_int32 s" "get_int32 s < 2147483648"
  using sint_range_size [of "push_bit 24 (w32 (s ! 0)) OR push_bit 16 (w32 (s ! 1)) OR
           push_bit 8 (w32 (s ! 2)) OR w32 (s ! 3)"]
  by (simp_all add: get_int32_def word_size)

section \<open>Characters and strings\<close>

text \<open>The bytes of a string, and the \<^verbatim>\<open>tolower\<close> of the C locale on a character of one.\<close>

definition bytes_of :: "string \<Rightarrow> byte list" where
  "bytes_of = map of_char"

lemma bytes_of_simps [simp]:
  "bytes_of [] = []" "bytes_of (c # cs) = of_char c # bytes_of cs"
  "length (bytes_of cs) = length cs"
  by (simp_all add: bytes_of_def)

definition to_lower :: "char \<Rightarrow> char" where
  "to_lower c =
     (let n = of_char c :: nat in if 65 \<le> n \<and> n \<le> 90 then char_of (n + 32) else c)"

text \<open>A C string ends at its first zero.\<close>

definition c_string :: "byte list \<Rightarrow> byte list" where
  "c_string bs = takeWhile (\<lambda>b. b \<noteq> 0) bs"

section \<open>Checked arithmetic and memory accesses\<close>

text \<open>
  \<open>checked i k\<close> continues with the int \<open>i\<close> if it does not overflow; \<open>reading m off n k\<close> reads
  \<open>n\<close> bytes at offset \<open>off\<close> of the block \<open>m\<close> and \<open>writing m off bs k\<close> writes there, if the bytes
  are within the block; \<open>deref p k\<close> continues with what the pointer points to unless it is NULL.
\<close>

definition checked :: "int \<Rightarrow> (int \<Rightarrow> fault + 'a) \<Rightarrow> fault + 'a" where
  "checked i k =
     (if - 2147483648 \<le> i \<and> i \<le> 2147483647 then k i else Inl IntOverflow)"

definition reading :: "'b list \<Rightarrow> int \<Rightarrow> int \<Rightarrow> ('b list \<Rightarrow> fault + 'a) \<Rightarrow> fault + 'a" where
  "reading m off n k =
     (if 0 \<le> off \<and> 0 \<le> n \<and> off + n \<le> int (length m) then k (bytes_at off n m)
      else Inl OutOfBounds)"

definition writing :: "'b list \<Rightarrow> int \<Rightarrow> 'b list \<Rightarrow> ('b list \<Rightarrow> fault + 'a) \<Rightarrow> fault + 'a" where
  "writing m off bs k =
     (if 0 \<le> off \<and> off + int (length bs) \<le> int (length m) then k (put_at (nat off) bs m)
      else Inl OutOfBounds)"

definition deref :: "'b option \<Rightarrow> ('b \<Rightarrow> fault + 'a) \<Rightarrow> fault + 'a" where
  "deref p k = (case p of None \<Rightarrow> Inl NullPtr | Some x \<Rightarrow> k x)"

lemma run_ok_checked [simp]:
  "run_ok F Q (checked i k) \<longleftrightarrow>
     (if - 2147483648 \<le> i \<and> i \<le> 2147483647 then run_ok F Q (k i) else IntOverflow \<in> F)"
  by (simp add: checked_def)

lemma run_ok_reading [simp]:
  "run_ok F Q (reading m off n k) \<longleftrightarrow>
     (if 0 \<le> off \<and> 0 \<le> n \<and> off + n \<le> int (length m) then run_ok F Q (k (bytes_at off n m))
      else OutOfBounds \<in> F)"
  by (simp add: reading_def)

lemma run_ok_writing [simp]:
  "run_ok F Q (writing m off bs k) \<longleftrightarrow>
     (if 0 \<le> off \<and> off + int (length bs) \<le> int (length m)
      then run_ok F Q (k (put_at (nat off) bs m)) else OutOfBounds \<in> F)"
  by (simp add: writing_def)

lemma deref_simps [simp]:
  "deref (Some x) k = k x"
  "deref None k = Inl NullPtr"
  by (simp_all add: deref_def)

lemma bytes_at_put_at:
  assumes "0 \<le> off" "off + n = i" "0 \<le> n" "i + int (length bs) \<le> int (length m)"
  shows "bytes_at off (n + int (length bs)) (put_at (nat i) bs m) = bytes_at off n m @ bs"
proof -
  obtain a k where ak: "off = int a" "n = int k"
    using assms by (metis nonneg_int_cases)
  then have i: "i = int (a + k)" and le: "a + k + length bs \<le> length m"
    using assms by simp_all
  have "nat (int k + int (length bs)) = k + length bs" "nat (int a + int k) = a + k"
    by linarith+
  then show ?thesis
    using le by (simp add: bytes_at_def put_at_def ak i drop_take)
qed

end
