(* ===== verification/Driver_Api.thy ===== *)
theory Driver_Api
  imports Prelude
begin

text \<open>
  The interface between a linked-in driver and the Erlang emulator, shared by the driver
  components.  The emulator is not part of the repository: whatever it answers is a parameter,
  the record \<open>emulator\<close>, whose fields are functions of the history of the calls the driver has
  made so far, so that no answer is fixed in advance.  A driver call appends itself to that
  history (\<open>calls\<close>, the latest call first) and returns what the emulator answers.  The messages a
  driver sends are lists of term items, as the \<^verbatim>\<open>LOAD_*\<close> macros of \<^verbatim>\<open>loop_drv.c\<close> store them;
  \<open>denote\<close> is the documented meaning of such a list (a stack of terms, each item consuming its
  arguments from the top), against which the messages are specified.
\<close>

section \<open>Term items\<close>

datatype titem =
    TAtom string
  | TInt int
  | TPort
  | TBinary "byte list"
  | TString "byte list"
  | TStringCons "byte list"
  | TTuple nat

text \<open>The number of \<^verbatim>\<open>ErlDrvTermData\<close> words each macro stores.\<close>

fun item_words :: "titem \<Rightarrow> nat" where
  "item_words (TAtom a) = 2"
| "item_words (TInt i) = 2"
| "item_words TPort = 2"
| "item_words (TBinary b) = 4"
| "item_words (TString b) = 3"
| "item_words (TStringCons b) = 3"
| "item_words (TTuple n) = 2"

definition spec_words :: "titem list \<Rightarrow> nat" where
  "spec_words spec = sum_list (map item_words spec)"

lemma spec_words_simps [simp]:
  "spec_words [] = 0"
  "spec_words (x # xs) = item_words x + spec_words xs"
  "spec_words (xs @ ys) = spec_words xs + spec_words ys"
  by (simp_all add: spec_words_def)

datatype eterm =
    EAtom string
  | EInt int
  | EPort
  | EBinary "byte list"
  | EString "byte list"
  | EImproper "byte list" eterm
  | ETuple "eterm list"

fun push_item :: "titem \<Rightarrow> eterm list \<Rightarrow> eterm list option" where
  "push_item (TAtom a) st = Some (EAtom a # st)"
| "push_item (TInt i) st = Some (EInt i # st)"
| "push_item TPort st = Some (EPort # st)"
| "push_item (TBinary b) st = Some (EBinary b # st)"
| "push_item (TString b) st = Some (EString b # st)"
| "push_item (TStringCons b) st =
     (case st of [] \<Rightarrow> None | t # st' \<Rightarrow> Some (EImproper b t # st'))"
| "push_item (TTuple n) st =
     (if n \<le> length st then Some (ETuple (rev (take n st)) # drop n st) else None)"

fun push_items :: "titem list \<Rightarrow> eterm list \<Rightarrow> eterm list option" where
  "push_items [] st = Some st"
| "push_items (x # xs) st =
     (case push_item x st of None \<Rightarrow> None | Some st' \<Rightarrow> push_items xs st')"

definition denote :: "titem list \<Rightarrow> eterm option" where
  "denote spec = (case push_items spec [] of Some [t] \<Rightarrow> Some t | _ \<Rightarrow> None)"

text \<open>The items fit the array \<^verbatim>\<open>spec\<close> of the function that sends them and describe the one term \<open>t\<close>.\<close>

definition one_term :: "nat \<Rightarrow> eterm \<Rightarrow> titem list \<Rightarrow> bool" where
  "one_term words t spec \<longleftrightarrow> spec_words spec \<le> words \<and> denote spec = Some t"

lemma push_items_append:
  "push_items (xs @ ys) st =
     (case push_items xs st of None \<Rightarrow> None | Some st' \<Rightarrow> push_items ys st')"
  by (induction xs st rule: push_items.induct) (auto split: option.splits)

section \<open>Calls, emulator, world\<close>

datatype errno = EINVAL | ENOTCONN | EISCONN | EALREADY | ENOMEM | EMSGSIZE

text \<open>
  The calls of the operating system the serial driver makes on its device, with the terminal
  attributes of \<^verbatim>\<open>tcsetattr\<close>: four words of flags and the control characters.
\<close>

record termios =
  c_iflag :: "32 word"
  c_oflag :: "32 word"
  c_cflag :: "32 word"
  c_lflag :: "32 word"
  c_cc :: "byte list"

datatype os_call =
    OsOpen "byte list"
  | OsClose
  | OsGetAttr
  | OsSetAttr termios
  | OsWrite "byte list"
  | OsRead int
  | OsBreak
  | OsFlow bool
  | OsNonblock

text \<open>
  The calls with an effect on the emulator.  The port argument is always the driver's own port
  and is left out; a string or a binary in a message is recorded with the bytes it held when the
  call was made.
\<close>

datatype call =
    SendTerm nat "titem list"
  | OutputTerm "titem list"
  | Output "byte list"
  | Output2 "byte list" "byte list"
  | OutputBinary "byte list" "byte list"
  | AllocMem int
  | FreeMem
  | AllocBinary int
  | ReallocBinary int
  | FreeBinary
  | Enq "byte list"
  | Enqv "byte list"
  | Deq int
  | SetTimer int
  | CancelTimer
  | SetBusy int
  | Exit "errno option"
  | Select int bool
  | Os os_call

record emulator =
  em_alloc :: "call list \<Rightarrow> bool"         \<comment> \<open>does the allocation just called succeed\<close>
  em_junk :: "call list \<Rightarrow> nat \<Rightarrow> byte"  \<comment> \<open>the contents of memory not yet written\<close>
  em_caller :: "call list \<Rightarrow> nat"         \<comment> \<open>\<^verbatim>\<open>driver_caller\<close>\<close>
  em_rc :: "call list \<Rightarrow> int"             \<comment> \<open>return code of the send just called\<close>
  em_keeps :: "call list \<Rightarrow> bool"         \<comment> \<open>did it keep a reference to the binary sent\<close>
  em_queue :: "call list \<Rightarrow> byte list"    \<comment> \<open>the driver queue, seen by \<^verbatim>\<open>driver_peekqv\<close>\<close>
  em_errno :: "errno \<Rightarrow> string"           \<comment> \<open>\<^verbatim>\<open>erl_errno_id\<close>\<close>
  em_avg :: "64 word \<Rightarrow> int \<Rightarrow> 64 word \<Rightarrow> 64 word"  \<comment> \<open>\<open>avg + (len - avg) / n\<close> on doubles\<close>
  em_dvi :: "64 word \<Rightarrow> int \<Rightarrow> 64 word \<Rightarrow> 64 word \<Rightarrow> 64 word"
    \<comment> \<open>\<open>dvi + ((len - avg) - dvi) / n\<close> on doubles\<close>
  em_ulong :: "64 word \<Rightarrow> 64 word"        \<comment> \<open>\<^verbatim>\<open>(unsigned long)\<close> of a double\<close>
  em_fabs :: "64 word \<Rightarrow> 64 word"         \<comment> \<open>\<^verbatim>\<open>fabs\<close>\<close>

record world =
  calls :: "call list"

abbreviation log_call :: "call \<Rightarrow> 'a world_scheme \<Rightarrow> 'a world_scheme" where
  "log_call c s \<equiv> s\<lparr>calls := c # calls s\<rparr>"

definition driver_call :: "emulator \<Rightarrow> call \<Rightarrow> 'a world_scheme \<Rightarrow> int \<times> 'a world_scheme" where
  "driver_call em c s = (em_rc em (c # calls s), log_call c s)"

definition driver_sizeq :: "emulator \<Rightarrow> 'a world_scheme \<Rightarrow> int" where
  "driver_sizeq em s = int (length (em_queue em (calls s)))"

text \<open>Memory the code has not written yet.\<close>

definition junk :: "emulator \<Rightarrow> 'a world_scheme \<Rightarrow> nat \<Rightarrow> byte list" where
  "junk em s n = map (em_junk em (calls s)) [0..<n]"

lemma length_junk [simp]: "length (junk em s n) = n"
  by (simp add: junk_def)

section \<open>Driver binaries\<close>

text \<open>
  An \<^verbatim>\<open>ErlDrvBinary\<close>: its bytes (\<open>orig_size\<close> is their number) and its reference count.
  Allocation and reallocation behave as \<^verbatim>\<open>malloc\<close> and \<^verbatim>\<open>realloc\<close> do: they may return NULL, new
  memory holds arbitrary bytes, and reallocation keeps the common prefix.
\<close>

record binary =
  orig_bytes :: "byte list"
  refc :: nat

abbreviation orig_size :: "binary \<Rightarrow> int" where
  "orig_size b \<equiv> int (length (orig_bytes b))"

definition driver_alloc_binary ::
  "emulator \<Rightarrow> int \<Rightarrow> 'a world_scheme \<Rightarrow> binary option \<times> 'a world_scheme" where
  "driver_alloc_binary em n s =
     (let s' = log_call (AllocBinary n) s in
      (if em_alloc em (calls s') then Some \<lparr>orig_bytes = junk em s' (nat n), refc = 1\<rparr> else None,
       s'))"

definition driver_realloc_binary ::
  "emulator \<Rightarrow> binary \<Rightarrow> int \<Rightarrow> 'a world_scheme \<Rightarrow> binary option \<times> 'a world_scheme" where
  "driver_realloc_binary em b n s =
     (let s' = log_call (ReallocBinary n) s in
      (if em_alloc em (calls s')
       then Some (b\<lparr>orig_bytes := take (nat n) (orig_bytes b) @
                                    junk em s' (nat n - length (orig_bytes b))\<rparr>)
       else None,
       s'))"

section \<open>The documented behaviour of the driver queue\<close>

text \<open>
  \<^verbatim>\<open>driver_enq\<close> and \<^verbatim>\<open>driver_enqv\<close> append to the queue, \<^verbatim>\<open>driver_deq\<close> removes from its front, and
  no other call changes it.  A property that needs this states it of the emulator as
  \<open>driver_queue (em_queue em)\<close>; \<open>queue_of\<close>, which replays a history, satisfies it.
\<close>

locale driver_queue =
  fixes q :: "call list \<Rightarrow> byte list"
  assumes q_nil: "q [] = []"
    and q_enq: "q (Enq bs # h) = q h @ bs"
    and q_enqv: "q (Enqv bs # h) = q h @ bs"
    and q_deq: "q (Deq n # h) = drop (nat n) (q h)"
    and q_other: "(\<forall>bs n. c \<noteq> Enq bs \<and> c \<noteq> Enqv bs \<and> c \<noteq> Deq n) \<Longrightarrow> q (c # h) = q h"
begin

lemmas q_simps = q_nil q_enq q_enqv q_deq

lemma q_frame [simp]:
  "q (SendTerm p sp # h) = q h" "q (OutputTerm sp # h) = q h" "q (Output bs # h) = q h"
  "q (Output2 bs cs # h) = q h" "q (OutputBinary bs cs # h) = q h"
  "q (AllocMem n # h) = q h" "q (FreeMem # h) = q h"
  "q (AllocBinary n # h) = q h" "q (ReallocBinary n # h) = q h" "q (FreeBinary # h) = q h"
  "q (SetTimer n # h) = q h" "q (CancelTimer # h) = q h" "q (SetBusy n # h) = q h"
  "q (Exit e # h) = q h" "q (Select m on # h) = q h" "q (Os c # h) = q h"
  by (simp_all add: q_other)

text \<open>What is taken out in front and what stays is what was put in behind.\<close>

lemma q_conserved: "0 \<le> n \<Longrightarrow> take (nat n) (q h) @ q (Deq n # h) = q h"
  by (simp add: q_deq)

end

fun queue_of :: "call list \<Rightarrow> byte list" where
  "queue_of [] = []"
| "queue_of (Enq bs # h) = queue_of h @ bs"
| "queue_of (Enqv bs # h) = queue_of h @ bs"
| "queue_of (Deq n # h) = drop (nat n) (queue_of h)"
| "queue_of (c # h) = queue_of h"

lemma queue_of_other:
  "(\<forall>bs n. c \<noteq> Enq bs \<and> c \<noteq> Enqv bs \<and> c \<noteq> Deq n) \<Longrightarrow> queue_of (c # h) = queue_of h"
  by (cases c) auto

interpretation replayed: driver_queue queue_of
  by unfold_locales (simp_all add: queue_of_other)

text \<open>The queue is determined by its laws: any emulator that obeys them replays the history.\<close>

lemma driver_queue_unique:
  assumes "driver_queue q"
  shows "q h = queue_of h"
proof (induction h)
  case Nil
  then show ?case using assms by (simp add: driver_queue.q_nil)
next
  case (Cons c h)
  then show ?case
    by (cases c) (simp_all add: driver_queue.q_simps [OF assms] driver_queue.q_frame [OF assms])
qed

text \<open>
  An emulator for concrete evaluations: every allocation succeeds, memory not yet written holds
  zeros, sends succeed, the queue behaves as documented.
\<close>

definition demo_emulator :: emulator where
  "demo_emulator =
     \<lparr>em_alloc = \<lambda>_. True, em_junk = \<lambda>_ _. 0, em_caller = \<lambda>_. 7, em_rc = \<lambda>_. 1,
      em_keeps = \<lambda>_. True, em_queue = queue_of,
      em_errno = \<lambda>e. (case e of EINVAL \<Rightarrow> ''einval'' | ENOTCONN \<Rightarrow> ''enotconn''
        | EISCONN \<Rightarrow> ''eisconn'' | EALREADY \<Rightarrow> ''ealready'' | ENOMEM \<Rightarrow> ''enomem''
        | EMSGSIZE \<Rightarrow> ''emsgsize''),
      em_avg = \<lambda>avg len n. avg, em_dvi = \<lambda>dvi len avg n. dvi, em_ulong = \<lambda>x. x,
      em_fabs = \<lambda>x. x\<rparr>"

lemma demo_emulator_simps [simp]:
  "em_alloc demo_emulator h" "em_junk demo_emulator h n = 0" "em_caller demo_emulator h = 7"
  "em_rc demo_emulator h = 1" "em_keeps demo_emulator h" "em_queue demo_emulator = queue_of"
  by (simp_all add: demo_emulator_def)

end
