(* ===== verification/Loop_State.thy ===== *)
theory Loop_State
  imports Driver_Api
begin

text \<open>
  The data of the loop driver (\<^verbatim>\<open>ssh/c_src/loop_drv.c\<close>): its constants, the descriptor of a port
  and the driver's static variables.  The record \<open>inet_descriptor\<close> extends the driver world, the
  record \<open>loop_descriptor\<close> extends it as \<^verbatim>\<open>loop_descriptor\<close> embeds \<^verbatim>\<open>inet_descriptor\<close>, and the
  record \<open>drv\<close> adds the statics.  The model is of the Unix build as the Makefile makes it: neither
  \<^verbatim>\<open>HAVE_IN6\<close> nor \<^verbatim>\<open>HAVE_STRNCASECMP\<close> nor \<^verbatim>\<open>DEBUG\<close> is defined, \<^verbatim>\<open>USE_HTTP\<close> is;
  \<^verbatim>\<open>unsigned long\<close> has 64 bits and \<^verbatim>\<open>int\<close> 32.
\<close>

section \<open>Constants\<close>

abbreviation (input) INET_F_OPEN :: "32 word" where "INET_F_OPEN \<equiv> 0x0001"
abbreviation (input) INET_F_BOUND :: "32 word" where "INET_F_BOUND \<equiv> 0x0002"
abbreviation (input) INET_F_ACTIVE :: "32 word" where "INET_F_ACTIVE \<equiv> 0x0004"
abbreviation (input) INET_F_BUSY :: "32 word" where "INET_F_BUSY \<equiv> 0x0080"

definition INET_STATE_CLOSED :: "32 word" where "INET_STATE_CLOSED = 0"
definition INET_STATE_OPEN :: "32 word" where "INET_STATE_OPEN = INET_F_OPEN"
definition INET_STATE_BOUND :: "32 word" where
  "INET_STATE_BOUND = INET_STATE_OPEN OR INET_F_BOUND"
definition INET_STATE_CONNECTED :: "32 word" where
  "INET_STATE_CONNECTED = INET_STATE_BOUND OR INET_F_ACTIVE"

lemmas inet_states = INET_STATE_CLOSED_def INET_STATE_OPEN_def INET_STATE_BOUND_def
  INET_STATE_CONNECTED_def

abbreviation (input) INET_MODE_LIST :: int where "INET_MODE_LIST \<equiv> 0"
abbreviation (input) INET_DELIVER_PORT :: int where "INET_DELIVER_PORT \<equiv> 0"
abbreviation (input) INET_DELIVER_TERM :: int where "INET_DELIVER_TERM \<equiv> 1"
abbreviation (input) INET_PASSIVE :: int where "INET_PASSIVE \<equiv> 0"
abbreviation (input) INET_ONCE :: int where "INET_ONCE \<equiv> 2"
abbreviation (input) INET_INFINITY :: int where "INET_INFINITY \<equiv> 0xffffffff"
abbreviation (input) INET_DEF_BUFFER :: int where "INET_DEF_BUFFER \<equiv> 1024"
abbreviation (input) INET_MIN_BUFFER :: int where "INET_MIN_BUFFER \<equiv> 1"
abbreviation (input) INET_MAX_BUFFER :: int where "INET_MAX_BUFFER \<equiv> 65536"
abbreviation (input) INET_HIGH_WATERMARK :: int where "INET_HIGH_WATERMARK \<equiv> 8192"
abbreviation (input) INET_LOW_WATERMARK :: int where "INET_LOW_WATERMARK \<equiv> 4096"
abbreviation (input) TCP_MAX_PACKET_SIZE :: int where "TCP_MAX_PACKET_SIZE \<equiv> 0x1000000"
abbreviation (input) INET_MAX_ASYNC :: nat where "INET_MAX_ASYNC \<equiv> 1"
abbreviation (input) BUFFER_STACK_SIZE :: nat where "BUFFER_STACK_SIZE \<equiv> 16"
abbreviation (input) NO_PROCESS :: nat where "NO_PROCESS \<equiv> 0"

text \<open>The packet types; \<^verbatim>\<open>htype\<close> itself is an int that any option value may be stored in.\<close>

datatype packet_type =
    TCP_PB_RAW | TCP_PB_1 | TCP_PB_2 | TCP_PB_4 | TCP_PB_ASN1 | TCP_PB_RM | TCP_PB_CDR
  | TCP_PB_FCGI | TCP_PB_LINE_LF | TCP_PB_TPKT | TCP_PB_HTTP | TCP_PB_HTTPH | TCP_PB_OTHER

definition packet_type_of :: "int \<Rightarrow> packet_type" where
  "packet_type_of h =
     (if h = 0 then TCP_PB_RAW else if h = 1 then TCP_PB_1 else if h = 2 then TCP_PB_2
      else if h = 3 then TCP_PB_4 else if h = 4 then TCP_PB_ASN1 else if h = 5 then TCP_PB_RM
      else if h = 6 then TCP_PB_CDR else if h = 7 then TCP_PB_FCGI
      else if h = 8 then TCP_PB_LINE_LF else if h = 9 then TCP_PB_TPKT
      else if h = 10 then TCP_PB_HTTP else if h = 11 then TCP_PB_HTTPH else TCP_PB_OTHER)"

datatype sock_type = NO_TYPE | SOCK_STREAM | SOCK_DGRAM
datatype family = NO_FAMILY | AF_INET

section \<open>The descriptor\<close>

text \<open>An asynchronous request; its field \<^verbatim>\<open>timeout\<close> is never written and left out.\<close>

record inet_async_op =
  op_id :: int
  op_caller :: nat
  op_req :: int

text \<open>
  \<^verbatim>\<open>oph\<close> and \<^verbatim>\<open>opt\<close> point into \<^verbatim>\<open>op_queue\<close> or are NULL: an index or \<open>None\<close>.  A socket address
  is what \<^verbatim>\<open>inet_set_address\<close> writes of it: family, port in network byte order, four octets.
  \<^verbatim>\<open>peer_ptr\<close> and \<^verbatim>\<open>name_ptr\<close> are NULL or point to \<^verbatim>\<open>peer_addr\<close> and \<^verbatim>\<open>name_addr\<close>.  The
  subscriber list is the linked list from its embedded head cell, empty when the head holds
  \<^verbatim>\<open>NO_PROCESS\<close>.  The statistics kept as doubles are bit patterns.
\<close>

record inet_address =
  sin_family :: family
  sin_port :: "16 word"
  sin_addr :: "byte list"

record inet_descriptor = world +
  d_state :: "32 word"
  d_mode :: int
  d_exitf :: int
  d_bit8f :: int
  d_deliver :: int
  d_caller :: nat
  d_oph :: "nat option"
  d_opt :: "nat option"
  d_op_queue :: "inet_async_op list"
  d_active :: int
  d_stype :: sock_type
  d_sfamily :: family
  d_htype :: int
  d_bit8 :: int
  d_peer_addr :: inet_address
  d_name_addr :: inet_address
  d_peer_ptr :: bool
  d_name_ptr :: bool
  d_bufsz :: int
  d_hsz :: int
  d_recv_oct0 :: "64 word"
  d_recv_oct1 :: "64 word"
  d_recv_cnt :: "64 word"
  d_recv_max :: "64 word"
  d_recv_avg :: "64 word"
  d_recv_dvi :: "64 word"
  d_send_oct0 :: "64 word"
  d_send_oct1 :: "64 word"
  d_send_cnt :: "64 word"
  d_send_max :: "64 word"
  d_send_avg :: "64 word"
  d_subs :: "nat list"

text \<open>
  \<^verbatim>\<open>i_ptr\<close> and \<^verbatim>\<open>i_ptr_start\<close> point into the bytes of \<^verbatim>\<open>i_buf\<close>: they are offsets, 0 when the
  buffer is NULL.
\<close>

record loop_descriptor = inet_descriptor +
  l_high :: int
  l_low :: int
  l_send_timeout :: int
  l_busy_on_send :: int
  i_bufsz :: int
  i_buf :: "binary option"
  i_ptr :: int
  i_ptr_start :: int
  i_remain :: int
  http_state :: int

text \<open>
  The statics: the asynchronous reference counter and the stack of free buffers, the top
  (\<^verbatim>\<open>buffer_stack[buffer_stack_pos-1]\<close>) first.
\<close>

record drv = loop_descriptor +
  async_ref :: "32 word"
  buffer_stack :: "binary list"

definition IS_OPEN :: "drv \<Rightarrow> bool" where
  "IS_OPEN s \<longleftrightarrow> d_state s AND INET_F_OPEN = INET_F_OPEN"

definition IS_BOUND :: "drv \<Rightarrow> bool" where
  "IS_BOUND s \<longleftrightarrow> d_state s AND INET_F_BOUND = INET_F_BOUND"

definition IS_CONNECTED :: "drv \<Rightarrow> bool" where
  "IS_CONNECTED s \<longleftrightarrow> d_state s AND INET_STATE_CONNECTED = INET_STATE_CONNECTED"

definition IS_BUSY :: "drv \<Rightarrow> bool" where
  "IS_BUSY s \<longleftrightarrow> d_state s AND INET_F_BUSY = INET_F_BUSY"

text \<open>
  The descriptor after \<^verbatim>\<open>inet_start\<close> and \<^verbatim>\<open>loop_drv_start\<close>, or \<open>None\<close> when there is no memory
  for it (\<open>sz\<close> bytes).  The fields these functions leave unset (\<^verbatim>\<open>caller\<close>, \<^verbatim>\<open>op_queue\<close>, the
  two addresses) keep what the memory held; the statics and the history are those of the state
  before.  \<^verbatim>\<open>INET_INFINITY\<close> stored in the int \<^verbatim>\<open>send_timeout\<close> is -1.
\<close>

definition inet_start :: "emulator \<Rightarrow> int \<Rightarrow> drv \<Rightarrow> drv option" where
  "inet_start em sz s =
     (let s = log_call (AllocMem sz) s in
      if \<not> em_alloc em (calls s) then None else Some (s\<lparr>d_state := INET_STATE_CLOSED, d_bufsz := INET_DEF_BUFFER, d_hsz := 0,
     d_htype := 0, d_stype := NO_TYPE, d_sfamily := NO_FAMILY, d_mode := INET_MODE_LIST,
     d_exitf := 1, d_bit8f := 0, d_bit8 := 0, d_deliver := INET_DELIVER_TERM,
     d_active := INET_PASSIVE, d_oph := None, d_opt := None, d_peer_ptr := False,
     d_name_ptr := False, d_recv_oct0 := 0, d_recv_oct1 := 0, d_recv_cnt := 0, d_recv_max := 0,
     d_recv_avg := 0, d_recv_dvi := 0, d_send_oct0 := 0, d_send_oct1 := 0, d_send_cnt := 0,
     d_send_max := 0, d_send_avg := 0, d_subs := []\<rparr>))"

definition loop_drv_start :: "emulator \<Rightarrow> int \<Rightarrow> drv \<Rightarrow> drv option" where
  "loop_drv_start em sz s = map_option (\<lambda>s. s\<lparr>l_high := INET_HIGH_WATERMARK, l_low := INET_LOW_WATERMARK,
     l_send_timeout := - 1, l_busy_on_send := 0, i_buf := None, i_ptr := 0,
     i_ptr_start := 0, i_remain := 0, i_bufsz := 0, http_state := 0\<rparr>) (inet_start em sz s)"

text \<open>
  \<^verbatim>\<open>loop_drv_init\<close> and the state of a driver just loaded; the fields of the descriptor mean
  nothing before \<open>loop_drv_start\<close>.
\<close>

definition loop_drv_init :: "drv \<Rightarrow> drv" where
  "loop_drv_init s = s\<lparr>buffer_stack := []\<rparr>"

definition blank :: drv where
  "blank = \<lparr>calls = [], d_state = 0, d_mode = 0, d_exitf = 0, d_bit8f = 0, d_deliver = 0,
     d_caller = 0, d_oph = None, d_opt = None,
     d_op_queue = [\<lparr>op_id = 0, op_caller = 0, op_req = 0\<rparr>],
     d_active = 0, d_stype = NO_TYPE, d_sfamily = NO_FAMILY, d_htype = 0, d_bit8 = 0,
     d_peer_addr = \<lparr>sin_family = NO_FAMILY, sin_port = 0, sin_addr = []\<rparr>,
     d_name_addr = \<lparr>sin_family = NO_FAMILY, sin_port = 0, sin_addr = []\<rparr>,
     d_peer_ptr = False, d_name_ptr = False, d_bufsz = 0, d_hsz = 0, d_recv_oct0 = 0,
     d_recv_oct1 = 0, d_recv_cnt = 0, d_recv_max = 0, d_recv_avg = 0, d_recv_dvi = 0,
     d_send_oct0 = 0, d_send_oct1 = 0, d_send_cnt = 0, d_send_max = 0, d_send_avg = 0,
     d_subs = [], l_high = 0, l_low = 0, l_send_timeout = 0, l_busy_on_send = 0, i_bufsz = 0,
     i_buf = None, i_ptr = 0, i_ptr_start = 0, i_remain = 0, http_state = 0, async_ref = 0,
     buffer_stack = []\<rparr>"

definition started :: drv where
  "started = the (loop_drv_start demo_emulator 512 (loop_drv_init blank))"

end
