(* ===== verification/Async.thy ===== *)
theory Async
  imports Loop_State
begin

text \<open>
  The queue of asynchronous requests of a port, the replies to them and the synchronous replies.
  \<open>pending\<close> reads the ring buffer \<^verbatim>\<open>op_queue\<close> between \<^verbatim>\<open>opt\<close> and \<^verbatim>\<open>oph\<close> as the list of requests
  that wait for a reply, oldest first; \<open>async_wf\<close> is the invariant of the two pointers.  The
  locale \<open>request_queue\<close> states what the reply functions need of such a queue.
\<close>

section \<open>Enqueue and dequeue\<close>

text \<open>
  \<^verbatim>\<open>NEW_ASYNC_ID()\<close> counts through 16 bits.  \<open>tbuf\<close> is the buffer the id is written to and is
  returned as it is when the queue is full.
\<close>

definition new_async_id :: "drv \<Rightarrow> int \<times> drv" where
  "new_async_id s = (uint (async_ref s AND 0xffff), s\<lparr>async_ref := async_ref s + 1\<rparr>)"

definition enq_async :: "emulator \<Rightarrow> byte list \<Rightarrow> int \<Rightarrow> drv \<Rightarrow> int \<times> byte list \<times> drv" where
  "enq_async em tbuf req s =
     (let (aid, s) = new_async_id s;
          (opp, s) = (case d_oph s of
                        None \<Rightarrow> (Some 0, s\<lparr>d_oph := Some 0, d_opt := Some 0\<rparr>)
                      | Some i \<Rightarrow> (if d_oph s = d_opt s then None else Some i, s))
      in case opp of
           None \<Rightarrow> (- 1, tbuf, s)
         | Some i \<Rightarrow>
             let s = s\<lparr>d_op_queue := (d_op_queue s)[i := \<lparr>op_id = aid,
                         op_caller = em_caller em (calls s), op_req = req\<rparr>]\<rparr>;
                 s = s\<lparr>d_oph := (if Suc i \<ge> INET_MAX_ASYNC then Some 0 else Some (Suc i))\<rparr>
             in (0, put_int16 aid, s))"

definition deq_async :: "drv \<Rightarrow> inet_async_op option \<times> drv" where
  "deq_async s =
     (case d_opt s of
        None \<Rightarrow> (None, s)
      | Some i \<Rightarrow>
          let opp = d_op_queue s ! i;
              s = s\<lparr>d_opt := (if Suc i \<ge> INET_MAX_ASYNC then Some 0 else Some (Suc i))\<rparr>;
              s = (if d_opt s = d_oph s then s\<lparr>d_opt := None, d_oph := None\<rparr> else s)
          in (Some opp, s))"

text \<open>The requests that wait, oldest first.\<close>

fun ring :: "inet_async_op list \<Rightarrow> nat option \<Rightarrow> nat option \<Rightarrow> inet_async_op list" where
  "ring q (Some i) (Some j) =
     (if i < j then drop i (take j q) else drop i q @ take j q)"
| "ring q _ _ = []"

definition pending :: "drv \<Rightarrow> inet_async_op list" where
  "pending s = ring (d_op_queue s) (d_opt s) (d_oph s)"

definition async_wf :: "drv \<Rightarrow> bool" where
  "async_wf s \<longleftrightarrow> length (d_op_queue s) = INET_MAX_ASYNC \<and>
     (case (d_opt s, d_oph s) of
        (None, None) \<Rightarrow> True
      | (Some i, Some j) \<Rightarrow> i < INET_MAX_ASYNC \<and> j < INET_MAX_ASYNC
      | _ \<Rightarrow> False)"

lemma async_wf_cases:
  assumes "async_wf s"
  obtains (empty) "d_opt s = None" "d_oph s = None" "pending s = []"
  | (full) "d_opt s = Some 0" "d_oph s = Some 0" "pending s = [d_op_queue s ! 0]"
proof -
  obtain x where x: "d_op_queue s = [x]"
    using assms by (auto simp: async_wf_def length_Suc_conv)
  show thesis
    using assms x that by (auto simp: async_wf_def pending_def split: option.splits)
qed

lemma pending_cong [simp]:
  "pending (s\<lparr>calls := h\<rparr>) = pending s" "pending (s\<lparr>d_caller := p\<rparr>) = pending s"
  "pending (s\<lparr>async_ref := r\<rparr>) = pending s"
  by (simp_all add: pending_def)

lemma async_wf_cong [simp]:
  "async_wf (s\<lparr>calls := h\<rparr>) = async_wf s" "async_wf (s\<lparr>d_caller := p\<rparr>) = async_wf s"
  "async_wf (s\<lparr>async_ref := r\<rparr>) = async_wf s"
  by (simp_all add: async_wf_def)

text \<open>
  The request the next call stores, and the two outcomes of an enqueue: a request goes behind
  those that wait, or the queue is full and only the counter moves.
\<close>

definition next_op :: "emulator \<Rightarrow> int \<Rightarrow> drv \<Rightarrow> inet_async_op" where
  "next_op em req s = \<lparr>op_id = uint (async_ref s AND 0xffff),
     op_caller = em_caller em (calls s), op_req = req\<rparr>"

lemma enq_async_full:
  assumes "async_wf s" "length (pending s) = INET_MAX_ASYNC"
  shows "enq_async em tbuf req s = (- 1, tbuf, s\<lparr>async_ref := async_ref s + 1\<rparr>)"
  using assms by (cases rule: async_wf_cases)
    (simp_all add: enq_async_def new_async_id_def Let_def)

lemma enq_async_free:
  assumes "async_wf s" "length (pending s) < INET_MAX_ASYNC"
  shows "\<exists>s'. enq_async em tbuf req s = (0, put_int16 (op_id (next_op em req s)), s') \<and>
              pending s' = pending s @ [next_op em req s] \<and> async_wf s' \<and>
              (\<exists>i j q. s' = s\<lparr>async_ref := async_ref s + 1, d_opt := j, d_op_queue := q,
                                d_oph := i\<rparr>)"
proof -
  obtain x where x: "d_op_queue s = [x]"
    using assms(1) by (auto simp: async_wf_def length_Suc_conv)
  show ?thesis
    using assms(1)
  proof (cases rule: async_wf_cases)
    case empty
    then show ?thesis
      using x by (simp add: enq_async_def new_async_id_def Let_def pending_def async_wf_def
          next_op_def) blast
  next
    case full
    then show ?thesis using assms(2) by simp
  qed
qed

lemma deq_async_spec:
  assumes "async_wf s"
  shows "case pending s of
           [] \<Rightarrow> deq_async s = (None, s)
         | x # rest \<Rightarrow> \<exists>s'. deq_async s = (Some x, s') \<and> pending s' = rest \<and> async_wf s' \<and>
             (\<exists>i j. s' = s\<lparr>d_opt := j, d_oph := i\<rparr>)"
proof -
  obtain x where x: "d_op_queue s = [x]"
    using assms by (auto simp: async_wf_def length_Suc_conv)
  show ?thesis
    using assms
  proof (cases rule: async_wf_cases)
    case empty
    then show ?thesis by (simp add: deq_async_def)
  next
    case full
    then show ?thesis
      using x by (simp add: deq_async_def Let_def pending_def async_wf_def) blast
  qed
qed

section \<open>Replies to asynchronous requests\<close>

definition send_async_ok :: "emulator \<Rightarrow> int \<Rightarrow> nat \<Rightarrow> drv \<Rightarrow> int \<times> drv" where
  "send_async_ok em aid recipient s =
     driver_call em (SendTerm recipient
       [TAtom ''inet_async'', TPort, TInt aid, TAtom ''ok'', TTuple 4]) s"

definition send_async_error :: "emulator \<Rightarrow> int \<Rightarrow> nat \<Rightarrow> string \<Rightarrow> drv \<Rightarrow> int \<times> drv" where
  "send_async_error em aid recipient reason s =
     driver_call em (SendTerm recipient
       [TAtom ''inet_async'', TPort, TInt aid, TAtom ''error'', TAtom reason, TTuple 2,
        TTuple 4]) s"

definition async_ok :: "emulator \<Rightarrow> drv \<Rightarrow> int \<times> drv" where
  "async_ok em s =
     (case deq_async s of
        (None, s) \<Rightarrow> (- 1, s)
      | (Some opp, s) \<Rightarrow> send_async_ok em (op_id opp) (op_caller opp) s)"

definition async_error_am :: "emulator \<Rightarrow> string \<Rightarrow> drv \<Rightarrow> int \<times> drv" where
  "async_error_am em reason s =
     (case deq_async s of
        (None, s) \<Rightarrow> (- 1, s)
      | (Some opp, s) \<Rightarrow> send_async_error em (op_id opp) (op_caller opp) reason s)"

text \<open>The loop of \<^verbatim>\<open>async_error_am_all\<close>, which runs as long as there is a request.\<close>

fun drain :: "('s \<Rightarrow> 'r option \<times> 's) \<Rightarrow> ('r \<Rightarrow> 's \<Rightarrow> 's) \<Rightarrow> nat \<Rightarrow> 's \<Rightarrow> (int, 's) outcome" where
  "drain deq tell 0 s = Inl Diverges"
| "drain deq tell (Suc fuel) s =
     (case deq s of
        (None, s) \<Rightarrow> Inr (0, s)
      | (Some x, s) \<Rightarrow> drain deq tell fuel (tell x s))"

definition async_error_am_all :: "emulator \<Rightarrow> string \<Rightarrow> drv \<Rightarrow> (int, drv) outcome" where
  "async_error_am_all em reason s =
     drain deq_async (\<lambda>opp s. snd (send_async_error em (op_id opp) (op_caller opp) reason s))
       (Suc INET_MAX_ASYNC) s"

text \<open>\<^verbatim>\<open>error_atom\<close>: the name of the errno, in lower case.\<close>

definition error_atom :: "emulator \<Rightarrow> errno \<Rightarrow> string" where
  "error_atom em err = map to_lower (em_errno em err)"

definition async_error :: "emulator \<Rightarrow> errno \<Rightarrow> drv \<Rightarrow> int \<times> drv" where
  "async_error em err s = async_error_am em (error_atom em err) s"

section \<open>Synchronous replies\<close>

definition inet_reply_ok :: "emulator \<Rightarrow> drv \<Rightarrow> int \<times> drv" where
  "inet_reply_ok em s =
     driver_call em (SendTerm (d_caller s) [TAtom ''inet_reply'', TPort, TAtom ''ok'', TTuple 3])
       (s\<lparr>d_caller := 0\<rparr>)"

definition inet_reply_error_am :: "emulator \<Rightarrow> string \<Rightarrow> drv \<Rightarrow> int \<times> drv" where
  "inet_reply_error_am em reason s =
     driver_call em (SendTerm (d_caller s)
       [TAtom ''inet_reply'', TPort, TAtom ''error'', TAtom reason, TTuple 2, TTuple 3])
       (s\<lparr>d_caller := 0\<rparr>)"

definition inet_reply_error :: "emulator \<Rightarrow> errno \<Rightarrow> drv \<Rightarrow> int \<times> drv" where
  "inet_reply_error em err s = inet_reply_error_am em (error_atom em err) s"

section \<open>Draining a queue of requests\<close>

locale request_queue =
  fixes deq :: "'s \<Rightarrow> 'r option \<times> 's"
    and waiting :: "'s \<Rightarrow> 'r list"
    and inv :: "'s \<Rightarrow> bool"
    and tell :: "'r \<Rightarrow> 's \<Rightarrow> 's"
    and reply :: "'r \<Rightarrow> 'c"
    and sent :: "'s \<Rightarrow> 'c list"
  assumes deq_none: "inv s \<Longrightarrow> waiting s = [] \<Longrightarrow> deq s = (None, s)"
    and deq_some: "inv s \<Longrightarrow> waiting s = x # xs \<Longrightarrow>
          \<exists>s'. deq s = (Some x, s') \<and> inv s' \<and> waiting s' = xs \<and> sent s' = sent s"
    and tell_inv: "inv s \<Longrightarrow> inv (tell x s)"
    and tell_waiting: "waiting (tell x s) = waiting s"
    and tell_sent: "sent (tell x s) = reply x # sent s"
begin

text \<open>Every request that waits gets one reply, in the order they came, and none is left.\<close>

lemma drain_replies:
  "inv s \<Longrightarrow> length (waiting s) < fuel \<Longrightarrow>
   \<exists>s'. drain deq tell fuel s = Inr (0, s') \<and> inv s' \<and> waiting s' = [] \<and>
        sent s' = rev (map reply (waiting s)) @ sent s"
proof (induction fuel arbitrary: s)
  case 0
  then show ?case by simp
next
  case (Suc fuel)
  show ?case
  proof (cases "waiting s")
    case Nil
    then show ?thesis using Suc.prems deq_none by simp
  next
    case (Cons x xs)
    then obtain s1 where s1: "deq s = (Some x, s1)" "inv s1" "waiting s1 = xs" "sent s1 = sent s"
      using Suc.prems(1) deq_some by blast
    moreover obtain s' where "drain deq tell fuel (tell x s1) = Inr (0, s')" "inv s'"
        "waiting s' = []" "sent s' = rev (map reply xs) @ sent (tell x s1)"
      using Suc.IH [of "tell x s1"] Suc.prems(2) Cons s1 tell_inv tell_waiting by force
    ultimately show ?thesis using Cons tell_sent by simp
  qed
qed

end

text \<open>The queue of the driver, with the error reply of any reason.\<close>

interpretation async: request_queue deq_async pending async_wf
  "\<lambda>opp s. snd (send_async_error em (op_id opp) (op_caller opp) reason s)"
  "\<lambda>opp. SendTerm (op_caller opp) [TAtom ''inet_async'', TPort, TInt (op_id opp),
           TAtom ''error'', TAtom reason, TTuple 2, TTuple 4]"
  calls for em reason
proof unfold_locales
  fix s x xs
  assume wf: "async_wf s" and p: "pending s = x # xs"
  then show "\<exists>s'. deq_async s = (Some x, s') \<and> async_wf s' \<and> pending s' = xs \<and>
      calls s' = calls s"
    using deq_async_spec [OF wf] by auto
qed (use deq_async_spec in \<open>force simp: send_async_error_def driver_call_def\<close>)+

end
