(* ===== verification/Http.thy ===== *)
theory Http
  imports Async
begin

text \<open>
  The HTTP packet type: the hash tables of known methods and header names, the parsing of a start
  line or a header line, and the message each line is turned into.  Parsing is a function from
  the line to an \<open>http_event\<close>; \<^verbatim>\<open>http_message\<close> (in \<open>Reply\<close>) runs it on the input buffer and
  sends the message of the event.
\<close>

section \<open>Characters\<close>

abbreviation (input) CR :: byte where "CR \<equiv> 13"
abbreviation (input) LF :: byte where "LF \<equiv> 10"

definition SP :: "byte \<Rightarrow> bool" where
  "SP c \<longleftrightarrow> c = 32 \<or> c = 9"

definition isdigit :: "byte \<Rightarrow> bool" where
  "isdigit c \<longleftrightarrow> 48 \<le> c \<and> c \<le> 57"

definition isupper :: "byte \<Rightarrow> bool" where
  "isupper c \<longleftrightarrow> 65 \<le> c \<and> c \<le> 90"

definition islower :: "byte \<Rightarrow> bool" where
  "islower c \<longleftrightarrow> 97 \<le> c \<and> c \<le> 122"

definition toupper :: "byte \<Rightarrow> byte" where
  "toupper c = (if islower c then c - 32 else c)"

definition tolower :: "byte \<Rightarrow> byte" where
  "tolower c = (if isupper c then c + 32 else c)"

text \<open>The table \<^verbatim>\<open>tspecial\<close> as \<^verbatim>\<open>http_init\<close> fills it; entry 127 stays 0.\<close>

definition tspecial :: "byte \<Rightarrow> bool" where
  "tspecial c \<longleftrightarrow> c < 33 \<or> c \<in> set [40, 41, 60, 62, 64, 44, 59, 58, 92, 34, 47, 91, 93, 63, 61, 123,
     125, 32, 9]"

definition is_tspecial :: "byte \<Rightarrow> bool" where
  "is_tspecial c = (if c > 32 \<and> c < 128 then tspecial c else True)"

section \<open>The hash tables\<close>

definition http_hdr_strings :: "string list" where
  "http_hdr_strings = [''Cache-Control'', ''Connection'', ''Date'', ''Pragma'',
     ''Transfer-Encoding'', ''Upgrade'', ''Via'', ''Accept'', ''Accept-Charset'',
     ''Accept-Encoding'', ''Accept-Language'', ''Authorization'', ''From'', ''Host'',
     ''If-Modified-Since'', ''If-Match'', ''If-None-Match'', ''If-Range'',
     ''If-Unmodified-Since'', ''Max-Forwards'', ''Proxy-Authorization'', ''Range'', ''Referer'',
     ''User-Agent'', ''Age'', ''Location'', ''Proxy-Authenticate'', ''Public'', ''Retry-After'',
     ''Server'', ''Vary'', ''Warning'', ''Www-Authenticate'', ''Allow'', ''Content-Base'',
     ''Content-Encoding'', ''Content-Language'', ''Content-Length'', ''Content-Location'',
     ''Content-Md5'', ''Content-Range'', ''Content-Type'', ''Etag'', ''Expires'',
     ''Last-Modified'', ''Accept-Ranges'', ''Set-Cookie'', ''Set-Cookie2'', ''X-Forwarded-For'',
     ''Cookie'', ''Keep-Alive'', ''Proxy-Connection'']"

definition http_meth_strings :: "string list" where
  "http_meth_strings =
     [''OPTIONS'', ''GET'', ''HEAD'', ''POST'', ''PUT'', ''DELETE'', ''TRACE'']"

abbreviation (input) HTTP_HDR_HASH_SIZE :: "64 word" where "HTTP_HDR_HASH_SIZE \<equiv> 53"
abbreviation (input) HTTP_METH_HASH_SIZE :: "64 word" where "HTTP_METH_HASH_SIZE \<equiv> 13"

record http_atom =
  h_hash :: "64 word"
  h_name :: "byte list"
  h_len :: nat
  h_index :: nat
  h_atom :: string

definition hash_update :: "64 word \<Rightarrow> byte \<Rightarrow> 64 word" where
  "hash_update h c =
     (let h = push_bit 4 h + ucast c; g = h AND 0xf0000000
      in if g \<noteq> 0 then (h XOR drop_bit 24 g) XOR g else h)"

definition hash_of :: "byte list \<Rightarrow> 64 word" where
  "hash_of = foldl hash_update 0"

text \<open>A table: for each bucket the chain of its entries, the one entered last first.\<close>

type_synonym http_table = "64 word \<Rightarrow> http_atom list"

definition http_hash :: "64 word \<Rightarrow> string \<Rightarrow> nat \<Rightarrow> http_table \<Rightarrow> http_table" where
  "http_hash hsize name i tab =
     (let hv = hash_of (bytes_of name); ix = hv mod hsize
      in tab(ix := \<lparr>h_hash = hv, h_name = bytes_of name, h_len = length name, h_index = i,
                    h_atom = name\<rparr> # tab ix))"

definition http_hash_lookup :: "64 word \<Rightarrow> byte list \<Rightarrow> 64 word \<Rightarrow> http_table \<Rightarrow> http_atom option"
where
  "http_hash_lookup hsize name hv tab =
     find (\<lambda>ap. h_hash ap = hv \<and> h_len ap = length name \<and>
                 take (length name) (h_name ap) = name) (tab (hv mod hsize))"

fun enter_names :: "64 word \<Rightarrow> nat \<Rightarrow> string list \<Rightarrow> http_table \<Rightarrow> http_table" where
  "enter_names hsize i [] tab = tab"
| "enter_names hsize i (name # names) tab =
     enter_names hsize (Suc i) names (http_hash hsize name i tab)"

definition http_hdr_hash :: http_table where
  "http_hdr_hash = enter_names HTTP_HDR_HASH_SIZE 0 http_hdr_strings (\<lambda>_. [])"

definition http_meth_hash :: http_table where
  "http_meth_hash = enter_names HTTP_METH_HASH_SIZE 0 http_meth_strings (\<lambda>_. [])"

section \<open>Lookup finds the names entered and no others\<close>

definition entry :: "string \<Rightarrow> nat \<Rightarrow> http_atom" where
  "entry name i = \<lparr>h_hash = hash_of (bytes_of name), h_name = bytes_of name, h_len = length name,
                   h_index = i, h_atom = name\<rparr>"

lemma unat_of_char: "unat (of_char c :: byte) = of_char c"
proof -
  have "(of_char c :: byte) = of_nat (of_char c)" by (simp only: of_nat_of_char)
  then show ?thesis using nat_of_char_less_256 [of c] by (simp add: unat_of_nat)
qed

lemma bytes_of_inject [simp]: "bytes_of a = bytes_of b \<longleftrightarrow> a = b"
proof -
  have "inj (of_char :: char \<Rightarrow> byte)"
  proof (rule injI)
    fix x y :: char
    assume "(of_char x :: byte) = of_char y"
    then have "(of_char x :: nat) = of_char y" by (metis unat_of_char)
    then show "x = y" by simp
  qed
  then show ?thesis by (simp add: bytes_of_def)
qed

lemma lookup_http_hash:
  "http_hash_lookup hsize name (hash_of name) (http_hash hsize n i tab) =
     (if bytes_of n = name then Some (entry n i)
      else http_hash_lookup hsize name (hash_of name) tab)"
proof (cases "bytes_of n = name")
  case True
  then have "length name = length n" by auto
  with True show ?thesis
    by (simp add: http_hash_lookup_def http_hash_def entry_def Let_def)
next
  case False
  let ?P = "\<lambda>ap. h_hash ap = hash_of name \<and> h_len ap = length name \<and>
                 take (length name) (h_name ap) = name"
  let ?e = "\<lparr>h_hash = hash_of (bytes_of n), h_name = bytes_of n, h_len = length n, h_index = i,
             h_atom = n\<rparr>"
  have "\<not> ?P ?e"
    using False by (metis bytes_of_simps(3) http_atom.select_convs(2,3) order_refl take_all)
  then have "find ?P (?e # l) = find ?P l" for l by (simp only: find.simps if_False)
  with False show ?thesis
    unfolding http_hash_lookup_def http_hash_def Let_def fun_upd_apply by presburger
qed

lemma lookup_unknown:
  "name \<notin> bytes_of ` set names \<Longrightarrow>
   http_hash_lookup hsize name (hash_of name) (enter_names hsize i names tab) =
     http_hash_lookup hsize name (hash_of name) tab"
  by (induction names arbitrary: i tab) (auto simp: lookup_http_hash)

lemma lookup_known:
  "distinct names \<Longrightarrow> k < length names \<Longrightarrow>
   http_hash_lookup hsize (bytes_of (names ! k)) (hash_of (bytes_of (names ! k)))
     (enter_names hsize i names tab) = Some (entry (names ! k) (i + k))"
proof (induction names arbitrary: i tab k)
  case Nil
  then show ?case by simp
next
  case (Cons name names)
  show ?case
  proof (cases k)
    case 0
    then have "bytes_of ((name # names) ! k) \<notin> bytes_of ` set names"
      using Cons.prems by auto
    then show ?thesis using 0 by (simp add: lookup_unknown lookup_http_hash)
  next
    case (Suc k')
    then show ?thesis
      using Cons.IH [of k' "Suc i" "http_hash hsize name i tab"] Cons.prems by simp
  qed
qed

lemma lookup_empty [simp]: "http_hash_lookup hsize name hv (\<lambda>_. []) = None"
  by (simp add: http_hash_lookup_def)

lemma distinct_http_strings: "distinct http_hdr_strings" "distinct http_meth_strings"
  by (simp_all add: http_hdr_strings_def http_meth_strings_def)

lemma hdr_lookup_known:
  "k < length http_hdr_strings \<Longrightarrow>
   http_hash_lookup HTTP_HDR_HASH_SIZE (bytes_of (http_hdr_strings ! k))
     (hash_of (bytes_of (http_hdr_strings ! k))) http_hdr_hash =
   Some (entry (http_hdr_strings ! k) k)"
  using lookup_known [OF distinct_http_strings(1), where i = 0 and hsize = 53]
  by (simp add: http_hdr_hash_def)

lemma hdr_lookup_unknown:
  "name \<notin> bytes_of ` set http_hdr_strings \<Longrightarrow>
   http_hash_lookup HTTP_HDR_HASH_SIZE name (hash_of name) http_hdr_hash = None"
  by (simp add: http_hdr_hash_def lookup_unknown)

lemma meth_lookup_known:
  "k < length http_meth_strings \<Longrightarrow>
   http_hash_lookup HTTP_METH_HASH_SIZE (bytes_of (http_meth_strings ! k))
     (hash_of (bytes_of (http_meth_strings ! k))) http_meth_hash =
   Some (entry (http_meth_strings ! k) k)"
  using lookup_known [OF distinct_http_strings(2), where i = 0 and hsize = 13]
  by (simp add: http_meth_hash_def)

lemma meth_lookup_unknown:
  "name \<notin> bytes_of ` set http_meth_strings \<Longrightarrow>
   http_hash_lookup HTTP_METH_HASH_SIZE name (hash_of name) http_meth_hash = None"
  by (simp add: http_meth_hash_def lookup_unknown)

section \<open>Parsing\<close>

text \<open>
  A decimal number at the front of the bytes, accumulated in an int: the digits are the source's
  \<^verbatim>\<open>n = 10*n + (*ptr - '0')\<close>.
\<close>

fun parse_num :: "int \<Rightarrow> byte list \<Rightarrow> fault + int \<times> byte list" where
  "parse_num acc [] = Inr (acc, [])"
| "parse_num acc (c # cs) =
     (if isdigit c then checked (10 * acc + (uint c - 48)) (\<lambda>acc. parse_num acc cs)
      else Inr (acc, c # cs))"

fun starts_with :: "(byte \<Rightarrow> bool) \<Rightarrow> byte list \<Rightarrow> bool" where
  "starts_with p [] = False"
| "starts_with p (c # cs) = p c"

text \<open>The result of a line: \<^verbatim>\<open>return -1\<close>, \<^verbatim>\<open>return 0\<close>, or one of the messages.\<close>

datatype http_event =
    HttpFail
  | HttpSkip
  | HttpResponse int int int "byte list"
  | HttpRequest "http_atom option" "byte list" "byte list" int int
  | HttpHeader "http_atom option" "byte list" "byte list"
  | HttpEoh

text \<open>\<^verbatim>\<open>1*DIGIT "." 1*DIGIT\<close>, which the continuation gets with what follows.\<close>

definition parse_version ::
  "byte list \<Rightarrow> (int \<Rightarrow> int \<Rightarrow> byte list \<Rightarrow> fault + http_event) \<Rightarrow> fault + http_event" where
  "parse_version p k =
     (if \<not> starts_with isdigit p then Inr HttpFail
      else case parse_num 0 p of
        Inl e \<Rightarrow> Inl e
      | Inr (major, p) \<Rightarrow>
          if \<not> starts_with (\<lambda>c. c = 46) p then Inr HttpFail
          else let p = tl p in
            if \<not> starts_with isdigit p then Inr HttpFail
            else case parse_num 0 p of
              Inl e \<Rightarrow> Inl e
            | Inr (minor, p) \<Rightarrow> k major minor p)"

text \<open>The bytes after \<^verbatim>\<open>"HTTP" "/"\<close> of a status line.\<close>

definition http_status_line :: "byte list \<Rightarrow> fault + http_event" where
  "http_status_line p = parse_version p (\<lambda>major minor p.
     if \<not> starts_with SP p then Inr HttpFail
     else case parse_num 0 (dropWhile SP p) of
       Inl e \<Rightarrow> Inl e
     | Inr (status, p) \<Rightarrow>
         if \<not> starts_with SP p then Inr HttpFail
         else Inr (HttpResponse major minor status (dropWhile SP p)))"

text \<open>The bytes of a request line from the white space after the method.\<close>

definition http_request_line ::
  "http_atom option \<Rightarrow> byte list \<Rightarrow> byte list \<Rightarrow> fault + http_event" where
  "http_request_line meth meth_str p =
     (let p = dropWhile SP p;
          uri = takeWhile (\<lambda>c. \<not> SP c) p;
          p = dropWhile SP (dropWhile (\<lambda>c. \<not> SP c) p)
      in if uri = [] then Inr HttpFail
         else if p = [] then Inr (HttpRequest meth meth_str uri 0 9)
         else if length p < 8 then Inr HttpFail
         else if take 5 p \<noteq> bytes_of ''HTTP/'' then Inr HttpFail
         else parse_version (drop 5 p)
                (\<lambda>major minor _. Inr (HttpRequest meth meth_str uri major minor)))"

definition http_start_line :: "byte list \<Rightarrow> fault + http_event" where
  "http_start_line line =
     (if line = [] then Inr HttpSkip
      else
        let meth_str = takeWhile (\<lambda>c. \<not> is_tspecial c) line;
            p = dropWhile (\<lambda>c. \<not> is_tspecial c) line;
            meth = http_hash_lookup HTTP_METH_HASH_SIZE meth_str (hash_of meth_str) http_meth_hash
        in if meth_str = [] then Inr HttpFail
           else if p = [] then Inr HttpFail
           else if hd p = 47 \<and> take 4 line = bytes_of ''HTTP'' then http_status_line (tl p)
           else if SP (hd p) then http_request_line meth meth_str p
           else Inr HttpFail)"

text \<open>
  The name of a header, capitalised after each hyphen and in lower case elsewhere: the bytes the
  loop has rewritten in the buffer, and the rest of the line.
\<close>

fun canon_name :: "bool \<Rightarrow> byte list \<Rightarrow> byte list \<times> byte list" where
  "canon_name up [] = ([], [])"
| "canon_name up (c # cs) =
     (if is_tspecial c then ([], c # cs)
      else
        let (c', up') = (if up then (if islower c then toupper c else c, False)
                         else (if isupper c then tolower c else c, c = 45));
            (name, rest) = canon_name up' cs
        in (c' # name, rest))"

text \<open>
  A header line; \<open>past\<close> are the bytes of memory after the line, of which the test for the colon
  may read the first.  The result carries the rewritten bytes.  When the line ends with the name
  and a colon happens to follow, the loop that skips white space runs with a negative count.
\<close>

definition http_header_line :: "byte list \<Rightarrow> byte list \<Rightarrow> fault + http_event \<times> byte list" where
  "http_header_line line past =
     (if line = [] then Inr (HttpEoh, [])
      else
        let (name_str, p) = canon_name True line;
            name = http_hash_lookup HTTP_HDR_HASH_SIZE name_str (hash_of name_str) http_hdr_hash
        in if p = [] then
             (if past = [] then Inl OutOfBounds
              else if hd past \<noteq> 58 then Inr (HttpFail, name_str)
              else Inl OutOfBounds)
           else if hd p \<noteq> 58 then Inr (HttpFail, name_str)
           else Inr (HttpHeader name name_str (dropWhile SP (tl p)), name_str))"

section \<open>Header names are matched in any case\<close>

text \<open>
  \<open>capitalised\<close> is the form the header loop brings a name to; every name of the table is in that
  form, so any spelling of it in upper and lower case is rewritten to it and found.
\<close>

lemma isupper_nat: "isupper c \<longleftrightarrow> 65 \<le> unat c \<and> unat c \<le> 90"
  by (simp add: isupper_def word_le_nat_alt)

lemma islower_nat: "islower c \<longleftrightarrow> 97 \<le> unat c \<and> unat c \<le> 122"
  by (simp add: islower_def word_le_nat_alt)

lemma unat_tolower: "unat (tolower c) = (if isupper c then unat c + 32 else unat c)"
  by (auto simp: tolower_def isupper_nat unat_plus_if_size word_size)

lemma is_tspecial_nat: "is_tspecial c \<longleftrightarrow> unat c < 33 \<or> 128 \<le> unat c \<or>
  unat c \<in> {40, 41, 60, 62, 64, 44, 59, 58, 92, 34, 47, 91, 93, 63, 61, 123, 125}"
  by (auto simp: is_tspecial_def tspecial_def word_less_nat_alt word_unat_eq_iff)

lemma is_tspecial_tolower [simp]: "is_tspecial (tolower c) = is_tspecial c"
  by (auto simp: is_tspecial_nat unat_tolower isupper_nat)

lemma not_isupper_tolower [simp]: "\<not> isupper (tolower c)"
  by (auto simp: unat_tolower isupper_nat)

lemma toupper_tolower: "isupper c \<Longrightarrow> toupper (tolower c) = c"
  by (auto simp: toupper_def unat_tolower islower_nat isupper_nat) (simp add: tolower_def isupper_nat)

lemma tolower_id: "\<not> isupper c \<Longrightarrow> tolower c = c"
  by (simp add: tolower_def)

lemma up_low:
  "(if islower (tolower c) then toupper (tolower c) else tolower c) =
   (if islower c then toupper c else c)"
  by (cases "isupper c") (auto simp: toupper_tolower tolower_id, auto simp: islower_nat isupper_nat unat_tolower)

lemma tolower_45: "tolower c = 45 \<longleftrightarrow> c = 45"
  by (auto simp: word_unat_eq_iff unat_tolower isupper_nat split: if_splits)

lemma canon_name_tolower:
  "fst (canon_name up (map tolower cs)) = fst (canon_name up cs)"
proof (induction cs arbitrary: up)
  case (Cons c cs)
  show ?case
  proof (cases up)
    case True
    then show ?thesis using Cons [of False] up_low [of c]
      by (auto simp: Let_def split: prod.splits)
  next
    case False
    then show ?thesis using Cons [of "c = 45"]
      by (auto simp: Let_def tolower_45 tolower_id split: prod.splits)
  qed
qed simp

fun capitalised :: "bool \<Rightarrow> string \<Rightarrow> bool" where
  "capitalised up [] = True"
| "capitalised up (c # cs) =
     (let n = of_char c :: nat
      in (n = 45 \<or> 48 \<le> n \<and> n \<le> 57 \<or> 65 \<le> n \<and> n \<le> 90 \<or> 97 \<le> n \<and> n \<le> 122) \<and>
         (if up then n < 97 else n < 65 \<or> 90 < n) \<and> capitalised (\<not> up \<and> n = 45) cs)"

lemma of_char_45: "(of_char c :: byte) = 45 \<longleftrightarrow> (of_char c :: nat) = 45"
  by (simp add: word_unat_eq_iff unat_of_char)

lemma canon_name_capitalised:
  "capitalised up s \<Longrightarrow> starts_with is_tspecial r \<or> r = [] \<Longrightarrow>
   canon_name up (bytes_of s @ r) = (bytes_of s, r)"
proof (induction s arbitrary: up)
  case Nil
  then show ?case by (cases r) auto
next
  case (Cons c s)
  let ?n = "of_char c :: nat"
  have rest: "capitalised (\<not> up \<and> ?n = 45) s" using Cons.prems(1) by (simp add: Let_def)
  have rng: "?n = 45 \<or> 48 \<le> ?n \<and> ?n \<le> 57 \<or> 65 \<le> ?n \<and> ?n \<le> 90 \<or> 97 \<le> ?n \<and> ?n \<le> 122"
    using Cons.prems(1) by (simp add: Let_def)
  then have plain: "\<not> is_tspecial (of_char c)"
    by (simp add: is_tspecial_nat unat_of_char) linarith
  have keep: "if up then \<not> islower (of_char c) else \<not> isupper (of_char c)"
    using Cons.prems(1) by (auto simp: Let_def islower_nat isupper_nat unat_of_char)
  have "canon_name (\<not> up \<and> ?n = 45) (bytes_of s @ r) = (bytes_of s, r)"
    using rest Cons.prems(2) by (rule Cons.IH)
  with plain keep show ?case by (cases up) (simp_all add: of_char_45)
qed

lemma capitalised_hdr: "list_all (capitalised True) http_hdr_strings"
  by (simp add: http_hdr_strings_def)

lemma canon_name_append:
  "\<forall>c \<in> set n. \<not> is_tspecial c \<Longrightarrow> starts_with is_tspecial r \<Longrightarrow>
   canon_name up (n @ r) = (fst (canon_name up n), r)"
proof (induction n arbitrary: up)
  case Nil
  then show ?case by (cases r) auto
next
  case (Cons c n)
  then show ?case by (simp add: Let_def split: prod.split)
qed

lemma is_tspecial_colon [simp]: "is_tspecial 58"
  by (simp add: is_tspecial_def tspecial_def)

lemma capitalised_plain: "capitalised up s \<Longrightarrow> \<forall>c \<in> set (bytes_of s). \<not> is_tspecial c"
proof (induction s arbitrary: up)
  case Nil
  then show ?case by simp
next
  case (Cons c s)
  let ?n = "of_char c :: nat"
  have "?n = 45 \<or> 48 \<le> ?n \<and> ?n \<le> 57 \<or> 65 \<le> ?n \<and> ?n \<le> 90 \<or> 97 \<le> ?n \<and> ?n \<le> 122"
    using Cons.prems by (simp add: Let_def)
  then have "\<not> is_tspecial (of_char c)"
    by (simp add: is_tspecial_nat unat_of_char) linarith
  moreover have "\<forall>c \<in> set (bytes_of s). \<not> is_tspecial c"
    using Cons by (auto simp: Let_def)
  ultimately show ?case by simp
qed

lemma header_any_case:
  assumes k: "k < length http_hdr_strings"
    and n: "map tolower n = map tolower (bytes_of (http_hdr_strings ! k))"
  shows "canon_name True (n @ 58 # v) = (bytes_of (http_hdr_strings ! k), 58 # v)"
proof -
  have cap: "capitalised True (http_hdr_strings ! k)"
    using capitalised_hdr k by (simp add: list_all_length)
  have "\<forall>c \<in> set (map tolower n). \<not> is_tspecial c"
    using capitalised_plain [OF cap] by (simp add: n)
  then have plain: "\<forall>c \<in> set n. \<not> is_tspecial c" by simp
  have "fst (canon_name True n) = fst (canon_name True (map tolower n))"
    by (simp only: canon_name_tolower)
  also have "\<dots> = fst (canon_name True (bytes_of (http_hdr_strings ! k)))"
    by (simp only: n canon_name_tolower)
  also have "\<dots> = bytes_of (http_hdr_strings ! k)"
    using canon_name_capitalised [OF cap, of "[]"] by simp
  finally show ?thesis
    using canon_name_append [OF plain, of "58 # v" True] by simp
qed

section \<open>Numbers\<close>

text \<open>The decimal representation of a number, for the round trips.\<close>

fun num_bytes :: "nat \<Rightarrow> byte list" where
  "num_bytes n = (if n < 10 then [of_nat (48 + n)]
                  else num_bytes (n div 10) @ [of_nat (48 + n mod 10)])"

declare num_bytes.simps [simp del]

lemma digit_byte:
  "d < 10 \<Longrightarrow> isdigit (of_nat (48 + d)) \<and> uint (of_nat (48 + d) :: byte) = int (48 + d)"
proof -
  assume "d < 10"
  then have "unat (of_nat (48 + d) :: byte) = 48 + d" by (simp only: unat_of_nat) simp
  then show ?thesis
    using \<open>d < 10\<close> by (simp add: isdigit_def word_le_nat_alt uint_nat del: of_nat_add)
qed

lemma parse_num_bytes:
  "int n \<le> 2147483647 \<Longrightarrow> parse_num 0 (num_bytes n @ r) = parse_num (int n) r"
proof (induction n arbitrary: r rule: num_bytes.induct)
  case (1 n)
  show ?case
  proof (cases "n < 10")
    case True
    then show ?thesis
      using digit_byte [of n] 1(2) by (subst num_bytes.simps) (simp add: checked_def)
  next
    case False
    have "parse_num 0 (num_bytes (n div 10) @ of_nat (48 + n mod 10) # r) =
        parse_num (int (n div 10)) (of_nat (48 + n mod 10) # r)"
      using 1 False by simp
    also have "\<dots> = parse_num (int n) r"
    proof -
      have d: "n mod 10 < 10" by simp
      have "10 * int (n div 10) + (int (48 + n mod 10) - 48) = int n" by presburger
      then show ?thesis
        using digit_byte [OF d] 1(2) by (simp add: checked_def del: of_nat_add)
    qed
    finally show ?thesis using False by (subst num_bytes.simps) simp
  qed
qed

lemma num_bytes_digit: "\<exists>c cs. num_bytes n = c # cs \<and> isdigit c"
proof (induction n rule: num_bytes.induct)
  case (1 n)
  then show ?case
    using digit_byte [of n] by (subst num_bytes.simps) (auto simp del: of_nat_add)
qed

lemma starts_with_num_bytes [simp]: "starts_with isdigit (num_bytes n @ r)"
  using num_bytes_digit [of n] by auto

lemma parse_num_stop: "\<not> starts_with isdigit r \<Longrightarrow> parse_num acc r = Inr (acc, r)"
  by (cases r) auto

lemma parse_num_num_bytes:
  "int n \<le> 2147483647 \<Longrightarrow> \<not> starts_with isdigit r \<Longrightarrow>
   parse_num 0 (num_bytes n @ r) = Inr (int n, r)"
  by (simp add: parse_num_bytes parse_num_stop)

definition version_bytes :: "nat \<Rightarrow> nat \<Rightarrow> byte list" where
  "version_bytes major minor = num_bytes major @ 46 # num_bytes minor"

lemma parse_version_bytes:
  assumes "int major \<le> 2147483647" "int minor \<le> 2147483647" "\<not> starts_with isdigit r"
  shows "parse_version (version_bytes major minor @ r) k = k (int major) (int minor) r"
proof -
  have dot: "\<not> isdigit 46" by (simp add: isdigit_def)
  show ?thesis
    using assms dot by (simp add: parse_version_def version_bytes_def parse_num_num_bytes)
qed

section \<open>Lines read back\<close>

lemma takeWhile_stop: "(\<forall>c \<in> set xs. P c) \<Longrightarrow> \<not> P y \<Longrightarrow> takeWhile P (xs @ y # r) = xs"
  by (simp add: takeWhile_append)

lemma dropWhile_stop: "(\<forall>c \<in> set xs. P c) \<Longrightarrow> \<not> P y \<Longrightarrow> dropWhile P (xs @ y # r) = y # r"
  by (simp add: dropWhile_append)

lemma SP_simps [simp]: "SP 32" "is_tspecial 32" "is_tspecial 47" "\<not> SP 47" "\<not> isdigit 32"
  by (simp_all add: SP_def is_tspecial_def tspecial_def isdigit_def)

lemma num_bytes_not_SP: "\<exists>c cs. num_bytes n = c # cs \<and> \<not> SP c"
proof -
  obtain c cs where "num_bytes n = c # cs" "isdigit c" using num_bytes_digit by blast
  moreover have "\<not> SP c" using \<open>isdigit c\<close> by (auto simp: isdigit_def SP_def)
  ultimately show ?thesis by blast
qed

lemma dropWhile_num_bytes [simp]: "dropWhile SP (num_bytes n @ r) = num_bytes n @ r"
  using num_bytes_not_SP [of n] by auto

lemma http_status_line_bytes:
  assumes "int major \<le> 2147483647" "int minor \<le> 2147483647" "int status \<le> 2147483647"
    and "\<not> starts_with SP phrase"
  shows "http_start_line (bytes_of ''HTTP/'' @ version_bytes major minor @ 32 # num_bytes status @ 32 # phrase) =
         Inr (HttpResponse (int major) (int minor) (int status) phrase)"
proof -
  have "dropWhile SP phrase = phrase" using assms(4) by (cases phrase) auto
  moreover have "\<not> starts_with isdigit (32 # r)" for r by simp
  moreover have "bytes_of ''HTTP/'' @ r = bytes_of ''HTTP'' @ 47 # r" for r by simp
  moreover have "\<forall>c \<in> set (bytes_of ''HTTP''). \<not> is_tspecial c" by (simp add: is_tspecial_def tspecial_def)
  ultimately show ?thesis
    using assms(1-3)
    by (simp only: http_start_line_def takeWhile_stop dropWhile_stop)
       (simp add: takeWhile_stop dropWhile_stop http_status_line_def parse_version_bytes
         parse_num_num_bytes is_tspecial_def tspecial_def)
qed

lemma num_bytes_nonempty: "num_bytes n \<noteq> []"
  using num_bytes_digit [of n] by auto

lemma http_request_line_bytes:
  assumes "int major \<le> 2147483647" "int minor \<le> 2147483647"
    and meth: "meth \<noteq> []" "\<forall>c \<in> set meth. \<not> is_tspecial c"
    and uri: "uri \<noteq> []" "\<forall>c \<in> set uri. \<not> SP c"
  shows "http_start_line (meth @ 32 # uri @ 32 # bytes_of ''HTTP/'' @ version_bytes major minor) =
         Inr (HttpRequest (http_hash_lookup HTTP_METH_HASH_SIZE meth (hash_of meth) http_meth_hash)
                meth uri (int major) (int minor))"
proof -
  let ?ver = "bytes_of ''HTTP/'' @ version_bytes major minor"
  have d: "dropWhile SP (32 # uri @ 32 # ?ver) = uri @ 32 # ?ver"
    using uri by (cases uri) simp_all
  have d2: "dropWhile SP (32 # ?ver) = ?ver" by (simp add: SP_def)
  have len: "8 \<le> length ?ver"
    using num_bytes_nonempty [of major] num_bytes_nonempty [of minor]
    by (cases "num_bytes major"; cases "num_bytes minor") (simp_all add: version_bytes_def)
  have ver: "parse_version (version_bytes major minor) k = k (int major) (int minor) []" for k
    using parse_version_bytes [OF assms(1,2), of "[]" k] by simp
  have not: "\<not> (\<lambda>c. \<not> SP c) 32" "\<not> (\<lambda>c. \<not> is_tspecial c) 32" by simp_all
  have tw: "takeWhile (\<lambda>c. \<not> SP c) (uri @ 32 # ?ver) = uri"
    "dropWhile (\<lambda>c. \<not> SP c) (uri @ 32 # ?ver) = 32 # ?ver"
    using takeWhile_stop [OF uri(2) not(1)] dropWhile_stop [OF uri(2) not(1)] by blast+
  have mw: "takeWhile (\<lambda>c. \<not> is_tspecial c) (meth @ 32 # r) = meth"
    "dropWhile (\<lambda>c. \<not> is_tspecial c) (meth @ 32 # r) = 32 # r" for r
    using takeWhile_stop [OF meth(2) not(2)] dropWhile_stop [OF meth(2) not(2)] by blast+
  have line: "http_request_line m meth (32 # uri @ 32 # ?ver) = Inr (HttpRequest m meth uri (int major) (int minor))"
    for m
    unfolding http_request_line_def Let_def d tw d2 using len uri(1) ver by simp
  show ?thesis
    unfolding http_start_line_def Let_def mw using meth(1) line by simp
qed

lemma http_header_line_bytes:
  assumes "k < length http_hdr_strings"
    and "map tolower n = map tolower (bytes_of (http_hdr_strings ! k))"
    and "\<forall>c \<in> set sp. SP c" "\<not> starts_with SP v"
  shows "http_header_line (n @ 58 # sp @ v) past =
     Inr (HttpHeader (Some (entry (http_hdr_strings ! k) k)) (bytes_of (http_hdr_strings ! k)) v,
          bytes_of (http_hdr_strings ! k))"
proof -
  have "dropWhile SP (sp @ v) = v"
    using assms(3,4) by (cases v) (simp_all add: dropWhile_append)
  then show ?thesis
    using header_any_case [OF assms(1,2), of "sp @ v"] hdr_lookup_known [OF assms(1)]
    by (simp add: http_header_line_def)
qed

end
