(* ===== verification/Buffers.thy ===== *)
theory Buffers
  imports Loop_State
begin

text \<open>
  The input buffer of a port and the stack of free buffers behind it.  \<open>buffered\<close> is the abstract
  view: the bytes read from the queue and not yet delivered, \<^verbatim>\<open>i_ptr_start\<close> to \<^verbatim>\<open>i_ptr\<close>.  \<open>buf_inv\<close> is the
  invariant of the pointers, of \<^verbatim>\<open>i_remain\<close> and of the stack; each operation keeps it, makes no
  access outside the buffer, and acts on \<open>buffered\<close> as its comment says.
\<close>

section \<open>The stack of free buffers\<close>

definition alloc_buffer :: "emulator \<Rightarrow> int \<Rightarrow> drv \<Rightarrow> binary option \<times> drv" where
  "alloc_buffer em minsz s =
     (case buffer_stack s of
        buf # stk \<Rightarrow>
          let s = s\<lparr>buffer_stack := stk\<rparr>
          in if orig_size buf < minsz then driver_realloc_binary em buf minsz s
             else (Some buf, s)
      | [] \<Rightarrow> driver_alloc_binary em minsz s)"

definition release_buffer :: "binary option \<Rightarrow> drv \<Rightarrow> drv" where
  "release_buffer p s =
     (case p of
        None \<Rightarrow> s
      | Some buf \<Rightarrow>
          if orig_size buf > INET_MAX_BUFFER \<or> length (buffer_stack s) \<ge> BUFFER_STACK_SIZE
          then log_call FreeBinary s
          else s\<lparr>buffer_stack := buf # buffer_stack s\<rparr>)"

definition free_buffer :: "binary option \<Rightarrow> drv \<Rightarrow> drv" where
  "free_buffer p s =
     (case p of
        None \<Rightarrow> s
      | Some buf \<Rightarrow> if refc buf = 1 then release_buffer (Some buf) s else log_call FreeBinary s)"

text \<open>
  At most 16 buffers of at most 64 kB are kept, and the emulator holds no reference to any of
  them, so no message sent can change when a buffer is used again.
\<close>

definition stack_ok :: "drv \<Rightarrow> bool" where
  "stack_ok s \<longleftrightarrow> length (buffer_stack s) \<le> BUFFER_STACK_SIZE \<and>
     (\<forall>b \<in> set (buffer_stack s). orig_size b \<le> INET_MAX_BUFFER \<and> refc b = 1)"

lemma alloc_buffer_cases:
  assumes "stack_ok s" "0 \<le> minsz"
  obtains (null) h stk where
      "alloc_buffer em minsz s = (None, s\<lparr>calls := h, buffer_stack := stk\<rparr>)"
      "\<exists>h. \<not> em_alloc em h" "stack_ok (s\<lparr>calls := h, buffer_stack := stk\<rparr>)"
  | (ok) b h stk where
      "alloc_buffer em minsz s = (Some b, s\<lparr>calls := h, buffer_stack := stk\<rparr>)"
      "minsz \<le> orig_size b" "refc b = 1" "stack_ok (s\<lparr>calls := h, buffer_stack := stk\<rparr>)"
proof (cases "buffer_stack s")
  case Nil
  let ?h = "AllocBinary minsz # calls s"
  have upd: "log_call (AllocBinary minsz) s = s\<lparr>calls := ?h, buffer_stack := []\<rparr>"
    using Nil by simp
  show thesis
  proof (cases "em_alloc em ?h")
    case True
    then show thesis
      using ok [where b = "\<lparr>orig_bytes = junk em (log_call (AllocBinary minsz) s) (nat minsz),
          refc = 1\<rparr>" and h = ?h and stk = "[]"] assms Nil upd
      by (simp add: alloc_buffer_def driver_alloc_binary_def Let_def stack_ok_def)
  next
    case False
    then show thesis
      using null [where h = ?h and stk = "[]"] assms Nil upd
      by (auto simp: alloc_buffer_def driver_alloc_binary_def Let_def stack_ok_def)
  qed
next
  case (Cons buf stk)
  let ?h = "ReallocBinary minsz # calls s"
  show thesis
  proof (cases "orig_size buf < minsz")
    case False
    then show thesis
      using ok [where b = buf and h = "calls s" and stk = stk] assms Cons
      by (simp add: alloc_buffer_def Let_def stack_ok_def)
  next
    case True
    show thesis
    proof (cases "em_alloc em ?h")
      case False
      then show thesis
        using null [where h = ?h and stk = stk] assms Cons \<open>orig_size buf < minsz\<close>
        by (auto simp: alloc_buffer_def driver_realloc_binary_def Let_def stack_ok_def)
    next
      case True
      then show thesis
        using ok [where b = "buf\<lparr>orig_bytes := take (nat minsz) (orig_bytes buf) @
            junk em (log_call (ReallocBinary minsz) (s\<lparr>buffer_stack := stk\<rparr>))
              (nat minsz - length (orig_bytes buf))\<rparr>" and h = ?h and stk = stk] assms Cons \<open>orig_size buf < minsz\<close>
        by (simp add: alloc_buffer_def driver_realloc_binary_def Let_def stack_ok_def)
    qed
  qed
qed

lemma release_buffer_frame:
  "\<exists>h stk. release_buffer p s = s\<lparr>calls := h, buffer_stack := stk\<rparr>"
  "\<exists>h stk. free_buffer p s = s\<lparr>calls := h, buffer_stack := stk\<rparr>"
proof -
  have keep: "\<exists>h stk. s = s\<lparr>calls := h, buffer_stack := stk\<rparr>"
    by (rule exI [of _ "calls s"], rule exI [of _ "buffer_stack s"]) simp
  have free: "\<exists>h stk. log_call c s = s\<lparr>calls := h, buffer_stack := stk\<rparr>" for c
    by (rule exI [of _ "c # calls s"], rule exI [of _ "buffer_stack s"]) simp
  have push: "\<exists>h stk. s\<lparr>buffer_stack := st\<rparr> = s\<lparr>calls := h, buffer_stack := stk\<rparr>" for st
    by (rule exI [of _ "calls s"], rule exI [of _ st]) simp
  show *: "\<exists>h stk. release_buffer p s = s\<lparr>calls := h, buffer_stack := stk\<rparr>" for p
    using keep free push by (auto simp: release_buffer_def split: option.split)
  show "\<exists>h stk. free_buffer p s = s\<lparr>calls := h, buffer_stack := stk\<rparr>"
    using keep free * by (simp add: free_buffer_def split: option.split)
qed

lemma free_buffer_stack_ok: "stack_ok s \<Longrightarrow> stack_ok (free_buffer p s)"
  by (auto simp: free_buffer_def release_buffer_def stack_ok_def split: option.split)

lemma release_buffer_stack_ok:
  "stack_ok s \<Longrightarrow> (\<And>b. p = Some b \<Longrightarrow> refc b = 1) \<Longrightarrow> stack_ok (release_buffer p s)"
  by (auto simp: release_buffer_def stack_ok_def split: option.split)

section \<open>The input buffer\<close>

definition loop_expand_buffer :: "emulator \<Rightarrow> int \<Rightarrow> drv \<Rightarrow> (int, drv) outcome" where
  "loop_expand_buffer em len s = deref (i_buf s) (\<lambda>b.
     let used = i_ptr_start s in
     checked (used + len) (\<lambda>ulen.
       if i_bufsz s \<ge> ulen then Inr (0, s)
       else if orig_size b \<ge> ulen then Inr (0, s\<lparr>i_bufsz := ulen\<rparr>)
       else
         let offs1 = i_ptr_start s; offs2 = i_ptr s - i_ptr_start s
         in case driver_realloc_binary em b ulen s of
              (None, s) \<Rightarrow> Inr (- 1, s)
            | (Some bin, s) \<Rightarrow> Inr (0, s\<lparr>i_buf := Some bin, i_ptr_start := offs1,
                                        i_ptr := offs1 + offs2, i_bufsz := ulen\<rparr>)))"

text \<open>The result of \<^verbatim>\<open>alloc_buffer\<close> is used without a check for NULL.\<close>

definition loop_push_buffer :: "emulator \<Rightarrow> byte list \<Rightarrow> drv \<Rightarrow> (int, drv) outcome" where
  "loop_push_buffer em buf s =
     (let len = int (length buf) in
      case i_buf s of
        None \<Rightarrow>
          (case alloc_buffer em len s of (p, s) \<Rightarrow>
             deref p (\<lambda>bin. writing (orig_bytes bin) 0 buf (\<lambda>m.
               Inr (0, s\<lparr>i_buf := Some (bin\<lparr>orig_bytes := m\<rparr>), i_bufsz := len,
                         i_ptr_start := 0, i_ptr := len, i_remain := 0\<rparr>))))
      | Some b \<Rightarrow>
          let sz_before = i_ptr_start s; sz_filled = i_ptr s - i_ptr_start s in
          if len \<le> sz_before then
            writing (orig_bytes b) (i_ptr_start s - len) buf (\<lambda>m.
              Inr (0, s\<lparr>i_buf := Some (b\<lparr>orig_bytes := m\<rparr>),
                        i_ptr_start := i_ptr_start s - len, i_remain := 0\<rparr>))
          else
            (case alloc_buffer em (i_bufsz s + len) s of (p, s) \<Rightarrow>
               deref p (\<lambda>bin. writing (orig_bytes bin) 0 buf (\<lambda>m.
                 reading (orig_bytes b) (i_ptr_start s) sz_filled (\<lambda>old.
                   writing m len old (\<lambda>m.
                     let s = free_buffer (i_buf s) s
                     in Inr (0, s\<lparr>i_bufsz := i_bufsz s + len,
                                  i_buf := Some (bin\<lparr>orig_bytes := m\<rparr>), i_ptr_start := 0,
                                  i_ptr := sz_filled + len, i_remain := 0\<rparr>)))))))"

definition loop_clear_input :: "drv \<Rightarrow> drv" where
  "loop_clear_input s =
     (free_buffer (i_buf s) s)\<lparr>i_buf := None, i_remain := 0, i_ptr := 0, i_ptr_start := 0,
                               i_bufsz := 0\<rparr>"

definition loop_restart_input :: "drv \<Rightarrow> (unit, drv) outcome" where
  "loop_restart_input s = deref (i_buf s) (\<lambda>b.
     if i_ptr_start s \<noteq> 0 then
       let n = i_ptr s - i_ptr_start s in
       reading (orig_bytes b) (i_ptr_start s) n (\<lambda>data.
         writing (orig_bytes b) 0 data (\<lambda>m.
           Inr ((), s\<lparr>i_buf := Some (b\<lparr>orig_bytes := m\<rparr>), i_ptr_start := 0, i_ptr := n\<rparr>)))
     else Inr ((), s))"

section \<open>The invariant and the abstract view\<close>

definition buf_inv :: "drv \<Rightarrow> bool" where
  "buf_inv s \<longleftrightarrow> stack_ok s \<and>
     (case i_buf s of
        None \<Rightarrow> i_ptr s = 0 \<and> i_ptr_start s = 0 \<and> i_bufsz s = 0 \<and> i_remain s = 0
      | Some b \<Rightarrow> refc b = 1 \<and> 0 \<le> i_ptr_start s \<and> i_ptr_start s \<le> i_ptr s \<and>
          i_ptr s \<le> i_bufsz s \<and> i_bufsz s \<le> orig_size b \<and> 0 \<le> i_remain s \<and>
          i_ptr s + i_remain s \<le> i_bufsz s)"

definition buffered :: "drv \<Rightarrow> byte list" where
  "buffered s =
     (case i_buf s of
        None \<Rightarrow> []
      | Some b \<Rightarrow> bytes_at (i_ptr_start s) (i_ptr s - i_ptr_start s) (orig_bytes b))"

text \<open>
  What the buffer operations leave alone: everything but the history, the input buffer fields and
  the buffer stack.
\<close>

definition besides_buf :: "drv \<Rightarrow> drv" where
  "besides_buf s = s\<lparr>calls := [], i_bufsz := 0, i_buf := None, i_ptr := 0, i_ptr_start := 0,
                     i_remain := 0, buffer_stack := []\<rparr>"

abbreviation buf_frame :: "drv \<Rightarrow> drv \<Rightarrow> bool" where
  "buf_frame s s' \<equiv> besides_buf s' = besides_buf s"

lemma besides_buf_upd [simp]:
  "besides_buf (s\<lparr>calls := h\<rparr>) = besides_buf s" "besides_buf (s\<lparr>i_bufsz := n\<rparr>) = besides_buf s"
  "besides_buf (s\<lparr>i_buf := b\<rparr>) = besides_buf s" "besides_buf (s\<lparr>i_ptr := n\<rparr>) = besides_buf s"
  "besides_buf (s\<lparr>i_ptr_start := n\<rparr>) = besides_buf s"
  "besides_buf (s\<lparr>i_remain := n\<rparr>) = besides_buf s"
  "besides_buf (s\<lparr>buffer_stack := t\<rparr>) = besides_buf s"
  by (simp_all add: besides_buf_def)

lemma buf_frameD:
  assumes "buf_frame s s'"
  shows "d_htype s' = d_htype s" "d_active s' = d_active s" "d_mode s' = d_mode s"
    "d_hsz s' = d_hsz s" "d_deliver s' = d_deliver s" "d_state s' = d_state s"
    "d_bufsz s' = d_bufsz s" "d_bit8f s' = d_bit8f s" "d_bit8 s' = d_bit8 s"
    "d_exitf s' = d_exitf s" "d_oph s' = d_oph s" "d_opt s' = d_opt s"
    "d_op_queue s' = d_op_queue s" "http_state s' = http_state s" "d_caller s' = d_caller s"
    "d_subs s' = d_subs s" "d_stype s' = d_stype s" "d_sfamily s' = d_sfamily s"
    "async_ref s' = async_ref s"
proof -
  have "f (besides_buf s') = f (besides_buf s)" for f :: "drv \<Rightarrow> 'x" using assms by simp
  note eq = this
  show "d_htype s' = d_htype s" using eq [of d_htype] by (simp add: besides_buf_def)
  show "d_active s' = d_active s" using eq [of d_active] by (simp add: besides_buf_def)
  show "d_mode s' = d_mode s" using eq [of d_mode] by (simp add: besides_buf_def)
  show "d_hsz s' = d_hsz s" using eq [of d_hsz] by (simp add: besides_buf_def)
  show "d_deliver s' = d_deliver s" using eq [of d_deliver] by (simp add: besides_buf_def)
  show "d_state s' = d_state s" using eq [of d_state] by (simp add: besides_buf_def)
  show "d_bufsz s' = d_bufsz s" using eq [of d_bufsz] by (simp add: besides_buf_def)
  show "d_bit8f s' = d_bit8f s" using eq [of d_bit8f] by (simp add: besides_buf_def)
  show "d_bit8 s' = d_bit8 s" using eq [of d_bit8] by (simp add: besides_buf_def)
  show "d_exitf s' = d_exitf s" using eq [of d_exitf] by (simp add: besides_buf_def)
  show "d_oph s' = d_oph s" using eq [of d_oph] by (simp add: besides_buf_def)
  show "d_opt s' = d_opt s" using eq [of d_opt] by (simp add: besides_buf_def)
  show "d_op_queue s' = d_op_queue s" using eq [of d_op_queue] by (simp add: besides_buf_def)
  show "http_state s' = http_state s" using eq [of http_state] by (simp add: besides_buf_def)
  show "d_caller s' = d_caller s" using eq [of d_caller] by (simp add: besides_buf_def)
  show "d_subs s' = d_subs s" using eq [of d_subs] by (simp add: besides_buf_def)
  show "d_stype s' = d_stype s" using eq [of d_stype] by (simp add: besides_buf_def)
  show "d_sfamily s' = d_sfamily s" using eq [of d_sfamily] by (simp add: besides_buf_def)
  show "async_ref s' = async_ref s" using eq [of async_ref] by (simp add: besides_buf_def)
qed

lemma stack_ok_cong [simp]:
  "stack_ok (s\<lparr>calls := h\<rparr>) = stack_ok s" "stack_ok (s\<lparr>i_buf := b\<rparr>) = stack_ok s"
  "stack_ok (s\<lparr>i_ptr := n\<rparr>) = stack_ok s" "stack_ok (s\<lparr>i_ptr_start := n\<rparr>) = stack_ok s"
  "stack_ok (s\<lparr>i_bufsz := n\<rparr>) = stack_ok s" "stack_ok (s\<lparr>i_remain := n\<rparr>) = stack_ok s"
  by (simp_all add: stack_ok_def)

lemma length_buffered:
  "buf_inv s \<Longrightarrow> int (length (buffered s)) = i_ptr s - i_ptr_start s"
  by (auto simp: buf_inv_def buffered_def split: option.splits)

lemma loop_expand_buffer_ok:
  assumes "buf_inv s" "i_buf s \<noteq> None"
  shows "run_ok {IntOverflow} (\<lambda>r s'. buf_inv s' \<and> i_buf s' \<noteq> None \<and> buf_frame s s' \<and>
     i_ptr s' = i_ptr s \<and> i_ptr_start s' = i_ptr_start s \<and> i_remain s' = i_remain s \<and>
     buffered s' = buffered s \<and>
     (r = 0 \<and> i_ptr_start s + len \<le> i_bufsz s' \<or> r = - 1 \<and> (\<exists>h. \<not> em_alloc em h)))
     (loop_expand_buffer em len s)"
proof -
  obtain b where b: "i_buf s = Some b" using assms(2) by auto
  have inv: "stack_ok s" "refc b = 1" "0 \<le> i_ptr_start s" "i_ptr_start s \<le> i_ptr s"
      "i_ptr s \<le> i_bufsz s" "i_bufsz s \<le> orig_size b" "0 \<le> i_remain s"
      "i_ptr s + i_remain s \<le> i_bufsz s"
    using assms(1) b by (simp_all add: buf_inv_def)
  show ?thesis
    using b inv
    by (auto simp: loop_expand_buffer_def Let_def buf_inv_def buffered_def
        driver_realloc_binary_def split: option.split)
qed

lemma free_buffer_simps [simp]:
  "buf_frame s (free_buffer p s)"
  "i_bufsz (free_buffer p s) = i_bufsz s" "i_buf (free_buffer p s) = i_buf s"
  "i_ptr (free_buffer p s) = i_ptr s" "i_ptr_start (free_buffer p s) = i_ptr_start s"
  "i_remain (free_buffer p s) = i_remain s"
  using release_buffer_frame(2) [of p s] by auto

text \<open>Clearing drops what is buffered.\<close>

lemma loop_clear_input_ok:
  "stack_ok s \<Longrightarrow> buf_inv (loop_clear_input s)"
  "buf_frame s (loop_clear_input s)"
  "i_buf (loop_clear_input s) = None"
  "buffered (loop_clear_input s) = []"
  by (simp_all add: loop_clear_input_def buf_inv_def buffered_def free_buffer_stack_ok)

text \<open>Restarting moves what is buffered to the front of the buffer.\<close>

lemma loop_restart_input_ok:
  assumes "buf_inv s" "i_buf s \<noteq> None"
  shows "run_ok {} (\<lambda>_ s'. buf_inv s' \<and> buf_frame s s' \<and> i_buf s' \<noteq> None \<and>
     calls s' = calls s \<and> i_ptr_start s' = 0 \<and> i_ptr s' = i_ptr s - i_ptr_start s \<and>
     i_bufsz s' = i_bufsz s \<and> i_remain s' = i_remain s \<and> buffered s' = buffered s)
     (loop_restart_input s)"
  using assms
  by (auto simp: loop_restart_input_def Let_def buf_inv_def buffered_def bytes_at_def
      split: option.splits)

text \<open>Pushing puts the bytes in front of what is buffered.\<close>

lemma put_at_before:
  assumes "0 \<le> off" "off = int (length bs) + i" "0 \<le> n" "off + n \<le> int (length m)" "0 \<le> i"
  shows "bytes_at i (int (length bs) + n) (put_at (nat i) bs m) = bs @ bytes_at off n m"
proof -
  obtain a k where ak: "i = int a" "n = int k" using assms by (metis nonneg_int_cases)
  then have "off = int (length bs + a)" "length bs + a + k \<le> length m" using assms by simp_all
  moreover have "nat (int (length bs) + int k) = length bs + k" by linarith
  moreover have "nat (int (length bs) + int a) = length bs + a" by linarith
  ultimately show ?thesis
    by (simp add: bytes_at_def put_at_def ak add.commute)
qed

lemma loop_push_buffer_ok:
  assumes "buf_inv s" "\<And>h. em_alloc em h"
  shows "run_ok {} (\<lambda>r s'. r = 0 \<and> buf_inv s' \<and> buf_frame s s' \<and> i_buf s' \<noteq> None \<and>
     i_remain s' = 0 \<and> buffered s' = buf @ buffered s) (loop_push_buffer em buf s)"
proof (cases "i_buf s")
  case None
  have "stack_ok s" "0 \<le> int (length buf)" using assms(1) by (simp_all add: buf_inv_def)
  then show ?thesis
  proof (cases rule: alloc_buffer_cases [where em = em])
    case null
    then show ?thesis using assms(2) by blast
  next
    case (ok b h stk)
    then show ?thesis
      using None by (simp add: loop_push_buffer_def Let_def buf_inv_def buffered_def stack_ok_def)
  qed
next
  case (Some b)
  have inv: "stack_ok s" "refc b = 1" "0 \<le> i_ptr_start s" "i_ptr_start s \<le> i_ptr s"
      "i_ptr s \<le> i_bufsz s" "i_bufsz s \<le> orig_size b" "0 \<le> i_remain s"
      "i_ptr s + i_remain s \<le> i_bufsz s"
    using assms(1) Some by (simp_all add: buf_inv_def)
  show ?thesis
  proof (cases "int (length buf) \<le> i_ptr_start s")
    case True
    have "bytes_at (i_ptr_start s - int (length buf))
        (int (length buf) + (i_ptr s - i_ptr_start s))
        (put_at (nat (i_ptr_start s - int (length buf))) buf (orig_bytes b)) =
        buf @ bytes_at (i_ptr_start s) (i_ptr s - i_ptr_start s) (orig_bytes b)"
      by (rule put_at_before) (use inv True in simp_all)
    then show ?thesis
      using Some inv True
      by (simp add: loop_push_buffer_def Let_def buf_inv_def buffered_def algebra_simps)
  next
    case False
    have "0 \<le> i_bufsz s + int (length buf)" using inv by simp
    with inv(1) show ?thesis
    proof (cases rule: alloc_buffer_cases [where em = em])
      case null
      then show ?thesis using assms(2) by blast
    next
      case (ok c h stk)
      let ?old = "bytes_at (i_ptr_start s) (i_ptr s - i_ptr_start s) (orig_bytes b)"
      have old: "int (length ?old) = i_ptr s - i_ptr_start s" using inv by simp
      have "bytes_at 0 (int (length buf) + int (length ?old))
          (put_at (nat (int (length buf))) ?old (put_at 0 buf (orig_bytes c))) =
          bytes_at 0 (int (length buf)) (put_at 0 buf (orig_bytes c)) @ ?old"
        by (rule bytes_at_put_at) (use inv ok(2) old in simp_all)
      moreover have "bytes_at 0 (int (length buf)) (put_at 0 buf (orig_bytes c)) = buf"
        by (simp add: bytes_at_def)
      ultimately show ?thesis
        using Some inv False ok old
        by (simp add: loop_push_buffer_def Let_def buf_inv_def buffered_def
            free_buffer_stack_ok algebra_simps)
    qed
  qed
qed

end
