(* ===== verification/Reply.thy ===== *)
theory Reply
  imports Async Http Buffers
begin

text \<open>
  The messages that carry a packet to Erlang: the five HTTP messages, raw port output, and the
  asynchronous reply or active message with the data as a list or a binary; then the two reply
  functions that choose among them.  A pointer into the input buffer is the block \<open>m\<close> and an
  offset.  A message that refers to the input buffer itself may make the emulator keep a
  reference to it, which \<open>refc\<close> then counts.
\<close>

section \<open>HTTP messages\<close>

text \<open>
  In passive mode every one of them answers the oldest request with
  \<open>{inet_async, S, Ref, Answer}\<close>; the items of \<open>Answer\<close> are the argument.
\<close>

definition answer :: "emulator \<Rightarrow> titem list \<Rightarrow> drv \<Rightarrow> int \<times> drv" where
  "answer em items s =
     (case deq_async s of
        (None, s) \<Rightarrow> (- 1, s)
      | (Some opp, s) \<Rightarrow>
          driver_call em (SendTerm (op_caller opp)
            ([TAtom ''inet_async'', TPort, TInt (op_id opp)] @ items @ [TTuple 4])) s)"

definition http_response_message ::
  "emulator \<Rightarrow> int \<Rightarrow> int \<Rightarrow> int \<Rightarrow> byte list \<Rightarrow> drv \<Rightarrow> int \<times> drv" where
  "http_response_message em major minor status phrase s =
     (if d_active s = INET_PASSIVE then
        answer em [TAtom ''ok'', TAtom ''http_response'', TInt major, TInt minor, TTuple 2,
                   TInt status, TString phrase, TTuple 4, TTuple 2] s
      else
        driver_call em (OutputTerm [TAtom ''http_response'', TPort, TInt major, TInt minor,
                                    TTuple 2, TInt status, TString phrase, TTuple 5]) s)"

section \<open>Request URIs\<close>

fun my_strncasecmp :: "byte list \<Rightarrow> byte list \<Rightarrow> nat \<Rightarrow> int" where
  "my_strncasecmp s1 s2 n =
     (let c1 = (case s1 of [] \<Rightarrow> 0 | c # _ \<Rightarrow> c); c2 = (case s2 of [] \<Rightarrow> 0 | c # _ \<Rightarrow> c)
      in if 1 < n \<and> c1 \<noteq> 0 \<and> c2 \<noteq> 0 \<and> toupper c1 = toupper c2
         then my_strncasecmp (tl s1) (tl s2) (n - 1)
         else uint (toupper c1) - uint (toupper c2))"

declare my_strncasecmp.simps [simp del]

definition http_load_absoluteURI :: "string \<Rightarrow> byte list \<Rightarrow> fault + titem list" where
  "http_load_absoluteURI scheme uri =
     (let (uri, abs_path) = (if 47 \<notin> set uri then (uri, bytes_of ''/'')
                             else (takeWhile (\<lambda>c. c \<noteq> 47) uri, dropWhile (\<lambda>c. c \<noteq> 47) uri));
          front = [TAtom ''absoluteURI'', TAtom scheme];
          back = [TString abs_path, TTuple 5]
      in if 58 \<notin> set uri then Inr (front @ [TString uri, TAtom ''undefined''] @ back)
         else
           let host = takeWhile (\<lambda>c. c \<noteq> 58) uri; p = tl (dropWhile (\<lambda>c. c \<noteq> 58) uri)
           in case parse_num 0 p of
                Inl e \<Rightarrow> Inl e
              | Inr (port, rest) \<Rightarrow>
                  Inr (front @ [TString host,
                                if rest \<noteq> [] \<or> port = 0 then TAtom ''undefined'' else TInt port]
                       @ back))"

definition http_load_uri :: "byte list \<Rightarrow> fault + titem list" where
  "http_load_uri uri =
     (if length uri = 1 \<and> hd uri = 42 then Inr [TAtom ''*'']
      else if length uri \<le> 1 \<or> hd uri = 47 then
        Inr [TAtom ''abs_path'', TString uri, TTuple 2]
      else if length uri \<ge> 7 \<and> my_strncasecmp uri (bytes_of ''http://'') 7 = 0 then
        http_load_absoluteURI ''http'' (drop 7 uri)
      else if length uri \<ge> 8 \<and> my_strncasecmp uri (bytes_of ''https://'') 8 = 0 then
        http_load_absoluteURI ''https'' (drop 8 uri)
      else if 58 \<notin> set uri then Inr [TString uri]
      else Inr [TAtom ''scheme'', TString (takeWhile (\<lambda>c. c \<noteq> 58) uri),
                TString (tl (dropWhile (\<lambda>c. c \<noteq> 58) uri)), TTuple 3])"

text \<open>
  The URI is loaded after the request is taken off the queue, so a fault there leaves no state.
\<close>

definition http_request_message ::
  "emulator \<Rightarrow> http_atom option \<Rightarrow> byte list \<Rightarrow> byte list \<Rightarrow> int \<Rightarrow> int \<Rightarrow> drv \<Rightarrow>
   (int, drv) outcome" where
  "http_request_message em meth meth_str uri major minor s =
     (let m = (case meth of Some ap \<Rightarrow> TAtom (h_atom ap) | None \<Rightarrow> TString meth_str) in
      if d_active s = INET_PASSIVE then
        (case deq_async s of
           (None, s) \<Rightarrow> Inr (- 1, s)
         | (Some opp, s) \<Rightarrow>
             (case http_load_uri uri of
                Inl e \<Rightarrow> Inl e
              | Inr u \<Rightarrow>
                  Inr (driver_call em (SendTerm (op_caller opp)
                    ([TAtom ''inet_async'', TPort, TInt (op_id opp), TAtom ''ok'',
                      TAtom ''http_request'', m] @ u @
                     [TInt major, TInt minor, TTuple 2, TTuple 4, TTuple 2, TTuple 4])) s)))
      else
        (case http_load_uri uri of
           Inl e \<Rightarrow> Inl e
         | Inr u \<Rightarrow>
             Inr (driver_call em (OutputTerm
               ([TAtom ''http_request'', TPort, m] @ u @
                [TInt major, TInt minor, TTuple 2, TTuple 5])) s)))"

definition http_header_message ::
  "emulator \<Rightarrow> http_atom option \<Rightarrow> byte list \<Rightarrow> byte list \<Rightarrow> drv \<Rightarrow> int \<times> drv" where
  "http_header_message em name name_str val s =
     (let key = (case name of Some ap \<Rightarrow> [TInt (int (h_index ap) + 1), TAtom (h_atom ap)]
                            | None \<Rightarrow> [TInt 0, TString name_str]) in
      if d_active s = INET_PASSIVE then
        answer em ([TAtom ''ok'', TAtom ''http_header''] @ key @
                   [TAtom ''undefined'', TString val, TTuple 5, TTuple 2]) s
      else
        driver_call em (OutputTerm ([TAtom ''http_header'', TPort] @ key @
                                    [TAtom ''undefined'', TString val, TTuple 6])) s)"

definition http_eoh_message :: "emulator \<Rightarrow> drv \<Rightarrow> int \<times> drv" where
  "http_eoh_message em s =
     (if d_active s = INET_PASSIVE then
        answer em [TAtom ''ok'', TAtom ''http_eoh'', TTuple 2] s
      else driver_call em (OutputTerm [TAtom ''http_eoh'', TPort, TTuple 2]) s)"

definition http_error_message :: "emulator \<Rightarrow> int \<Rightarrow> int \<Rightarrow> drv \<Rightarrow> (int, drv) outcome" where
  "http_error_message em offs len s = deref (i_buf s) (\<lambda>b.
     reading (orig_bytes b) offs len (\<lambda>buf.
       Inr (if d_active s = INET_PASSIVE then
              answer em [TAtom ''error'', TAtom ''http_error'', TString buf, TTuple 2, TTuple 2] s
            else
              driver_call em (OutputTerm [TAtom ''http_error'', TPort, TString buf,
                                          TTuple 3]) s)))"

text \<open>
  \<^verbatim>\<open>http_message\<close>: the line without its line end is parsed, \<^verbatim>\<open>http_state\<close> moves on, the header
  loop's capitals are written to the buffer, and the message is sent.
\<close>

definition strip_crnl :: "byte list \<Rightarrow> byte list" where
  "strip_crnl buf =
     (let n = length buf
      in if n \<ge> 2 \<and> buf ! (n - 2) = CR then take (n - 2) buf
         else if n \<ge> 1 \<and> buf ! (n - 1) = LF then take (n - 1) buf
         else buf)"

definition http_event_message :: "emulator \<Rightarrow> http_event \<Rightarrow> drv \<Rightarrow> (int, drv) outcome" where
  "http_event_message em ev s =
     (case ev of
        HttpFail \<Rightarrow> Inr (- 1, s)
      | HttpSkip \<Rightarrow> Inr (0, s)
      | HttpResponse major minor status phrase \<Rightarrow>
          Inr (http_response_message em major minor status phrase
                 (s\<lparr>http_state := http_state s + 1\<rparr>))
      | HttpRequest meth meth_str uri major minor \<Rightarrow>
          http_request_message em meth meth_str uri major minor
            (s\<lparr>http_state := http_state s + 1\<rparr>)
      | HttpHeader name name_str val \<Rightarrow> Inr (http_header_message em name name_str val s)
      | HttpEoh \<Rightarrow> Inr (http_eoh_message em (s\<lparr>http_state := 0\<rparr>)))"

definition http_message :: "emulator \<Rightarrow> int \<Rightarrow> int \<Rightarrow> drv \<Rightarrow> (int, drv) outcome" where
  "http_message em offs len s = deref (i_buf s) (\<lambda>b.
     reading (orig_bytes b) offs len (\<lambda>buf.
       let line = strip_crnl buf in
       if http_state s = 0 then
         (case http_start_line line of
            Inl e \<Rightarrow> Inl e
          | Inr ev \<Rightarrow> http_event_message em ev s)
       else
         (case http_header_line line (drop (nat offs + length line) (orig_bytes b)) of
            Inl e \<Rightarrow> Inl e
          | Inr (ev, name_str) \<Rightarrow>
              http_event_message em ev
                (s\<lparr>i_buf := Some (b\<lparr>orig_bytes := put_at (nat offs) name_str
                                                   (orig_bytes b)\<rparr>)\<rparr>))))"

section \<open>Data messages\<close>

text \<open>\<^verbatim>\<open>hsz > len\<close> compares as unsigned ints.\<close>

definition hsz_exceeds :: "int \<Rightarrow> int \<Rightarrow> bool" where
  "hsz_exceeds hsz len \<longleftrightarrow> hsz > len mod 2 ^ 32"

definition inet_port_data ::
  "emulator \<Rightarrow> byte list \<Rightarrow> int \<Rightarrow> int \<Rightarrow> drv \<Rightarrow> (int, drv) outcome" where
  "inet_port_data em m offs len s = reading m offs len (\<lambda>buf.
     let hsz = d_hsz s in
     if d_mode s = INET_MODE_LIST \<or> hsz_exceeds hsz len then
       Inr (driver_call em (Output2 buf []) s)
     else if hsz > 0 then
       Inr (driver_call em (Output2 (take (nat hsz) buf) (drop (nat hsz) buf)) s)
     else Inr (driver_call em (Output buf) s))"

text \<open>A call whose message refers to the binary \<open>b\<close>, which is the input buffer.\<close>

definition call_with_buffer :: "emulator \<Rightarrow> call \<Rightarrow> binary \<Rightarrow> drv \<Rightarrow> int \<times> drv" where
  "call_with_buffer em c b s =
     (let (code, s) = driver_call em c s
      in (code, if em_keeps em (calls s) then s\<lparr>i_buf := Some (b\<lparr>refc := refc b + 1\<rparr>)\<rparr> else s))"

definition inet_port_binary_data :: "emulator \<Rightarrow> int \<Rightarrow> int \<Rightarrow> drv \<Rightarrow> (int, drv) outcome" where
  "inet_port_binary_data em offs len s = deref (i_buf s) (\<lambda>b.
     reading (orig_bytes b) offs len (\<lambda>buf.
       let hsz = d_hsz s in
       if d_mode s = INET_MODE_LIST \<or> hsz_exceeds hsz len then
         Inr (driver_call em (Output2 buf []) s)
       else
         Inr (call_with_buffer em
                (OutputBinary (take (nat hsz) buf) (drop (nat hsz) buf)) b s)))"

text \<open>
  The items that load the data: a string in list mode or when the header is longer than the data,
  otherwise the binary behind a list of \<^verbatim>\<open>hsz\<close> bytes.
\<close>

definition binary_items :: "int \<Rightarrow> byte list \<Rightarrow> titem list" where
  "binary_items hsz buf =
     TBinary (drop (nat hsz) buf) # (if hsz > 0 then [TStringCons (take (nat hsz) buf)] else [])"

definition inet_async_data ::
  "emulator \<Rightarrow> byte list \<Rightarrow> int \<Rightarrow> int \<Rightarrow> drv \<Rightarrow> (int, drv) outcome" where
  "inet_async_data em m offs len s =
     (let hsz = d_hsz s in
      case deq_async s of
        (None, s) \<Rightarrow> Inr (- 1, s)
      | (Some opp, s) \<Rightarrow>
          let front = [TAtom ''inet_async'', TPort, TInt (op_id opp), TAtom ''ok''] in
          reading m offs len (\<lambda>buf.
            if d_mode s = INET_MODE_LIST \<or> hsz_exceeds hsz len then
              Inr (driver_call em (SendTerm (op_caller opp)
                     (front @ [TString buf, TTuple 2, TTuple 4])) (s\<lparr>d_caller := 0\<rparr>))
            else
              (case driver_alloc_binary em (len - hsz) s of
                 (None, s) \<Rightarrow> Inr (async_error em ENOMEM s)
               | (Some bin, s) \<Rightarrow>
                   let (code, s) = driver_call em (SendTerm (op_caller opp)
                         (front @ binary_items hsz buf @ [TTuple 2, TTuple 4]))
                         (s\<lparr>d_caller := 0\<rparr>)
                   in Inr (code, log_call FreeBinary s))))"

definition inet_async_binary_data ::
  "emulator \<Rightarrow> int \<Rightarrow> int \<Rightarrow> int \<Rightarrow> drv \<Rightarrow> (int, drv) outcome" where
  "inet_async_binary_data em phsz offs len s =
     (let hsz = (d_hsz s + phsz) mod 2 ^ 32 in
      case deq_async s of
        (None, s) \<Rightarrow> Inr (- 1, s)
      | (Some opp, s) \<Rightarrow>
          let front = [TAtom ''inet_async'', TPort, TInt (op_id opp), TAtom ''ok''] in
          deref (i_buf s) (\<lambda>b. reading (orig_bytes b) offs len (\<lambda>buf.
            if d_mode s = INET_MODE_LIST \<or> hsz_exceeds hsz len then
              Inr (driver_call em (SendTerm (op_caller opp)
                     (front @ [TString buf, TTuple 2, TTuple 4])) (s\<lparr>d_caller := 0\<rparr>))
            else
              Inr (call_with_buffer em (SendTerm (op_caller opp)
                     (front @ binary_items hsz buf @ [TTuple 2, TTuple 4])) b
                     (s\<lparr>d_caller := 0\<rparr>)))))"

definition loop_message ::
  "emulator \<Rightarrow> byte list \<Rightarrow> int \<Rightarrow> int \<Rightarrow> drv \<Rightarrow> (int, drv) outcome" where
  "loop_message em m offs len s =
     (let hsz = d_hsz s in
      reading m offs len (\<lambda>buf.
        if d_mode s = INET_MODE_LIST \<or> hsz_exceeds hsz len then
          Inr (driver_call em (OutputTerm [TAtom ''tcp'', TPort, TString buf, TTuple 3]) s)
        else
          (case driver_alloc_binary em (len - hsz) s of
             (None, s) \<Rightarrow> Inr (async_error em ENOMEM s)
           | (Some bin, s) \<Rightarrow>
               let (code, s) = driver_call em
                     (OutputTerm ([TAtom ''tcp'', TPort] @ binary_items hsz buf @ [TTuple 3])) s
               in Inr (code, log_call FreeBinary s))))"

definition loop_binary_message :: "emulator \<Rightarrow> int \<Rightarrow> int \<Rightarrow> drv \<Rightarrow> (int, drv) outcome" where
  "loop_binary_message em offs len s = deref (i_buf s) (\<lambda>b.
     let hsz = d_hsz s in
     reading (orig_bytes b) offs len (\<lambda>buf.
       if d_mode s = INET_MODE_LIST \<or> hsz_exceeds hsz len then
         Inr (driver_call em (OutputTerm [TAtom ''tcp'', TPort, TString buf, TTuple 3]) s)
       else
         Inr (call_with_buffer em
           (OutputTerm ([TAtom ''tcp'', TPort] @ binary_items hsz buf @ [TTuple 3])) b s)))"

definition loop_closed_message :: "emulator \<Rightarrow> drv \<Rightarrow> int \<times> drv" where
  "loop_closed_message em s =
     driver_call em (OutputTerm [TAtom ''tcp_closed'', TPort, TTuple 2]) s"

definition loop_error_message :: "emulator \<Rightarrow> errno \<Rightarrow> drv \<Rightarrow> int \<times> drv" where
  "loop_error_message em err s =
     driver_call em (OutputTerm [TAtom ''tcp_error'', TPort, TAtom (error_atom em err),
                                 TTuple 3]) s"

section \<open>Delivering a packet\<close>

definition scanbit8 :: "byte list \<Rightarrow> int \<Rightarrow> int \<Rightarrow> drv \<Rightarrow> (unit, drv) outcome" where
  "scanbit8 m offs len s =
     (if d_bit8f s = 0 \<or> d_bit8 s \<noteq> 0 then Inr ((), s)
      else reading m offs len (\<lambda>buf.
        let c = foldr (OR) buf 0
        in Inr ((), s\<lparr>d_bit8 := (if c AND 0x80 \<noteq> 0 then 1 else 0)\<rparr>)))"

text \<open>
  \<^verbatim>\<open>adjust according to packet type\<close>: where the data begins and how long it is.
\<close>

definition adjust ::
  "byte list \<Rightarrow> int \<Rightarrow> int \<Rightarrow> drv \<Rightarrow> (int \<Rightarrow> int \<Rightarrow> (int, drv) outcome) \<Rightarrow> (int, drv) outcome" where
  "adjust m offs len s k =
     (case packet_type_of (d_htype s) of
        TCP_PB_1 \<Rightarrow> k (offs + 1) (len - 1)
      | TCP_PB_2 \<Rightarrow> k (offs + 2) (len - 2)
      | TCP_PB_4 \<Rightarrow> k (offs + 4) (len - 4)
      | TCP_PB_FCGI \<Rightarrow> reading m (offs + 6) 1 (\<lambda>padding. k offs (len - uint (hd padding)))
      | _ \<Rightarrow> k offs len)"

text \<open>\<^verbatim>\<open>active once\<close> ends with the first packet delivered.\<close>

definition delivered :: "int \<Rightarrow> drv \<Rightarrow> (int, drv) outcome" where
  "delivered code s =
     (if code < 0 then Inr (code, s)
      else Inr (code, if d_active s = INET_ONCE then s\<lparr>d_active := INET_PASSIVE\<rparr> else s))"

definition http_reply :: "emulator \<Rightarrow> int \<Rightarrow> int \<Rightarrow> drv \<Rightarrow> (int, drv) outcome" where
  "http_reply em offs len s =
     andthen (http_message em offs len s) (\<lambda>code s.
       if code < 0 then andthen (http_error_message em offs len s) (\<lambda>_ s. delivered 0 s)
       else delivered 0 s)"

definition loop_reply_data :: "emulator \<Rightarrow> int \<Rightarrow> int \<Rightarrow> drv \<Rightarrow> (int, drv) outcome" where
  "loop_reply_data em offs len s = deref (i_buf s) (\<lambda>b.
     let m = orig_bytes b in
     adjust m offs len s (\<lambda>offs len.
       andthen (scanbit8 m offs len s) (\<lambda>_ s.
         if d_deliver s = INET_DELIVER_PORT then
           andthen (inet_port_data em m offs len s) delivered
         else if packet_type_of (d_htype s) = TCP_PB_HTTP \<or>
                 packet_type_of (d_htype s) = TCP_PB_HTTPH then http_reply em offs len s
         else if d_active s = INET_PASSIVE then inet_async_data em m offs len s
         else andthen (loop_message em m offs len s) delivered)))"

definition loop_reply_binary_data :: "emulator \<Rightarrow> int \<Rightarrow> int \<Rightarrow> drv \<Rightarrow> (int, drv) outcome" where
  "loop_reply_binary_data em offs len s = deref (i_buf s) (\<lambda>b.
     let m = orig_bytes b in
     adjust m offs len s (\<lambda>offs len.
       andthen (scanbit8 m offs len s) (\<lambda>_ s.
         if d_deliver s = INET_DELIVER_PORT then
           andthen (inet_port_binary_data em offs len s) delivered
         else if packet_type_of (d_htype s) = TCP_PB_HTTP \<or>
                 packet_type_of (d_htype s) = TCP_PB_HTTPH then http_reply em offs len s
         else if d_active s = INET_PASSIVE then inet_async_binary_data em 0 offs len s
         else andthen (loop_binary_message em offs len s) delivered)))"

section \<open>What a delivery leaves alone\<close>

text \<open>
  A delivery changes the history, the request queue, \<^verbatim>\<open>caller\<close>, \<^verbatim>\<open>bit8\<close> and \<^verbatim>\<open>active\<close>, and the
  reference count of the input buffer.
\<close>

definition besides_reply :: "drv \<Rightarrow> drv" where
  "besides_reply s = s\<lparr>calls := [], d_oph := None, d_opt := None, d_caller := 0, d_bit8 := 0,
     d_active := 0, i_buf := map_option (\<lambda>b. b\<lparr>refc := 0\<rparr>) (i_buf s)\<rparr>"

lemma besides_reply_upd [simp]:
  "besides_reply (s\<lparr>calls := h\<rparr>) = besides_reply s"
  "besides_reply (s\<lparr>d_opt := j, d_oph := i\<rparr>) = besides_reply s"
  "besides_reply (s\<lparr>d_caller := p\<rparr>) = besides_reply s"
  "besides_reply (s\<lparr>d_bit8 := v\<rparr>) = besides_reply s"
  "besides_reply (s\<lparr>d_active := a\<rparr>) = besides_reply s"
  by (simp_all add: besides_reply_def)

lemma besides_replyD:
  assumes "besides_reply s' = besides_reply s"
  shows "d_htype s' = d_htype s" "d_mode s' = d_mode s" "d_hsz s' = d_hsz s"
    "d_deliver s' = d_deliver s" "d_bufsz s' = d_bufsz s" "i_bufsz s' = i_bufsz s"
    "i_ptr s' = i_ptr s" "i_ptr_start s' = i_ptr_start s" "i_remain s' = i_remain s"
    "buffer_stack s' = buffer_stack s" "d_state s' = d_state s"
    "map_option orig_bytes (i_buf s') = map_option orig_bytes (i_buf s)"
proof -
  have "f (besides_reply s') = f (besides_reply s)" for f :: "drv \<Rightarrow> 'x" using assms by simp
  note eq = this
  show "d_htype s' = d_htype s" using eq [of d_htype] by (simp add: besides_reply_def)
  show "d_mode s' = d_mode s" using eq [of d_mode] by (simp add: besides_reply_def)
  show "d_hsz s' = d_hsz s" using eq [of d_hsz] by (simp add: besides_reply_def)
  show "d_deliver s' = d_deliver s" using eq [of d_deliver] by (simp add: besides_reply_def)
  show "d_bufsz s' = d_bufsz s" using eq [of d_bufsz] by (simp add: besides_reply_def)
  show "i_bufsz s' = i_bufsz s" using eq [of i_bufsz] by (simp add: besides_reply_def)
  show "i_ptr s' = i_ptr s" using eq [of i_ptr] by (simp add: besides_reply_def)
  show "i_ptr_start s' = i_ptr_start s" using eq [of i_ptr_start] by (simp add: besides_reply_def)
  show "i_remain s' = i_remain s" using eq [of i_remain] by (simp add: besides_reply_def)
  show "buffer_stack s' = buffer_stack s"
    using eq [of buffer_stack] by (simp add: besides_reply_def)
  show "d_state s' = d_state s" using eq [of d_state] by (simp add: besides_reply_def)
  show "map_option orig_bytes (i_buf s') = map_option orig_bytes (i_buf s)"
    using eq [of "\<lambda>s. map_option orig_bytes (i_buf s)"]
    by (simp add: besides_reply_def option.map_comp o_def)
qed

text \<open>
  The header bytes a delivery strips.  Deliveries of the packet types whose data is a plain part
  of the packet stay within the buffer when the packet has its header.
\<close>

definition hdr_len :: "packet_type \<Rightarrow> int" where
  "hdr_len pt = (case pt of TCP_PB_1 \<Rightarrow> 1 | TCP_PB_2 \<Rightarrow> 2 | TCP_PB_4 \<Rightarrow> 4 | _ \<Rightarrow> 0)"

definition plain_type :: "packet_type \<Rightarrow> bool" where
  "plain_type pt \<longleftrightarrow> pt \<notin> {TCP_PB_HTTP, TCP_PB_HTTPH, TCP_PB_FCGI}"

lemma deq_async_frame: "\<exists>x i j. deq_async s = (x, s\<lparr>d_opt := j, d_oph := i\<rparr>)"
proof (cases "d_opt s")
  case None
  then have "deq_async s = (None, s\<lparr>d_opt := d_opt s, d_oph := d_oph s\<rparr>)"
    by (simp add: deq_async_def)
  then show ?thesis by blast
next
  case (Some i)
  let ?e = "Some 0 = d_oph s"
  have "deq_async s = (Some (d_op_queue s ! i), s\<lparr>d_opt := (if ?e then None else Some 0),
                                                 d_oph := (if ?e then None else d_oph s)\<rparr>)"
    using Some by (simp add: deq_async_def)
  then show ?thesis by blast
qed

lemma adjust_plain:
  assumes "plain_type (packet_type_of (d_htype s))"
  shows "adjust m offs len s k =
           k (offs + hdr_len (packet_type_of (d_htype s))) (len - hdr_len (packet_type_of (d_htype s)))"
  using assms by (simp add: adjust_def plain_type_def hdr_len_def split: packet_type.split)

definition same_packet :: "drv \<Rightarrow> drv \<Rightarrow> bool" where
  "same_packet s s' \<longleftrightarrow> besides_reply s' = besides_reply s \<and> i_buf s' = i_buf s"

lemma same_packet_refl [simp]: "same_packet s s"
  by (simp add: same_packet_def)

lemma same_packet_upd [simp]:
  "same_packet s0 (s\<lparr>calls := h\<rparr>) = same_packet s0 s"
  "same_packet s0 (s\<lparr>d_opt := j, d_oph := i\<rparr>) = same_packet s0 s"
  "same_packet s0 (s\<lparr>d_caller := p\<rparr>) = same_packet s0 s"
  "same_packet s0 (s\<lparr>d_bit8 := v\<rparr>) = same_packet s0 s"
  "same_packet s0 (s\<lparr>d_active := a\<rparr>) = same_packet s0 s"
  by (simp_all add: same_packet_def)

lemma delivered_ok [simp]: "run_ok {} (\<lambda>_. same_packet s0) (delivered code s) = same_packet s0 s"
  by (simp add: delivered_def)

lemma driver_call_ok [simp]:
  "same_packet s0 (snd (driver_call em c s)) = same_packet s0 s"
  "run_ok F Q (Inr (driver_call em c s)) = Q (em_rc em (c # calls s)) (log_call c s)"
  by (simp_all add: driver_call_def)

lemma async_error_ok [simp]: "same_packet s0 (snd (async_error em e s)) = same_packet s0 s"
proof -
  obtain x i j where "deq_async s = (x, s\<lparr>d_opt := j, d_oph := i\<rparr>)"
    using deq_async_frame by blast
  then show ?thesis
    by (simp add: async_error_def async_error_am_def send_async_error_def driver_call_def
        split: option.split)
qed

lemma run_ok_async_error [simp]:
  "run_ok F (\<lambda>_. same_packet s0) (Inr (async_error em e s)) = same_packet s0 s"
  using async_error_ok [of s0 em e s] by (cases "async_error em e s") simp

lemma loop_reply_data_ok:
  assumes b: "i_buf s = Some b" and plain: "plain_type (packet_type_of (d_htype s))"
    and rng: "0 \<le> offs" "hdr_len (packet_type_of (d_htype s)) \<le> len" "offs + len \<le> orig_size b"
  shows "run_ok {} (\<lambda>_. same_packet s) (loop_reply_data em offs len s)"
proof -
  have hdr: "0 \<le> hdr_len (packet_type_of (d_htype s))"
    by (simp add: hdr_len_def split: packet_type.split)
  have data: "run_ok {} (\<lambda>_. same_packet s0) (inet_async_data em (orig_bytes b) a l s1)"
    "run_ok {} (\<lambda>_. same_packet s0) (loop_message em (orig_bytes b) a l s1)"
    "run_ok {} (\<lambda>_. same_packet s0) (inet_port_data em (orig_bytes b) a l s1)"
    if "same_packet s0 s1" "0 \<le> a" "0 \<le> l" "a + l \<le> orig_size b" for s0 s1 a l
  proof -
    obtain x i j where d: "deq_async s1 = (x, s1\<lparr>d_opt := j, d_oph := i\<rparr>)"
      using deq_async_frame by blast
    show "run_ok {} (\<lambda>_. same_packet s0) (inet_async_data em (orig_bytes b) a l s1)"
      using that d
      by (simp add: inet_async_data_def Let_def driver_alloc_binary_def driver_call_def
          split: option.split)
    show "run_ok {} (\<lambda>_. same_packet s0) (loop_message em (orig_bytes b) a l s1)"
      using that
      by (simp add: loop_message_def Let_def driver_alloc_binary_def driver_call_def
          split: option.split)
    show "run_ok {} (\<lambda>_. same_packet s0) (inet_port_data em (orig_bytes b) a l s1)"
      using that by (simp add: inet_port_data_def Let_def)
  qed
  show ?thesis
    using plain rng hdr
    by (simp add: loop_reply_data_def b adjust_plain plain_type_def scanbit8_def Let_def data)
qed

lemma call_with_buffer_ok:
  "i_buf s = Some b \<Longrightarrow>
   run_ok {} (\<lambda>_ s'. besides_reply s' = besides_reply s) (Inr (call_with_buffer em c b s))"
  by (simp add: call_with_buffer_def driver_call_def besides_reply_def)

lemma besides_reply_delivered [simp]:
  "run_ok {} (\<lambda>_ s'. besides_reply s' = x) (delivered code s) \<longleftrightarrow> besides_reply s = x"
  by (simp add: delivered_def)

lemma loop_reply_binary_data_ok:
  assumes b: "i_buf s = Some b" and plain: "plain_type (packet_type_of (d_htype s))"
    and rng: "0 \<le> offs" "hdr_len (packet_type_of (d_htype s)) \<le> len" "offs + len \<le> orig_size b"
  shows "run_ok {} (\<lambda>_ s'. besides_reply s' = besides_reply s)
           (loop_reply_binary_data em offs len s)"
proof -
  have hdr: "0 \<le> hdr_len (packet_type_of (d_htype s))"
    by (simp add: hdr_len_def split: packet_type.split)
  let ?Q = "\<lambda>s0 (_ :: int) s'. besides_reply s' = besides_reply s0"
  have data: "run_ok {} (?Q s1) (inet_async_binary_data em 0 a l s1)"
    "run_ok {} (?Q s1) (loop_binary_message em a l s1)"
    "run_ok {} (?Q s1) (inet_port_binary_data em a l s1)"
    if "i_buf s1 = Some b" "0 \<le> a" "0 \<le> l" "a + l \<le> orig_size b" for s1 a l
  proof -
    obtain x i j where d: "deq_async s1 = (x, s1\<lparr>d_opt := j, d_oph := i\<rparr>)"
      using deq_async_frame by blast
    let ?s2 = "s1\<lparr>d_opt := j, d_oph := i, d_caller := 0\<rparr>"
    have "besides_reply ?s2 = besides_reply s1" by (simp add: besides_reply_def)
    then show "run_ok {} (?Q s1) (inet_async_binary_data em 0 a l s1)"
      using that d call_with_buffer_ok [where s = ?s2 and b = b and em = em]
      by (simp add: inet_async_binary_data_def Let_def driver_call_def split: option.split)
    show "run_ok {} (?Q s1) (loop_binary_message em a l s1)"
      using that call_with_buffer_ok [where s = s1 and b = b and em = em]
      by (simp add: loop_binary_message_def Let_def driver_call_def)
    show "run_ok {} (?Q s1) (inet_port_binary_data em a l s1)"
      using that call_with_buffer_ok [where s = s1 and b = b and em = em]
      by (simp add: inet_port_binary_data_def Let_def driver_call_def)
  qed
  have "besides_reply (s\<lparr>d_bit8 := v\<rparr>) = besides_reply s" for v by simp
  then show ?thesis
    using plain rng hdr data [of "s\<lparr>d_bit8 := 0\<rparr>"] data [of "s\<lparr>d_bit8 := 1\<rparr>"] data [of s]
    by (simp add: loop_reply_binary_data_def b adjust_plain plain_type_def scanbit8_def Let_def)
qed

section \<open>The messages denote the documented terms\<close>

text \<open>A run of items that pushes exactly the terms \<open>ts\<close>, whatever is on the stack.\<close>

definition pushes :: "titem list \<Rightarrow> eterm list \<Rightarrow> bool" where
  "pushes items ts \<longleftrightarrow> (\<forall>st. push_items items st = Some (rev ts @ st))"

lemma push_items_pushes:
  "pushes items ts \<Longrightarrow> push_items (items @ rest) st = push_items rest (rev ts @ st)"
  by (simp add: pushes_def push_items_append)

lemma pushes_atom [simp]: "pushes [TAtom a] [EAtom a]" "pushes [TInt i] [EInt i]"
  "pushes [TString b] [EString b]" "pushes [TBinary b] [EBinary b]" "pushes [TPort] [EPort]"
  by (simp_all add: pushes_def)

text \<open>A request URI is loaded as one term, in at most 14 words.\<close>

lemma http_load_absoluteURI_pushes:
  "http_load_absoluteURI scheme uri = Inr items \<Longrightarrow> (\<exists>t. pushes items [t]) \<and> spec_words items \<le> 14"
  by (auto simp: http_load_absoluteURI_def pushes_def Let_def split: if_splits sum.splits prod.splits)

lemma http_load_uri_pushes:
  assumes "http_load_uri uri = Inr items"
  shows "(\<exists>t. pushes items [t]) \<and> spec_words items \<le> 14"
  using assms http_load_absoluteURI_pushes
  by (auto simp: http_load_uri_def pushes_def split: if_splits)

text \<open>
  The term an event stands for: its tag, the fields before and after a port that active messages
  have behind the tag.  \<open>u\<close> is the term of the URI of a request.
\<close>

fun event_tag :: "http_event \<Rightarrow> string" where
  "event_tag (HttpResponse major minor status phrase) = ''http_response''"
| "event_tag (HttpRequest meth meth_str uri major minor) = ''http_request''"
| "event_tag (HttpHeader name name_str val) = ''http_header''"
| "event_tag _ = ''http_eoh''"

fun event_fields :: "eterm \<Rightarrow> http_event \<Rightarrow> eterm list" where
  "event_fields u (HttpResponse major minor status phrase) =
     [ETuple [EInt major, EInt minor], EInt status, EString phrase]"
| "event_fields u (HttpRequest meth meth_str uri major minor) =
     [case meth of Some ap \<Rightarrow> EAtom (h_atom ap) | None \<Rightarrow> EString meth_str, u,
      ETuple [EInt major, EInt minor]]"
| "event_fields u (HttpHeader name name_str val) =
     (case name of Some ap \<Rightarrow> [EInt (int (h_index ap) + 1), EAtom (h_atom ap)]
                 | None \<Rightarrow> [EInt 0, EString name_str]) @ [EAtom ''undefined'', EString val]"
| "event_fields u _ = []"

definition answers_event :: "http_event \<Rightarrow> bool" where
  "answers_event ev \<longleftrightarrow> ev \<noteq> HttpFail \<and> ev \<noteq> HttpSkip"

fun uri_faults :: "http_event \<Rightarrow> bool" where
  "uri_faults (HttpRequest meth meth_str uri major minor) = (\<exists>e. http_load_uri uri = Inl e)"
| "uri_faults _ = False"

text \<open>The array \<^verbatim>\<open>spec\<close> of the message function of an event.\<close>

fun event_array :: "http_event \<Rightarrow> nat" where
  "event_array (HttpResponse major minor status phrase) = 27"
| "event_array (HttpRequest meth meth_str uri major minor) = 43"
| "event_array (HttpHeader name name_str val) = 26"
| "event_array _ = 14"

lemma http_event_active:
  assumes "d_active s \<noteq> INET_PASSIVE" "answers_event ev" "\<not> uri_faults ev"
  shows "run_ok {} (\<lambda>_ s'. \<exists>spec u. calls s' = OutputTerm spec # calls s \<and>
           one_term (event_array ev) (ETuple (EAtom (event_tag ev) # EPort # event_fields u ev)) spec)
         (http_event_message em ev s)"
proof (cases ev)
  case (HttpRequest meth meth_str uri major minor)
  obtain items where it: "http_load_uri uri = Inr items"
    using assms(3) HttpRequest by (cases "http_load_uri uri") auto
  obtain t where t: "pushes items [t]" "spec_words items \<le> 14" using http_load_uri_pushes [OF it] by blast
  show ?thesis
    using assms(1) HttpRequest t
    by (auto simp: http_event_message_def http_request_message_def Let_def it driver_call_def one_term_def
        denote_def push_items_pushes split: option.split)
qed (use assms in \<open>auto simp: http_event_message_def http_response_message_def http_header_message_def
    http_eoh_message_def driver_call_def one_term_def denote_def answers_event_def split: option.split\<close>)

lemma http_event_passive:
  assumes "d_active s = INET_PASSIVE" "answers_event ev" "\<not> uri_faults ev"
    and "async_wf s" "pending s = opp # rest"
  shows "run_ok {} (\<lambda>_ s'. pending s' = rest \<and> (\<exists>spec u. calls s' = SendTerm (op_caller opp) spec # calls s \<and>
           one_term (event_array ev) (ETuple [EAtom ''inet_async'', EPort, EInt (op_id opp),
             ETuple [EAtom ''ok'', if ev = HttpEoh then EAtom (event_tag ev)
                                   else ETuple (EAtom (event_tag ev) # event_fields u ev)]]) spec))
         (http_event_message em ev s)"
proof -
  have deq: "\<exists>s1. deq_async s1' = (Some opp, s1) \<and> pending s1 = rest \<and> calls s1 = calls s"
    if "d_op_queue s1' = d_op_queue s" "d_oph s1' = d_oph s" "d_opt s1' = d_opt s" "calls s1' = calls s" for s1'
  proof -
    have "async_wf s1'" "pending s1' = opp # rest"
      using that assms(4,5) by (simp_all add: async_wf_def pending_def)
    then show ?thesis using deq_async_spec [of s1'] that by auto
  qed
  show ?thesis
  proof (cases ev)
    case (HttpRequest meth meth_str uri major minor)
    obtain items where it: "http_load_uri uri = Inr items"
      using assms(3) HttpRequest by (cases "http_load_uri uri") auto
    obtain t where t: "pushes items [t]" "spec_words items \<le> 14" using http_load_uri_pushes [OF it] by blast
    have one: "one_term 43 (ETuple [EAtom ''inet_async'', EPort, EInt (op_id opp), ETuple [EAtom ''ok'',
        ETuple [EAtom ''http_request'', mt, t, ETuple [EInt major, EInt minor]]]])
      ([TAtom ''inet_async'', TPort, TInt (op_id opp), TAtom ''ok'', TAtom ''http_request'', m] @ items @
       [TInt major, TInt minor, TTuple 2, TTuple 4, TTuple 2, TTuple 4])"
      if "\<And>st. push_item m st = Some (mt # st)" "item_words m \<le> 3" for m mt
      using that t by (simp add: one_term_def denote_def push_items_pushes)
    obtain s1 where "deq_async (s\<lparr>http_state := http_state s + 1\<rparr>) = (Some opp, s1)"
        "pending s1 = rest" "calls s1 = calls s"
      using deq [of "s\<lparr>http_state := http_state s + 1\<rparr>"] by auto
    then show ?thesis
      using assms(1) HttpRequest one [of "TString meth_str" "EString meth_str"]
        one [of "TAtom (h_atom (the meth))" "EAtom (h_atom (the meth))"]
      by (cases meth) (auto simp: http_event_message_def http_request_message_def it driver_call_def)
  next
    case (HttpHeader name name_str val)
    then show ?thesis
      using assms(1) deq [of s]
      by (cases name) (auto simp: http_event_message_def http_header_message_def answer_def
          driver_call_def one_term_def denote_def)
  qed (use assms deq [of "s\<lparr>http_state := http_state s + 1\<rparr>"] deq [of "s\<lparr>http_state := 0\<rparr>"]
    in \<open>auto simp: http_event_message_def http_response_message_def http_eoh_message_def answer_def
      driver_call_def one_term_def denote_def answers_event_def\<close>)
qed

end
