(* ===== verification/Packet.thy ===== *)
theory Packet
  imports Reply
begin

text \<open>
  Framing: how many bytes are missing before the packet at the front of the input buffer is
  complete.  \<open>packet_label\<close> is the switch of \<^verbatim>\<open>loop_remain\<close> as a function of the bytes read and
  gives the label it jumps to; \<open>loop_remain\<close> is the function with the code at the labels.
\<close>

section \<open>Searching a byte\<close>

text \<open>
  \<^verbatim>\<open>memchr\<close>: the count is converted to \<^verbatim>\<open>size_t\<close>, so a negative one is huge; the search reads
  byte by byte and leaves the block if the byte is not found before its end.
\<close>

definition memchr :: "byte \<Rightarrow> byte list \<Rightarrow> int \<Rightarrow> fault + nat option" where
  "memchr c m n =
     (let count = nat (if n < 0 then n + 2 ^ 64 else n); k = length (takeWhile (\<lambda>x. x \<noteq> c) m)
      in if k < length m \<and> k < count then Inr (Some k)
         else if count \<le> length m then Inr None
         else Inl OutOfBounds)"

lemma memchr_Some:
  "memchr c m n = Inr (Some k) \<Longrightarrow> k < length m \<and> m ! k = c \<and> (0 \<le> n \<longrightarrow> int k < n)"
  using nth_length_takeWhile [of "\<lambda>x. x \<noteq> c" m]
  by (auto simp: memchr_def Let_def split: if_splits)

lemma memchr_within: "0 \<le> n \<Longrightarrow> n \<le> int (length m) \<Longrightarrow> \<exists>r. memchr c m n = Inr r"
  by (auto simp: memchr_def Let_def)

section \<open>The labels\<close>

datatype label = L_done int | L_remain int int | L_more | L_error

fun skip_tag :: "byte list \<Rightarrow> nat \<Rightarrow> nat \<Rightarrow> nat \<times> nat" where
  "skip_tag m k 0 = (k, 0)"
| "skip_tag m k (Suc nn) =
     (if m ! k AND 0x80 = 0x80 then skip_tag m (Suc k) nn else (k, Suc nn))"

definition asn1_length :: "byte list \<Rightarrow> nat \<Rightarrow> nat \<Rightarrow> label" where
  "asn1_length m k nn =
     (let len = unat (m ! k AND 0x7f) in
      if m ! k AND 0x80 = 0x80 then
        let k = k + 1; nn = nn - 1 in
        if nn < len then L_more
        else if len = 1 then L_remain (get_int8 (drop k m)) (int (k + 1))
        else if len = 2 then L_remain (get_int16 (drop k m)) (int (k + 2))
        else if len = 3 then L_remain (get_int24 (drop k m)) (int (k + 3))
        else if len = 4 then L_remain (get_int32 (drop k m)) (int (k + 4))
        else L_error
      else L_remain (int len) (int (k + 1)))"

definition asn1_label :: "nat \<Rightarrow> byte list \<Rightarrow> label" where
  "asn1_label n m =
     (if n < 2 then L_more
      else if m ! 0 AND 0x1f = 0x1f then
        let (k, nn) = skip_tag m 1 (n - 1) in
        if nn < 2 then L_more else asn1_length m (k + 1) (nn - 1)
      else asn1_length m 1 (n - 1))"

text \<open>
  The HTTP loop, with \<^verbatim>\<open>ptr1\<close> at offset \<open>k\<close>.  The subtraction from \<open>len\<close> is as in the code: of
  the length of the lines from \<^verbatim>\<open>ptr\<close> on, not from \<^verbatim>\<open>ptr1\<close> on.
\<close>

function http_label :: "int \<Rightarrow> bool \<Rightarrow> int \<Rightarrow> byte list \<Rightarrow> nat \<Rightarrow> int \<Rightarrow> fault + label" where
  "http_label st full n m k len =
     (case memchr LF (drop k m) len of
        Inl e \<Rightarrow> Inl e
      | Inr None \<Rightarrow> Inr (if full then L_done n else L_more)
      | Inr (Some j) \<Rightarrow>
          let plen = int (k + j + 1) in
          if st = 0 then Inr (L_done plen)
          else if plen < n then
            (if SP (m ! (k + j + 1)) then http_label st full n m (k + j + 1) (len - plen)
             else Inr (L_done plen))
          else Inr L_more)"
  by pat_completeness auto
termination
proof (relation "measure (\<lambda>(st, full, n, m, k, len). length m - k)", simp)
  fix st full n m k len r ro j plen
  assume "memchr LF (drop k m) len = Inr r" "r = Some j"
  then have "j < length m - k" using memchr_Some by fastforce
  then show "((st, full, n, m, k + j + 1, len - plen), (st :: int), (full :: bool), (n :: int), m, k, len)
      \<in> measure (\<lambda>(st, full, n, m, k, len). length m - k)"
    by simp
qed

declare http_label.simps [simp del]

definition packet_label ::
  "packet_type \<Rightarrow> int \<Rightarrow> bool \<Rightarrow> nat \<Rightarrow> byte list \<Rightarrow> fault + label" where
  "packet_label pt st full n m =
     (case pt of
        TCP_PB_RAW \<Rightarrow> Inr (if n = 0 then L_more else L_done (int n))
      | TCP_PB_1 \<Rightarrow> Inr (if n < 1 then L_more else L_remain (get_int8 m) 1)
      | TCP_PB_2 \<Rightarrow> Inr (if n < 2 then L_more else L_remain (get_int16 m) 2)
      | TCP_PB_4 \<Rightarrow> Inr (if n < 4 then L_more else L_remain (get_int32 m) 4)
      | TCP_PB_RM \<Rightarrow>
          Inr (if n < 4 then L_more
               else L_remain (uint (cint (get_int32 m) AND 0x7fffffff)) 4)
      | TCP_PB_LINE_LF \<Rightarrow>
          (case memchr LF m (int n) of
             Inl e \<Rightarrow> Inl e
           | Inr None \<Rightarrow> Inr (if full then L_done (int n) else L_more)
           | Inr (Some k) \<Rightarrow> Inr (L_done (int k + 1)))
      | TCP_PB_ASN1 \<Rightarrow> Inr (asn1_label n m)
      | TCP_PB_CDR \<Rightarrow>
          Inr (if n < 12 then L_more
               else if take 4 m \<noteq> bytes_of ''GIOP'' then L_error
               else if m ! 6 AND 0x01 \<noteq> 0 then L_remain (get_little_int32 (drop 8 m)) 12
               else L_remain (get_int32 (drop 8 m)) 12)
      | TCP_PB_FCGI \<Rightarrow>
          Inr (if n < 8 then L_more
               else if m ! 0 \<noteq> 1 then L_error
               else L_remain (get_int16 (drop 4 m) + get_int8 (drop 6 m)) 8)
      | TCP_PB_TPKT \<Rightarrow>
          Inr (if n < 4 then L_more
               else if m ! 0 = 3 then
                 let plen = get_int16 (drop 2 m) - 4 in
                 if plen < 0 then L_error else L_remain plen 4
               else L_error)
      | TCP_PB_HTTP \<Rightarrow>
          if n = 1 \<and> m ! 0 = LF \<or> n = 2 \<and> m ! 0 = CR \<and> m ! 1 = LF then Inr (L_done (int n))
          else http_label st full (int n) m 0 (int n)
      | TCP_PB_HTTPH \<Rightarrow>
          if n = 1 \<and> m ! 0 = LF \<or> n = 2 \<and> m ! 0 = CR \<and> m ! 1 = LF then Inr (L_done (int n))
          else http_label st full (int n) m 0 (int n)
      | TCP_PB_OTHER \<Rightarrow> Inr L_error)"

section \<open>Bytes that remain\<close>

text \<open>
  The result is the return value and \<^verbatim>\<open>*len\<close> (0 where the code leaves it unset).  The pointers
  into the buffer are assumed to point into it, otherwise the model faults.
\<close>

definition loop_remain :: "emulator \<Rightarrow> drv \<Rightarrow> (int \<times> int, drv) outcome" where
  "loop_remain em s = deref (i_buf s) (\<lambda>b.
     let nfill = i_ptr s; nsz = i_bufsz s - nfill; n = i_ptr s - i_ptr_start s;
         pt = packet_type_of (d_htype s) in
     reading (orig_bytes b) (i_ptr_start s) n (\<lambda>_.
       let s = (if pt = TCP_PB_HTTPH then s\<lparr>http_state := 1\<rparr> else s) in
       case packet_label pt (http_state s) (nsz = 0 \<and> nfill = n) (nat n)
              (drop (nat (i_ptr_start s)) (orig_bytes b)) of
         Inl e \<Rightarrow> Inl e
       | Inr (L_done plen) \<Rightarrow> Inr ((0, plen), s)
       | Inr (L_remain plen hlen) \<Rightarrow>
           checked (plen + hlen) (\<lambda>total. checked (total - n) (\<lambda>remain.
             if remain \<le> 0 then Inr ((0, total), s)
             else andthen (loop_expand_buffer em total s) (\<lambda>r s.
               if r < 0 then Inr ((- 1, 0), s) else Inr ((remain, remain), s))))
       | Inr L_more \<Rightarrow>
           if nsz = 0 then
             (if nfill = n then Inr ((- 1, 0), s) else Inr ((nfill - n, 0), s))
           else Inr ((nsz, 0), s)
       | Inr L_error \<Rightarrow> Inr ((- 1, 0), s)))"

section \<open>The framing keeps the buffer in order\<close>

text \<open>
  The packet types for which no packet header can make a delivery leave the buffer or stall: all
  but HTTP, FCGI and the types with a signed length field.
\<close>

definition safe_type :: "packet_type \<Rightarrow> bool" where
  "safe_type pt \<longleftrightarrow> plain_type pt \<and> pt \<notin> {TCP_PB_4, TCP_PB_ASN1, TCP_PB_CDR}"

definition label_ok :: "packet_type \<Rightarrow> bool \<Rightarrow> nat \<Rightarrow> label \<Rightarrow> bool" where
  "label_ok pt full n lab =
     (case lab of
        L_done plen \<Rightarrow> (0 < plen \<or> plen = 0 \<and> full) \<and> plen \<le> int n \<and> hdr_len pt = 0
      | L_remain plen hlen \<Rightarrow> 0 \<le> plen \<and> 0 < hlen \<and> (hdr_len pt \<noteq> 0 \<longrightarrow> hlen = hdr_len pt)
      | _ \<Rightarrow> True)"

lemma packet_label_ok:
  assumes "safe_type pt" "n \<le> length m"
  shows "\<exists>lab. packet_label pt st full n m = Inr lab \<and> label_ok pt full n lab"
proof (cases pt)
  case TCP_PB_LINE_LF
  obtain r where r: "memchr LF m (int n) = Inr r" using memchr_within assms(2) by fastforce
  show ?thesis
  proof (cases r)
    case None
    then show ?thesis
      using TCP_PB_LINE_LF r by (auto simp: packet_label_def label_ok_def hdr_len_def)
  next
    case (Some k)
    then have "int k < int n" using memchr_Some r by fastforce
    then show ?thesis
      using TCP_PB_LINE_LF r Some by (simp add: packet_label_def label_ok_def hdr_len_def)
  qed
qed (use assms in \<open>simp_all add: packet_label_def label_ok_def hdr_len_def safe_type_def
      plain_type_def Let_def get_int8_bounds get_int16_bounds\<close>)

definition remain_ok :: "drv \<Rightarrow> int \<times> int \<Rightarrow> drv \<Rightarrow> bool" where
  "remain_ok s r s' \<longleftrightarrow>
     (let hl = hdr_len (packet_type_of (d_htype s)); n = i_ptr s - i_ptr_start s; (code, len) = r in
      buf_inv s' \<and> i_buf s' \<noteq> None \<and> buf_frame s s' \<and> i_ptr s' = i_ptr s \<and>
      i_ptr_start s' = i_ptr_start s \<and> i_remain s' = i_remain s \<and> buffered s' = buffered s \<and>
      (code = 0 \<longrightarrow> len \<le> n \<and> (0 < len \<longrightarrow> hl \<le> len) \<and> (len \<le> 0 \<longrightarrow> i_ptr_start s = 0)) \<and>
      (0 < code \<and> 0 < len \<longrightarrow> code = len \<and> i_ptr s' + len \<le> i_bufsz s' \<and> hl \<le> n + len) \<and>
      (0 < code \<and> len \<le> 0 \<longrightarrow> i_ptr_start s = 0 \<longrightarrow> i_ptr s' + code \<le> i_bufsz s'))"

lemma loop_remain_ok:
  assumes inv: "buf_inv s" and b: "i_buf s = Some b"
    and safe: "safe_type (packet_type_of (d_htype s))"
  shows "run_ok {IntOverflow} (remain_ok s) (loop_remain em s)"
proof -
  let ?pt = "packet_type_of (d_htype s)"
  let ?n = "i_ptr s - i_ptr_start s"
  have rng: "0 \<le> i_ptr_start s" "i_ptr_start s \<le> i_ptr s" "i_ptr s \<le> i_bufsz s"
      "i_bufsz s \<le> orig_size b"
    using inv b by (simp_all add: buf_inv_def)
  have hl: "0 \<le> hdr_len ?pt" by (simp add: hdr_len_def split: packet_type.split)
  have "nat ?n \<le> length (drop (nat (i_ptr_start s)) (orig_bytes b))" using rng by simp
  with safe obtain lab where lab: "packet_label ?pt (http_state s)
      (i_bufsz s - i_ptr s = 0 \<and> i_ptr s = ?n) (nat ?n)
      (drop (nat (i_ptr_start s)) (orig_bytes b)) = Inr lab" 
      "label_ok ?pt (i_bufsz s - i_ptr s = 0 \<and> i_ptr s = ?n) (nat ?n) lab"
    using packet_label_ok by blast
  have not_http: "?pt \<noteq> TCP_PB_HTTPH" using safe by (simp add: safe_type_def plain_type_def)
  have same: "remain_ok s (code, len) s"
    if "code = 0 \<longrightarrow> len \<le> ?n \<and> (0 < len \<longrightarrow> hdr_len ?pt \<le> len) \<and>
          (len \<le> 0 \<longrightarrow> i_ptr_start s = 0)" "0 < code \<longrightarrow> len \<le> 0"
      "0 < code \<longrightarrow> i_ptr_start s = 0 \<longrightarrow> i_ptr s + code \<le> i_bufsz s" for code len
    using that inv b by (auto simp: remain_ok_def Let_def)
  show ?thesis
  proof (cases lab)
    case (L_done plen)
    then show ?thesis
      using lab rng not_http same [of 0 plen]
      by (auto simp: loop_remain_def b Let_def label_ok_def)
  next
    case L_more
    then show ?thesis
      using lab rng not_http same
      by (simp add: loop_remain_def b Let_def)
  next
    case L_error
    then show ?thesis
      using lab rng not_http same
      by (simp add: loop_remain_def b Let_def)
  next
    case (L_remain plen hlen)
    let ?total = "plen + hlen"
    have tot: "0 < ?total" "hdr_len ?pt \<le> ?total"
      using lab(2) L_remain by (auto simp: label_ok_def)
    have "run_ok {IntOverflow} (\<lambda>r s'. if r < 0 then remain_ok s (- 1, 0) s'
        else remain_ok s (?total - ?n, ?total - ?n) s') (loop_expand_buffer em ?total s)"
      if "\<not> ?total - ?n \<le> 0"
      by (rule run_ok_mono [OF loop_expand_buffer_ok [OF inv]])
        (use b that tot hl rng in \<open>auto simp: remain_ok_def Let_def\<close>)
    then show ?thesis
      using lab rng not_http same [of 0 ?total] L_remain tot
      by (auto simp: loop_remain_def b Let_def elim!: run_ok_mono split: if_splits)
  qed
qed

section \<open>Length fields\<close>

text \<open>The headers of the remaining packet types for a payload of \<open>k\<close> bytes.\<close>

definition long_header :: "packet_type \<Rightarrow> byte list \<Rightarrow> int \<Rightarrow> bool" where
  "long_header pt h k \<longleftrightarrow>
     (case pt of
        TCP_PB_4 \<Rightarrow> h = put_int32 k
      | TCP_PB_RM \<Rightarrow> h = put_int32 k \<or> h = put_int32 (k - 2147483648)
      | TCP_PB_TPKT \<Rightarrow> (\<exists>r. h = [3, r] @ put_int16 (k + 4)) \<and> k + 4 < 65536
      | TCP_PB_CDR \<Rightarrow> (\<exists>a b c. h = bytes_of ''GIOP'' @ [a, b, 0, c] @ put_int32 k \<or>
                              h = bytes_of ''GIOP'' @ [a, b, 1, c] @ rev (put_int32 k))
      | TCP_PB_FCGI \<Rightarrow> (\<exists>a b c d e. h = [1, a, b, c] @ put_int16 (k - uint d) @ [d, e] \<and>
                              uint d \<le> k \<and> k - uint d < 65536)
      | TCP_PB_ASN1 \<Rightarrow> (\<exists>t. t AND 0x1f \<noteq> 0x1f \<and> (k < 128 \<and> h = [t, word_of_int k] \<or>
                              h = [t, 0x84] @ put_int32 k \<or> k < 65536 \<and> h = [t, 0x82] @ put_int16 k))
      | _ \<Rightarrow> False)"

lemma put_int32_bytes: "put_int32 i = [put_int32 i ! 0, put_int32 i ! 1, put_int32 i ! 2, put_int32 i ! 3]"
  by (simp add: put_int32_def)

lemma get_little_rev: "get_little_int32 (rev (put_int32 i) @ r) = get_int32 (put_int32 i @ r)"
  by (simp add: get_little_int32_def get_int32_def put_int32_def)

lemma record_mark:
  assumes "0 \<le> k" "k \<le> 2147483647"
  shows "uint (cint (get_int32 (put_int32 k @ r)) AND 0x7fffffff) = k"
    and "uint (cint (get_int32 (put_int32 (k - 2147483648) @ r)) AND 0x7fffffff) = k"
proof -
  have mask: "uint (cint i AND 0x7fffffff) = i mod 2 ^ 31" for i
  proof -
    have "(0x7fffffff :: 32 word) = mask 31" by (simp add: mask_eq_exp_minus_1)
    then have "uint (cint i AND 0x7fffffff) = take_bit 31 (take_bit 32 i)"
      by (simp only: take_bit_eq_mask [symmetric] unsigned_take_bit_eq) (simp add: uint_word_of_int_eq)
    then show ?thesis by (simp add: take_bit_eq_mod mod_mod_cancel)
  qed
  have "k - 2147483648 = k + (- 1) * 2 ^ 31" by simp
  then have "(k - 2147483648) mod 2 ^ 31 = k"
    using assms by (simp only: mod_mult_self1 mod_mult_self2) simp
  moreover have "k mod 2 ^ 31 = k" using assms by simp
  moreover have "get_int32 (put_int32 k @ r) = k" "get_int32 (put_int32 (k - 2147483648) @ r) = k - 2147483648"
    by (rule get_put_int32; use assms in simp)+
  ultimately show "uint (cint (get_int32 (put_int32 k @ r)) AND 0x7fffffff) = k"
    "uint (cint (get_int32 (put_int32 (k - 2147483648) @ r)) AND 0x7fffffff) = k"
    by (simp_all only: mask)
qed

lemma short_length:
  assumes "0 \<le> k" "k < 128"
  shows "(word_of_int k :: byte) AND 0x80 = 0" "unat ((word_of_int k :: byte) AND 0x7f) = nat k"
proof -
  have u: "uint (word_of_int k :: byte) = k" using assms by (simp add: uint_word_of_int)
  have "(0x7f :: byte) = mask 7" by (simp add: mask_eq_exp_minus_1)
  then have "uint ((word_of_int k :: byte) AND 0x7f) = take_bit 7 k"
    by (simp only: take_bit_eq_mask [symmetric] unsigned_take_bit_eq u)
  then have m: "uint ((word_of_int k :: byte) AND 0x7f) = k" using assms by (simp add: take_bit_int_eq_self)
  then show "unat ((word_of_int k :: byte) AND 0x7f) = nat k" by (simp add: unat_eq_nat_uint)
  have "(word_of_int k :: byte) AND 0x7f = word_of_int k" using m u by (simp add: word_uint_eq_iff)
  then have "(word_of_int k :: byte) AND 0x80 = (word_of_int k AND 0x7f) AND 0x80" by simp
  then show "(word_of_int k :: byte) AND 0x80 = 0" by (simp add: and.assoc)
qed

lemma asn1_read:
  assumes "t AND 0x1f \<noteq> 0x1f" "0 \<le> k" "k \<le> 2147483647"
  shows "k < 128 \<Longrightarrow> 2 \<le> n \<Longrightarrow> asn1_label n (t # word_of_int k # r) = L_remain k 2"
    and "6 \<le> n \<Longrightarrow> asn1_label n ([t, 0x84] @ put_int32 k @ r) = L_remain k 6"
    and "4 \<le> n \<Longrightarrow> k < 65536 \<Longrightarrow> asn1_label n ([t, 0x82] @ put_int16 k @ r) = L_remain k 4"
  using assms short_length [of k] get_put_int32 [of k r] get_put_int16 [of k r]
  by (simp_all add: asn1_label_def asn1_length_def Let_def)

lemma packet_label_long_header:
  assumes h: "long_header pt h (int (length p))" and p: "int (length p) \<le> 2147483647"
  shows "packet_label pt st full (length (h @ p)) (h @ p @ r) = Inr (L_remain (int (length p)) (int (length h)))"
proof -
  note g32 = get_put_int32 [of "int (length p)"]
  have cases: "pt \<in> {TCP_PB_4, TCP_PB_RM, TCP_PB_TPKT, TCP_PB_CDR, TCP_PB_FCGI, TCP_PB_ASN1}"
    using h by (simp add: long_header_def split: packet_type.splits)
  then show ?thesis
  proof (elim insertE emptyE)
    assume "pt = TCP_PB_4"
    then show ?thesis using h p g32 by (simp add: long_header_def packet_label_def)
  next
    assume "pt = TCP_PB_RM"
    then show ?thesis
      using h p record_mark [of "int (length p)"] by (auto simp: long_header_def packet_label_def)
  next
    assume pt: "pt = TCP_PB_TPKT"
    then obtain c where "h = [3, c] @ put_int16 (int (length p) + 4)" "int (length p) + 4 < 65536"
      using h by (auto simp: long_header_def)
    then show ?thesis using pt by (simp add: packet_label_def Let_def)
  next
    assume pt: "pt = TCP_PB_CDR"
    then obtain a b c where "h = bytes_of ''GIOP'' @ [a, b, 0, c] @ put_int32 (int (length p)) \<or>
        h = bytes_of ''GIOP'' @ [a, b, 1, c] @ rev (put_int32 (int (length p)))"
      using h by (auto simp: long_header_def)
    then show ?thesis
      using pt p g32 get_little_rev [of "int (length p)"] by (elim disjE) (simp_all add: packet_label_def)
  next
    assume pt: "pt = TCP_PB_FCGI"
    then obtain a b c d e where hd: "h = [1, a, b, c] @ put_int16 (int (length p) - uint d) @ [d, e]"
        "uint d \<le> int (length p)" "int (length p) - uint d < 65536"
      using h by (auto simp: long_header_def)
    have "get_int16 (put_int16 (int (length p) - uint d) @ d # e # p @ r) = int (length p) - uint d"
      using hd(2,3) by simp
    moreover have "get_int8 (drop 2 (put_int16 (int (length p) - uint d)) @ d # e # p @ r) = uint d"
      by (simp add: get_int8_def put_int16_def)
    ultimately show ?thesis using pt hd(1) by (simp add: packet_label_def)
  next
    assume pt: "pt = TCP_PB_ASN1"
    then obtain t where t: "t AND 0x1f \<noteq> 0x1f" and "int (length p) < 128 \<and> h = [t, word_of_int (int (length p))] \<or>
        h = [t, 0x84] @ put_int32 (int (length p)) \<or> int (length p) < 65536 \<and> h = [t, 0x82] @ put_int16 (int (length p))"
      using h by (auto simp: long_header_def)
    then show ?thesis
      using pt p asn1_read [OF t, of "int (length p)"] by (elim disjE) (auto simp: packet_label_def)
  qed
qed

end
