(* ===== verification/Stats.thy ===== *)
theory Stats
  imports Loop_State
begin

text \<open>
  The statistics of a port, its subscribers and the two requests that report on them.  The octet
  counters are two \<^verbatim>\<open>unsigned long\<close>s; \<open>octets\<close> is the number they stand for.  The subscriber list
  is modelled by the processes from the head cell on: the head cell is embedded in the descriptor
  and every other cell is a block of its own.
\<close>

section \<open>Counting packets\<close>

definition inet_output_count :: "emulator \<Rightarrow> int \<Rightarrow> drv \<Rightarrow> drv" where
  "inet_output_count em len s =
     (let n = d_send_cnt s + 1; t = d_send_oct0 s + word_of_int len;
          c = (if t < d_send_oct0 s then 1 else 0); avg = d_send_avg s;
          s = s\<lparr>d_send_oct0 := t, d_send_oct1 := d_send_oct1 s + c\<rparr>;
          n = (if n = 0 then 1 else n);
          s = s\<lparr>d_send_avg := em_avg em avg len n\<rparr>;
          s = (if word_of_int len > d_send_max s then s\<lparr>d_send_max := word_of_int len\<rparr> else s)
      in s\<lparr>d_send_cnt := n\<rparr>)"

definition inet_input_count :: "emulator \<Rightarrow> int \<Rightarrow> drv \<Rightarrow> drv" where
  "inet_input_count em len s =
     (let n = d_recv_cnt s + 1; t = d_recv_oct0 s + word_of_int len;
          c = (if t < d_recv_oct0 s then 1 else 0); avg = d_recv_avg s;
          s = s\<lparr>d_recv_oct0 := t, d_recv_oct1 := d_recv_oct1 s + c\<rparr>;
          n = (if n = 0 then 1 else n);
          avg = em_avg em avg len n;
          s = s\<lparr>d_recv_avg := avg\<rparr>;
          s = (if word_of_int len > d_recv_max s then s\<lparr>d_recv_max := word_of_int len\<rparr> else s);
          dvi = d_recv_dvi s;
          s = s\<lparr>d_recv_dvi := em_dvi em dvi len avg n\<rparr>
      in s\<lparr>d_recv_cnt := n\<rparr>)"

definition octets :: "64 word \<Rightarrow> 64 word \<Rightarrow> int" where
  "octets hi lo = uint hi * 2 ^ 64 + uint lo"

text \<open>The carry: an addition wrapped exactly if the sum is below the old low word.\<close>

lemma octets_add:
  assumes "0 \<le> len" "len < 2 ^ 64" "octets hi lo + len < 2 ^ 128"
  shows "octets (hi + (if lo + word_of_int len < lo then 1 else 0)) (lo + word_of_int len) =
         octets hi lo + len"
proof -
  have w: "uint (word_of_int len :: 64 word) = len"
    using assms by (simp add: uint_word_of_int_eq take_bit_int_eq_self)
  have lo: "0 \<le> uint lo" "uint lo < 2 ^ 64" using uint_lt2p [of lo] by simp_all
  have hi: "0 \<le> uint hi" "uint hi < 2 ^ 64" using uint_lt2p [of hi] by simp_all
  show ?thesis
  proof (cases "uint lo + len < 2 ^ 64")
    case True
    then have "uint (lo + word_of_int len) = uint lo + len"
      using w lo assms(1) by (subst uint_add_lem [THEN iffD1]) simp_all
    then show ?thesis using assms(1) by (simp add: octets_def word_less_def)
  next
    case False
    have "uint (lo + word_of_int len) = (uint lo + len) mod 2 ^ 64"
      using w by (simp add: uint_word_ariths)
    also have "\<dots> = (uint lo + len - 2 ^ 64) mod 2 ^ 64" by simp
    also have "\<dots> = uint lo + len - 2 ^ 64"
      using False lo assms by (intro mod_pos_pos_trivial) simp_all
    finally have sum: "uint (lo + word_of_int len) = uint lo + len - 2 ^ 64" .
    then have "lo + word_of_int len < lo" using assms(2) by (simp add: word_less_def)
    moreover have "uint (hi + 1) = uint hi + 1"
    proof -
      have "uint hi + 1 < 2 ^ 64" using False assms(3) lo by (simp add: octets_def)
      then show ?thesis using hi by (simp add: uint_word_ariths)
    qed
    ultimately show ?thesis by (simp add: octets_def sum)
  qed
qed

section \<open>Subscribers\<close>

text \<open>
  A subscriber behind the head gets a cell of 16 bytes, which goes right behind the head.  A
  head cell that holds \<^verbatim>\<open>NO_PROCESS\<close> means that there are none.
\<close>

definition save_subscriber :: "emulator \<Rightarrow> nat \<Rightarrow> drv \<Rightarrow> int \<times> drv" where
  "save_subscriber em pid s =
     (case d_subs s of
        [] \<Rightarrow> (1, s\<lparr>d_subs := (if pid = NO_PROCESS then [] else [pid])\<rparr>)
      | first # rest \<Rightarrow>
          let s = log_call (AllocMem 16) s
          in if em_alloc em (calls s) then (1, s\<lparr>d_subs := first # pid # rest\<rparr>) else (0, s))"

definition free_subscribers :: "drv \<Rightarrow> drv" where
  "free_subscribers s = s\<lparr>calls := map (\<lambda>_. FreeMem) (tl (d_subs s)) @ calls s, d_subs := []\<rparr>"

text \<open>The loop over the cells behind the head, with \<^verbatim>\<open>free_subs\<close> set or not.\<close>

fun send_to_rest :: "emulator \<Rightarrow> bool \<Rightarrow> titem list \<Rightarrow> nat list \<Rightarrow> drv \<Rightarrow> drv" where
  "send_to_rest em free_subs msg [] s = s"
| "send_to_rest em free_subs msg (pid # rest) s =
     (let (_, s) = driver_call em (SendTerm pid msg) s
      in send_to_rest em free_subs msg rest (if free_subs then log_call FreeMem s else s))"

definition send_to_subscribers :: "emulator \<Rightarrow> bool \<Rightarrow> titem list \<Rightarrow> drv \<Rightarrow> drv" where
  "send_to_subscribers em free_subs msg s =
     (case d_subs s of
        [] \<Rightarrow> s
      | first # rest \<Rightarrow>
          let (_, s) = driver_call em (SendTerm first msg) s;
              s = send_to_rest em free_subs msg rest s
          in if free_subs then s\<lparr>d_subs := []\<rparr> else s)"

definition send_empty_out_q_msgs :: "emulator \<Rightarrow> drv \<Rightarrow> drv" where
  "send_empty_out_q_msgs em s =
     (if d_subs s = [] then s
      else send_to_subscribers em True [TAtom ''empty_out_q'', TPort, TTuple 2] s)"

definition loop_clear_output :: "emulator \<Rightarrow> drv \<Rightarrow> drv" where
  "loop_clear_output em s =
     send_empty_out_q_msgs em (log_call (Deq (driver_sizeq em s)) s)"

text \<open>The messages among the calls, oldest first.\<close>

definition sends :: "call list \<Rightarrow> (nat \<times> titem list) list" where
  "sends h = rev (List.map_filter (\<lambda>c. case c of SendTerm p m \<Rightarrow> Some (p, m) | _ \<Rightarrow> None) h)"

lemma sends_simps [simp]:
  "sends [] = []"
  "sends (SendTerm p m # h) = sends h @ [(p, m)]"
  "sends (FreeMem # h) = sends h" "sends (Deq n # h) = sends h" "sends (AllocMem n # h) = sends h"
  by (simp_all add: sends_def map_filter_simps)

lemma send_to_rest_sends:
  "\<exists>h. send_to_rest em f msg pids s = s\<lparr>calls := h\<rparr> \<and>
       sends h = sends (calls s) @ map (\<lambda>p. (p, msg)) pids"
proof (induction pids arbitrary: s)
  case Nil
  show ?case by (rule exI [of _ "calls s"]) simp
next
  case (Cons p pids)
  let ?s = "if f then log_call FreeMem (log_call (SendTerm p msg) s) else log_call (SendTerm p msg) s"
  obtain h where "send_to_rest em f msg pids ?s = ?s\<lparr>calls := h\<rparr>"
      "sends h = sends (calls ?s) @ map (\<lambda>p. (p, msg)) pids"
    using Cons.IH by blast
  then show ?case by (auto simp: driver_call_def split: if_splits)
qed

lemma send_to_subscribers_sends:
  "\<exists>h. send_to_subscribers em f msg s = s\<lparr>calls := h, d_subs := if f then [] else d_subs s\<rparr> \<and>
       sends h = sends (calls s) @ map (\<lambda>p. (p, msg)) (d_subs s)"
proof (cases "d_subs s")
  case Nil
  then show ?thesis
    by (intro exI [of _ "calls s"]) (simp add: send_to_subscribers_def)
next
  case (Cons p rest)
  obtain h where "send_to_rest em f msg rest (log_call (SendTerm p msg) s) = s\<lparr>calls := h\<rparr>"
      "sends h = sends (calls s) @ (p, msg) # map (\<lambda>p. (p, msg)) rest"
    using send_to_rest_sends [of em f msg rest "log_call (SendTerm p msg) s"] by auto
  then show ?thesis
    using Cons by (intro exI [of _ h]) (simp add: send_to_subscribers_def driver_call_def)
qed

section \<open>The reports\<close>

text \<open>
  The model of a report returns the bytes written to \<open>dst\<close>; whether they fit the block the caller
  passes is checked there.  \<open>None\<close> and \<open>SubInvalid\<close> are the code for an invalid argument.
\<close>

abbreviation (input) INET_REP_OK :: byte where "INET_REP_OK \<equiv> 1"
abbreviation (input) INET_REP_ERROR :: byte where "INET_REP_ERROR \<equiv> 0"

definition ulong32 :: "64 word \<Rightarrow> byte list" where
  "ulong32 x = put_int32 (uint x)"

definition stat_value :: "emulator \<Rightarrow> byte \<Rightarrow> drv \<Rightarrow> byte list option" where
  "stat_value em opc s =
     (if opc = 1 then Some (ulong32 (d_recv_cnt s))
      else if opc = 2 then Some (ulong32 (d_recv_max s))
      else if opc = 3 then Some (ulong32 (em_ulong em (d_recv_avg s)))
      else if opc = 4 then Some (ulong32 (em_ulong em (em_fabs em (d_recv_dvi s))))
      else if opc = 5 then Some (ulong32 (d_send_cnt s))
      else if opc = 6 then Some (ulong32 (d_send_max s))
      else if opc = 7 then Some (ulong32 (em_ulong em (d_send_avg s)))
      else if opc = 8 then Some (ulong32 (word_of_int (driver_sizeq em s)))
      else if opc = 9 then Some (ulong32 (d_recv_oct1 s) @ ulong32 (d_recv_oct0 s))
      else if opc = 10 then Some (ulong32 (d_send_oct1 s) @ ulong32 (d_send_oct0 s))
      else None)"

text \<open>
  None is the answer to a code that is not valid: it is answered with an error, and what had been written to the reply
  before is overwritten or not sent.
\<close>

fun fill_stats :: "emulator \<Rightarrow> byte list \<Rightarrow> drv \<Rightarrow> byte list \<Rightarrow> byte list option" where
  "fill_stats em [] s dst = Some dst"
| "fill_stats em (opc # src) s dst =
     (case stat_value em opc s of
        None \<Rightarrow> None
      | Some v \<Rightarrow> fill_stats em src s (dst @ opc # v))"

definition inet_fill_stat :: "emulator \<Rightarrow> byte list \<Rightarrow> drv \<Rightarrow> byte list option" where
  "inet_fill_stat em src s = fill_stats em src s [INET_REP_OK]"

datatype sub_result = SubReply "byte list" | SubNoMem | SubInvalid

fun subscribe_all :: "emulator \<Rightarrow> byte list \<Rightarrow> drv \<Rightarrow> byte list \<Rightarrow> sub_result \<times> drv" where
  "subscribe_all em [] s dst = (SubReply dst, s)"
| "subscribe_all em (opc # src) s dst =
     (if opc = 1 then
        let val = driver_sizeq em s;
            (ok, s) = (if val > 0 then save_subscriber em (em_caller em (calls s)) s else (1, s))
        in if ok = 0 then (SubNoMem, s)
           else subscribe_all em src s (dst @ opc # put_int32 val)
      else (SubInvalid, s))"

definition inet_subscribe :: "emulator \<Rightarrow> byte list \<Rightarrow> drv \<Rightarrow> sub_result \<times> drv" where
  "inet_subscribe em src s = subscribe_all em src s [INET_REP_OK]"

text \<open>The size \<^verbatim>\<open>inet_ctl\<close> computes for the reply to GETSTAT, and that it is the size used.\<close>

definition stat_size :: "byte list \<Rightarrow> int" where
  "stat_size src = sum_list (map (\<lambda>opc. if opc = 9 \<or> opc = 10 then 9 else 5) src)"

lemma length_stat_value:
  "stat_value em opc s = Some v \<Longrightarrow> int (length v) + 1 = (if opc = 9 \<or> opc = 10 then 9 else 5)"
  by (auto simp: stat_value_def ulong32_def split: if_splits)

lemma length_fill_stats:
  "fill_stats em src s dst = Some r \<Longrightarrow> int (length r) = int (length dst) + stat_size src"
proof (induction src arbitrary: dst)
  case (Cons opc src)
  then obtain v where "stat_value em opc s = Some v" "fill_stats em src s (dst @ opc # v) = Some r"
    by (auto split: option.splits)
  then show ?case using Cons.IH length_stat_value [of em opc s v] by (simp add: stat_size_def)
qed (simp add: stat_size_def)

lemma length_subscribe_all:
  "subscribe_all em src s dst = (SubReply r, s') \<Longrightarrow>
   int (length r) = int (length dst) + 5 * int (length src)"
  by (induction src arbitrary: s dst) (auto simp: Let_def split: if_splits prod.splits)

end
