(* ===== verification/Deliver.thy ===== *)
theory Deliver
  imports Packet Stats
begin

text \<open>
  Delivery and the data path: \<^verbatim>\<open>loop_deliver\<close> hands every complete packet at the front of the
  buffer to Erlang, \<^verbatim>\<open>loop_recv\<close> moves bytes from the driver queue to the buffer, and
  \<^verbatim>\<open>loop_send\<close> puts a packet on the driver queue and reads it back.  The loop of \<^verbatim>\<open>loop_deliver\<close>
  runs on fuel; one step for each buffered byte is enough, because every round consumes one.
\<close>

section \<open>Errors while reading\<close>

definition unblock_send :: "emulator \<Rightarrow> drv \<Rightarrow> drv" where
  "unblock_send em s =
     (if IS_BUSY s then
        let s = loop_clear_output em s;
            s = log_call CancelTimer s;
            s = s\<lparr>l_busy_on_send := 0, d_state := d_state s AND NOT INET_F_BUSY\<rparr>;
            s = log_call (SetBusy 0) s
        in snd (inet_reply_error_am em ''closed'' s)
      else s)"

definition loop_recv_closed :: "emulator \<Rightarrow> drv \<Rightarrow> (int, drv) outcome" where
  "loop_recv_closed em s =
     (if d_active s = INET_PASSIVE then
        andthen (async_error_am_all em ''closed'' (loop_clear_input (log_call CancelTimer s)))
          (\<lambda>_ s. Inr (- 1, s))
      else
        let s = loop_clear_input (unblock_send em s);
            s = snd (loop_closed_message em s)
        in Inr (- 1, if d_exitf s \<noteq> 0 then log_call (Exit None) s else s))"

definition loop_recv_error :: "emulator \<Rightarrow> errno \<Rightarrow> drv \<Rightarrow> int \<times> drv" where
  "loop_recv_error em err s =
     (if d_active s = INET_PASSIVE then
        (- 1, snd (async_error em err (loop_clear_input (log_call CancelTimer s))))
      else
        let s = loop_clear_input (unblock_send em s);
            s = snd (loop_error_message em err s);
            s = snd (loop_closed_message em s)
        in (- 1, if d_exitf s \<noteq> 0 then log_call (Exit (Some err)) s else s))"

section \<open>Delivering the packets that are ready\<close>

text \<open>
  One round of the loop up to the test of \<^verbatim>\<open>code\<close>: a packet that takes three quarters of the
  buffer is sent as a part of it, any other is copied.
\<close>

definition deliver_packet :: "emulator \<Rightarrow> int \<Rightarrow> drv \<Rightarrow> (int, drv) outcome" where
  "deliver_packet em len s = deref (i_buf s) (\<lambda>b. checked (len * 4) (\<lambda>len4.
     if len4 \<ge> orig_size b * 3 then
       if i_ptr_start s + len = i_ptr s then
         andthen (loop_reply_binary_data em (i_ptr_start s) len s)
           (\<lambda>code s. Inr (code, loop_clear_input s))
       else
         let ptr_end = i_ptr_start s + len; sz = i_ptr s - ptr_end in
         (case alloc_buffer em (i_bufsz s) s of (p, s) \<Rightarrow>
            deref p (\<lambda>bin. reading (orig_bytes b) ptr_end sz (\<lambda>trail.
              writing (orig_bytes bin) 0 trail (\<lambda>m.
                andthen (loop_reply_binary_data em (i_ptr_start s) len s) (\<lambda>code s.
                  let s = free_buffer (i_buf s) s
                  in Inr (code, s\<lparr>i_buf := Some (bin\<lparr>orig_bytes := m\<rparr>), i_ptr_start := 0,
                                  i_ptr := sz, i_remain := 0\<rparr>))))))
     else
       andthen (loop_reply_data em (i_ptr_start s) len s) (\<lambda>code s.
         let s = s\<lparr>i_ptr_start := i_ptr_start s + len\<rparr>
         in Inr (code, if i_ptr_start s = i_ptr s then loop_clear_input s
                       else s\<lparr>i_remain := 0\<rparr>))))"

text \<open>The rest of the round; \<open>again\<close> is the next one, with the packet length \<^verbatim>\<open>loop_remain\<close> found.\<close>

definition deliver_next ::
  "emulator \<Rightarrow> (int \<Rightarrow> int \<Rightarrow> drv \<Rightarrow> (int, drv) outcome) \<Rightarrow> int \<Rightarrow> int \<Rightarrow> drv \<Rightarrow> (int, drv) outcome"
where
  "deliver_next em again count code s =
     (if code < 0 then Inr (code, s)
      else if d_active s = INET_PASSIVE then
        let s = log_call CancelTimer s in
        andthen (if i_buf s = None then Inr ((), s) else loop_restart_input s)
          (\<lambda>_ s. Inr (count + 1, s))
      else if i_buf s = None then Inr (count + 1, s)
      else andthen (loop_remain em s) (\<lambda>(n, len) s.
        if n = 0 then again len (count + 1) s
        else if n < 0 then Inr (n, s)
        else andthen (loop_restart_input s)
               (\<lambda>_ s. Inr (count + 1, if len > 0 then s\<lparr>i_remain := len\<rparr> else s))))"

fun deliver_loop :: "emulator \<Rightarrow> nat \<Rightarrow> int \<Rightarrow> int \<Rightarrow> drv \<Rightarrow> (int, drv) outcome" where
  "deliver_loop em fuel len count s =
     (if len \<le> 0 then Inr (count, s)
      else case fuel of
        0 \<Rightarrow> Inl Diverges
      | Suc fuel \<Rightarrow>
          andthen (deliver_packet em len (inet_input_count em len s))
            (deliver_next em (deliver_loop em fuel) count))"

declare deliver_loop.simps [simp del]

definition loop_deliver :: "emulator \<Rightarrow> int \<Rightarrow> drv \<Rightarrow> (int, drv) outcome" where
  "loop_deliver em len s =
     (let fuel = Suc (nat (i_ptr s)) in
      if len = 0 then
        if i_buf s = None \<or> i_remain s > 0 then Inr (0, s)
        else andthen (loop_remain em s) (\<lambda>(n, len) s.
          if n \<noteq> 0 then
            (if n < 0 then Inr (n, s)
             else Inr (0, if len > 0 then s\<lparr>i_remain := len\<rparr> else s))
          else deliver_loop em fuel len 0 s)
      else deliver_loop em fuel len 0 s)"

section \<open>Reading from the driver queue\<close>

text \<open>
  \<open>recv_into\<close> is \<^verbatim>\<open>loop_recv\<close> from \<^verbatim>\<open>driver_peekqv\<close> on.  \<^verbatim>\<open>driver_vec_to_buf\<close> copies at most
  \<^verbatim>\<open>nread\<close> bytes, as many as there are.
\<close>

definition recv_into :: "emulator \<Rightarrow> int \<Rightarrow> drv \<Rightarrow> (int, drv) outcome" where
  "recv_into em nread s =
     (let ev = em_queue em (calls s) in
      if ev = [] then Inr (0, s)
      else if nread < 0 then Inl OutOfBounds
      else deref (i_buf s) (\<lambda>b.
        let data = take (nat nread) ev; n = int (length data) in
        writing (orig_bytes b) (i_ptr s) data (\<lambda>m.
          let s = log_call (Deq n) (s\<lparr>i_buf := Some (b\<lparr>orig_bytes := m\<rparr>)\<rparr>);
              s = s\<lparr>i_ptr := i_ptr s + n\<rparr>
          in if i_remain s > 0 then
               let s = s\<lparr>i_remain := i_remain s - n\<rparr>
               in if i_remain s = 0 then loop_deliver em (i_ptr s - i_ptr_start s) s
                  else Inr (0, s)
             else andthen (loop_remain em s) (\<lambda>(nread, len) s.
               if nread < 0 then Inr (loop_recv_error em EMSGSIZE s)
               else if nread = 0 then loop_deliver em len s
               else Inr (0, if len > 0 then s\<lparr>i_remain := len\<rparr> else s)))))"

definition loop_recv :: "emulator \<Rightarrow> int \<Rightarrow> drv \<Rightarrow> (int, drv) outcome" where
  "loop_recv em request_len s =
     (if i_buf s = None then
        let sz = (if request_len > 0 then request_len else d_bufsz s) in
        case alloc_buffer em sz s of
          (None, s) \<Rightarrow> Inr (- 1, s)
        | (Some bin, s) \<Rightarrow>
            recv_into em sz (s\<lparr>i_buf := Some bin, i_bufsz := sz, i_ptr_start := 0, i_ptr := 0,
                              i_remain := (if request_len > 0 then request_len else 0)\<rparr>)
      else if request_len > 0 then
        let n = i_ptr s - i_ptr_start s in
        if n \<ge> request_len then loop_deliver em request_len s
        else andthen (loop_expand_buffer em request_len s) (\<lambda>r s.
          if r < 0 then Inr (loop_recv_error em ENOMEM s)
          else recv_into em (request_len - n) (s\<lparr>i_remain := request_len - n\<rparr>))
      else if i_remain s = 0 then
        andthen (loop_remain em s) (\<lambda>(nread, len) s.
          if nread < 0 then Inr (loop_recv_error em EMSGSIZE s)
          else if nread = 0 then loop_deliver em len s
          else recv_into em nread (if len > 0 then s\<lparr>i_remain := len\<rparr> else s))
      else recv_into em (i_remain s) s)"

section \<open>Sending\<close>

text \<open>
  The header \<^verbatim>\<open>loop_send\<close> and \<^verbatim>\<open>loop_sendv\<close> put in front of the data; \<^verbatim>\<open>driver_enqv\<close> gets it in
  the first element of the vector, which the emulator leaves free for it.
\<close>

definition send_header :: "packet_type \<Rightarrow> int \<Rightarrow> byte list" where
  "send_header pt len =
     (case pt of TCP_PB_1 \<Rightarrow> put_int8 len | TCP_PB_2 \<Rightarrow> put_int16 len | TCP_PB_4 \<Rightarrow> put_int32 len
      | _ \<Rightarrow> [])"

definition loop_sendv :: "emulator \<Rightarrow> byte list \<Rightarrow> drv \<Rightarrow> (int, drv) outcome" where
  "loop_sendv em ev s =
     (let len = int (length ev); buf = send_header (packet_type_of (d_htype s)) len;
          h_len = int (length buf) in
      if h_len = 0 \<and> len = 0 then Inr (0, s)
      else checked (len + h_len) (\<lambda>total.
        let s = inet_output_count em total s;
            s = log_call (Enqv (buf @ ev)) s
        in andthen (loop_recv em 0 s) (\<lambda>_ s. Inr (0, s))))"

definition loop_send :: "emulator \<Rightarrow> byte list \<Rightarrow> drv \<Rightarrow> (int, drv) outcome" where
  "loop_send em ptr s =
     (let len = int (length ptr); buf = send_header (packet_type_of (d_htype s)) len;
          h_len = int (length buf) in
      if h_len = 0 \<and> len = 0 then Inr (0, s)
      else checked (len + h_len) (\<lambda>total.
        let s = inet_output_count em total s;
            s = log_call (Enq ptr) (log_call (Enq buf) s)
        in andthen (loop_recv em 0 s) (\<lambda>_ s. Inr (0, s))))"

section \<open>Delivery keeps the buffer in order\<close>

lemma inet_input_count_simps [simp]:
  "calls (inet_input_count em len s) = calls s"
  "buffer_stack (inet_input_count em len s) = buffer_stack s"
  "i_buf (inet_input_count em len s) = i_buf s" "i_ptr (inet_input_count em len s) = i_ptr s"
  "i_ptr_start (inet_input_count em len s) = i_ptr_start s"
  "i_bufsz (inet_input_count em len s) = i_bufsz s"
  "i_remain (inet_input_count em len s) = i_remain s"
  "d_htype (inet_input_count em len s) = d_htype s"
  "d_active (inet_input_count em len s) = d_active s"
  "d_mode (inet_input_count em len s) = d_mode s" "d_hsz (inet_input_count em len s) = d_hsz s"
  "d_deliver (inet_input_count em len s) = d_deliver s"
  "d_bit8f (inet_input_count em len s) = d_bit8f s"
  "http_state (inet_input_count em len s) = http_state s"
  "d_oph (inet_input_count em len s) = d_oph s" "d_opt (inet_input_count em len s) = d_opt s"
  "d_op_queue (inet_input_count em len s) = d_op_queue s"
  "d_state (inet_input_count em len s) = d_state s"
  by (simp_all add: inet_input_count_def Let_def)

lemma buf_inv_count [simp]:
  "buf_inv (inet_input_count em len s) = buf_inv s"
  "buffered (inet_input_count em len s) = buffered s" "buffered (s\<lparr>i_remain := n\<rparr>) = buffered s"
  by (simp_all add: buf_inv_def stack_ok_def buffered_def split: option.split)

lemmas frees_frame [simp] = buf_frameD [OF free_buffer_simps(1)] buf_frameD [OF loop_clear_input_ok(2)]

lemma drop_buffered:
  assumes "0 \<le> off" "0 \<le> len" "len \<le> n"
  shows "drop (nat len) (bytes_at off n m) = bytes_at (off + len) (n - len) m"
proof -
  obtain a l k where "off = int a" "len = int l" "n = int k"
    using assms by (metis nonneg_int_cases order_trans)
  moreover have "nat (int a + int l) = l + a" "nat (int k - int l) = k - l" by linarith+
  ultimately show ?thesis by (simp add: bytes_at_def drop_take)
qed

definition delivery_ok :: "int \<Rightarrow> drv \<Rightarrow> int \<Rightarrow> drv \<Rightarrow> bool" where
  "delivery_ok len s r s' \<longleftrightarrow> buf_inv s' \<and> i_remain s' = 0 \<and> d_htype s' = d_htype s \<and>
     buffered s' = drop (nat len) (buffered s)"

lemma deliver_packet_ok:
  assumes inv: "buf_inv s" and b: "i_buf s = Some b"
    and plain: "plain_type (packet_type_of (d_htype s))"
    and len: "0 < len" "hdr_len (packet_type_of (d_htype s)) \<le> len" "len \<le> i_ptr s - i_ptr_start s"
    and alloc: "\<And>h. em_alloc em h"
  shows "run_ok {IntOverflow} (delivery_ok len s) (deliver_packet em len s)"
proof -
  have rng: "stack_ok s" "refc b = 1" "0 \<le> i_ptr_start s" "i_ptr_start s \<le> i_ptr s"
      "i_ptr s \<le> i_bufsz s" "i_bufsz s \<le> orig_size b"
    using inv b by (simp_all add: buf_inv_def)
  let ?n = "i_ptr s - i_ptr_start s" and ?st = "i_ptr_start s"
  have rest: "drop (nat len) (buffered s) = bytes_at (?st + len) (?n - len) (orig_bytes b)"
    using drop_buffered [of ?st len ?n "orig_bytes b"] rng len by (simp add: buffered_def b)
  have off: "?st + len \<le> orig_size b" "0 \<le> ?st" using rng len by linarith+
  have whole: "run_ok {IntOverflow} (delivery_ok len s)
      (andthen (loop_reply_binary_data em ?st len s) (\<lambda>code s. Inr (code, loop_clear_input s)))"
    if "?st + len = i_ptr s"
  proof -
    have "delivery_ok len s code (loop_clear_input s')" if "besides_reply s' = besides_reply s"
      for code s'
    proof -
      have "stack_ok s'" using rng(1) besides_replyD [OF that] by (simp add: stack_ok_def)
      moreover have "d_htype s' = d_htype s" by (rule besides_replyD [OF that])
      moreover have "bytes_at (?st + len) (?n - len) (orig_bytes b) = []"
        using \<open>?st + len = i_ptr s\<close> by (simp add: bytes_at_def)
      ultimately show ?thesis
        using loop_clear_input_ok(1,3,4) [of s'] rest
        by (simp add: delivery_ok_def loop_clear_input_def)
    qed
    with loop_reply_binary_data_ok [OF b plain off(2) len(2) off(1), of em] show ?thesis
      by (auto elim!: run_ok_weaken)
  qed
  have copied: "run_ok {IntOverflow} (delivery_ok len s)
      (andthen (loop_reply_data em ?st len s) (\<lambda>code s.
         let s = s\<lparr>i_ptr_start := i_ptr_start s + len\<rparr>
         in Inr (code, if i_ptr_start s = i_ptr s then loop_clear_input s
                       else s\<lparr>i_remain := 0\<rparr>)))"
  proof -
    have after: "delivery_ok len s code (let s = s'\<lparr>i_ptr_start := i_ptr_start s' + len\<rparr>
         in if i_ptr_start s = i_ptr s then loop_clear_input s else s\<lparr>i_remain := 0\<rparr>)"
      (is "delivery_ok len s code (?after s')") if "same_packet s s'" for code :: int and s'
    proof -
      have eq: "besides_reply s' = besides_reply s" "i_buf s' = i_buf s"
        using that by (simp_all add: same_packet_def)
      note eqs = besides_replyD [OF eq(1)] eq(2)
      have st: "stack_ok s'" using rng(1) eqs by (simp add: stack_ok_def)
      show ?thesis
      proof (cases "?st + len = i_ptr s")
        case True
        let ?t = "s'\<lparr>i_ptr_start := i_ptr_start s' + len\<rparr>"
        have "bytes_at (?st + len) (?n - len) (orig_bytes b) = []"
          using True by (simp add: bytes_at_def)
        then show ?thesis
          using loop_clear_input_ok(1,3,4) [of ?t] st rest eqs True
          by (simp add: delivery_ok_def loop_clear_input_def)
      next
        case False
        then show ?thesis
          using rest eqs rng len st b
          by (simp add: delivery_ok_def buf_inv_def buffered_def algebra_simps)
      qed
    qed
    have "run_ok {IntOverflow} (\<lambda>code s'. delivery_ok len s code (?after s'))
        (loop_reply_data em ?st len s)"
      by (rule run_ok_weaken [OF loop_reply_data_ok [OF b plain off(2) len(2) off(1)]])
        (simp, rule after)
    then show ?thesis by (simp add: Let_def)
  qed
  show ?thesis
  proof (cases "?st + len = i_ptr s")
    case True
    then show ?thesis using whole copied by (simp add: deliver_packet_def b)
  next
    case False
    have "0 \<le> i_bufsz s" using rng by linarith
    with rng(1) show ?thesis
    proof (cases rule: alloc_buffer_cases [where em = em])
      case null
      then show ?thesis using alloc by blast
    next
      case (ok bin h stk)
      let ?s1 = "s\<lparr>calls := h, buffer_stack := stk\<rparr>"
      let ?trail = "bytes_at (?st + len) (i_ptr s - (?st + len)) (orig_bytes b)"
      have trail: "int (length ?trail) = i_ptr s - (?st + len)"
        using rng len by simp
      have "delivery_ok len s code ((free_buffer (i_buf s') s')\<lparr>i_buf := Some (bin\<lparr>orig_bytes :=
            put_at 0 ?trail (orig_bytes bin)\<rparr>), i_ptr_start := 0,
            i_ptr := i_ptr s - (?st + len), i_remain := 0\<rparr>)"
        if "besides_reply s' = besides_reply ?s1" for code s'
      proof -
        note eqs = besides_replyD [OF that]
        have "stack_ok s'" using ok(4) eqs by (simp add: stack_ok_def)
        then have "stack_ok (free_buffer (i_buf s') s')" by (rule free_buffer_stack_ok)
        moreover have "i_ptr s - (?st + len) \<le> orig_size bin" using ok(2) rng len by linarith
        moreover have "?st + len \<le> i_ptr s" using len(3) by linarith
        ultimately show ?thesis
          using eqs ok rng len rest trail
          by (auto simp: delivery_ok_def buf_inv_def buffered_def bytes_at_def diff_diff_eq
              split: if_splits)
      qed
      moreover have "run_ok {} (\<lambda>_ s'. besides_reply s' = besides_reply ?s1)
          (loop_reply_binary_data em ?st len ?s1)"
        using loop_reply_binary_data_ok [of ?s1 b ?st len em] b plain off len(2) by simp
      ultimately show ?thesis
        using False whole copied ok rng len trail
        by (auto simp: deliver_packet_def b Let_def elim!: run_ok_weaken)
    qed
  qed
qed

text \<open>
  The invariant between two calls: the buffer is in order, and what is missing of a packet that has
  begun includes its header.  \<open>recv_ok\<close> adds what holds after a call that reports no error: the
  unread bytes start at the front of the buffer.
\<close>

definition recv_inv :: "drv \<Rightarrow> bool" where
  "recv_inv s \<longleftrightarrow> buf_inv s \<and>
     (0 < i_remain s \<longrightarrow>
        hdr_len (packet_type_of (d_htype s)) \<le> i_ptr s - i_ptr_start s + i_remain s)"

definition recv_ok :: "drv \<Rightarrow> int \<Rightarrow> drv \<Rightarrow> bool" where
  "recv_ok s r s' \<longleftrightarrow> recv_inv s' \<and> d_htype s' = d_htype s \<and> (0 \<le> r \<longrightarrow> i_ptr_start s' = 0)"

lemma recv_ok_stopped:
  "buf_inv s' \<Longrightarrow> i_remain s' = 0 \<Longrightarrow> d_htype s' = d_htype s \<Longrightarrow>
   0 \<le> r \<longrightarrow> i_ptr_start s' = 0 \<Longrightarrow> recv_ok s r s'"
  by (simp add: recv_ok_def recv_inv_def)

lemma buf_inv_None: "buf_inv s \<Longrightarrow> i_buf s = None \<Longrightarrow> i_ptr_start s = 0 \<and> i_remain s = 0"
  by (simp add: buf_inv_def)

lemma buf_inv_calls [simp]: "buf_inv (s\<lparr>calls := h\<rparr>) = buf_inv s"
  by (simp add: buf_inv_def split: option.split)

lemma restart_ok:
  assumes "buf_inv s" "i_buf s \<noteq> None" "d_htype s = d_htype s0"
    "0 < len \<longrightarrow> i_ptr s + len \<le> i_bufsz s \<and>
       hdr_len (packet_type_of (d_htype s)) \<le> i_ptr s - i_ptr_start s + len"
    "0 < len \<or> i_remain s = 0"
  shows "run_ok {IntOverflow} (recv_ok s0)
     (andthen (loop_restart_input s)
        (\<lambda>_ s. Inr (r, if len > 0 then s\<lparr>i_remain := len\<rparr> else s)))"
proof -
  note weak = run_ok_weaken [OF loop_restart_input_ok [OF assms(1,2)]]
  have start: "0 \<le> i_ptr_start s" using assms(1) by (auto simp: buf_inv_def split: option.splits)
  show ?thesis
    unfolding run_ok_andthen
  proof (rule weak)
    fix x s1
    assume "buf_inv s1 \<and> buf_frame s s1 \<and> i_buf s1 \<noteq> None \<and>
       calls s1 = calls s \<and> i_ptr_start s1 = 0 \<and> i_ptr s1 = i_ptr s - i_ptr_start s \<and>
       i_bufsz s1 = i_bufsz s \<and> i_remain s1 = i_remain s \<and> buffered s1 = buffered s"
    then show "run_ok {IntOverflow} (recv_ok s0)
        (Inr (r, if len > 0 then s1\<lparr>i_remain := len\<rparr> else s1))"
      using assms buf_frameD(1) [of s s1] start
      by (auto simp: recv_ok_def recv_inv_def buf_inv_def split: option.splits)
  qed simp
qed

text \<open>What a round needs: the packet is in the buffer with its header.\<close>

definition ready :: "int \<Rightarrow> drv \<Rightarrow> bool" where
  "ready len s \<longleftrightarrow> recv_inv s \<and> safe_type (packet_type_of (d_htype s)) \<and>
     (0 < len \<longrightarrow> len \<le> int (length (buffered s)) \<and>
        hdr_len (packet_type_of (d_htype s)) \<le> len) \<and>
     (len \<le> 0 \<longrightarrow> i_ptr_start s = 0)"

lemma deliver_next_ok:
  assumes d: "buf_inv s" "i_remain s = 0" "d_htype s = d_htype s0"
    and safe: "safe_type (packet_type_of (d_htype s0))"
    and again: "\<And>len s'. ready len s' \<Longrightarrow> buffered s' = buffered s \<Longrightarrow> d_htype s' = d_htype s \<Longrightarrow>
      run_ok {IntOverflow} (recv_ok s') (again len (count + 1) s')"
  shows "run_ok {IntOverflow} (recv_ok s0) (deliver_next em again count code s)"
proof -
  have restart: "run_ok {IntOverflow} (recv_ok s0)
      (andthen (loop_restart_input (log_call CancelTimer s)) (\<lambda>_ s. Inr (count + 1, s)))"
    if "i_buf s \<noteq> None"
    using restart_ok [of "log_call CancelTimer s" s0 0 "count + 1"] d that by simp
  have more: "run_ok {IntOverflow} (\<lambda>(n, len) s. run_ok {IntOverflow} (recv_ok s0)
      (if n = 0 then again len (count + 1) s
       else if n < 0 then Inr (n, s)
       else andthen (loop_restart_input s)
              (\<lambda>_ s. Inr (count + 1, if len > 0 then s\<lparr>i_remain := len\<rparr> else s))))
      (loop_remain em s)" if b: "i_buf s = Some b" for b
  proof (rule run_ok_mono [OF loop_remain_ok [OF d(1) b]])
    show "safe_type (packet_type_of (d_htype s))" using safe d(3) by simp
    fix r s'
    assume rem: "remain_ok s r s'"
    obtain n l where r: "r = (n, l)" by (cases r)
    have s': "buf_inv s'" "i_buf s' \<noteq> None" "d_htype s' = d_htype s0" "i_remain s' = 0"
        "buffered s' = buffered s"
      using rem d buf_frameD(1) [of s s'] by (simp_all add: remain_ok_def r Let_def)
    have "run_ok {IntOverflow} (recv_ok s0) (again l (count + 1) s')" if "n = 0"
    proof -
      have "ready l s'"
        using rem that s' safe d(3) length_buffered [OF d(1)]
        by (auto simp: remain_ok_def r Let_def ready_def recv_inv_def)
      then show ?thesis using again [of l s'] s' d(3) by (simp add: recv_ok_def [abs_def])
    qed
    moreover have "recv_ok s0 n s'" if "n < 0" using s' that by (simp add: recv_ok_stopped)
    moreover have "run_ok {IntOverflow} (recv_ok s0) (andthen (loop_restart_input s')
        (\<lambda>_ s. Inr (count + 1, if l > 0 then s\<lparr>i_remain := l\<rparr> else s)))" if "0 < n"
      by (rule restart_ok) (use rem s' d that in \<open>auto simp: remain_ok_def r Let_def\<close>)
    ultimately show "(\<lambda>(n, len) s. run_ok {IntOverflow} (recv_ok s0)
      (if n = 0 then again len (count + 1) s
       else if n < 0 then Inr (n, s)
       else andthen (loop_restart_input s)
              (\<lambda>_ s. Inr (count + 1, if len > 0 then s\<lparr>i_remain := len\<rparr> else s)))) r s'"
      by (simp add: r)
  qed
  have stop: "recv_ok s0 r s" "recv_ok s0 r (log_call CancelTimer s)"
    if "r < 0 \<or> i_buf s = None" for r
    using that d buf_inv_None [OF d(1)] by (auto simp: recv_ok_def recv_inv_def)
  show ?thesis
  proof (cases "i_buf s")
    case None
    then show ?thesis using stop by (simp add: deliver_next_def Let_def)
  next
    case (Some b)
    then show ?thesis
      using restart stop(1) more [OF Some]
      by (simp add: deliver_next_def Let_def case_prod_unfold cong: if_cong)
  qed
qed

lemma deliver_loop_ok:
  assumes alloc: "\<And>h. em_alloc em h"
  shows "ready len s \<Longrightarrow> length (buffered s) < fuel \<Longrightarrow>
     run_ok {IntOverflow} (recv_ok s) (deliver_loop em fuel len count s)"
proof (induction fuel arbitrary: len count s)
  case 0
  then show ?case by simp
next
  case (Suc fuel)
  have inv: "buf_inv s" using Suc.prems(1) by (simp add: ready_def recv_inv_def)
  show ?case
  proof (cases "len \<le> 0")
    case True
    then show ?thesis
      using Suc.prems by (simp add: deliver_loop.simps recv_ok_def ready_def)
  next
    case False
    let ?s = "inet_input_count em len s"
    obtain b where b: "i_buf s = Some b"
      using Suc.prems(1) False by (cases "i_buf s") (auto simp: buffered_def ready_def)
    have "run_ok {IntOverflow} (\<lambda>code s1. run_ok {IntOverflow} (recv_ok s)
        (deliver_next em (deliver_loop em fuel) count code s1)) (deliver_packet em len ?s)"
    proof (rule run_ok_mono [OF deliver_packet_ok])
      fix code s1
      assume d: "delivery_ok len ?s code s1"
      then show "run_ok {IntOverflow} (recv_ok s)
          (deliver_next em (deliver_loop em fuel) count code s1)"
        by (intro deliver_next_ok Suc.IH)
          (use Suc.prems False in \<open>auto simp: delivery_ok_def ready_def\<close>)
    qed (use inv b Suc.prems(1) False length_buffered [OF inv] alloc in
        \<open>simp_all add: safe_type_def ready_def\<close>)
    then show ?thesis
      using False by (simp add: deliver_loop.simps [of em "Suc fuel"])
  qed
qed

lemma loop_deliver_ok:
  assumes alloc: "\<And>h. em_alloc em h" and rdy: "ready len s"
  shows "run_ok {IntOverflow} (recv_ok s) (loop_deliver em len s)"
proof -
  have inv: "buf_inv s" "recv_inv s" "safe_type (packet_type_of (d_htype s))"
    using rdy by (simp_all add: ready_def recv_inv_def)
  have fuel: "length (buffered s) < Suc (nat (i_ptr s))"
    using length_buffered [OF inv(1)] inv(1) by (auto simp: buf_inv_def split: option.splits)
  have poll: "run_ok {IntOverflow} (\<lambda>(n, len) s'. run_ok {IntOverflow} (recv_ok s)
      (if n \<noteq> 0 then
         (if n < 0 then Inr (n, s') else Inr (0, if len > 0 then s'\<lparr>i_remain := len\<rparr> else s'))
       else deliver_loop em (Suc (nat (i_ptr s))) len 0 s')) (loop_remain em s)"
    if b: "i_buf s = Some b" and z: "len = 0" "i_remain s \<le> 0" for b
  proof (rule run_ok_mono [OF loop_remain_ok [OF inv(1) b inv(3)]])
    fix r s'
    assume rem: "remain_ok s r s'"
    obtain n l where r: "r = (n, l)" by (cases r)
    have s': "buf_inv s'" "d_htype s' = d_htype s" "i_remain s' = 0" "buffered s' = buffered s"
        "i_ptr_start s' = 0" "i_buf s' \<noteq> None"
      using rem z inv(1) b rdy buf_frameD(1) [of s s']
      by (simp_all add: remain_ok_def r Let_def ready_def buf_inv_def)
    have "run_ok {IntOverflow} (recv_ok s') (deliver_loop em (Suc (nat (i_ptr s))) l 0 s')"
      if "n = 0"
    proof (rule deliver_loop_ok [OF alloc])
      show "ready l s'"
        using rem that s' inv length_buffered [OF inv(1)]
        by (auto simp: remain_ok_def r Let_def ready_def recv_inv_def)
    qed (use s' fuel in simp)
    moreover have "recv_ok s n s'" if "n < 0" using that s' by (simp add: recv_ok_stopped)
    moreover have "recv_ok s 0 (if l > 0 then s'\<lparr>i_remain := l\<rparr> else s')" if "0 < n"
      using that s' rem by (auto simp: recv_ok_def recv_inv_def buf_inv_def remain_ok_def r Let_def)
    ultimately show "(\<lambda>(n, len) s'. run_ok {IntOverflow} (recv_ok s)
      (if n \<noteq> 0 then
         (if n < 0 then Inr (n, s') else Inr (0, if len > 0 then s'\<lparr>i_remain := len\<rparr> else s'))
       else deliver_loop em (Suc (nat (i_ptr s))) len 0 s')) r s'"
      using s'(2) by (simp add: r recv_ok_def [abs_def])
  qed
  have "recv_ok s 0 s" if "len = 0" using rdy that by (simp add: ready_def recv_ok_def)
  then show ?thesis
    using poll deliver_loop_ok [OF alloc rdy fuel, of 0]
    by (cases "i_buf s") (simp_all add: loop_deliver_def Let_def case_prod_unfold)
qed

lemma besides_reply_async_error:
  "besides_reply (snd (async_error em err s)) = besides_reply s"
  using async_error_ok [of s em err s] by (simp add: same_packet_def)

lemma unblock_send_simps [simp]:
  "buffer_stack (unblock_send em s) = buffer_stack s" "d_htype (unblock_send em s) = d_htype s"
proof -
  obtain h where "send_to_subscribers em True [TAtom ''empty_out_q'', TPort, TTuple 2]
      (log_call (Deq (driver_sizeq em s)) s) = s\<lparr>calls := h, d_subs := []\<rparr>"
    using send_to_subscribers_sends [of em True "[TAtom ''empty_out_q'', TPort, TTuple 2]"
        "log_call (Deq (driver_sizeq em s)) s"] by auto
  then show "buffer_stack (unblock_send em s) = buffer_stack s"
    "d_htype (unblock_send em s) = d_htype s"
    by (simp_all add: unblock_send_def loop_clear_output_def send_empty_out_q_msgs_def
        inet_reply_error_am_def driver_call_def)
qed

lemma loop_recv_error_ok:
  assumes "stack_ok s"
  shows "run_ok F (recv_ok s) (Inr (loop_recv_error em err s))"
proof -
  let ?p = "loop_clear_input (log_call CancelTimer s)"
  have "stack_ok (snd (async_error em err ?p))"
      "d_htype (snd (async_error em err ?p)) = d_htype s"
      "i_buf (snd (async_error em err ?p)) = None"
    using besides_replyD [OF besides_reply_async_error [of em err ?p]] assms
      loop_clear_input_ok(1) [of "log_call CancelTimer s"]
    by (simp_all add: stack_ok_def loop_clear_input_ok buf_inv_def)
  moreover have "stack_ok (unblock_send em s)" using assms by (simp add: stack_ok_def)
  moreover have "i_ptr ?p = 0 \<and> i_ptr_start ?p = 0 \<and> i_bufsz ?p = 0 \<and> i_remain ?p = 0"
    by (simp add: loop_clear_input_def)
  ultimately show ?thesis
    using besides_replyD [OF besides_reply_async_error [of em err ?p]]
      loop_clear_input_ok(1) [of "unblock_send em s"]
    by (auto simp: loop_recv_error_def Let_def recv_ok_def recv_inv_def loop_error_message_def
        loop_closed_message_def driver_call_def loop_clear_input_ok buf_inv_def
        loop_clear_input_def)
qed

text \<open>Bytes read go behind the buffered ones.\<close>

lemma buffered_read:
  assumes "buf_inv s" "i_buf s = Some b" "i_ptr s + int (length data) \<le> i_bufsz s"
  shows "bytes_at (i_ptr_start s) (i_ptr s - i_ptr_start s + int (length data))
           (put_at (nat (i_ptr s)) data (orig_bytes b)) = buffered s @ data"
  using assms by (subst bytes_at_put_at) (simp_all add: buf_inv_def buffered_def)

text \<open>
  The step \<^verbatim>\<open>loop_recv\<close> makes twice: ask what is missing, then report an error, deliver, or go on
  with the number of bytes to read.
\<close>

lemma poll_ok:
  assumes alloc: "\<And>h. em_alloc em h" and inv: "buf_inv s" "i_remain s = 0" "i_ptr_start s = 0"
    and b: "i_buf s = Some b" and safe: "safe_type (packet_type_of (d_htype s))"
    and k: "\<And>n s'. recv_inv s' \<Longrightarrow> i_buf s' \<noteq> None \<Longrightarrow> d_htype s' = d_htype s \<Longrightarrow>
      i_ptr_start s' = 0 \<Longrightarrow> 0 < n \<Longrightarrow> i_ptr s' + n \<le> i_bufsz s' \<Longrightarrow>
      (0 < i_remain s' \<longrightarrow> n \<le> i_remain s') \<Longrightarrow> run_ok {IntOverflow} (recv_ok s) (k n s')"
  shows "run_ok {IntOverflow} (recv_ok s)
     (andthen (loop_remain em s) (\<lambda>(nread, len) s'.
        if nread < 0 then Inr (loop_recv_error em EMSGSIZE s')
        else if nread = 0 then loop_deliver em len s'
        else k nread (if len > 0 then s'\<lparr>i_remain := len\<rparr> else s')))"
  unfolding run_ok_andthen
proof (rule run_ok_mono [OF loop_remain_ok [OF inv(1) b safe]])
  fix r s'
  assume rem: "remain_ok s r s'"
  obtain m l where r: "r = (m, l)" by (cases r)
  have s': "buf_inv s'" "d_htype s' = d_htype s" "i_remain s' = 0" "i_ptr_start s' = 0"
      "buffered s' = buffered s" "i_ptr s' = i_ptr s" "i_buf s' \<noteq> None"
    using rem inv buf_frameD(1) [of s s'] by (simp_all add: remain_ok_def r Let_def)
  have "ready l s'" if "m = 0"
    using rem that s' safe inv length_buffered [OF inv(1)]
    by (auto simp: remain_ok_def r Let_def ready_def recv_inv_def)
  then have "run_ok {IntOverflow} (recv_ok s) (loop_deliver em l s')" if "m = 0"
    using loop_deliver_ok [OF alloc, of l s'] that s'(2) by (simp add: recv_ok_def [abs_def])
  moreover have "run_ok {IntOverflow} (recv_ok s) (Inr (loop_recv_error em EMSGSIZE s'))"
    using loop_recv_error_ok [of s' "{IntOverflow}"] s'
    by (simp add: buf_inv_def recv_ok_def [abs_def])
  moreover have "run_ok {IntOverflow} (recv_ok s) (k m (if l > 0 then s'\<lparr>i_remain := l\<rparr> else s'))"
    if "0 < m"
    by (rule k) (use that s' rem inv in
        \<open>auto simp: recv_inv_def remain_ok_def r Let_def buf_inv_def split: option.splits\<close>)
  ultimately show "(\<lambda>x s'. run_ok {IntOverflow} (recv_ok s) ((\<lambda>(nread, len) s'.
      if nread < 0 then Inr (loop_recv_error em EMSGSIZE s')
      else if nread = 0 then loop_deliver em len s'
      else k nread (if len > 0 then s'\<lparr>i_remain := len\<rparr> else s')) x s')) r s'"
    by (simp add: r)
qed

definition read_state :: "byte list \<Rightarrow> drv \<Rightarrow> drv" where
  "read_state data s = s\<lparr>
     i_buf := map_option (\<lambda>b. b\<lparr>orig_bytes := put_at (nat (i_ptr s)) data (orig_bytes b)\<rparr>) (i_buf s),
     calls := Deq (int (length data)) # calls s, i_ptr := i_ptr s + int (length data)\<rparr>"

lemma read_state_ok:
  assumes "recv_inv s" "i_buf s = Some b" "i_ptr s + int (length data) \<le> i_bufsz s"
  shows "buffered (read_state data s) = buffered s @ data"
    "i_remain s = 0 \<Longrightarrow> recv_inv (read_state data s)"
    "0 < i_remain s \<Longrightarrow> int (length data) \<le> i_remain s \<Longrightarrow>
     recv_inv (read_state data s\<lparr>i_remain := i_remain s - int (length data)\<rparr>)"
proof -
  have bi: "buf_inv s" and rng: "0 \<le> i_ptr s" "i_bufsz s \<le> orig_size b"
    using assms by (simp_all add: recv_inv_def buf_inv_def)
  have into: "length (put_at (nat (i_ptr s)) data (orig_bytes b)) = length (orig_bytes b)"
    by (rule length_put_at) (use assms(3) rng in linarith)
  show "buffered (read_state data s) = buffered s @ data"
    using buffered_read [OF bi assms(2,3)] assms(2)
    by (simp add: buffered_def read_state_def algebra_simps)
  show "recv_inv (read_state data s)" if "i_remain s = 0"
    using that assms into by (simp add: read_state_def recv_inv_def buf_inv_def stack_ok_def)
  show "recv_inv (read_state data s\<lparr>i_remain := i_remain s - int (length data)\<rparr>)"
    if "0 < i_remain s" "int (length data) \<le> i_remain s"
    using that assms into by (simp add: read_state_def recv_inv_def buf_inv_def stack_ok_def)
qed

lemma recv_into_ok:
  assumes alloc: "\<And>h. em_alloc em h" and inv: "recv_inv s" and b: "i_buf s = Some b"
    and safe: "safe_type (packet_type_of (d_htype s))" and start: "i_ptr_start s = 0"
    and room: "0 \<le> nread" "i_ptr s + nread \<le> i_bufsz s" "0 < i_remain s \<longrightarrow> nread \<le> i_remain s"
  shows "run_ok {IntOverflow} (recv_ok s) (recv_into em nread s)"
proof (cases "em_queue em (calls s) = []")
  case True
  then show ?thesis using inv start by (simp add: recv_into_def recv_ok_def)
next
  case False
  let ?data = "take (nat nread) (em_queue em (calls s))"
  let ?n = "int (length ?data)"
  let ?s = "read_state ?data s"
  let ?t = "?s\<lparr>i_remain := i_remain s - ?n\<rparr>"
  have n: "?n \<le> nread" using room(1) by simp
  then have fits: "i_ptr s + ?n \<le> i_bufsz s" using room(2) by linarith
  note rs = read_state_ok [OF inv b fits]
  have bi: "buf_inv s" and rng: "0 \<le> i_ptr s" "i_bufsz s \<le> orig_size b" "0 \<le> i_remain s"
    using inv b start by (simp_all add: recv_inv_def buf_inv_def)
  have same: "d_htype ?s = d_htype s" "i_ptr_start ?s = 0" "i_remain ?s = i_remain s"
    using start by (simp_all add: read_state_def)
  have len: "int (length (buffered ?s)) = i_ptr ?s"
    using rs(1) length_buffered [OF bi] start by (simp add: read_state_def)
  have into: "run_ok {IntOverflow} (recv_ok s) (recv_into em nread s) =
    run_ok {IntOverflow} (recv_ok s) (
       if i_remain s > 0 then
         (if i_remain s - ?n = 0 then loop_deliver em (i_ptr ?t - i_ptr_start ?t) ?t else Inr (0, ?t))
       else andthen (loop_remain em ?s) (\<lambda>(nread, len) s.
         if nread < 0 then Inr (loop_recv_error em EMSGSIZE s)
         else if nread = 0 then loop_deliver em len s
         else Inr (0, if len > 0 then s\<lparr>i_remain := len\<rparr> else s)))"
    using False b room rng fits by (simp add: recv_into_def Let_def read_state_def)
  show ?thesis
  proof (cases "0 < i_remain s")
    case True
    have t: "recv_inv ?t" using True room(3) n by (intro rs(3)) linarith+
    have "ready (i_ptr ?t - i_ptr_start ?t) ?t" if "i_remain s - ?n = 0"
    proof -
      have "i_ptr ?s = i_ptr s + ?n" by (simp add: read_state_def)
      then have "hdr_len (packet_type_of (d_htype s)) \<le> i_ptr ?s"
        using that inv True start by (simp add: recv_inv_def)
      then show ?thesis using t safe same len by (simp add: ready_def)
    qed
    moreover have eq: "recv_ok ?t = recv_ok s" using same by (simp add: recv_ok_def [abs_def])
    ultimately have "run_ok {IntOverflow} (recv_ok s)
        (loop_deliver em (i_ptr ?t - i_ptr_start ?t) ?t)" if "i_remain s - ?n = 0"
      using loop_deliver_ok [OF alloc, of "i_ptr ?t - i_ptr_start ?t" ?t] that by (simp only: eq)
    moreover have "recv_ok s 0 ?t" using t same by (simp add: recv_ok_def)
    ultimately show ?thesis
      unfolding into using True by (cases "i_remain s - ?n = 0") (simp_all only: if_True if_False run_ok_simps simp_thms)
  next
    case False
    then have z: "i_remain s = 0" using rng by linarith
    have "recv_inv ?s" by (rule rs(2) [OF z])
    moreover obtain b' where "i_buf ?s = Some b'" using b by (simp add: read_state_def)
    ultimately have "run_ok {IntOverflow} (recv_ok ?s)
       (andthen (loop_remain em ?s) (\<lambda>(nread, len) s.
         if nread < 0 then Inr (loop_recv_error em EMSGSIZE s)
         else if nread = 0 then loop_deliver em len s
         else Inr (0, if len > 0 then s\<lparr>i_remain := len\<rparr> else s)))"
      using same z safe by (intro poll_ok [OF alloc]) (auto simp: recv_inv_def recv_ok_def)
    then show ?thesis using into z same by (simp add: recv_ok_def [abs_def])
  qed
qed

lemma recv_start_ok:
  assumes alloc: "\<And>h. em_alloc em h" and inv: "buf_inv s" "i_buf s = None"
    and safe: "safe_type (packet_type_of (d_htype s))"
    and sz: "0 \<le> sz" "0 < rem \<longrightarrow> rem = sz \<and> hdr_len (packet_type_of (d_htype s)) \<le> rem" "0 \<le> rem"
  shows "run_ok {IntOverflow} (recv_ok s)
    (case alloc_buffer em sz s of
       (None, s) \<Rightarrow> Inr (- 1, s)
     | (Some bin, s) \<Rightarrow>
         recv_into em sz (s\<lparr>i_buf := Some bin, i_bufsz := sz, i_ptr_start := 0, i_ptr := 0,
                           i_remain := rem\<rparr>))"
proof -
  have "stack_ok s" using inv by (simp add: buf_inv_def)
  then show ?thesis
    using sz(1)
  proof (cases rule: alloc_buffer_cases [where em = em])
    case null
    then show ?thesis using alloc by blast
  next
    case (ok bin h stk)
    let ?s = "s\<lparr>calls := h, buffer_stack := stk, i_buf := Some bin, i_bufsz := sz,
                i_ptr_start := 0, i_ptr := 0, i_remain := rem\<rparr>"
    have "recv_inv ?s"
      using ok sz by (auto simp: recv_inv_def buf_inv_def stack_ok_def)
    then have "run_ok {IntOverflow} (recv_ok ?s) (recv_into em sz ?s)"
      using safe sz by (intro recv_into_ok [OF alloc]) auto
    then show ?thesis using ok(1) by (simp add: recv_ok_def [abs_def])
  qed
qed

text \<open>
  \<^verbatim>\<open>loop_recv\<close> terminates, stays within its buffer and keeps the invariant, whatever the queue
  holds and the emulator answers, if no allocation fails.
\<close>

lemma loop_recv_ok:
  assumes alloc: "\<And>h. em_alloc em h" and inv: "recv_inv s" and start: "i_ptr_start s = 0"
    and safe: "safe_type (packet_type_of (d_htype s))" and sz: "0 \<le> d_bufsz s"
    and req: "0 < request_len \<longrightarrow> packet_type_of (d_htype s) = TCP_PB_RAW"
  shows "run_ok {IntOverflow} (recv_ok s) (loop_recv em request_len s)"
proof (cases "i_buf s")
  case None
  have "run_ok {IntOverflow} (recv_ok s)
    (case alloc_buffer em (if request_len > 0 then request_len else d_bufsz s) s of
       (None, s) \<Rightarrow> Inr (- 1, s)
     | (Some bin, s') \<Rightarrow>
         recv_into em (if request_len > 0 then request_len else d_bufsz s) (s'\<lparr>i_buf := Some bin,
           i_bufsz := (if request_len > 0 then request_len else d_bufsz s), i_ptr_start := 0,
           i_ptr := 0, i_remain := (if request_len > 0 then request_len else 0)\<rparr>))"
    by (rule recv_start_ok [OF alloc _ None safe])
      (use inv sz req in \<open>auto simp: recv_inv_def hdr_len_def\<close>)
  then show ?thesis using None by (simp add: loop_recv_def Let_def)
next
  case (Some b)
  have bi: "buf_inv s" and rng: "0 \<le> i_ptr s" "0 \<le> i_remain s" "i_ptr s + i_remain s \<le> i_bufsz s"
    using inv Some start by (simp_all add: recv_inv_def buf_inv_def)
  have "run_ok {IntOverflow} (recv_ok s) (loop_recv em request_len s)" if r: "0 < request_len"
  proof (cases "i_ptr s \<ge> request_len")
    case True
    then have "ready request_len s"
      using inv safe start r req length_buffered [OF bi] by (simp add: ready_def hdr_len_def)
    then show ?thesis
      using loop_deliver_ok [OF alloc, of request_len s] Some r True start
      by (simp add: loop_recv_def Let_def)
  next
    case False
    have "run_ok {IntOverflow} (\<lambda>r s'. run_ok {IntOverflow} (recv_ok s)
        (if r < 0 then Inr (loop_recv_error em ENOMEM s')
         else recv_into em (request_len - i_ptr s) (s'\<lparr>i_remain := request_len - i_ptr s\<rparr>)))
        (loop_expand_buffer em request_len s)"
    proof (rule run_ok_mono [OF loop_expand_buffer_ok [OF bi]])
      fix r :: int and s' :: drv
      let ?t = "s'\<lparr>i_remain := request_len - i_ptr s\<rparr>"
      assume e: "buf_inv s' \<and> i_buf s' \<noteq> None \<and> buf_frame s s' \<and> i_ptr s' = i_ptr s \<and>
        i_ptr_start s' = i_ptr_start s \<and> i_remain s' = i_remain s \<and> buffered s' = buffered s \<and>
        (r = 0 \<and> i_ptr_start s + request_len \<le> i_bufsz s' \<or> r = - 1 \<and> (\<exists>h. \<not> em_alloc em h))"
      then have t: "recv_inv ?t" "i_buf ?t \<noteq> None" "r = 0" "d_htype s' = d_htype s"
        using False start alloc req r buf_frameD(1) [of s s']
        by (auto simp: recv_inv_def buf_inv_def hdr_len_def split: option.splits)
      obtain b' where "i_buf ?t = Some b'" using t(2) by blast
      then have "run_ok {IntOverflow} (recv_ok ?t) (recv_into em (request_len - i_ptr s) ?t)"
        using t e False start safe by (intro recv_into_ok [OF alloc]) auto
      then show "run_ok {IntOverflow} (recv_ok s)
        (if r < 0 then Inr (loop_recv_error em ENOMEM s') else recv_into em (request_len - i_ptr s) ?t)"
        using t by (simp add: recv_ok_def [abs_def])
    qed (use Some in simp)
    then show ?thesis using Some False r start by (simp add: loop_recv_def Let_def)
  qed
  moreover have "run_ok {IntOverflow} (recv_ok s)
     (andthen (loop_remain em s) (\<lambda>(nread, len) s.
        if nread < 0 then Inr (loop_recv_error em EMSGSIZE s)
        else if nread = 0 then loop_deliver em len s
        else recv_into em nread (if len > 0 then s\<lparr>i_remain := len\<rparr> else s)))" if "i_remain s = 0"
  proof (rule poll_ok [OF alloc bi that start Some safe])
    fix n s'
    assume s': "recv_inv s'" "i_buf s' \<noteq> None" "d_htype s' = d_htype s" "i_ptr_start s' = 0" "0 < n"
      "i_ptr s' + n \<le> i_bufsz s'" "0 < i_remain s' \<longrightarrow> n \<le> i_remain s'"
    then obtain b' where "i_buf s' = Some b'" by blast
    then have "run_ok {IntOverflow} (recv_ok s') (recv_into em n s')"
      using s' safe by (intro recv_into_ok [OF alloc]) auto
    then show "run_ok {IntOverflow} (recv_ok s) (recv_into em n s')"
      using s'(3) by (simp add: recv_ok_def [abs_def])
  qed
  moreover have "run_ok {IntOverflow} (recv_ok s) (recv_into em (i_remain s) s)"
    by (rule recv_into_ok [OF alloc inv Some safe start]) (use rng in auto)
  ultimately show ?thesis using Some by (simp add: loop_recv_def)
qed

end
