(* ===== verification/Data_Path.thy ===== *)
theory Data_Path
  imports Deliver
begin

text \<open>
  What no delivery and no read can break.  The locale \<open>data_path\<close> collects what the functions of
  the data path do to a port besides sending: a property closed under those changes survives every
  one of them, whatever the packet type, the mode, the emulator's answers and the faults.  It is
  interpreted on the protocol state of a port and on the invariant of its request queue.
\<close>

definition keeps :: "(drv \<Rightarrow> bool) \<Rightarrow> ('a, drv) outcome \<Rightarrow> bool" where
  "keeps P m \<longleftrightarrow> run_ok UNIV (\<lambda>_. P) m"

named_theorems keeps_intros

lemma keeps_return [keeps_intros]: "P s \<Longrightarrow> keeps P (Inr (x, s))"
  by (simp add: keeps_def)

lemma keeps_pair [keeps_intros]: "P (snd r) \<Longrightarrow> keeps P (Inr r)"
  by (cases r) (simp add: keeps_def)

lemma keeps_fault [keeps_intros]: "keeps P (Inl e)"
  by (simp add: keeps_def)

lemma keeps_andthen [keeps_intros]:
  "keeps P m \<Longrightarrow> (\<And>x s. P s \<Longrightarrow> keeps P (k x s)) \<Longrightarrow> keeps P (andthen m k)"
  by (simp add: keeps_def) (auto elim: run_ok_mono)

lemma keeps_checked [keeps_intros]: "(\<And>i. keeps P (k i)) \<Longrightarrow> keeps P (checked i k)"
  by (simp add: keeps_def)

lemma keeps_reading [keeps_intros]: "(\<And>d. keeps P (k d)) \<Longrightarrow> keeps P (reading m off n k)"
  by (simp add: keeps_def)

lemma keeps_writing [keeps_intros]: "(\<And>d. keeps P (k d)) \<Longrightarrow> keeps P (writing m off d k)"
  by (simp add: keeps_def)

lemma keeps_deref [keeps_intros]: "(\<And>b. p = Some b \<Longrightarrow> keeps P (k b)) \<Longrightarrow> keeps P (deref p k)"
  by (cases p) (simp_all add: keeps_def)

lemma keeps_if [keeps_intros]:
  "(b \<Longrightarrow> keeps P m) \<Longrightarrow> (\<not> b \<Longrightarrow> keeps P m') \<Longrightarrow> keeps P (if b then m else m')"
  by simp

lemma keeps_option [keeps_intros]:
  "(x = None \<Longrightarrow> keeps P m) \<Longrightarrow> (\<And>y. x = Some y \<Longrightarrow> keeps P (f y)) \<Longrightarrow> keeps P (case_option m f x)"
  by (cases x) auto

lemma keeps_sum [keeps_intros]:
  "(\<And>e. keeps P (f e)) \<Longrightarrow> (\<And>y. keeps P (g y)) \<Longrightarrow> keeps P (case_sum f g x)"
  by (cases x) auto

lemma keeps_prod [keeps_intros]:
  "P (snd p) \<Longrightarrow> (\<And>x s. P s \<Longrightarrow> keeps P (f x s)) \<Longrightarrow> keeps P (case_prod f p)"
  by (cases p) auto

lemma keepsD: "keeps P m \<Longrightarrow> m = Inr (x, s) \<Longrightarrow> P s"
  by (simp add: keeps_def)

locale data_path =
  fixes P :: "drv \<Rightarrow> bool"
  assumes P_calls: "P s \<Longrightarrow> P (s\<lparr>calls := h\<rparr>)"
    and P_deq: "P s \<Longrightarrow> P (snd (deq_async s))"
    and P_caller: "P s \<Longrightarrow> P (s\<lparr>d_caller := p\<rparr>)"
    and P_bit8: "P s \<Longrightarrow> P (s\<lparr>d_bit8 := v\<rparr>)"
    and P_once: "P s \<Longrightarrow> d_active s = INET_ONCE \<Longrightarrow> P (s\<lparr>d_active := INET_PASSIVE\<rparr>)"
    and P_http: "P s \<Longrightarrow> P (s\<lparr>http_state := i\<rparr>)"
    and P_buf: "P s \<Longrightarrow> P (s\<lparr>i_buf := b\<rparr>)"
    and P_ptr: "P s \<Longrightarrow> P (s\<lparr>i_ptr := i\<rparr>)"
    and P_start: "P s \<Longrightarrow> P (s\<lparr>i_ptr_start := i\<rparr>)"
    and P_bufsz: "P s \<Longrightarrow> P (s\<lparr>i_bufsz := i\<rparr>)"
    and P_remain: "P s \<Longrightarrow> P (s\<lparr>i_remain := i\<rparr>)"
    and P_stack: "P s \<Longrightarrow> P (s\<lparr>buffer_stack := stk\<rparr>)"
    and P_input: "P s \<Longrightarrow> P (inet_input_count em len s)"
    and P_output: "P s \<Longrightarrow> P (inet_output_count em len s)"
    and P_subs: "P s \<Longrightarrow> P (s\<lparr>d_subs := []\<rparr>)"
    and P_unbusy: "P s \<Longrightarrow> IS_BUSY s \<Longrightarrow>
          P (s\<lparr>l_busy_on_send := 0, d_state := d_state s AND NOT INET_F_BUSY\<rparr>)"
begin

lemmas P_intros = P_calls P_caller P_bit8 P_http P_buf P_ptr P_start P_bufsz P_remain P_stack
  P_input P_output P_subs

lemma P_driver_call: "P s \<Longrightarrow> P (snd (driver_call em c s))"
  by (simp add: driver_call_def P_calls)

lemma P_answer: "P s \<Longrightarrow> P (snd (answer em items s))"
  using P_deq [of s] by (auto simp: answer_def P_driver_call split: prod.split option.split)

lemma P_async_error: "P s \<Longrightarrow> P (snd (async_error em err s))"
  using P_deq [of s]
  by (auto simp: async_error_def async_error_am_def send_async_error_def P_driver_call
      split: prod.split option.split)

lemma P_call_with_buffer: "P s \<Longrightarrow> P (snd (call_with_buffer em c b s))"
  by (simp add: call_with_buffer_def driver_call_def P_intros)

lemma P_alloc: "P s \<Longrightarrow> P (snd (driver_alloc_binary em n s))" "P s \<Longrightarrow> P (snd (driver_realloc_binary em b n s))"
  by (simp_all add: driver_alloc_binary_def driver_realloc_binary_def Let_def P_calls)

lemma P_alloc_buffer: "P s \<Longrightarrow> P (snd (alloc_buffer em n s))"
  by (auto simp: alloc_buffer_def Let_def P_alloc P_stack split: list.split)

lemma P_free_buffer: "P s \<Longrightarrow> P (free_buffer p s)" "P s \<Longrightarrow> P (release_buffer p s)"
  by (simp_all add: free_buffer_def release_buffer_def P_intros split: option.split)

lemma P_clear: "P s \<Longrightarrow> P (loop_clear_input s)"
  by (simp add: loop_clear_input_def P_free_buffer P_intros)

lemmas P_more = P_intros P_driver_call P_answer P_async_error P_call_with_buffer P_alloc
  P_alloc_buffer P_free_buffer P_clear P_deq

lemma keeps_http_event: "P s \<Longrightarrow> keeps P (http_event_message em ev s)"
  by (cases ev) (auto simp: http_event_message_def http_response_message_def http_eoh_message_def
      http_request_message_def http_header_message_def Let_def intro!: keeps_intros P_more)

lemma keeps_http_message: "P s \<Longrightarrow> keeps P (http_message em offs len s)"
  unfolding http_message_def Let_def by (intro keeps_intros) (auto intro!: keeps_http_event P_more)

lemma keeps_delivered: "P s \<Longrightarrow> keeps P (delivered code s)"
  by (auto simp: delivered_def intro!: keeps_intros P_once)

lemma keeps_http_reply: "P s \<Longrightarrow> keeps P (http_reply em offs len s)"
  unfolding http_reply_def http_error_message_def
  by (intro keeps_intros keeps_http_message keeps_delivered) (auto intro: P_more)

lemma keeps_adjust: "(\<And>off l. keeps P (k off l)) \<Longrightarrow> keeps P (adjust m offs len s k)"
  by (auto simp: adjust_def intro!: keeps_intros split: packet_type.split)

lemma keeps_scanbit8: "P s \<Longrightarrow> keeps P (scanbit8 m offs len s)"
  by (auto simp: scanbit8_def Let_def intro!: keeps_intros P_more)

lemma keeps_data:
  "P s \<Longrightarrow> keeps P (inet_port_data em m offs len s)"
  "P s \<Longrightarrow> keeps P (inet_port_binary_data em offs len s)"
  "P s \<Longrightarrow> keeps P (inet_async_data em m offs len s)"
  "P s \<Longrightarrow> keeps P (inet_async_binary_data em phsz offs len s)"
  "P s \<Longrightarrow> keeps P (loop_message em m offs len s)"
  "P s \<Longrightarrow> keeps P (loop_binary_message em offs len s)"
  by (auto simp: inet_port_data_def inet_port_binary_data_def inet_async_data_def
      inet_async_binary_data_def loop_message_def loop_binary_message_def Let_def
      intro!: keeps_intros P_more)

lemma keeps_reply:
  "P s \<Longrightarrow> keeps P (loop_reply_data em offs len s)"
  "P s \<Longrightarrow> keeps P (loop_reply_binary_data em offs len s)"
  unfolding loop_reply_data_def loop_reply_binary_data_def Let_def
  by (intro keeps_intros keeps_adjust keeps_scanbit8 keeps_data keeps_http_reply keeps_delivered;
      assumption)+

lemma keeps_restart: "P s \<Longrightarrow> keeps P (loop_restart_input s)"
  by (auto simp: loop_restart_input_def Let_def intro!: keeps_intros P_more)

lemma keeps_expand: "P s \<Longrightarrow> keeps P (loop_expand_buffer em len s)"
  by (auto simp: loop_expand_buffer_def Let_def intro!: keeps_intros P_more)

lemma keeps_push: "P s \<Longrightarrow> keeps P (loop_push_buffer em buf s)"
  by (auto simp: loop_push_buffer_def Let_def intro!: keeps_intros P_more)

lemma keeps_remain: "P s \<Longrightarrow> keeps P (loop_remain em s)"
  by (auto simp: loop_remain_def Let_def intro!: keeps_intros keeps_expand P_more
      split: sum.split label.split)

lemma keeps_packet: "P s \<Longrightarrow> keeps P (deliver_packet em len s)"
  unfolding deliver_packet_def Let_def
  by (intro keeps_intros keeps_reply) (auto intro!: P_more split: if_splits)

lemma keeps_next:
  "P s \<Longrightarrow> (\<And>len c s. P s \<Longrightarrow> keeps P (again len c s)) \<Longrightarrow>
   keeps P (deliver_next em again count code s)"
  unfolding deliver_next_def Let_def
  by (intro keeps_intros keeps_restart keeps_remain) (auto intro: P_more intro!: keeps_intros keeps_restart)

lemma keeps_loop: "P s \<Longrightarrow> keeps P (deliver_loop em fuel len count s)"
proof (induction fuel arbitrary: len count s)
  case 0
  then show ?case by (auto simp: deliver_loop.simps intro!: keeps_intros)
next
  case (Suc fuel)
  then show ?case
    by (auto simp: deliver_loop.simps [of em "Suc fuel"] intro!: keeps_intros keeps_next keeps_packet P_input)
qed

lemma keeps_deliver: "P s \<Longrightarrow> keeps P (loop_deliver em len s)"
  by (auto simp: loop_deliver_def Let_def intro!: keeps_intros keeps_loop keeps_remain P_more)

lemma P_clear_output: "P s \<Longrightarrow> P (loop_clear_output em s)"
proof -
  assume P: "P s"
  let ?s = "log_call (Deq (driver_sizeq em s)) s"
  obtain h where "send_to_subscribers em True [TAtom ''empty_out_q'', TPort, TTuple 2] ?s =
      ?s\<lparr>calls := h, d_subs := []\<rparr>"
    using send_to_subscribers_sends [of em True "[TAtom ''empty_out_q'', TPort, TTuple 2]" ?s] by auto
  then show "P (loop_clear_output em s)"
    using P by (simp add: loop_clear_output_def send_empty_out_q_msgs_def P_intros)
qed

lemma P_reply_error: "P s \<Longrightarrow> P (snd (inet_reply_error_am em reason s))"
  by (simp add: inet_reply_error_am_def driver_call_def P_intros)

lemma P_unblock: "P s \<Longrightarrow> P (unblock_send em s)"
proof -
  assume P: "P s"
  let ?s = "loop_clear_output em s"
  have "IS_BUSY ?s = IS_BUSY s"
  proof -
    obtain h where "send_to_subscribers em True [TAtom ''empty_out_q'', TPort, TTuple 2]
        (log_call (Deq (driver_sizeq em s)) s) = s\<lparr>calls := h, d_subs := []\<rparr>"
      using send_to_subscribers_sends [of em True "[TAtom ''empty_out_q'', TPort, TTuple 2]"
          "log_call (Deq (driver_sizeq em s)) s"] by auto
    then show ?thesis
      by (simp add: loop_clear_output_def send_empty_out_q_msgs_def IS_BUSY_def)
  qed
  moreover have "P (log_call CancelTimer ?s)" by (rule P_calls [OF P_clear_output [OF P]])
  ultimately have "P ((log_call CancelTimer ?s)\<lparr>l_busy_on_send := 0,
      d_state := d_state ?s AND NOT INET_F_BUSY\<rparr>)" if "IS_BUSY s"
    using P_unbusy [of "log_call CancelTimer ?s"] that by (simp add: IS_BUSY_def)
  from P_reply_error [OF P_calls [OF this]] P show "P (unblock_send em s)"
    by (simp add: unblock_send_def Let_def)
qed

lemma keeps_recv_error: "P s \<Longrightarrow> keeps P (Inr (loop_recv_error em err s))"
  unfolding loop_recv_error_def loop_error_message_def loop_closed_message_def driver_call_def Let_def
  by (intro keeps_pair) (auto intro!: P_more P_unblock)

lemma keeps_recv_into: "P s \<Longrightarrow> keeps P (recv_into em nread s)"
  by (auto simp: recv_into_def Let_def
      intro!: keeps_intros(1,3-) keeps_deliver keeps_remain keeps_recv_error P_more)

lemma keeps_recv: "P s \<Longrightarrow> keeps P (loop_recv em request_len s)"
  unfolding loop_recv_def Let_def
  by (intro keeps_intros(1,3-) keeps_deliver keeps_remain keeps_recv_error keeps_recv_into keeps_expand)
    (auto intro!: P_more keeps_intros(1,3-) keeps_deliver keeps_remain keeps_recv_error keeps_recv_into)

lemma keeps_send:
  "P s \<Longrightarrow> keeps P (loop_send em ptr s)"
  "P s \<Longrightarrow> keeps P (loop_sendv em ptr s)"
  unfolding loop_send_def loop_sendv_def Let_def
  by (auto intro!: keeps_intros keeps_recv P_more)

end

section \<open>The two instances\<close>

text \<open>
  The settings of a port and the state of its connection are what they were; \<^verbatim>\<open>INET_F_BUSY\<close> is
  never set in the first place.
\<close>

definition conn :: "drv \<Rightarrow> (32 word \<times> sock_type \<times> family) \<times> (bool \<times> inet_address \<times> bool \<times> inet_address) \<times>
    (int \<times> int \<times> int \<times> int \<times> int \<times> int \<times> int)" where
  "conn s = ((d_state s, d_stype s, d_sfamily s),
     (d_peer_ptr s, d_peer_addr s, d_name_ptr s, d_name_addr s),
     (d_htype s, d_mode s, d_hsz s, d_deliver s, d_bufsz s, d_exitf s, d_bit8f s))"

interpretation connection: data_path "\<lambda>s. conn s = c \<and> \<not> IS_BUSY s" for c
proof unfold_locales
  fix s
  assume "conn s = c \<and> \<not> IS_BUSY s"
  then show "conn (snd (deq_async s)) = c \<and> \<not> IS_BUSY (snd (deq_async s))"
    using deq_async_frame [of s] by (auto simp: conn_def IS_BUSY_def)
qed (auto simp: conn_def IS_BUSY_def inet_input_count_def inet_output_count_def Let_def)

lemma async_wf_upd:
  "d_op_queue s' = d_op_queue s \<Longrightarrow> d_oph s' = d_oph s \<Longrightarrow> d_opt s' = d_opt s \<Longrightarrow>
   async_wf s' = async_wf s"
  by (simp add: async_wf_def)

interpretation requests: data_path async_wf
proof unfold_locales
  fix s
  assume "async_wf s"
  then show "async_wf (snd (deq_async s))"
    using deq_async_spec [of s] by (cases "pending s") auto
qed (auto simp: inet_input_count_def inet_output_count_def Let_def elim!: async_wf_upd [THEN iffD1, rotated 3])

end
