(* ===== verification/Options.thy ===== *)
theory Options
  imports Stats
begin

text \<open>
  The options of a port and its faked addresses: \<^verbatim>\<open>inet_set_opts\<close>, \<^verbatim>\<open>inet_fill_opts\<close>,
  \<^verbatim>\<open>inet_set_address\<close> and \<^verbatim>\<open>inet_get_address\<close>.  The option codes are written as the numbers the
  header gives them.  A list of options is worked off from the front, and what came before an
  option that is refused stays set.
\<close>

section \<open>Setting options\<close>

definition clip :: "int \<Rightarrow> int \<Rightarrow> int \<Rightarrow> int" where
  "clip lo hi i = (if i > hi then hi else if i < lo then lo else i)"

definition set_bit8 :: "int \<Rightarrow> drv \<Rightarrow> drv" where
  "set_bit8 ival s =
     (if ival = 2 then s\<lparr>d_bit8f := 1, d_bit8 := 0\<rparr>
      else if ival = 3 then s\<lparr>d_bit8f := 0, d_bit8 := 0\<rparr>
      else if ival = 0 then s\<lparr>d_bit8f := 1, d_bit8 := 0\<rparr>
      else if ival = 1 then s\<lparr>d_bit8f := 1, d_bit8 := 1\<rparr>
      else s)"

text \<open>
  One option with its value, \<open>None\<close> for an unknown one.  The socket options have no socket to go
  to; the receive buffer size alone has an effect.  \<open>INET_OPT_LINGER\<close> is in the loop below.
\<close>

definition set_opt :: "byte \<Rightarrow> int \<Rightarrow> drv \<Rightarrow> drv option" where
  "set_opt opc ival s =
     (if opc = 21 then Some (s\<lparr>d_hsz := ival mod 2 ^ 32\<rparr>)
      else if opc = 24 then Some (s\<lparr>d_mode := ival\<rparr>)
      else if opc = 25 then Some (s\<lparr>d_deliver := ival\<rparr>)
      else if opc = 20 then Some (s\<lparr>d_bufsz := clip INET_MIN_BUFFER INET_MAX_BUFFER ival\<rparr>)
      else if opc = 22 then Some (s\<lparr>d_active := ival\<rparr>)
      else if opc = 23 then Some (s\<lparr>d_htype := ival\<rparr>)
      else if opc = 26 then Some (s\<lparr>d_exitf := ival\<rparr>)
      else if opc = 29 then Some (set_bit8 ival s)
      else if opc = 27 then
        Some (if d_stype s = SOCK_STREAM then
                let ival = clip 0 (INET_MAX_BUFFER * 2) ival;
                    s = (if l_low s > ival then s\<lparr>l_low := ival\<rparr> else s)
                in s\<lparr>l_high := ival\<rparr>
              else s)
      else if opc = 28 then
        Some (if d_stype s = SOCK_STREAM then
                let ival = clip 0 INET_MAX_BUFFER ival;
                    s = (if l_high s < ival then s\<lparr>l_high := ival\<rparr> else s)
                in s\<lparr>l_high := ival\<rparr>
              else s)
      else if opc = 30 then
        Some (if d_stype s = SOCK_STREAM then s\<lparr>l_send_timeout := ival\<rparr> else s)
      else if opc \<in> {0, 1, 2, 4, 5, 6, 10} then Some s
      else if opc = 7 then Some (if ival > d_bufsz s then s\<lparr>d_bufsz := ival\<rparr> else s)
      else None)"

function set_opts :: "byte list \<Rightarrow> drv \<Rightarrow> bool \<times> drv" where
  "set_opts src s =
     (if length src < 5 then (True, s)
      else
        let opc = hd src; ival = get_int32 (tl src); rest = drop 5 src in
        if opc = 3 then (if length rest < 4 then (False, s) else set_opts (drop 4 rest) s)
        else case set_opt opc ival s of None \<Rightarrow> (False, s) | Some s \<Rightarrow> set_opts rest s)"
  by pat_completeness auto
termination by (relation "measure (\<lambda>(src, s). length src)") auto

declare set_opts.simps [simp del]

definition inet_set_opts :: "byte list \<Rightarrow> drv \<Rightarrow> int \<times> drv" where
  "inet_set_opts src s =
     (let old_htype = d_htype s; old_active = d_active s; (ok, s) = set_opts src s in
      if \<not> ok then (- 1, s)
      else if d_stype s = SOCK_STREAM \<and> IS_CONNECTED s \<or> d_stype s = SOCK_DGRAM \<and> IS_OPEN s then
        if d_stype s = SOCK_STREAM \<and> d_active s \<noteq> 0 then
          if old_active = 0 then (1, s) else if d_htype s \<noteq> old_htype then (2, s) else (0, s)
        else (0, s)
      else (0, s))"

section \<open>Reading options\<close>

text \<open>
  \<open>ival\<close> is the local variable of that name: never initialised, and for a socket option reported
  as it happens to be.
\<close>

definition fill_opt :: "byte \<Rightarrow> int \<Rightarrow> drv \<Rightarrow> (byte list \<times> int) option" where
  "fill_opt opc ival s =
     (let word = (\<lambda>i. Some (opc # put_int32 i, ival));
          stream = (\<lambda>i. if d_stype s = SOCK_STREAM then Some (opc # put_int32 i, i)
                        else Some ([], ival)) in
      if opc = 20 then word (d_bufsz s)
      else if opc = 21 then word (d_hsz s)
      else if opc = 24 then word (d_mode s)
      else if opc = 25 then word (d_deliver s)
      else if opc = 22 then word (d_active s)
      else if opc = 23 then word (d_htype s)
      else if opc = 26 then word (d_exitf s)
      else if opc = 29 then word (if d_bit8f s \<noteq> 0 then d_bit8 s else 3)
      else if opc = 27 then stream (l_high s)
      else if opc = 28 then stream (l_low s)
      else if opc = 30 then stream (l_send_timeout s)
      else if opc \<in> {0, 1, 2, 4, 5, 6, 7, 10} then word ival
      else None)"

fun fill_opts :: "byte list \<Rightarrow> int \<Rightarrow> drv \<Rightarrow> byte list \<Rightarrow> byte list option" where
  "fill_opts [] ival s dst = Some dst"
| "fill_opts (opc # src) ival s dst =
     (case fill_opt opc ival s of
        None \<Rightarrow> None
      | Some (bs, ival) \<Rightarrow> fill_opts src ival s (dst @ bs))"

definition inet_fill_opts :: "emulator \<Rightarrow> byte list \<Rightarrow> drv \<Rightarrow> byte list option" where
  "inet_fill_opts em src s = fill_opts src (get_int32 (junk em s 4)) s [INET_REP_OK]"

lemma length_fill_opt: "fill_opt opc ival s = Some (bs, i) \<Longrightarrow> length bs \<le> 5"
  by (auto simp: fill_opt_def Let_def split: if_splits)

lemma length_fill_opts:
  "fill_opts src ival s dst = Some r \<Longrightarrow> length r \<le> length dst + 5 * length src"
proof (induction src arbitrary: ival dst)
  case (Cons opc src)
  then obtain bs i where "fill_opt opc ival s = Some (bs, i)" "fill_opts src i s (dst @ bs) = Some r"
    by (auto split: option.splits)
  then show ?case using Cons.IH [of i "dst @ bs"] length_fill_opt [of opc ival s bs i] by simp
qed simp

section \<open>Addresses\<close>

definition htons :: "16 word \<Rightarrow> 16 word" where
  "htons x = push_bit 8 x OR drop_bit 8 x"

definition ntohs :: "16 word \<Rightarrow> 16 word" where
  "ntohs x = push_bit 8 x OR drop_bit 8 x"

lemma ntohs_htons [simp]: "ntohs (htons x) = x"
proof (rule bit_word_eqI)
  fix n assume "n < LENGTH(16)"
  then show "bit (ntohs (htons x)) n = bit x n"
    by (cases "n < 8") (auto simp: ntohs_def htons_def bit_simps)
qed

definition inet_set_address :: "family \<Rightarrow> byte list \<Rightarrow> inet_address option" where
  "inet_set_address fam src =
     (if fam = AF_INET \<and> length src \<ge> 6 then
        Some \<lparr>sin_family = fam, sin_port = htons (word_of_int (get_int16 src)),
              sin_addr = take 4 (drop 2 src)\<rparr>
      else None)"

definition inet_get_address :: "family \<Rightarrow> inet_address \<Rightarrow> byte list option" where
  "inet_get_address fam src =
     (if fam = AF_INET then
        Some (1 # put_int16 (sint (ntohs (sin_port src))) @ sin_addr src)
      else None)"

definition sockaddr_to_buf :: "inet_address \<Rightarrow> int \<Rightarrow> byte list option" where
  "sockaddr_to_buf addr room =
     (if sin_family addr = AF_INET \<or> sin_family addr = NO_FAMILY then
        if room < 4 then None else Some (sin_addr addr)
      else None)"

definition buf_to_sockaddr :: "byte list \<Rightarrow> inet_address \<Rightarrow> (inet_address \<times> byte list) option" where
  "buf_to_sockaddr buf addr =
     (if length buf < 4 then None
      else Some (addr\<lparr>sin_addr := take 4 buf, sin_family := AF_INET\<rparr>, drop 4 buf))"

text \<open>What is set is what is read: the port and the four octets, behind the family.\<close>

lemma put_int16_word: "put_int16 (sint (word_of_int (get_int16 src) :: 16 word)) = [src ! 0, src ! 1]"
proof -
  let ?p = "get_int16 src"
  have p: "?p = uint (src ! 0) * 256 + uint (src ! 1)" by (rule get_int16_eq)
  have b: "0 \<le> uint (src ! 0)" "uint (src ! 0) < 256" "0 \<le> uint (src ! 1)" "uint (src ! 1) < 256"
    by (rule byte_bound)+
  have eq: "sint (word_of_int ?p :: 16 word) mod 65536 = ?p mod 65536"
    by (simp add: sint_sbintrunc' take_bit_signed_take_bit
        flip: take_bit_eq_mod [of 16, simplified])
  have put: "put_int16 i = put_int16 j" if "i mod 65536 = j mod 65536" for i j
  proof -
    have "take_bit 16 i = take_bit 16 j" using that by (simp add: take_bit_eq_mod)
    then have "bit i n = bit j n" if "n < 16" for n
      using that by (metis bit_take_bit_iff)
    then have "w8 (drop_bit 8 (cint i)) = w8 (drop_bit 8 (cint j))" "w8 (cint i) = w8 (cint j)"
      by (auto intro!: bit_word_eqI simp: bit_simps)
    then show ?thesis by (simp add: put_int16_def)
  qed
  have "put_int16 ?p = [src ! 0, src ! 1]"
  proof -
    have high: "\<not> bit w (8 + n)" for w :: byte and n
      using bit_imp_le_length [of w "8 + n"] by auto
    have "cint ?p = push_bit 8 (w32 (src ! 0)) OR w32 (src ! 1)"
      by (simp add: get_int16_def)
    then show ?thesis
      using high by (auto simp: put_int16_def bit_simps intro!: bit_word_eqI)
  qed
  then show ?thesis using put [OF eq] by simp
qed

lemma address_round_trip:
  assumes "inet_set_address fam src = Some a"
  shows "inet_get_address fam a = Some (1 # take 6 src)"
proof -
  obtain x y rest where src: "src = x # y # rest" "4 \<le> length rest" and fam: "fam = AF_INET"
    using assms by (auto simp: inet_set_address_def Suc_le_length_iff numeral_eq_Suc split: if_splits)
  have "take 6 src = [x, y] @ take 4 rest" by (simp add: src(1) numeral_eq_Suc)
  moreover have "a = \<lparr>sin_family = fam, sin_port = htons (word_of_int (get_int16 src)),
      sin_addr = take 4 rest\<rparr>"
    using assms src fam by (simp add: inet_set_address_def)
  ultimately show ?thesis
    using fam put_int16_word [of src] src(1) by (simp add: inet_get_address_def)
qed

section \<open>An option is read as it was set\<close>

lemma set_one_opt:
  "- (2 ^ 31) \<le> i \<Longrightarrow> i < 2 ^ 31 \<Longrightarrow> opc \<noteq> 3 \<Longrightarrow>
   set_opts (opc # put_int32 i) s =
     (case set_opt opc i s of None \<Rightarrow> (False, s) | Some s \<Rightarrow> (True, s))"
  using get_put_int32 [of i "[]"]
  by (subst set_opts.simps) (simp add: set_opts.simps [of "[]"] split: option.split)

lemma put_int32_mod: "put_int32 (i mod 4294967296) = put_int32 i"
proof -
  have "cint (i mod 4294967296) = cint i"
    by (simp add: word_uint_eq_iff uint_word_of_int)
  then show ?thesis by (simp add: put_int32_def)
qed

text \<open>What GETOPTS reports of an option set to \<open>i\<close>.\<close>

definition stored_option :: "byte \<Rightarrow> int \<Rightarrow> int" where
  "stored_option opc i =
     (if opc = 20 then clip INET_MIN_BUFFER INET_MAX_BUFFER i
      else if opc = 27 then clip 0 (INET_MAX_BUFFER * 2) i else i)"

lemma set_opt_read:
  assumes "opc \<in> {20, 21, 22, 23, 24, 25, 26, 27, 30}" "d_stype s = SOCK_STREAM"
  shows "\<exists>s'. set_opt opc i s = Some s' \<and>
     inet_fill_opts em [opc] s' = Some (INET_REP_OK # opc # put_int32 (stored_option opc i))"
  using assms(1)
  by (elim insertE emptyE)
    (simp_all add: set_opt_def inet_fill_opts_def fill_opt_def stored_option_def put_int32_mod Let_def assms(2))

text \<open>\<^verbatim>\<open>INET_LOPT_TCP_LOWTRMRK\<close> never changes the low watermark: it sets the high one.\<close>

lemma low_watermark_sets_high:
  "d_stype s = SOCK_STREAM \<Longrightarrow> set_opt 28 i s = Some (s\<lparr>l_high := clip 0 INET_MAX_BUFFER i\<rparr>)"
  by (simp add: set_opt_def Let_def)

end
