(* ===== verification/Control.thy ===== *)
theory Control
  imports Deliver Options
begin

text \<open>
  The control interface of a port: \<^verbatim>\<open>inet_ctl\<close> and \<^verbatim>\<open>loop_drv_ctl\<close> with one definition for each
  request that does more than report an error, and the other entry points of the driver.  A control
  call returns a number and, through \<^verbatim>\<open>*rbuf\<close>, a block of bytes; the model returns both.  The
  request codes are written as the numbers the header gives them.
\<close>

type_synonym ctl_result = "int \<times> byte list"

section \<open>Replies\<close>

text \<open>
  The area of \<open>rsize\<close> bytes is used if the reply fits, otherwise a new one is allocated, in
  \<^verbatim>\<open>ctl_reply\<close> without a check.
\<close>

definition ctl_reply ::
  "emulator \<Rightarrow> byte \<Rightarrow> byte list \<Rightarrow> int \<Rightarrow> drv \<Rightarrow> (ctl_result, drv) outcome" where
  "ctl_reply em rep buf rsize s =
     (let n = int (length buf) + 1 in
      if n > rsize then
        let s = log_call (AllocMem n) s
        in if em_alloc em (calls s) then Inr ((n, rep # buf), s) else Inl NullPtr
      else Inr ((n, rep # buf), s))"

definition ctl_error :: "emulator \<Rightarrow> errno \<Rightarrow> int \<Rightarrow> drv \<Rightarrow> (ctl_result, drv) outcome" where
  "ctl_error em err rsize s =
     ctl_reply em INET_REP_ERROR (bytes_of (map to_lower (em_errno em err))) rsize s"

definition ctl_xerror :: "emulator \<Rightarrow> string \<Rightarrow> int \<Rightarrow> drv \<Rightarrow> (ctl_result, drv) outcome" where
  "ctl_xerror em xerr rsize s = ctl_reply em INET_REP_ERROR (bytes_of xerr) rsize s"

text \<open>
  The reports compute the size of their reply first; \<open>report\<close> gets the area and its size, and
  \<open>filled\<close> is the reply if it is within the area.
\<close>

definition reply_area ::
  "emulator \<Rightarrow> int \<Rightarrow> int \<Rightarrow> (int \<Rightarrow> drv \<Rightarrow> (ctl_result, drv) outcome) \<Rightarrow> drv \<Rightarrow>
   (ctl_result, drv) outcome" where
  "reply_area em dstlen rsize report s =
     (if dstlen > INET_MAX_BUFFER then Inr ((0, []), s)
      else if dstlen > rsize then
        let s = log_call (AllocMem dstlen) s
        in if em_alloc em (calls s) then report dstlen s else Inr ((0, []), s)
      else report rsize s)"

definition filled :: "int \<Rightarrow> byte list \<Rightarrow> drv \<Rightarrow> (ctl_result, drv) outcome" where
  "filled area reply s =
     (if int (length reply) \<le> area then Inr ((int (length reply), reply), s)
      else Inl OutOfBounds)"

section \<open>Requests common to all sockets\<close>

definition ctl_getstat :: "emulator \<Rightarrow> byte list \<Rightarrow> int \<Rightarrow> drv \<Rightarrow> (ctl_result, drv) outcome" where
  "ctl_getstat em buf rsize s =
     checked (stat_size buf + 1) (\<lambda>dstlen. reply_area em dstlen rsize (\<lambda>area s.
       case inet_fill_stat em buf s of
         None \<Rightarrow> Inr ((- 1, []), s)
       | Some r \<Rightarrow> filled area r s) s)"

definition ctl_subscribe :: "emulator \<Rightarrow> byte list \<Rightarrow> int \<Rightarrow> drv \<Rightarrow> (ctl_result, drv) outcome" where
  "ctl_subscribe em buf rsize s =
     checked (1 + int (length buf) * 5) (\<lambda>dstlen. reply_area em dstlen rsize (\<lambda>area s.
       case inet_subscribe em buf s of
         (SubReply r, s) \<Rightarrow> filled area r s
       | (SubNoMem, s) \<Rightarrow> Inr ((0, []), s)
       | (SubInvalid, s) \<Rightarrow> Inr ((- 1, []), s)) s)"

definition ctl_getopts :: "emulator \<Rightarrow> byte list \<Rightarrow> int \<Rightarrow> drv \<Rightarrow> (ctl_result, drv) outcome" where
  "ctl_getopts em buf rsize s =
     checked (int (length buf) * 9 + 1) (\<lambda>dstlen. reply_area em dstlen rsize (\<lambda>area s.
       case inet_fill_opts em buf s of
         None \<Rightarrow> ctl_error em EINVAL rsize s
       | Some r \<Rightarrow> filled area r s) s)"

definition ctl_setopts :: "emulator \<Rightarrow> byte list \<Rightarrow> int \<Rightarrow> drv \<Rightarrow> (ctl_result, drv) outcome" where
  "ctl_setopts em buf rsize s =
     (case inet_set_opts buf s of (code, s) \<Rightarrow>
        if code = - 1 then ctl_error em EINVAL rsize s
        else if code = 0 then ctl_reply em INET_REP_OK [] rsize s
        else andthen (loop_deliver em 0 s) (\<lambda>_ s. ctl_reply em INET_REP_OK [] rsize s))"

definition ctl_gettype :: "emulator \<Rightarrow> int \<Rightarrow> drv \<Rightarrow> (ctl_result, drv) outcome" where
  "ctl_gettype em rsize s =
     (if d_sfamily s \<noteq> AF_INET then ctl_error em EINVAL rsize s
      else case d_stype s of
             SOCK_STREAM \<Rightarrow> ctl_reply em INET_REP_OK (put_int32 1 @ put_int32 1) rsize s
           | SOCK_DGRAM \<Rightarrow> ctl_reply em INET_REP_OK (put_int32 1 @ put_int32 2) rsize s
           | NO_TYPE \<Rightarrow> ctl_error em EINVAL rsize s)"

definition ctl_getfd :: "emulator \<Rightarrow> int \<Rightarrow> drv \<Rightarrow> (ctl_result, drv) outcome" where
  "ctl_getfd em rsize s =
     (if \<not> IS_OPEN s then ctl_error em EINVAL rsize s
      else ctl_reply em INET_REP_OK (put_int32 0) rsize s)"

definition ctl_peer :: "emulator \<Rightarrow> int \<Rightarrow> drv \<Rightarrow> (ctl_result, drv) outcome" where
  "ctl_peer em rsize s =
     (if d_state s AND INET_F_ACTIVE = 0 then ctl_error em ENOTCONN rsize s
      else if \<not> d_peer_ptr s then ctl_error em EINVAL rsize s
      else case inet_get_address (d_sfamily s) (d_peer_addr s) of
             None \<Rightarrow> ctl_error em EINVAL rsize s
           | Some tbuf \<Rightarrow> ctl_reply em INET_REP_OK tbuf rsize s)"

definition ctl_setpeer :: "emulator \<Rightarrow> byte list \<Rightarrow> int \<Rightarrow> drv \<Rightarrow> (ctl_result, drv) outcome" where
  "ctl_setpeer em buf rsize s =
     (if length buf = 0 then ctl_reply em INET_REP_OK [] rsize (s\<lparr>d_peer_ptr := False\<rparr>)
      else if length buf < 2 then ctl_error em EINVAL rsize s
      else case inet_set_address (d_sfamily s) buf of
             None \<Rightarrow> ctl_error em EINVAL rsize s
           | Some a \<Rightarrow>
               ctl_reply em INET_REP_OK [] rsize (s\<lparr>d_peer_addr := a, d_peer_ptr := True\<rparr>))"

definition ctl_name :: "emulator \<Rightarrow> int \<Rightarrow> drv \<Rightarrow> (ctl_result, drv) outcome" where
  "ctl_name em rsize s =
     (if \<not> IS_BOUND s then ctl_error em EINVAL rsize s
      else if \<not> d_name_ptr s then ctl_error em EINVAL rsize s
      else case inet_get_address (d_sfamily s) (d_name_addr s) of
             None \<Rightarrow> ctl_error em EINVAL rsize s
           | Some tbuf \<Rightarrow> ctl_reply em INET_REP_OK tbuf rsize s)"

definition ctl_setname :: "emulator \<Rightarrow> byte list \<Rightarrow> int \<Rightarrow> drv \<Rightarrow> (ctl_result, drv) outcome" where
  "ctl_setname em buf rsize s =
     (if length buf = 0 then ctl_reply em INET_REP_OK [] rsize (s\<lparr>d_name_ptr := False\<rparr>)
      else if length buf < 2 then ctl_error em EINVAL rsize s
      else case inet_set_address (d_sfamily s) buf of
             None \<Rightarrow> ctl_error em EINVAL rsize s
           | Some a \<Rightarrow>
               ctl_reply em INET_REP_OK [] rsize (s\<lparr>d_name_addr := a, d_name_ptr := True\<rparr>))"

definition ctl_bind :: "emulator \<Rightarrow> byte list \<Rightarrow> int \<Rightarrow> drv \<Rightarrow> (ctl_result, drv) outcome" where
  "ctl_bind em buf rsize s =
     (if length buf < 2 then ctl_error em EINVAL rsize s
      else if d_state s \<noteq> INET_STATE_OPEN then ctl_xerror em ''exbadport'' rsize s
      else case inet_set_address (d_sfamily s) buf of
             None \<Rightarrow> ctl_error em EINVAL rsize s
           | Some local \<Rightarrow>
               ctl_reply em INET_REP_OK (put_int16 (sint (ntohs (sin_port local)))) rsize
                 (s\<lparr>d_state := INET_STATE_BOUND\<rparr>))"

definition inet_ctl :: "emulator \<Rightarrow> int \<Rightarrow> byte list \<Rightarrow> int \<Rightarrow> drv \<Rightarrow> (ctl_result, drv) outcome" where
  "inet_ctl em cmd buf rsize s =
     (if cmd = 11 then ctl_getstat em buf rsize s
      else if cmd = 24 then ctl_subscribe em buf rsize s
      else if cmd = 8 then ctl_getopts em buf rsize s
      else if cmd = 21 \<or> cmd = 22 \<or> cmd = 23 then ctl_error em EINVAL rsize s
      else if cmd = 7 then ctl_setopts em buf rsize s
      else if cmd = 9 then ctl_reply em INET_REP_OK (put_int32 0) rsize s
      else if cmd = 16 then ctl_reply em INET_REP_OK (put_int32 (uint (d_state s))) rsize s
      else if cmd = 15 then ctl_gettype em rsize s
      else if cmd = 14 then ctl_getfd em rsize s
      else if cmd = 12 then ctl_error em EINVAL rsize s
      else if cmd = 4 then ctl_peer em rsize s
      else if cmd = 20 then ctl_setpeer em buf rsize s
      else if cmd = 5 then ctl_name em rsize s
      else if cmd = 19 then ctl_setname em buf rsize s
      else if cmd = 6 then ctl_bind em buf rsize s
      else if cmd = 17 \<or> cmd = 18 then ctl_error em EINVAL rsize s
      else ctl_xerror em ''exbadport'' rsize s)"

section \<open>Requests of the loop driver\<close>

definition inet_ctl_open ::
  "emulator \<Rightarrow> family \<Rightarrow> sock_type \<Rightarrow> int \<Rightarrow> drv \<Rightarrow> (ctl_result, drv) outcome" where
  "inet_ctl_open em domain type rsize s =
     (if d_state s \<noteq> INET_STATE_CLOSED then ctl_xerror em ''exbadseq'' rsize s
      else ctl_reply em INET_REP_OK [] rsize
             (s\<lparr>d_state := INET_STATE_OPEN, d_stype := type, d_sfamily := domain\<rparr>))"

definition erl_inet_close :: "drv \<Rightarrow> drv" where
  "erl_inet_close s = (free_subscribers s)\<lparr>d_state := INET_STATE_CLOSED\<rparr>"

definition loop_close_check :: "emulator \<Rightarrow> drv \<Rightarrow> (int, drv) outcome" where
  "loop_close_check em s =
     (if d_state s = INET_STATE_CONNECTED then async_error_am_all em ''closed'' s else Inr (0, s))"

text \<open>The two bytes of \<^verbatim>\<open>tbuf\<close> are those of the stack if the queue of requests is full.\<close>

definition ctl_connect :: "emulator \<Rightarrow> byte list \<Rightarrow> int \<Rightarrow> drv \<Rightarrow> (ctl_result, drv) outcome" where
  "ctl_connect em buf rsize s =
     (if \<not> IS_OPEN s then ctl_xerror em ''exbadport'' rsize s
      else if IS_CONNECTED s then ctl_error em EISCONN rsize s
      else if \<not> IS_BOUND s then ctl_xerror em ''exbadseq'' rsize s
      else if length buf < 6 then ctl_error em EINVAL rsize s
      else case inet_set_address (d_sfamily s) (drop 4 buf) of
             None \<Rightarrow> ctl_error em EINVAL rsize s
           | Some a \<Rightarrow>
               let s = s\<lparr>d_peer_addr := a, d_state := INET_STATE_CONNECTED\<rparr>;
                   (_, tbuf, s) = enq_async em (junk em s 2) 3 s;
                   (_, s) = async_ok em s
               in ctl_reply em INET_REP_OK tbuf rsize s)"

definition ctl_recv :: "emulator \<Rightarrow> byte list \<Rightarrow> int \<Rightarrow> drv \<Rightarrow> (ctl_result, drv) outcome" where
  "ctl_recv em buf rsize s =
     (if \<not> IS_CONNECTED s then ctl_error em ENOTCONN rsize s
      else if d_active s \<noteq> INET_PASSIVE \<or> length buf \<noteq> 8 then ctl_error em EINVAL rsize s
      else
        let timeout = get_int32 buf mod 2 ^ 32; n = get_int32 (drop 4 buf) in
        if packet_type_of (d_htype s) \<noteq> TCP_PB_RAW \<and> n \<noteq> 0 then ctl_error em EINVAL rsize s
        else if n > TCP_MAX_PACKET_SIZE then ctl_error em ENOMEM rsize s
        else
          let (queued, tbuf, s) = enq_async em (junk em s 2) 32 s in
          if queued < 0 then ctl_error em EALREADY rsize s
          else andthen (loop_recv em n s) (\<lambda>r s.
            let s = (if r \<noteq> 0 then s
                     else if timeout = 0 then snd (async_error_am em ''timeout'' s)
                     else if timeout \<noteq> INET_INFINITY then log_call (SetTimer timeout) s
                     else s)
            in ctl_reply em INET_REP_OK tbuf rsize s))"

definition ctl_unrecv :: "emulator \<Rightarrow> byte list \<Rightarrow> int \<Rightarrow> drv \<Rightarrow> (ctl_result, drv) outcome" where
  "ctl_unrecv em buf rsize s =
     (if \<not> IS_CONNECTED s then ctl_error em ENOTCONN rsize s
      else andthen (loop_push_buffer em buf s) (\<lambda>_ s.
        andthen (if d_active s \<noteq> INET_PASSIVE then loop_deliver em 0 s else Inr (0, s)) (\<lambda>_ s.
          ctl_reply em INET_REP_OK [] rsize s)))"

definition ctl_shutdown :: "emulator \<Rightarrow> byte list \<Rightarrow> int \<Rightarrow> drv \<Rightarrow> (ctl_result, drv) outcome" where
  "ctl_shutdown em buf rsize s =
     (if \<not> IS_CONNECTED s then ctl_error em ENOTCONN rsize s
      else if length buf \<noteq> 1 then ctl_error em EINVAL rsize s
      else ctl_reply em INET_REP_OK [] rsize s)"

definition loop_drv_ctl ::
  "emulator \<Rightarrow> int \<Rightarrow> byte list \<Rightarrow> int \<Rightarrow> drv \<Rightarrow> (ctl_result, drv) outcome" where
  "loop_drv_ctl em cmd buf rsize s =
     (if cmd = 1 then
        (if length buf = 1 \<and> hd buf = 1 then inet_ctl_open em AF_INET SOCK_STREAM rsize s
         else ctl_error em EINVAL rsize s)
      else if cmd = 31 then ctl_error em EINVAL rsize s
      else if cmd = 3 then ctl_connect em buf rsize s
      else if cmd = 30 then ctl_error em EINVAL rsize s
      else if cmd = 2 then
        andthen (loop_close_check em s) (\<lambda>_ s.
          ctl_reply em INET_REP_OK [] rsize (erl_inet_close s))
      else if cmd = 32 then ctl_recv em buf rsize s
      else if cmd = 33 then ctl_unrecv em buf rsize s
      else if cmd = 34 then ctl_shutdown em buf rsize s
      else inet_ctl em cmd buf rsize s)"

section \<open>The other entry points\<close>

definition loop_drv_timeout :: "emulator \<Rightarrow> drv \<Rightarrow> drv" where
  "loop_drv_timeout em s =
     (if IS_CONNECTED s then
        if l_busy_on_send s \<noteq> 0 then
          snd (inet_reply_error_am em ''timeout'' (s\<lparr>l_busy_on_send := 0\<rparr>))
        else snd (async_error_am em ''timeout'' (s\<lparr>i_remain := 0\<rparr>))
      else s)"

definition loop_drv_command :: "emulator \<Rightarrow> byte list \<Rightarrow> drv \<Rightarrow> (unit, drv) outcome" where
  "loop_drv_command em buf s =
     (let s = s\<lparr>d_caller := em_caller em (calls s)\<rparr> in
      if \<not> IS_CONNECTED s then Inr ((), snd (inet_reply_error em ENOTCONN s))
      else andthen (loop_send em buf s) (\<lambda>r s.
        Inr ((), if r = 0 then snd (inet_reply_ok em s) else s)))"

definition loop_drv_commandv :: "emulator \<Rightarrow> byte list \<Rightarrow> drv \<Rightarrow> (unit, drv) outcome" where
  "loop_drv_commandv em ev s =
     (let s = s\<lparr>d_caller := em_caller em (calls s)\<rparr> in
      if \<not> IS_CONNECTED s then Inr ((), snd (inet_reply_error em ENOTCONN s))
      else andthen (loop_sendv em ev s) (\<lambda>r s.
        Inr ((), if r = 0 then snd (inet_reply_ok em s) else s)))"

text \<open>\<^verbatim>\<open>inet_stop\<close> frees the descriptor; what is left is the history and the static variables.\<close>

definition inet_stop :: "drv \<Rightarrow> drv" where
  "inet_stop s = log_call FreeMem (erl_inet_close s)"

definition loop_drv_stop :: "emulator \<Rightarrow> drv \<Rightarrow> (unit, drv) outcome" where
  "loop_drv_stop em s =
     andthen (loop_close_check em s) (\<lambda>_ s.
       let s = release_buffer (i_buf s) s
       in Inr ((), inet_stop (s\<lparr>i_buf := None\<rparr>)))"

end
