(* ===== verification/Port.thy ===== *)
theory Port
  imports Data_Path Control
begin

text \<open>
  A port from its opening to its closing: the entry points as steps, the states that sequences of
  them reach, and the protocol of the four connection states as an abstract machine.  The locale
  \<open>control_path\<close> extends \<open>data_path\<close> by the changes that control calls make to everything but the
  connection state, \<open>entry_points\<close> adds the four transitions of that state.
\<close>

locale control_path = data_path +
  assumes P_enq: "P s \<Longrightarrow> P (snd (snd (enq_async em tbuf req s)))"
    and P_opt: "P s \<Longrightarrow> set_opt opc v s = Some s' \<Longrightarrow> P s'"
    and P_peer: "P s \<Longrightarrow> P (s\<lparr>d_peer_ptr := False\<rparr>)"
      "P s \<Longrightarrow> inet_set_address fam src = Some a \<Longrightarrow> P (s\<lparr>d_peer_addr := a, d_peer_ptr := True\<rparr>)"
    and P_name: "P s \<Longrightarrow> P (s\<lparr>d_name_ptr := False\<rparr>)"
      "P s \<Longrightarrow> inet_set_address fam src = Some a \<Longrightarrow> P (s\<lparr>d_name_addr := a, d_name_ptr := True\<rparr>)"
    and P_subscribers: "P s \<Longrightarrow> P (s\<lparr>d_subs := l\<rparr>)"
    and P_sending: "P s \<Longrightarrow> P (s\<lparr>l_busy_on_send := 0\<rparr>)"
begin

lemma keeps_ctl_reply: "P s \<Longrightarrow> keeps P (ctl_reply em rep buf rsize s)"
  by (auto simp: ctl_reply_def Let_def intro!: keeps_intros P_more)

lemma keeps_errors: "P s \<Longrightarrow> keeps P (ctl_error em err rsize s)" "P s \<Longrightarrow> keeps P (ctl_xerror em x rsize s)"
  by (simp_all add: ctl_error_def ctl_xerror_def keeps_ctl_reply)

lemma keeps_reply_area:
  assumes "P s" "\<And>a s. P s \<Longrightarrow> keeps P (k a s)"
  shows "keeps P (reply_area em n rsize k s)"
  using assms(1) by (auto simp: reply_area_def Let_def intro!: keeps_intros assms(2) P_calls)

lemma keeps_filled: "P s \<Longrightarrow> keeps P (filled area r s)"
  by (simp add: filled_def keeps_intros)

lemma P_save: "P s \<Longrightarrow> P (snd (save_subscriber em pid s))"
  by (auto simp: save_subscriber_def Let_def intro!: P_more P_subscribers split: list.split)

lemma P_subscribe_all: "P s \<Longrightarrow> P (snd (subscribe_all em src s dst))"
proof (induction src arbitrary: s dst)
  case (Cons opc src)
  have "P (snd (if driver_sizeq em s > 0 then save_subscriber em (em_caller em (calls s)) s else (1, s)))"
    using Cons.prems P_save by simp
  then show ?case using Cons by (auto simp: Let_def split: prod.split if_splits)
qed simp

lemma P_set_opts: "P s \<Longrightarrow> P (snd (set_opts src s))"
proof (induction src s rule: set_opts.induct)
  case (1 src s)
  then show ?case
    by (subst set_opts.simps) (auto simp: Let_def P_opt split: option.split)
qed

lemma P_inet_set_opts: "P s \<Longrightarrow> P (snd (inet_set_opts src s))"
  using P_set_opts [of s src] by (auto simp: inet_set_opts_def Let_def split: prod.split)

lemma keeps_reports:
  "P s \<Longrightarrow> keeps P (ctl_getstat em buf rsize s)"
  "P s \<Longrightarrow> keeps P (ctl_getopts em buf rsize s)"
  by (auto simp: ctl_getstat_def ctl_getopts_def
      intro!: keeps_intros keeps_reply_area keeps_filled keeps_errors)

lemma keeps_subscribe: "P s \<Longrightarrow> keeps P (ctl_subscribe em buf rsize s)"
proof -
  assume P: "P s"
  have "keeps P (case inet_subscribe em buf s of
         (SubReply r, s) \<Rightarrow> filled area r s
       | (SubNoMem, s) \<Rightarrow> Inr ((0, []), s)
       | (SubInvalid, s) \<Rightarrow> Inr ((- 1, []), s))" if "P s" for s area
    using P_subscribe_all [OF that, of em buf "[INET_REP_OK]"]
    by (auto simp: inet_subscribe_def intro!: keeps_intros keeps_filled split: prod.split sub_result.split)
  from keeps_reply_area [OF P this] show "keeps P (ctl_subscribe em buf rsize s)"
    unfolding ctl_subscribe_def by (rule keeps_checked)
qed

lemma keeps_setopts: "P s \<Longrightarrow> keeps P (ctl_setopts em buf rsize s)"
  using P_inet_set_opts [of s buf]
  by (auto simp: ctl_setopts_def intro!: keeps_intros keeps_errors keeps_ctl_reply keeps_deliver
      split: prod.split)

lemma keeps_addresses:
  "P s \<Longrightarrow> keeps P (ctl_peer em rsize s)" "P s \<Longrightarrow> keeps P (ctl_name em rsize s)"
  "P s \<Longrightarrow> keeps P (ctl_setpeer em buf rsize s)" "P s \<Longrightarrow> keeps P (ctl_setname em buf rsize s)"
  by (auto simp: ctl_peer_def ctl_name_def ctl_setpeer_def ctl_setname_def
      intro!: keeps_intros keeps_errors keeps_ctl_reply P_peer P_name)

lemma keeps_queries: "P s \<Longrightarrow> keeps P (ctl_gettype em rsize s)" "P s \<Longrightarrow> keeps P (ctl_getfd em rsize s)"
  by (auto simp: ctl_gettype_def ctl_getfd_def intro!: keeps_errors keeps_ctl_reply split: sock_type.split)

lemma keeps_inet_ctl:
  "P s \<Longrightarrow> (cmd = 6 \<Longrightarrow> keeps P (ctl_bind em buf rsize s)) \<Longrightarrow> keeps P (inet_ctl em cmd buf rsize s)"
  unfolding inet_ctl_def
  by (intro keeps_if keeps_reports keeps_subscribe keeps_errors keeps_setopts keeps_ctl_reply
      keeps_addresses keeps_queries) auto

lemma keeps_drain:
  "P s \<Longrightarrow> keeps P (drain deq_async (\<lambda>opp s. snd (send_async_error em (op_id opp) (op_caller opp) reason s)) fuel s)"
proof (induction fuel arbitrary: s)
  case (Suc fuel)
  have "P (snd (deq_async s))" by (rule P_deq [OF Suc.prems])
  then show ?case
    using Suc.IH by (auto simp: send_async_error_def P_driver_call intro!: keeps_intros
        split: prod.split option.split)
qed (simp add: keeps_fault)

lemma P_async_am: "P s \<Longrightarrow> P (snd (async_error_am em reason s))" "P s \<Longrightarrow> P (snd (async_ok em s))"
  using P_deq [of s]
  by (auto simp: async_error_am_def async_ok_def send_async_error_def send_async_ok_def P_driver_call
      split: prod.split option.split)

lemma keeps_close_check: "P s \<Longrightarrow> keeps P (loop_close_check em s)"
  unfolding loop_close_check_def async_error_am_all_def
  by (intro keeps_if keeps_drain keeps_return)

lemma keeps_ctl_recv: "P s \<Longrightarrow> keeps P (ctl_recv em buf rsize s)"
  unfolding ctl_recv_def Let_def case_prod_unfold
  by (intro keeps_intros keeps_errors P_enq keeps_recv keeps_ctl_reply)
    (auto intro!: P_async_am P_calls P_enq)

lemma keeps_unrecv: "P s \<Longrightarrow> keeps P (ctl_unrecv em buf rsize s)"
  by (auto simp: ctl_unrecv_def intro!: keeps_intros keeps_errors keeps_ctl_reply keeps_push keeps_deliver)

text \<open>The control requests that do not change the state of the connection.\<close>

lemma keeps_ctl_other:
  assumes "P s" "cmd \<notin> {1, 2, 3, 6}"
  shows "keeps P (loop_drv_ctl em cmd buf rsize s)"
  using assms(2) unfolding loop_drv_ctl_def ctl_shutdown_def
  by (intro keeps_if keeps_errors keeps_ctl_reply keeps_ctl_recv keeps_unrecv keeps_inet_ctl
      assms(1)) auto

lemma keeps_command:
  "P s \<Longrightarrow> keeps P (loop_drv_command em buf s)"
  "P s \<Longrightarrow> keeps P (loop_drv_commandv em buf s)"
  unfolding loop_drv_command_def loop_drv_commandv_def inet_reply_error_def inet_reply_ok_def Let_def
  by (auto intro!: keeps_intros keeps_send P_reply_error P_more)

lemma P_timeout: "P s \<Longrightarrow> P (loop_drv_timeout em s)"
  by (simp add: loop_drv_timeout_def P_reply_error P_async_am P_sending P_remain)

end

locale entry_points = control_path +
  assumes P_open: "P s \<Longrightarrow> d_state s = INET_STATE_CLOSED \<Longrightarrow>
      P (s\<lparr>d_state := INET_STATE_OPEN, d_stype := SOCK_STREAM, d_sfamily := AF_INET\<rparr>)"
    and P_bind: "P s \<Longrightarrow> d_state s = INET_STATE_OPEN \<Longrightarrow> P (s\<lparr>d_state := INET_STATE_BOUND\<rparr>)"
    and P_connect: "P s \<Longrightarrow> inet_set_address fam src = Some a \<Longrightarrow> IS_BOUND s \<Longrightarrow> \<not> IS_CONNECTED s \<Longrightarrow>
      P (s\<lparr>d_peer_addr := a, d_state := INET_STATE_CONNECTED\<rparr>)"
    and P_close: "P s \<Longrightarrow> P (s\<lparr>d_state := INET_STATE_CLOSED\<rparr>)"
begin

lemma keeps_open: "P s \<Longrightarrow> keeps P (inet_ctl_open em AF_INET SOCK_STREAM rsize s)"
  by (auto simp: inet_ctl_open_def intro!: keeps_intros keeps_errors keeps_ctl_reply P_open)

lemma keeps_bind: "P s \<Longrightarrow> keeps P (ctl_bind em buf rsize s)"
  by (auto simp: ctl_bind_def intro!: keeps_intros keeps_errors keeps_ctl_reply P_bind)

lemma keeps_connect: "P s \<Longrightarrow> keeps P (ctl_connect em buf rsize s)"
proof -
  assume P: "P s"
  have "P (snd (async_ok em (snd (snd (enq_async em tbuf 3
      (s\<lparr>d_peer_addr := a, d_state := INET_STATE_CONNECTED\<rparr>))))))"
    if "IS_BOUND s" "\<not> IS_CONNECTED s" "inet_set_address fam src = Some a" for a tbuf fam src
    using that by (intro P_async_am P_enq P_connect P)
  then show "keeps P (ctl_connect em buf rsize s)"
    using P by (auto simp: ctl_connect_def Let_def case_prod_unfold intro!: keeps_intros keeps_errors
        keeps_ctl_reply)
qed

lemma P_erl_inet_close: "P s \<Longrightarrow> P (erl_inet_close s)"
  using P_close [OF P_subscribers [OF P_calls]]
  by (simp add: erl_inet_close_def free_subscribers_def)

lemma keeps_ctl: "P s \<Longrightarrow> keeps P (loop_drv_ctl em cmd buf rsize s)"
  unfolding loop_drv_ctl_def ctl_shutdown_def
  by (intro keeps_if keeps_open keeps_errors keeps_connect keeps_andthen keeps_close_check
      keeps_ctl_reply P_erl_inet_close keeps_ctl_recv keeps_unrecv keeps_inet_ctl keeps_bind)

end

section \<open>The invariant of a port\<close>

definition legal :: "drv \<Rightarrow> bool" where
  "legal s \<longleftrightarrow>
     d_state s \<in> {INET_STATE_CLOSED, INET_STATE_OPEN, INET_STATE_BOUND, INET_STATE_CONNECTED} \<and>
     (d_state s \<noteq> INET_STATE_CLOSED \<longrightarrow> d_sfamily s = AF_INET \<and> d_stype s = SOCK_STREAM)"

definition address_ok :: "inet_address \<Rightarrow> bool" where
  "address_ok a \<longleftrightarrow> sin_family a = AF_INET \<and> length (sin_addr a) = 4"

text \<open>
  The connection state is one of the four, the request queue is in order, the sizes are in their
  ranges and an address that can be asked for has been set.
\<close>

definition port_inv :: "drv \<Rightarrow> bool" where
  "port_inv s \<longleftrightarrow> legal s \<and> async_wf s \<and> 1 \<le> d_bufsz s \<and> 0 \<le> d_hsz s \<and> d_hsz s < 2 ^ 32 \<and>
     (d_peer_ptr s \<longrightarrow> address_ok (d_peer_addr s)) \<and> (d_name_ptr s \<longrightarrow> address_ok (d_name_addr s))"

lemma inet_set_address_ok: "inet_set_address fam src = Some a \<Longrightarrow> address_ok a"
  by (auto simp: inet_set_address_def address_ok_def split: if_splits)

lemma legal_flags:
  assumes "legal s"
  shows "\<not> IS_BUSY s" "IS_OPEN s \<longleftrightarrow> d_state s \<noteq> INET_STATE_CLOSED"
    "IS_BOUND s \<longleftrightarrow> d_state s \<in> {INET_STATE_BOUND, INET_STATE_CONNECTED}"
    "IS_CONNECTED s \<longleftrightarrow> d_state s = INET_STATE_CONNECTED"
  using assms by (auto simp: legal_def IS_BUSY_def IS_OPEN_def IS_BOUND_def IS_CONNECTED_def inet_states)

lemma inet_distinct:
  "INET_STATE_OPEN \<noteq> INET_STATE_CLOSED" "INET_STATE_BOUND \<noteq> INET_STATE_CLOSED"
  "INET_STATE_CONNECTED \<noteq> INET_STATE_CLOSED" "INET_STATE_BOUND \<noteq> INET_STATE_OPEN"
  "INET_STATE_CONNECTED \<noteq> INET_STATE_OPEN" "INET_STATE_CONNECTED \<noteq> INET_STATE_BOUND"
  by (simp_all add: inet_states)

lemma port_inv_upd:
  assumes "port_inv s" "conn s' = conn s" "d_op_queue s' = d_op_queue s" "d_oph s' = d_oph s"
    "d_opt s' = d_opt s"
  shows "port_inv s'"
  using assms by (simp add: port_inv_def legal_def conn_def async_wf_def)

lemma enq_async_wf:
  assumes "async_wf s"
  shows "async_wf (snd (snd (enq_async em tbuf req s)))"
    "conn (snd (snd (enq_async em tbuf req s))) = conn s"
proof -
  have "length (pending s) \<le> 1" using assms by (cases rule: async_wf_cases) simp_all
  then consider "length (pending s) = 1" | "length (pending s) < 1" by linarith
  then have "async_wf (snd (snd (enq_async em tbuf req s))) \<and>
      conn (snd (snd (enq_async em tbuf req s))) = conn s"
  proof cases
    case 1
    then show ?thesis using enq_async_full [OF assms] assms by (simp add: conn_def)
  next
    case 2
    then show ?thesis using enq_async_free [OF assms, of em tbuf req] by (auto simp: conn_def)
  qed
  then show "async_wf (snd (snd (enq_async em tbuf req s)))"
    "conn (snd (snd (enq_async em tbuf req s))) = conn s" by simp_all
qed

lemma set_opt_frame:
  assumes "set_opt opc v s = Some s'"
  shows "d_state s' = d_state s" "d_stype s' = d_stype s" "d_sfamily s' = d_sfamily s"
    "d_op_queue s' = d_op_queue s" "d_oph s' = d_oph s" "d_opt s' = d_opt s"
    "d_peer_ptr s' = d_peer_ptr s" "d_peer_addr s' = d_peer_addr s"
    "d_name_ptr s' = d_name_ptr s" "d_name_addr s' = d_name_addr s"
    "1 \<le> d_bufsz s \<longrightarrow> 1 \<le> d_bufsz s'" "0 \<le> d_hsz s \<and> d_hsz s < 2 ^ 32 \<longrightarrow> 0 \<le> d_hsz s' \<and> d_hsz s' < 2 ^ 32"
  using assms by (auto simp: set_opt_def set_bit8_def clip_def Let_def split: if_splits)

interpretation port: entry_points port_inv
proof unfold_locales
  fix s
  assume inv: "port_inv s"
  then have wf: "async_wf s" and leg: "legal s" by (simp_all add: port_inv_def)
  note flags = legal_flags [OF leg]
  show "port_inv (snd (deq_async s))"
    using inv requests.P_deq [OF wf] deq_async_frame [of s] by (auto simp: port_inv_def legal_def)
  show "port_inv (snd (snd (enq_async em tbuf req s)))" for em tbuf req
    using inv enq_async_wf [OF wf, of em tbuf req] by (simp add: port_inv_def conn_def legal_def)
  show "port_inv s'" if "set_opt opc v s = Some s'" for opc v s'
    using inv set_opt_frame [OF that] by (auto simp: port_inv_def legal_def async_wf_def)
  show "port_inv (s\<lparr>l_busy_on_send := 0, d_state := d_state s AND NOT INET_F_BUSY\<rparr>)" if "IS_BUSY s"
    using that flags(1) by simp
  show "port_inv (s\<lparr>d_peer_addr := a, d_state := INET_STATE_CONNECTED\<rparr>)"
    if "inet_set_address fam src = Some a" "IS_BOUND s" for fam src a
    using inv that flags(3) inet_distinct inet_set_address_ok
    by (auto simp: port_inv_def legal_def async_wf_def)
  show "port_inv (inet_input_count em len s)" "port_inv (inet_output_count em len s)" for em len
    using inv by (auto elim!: port_inv_upd simp: conn_def inet_input_count_def inet_output_count_def Let_def)
qed (simp_all add: port_inv_def legal_def async_wf_def inet_distinct inet_set_address_ok)

section \<open>Steps\<close>

text \<open>
  A request to the driver; a control request comes with its code, its bytes and the size of the
  reply area, a command with its data.
\<close>

datatype request = Control int "byte list" int | Command "byte list" | Commandv "byte list" | Timeout

inductive port_step :: "emulator \<Rightarrow> drv \<Rightarrow> request \<Rightarrow> drv \<Rightarrow> bool" for em where
  control: "loop_drv_ctl em cmd buf rsize s = Inr (r, s') \<Longrightarrow> port_step em s (Control cmd buf rsize) s'"
| command: "loop_drv_command em buf s = Inr (u, s') \<Longrightarrow> port_step em s (Command buf) s'"
| commandv: "loop_drv_commandv em ev s = Inr (u, s') \<Longrightarrow> port_step em s (Commandv ev) s'"
| timeout: "port_step em s Timeout (loop_drv_timeout em s)"

inductive_cases port_stepE: "port_step em s q s'"
inductive_simps port_step_simps:
  "port_step em s (Control cmd buf rsize) s'" "port_step em s (Command buf) s'"
  "port_step em s (Commandv ev) s'" "port_step em s Timeout s'"

text \<open>
  The states of a port from its start on.  The memory of the descriptor holds a queue array of
  \<^verbatim>\<open>INET_MAX_ASYNC\<close> cells, whatever is in them.
\<close>

inductive reachable :: "emulator \<Rightarrow> drv \<Rightarrow> bool" for em where
  start: "length (d_op_queue s0) = INET_MAX_ASYNC \<Longrightarrow> loop_drv_start em sz s0 = Some s \<Longrightarrow> reachable em s"
| step: "reachable em s \<Longrightarrow> port_step em s q s' \<Longrightarrow> reachable em s'"

lemma start_inv:
  assumes "length (d_op_queue s0) = INET_MAX_ASYNC" "loop_drv_start em sz s0 = Some s"
  shows "port_inv s" "pending s = []" "buffer_stack s = buffer_stack s0" "i_buf s = None"
    "calls s = AllocMem sz # calls s0" "d_state s = INET_STATE_CLOSED"
  using assms
  by (auto simp: loop_drv_start_def inet_start_def Let_def port_inv_def legal_def async_wf_def pending_def
      split: if_splits)

lemma step_inv: "port_inv s \<Longrightarrow> port_step em s q s' \<Longrightarrow> port_inv s'"
  by (erule port_stepE) (auto dest: keepsD [OF port.keeps_ctl] keepsD [OF port.keeps_command(1)]
      keepsD [OF port.keeps_command(2)] port.P_timeout)

lemma reachable_inv: "reachable em s \<Longrightarrow> port_inv s"
  by (induction rule: reachable.induct) (auto intro: start_inv step_inv)

section \<open>The protocol of the connection states\<close>

datatype phase = Closed | Open | Bound | Connected

definition phase_at :: "32 word \<Rightarrow> phase" where
  "phase_at st =
     (if st = INET_STATE_CLOSED then Closed
      else if st = INET_STATE_OPEN then Open
      else if st = INET_STATE_BOUND then Bound
      else Connected)"

definition phase_of :: "drv \<Rightarrow> phase" where
  "phase_of s = phase_at (d_state s)"

lemma phase_at_simps [simp]:
  "phase_at INET_STATE_CLOSED = Closed" "phase_at INET_STATE_OPEN = Open"
  "phase_at INET_STATE_BOUND = Bound" "phase_at INET_STATE_CONNECTED = Connected"
  by (simp_all add: phase_at_def inet_states)

text \<open>
  The abstract machine: the requests OPEN (1), BIND (6), CONNECT (3) and CLOSE (2) and the phase in
  which each is accepted; every other request leaves the phase alone.
\<close>

definition accepted :: "int \<Rightarrow> phase \<Rightarrow> bool" where
  "accepted cmd p \<longleftrightarrow>
     (if cmd = 1 then p = Closed else if cmd = 6 then p = Open else if cmd = 3 then p = Bound
      else True)"

definition next_phase :: "int \<Rightarrow> phase \<Rightarrow> phase" where
  "next_phase cmd p =
     (if cmd = 1 then Open else if cmd = 6 then Bound else if cmd = 3 then Connected
      else if cmd = 2 then Closed else p)"

definition replied_ok :: "ctl_result \<Rightarrow> bool" where
  "replied_ok r \<longleftrightarrow> snd r \<noteq> [] \<and> hd (snd r) = INET_REP_OK"

interpretation phase: control_path "\<lambda>s. d_state s = st \<and> \<not> IS_BUSY s" for st
proof unfold_locales
  fix s
  assume st: "d_state s = st \<and> \<not> IS_BUSY s"
  show "d_state (snd (deq_async s)) = st \<and> \<not> IS_BUSY (snd (deq_async s))"
    using st deq_async_frame [of s] by (auto simp: IS_BUSY_def)
  show "d_state (snd (snd (enq_async em tbuf req s))) = st \<and>
      \<not> IS_BUSY (snd (snd (enq_async em tbuf req s)))" for em tbuf req
    using st by (auto simp: enq_async_def new_async_id_def Let_def IS_BUSY_def split: option.split)
  show "d_state s' = st \<and> \<not> IS_BUSY s'" if "set_opt opc v s = Some s'" for opc v s'
    using st set_opt_frame(1) [OF that] by (auto simp: IS_BUSY_def)
qed (auto simp: IS_BUSY_def inet_input_count_def inet_output_count_def Let_def)

lemma phase_cases:
  assumes "legal s"
  obtains "phase_of s = Closed" "d_state s = INET_STATE_CLOSED"
  | "phase_of s = Open" "d_state s = INET_STATE_OPEN"
  | "phase_of s = Bound" "d_state s = INET_STATE_BOUND"
  | "phase_of s = Connected" "d_state s = INET_STATE_CONNECTED"
  using assms by (auto simp: legal_def phase_of_def)

lemma ctl_reply_run:
  "run_ok F Q (ctl_reply em rep buf rsize s) \<longleftrightarrow>
     (if int (length buf) + 1 > rsize then
        if em_alloc em (AllocMem (int (length buf) + 1) # calls s)
        then Q (int (length buf) + 1, rep # buf) (log_call (AllocMem (int (length buf) + 1)) s)
        else NullPtr \<in> F
      else Q (int (length buf) + 1, rep # buf) s)"
  by (simp add: ctl_reply_def Let_def)

lemma ctl_reply_phase:
  "run_ok UNIV (\<lambda>r s'. d_state s' = d_state s \<and> (replied_ok r \<longleftrightarrow> rep = INET_REP_OK))
     (ctl_reply em rep buf rsize s)"
  by (simp add: ctl_reply_run replied_ok_def)

lemma ctl_error_phase:
  "run_ok UNIV (\<lambda>r s'. d_state s' = d_state s \<and> \<not> replied_ok r) (ctl_error em err rsize s)"
  "run_ok UNIV (\<lambda>r s'. d_state s' = d_state s \<and> \<not> replied_ok r) (ctl_xerror em x rsize s)"
  using ctl_reply_phase [of s INET_REP_ERROR em] by (simp_all add: ctl_error_def ctl_xerror_def)

definition phase_ok :: "int \<Rightarrow> drv \<Rightarrow> ctl_result \<Rightarrow> drv \<Rightarrow> bool" where
  "phase_ok cmd s r s' \<longleftrightarrow>
     phase_of s' = (if replied_ok r then next_phase cmd (phase_of s) else phase_of s) \<and>
     (replied_ok r \<longrightarrow> accepted cmd (phase_of s))"

lemma phase_ok_error:
  "run_ok UNIV (phase_ok cmd s) (ctl_error em err rsize s)"
  "run_ok UNIV (phase_ok cmd s) (ctl_xerror em x rsize s)"
  by (rule run_ok_mono [OF ctl_error_phase(1)] run_ok_mono [OF ctl_error_phase(2)],
      simp add: phase_ok_def phase_of_def)+

lemma phase_ok_reply:
  assumes "accepted cmd (phase_of s)" "phase_of s1 = next_phase cmd (phase_of s)"
  shows "run_ok UNIV (phase_ok cmd s) (ctl_reply em INET_REP_OK buf rsize s1)"
  by (rule run_ok_mono [OF ctl_reply_phase])
    (use assms in \<open>simp add: phase_ok_def phase_of_def\<close>)

lemma ctl_phase:
  assumes inv: "port_inv s"
  shows "run_ok UNIV (phase_ok cmd s) (loop_drv_ctl em cmd buf rsize s)"
proof -
  have leg: "legal s" using inv by (simp add: port_inv_def)
  note flags = legal_flags [OF leg]
  have opn: "run_ok UNIV (phase_ok 1 s) (inet_ctl_open em AF_INET SOCK_STREAM rsize s)"
    by (auto simp: inet_ctl_open_def phase_of_def accepted_def next_phase_def inet_distinct
        intro!: phase_ok_error phase_ok_reply)
  have bnd: "run_ok UNIV (phase_ok 6 s) (ctl_bind em buf rsize s)"
    by (auto simp: ctl_bind_def phase_of_def accepted_def next_phase_def inet_distinct
        intro!: phase_ok_error phase_ok_reply split: option.split)
  have con: "run_ok UNIV (phase_ok 3 s) (ctl_connect em buf rsize s)"
  proof -
    have "d_state (snd (async_ok em (snd (snd (enq_async em tbuf 3
        (s\<lparr>d_peer_addr := a, d_state := INET_STATE_CONNECTED\<rparr>)))))) = INET_STATE_CONNECTED" for a tbuf
      by (rule phase.P_async_am(2) [OF phase.P_enq, THEN conjunct1])
        (simp add: IS_BUSY_def INET_STATE_CONNECTED_def inet_states)
    then show ?thesis
      using leg flags
      by (auto simp: ctl_connect_def Let_def case_prod_unfold phase_of_def accepted_def next_phase_def
          inet_distinct intro!: phase_ok_error phase_ok_reply split: option.split elim: phase_cases)
  qed
  have cls: "run_ok UNIV (phase_ok 2 s) (andthen (loop_close_check em s) (\<lambda>_ s.
          ctl_reply em INET_REP_OK [] rsize (erl_inet_close s)))"
  proof -
    have "run_ok UNIV (phase_ok 2 s) (ctl_reply em INET_REP_OK [] rsize (erl_inet_close s'))" for s'
      by (rule phase_ok_reply) (simp_all add: accepted_def next_phase_def phase_of_def erl_inet_close_def)
    then show ?thesis
      by (cases "loop_close_check em s") auto
  qed
  have other: "run_ok UNIV (phase_ok cmd s) (loop_drv_ctl em cmd buf rsize s)" if "cmd \<notin> {1, 2, 3, 6}"
    using phase.keeps_ctl_other [of s "d_state s" cmd em buf rsize] that flags(1)
    by (auto simp: keeps_def phase_ok_def next_phase_def accepted_def phase_of_def
        elim!: run_ok_mono)
  show ?thesis
  proof (cases "cmd \<in> {1, 2, 3, 6}")
    case True
    then show ?thesis
      using opn bnd con cls phase_ok_error by (auto simp: loop_drv_ctl_def inet_ctl_def)
  next
    case False
    then show ?thesis by (rule other)
  qed
qed

section \<open>The protocol requests return\<close>

lemma ctl_reply_returns:
  "(\<And>h. em_alloc em h) \<Longrightarrow> run_ok {} (\<lambda>_ _. True) (ctl_reply em rep buf rsize s)"
  "(\<And>h. em_alloc em h) \<Longrightarrow> run_ok {} (\<lambda>_ _. True) (ctl_error em err rsize s)"
  "(\<And>h. em_alloc em h) \<Longrightarrow> run_ok {} (\<lambda>_ _. True) (ctl_xerror em x rsize s)"
  by (simp_all add: ctl_error_def ctl_xerror_def ctl_reply_run)

text \<open>
  Closing a connected port answers every request that waits, oldest first, and leaves none.  The
  ring holds at most \<^verbatim>\<open>INET_MAX_ASYNC\<close> requests, one fewer than the fuel of the loop.
\<close>

lemma close_check_replies:
  assumes wf: "async_wf s" and con: "d_state s = INET_STATE_CONNECTED"
  shows "\<exists>s'. loop_close_check em s = Inr (0, s') \<and> async_wf s' \<and> pending s' = [] \<and>
     calls s' = rev (map (\<lambda>opp. SendTerm (op_caller opp)
       [TAtom ''inet_async'', TPort, TInt (op_id opp), TAtom ''error'', TAtom ''closed'', TTuple 2,
        TTuple 4]) (pending s)) @ calls s"
proof -
  have "length (pending s) < Suc INET_MAX_ASYNC"
    using wf by (cases rule: async_wf_cases) simp_all
  from async.drain_replies [OF wf this, of em "''closed''"] show ?thesis
    using con by (simp add: loop_close_check_def async_error_am_all_def)
qed

lemma protocol_returns:
  assumes inv: "port_inv s" and alloc: "\<And>h. em_alloc em h" and cmd: "cmd \<in> {1, 2, 3, 6}"
  shows "run_ok {} (\<lambda>_ _. True) (loop_drv_ctl em cmd buf rsize s)"
proof -
  note ret = ctl_reply_returns [of em, OF alloc]
  have "run_ok {} (\<lambda>_ _. True) (inet_ctl_open em AF_INET SOCK_STREAM rsize s)"
    "run_ok {} (\<lambda>_ _. True) (ctl_bind em buf rsize s)"
    "run_ok {} (\<lambda>_ _. True) (ctl_connect em buf rsize s)"
    by (auto simp: inet_ctl_open_def ctl_bind_def ctl_connect_def Let_def case_prod_unfold
        intro!: ret split: option.split)
  moreover have "run_ok {} (\<lambda>_ _. True) (andthen (loop_close_check em s) (\<lambda>_ s.
          ctl_reply em INET_REP_OK [] rsize (erl_inet_close s)))"
  proof (cases "d_state s = INET_STATE_CONNECTED")
    case True
    then show ?thesis using close_check_replies [of s em] inv ret by (auto simp: port_inv_def)
  next
    case False
    then show ?thesis using ret by (simp add: loop_close_check_def)
  qed
  ultimately show ?thesis
    using cmd ret by (auto simp: loop_drv_ctl_def inet_ctl_def)
qed

lemma sends_replies [simp]:
  "sends (rev (map (\<lambda>x. SendTerm (f x) (g x)) xs) @ h) = sends h @ map (\<lambda>x. (f x, g x)) xs"
  by (induction xs rule: rev_induct) simp_all

lemma sends_frees [simp]: "sends (map (\<lambda>_. FreeMem) xs @ h) = sends h"
  by (induction xs) simp_all

text \<open>A sequence of control calls, each with a reply area of the same size.\<close>

fun controls ::
  "emulator \<Rightarrow> (int \<times> byte list) list \<Rightarrow> int \<Rightarrow> drv \<Rightarrow> (ctl_result list, drv) outcome" where
  "controls em [] rsize s = Inr ([], s)"
| "controls em ((cmd, buf) # qs) rsize s =
     andthen (loop_drv_ctl em cmd buf rsize s) (\<lambda>r s.
       andthen (controls em qs rsize s) (\<lambda>rs s. Inr (r # rs, s)))"

section \<open>The reports fit their areas\<close>

lemma connected_active: "IS_CONNECTED s \<Longrightarrow> d_state s AND INET_F_ACTIVE \<noteq> 0"
proof -
  assume "IS_CONNECTED s"
  then have "d_state s AND 7 = 7" by (simp add: IS_CONNECTED_def inet_states)
  moreover have "d_state s AND 4 = (d_state s AND 7) AND 4" by (simp add: and.assoc)
  ultimately show ?thesis by simp
qed

lemma reply_area_fits:
  assumes "\<And>area s. dstlen \<le> area \<Longrightarrow> run_ok Fs (\<lambda>_ _. True) (report area s)"
  shows "run_ok Fs (\<lambda>_ _. True) (reply_area em dstlen rsize report s)"
  using assms by (simp add: reply_area_def Let_def)

lemma getstat_fits: "run_ok {IntOverflow} (\<lambda>_ _. True) (ctl_getstat em buf rsize s)"
  using length_fill_stats
  by (auto simp: ctl_getstat_def inet_fill_stat_def filled_def intro!: reply_area_fits split: option.split)

lemma getopts_fits:
  assumes "\<And>h. em_alloc em h"
  shows "run_ok {IntOverflow} (\<lambda>_ _. True) (ctl_getopts em buf rsize s)"
proof -
  have "int (length r) \<le> int (length buf) * 9 + 1" if "inet_fill_opts em buf s = Some r" for r s
    using length_fill_opts that by (fastforce simp: inet_fill_opts_def)
  then show ?thesis
    using run_ok_weaken [OF ctl_reply_returns(2) [of em, OF assms], of "{IntOverflow}"]
    by (auto simp: ctl_getopts_def filled_def intro!: reply_area_fits split: option.split) fastforce
qed

lemma subscribe_fits: "run_ok {IntOverflow} (\<lambda>_ _. True) (ctl_subscribe em buf rsize s)"
proof -
  have "int (length r) = 1 + int (length buf) * 5" if "inet_subscribe em buf s = (SubReply r, s')" for r s s'
    using length_subscribe_all that by (fastforce simp: inet_subscribe_def)
  then show ?thesis
    by (auto simp: ctl_subscribe_def filled_def intro!: reply_area_fits split: prod.split sub_result.split)
qed

end
