(* ===== verification/Framing.thy ===== *)
theory Framing
  imports Deliver
begin

text \<open>
  What the data path does in active mode with packets that carry their length in one or two bytes.
  The abstract view of a port is the list of payloads it has delivered and the bytes that are still
  buffered or queued: \<^verbatim>\<open>loop_recv\<close> moves whole packets from the front of the bytes to the payloads
  and changes nothing else, and \<^verbatim>\<open>loop_send\<close> appends one encoded packet.
\<close>

section \<open>Packets with a length\<close>

definition counted :: "packet_type \<Rightarrow> bool" where
  "counted pt \<longleftrightarrow> pt = TCP_PB_1 \<or> pt = TCP_PB_2"

definition hdr_value :: "packet_type \<Rightarrow> byte list \<Rightarrow> int" where
  "hdr_value pt bs = (if pt = TCP_PB_1 then get_int8 bs else get_int16 bs)"

definition fits :: "packet_type \<Rightarrow> byte list \<Rightarrow> bool" where
  "fits pt p \<longleftrightarrow> length p < (if pt = TCP_PB_1 then 256 else 65536)"

definition encode :: "packet_type \<Rightarrow> byte list \<Rightarrow> byte list" where
  "encode pt p = send_header pt (int (length p)) @ p"

definition complete :: "packet_type \<Rightarrow> byte list \<Rightarrow> bool" where
  "complete pt bs \<longleftrightarrow> hdr_len pt \<le> int (length bs) \<and>
     hdr_len pt + hdr_value pt bs \<le> int (length bs)"

lemma counted_hdr_len: "counted pt \<Longrightarrow> 1 \<le> hdr_len pt \<and> hdr_len pt \<le> 2"
  by (auto simp: counted_def hdr_len_def)

lemma counted_plain: "counted pt \<Longrightarrow> plain_type pt \<and> safe_type pt"
  by (auto simp: counted_def safe_type_def plain_type_def)

lemma hdr_value_bounds: "0 \<le> hdr_value pt bs" "hdr_value pt bs < 65536"
  using get_int8_bounds [of bs] get_int16_bounds [of bs] by (auto simp: hdr_value_def)

lemma hdr_value_take:
  "counted pt \<Longrightarrow> hdr_len pt \<le> int k \<Longrightarrow> hdr_value pt (take k m) = hdr_value pt m"
  by (auto simp: counted_def hdr_value_def hdr_len_def get_int8_def get_int16_def)

lemma hdr_value_append:
  "counted pt \<Longrightarrow> hdr_len pt \<le> int (length bs) \<Longrightarrow> hdr_value pt (bs @ r) = hdr_value pt bs"
  by (auto simp: counted_def hdr_value_def hdr_len_def get_int8_def get_int16_def nth_append)

lemma length_encode: "counted pt \<Longrightarrow> int (length (encode pt p)) = hdr_len pt + int (length p)"
  by (auto simp: counted_def encode_def send_header_def hdr_len_def)

lemma hdr_value_encode:
  "counted pt \<Longrightarrow> fits pt p \<Longrightarrow> hdr_value pt (encode pt p @ r) = int (length p)"
  by (auto simp: counted_def fits_def hdr_value_def encode_def send_header_def)

lemma put_get_int8: "put_int8 (get_int8 (x # bs)) = [x]"
  by (auto simp: put_int8_def get_int8_def bit_simps intro!: bit_word_eqI)

lemma put_get_int16: "put_int16 (get_int16 (x # y # bs)) = [x, y]"
proof -
  have high: "\<not> bit w (8 + n)" for w :: byte and n
    using bit_imp_le_length [of w "8 + n"] by auto
  have "cint (get_int16 (x # y # bs)) = push_bit 8 (w32 x) OR w32 y"
    by (simp add: get_int16_def)
  then show ?thesis using high by (auto simp: put_int16_def bit_simps intro!: bit_word_eqI)
qed

text \<open>A complete packet is the encoding of its payload.\<close>

lemma complete_decode:
  assumes "counted pt" "complete pt bs"
  shows "let p = take (nat (hdr_value pt bs)) (drop (nat (hdr_len pt)) bs)
         in fits pt p \<and> take (nat (hdr_len pt + hdr_value pt bs)) bs = encode pt p"
proof (cases "pt = TCP_PB_1")
  case True
  obtain x bs' where bs: "bs = x # bs'"
    using assms True by (cases bs) (auto simp: complete_def hdr_len_def)
  have "length (take (nat (get_int8 bs)) bs') = nat (get_int8 bs)"
    using assms(2) bs True get_int8_bounds [of bs]
    by (simp add: complete_def hdr_len_def hdr_value_def)
  moreover have "nat (1 + get_int8 bs) = Suc (nat (get_int8 bs))"
    using get_int8_bounds [of bs] by simp
  ultimately show ?thesis
    using True bs get_int8_bounds [of bs] put_get_int8 [of x bs']
    by (simp add: fits_def encode_def send_header_def hdr_value_def hdr_len_def Let_def)
next
  case False
  then have pt: "pt = TCP_PB_2" using assms(1) by (simp add: counted_def)
  obtain x y bs' where bs: "bs = x # y # bs'"
    using assms(2) pt by (cases bs rule: remdups_adj.cases) (auto simp: complete_def hdr_len_def)
  have "length (take (nat (get_int16 bs)) bs') = nat (get_int16 bs)"
    using assms(2) bs pt get_int16_bounds [of bs]
    by (simp add: complete_def hdr_len_def hdr_value_def)
  moreover have "nat (2 + get_int16 bs) = Suc (Suc (nat (get_int16 bs)))"
    using get_int16_bounds [of bs] by simp
  ultimately show ?thesis
    using pt bs get_int16_bounds [of bs] put_get_int16 [of x y bs']
    by (simp add: fits_def encode_def send_header_def hdr_value_def hdr_len_def Let_def)
qed

lemma complete_encode: "counted pt \<Longrightarrow> fits pt p \<Longrightarrow> complete pt (encode pt p @ r)"
  using hdr_value_encode [of pt p r] length_encode [of pt p] by (simp add: complete_def)

text \<open>Framing is unambiguous: the payloads of a stream of packets are determined.\<close>

lemma encode_inject:
  assumes "counted pt" "fits pt p" "fits pt q" "encode pt p @ r = encode pt q @ r'"
  shows "p = q \<and> r = r'"
proof -
  have "int (length p) = int (length q)"
    using assms hdr_value_encode by metis
  then show ?thesis using assms(1,4) by (auto simp: counted_def encode_def send_header_def)
qed

lemma stream_prefix:
  assumes pt: "counted pt" and "\<forall>p \<in> set ps. fits pt p" "\<forall>q \<in> set qs. fits pt q"
    "concat (map (encode pt) ps) @ r = concat (map (encode pt) qs)"
  shows "\<exists>rest. qs = ps @ rest \<and> r = concat (map (encode pt) rest)"
  using assms(2-)
proof (induction ps arbitrary: qs)
  case Nil
  then show ?case by simp
next
  case (Cons p ps)
  show ?case
  proof (cases qs)
    case Nil
    then have "int (length (encode pt p)) = 0" using Cons.prems(3) by simp
    then show ?thesis using length_encode [OF pt, of p] counted_hdr_len [OF pt] by linarith
  next
    case (Cons q qs')
    have "p = q \<and> concat (map (encode pt) ps) @ r = concat (map (encode pt) qs')"
      using Cons.prems Cons by (intro encode_inject [OF pt]) auto
    then show ?thesis using Cons.IH [of qs'] Cons.prems Cons by auto
  qed
qed

section \<open>What a delivery sends\<close>

definition outputs :: "call list \<Rightarrow> titem list list" where
  "outputs h = rev (List.map_filter (\<lambda>c. case c of OutputTerm m \<Rightarrow> Some m | _ \<Rightarrow> None) h)"

lemma outputs_simps [simp]:
  "outputs [] = []"
  "outputs (OutputTerm m # h) = outputs h @ [m]"
  "outputs (SendTerm p m # h) = outputs h" "outputs (FreeMem # h) = outputs h"
  "outputs (Deq n # h) = outputs h" "outputs (Enq bs # h) = outputs h"
  "outputs (Enqv bs # h) = outputs h" "outputs (AllocBinary n # h) = outputs h"
  "outputs (ReallocBinary n # h) = outputs h" "outputs (FreeBinary # h) = outputs h"
  by (simp_all add: outputs_def map_filter_simps)

text \<open>The message \<open>{tcp, S, Data}\<close> of a payload, in list mode and in binary mode.\<close>

definition tcp_message :: "int \<Rightarrow> int \<Rightarrow> byte list \<Rightarrow> titem list" where
  "tcp_message mode hsz p =
     [TAtom ''tcp'', TPort] @
     (if mode = INET_MODE_LIST \<or> hsz_exceeds hsz (int (length p)) then [TString p]
      else binary_items hsz p) @ [TTuple 3]"

text \<open>
  The emulator as documented, with memory and a live port owner: allocations and sends succeed and
  the queue is a queue.  \<open>active\<close> is the mode of a port in which each packet becomes a message.
\<close>

definition good :: "emulator \<Rightarrow> bool" where
  "good em \<longleftrightarrow> (\<forall>h. em_alloc em h) \<and> (\<forall>h. 0 \<le> em_rc em h) \<and> driver_queue (em_queue em)"

definition active :: "drv \<Rightarrow> bool" where
  "active s \<longleftrightarrow> d_active s \<noteq> INET_PASSIVE \<and> d_active s \<noteq> INET_ONCE \<and>
     d_deliver s \<noteq> INET_DELIVER_PORT"

lemma good_queue_frame:
  assumes "good em"
  shows "em_queue em (OutputTerm m # h) = em_queue em h"
    "em_queue em (FreeBinary # h) = em_queue em h"
    "em_queue em (AllocBinary n # h) = em_queue em h"
    "em_queue em (ReallocBinary n # h) = em_queue em h"
    "em_queue em (Enq bs # h) = em_queue em h @ bs"
    "em_queue em (Enqv bs # h) = em_queue em h @ bs"
    "em_queue em (Deq n # h) = drop (nat n) (em_queue em h)"
  using assms
  by (simp_all add: good_def driver_queue.q_simps driver_queue.q_frame)

text \<open>\<open>told em ms h h'\<close>: between \<open>h\<close> and \<open>h'\<close> the messages \<open>ms\<close> went out and the queue is as it was.\<close>

definition told :: "emulator \<Rightarrow> titem list list \<Rightarrow> call list \<Rightarrow> call list \<Rightarrow> bool" where
  "told em ms h h' \<longleftrightarrow> outputs h' = outputs h @ ms \<and> em_queue em h' = em_queue em h"

lemma told_simps [simp]:
  "told em [] h h"
  "good em \<Longrightarrow> told em ms h (FreeBinary # h') = told em ms h h'"
  "good em \<Longrightarrow> told em ms h (AllocBinary n # h') = told em ms h h'"
  "good em \<Longrightarrow> told em ms h (ReallocBinary n # h') = told em ms h h'"
  by (simp_all add: told_def good_queue_frame)

lemma told_output: "good em \<Longrightarrow> told em ms h h' \<Longrightarrow> told em (ms @ [m]) h (OutputTerm m # h')"
  by (simp add: told_def good_queue_frame)

lemma told_trans: "told em ms h h' \<Longrightarrow> told em ms' h' h'' \<Longrightarrow> told em (ms @ ms') h h''"
  by (simp add: told_def)

definition sent_one :: "emulator \<Rightarrow> titem list \<Rightarrow> drv \<Rightarrow> int \<Rightarrow> drv \<Rightarrow> bool" where
  "sent_one em m s r s' \<longleftrightarrow> 0 \<le> r \<and> d_active s' = d_active s \<and> told em [m] (calls s) (calls s')"

lemma loop_message_sent:
  assumes "good em" "0 \<le> off" "0 \<le> len" "off + len \<le> int (length m)"
  shows "run_ok {} (sent_one em (tcp_message (d_mode s) (d_hsz s) (bytes_at off len m)) s)
           (loop_message em m off len s)"
  using assms told_output [OF assms(1), where ms = "[]"]
  by (simp add: loop_message_def Let_def tcp_message_def driver_alloc_binary_def driver_call_def
      sent_one_def good_def)

lemma loop_binary_message_sent:
  assumes "good em" "0 \<le> off" "0 \<le> len" "i_buf s = Some b" "off + len \<le> orig_size b"
  shows "run_ok {} (sent_one em (tcp_message (d_mode s) (d_hsz s) (bytes_at off len (orig_bytes b))) s)
           (loop_binary_message em off len s)"
  using assms told_output [OF assms(1), where ms = "[]"]
  by (simp add: loop_binary_message_def Let_def tcp_message_def call_with_buffer_def
      driver_call_def sent_one_def good_def)

lemma sent_one_delivered:
  "active s \<Longrightarrow> run_ok F (sent_one em m s) x \<Longrightarrow> run_ok F (sent_one em m s) (andthen x delivered)"
  unfolding run_ok_andthen
  by (erule run_ok_mono) (simp add: sent_one_def delivered_def active_def)

lemma sent_one_bit8: "sent_one em m (s\<lparr>d_bit8 := v\<rparr>) = sent_one em m s"
  by (simp add: sent_one_def [abs_def])

lemma active_bit8: "active (s\<lparr>d_bit8 := v\<rparr>) = active s"
  by (simp add: active_def)

lemma scanbit8_sent:
  assumes "\<And>v. run_ok {} (sent_one em m s) (k (s\<lparr>d_bit8 := v\<rparr>))"
    and "0 \<le> off" "0 \<le> len" "off + len \<le> int (length blk)"
  shows "run_ok {} (sent_one em m s) (andthen (scanbit8 blk off len s) (\<lambda>_ s. k s))"
  using assms(1) [of "d_bit8 s"] assms by (simp add: scanbit8_def Let_def)

text \<open>The payload is the packet without its header.\<close>

abbreviation payload_message :: "int \<Rightarrow> int \<Rightarrow> byte list \<Rightarrow> drv \<Rightarrow> titem list" where
  "payload_message offs len m s \<equiv>
     tcp_message (d_mode s) (d_hsz s)
       (bytes_at (offs + hdr_len (packet_type_of (d_htype s)))
          (len - hdr_len (packet_type_of (d_htype s))) m)"

lemma reply_sent:
  assumes good: "good em" and act: "active s" and b: "i_buf s = Some b"
    and pt: "counted (packet_type_of (d_htype s))"
    and rng: "0 \<le> offs" "hdr_len (packet_type_of (d_htype s)) \<le> len" "offs + len \<le> orig_size b"
  shows "run_ok {} (sent_one em (payload_message offs len (orig_bytes b) s) s)
           (loop_reply_data em offs len s)" (is "run_ok {} (sent_one em ?msg s) _")
    and "run_ok {} (sent_one em (payload_message offs len (orig_bytes b) s) s)
           (loop_reply_binary_data em offs len s)"
proof -
  let ?h = "hdr_len (packet_type_of (d_htype s))"
  have h: "0 \<le> offs + ?h" "0 \<le> len - ?h" "offs + ?h + (len - ?h) \<le> orig_size b"
    using rng counted_hdr_len [OF pt] by linarith+
  have plain: "plain_type (packet_type_of (d_htype s))" using counted_plain [OF pt] ..
  have "run_ok {} (sent_one em ?msg s)
      (andthen (loop_message em (orig_bytes b) (offs + ?h) (len - ?h) (s\<lparr>d_bit8 := v\<rparr>)) delivered)"
    for v
    using sent_one_delivered [of "s\<lparr>d_bit8 := v\<rparr>"] act
      loop_message_sent [OF good h, of "s\<lparr>d_bit8 := v\<rparr>"]
    by (simp add: sent_one_bit8 active_bit8 del: run_ok_andthen)
  then show "run_ok {} (sent_one em ?msg s) (loop_reply_data em offs len s)"
    unfolding loop_reply_data_def b deref_simps Let_def adjust_plain [OF plain]
    by (intro scanbit8_sent)
      (use h plain act in \<open>simp_all add: plain_type_def active_def del: run_ok_andthen\<close>)
  have "run_ok {} (sent_one em ?msg s)
      (andthen (loop_binary_message em (offs + ?h) (len - ?h) (s\<lparr>d_bit8 := v\<rparr>)) delivered)" for v
    using sent_one_delivered [of "s\<lparr>d_bit8 := v\<rparr>"] act b
      loop_binary_message_sent [OF good h(1,2), of "s\<lparr>d_bit8 := v\<rparr>" b] h(3)
    by (simp add: sent_one_bit8 active_bit8 del: run_ok_andthen)
  then show "run_ok {} (sent_one em ?msg s) (loop_reply_binary_data em offs len s)"
    unfolding loop_reply_binary_data_def b deref_simps Let_def adjust_plain [OF plain]
    by (intro scanbit8_sent)
      (use h plain act in \<open>simp_all add: plain_type_def active_def del: run_ok_andthen\<close>)
qed

lemma run_ok_conj:
  "run_ok F P m \<Longrightarrow> run_ok G Q m \<Longrightarrow> run_ok (F \<inter> G) (\<lambda>x s. P x s \<and> Q x s) m"
  by (auto simp: run_ok_def split: sum.splits)

lemma free_buffer_told [simp]:
  "good em \<Longrightarrow> told em ms h (calls (free_buffer p s)) = told em ms h (calls s)"
  by (simp add: free_buffer_def release_buffer_def split: option.split)

lemma alloc_buffer_told:
  assumes "good em" "alloc_buffer em n s = (p, s')"
  shows "told em [] (calls s) (calls s')"
  using assms
  by (auto simp: alloc_buffer_def driver_alloc_binary_def driver_realloc_binary_def Let_def
      split: list.splits if_splits)

text \<open>The settings of a port that the data path reads and never writes.\<close>

definition settings :: "drv \<Rightarrow> int \<times> int \<times> int \<times> int \<times> int \<times> 32 word" where
  "settings s = (d_htype s, d_mode s, d_hsz s, d_deliver s, d_bufsz s, d_state s)"

lemma settings_upd [simp]:
  "settings (s\<lparr>calls := h\<rparr>) = settings s" "settings (s\<lparr>i_bufsz := n\<rparr>) = settings s"
  "settings (s\<lparr>i_buf := b\<rparr>) = settings s" "settings (s\<lparr>i_ptr := n\<rparr>) = settings s"
  "settings (s\<lparr>i_ptr_start := n\<rparr>) = settings s" "settings (s\<lparr>i_remain := n\<rparr>) = settings s"
  "settings (s\<lparr>buffer_stack := t\<rparr>) = settings s"
  "settings (free_buffer p s) = settings s" "settings (loop_clear_input s) = settings s"
  "settings (inet_input_count em len s) = settings s"
  by (simp_all add: settings_def loop_clear_input_def inet_input_count_def Let_def)

lemma settings_frame:
  "besides_reply s' = besides_reply s \<Longrightarrow> settings s' = settings s"
  "buf_frame s s' \<Longrightarrow> settings s' = settings s"
proof -
  show "settings s' = settings s" if "besides_reply s' = besides_reply s"
    using besides_replyD [OF that] by (simp add: settings_def)
  show "settings s' = settings s" if "buf_frame s s'"
    using buf_frameD [OF that] by (simp add: settings_def)
qed

lemma settingsD:
  "settings s' = settings s \<Longrightarrow> d_htype s' = d_htype s" 
  "settings s' = settings s \<Longrightarrow> d_mode s' = d_mode s" 
  "settings s' = settings s \<Longrightarrow> d_hsz s' = d_hsz s"
  "settings s' = settings s \<Longrightarrow> d_deliver s' = d_deliver s" 
  "settings s' = settings s \<Longrightarrow> d_bufsz s' = d_bufsz s"
  "settings s' = settings s \<Longrightarrow> d_state s' = d_state s"
  by (simp_all add: settings_def)

definition packet_sent :: "emulator \<Rightarrow> titem list \<Rightarrow> drv \<Rightarrow> int \<Rightarrow> drv \<Rightarrow> bool" where
  "packet_sent em m s r s' \<longleftrightarrow> sent_one em m s r s' \<and> settings s' = settings s \<and>
     (i_buf s' \<noteq> None \<longrightarrow> i_bufsz s' = i_bufsz s) \<and> (buffered s' = [] \<longrightarrow> i_buf s' = None)"

lemma deliver_packet_sent:
  assumes good: "good em" and act: "active s" and inv: "buf_inv s" and b: "i_buf s = Some b"
    and pt: "counted (packet_type_of (d_htype s))"
    and len: "0 < len" "hdr_len (packet_type_of (d_htype s)) \<le> len" "len \<le> i_ptr s - i_ptr_start s"
      "len \<le> 65537"
  shows "run_ok {} (packet_sent em (payload_message (i_ptr_start s) len (orig_bytes b) s) s)
           (deliver_packet em len s)" (is "run_ok {} (packet_sent em ?msg s) _")
proof -
  have rng: "stack_ok s" "0 \<le> i_ptr_start s" "i_ptr_start s \<le> i_ptr s" "i_ptr s \<le> i_bufsz s"
      "i_bufsz s \<le> orig_size b"
    using inv b by (simp_all add: buf_inv_def)
  let ?st = "i_ptr_start s"
  have off: "0 \<le> ?st" "?st + len \<le> orig_size b" and sz: "0 \<le> i_bufsz s" using rng len by linarith+
  have plain: "plain_type (packet_type_of (d_htype s))" using counted_plain [OF pt] ..
  have whole: "run_ok {} (packet_sent em ?msg s)
      (andthen (loop_reply_binary_data em ?st len s) (\<lambda>code s. Inr (code, loop_clear_input s)))"
    unfolding run_ok_andthen
  proof (rule run_ok_weaken [OF run_ok_conj [OF reply_sent(2) [OF good act b pt off(1) len(2) off(2)]
          loop_reply_binary_data_ok [OF b plain off(1) len(2) off(2), of em]]], simp)
    fix r s'
    assume a: "sent_one em ?msg s r s' \<and> besides_reply s' = besides_reply s"
    then have "settings s' = settings s" using settings_frame(1) by blast
    moreover have "i_bufsz (loop_clear_input s') = 0" "calls (loop_clear_input s') =
        calls (free_buffer (i_buf s') s')" "d_active (loop_clear_input s') = d_active s'"
      by (simp_all add: loop_clear_input_def)
    ultimately show "run_ok {} (packet_sent em ?msg s) (Inr (r, loop_clear_input s'))"
      using a good sz by (simp add: packet_sent_def sent_one_def loop_clear_input_ok)
  qed
  have copied: "run_ok {} (packet_sent em ?msg s)
      (andthen (loop_reply_data em ?st len s) (\<lambda>code s.
         let s = s\<lparr>i_ptr_start := i_ptr_start s + len\<rparr>
         in Inr (code, if i_ptr_start s = i_ptr s then loop_clear_input s
                       else s\<lparr>i_remain := 0\<rparr>)))"
    unfolding run_ok_andthen
  proof (rule run_ok_weaken [OF run_ok_conj [OF reply_sent(1) [OF good act b pt off(1) len(2) off(2)]
          loop_reply_data_ok [OF b plain off(1) len(2) off(2), of em]]], simp)
    fix r s'
    assume a: "sent_one em ?msg s r s' \<and> same_packet s s'"
    then have eq: "besides_reply s' = besides_reply s" "i_buf s' = i_buf s"
      by (simp_all add: same_packet_def)
    note eqs = besides_replyD [OF eq(1)] eq(2) settings_frame(1) [OF eq(1)]
    have "bytes_at (?st + len) (i_ptr s - (?st + len)) (orig_bytes b) \<noteq> []" if "?st + len \<noteq> i_ptr s"
    proof -
      have "0 < nat (i_ptr s - (?st + len))" using that len by linarith
      then have "length (bytes_at (?st + len) (i_ptr s - (?st + len)) (orig_bytes b)) \<noteq> 0"
        using rng len by simp
      then show ?thesis by simp
    qed
    then show "run_ok {} (packet_sent em ?msg s)
        (let s = s'\<lparr>i_ptr_start := i_ptr_start s' + len\<rparr>
         in Inr (r, if i_ptr_start s = i_ptr s then loop_clear_input s else s\<lparr>i_remain := 0\<rparr>))"
      using a eqs good b sz
      by (simp add: packet_sent_def sent_one_def loop_clear_input_ok Let_def buffered_def)
        (simp add: loop_clear_input_def)
  qed
  show ?thesis
  proof (cases "?st + len = i_ptr s")
    case True
    then show ?thesis using whole copied len by (simp add: deliver_packet_def b)
  next
    case False
    from rng(1) sz show ?thesis
    proof (cases rule: alloc_buffer_cases [where em = em])
      case null
      then show ?thesis using good by (simp add: good_def)
    next
      case (ok bin h stk)
      let ?s1 = "s\<lparr>calls := h, buffer_stack := stk\<rparr>"
      let ?trail = "bytes_at (?st + len) (i_ptr s - (?st + len)) (orig_bytes b)"
      have trail: "int (length ?trail) = i_ptr s - (?st + len)" using rng len by simp
      have "told em [] (calls s) h" using alloc_buffer_told [OF good ok(1)] by simp
      then have more: "told em [?msg] (calls s) h'" if "told em [?msg] h h'" for h'
        using told_trans that by fastforce
      have "run_ok {} (\<lambda>r s'. sent_one em ?msg ?s1 r s' \<and> besides_reply s' = besides_reply ?s1)
          (loop_reply_binary_data em ?st len ?s1)"
        using run_ok_conj [OF reply_sent(2) [of em ?s1 b ?st len]
            loop_reply_binary_data_ok [of ?s1 b ?st len em]] good act b pt off len plain
        by (simp add: active_def)
      then have "run_ok {} (\<lambda>r s'. packet_sent em ?msg s r ((free_buffer (i_buf s') s')\<lparr>
            i_buf := Some (bin\<lparr>orig_bytes := put_at 0 ?trail (orig_bytes bin)\<rparr>), i_ptr_start := 0,
            i_ptr := i_ptr s - (?st + len), i_remain := 0\<rparr>)) (loop_reply_binary_data em ?st len ?s1)"
      proof (rule run_ok_mono)
        fix r s'
        assume a: "sent_one em ?msg ?s1 r s' \<and> besides_reply s' = besides_reply ?s1"
        then have eq: "besides_reply s' = besides_reply ?s1" by simp
        have "?trail \<noteq> []" using trail False len by auto
        then have "bytes_at 0 (i_ptr s - (?st + len)) (put_at 0 ?trail (orig_bytes bin)) \<noteq> []"
          using trail len False by (simp add: bytes_at_def)
        then show "packet_sent em ?msg s r ((free_buffer (i_buf s') s')\<lparr>
            i_buf := Some (bin\<lparr>orig_bytes := put_at 0 ?trail (orig_bytes bin)\<rparr>), i_ptr_start := 0,
            i_ptr := i_ptr s - (?st + len), i_remain := 0\<rparr>)"
          using a besides_replyD [OF eq] settings_frame(1) [OF eq] good more
          by (simp add: packet_sent_def sent_one_def buffered_def)
      qed
      then show ?thesis
        using False whole copied ok rng len trail
        by (simp add: deliver_packet_def b Let_def)
    qed
  qed
qed

section \<open>Delivering packets with a length\<close>

text \<open>What \<^verbatim>\<open>loop_remain\<close> answers, in terms of the buffered bytes.\<close>

definition counted_answer :: "drv \<Rightarrow> int \<Rightarrow> int \<Rightarrow> int \<Rightarrow> bool" where
  "counted_answer s bufsz' code len \<longleftrightarrow>
     (let pt = packet_type_of (d_htype s); bs = buffered s; n = int (length bs);
          total = hdr_len pt + hdr_value pt bs in
      if n < hdr_len pt then
        bufsz' = i_bufsz s \<and> len = 0 \<and>
        code = (if i_ptr s < i_bufsz s then i_bufsz s - i_ptr s
                else if i_ptr_start s = 0 then - 1 else i_ptr_start s)
      else if total \<le> n then bufsz' = i_bufsz s \<and> code = 0 \<and> len = total
      else code = total - n \<and> len = total - n \<and> i_ptr_start s + total \<le> bufsz' \<and>
           bufsz' \<le> max (i_bufsz s) (i_ptr_start s + total))"

lemma loop_expand_buffer_told:
  assumes "good em" "buf_inv s" "i_buf s = Some b" "i_ptr_start s + len \<le> 2147483647" "0 \<le> len"
  shows "run_ok {} (\<lambda>r s'. r = 0 \<and> told em [] (calls s) (calls s') \<and>
           i_ptr_start s + len \<le> i_bufsz s' \<and> i_bufsz s' \<le> max (i_bufsz s) (i_ptr_start s + len))
         (loop_expand_buffer em len s)"
  using assms
  by (auto simp: loop_expand_buffer_def Let_def driver_realloc_binary_def good_def buf_inv_def
      told_simps [unfolded good_def])

lemma loop_remain_counted:
  assumes good: "good em" and inv: "buf_inv s" and b: "i_buf s = Some b"
    and pt: "counted (packet_type_of (d_htype s))" and small: "i_bufsz s \<le> 2 ^ 30"
  shows "run_ok {} (\<lambda>(code, len) s'. told em [] (calls s) (calls s') \<and>
            counted_answer s (i_bufsz s') code len \<and> remain_ok s (code, len) s')
         (loop_remain em s)"
proof -
  let ?pt = "packet_type_of (d_htype s)" and ?m = "drop (nat (i_ptr_start s)) (orig_bytes b)"
  let ?n = "i_ptr s - i_ptr_start s"
  have rng: "0 \<le> i_ptr_start s" "i_ptr_start s \<le> i_ptr s" "i_ptr s \<le> i_bufsz s"
      "i_bufsz s \<le> orig_size b"
    using inv b by (simp_all add: buf_inv_def)
  have buf: "buffered s = take (nat ?n) ?m" "int (length (buffered s)) = ?n"
    using length_buffered [OF inv] by (simp_all add: buffered_def b bytes_at_def)
  have hv: "hdr_value ?pt (buffered s) = hdr_value ?pt ?m" if "hdr_len ?pt \<le> ?n"
  proof -
    have "hdr_len ?pt \<le> int (nat ?n)" using that by linarith
    then show ?thesis unfolding buf(1) by (rule hdr_value_take [OF pt])
  qed
  have lab: "packet_label ?pt st full (nat ?n) ?m =
      Inr (if ?n < hdr_len ?pt then L_more else L_remain (hdr_value ?pt ?m) (hdr_len ?pt))" for st full
  proof -
    have n: "nat ?n < 1 \<longleftrightarrow> ?n < 1" "nat ?n < 2 \<longleftrightarrow> ?n < 2" by linarith+
    consider "?pt = TCP_PB_1" | "?pt = TCP_PB_2" using pt unfolding counted_def by blast
    then show ?thesis
      by cases (simp_all add: packet_label_def hdr_len_def hdr_value_def n)
  qed
  have not_http: "?pt \<noteq> TCP_PB_HTTPH" using pt by (auto simp: counted_def)
  note bnd = hdr_value_bounds [of ?pt ?m] counted_hdr_len [OF pt]
  let ?Q = "\<lambda>(code, len) s'. told em [] (calls s) (calls s') \<and> counted_answer s (i_bufsz s') code len"
  have "run_ok {} ?Q (loop_remain em s)"
  proof (cases "?n < hdr_len ?pt")
    case True
    then show ?thesis
      using rng not_http buf(2)
      by (auto simp: loop_remain_def b Let_def lab counted_answer_def)
  next
    case False
    let ?t = "hdr_value ?pt ?m + hdr_len ?pt"
    have "run_ok {} (\<lambda>r s'. if r < 0 then False else ?Q (?t - ?n, ?t - ?n) s')
        (loop_expand_buffer em ?t s)" if "\<not> ?t \<le> ?n"
      by (rule run_ok_mono [OF loop_expand_buffer_told [OF good inv b]])
        (use False that rng small bnd buf(2) hv in \<open>auto simp: counted_answer_def Let_def add.commute\<close>)
    then show ?thesis
      using False rng not_http buf(2) hv bnd small
      by (auto simp: loop_remain_def b Let_def lab counted_answer_def add.commute elim!: run_ok_mono)
  qed
  from run_ok_conj [OF this loop_remain_ok [OF inv b, of em]] counted_plain [OF pt]
  show ?thesis by (auto elim!: run_ok_mono)
qed

text \<open>
  \<open>moved\<close>: some packets at the front of the buffered bytes became messages, in order, and nothing
  else happened to the bytes.  \<open>framed\<close> is the state between two calls: either the header of the
  next packet is not complete yet, or \<^verbatim>\<open>i_remain\<close> is what is missing of the packet.
\<close>

definition moved :: "emulator \<Rightarrow> drv \<Rightarrow> drv \<Rightarrow> bool" where
  "moved em s s' \<longleftrightarrow> settings s' = settings s \<and> d_active s' = d_active s \<and>
     (\<exists>ps. (\<forall>p \<in> set ps. fits (packet_type_of (d_htype s)) p) \<and>
        told em (map (tcp_message (d_mode s) (d_hsz s)) ps) (calls s) (calls s') \<and>
        concat (map (encode (packet_type_of (d_htype s))) ps) @ buffered s' = buffered s)"

definition framed :: "int \<Rightarrow> drv \<Rightarrow> bool" where
  "framed bound s \<longleftrightarrow>
     (let hl = hdr_len (packet_type_of (d_htype s)); bs = buffered s; n = int (length bs) in
      buf_inv s \<and> i_ptr_start s = 0 \<and> (i_buf s \<noteq> None \<longrightarrow> hl \<le> i_bufsz s) \<and>
      (if i_remain s > 0
       then hl \<le> n \<and> n + i_remain s = hl + hdr_value (packet_type_of (d_htype s)) bs \<and>
            i_bufsz s \<le> bound + 65537
       else i_bufsz s \<le> bound \<and> n < hl))"

lemma moved_refl [simp]: "moved em s s"
  by (auto simp: moved_def intro!: exI [of _ "[]"])

lemma moved_trans:
  assumes "moved em s s1" "moved em s1 s2"
  shows "moved em s s2"
proof -
  note eqs = settingsD [of s1 s]
  obtain ps where ps: "\<forall>p \<in> set ps. fits (packet_type_of (d_htype s)) p"
      "told em (map (tcp_message (d_mode s) (d_hsz s)) ps) (calls s) (calls s1)"
      "concat (map (encode (packet_type_of (d_htype s))) ps) @ buffered s1 = buffered s"
      "settings s1 = settings s" "d_active s1 = d_active s"
    using assms(1) by (auto simp: moved_def)
  obtain qs where qs: "\<forall>p \<in> set qs. fits (packet_type_of (d_htype s)) p"
      "told em (map (tcp_message (d_mode s) (d_hsz s)) qs) (calls s1) (calls s2)"
      "concat (map (encode (packet_type_of (d_htype s))) qs) @ buffered s2 = buffered s1"
      "settings s2 = settings s1" "d_active s2 = d_active s1"
    using assms(2) eqs [OF ps(4)] by (auto simp: moved_def)
  have "told em (map (tcp_message (d_mode s) (d_hsz s)) (ps @ qs)) (calls s) (calls s2)"
    using told_trans [OF ps(2) qs(2)] by simp
  moreover have "concat (map (encode (packet_type_of (d_htype s))) (ps @ qs)) @ buffered s2 = buffered s"
    using ps(3) qs(3) by simp
  moreover have "\<forall>p \<in> set (ps @ qs). fits (packet_type_of (d_htype s)) p" using ps(1) qs(1) by auto
  ultimately show ?thesis using ps(4,5) qs(4,5) unfolding moved_def by metis
qed

definition packet_ready :: "int \<Rightarrow> int \<Rightarrow> drv \<Rightarrow> bool" where
  "packet_ready bound len s \<longleftrightarrow>
     (let pt = packet_type_of (d_htype s); bs = buffered s in
      buf_inv s \<and> i_buf s \<noteq> None \<and> active s \<and> counted pt \<and> complete pt bs \<and>
      len = hdr_len pt + hdr_value pt bs \<and> hdr_len pt \<le> i_bufsz s \<and> i_bufsz s \<le> bound)"

definition delivery_done :: "emulator \<Rightarrow> int \<Rightarrow> drv \<Rightarrow> int \<Rightarrow> drv \<Rightarrow> bool" where
  "delivery_done em bound s r s' \<longleftrightarrow> 0 \<le> r \<and> moved em s s' \<and> framed bound s' \<and>
     (buffered s' = [] \<longrightarrow> i_buf s' = None)"

lemma framed_None: "buf_inv s \<Longrightarrow> i_buf s = None \<Longrightarrow> counted (packet_type_of (d_htype s)) \<Longrightarrow>
  0 \<le> bound \<Longrightarrow> framed bound s"
  using counted_hdr_len by (fastforce simp: framed_def buf_inv_def buffered_def Let_def)

lemma restart_counted:
  assumes "buf_inv s" "i_buf s \<noteq> None" "buffered s \<noteq> []"
    and "i_ptr s + len \<le> i_bufsz s" "0 \<le> len" "i_remain s = 0"
    and "hdr_len (packet_type_of (d_htype s)) \<le> i_bufsz s"
    and "if len > 0 then hdr_len (packet_type_of (d_htype s)) \<le> int (length (buffered s)) \<and>
           int (length (buffered s)) + len = hdr_len (packet_type_of (d_htype s)) +
             hdr_value (packet_type_of (d_htype s)) (buffered s) \<and> i_bufsz s \<le> bound + 65537
         else i_bufsz s \<le> bound \<and> int (length (buffered s)) < hdr_len (packet_type_of (d_htype s))"
    and "0 \<le> r"
  shows "run_ok {} (delivery_done em bound s)
     (andthen (loop_restart_input s)
        (\<lambda>_ s. Inr (r, if len > 0 then s\<lparr>i_remain := len\<rparr> else s)))"
  unfolding run_ok_andthen
proof (rule run_ok_mono [OF loop_restart_input_ok [OF assms(1,2)]])
  fix x s1
  assume a: "buf_inv s1 \<and> buf_frame s s1 \<and> i_buf s1 \<noteq> None \<and>
    calls s1 = calls s \<and> i_ptr_start s1 = 0 \<and> i_ptr s1 = i_ptr s - i_ptr_start s \<and>
    i_bufsz s1 = i_bufsz s \<and> i_remain s1 = i_remain s \<and> buffered s1 = buffered s"
  have set: "settings s1 = settings s" "d_active s1 = d_active s" "d_htype s1 = d_htype s"
    using settings_frame(2) [of s s1] buf_frameD [of s s1] a by simp_all
  have start: "0 \<le> i_ptr_start s" using assms(1) by (auto simp: buf_inv_def split: option.splits)
  let ?s = "if len > 0 then s1\<lparr>i_remain := len\<rparr> else s1"
  have "moved em s ?s"
    using a set by (auto simp: moved_def intro!: exI [of _ "[]"])
  moreover have "framed bound ?s"
    using assms a set start by (auto simp: framed_def Let_def buf_inv_def split: option.splits)
  ultimately show "run_ok {} (delivery_done em bound s) (Inr (r, ?s))"
    using assms(3,9) a by (simp add: delivery_done_def)
qed

lemma remain_ok_moved:
  assumes "remain_ok s r s'" "told em [] (calls s) (calls s')"
  shows "moved em s s'" "settings s' = settings s" "d_active s' = d_active s"
    "buf_inv s'" "i_buf s' \<noteq> None" "i_ptr s' = i_ptr s" "i_ptr_start s' = i_ptr_start s"
    "i_remain s' = i_remain s" "buffered s' = buffered s" "d_htype s' = d_htype s"
proof -
  obtain a b where r: "r = (a, b)" by (cases r)
  have fr: "buf_frame s s'" using assms(1) by (simp add: remain_ok_def r Let_def)
  show "settings s' = settings s" by (rule settings_frame(2) [OF fr])
  show "d_active s' = d_active s" "d_htype s' = d_htype s" using buf_frameD [OF fr] by simp_all
  show "buf_inv s'" "i_buf s' \<noteq> None" "i_ptr s' = i_ptr s" "i_ptr_start s' = i_ptr_start s"
    "i_remain s' = i_remain s" "buffered s' = buffered s"
    using assms(1) by (simp_all add: remain_ok_def r Let_def)
  then show "moved em s s'"
    using \<open>settings s' = settings s\<close> \<open>d_active s' = d_active s\<close> assms(2)
    by (auto simp: moved_def intro!: exI [of _ "[]"])
qed

lemma delivery_done_trans:
  "moved em s s1 \<Longrightarrow> delivery_done em bound s1 r s2 \<Longrightarrow> delivery_done em bound s r s2"
  using moved_trans by (auto simp: delivery_done_def)

lemma deliver_next_counted:
  assumes good: "good em" and act: "active s" and inv: "buf_inv s" "i_remain s = 0"
    and pt: "counted (packet_type_of (d_htype s))"
    and some: "buffered s = [] \<longrightarrow> i_buf s = None"
      "i_buf s \<noteq> None \<longrightarrow> hdr_len (packet_type_of (d_htype s)) \<le> i_bufsz s \<and> i_bufsz s \<le> bound"
    and small: "0 \<le> bound" "bound + 65537 \<le> 2 ^ 30" and pos: "0 \<le> count" "0 \<le> code"
    and again: "\<And>len s'. packet_ready bound len s' \<Longrightarrow> buffered s' = buffered s \<Longrightarrow>
      run_ok {} (delivery_done em bound s') (again len (count + 1) s')"
  shows "run_ok {} (delivery_done em bound s) (deliver_next em again count code s)"
proof (cases "i_buf s")
  case None
  then have "delivery_done em bound s (count + 1) s"
    using framed_None [OF inv(1) None pt small(1)] pos by (simp add: delivery_done_def)
  then show ?thesis using None pos act by (simp add: deliver_next_def active_def)
next
  case (Some b)
  let ?pt = "packet_type_of (d_htype s)"
  have sz: "i_bufsz s \<le> 2 ^ 30" and hsz: "hdr_len ?pt \<le> i_bufsz s" using some(2) Some small by auto
  have "run_ok {} (\<lambda>x s1. run_ok {} (delivery_done em bound s) ((\<lambda>(n, len) s.
      if n = 0 then again len (count + 1) s
      else if n < 0 then Inr (n, s)
      else andthen (loop_restart_input s)
             (\<lambda>_ s. Inr (count + 1, if len > 0 then s\<lparr>i_remain := len\<rparr> else s))) x s1))
      (loop_remain em s)"
  proof (rule run_ok_mono [OF loop_remain_counted [OF good inv(1) Some pt sz]])
    fix x s1
    assume a: "(\<lambda>(code, len) s'. told em [] (calls s) (calls s') \<and>
      counted_answer s (i_bufsz s') code len \<and> remain_ok s (code, len) s') x s1"
    show "run_ok {} (delivery_done em bound s) ((\<lambda>(n, len) s.
      if n = 0 then again len (count + 1) s
      else if n < 0 then Inr (n, s)
      else andthen (loop_restart_input s)
             (\<lambda>_ s. Inr (count + 1, if len > 0 then s\<lparr>i_remain := len\<rparr> else s))) x s1)"
    proof -
      obtain n l where x: "x = (n, l)" by (cases x)
      have ans: "counted_answer s (i_bufsz s1) n l" and rem: "remain_ok s (n, l) s1"
          and told: "told em [] (calls s) (calls s1)" using a by (simp_all add: x)
      note s1 = remain_ok_moved [OF rem told]
      have rng: "i_ptr_start s \<le> i_ptr s" "0 \<le> i_ptr_start s" "i_ptr s \<le> i_bufsz s" "i_ptr s1 \<le> i_bufsz s1"
        using inv(1) Some s1(4,5) by (auto simp: buf_inv_def)
      have n: "int (length (buffered s)) = i_ptr s - i_ptr_start s" by (rule length_buffered [OF inv(1)])
      have ne: "buffered s1 \<noteq> []" using some(1) Some s1(9) by simp
      have "run_ok {} (delivery_done em bound s) (again l (count + 1) s1)" if "n = 0"
      proof -
        have "packet_ready bound l s1"
          using that ans s1 act pt some Some hdr_value_bounds [of ?pt "buffered s"] rng n
          by (auto simp: packet_ready_def counted_answer_def complete_def active_def settings_def Let_def
              split: if_splits)
        then show ?thesis
          using again [of l s1] s1(1,9) delivery_done_trans [OF s1(1)] by (auto elim: run_ok_mono)
      qed
      moreover have "run_ok {} (delivery_done em bound s) (andthen (loop_restart_input s1)
          (\<lambda>_ s. Inr (count + 1, if l > 0 then s\<lparr>i_remain := l\<rparr> else s)))" if "n \<noteq> 0"
      proof -
        have "run_ok {} (delivery_done em bound s1) (andthen (loop_restart_input s1)
            (\<lambda>_ s. Inr (count + 1, if l > 0 then s\<lparr>i_remain := l\<rparr> else s)))"
          by (rule restart_counted)
            (use that ans s1 ne inv some Some small pos rng n hdr_value_bounds [of ?pt "buffered s"]
              counted_hdr_len [OF pt] in \<open>auto simp: counted_answer_def Let_def split: if_splits\<close>)
        then show ?thesis using delivery_done_trans [OF s1(1)] by (auto elim: run_ok_mono)
      qed
      moreover have "0 \<le> n"
        using ans Some some rng n by (auto simp: counted_answer_def Let_def split: if_splits)
      ultimately show ?thesis by (simp add: x)
    qed
  qed
  then show ?thesis using Some pos act by (simp add: deliver_next_def active_def case_prod_unfold)
qed

lemma payload_buffered:
  assumes "buf_inv s" "i_buf s = Some b" "counted (packet_type_of (d_htype s))"
    and "complete (packet_type_of (d_htype s)) (buffered s)"
    and "len = hdr_len (packet_type_of (d_htype s)) + hdr_value (packet_type_of (d_htype s)) (buffered s)"
  shows "let p = bytes_at (i_ptr_start s + hdr_len (packet_type_of (d_htype s)))
                   (len - hdr_len (packet_type_of (d_htype s))) (orig_bytes b)
         in fits (packet_type_of (d_htype s)) p \<and>
            encode (packet_type_of (d_htype s)) p @ drop (nat len) (buffered s) = buffered s"
proof -
  let ?pt = "packet_type_of (d_htype s)" and ?n = "i_ptr s - i_ptr_start s"
  let ?h = "hdr_len ?pt" and ?v = "hdr_value ?pt (buffered s)"
  have rng: "0 \<le> i_ptr_start s" "?h + ?v \<le> ?n" "0 \<le> ?h" "0 \<le> ?v" 
    using assms(1,2,4) length_buffered [OF assms(1)] counted_hdr_len [OF assms(3)]
      hdr_value_bounds [of ?pt "buffered s"]
    by (simp_all add: buf_inv_def complete_def)
  have "drop (nat ?h) (buffered s) = bytes_at (i_ptr_start s + ?h) (?n - ?h) (orig_bytes b)"
    using drop_buffered [of "i_ptr_start s" ?h ?n "orig_bytes b"] rng
    by (simp add: buffered_def assms(2))
  moreover have "nat ?v \<le> nat (?n - ?h)" using rng by linarith
  ultimately have "take (nat ?v) (drop (nat ?h) (buffered s)) =
      bytes_at (i_ptr_start s + ?h) ?v (orig_bytes b)"
    by (simp add: bytes_at_def min_absorb1)
  moreover have "len - ?h = ?v" using assms(5) by simp
  ultimately show ?thesis
    using complete_decode [OF assms(3,4)] assms(5)
    by (simp add: Let_def) (metis append_take_drop_id)
qed

lemma deliver_loop_counted:
  assumes good: "good em" and small: "0 \<le> bound" "bound + 65537 \<le> 2 ^ 30"
  shows "packet_ready bound len s \<Longrightarrow> length (buffered s) < fuel \<Longrightarrow> 0 \<le> count \<Longrightarrow>
     run_ok {} (\<lambda>r s'. delivery_done em bound s r s' \<and>
                  length (buffered s') \<le> length (buffered s) - nat len)
       (deliver_loop em fuel len count s)"
proof (induction fuel arbitrary: len count s)
  case 0
  then show ?case by simp
next
  case (Suc fuel)
  let ?pt = "packet_type_of (d_htype s)" and ?s = "inet_input_count em len s"
  note r = Suc.prems(1) [unfolded packet_ready_def Let_def]
  obtain b where b: "i_buf s = Some b" using r by blast
  have inv: "buf_inv s" and pt: "counted ?pt" and act: "active s" using r by simp_all
  have len: "0 < len" "hdr_len ?pt \<le> len" "len \<le> i_ptr s - i_ptr_start s" "len \<le> 65537"
    using r length_buffered [OF inv] counted_hdr_len [OF pt]
      hdr_value_bounds [of ?pt "buffered s"] by (auto simp: complete_def)
  have alloc: "em_alloc em h" for h using good by (simp add: good_def)
  let ?p = "bytes_at (i_ptr_start s + hdr_len ?pt) (len - hdr_len ?pt) (orig_bytes b)"
  have p: "fits ?pt ?p" "encode ?pt ?p @ drop (nat len) (buffered s) = buffered s"
    using payload_buffered [OF inv b pt] r by (simp_all add: Let_def)
  have "run_ok {IntOverflow} (delivery_ok len ?s) (deliver_packet em len ?s)"
    by (rule deliver_packet_ok) (use inv b pt len alloc counted_plain in simp_all)
  moreover have "run_ok {} (packet_sent em (tcp_message (d_mode s) (d_hsz s) ?p) ?s)
      (deliver_packet em len ?s)"
    using deliver_packet_sent [OF good, of ?s b len] act inv b pt len by (simp add: active_def)
  ultimately have "run_ok {} (\<lambda>code s1. delivery_ok len ?s code s1 \<and>
      packet_sent em (tcp_message (d_mode s) (d_hsz s) ?p) ?s code s1) (deliver_packet em len ?s)"
    using run_ok_conj by fastforce
  then have "run_ok {} (\<lambda>code s1. run_ok {} (\<lambda>r s'. delivery_done em bound s r s' \<and>
      length (buffered s') \<le> length (buffered s) - nat len)
      (deliver_next em (deliver_loop em fuel) count code s1)) (deliver_packet em len ?s)"
  proof (rule run_ok_mono)
    fix code s1
    assume a: "delivery_ok len ?s code s1 \<and>
      packet_sent em (tcp_message (d_mode s) (d_hsz s) ?p) ?s code s1"
    then have s1: "buf_inv s1" "i_remain s1 = 0" "d_htype s1 = d_htype s"
        "buffered s1 = drop (nat len) (buffered s)" "0 \<le> code" "settings s1 = settings s"
        "d_active s1 = d_active s" "told em [tcp_message (d_mode s) (d_hsz s) ?p] (calls s) (calls s1)"
        "i_buf s1 \<noteq> None \<longrightarrow> i_bufsz s1 = i_bufsz s" "buffered s1 = [] \<longrightarrow> i_buf s1 = None"
      by (simp_all add: delivery_ok_def packet_sent_def sent_one_def)
    have "moved em s s1"
      using s1 p by (auto simp: moved_def intro!: exI [of _ "[?p]"])
    have "run_ok {} (delivery_done em bound s1) (deliver_next em (deliver_loop em fuel) count code s1)"
    proof (rule deliver_next_counted [OF good _ s1(1,2)])
      show "active s1" using act s1(6,7) by (simp add: active_def settings_def)
      fix l s2
      assume "packet_ready bound l s2" "buffered s2 = buffered s1"
      moreover have "length (buffered s) - nat len < fuel" using Suc.prems(2) len(1,3) length_buffered [OF inv] by linarith
      ultimately have "run_ok {} (\<lambda>r s'. delivery_done em bound s2 r s' \<and>
          length (buffered s') \<le> length (buffered s2) - nat l) (deliver_loop em fuel l (count + 1) s2)"
        using Suc.IH [of l s2 "count + 1"] Suc.prems(3) s1(4) by simp
      then show "run_ok {} (delivery_done em bound s2) (deliver_loop em fuel l (count + 1) s2)"
        by (rule run_ok_mono) simp
    qed (use s1 r small Suc.prems(3) pt in auto)
    then show "run_ok {} (\<lambda>r s'. delivery_done em bound s r s' \<and>
        length (buffered s') \<le> length (buffered s) - nat len)
        (deliver_next em (deliver_loop em fuel) count code s1)"
    proof (rule run_ok_mono)
      fix r s'
      assume d: "delivery_done em bound s1 r s'"
      then obtain qs where "concat (map (encode (packet_type_of (d_htype s1))) qs) @ buffered s' = buffered s1"
        by (auto simp: delivery_done_def moved_def)
      then have "length (buffered s') \<le> length (buffered s1)" by (metis length_append le_add2)
      then show "delivery_done em bound s r s' \<and> length (buffered s') \<le> length (buffered s) - nat len"
        using delivery_done_trans [OF \<open>moved em s s1\<close> d] s1(4) by simp
    qed
  qed
  then show ?case using len(1) by (simp add: deliver_loop.simps [of em "Suc fuel"])
qed

lemma loop_deliver_counted:
  assumes "good em" "0 \<le> bound" "bound + 65537 \<le> 2 ^ 30" "packet_ready bound len s"
  shows "run_ok {} (\<lambda>r s'. delivery_done em bound s r s' \<and>
           length (buffered s') \<le> length (buffered s) - nat len) (loop_deliver em len s)"
proof -
  note r = assms(4) [unfolded packet_ready_def Let_def]
  have "0 < len"
    using r counted_hdr_len [of "packet_type_of (d_htype s)"]
      hdr_value_bounds [of "packet_type_of (d_htype s)" "buffered s"] by auto
  moreover have "length (buffered s) < Suc (nat (i_ptr s))"
    using r length_buffered [of s] by (auto simp: buf_inv_def split: option.splits)
  ultimately show ?thesis
    using deliver_loop_counted [OF assms, of "Suc (nat (i_ptr s))" 0] by (simp add: loop_deliver_def Let_def)
qed

end
