(* ===== verification/Session.thy ===== *)
theory Session
  imports Framing
begin

text \<open>
  The data path as a whole, for an active port whose packets carry their length in one or two
  bytes: \<open>loop_recv_counted\<close> states that a call of \<^verbatim>\<open>loop_recv\<close> always returns and moves whole
  packets from the front of the byte stream of the port to the messages, \<open>loop_send_counted\<close> that
  a send appends its packet to that stream first.
\<close>

section \<open>From the queue to the messages\<close>

text \<open>The view of the whole port: the bytes that are buffered or queued lose packets in front.\<close>

definition stream :: "emulator \<Rightarrow> drv \<Rightarrow> byte list" where
  "stream em s = buffered s @ em_queue em (calls s)"

definition forwarded :: "emulator \<Rightarrow> drv \<Rightarrow> drv \<Rightarrow> bool" where
  "forwarded em s s' \<longleftrightarrow> settings s' = settings s \<and> d_active s' = d_active s \<and>
     (\<exists>ps. (\<forall>p \<in> set ps. fits (packet_type_of (d_htype s)) p) \<and>
        outputs (calls s') = outputs (calls s) @ map (tcp_message (d_mode s) (d_hsz s)) ps \<and>
        concat (map (encode (packet_type_of (d_htype s))) ps) @ stream em s' = stream em s)"

definition session :: "drv \<Rightarrow> bool" where
  "session s \<longleftrightarrow> active s \<and> counted (packet_type_of (d_htype s)) \<and> framed (d_bufsz s) s \<and>
     hdr_len (packet_type_of (d_htype s)) \<le> d_bufsz s \<and> d_bufsz s \<le> 2 ^ 29"

definition received :: "emulator \<Rightarrow> int \<Rightarrow> drv \<Rightarrow> int \<Rightarrow> drv \<Rightarrow> bool" where
  "received em nread s r s' \<longleftrightarrow> 0 \<le> r \<and> forwarded em s s' \<and> framed (d_bufsz s) s' \<and>
     em_queue em (calls s') = drop (nat nread) (em_queue em (calls s)) \<and>
     (em_queue em (calls s) \<noteq> [] \<and> buffered s' = [] \<longrightarrow> i_buf s' = None)"

lemma forwarded_refl [simp]: "forwarded em s s"
  by (auto simp: forwarded_def intro!: exI [of _ "[]"])

lemma moved_forwarded:
  assumes "moved em s1 s'" "settings s1 = settings s" "d_active s1 = d_active s"
    "outputs (calls s1) = outputs (calls s)" "stream em s1 = stream em s"
  shows "forwarded em s s'" "em_queue em (calls s') = em_queue em (calls s1)"
proof -
  obtain ps where ps: "\<forall>p \<in> set ps. fits (packet_type_of (d_htype s)) p"
      "told em (map (tcp_message (d_mode s) (d_hsz s)) ps) (calls s1) (calls s')"
      "concat (map (encode (packet_type_of (d_htype s))) ps) @ buffered s' = buffered s1"
      "settings s' = settings s1" "d_active s' = d_active s1"
    using assms(1) settingsD [OF assms(2)] by (auto simp: moved_def)
  show q: "em_queue em (calls s') = em_queue em (calls s1)" using ps(2) by (simp add: told_def)
  have "concat (map (encode (packet_type_of (d_htype s))) ps) @ stream em s' = stream em s"
    using ps(3) q assms(5) by (metis append.assoc stream_def)
  then show "forwarded em s s'"
    using ps assms unfolding forwarded_def by (auto simp: told_def)
qed

lemma read_state_counted:
  assumes good: "good em" and inv: "framed bound s" and b: "i_buf s = Some b"
    and room: "i_ptr s + int (length data) \<le> i_bufsz s"
    and data: "data = take (nat nread) (em_queue em (calls s))"
  shows "buffered (read_state data s) = buffered s @ data"
    "stream em (read_state data s) = stream em s"
    "em_queue em (calls (read_state data s)) = drop (nat nread) (em_queue em (calls s))"
    "outputs (calls (read_state data s)) = outputs (calls s)"
    "settings (read_state data s) = settings s" "d_active (read_state data s) = d_active s"
    "i_bufsz (read_state data s) = i_bufsz s" "i_remain (read_state data s) = i_remain s"
    "i_ptr_start (read_state data s) = i_ptr_start s" "d_bufsz (read_state data s) = d_bufsz s"
    "i_buf (read_state data s) \<noteq> None" "d_htype (read_state data s) = d_htype s"
    "i_ptr (read_state data s) = i_ptr s + int (length data)"
proof -
  have bi: "buf_inv s" using inv by (simp add: framed_def Let_def)
  show buf: "buffered (read_state data s) = buffered s @ data"
    using buffered_read [OF bi b room] b by (simp add: read_state_def buffered_def algebra_simps)
  have "drop (length data) (em_queue em (calls s)) = drop (nat nread) (em_queue em (calls s))"
    unfolding data by (simp add: min_def)
  then show q: "em_queue em (calls (read_state data s)) = drop (nat nread) (em_queue em (calls s))"
    using good_queue_frame(7) [OF good] by (simp add: read_state_def)
  show "stream em (read_state data s) = stream em s"
    using buf q data by (simp add: stream_def)
qed (use b in \<open>simp_all add: read_state_def settings_def\<close>)

lemma recv_last_counted:
  assumes good: "good em" and act: "active s" and pt: "counted (packet_type_of (d_htype s))"
    and bound: "0 \<le> d_bufsz s" "d_bufsz s \<le> 2 ^ 29"
    and inv: "framed (d_bufsz s) s" and b: "i_buf s = Some b" and rem: "0 < i_remain s"
    and data: "data = take (nat (i_remain s)) (em_queue em (calls s))"
    and last: "i_remain s - int (length data) = 0"
  shows "run_ok {} (received em (i_remain s) s)
    (loop_deliver em (i_ptr (read_state data s)) ((read_state data s)\<lparr>i_remain := 0\<rparr>))"
proof -
  let ?pt = "packet_type_of (d_htype s)" and ?t = "(read_state data s)\<lparr>i_remain := 0\<rparr>"
  have f: "hdr_len ?pt \<le> int (length (buffered s))" "i_bufsz s \<le> d_bufsz s + 65537"
      "int (length (buffered s)) + i_remain s = hdr_len ?pt + hdr_value ?pt (buffered s)"
      "buf_inv s" "i_ptr_start s = 0" "hdr_len ?pt \<le> i_bufsz s"
    using inv rem b by (simp_all add: framed_def Let_def)
  have room: "i_ptr s + int (length data) \<le> i_bufsz s" and ptr: "i_ptr s = int (length (buffered s))"
    using f(4,5) b last length_buffered [OF f(4)] by (simp_all add: buf_inv_def)
  note rs = read_state_counted [OF good inv b room data]
  have "recv_inv s" using f(4) inv pt f ptr rem hdr_value_bounds [of ?pt "buffered s"]
    by (simp add: recv_inv_def)
  from read_state_ok(3) [OF this b room rem] last have "buf_inv ?t"
    by (simp add: recv_inv_def)
  moreover have hv: "hdr_value ?pt (buffered s @ data) = hdr_value ?pt (buffered s)"
    by (rule hdr_value_append [OF pt f(1)])
  ultimately have "packet_ready (d_bufsz s + 65537) (i_ptr (read_state data s)) ?t"
    using rs f act pt ptr last
    by (simp add: packet_ready_def Let_def active_def complete_def settings_def)
  moreover have "0 \<le> d_bufsz s + 65537" "d_bufsz s + 65537 + 65537 \<le> 2 ^ 30" using bound by simp_all
  ultimately have "run_ok {} (\<lambda>r s'. delivery_done em (d_bufsz s + 65537) ?t r s' \<and>
      length (buffered s') \<le> length (buffered ?t) - nat (i_ptr (read_state data s)))
      (loop_deliver em (i_ptr (read_state data s)) ?t)"
    using loop_deliver_counted [OF good] by blast
  then show ?thesis
  proof (rule run_ok_mono)
    fix r s'
    assume a: "delivery_done em (d_bufsz s + 65537) ?t r s' \<and>
      length (buffered s') \<le> length (buffered ?t) - nat (i_ptr (read_state data s))"
    then have "i_buf s' = None" "buf_inv s'" and mv: "moved em ?t s'" and "0 \<le> r"
      using rs(1,13) ptr by (auto simp: delivery_done_def framed_def Let_def)
    moreover have "d_htype s' = d_htype s"
      using mv rs(12) settingsD(1) [of s' ?t] by (simp add: moved_def)
    moreover have "stream em ?t = stream em s" using rs(2) by (simp add: stream_def)
    moreover note moved_forwarded [OF mv, of s]
    ultimately show "received em (i_remain s) s r s'"
      using rs pt bound framed_None by (simp add: received_def)
  qed
qed

text \<open>After bytes have come in and nothing was known to be missing.\<close>

lemma recv_poll_counted:
  assumes good: "good em" and act: "active s" and pt: "counted (packet_type_of (d_htype s))"
    and bound: "0 \<le> d_bufsz s" "d_bufsz s \<le> 2 ^ 29"
    and inv: "framed (d_bufsz s) s" and b: "i_buf s = Some b" and rem: "i_remain s = 0"
    and room: "i_ptr s + int (length data) \<le> i_bufsz s" and nread: "0 < nread"
    and data: "data = take (nat nread) (em_queue em (calls s))"
  shows "run_ok {} (received em nread s)
    (andthen (loop_remain em (read_state data s)) (\<lambda>(nread, len) s.
       if nread < 0 then Inr (loop_recv_error em EMSGSIZE s)
       else if nread = 0 then loop_deliver em len s
       else Inr (0, if len > 0 then s\<lparr>i_remain := len\<rparr> else s)))"
  unfolding run_ok_andthen
proof -
  let ?pt = "packet_type_of (d_htype s)" and ?s = "read_state data s"
  have f: "int (length (buffered s)) < hdr_len ?pt" "i_bufsz s \<le> d_bufsz s" "buf_inv s"
      "i_ptr_start s = 0" "hdr_len ?pt \<le> i_bufsz s"
    using inv rem b by (simp_all add: framed_def Let_def)
  note rs = read_state_counted [OF good inv b room data]
  have "recv_inv s" using f(3) rem by (simp add: recv_inv_def)
  from read_state_ok(2) [OF this b room rem] have inv1: "buf_inv ?s" by (simp add: recv_inv_def)
  obtain b1 where b1: "i_buf ?s = Some b1" using rs(11) by blast
  have small: "i_bufsz ?s \<le> 2 ^ 30" using rs(7) f(2) bound by simp
  have pt1: "counted (packet_type_of (d_htype ?s))" using pt rs(12) by simp
  show "run_ok {} (\<lambda>x s'. run_ok {} (received em nread s) ((\<lambda>(nread, len) s.
       if nread < 0 then Inr (loop_recv_error em EMSGSIZE s)
       else if nread = 0 then loop_deliver em len s
       else Inr (0, if len > 0 then s\<lparr>i_remain := len\<rparr> else s)) x s')) (loop_remain em ?s)"
  proof (rule run_ok_mono [OF loop_remain_counted [OF good inv1 b1 pt1 small]])
    fix x s1
    assume a: "(\<lambda>(code, len) s'. told em [] (calls ?s) (calls s') \<and>
      counted_answer ?s (i_bufsz s') code len \<and> remain_ok ?s (code, len) s') x s1"
    obtain n l where x: "x = (n, l)" by (cases x)
    have ans: "counted_answer ?s (i_bufsz s1) n l" and rem1: "remain_ok ?s (n, l) s1"
        and told: "told em [] (calls ?s) (calls s1)" using a by (simp_all add: x)
    note s1 = remain_ok_moved [OF rem1 told]
    have len: "int (length (buffered ?s)) = i_ptr ?s" 
      using length_buffered [OF inv1] rs(9) f(4) by simp
    have le: "i_ptr ?s \<le> i_bufsz s" using rs(13) room by simp
    note fwd = moved_forwarded [OF _ rs(5,6,4,2)]
    have set: "settings s1 = settings s" "d_htype s1 = d_htype s" "d_active s1 = d_active s"
      using s1 rs by simp_all
    have "run_ok {} (received em nread s) (loop_deliver em l s1)" if "n = 0"
    proof -
      have "packet_ready (d_bufsz s) l s1"
        using that ans s1 act pt set rs(7) f(2,5) hdr_value_bounds [of ?pt "buffered ?s"] len le rs(12)
        by (auto simp: packet_ready_def counted_answer_def complete_def active_def settings_def Let_def
            split: if_splits)
      moreover have "d_bufsz s + 65537 \<le> 2 ^ 30" using bound by simp
      ultimately show ?thesis
        using loop_deliver_counted [OF good bound(1), of l s1] fwd rs(3) moved_trans [OF s1(1)]
        by (auto simp: received_def delivery_done_def elim!: run_ok_mono)
    qed
    moreover have "received em nread s 0 (if l > 0 then s1\<lparr>i_remain := l\<rparr> else s1)" if "n \<noteq> 0"
    proof -
      let ?t = "if l > 0 then s1\<lparr>i_remain := l\<rparr> else s1"
      have "moved em ?s ?t"
        using s1(1) by (simp add: moved_def settings_def)
      moreover have "em_queue em (calls s) \<noteq> [] \<longrightarrow> buffered s1 \<noteq> []"
        using s1(9) rs(1) data nread by simp
      moreover have "framed (d_bufsz s) ?t"
        using that ans s1 f rs(7,8,9,12) rem len le hdr_value_bounds [of ?pt "buffered ?s"]
          counted_hdr_len [OF pt]
        by (auto simp: framed_def counted_answer_def Let_def buf_inv_def split: if_splits option.splits)
      ultimately show ?thesis using fwd rs(3) by (auto simp: received_def)
    qed
    moreover have "0 \<le> n"
      using ans f rs(7,9,12) len le by (auto simp: counted_answer_def Let_def split: if_splits)
    ultimately show "run_ok {} (received em nread s) ((\<lambda>(nread, len) s.
       if nread < 0 then Inr (loop_recv_error em EMSGSIZE s)
       else if nread = 0 then loop_deliver em len s
       else Inr (0, if len > 0 then s\<lparr>i_remain := len\<rparr> else s)) x s1)"
      by (simp add: x)
  qed
qed

lemma recv_into_counted:
  assumes good: "good em" and act: "active s" and pt: "counted (packet_type_of (d_htype s))"
    and bound: "0 \<le> d_bufsz s" "d_bufsz s \<le> 2 ^ 29"
    and inv: "framed (d_bufsz s) s" and b: "i_buf s = Some b"
    and nread: "0 < nread" "i_ptr s + nread \<le> i_bufsz s" "0 < i_remain s \<longrightarrow> nread = i_remain s"
  shows "run_ok {} (received em nread s) (recv_into em nread s)"
proof (cases "em_queue em (calls s) = []")
  case True
  then show ?thesis using inv by (simp add: recv_into_def received_def)
next
  case False
  let ?data = "take (nat nread) (em_queue em (calls s))"
  let ?n = "int (length ?data)" and ?s = "read_state ?data s"
  have n: "?n \<le> nread" "0 < ?n" using nread(1) False by simp_all
  have room: "i_ptr s + ?n \<le> i_bufsz s" using nread(2) n by linarith
  have bi: "buf_inv s" and start: "i_ptr_start s = 0" using inv by (simp_all add: framed_def Let_def)
  note rs = read_state_counted [OF good inv b room refl]
  have blk: "0 \<le> i_ptr s" "i_ptr s + ?n \<le> orig_size b" "0 \<le> i_remain s"
    using bi b start room by (simp_all add: buf_inv_def)
  have into: "recv_into em nread s =
     (if i_remain s > 0 then
        (if i_remain s - ?n = 0 then loop_deliver em (i_ptr ?s) (?s\<lparr>i_remain := i_remain s - ?n\<rparr>)
         else Inr (0, ?s\<lparr>i_remain := i_remain s - ?n\<rparr>))
      else andthen (loop_remain em ?s) (\<lambda>(nread, len) s.
         if nread < 0 then Inr (loop_recv_error em EMSGSIZE s)
         else if nread = 0 then loop_deliver em len s
         else Inr (0, if len > 0 then s\<lparr>i_remain := len\<rparr> else s)))"
    using False b nread(1) blk start
    by (simp add: recv_into_def Let_def read_state_def writing_def)
  show ?thesis
  proof (cases "0 < i_remain s")
    case True
    then have nr: "nread = i_remain s" using nread(3) by simp
    show ?thesis
    proof (cases "i_remain s - ?n = 0")
      case True
      from recv_last_counted [OF good act pt bound inv b \<open>0 < i_remain s\<close>, of ?data] nr True
      show ?thesis unfolding into using \<open>0 < i_remain s\<close> by simp
    next
      case False
      let ?t = "?s\<lparr>i_remain := i_remain s - ?n\<rparr>"
      have "recv_inv s" using bi inv True hdr_value_bounds [of "packet_type_of (d_htype s)" "buffered s"]
          length_buffered [OF bi] by (simp add: recv_inv_def framed_def Let_def)
      from read_state_ok(3) [OF this b room True] n nr have "buf_inv ?t" by (simp add: recv_inv_def)
      moreover have "hdr_value (packet_type_of (d_htype s)) (buffered s @ ?data) =
          hdr_value (packet_type_of (d_htype s)) (buffered s)"
        by (rule hdr_value_append [OF pt]) (use inv True in \<open>simp add: framed_def Let_def\<close>)
      ultimately have "framed (d_bufsz s) ?t"
        using inv True False n nr rs b by (simp add: framed_def Let_def)
      moreover have "forwarded em s ?t"
        using rs by (auto simp: forwarded_def stream_def settings_def intro!: exI [of _ "[]"])
      moreover have "buffered ?t \<noteq> []" using rs(1) n False \<open>em_queue em (calls s) \<noteq> []\<close> nread(1) by simp
      ultimately have "received em nread s 0 ?t" using rs(3) by (simp add: received_def)
      then show ?thesis unfolding into using True False by simp
    qed
  next
    case False
    then have "i_remain s = 0" using blk(3) by linarith
    from recv_poll_counted [OF good act pt bound inv b this room nread(1) refl] show ?thesis
      unfolding into using False by simp
  qed
qed

text \<open>
  \<^verbatim>\<open>loop_recv\<close> in a session: it always returns a count, and what it takes from the bytes it turns
  into messages.  An empty port takes as much of the queue as its buffer holds.
\<close>

lemma loop_recv_counted:
  assumes good: "good em" and ses: "session s"
  shows "run_ok {} (\<lambda>r s'. 0 \<le> r \<and> forwarded em s s' \<and> session s' \<and>
           (i_buf s = None \<longrightarrow> em_queue em (calls s') = drop (nat (d_bufsz s)) (em_queue em (calls s))) \<and>
           (em_queue em (calls s) \<noteq> [] \<and> buffered s' = [] \<longrightarrow> i_buf s' = None))
         (loop_recv em 0 s)" (is "run_ok {} ?Q _")
proof -
  let ?pt = "packet_type_of (d_htype s)"
  have act: "active s" and pt: "counted ?pt" and inv: "framed (d_bufsz s) s"
      and sz: "hdr_len ?pt \<le> d_bufsz s" "d_bufsz s \<le> 2 ^ 29"
    using ses by (simp_all add: session_def)
  have bi: "buf_inv s" and start: "i_ptr_start s = 0" using inv by (simp_all add: framed_def Let_def)
  have bound: "0 < d_bufsz s" using sz(1) counted_hdr_len [OF pt] by linarith
  have fin: "?Q r s'" if "received em nread s1 r s'" "settings s1 = settings s" "d_active s1 = d_active s"
    "outputs (calls s1) = outputs (calls s)" "stream em s1 = stream em s"
    "i_buf s = None \<longrightarrow> nread = d_bufsz s" "em_queue em (calls s1) = em_queue em (calls s)" for r s' s1 nread
  proof -
    have "forwarded em s s'"
      using that settingsD [OF that(2)] by (auto simp: received_def forwarded_def)
    moreover have "session s'"
      using that settingsD [of s' s] settingsD [OF that(2)] ses
      by (auto simp: received_def session_def forwarded_def active_def)
    ultimately show ?thesis using that by (auto simp: received_def)
  qed
  show ?thesis
  proof (cases "i_buf s")
    case None
    have "stack_ok s" "0 \<le> d_bufsz s" using bi bound by (simp_all add: buf_inv_def)
    then show ?thesis
    proof (cases rule: alloc_buffer_cases [where em = em])
      case null
      then show ?thesis using good by (simp add: good_def)
    next
      case (ok bin h stk)
      let ?s1 = "s\<lparr>calls := h, buffer_stack := stk, i_buf := Some bin, i_bufsz := d_bufsz s,
                  i_ptr_start := 0, i_ptr := 0, i_remain := 0\<rparr>"
      have "told em [] (calls s) h" using alloc_buffer_told [OF good ok(1)] by simp
      then have h: "outputs h = outputs (calls s)" "em_queue em h = em_queue em (calls s)"
        by (simp_all add: told_def)
      have "framed (d_bufsz s) ?s1"
        using ok sz bound counted_hdr_len [OF pt]
        by (simp add: framed_def Let_def buf_inv_def stack_ok_def buffered_def)
      then have "run_ok {} (received em (d_bufsz ?s1) ?s1) (recv_into em (d_bufsz ?s1) ?s1)"
        by (intro recv_into_counted [OF good]) (use act pt bound sz in \<open>auto simp: active_def\<close>)
      then have "run_ok {} ?Q (recv_into em (d_bufsz ?s1) ?s1)"
        by (rule run_ok_mono) (erule fin, use h None in \<open>simp_all add: stream_def buffered_def settings_def\<close>)
      then show ?thesis using None ok(1) by (simp add: loop_recv_def Let_def)
    qed
  next
    case (Some b)
    have rem: "0 \<le> i_remain s" "i_ptr s + i_remain s \<le> i_bufsz s"
      using bi Some by (simp_all add: buf_inv_def)
    show ?thesis
    proof (cases "i_remain s = 0")
      case False
      have "run_ok {} (received em (i_remain s) s) (recv_into em (i_remain s) s)"
        by (rule recv_into_counted [OF good act pt _ sz(2) inv Some]) (use False rem bound in auto)
      then have "run_ok {} ?Q (recv_into em (i_remain s) s)"
        by (rule run_ok_mono) (erule fin, use Some in simp_all)
      then show ?thesis using Some False by (simp add: loop_recv_def)
    next
      case True
      have f: "int (length (buffered s)) < hdr_len ?pt" "i_bufsz s \<le> d_bufsz s" "hdr_len ?pt \<le> i_bufsz s"
        using inv True Some by (simp_all add: framed_def Let_def)
      have len: "int (length (buffered s)) = i_ptr s" using length_buffered [OF bi] start by simp
      have small: "i_bufsz s \<le> 2 ^ 30" using f(2) sz(2) by simp
      have "run_ok {} (\<lambda>x s'. run_ok {} ?Q ((\<lambda>(nread, len) s.
          if nread < 0 then Inr (loop_recv_error em EMSGSIZE s)
          else if nread = 0 then loop_deliver em len s
          else recv_into em nread (if len > 0 then s\<lparr>i_remain := len\<rparr> else s)) x s')) (loop_remain em s)"
      proof (rule run_ok_mono [OF loop_remain_counted [OF good bi Some pt small]])
        fix x s1
        assume a: "(\<lambda>(code, len) s'. told em [] (calls s) (calls s') \<and>
          counted_answer s (i_bufsz s') code len \<and> remain_ok s (code, len) s') x s1"
        obtain n l where x: "x = (n, l)" by (cases x)
        have ans: "counted_answer s (i_bufsz s1) n l" and rem1: "remain_ok s (n, l) s1"
            and told: "told em [] (calls s) (calls s1)" using a by (simp_all add: x)
        note s1 = remain_ok_moved [OF rem1 told]
        have nl: "n = i_bufsz s - i_ptr s" "l = 0" "0 < n" "i_bufsz s1 = i_bufsz s"
          using ans f len by (auto simp: counted_answer_def Let_def)
        obtain b1 where b1: "i_buf s1 = Some b1" using s1(5) by blast
        have "framed (d_bufsz s1) s1"
          using inv s1 nl(4) Some settingsD(5) [OF s1(2)] by (simp add: framed_def Let_def)
        moreover have "active s1" "counted (packet_type_of (d_htype s1))" "d_bufsz s1 = d_bufsz s"
          using act pt s1(3,10) settingsD [OF s1(2)] by (simp_all add: active_def)
        ultimately have "run_ok {} (received em n s1) (recv_into em n s1)"
          using nl s1 bound sz True by (intro recv_into_counted [OF good _ _ _ _ _ b1]) auto
        then have "run_ok {} ?Q (recv_into em n s1)"
          by (rule run_ok_mono)
            (erule fin, use s1 told Some in \<open>simp_all add: told_def stream_def\<close>)
        then show "run_ok {} ?Q ((\<lambda>(nread, len) s.
          if nread < 0 then Inr (loop_recv_error em EMSGSIZE s)
          else if nread = 0 then loop_deliver em len s
          else recv_into em nread (if len > 0 then s\<lparr>i_remain := len\<rparr> else s)) x s1)"
          using nl by (simp add: x)
      qed
      then show ?thesis using Some True by (simp add: loop_recv_def)
    qed
  qed
qed

section \<open>Sending\<close>

lemma framed_cong:
  assumes "i_buf s' = i_buf s" "i_ptr s' = i_ptr s" "i_ptr_start s' = i_ptr_start s"
    "i_bufsz s' = i_bufsz s" "i_remain s' = i_remain s" "buffer_stack s' = buffer_stack s"
    "d_htype s' = d_htype s"
  shows "framed bound s' = framed bound s" "buffered s' = buffered s" "buf_inv s' = buf_inv s"
proof -
  show buf: "buffered s' = buffered s" using assms by (simp add: buffered_def split: option.split)
  show inv: "buf_inv s' = buf_inv s"
    using assms by (simp add: buf_inv_def stack_ok_def split: option.split)
  show "framed bound s' = framed bound s"
    using assms buf inv by (simp add: framed_def)
qed

lemma inet_output_count_simps [simp]:
  "calls (inet_output_count em len s) = calls s"
  "buffer_stack (inet_output_count em len s) = buffer_stack s"
  "i_buf (inet_output_count em len s) = i_buf s" "i_ptr (inet_output_count em len s) = i_ptr s"
  "i_ptr_start (inet_output_count em len s) = i_ptr_start s"
  "i_bufsz (inet_output_count em len s) = i_bufsz s"
  "i_remain (inet_output_count em len s) = i_remain s"
  "d_htype (inet_output_count em len s) = d_htype s"
  "d_active (inet_output_count em len s) = d_active s"
  "d_deliver (inet_output_count em len s) = d_deliver s"
  "d_bufsz (inet_output_count em len s) = d_bufsz s"
  "d_caller (inet_output_count em len s) = d_caller s"
  "settings (inet_output_count em len s) = settings s"
  by (simp_all add: inet_output_count_def Let_def settings_def)

text \<open>
  The state in which a send starts to read: the packet is at the end of the queue.
\<close>

definition after_send :: "emulator \<Rightarrow> byte list \<Rightarrow> drv \<Rightarrow> drv \<Rightarrow> bool" where
  "after_send em p s s' \<longleftrightarrow> settings s' = settings s \<and> d_active s' = d_active s \<and>
     (\<exists>ps. (\<forall>q \<in> set ps. fits (packet_type_of (d_htype s)) q) \<and>
        outputs (calls s') = outputs (calls s) @ map (tcp_message (d_mode s) (d_hsz s)) ps \<and>
        concat (map (encode (packet_type_of (d_htype s))) ps) @ stream em s' =
          stream em s @ encode (packet_type_of (d_htype s)) p) \<and>
     session s' \<and> (buffered s' = [] \<longrightarrow> i_buf s' = None) \<and>
     (i_buf s = None \<and> stream em s = [] \<and>
        int (length (encode (packet_type_of (d_htype s)) p)) \<le> d_bufsz s \<longrightarrow>
        em_queue em (calls s') = [])"

lemma session_send:
  assumes good: "good em" and ses: "session s"
    and q: "s1 = (inet_output_count em n s)\<lparr>calls := h\<rparr>" "outputs h = outputs (calls s)"
      "em_queue em h = em_queue em (calls s) @ encode (packet_type_of (d_htype s)) p"
  shows "run_ok {} (\<lambda>r s'. after_send em p s s') (loop_recv em 0 s1)"
proof -
  have s1: "settings s1 = settings s" "d_active s1 = d_active s" "calls s1 = h" "i_buf s1 = i_buf s"
      "framed (d_bufsz s) s1 = framed (d_bufsz s) s" "buffered s1 = buffered s"
    using q(1) framed_cong [of s1 s] by simp_all
  have "session s1"
    using ses s1 settingsD [OF s1(1)] by (simp add: session_def active_def)
  then show ?thesis
  proof (rule run_ok_mono [OF loop_recv_counted [OF good]])
    fix r s'
    assume a: "0 \<le> r \<and> forwarded em s1 s' \<and> session s' \<and> (i_buf s1 = None \<longrightarrow>
      em_queue em (calls s') = drop (nat (d_bufsz s1)) (em_queue em (calls s1))) \<and>
      (em_queue em (calls s1) \<noteq> [] \<and> buffered s' = [] \<longrightarrow> i_buf s' = None)"
    have "encode (packet_type_of (d_htype s)) p \<noteq> []"
      using length_encode [of "packet_type_of (d_htype s)" p] counted_hdr_len ses
      by (fastforce simp: session_def)
    moreover have "stream em s1 = stream em s @ encode (packet_type_of (d_htype s)) p"
      using s1 q by (simp add: stream_def)
    ultimately show "after_send em p s s'"
      using a s1 q settingsD [OF s1(1)]
      by (auto simp: after_send_def forwarded_def stream_def)
  qed
qed

lemma loop_send_counted:
  assumes good: "good em" and ses: "session s" and p: "fits (packet_type_of (d_htype s)) p"
  shows "run_ok {} (\<lambda>r s'. r = 0 \<and> after_send em p s s') (loop_send em p s)"
    and "run_ok {} (\<lambda>r s'. r = 0 \<and> after_send em p s s') (loop_sendv em p s)"
proof -
  let ?pt = "packet_type_of (d_htype s)" and ?len = "int (length p)"
  have pt: "counted ?pt" using ses by (simp add: session_def)
  have hl: "0 < length (send_header ?pt ?len)" "length (send_header ?pt ?len) \<le> 2"
    using pt by (auto simp: counted_def send_header_def put_int8_def put_int16_def)
  have len: "length p < 65536" using p by (auto simp: fits_def split: if_splits)
  note send = session_send [OF good ses, where n = "?len + int (length (send_header ?pt ?len))"]
  show "run_ok {} (\<lambda>r s'. r = 0 \<and> after_send em p s s') (loop_send em p s)"
    using hl len
      send [where h = "Enq p # Enq (send_header ?pt ?len) # calls s" and p = p, OF refl] good_queue_frame(5) [OF good]
    by (simp add: loop_send_def Let_def encode_def)
  show "run_ok {} (\<lambda>r s'. r = 0 \<and> after_send em p s s') (loop_sendv em p s)"
    using hl len
      send [where h = "Enqv (send_header ?pt ?len @ p) # calls s" and p = p, OF refl] good_queue_frame(6) [OF good]
    by (simp add: loop_sendv_def Let_def encode_def)
qed

text \<open>In a session no complete packet stays in the buffer.\<close>

lemma framed_incomplete:
  assumes "framed bound s"
  shows "\<not> complete (packet_type_of (d_htype s)) (buffered s)"
  using assms by (auto simp: framed_def complete_def Let_def split: if_splits)

text \<open>A packet that fits the buffer of an empty port comes back at once, and the port is empty again.\<close>

lemma echo_after_send:
  assumes "after_send em p s s'" "i_buf s = None" "stream em s = []"
    and p: "fits (packet_type_of (d_htype s)) p" and pt: "counted (packet_type_of (d_htype s))"
    and sz: "hdr_len (packet_type_of (d_htype s)) + int (length p) \<le> d_bufsz s"
  shows "outputs (calls s') = outputs (calls s) @ [tcp_message (d_mode s) (d_hsz s) p]"
    "stream em s' = []"
proof -
  let ?pt = "packet_type_of (d_htype s)"
  obtain ps where ps: "\<forall>q \<in> set ps. fits ?pt q"
      "outputs (calls s') = outputs (calls s) @ map (tcp_message (d_mode s) (d_hsz s)) ps"
      "concat (map (encode ?pt) ps) @ stream em s' = encode ?pt p"
    and ses: "session s'" and set: "settings s' = settings s"
    and q: "em_queue em (calls s') = []"
    using assms length_encode [OF pt, of p] by (auto simp: after_send_def)
  have ht: "d_htype s' = d_htype s" by (rule settingsD(1) [OF set])
  have buf: "stream em s' = buffered s'" using q by (simp add: stream_def)
  have "ps \<noteq> []"
  proof
    assume "ps = []"
    then have "complete ?pt (buffered s')"
      using ps(3) buf complete_encode [OF pt p, of "[]"] by simp
    then show False using framed_incomplete [of "d_bufsz s'" s'] ses ht by (simp add: session_def)
  qed
  then obtain q qs where qs: "ps = q # qs" by (cases ps) auto
  then have "p = q \<and> [] = concat (map (encode ?pt) qs) @ stream em s'"
    using ps(1,3) p by (intro encode_inject [OF pt]) auto
  moreover have "encode ?pt x \<noteq> []" for x using length_encode [OF pt, of x] counted_hdr_len [OF pt] by auto
  ultimately have "qs = [] \<and> stream em s' = [] \<and> p = q" by (cases qs) auto
  then show "outputs (calls s') = outputs (calls s) @ [tcp_message (d_mode s) (d_hsz s) p]"
    "stream em s' = []"
    using ps(2) qs by simp_all
qed

end
