(* ===== verification/Service.thy ===== *)
theory Service
  imports Session Control
begin

text \<open>
  The service a connected active port gives its owner: what happens to a list of packets written
  to it one after another, through \<^verbatim>\<open>loop_drv_command\<close> or \<^verbatim>\<open>loop_drv_commandv\<close>.
\<close>

fun send_all :: "emulator \<Rightarrow> byte list list \<Rightarrow> drv \<Rightarrow> (unit, drv) outcome" where
  "send_all em [] s = Inr ((), s)"
| "send_all em (p # ps) s = andthen (loop_drv_command em p s) (\<lambda>_ s. send_all em ps s)"

lemma session_upd:
  assumes "settings s' = settings s" "d_active s' = d_active s" "i_buf s' = i_buf s"
    "i_ptr s' = i_ptr s" "i_ptr_start s' = i_ptr_start s" "i_bufsz s' = i_bufsz s"
    "i_remain s' = i_remain s" "buffer_stack s' = buffer_stack s"
  shows "session s' = session s" "buffered s' = buffered s"
proof -
  have ht: "d_htype s' = d_htype s" "d_bufsz s' = d_bufsz s" using assms(1) by (simp_all add: settings_def)
  show "buffered s' = buffered s" using framed_cong(2) [of s' s] assms ht by simp
  show "session s' = session s"
    using framed_cong(1) [of s' s] assms ht by (simp add: session_def active_def settings_def)
qed

lemma settings_caller [simp]: "settings (s\<lparr>d_caller := p\<rparr>) = settings s"
  by (simp add: settings_def)

text \<open>Within the data path only a reply to a request changes \<^verbatim>\<open>caller\<close>; the command sets it first.\<close>

lemma command_counted:
  assumes good: "good em" and ses: "session s" and con: "IS_CONNECTED s"
    and p: "fits (packet_type_of (d_htype s)) p"
  shows "run_ok {} (\<lambda>_ s'. after_send em p s s' \<and> IS_CONNECTED s') (loop_drv_command em p s)"
    and "run_ok {} (\<lambda>_ s'. after_send em p s s' \<and> IS_CONNECTED s') (loop_drv_commandv em p s)"
proof -
  let ?s = "s\<lparr>d_caller := em_caller em (calls s)\<rparr>"
  have eq: "stream em ?s = stream em s" "session ?s = session s" "settings ?s = settings s"
    using session_upd [of ?s s] by (simp_all add: stream_def)
  have con': "IS_CONNECTED ?s" using con by (simp add: IS_CONNECTED_def)
  have after: "after_send em p s (snd (inet_reply_ok em s')) \<and> IS_CONNECTED (snd (inet_reply_ok em s'))"
    if "after_send em p ?s s'" for s'
  proof -
    let ?t = "snd (inet_reply_ok em s')"
    have t: "?t = s'\<lparr>d_caller := 0, calls := SendTerm (d_caller s')
        [TAtom ''inet_reply'', TPort, TAtom ''ok'', TTuple 3] # calls s'\<rparr>"
      by (simp add: inet_reply_ok_def driver_call_def)
    have "stream em ?t = stream em s'" "session ?t = session s'" "buffered ?t = buffered s'"
      using session_upd [of ?t s'] good
      by (simp_all add: t stream_def good_def driver_queue.q_frame)
    moreover have "em_queue em (calls ?t) = em_queue em (calls s')"
      using good by (simp add: t good_def driver_queue.q_frame)
    moreover have "d_state s' = d_state s"
      using that settingsD(6) [of s' ?s] by (simp add: after_send_def)
    ultimately show ?thesis
      using that eq con by (simp add: after_send_def t IS_CONNECTED_def)
  qed
  show "run_ok {} (\<lambda>_ s'. after_send em p s s' \<and> IS_CONNECTED s') (loop_drv_command em p s)"
    using loop_send_counted(1) [OF good, of ?s p] ses eq p con' after
    by (auto simp: loop_drv_command_def Let_def elim!: run_ok_mono)
  show "run_ok {} (\<lambda>_ s'. after_send em p s s' \<and> IS_CONNECTED s') (loop_drv_commandv em p s)"
    using loop_send_counted(2) [OF good, of ?s p] ses eq p con' after
    by (auto simp: loop_drv_commandv_def Let_def elim!: run_ok_mono)
qed

text \<open>Every sequence of writes: nothing is lost, doubled or reordered on the way.\<close>

lemma send_all_counted:
  assumes good: "good em"
  shows "session s \<Longrightarrow> IS_CONNECTED s \<Longrightarrow> \<forall>p \<in> set ps. fits (packet_type_of (d_htype s)) p \<Longrightarrow>
    run_ok {} (\<lambda>_ s'. session s' \<and> IS_CONNECTED s' \<and> settings s' = settings s \<and>
      (\<exists>qs. (\<forall>q \<in> set qs. fits (packet_type_of (d_htype s)) q) \<and>
         outputs (calls s') = outputs (calls s) @ map (tcp_message (d_mode s) (d_hsz s)) qs \<and>
         concat (map (encode (packet_type_of (d_htype s))) qs) @ stream em s' =
           stream em s @ concat (map (encode (packet_type_of (d_htype s))) ps)))
      (send_all em ps s)"
proof (induction ps arbitrary: s)
  case Nil
  then show ?case by (auto intro!: exI [of _ "[]"])
next
  case (Cons p ps)
  let ?pt = "packet_type_of (d_htype s)" and ?msg = "tcp_message (d_mode s) (d_hsz s)"
  have "fits ?pt p" using Cons.prems(3) by simp
  then have "run_ok {} (\<lambda>u s1. run_ok {} (\<lambda>_ s'. session s' \<and> IS_CONNECTED s' \<and> settings s' = settings s \<and>
      (\<exists>qs. (\<forall>q \<in> set qs. fits ?pt q) \<and> outputs (calls s') = outputs (calls s) @ map ?msg qs \<and>
         concat (map (encode ?pt) qs) @ stream em s' = stream em s @ concat (map (encode ?pt) (p # ps))))
      (send_all em ps s1)) (loop_drv_command em p s)"
  proof (rule run_ok_mono [OF command_counted(1) [OF good Cons.prems(1,2)]])
    fix u s1
    assume a: "after_send em p s s1 \<and> IS_CONNECTED s1"
    then obtain qs where qs: "\<forall>q \<in> set qs. fits ?pt q"
        "outputs (calls s1) = outputs (calls s) @ map ?msg qs"
        "concat (map (encode ?pt) qs) @ stream em s1 = stream em s @ encode ?pt p"
      and s1: "session s1" "settings s1 = settings s"
      by (auto simp: after_send_def)
    note eqs = settingsD [OF s1(2)]
    have "run_ok {} (\<lambda>_ s'. session s' \<and> IS_CONNECTED s' \<and> settings s' = settings s1 \<and>
      (\<exists>qs'. (\<forall>q \<in> set qs'. fits ?pt q) \<and> outputs (calls s') = outputs (calls s1) @ map ?msg qs' \<and>
         concat (map (encode ?pt) qs') @ stream em s' = stream em s1 @ concat (map (encode ?pt) ps)))
      (send_all em ps s1)"
      using Cons.IH [OF s1(1)] a Cons.prems(3) eqs by simp
    then show "run_ok {} (\<lambda>_ s'. session s' \<and> IS_CONNECTED s' \<and> settings s' = settings s \<and>
      (\<exists>qs. (\<forall>q \<in> set qs. fits ?pt q) \<and> outputs (calls s') = outputs (calls s) @ map ?msg qs \<and>
         concat (map (encode ?pt) qs) @ stream em s' = stream em s @ concat (map (encode ?pt) (p # ps))))
      (send_all em ps s1)"
    proof (rule run_ok_mono)
      fix v s'
      assume b: "session s' \<and> IS_CONNECTED s' \<and> settings s' = settings s1 \<and>
        (\<exists>qs'. (\<forall>q \<in> set qs'. fits ?pt q) \<and> outputs (calls s') = outputs (calls s1) @ map ?msg qs' \<and>
           concat (map (encode ?pt) qs') @ stream em s' = stream em s1 @ concat (map (encode ?pt) ps))"
      then obtain qs' where qs': "\<forall>q \<in> set qs'. fits ?pt q"
          "outputs (calls s') = outputs (calls s1) @ map ?msg qs'"
          "concat (map (encode ?pt) qs') @ stream em s' = stream em s1 @ concat (map (encode ?pt) ps)"
        by blast
      have "concat (map (encode ?pt) (qs @ qs')) @ stream em s' =
          stream em s @ concat (map (encode ?pt) (p # ps))"
        using qs(3) qs'(3) by simp
      moreover have "outputs (calls s') = outputs (calls s) @ map ?msg (qs @ qs')"
        using qs(2) qs'(2) by simp
      moreover have "\<forall>q \<in> set (qs @ qs'). fits ?pt q" using qs(1) qs'(1) by auto
      ultimately show "session s' \<and> IS_CONNECTED s' \<and> settings s' = settings s \<and>
        (\<exists>qs. (\<forall>q \<in> set qs. fits ?pt q) \<and> outputs (calls s') = outputs (calls s) @ map ?msg qs \<and>
           concat (map (encode ?pt) qs) @ stream em s' = stream em s @ concat (map (encode ?pt) (p # ps)))"
        using b s1(2) by metis
    qed
  qed
  then show ?case by simp
qed

text \<open>
  If every packet fits the buffer, each has been delivered when the next one is written, and the
  port ends as empty as it began.
\<close>

lemma send_all_echo:
  assumes good: "good em"
  shows "session s \<Longrightarrow> IS_CONNECTED s \<Longrightarrow> i_buf s = None \<Longrightarrow> stream em s = [] \<Longrightarrow>
    \<forall>p \<in> set ps. fits (packet_type_of (d_htype s)) p \<and>
      hdr_len (packet_type_of (d_htype s)) + int (length p) \<le> d_bufsz s \<Longrightarrow>
    run_ok {} (\<lambda>_ s'. outputs (calls s') = outputs (calls s) @ map (tcp_message (d_mode s) (d_hsz s)) ps \<and>
                   stream em s' = [] \<and> i_buf s' = None \<and> session s')
      (send_all em ps s)"
proof (induction ps arbitrary: s)
  case Nil
  then show ?case by simp
next
  case (Cons p ps)
  let ?pt = "packet_type_of (d_htype s)" and ?msg = "tcp_message (d_mode s) (d_hsz s)"
  have p: "fits ?pt p" "hdr_len ?pt + int (length p) \<le> d_bufsz s" using Cons.prems(5) by simp_all
  have pt: "counted ?pt" using Cons.prems(1) by (simp add: session_def)
  have "run_ok {} (\<lambda>u s1. run_ok {} (\<lambda>_ s'. outputs (calls s') = outputs (calls s) @ map ?msg (p # ps) \<and>
      stream em s' = [] \<and> i_buf s' = None \<and> session s') (send_all em ps s1)) (loop_drv_command em p s)"
  proof (rule run_ok_mono [OF command_counted(1) [OF good Cons.prems(1,2) p(1)]])
    fix u s1
    assume a: "after_send em p s s1 \<and> IS_CONNECTED s1"
    then have s1: "session s1" "settings s1 = settings s" "buffered s1 = [] \<longrightarrow> i_buf s1 = None"
      by (simp_all add: after_send_def)
    note echo = echo_after_send [OF _ Cons.prems(3,4) p(1) pt p(2), of s1]
    have "stream em s1 = []" using echo a by simp
    moreover have "i_buf s1 = None" using s1(3) \<open>stream em s1 = []\<close> by (simp add: stream_def)
    ultimately have "run_ok {} (\<lambda>_ s'. outputs (calls s') = outputs (calls s1) @ map ?msg ps \<and>
        stream em s' = [] \<and> i_buf s' = None \<and> session s') (send_all em ps s1)"
      using Cons.IH [OF s1(1)] a Cons.prems(5) settingsD [OF s1(2)] by simp
    then show "run_ok {} (\<lambda>_ s'. outputs (calls s') = outputs (calls s) @ map ?msg (p # ps) \<and>
        stream em s' = [] \<and> i_buf s' = None \<and> session s') (send_all em ps s1)"
      using echo a by (auto elim!: run_ok_mono)
  qed
  then show ?case by simp
qed

text \<open>The message is the term \<open>{tcp, S, Data}\<close>.\<close>

definition data_term :: "int \<Rightarrow> int \<Rightarrow> byte list \<Rightarrow> eterm" where
  "data_term mode hsz p =
     (if mode = INET_MODE_LIST \<or> hsz_exceeds hsz (int (length p)) then EString p
      else if hsz > 0 then EImproper (take (nat hsz) p) (EBinary (drop (nat hsz) p))
      else EBinary p)"

lemma denote_tcp_message:
  "denote (tcp_message mode hsz p) = Some (ETuple [EAtom ''tcp'', EPort, data_term mode hsz p])"
  by (simp add: denote_def tcp_message_def binary_items_def data_term_def)

end
