(* ===== verification/Passive.thy ===== *)
theory Passive
  imports Session Control
begin

text \<open>
  Passive mode with the raw packet type: what a RECV of \<open>n\<close> bytes answers when the bytes are there,
  and what becomes of bytes that arrive while no RECV waits.
\<close>

text \<open>The answer \<open>{inet_async, S, Ref, {ok, Data}}\<close> to a request.\<close>

definition async_message :: "int \<Rightarrow> int \<Rightarrow> int \<Rightarrow> byte list \<Rightarrow> titem list" where
  "async_message aid mode hsz p =
     [TAtom ''inet_async'', TPort, TInt aid, TAtom ''ok''] @
     (if mode = INET_MODE_LIST \<or> hsz_exceeds hsz (int (length p)) then [TString p]
      else binary_items hsz p) @ [TTuple 2, TTuple 4]"

definition raw_passive :: "drv \<Rightarrow> bool" where
  "raw_passive s \<longleftrightarrow> d_active s = INET_PASSIVE \<and> packet_type_of (d_htype s) = TCP_PB_RAW \<and>
     d_deliver s \<noteq> INET_DELIVER_PORT \<and> 0 \<le> d_hsz s \<and> d_hsz s < 2 ^ 32"

text \<open>
  What a delivery in this mode does to the history and the requests: the oldest request is
  answered with the data, or, without one, nothing is sent and the code is negative.
\<close>

definition answered :: "emulator \<Rightarrow> byte list \<Rightarrow> drv \<Rightarrow> int \<Rightarrow> drv \<Rightarrow> bool" where
  "answered em p s code s' \<longleftrightarrow> em_queue em (calls s') = em_queue em (calls s) \<and>
     outputs (calls s') = outputs (calls s) \<and> async_wf s' \<and> d_active s' = d_active s \<and>
     (case pending s of
        [] \<Rightarrow> code < 0 \<and> sends (calls s') = sends (calls s) \<and> pending s' = [] \<and> d_caller s' = d_caller s
      | opp # rest \<Rightarrow> 0 \<le> code \<and> pending s' = rest \<and>
          sends (calls s') = sends (calls s) @
            [(op_caller opp, async_message (op_id opp) (d_mode s) (d_hsz s) p)])"

lemma sends_more [simp]:
  "sends (OutputTerm m # h) = sends h" "sends (FreeBinary # h) = sends h"
  "sends (AllocBinary n # h) = sends h" "sends (ReallocBinary n # h) = sends h"
  "sends (Enq bs # h) = sends h" "sends (Enqv bs # h) = sends h" "sends (CancelTimer # h) = sends h"
  by (simp_all add: sends_def map_filter_simps)

lemma outputs_more [simp]: "outputs (CancelTimer # h) = outputs h" "outputs (SetTimer n # h) = outputs h"
  by (simp_all add: outputs_def map_filter_simps)

lemma queue_cong:
  assumes "d_op_queue s' = d_op_queue s" "d_oph s' = d_oph s" "d_opt s' = d_opt s"
  shows "pending s' = pending s" "async_wf s' = async_wf s"
  using assms by (simp_all add: pending_def async_wf_def)

lemma pending_upd [simp]:
  "pending (s\<lparr>i_buf := b\<rparr>) = pending s" "pending (s\<lparr>d_bit8 := v\<rparr>) = pending s"
  "pending (s\<lparr>i_ptr_start := k\<rparr>) = pending s" "pending (inet_input_count em n s) = pending s"
  "async_wf (s\<lparr>i_buf := b\<rparr>) = async_wf s" "async_wf (s\<lparr>d_bit8 := v\<rparr>) = async_wf s"
  "async_wf (s\<lparr>i_ptr_start := k\<rparr>) = async_wf s" "async_wf (inet_input_count em n s) = async_wf s"
  by (rule queue_cong; simp)+

lemma async_data_answered:
  assumes good: "good em" and wf: "async_wf s"
    and b: "i_buf s = Some b" and rng: "0 \<le> off" "0 \<le> len" "off + len \<le> orig_size b"
  shows "run_ok {} (answered em (bytes_at off len (orig_bytes b)) s) (inet_async_data em (orig_bytes b) off len s)"
    and "0 \<le> d_hsz s \<Longrightarrow> d_hsz s < 2 ^ 32 \<Longrightarrow>
      run_ok {} (answered em (bytes_at off len (orig_bytes b)) s) (inet_async_binary_data em 0 off len s)"
proof -
  note q = good_queue_frame [OF good]
  have qs: "em_queue em (SendTerm p m # h) = em_queue em h" for p m h
    using good by (simp add: good_def driver_queue.q_frame)
  have rc: "0 \<le> em_rc em h" "em_alloc em h" for h using good by (simp_all add: good_def)
  show "run_ok {} (answered em (bytes_at off len (orig_bytes b)) s) (inet_async_data em (orig_bytes b) off len s)"
  proof (cases "pending s")
    case Nil
    then show ?thesis
      using deq_async_spec [OF wf] wf by (simp add: inet_async_data_def Let_def answered_def)
  next
    case (Cons opp rest)
    then obtain i j where "deq_async s = (Some opp, s\<lparr>d_opt := j, d_oph := i\<rparr>)"
        "pending (s\<lparr>d_opt := j, d_oph := i\<rparr>) = rest" "async_wf (s\<lparr>d_opt := j, d_oph := i\<rparr>)"
      using deq_async_spec [OF wf] by auto
    then show ?thesis
      using Cons rng rc q qs
      by (simp add: inet_async_data_def Let_def answered_def driver_call_def driver_alloc_binary_def
          async_message_def)
  qed
  show "run_ok {} (answered em (bytes_at off len (orig_bytes b)) s) (inet_async_binary_data em 0 off len s)"
    if "0 \<le> d_hsz s" "d_hsz s < 2 ^ 32"
  proof (cases "pending s")
    case Nil
    then show ?thesis
      using deq_async_spec [OF wf] wf by (simp add: inet_async_binary_data_def Let_def answered_def)
  next
    case (Cons opp rest)
    then obtain i j where "deq_async s = (Some opp, s\<lparr>d_opt := j, d_oph := i\<rparr>)"
        "pending (s\<lparr>d_opt := j, d_oph := i\<rparr>) = rest" "async_wf (s\<lparr>d_opt := j, d_oph := i\<rparr>)"
      using deq_async_spec [OF wf] by auto
    then show ?thesis
      using Cons rng rc q qs b that
      by (simp add: inet_async_binary_data_def Let_def answered_def driver_call_def call_with_buffer_def
          async_message_def)
  qed
qed

lemma calls_clear: "calls (loop_clear_input s) = calls s \<or> calls (loop_clear_input s) = FreeBinary # calls s"
  by (auto simp: loop_clear_input_def free_buffer_def release_buffer_def split: option.split)

lemma async_wf_frame:
  assumes "buf_frame s s'"
  shows "async_wf s' = async_wf s" "pending s' = pending s"
  using buf_frameD [OF assms] by (simp_all add: async_wf_def pending_def)

lemma answered_clear:
  assumes "good em" "answered em p s code s'"
  shows "answered em p s code (loop_clear_input s')"
proof -
  note fr = loop_clear_input_ok(2) [of s']
  have "sends (calls (loop_clear_input s')) = sends (calls s')"
    "outputs (calls (loop_clear_input s')) = outputs (calls s')"
    "em_queue em (calls (loop_clear_input s')) = em_queue em (calls s')"
    using calls_clear [of s'] good_queue_frame(2) [OF assms(1)] by auto
  then show ?thesis
    using assms(2) buf_frameD(2,15) [OF fr] async_wf_frame [OF fr]
    by (simp add: answered_def split: list.splits)
qed

lemma inet_input_count_caller [simp]: "d_caller (inet_input_count em n s) = d_caller s"
  by (simp add: inet_input_count_def Let_def)

lemma answered_cong:
  "answered em p (s\<lparr>d_bit8 := v\<rparr>) = answered em p s"
  "answered em p s code (s'\<lparr>i_ptr_start := k\<rparr>) = answered em p s code s'"
  "answered em p (inet_input_count em n s) = answered em p s"
  by (simp_all add: answered_def [abs_def] cong: list.case_cong)

lemma deliver_whole:
  assumes good: "good em" and wf: "async_wf s" and rp: "raw_passive s"
    and b: "i_buf s = Some b" and at: "i_ptr_start s = 0" "i_ptr s = n"
    and n: "0 < n" "n \<le> orig_size b" "n * 4 \<le> 2147483647"
  shows "run_ok {} (\<lambda>code s'. answered em (bytes_at 0 n (orig_bytes b)) s code s' \<and> i_buf s' = None)
           (deliver_packet em n s)"
proof -
  let ?p = "bytes_at 0 n (orig_bytes b)"
  have raw: "packet_type_of (d_htype s) = TCP_PB_RAW" "d_active s = 0" "d_deliver s \<noteq> 0"
    "0 \<le> d_hsz s" "d_hsz s < 2 ^ 32" using rp by (simp_all add: raw_passive_def)
  have copy: "run_ok {} (answered em ?p s) (loop_reply_data em 0 n s)"
  proof -
    have "run_ok {} (answered em ?p s) (inet_async_data em (orig_bytes b) 0 n s')"
      if "s' = s \<or> s' = s\<lparr>d_bit8 := v\<rparr>" for s' v
      using async_data_answered(1) [OF good, of s' b 0 n] that wf b n by (auto simp: answered_cong)
    then show ?thesis
      using n by (auto simp: loop_reply_data_def b raw adjust_def scanbit8_def Let_def)
  qed
  have bin: "run_ok {} (answered em ?p s) (loop_reply_binary_data em 0 n s)"
  proof -
    have "run_ok {} (answered em ?p s) (inet_async_binary_data em 0 0 n s')"
      if "s' = s \<or> s' = s\<lparr>d_bit8 := v\<rparr>" for s' v
      using async_data_answered(2) [OF good, of s' b 0 n] that wf b n raw by (auto simp: answered_cong)
    then show ?thesis
      using n by (auto simp: loop_reply_binary_data_def b raw adjust_def scanbit8_def Let_def)
  qed
  have plain: "plain_type (packet_type_of (d_htype s))" "hdr_len (packet_type_of (d_htype s)) = 0"
    by (simp_all add: raw plain_type_def hdr_len_def)
  have same: "run_ok {} (\<lambda>_. same_packet s) (loop_reply_data em 0 n s)"
    by (rule loop_reply_data_ok [OF b plain(1)]) (use n plain in simp_all)
  have ptr: "i_ptr s' = n \<and> i_ptr_start s' = 0" if "same_packet s s'" for s'
    using besides_replyD(7,8) [of s' s] that at by (simp add: same_packet_def)
  have "run_ok {} (\<lambda>code s'. answered em ?p s code s' \<and> i_ptr s' = n \<and> i_ptr_start s' = 0)
      (loop_reply_data em 0 n s)"
    by (rule run_ok_weaken [OF run_ok_conj [OF copy same]]) (use ptr in simp_all)
  then have c: "run_ok {} (\<lambda>code s'. run_ok {} (\<lambda>code s'. answered em ?p s code s' \<and> i_buf s' = None)
      (let s = s'\<lparr>i_ptr_start := i_ptr_start s' + n\<rparr>
       in Inr (code, if i_ptr_start s = i_ptr s then loop_clear_input s else s\<lparr>i_remain := 0\<rparr>)))
      (loop_reply_data em 0 n s)"
    by (rule run_ok_mono)
      (use answered_clear [OF good] in \<open>simp add: Let_def loop_clear_input_ok(3) answered_cong\<close>)
  have "run_ok {} (\<lambda>code s'. answered em ?p s code (loop_clear_input s') \<and> i_buf (loop_clear_input s') = None)
      (loop_reply_binary_data em 0 n s)"
    by (rule run_ok_mono [OF bin]) (use answered_clear [OF good] loop_clear_input_ok(3) in blast)
  then show ?thesis
    using c n at by (simp add: deliver_packet_def b)
qed

text \<open>A delivery of all that is buffered; the code is the number of packets, or negative.\<close>

lemma loop_deliver_whole:
  assumes good: "good em" and wf: "async_wf s" and rp: "raw_passive s"
    and b: "i_buf s = Some b" and at: "i_ptr_start s = 0" "i_ptr s = n"
    and n: "0 < n" "n \<le> orig_size b" "n * 4 \<le> 2147483647"
  shows "run_ok {} (\<lambda>code s'. answered em (bytes_at 0 n (orig_bytes b)) s code s' \<and> i_buf s' = None \<and>
           code \<noteq> 0) (loop_deliver em n s)"
proof -
  let ?p = "bytes_at 0 n (orig_bytes b)" and ?s = "inet_input_count em n s"
  have "async_wf ?s" "raw_passive ?s"
    using wf rp by (simp_all add: raw_passive_def)
  from deliver_whole [OF good this, of b n] b at n
  have d: "run_ok {} (\<lambda>code s'. answered em ?p s code s' \<and> i_buf s' = None) (deliver_packet em n ?s)"
    by (simp add: answered_cong)
  have act: "d_active s = 0" using rp by (simp add: raw_passive_def)
  have tm: "em_queue em (CancelTimer # h) = em_queue em h" for h
    using good by (simp add: good_def driver_queue.q_frame)
  have "run_ok {} (\<lambda>code s'. run_ok {} (\<lambda>code s'. answered em ?p s code s' \<and> i_buf s' = None \<and> code \<noteq> 0)
      (deliver_next em (deliver_loop em (nat (i_ptr s))) 0 code s')) (deliver_packet em n ?s)"
  proof (rule run_ok_mono [OF d], elim conjE)
    fix code s'
    assume a: "answered em ?p s code s'" and none: "i_buf s' = None"
    have "d_active s' = 0" using a act by (simp add: answered_def)
    moreover have "answered em ?p s 1 (log_call CancelTimer s')" if "\<not> code < 0"
      using a that tm by (simp add: answered_def split: list.splits)
    ultimately show "run_ok {} (\<lambda>code s'. answered em ?p s code s' \<and> i_buf s' = None \<and> code \<noteq> 0)
        (deliver_next em (deliver_loop em (nat (i_ptr s))) 0 code s')"
      using a none by (simp add: deliver_next_def Let_def)
  qed
  then show ?thesis
    using n by (simp add: loop_deliver_def deliver_loop.simps Let_def)
qed

section \<open>Reading\<close>

text \<open>
  \<open>consumed em p h h'\<close>: between the two histories the bytes \<open>p\<close> were taken off the front of the
  driver queue.
\<close>

lemma answered_rebase:
  assumes "answered em p t code s'" "calls t = Deq n # calls s" "d_op_queue t = d_op_queue s"
    "d_oph t = d_oph s" "d_opt t = d_opt s" "d_active t = d_active s" "d_mode t = d_mode s"
    "d_hsz t = d_hsz s" "d_caller t = d_caller s"
  shows "answered em p (log_call (Deq n) s) code s'"
proof -
  have "pending t = pending s" by (rule queue_cong) (rule assms)+
  then show ?thesis using assms by (simp add: answered_def cong: list.case_cong)
qed

lemma recv_into_raw:
  assumes good: "good em" and wf: "async_wf s" and rp: "raw_passive s"
    and b: "i_buf s = Some b" and at: "i_ptr_start s = 0" "i_ptr s = 0" "i_bufsz s \<le> orig_size b"
    and n: "0 < nread" "nread \<le> i_bufsz s" "nread * 4 \<le> 2147483647"
    and ev: "em_queue em (calls s) = ev" "ev \<noteq> []"
    and rem: "i_remain s = 0 \<or> i_remain s = nread \<and> nread \<le> int (length ev)"
  shows "run_ok {} (\<lambda>code s'. answered em (take (nat nread) ev)
             (log_call (Deq (int (length (take (nat nread) ev)))) s) code s' \<and> i_buf s' = None \<and> code \<noteq> 0)
           (recv_into em nread s)"
proof -
  let ?data = "take (nat nread) ev"
  let ?n = "int (length ?data)" and ?m = "put_at 0 ?data (orig_bytes b)"
  let ?t = "\<lambda>r. s\<lparr>i_buf := Some (b\<lparr>orig_bytes := ?m\<rparr>), calls := Deq ?n # calls s, i_ptr := ?n, i_remain := r\<rparr>"
  have pos: "0 < ?n" "?n \<le> nread" using n ev by (simp_all add: min_def le_nat_iff)
  have sz: "?n \<le> orig_size b" using pos n at by linarith
  have "bytes_at 0 (int (length d)) (put_at 0 d m) = d" for d m :: "byte list"
    by (simp add: bytes_at_def)
  then have front: "bytes_at 0 ?n ?m = ?data" by blast
  have deliver: "run_ok {} (\<lambda>code s'. answered em ?data (log_call (Deq ?n) s) code s' \<and> i_buf s' = None \<and> code \<noteq> 0)
      (loop_deliver em ?n (?t r))" for r
  proof -
    have "run_ok {} (\<lambda>code s'. answered em ?data (?t r) code s' \<and> i_buf s' = None \<and> code \<noteq> 0)
      (loop_deliver em ?n (?t r))"
      using loop_deliver_whole [OF good, of "?t r" "b\<lparr>orig_bytes := ?m\<rparr>" ?n]
        queue_cong [of "?t r" s] wf rp at pos sz n front by (simp add: raw_passive_def)
    then show ?thesis
      by (rule run_ok_mono) (auto elim!: answered_rebase)
  qed
  have raw: "packet_type_of (d_htype s) = TCP_PB_RAW" using rp by (simp add: raw_passive_def)
  show ?thesis
  proof (cases "i_remain s = 0")
    case True
    have lr: "loop_remain em (?t (i_remain s)) = Inr ((0, ?n), ?t (i_remain s))"
      using pos sz at raw by (simp add: loop_remain_def Let_def packet_label_def reading_def)
    have eq: "?t (i_remain s) = s\<lparr>i_buf := Some (b\<lparr>orig_bytes := ?m\<rparr>), calls := Deq ?n # calls s, i_ptr := ?n\<rparr>"
      by simp
    show ?thesis
      using ev n at sz True deliver [of "i_remain s", unfolded eq] lr [unfolded eq] pos
      by (simp add: recv_into_def b Let_def del: length_take)
  next
    case False
    then have "i_remain s = ?n" "i_remain s = nread" using rem n by (auto simp: min_def)
    then show ?thesis
      using ev n at sz False deliver [of 0] pos
      by (simp add: recv_into_def b Let_def del: length_take)
  qed
qed

section \<open>The first read\<close>

text \<open>
  \<open>raw_read em p q s code s'\<close>: the bytes \<open>p\<close> were read, the queue holds \<open>q\<close>, and the oldest request
  was answered with \<open>p\<close>; without a request \<open>p\<close> is gone.
\<close>

definition raw_read :: "emulator \<Rightarrow> byte list \<Rightarrow> byte list \<Rightarrow> drv \<Rightarrow> int \<Rightarrow> drv \<Rightarrow> bool" where
  "raw_read em p q s code s' \<longleftrightarrow> code \<noteq> 0 \<and> i_buf s' = None \<and> async_wf s' \<and>
     outputs (calls s') = outputs (calls s) \<and> em_queue em (calls s') = q \<and>
     (case pending s of
        [] \<Rightarrow> sends (calls s') = sends (calls s) \<and> pending s' = [] \<and> d_caller s' = d_caller s \<and> code < 0
      | opp # rest \<Rightarrow> pending s' = rest \<and> sends (calls s') = sends (calls s) @
          [(op_caller opp, async_message (op_id opp) (d_mode s) (d_hsz s) p)])"

lemma loop_recv_raw:
  assumes good: "good em" and wf: "async_wf s" and rp: "raw_passive s" and st: "stack_ok s"
    and none: "i_buf s = None" and sz: "sz = (if 0 < request_len then request_len else d_bufsz s)"
    and n: "0 < sz" "sz * 4 \<le> 2147483647"
    and ev: "em_queue em (calls s) = ev" "ev \<noteq> []" "0 < request_len \<longrightarrow> request_len \<le> int (length ev)"
  shows "run_ok {} (raw_read em (take (nat sz) ev) (drop (nat sz) ev) s)
         (loop_recv em request_len s)"
proof -
  have "0 \<le> sz" using n by simp
  with st show ?thesis
  proof (cases rule: alloc_buffer_cases [where em = em])
    case null
    then show ?thesis using good by (auto simp: good_def)
  next
    case (ok b h stk)
    have alloc: "outputs h = outputs (calls s) \<and> sends h = sends (calls s) \<and>
        em_queue em h = em_queue em (calls s)"
    proof -
      have "calls (snd (alloc_buffer em sz s)) = h" by (simp add: ok(1))
      then show ?thesis
        using good_queue_frame(3,4) [OF good]
        by (auto simp: alloc_buffer_def driver_realloc_binary_def driver_alloc_binary_def Let_def
            split: list.splits if_splits)
    qed
    let ?s = "s\<lparr>calls := h, buffer_stack := stk, i_buf := Some b, i_bufsz := sz, i_ptr_start := 0, i_ptr := 0,
      i_remain := (if request_len > 0 then request_len else 0)\<rparr>"
    have q: "pending ?s = pending s" "async_wf ?s = async_wf s" by (rule queue_cong; simp)+
    have ans: "run_ok {} (\<lambda>code s'. answered em (take (nat sz) ev)
             (log_call (Deq (int (length (take (nat sz) ev)))) ?s) code s' \<and> i_buf s' = None \<and> code \<noteq> 0)
           (recv_into em sz ?s)"
      by (rule recv_into_raw [OF good, where b = b])
        (use q wf rp ok(2) n ev alloc sz in \<open>auto simp: raw_passive_def\<close>)
    have drop: "drop (length (take (nat sz) ev)) ev = drop (nat sz) ev" by (simp add: min_def)
    have "loop_recv em request_len s = recv_into em sz ?s"
      using none ok(1) sz by (simp add: loop_recv_def Let_def)
    moreover have "run_ok {} (raw_read em (take (nat sz) ev) (drop (nat sz) ev) s)
        (recv_into em sz ?s)"
    proof (rule run_ok_mono [OF ans])
      fix code s'
      let ?d = "Deq (int (length (take (nat sz) ev))) # h"
      assume "answered em (take (nat sz) ev) (log_call (Deq (int (length (take (nat sz) ev)))) ?s) code s' \<and>
        i_buf s' = None \<and> code \<noteq> 0"
      moreover have "pending (log_call (Deq (int (length (take (nat sz) ev)))) ?s) = pending s"
        by (rule queue_cong) simp_all
      moreover have "em_queue em ?d = drop (nat sz) ev"
        using good_queue_frame(7) [OF good] alloc ev(1) drop by simp
      ultimately show "raw_read em (take (nat sz) ev) (drop (nat sz) ev) s code s'"
        using alloc by (cases "pending s") (simp_all add: answered_def raw_read_def del: length_take)
    qed
    ultimately show ?thesis by simp
  qed
qed

text \<open>
  Data sent to a passive port while no request waits is read, handed to nobody and dropped; the
  sender is told that all is well.
\<close>

lemma passive_send:
  assumes good: "good em" and con: "IS_CONNECTED s" and wf: "async_wf s" and rp: "raw_passive s"
    and st: "stack_ok s" and none: "i_buf s = None" "pending s = []"
    and q: "em_queue em (calls s) = []" and n: "0 < d_bufsz s" "d_bufsz s * 4 \<le> 2147483647"
    and buf: "buf \<noteq> []" "int (length buf) \<le> d_bufsz s"
  shows "run_ok {} (\<lambda>_ s'. em_queue em (calls s') = [] \<and> i_buf s' = None \<and>
           outputs (calls s') = outputs (calls s) \<and> sends (calls s') = sends (calls s) @
             [(em_caller em (calls s), [TAtom ''inet_reply'', TPort, TAtom ''ok'', TTuple 3])])
         (loop_drv_command em buf s)"
proof -
  let ?c = "em_caller em (calls s)"
  let ?s0 = "inet_output_count em (int (length buf)) (s\<lparr>d_caller := ?c\<rparr>)"
  let ?s = "log_call (Enq buf) (log_call (Enq []) ?s0)"
  have raw: "packet_type_of (d_htype s) = TCP_PB_RAW" using rp by (simp add: raw_passive_def)
  have fields: "d_op_queue ?s = d_op_queue s" "d_oph ?s = d_oph s" "d_opt ?s = d_opt s"
    "d_active ?s = d_active s" "d_htype ?s = d_htype s" "d_deliver ?s = d_deliver s" "d_hsz ?s = d_hsz s"
    "buffer_stack ?s = buffer_stack s" "i_buf ?s = None" "d_bufsz ?s = d_bufsz s" "d_caller ?s = ?c"
    "calls ?s = Enq buf # Enq [] # calls s"
    using none by (simp_all add: inet_output_count_def Let_def)
  have s: "async_wf ?s" "pending ?s = []" "raw_passive ?s" "stack_ok ?s"
    using queue_cong [OF fields(1-3)] wf none rp st fields by (simp_all add: raw_passive_def stack_ok_def)
  have ev: "em_queue em (calls ?s) = buf"
    using q good_queue_frame(5) [OF good] fields(12) by simp
  have long: "int (length buf) \<le> 2147483647" using n buf by linarith
  have send: "loop_send em buf (s\<lparr>d_caller := ?c\<rparr>) = andthen (loop_recv em 0 ?s) (\<lambda>_ s. Inr (0, s))"
    using buf(1) long by (simp add: loop_send_def raw send_header_def checked_def Let_def)
  have con': "IS_CONNECTED (s\<lparr>d_caller := ?c\<rparr>)" using con by (simp add: IS_CONNECTED_def)
  have sq: "em_queue em (SendTerm p m # h) = em_queue em h" for p m h
    using good by (simp add: good_def driver_queue.q_frame)
  have "run_ok {} (\<lambda>_ s'. em_queue em (calls s') = [] \<and> i_buf s' = None \<and> d_caller s' = ?c \<and>
      outputs (calls s') = outputs (calls s) \<and> sends (calls s') = sends (calls s)) (loop_recv em 0 ?s)"
  proof (rule run_ok_mono [OF loop_recv_raw [OF good s(1,3,4) fields(9) refl, of 0 buf]])
  qed (use n ev buf s(2) fields(10-12) in \<open>simp_all add: raw_read_def\<close>)
  then show ?thesis
    using sq by (simp add: loop_drv_command_def con' send inet_reply_ok_def driver_call_def)
      (auto elim!: run_ok_mono)
qed

text \<open>A RECV of \<open>n\<close> bytes that are there is answered with them and takes no more.\<close>

lemma ctl_recv_exact:
  assumes good: "good em" and con: "IS_CONNECTED s" and wf: "async_wf s" and rp: "raw_passive s"
    and st: "stack_ok s" and none: "i_buf s = None" "pending s = []"
    and n: "0 < n" "n \<le> TCP_MAX_PACKET_SIZE" "n \<le> int (length (em_queue em (calls s)))"
    and t: "length timeout = 4" and rsize: "3 \<le> rsize"
  shows "run_ok {} (\<lambda>r s'. \<exists>ref. r = (3, INET_REP_OK # put_int16 ref) \<and> pending s' = [] \<and> i_buf s' = None \<and>
           em_queue em (calls s') = drop (nat n) (em_queue em (calls s)) \<and>
           outputs (calls s') = outputs (calls s) \<and> sends (calls s') = sends (calls s) @
             [(em_caller em (calls s), async_message ref (d_mode s) (d_hsz s) (take (nat n) (em_queue em (calls s))))])
         (loop_drv_ctl em 32 (timeout @ put_int32 n) rsize s)"
proof -
  let ?op = "next_op em 32 s"
  have "length (pending s) < INET_MAX_ASYNC" using none by simp
  from enq_async_free [OF wf this, of em "junk em s 2" 32] none(2) obtain s1 i j q where
    enq: "enq_async em (junk em s 2) 32 s = (0, put_int16 (op_id ?op), s1)" "pending s1 = [?op]" "async_wf s1"
    and s1: "s1 = s\<lparr>async_ref := async_ref s + 1, d_opt := j, d_op_queue := q, d_oph := i\<rparr>" by auto
  have fields: "raw_passive s1" "stack_ok s1" "i_buf s1 = None" "calls s1 = calls s" "d_mode s1 = d_mode s"
    "d_hsz s1 = d_hsz s"
    using rp st none by (simp_all add: s1 raw_passive_def stack_ok_def)
  have val: "get_int32 (drop 4 (timeout @ put_int32 n)) = n"
    using get_put_int32 [of n "[]"] n t by simp
  have raw: "packet_type_of (d_htype s) = TCP_PB_RAW" "d_active s = INET_PASSIVE"
    using rp by (simp_all add: raw_passive_def)
  have "em_queue em (calls s) \<noteq> []" using n by auto
  then have rec: "run_ok {} (\<lambda>code s'. code \<noteq> 0 \<and> i_buf s' = None \<and> pending s' = [] \<and>
           outputs (calls s') = outputs (calls s) \<and>
           em_queue em (calls s') = drop (nat n) (em_queue em (calls s)) \<and>
           sends (calls s') = sends (calls s) @ [(em_caller em (calls s),
             async_message (op_id ?op) (d_mode s) (d_hsz s) (take (nat n) (em_queue em (calls s))))])
         (loop_recv em n s1)"
    using loop_recv_raw [OF good enq(3) fields(1-3) refl, of n] n enq(2) fields
    by (auto simp: next_op_def raw_read_def elim!: run_ok_mono)
  have "ctl_recv em (timeout @ put_int32 n) rsize s =
      andthen (loop_recv em n s1) (\<lambda>r s. let s = (if r \<noteq> 0 then s
           else if get_int32 (timeout @ put_int32 n) mod 4294967296 = 0 then snd (async_error_am em ''timeout'' s)
           else if get_int32 (timeout @ put_int32 n) mod 4294967296 \<noteq> INET_INFINITY
             then log_call (SetTimer (get_int32 (timeout @ put_int32 n) mod 4294967296)) s
           else s) in ctl_reply em INET_REP_OK (put_int16 (op_id ?op)) rsize s)"
    using con raw val n t enq(1) by (simp add: ctl_recv_def Let_def)
  then show ?thesis
    using rec rsize by (simp add: loop_drv_ctl_def ctl_reply_def) (auto elim!: run_ok_mono)
qed

end
