(* ===== verification/Md4.thy ===== *)
theory Md4
  imports Driver_Api
begin

text \<open>
  The MD4 digest of the SMB library: \<^verbatim>\<open>esmb/c_src/md4.c\<close> and its driver \<^verbatim>\<open>md4_drv.c\<close>.  The
  type \<^verbatim>\<open>UINT4\<close> of \<^verbatim>\<open>global.h\<close> is \<^verbatim>\<open>unsigned long\<close>, whose width depends on the platform, so the
  model is parametric in the word length: it is the code of a platform with \<^verbatim>\<open>'w\<close>-bit longs.  An
  \<^verbatim>\<open>unsigned int\<close> has 32 bits; input lengths are below \<open>2 ^ 32 - 64\<close>, where \<^verbatim>\<open>i + 63\<close> cannot wrap.
\<close>

section \<open>The context\<close>

record 'u MD4_CTX =
  md_state :: "'u list"
  md_count0 :: 'u
  md_count1 :: 'u
  md_buffer :: "byte list"

definition PADDING :: "byte list" where
  "PADDING = 0x80 # replicate 63 0"

section \<open>The transformation\<close>

definition F :: "'w::len word \<Rightarrow> 'w word \<Rightarrow> 'w word \<Rightarrow> 'w word" where
  "F x y z = (x AND y) OR (NOT x AND z)"

definition G :: "'w::len word \<Rightarrow> 'w word \<Rightarrow> 'w word \<Rightarrow> 'w word" where
  "G x y z = (x AND y) OR (x AND z) OR (y AND z)"

definition H :: "'w::len word \<Rightarrow> 'w word \<Rightarrow> 'w word \<Rightarrow> 'w word" where
  "H x y z = x XOR y XOR z"

definition ROTATE_LEFT :: "'w::len word \<Rightarrow> nat \<Rightarrow> 'w word" where
  "ROTATE_LEFT x n = push_bit n x OR drop_bit (32 - n) x"

definition FF :: "'w::len word \<Rightarrow> 'w word \<Rightarrow> 'w word \<Rightarrow> 'w word \<Rightarrow> 'w word \<Rightarrow> nat \<Rightarrow> 'w word" where
  "FF a b c d x s = ROTATE_LEFT (a + (F b c d + x)) s"

definition GG :: "'w::len word \<Rightarrow> 'w word \<Rightarrow> 'w word \<Rightarrow> 'w word \<Rightarrow> 'w word \<Rightarrow> nat \<Rightarrow> 'w word" where
  "GG a b c d x s = ROTATE_LEFT (a + (G b c d + x + 0x5a827999)) s"

definition HH :: "'w::len word \<Rightarrow> 'w word \<Rightarrow> 'w word \<Rightarrow> 'w word \<Rightarrow> 'w word \<Rightarrow> nat \<Rightarrow> 'w word" where
  "HH a b c d x s = ROTATE_LEFT (a + (H b c d + x + 0x6ed9eba1)) s"

text \<open>
  A line \<^verbatim>\<open>FF (a, b, c, d, x[i], s)\<close> assigns to its first argument; the next line has its arguments
  rotated by one, so that a round is a fold of one assignment over pairs of an index and a shift,
  and after four lines every variable is in its place again.
\<close>

type_synonym 'u regs = "'u \<times> 'u \<times> 'u \<times> 'u"

definition round_step ::
  "('u \<Rightarrow> 'u \<Rightarrow> 'u \<Rightarrow> 'u \<Rightarrow> 'u \<Rightarrow> nat \<Rightarrow> 'u) \<Rightarrow> 'u list \<Rightarrow> nat \<times> nat \<Rightarrow> 'u regs \<Rightarrow> 'u regs" where
  "round_step f x p r = (case p of (i, sh) \<Rightarrow> case r of (a, b, c, d) \<Rightarrow> (d, f a b c d (x ! i) sh, b, c))"

definition round1 :: "(nat \<times> nat) list" where
  "round1 = [(0, 3), (1, 7), (2, 11), (3, 19), (4, 3), (5, 7), (6, 11), (7, 19),
             (8, 3), (9, 7), (10, 11), (11, 19), (12, 3), (13, 7), (14, 11), (15, 19)]"

definition round2 :: "(nat \<times> nat) list" where
  "round2 = [(0, 3), (4, 5), (8, 9), (12, 13), (1, 3), (5, 5), (9, 9), (13, 13),
             (2, 3), (6, 5), (10, 9), (14, 13), (3, 3), (7, 5), (11, 9), (15, 13)]"

definition round3 :: "(nat \<times> nat) list" where
  "round3 = [(0, 3), (8, 9), (4, 11), (12, 15), (2, 3), (10, 9), (6, 11), (14, 15),
             (1, 3), (9, 9), (5, 11), (13, 15), (3, 3), (11, 9), (7, 11), (15, 15)]"

definition Decode4 :: "byte list \<Rightarrow> 'w::len word" where
  "Decode4 b = ucast (b ! 0) OR push_bit 8 (ucast (b ! 1)) OR push_bit 16 (ucast (b ! 2)) OR
               push_bit 24 (ucast (b ! 3))"

fun Decode :: "byte list \<Rightarrow> nat \<Rightarrow> 'w::len word list" where
  "Decode input 0 = []"
| "Decode input (Suc n) = Decode4 input # Decode (drop 4 input) n"

definition Encode4 :: "'w::len word \<Rightarrow> byte list" where
  "Encode4 w = [ucast (w AND 0xff), ucast (drop_bit 8 w AND 0xff), ucast (drop_bit 16 w AND 0xff),
                ucast (drop_bit 24 w AND 0xff)]"

definition Encode :: "'w::len word list \<Rightarrow> byte list" where
  "Encode ws = concat (map Encode4 ws)"

definition MD4Transform :: "'w::len word list \<Rightarrow> byte list \<Rightarrow> 'w word list" where
  "MD4Transform st block =
     (let x = Decode block 16;
          r = (st ! 0, st ! 1, st ! 2, st ! 3);
          r = fold (round_step FF x) round1 r;
          r = fold (round_step GG x) round2 r;
          (a, b, c, d) = fold (round_step HH x) round3 r
      in [st ! 0 + a, st ! 1 + b, st ! 2 + c, st ! 3 + d])"

section \<open>The operations\<close>

text \<open>\<^verbatim>\<open>MD4Init\<close> leaves the buffer of the context as it is.\<close>

definition MD4Init :: "'w::len word MD4_CTX \<Rightarrow> 'w word MD4_CTX" where
  "MD4Init ctx = ctx\<lparr>md_count0 := 0, md_count1 := 0,
     md_state := [0x67452301, 0xefcdab89, 0x98badcfe, 0x10325476]\<rparr>"

text \<open>The loop of \<^verbatim>\<open>MD4Update\<close> over whole blocks, with the input that is left.\<close>

function transform_blocks :: "'w::len word list \<Rightarrow> byte list \<Rightarrow> 'w word list \<times> byte list" where
  "transform_blocks st input =
     (if length input \<ge> 64 then transform_blocks (MD4Transform st (take 64 input)) (drop 64 input)
      else (st, input))"
  by pat_completeness auto
termination by (relation "measure (\<lambda>(st, input). length input)") auto

declare transform_blocks.simps [simp del]

definition buffer_index :: "'w::len word MD4_CTX \<Rightarrow> nat" where
  "buffer_index ctx = unat (drop_bit 3 (md_count0 ctx) AND 0x3f)"

definition MD4Update :: "'w::len word MD4_CTX \<Rightarrow> byte list \<Rightarrow> 'w word MD4_CTX" where
  "MD4Update ctx input =
     (let inputLen = length input; index = buffer_index ctx;
          add = push_bit 3 (of_nat inputLen);
          ctx = ctx\<lparr>md_count0 := md_count0 ctx + add\<rparr>;
          ctx = (if md_count0 ctx < add then ctx\<lparr>md_count1 := md_count1 ctx + 1\<rparr> else ctx);
          ctx = ctx\<lparr>md_count1 := md_count1 ctx + drop_bit 29 (of_nat inputLen)\<rparr>;
          partLen = 64 - index
      in if inputLen \<ge> partLen then
           let buffer = put_at index (take partLen input) (md_buffer ctx);
               st = MD4Transform (md_state ctx) buffer;
               (st, rest) = transform_blocks st (drop partLen input)
           in ctx\<lparr>md_state := st, md_buffer := put_at 0 rest buffer\<rparr>
         else ctx\<lparr>md_buffer := put_at index input (md_buffer ctx)\<rparr>)"

definition MD4Final :: "'w::len word MD4_CTX \<Rightarrow> byte list \<times> 'w word MD4_CTX" where
  "MD4Final ctx =
     (let bits = Encode [md_count0 ctx, md_count1 ctx]; index = buffer_index ctx;
          padLen = (if index < 56 then 56 - index else 120 - index);
          ctx = MD4Update ctx (take padLen PADDING);
          ctx = MD4Update ctx bits
      in (Encode (md_state ctx),
          \<lparr>md_state = replicate 4 0, md_count0 = 0, md_count1 = 0, md_buffer = replicate 64 0\<rparr>))"

section \<open>The driver\<close>

definition driver_send_bin :: "emulator \<Rightarrow> byte list \<Rightarrow> world \<Rightarrow> int \<times> world" where
  "driver_send_bin em bin w =
     driver_call em (SendTerm (em_caller em (calls w))
       [TPort, TAtom ''value'', TBinary bin, TTuple 3]) w"

definition driver_send_error :: "emulator \<Rightarrow> string \<Rightarrow> world \<Rightarrow> int \<times> world" where
  "driver_send_error em am w =
     driver_call em (SendTerm (em_caller em (calls w)) [TPort, TAtom ''error'', TAtom am, TTuple 3]) w"

text \<open>
  The context is a local variable; its buffer is what the stack held.  \<open>wordsize\<close> stands for the
  type \<^verbatim>\<open>UINT4\<close>.  The unused fields of \<^verbatim>\<open>t_md4drv\<close> are left out, its port is the driver's own.
\<close>

definition md4drv_start :: "emulator \<Rightarrow> int \<Rightarrow> world \<Rightarrow> bool \<times> world" where
  "md4drv_start em sizeof_md4drv w =
     (let w = log_call (AllocMem sizeof_md4drv) w in (em_alloc em (calls w), w))"

definition md4drv_stop :: "world \<Rightarrow> world" where
  "md4drv_stop w = log_call FreeMem w"

definition local_context :: "emulator \<Rightarrow> world \<Rightarrow> 'w::len word MD4_CTX" where
  "local_context em w =
     \<lparr>md_state = replicate 4 0, md_count0 = 0, md_count1 = 0, md_buffer = junk em w 64\<rparr>"

definition md4drv_from_erlang :: "'w::len itself \<Rightarrow> emulator \<Rightarrow> byte list \<Rightarrow> world \<Rightarrow> world" where
  "md4drv_from_erlang wordsize em buf w =
     (let context = MD4Init (local_context em w :: 'w word MD4_CTX);
          context = MD4Update context buf;
          (digest, context) = MD4Final context
      in case driver_alloc_binary em 16 w of
           (None, w) \<Rightarrow> snd (driver_send_error em ''enomem'' w)
         | (Some bin, w) \<Rightarrow>
             let bin = bin\<lparr>orig_bytes := put_at 0 digest (orig_bytes bin)\<rparr>;
                 (_, w) = driver_send_bin em (orig_bytes bin) w
             in log_call FreeBinary w)"

section \<open>The block loop\<close>

lemma length_MD4Transform [simp]: "length (MD4Transform st b) = 4"
  by (simp add: MD4Transform_def Let_def split: prod.split)

lemma transform_blocks_short [simp]: "length m < 64 \<Longrightarrow> transform_blocks st m = (st, m)"
  by (subst transform_blocks.simps) simp

lemma transform_blocks_block:
  "length b = 64 \<Longrightarrow> transform_blocks st (b @ m) = transform_blocks (MD4Transform st b) m"
  by (subst transform_blocks.simps) simp

lemma transform_blocks_state: "length st = 4 \<Longrightarrow> length (fst (transform_blocks st m)) = 4"
proof (induction st m rule: transform_blocks.induct)
  case (1 st input)
  then show ?case by (cases "length input \<ge> 64") (simp_all add: transform_blocks.simps [of st input])
qed

lemma transform_blocks_rest: "length (snd (transform_blocks st m)) = length m mod 64"
proof (induction st m rule: transform_blocks.induct)
  case (1 st input)
  then show ?case
    by (cases "length input \<ge> 64")
      (simp_all add: transform_blocks.simps [of st input] le_mod_geq [of 64 "length input"])
qed

lemma transform_blocks_append:
  "transform_blocks st (a @ b) =
     transform_blocks (fst (transform_blocks st a)) (snd (transform_blocks st a) @ b)"
proof (induction st a rule: transform_blocks.induct)
  case (1 st input)
  show ?case
  proof (cases "length input \<ge> 64")
    case True
    then show ?thesis using 1 [OF True]
      by (simp add: transform_blocks.simps [of st input] transform_blocks.simps [of st "input @ b"])
  next
    case False
    then show ?thesis by simp
  qed
qed

section \<open>What a context represents\<close>

definition md4_init :: "'w::len word list" where
  "md4_init = [0x67452301, 0xefcdab89, 0x98badcfe, 0x10325476]"

definition represents :: "'w::len word MD4_CTX \<Rightarrow> byte list \<Rightarrow> bool" where
  "represents ctx m \<longleftrightarrow> length (md_buffer ctx) = 64 \<and>
     transform_blocks md4_init m = (md_state ctx, take (length m mod 64) (md_buffer ctx)) \<and>
     md_count0 ctx = of_nat (8 * length m) \<and>
     md_count1 ctx = of_nat (8 * length m div 2 ^ 32)"

lemma buffer_index_represents:
  fixes ctx :: "32 word MD4_CTX"
  assumes "md_count0 ctx = of_nat (8 * n)"
  shows "buffer_index ctx = n mod 64"
proof -
  have "(0x3f :: 32 word) = mask 6" by (simp add: mask_eq_exp_minus_1)
  then have "buffer_index ctx = (8 * n mod (8 * 2 ^ 29)) div 8 mod 64"
    unfolding buffer_index_def assms
    by (simp only: take_bit_eq_mask [symmetric] unsigned_take_bit_eq unat_drop_bit_eq unat_of_nat)
      (simp add: take_bit_eq_mod drop_bit_eq_div)
  also have "\<dots> = n mod 2 ^ 29 mod 64"
    by (simp only: mult_mod_right [symmetric]) simp
  also have "\<dots> = n mod 64"
    by (rule mod_mod_cancel) simp
  finally show ?thesis .
qed

lemma wraps_iff:
  fixes x y z M :: nat
  assumes z: "z = (x + y) mod M" and x: "x < M" and y: "y < M"
  shows "z < y \<longleftrightarrow> M \<le> x + y"
proof (cases "x + y < M")
  case True
  then show ?thesis by (simp add: z)
next
  case False
  then have "(x + y) mod M = x + y - M" using x y by (simp add: mod_if)
  then show ?thesis using False x by (simp add: z)
qed

text \<open>The carry of the 64-bit bit count, kept in two 32-bit words.\<close>

lemma bit_count:
  fixes c0 c1 add :: "32 word"
  assumes c: "c0 = of_nat (8 * n)" "c1 = of_nat (8 * n div 2 ^ 32)"
    and k: "k < 2 ^ 32" and add: "add = push_bit 3 (of_nat k)"
  shows "c0 + add = of_nat (8 * (n + k))"
    and "(if c0 + add < add then c1 + 1 else c1) + drop_bit 29 (of_nat k) =
         of_nat (8 * (n + k) div 2 ^ 32)"
proof -
  have add': "add = of_nat (8 * k)" by (simp add: add push_bit_eq_mult)
  show sum: "c0 + add = of_nat (8 * (n + k))" by (simp add: c add' algebra_simps)
  let ?M = "2 ^ 32 :: nat"
  have u: "unat c0 = 8 * n mod ?M" "unat add = 8 * k mod ?M"
    by (simp_all only: c add' unat_of_nat) simp_all
  have lt: "c0 + add < add \<longleftrightarrow> 8 * n mod ?M + 8 * k mod ?M \<ge> ?M"
  proof -
    have "unat (c0 + add) = (8 * n mod ?M + 8 * k mod ?M) mod ?M"
      by (simp only: unat_word_ariths u) simp
    moreover have "8 * n mod ?M < ?M" "8 * k mod ?M < ?M" by simp_all
    ultimately show ?thesis unfolding word_less_nat_alt u(2) by (rule wraps_iff)
  qed
  have top: "drop_bit 29 (of_nat k :: 32 word) = of_nat (8 * k div ?M)"
  proof -
    have "8 * k div ?M = k div 2 ^ 29" by simp
    moreover have "unat (drop_bit 29 (of_nat k :: 32 word)) = k div 2 ^ 29"
      using k by (simp only: unat_drop_bit_eq unat_of_nat) (simp add: drop_bit_eq_div take_bit_eq_mod)
    ultimately have "unat (drop_bit 29 (of_nat k :: 32 word)) = 8 * k div ?M" by simp
    then have "of_nat (unat (drop_bit 29 (of_nat k :: 32 word))) = (of_nat (8 * k div ?M) :: 32 word)"
      by (rule arg_cong)
    then show ?thesis by simp
  qed
  have "8 * (n + k) div ?M =
      8 * n div ?M + 8 * k div ?M + (8 * n mod ?M + 8 * k mod ?M) div ?M"
    unfolding distrib_left by (rule div_add1_eq)
  moreover have "(8 * n mod ?M + 8 * k mod ?M) div ?M = (if c0 + add < add then 1 else 0)"
  proof -
    have "8 * n mod ?M < ?M" "8 * k mod ?M < ?M" by simp_all
    then show ?thesis unfolding lt by (auto simp: div_if)
  qed
  ultimately show "(if c0 + add < add then c1 + 1 else c1) + drop_bit 29 (of_nat k) =
         of_nat (8 * (n + k) div 2 ^ 32)"
    unfolding top c(2) by simp
qed

text \<open>\<^verbatim>\<open>MD4Update\<close> in any pieces is \<^verbatim>\<open>MD4Update\<close> at once.\<close>

lemma MD4Init_represents:
  "length (md_buffer ctx) = 64 \<Longrightarrow> represents (MD4Init ctx) []"
  by (simp add: represents_def MD4Init_def md4_init_def)

lemma take_append_length: "take (length a) (a @ b) = a"
  by simp

lemma MD4Update_represents:
  fixes ctx :: "32 word MD4_CTX"
  assumes r: "represents ctx m" and k: "length input < 2 ^ 32"
  shows "represents (MD4Update ctx input) (m @ input)"
proof -
  let ?i = "length m mod 64" and ?st = "md_state ctx"
  let ?buf = "take ?i (md_buffer ctx)"
  have idx: "buffer_index ctx = ?i"
    using r buffer_index_represents by (auto simp: represents_def)
  have len: "length (md_buffer ctx) = 64" and tm: "transform_blocks md4_init m = (?st, ?buf)"
    using r by (simp_all add: represents_def)
  have i: "?i < 64" by simp
  note cnt = bit_count [OF _ _ k refl, of "md_count0 ctx" "length m" "md_count1 ctx"]
  have c0: "md_count0 ctx = of_nat (8 * length m)" and c1: "md_count1 ctx = of_nat (8 * length m div 2 ^ 32)"
    using r by (simp_all add: represents_def)
  note cnt = cnt [OF c0 c1]
  let ?ctx = "ctx\<lparr>md_count0 := of_nat (8 * (length m + length input)),
                  md_count1 := of_nat (8 * (length m + length input) div 2 ^ 32)\<rparr>"
  have upd: "MD4Update ctx input =
     (if length input \<ge> 64 - ?i then
        let buffer = put_at ?i (take (64 - ?i) input) (md_buffer ctx);
            (st, rest) = transform_blocks (MD4Transform ?st buffer) (drop (64 - ?i) input)
        in ?ctx\<lparr>md_state := st, md_buffer := put_at 0 rest buffer\<rparr>
      else ?ctx\<lparr>md_buffer := put_at ?i input (md_buffer ctx)\<rparr>)"
    unfolding cnt(2) [symmetric] cnt(1) [symmetric]
    by (simp add: MD4Update_def Let_def idx del: put_at_0)
  have split: "transform_blocks md4_init (m @ input) = transform_blocks ?st (?buf @ input)"
    by (simp add: transform_blocks_append [of _ m] tm)
  have rest: "length ?buf = ?i" using i len by simp
  show ?thesis
  proof (cases "length input \<ge> 64 - ?i")
    case True
    let ?n = "64 - ?i"
    let ?block = "?buf @ take ?n input"
    have pb: "put_at ?i (take ?n input) (md_buffer ctx) = ?block"
      using True i len by (simp add: put_at_def)
    have bl: "length ?block = 64" using True i rest by simp
    have "?buf @ input = ?block @ drop ?n input" by simp
    then have tb: "transform_blocks md4_init (m @ input) =
        transform_blocks (MD4Transform ?st ?block) (drop ?n input)"
      unfolding split by (simp only: transform_blocks_block [OF bl])
    obtain st' rest' where eq:
      "transform_blocks (MD4Transform ?st ?block) (drop ?n input) = (st', rest')" by fastforce
    have lr: "length rest' = length (m @ input) mod 64"
      using transform_blocks_rest [of "md4_init :: 32 word list" "m @ input"] unfolding tb eq by simp
    have "MD4Update ctx input = ?ctx\<lparr>md_state := st', md_buffer := put_at 0 rest' ?block\<rparr>"
      unfolding upd by (simp only: True if_True Let_def pb eq prod.case)
    moreover have "length (put_at 0 rest' ?block) = 64"
      using length_put_at [of 0 rest' ?block] bl lr by (simp del: put_at_0)
    moreover have "take (length (m @ input) mod 64) (put_at 0 rest' ?block) = rest'"
      unfolding lr [symmetric] by simp
    ultimately show ?thesis
      by (simp add: represents_def tb eq del: put_at_0)
  next
    case False
    then have short: "length (?buf @ input) < 64" using rest i by simp
    have "MD4Update ctx input = ?ctx\<lparr>md_buffer := put_at ?i input (md_buffer ctx)\<rparr>"
      unfolding upd by (simp only: False if_False)
    moreover have tb: "transform_blocks md4_init (m @ input) = (?st, ?buf @ input)"
      by (simp only: split transform_blocks_short [OF short])
    moreover have "length (put_at ?i input (md_buffer ctx)) = 64"
      using length_put_at [of ?i input "md_buffer ctx"] short rest len by simp
    moreover have "take (length (m @ input) mod 64) (put_at ?i input (md_buffer ctx)) = ?buf @ input"
    proof -
      have "length (m @ input) mod 64 = length (?buf @ input)"
        using transform_blocks_rest [of "md4_init :: 32 word list" "m @ input"] unfolding tb by simp
      moreover have "put_at ?i input (md_buffer ctx) =
          (?buf @ input) @ drop (?i + length input) (md_buffer ctx)"
        by (simp add: put_at_def)
      ultimately show ?thesis by (simp only: take_append_length)
        qed
    ultimately show ?thesis
      by (simp add: represents_def)
  qed
qed

section \<open>The digest of RFC 1320\<close>

text \<open>
  The message is padded with a one bit and zeros to 56 bytes modulo 64, its length in bits follows
  in eight bytes, low-order word first, and the blocks are folded into the four registers.
\<close>

definition pad_length :: "nat \<Rightarrow> nat" where
  "pad_length n = (if n mod 64 < 56 then 56 - n mod 64 else 120 - n mod 64)"

definition md4_padded :: "byte list \<Rightarrow> byte list" where
  "md4_padded m = m @ take (pad_length (length m)) PADDING @
     Encode [word_of_int (8 * int (length m)) :: 32 word, word_of_int (8 * int (length m) div 2 ^ 32)]"

definition md4_reference :: "byte list \<Rightarrow> byte list" where
  "md4_reference m = Encode (fst (transform_blocks (md4_init :: 32 word list) (md4_padded m)))"

lemma length_words:
  "word_of_int (8 * int n) = (of_nat (8 * n) :: 32 word)"
  "word_of_int (8 * int n div 2 ^ 32) = (of_nat (8 * n div 2 ^ 32) :: 32 word)"
proof -
  have "word_of_int (int k) = (of_nat k :: 32 word)" for k by simp
  from this [of "8 * n"] show "word_of_int (8 * int n) = (of_nat (8 * n) :: 32 word)"
    by (simp only: of_nat_mult of_nat_numeral)
  have "int (8 * n div 2 ^ 32) = 8 * int n div 2 ^ 32"
    by (simp only: zdiv_int of_nat_mult of_nat_numeral of_nat_power)
  then show "word_of_int (8 * int n div 2 ^ 32) = (of_nat (8 * n div 2 ^ 32) :: 32 word)"
    using \<open>\<And>k. word_of_int (int k) = (of_nat k :: 32 word)\<close> by metis
qed

lemma length_Encode [simp]: "length (Encode ws) = 4 * length ws"
  by (induction ws) (simp_all add: Encode_def Encode4_def)

lemma length_PADDING [simp]: "length PADDING = 64"
  by (simp add: PADDING_def)

lemma pad_length_bounds: "1 \<le> pad_length n" "pad_length n \<le> 64"
  using mod_less_divisor [of 64 n] by (auto simp: pad_length_def simp del: mod_less_divisor)

text \<open>The padded message is a whole number of blocks.\<close>

lemma length_md4_padded: "length (md4_padded m) mod 64 = 0"
proof -
  have "pad_length n + n mod 64 + 8 \<in> {64, 128}" for n
    using mod_less_divisor [of 64 n] by (auto simp: pad_length_def)
  then have "(pad_length n + n mod 64 + 8) mod 64 = 0" for n
    by (metis insertE mod_self mod_mult_self2_is_0 mult_2 numeral_Bit0 singletonD)
  then have "(length m + (pad_length (length m) + 8)) mod 64 = 0"
    by (metis add.assoc add.commute mod_add_left_eq)
  moreover have "length (md4_padded m) = length m + (pad_length (length m) + 8)"
    using pad_length_bounds [of "length m"] by (simp add: md4_padded_def min_def)
  ultimately show ?thesis by simp
qed

lemma MD4Final_represents:
  fixes ctx :: "32 word MD4_CTX"
  assumes r: "represents ctx m"
  shows "fst (MD4Final ctx) = md4_reference m"
proof -
  have c: "md_count0 ctx = of_nat (8 * length m)" "md_count1 ctx = of_nat (8 * length m div 2 ^ 32)"
    using r by (simp_all add: represents_def)
  have idx: "buffer_index ctx = length m mod 64"
    by (rule buffer_index_represents) (rule c)
  let ?pad = "take (pad_length (length m)) PADDING"
  let ?bits = "Encode [md_count0 ctx, md_count1 ctx]"
  have "represents (MD4Update ctx ?pad) (m @ ?pad)"
    by (rule MD4Update_represents [OF r]) simp
  then have "represents (MD4Update (MD4Update ctx ?pad) ?bits) ((m @ ?pad) @ ?bits)"
    by (rule MD4Update_represents) simp
  then have "md_state (MD4Update (MD4Update ctx ?pad) ?bits) =
      fst (transform_blocks (md4_init :: 32 word list) (md4_padded m))"
    by (simp only: represents_def md4_padded_def c length_words append_assoc fst_conv)
  moreover have "fst (MD4Final ctx) = Encode (md_state (MD4Update (MD4Update ctx ?pad) ?bits))"
    by (simp only: MD4Final_def Let_def idx pad_length_def fst_conv)
  ultimately show ?thesis by (simp only: md4_reference_def)
qed

text \<open>A context after a sequence of updates.\<close>

definition md4_updates :: "'w::len word MD4_CTX \<Rightarrow> byte list list \<Rightarrow> 'w word MD4_CTX" where
  "md4_updates ctx parts = fold (\<lambda>p c. MD4Update c p) parts ctx"

lemma md4_updates_represents:
  fixes ctx :: "32 word MD4_CTX"
  assumes "represents ctx m" and "\<forall>p \<in> set parts. length p < 2 ^ 32"
  shows "represents (md4_updates ctx parts) (m @ concat parts)"
  using assms
proof (induction parts arbitrary: ctx m)
  case Nil
  then show ?case by (simp add: md4_updates_def)
next
  case (Cons p parts)
  then have "represents (MD4Update ctx p) (m @ p)"
    by (intro MD4Update_represents) simp_all
  from Cons.IH [OF this] Cons.prems show ?case by (simp add: md4_updates_def)
qed

text \<open>The words of a block are its bytes in little-endian order.\<close>

lemma Decode4_Encode4: "Decode4 (Encode4 w @ r) = (w :: 32 word)"
proof -
  have mask: "(0xff :: 32 word) = mask 8" by (simp add: mask_eq_exp_minus_1)
  have "w8 (x AND 0xff) = w8 x" for x
    unfolding mask by (rule bit_word_eqI) (simp add: bit_simps)
  then have "Encode4 w = [w8 w, w8 (drop_bit 8 w), w8 (drop_bit 16 w), w8 (drop_bit 24 w)]"
    by (simp add: Encode4_def)
  then show ?thesis
    using four_bytes_word [of w] by (simp add: Decode4_def ac_simps)
qed

lemma Decode_Encode: "Decode (Encode ws @ r) (length ws) = (ws :: 32 word list)"
proof (induction ws)
  case (Cons w ws)
  have "Encode (w # ws) @ r = Encode4 w @ Encode ws @ r" by (simp add: Encode_def)
  moreover have "drop 4 (Encode4 w @ Encode ws @ r) = Encode ws @ r" by (simp add: Encode4_def)
  ultimately show ?case using Cons.IH by (simp add: Decode4_Encode4)
qed simp

text \<open>Two of the test vectors of RFC 1320.\<close>

lemma md4_reference_empty:
  "md4_reference [] = [0x31, 0xd6, 0xcf, 0xe0, 0xd1, 0x6a, 0xe9, 0x31, 0xb7, 0x3c, 0x59, 0xd7, 0xe0, 0xc0, 0x89, 0xc0]"
  by code_simp

lemma md4_reference_abc:
  "md4_reference [97, 98, 99] =
     [0xa4, 0x48, 0x01, 0x7a, 0xaf, 0x21, 0xd8, 0x52, 0x5f, 0xc1, 0x0a, 0xe8, 0x7a, 0xa6, 0x72, 0x9d]"
  by code_simp

end
