(* ===== verification/Serial_Line.thy ===== *)
theory Serial_Line
  imports Driver_Api
begin

unbundle bit_operations_syntax

text \<open>
  The line settings of the serial driver (\<^verbatim>\<open>sl/c_src/sl_drv.c\<close>, its Unix half): the state of a
  port, the table of rates and the functions that read and write one setting in the terminal
  attributes.  The constants are those of \<^verbatim>\<open>termios.h\<close> of the GNU C library on Linux.
\<close>

section \<open>Terminal attributes\<close>

abbreviation (input) "IGNBRK \<equiv> 0x1 :: 32 word"
abbreviation (input) "BRKINT \<equiv> 0x2 :: 32 word"
abbreviation (input) "IGNPAR \<equiv> 0x4 :: 32 word"
abbreviation (input) "PARMRK \<equiv> 0x8 :: 32 word"
abbreviation (input) "INPCK \<equiv> 0x10 :: 32 word"
abbreviation (input) "ISTRIP \<equiv> 0x20 :: 32 word"
abbreviation (input) "INLCR \<equiv> 0x40 :: 32 word"
abbreviation (input) "IGNCR \<equiv> 0x80 :: 32 word"
abbreviation (input) "ICRNL \<equiv> 0x100 :: 32 word"
abbreviation (input) "IXON \<equiv> 0x400 :: 32 word"
abbreviation (input) "IXOFF \<equiv> 0x1000 :: 32 word"
abbreviation (input) "IBAUD0 \<equiv> 0x80000000 :: 32 word"
abbreviation (input) "OPOST \<equiv> 0x1 :: 32 word"
abbreviation (input) "CSIZE \<equiv> 0x30 :: 32 word"
abbreviation (input) "CS5 \<equiv> 0x0 :: 32 word"
abbreviation (input) "CS6 \<equiv> 0x10 :: 32 word"
abbreviation (input) "CS7 \<equiv> 0x20 :: 32 word"
abbreviation (input) "CS8 \<equiv> 0x30 :: 32 word"
abbreviation (input) "CSTOPB \<equiv> 0x40 :: 32 word"
abbreviation (input) "PARENB \<equiv> 0x100 :: 32 word"
abbreviation (input) "PARODD \<equiv> 0x200 :: 32 word"
abbreviation (input) "CLOCAL \<equiv> 0x800 :: 32 word"
abbreviation (input) "CBAUD \<equiv> 0x100f :: 32 word"
abbreviation (input) "CRTSCTS \<equiv> 0x80000000 :: 32 word"
abbreviation (input) "ISIG \<equiv> 0x1 :: 32 word"
abbreviation (input) "ICANON \<equiv> 0x2 :: 32 word"
abbreviation (input) "ECHO \<equiv> 0x8 :: 32 word"
abbreviation (input) "ECHOE \<equiv> 0x10 :: 32 word"
abbreviation (input) "ECHOK \<equiv> 0x20 :: 32 word"
abbreviation (input) "ECHONL \<equiv> 0x40 :: 32 word"
abbreviation (input) "ECHOKE \<equiv> 0x800 :: 32 word"
abbreviation (input) "IEXTEN \<equiv> 0x8000 :: 32 word"

abbreviation (input) "NCCS \<equiv> 32 :: nat"
abbreviation (input) "VINTR \<equiv> 0 :: nat"
abbreviation (input) "VQUIT \<equiv> 1 :: nat"
abbreviation (input) "VERASE \<equiv> 2 :: nat"
abbreviation (input) "VKILL \<equiv> 3 :: nat"
abbreviation (input) "VEOF \<equiv> 4 :: nat"
abbreviation (input) "VTIME \<equiv> 5 :: nat"
abbreviation (input) "VMIN \<equiv> 6 :: nat"
abbreviation (input) "VSWTC \<equiv> 7 :: nat"
abbreviation (input) "VSTART \<equiv> 8 :: nat"
abbreviation (input) "VSTOP \<equiv> 9 :: nat"
abbreviation (input) "VSUSP \<equiv> 10 :: nat"
abbreviation (input) "VEOL \<equiv> 11 :: nat"
abbreviation (input) "VREPRINT \<equiv> 12 :: nat"
abbreviation (input) "VDISCARD \<equiv> 13 :: nat"
abbreviation (input) "VWERASE \<equiv> 14 :: nat"
abbreviation (input) "VLNEXT \<equiv> 15 :: nat"
abbreviation (input) "VEOL2 \<equiv> 16 :: nat"

text \<open>
  \<^verbatim>\<open>cfsetispeed\<close>, \<^verbatim>\<open>cfsetospeed\<close> and \<^verbatim>\<open>cfgetispeed\<close>: the library keeps one speed for both
  directions in \<^verbatim>\<open>c_cflag\<close>, and in \<^verbatim>\<open>c_iflag\<close> that the input speed was set to zero.  A speed that is
  none is an error and changes nothing.
\<close>

definition speed_ok :: "32 word \<Rightarrow> bool" where
  "speed_ok speed \<longleftrightarrow> speed AND NOT CBAUD = 0 \<or> 0x1001 \<le> speed \<and> speed \<le> 0x100f"

definition cfsetospeed :: "termios \<Rightarrow> 32 word \<Rightarrow> termios" where
  "cfsetospeed t speed =
     (if speed_ok speed then t\<lparr>c_cflag := (c_cflag t AND NOT CBAUD) OR speed\<rparr> else t)"

definition cfsetispeed :: "termios \<Rightarrow> 32 word \<Rightarrow> termios" where
  "cfsetispeed t speed =
     (if \<not> speed_ok speed then t
      else if speed = 0 then t\<lparr>c_iflag := c_iflag t OR IBAUD0\<rparr>
      else t\<lparr>c_iflag := c_iflag t AND NOT IBAUD0,
             c_cflag := (c_cflag t AND NOT CBAUD) OR speed\<rparr>)"

definition cfgetispeed :: "termios \<Rightarrow> 32 word" where
  "cfgetispeed t = (if c_iflag t AND IBAUD0 \<noteq> 0 then 0 else c_cflag t AND CBAUD)"

section \<open>Rates\<close>

text \<open>The table up to the entry with the rate \<open>- 1\<close> that ends it.\<close>

definition rtab :: "(int \<times> 32 word) list" where
  "rtab =
     [(0, 0), (50, 1), (75, 2), (110, 3), (134, 4), (150, 5), (200, 6), (300, 7), (600, 8),
      (1200, 9), (1800, 10), (2400, 11), (4800, 12), (9600, 13), (19200, 14), (38400, 15),
      (57600, 0x1001), (115200, 0x1002), (230400, 0x1003), (460800, 0x1004), (500000, 0x1005),
      (576000, 0x1006), (921600, 0x1007), (1000000, 0x1008), (1152000, 0x1009),
      (1500000, 0x100a), (2000000, 0x100b), (2500000, 0x100c), (3000000, 0x100d),
      (3500000, 0x100e), (4000000, 0x100f)]"

fun find_rate :: "int \<Rightarrow> 32 word \<Rightarrow> (int \<times> 32 word) list \<Rightarrow> 32 word" where
  "find_rate baud prev [] = prev"
| "find_rate baud prev ((b, sp) # tab) = (if baud > b then find_rate baud sp tab else sp)"

text \<open>\<open>prev\<close> is the speed of the entry before, which is taken when the table is exhausted.\<close>

definition to_speed :: "int \<Rightarrow> 32 word" where
  "to_speed baud = find_rate baud 0 rtab"

fun find_speed :: "32 word \<Rightarrow> (int \<times> 32 word) list \<Rightarrow> int" where
  "find_speed speed [] = - 1"
| "find_speed speed ((b, sp) # tab) = (if sp \<noteq> speed then find_speed speed tab else b)"

definition from_speed :: "32 word \<Rightarrow> int" where
  "from_speed speed = find_speed speed rtab"

section \<open>The state of a port\<close>

text \<open>
  The structure \<^verbatim>\<open>sl_t\<close>; \<open>com\<close> is the file descriptor, \<open>- 1\<close> for \<^verbatim>\<open>INVALID\<close>.  The device name is
  the block \<^verbatim>\<open>dev\<close> points to without its terminating zero.
\<close>

record sl_t = world +
  sl_com :: int
  sl_ilen :: int
  sl_ibuf :: "byte list option"
  sl_ipending :: int
  sl_olen :: int
  sl_obuf :: "byte list option"
  sl_opending :: int
  sl_cmode :: int
  sl_tio :: termios
  sl_dev :: "byte list option"
  sl_flags :: "32 word"
  sl_baud :: int
  sl_csize :: int
  sl_stopb :: int
  sl_parity :: int
  sl_hwflow :: int
  sl_swflow :: int
  sl_echo :: int
  sl_xonchar :: int
  sl_xoffchar :: int
  sl_eolchar :: int
  sl_eol2char :: int
  sl_bufsz :: int
  sl_buftm :: int
  sl_mode :: int

abbreviation (input) "SL_MODE_RAW \<equiv> 0 :: int"
abbreviation (input) "SL_MODE_LINE \<equiv> 1 :: int"

abbreviation (input) "FL_BAUD \<equiv> 0x1 :: 32 word"
abbreviation (input) "FL_CSIZE \<equiv> 0x4 :: 32 word"
abbreviation (input) "FL_STOPB \<equiv> 0x8 :: 32 word"
abbreviation (input) "FL_PARITY \<equiv> 0x10 :: 32 word"
abbreviation (input) "FL_BUFSZ \<equiv> 0x20 :: 32 word"
abbreviation (input) "FL_BUFTM \<equiv> 0x40 :: 32 word"
abbreviation (input) "FL_HWFLOW \<equiv> 0x80 :: 32 word"
abbreviation (input) "FL_SWFLOW \<equiv> 0x100 :: 32 word"
abbreviation (input) "FL_XONCHAR \<equiv> 0x200 :: 32 word"
abbreviation (input) "FL_XOFFCHAR \<equiv> 0x400 :: 32 word"
abbreviation (input) "FL_ECHO \<equiv> 0x800 :: 32 word"
abbreviation (input) "FL_EOLCHAR \<equiv> 0x1000 :: 32 word"
abbreviation (input) "FL_EOL2CHAR \<equiv> 0x2000 :: 32 word"
abbreviation (input) "FL_MODE \<equiv> 0x8000 :: 32 word"

section \<open>Modes\<close>

text \<open>Changes of one word of the attributes of a port, and of one control character.\<close>

definition iflag :: "(32 word \<Rightarrow> 32 word) \<Rightarrow> sl_t \<Rightarrow> sl_t" where
  "iflag f s = s\<lparr>sl_tio := (sl_tio s)\<lparr>c_iflag := f (c_iflag (sl_tio s))\<rparr>\<rparr>"

definition oflag :: "(32 word \<Rightarrow> 32 word) \<Rightarrow> sl_t \<Rightarrow> sl_t" where
  "oflag f s = s\<lparr>sl_tio := (sl_tio s)\<lparr>c_oflag := f (c_oflag (sl_tio s))\<rparr>\<rparr>"

definition cflag :: "(32 word \<Rightarrow> 32 word) \<Rightarrow> sl_t \<Rightarrow> sl_t" where
  "cflag f s = s\<lparr>sl_tio := (sl_tio s)\<lparr>c_cflag := f (c_cflag (sl_tio s))\<rparr>\<rparr>"

definition lflag :: "(32 word \<Rightarrow> 32 word) \<Rightarrow> sl_t \<Rightarrow> sl_t" where
  "lflag f s = s\<lparr>sl_tio := (sl_tio s)\<lparr>c_lflag := f (c_lflag (sl_tio s))\<rparr>\<rparr>"

definition put_cc :: "nat \<Rightarrow> int \<Rightarrow> sl_t \<Rightarrow> sl_t" where
  "put_cc k c s = s\<lparr>sl_tio := (sl_tio s)\<lparr>c_cc := (c_cc (sl_tio s))[k := word_of_int c]\<rparr>\<rparr>"

definition get_cc :: "nat \<Rightarrow> sl_t \<Rightarrow> int" where
  "get_cc k s = uint (c_cc (sl_tio s) ! k)"

definition set_raw_mode :: "sl_t \<Rightarrow> sl_t" where
  "set_raw_mode s =
     (let s = iflag (\<lambda>w. w AND NOT (ICRNL OR INLCR OR IGNCR OR ISTRIP OR BRKINT OR IGNPAR OR IGNBRK OR INPCK)) s;
          s = lflag (\<lambda>w. w AND NOT (ECHOE OR ECHOK OR ECHOKE OR ECHONL OR ISIG OR IEXTEN)) s;
          s = lflag (\<lambda>w. w AND NOT ICANON) s;
          s = oflag (\<lambda>w. w AND NOT OPOST) s;
          s = cflag (\<lambda>w. w OR CLOCAL) s;
          s = put_cc VTIME 0 (put_cc VMIN 1 s)
      in s\<lparr>sl_cmode := SL_MODE_RAW\<rparr>)"

definition set_line_mode :: "sl_t \<Rightarrow> sl_t" where
  "set_line_mode s =
     (let s = iflag (\<lambda>w. w AND NOT (ICRNL OR INLCR OR IGNCR OR ISTRIP OR BRKINT OR IGNPAR OR IGNBRK OR INPCK)) s;
          s = lflag (\<lambda>w. w AND NOT (ECHOE OR ECHOK OR ECHOKE OR ECHONL OR ISIG OR IEXTEN)) s;
          s = lflag (\<lambda>w. w OR ICANON) s;
          s = oflag (\<lambda>w. w AND NOT OPOST) s;
          s = cflag (\<lambda>w. w OR CLOCAL) s;
          s = foldl (\<lambda>s k. put_cc k 0 s) s
                [VINTR, VQUIT, VERASE, VKILL, VEOF, VSWTC, VSUSP, VEOL, VDISCARD, VREPRINT,
                 VWERASE, VLNEXT, VEOL2]
      in s\<lparr>sl_cmode := SL_MODE_LINE\<rparr>)"

section \<open>The settings\<close>

definition set_baud :: "int \<Rightarrow> sl_t \<Rightarrow> sl_t" where
  "set_baud baud s =
     s\<lparr>sl_tio := cfsetospeed (cfsetispeed (sl_tio s) (to_speed baud)) (to_speed baud)\<rparr>"

definition get_baud :: "sl_t \<Rightarrow> int" where
  "get_baud s = from_speed (cfgetispeed (sl_tio s))"

definition set_parity :: "int \<Rightarrow> sl_t \<Rightarrow> sl_t" where
  "set_parity parity s =
     (if parity = 0 then cflag (\<lambda>w. w AND NOT PARENB) (iflag (\<lambda>w. w AND NOT PARMRK) s)
      else if parity = 1 then
        cflag (\<lambda>w. w OR PARENB) (cflag (\<lambda>w. w OR PARODD) (iflag (\<lambda>w. w AND NOT PARMRK) s))
      else if parity = 2 then
        cflag (\<lambda>w. w OR PARENB) (cflag (\<lambda>w. w AND NOT PARODD) (iflag (\<lambda>w. w AND NOT PARMRK) s))
      else if parity = 3 then cflag (\<lambda>w. w OR PARENB) (iflag (\<lambda>w. w OR PARMRK) s)
      else s)"

definition get_parity :: "sl_t \<Rightarrow> int" where
  "get_parity s =
     (if c_cflag (sl_tio s) AND PARENB \<noteq> 0 then
        if c_iflag (sl_tio s) AND PARMRK \<noteq> 0 then 3
        else if c_cflag (sl_tio s) AND PARODD \<noteq> 0 then 1 else 2
      else 0)"

definition set_stopb :: "int \<Rightarrow> sl_t \<Rightarrow> sl_t" where
  "set_stopb stopb s =
     (if stopb = 1 then cflag (\<lambda>w. w AND NOT CSTOPB) s
      else if stopb = 2 then cflag (\<lambda>w. w OR CSTOPB) s else s)"

definition get_stopb :: "sl_t \<Rightarrow> int" where
  "get_stopb s = (if c_cflag (sl_tio s) AND CSTOPB \<noteq> 0 then 2 else 1)"

definition set_csize :: "int \<Rightarrow> sl_t \<Rightarrow> sl_t" where
  "set_csize csize s =
     (let s = cflag (\<lambda>w. w AND NOT CSIZE) s in
      if csize = 5 then cflag (\<lambda>w. w OR CS5) s
      else if csize = 6 then cflag (\<lambda>w. w OR CS6) s
      else if csize = 7 then cflag (\<lambda>w. w OR CS7) s
      else if csize = 8 then cflag (\<lambda>w. w OR CS8) s
      else s)"

definition get_csize :: "sl_t \<Rightarrow> int" where
  "get_csize s =
     (let w = c_cflag (sl_tio s) AND CSIZE in
      if w = CS5 then 5 else if w = CS6 then 6 else if w = CS7 then 7 else if w = CS8 then 8
      else - 1)"

definition set_bufsz :: "int \<Rightarrow> sl_t \<Rightarrow> sl_t" where "set_bufsz bufsz = put_cc VMIN bufsz"
definition get_bufsz :: "sl_t \<Rightarrow> int" where "get_bufsz = get_cc VMIN"
definition set_buftm :: "int \<Rightarrow> sl_t \<Rightarrow> sl_t" where "set_buftm buftm = put_cc VTIME buftm"
definition get_buftm :: "sl_t \<Rightarrow> int" where "get_buftm = get_cc VTIME"
definition set_xonchar :: "int \<Rightarrow> sl_t \<Rightarrow> sl_t" where "set_xonchar xonchar = put_cc VSTART xonchar"
definition get_xonchar :: "sl_t \<Rightarrow> int" where "get_xonchar = get_cc VSTART"
definition set_xoffchar :: "int \<Rightarrow> sl_t \<Rightarrow> sl_t" where "set_xoffchar xoffchar = put_cc VSTOP xoffchar"
definition get_xoffchar :: "sl_t \<Rightarrow> int" where "get_xoffchar = get_cc VSTOP"
definition set_eolchar :: "int \<Rightarrow> sl_t \<Rightarrow> sl_t" where "set_eolchar eolchar = put_cc VEOL eolchar"
definition get_eolchar :: "sl_t \<Rightarrow> int" where "get_eolchar = get_cc VEOL"
definition set_eol2char :: "int \<Rightarrow> sl_t \<Rightarrow> sl_t" where "set_eol2char eol2char = put_cc VEOL2 eol2char"
definition get_eol2char :: "sl_t \<Rightarrow> int" where "get_eol2char = get_cc VEOL2"

text \<open>Software flow control is set in \<^verbatim>\<open>c_cflag\<close>, though \<^verbatim>\<open>IXON\<close> and \<^verbatim>\<open>IXOFF\<close> are flags of \<^verbatim>\<open>c_iflag\<close>.\<close>

definition set_swflow :: "int \<Rightarrow> sl_t \<Rightarrow> sl_t" where
  "set_swflow on s =
     (if on \<noteq> 0 then cflag (\<lambda>w. w OR (IXON OR IXOFF)) s
      else cflag (\<lambda>w. w AND NOT (IXON OR IXOFF)) s)"

definition get_swflow :: "sl_t \<Rightarrow> int" where
  "get_swflow s =
     (let w = c_cflag (sl_tio s) AND (IXON OR IXOFF) in
      if w = 0 then 0 else if w = IXON OR IXOFF then 1 else - 1)"

text \<open>\<^verbatim>\<open>set_hwflow\<close> looks at the pending value, not at its argument.\<close>

definition set_hwflow :: "int \<Rightarrow> sl_t \<Rightarrow> sl_t" where
  "set_hwflow on s =
     (if sl_hwflow s \<noteq> 0 then cflag (\<lambda>w. w OR CRTSCTS) s else cflag (\<lambda>w. w AND NOT CRTSCTS) s)"

definition get_hwflow :: "sl_t \<Rightarrow> int" where
  "get_hwflow s = (if c_cflag (sl_tio s) AND CRTSCTS \<noteq> 0 then 1 else 0)"

definition set_echo :: "int \<Rightarrow> sl_t \<Rightarrow> sl_t" where
  "set_echo on s =
     (if on \<noteq> 0 then lflag (\<lambda>w. w OR ECHO) s else lflag (\<lambda>w. w AND NOT ECHO) s)"

definition get_echo :: "sl_t \<Rightarrow> int" where
  "get_echo s = (if c_lflag (sl_tio s) AND ECHO \<noteq> 0 then 1 else 0)"

section \<open>Rates and speeds\<close>

lemma rtab_checked:
  "list_all (\<lambda>(b, sp). from_speed (to_speed b) = b \<and> (sp AND 0x1000 \<noteq> 0 \<longleftrightarrow> 38400 < b) \<and>
      to_speed b = sp \<and> sp AND CBAUD = sp \<and> speed_ok sp \<and>
      (if 38400 < b then sp OR 0x1000 = sp \<and> from_speed (sp AND NOT 0x1000) \<le> 38400
       else sp AND NOT 0x1000 = sp) \<and> (sp = 0 \<longleftrightarrow> b = 0)) rtab"
  by code_simp

lemma rtab_speeds:
  assumes "b \<in> fst ` set rtab"
  shows "from_speed (to_speed b) = b" "to_speed b = 0 \<longleftrightarrow> b = 0"
    "38400 < b \<Longrightarrow> to_speed b OR 0x1000 = to_speed b" "\<not> 38400 < b \<Longrightarrow> to_speed b AND NOT 0x1000 = to_speed b"
    "38400 < b \<Longrightarrow> from_speed (to_speed b AND NOT 0x1000) \<le> 38400"
  using rtab_checked assms by (auto simp: list_all_iff split: if_splits)

lemma find_rate_in: "find_rate baud prev tab \<in> insert prev (snd ` set tab)"
  by (induction baud prev tab rule: find_rate.induct) auto

lemma to_speed_ok: "to_speed b AND CBAUD = to_speed b" "speed_ok (to_speed b)"
proof -
  have "to_speed b \<in> insert 0 (snd ` set rtab)" unfolding to_speed_def by (rule find_rate_in)
  moreover have "\<forall>sp \<in> snd ` set rtab. sp AND CBAUD = sp \<and> speed_ok sp"
    using rtab_checked by (auto simp: list_all_iff)
  moreover have "speed_ok 0" by (simp add: speed_ok_def)
  ultimately show "to_speed b AND CBAUD = to_speed b" "speed_ok (to_speed b)" by (metis insertE and_zero_eq zero_and_eq)+
qed

text \<open>The search in a table whose rates increase finds the first rate that is not too small.\<close>

lemma find_rate_least:
  assumes "sorted_wrt (<) (map fst tab)" "(r, sp) \<in> set tab" "baud \<le> r" "\<forall>b \<in> fst ` set tab. baud \<le> b \<longrightarrow> r \<le> b"
  shows "find_rate baud prev tab = sp"
  using assms
proof (induction baud prev tab rule: find_rate.induct)
  case (2 baud prev b sp' tab)
  show ?case
  proof (cases "baud > b")
    case True
    then show ?thesis using 2 by auto
  next
    case False
    then have "r \<le> b" using 2(5) by simp
    moreover have "(r, sp) \<in> set tab \<Longrightarrow> b < r" using 2(2) by force
    ultimately show ?thesis using False 2(3) by auto
  qed
qed simp

lemma find_rate_beyond:
  "\<forall>b \<in> fst ` set tab. b < baud \<Longrightarrow> find_rate baud prev tab = last (prev # map snd tab)"
  by (induction baud prev tab rule: find_rate.induct) auto

section \<open>What a setting changes\<close>

lemma no_common_bit: "m AND k = 0 \<Longrightarrow> bit m n \<Longrightarrow> \<not> bit k n" for m k :: "32 word"
  by (metis bit_and_iff bit_0_eq bot_apply bot_bool_def)

lemma outside_or: "m AND k = 0 \<Longrightarrow> (w OR k) AND m = w AND m" for m k w :: "32 word"
  by (auto simp: bit_eq_iff bit_simps dest: no_common_bit)

lemma outside_and_not: "m AND k = 0 \<Longrightarrow> (w AND NOT k) AND m = w AND m" for m k w :: "32 word"
  by (auto simp: bit_eq_iff bit_simps dest: no_common_bit)

lemma within_bit: "m AND k = m \<Longrightarrow> bit m n \<Longrightarrow> bit k n" for m k :: "32 word"
  by (metis bit_and_iff)

lemma inside_or: "m AND k = m \<Longrightarrow> (w OR k) AND m = m" for m k w :: "32 word"
  by (auto simp: bit_eq_iff bit_simps dest: within_bit)

lemma inside_and_not: "m AND k = m \<Longrightarrow> (w AND NOT k) AND m = 0" for m k w :: "32 word"
  by (auto simp: bit_eq_iff bit_simps dest: within_bit)

text \<open>The attributes of a line have all the control characters.\<close>

definition wf_line :: "sl_t \<Rightarrow> bool" where
  "wf_line s \<longleftrightarrow> length (c_cc (sl_tio s)) = NCCS"

lemma iflag_simps [simp]:
  "c_iflag (sl_tio (iflag f s)) = f (c_iflag (sl_tio s))" "c_oflag (sl_tio (iflag f s)) = c_oflag (sl_tio s)"
  "c_cflag (sl_tio (iflag f s)) = c_cflag (sl_tio s)" "c_lflag (sl_tio (iflag f s)) = c_lflag (sl_tio s)"
  "c_cc (sl_tio (iflag f s)) = c_cc (sl_tio s)"
  by (simp_all add: iflag_def)

lemma oflag_simps [simp]:
  "c_iflag (sl_tio (oflag f s)) = c_iflag (sl_tio s)" "c_oflag (sl_tio (oflag f s)) = f (c_oflag (sl_tio s))"
  "c_cflag (sl_tio (oflag f s)) = c_cflag (sl_tio s)" "c_lflag (sl_tio (oflag f s)) = c_lflag (sl_tio s)"
  "c_cc (sl_tio (oflag f s)) = c_cc (sl_tio s)"
  by (simp_all add: oflag_def)

lemma cflag_simps [simp]:
  "c_iflag (sl_tio (cflag f s)) = c_iflag (sl_tio s)" "c_oflag (sl_tio (cflag f s)) = c_oflag (sl_tio s)"
  "c_cflag (sl_tio (cflag f s)) = f (c_cflag (sl_tio s))" "c_lflag (sl_tio (cflag f s)) = c_lflag (sl_tio s)"
  "c_cc (sl_tio (cflag f s)) = c_cc (sl_tio s)"
  by (simp_all add: cflag_def)

lemma lflag_simps [simp]:
  "c_iflag (sl_tio (lflag f s)) = c_iflag (sl_tio s)" "c_oflag (sl_tio (lflag f s)) = c_oflag (sl_tio s)"
  "c_cflag (sl_tio (lflag f s)) = c_cflag (sl_tio s)" "c_lflag (sl_tio (lflag f s)) = f (c_lflag (sl_tio s))"
  "c_cc (sl_tio (lflag f s)) = c_cc (sl_tio s)"
  by (simp_all add: lflag_def)

lemma put_cc_simps [simp]:
  "c_iflag (sl_tio (put_cc k c s)) = c_iflag (sl_tio s)" "c_oflag (sl_tio (put_cc k c s)) = c_oflag (sl_tio s)"
  "c_cflag (sl_tio (put_cc k c s)) = c_cflag (sl_tio s)" "c_lflag (sl_tio (put_cc k c s)) = c_lflag (sl_tio s)"
  "c_cc (sl_tio (put_cc k c s)) = (c_cc (sl_tio s))[k := word_of_int c]"
  by (simp_all add: put_cc_def)

lemma speed_simps [simp]:
  "c_oflag (cfsetispeed t sp) = c_oflag t" "c_lflag (cfsetispeed t sp) = c_lflag t"
  "c_cc (cfsetispeed t sp) = c_cc t" "c_iflag (cfsetospeed t sp) = c_iflag t"
  "c_oflag (cfsetospeed t sp) = c_oflag t" "c_lflag (cfsetospeed t sp) = c_lflag t"
  "c_cc (cfsetospeed t sp) = c_cc t"
  by (simp_all add: cfsetispeed_def cfsetospeed_def)

lemma mask_twice: "(((w AND NOT k) OR v) AND NOT k) OR v = (w AND NOT k) OR v" for k v w :: "32 word"
  by (auto simp: bit_eq_iff bit_simps)

lemma inside_mask: "v AND k = v \<Longrightarrow> ((w AND NOT k) OR v) AND k = v" for k v w :: "32 word"
  by (auto simp: bit_eq_iff bit_simps dest: within_bit)

lemma outside_mask: "v AND k = v \<Longrightarrow> m AND k = 0 \<Longrightarrow> ((w AND NOT k) OR v) AND m = w AND m"
  for k v w m :: "32 word"
  by (auto simp: bit_eq_iff bit_simps dest: within_bit no_common_bit)

lemma set_baud_tio:
  "c_cflag (sl_tio (set_baud b s)) = (c_cflag (sl_tio s) AND NOT CBAUD) OR to_speed b"
  "c_iflag (sl_tio (set_baud b s)) =
     (if to_speed b = 0 then c_iflag (sl_tio s) OR IBAUD0 else c_iflag (sl_tio s) AND NOT IBAUD0)"
  "c_lflag (sl_tio (set_baud b s)) = c_lflag (sl_tio s)" "c_cc (sl_tio (set_baud b s)) = c_cc (sl_tio s)"
  using to_speed_ok(2) [of b]
  by (simp_all add: set_baud_def cfsetispeed_def cfsetospeed_def mask_twice [of _ CBAUD, simplified])

text \<open>Flags outside the rate, and the two flags of \<^verbatim>\<open>c_iflag\<close> and \<^verbatim>\<open>c_cflag\<close> the rate uses.\<close>

lemma set_baud_flags:
  shows "m AND CBAUD = 0 \<Longrightarrow> c_cflag (sl_tio (set_baud b s)) AND m = c_cflag (sl_tio s) AND m"
    and "m AND IBAUD0 = 0 \<Longrightarrow> c_iflag (sl_tio (set_baud b s)) AND m = c_iflag (sl_tio s) AND m"
    and "c_cflag (sl_tio (set_baud b s)) AND CBAUD = to_speed b"
    and "c_iflag (sl_tio (set_baud b s)) AND IBAUD0 = (if to_speed b = 0 then IBAUD0 else 0)"
proof -
  show "m AND CBAUD = 0 \<Longrightarrow> c_cflag (sl_tio (set_baud b s)) AND m = c_cflag (sl_tio s) AND m"
    unfolding set_baud_tio by (rule outside_mask [OF to_speed_ok(1)])
  show "m AND IBAUD0 = 0 \<Longrightarrow> c_iflag (sl_tio (set_baud b s)) AND m = c_iflag (sl_tio s) AND m"
    unfolding set_baud_tio
    by (cases "to_speed b = 0") (simp_all only: simp_thms if_True if_False outside_or outside_and_not)
  show "c_cflag (sl_tio (set_baud b s)) AND CBAUD = to_speed b"
    unfolding set_baud_tio by (rule inside_mask [OF to_speed_ok(1)])
  show "c_iflag (sl_tio (set_baud b s)) AND IBAUD0 = (if to_speed b = 0 then IBAUD0 else 0)"
    unfolding set_baud_tio
    by (cases "to_speed b = 0") (simp_all only: simp_thms if_True if_False inside_or inside_and_not and.idem)
qed

end
