(* ===== verification/Serial_Settings.thy ===== *)
theory Serial_Settings
  imports Serial_Line
begin

text \<open>
  The settings of the serial driver read back what was set: the locale \<open>setting\<close> is the contract of
  one setting, interpreted for each of the thirteen, and the lemmas say that a setting leaves the
  others alone.
\<close>

section \<open>Reading a setting back\<close>

text \<open>
  Masks are numbers here, so the flags of one setting seen through the mask of another are
  evaluated: an \<^verbatim>\<open>AND\<close> with a mask is moved to the word that is changed.
\<close>

lemmas masked = and.assoc bit.conj_disj_distrib2

text \<open>
  The contract of a setting: after its function has been called with the pending value, the value
  is read back, and the function has changed nothing but the attributes.
\<close>

locale setting =
  fixes change :: "sl_t \<Rightarrow> sl_t" and get :: "sl_t \<Rightarrow> int" and pend :: "sl_t \<Rightarrow> int" and ok :: "int \<Rightarrow> bool"
  assumes get_change: "wf_line s \<Longrightarrow> ok (pend s) \<Longrightarrow> get (change s) = pend s"
    and change_tio: "\<exists>t. change s = s\<lparr>sl_tio := t\<rparr>"
    and change_wf: "wf_line (change s) = wf_line s"
begin

lemma change_frame: "(\<And>t. f (s\<lparr>sl_tio := t\<rparr>) = f s) \<Longrightarrow> f (change s) = f s"
  using change_tio [of s] by auto

lemma change_twice: "wf_line s \<Longrightarrow> ok (pend s) \<Longrightarrow> (\<And>t. pend (s\<lparr>sl_tio := t\<rparr>) = pend s) \<Longrightarrow>
    get (change (change s)) = pend s"
  using get_change [of "change s"] change_frame [of pend s] by (simp add: change_wf)

end

lemma tio_update: "\<exists>t. iflag f s = s\<lparr>sl_tio := t\<rparr>" "\<exists>t. oflag f s = s\<lparr>sl_tio := t\<rparr>"
  "\<exists>t. cflag f s = s\<lparr>sl_tio := t\<rparr>" "\<exists>t. lflag f s = s\<lparr>sl_tio := t\<rparr>" "\<exists>t. put_cc k c s = s\<lparr>sl_tio := t\<rparr>"
  by (auto simp: iflag_def oflag_def cflag_def lflag_def put_cc_def)

lemma tio_same: "\<exists>t. s = s\<lparr>sl_tio := t\<rparr>"
  by (rule exI [of _ "sl_tio s"]) simp

lemma wf_line_simps [simp]:
  "wf_line (iflag f s) = wf_line s" "wf_line (oflag f s) = wf_line s" "wf_line (cflag f s) = wf_line s"
  "wf_line (lflag f s) = wf_line s" "wf_line (put_cc k c s) = wf_line s" "wf_line (set_baud b s) = wf_line s"
  by (simp_all add: wf_line_def set_baud_def)

lemma get_put_cc: "wf_line s \<Longrightarrow> k < NCCS \<Longrightarrow> 0 \<le> c \<Longrightarrow> c < 256 \<Longrightarrow> get_cc k (put_cc k c s) = c"
  by (simp add: wf_line_def get_cc_def unsigned_of_int take_bit_int_eq_self)

lemma set_baud_speed: "cfgetispeed (sl_tio (set_baud b s)) = to_speed b"
  by (simp add: cfgetispeed_def set_baud_flags)

interpretation baud: setting "\<lambda>s. set_baud (sl_baud s) s" get_baud sl_baud "\<lambda>b. b \<in> fst ` set rtab"
proof unfold_locales
  fix s
  show "\<exists>t. set_baud (sl_baud s) s = s\<lparr>sl_tio := t\<rparr>" by (auto simp: set_baud_def)
next
  fix s :: sl_t assume "sl_baud s \<in> fst ` set rtab"
  then show "get_baud (set_baud (sl_baud s) s) = sl_baud s"
    using rtab_speeds(1) by (auto simp: get_baud_def set_baud_speed)
qed simp

interpretation csize: setting "\<lambda>s. set_csize (sl_csize s) s" get_csize sl_csize "\<lambda>c. c \<in> {5, 6, 7, 8}"
  by unfold_locales (auto simp: get_csize_def set_csize_def Let_def masked, auto simp: cflag_def)

interpretation stopb: setting "\<lambda>s. set_stopb (sl_stopb s) s" get_stopb sl_stopb "\<lambda>c. c \<in> {1, 2}"
  by unfold_locales (auto simp: get_stopb_def set_stopb_def masked tio_update tio_same)

interpretation parity: setting "\<lambda>s. set_parity (sl_parity s) s" get_parity sl_parity "\<lambda>c. c \<in> {0, 1, 2, 3}"
  by unfold_locales (auto simp: get_parity_def set_parity_def masked tio_same, auto simp: cflag_def iflag_def)

interpretation bufsz: setting "\<lambda>s. set_bufsz (sl_bufsz s) s" get_bufsz sl_bufsz "\<lambda>c. 0 \<le> c \<and> c < 256"
  by unfold_locales (simp_all add: set_bufsz_def get_bufsz_def get_put_cc tio_update)

interpretation buftm: setting "\<lambda>s. set_buftm (sl_buftm s) s" get_buftm sl_buftm "\<lambda>c. 0 \<le> c \<and> c < 256"
  by unfold_locales (simp_all add: set_buftm_def get_buftm_def get_put_cc tio_update)

interpretation xonchar: setting "\<lambda>s. set_xonchar (sl_xonchar s) s" get_xonchar sl_xonchar "\<lambda>c. 0 \<le> c \<and> c < 256"
  by unfold_locales (simp_all add: set_xonchar_def get_xonchar_def get_put_cc tio_update)

interpretation xoffchar: setting "\<lambda>s. set_xoffchar (sl_xoffchar s) s" get_xoffchar sl_xoffchar "\<lambda>c. 0 \<le> c \<and> c < 256"
  by unfold_locales (simp_all add: set_xoffchar_def get_xoffchar_def get_put_cc tio_update)

interpretation eolchar: setting "\<lambda>s. set_eolchar (sl_eolchar s) s" get_eolchar sl_eolchar "\<lambda>c. 0 \<le> c \<and> c < 256"
  by unfold_locales (simp_all add: set_eolchar_def get_eolchar_def get_put_cc tio_update)

interpretation eol2char: setting "\<lambda>s. set_eol2char (sl_eol2char s) s" get_eol2char sl_eol2char "\<lambda>c. 0 \<le> c \<and> c < 256"
  by unfold_locales (simp_all add: set_eol2char_def get_eol2char_def get_put_cc tio_update)

interpretation hwflow: setting "\<lambda>s. set_hwflow (sl_hwflow s) s" get_hwflow sl_hwflow "\<lambda>c. c \<in> {0, 1}"
  by unfold_locales (auto simp: get_hwflow_def set_hwflow_def masked tio_update)

interpretation swflow: setting "\<lambda>s. set_swflow (sl_swflow s) s" get_swflow sl_swflow "\<lambda>c. c \<in> {0, 1}"
  by unfold_locales (auto simp: get_swflow_def set_swflow_def masked Let_def tio_update)

interpretation echo: setting "\<lambda>s. set_echo (sl_echo s) s" get_echo sl_echo "\<lambda>c. c \<in> {0, 1}"
  by unfold_locales (auto simp: get_echo_def set_echo_def masked tio_update)

section \<open>Settings do not disturb each other\<close>

lemmas cc_settings =
  set_bufsz_def set_buftm_def set_xonchar_def set_xoffchar_def set_eolchar_def set_eol2char_def
  get_bufsz_def get_buftm_def get_xonchar_def get_xoffchar_def get_eolchar_def get_eol2char_def

lemmas flag_settings =
  get_parity_def get_stopb_def get_csize_def get_swflow_def get_hwflow_def get_echo_def Let_def

lemma get_cong:
  "\<lbrakk>c_cflag (sl_tio s) = c_cflag (sl_tio s'); c_iflag (sl_tio s) = c_iflag (sl_tio s');
    c_lflag (sl_tio s) = c_lflag (sl_tio s')\<rbrakk> \<Longrightarrow>
   get_baud s = get_baud s' \<and> get_parity s = get_parity s' \<and> get_stopb s = get_stopb s' \<and>
   get_csize s = get_csize s' \<and> get_swflow s = get_swflow s' \<and> get_hwflow s = get_hwflow s' \<and>
   get_echo s = get_echo s'"
  by (simp add: flag_settings get_baud_def cfgetispeed_def)

lemma put_cc_flags [simp]:
  "get_baud (put_cc k c s) = get_baud s" "get_parity (put_cc k c s) = get_parity s"
  "get_stopb (put_cc k c s) = get_stopb s" "get_csize (put_cc k c s) = get_csize s"
  "get_swflow (put_cc k c s) = get_swflow s" "get_hwflow (put_cc k c s) = get_hwflow s"
  "get_echo (put_cc k c s) = get_echo s"
  using get_cong [of "put_cc k c s" s] by simp_all

lemma flags_cc [simp]:
  "get_cc k (iflag f s) = get_cc k s" "get_cc k (oflag f s) = get_cc k s" "get_cc k (cflag f s) = get_cc k s"
  "get_cc k (lflag f s) = get_cc k s" "get_cc k (set_baud b s) = get_cc k s"
  "j \<noteq> k \<Longrightarrow> get_cc k (put_cc j c s) = get_cc k s"
  by (simp_all add: get_cc_def set_baud_def)

lemma lflag_flags [simp]:
  "get_baud (lflag f s) = get_baud s" "get_parity (lflag f s) = get_parity s"
  "get_stopb (lflag f s) = get_stopb s" "get_csize (lflag f s) = get_csize s"
  "get_swflow (lflag f s) = get_swflow s" "get_hwflow (lflag f s) = get_hwflow s"
  by (simp_all add: flag_settings get_baud_def cfgetispeed_def)

lemma set_baud_elsewhere [simp]:
  "get_parity (set_baud b s) = get_parity s" "get_stopb (set_baud b s) = get_stopb s"
    "get_csize (set_baud b s) = get_csize s" "get_hwflow (set_baud b s) = get_hwflow s"
    "get_echo (set_baud b s) = get_echo s"
  by (simp_all add: flag_settings set_baud_flags set_baud_tio(3,4))

lemma set_parity_elsewhere [simp]:
  "get_baud (set_parity v s) = get_baud s" "get_stopb (set_parity v s) = get_stopb s"
  "get_csize (set_parity v s) = get_csize s" "get_swflow (set_parity v s) = get_swflow s"
  "get_hwflow (set_parity v s) = get_hwflow s" "get_echo (set_parity v s) = get_echo s"
  "get_cc k (set_parity v s) = get_cc k s"
  by (simp_all add: set_parity_def flag_settings get_baud_def cfgetispeed_def masked)

lemma set_stopb_elsewhere [simp]:
  "get_baud (set_stopb v s) = get_baud s" "get_parity (set_stopb v s) = get_parity s"
  "get_csize (set_stopb v s) = get_csize s" "get_swflow (set_stopb v s) = get_swflow s"
  "get_hwflow (set_stopb v s) = get_hwflow s" "get_echo (set_stopb v s) = get_echo s"
  "get_cc k (set_stopb v s) = get_cc k s"
  by (simp_all add: set_stopb_def flag_settings get_baud_def cfgetispeed_def masked)

lemma set_csize_elsewhere [simp]:
  "get_baud (set_csize v s) = get_baud s" "get_parity (set_csize v s) = get_parity s"
  "get_stopb (set_csize v s) = get_stopb s" "get_swflow (set_csize v s) = get_swflow s"
  "get_hwflow (set_csize v s) = get_hwflow s" "get_echo (set_csize v s) = get_echo s"
  "get_cc k (set_csize v s) = get_cc k s"
  by (simp_all add: set_csize_def flag_settings get_baud_def cfgetispeed_def masked)

lemma set_hwflow_elsewhere [simp]:
  "get_baud (set_hwflow v s) = get_baud s" "get_parity (set_hwflow v s) = get_parity s"
  "get_stopb (set_hwflow v s) = get_stopb s" "get_csize (set_hwflow v s) = get_csize s"
  "get_swflow (set_hwflow v s) = get_swflow s" "get_echo (set_hwflow v s) = get_echo s"
  "get_cc k (set_hwflow v s) = get_cc k s"
  by (simp_all add: set_hwflow_def flag_settings get_baud_def cfgetispeed_def masked)

lemma set_swflow_elsewhere [simp]:
  "get_parity (set_swflow v s) = get_parity s"
  "get_stopb (set_swflow v s) = get_stopb s" "get_csize (set_swflow v s) = get_csize s"
  "get_hwflow (set_swflow v s) = get_hwflow s" "get_echo (set_swflow v s) = get_echo s"
  "get_cc k (set_swflow v s) = get_cc k s"
  by (simp_all add: set_swflow_def flag_settings masked)

lemma set_echo_elsewhere [simp]:
  "get_baud (set_echo v s) = get_baud s" "get_parity (set_echo v s) = get_parity s"
  "get_stopb (set_echo v s) = get_stopb s" "get_csize (set_echo v s) = get_csize s"
  "get_swflow (set_echo v s) = get_swflow s" "get_hwflow (set_echo v s) = get_hwflow s"
  "get_cc k (set_echo v s) = get_cc k s"
  by (simp_all add: set_echo_def)

end
