(* ===== verification/Serial.thy ===== *)
theory Serial
  imports Serial_Settings
begin

text \<open>
  The operations of the serial driver: updating, opening and closing the line, reading and writing
  it, the control interface and the entry points.  The device is not part of the repository: what
  the system calls on it return is a parameter, the record \<open>tty\<close>, and each of them is an entry of
  the history of calls like the calls of the emulator.
\<close>

section \<open>The device\<close>

text \<open>The errors the driver tells apart: \<^verbatim>\<open>EAGAIN\<close> and any other.\<close>

datatype os_error = EAGAIN | EOTHER

record tty =
  os_open :: "call list \<Rightarrow> int"
  os_getattr :: "call list \<Rightarrow> termios option"
  os_setattr :: "call list \<Rightarrow> int"
  os_write :: "call list \<Rightarrow> os_error + nat"
  os_read :: "call list \<Rightarrow> os_error + byte list"

text \<open>
  What the manual promises: \<^verbatim>\<open>write\<close> takes no more bytes than it is given, \<^verbatim>\<open>read\<close> returns no more
  than it is asked for, \<^verbatim>\<open>tcgetattr\<close> fills all the control characters.
\<close>

definition device_ok :: "tty \<Rightarrow> bool" where
  "device_ok tt \<longleftrightarrow>
     (\<forall>bs h n. os_write tt (Os (OsWrite bs) # h) = Inr n \<longrightarrow> n \<le> length bs) \<and>
     (\<forall>k h bs. os_read tt (Os (OsRead k) # h) = Inr bs \<longrightarrow> length bs \<le> nat k) \<and>
     (\<forall>h t. os_getattr tt h = Some t \<longrightarrow> length (c_cc t) = NCCS)"

abbreviation (input) "DO_READ \<equiv> 1 :: int"
abbreviation (input) "DO_WRITE \<equiv> 2 :: int"
abbreviation (input) "INVALID \<equiv> - 1 :: int"

definition get_com_state :: "tty \<Rightarrow> sl_t \<Rightarrow> int \<times> sl_t" where
  "get_com_state tt s =
     (let s = log_call (Os OsGetAttr) s in
      case os_getattr tt (calls s) of None \<Rightarrow> (- 1, s) | Some t \<Rightarrow> (0, s\<lparr>sl_tio := t\<rparr>))"

definition set_com_state :: "tty \<Rightarrow> sl_t \<Rightarrow> int \<times> sl_t" where
  "set_com_state tt s =
     (let s = log_call (Os (OsSetAttr (sl_tio s))) s in (os_setattr tt (calls s), s))"

definition do_send_break :: "sl_t \<Rightarrow> sl_t" where
  "do_send_break s = (if sl_com s \<noteq> INVALID then log_call (Os OsBreak) s else s)"

definition do_send_xon :: "sl_t \<Rightarrow> sl_t" where
  "do_send_xon s =
     (if sl_com s \<noteq> INVALID \<and> sl_swflow s \<noteq> 0 then log_call (Os (OsFlow True)) s else s)"

definition do_send_xoff :: "sl_t \<Rightarrow> sl_t" where
  "do_send_xoff s =
     (if sl_com s \<noteq> INVALID \<and> sl_swflow s \<noteq> 0 then log_call (Os (OsFlow False)) s else s)"

definition do_close :: "sl_t \<Rightarrow> sl_t" where
  "do_close s =
     (if sl_com s \<noteq> INVALID then
        let s = log_call (Select (DO_READ + DO_WRITE) False) s;
            s = log_call (Os OsClose) s
        in s\<lparr>sl_com := INVALID\<rparr>
      else s)"

section \<open>Updating\<close>

definition flagged :: "32 word \<Rightarrow> (sl_t \<Rightarrow> sl_t) \<Rightarrow> sl_t \<Rightarrow> sl_t" where
  "flagged fl change s = (if sl_flags s AND fl \<noteq> 0 then change s else s)"

definition change_mode :: "sl_t \<Rightarrow> sl_t" where
  "change_mode s =
     (if sl_mode s = SL_MODE_RAW then set_raw_mode s
      else if sl_mode s = SL_MODE_LINE then set_line_mode s
      else s)"

definition do_update :: "tty \<Rightarrow> sl_t \<Rightarrow> sl_t" where
  "do_update tt s =
     (if sl_flags s = 0 \<or> sl_com s = INVALID then s
      else
        let s = flagged FL_MODE change_mode s;
            s = flagged FL_BAUD (\<lambda>s. set_baud (sl_baud s) s) s;
            s = flagged FL_CSIZE (\<lambda>s. set_csize (sl_csize s) s) s;
            s = flagged FL_STOPB (\<lambda>s. set_stopb (sl_stopb s) s) s;
            s = flagged FL_PARITY (\<lambda>s. set_parity (sl_parity s) s) s;
            s = flagged FL_BUFSZ (\<lambda>s. set_bufsz (sl_bufsz s) s) s;
            s = flagged FL_BUFTM (\<lambda>s. set_buftm (sl_buftm s) s) s;
            s = flagged FL_XONCHAR (\<lambda>s. set_xonchar (sl_xonchar s) s) s;
            s = flagged FL_XOFFCHAR (\<lambda>s. set_xoffchar (sl_xoffchar s) s) s;
            s = flagged FL_EOLCHAR (\<lambda>s. set_eolchar (sl_eolchar s) s) s;
            s = flagged FL_EOL2CHAR (\<lambda>s. set_eol2char (sl_eol2char s) s) s;
            s = flagged FL_HWFLOW (\<lambda>s. set_hwflow (sl_hwflow s) s) s;
            s = flagged FL_SWFLOW (\<lambda>s. set_swflow (sl_swflow s) s) s;
            s = flagged FL_ECHO (\<lambda>s. set_echo (sl_echo s) s) s;
            (_, s) = set_com_state tt s
        in s\<lparr>sl_flags := 0\<rparr>)"

section \<open>Reading and writing\<close>

text \<open>
  The input buffer is made as large as \<^verbatim>\<open>bufsz\<close>; the result of \<^verbatim>\<open>driver_realloc\<close> is not checked.
\<close>

definition grow_ibuf :: "emulator \<Rightarrow> sl_t \<Rightarrow> sl_t" where
  "grow_ibuf em s =
     (if sl_ibuf s = None \<or> sl_bufsz s > sl_ilen s then
        let old = (case sl_ibuf s of None \<Rightarrow> [] | Some m \<Rightarrow> m); n = nat (sl_bufsz s);
            s = log_call (AllocMem (sl_bufsz s)) s
        in s\<lparr>sl_ibuf := (if em_alloc em (calls s)
                         then Some (take n old @ junk em s (n - length old)) else None),
             sl_ilen := sl_bufsz s\<rparr>
      else s)"

text \<open>\<^verbatim>\<open>read\<close> into the input buffer; with a null pointer the system call fails.\<close>

definition read_com :: "tty \<Rightarrow> sl_t \<Rightarrow> (os_error + byte list, sl_t) outcome" where
  "read_com tt s =
     (let s = log_call (Os (OsRead (sl_bufsz s))) s in
      case os_read tt (calls s) of
        Inl e \<Rightarrow> Inr (Inl e, s)
      | Inr data \<Rightarrow>
          (case sl_ibuf s of
             None \<Rightarrow> Inr (Inl EOTHER, s)
           | Some m \<Rightarrow> writing m 0 data (\<lambda>m. Inr (Inr data, s\<lparr>sl_ibuf := Some m\<rparr>))))"

definition do_read :: "emulator \<Rightarrow> tty \<Rightarrow> sl_t \<Rightarrow> (int, sl_t) outcome" where
  "do_read em tt s =
     (if sl_com s = INVALID \<or> sl_ipending s \<noteq> 0 then Inr (- 1, s)
      else andthen (read_com tt (grow_ibuf em s)) (\<lambda>r s.
        case r of
          Inr data \<Rightarrow> Inr (int (length data), if data \<noteq> [] then log_call (Output data) s else s)
        | Inl EAGAIN \<Rightarrow> Inr (0, log_call (Select DO_READ True) s)
        | Inl EOTHER \<Rightarrow> Inr (- 1, s)))"

text \<open>
  What \<^verbatim>\<open>write\<close> did not take is queued.  A failure other than \<^verbatim>\<open>EAGAIN\<close> leaves \<open>n = - 1\<close>, which is less
  than \<^verbatim>\<open>len\<close>, so the code queues \<open>len + 1\<close> bytes from one byte before the buffer.
\<close>

definition do_write_buf :: "emulator \<Rightarrow> tty \<Rightarrow> byte list \<Rightarrow> sl_t \<Rightarrow> (int, sl_t) outcome" where
  "do_write_buf em tt buf s =
     (let len = int (length buf); s = log_call (Os (OsWrite buf)) s;
          n = (case os_write tt (calls s) of Inl _ \<Rightarrow> - 1 | Inr n \<Rightarrow> int n) in
      if os_write tt (calls s) = Inl EAGAIN then
        Inr (n, log_call (Select DO_WRITE True) (log_call (Enq buf) s))
      else if n < len then
        reading buf n (len - n) (\<lambda>rest.
          Inr (n, log_call (Select DO_WRITE True) (log_call (Enq rest) s)))
      else Inr (n, s))"

text \<open>The inner \<open>n\<close> of the code is a variable of its own: the result is always 0.\<close>

definition do_write_more :: "emulator \<Rightarrow> tty \<Rightarrow> sl_t \<Rightarrow> int \<times> sl_t" where
  "do_write_more em tt s =
     (let vector = em_queue em (calls s) in
      if vector = [] then (0, s)
      else
        let s = log_call (Os (OsWrite vector)) s;
            s = (case os_write tt (calls s) of
                   Inl _ \<Rightarrow> s
                 | Inr n \<Rightarrow> if n > 0 then log_call (Deq (int n)) s else s)
        in (0, if driver_sizeq em s = 0 then log_call (Select DO_WRITE False) s else s))"

definition do_write_init :: "emulator \<Rightarrow> tty \<Rightarrow> byte list \<Rightarrow> sl_t \<Rightarrow> (int, sl_t) outcome" where
  "do_write_init em tt buf s =
     (if sl_com s = INVALID then Inr (- 1, s)
      else if buf = [] then Inr (0, s)
      else if sl_opending s \<noteq> 0 \<or> driver_sizeq em s > 0 then Inr (0, log_call (Enq buf) s)
      else do_write_buf em tt buf s)"

section \<open>Opening and hanging up\<close>

definition default_setting :: "32 word \<Rightarrow> (sl_t \<Rightarrow> sl_t) \<Rightarrow> sl_t \<Rightarrow> sl_t" where
  "default_setting fl upd s =
     (if sl_flags s AND fl = 0 then (let s = upd s in s\<lparr>sl_flags := sl_flags s OR fl\<rparr>) else s)"

definition do_open :: "tty \<Rightarrow> sl_t \<Rightarrow> int \<times> sl_t" where
  "do_open tt s =
     (let s = do_close s in
      case sl_dev s of
        None \<Rightarrow> (- 1, s)
      | Some dev \<Rightarrow>
          let s = log_call (Os (OsOpen (c_string dev))) s;
              s = s\<lparr>sl_com := os_open tt (calls s)\<rparr>
          in if sl_com s = INVALID then (- 1, s)
             else
               let s = log_call (Os OsNonblock) s;
                   (res, s) = get_com_state tt s
               in if res < 0 then (- 1, s)
                  else
                    let s = default_setting FL_MODE (\<lambda>s. s\<lparr>sl_mode := SL_MODE_RAW\<rparr>) s;
                        s = default_setting FL_BAUD (\<lambda>s. s\<lparr>sl_baud := 9600\<rparr>) s;
                        s = default_setting FL_PARITY (\<lambda>s. s\<lparr>sl_parity := 0\<rparr>) s;
                        s = default_setting FL_ECHO (\<lambda>s. s\<lparr>sl_echo := 0\<rparr>) s;
                        s = default_setting FL_CSIZE (\<lambda>s. s\<lparr>sl_csize := 8\<rparr>) s;
                        s = default_setting FL_HWFLOW (\<lambda>s. s\<lparr>sl_hwflow := 1\<rparr>) s;
                        s = default_setting FL_SWFLOW (\<lambda>s. s\<lparr>sl_swflow := 0\<rparr>) s
                    in (0, do_update tt s))"

definition do_hangup :: "tty \<Rightarrow> sl_t \<Rightarrow> int \<times> sl_t" where
  "do_hangup tt s =
     (if sl_com s = INVALID then (- 1, s)
      else
        let t = cfsetospeed (cfsetispeed (sl_tio s) 0) 0;
            s = log_call (Os (OsSetAttr t)) s
        in (os_setattr tt (calls s), s))"

section \<open>Replies\<close>

type_synonym sl_result = "int \<times> byte list"

abbreviation (input) "SL_OK \<equiv> 0 :: byte"
abbreviation (input) "SL_ERROR \<equiv> 1 :: byte"
abbreviation (input) "SL_INT \<equiv> 0 :: byte"
abbreviation (input) "SL_BOOL \<equiv> 1 :: byte"
abbreviation (input) "SL_STRING \<equiv> 2 :: byte"

datatype sl_error = SL_ERR_OK | SL_ERR_BADARG | SL_ERR_NOTOPEN | SL_ERR_ACCESS | SL_ERR_NOMEM

definition sl_reply :: "emulator \<Rightarrow> byte \<Rightarrow> byte list \<Rightarrow> int \<Rightarrow> sl_t \<Rightarrow> (sl_result, sl_t) outcome" where
  "sl_reply em rep buf rsize s =
     (let len = int (length buf) in
      if len + 1 > rsize then
        let s = log_call (AllocMem (len + 1)) s
        in if em_alloc em (calls s) then Inr ((len + 1, rep # buf), s) else Inl NullPtr
      else Inr ((len + 1, rep # buf), s))"

definition sl_reply_int :: "emulator \<Rightarrow> int \<Rightarrow> int \<Rightarrow> sl_t \<Rightarrow> (sl_result, sl_t) outcome" where
  "sl_reply_int em rep = sl_reply em SL_OK (SL_INT # put_int32 rep)"

definition sl_reply_bool :: "emulator \<Rightarrow> int \<Rightarrow> int \<Rightarrow> sl_t \<Rightarrow> (sl_result, sl_t) outcome" where
  "sl_reply_bool em rep = sl_reply em SL_OK [SL_BOOL, if rep \<noteq> 0 then 1 else 0]"

definition sl_error_text :: "sl_error \<Rightarrow> string" where
  "sl_error_text err =
     (case err of SL_ERR_OK \<Rightarrow> '''' | SL_ERR_BADARG \<Rightarrow> ''badarg'' | SL_ERR_NOTOPEN \<Rightarrow> ''not_open''
      | SL_ERR_ACCESS \<Rightarrow> ''bad_access'' | SL_ERR_NOMEM \<Rightarrow> ''no_mem'')"

definition sl_reply_error :: "emulator \<Rightarrow> sl_error \<Rightarrow> int \<Rightarrow> sl_t \<Rightarrow> (sl_result, sl_t) outcome" where
  "sl_reply_error em err = sl_reply em SL_ERROR (map of_char (sl_error_text err))"

definition sl_reply_string :: "emulator \<Rightarrow> byte list \<Rightarrow> int \<Rightarrow> sl_t \<Rightarrow> (sl_result, sl_t) outcome" where
  "sl_reply_string em str =
     (if length (c_string str) \<ge> 1024 then sl_reply_error em SL_ERR_BADARG
      else sl_reply em SL_OK (SL_STRING # c_string str))"

end
