(* ===== verification/Serial_Control.thy ===== *)
theory Serial_Control
  imports Serial
begin

text \<open>
  The entry points of the serial driver: start and stop, output, the two events and the control
  interface, with one definition for each group of its requests.
\<close>

section \<open>Start, stop, data\<close>

text \<open>
  \<open>s0\<close> is whatever the block allocated for the port holds: \<^verbatim>\<open>sl_start\<close> leaves the pending values of
  the settings other than \<^verbatim>\<open>bufsz\<close> and \<^verbatim>\<open>buftm\<close>, and both modes, as they are.
\<close>

definition sl_start :: "emulator \<Rightarrow> int \<Rightarrow> sl_t \<Rightarrow> sl_t option" where
  "sl_start em sz s0 =
     (let s = log_call (AllocMem sz) s0 in
      if \<not> em_alloc em (calls s) then None
      else Some (s\<lparr>sl_com := INVALID, sl_dev := None, sl_ilen := 0, sl_ibuf := None,
                   sl_ipending := 0, sl_olen := 0, sl_obuf := None, sl_opending := 0,
                   sl_tio := \<lparr>c_iflag = 0, c_oflag = 0, c_cflag = 0, c_lflag = 0,
                              c_cc = replicate NCCS 0\<rparr>,
                   sl_flags := 0, sl_bufsz := 1, sl_buftm := 0\<rparr>))"

definition sl_stop :: "sl_t \<Rightarrow> sl_t" where
  "sl_stop s =
     (let s = do_close s;
          s = (if sl_ibuf s \<noteq> None then log_call FreeMem s else s);
          s = (if sl_obuf s \<noteq> None then log_call FreeMem s else s)
      in log_call FreeMem s)"

definition sl_output :: "emulator \<Rightarrow> tty \<Rightarrow> byte list \<Rightarrow> sl_t \<Rightarrow> (unit, sl_t) outcome" where
  "sl_output em tt buf s = andthen (do_write_init em tt buf s) (\<lambda>_ s. Inr ((), s))"

definition sl_ready_input :: "emulator \<Rightarrow> tty \<Rightarrow> sl_t \<Rightarrow> (unit, sl_t) outcome" where
  "sl_ready_input em tt s =
     andthen (read_com tt (grow_ibuf em s)) (\<lambda>r s.
       Inr ((), case r of
                  Inl _ \<Rightarrow> s
                | Inr data \<Rightarrow> if data \<noteq> [] then log_call (Output data) s else s))"

definition sl_ready_output :: "emulator \<Rightarrow> tty \<Rightarrow> sl_t \<Rightarrow> sl_t" where
  "sl_ready_output em tt s = snd (do_write_more em tt s)"

section \<open>Control\<close>

text \<open>A request that sets a value of four bytes, and one that asks for it.\<close>

definition sl_set ::
  "emulator \<Rightarrow> byte list \<Rightarrow> int \<Rightarrow> 32 word \<Rightarrow> (int \<Rightarrow> sl_t \<Rightarrow> sl_t) \<Rightarrow> sl_t \<Rightarrow> (sl_result, sl_t) outcome"
where
  "sl_set em buf rsize fl upd s =
     (if length buf \<noteq> 4 then sl_reply_error em SL_ERR_BADARG rsize s
      else
        let s = upd (get_int32 buf) s;
            s = s\<lparr>sl_flags := sl_flags s OR fl\<rparr>
        in sl_reply em SL_OK [] rsize s)"

definition sl_get ::
  "emulator \<Rightarrow> (emulator \<Rightarrow> int \<Rightarrow> int \<Rightarrow> sl_t \<Rightarrow> (sl_result, sl_t) outcome) \<Rightarrow> int \<Rightarrow> 32 word \<Rightarrow>
   (sl_t \<Rightarrow> int) \<Rightarrow> (sl_t \<Rightarrow> int) \<Rightarrow> sl_t \<Rightarrow> (sl_result, sl_t) outcome"
where
  "sl_get em reply rsize fl pend current s =
     (if sl_flags s AND fl \<noteq> 0 then reply em (pend s) rsize s
      else if sl_com s \<noteq> INVALID then reply em (current s) rsize s
      else sl_reply_error em SL_ERR_BADARG rsize s)"

definition sl_ctl_dev :: "emulator \<Rightarrow> int \<Rightarrow> byte list \<Rightarrow> int \<Rightarrow> sl_t \<Rightarrow> (sl_result, sl_t) outcome" where
  "sl_ctl_dev em cmd buf rsize s =
     (if cmd = 20 then
        let s = (if sl_dev s \<noteq> None then log_call FreeMem s else s);
            s = s\<lparr>sl_dev := None\<rparr>
        in if buf = [] then sl_reply em SL_OK [] rsize s
           else
             let s = log_call (AllocMem (int (length buf) + 1)) s
             in if em_alloc em (calls s) then sl_reply em SL_OK [] rsize (s\<lparr>sl_dev := Some buf\<rparr>)
                else sl_reply_error em SL_ERR_NOMEM rsize s
      else
        case sl_dev s of
          None \<Rightarrow> sl_reply_error em SL_ERR_BADARG rsize s
        | Some dev \<Rightarrow> sl_reply_string em dev rsize s)"

definition sl_ctl_line :: "emulator \<Rightarrow> int \<Rightarrow> byte list \<Rightarrow> int \<Rightarrow> sl_t \<Rightarrow> (sl_result, sl_t) outcome" where
  "sl_ctl_line em cmd buf rsize s =
     (if cmd = 22 then sl_set em buf rsize FL_BAUD (\<lambda>i s. s\<lparr>sl_baud := i\<rparr>) s
      else if cmd = 23 then sl_get em sl_reply_int rsize FL_BAUD sl_baud get_baud s
      else if cmd = 26 then sl_set em buf rsize FL_CSIZE (\<lambda>i s. s\<lparr>sl_csize := i\<rparr>) s
      else if cmd = 27 then sl_get em sl_reply_int rsize FL_CSIZE sl_csize get_csize s
      else if cmd = 28 then
        sl_set em buf rsize FL_BUFSZ
          (\<lambda>i s. s\<lparr>sl_bufsz := (if i < 1 then 1 else if i > 255 then 255 else i)\<rparr>) s
      else if cmd = 29 then sl_get em sl_reply_int rsize FL_BUFSZ sl_bufsz get_bufsz s
      else if cmd = 30 then sl_set em buf rsize FL_BUFTM (\<lambda>i s. s\<lparr>sl_buftm := i\<rparr>) s
      else if cmd = 31 then sl_get em sl_reply_int rsize FL_BUFTM sl_buftm get_buftm s
      else if cmd = 32 then sl_set em buf rsize FL_STOPB (\<lambda>i s. s\<lparr>sl_stopb := i\<rparr>) s
      else if cmd = 33 then sl_get em sl_reply_int rsize FL_STOPB sl_stopb get_stopb s
      else if cmd = 34 then sl_set em buf rsize FL_PARITY (\<lambda>i s. s\<lparr>sl_parity := i\<rparr>) s
      else sl_get em sl_reply_int rsize FL_PARITY sl_parity get_parity s)"

definition sl_ctl_flow :: "emulator \<Rightarrow> int \<Rightarrow> byte list \<Rightarrow> int \<Rightarrow> sl_t \<Rightarrow> (sl_result, sl_t) outcome" where
  "sl_ctl_flow em cmd buf rsize s =
     (if cmd = 36 then sl_set em buf rsize FL_HWFLOW (\<lambda>i s. s\<lparr>sl_hwflow := i\<rparr>) s
      else if cmd = 37 then sl_get em sl_reply_bool rsize FL_HWFLOW sl_hwflow get_hwflow s
      else if cmd = 38 then sl_set em buf rsize FL_SWFLOW (\<lambda>i s. s\<lparr>sl_swflow := i\<rparr>) s
      else if cmd = 39 then sl_get em sl_reply_bool rsize FL_SWFLOW sl_swflow get_swflow s
      else if cmd = 40 then sl_set em buf rsize FL_XONCHAR (\<lambda>i s. s\<lparr>sl_xonchar := i\<rparr>) s
      else if cmd = 41 then sl_get em sl_reply_int rsize FL_XONCHAR sl_xonchar get_xonchar s
      else if cmd = 42 then sl_set em buf rsize FL_XOFFCHAR (\<lambda>i s. s\<lparr>sl_xoffchar := i\<rparr>) s
      else if cmd = 43 then sl_get em sl_reply_int rsize FL_XOFFCHAR sl_xoffchar get_xoffchar s
      else if cmd = 48 then sl_set em buf rsize FL_EOLCHAR (\<lambda>i s. s\<lparr>sl_eolchar := i\<rparr>) s
      else if cmd = 49 then sl_get em sl_reply_int rsize FL_EOLCHAR sl_eolchar get_eolchar s
      else if cmd = 50 then sl_set em buf rsize FL_EOL2CHAR (\<lambda>i s. s\<lparr>sl_eol2char := i\<rparr>) s
      else if cmd = 51 then sl_get em sl_reply_int rsize FL_EOL2CHAR sl_eol2char get_eol2char s
      else if cmd = 44 then sl_set em buf rsize FL_ECHO (\<lambda>i s. s\<lparr>sl_echo := i\<rparr>) s
      else sl_get em sl_reply_bool rsize FL_ECHO sl_echo get_echo s)"

definition sl_ctl_mode :: "emulator \<Rightarrow> int \<Rightarrow> byte list \<Rightarrow> int \<Rightarrow> sl_t \<Rightarrow> (sl_result, sl_t) outcome" where
  "sl_ctl_mode em cmd buf rsize s =
     (if cmd = 46 then
        if length buf \<noteq> 4 then sl_reply_error em SL_ERR_BADARG rsize s
        else
          let mode = get_int32 buf in
          if mode \<noteq> sl_mode s then
            if mode = SL_MODE_RAW \<or> mode = SL_MODE_LINE then
              sl_reply em SL_OK [] rsize (s\<lparr>sl_mode := mode, sl_flags := sl_flags s OR FL_MODE\<rparr>)
            else sl_reply_error em SL_ERR_BADARG rsize s
          else sl_reply em SL_OK [] rsize s
      else sl_get em sl_reply_int rsize FL_MODE sl_mode sl_cmode s)"

definition sl_rates :: "byte list" where
  "sl_rates = SL_INT # concat (map (put_int32 \<circ> fst) rtab)"

definition sl_ctl_oper :: "emulator \<Rightarrow> tty \<Rightarrow> int \<Rightarrow> int \<Rightarrow> sl_t \<Rightarrow> (sl_result, sl_t) outcome" where
  "sl_ctl_oper em tt cmd rsize s =
     (if cmd = 1 \<or> cmd = 3 then
        if sl_dev s = None then sl_reply_error em SL_ERR_BADARG rsize s
        else
          let (res, s) = do_open tt s in
          if res < 0 then sl_reply_error em SL_ERR_ACCESS rsize s
          else sl_reply em SL_OK [] rsize (log_call (Select DO_READ True) s)
      else if cmd = 2 then sl_reply em SL_OK [] rsize (do_close (snd (do_hangup tt s)))
      else if cmd = 4 then sl_reply em SL_OK [] rsize (do_close s)
      else if cmd = 5 then sl_reply em SL_OK [] rsize (do_send_xoff s)
      else if cmd = 6 then sl_reply em SL_OK [] rsize (do_send_xon s)
      else if cmd = 7 then sl_reply em SL_OK [] rsize (do_send_break s)
      else if cmd = 8 then sl_reply em SL_OK [] rsize (do_update tt s)
      else if cmd = 10 then sl_reply em SL_OK [] rsize (s\<lparr>sl_flags := 0\<rparr>)
      else if cmd = 9 then sl_reply em SL_OK sl_rates rsize s
      else sl_reply_error em SL_ERR_BADARG rsize s)"

definition sl_ctl :: "emulator \<Rightarrow> tty \<Rightarrow> int \<Rightarrow> byte list \<Rightarrow> int \<Rightarrow> sl_t \<Rightarrow> (sl_result, sl_t) outcome" where
  "sl_ctl em tt cmd buf rsize s =
     (if cmd = 20 \<or> cmd = 21 then sl_ctl_dev em cmd buf rsize s
      else if cmd \<in> {22, 23, 26, 27, 28, 29, 30, 31, 32, 33, 34, 35} then sl_ctl_line em cmd buf rsize s
      else if cmd \<in> {36, 37, 38, 39, 40, 41, 42, 43, 44, 45, 48, 49, 50, 51} then
        sl_ctl_flow em cmd buf rsize s
      else if cmd = 46 \<or> cmd = 47 then sl_ctl_mode em cmd buf rsize s
      else sl_ctl_oper em tt cmd rsize s)"

end
