(* ===== verification/Serial_Service.thy ===== *)
theory Serial_Service
  imports Serial_Control
begin

text \<open>
  What the serial driver does for its owner: an update gives the device the pending settings and
  nothing else, a value that was set is reported, and the bytes written to the port reach the
  device in order and once.
\<close>

section \<open>Updating\<close>

text \<open>A step of \<^verbatim>\<open>do_update\<close> for another setting keeps whatever its function keeps.\<close>

lemma flagged_keeps: "(\<And>s. f (change s) = f s) \<Longrightarrow> f (flagged fl change s) = f s"
  by (simp add: flagged_def)

context setting
begin

text \<open>The step of \<^verbatim>\<open>do_update\<close> for the setting itself.\<close>

lemma get_flagged:
  "wf_line s \<Longrightarrow> sl_flags s AND fl \<noteq> 0 \<longrightarrow> ok (pend s) \<Longrightarrow>
   get (flagged fl change s) = (if sl_flags s AND fl \<noteq> 0 then pend s else get s)"
  by (simp add: flagged_def get_change)

end

lemma set_frame:
  assumes "\<And>s t. f (s\<lparr>sl_tio := t\<rparr>) = f s"
  shows "f (set_baud b s) = f s" "f (set_csize v s) = f s" "f (set_stopb v s) = f s"
    "f (set_parity v s) = f s" "f (put_cc k v s) = f s" "f (set_hwflow v s) = f s"
    "f (set_swflow v s) = f s" "f (set_echo v s) = f s"
    "f (iflag g s) = f s" "f (oflag g s) = f s" "f (cflag g s) = f s" "f (lflag g s) = f s"
  by (simp_all add: set_baud_def set_csize_def set_stopb_def set_parity_def put_cc_def set_hwflow_def
      set_swflow_def set_echo_def Let_def iflag_def oflag_def cflag_def lflag_def assms)

lemma change_mode_frame:
  assumes "\<And>s t. f (s\<lparr>sl_tio := t\<rparr>) = f s" "\<And>s m. f (s\<lparr>sl_cmode := m\<rparr>) = f s"
  shows "f (change_mode s) = f s"
  by (simp add: change_mode_def set_raw_mode_def set_line_mode_def Let_def assms set_frame [of f])

text \<open>No step changes a pending value, the flags or anything else but the attributes and the mode.\<close>

lemmas set_frames [simp] =
  set_frame [of sl_flags, simplified]
  set_frame [of sl_com, simplified]
  set_frame [of sl_mode, simplified]
  set_frame [of sl_baud, simplified]
  set_frame [of sl_csize, simplified]
  set_frame [of sl_stopb, simplified]
  set_frame [of sl_parity, simplified]
  set_frame [of sl_bufsz, simplified]
  set_frame [of sl_buftm, simplified]
  set_frame [of sl_xonchar, simplified]
  set_frame [of sl_xoffchar, simplified]
  set_frame [of sl_eolchar, simplified]
  set_frame [of sl_eol2char, simplified]
  set_frame [of sl_hwflow, simplified]
  set_frame [of sl_swflow, simplified]
  set_frame [of sl_echo, simplified]
  set_frame [of sl_opending, simplified]
  set_frame [of calls, simplified]

lemmas mode_frames [simp] =
  change_mode_frame [of sl_flags, simplified]
  change_mode_frame [of sl_com, simplified]
  change_mode_frame [of sl_mode, simplified]
  change_mode_frame [of sl_baud, simplified]
  change_mode_frame [of sl_csize, simplified]
  change_mode_frame [of sl_stopb, simplified]
  change_mode_frame [of sl_parity, simplified]
  change_mode_frame [of sl_bufsz, simplified]
  change_mode_frame [of sl_buftm, simplified]
  change_mode_frame [of sl_xonchar, simplified]
  change_mode_frame [of sl_xoffchar, simplified]
  change_mode_frame [of sl_eolchar, simplified]
  change_mode_frame [of sl_eol2char, simplified]
  change_mode_frame [of sl_hwflow, simplified]
  change_mode_frame [of sl_swflow, simplified]
  change_mode_frame [of sl_echo, simplified]
  change_mode_frame [of sl_opending, simplified]
  change_mode_frame [of calls, simplified]

lemmas flagged_frames [simp] =
  flagged_keeps [of sl_flags]
  flagged_keeps [of sl_com]
  flagged_keeps [of sl_mode]
  flagged_keeps [of sl_baud]
  flagged_keeps [of sl_csize]
  flagged_keeps [of sl_stopb]
  flagged_keeps [of sl_parity]
  flagged_keeps [of sl_bufsz]
  flagged_keeps [of sl_buftm]
  flagged_keeps [of sl_xonchar]
  flagged_keeps [of sl_xoffchar]
  flagged_keeps [of sl_eolchar]
  flagged_keeps [of sl_eol2char]
  flagged_keeps [of sl_hwflow]
  flagged_keeps [of sl_swflow]
  flagged_keeps [of sl_echo]
  flagged_keeps [of sl_opending]
  flagged_keeps [of calls]

lemma wf_line_sets [simp]:
  "wf_line (set_csize v s) = wf_line s" "wf_line (set_stopb v s) = wf_line s" "wf_line (set_parity v s) = wf_line s"
  "wf_line (set_hwflow v s) = wf_line s" "wf_line (set_swflow v s) = wf_line s" "wf_line (set_echo v s) = wf_line s"
  "wf_line (s\<lparr>sl_cmode := m\<rparr>) = wf_line s" "wf_line (change_mode s) = wf_line s"
  by (simp_all add: set_csize_def set_stopb_def set_parity_def set_hwflow_def set_swflow_def set_echo_def
      change_mode_def set_raw_mode_def set_line_mode_def Let_def) (simp_all add: wf_line_def)

lemma get_cmode [simp]:
  "get_baud (s\<lparr>sl_cmode := m\<rparr>) = get_baud s" "get_parity (s\<lparr>sl_cmode := m\<rparr>) = get_parity s"
  "get_stopb (s\<lparr>sl_cmode := m\<rparr>) = get_stopb s" "get_csize (s\<lparr>sl_cmode := m\<rparr>) = get_csize s"
  "get_swflow (s\<lparr>sl_cmode := m\<rparr>) = get_swflow s" "get_hwflow (s\<lparr>sl_cmode := m\<rparr>) = get_hwflow s"
  "get_echo (s\<lparr>sl_cmode := m\<rparr>) = get_echo s"
  using get_cong [of "s\<lparr>sl_cmode := m\<rparr>" s] by simp_all

lemma change_mode_elsewhere [simp]:
  "get_baud (change_mode s) = get_baud s" "get_parity (change_mode s) = get_parity s"
  "get_stopb (change_mode s) = get_stopb s" "get_csize (change_mode s) = get_csize s"
  "get_swflow (change_mode s) = get_swflow s" "get_hwflow (change_mode s) = get_hwflow s"
  "get_echo (change_mode s) = get_echo s"
  by (simp_all add: change_mode_def set_raw_mode_def set_line_mode_def Let_def,
      simp_all add: flag_settings get_baud_def cfgetispeed_def masked)

lemmas get_frames [simp] =
  flagged_keeps [of wf_line]
  flagged_keeps [of get_baud]
  flagged_keeps [of get_csize]
  flagged_keeps [of get_stopb]
  flagged_keeps [of get_parity]
  flagged_keeps [of get_hwflow]
  flagged_keeps [of get_swflow]
  flagged_keeps [of get_echo]
  flagged_keeps [of "get_cc k" for k]

text \<open>The attributes \<^verbatim>\<open>do_update\<close> computes, and what it does with them.\<close>

definition settled :: "sl_t \<Rightarrow> sl_t" where
  "settled s =
     flagged FL_ECHO (\<lambda>s. set_echo (sl_echo s) s) (
     flagged FL_SWFLOW (\<lambda>s. set_swflow (sl_swflow s) s) (
     flagged FL_HWFLOW (\<lambda>s. set_hwflow (sl_hwflow s) s) (
     flagged FL_EOL2CHAR (\<lambda>s. set_eol2char (sl_eol2char s) s) (
     flagged FL_EOLCHAR (\<lambda>s. set_eolchar (sl_eolchar s) s) (
     flagged FL_XOFFCHAR (\<lambda>s. set_xoffchar (sl_xoffchar s) s) (
     flagged FL_XONCHAR (\<lambda>s. set_xonchar (sl_xonchar s) s) (
     flagged FL_BUFTM (\<lambda>s. set_buftm (sl_buftm s) s) (
     flagged FL_BUFSZ (\<lambda>s. set_bufsz (sl_bufsz s) s) (
     flagged FL_PARITY (\<lambda>s. set_parity (sl_parity s) s) (
     flagged FL_STOPB (\<lambda>s. set_stopb (sl_stopb s) s) (
     flagged FL_CSIZE (\<lambda>s. set_csize (sl_csize s) s) (
     flagged FL_BAUD (\<lambda>s. set_baud (sl_baud s) s) (
     flagged FL_MODE change_mode s)))))))))))))"

lemma do_update_settled:
  assumes "sl_flags s \<noteq> 0" "sl_com s \<noteq> INVALID"
  shows "do_update tt s = (settled s)\<lparr>calls := Os (OsSetAttr (sl_tio (settled s))) # calls s, sl_flags := 0\<rparr>"
  using assms by (simp add: do_update_def settled_def set_com_state_def Let_def cc_settings)

text \<open>
  \<open>applied s s' fl pend get\<close>: a setting that was flagged has its pending value on the device, one
  that was not keeps its value unless the mode changes.
\<close>

definition applied :: "sl_t \<Rightarrow> sl_t \<Rightarrow> 32 word \<Rightarrow> (sl_t \<Rightarrow> int) \<Rightarrow> (sl_t \<Rightarrow> int) \<Rightarrow> bool" where
  "applied s s' fl pend get \<longleftrightarrow>
     (if sl_flags s AND fl \<noteq> 0 then get s' = pend s
      else sl_flags s AND FL_MODE = 0 \<longrightarrow> get s' = get s)"

lemma mode_flagged:
  "sl_flags s AND FL_MODE = 0 \<Longrightarrow> flagged FL_MODE change_mode s = s"
  by (simp add: flagged_def)

text \<open>The pending values that are values of their settings.\<close>

definition valid_settings :: "sl_t \<Rightarrow> bool" where
  "valid_settings s \<longleftrightarrow>
     (sl_flags s AND FL_BAUD \<noteq> 0 \<longrightarrow> sl_baud s \<in> fst ` set rtab) \<and>
     (sl_flags s AND FL_CSIZE \<noteq> 0 \<longrightarrow> sl_csize s \<in> {5, 6, 7, 8}) \<and>
     (sl_flags s AND FL_STOPB \<noteq> 0 \<longrightarrow> sl_stopb s \<in> {1, 2}) \<and>
     (sl_flags s AND FL_PARITY \<noteq> 0 \<longrightarrow> sl_parity s \<in> {0, 1, 2, 3}) \<and>
     (sl_flags s AND FL_BUFSZ \<noteq> 0 \<longrightarrow> 0 \<le> sl_bufsz s \<and> sl_bufsz s < 256) \<and>
     (sl_flags s AND FL_BUFTM \<noteq> 0 \<longrightarrow> 0 \<le> sl_buftm s \<and> sl_buftm s < 256) \<and>
     (sl_flags s AND FL_XONCHAR \<noteq> 0 \<longrightarrow> 0 \<le> sl_xonchar s \<and> sl_xonchar s < 256) \<and>
     (sl_flags s AND FL_XOFFCHAR \<noteq> 0 \<longrightarrow> 0 \<le> sl_xoffchar s \<and> sl_xoffchar s < 256) \<and>
     (sl_flags s AND FL_EOLCHAR \<noteq> 0 \<longrightarrow> 0 \<le> sl_eolchar s \<and> sl_eolchar s < 256) \<and>
     (sl_flags s AND FL_EOL2CHAR \<noteq> 0 \<longrightarrow> 0 \<le> sl_eol2char s \<and> sl_eol2char s < 256) \<and>
     (sl_flags s AND FL_HWFLOW \<noteq> 0 \<longrightarrow> sl_hwflow s \<in> {0, 1}) \<and>
     (sl_flags s AND FL_SWFLOW \<noteq> 0 \<longrightarrow> sl_swflow s \<in> {0, 1}) \<and>
     (sl_flags s AND FL_ECHO \<noteq> 0 \<longrightarrow> sl_echo s \<in> {0, 1})"

lemma settled_flags:
  assumes "wf_line s" "valid_settings s"
  shows "applied s (settled s) FL_CSIZE sl_csize get_csize"
    "applied s (settled s) FL_STOPB sl_stopb get_stopb"
    "applied s (settled s) FL_PARITY sl_parity get_parity"
    "applied s (settled s) FL_HWFLOW sl_hwflow get_hwflow"
    "applied s (settled s) FL_ECHO sl_echo get_echo"
  using assms
  by (simp_all add: applied_def settled_def cc_settings valid_settings_def csize.get_flagged stopb.get_flagged
      parity.get_flagged hwflow.get_flagged echo.get_flagged)

lemmas get_flagged_cc =
  bufsz.get_flagged [unfolded cc_settings] buftm.get_flagged [unfolded cc_settings]
  xonchar.get_flagged [unfolded cc_settings] xoffchar.get_flagged [unfolded cc_settings]
  eolchar.get_flagged [unfolded cc_settings] eol2char.get_flagged [unfolded cc_settings]

lemma settled_chars:
  assumes "wf_line s" "valid_settings s"
  shows "applied s (settled s) FL_BUFSZ sl_bufsz get_bufsz"
    "applied s (settled s) FL_BUFTM sl_buftm get_buftm"
    "applied s (settled s) FL_XONCHAR sl_xonchar get_xonchar"
    "applied s (settled s) FL_XOFFCHAR sl_xoffchar get_xoffchar"
    "applied s (settled s) FL_EOLCHAR sl_eolchar get_eolchar"
    "applied s (settled s) FL_EOL2CHAR sl_eol2char get_eol2char"
  using assms
  by (simp_all add: applied_def settled_def cc_settings valid_settings_def get_flagged_cc mode_flagged)

text \<open>
  The rate and software flow control share a flag of \<^verbatim>\<open>c_cflag\<close>.  \<open>rate\<close> is what the attributes
  say about the rate: the speed and the flag for an input speed of zero.
\<close>

definition rate :: "sl_t \<Rightarrow> 32 word \<times> 32 word" where
  "rate s = (c_cflag (sl_tio s) AND CBAUD, c_iflag (sl_tio s) AND IBAUD0)"

lemma get_baud_rate: "get_baud s = from_speed (if snd (rate s) \<noteq> 0 then 0 else fst (rate s))"
  by (simp add: get_baud_def cfgetispeed_def rate_def)

lemma rate_simps [simp]:
  "rate (set_baud b s) = (to_speed b, if to_speed b = 0 then IBAUD0 else 0)"
  "rate (set_swflow v s) =
     (if v \<noteq> 0 then fst (rate s) OR 0x1000 else fst (rate s) AND NOT 0x1000, snd (rate s))"
  "rate (set_csize v s) = rate s" "rate (set_stopb v s) = rate s" "rate (set_parity v s) = rate s"
  "rate (set_hwflow v s) = rate s" "rate (set_echo v s) = rate s" "rate (put_cc k v s) = rate s"
  "rate (s\<lparr>sl_cmode := m\<rparr>) = rate s"
  by (simp_all add: rate_def set_baud_flags set_swflow_def set_csize_def set_stopb_def set_parity_def
      set_hwflow_def set_echo_def Let_def masked)

lemma rate_change_mode [simp]: "rate (change_mode s) = rate s"
  by (simp add: change_mode_def set_raw_mode_def set_line_mode_def Let_def, simp add: rate_def masked)

lemma rate_settled:
  "rate (settled s) =
     (let r = (if sl_flags s AND FL_BAUD \<noteq> 0
               then (to_speed (sl_baud s), if to_speed (sl_baud s) = 0 then IBAUD0 else 0) else rate s) in
      if sl_flags s AND FL_SWFLOW = 0 then r
      else (if sl_swflow s \<noteq> 0 then fst r OR 0x1000 else fst r AND NOT 0x1000, snd r))"
proof -
  note keeps = flagged_keeps [of rate] flagged_keeps [of sl_flags]
  note at = if_distrib [of rate] flagged_def [of FL_BAUD] flagged_def [of FL_SWFLOW]
  show ?thesis
    by (simp add: settled_def cc_settings keeps at Let_def)
qed

lemma get_frames_world [simp]:
  "get_baud (s\<lparr>calls := h, sl_flags := fl\<rparr>) = get_baud s" "get_parity (s\<lparr>calls := h, sl_flags := fl\<rparr>) = get_parity s"
  "get_stopb (s\<lparr>calls := h, sl_flags := fl\<rparr>) = get_stopb s" "get_csize (s\<lparr>calls := h, sl_flags := fl\<rparr>) = get_csize s"
  "get_swflow (s\<lparr>calls := h, sl_flags := fl\<rparr>) = get_swflow s" "get_hwflow (s\<lparr>calls := h, sl_flags := fl\<rparr>) = get_hwflow s"
  "get_echo (s\<lparr>calls := h, sl_flags := fl\<rparr>) = get_echo s" "get_cc k (s\<lparr>calls := h, sl_flags := fl\<rparr>) = get_cc k s"
  using get_cong [of "s\<lparr>calls := h, sl_flags := fl\<rparr>" s] by (simp_all add: get_cc_def)

lemma settled_swflow:
  "wf_line s \<Longrightarrow> valid_settings s \<Longrightarrow> sl_flags s AND FL_SWFLOW \<noteq> 0 \<Longrightarrow> get_swflow (settled s) = sl_swflow s"
  by (simp add: settled_def cc_settings valid_settings_def swflow.get_flagged)

lemma settled_baud:
  assumes "valid_settings s" "sl_flags s AND FL_BAUD \<noteq> 0"
    and "sl_flags s AND FL_SWFLOW = 0 \<or> (38400 < sl_baud s \<longleftrightarrow> sl_swflow s \<noteq> 0)"
  shows "get_baud (settled s) = sl_baud s"
proof -
  have rate: "sl_baud s \<in> fst ` set rtab" using assms(1,2) by (simp add: valid_settings_def)
  have "from_speed 0 = 0" by (simp add: from_speed_def rtab_def)
  with rate show ?thesis
    using assms(2,3) rtab_speeds [OF rate]
    by (cases "38400 < sl_baud s") (auto simp: get_baud_rate rate_settled Let_def)
qed

section \<open>What reaches the device\<close>

text \<open>The bytes the device has taken, in the order of the writes, and whether its readiness is waited for.\<close>

fun written :: "tty \<Rightarrow> call list \<Rightarrow> byte list" where
  "written tt [] = []"
| "written tt (c # h) = written tt h @
     (case c of
        Os (OsWrite bs) \<Rightarrow> (case os_write tt (c # h) of Inl _ \<Rightarrow> [] | Inr n \<Rightarrow> take n bs)
      | _ \<Rightarrow> [])"

fun write_selected :: "call list \<Rightarrow> bool" where
  "write_selected [] = False"
| "write_selected (Select m on # h) = (if DO_WRITE \<le> m then on else write_selected h)"
| "write_selected (c # h) = write_selected h"

definition line_inv :: "emulator \<Rightarrow> sl_t \<Rightarrow> bool" where
  "line_inv em s \<longleftrightarrow> sl_com s \<noteq> INVALID \<and> sl_opending s = 0 \<and>
     (em_queue em (calls s) \<noteq> [] \<longrightarrow> write_selected (calls s))"

text \<open>What happens to an open line: its owner writes, or the device becomes ready for more.\<close>

datatype line_event = Written "byte list" | Ready

fun run_line :: "emulator \<Rightarrow> tty \<Rightarrow> line_event list \<Rightarrow> sl_t \<Rightarrow> (unit, sl_t) outcome" where
  "run_line em tt [] s = Inr ((), s)"
| "run_line em tt (Written buf # evs) s = andthen (sl_output em tt buf s) (\<lambda>_ s. run_line em tt evs s)"
| "run_line em tt (Ready # evs) s = run_line em tt evs (sl_ready_output em tt s)"

fun event_bytes :: "line_event \<Rightarrow> byte list" where
  "event_bytes (Written buf) = buf"
| "event_bytes Ready = []"

text \<open>The bytes that are on their way: taken by the device or queued behind them.\<close>

definition on_line :: "emulator \<Rightarrow> tty \<Rightarrow> sl_t \<Rightarrow> byte list" where
  "on_line em tt s = written tt (calls s) @ em_queue em (calls s)"

lemma ready_output_line:
  assumes "driver_queue (em_queue em)" "device_ok tt" "line_inv em s"
  shows "line_inv em (sl_ready_output em tt s) \<and> on_line em tt (sl_ready_output em tt s) = on_line em tt s"
proof -
  note dq = driver_queue.q_simps [OF assms(1)] driver_queue.q_frame [OF assms(1)]
  let ?q = "em_queue em (calls s)" and ?h = "Os (OsWrite (em_queue em (calls s))) # calls s"
  have le: "os_write tt ?h = Inr n \<Longrightarrow> n \<le> length ?q" for n
    using assms(2) by (simp add: device_ok_def)
  show ?thesis
  proof (cases "os_write tt ?h")
    case (Inl e)
    then show ?thesis using assms(3)
      by (simp add: sl_ready_output_def do_write_more_def line_inv_def on_line_def driver_sizeq_def Let_def dq)
  next
    case (Inr n)
    then show ?thesis using assms(3) le [OF Inr]
      by (auto simp: sl_ready_output_def do_write_more_def line_inv_def on_line_def driver_sizeq_def Let_def dq)
  qed
qed

lemma output_line:
  assumes "driver_queue (em_queue em)" "device_ok tt" "\<And>h. os_write tt h \<noteq> Inl EOTHER" "line_inv em s"
  shows "run_ok {} (\<lambda>_ s'. line_inv em s' \<and> on_line em tt s' = on_line em tt s @ buf) (sl_output em tt buf s)"
proof -
  note dq = driver_queue.q_simps [OF assms(1)] driver_queue.q_frame [OF assms(1)]
  let ?h = "Os (OsWrite buf) # calls s"
  have le: "os_write tt ?h = Inr n \<Longrightarrow> n \<le> length buf" for n
    using assms(2) by (simp add: device_ok_def)
  show ?thesis
  proof (cases "os_write tt ?h")
    case (Inl e)
    then have "os_write tt ?h = Inl EAGAIN" using assms(3) [of ?h] by (cases e) auto
    then show ?thesis using assms(4)
      by (auto simp: sl_output_def do_write_init_def do_write_buf_def line_inv_def on_line_def driver_sizeq_def Let_def dq)
  next
    case (Inr n)
    then show ?thesis using assms(4) le [OF Inr]
      by (auto simp: sl_output_def do_write_init_def do_write_buf_def line_inv_def on_line_def driver_sizeq_def Let_def dq
          bytes_at_def)
  qed
qed

lemma run_line_conserves:
  assumes "driver_queue (em_queue em)" "device_ok tt" "\<And>h. os_write tt h \<noteq> Inl EOTHER" "line_inv em s"
  shows "run_ok {} (\<lambda>_ s'. line_inv em s' \<and> on_line em tt s' = on_line em tt s @ concat (map event_bytes evs))
    (run_line em tt evs s)"
  using assms(4)
proof (induction evs arbitrary: s)
  case Nil
  then show ?case by simp
next
  case (Cons ev evs)
  show ?case
  proof (cases ev)
    case (Written buf)
    have "run_ok {} (\<lambda>_ s'. line_inv em s' \<and> on_line em tt s' = on_line em tt s @ concat (map event_bytes (Written buf # evs)))
        (run_line em tt evs s1)"
      if "line_inv em s1 \<and> on_line em tt s1 = on_line em tt s @ buf" for s1
      using Cons.IH [of s1] that by simp
    then show ?thesis unfolding Written run_line.simps
      by (intro run_ok_andthen [THEN iffD2] run_ok_mono [OF output_line [OF assms(1-3) Cons.prems, of buf]])
  next
    case Ready
    then show ?thesis
      using ready_output_line [OF assms(1,2) Cons.prems] Cons.IH [of "sl_ready_output em tt s"] by simp
  qed
qed

section \<open>Opening\<close>

lemma flag_or: "(w OR k) AND m \<noteq> 0 \<longleftrightarrow> w AND m \<noteq> 0 \<or> k AND m \<noteq> 0" for w k m :: "32 word"
  by (simp add: bit.conj_disj_distrib2 or_eq_0_iff)

lemma default_setting_frames:
  assumes "\<And>s. f (upd s) = f s" "\<And>s fl. f (s\<lparr>sl_flags := fl\<rparr>) = f s"
  shows "f (default_setting fl upd s) = f s"
  by (simp add: default_setting_def Let_def assms)

lemma default_setting_flags:
  assumes "\<And>s. sl_flags (upd s) = sl_flags s"
  shows "sl_flags (default_setting fl upd s) AND m \<noteq> 0 \<longleftrightarrow>
     sl_flags s AND m \<noteq> 0 \<or> sl_flags s AND fl = 0 \<and> fl AND m \<noteq> 0"
  by (auto simp: default_setting_def Let_def assms flag_or)

lemma default_setting_clear:
  assumes "\<And>s. sl_flags (upd s) = sl_flags s"
  shows "sl_flags (default_setting fl upd s) AND m = 0 \<longleftrightarrow>
     sl_flags s AND m = 0 \<and> (sl_flags s AND fl \<noteq> 0 \<or> fl AND m = 0)"
  using default_setting_flags [of upd fl s m, OF assms] by blast

lemma default_setting_pending: "sl_flags s AND fl \<noteq> 0 \<Longrightarrow> default_setting fl upd s = s"
  by (simp add: default_setting_def)

lemma default_setting_new:
  "sl_flags s AND fl = 0 \<Longrightarrow> default_setting fl upd s = (upd s)\<lparr>sl_flags := sl_flags (upd s) OR fl\<rparr>"
  by (simp add: default_setting_def Let_def)

text \<open>The defaults of an opening, the last two before the others.\<close>

definition with_defaults :: "sl_t \<Rightarrow> sl_t" where
  "with_defaults s =
     default_setting FL_HWFLOW (\<lambda>s. s\<lparr>sl_hwflow := 1\<rparr>) (default_setting FL_CSIZE (\<lambda>s. s\<lparr>sl_csize := 8\<rparr>)
       (default_setting FL_ECHO (\<lambda>s. s\<lparr>sl_echo := 0\<rparr>) (default_setting FL_PARITY (\<lambda>s. s\<lparr>sl_parity := 0\<rparr>)
         (default_setting FL_BAUD (\<lambda>s. s\<lparr>sl_baud := 9600\<rparr>)
           (default_setting FL_MODE (\<lambda>s. s\<lparr>sl_mode := SL_MODE_RAW\<rparr>) s)))))"

lemma defaults_baud:
  assumes "sl_flags s AND FL_BAUD \<noteq> 0" "sl_flags s AND FL_SWFLOW = 0"
  shows "sl_flags (with_defaults s) AND FL_BAUD \<noteq> 0" "sl_flags (with_defaults s) AND FL_SWFLOW = 0"
    "sl_baud (with_defaults s) = sl_baud s" "sl_com (with_defaults s) = sl_com s"
proof -
  note flags = default_setting_flags [of _ _ _ FL_BAUD]
  show "sl_flags (with_defaults s) AND FL_BAUD \<noteq> 0" unfolding with_defaults_def using assms(1) by (simp add: flags)
  show "sl_flags (with_defaults s) AND FL_SWFLOW = 0"
    unfolding with_defaults_def using assms(2) by (simp add: default_setting_clear [of _ _ _ FL_SWFLOW])
  show "sl_com (with_defaults s) = sl_com s"
    by (simp add: with_defaults_def default_setting_frames [of sl_com])
  have "sl_flags (default_setting FL_MODE (\<lambda>s. s\<lparr>sl_mode := SL_MODE_RAW\<rparr>) s) AND FL_BAUD \<noteq> 0"
    using assms(1) by (simp add: flags)
  then show "sl_baud (with_defaults s) = sl_baud s"
    by (simp add: with_defaults_def default_setting_frames [of sl_baud] default_setting_pending)
qed

lemma open_rate:
  assumes "sl_flags s AND FL_BAUD \<noteq> 0" "sl_baud s \<in> fst ` set rtab" "38400 < sl_baud s"
    and "sl_flags s AND FL_SWFLOW = 0" "do_open tt s = (0, s')"
  shows "get_baud s' = from_speed (to_speed (sl_baud s) AND NOT 0x1000)"
proof -
  let ?swflow = "default_setting FL_SWFLOW (\<lambda>s. s\<lparr>sl_swflow := 0\<rparr>)"
  obtain u where u: "s' = do_update tt (?swflow (with_defaults u))" "sl_flags u = sl_flags s" "sl_baud u = sl_baud s"
    "sl_com u \<noteq> INVALID"
    using assms(5)
    by (auto simp: do_open_def do_close_def get_com_state_def with_defaults_def Let_def split: if_splits option.splits)
  let ?v = "?swflow (with_defaults u)"
  have op: "sl_flags (with_defaults u) AND FL_BAUD \<noteq> 0" "sl_flags (with_defaults u) AND FL_SWFLOW = 0"
    "sl_baud (with_defaults u) = sl_baud s" "sl_com (with_defaults u) \<noteq> INVALID"
    using defaults_baud [of u] u assms(1,4) by simp_all
  have v: "sl_flags ?v AND FL_BAUD \<noteq> 0" "sl_flags ?v AND FL_SWFLOW \<noteq> 0" "sl_baud ?v = sl_baud s"
    "sl_swflow ?v = 0" "sl_com ?v \<noteq> INVALID"
    using op by (simp_all add: default_setting_new flag_or)
  have "sl_flags ?v \<noteq> 0" using v(1) by auto
  then have "get_baud s' = get_baud (settled ?v)" using u(1) v(5) by (simp add: do_update_settled)
  then show ?thesis using v(1-4) assms(3) rtab_speeds(2) [OF assms(2)]
    by (simp add: get_baud_rate rate_settled Let_def)
qed

section \<open>Control\<close>

lemma set_get:
  assumes "- (2 ^ 31) \<le> i" "i < 2 ^ 31" "6 \<le> rsize" "fl AND fl \<noteq> 0"
    and "\<And>s. sl_flags (upd i s) = sl_flags s" "\<And>s. calls (upd i s) = calls s" "\<And>s. sl_tio (upd i s) = sl_tio s"
    and "\<And>s f. pend ((upd i s)\<lparr>sl_flags := f\<rparr>) = i"
  shows "\<exists>s'. andthen (sl_set em (put_int32 i) rsize fl upd s)
      (\<lambda>_ s. sl_get em sl_reply_int rsize fl pend current s) = Inr ((6, [0, 0] @ put_int32 i), s') \<and>
    calls s' = calls s \<and> sl_tio s' = sl_tio s"
proof -
  have "get_int32 (put_int32 i) = i" using get_put_int32 [OF assms(1,2), of "[]"] by simp
  then show ?thesis using assms(3-)
    by (simp add: sl_set_def sl_get_def sl_reply_int_def sl_reply_def Let_def flag_or)
qed

lemma set_get_values:
  assumes "- (2 ^ 31) \<le> i" "i < 2 ^ 31" "6 \<le> rsize" "cmd \<in> {22, 26, 30, 32, 34, 40, 42, 48, 50}"
  shows "\<exists>s'. andthen (sl_ctl em tt cmd (put_int32 i) rsize s) (\<lambda>_ s. sl_ctl em tt (cmd + 1) [] rsize s) =
       Inr ((6, [0, 0] @ put_int32 i), s') \<and> calls s' = calls s \<and> sl_tio s' = sl_tio s"
proof -
  note ctl = sl_ctl_def sl_ctl_line_def sl_ctl_flow_def
  consider "cmd = 22" | "cmd = 26" | "cmd = 30" | "cmd = 32" | "cmd = 34" | "cmd = 40" | "cmd = 42"
    | "cmd = 48" | "cmd = 50" using assms(4) by auto
  then show ?thesis
    by cases (simp only: ctl, simp, rule set_get [OF assms(1-3), simplified]; simp)+
qed

section \<open>Rates\<close>

text \<open>The rate a baud rate is rounded to: the least of the table that is not below it.\<close>

lemma to_speed_least:
  assumes "r \<in> fst ` set rtab" "baud \<le> r" "\<forall>b \<in> fst ` set rtab. baud \<le> b \<longrightarrow> r \<le> b"
  shows "from_speed (to_speed baud) = r"
proof -
  obtain sp where sp: "(r, sp) \<in> set rtab" using assms(1) by auto
  have "sorted_wrt (<) (map fst rtab)" by (simp add: rtab_def)
  then have "to_speed baud = sp"
    unfolding to_speed_def using find_rate_least sp assms(2,3) by blast
  moreover have "to_speed r = sp" using rtab_checked sp by (auto simp: list_all_iff)
  ultimately show ?thesis using rtab_speeds(1) [OF assms(1)] by simp
qed

section \<open>A device for concrete evaluations\<close>

text \<open>It opens, is always ready and takes at most two bytes at a time.\<close>

definition demo_tty :: tty where
  "demo_tty =
     \<lparr>os_open = \<lambda>_. 3,
      os_getattr = \<lambda>_. Some \<lparr>c_iflag = 0, c_oflag = 0, c_cflag = 0, c_lflag = 0, c_cc = replicate NCCS 0\<rparr>,
      os_setattr = \<lambda>_. 0,
      os_write = \<lambda>h. (case h of Os (OsWrite bs) # _ \<Rightarrow> Inr (min 2 (length bs)) | _ \<Rightarrow> Inr 0),
      os_read = \<lambda>_. Inr []\<rparr>"

lemma demo_tty_ok: "device_ok demo_tty" "os_write demo_tty h \<noteq> Inl EOTHER"
  "os_open demo_tty h = 3" "os_write demo_tty (Os (OsWrite bs) # h) = Inr (min 2 (length bs))"
  by (auto simp: device_ok_def demo_tty_def split: list.splits call.splits os_call.splits)

text \<open>A port as it is started in cleared memory, and one whose line is open.\<close>

definition blank_line :: sl_t where
  "blank_line =
     \<lparr>calls = [], sl_com = 0, sl_ilen = 0, sl_ibuf = None, sl_ipending = 0, sl_olen = 0, sl_obuf = None,
      sl_opending = 0, sl_cmode = 0,
      sl_tio = \<lparr>c_iflag = 0, c_oflag = 0, c_cflag = 0, c_lflag = 0, c_cc = []\<rparr>,
      sl_dev = None, sl_flags = 0, sl_baud = 0, sl_csize = 0, sl_stopb = 0, sl_parity = 0, sl_hwflow = 0,
      sl_swflow = 0, sl_echo = 0, sl_xonchar = 0, sl_xoffchar = 0, sl_eolchar = 0, sl_eol2char = 0,
      sl_bufsz = 0, sl_buftm = 0, sl_mode = 0\<rparr>"

definition idle_line :: sl_t where
  "idle_line = the (sl_start demo_emulator 200 blank_line)"

definition open_line :: sl_t where
  "open_line = idle_line\<lparr>sl_com := 3, sl_dev := Some [47, 116]\<rparr>"

lemma open_line_facts:
  "sl_com open_line = 3" "sl_opending open_line = 0" "calls open_line = [AllocMem 200]" "wf_line open_line"
  "sl_flags open_line = 0" "sl_dev open_line = Some [47, 116]"
  by (simp_all add: open_line_def idle_line_def sl_start_def blank_line_def Let_def wf_line_def)

end
