(* ===== verification/Url.thy ===== *)
theory Url
  imports Driver_Api
begin

unbundle bit_operations_syntax

text \<open>
  The URL encoding driver of the HTTP client: \<^verbatim>\<open>ibrowse/c_src/ibrowse_drv.c\<close>.  A plain \<^verbatim>\<open>char\<close> is
  signed, as on every platform the Erlang emulator had a loadable driver for then; what the driver
  prints to \<^verbatim>\<open>stderr\<close> is left out.
\<close>

section \<open>The driver\<close>

record ibrowse_state = world +
  ib_count :: "32 word"
  ib_alloc_ptr :: "byte list option"

definition ibrowse_drv_start :: "emulator \<Rightarrow> int \<Rightarrow> ibrowse_state \<Rightarrow> (unit, ibrowse_state) outcome" where
  "ibrowse_drv_start em sizeof_State s =
     (let s = log_call (AllocMem sizeof_State) s in
      if em_alloc em (calls s) then Inr ((), s\<lparr>ib_count := 0, ib_alloc_ptr := None\<rparr>) else Inl NullPtr)"

definition d2h :: "32 word \<Rightarrow> 32 word" where
  "d2h i = (if i < 10 then i + 48 else i + 97 - 10)"

text \<open>The characters that are not encoded; a \<^verbatim>\<open>char\<close> assigned to the unsigned \<^verbatim>\<open>temp\<close> is extended by its sign.\<close>

definition unreserved :: "32 word \<Rightarrow> bool" where
  "unreserved temp \<longleftrightarrow>
     97 \<le> temp \<and> temp \<le> 122 \<or> 65 \<le> temp \<and> temp \<le> 90 \<or> 48 \<le> temp \<and> temp \<le> 57 \<or>
     temp = 45 \<or> temp = 95 \<or> temp = 46"

fun calc_encoded_length :: "byte list \<Rightarrow> 32 word" where
  "calc_encoded_length [] = 0"
| "calc_encoded_length (c # buf) =
     (if unreserved (scast c) then 1 else 3) + calc_encoded_length buf"

fun encode_bytes :: "byte list \<Rightarrow> byte list" where
  "encode_bytes [] = []"
| "encode_bytes (c # buf) =
     (let temp = scast c :: 32 word in
      if unreserved temp then ucast temp # encode_bytes buf
      else 37 # ucast (d2h (drop_bit 4 temp)) # ucast (d2h (temp AND 15)) # encode_bytes buf)"

text \<open>The reply: a length and the block \<^verbatim>\<open>*rbuf\<close>, whose allocation is not checked.\<close>

definition ibrowse_drv_control ::
  "emulator \<Rightarrow> byte list \<Rightarrow> ibrowse_state \<Rightarrow> (int \<times> byte list option, ibrowse_state) outcome" where
  "ibrowse_drv_control em buf s =
     (let rlen_1 = calc_encoded_length buf in
      if rlen_1 = word_of_nat (length buf) then Inr ((0, None), s\<lparr>ib_alloc_ptr := None\<rparr>)
      else
        let s = log_call (AllocMem (uint rlen_1)) s;
            rbuf = (if em_alloc em (calls s) then Some (junk em s (unat rlen_1)) else None)
        in deref rbuf (\<lambda>m. writing m 0 (encode_bytes buf) (\<lambda>m.
             Inr ((sint rlen_1, Some m), s\<lparr>ib_alloc_ptr := Some m\<rparr>))))"

section \<open>Decoding\<close>

text \<open>What a server does: a percent sign and two hexadecimal digits stand for a byte.\<close>

definition h2d :: "byte \<Rightarrow> byte option" where
  "h2d c =
     (if 48 \<le> c \<and> c \<le> 57 then Some (c - 48)
      else if 97 \<le> c \<and> c \<le> 102 then Some (c - 97 + 10)
      else if 65 \<le> c \<and> c \<le> 70 then Some (c - 65 + 10)
      else None)"

fun url_decode :: "byte list \<Rightarrow> byte list option" where
  "url_decode [] = Some []"
| "url_decode (c # cs) =
     (if c \<noteq> 37 then map_option ((#) c) (url_decode cs)
      else case cs of
        x # y # cs \<Rightarrow>
          (case (h2d x, h2d y) of
             (Some i, Some j) \<Rightarrow> map_option ((#) (16 * i + j)) (url_decode cs)
           | _ \<Rightarrow> None)
      | _ \<Rightarrow> None)"

text \<open>Every byte is encoded so that it can be decoded, but for the bytes from 128 on.\<close>

definition decodable :: "byte \<Rightarrow> bool" where
  "decodable b =
     (case encode_bytes [b] of
        [c] \<Rightarrow> c = b \<and> b \<noteq> 37 \<and> b < 128
      | [c, x, y] \<Rightarrow> c = 37 \<and> (if b < 128 then (case (h2d x, h2d y) of (Some i, Some j) \<Rightarrow> 16 * i + j = b | _ \<Rightarrow> False)
                               else h2d x = None)
      | _ \<Rightarrow> False)"

lemma all_decodable: "list_all decodable (map word_of_int [0..255])"
  by code_simp

lemma decodable: "decodable b"
proof -
  have "b = word_of_int (uint b)" "uint b \<in> set [0..255]" using byte_bound [of b] by simp_all
  then show ?thesis using all_decodable by (metis (no_types, lifting) Ball_set imageI list.set_map)
qed

lemma encode_one:
  "encode_bytes (c # buf) = encode_bytes [c] @ encode_bytes buf"
  by (simp add: Let_def)

lemma length_encode_one: "length (encode_bytes [c]) = (if unreserved (scast c) then 1 else 3)"
  by (simp add: Let_def)

lemma length_encode_bytes:
  "calc_encoded_length buf = word_of_nat (length (encode_bytes buf))" "length buf \<le> length (encode_bytes buf)"
  "length (encode_bytes buf) \<le> 3 * length buf"
  by (induction buf) (simp_all add: Let_def)

lemma encode_cases:
  obtains "encode_bytes [b] = [b]" "b \<noteq> 37" "b < 128"
    | x y i j where "encode_bytes [b] = [37, x, y]" "b < 128" "h2d x = Some i" "h2d y = Some j" "16 * i + j = b"
    | x y where "encode_bytes [b] = [37, x, y]" "\<not> b < 128" "h2d x = None"
proof -
  obtain c r where e: "encode_bytes [b] = c # r" by (cases "unreserved (scast b)") (auto simp: Let_def)
  show thesis
  proof (cases r)
    case Nil
    then have "c = b \<and> b \<noteq> 37 \<and> b < 128"
      using decodable [of b] unfolding decodable_def e by simp
    then show ?thesis using that(1) e Nil by metis
  next
    case (Cons x r')
    then obtain y where r: "r = [x, y]" using e by (auto simp: Let_def split: if_splits)
    have d: "c = 37 \<and> (if b < 128 then (case (h2d x, h2d y) of (Some i, Some j) \<Rightarrow> 16 * i + j = b | _ \<Rightarrow> False)
                   else h2d x = None)"
      using decodable [of b] unfolding decodable_def e r list.case .
    show ?thesis
    proof (cases "b < 128")
      case True
      then obtain i j where "h2d x = Some i" "h2d y = Some j" "16 * i + j = b"
        using d by (simp split: option.splits)
      then show ?thesis using that(2) d e r True by metis
    next
      case False
      then show ?thesis using that(3) d e r by metis
    qed
  qed
qed

lemma url_decode_one:
  "url_decode (encode_bytes [b] @ cs) = (if b < 128 then map_option ((#) b) (url_decode cs) else None)"
  by (cases b rule: encode_cases) (simp_all only: append.simps url_decode.simps list.case, simp_all)

lemma url_decode_encode:
  "url_decode (encode_bytes buf) = (if \<forall>b \<in> set buf. b < 128 then Some buf else None)"
proof (induction buf)
  case (Cons c buf)
  show ?case by (subst encode_one) (simp add: url_decode_one Cons.IH del: encode_bytes.simps)
qed simp

lemma encode_same_length: "length (encode_bytes buf) = length buf \<Longrightarrow> encode_bytes buf = buf"
proof (induction buf)
  case (Cons c buf)
  have "length (encode_bytes buf) = length buf \<and> unreserved (scast c)"
    using Cons.prems length_encode_bytes(2) [of buf] by (auto simp: Let_def split: if_splits)
  moreover have "ucast (scast c :: 32 word) = c" by (rule bit_word_eqI) (auto simp: bit_simps)
  ultimately show ?case using Cons.IH by (simp add: Let_def)
qed simp

lemma control_reply:
  assumes "3 * length buf < 2 ^ 31" "\<And>h. em_alloc em h"
  shows "\<exists>s'. ibrowse_drv_control em buf s =
    Inr (if encode_bytes buf = buf then (0, None)
         else (int (length (encode_bytes buf)), Some (encode_bytes buf)), s')"
proof -
  let ?n = "length (encode_bytes buf)"
  have n: "?n < 2 ^ 31" "length buf < 2 ^ 31" using assms(1) length_encode_bytes(3) [of buf] by simp_all
  have "calc_encoded_length buf = word_of_nat (length buf) \<longleftrightarrow> ?n = length buf"
    using n by (auto simp: length_encode_bytes(1) word_of_nat_eq_iff take_bit_nat_eq_self)
  moreover have "unat (calc_encoded_length buf) = ?n" "sint (calc_encoded_length buf) = int ?n"
    using n by (simp_all add: length_encode_bytes(1) unat_of_nat sint_uint uint_nat signed_take_bit_int_eq_self)
  ultimately show ?thesis
    using assms(2) encode_same_length [of buf]
    by (auto simp: ibrowse_drv_control_def Let_def writing_def deref_def put_at_def)
qed

end
