(* ===== verification/Iconv.thy ===== *)
theory Iconv
  imports Driver_Api
begin

text \<open>
  The driver of the character set converter: \<^verbatim>\<open>iconv/c_src/iconv_drv.c\<close>, of which
  \<^verbatim>\<open>esmb/c_src/iconv_drv.c\<close> is a copy.  The C library's converter is a parameter, the record
  \<open>converter\<close> of functions of a state of its own.  A conversion descriptor is the bytes of an
  \<^verbatim>\<open>iconv_t\<close>, as the driver passes them to Erlang and back.  \<^verbatim>\<open>int\<close> and \<^verbatim>\<open>size_t\<close> have the same width, as
  the calls of \<^verbatim>\<open>iconv\<close> with pointers to \<^verbatim>\<open>int\<close> presuppose.
\<close>

section \<open>The library\<close>

datatype iconv_errno = EILSEQ | IV_EINVAL | E2BIG | IV_EOTHER

text \<open>
  \<open>lib_conv\<close> is given the descriptor, the input and the room for output and yields the error if there
  is one, how many bytes of the input are left, and the bytes put out.
\<close>

record 'l converter =
  sizeof_iconv_t :: nat
  lib_open :: "byte list \<Rightarrow> byte list \<Rightarrow> 'l \<Rightarrow> byte list option \<times> 'l"
  lib_close :: "byte list \<Rightarrow> 'l \<Rightarrow> 'l"
  lib_reset :: "byte list \<Rightarrow> 'l \<Rightarrow> 'l"
  lib_conv :: "byte list \<Rightarrow> byte list \<Rightarrow> int \<Rightarrow> 'l \<Rightarrow> (iconv_errno option \<times> int \<times> byte list) \<times> 'l"

text \<open>
  What the manual promises: a descriptor is an \<^verbatim>\<open>iconv_t\<close>, no more is put out than there is room for,
  and a conversion that does not fail has used up its input.
\<close>

definition converter_ok :: "'l converter \<Rightarrow> bool" where
  "converter_ok cv \<longleftrightarrow>
     (\<forall>a b l cd l'. lib_open cv a b l = (Some cd, l') \<longrightarrow> length cd = sizeof_iconv_t cv) \<and>
     (\<forall>cd ip room l e left out l'. 0 \<le> room \<and> lib_conv cv cd ip room l = ((e, left, out), l') \<longrightarrow>
        int (length out) \<le> room \<and> (e = None \<longrightarrow> left = 0))"

section \<open>The driver\<close>

text \<open>
  The state has the library's and the static buffer \<^verbatim>\<open>outbuf\<close>; \<^verbatim>\<open>inbuf\<close> and \<^verbatim>\<open>digest\<close> are not used.
\<close>

record 'l iconvdrv = world +
  iv_lib :: 'l
  iv_outbuf :: "byte list"

definition OUTBUF_SZ :: int where "OUTBUF_SZ = 512 * 4"
definition CODE_STR_SZ :: nat where "CODE_STR_SZ = 64"

definition iconvdrv_start :: "emulator \<Rightarrow> int \<Rightarrow> 'l iconvdrv \<Rightarrow> bool \<times> 'l iconvdrv" where
  "iconvdrv_start em sizeof_iconvdrv s =
     (let s = log_call (AllocMem sizeof_iconvdrv) s in (em_alloc em (calls s), s))"

definition iconvdrv_stop :: "'l iconvdrv \<Rightarrow> 'l iconvdrv" where
  "iconvdrv_stop s = log_call FreeMem s"

definition iv_send_bin :: "emulator \<Rightarrow> byte list \<Rightarrow> 'l iconvdrv \<Rightarrow> 'l iconvdrv" where
  "iv_send_bin em bin s =
     snd (driver_call em (SendTerm (em_caller em (calls s)) [TPort, TAtom ''value'', TBinary bin, TTuple 3]) s)"

definition iv_send_ok :: "emulator \<Rightarrow> 'l iconvdrv \<Rightarrow> 'l iconvdrv" where
  "iv_send_ok em s =
     snd (driver_call em (SendTerm (em_caller em (calls s)) [TPort, TAtom ''ok'', TTuple 2]) s)"

definition iv_send_error :: "emulator \<Rightarrow> string \<Rightarrow> 'l iconvdrv \<Rightarrow> 'l iconvdrv" where
  "iv_send_error em am s =
     snd (driver_call em (SendTerm (em_caller em (calls s)) [TPort, TAtom ''error'', TAtom am, TTuple 3]) s)"

definition iconv_close :: "'l converter \<Rightarrow> byte list \<Rightarrow> 'l iconvdrv \<Rightarrow> 'l iconvdrv" where
  "iconv_close cv cd s = s\<lparr>iv_lib := lib_close cv cd (iv_lib s)\<rparr>"

definition iv_open ::
  "emulator \<Rightarrow> 'l converter \<Rightarrow> byte list \<Rightarrow> byte list \<Rightarrow> 'l iconvdrv \<Rightarrow> (unit, 'l iconvdrv) outcome" where
  "iv_open em cv tocode fromcode s =
     (case lib_open cv (c_string tocode) (c_string fromcode) (iv_lib s) of
        (None, l) \<Rightarrow> Inr ((), iv_send_error em ''einval'' (s\<lparr>iv_lib := l\<rparr>))
      | (Some cd, l) \<Rightarrow>
          (case driver_alloc_binary em (int (sizeof_iconv_t cv)) (s\<lparr>iv_lib := l\<rparr>) of
             (None, s) \<Rightarrow> Inr ((), iv_send_error em ''enomem'' (iconv_close cv cd s))
           | (Some bin, s) \<Rightarrow> writing (orig_bytes bin) 0 cd (\<lambda>m.
               Inr ((), log_call FreeBinary (iv_send_bin em m s)))))"

definition iv_errno_atom :: "iconv_errno \<Rightarrow> string" where
  "iv_errno_atom e =
     (case e of EILSEQ \<Rightarrow> ''eilseq'' | IV_EINVAL \<Rightarrow> ''einval'' | E2BIG \<Rightarrow> ''e2big'' | IV_EOTHER \<Rightarrow> ''unknown'')"

definition iv_conv ::
  "emulator \<Rightarrow> 'l converter \<Rightarrow> byte list \<Rightarrow> byte list \<Rightarrow> 'l iconvdrv \<Rightarrow> (unit, 'l iconvdrv) outcome" where
  "iv_conv em cv cd ip s =
     (let s = s\<lparr>iv_lib := lib_reset cv cd (iv_lib s)\<rparr>;
          ((e, ileft, out), l) = lib_conv cv cd ip OUTBUF_SZ (iv_lib s);
          oleft = OUTBUF_SZ - int (length out)
      in writing (iv_outbuf s) 0 out (\<lambda>m.
           let s = s\<lparr>iv_lib := l, iv_outbuf := m\<rparr> in
           case e of
             Some e \<Rightarrow> Inr ((), iv_send_error em (iv_errno_atom e) s)
           | None \<Rightarrow>
               if ileft = 0 then
                 let len = OUTBUF_SZ - oleft in
                 case driver_alloc_binary em len s of
                   (None, s) \<Rightarrow> Inr ((), iv_send_error em ''enomem'' s)
                 | (Some bin, s) \<Rightarrow> reading m 0 len (\<lambda>bs. writing (orig_bytes bin) 0 bs (\<lambda>b.
                     Inr ((), log_call FreeBinary (iv_send_bin em b s))))
               else Inr ((), s)))"

definition iv_close :: "emulator \<Rightarrow> 'l converter \<Rightarrow> byte list \<Rightarrow> 'l iconvdrv \<Rightarrow> 'l iconvdrv" where
  "iv_close em cv cd s = iv_send_ok em (iconv_close cv cd s)"

text \<open>
  \<open>counted_bytes buf off k\<close> reads a 16-bit length at \<open>off\<close> and as many bytes behind it; \<open>copy_code\<close> copies a name
  into one of the arrays \<^verbatim>\<open>tocode\<close> and \<^verbatim>\<open>fromcode\<close> on the stack and ends it with a zero, \<open>copy_cd\<close>
  copies a descriptor into the variable \<^verbatim>\<open>cd\<close>.
\<close>

definition counted_bytes :: "byte list \<Rightarrow> int \<Rightarrow> (byte list \<Rightarrow> int \<Rightarrow> fault + 'a) \<Rightarrow> fault + 'a" where
  "counted_bytes buf off k =
     reading buf off 2 (\<lambda>n. reading buf (off + 2) (get_int16 n) (\<lambda>bs. k bs (off + 2 + get_int16 n)))"

definition copy_code :: "byte list \<Rightarrow> byte list \<Rightarrow> (byte list \<Rightarrow> fault + 'a) \<Rightarrow> fault + 'a" where
  "copy_code arr bs k = writing arr 0 bs (\<lambda>arr. writing arr (int (length bs)) [0] k)"

definition copy_cd :: "byte list \<Rightarrow> byte list \<Rightarrow> (byte list \<Rightarrow> fault + 'a) \<Rightarrow> fault + 'a" where
  "copy_cd cd bs k = writing cd 0 bs k"

definition iconvdrv_from_erlang ::
  "emulator \<Rightarrow> 'l converter \<Rightarrow> byte list \<Rightarrow> 'l iconvdrv \<Rightarrow> (unit, 'l iconvdrv) outcome" where
  "iconvdrv_from_erlang em cv buf s =
     (let tocode = junk em s CODE_STR_SZ; fromcode = junk em s CODE_STR_SZ;
          cd = junk em s (sizeof_iconv_t cv)
      in reading buf 0 1 (\<lambda>op.
        if op = [111] then
          counted_bytes buf 1 (\<lambda>bs off. copy_code tocode bs (\<lambda>tocode.
          counted_bytes buf off (\<lambda>bs off. copy_code fromcode bs (\<lambda>fromcode.
            iv_open em cv tocode fromcode s))))
        else if op = [118] then
          counted_bytes buf 1 (\<lambda>bs off. copy_cd cd bs (\<lambda>cd. counted_bytes buf off (\<lambda>ip off.
            iv_conv em cv cd ip s)))
        else if op = [99] then
          counted_bytes buf 1 (\<lambda>bs off. copy_cd cd bs (\<lambda>cd. Inr ((), iv_close em cv cd s)))
        else Inr ((), s)))"

section \<open>What a command does\<close>

text \<open>The requests of \<^verbatim>\<open>iconv.erl\<close> and the commands it makes of them.\<close>

datatype iv_request = Iv_Open "byte list" "byte list" | Iv_Conv "byte list" "byte list" | Iv_Close "byte list"

definition field :: "byte list \<Rightarrow> byte list" where
  "field bs = put_int16 (int (length bs)) @ bs"

fun iv_command :: "iv_request \<Rightarrow> byte list" where
  "iv_command (Iv_Open a b) = 111 # field a @ field b"
| "iv_command (Iv_Conv cd ip) = 118 # field cd @ field ip"
| "iv_command (Iv_Close cd) = 99 # field cd"

fun iv_fields :: "iv_request \<Rightarrow> byte list list" where
  "iv_fields (Iv_Open a b) = [a, b]"
| "iv_fields (Iv_Conv cd ip) = [cd, ip]"
| "iv_fields (Iv_Close cd) = [cd]"

text \<open>The requests whose parts fit the variables they are copied to.\<close>

fun iv_fits :: "'l converter \<Rightarrow> iv_request \<Rightarrow> bool" where
  "iv_fits cv (Iv_Open a b) \<longleftrightarrow> length a < 64 \<and> length b < 64"
| "iv_fits cv (Iv_Conv cd ip) \<longleftrightarrow> length cd = sizeof_iconv_t cv"
| "iv_fits cv (Iv_Close cd) \<longleftrightarrow> length cd = sizeof_iconv_t cv"

text \<open>The term a request is answered with, where \<open>mem n\<close> is whether a binary of \<open>n\<close> bytes can be had.\<close>

fun iv_answer :: "'l converter \<Rightarrow> (nat \<Rightarrow> bool) \<Rightarrow> 'l \<Rightarrow> iv_request \<Rightarrow> eterm" where
  "iv_answer cv mem l (Iv_Open a b) =
     (case fst (lib_open cv (c_string a) (c_string b) l) of
        None \<Rightarrow> ETuple [EPort, EAtom ''error'', EAtom ''einval'']
      | Some cd \<Rightarrow> if mem (length cd) then ETuple [EPort, EAtom ''value'', EBinary cd]
                   else ETuple [EPort, EAtom ''error'', EAtom ''enomem''])"
| "iv_answer cv mem l (Iv_Conv cd ip) =
     (case fst (lib_conv cv cd ip OUTBUF_SZ (lib_reset cv cd l)) of
        (Some e, _, _) \<Rightarrow> ETuple [EPort, EAtom ''error'', EAtom (iv_errno_atom e)]
      | (None, _, out) \<Rightarrow> if mem (length out) then ETuple [EPort, EAtom ''value'', EBinary out]
                          else ETuple [EPort, EAtom ''error'', EAtom ''enomem''])"
| "iv_answer cv mem l (Iv_Close cd) = ETuple [EPort, EAtom ''ok'']"

text \<open>Exactly one message has been sent, to the caller, and it is \<open>t\<close>.\<close>

definition iv_answered :: "emulator \<Rightarrow> 'l iconvdrv \<Rightarrow> eterm \<Rightarrow> 'l iconvdrv \<Rightarrow> bool" where
  "iv_answered em s t s' \<longleftrightarrow>
     (\<exists>after before spec. calls s' = after @ SendTerm (em_caller em (before @ calls s)) spec # before @ calls s \<and>
        one_term 10 t spec \<and> after \<in> {[], [FreeBinary]} \<and> (before = [] \<or> (\<exists>n. before = [AllocBinary n])))"

lemma answeredI:
  assumes "calls s1 = calls s \<or> (\<exists>n. calls s1 = AllocBinary n # calls s)"
    and "calls s' = after @ SendTerm (em_caller em (calls s1)) spec # calls s1"
    and "one_term 10 t spec" "after \<in> {[], [FreeBinary]}"
  shows "iv_answered em s t s'"
proof -
  obtain before where "calls s1 = before @ calls s" "before = [] \<or> (\<exists>n. before = [AllocBinary n])"
    using assms(1) by auto
  then show ?thesis using assms(2-4) unfolding iv_answered_def by metis
qed

lemma answered_sends:
  assumes "calls s1 = calls s \<or> (\<exists>n. calls s1 = AllocBinary n # calls s)"
  shows "iv_answered em s (ETuple [EPort, EAtom ''error'', EAtom am]) (iv_send_error em am s1)"
    and "iv_answered em s (ETuple [EPort, EAtom ''ok'']) (iv_send_ok em s1)"
    and "iv_answered em s (ETuple [EPort, EAtom ''value'', EBinary bs]) (log_call FreeBinary (iv_send_bin em bs s1))"
  by (rule answeredI [OF assms],
      simp add: iv_send_error_def iv_send_ok_def iv_send_bin_def driver_call_def,
      simp add: one_term_def denote_def, simp)+

lemma counted_field:
  assumes "length bs < 65536"
  shows "counted_bytes (pre @ field bs @ r) (int (length pre)) k = k bs (int (length pre + 2 + length bs))"
proof -
  have n: "get_int16 (put_int16 (int (length bs))) = int (length bs)"
    using get_put_int16 [of "int (length bs)" "[]"] assms by simp
  have "bytes_at (int (length pre)) 2 (pre @ field bs @ r) = put_int16 (int (length bs))"
    by (simp add: bytes_at_def field_def)
  moreover have "bytes_at (int (length pre) + 2) (int (length bs)) (pre @ field bs @ r) = bs"
    by (simp add: bytes_at_def field_def nat_add_distrib)
  ultimately show ?thesis by (simp add: counted_bytes_def reading_def n) (simp add: field_def algebra_simps)
qed

lemma length_field: "length (field bs) = 2 + length bs"
  by (simp add: field_def)

lemma counted_fields:
  assumes "length bs < 65536"
  shows "counted_bytes (c # field bs @ r) 1 k = k bs (3 + int (length bs))"
    and "counted_bytes (c # field bs) 1 k = k bs (3 + int (length bs))"
    and "counted_bytes (c # field as @ field bs) (3 + int (length as)) k = k bs (5 + int (length as) + int (length bs))"
  using counted_field [OF assms, of "[c]" r k] counted_field [OF assms, of "[c]" "[]" k]
    counted_field [OF assms, of "c # field as" "[]" k]
  by (simp_all add: length_field algebra_simps)

lemma copy_code_fits:
  "length arr = 64 \<Longrightarrow> copy_code arr bs k =
     (if length bs < 64 then k (bs @ 0 # drop (Suc (length bs)) arr) else Inl OutOfBounds)"
  by (simp add: copy_code_def writing_def put_at_def)

lemma c_string_copied: "c_string (bs @ 0 # r) = c_string bs"
  by (induction bs) (simp_all add: c_string_def)


text \<open>Opening and converting are answered.\<close>

lemma iv_open_answered:
  assumes "converter_ok cv"
  shows "\<exists>s'. iv_open em cv a b s = Inr ((), s') \<and> iv_outbuf s' = iv_outbuf s \<and>
    iv_answered em s (iv_answer cv (\<lambda>n. em_alloc em (AllocBinary (int n) # calls s)) (iv_lib s) (Iv_Open a b)) s'"
proof (cases "lib_open cv (c_string a) (c_string b) (iv_lib s)")
  case (Pair r l)
  show ?thesis
  proof (cases r)
    case None
    then show ?thesis using Pair by (simp add: iv_open_def answered_sends) (simp add: iv_send_error_def driver_call_def)
  next
    case (Some cd)
    have "length cd = sizeof_iconv_t cv" using assms Pair Some unfolding converter_ok_def by metis
    then show ?thesis using Pair Some
      by (simp add: iv_open_def driver_alloc_binary_def Let_def writing_def iconv_close_def answered_sends)
         (simp add: iv_send_error_def iv_send_bin_def driver_call_def)
  qed
qed

lemma iv_conv_answered:
  assumes "converter_ok cv" "length (iv_outbuf s) = 2048"
  shows "\<exists>s'. iv_conv em cv cd ip s = Inr ((), s') \<and> length (iv_outbuf s') = 2048 \<and>
    iv_answered em s (iv_answer cv (\<lambda>n. em_alloc em (AllocBinary (int n) # calls s)) (iv_lib s) (Iv_Conv cd ip)) s'"
proof -
  obtain e left out l where
    fields: "lib_conv cv cd ip OUTBUF_SZ (lib_reset cv cd (iv_lib s)) = ((e, left, out), l)"
    by (metis surj_pair)
  have "int (length out) \<le> OUTBUF_SZ \<and> (e = None \<longrightarrow> left = 0)"
    using assms(1) fields unfolding converter_ok_def by (metis OUTBUF_SZ_def mult_nonneg_nonneg zero_le_numeral)
  then have out: "length out \<le> 2048" and left: "e = None \<Longrightarrow> left = 0" by (simp_all add: OUTBUF_SZ_def)
  show ?thesis
  proof (cases e)
    case (Some e')
    then show ?thesis using fields out assms(2)
      by (simp add: iv_conv_def Let_def writing_def answered_sends) (simp add: iv_send_error_def driver_call_def)
  next
    case None
    then show ?thesis using fields out left assms(2)
      by (simp add: iv_conv_def Let_def writing_def reading_def driver_alloc_binary_def answered_sends bytes_at_def)
         (simp add: iv_send_error_def iv_send_bin_def driver_call_def)
  qed
qed

lemma iv_command_result:
  assumes "\<forall>f \<in> set (iv_fields req). length f < 65536"
  shows "iconvdrv_from_erlang em cv (iv_command req) s =
    (let tocode = junk em s 64; fromcode = junk em s 64; code = (\<lambda>bs arr. bs @ 0 # drop (Suc (length bs)) arr) in
     case req of
       Iv_Open a b \<Rightarrow> if length a < 64 \<and> length b < 64 then iv_open em cv (code a tocode) (code b fromcode) s
                    else Inl OutOfBounds
     | Iv_Conv cd ip \<Rightarrow> if length cd \<le> sizeof_iconv_t cv
         then iv_conv em cv (cd @ drop (length cd) (junk em s (sizeof_iconv_t cv))) ip s else Inl OutOfBounds
     | Iv_Close cd \<Rightarrow> if length cd \<le> sizeof_iconv_t cv
         then Inr ((), iv_close em cv (cd @ drop (length cd) (junk em s (sizeof_iconv_t cv))) s) else Inl OutOfBounds)"
  using assms
  by (cases req)
     (simp_all add: iconvdrv_from_erlang_def reading_def bytes_at_def counted_fields Let_def copy_code_fits
        CODE_STR_SZ_def copy_cd_def writing_def)

text \<open>The requests a part of which is longer than the variable it is copied to.\<close>

fun iv_overflows :: "'l converter \<Rightarrow> iv_request \<Rightarrow> bool" where
  "iv_overflows cv (Iv_Open a b) \<longleftrightarrow> 64 \<le> length a \<or> 64 \<le> length b"
| "iv_overflows cv (Iv_Conv cd ip) \<longleftrightarrow> sizeof_iconv_t cv < length cd"
| "iv_overflows cv (Iv_Close cd) \<longleftrightarrow> sizeof_iconv_t cv < length cd"

lemma iv_command_overflows:
  "\<forall>f \<in> set (iv_fields req). length f < 65536 \<Longrightarrow> iv_overflows cv req \<Longrightarrow>
     iconvdrv_from_erlang em cv (iv_command req) s = Inl OutOfBounds"
  using iv_command_result [of req em cv s] by (cases req) auto

lemma iv_command_fits:
  assumes "converter_ok cv" "length (iv_outbuf s) = 2048" "\<forall>f \<in> set (iv_fields req). length f < 65536" "iv_fits cv req"
  shows "\<exists>s'. iconvdrv_from_erlang em cv (iv_command req) s = Inr ((), s') \<and> length (iv_outbuf s') = 2048 \<and>
    iv_answered em s (iv_answer cv (\<lambda>n. em_alloc em (AllocBinary (int n) # calls s)) (iv_lib s) req) s'"
proof (cases req)
  case (Iv_Open a b)
  let ?a = "a @ 0 # drop (Suc (length a)) (junk em s 64)" and ?b = "b @ 0 # drop (Suc (length b)) (junk em s 64)"
  have "iconvdrv_from_erlang em cv (iv_command req) s = iv_open em cv ?a ?b s"
    using iv_command_result [OF assms(3), of em cv s] assms(4) Iv_Open by simp
  moreover have "iv_answer cv mem l (Iv_Open ?a ?b) = iv_answer cv mem l req" for mem l
    by (simp add: Iv_Open c_string_copied)
  ultimately show ?thesis using iv_open_answered [OF assms(1), of em ?a ?b s] assms(2) by metis
next
  case (Iv_Conv cd ip)
  then have "iconvdrv_from_erlang em cv (iv_command req) s = iv_conv em cv cd ip s"
    using iv_command_result [OF assms(3), of em cv s] assms(4) by simp
  then show ?thesis using iv_conv_answered [OF assms(1,2), of em cd ip] Iv_Conv by simp
next
  case (Iv_Close cd)
  then have "iconvdrv_from_erlang em cv (iv_command req) s = Inr ((), iv_close em cv cd s)"
    using iv_command_result [OF assms(3), of em cv s] assms(4) by simp
  moreover have "iv_answered em s (ETuple [EPort, EAtom ''ok'']) (iv_close em cv cd s)"
    unfolding iv_close_def by (rule answered_sends) (simp add: iconv_close_def)
  ultimately show ?thesis using Iv_Close assms(2) by (simp add: iv_close_def iconv_close_def iv_send_ok_def driver_call_def)
qed

text \<open>A converter from Latin-1 to UTF-16, for evaluations.\<close>

definition demo_converter :: "unit converter" where
  "demo_converter =
     \<lparr>sizeof_iconv_t = 4, lib_open = (\<lambda>a b l. (if a = [] then None else Some [1, 0, 0, 0], l)),
      lib_close = (\<lambda>_ l. l), lib_reset = (\<lambda>_ l. l),
      lib_conv = (\<lambda>cd ip room l.
        if 2 * int (length ip) \<le> room then ((None, 0, concat (map (\<lambda>b. [0, b]) ip)), l)
        else ((Some E2BIG, int (length ip), []), l))\<rparr>"

lemma length_utf16: "length (concat (map (\<lambda>b. [0, b]) ip)) = 2 * length ip"
  by (induction ip) simp_all

lemma demo_converter_ok: "converter_ok demo_converter"
  by (auto simp: converter_ok_def demo_converter_def length_utf16 split: if_splits)

end
