(* ===== verification/Zlib.thy ===== *)
theory Zlib
  imports Driver_Api
begin

text \<open>
  The driver of the compression library: \<^verbatim>\<open>zlib/c_src/zlib_drv.c\<close>.  The library itself is a parameter,
  the record \<open>zlib\<close> of functions of the internal state of a \<^verbatim>\<open>z_stream\<close>; the driver's part of the
  stream, the pointers \<^verbatim>\<open>next_in\<close> and \<^verbatim>\<open>next_out\<close> with \<^verbatim>\<open>avail_in\<close> and \<^verbatim>\<open>avail_out\<close>, is in the state of the
  driver.  The loops run on fuel, an argument of theirs; that they end is proved in \<open>Zlib_Service\<close>.
\<close>

section \<open>The library\<close>

text \<open>
  A call that processes data is given the input there is and the room for output, and yields the return
  code, how many bytes of the input it has taken, and the bytes it has put out.
\<close>

type_synonym 'z zcall = "byte list \<Rightarrow> int \<Rightarrow> 'z \<Rightarrow> (int \<times> nat \<times> byte list) \<times> 'z"

record 'z zlib =
  zl_zero :: 'z
  zl_deflate :: "int \<Rightarrow> 'z zcall"
  zl_inflate :: "int \<Rightarrow> 'z zcall"
  zl_deflateParams :: "int \<Rightarrow> int \<Rightarrow> 'z zcall"
  zl_inflateSync :: "'z zcall"
  zl_deflateInit :: "int \<Rightarrow> 'z \<Rightarrow> int \<times> 'z"
  zl_deflateInit2 :: "int \<Rightarrow> int \<Rightarrow> int \<Rightarrow> int \<Rightarrow> int \<Rightarrow> 'z \<Rightarrow> int \<times> 'z"
  zl_inflateInit :: "'z \<Rightarrow> int \<times> 'z"
  zl_inflateInit2 :: "int \<Rightarrow> 'z \<Rightarrow> int \<times> 'z"
  zl_deflateSetDictionary :: "byte list \<Rightarrow> 'z \<Rightarrow> int \<times> 'z"
  zl_inflateSetDictionary :: "byte list \<Rightarrow> 'z \<Rightarrow> int \<times> 'z"
  zl_deflateReset :: "'z \<Rightarrow> int \<times> 'z"
  zl_inflateReset :: "'z \<Rightarrow> int \<times> 'z"
  zl_deflateEnd :: "'z \<Rightarrow> int \<times> 'z"
  zl_inflateEnd :: "'z \<Rightarrow> int \<times> 'z"
  zl_crc32 :: "32 word \<Rightarrow> byte list \<Rightarrow> 32 word"
  zl_iov0 :: "call list \<Rightarrow> nat"   \<comment> \<open>the length of the first block of the driver queue\<close>

abbreviation (input) "Z_OK \<equiv> 0 :: int"
abbreviation (input) "Z_STREAM_END \<equiv> 1 :: int"
abbreviation (input) "Z_NEED_DICT \<equiv> 2 :: int"
abbreviation (input) "Z_ERRNO \<equiv> - 1 :: int"
abbreviation (input) "Z_BUF_ERROR \<equiv> - 5 :: int"
abbreviation (input) "Z_NO_FLUSH \<equiv> 0 :: int"

section \<open>The state\<close>

datatype ZLibState = ST_NONE | ST_DEFLATE | ST_INFLATE

text \<open>
  \<open>next_in\<close> is the \<^verbatim>\<open>avail_in\<close> bytes at the pointer, and \<open>in_live\<close> whether they are still in the queue;
  \<^verbatim>\<open>next_out\<close> points behind the first \<^verbatim>\<open>binsz - avail_out\<close> bytes of \<open>bin\<close> and dangles when \<open>bin\<close> is
  NULL.  Of \<^verbatim>\<open>crc\<close>, an \<^verbatim>\<open>unsigned long\<close>, only the low 32 bits are ever used.
\<close>

record 'z ZLibData = world +
  zstrm :: 'z
  next_in :: "byte list"
  in_live :: bool
  avail_out :: int
  zstate :: ZLibState
  zbin :: "byte list option"
  binsz :: int
  binsz_need :: int
  crc :: "32 word"
  want_crc :: bool
  zerrno :: errno

definition zlib_start :: "emulator \<Rightarrow> 'z zlib \<Rightarrow> int \<Rightarrow> 'z ZLibData \<Rightarrow> bool \<times> 'z ZLibData" where
  "zlib_start em zl sizeof_ZLibData d =
     (let d = log_call (AllocMem sizeof_ZLibData) d in
      if em_alloc em (calls d) then
        (True, d\<lparr>zstrm := zl_zero zl, next_in := [], in_live := False, avail_out := 0, zstate := ST_NONE,
                 zbin := None, binsz := 0, binsz_need := 4000, crc := zl_crc32 zl 0 [], want_crc := False\<rparr>)
      else (False, d))"

definition zlib_reason :: "emulator \<Rightarrow> int \<Rightarrow> errno \<Rightarrow> int \<times> string" where
  "zlib_reason em code e =
     (if code = Z_OK then (0, ''ok'')
      else if code = Z_STREAM_END then (0, ''stream_end'')
      else if code = Z_ERRNO then (1, em_errno em e)
      else if code = - 2 then (1, ''stream'')
      else if code = - 3 then (1, ''data'')
      else if code = - 4 then (1, ''mem'')
      else if code = Z_BUF_ERROR then (1, ''buf'')
      else if code = - 6 then (1, ''version'')
      else (1, ''unknown''))"

text \<open>The answers of the control interface: the length returned and the bytes stored at \<^verbatim>\<open>*rbuf\<close>.\<close>

type_synonym reply = "int \<times> byte list"

definition zlib_return :: "emulator \<Rightarrow> int \<Rightarrow> int \<Rightarrow> 'z ZLibData \<Rightarrow> (reply, 'z ZLibData) outcome" where
  "zlib_return em code rlen d =
     (let (msg_code, src) = zlib_reason em code (zerrno d);
          r = word_of_int msg_code # map of_char (take (nat (rlen - 1)) src)
      in if 1 \<le> rlen then Inr ((int (length r), r), d) else Inl OutOfBounds)"

definition zlib_value :: "int \<Rightarrow> int \<Rightarrow> 'z ZLibData \<Rightarrow> (reply, 'z ZLibData) outcome" where
  "zlib_value v rlen d = (if rlen < 5 then Inr ((- 1, []), d) else Inr ((5, 2 # put_int32 v), d))"

section \<open>Output\<close>

definition zlib_output_init :: "emulator \<Rightarrow> 'z ZLibData \<Rightarrow> int \<times> 'z ZLibData" where
  "zlib_output_init em d =
     (let d = (if zbin d \<noteq> None then log_call FreeBinary d else d) in
      case driver_alloc_binary em (binsz_need d) d of
        (None, d) \<Rightarrow> (- 1, d\<lparr>zbin := None\<rparr>)
      | (Some b, d) \<Rightarrow> (0, d\<lparr>zbin := Some (orig_bytes b), binsz := binsz_need d, avail_out := binsz_need d\<rparr>))"

definition zlib_output :: "emulator \<Rightarrow> 'z ZLibData \<Rightarrow> (int, 'z ZLibData) outcome" where
  "zlib_output em d =
     (case zbin d of
        None \<Rightarrow> Inr (zlib_output_init em d)
      | Some b \<Rightarrow>
          let len = binsz d - avail_out d;
              restart = (\<lambda>d. Inr (zlib_output_init em ((log_call FreeBinary d)\<lparr>zbin := None, binsz := 0\<rparr>)))
          in if len > 0 then
               reading b 0 len (\<lambda>bs.
                 let (rc, d) = driver_call em (OutputBinary [] bs) d in
                 if rc < 0 then Inr (- 1, d) else restart d)
             else restart d)"

section \<open>Calls of the library\<close>

text \<open>
  \<open>zcall f d\<close> calls the library on the driver's stream.  Handing it a pointer to memory that has been
  released, with a length that is not zero, counts as a fault.
\<close>

definition zcall :: "'z zcall \<Rightarrow> 'z ZLibData \<Rightarrow> (int, 'z ZLibData) outcome" where
  "zcall f d =
     (if next_in d \<noteq> [] \<and> \<not> in_live d then Inl OutOfBounds
      else
        let ((res, n, out), z) = f (next_in d) (avail_out d) (zstrm d);
            d' = d\<lparr>zstrm := z, next_in := drop n (next_in d), avail_out := avail_out d - int (length out)\<rparr>
        in if avail_out d = 0 then (if out = [] then Inr (res, d') else Inl OutOfBounds)
           else case zbin d of
                  None \<Rightarrow> Inl OutOfBounds
                | Some b \<Rightarrow> writing b (binsz d - avail_out d) out (\<lambda>b. Inr (res, d'\<lparr>zbin := Some b\<rparr>)))"

definition driver_deq :: "int \<Rightarrow> 'z ZLibData \<Rightarrow> 'z ZLibData" where
  "driver_deq n d = log_call (Deq n) d"

text \<open>\<open>next_block\<close> points \<^verbatim>\<open>next_in\<close> to the first block of the queue.\<close>

definition next_block :: "emulator \<Rightarrow> 'z zlib \<Rightarrow> 'z ZLibData \<Rightarrow> int \<times> 'z ZLibData" where
  "next_block em zl d =
     (let bs = take (zl_iov0 zl (calls d)) (em_queue em (calls d)) in
      (int (length bs), d\<lparr>next_in := bs, in_live := True\<rparr>))"

text \<open>The checksum of the first \<^verbatim>\<open>binsz - avail_out\<close> bytes of the output.\<close>

definition crc_output :: "'z zlib \<Rightarrow> 'z ZLibData \<Rightarrow> (unit, 'z ZLibData) outcome" where
  "crc_output zl d =
     (if want_crc d then
        deref (zbin d) (\<lambda>b. reading b 0 (binsz d - avail_out d) (\<lambda>bs.
          Inr ((), d\<lparr>crc := zl_crc32 zl (crc d) bs\<rparr>)))
      else Inr ((), d))"

section \<open>Inflating\<close>

text \<open>
  A loop yields whether the function returns there, and \<^verbatim>\<open>res\<close>.  \<open>inflate_block\<close> is the inner loop,
  \<open>inflate_queue\<close> the outer one, \<open>inflate_flush\<close> the one behind them.
\<close>

fun inflate_block ::
  "emulator \<Rightarrow> 'z zlib \<Rightarrow> nat \<Rightarrow> int \<Rightarrow> 'z ZLibData \<Rightarrow> (bool \<times> int, 'z ZLibData) outcome" where
  "inflate_block em zl 0 res d = Inl Diverges"
| "inflate_block em zl (Suc n) res d =
     (if next_in d \<noteq> [] \<and> res \<noteq> Z_STREAM_END then
        andthen (zcall (zl_inflate zl Z_NO_FLUSH) d) (\<lambda>res d.
          if res < 0 then Inr ((True, res), d)
          else if avail_out d = 0 then
            andthen (crc_output zl d) (\<lambda>_ d. andthen (zlib_output em d) (\<lambda>_ d. inflate_block em zl n res d))
          else inflate_block em zl n res d)
      else Inr ((False, res), d))"

fun inflate_queue ::
  "emulator \<Rightarrow> 'z zlib \<Rightarrow> nat \<Rightarrow> int \<Rightarrow> 'z ZLibData \<Rightarrow> (bool \<times> int, 'z ZLibData) outcome" where
  "inflate_queue em zl 0 res d = Inl Diverges"
| "inflate_queue em zl (Suc n) res d =
     (if driver_sizeq em d > 0 \<and> res \<noteq> Z_STREAM_END then
        let (iov_len, d) = next_block em zl d in
        andthen (inflate_block em zl n res d) (\<lambda>(ret, res) d.
          if ret then Inr ((True, res), d)
          else
            let len = iov_len - int (length (next_in d)) in
            inflate_queue em zl n res (driver_deq len d))
      else Inr ((False, res), d))"

fun inflate_flush ::
  "emulator \<Rightarrow> 'z zlib \<Rightarrow> nat \<Rightarrow> int \<Rightarrow> int \<Rightarrow> 'z ZLibData \<Rightarrow> (int, 'z ZLibData) outcome" where
  "inflate_flush em zl 0 flush res d = Inl Diverges"
| "inflate_flush em zl (Suc n) flush res d =
     (if avail_out d < binsz d then
        andthen (crc_output zl d) (\<lambda>_ d. andthen (zlib_output em d) (\<lambda>_ d.
          if res = Z_STREAM_END then Inr (res, d)
          else
            andthen (zcall (zl_inflate zl flush) d) (\<lambda>res d.
              if res < 0 then Inr (res, d) else inflate_flush em zl n flush res d)))
      else Inr (res, d))"

definition zlib_inflate ::
  "emulator \<Rightarrow> 'z zlib \<Rightarrow> nat \<Rightarrow> int \<Rightarrow> 'z ZLibData \<Rightarrow> (int, 'z ZLibData) outcome" where
  "zlib_inflate em zl fuel flush d =
     (let (rc, d) = (if zbin d = None then zlib_output_init em d else (0, d)) in
      if rc < 0 then Inr (Z_ERRNO, d\<lparr>zerrno := ENOMEM\<rparr>)
      else
        andthen (inflate_queue em zl fuel Z_OK d) (\<lambda>(ret, res) d.
          if ret then Inr (res, d)
          else if flush \<noteq> Z_NO_FLUSH then
            andthen (zcall (zl_inflate zl flush) d) (\<lambda>res d.
              if res < 0 then Inr (res, d) else inflate_flush em zl fuel flush res d)
          else Inr (res, d)))"

section \<open>Deflating\<close>

fun deflate_block ::
  "emulator \<Rightarrow> 'z zlib \<Rightarrow> nat \<Rightarrow> int \<Rightarrow> 'z ZLibData \<Rightarrow> (bool \<times> int, 'z ZLibData) outcome" where
  "deflate_block em zl 0 res d = Inl Diverges"
| "deflate_block em zl (Suc n) res d =
     (if next_in d \<noteq> [] \<and> res \<noteq> Z_STREAM_END then
        andthen (zcall (zl_deflate zl Z_NO_FLUSH) d) (\<lambda>res d.
          if res < 0 then Inr ((True, res), d)
          else if avail_out d = 0 then andthen (zlib_output em d) (\<lambda>_ d. deflate_block em zl n res d)
          else deflate_block em zl n res d)
      else Inr ((False, res), d))"

fun deflate_queue ::
  "emulator \<Rightarrow> 'z zlib \<Rightarrow> nat \<Rightarrow> int \<Rightarrow> 'z ZLibData \<Rightarrow> (bool \<times> int, 'z ZLibData) outcome" where
  "deflate_queue em zl 0 res d = Inl Diverges"
| "deflate_queue em zl (Suc n) res d =
     (if driver_sizeq em d > 0 \<and> res \<noteq> Z_STREAM_END then
        let (iov_len, d) = next_block em zl d; iov_base = next_in d in
        andthen (deflate_block em zl n res d) (\<lambda>(ret, res) d.
          if ret then Inr ((True, res), d)
          else
            let len = iov_len - int (length (next_in d));
                d = (if want_crc d then d\<lparr>crc := zl_crc32 zl (crc d) (bytes_at 0 len iov_base)\<rparr> else d)
            in deflate_queue em zl n res (driver_deq len d))
      else Inr ((False, res), d))"

fun deflate_flush ::
  "emulator \<Rightarrow> 'z zlib \<Rightarrow> nat \<Rightarrow> int \<Rightarrow> int \<Rightarrow> 'z ZLibData \<Rightarrow> (int, 'z ZLibData) outcome" where
  "deflate_flush em zl 0 flush res d = Inl Diverges"
| "deflate_flush em zl (Suc n) flush res d =
     (if avail_out d < binsz d then
        andthen (zlib_output em d) (\<lambda>_ d.
          if res = Z_STREAM_END then Inr (res, d)
          else
            andthen (zcall (zl_deflate zl flush) d) (\<lambda>res d.
              if res < 0 then Inr (res, d) else deflate_flush em zl n flush res d))
      else Inr (res, d))"

definition zlib_deflate ::
  "emulator \<Rightarrow> 'z zlib \<Rightarrow> nat \<Rightarrow> int \<Rightarrow> 'z ZLibData \<Rightarrow> (int, 'z ZLibData) outcome" where
  "zlib_deflate em zl fuel flush d =
     (let (rc, d) = (if zbin d = None then zlib_output_init em d else (0, d)) in
      if rc < 0 then Inr (Z_ERRNO, d\<lparr>zerrno := ENOMEM\<rparr>)
      else
        andthen (deflate_queue em zl fuel Z_OK d) (\<lambda>(ret, res) d.
          if ret then Inr (res, d)
          else if flush \<noteq> Z_NO_FLUSH then
            andthen (zcall (zl_deflate zl flush) d) (\<lambda>res d.
              if res < 0 then Inr (res, d) else deflate_flush em zl fuel flush res d)
          else Inr (res, d)))"

end
