(* ===== verification/Zlib_Pump.thy ===== *)
theory Zlib_Pump
  imports Zlib
begin

text \<open>
  The loops of \<^verbatim>\<open>zlib_deflate\<close> and \<^verbatim>\<open>zlib_inflate\<close>: what the library is documented to do, the common
  form of the loops of both functions, and that they end and neither lose nor repeat a byte.  The
  library's promises are about three functions of the stream: the bytes it has \<open>taken\<close> so far, the
  bytes it has \<open>given\<close>, and how many bytes are at most \<open>left\<close> to be put out if it is given no more input.
\<close>

section \<open>The promises of the library and of the emulator\<close>

text \<open>
  What is said here is of the states \<open>ok\<close> of a stream, those in which it may be called with this \<open>flush\<close>, and as long as
  what it has taken does not ask for a dictionary (\<open>asks\<close>).  A call takes no more than there is and gives no more
  than there is room for, whatever it returns.  One that returns \<^verbatim>\<open>Z_OK\<close> has made progress (otherwise the library
  returns \<^verbatim>\<open>Z_BUF_ERROR\<close>), and there is an end to what it gives without taking anything; a call that flushes
  must for that have room for more than the six bytes of a flush marker.
\<close>

definition stream_ok :: "('z \<Rightarrow> bool) \<Rightarrow> (byte list \<Rightarrow> bool) \<Rightarrow> ('z \<Rightarrow> byte list) \<Rightarrow> ('z \<Rightarrow> byte list) \<Rightarrow> ('z \<Rightarrow> nat) \<Rightarrow> int \<Rightarrow>
    'z zcall \<Rightarrow> bool" where
  "stream_ok ok asks taken given left flush f \<longleftrightarrow>
     (\<forall>inp room z res n out z'. ok z \<and> 0 < room \<and> f inp room z = ((res, n, out), z') \<longrightarrow>
        n \<le> length inp \<and> int (length out) \<le> room \<and> taken z' = taken z @ take n inp \<and> given z' = given z @ out \<and>
        (res \<le> Z_STREAM_END \<or> asks (taken z')) \<and>
        (res = Z_OK \<or> res = Z_STREAM_END \<and> flush = Z_NO_FLUSH \<longrightarrow> ok z') \<and>
        (res = Z_OK \<longrightarrow> 0 < n \<or> out \<noteq> []) \<and>
        (res = Z_OK \<and> n = 0 \<and> (flush = Z_NO_FLUSH \<or> 6 < room) \<longrightarrow> left z' + length out \<le> left z))"

text \<open>No part of the input asks for a dictionary.\<close>

definition unasked :: "(byte list \<Rightarrow> bool) \<Rightarrow> ('z \<Rightarrow> byte list) \<Rightarrow> 'z \<Rightarrow> byte list \<Rightarrow> bool" where
  "unasked asks taken z inp \<longleftrightarrow> (\<forall>j. \<not> asks (taken z @ take j inp))"

lemma unasked_step:
  assumes "unasked asks taken z inp" "taken z' = taken z @ take m inp"
  shows "unasked asks taken z' (drop m inp)"
proof -
  have "taken z' @ take j (drop m inp) = taken z @ take (m + j) inp" for j by (simp add: assms(2) take_add)
  then show ?thesis using assms(1) by (simp add: unasked_def)
qed

lemma unasked_take: "unasked asks taken z inp \<Longrightarrow> unasked asks taken z (take c inp)"
  by (simp add: unasked_def)

definition crc_ok :: "(32 word \<Rightarrow> byte list \<Rightarrow> 32 word) \<Rightarrow> bool" where
  "crc_ok c \<longleftrightarrow> (\<forall>x. c x [] = x) \<and> (\<forall>x a b. c (c x a) b = c x (a @ b))"

text \<open>The queue is as documented, its first block is not empty unless it is; nothing fails.\<close>

definition good_env :: "emulator \<Rightarrow> 'z zlib \<Rightarrow> bool" where
  "good_env em zl \<longleftrightarrow>
     driver_queue (em_queue em) \<and> (\<forall>h. em_queue em h \<noteq> [] \<longrightarrow> 0 < zl_iov0 zl h) \<and>
     (\<forall>h. em_alloc em h) \<and> (\<forall>h. 0 \<le> em_rc em h) \<and> crc_ok (zl_crc32 zl)"

lemma env_queue [simp]:
  assumes "good_env em zl"
  shows "em_queue em (Output2 a b # h) = em_queue em h" "em_queue em (OutputBinary a b # h) = em_queue em h"
    "em_queue em (AllocBinary n # h) = em_queue em h" "em_queue em (FreeBinary # h) = em_queue em h"
    "em_queue em (Deq n # h) = drop (nat n) (em_queue em h)"
  using assms driver_queue.q_simps driver_queue.q_frame unfolding good_env_def by metis+

section \<open>What the driver has put out\<close>

fun put_out :: "call list \<Rightarrow> byte list" where
  "put_out [] = []"
| "put_out (OutputBinary hdr bs # h) = put_out h @ hdr @ bs"
| "put_out (c # h) = put_out h"

text \<open>What is in the output buffer and not sent.\<close>

definition unsent :: "'z ZLibData \<Rightarrow> byte list" where
  "unsent d = (case zbin d of None \<Rightarrow> [] | Some b \<Rightarrow> take (nat (binsz d - avail_out d)) b)"

definition out_inv :: "'z ZLibData \<Rightarrow> bool" where
  "out_inv d \<longleftrightarrow>
     (case zbin d of
        None \<Rightarrow> False
      | Some b \<Rightarrow> binsz d = int (length b) \<and> 0 \<le> avail_out d \<and> avail_out d \<le> binsz d \<and> 0 < binsz d) \<and>
     0 < binsz_need d"

lemma out_inv_upd:
  "out_inv (d\<lparr>next_in := i, in_live := l\<rparr>) = out_inv d" "out_inv (d\<lparr>calls := h\<rparr>) = out_inv d"
  "out_inv (d\<lparr>crc := c\<rparr>) = out_inv d" "out_inv (d\<lparr>crc := c, calls := h\<rparr>) = out_inv d"
  by (simp_all add: out_inv_def split: option.split)

definition zframe :: "'z ZLibData \<Rightarrow> ZLibState \<times> int \<times> bool \<times> errno" where
  "zframe d = (zstate d, binsz_need d, want_crc d, zerrno d)"

text \<open>
  \<open>pumped\<close>: from \<open>d\<close> to \<open>d'\<close> the library has taken the front of \<^verbatim>\<open>next_in\<close>, and what it has given is,
  behind what was pending before, sent or pending.  The checksum is of the bytes sent if \<open>oc\<close> is set.
\<close>

definition pumped ::
  "bool \<Rightarrow> emulator \<Rightarrow> 'z zlib \<Rightarrow> ('z \<Rightarrow> byte list) \<Rightarrow> ('z \<Rightarrow> byte list) \<Rightarrow> 'z ZLibData \<Rightarrow> 'z ZLibData \<Rightarrow> bool" where
  "pumped oc em zl taken given d d' \<longleftrightarrow>
     out_inv d' \<and> zframe d' = zframe d \<and> in_live d' = in_live d \<and>
     em_queue em (calls d') = em_queue em (calls d) \<and>
     (\<exists>m new sent. m \<le> length (next_in d) \<and> next_in d' = drop m (next_in d) \<and>
        taken (zstrm d') = taken (zstrm d) @ take m (next_in d) \<and> given (zstrm d') = given (zstrm d) @ new \<and>
        put_out (calls d') = put_out (calls d) @ sent \<and> sent @ unsent d' = unsent d @ new \<and>
        crc d' = (if oc \<and> want_crc d then zl_crc32 zl (crc d) sent else crc d))"

lemma pumpedI:
  assumes "m \<le> length (next_in d)" "next_in d' = drop m (next_in d)"
    "taken (zstrm d') = taken (zstrm d) @ take m (next_in d)" "given (zstrm d') = given (zstrm d) @ new"
    "put_out (calls d') = put_out (calls d) @ sent" "sent @ unsent d' = unsent d @ new"
    "crc d' = (if oc \<and> want_crc d then zl_crc32 zl (crc d) sent else crc d)"
    "out_inv d'" "zframe d' = zframe d" "in_live d' = in_live d"
    "em_queue em (calls d') = em_queue em (calls d)"
  shows "pumped oc em zl taken given d d'"
  using assms unfolding pumped_def by blast

lemma pumped_trans:
  assumes "good_env em zl" "pumped oc em zl taken given d d1" "pumped oc em zl taken given d1 d2"
  shows "pumped oc em zl taken given d d2"
proof -
  obtain m new sent where 1: "m \<le> length (next_in d)" "next_in d1 = drop m (next_in d)"
    "taken (zstrm d1) = taken (zstrm d) @ take m (next_in d)" "given (zstrm d1) = given (zstrm d) @ new"
    "put_out (calls d1) = put_out (calls d) @ sent" "sent @ unsent d1 = unsent d @ new"
    "crc d1 = (if oc \<and> want_crc d then zl_crc32 zl (crc d) sent else crc d)"
    using assms(2) unfolding pumped_def by blast
  obtain m' new' sent' where 2: "m' \<le> length (next_in d1)" "next_in d2 = drop m' (next_in d1)"
    "taken (zstrm d2) = taken (zstrm d1) @ take m' (next_in d1)" "given (zstrm d2) = given (zstrm d1) @ new'"
    "put_out (calls d2) = put_out (calls d1) @ sent'" "sent' @ unsent d2 = unsent d1 @ new'"
    "crc d2 = (if oc \<and> want_crc d1 then zl_crc32 zl (crc d1) sent' else crc d1)"
    using assms(3) unfolding pumped_def by blast
  have w: "want_crc d1 = want_crc d" using assms(2) by (simp add: pumped_def zframe_def)
  have "(sent @ sent') @ unsent d2 = unsent d @ new @ new'" using 1(6) 2(6) by simp
  moreover have "crc d2 = (if oc \<and> want_crc d then zl_crc32 zl (crc d) (sent @ sent') else crc d)"
    using 1(7) 2(7) w assms(1) by (simp add: good_env_def crc_ok_def)
  moreover have "m + m' \<le> length (next_in d)" "next_in d2 = drop (m + m') (next_in d)"
    "taken (zstrm d2) = taken (zstrm d) @ take (m + m') (next_in d)"
    using 1 2 take_add [of m m' "next_in d"] by (simp_all add: add.commute)
  moreover have "given (zstrm d2) = given (zstrm d) @ new @ new'" "put_out (calls d2) = put_out (calls d) @ sent @ sent'"
    using 1 2 by simp_all
  moreover have "out_inv d2" "zframe d2 = zframe d" "in_live d2 = in_live d"
    "em_queue em (calls d2) = em_queue em (calls d)"
    using assms(2,3) by (simp_all add: pumped_def)
  ultimately show ?thesis unfolding pumped_def by blast
qed

section \<open>One call of the library, one buffer put out\<close>

lemma pumped_unasked:
  "pumped oc em zl taken given d d' \<Longrightarrow> unasked asks taken (zstrm d) (next_in d) \<Longrightarrow> unasked asks taken (zstrm d') (next_in d')"
  using unasked_step unfolding pumped_def by metis

lemma zcall_pumped:
  assumes "stream_ok ok asks taken given left flush f" "good_env em zl" "out_inv d" "0 < avail_out d"
    and "next_in d \<noteq> [] \<Longrightarrow> in_live d" "ok (zstrm d)" "unasked asks taken (zstrm d) (next_in d)"
  shows "\<exists>res d'. zcall f d = Inr (res, d') \<and> pumped oc em zl taken given d d' \<and> res \<le> Z_STREAM_END \<and>
    (res = Z_OK \<or> res = Z_STREAM_END \<and> flush = Z_NO_FLUSH \<longrightarrow> ok (zstrm d')) \<and>
    (res = Z_OK \<and> (flush = Z_NO_FLUSH \<or> 6 < avail_out d) \<longrightarrow> length (next_in d') < length (next_in d) \<or>
       next_in d' = next_in d \<and> left (zstrm d') < left (zstrm d)) \<and> res = fst (fst (f (next_in d) (avail_out d) (zstrm d)))"
proof -
  obtain b where b: "zbin d = Some b" "binsz d = int (length b)" "avail_out d \<le> binsz d"
    using assms(3) by (auto simp: out_inv_def split: option.splits)
  obtain res n out z where f: "f (next_in d) (avail_out d) (zstrm d) = ((res, n, out), z)" by (metis surj_pair)
  have s: "n \<le> length (next_in d)" "int (length out) \<le> avail_out d" "taken z = taken (zstrm d) @ take n (next_in d)"
    "given z = given (zstrm d) @ out" "res = Z_OK \<Longrightarrow> 0 < n \<or> out \<noteq> []"
    "res = Z_OK \<Longrightarrow> n = 0 \<Longrightarrow> flush = Z_NO_FLUSH \<or> 6 < avail_out d \<Longrightarrow> left z + length out \<le> left (zstrm d)"
    "res = Z_OK \<or> res = Z_STREAM_END \<and> flush = Z_NO_FLUSH \<Longrightarrow> ok z" "res \<le> Z_STREAM_END \<or> asks (taken z)"
    using assms(1,4,6) f unfolding stream_ok_def by blast+
  have le: "res \<le> Z_STREAM_END" using s(3,8) assms(7) by (auto simp: unasked_def)
  let ?d = "d\<lparr>zstrm := z, next_in := drop n (next_in d), avail_out := avail_out d - int (length out),
    zbin := Some (put_at (nat (binsz d - avail_out d)) out b)\<rparr>"
  have "zcall f d = Inr (res, ?d)"
    using assms(4,5) b s(2) by (auto simp: zcall_def f writing_def Let_def)
  moreover have "pumped oc em zl taken given d ?d"
  proof -
    have k: "nat (int (length b) - avail_out d + int (length out)) = nat (int (length b) - avail_out d) + length out"
      using b by (simp add: nat_add_distrib)
    have l: "nat (int (length b) - avail_out d) + length out \<le> length b" using b s(2) assms(4) by linarith
    have "unsent ?d = unsent d @ out"
      using b k l by (simp add: unsent_def put_at_def algebra_simps)
    moreover have "out_inv ?d" using assms(3) b s(2) l by (simp add: out_inv_def)
    ultimately show ?thesis using s assms(2)
      by (intro pumpedI [where m = n and new = out and sent = "[]"])
         (simp_all add: zframe_def good_env_def crc_ok_def)
  qed
  moreover have "res = Z_OK \<and> (flush = Z_NO_FLUSH \<or> 6 < avail_out d) \<longrightarrow> length (next_in ?d) < length (next_in d) \<or>
      next_in ?d = next_in d \<and> left (zstrm ?d) < left (zstrm d)"
    using s(1,5,6) by (cases "n = 0"; cases out) auto
  moreover have "res = Z_OK \<or> res = Z_STREAM_END \<and> flush = Z_NO_FLUSH \<longrightarrow> ok (zstrm ?d)" using s(7) by simp
  ultimately show ?thesis using f le by (intro exI [of _ res] exI [of _ ?d] conjI) (assumption | simp)+
qed

text \<open>The buffer is put out and a new one begun.\<close>

lemma zlib_output_ok:
  assumes "good_env em zl" "zbin d = Some b" "binsz d = int (length b)" "0 \<le> avail_out d" "avail_out d \<le> binsz d"
  shows "\<exists>b'. length b' = nat (binsz_need d) \<and>
    zlib_output em d = Inr (0, d\<lparr>calls := AllocBinary (binsz_need d) # FreeBinary #
        (if 0 < binsz d - avail_out d then [OutputBinary [] (unsent d)] else []) @ calls d,
      zbin := Some b', binsz := binsz_need d, avail_out := binsz_need d\<rparr>)"
proof -
  have em: "em_alloc em h" "\<not> em_rc em h < 0" for h using assms(1) by (simp_all add: good_env_def not_less)
  then show ?thesis using assms(2-5)
    by (intro exI [of _ "map (em_junk em (AllocBinary (binsz_need d) # FreeBinary #
          (if 0 < binsz d - avail_out d then [OutputBinary [] (unsent d)] else []) @ calls d)) [0..<nat (binsz_need d)]"])
       (simp add: junk_def zlib_output_def zlib_output_init_def driver_alloc_binary_def driver_call_def reading_def
        bytes_at_def Let_def unsent_def)
qed

lemma zlib_output_pumped:
  assumes "good_env em zl" "out_inv d"
  shows "\<exists>d'. andthen (if oc then crc_output zl d else Inr ((), d)) (\<lambda>_ d. zlib_output em d) = Inr (0, d') \<and>
    pumped oc em zl taken given d d' \<and> next_in d' = next_in d \<and> zstrm d' = zstrm d \<and>
    avail_out d' = binsz d' \<and> binsz d' = binsz_need d \<and> 0 < binsz d' \<and> unsent d' = []"
proof -
  obtain b where b: "zbin d = Some b" "binsz d = int (length b)" "0 \<le> avail_out d" "avail_out d \<le> binsz d" "0 < binsz_need d"
    using assms(2) by (auto simp: out_inv_def split: option.splits)
  let ?d1 = "d\<lparr>crc := if oc \<and> want_crc d then zl_crc32 zl (crc d) (unsent d) else crc d\<rparr>"
  have 1: "(if oc then crc_output zl d else Inr ((), d)) = Inr ((), ?d1)"
    using b by (simp add: crc_output_def reading_def bytes_at_def unsent_def)
  have p: "unsent ?d1 = unsent d" by (simp add: unsent_def split: option.split)
  obtain b' where b': "length b' = nat (binsz_need d)" and z: "zlib_output em ?d1 =
      Inr (0, ?d1\<lparr>calls := AllocBinary (binsz_need d) # FreeBinary #
        (if 0 < binsz d - avail_out d then [OutputBinary [] (unsent d)] else []) @ calls d,
      zbin := Some b', binsz := binsz_need d, avail_out := binsz_need d\<rparr>)" (is "_ = Inr (0, ?d')")
    using zlib_output_ok [OF assms(1), of ?d1 b] b unfolding p by auto
  have e: "\<not> 0 < binsz d - avail_out d \<Longrightarrow> unsent d = []" using b by (simp add: unsent_def)
  have q: "unsent ?d' = []" by (simp add: unsent_def)
  have "pumped oc em zl taken given d ?d'"
    using assms(1) b b' e q
    by (intro pumpedI [where m = 0 and new = "[]" and sent = "unsent d"]) (auto simp: out_inv_def zframe_def)
  then show ?thesis using 1 z b q by simp
qed

section \<open>The inner loop\<close>

text \<open>
  \<open>emit\<close> is the buffer put out, with the checksum if \<open>oc\<close>; \<open>block_step\<close> is a round of the inner loop and
  \<open>pump\<close> that loop for any round.
\<close>

definition emit :: "bool \<Rightarrow> emulator \<Rightarrow> 'z zlib \<Rightarrow> 'z ZLibData \<Rightarrow> (int, 'z ZLibData) outcome" where
  "emit oc em zl d = andthen (if oc then crc_output zl d else Inr ((), d)) (\<lambda>_ d. zlib_output em d)"

definition block_step :: "bool \<Rightarrow> emulator \<Rightarrow> 'z zlib \<Rightarrow> 'z zcall \<Rightarrow> 'z ZLibData \<Rightarrow> (int, 'z ZLibData) outcome" where
  "block_step oc em zl f d =
     andthen (zcall f d) (\<lambda>res d.
       if 0 \<le> res \<and> avail_out d = 0 then andthen (emit oc em zl d) (\<lambda>_ d. Inr (res, d)) else Inr (res, d))"

lemma from_Suc: "(\<And>n. N \<le> n \<Longrightarrow> P (Suc n)) \<Longrightarrow> \<forall>n \<ge> Suc N. P n"
  by (metis Suc_le_D Suc_le_mono)

fun pump :: "('z ZLibData \<Rightarrow> (int, 'z ZLibData) outcome) \<Rightarrow> nat \<Rightarrow> int \<Rightarrow> 'z ZLibData \<Rightarrow>
    (bool \<times> int, 'z ZLibData) outcome" where
  "pump step 0 res d = Inl Diverges"
| "pump step (Suc n) res d =
     (if next_in d \<noteq> [] \<and> res \<noteq> Z_STREAM_END then
        andthen (step d) (\<lambda>res d. if res < 0 then Inr ((True, res), d) else pump step n res d)
      else Inr ((False, res), d))"

lemma inflate_block_pump: "inflate_block em zl n res d = pump (block_step True em zl (zl_inflate zl Z_NO_FLUSH)) n res d"
proof (induction n arbitrary: res d)
  case (Suc n)
  show ?case
    by (simp add: block_step_def emit_def andthen_def Suc.IH split: sum.split prod.split)
qed simp

lemma deflate_block_pump: "deflate_block em zl n res d = pump (block_step False em zl (zl_deflate zl Z_NO_FLUSH)) n res d"
proof (induction n arbitrary: res d)
  case (Suc n)
  show ?case
    by (simp add: block_step_def emit_def andthen_def Suc.IH split: sum.split prod.split)
qed simp

lemma block_step_ok:
  assumes "stream_ok ok asks taken given left Z_NO_FLUSH f" "good_env em zl"
    and "out_inv d" "0 < avail_out d" "next_in d \<noteq> []" "in_live d" "ok (zstrm d)" "unasked asks taken (zstrm d) (next_in d)"
  shows "\<exists>res d'. block_step oc em zl f d = Inr (res, d') \<and> pumped oc em zl taken given d d' \<and> res \<le> Z_STREAM_END \<and>
    (0 \<le> res \<longrightarrow> 0 < avail_out d' \<and> ok (zstrm d')) \<and>
    (res = Z_OK \<longrightarrow> length (next_in d') < length (next_in d) \<or>
       next_in d' = next_in d \<and> left (zstrm d') < left (zstrm d)) \<and> res = fst (fst (f (next_in d) (avail_out d) (zstrm d)))"
proof -
  obtain res d1 where 1: "zcall f d = Inr (res, d1)" "pumped oc em zl taken given d d1"
    "res = Z_OK \<longrightarrow> length (next_in d1) < length (next_in d) \<or> next_in d1 = next_in d \<and> left (zstrm d1) < left (zstrm d)"
    "res = fst (fst (f (next_in d) (avail_out d) (zstrm d)))" and le: "res \<le> Z_STREAM_END"
    and ok: "res = Z_OK \<or> res = Z_STREAM_END \<longrightarrow> ok (zstrm d1)"
    using zcall_pumped [OF assms(1-4) _ assms(7,8), where oc = oc] assms(6) by blast
  have inv: "out_inv d1" using 1(2) by (simp add: pumped_def)
  show ?thesis
  proof (cases "0 \<le> res \<and> avail_out d1 = 0")
    case True
    obtain d2 where "emit oc em zl d1 = Inr (0, d2)" "pumped oc em zl taken given d1 d2"
      "next_in d2 = next_in d1" "zstrm d2 = zstrm d1" "0 < avail_out d2"
      using zlib_output_pumped [OF assms(2) inv, where oc = oc] unfolding emit_def by force
    then show ?thesis
      using True 1 le ok pumped_trans [OF assms(2) 1(2)] by (intro exI [of _ res] exI [of _ d2]) (auto simp: block_step_def)
  next
    case False
    then have "0 \<le> res \<longrightarrow> 0 < avail_out d1" using inv by (auto simp: out_inv_def split: option.splits)
    then show ?thesis using False 1 le ok by (intro exI [of _ res] exI [of _ d1]) (auto simp: block_step_def)
  qed
qed

text \<open>How \<open>res\<close> comes about in the loops.\<close>

definition result_of :: "('z \<Rightarrow> bool) \<Rightarrow> 'z zcall \<Rightarrow> int \<Rightarrow> int \<Rightarrow> bool" where
  "result_of ok f res res' \<longleftrightarrow> res' = res \<or> (\<exists>inp room z. ok z \<and> inp \<noteq> [] \<and> 0 < room \<and> res' = fst (fst (f inp room z)))"

lemma pumped_refl: "good_env em zl \<Longrightarrow> out_inv d \<Longrightarrow> pumped oc em zl taken given d d"
  by (rule pumpedI [where m = 0 and new = "[]" and sent = "[]"]) (simp_all add: good_env_def crc_ok_def)

lemma pump_ends:
  assumes "stream_ok ok asks taken given left Z_NO_FLUSH f" "good_env em zl"
    and "out_inv d" "0 < avail_out d" "next_in d \<noteq> [] \<Longrightarrow> in_live d" "0 \<le> res" "res \<le> Z_STREAM_END"
    and "ok (zstrm d)" "unasked asks taken (zstrm d) (next_in d)"
  shows "\<exists>N ret res' d'. (\<forall>n \<ge> N. pump (block_step oc em zl f) n res d = Inr ((ret, res'), d')) \<and>
    pumped oc em zl taken given d d' \<and> result_of ok f res res' \<and>
    (if ret then res' < 0 else (res' = Z_STREAM_END \<or> res' = Z_OK \<and> next_in d' = []) \<and> 0 < avail_out d' \<and> ok (zstrm d'))"
  using assms(3-)
proof (induction "(length (next_in d), left (zstrm d))" arbitrary: d res
    rule: wf_induct_rule [OF wf_lex_prod [OF wf_less_than wf_less_than]])
  case (1 d res)
  show ?case
  proof (cases "next_in d \<noteq> [] \<and> res \<noteq> Z_STREAM_END")
    case False
    then have "\<forall>n \<ge> 1. pump (block_step oc em zl f) n res d = Inr ((False, res), d)"
      by (metis One_nat_def Suc_le_D pump.simps(2))
    moreover have "res = Z_STREAM_END \<or> res = Z_OK \<and> next_in d = []" using False 1(5,6) by auto
    ultimately show ?thesis
      using 1(2,3,7) pumped_refl [OF assms(2) 1(2)] by (intro exI [of _ 1] exI [of _ False] exI [of _ res] exI [of _ d])
        (simp add: result_of_def)
  next
    case True
    obtain res1 d1 where s: "block_step oc em zl f d = Inr (res1, d1)" "pumped oc em zl taken given d d1"
      "res1 \<le> Z_STREAM_END" "0 \<le> res1 \<longrightarrow> 0 < avail_out d1 \<and> ok (zstrm d1)"
      "res1 = Z_OK \<longrightarrow> length (next_in d1) < length (next_in d) \<or> next_in d1 = next_in d \<and> left (zstrm d1) < left (zstrm d)"
      "res1 = fst (fst (f (next_in d) (avail_out d) (zstrm d)))"
      using block_step_ok [OF assms(1,2) 1(2,3) _ _ 1(7,8), where oc = oc] True 1(4) by blast
    have of1: "result_of ok f res res1" using s(6) True 1(3,7) unfolding result_of_def by blast
    have step: "pump (block_step oc em zl f) (Suc n) res d =
      (if res1 < 0 then Inr ((True, res1), d1) else pump (block_step oc em zl f) n res1 d1)" for n
      using True s(1) by simp
    consider "res1 < 0" | "res1 = Z_STREAM_END" | "res1 = Z_OK" using s(3) by linarith
    then show ?thesis
    proof cases
      case 1
      then have "\<forall>n \<ge> 1. pump (block_step oc em zl f) n res d = Inr ((True, res1), d1)"
        using step by (metis One_nat_def Suc_le_D)
      then show ?thesis using s(2) of1 1 by (intro exI [of _ 1] exI [of _ True] exI [of _ res1] exI [of _ d1]) simp
    next
      case 2
      then have "\<forall>n \<ge> 2. pump (block_step oc em zl f) n res d = Inr ((False, res1), d1)"
        using step by (metis One_nat_def Suc_1 Suc_le_D Suc_le_mono not_one_less_zero pump.simps(2))
      then show ?thesis using s(2,4) of1 2 by (intro exI [of _ 2] exI [of _ False] exI [of _ res1] exI [of _ d1]) simp
    next
      case 3
      have inv: "out_inv d1" "0 < avail_out d1" "next_in d1 \<noteq> [] \<Longrightarrow> in_live d1" "ok (zstrm d1)"
          "unasked asks taken (zstrm d1) (next_in d1)"
        using s(2,4) 3 True 1(4) pumped_unasked [OF s(2) 1(8)] by (auto simp: pumped_def)
      obtain N ret res' d' where N: "\<forall>n \<ge> N. pump (block_step oc em zl f) n res1 d1 = Inr ((ret, res'), d')"
        "pumped oc em zl taken given d1 d'" "result_of ok f res1 res'"
        "if ret then res' < 0 else (res' = Z_STREAM_END \<or> res' = Z_OK \<and> next_in d' = []) \<and> 0 < avail_out d' \<and> ok (zstrm d')"
        using 1(1) [of d1 res1] inv s(5) 3 by auto
      have "\<forall>n \<ge> Suc N. pump (block_step oc em zl f) n res d = Inr ((ret, res'), d')"
        using step N(1) 3 by (metis Suc_le_D Suc_le_mono less_irrefl)
      moreover have "result_of ok f res res'" using of1 N(3) unfolding result_of_def by auto
      ultimately show ?thesis using pumped_trans [OF assms(2) s(2) N(2)] N(4) by blast
    qed
  qed
qed

section \<open>The loop over the queue\<close>

fun pump_queue :: "bool \<Rightarrow> emulator \<Rightarrow> 'z zlib \<Rightarrow> ('z ZLibData \<Rightarrow> (int, 'z ZLibData) outcome) \<Rightarrow> nat \<Rightarrow> int \<Rightarrow>
    'z ZLibData \<Rightarrow> (bool \<times> int, 'z ZLibData) outcome" where
  "pump_queue oc em zl step 0 res d = Inl Diverges"
| "pump_queue oc em zl step (Suc n) res d =
     (if driver_sizeq em d > 0 \<and> res \<noteq> Z_STREAM_END then
        let (iov_len, d) = next_block em zl d; iov_base = next_in d in
        andthen (pump step n res d) (\<lambda>(ret, res) d.
          if ret then Inr ((True, res), d)
          else
            let len = iov_len - int (length (next_in d));
                d = (if \<not> oc \<and> want_crc d then d\<lparr>crc := zl_crc32 zl (crc d) (bytes_at 0 len iov_base)\<rparr> else d)
            in pump_queue oc em zl step n res (driver_deq len d))
      else Inr ((False, res), d))"

lemma inflate_queue_pump:
  "inflate_queue em zl n res d = pump_queue True em zl (block_step True em zl (zl_inflate zl Z_NO_FLUSH)) n res d"
  by (induction n arbitrary: res d) (simp_all add: inflate_block_pump Let_def case_prod_unfold cong: if_cong)

lemma deflate_queue_pump:
  "deflate_queue em zl n res d = pump_queue False em zl (block_step False em zl (zl_deflate zl Z_NO_FLUSH)) n res d"
  by (induction n arbitrary: res d) (simp_all add: deflate_block_pump Let_def case_prod_unfold cong: if_cong)

text \<open>
  \<open>fed\<close>: the library has taken the first \<open>j\<close> bytes of the queue, of which \<open>k\<close> have been removed; what
  it has given is, behind what was pending, sent or pending.
\<close>

definition fed :: "bool \<Rightarrow> emulator \<Rightarrow> 'z zlib \<Rightarrow> ('z \<Rightarrow> byte list) \<Rightarrow> ('z \<Rightarrow> byte list) \<Rightarrow> nat \<Rightarrow> nat \<Rightarrow>
    'z ZLibData \<Rightarrow> 'z ZLibData \<Rightarrow> bool" where
  "fed oc em zl taken given j k d d' \<longleftrightarrow>
     (let Q = em_queue em (calls d) in
      out_inv d' \<and> zframe d' = zframe d \<and> j \<le> length Q \<and> k \<le> j \<and>
      taken (zstrm d') = taken (zstrm d) @ take j Q \<and> em_queue em (calls d') = drop k Q \<and>
      (\<exists>new sent. given (zstrm d') = given (zstrm d) @ new \<and> put_out (calls d') = put_out (calls d) @ sent \<and>
         sent @ unsent d' = unsent d @ new \<and>
         crc d' = (if want_crc d then zl_crc32 zl (crc d) (if oc then sent else take k Q) else crc d)))"

lemma fedI:
  assumes "out_inv d'" "zframe d' = zframe d" "j \<le> length (em_queue em (calls d))" "k \<le> j"
    "taken (zstrm d') = taken (zstrm d) @ take j (em_queue em (calls d))"
    "em_queue em (calls d') = drop k (em_queue em (calls d))"
    "given (zstrm d') = given (zstrm d) @ new" "put_out (calls d') = put_out (calls d) @ sent"
    "sent @ unsent d' = unsent d @ new"
    "crc d' = (if want_crc d then zl_crc32 zl (crc d) (if oc then sent else take k (em_queue em (calls d))) else crc d)"
  shows "fed oc em zl taken given j k d d'"
  unfolding fed_def Let_def using assms by blast

lemma fed_refl: "good_env em zl \<Longrightarrow> out_inv d \<Longrightarrow> fed oc em zl taken given 0 0 d d"
  by (rule fedI [where new = "[]" and sent = "[]"]) (simp_all add: good_env_def crc_ok_def)

lemma fed_trans:
  assumes "good_env em zl" "fed oc em zl taken given i i d d1" "fed oc em zl taken given j k d1 d2"
  shows "fed oc em zl taken given (i + j) (i + k) d d2"
proof -
  let ?Q = "em_queue em (calls d)"
  have 1: "i \<le> length ?Q" "zframe d1 = zframe d" "em_queue em (calls d1) = drop i ?Q"
    "taken (zstrm d1) = taken (zstrm d) @ take i ?Q"
    using assms(2) by (simp_all add: fed_def Let_def)
  have 2: "out_inv d2" "zframe d2 = zframe d1" "j \<le> length ?Q - i" "k \<le> j"
    "em_queue em (calls d2) = drop k (drop i ?Q)" "taken (zstrm d2) = taken (zstrm d1) @ take j (drop i ?Q)"
    using assms(3) 1(3) by (simp_all add: fed_def Let_def)
  obtain new sent where a: "given (zstrm d1) = given (zstrm d) @ new" "put_out (calls d1) = put_out (calls d) @ sent"
    "sent @ unsent d1 = unsent d @ new"
    "crc d1 = (if want_crc d then zl_crc32 zl (crc d) (if oc then sent else take i ?Q) else crc d)"
    using assms(2) unfolding fed_def Let_def by blast
  obtain new' sent' where b: "given (zstrm d2) = given (zstrm d1) @ new'" "put_out (calls d2) = put_out (calls d1) @ sent'"
    "sent' @ unsent d2 = unsent d1 @ new'"
    "crc d2 = (if want_crc d1 then zl_crc32 zl (crc d1) (if oc then sent' else take k (drop i ?Q)) else crc d1)"
    using assms(3) 1(3) unfolding fed_def Let_def by metis
  have "(sent @ sent') @ unsent d2 = unsent d @ new @ new'" using a(3) b(3) by simp
  moreover have "crc d2 = (if want_crc d then zl_crc32 zl (crc d) (if oc then sent @ sent' else take (i + k) ?Q) else crc d)"
    using a(4) b(4) 1(2) assms(1) by (auto simp: zframe_def good_env_def crc_ok_def take_add)
  ultimately show ?thesis
    using 1 2 a b by (intro fedI [where new = "new @ new'" and sent = "sent @ sent'"]) (simp_all add: take_add add.commute)
qed

text \<open>A block that has been worked on, before it is removed from the queue.\<close>

lemma pumped_fed:
  assumes "good_env em zl" "pumped oc em zl taken given (snd (next_block em zl d)) d'"
  shows "\<exists>m \<le> length (next_in (snd (next_block em zl d))).
    next_in d' = drop m (next_in (snd (next_block em zl d))) \<and> in_live d' \<and> want_crc d' = want_crc d \<and>
    fed oc em zl taken given m 0 d d' \<and>
    fed oc em zl taken given m m d (driver_deq (int m)
      (if \<not> oc \<and> want_crc d' then d'\<lparr>crc := zl_crc32 zl (crc d') (take m (next_in (snd (next_block em zl d))))\<rparr> else d'))"
proof -
  let ?Q = "em_queue em (calls d)" and ?d0 = "snd (next_block em zl d)"
  have d0: "next_in ?d0 = take (zl_iov0 zl (calls d)) ?Q" "in_live ?d0" "calls ?d0 = calls d" "zframe ?d0 = zframe d"
    "zstrm ?d0 = zstrm d" "crc ?d0 = crc d" "unsent ?d0 = unsent d" "want_crc ?d0 = want_crc d"
    by (simp_all add: next_block_def Let_def zframe_def unsent_def split: option.split)
  obtain m new sent where m: "m \<le> length (next_in ?d0)" "next_in d' = drop m (next_in ?d0)"
    "taken (zstrm d') = taken (zstrm d) @ take m (next_in ?d0)" "given (zstrm d') = given (zstrm d) @ new"
    "put_out (calls d') = put_out (calls d) @ sent" "sent @ unsent d' = unsent d @ new"
    "crc d' = (if oc \<and> want_crc d then zl_crc32 zl (crc d) sent else crc d)"
    using assms(2) unfolding pumped_def d0(3,5,6,7,8) by blast
  have f: "out_inv d'" "zframe d' = zframe d" "in_live d'" "em_queue em (calls d') = ?Q" "want_crc d' = want_crc d"
    using assms(2) d0 by (simp_all add: pumped_def zframe_def)
  have t: "take m (next_in ?d0) = take m ?Q" "m \<le> length ?Q" using m(1) d0(1) by (auto simp: min_absorb1)
  let ?d = "driver_deq (int m) (if \<not> oc \<and> want_crc d' then d'\<lparr>crc := zl_crc32 zl (crc d') (take m (next_in ?d0))\<rparr> else d')"
  have "calls ?d = Deq (int m) # calls d'" "zstrm ?d = zstrm d'" "zframe ?d = zframe d'" "out_inv ?d = out_inv d'"
    "unsent ?d = unsent d'" "crc ?d = (if \<not> oc \<and> want_crc d' then zl_crc32 zl (crc d') (take m ?Q) else crc d')"
    by (simp_all add: driver_deq_def zframe_def out_inv_def unsent_def t(1) split: option.split)
  then have "fed oc em zl taken given m m d ?d"
    using m f t assms(1) by (intro fedI [where new = new and sent = sent]) (auto simp: good_env_def crc_ok_def)
  moreover have "fed oc em zl taken given m 0 d d'"
    using m f t assms(1) by (intro fedI [where new = new and sent = sent]) (auto simp: good_env_def crc_ok_def)
  ultimately show ?thesis using m(1,2) f(3,5) by blast
qed

text \<open>What holds when the loop over the queue is left.\<close>

definition queue_done :: "('z \<Rightarrow> bool) \<Rightarrow> bool \<Rightarrow> emulator \<Rightarrow> 'z zlib \<Rightarrow> ('z \<Rightarrow> byte list) \<Rightarrow> ('z \<Rightarrow> byte list) \<Rightarrow> 'z zcall \<Rightarrow>
    int \<Rightarrow> 'z ZLibData \<Rightarrow> bool \<Rightarrow> int \<Rightarrow> 'z ZLibData \<Rightarrow> nat \<Rightarrow> nat \<Rightarrow> bool" where
  "queue_done ok oc em zl taken given f res d ret res' d' j k \<longleftrightarrow>
     fed oc em zl taken given j k d d' \<and> result_of ok f res res' \<and>
     (if ret then res' < 0
      else j = k \<and> 0 < avail_out d' \<and> ok (zstrm d') \<and> (next_in d' \<noteq> [] \<longrightarrow> in_live d') \<and>
        (\<exists>c. next_in d' = take c (em_queue em (calls d'))) \<and>
        (res' = Z_STREAM_END \<or> res' = Z_OK \<and> em_queue em (calls d') = []))"

lemma pump_queue_ends:
  assumes "stream_ok ok asks taken given left Z_NO_FLUSH f" "good_env em zl"
    and "out_inv d" "0 < avail_out d" "0 \<le> res" "res \<le> Z_STREAM_END"
    and "em_queue em (calls d) \<noteq> [] \<or> next_in d = []"
    and "res = Z_STREAM_END \<Longrightarrow> (next_in d \<noteq> [] \<longrightarrow> in_live d) \<and> (\<exists>c. next_in d = take c (em_queue em (calls d)))"
    and "ok (zstrm d)" "unasked asks taken (zstrm d) (em_queue em (calls d))"
  shows "\<exists>N ret res' d' j k. (\<forall>n \<ge> N. pump_queue oc em zl (block_step oc em zl f) n res d = Inr ((ret, res'), d')) \<and>
    queue_done ok oc em zl taken given f res d ret res' d' j k"
  using assms(3-)
proof (induction "length (em_queue em (calls d))" arbitrary: d res rule: less_induct)
  case less
  let ?Q = "em_queue em (calls d)" and ?p = "pump_queue oc em zl (block_step oc em zl f)"
  have size: "0 < driver_sizeq em d \<longleftrightarrow> ?Q \<noteq> []" by (simp add: driver_sizeq_def)
  show ?case
  proof (cases "?Q \<noteq> [] \<and> res \<noteq> Z_STREAM_END")
    case False
    have "\<forall>n \<ge> Suc 0. ?p n res d = Inr ((False, res), d)"
      by (rule from_Suc) (use False size in auto)
    moreover have fed0: "fed oc em zl taken given 0 0 d d"
      by (rule fed_refl [OF assms(2) less.prems(1)])
    moreover have "(next_in d \<noteq> [] \<longrightarrow> in_live d) \<and> (\<exists>c. next_in d = take c ?Q) \<and> (res = Z_STREAM_END \<or> res = Z_OK \<and> ?Q = [])"
    proof (cases "res = Z_STREAM_END")
      case True
      then show ?thesis using less.prems(6) by blast
    next
      case res: False
      then have "?Q = []" "next_in d = []" "res = Z_OK" using False less.prems(3,4,5) by auto
      then show ?thesis by simp
    qed
    then have "queue_done ok oc em zl taken given f res d False res d 0 0"
      using fed0 less.prems(2,7) unfolding queue_done_def result_of_def by (metis (full_types))
    ultimately show ?thesis by blast
  next
    case True
    let ?d0 = "snd (next_block em zl d)" and ?B = "next_in (snd (next_block em zl d))"
    have d0: "fst (next_block em zl d) = int (length ?B)" "out_inv ?d0" "0 < avail_out ?d0" "in_live ?d0"
      "?B = take (zl_iov0 zl (calls d)) ?Q" "?B \<noteq> []" "ok (zstrm ?d0)" "unasked asks taken (zstrm ?d0) ?B"
      using less.prems(1,2,7) unasked_take [OF less.prems(8)] True assms(2)
      by (simp_all add: next_block_def Let_def out_inv_upd good_env_def)
    obtain N1 ret res1 d1 where p: "\<forall>n \<ge> N1. pump (block_step oc em zl f) n res ?d0 = Inr ((ret, res1), d1)"
      "pumped oc em zl taken given ?d0 d1" "result_of ok f res res1"
      "if ret then res1 < 0 else (res1 = Z_STREAM_END \<or> res1 = Z_OK \<and> next_in d1 = []) \<and> 0 < avail_out d1 \<and> ok (zstrm d1)"
      using pump_ends [OF assms(1,2) d0(2,3) _ less.prems(3,4) d0(7,8), where oc = oc] d0(4) by blast
    obtain m where m: "m \<le> length ?B" "next_in d1 = drop m ?B" "in_live d1" "fed oc em zl taken given m 0 d d1"
      "fed oc em zl taken given m m d (driver_deq (int m)
         (if \<not> oc \<and> want_crc d1 then d1\<lparr>crc := zl_crc32 zl (crc d1) (take m ?B)\<rparr> else d1))"
      (is "fed oc em zl taken given m m d ?d2")
      using pumped_fed [OF assms(2) p(2)] by blast
    have len: "int (length ?B) - int (length (next_in d1)) = int m" using m(1,2) by simp
    have step: "?p (Suc n) res d = (if ret then Inr ((True, res1), d1) else ?p n res1 ?d2)" if "N1 \<le> n" for n
      using p(1) that True size d0(1) len by (cases oc; cases "want_crc d1") (simp_all add: Let_def bytes_at_def case_prod_unfold)
    show ?thesis
    proof (cases ret)
      case True
      have "\<forall>n \<ge> Suc N1. ?p n res d = Inr ((True, res1), d1)" by (rule from_Suc) (use step True in simp)
      moreover have "queue_done ok oc em zl taken given f res d True res1 d1 m 0"
        using m(4) p(3,4) True by (simp add: queue_done_def)
      ultimately show ?thesis by blast
    next
      case False
      have d2: "calls ?d2 = Deq (int m) # calls d1" "next_in ?d2 = next_in d1" "in_live ?d2 = in_live d1"
        "avail_out ?d2 = avail_out d1" "out_inv ?d2 = out_inv d1" "zstrm ?d2 = zstrm d1"
        by (simp_all add: driver_deq_def out_inv_upd)
      have Q2: "em_queue em (calls ?d2) = drop m ?Q" and inv: "out_inv ?d2" "0 < avail_out ?d2" "ok (zstrm ?d2)"
        using m(5) p(4) False by (simp_all add: fed_def Let_def d2)
      have rest: "unasked asks taken (zstrm ?d2) (em_queue em (calls ?d2))"
        using unasked_step [OF less.prems(8)] m(5) unfolding fed_def Let_def by auto
      have res1: "res1 = Z_STREAM_END \<or> res1 = Z_OK \<and> next_in d1 = []" using p(4) False by simp
      have next2: "next_in ?d2 = take (zl_iov0 zl (calls d) - m) (em_queue em (calls ?d2))"
        using m(2) d0(5) Q2 d2(2) by (simp add: drop_take)
      show ?thesis
      proof (cases "res1 = Z_STREAM_END")
        case True
        have "\<forall>n \<ge> Suc (Suc N1). ?p n res d = Inr ((False, res1), ?d2)"
        proof (rule from_Suc)
          fix n assume "Suc N1 \<le> n"
          moreover from this obtain n' where "n = Suc n'" by (cases n) auto
          ultimately show "?p (Suc n) res d = Inr ((False, res1), ?d2)" using step [of n] False True by simp
        qed
        moreover have "queue_done ok oc em zl taken given f res d False res1 ?d2 m m"
          using m(3,5) p(3) True inv d2(3) next2 unfolding queue_done_def by auto
        ultimately show ?thesis by blast
      next
        case 0: False
        have "m = length ?B" "0 < m" using res1 0 m(1,2) d0(6) by auto
        then have "length (em_queue em (calls ?d2)) < length ?Q" using Q2 True by simp
        then obtain N ret' res' d' j k where r: "\<forall>n \<ge> N. ?p n res1 ?d2 = Inr ((ret', res'), d')"
          "queue_done ok oc em zl taken given f res1 ?d2 ret' res' d' j k"
          using less.hyps [of ?d2 res1] inv rest res1 0 d2(2) by auto
        have "\<forall>n \<ge> Suc (max N1 N). ?p n res d = Inr ((ret', res'), d')"
          by (rule from_Suc) (use step r(1) False in simp)
        moreover have "fed oc em zl taken given (m + j) (m + k) d d'"
          using fed_trans [OF assms(2) m(5)] r(2) by (simp add: queue_done_def)
        then have "queue_done ok oc em zl taken given f res d ret' res' d' (m + j) (m + k)"
          using p(3) r(2) by (auto simp: queue_done_def result_of_def)
        ultimately show ?thesis by blast
      qed
    qed
  qed
qed

section \<open>Flushing\<close>

fun pump_flush :: "bool \<Rightarrow> emulator \<Rightarrow> 'z zlib \<Rightarrow> 'z zcall \<Rightarrow> nat \<Rightarrow> int \<Rightarrow> 'z ZLibData \<Rightarrow> (int, 'z ZLibData) outcome" where
  "pump_flush oc em zl f 0 res d = Inl Diverges"
| "pump_flush oc em zl f (Suc n) res d =
     (if avail_out d < binsz d then
        andthen (emit oc em zl d) (\<lambda>_ d.
          if res = Z_STREAM_END then Inr (res, d)
          else
            andthen (zcall f d) (\<lambda>res d.
              if res < 0 then Inr (res, d) else pump_flush oc em zl f n res d))
      else Inr (res, d))"

lemma inflate_flush_pump: "inflate_flush em zl n flush res d = pump_flush True em zl (zl_inflate zl flush) n res d"
proof (induction n arbitrary: res d)
  case (Suc n)
  show ?case by (simp add: emit_def andthen_def Suc.IH split: sum.split prod.split)
qed simp

lemma deflate_flush_pump: "deflate_flush em zl n flush res d = pump_flush False em zl (zl_deflate zl flush) n res d"
proof (induction n arbitrary: res d)
  case (Suc n)
  show ?case by (simp add: emit_def andthen_def Suc.IH split: sum.split prod.split)
qed simp

definition flush_done :: "bool \<Rightarrow> emulator \<Rightarrow> 'z zlib \<Rightarrow> ('z \<Rightarrow> byte list) \<Rightarrow> ('z \<Rightarrow> byte list) \<Rightarrow> 'z ZLibData \<Rightarrow>
    int \<Rightarrow> 'z ZLibData \<Rightarrow> bool" where
  "flush_done oc em zl taken given d res' d' \<longleftrightarrow>
     pumped oc em zl taken given d d' \<and> res' \<le> Z_STREAM_END \<and> (0 \<le> res' \<longrightarrow> unsent d' = [] \<and> 0 < avail_out d')"

lemma flush_done_trans:
  "good_env em zl \<Longrightarrow> pumped oc em zl taken given d d1 \<Longrightarrow> flush_done oc em zl taken given d1 res' d' \<Longrightarrow>
     flush_done oc em zl taken given d res' d'"
  unfolding flush_done_def using pumped_trans by blast

lemma pumped_live:
  assumes "pumped oc em zl taken given d d'" "next_in d \<noteq> [] \<Longrightarrow> in_live d" "next_in d' \<noteq> []"
  shows "in_live d'"
proof -
  obtain m where "next_in d' = drop m (next_in d)" "in_live d' = in_live d"
    using assms(1) unfolding pumped_def by blast
  then show ?thesis using assms(2,3) by fastforce
qed

lemma pump_flush_ends:
  assumes "stream_ok ok asks taken given left flush f" "good_env em zl"
    and "out_inv d" "next_in d \<noteq> [] \<Longrightarrow> in_live d" "0 \<le> res" "res \<le> Z_STREAM_END"
    and "res \<noteq> Z_STREAM_END \<Longrightarrow> ok (zstrm d)" "unasked asks taken (zstrm d) (next_in d)" "6 < binsz_need d"
  shows "\<exists>N res' d'. (\<forall>n \<ge> N. pump_flush oc em zl f n res d = Inr (res', d')) \<and>
    flush_done oc em zl taken given d res' d'"
  using assms(3-)
proof (induction "(length (next_in d), left (zstrm d))" arbitrary: d res
    rule: wf_induct_rule [OF wf_lex_prod [OF wf_less_than wf_less_than]])
  case (1 d res)
  let ?p = "pump_flush oc em zl f"
  show ?case
  proof (cases "avail_out d < binsz d")
    case False
    have "\<forall>n \<ge> Suc 0. ?p n res d = Inr (res, d)" by (rule from_Suc) (use False in simp)
    moreover have "flush_done oc em zl taken given d res d"
      using False 1(2,5) pumped_refl [OF assms(2) 1(2)]
      by (auto simp: flush_done_def unsent_def out_inv_def split: option.splits)
    ultimately show ?thesis by blast
  next
    case True
    obtain d1 where e: "emit oc em zl d = Inr (0, d1)" "pumped oc em zl taken given d d1"
      "next_in d1 = next_in d" "zstrm d1 = zstrm d" "avail_out d1 = binsz d1" "binsz d1 = binsz_need d" "0 < binsz d1" "unsent d1 = []"
      using zlib_output_pumped [OF assms(2) 1(2), where oc = oc] unfolding emit_def by blast
    show ?thesis
    proof (cases "res = Z_STREAM_END")
      case True
      then have "\<forall>n \<ge> Suc 0. ?p n res d = Inr (res, d1)"
        by (intro from_Suc) (use \<open>avail_out d < binsz d\<close> e(1) in simp)
      moreover have "flush_done oc em zl taken given d res d1" using e True by (simp add: flush_done_def)
      ultimately show ?thesis by blast
    next
      case False
      have inv1: "out_inv d1" "0 < avail_out d1" "next_in d1 \<noteq> [] \<Longrightarrow> in_live d1" "ok (zstrm d1)"
          "unasked asks taken (zstrm d1) (next_in d1)" "6 < avail_out d1"
        using e 1(3,6,7,8) False by (simp_all add: pumped_def)
      obtain res2 d2 where c: "zcall f d1 = Inr (res2, d2)" "pumped oc em zl taken given d1 d2"
        "res2 = Z_OK \<longrightarrow> ok (zstrm d2)" and le: "res2 \<le> Z_STREAM_END"
        and less: "res2 = Z_OK \<longrightarrow> length (next_in d2) < length (next_in d1) \<or> next_in d2 = next_in d1 \<and> left (zstrm d2) < left (zstrm d1)"
        using zcall_pumped [OF assms(1,2) inv1(1-5), where oc = oc] inv1(6) by blast
      have p: "pumped oc em zl taken given d d2" by (rule pumped_trans [OF assms(2) e(2) c(2)])
      have inv2: "out_inv d2" "next_in d2 \<noteq> [] \<Longrightarrow> in_live d2" "unasked asks taken (zstrm d2) (next_in d2)" "6 < binsz_need d2"
        using p pumped_live [OF p 1(3)] pumped_unasked [OF p 1(7)] 1(8) by (simp_all add: pumped_def zframe_def)
      have step: "?p (Suc n) res d = (if res2 < 0 then Inr (res2, d2) else ?p n res2 d2)" for n
        using True False e(1) c(1) by simp
      consider "res2 < 0" | "res2 = Z_STREAM_END" | "res2 = Z_OK" using le by linarith
      then show ?thesis
      proof cases
        case 1
        have "\<forall>n \<ge> Suc 0. ?p n res d = Inr (res2, d2)" by (rule from_Suc) (use step 1 in simp)
        moreover have "flush_done oc em zl taken given d res2 d2" using p 1 by (simp add: flush_done_def)
        ultimately show ?thesis by blast
      next
        case fin: 2
        obtain d3 where d3: "emit oc em zl d2 = Inr (0, d3)" "pumped oc em zl taken given d2 d3"
          "avail_out d3 = binsz d3" "0 < binsz d3" "unsent d3 = []"
          using zlib_output_pumped [OF assms(2) inv2(1), where oc = oc] unfolding emit_def by blast
        have "?p (Suc (Suc n)) res d = (if avail_out d2 < binsz d2 then Inr (res2, d3) else Inr (res2, d2))" for n
          using step d3(1) fin by simp
        then have "\<forall>n \<ge> Suc (Suc 0). ?p n res d = (if avail_out d2 < binsz d2 then Inr (res2, d3) else Inr (res2, d2))"
          by (metis Suc_le_D Suc_le_mono)
        moreover have "flush_done oc em zl taken given d res2 d3"
          using pumped_trans [OF assms(2) p d3(2)] d3 fin by (simp add: flush_done_def)
        moreover have "avail_out d2 < binsz d2 \<or> flush_done oc em zl taken given d res2 d2"
          using p inv2(1) fin by (auto simp: flush_done_def unsent_def out_inv_def split: option.splits)
        ultimately show ?thesis by (cases "avail_out d2 < binsz d2") auto
      next
        case 3
        then obtain N res' d' where N: "\<forall>n \<ge> N. ?p n res2 d2 = Inr (res', d')" "flush_done oc em zl taken given d2 res' d'"
          using 1(1) [of d2 res2] inv2 c(3) less e(3,4) by auto
        have "\<forall>n \<ge> Suc N. ?p n res d = Inr (res', d')" by (rule from_Suc) (use step N(1) 3 in simp)
        then show ?thesis using flush_done_trans [OF assms(2) p N(2)] by blast
      qed
    qed
  qed
qed

section \<open>A request to deflate or to inflate\<close>

definition process :: "bool \<Rightarrow> emulator \<Rightarrow> 'z zlib \<Rightarrow> (int \<Rightarrow> 'z zcall) \<Rightarrow> nat \<Rightarrow> int \<Rightarrow> 'z ZLibData \<Rightarrow>
    (int, 'z ZLibData) outcome" where
  "process oc em zl f fuel flush d =
     (let (rc, d) = (if zbin d = None then zlib_output_init em d else (0, d)) in
      if rc < 0 then Inr (Z_ERRNO, d\<lparr>zerrno := ENOMEM\<rparr>)
      else
        andthen (pump_queue oc em zl (block_step oc em zl (f Z_NO_FLUSH)) fuel Z_OK d) (\<lambda>(ret, res) d.
          if ret then Inr (res, d)
          else if flush \<noteq> Z_NO_FLUSH then
            andthen (zcall (f flush) d) (\<lambda>res d.
              if res < 0 then Inr (res, d) else pump_flush oc em zl (f flush) fuel res d)
          else Inr (res, d)))"

lemma zlib_inflate_process: "zlib_inflate em zl fuel flush d = process True em zl (zl_inflate zl) fuel flush d"
  by (simp add: zlib_inflate_def process_def inflate_queue_pump inflate_flush_pump case_prod_unfold cong: if_cong)

lemma zlib_deflate_process: "zlib_deflate em zl fuel flush d = process False em zl (zl_deflate zl) fuel flush d"
  by (simp add: zlib_deflate_def process_def deflate_queue_pump deflate_flush_pump case_prod_unfold cong: if_cong)

text \<open>A driver that can work: its buffer, if there is one, has room, and its \<^verbatim>\<open>next_in\<close> will be set.\<close>

definition can_work :: "emulator \<Rightarrow> 'z ZLibData \<Rightarrow> bool" where
  "can_work em d \<longleftrightarrow>
     (zbin d = None \<or> out_inv d \<and> 0 < avail_out d) \<and> 0 < binsz_need d \<and>
     (em_queue em (calls d) \<noteq> [] \<or> next_in d = [])"

lemma fed_pumped:
  assumes "good_env em zl" "fed oc em zl taken given k k d d1" "pumped oc em zl taken given d1 d2"
    "next_in d1 = take c (em_queue em (calls d1))"
  shows "\<exists>j. fed oc em zl taken given j k d d2"
proof -
  let ?Q = "em_queue em (calls d)"
  have 1: "zframe d1 = zframe d" "k \<le> length ?Q" "em_queue em (calls d1) = drop k ?Q"
    "taken (zstrm d1) = taken (zstrm d) @ take k ?Q"
    using assms(2) by (simp_all add: fed_def Let_def)
  obtain new sent where a: "given (zstrm d1) = given (zstrm d) @ new" "put_out (calls d1) = put_out (calls d) @ sent"
    "sent @ unsent d1 = unsent d @ new"
    "crc d1 = (if want_crc d then zl_crc32 zl (crc d) (if oc then sent else take k ?Q) else crc d)"
    using assms(2) unfolding fed_def Let_def by blast
  obtain m new' sent' where b: "m \<le> length (next_in d1)" "taken (zstrm d2) = taken (zstrm d1) @ take m (next_in d1)"
    "given (zstrm d2) = given (zstrm d1) @ new'" "put_out (calls d2) = put_out (calls d1) @ sent'"
    "sent' @ unsent d2 = unsent d1 @ new'"
    "crc d2 = (if oc \<and> want_crc d1 then zl_crc32 zl (crc d1) sent' else crc d1)"
    using assms(3) unfolding pumped_def by blast
  have 2: "out_inv d2" "zframe d2 = zframe d1" "em_queue em (calls d2) = em_queue em (calls d1)"
    using assms(3) by (simp_all add: pumped_def)
  have t: "take m (next_in d1) = take m (drop k ?Q)" "m \<le> length ?Q - k"
    using b(1) assms(4) 1(3) by (auto simp: min_absorb1)
  have "(sent @ sent') @ unsent d2 = unsent d @ new @ new'" using a(3) b(5) by simp
  moreover have "crc d2 = (if want_crc d then zl_crc32 zl (crc d) (if oc then sent @ sent' else take k ?Q) else crc d)"
    using a(4) b(6) 1(1) assms(1) by (auto simp: zframe_def good_env_def crc_ok_def)
  ultimately have "fed oc em zl taken given (k + m) k d d2"
    using 1 2 a b t by (intro fedI [where new = "new @ new'" and sent = "sent @ sent'"]) (simp_all add: take_add)
  then show ?thesis by blast
qed

lemma output_init_fed:
  assumes "good_env em zl" "zbin d = None" "0 < binsz_need d"
  shows "\<exists>d0. zlib_output_init em d = (0, d0) \<and> fed oc em zl taken given 0 0 d d0 \<and> out_inv d0 \<and> 0 < avail_out d0 \<and>
    next_in d0 = next_in d \<and> em_queue em (calls d0) = em_queue em (calls d) \<and> zstrm d0 = zstrm d"
proof -
  let ?d0 = "snd (zlib_output_init em d)"
  have d0: "fst (zlib_output_init em d) = 0" "\<exists>b. zbin ?d0 = Some b \<and> length b = nat (binsz_need d)"
    "binsz ?d0 = binsz_need d" "avail_out ?d0 = binsz_need d" "next_in ?d0 = next_in d"
    "zframe ?d0 = zframe d" "zstrm ?d0 = zstrm d" "crc ?d0 = crc d" "calls ?d0 = AllocBinary (binsz_need d) # calls d"
    using assms by (simp_all add: zlib_output_init_def driver_alloc_binary_def Let_def good_env_def zframe_def)
  have inv: "out_inv ?d0" "unsent ?d0 = unsent d"
    using d0(2,3,4,6) assms(2,3) by (auto simp: out_inv_def unsent_def zframe_def)
  have "em_queue em (calls ?d0) = em_queue em (calls d)" using assms(1) d0(9) by simp
  then have "fed oc em zl taken given 0 0 d ?d0"
    using d0 inv assms(1) by (intro fedI [where new = "[]" and sent = "[]"]) (simp_all add: good_env_def crc_ok_def)
  then show ?thesis using d0 inv assms by (metis env_queue(3) prod.collapse)
qed

text \<open>
  A request ends, on any fuel from some amount on, and is \<open>fed\<close>.  The result \<open>r\<close> of the loop over the
  queue tells whether it failed, the stream has ended, or the whole queue has been taken.
\<close>

definition process_done :: "('z \<Rightarrow> bool) \<Rightarrow> bool \<Rightarrow> emulator \<Rightarrow> 'z zlib \<Rightarrow> ('z \<Rightarrow> byte list) \<Rightarrow> ('z \<Rightarrow> byte list) \<Rightarrow> 'z zcall \<Rightarrow>
    int \<Rightarrow> 'z ZLibData \<Rightarrow> int \<Rightarrow> 'z ZLibData \<Rightarrow> nat \<Rightarrow> nat \<Rightarrow> int \<Rightarrow> bool" where
  "process_done ok oc em zl taken given f flush d res d' j k r \<longleftrightarrow>
     fed oc em zl taken given j k d d' \<and> result_of ok f Z_OK r \<and> res \<le> Z_STREAM_END \<and>
     (if r < 0 then res = r
      else (r = Z_STREAM_END \<or> k = length (em_queue em (calls d))) \<and> (flush = Z_NO_FLUSH \<longrightarrow> res = r) \<and>
        (0 \<le> res \<longrightarrow> 0 < avail_out d' \<and> (flush \<noteq> Z_NO_FLUSH \<longrightarrow> unsent d' = [])))"

lemma process_ends:
  assumes "\<And>flush. stream_ok (ok flush) asks taken given (left flush) flush (f flush)" "good_env em zl" "can_work em d"
    and "ok Z_NO_FLUSH (zstrm d)" "unasked asks taken (zstrm d) (em_queue em (calls d))" "6 < binsz_need d"
    and ready: "\<And>flush z. ok Z_NO_FLUSH z \<Longrightarrow> ok flush z"
  shows "\<exists>N res d' j k r. (\<forall>n \<ge> N. process oc em zl f n flush d = Inr (res, d')) \<and>
    process_done (ok Z_NO_FLUSH) oc em zl taken given (f Z_NO_FLUSH) flush d res d' j k r"
proof -
  let ?Q = "em_queue em (calls d)" and ?init = "if zbin d = None then zlib_output_init em d else (0, d)"
  obtain d0 where d0: "?init = (0, d0)" "fed oc em zl taken given 0 0 d d0" "out_inv d0" "0 < avail_out d0"
    "next_in d0 = next_in d" "em_queue em (calls d0) = ?Q" "zstrm d0 = zstrm d"
  proof (cases "zbin d = None")
    case True
    then show ?thesis using output_init_fed [OF assms(2) True, of oc taken given] assms(3) that by (auto simp: can_work_def)
  next
    case False
    then have "out_inv d" "0 < avail_out d" using assms(3) unfolding can_work_def by auto
    then show ?thesis using False fed_refl [OF assms(2)] by (intro that [of d]) auto
  qed
  have pre: "em_queue em (calls d0) \<noteq> [] \<or> next_in d0 = []" using assms(3) d0(5,6) by (simp add: can_work_def)
  have start: "ok Z_NO_FLUSH (zstrm d0)" "unasked asks taken (zstrm d0) (em_queue em (calls d0))" using assms(4,5) d0(6,7) by simp_all
  obtain N1 ret r d1 j k where q:
    "\<forall>n \<ge> N1. pump_queue oc em zl (block_step oc em zl (f Z_NO_FLUSH)) n Z_OK d0 = Inr ((ret, r), d1)"
    "queue_done (ok Z_NO_FLUSH) oc em zl taken given (f Z_NO_FLUSH) Z_OK d0 ret r d1 j k"
    using pump_queue_ends [OF assms(1,2) d0(3,4), where oc = oc and res = Z_OK] pre start by fastforce
  have fed1: "fed oc em zl taken given j k d d1" "result_of (ok Z_NO_FLUSH) (f Z_NO_FLUSH) Z_OK r"
    using q(2) fed_trans [OF assms(2) d0(2)] by (simp_all add: queue_done_def)
  have run: "process oc em zl f n flush d =
      (if ret then Inr (r, d1)
       else if flush \<noteq> Z_NO_FLUSH then
         andthen (zcall (f flush) d1) (\<lambda>res d. if res < 0 then Inr (res, d) else pump_flush oc em zl (f flush) n res d)
       else Inr (r, d1))" if "N1 \<le> n" for n
    using q(1) that unfolding process_def d0(1) by simp
  show ?thesis
  proof (cases ret)
    case True
    then have "\<forall>n \<ge> N1. process oc em zl f n flush d = Inr (r, d1)" "r < 0"
      using run q(2) by (simp_all add: queue_done_def)
    moreover from this have "process_done (ok Z_NO_FLUSH) oc em zl taken given (f Z_NO_FLUSH) flush d r d1 j k r"
      using fed1 by (simp add: process_done_def)
    ultimately show ?thesis by blast
  next
    case False
    have d1: "j = k" "0 < avail_out d1" "next_in d1 \<noteq> [] \<Longrightarrow> in_live d1" "\<exists>c. next_in d1 = take c (em_queue em (calls d1))"
      "r = Z_STREAM_END \<or> r = Z_OK \<and> em_queue em (calls d1) = []" "ok Z_NO_FLUSH (zstrm d1)"
      using q(2) False unfolding queue_done_def by auto
    have inv1: "out_inv d1" "6 < binsz_need d1" using fed1(1) assms(6) by (simp_all add: fed_def Let_def zframe_def)
    have "unasked asks taken (zstrm d1) (em_queue em (calls d1))"
      using unasked_step [OF assms(5)] fed1(1) d1(1) unfolding fed_def Let_def by auto
    then have rest: "unasked asks taken (zstrm d1) (next_in d1)" using d1(4) unasked_take by metis
    have r: "r = Z_STREAM_END \<or> k = length ?Q" "0 \<le> r" "r \<le> Z_STREAM_END"
      using d1(5) fed1(1) by (auto simp: fed_def Let_def)
    show ?thesis
    proof (cases "flush = Z_NO_FLUSH")
      case True
      have "\<forall>n \<ge> N1. process oc em zl f n flush d = Inr (r, d1)" using run True False by simp
      moreover have "process_done (ok Z_NO_FLUSH) oc em zl taken given (f Z_NO_FLUSH) flush d r d1 j k r"
        using fed1 r d1(2) True by (simp add: process_done_def)
      ultimately show ?thesis by blast
    next
      case flush: False
      obtain res d2 where c: "zcall (f flush) d1 = Inr (res, d2)" "pumped oc em zl taken given d1 d2"
        "res = Z_OK \<longrightarrow> ok flush (zstrm d2)" and le: "res \<le> Z_STREAM_END"
        using zcall_pumped [OF assms(1,2) inv1(1) d1(2,3) ready [OF d1(6)] rest, where oc = oc] by blast
      obtain N2 res' d' where e: "\<forall>n \<ge> N2. (if res < 0 then Inr (res, d2) else pump_flush oc em zl (f flush) n res d2) = Inr (res', d')"
        "flush_done oc em zl taken given d1 res' d'"
      proof (cases "res < 0")
        case True
        then show ?thesis using that [of 0 res d2] c(2) by (simp add: flush_done_def)
      next
        case 0: False
        have inv2: "out_inv d2" "6 < binsz_need d2" using c(2) inv1(2) by (simp_all add: pumped_def zframe_def)
        have res: "0 \<le> res" "res \<noteq> Z_STREAM_END \<Longrightarrow> ok flush (zstrm d2)" using 0 le c(3) by auto
        obtain N res' d' where "\<forall>n \<ge> N. pump_flush oc em zl (f flush) n res d2 = Inr (res', d')"
          "flush_done oc em zl taken given d2 res' d'"
          using pump_flush_ends [OF assms(1)[of flush] assms(2) inv2(1) pumped_live [OF c(2) d1(3)] res(1) le res(2)
              pumped_unasked [OF c(2) rest] inv2(2), where oc = oc] by blast
        then show ?thesis using that [of N res' d'] 0 flush_done_trans [OF assms(2) c(2)] by simp
      qed
      have "\<forall>n \<ge> max N1 N2. process oc em zl f n flush d = Inr (res', d')"
        using run e(1) c(1) False flush by simp
      moreover obtain j' where "fed oc em zl taken given j' k d d'"
        using fed_pumped [OF assms(2)] fed1(1) d1(1,4) e(2) unfolding flush_done_def by blast
      then have "process_done (ok Z_NO_FLUSH) oc em zl taken given (f Z_NO_FLUSH) flush d res' d' j' k r"
        using fed1(2) r e(2) flush by (simp add: process_done_def flush_done_def)
      ultimately show ?thesis by blast
    qed
  qed
qed

end
