(* ===== verification/Zlib_Control.thy ===== *)
theory Zlib_Control
  imports Zlib
begin

text \<open>
  The entry points of \<^verbatim>\<open>zlib_drv.c\<close>: the control interface \<^verbatim>\<open>zlib_ctl\<close>, data from Erlang, and stopping.
  The cases of the \<^verbatim>\<open>switch\<close> that only differ in the library function they call share a definition.
\<close>

section \<open>Requests\<close>

definition i32 :: "byte list \<Rightarrow> int" where
  "i32 buf = get_int32 buf"

abbreviation i32_at :: "nat \<Rightarrow> byte list \<Rightarrow> int" where
  "i32_at off buf \<equiv> i32 (drop off buf)"

definition badarg :: "emulator \<Rightarrow> int \<Rightarrow> 'z ZLibData \<Rightarrow> (reply, 'z ZLibData) outcome" where
  "badarg em rlen d = zlib_return em Z_ERRNO rlen (d\<lparr>zerrno := EINVAL\<rparr>)"

text \<open>The \<^verbatim>\<open>INIT\<close> requests: a library function that makes a stream ready for \<open>st\<close>.\<close>

definition ctl_init ::
  "emulator \<Rightarrow> 'z zlib \<Rightarrow> int \<Rightarrow> ZLibState \<Rightarrow> bool \<Rightarrow> ('z \<Rightarrow> int \<times> 'z) \<Rightarrow> 'z ZLibData \<Rightarrow>
     (reply, 'z ZLibData) outcome" where
  "ctl_init em zl rlen st wants f d =
     (if zstate d \<noteq> ST_NONE then badarg em rlen d
      else
        let (res, z) = f (zstrm d); d = d\<lparr>zstrm := z\<rparr>;
            d = (if res = Z_OK then d\<lparr>zstate := st, want_crc := wants, crc := zl_crc32 zl 0 []\<rparr> else d)
        in zlib_return em res rlen d)"

text \<open>A library function that takes no data and puts none out, in state \<open>st\<close>.\<close>

definition ctl_lib ::
  "emulator \<Rightarrow> int \<Rightarrow> ZLibState \<Rightarrow> ('z \<Rightarrow> int \<times> 'z) \<Rightarrow> 'z ZLibData \<Rightarrow> (reply, 'z ZLibData) outcome" where
  "ctl_lib em rlen st f d =
     (if zstate d \<noteq> st then badarg em rlen d
      else let (res, z) = f (zstrm d) in zlib_return em res rlen (d\<lparr>zstrm := z\<rparr>))"

text \<open>\<^verbatim>\<open>driver_deq\<close> of the whole queue: what \<^verbatim>\<open>next_in\<close> points to is gone.\<close>

definition drop_queue :: "emulator \<Rightarrow> 'z ZLibData \<Rightarrow> 'z ZLibData" where
  "drop_queue em d = (driver_deq (driver_sizeq em d) d)\<lparr>in_live := False\<rparr>"

definition ctl_reset ::
  "emulator \<Rightarrow> int \<Rightarrow> ZLibState \<Rightarrow> ('z \<Rightarrow> int \<times> 'z) \<Rightarrow> 'z ZLibData \<Rightarrow> (reply, 'z ZLibData) outcome" where
  "ctl_reset em rlen st f d =
     (if zstate d \<noteq> st then badarg em rlen d else ctl_lib em rlen st f (drop_queue em d))"

definition ctl_end ::
  "emulator \<Rightarrow> int \<Rightarrow> ZLibState \<Rightarrow> ('z \<Rightarrow> int \<times> 'z) \<Rightarrow> 'z ZLibData \<Rightarrow> (reply, 'z ZLibData) outcome" where
  "ctl_end em rlen st f d =
     (if zstate d \<noteq> st then badarg em rlen d
      else
        let d = drop_queue em d; (res, z) = f (zstrm d)
        in zlib_return em res rlen (d\<lparr>zstrm := z, zstate := ST_NONE\<rparr>))"

definition ctl_data ::
  "emulator \<Rightarrow> int \<Rightarrow> ZLibState \<Rightarrow> ('z ZLibData \<Rightarrow> (int, 'z ZLibData) outcome) \<Rightarrow> 'z ZLibData \<Rightarrow>
     (reply, 'z ZLibData) outcome" where
  "ctl_data em rlen st f d =
     (if zstate d \<noteq> st then badarg em rlen d
      else andthen (f d) (\<lambda>res d. zlib_return em res rlen d))"

definition ctl_set_bufsz ::
  "emulator \<Rightarrow> byte list \<Rightarrow> int \<Rightarrow> 'z ZLibData \<Rightarrow> (reply, 'z ZLibData) outcome" where
  "ctl_set_bufsz em buf rlen d =
     (let need = i32 buf in
      if need < 16 \<or> need > 0x00ffffff then badarg em rlen d
      else if binsz_need d = need then zlib_return em Z_OK rlen d
      else
        let d = d\<lparr>binsz_need := need\<rparr> in
        if zbin d = None then zlib_return em Z_OK rlen d
        else if avail_out d = binsz d then
          zlib_return em Z_OK rlen ((log_call FreeBinary d)\<lparr>zbin := None, binsz := 0\<rparr>)
        else andthen (zlib_output em d) (\<lambda>_ d. zlib_return em Z_OK rlen d))"

section \<open>The control interface\<close>

definition zlib_ctl ::
  "emulator \<Rightarrow> 'z zlib \<Rightarrow> nat \<Rightarrow> nat \<Rightarrow> byte list \<Rightarrow> int \<Rightarrow> 'z ZLibData \<Rightarrow> (reply, 'z ZLibData) outcome" where
  "zlib_ctl em zl fuel command buf rlen d =
     (let len = length buf; bad = badarg em rlen d in
      if command = 1 then
        if len \<noteq> 4 then bad else ctl_init em zl rlen ST_DEFLATE False (zl_deflateInit zl (i32 buf)) d
      else if command = 2 then
        if len \<noteq> 20 then bad
        else let wbits = i32_at 8 buf in
          ctl_init em zl rlen ST_DEFLATE (wbits < 0)
            (zl_deflateInit2 zl (i32 buf) (i32_at 4 buf) wbits (i32_at 12 buf) (i32_at 16 buf)) d
      else if command = 3 then ctl_lib em rlen ST_DEFLATE (zl_deflateSetDictionary zl buf) d
      else if command = 4 then if len \<noteq> 0 then bad else ctl_reset em rlen ST_DEFLATE (zl_deflateReset zl) d
      else if command = 5 then if len \<noteq> 0 then bad else ctl_end em rlen ST_DEFLATE (zl_deflateEnd zl) d
      else if command = 6 then
        if len \<noteq> 8 then bad
        else ctl_data em rlen ST_DEFLATE (zcall (zl_deflateParams zl (i32 buf) (i32_at 4 buf))) d
      else if command = 7 then
        if len \<noteq> 4 then bad else ctl_data em rlen ST_DEFLATE (zlib_deflate em zl fuel (i32 buf)) d
      else if command = 8 then if len \<noteq> 0 then bad else ctl_init em zl rlen ST_INFLATE False (zl_inflateInit zl) d
      else if command = 9 then
        if len \<noteq> 4 then bad
        else let wbits = i32 buf in ctl_init em zl rlen ST_INFLATE (wbits < 0) (zl_inflateInit2 zl wbits) d
      else if command = 10 then ctl_lib em rlen ST_INFLATE (zl_inflateSetDictionary zl buf) d
      else if command = 11 then if len \<noteq> 0 then bad else ctl_data em rlen ST_INFLATE (zcall (zl_inflateSync zl)) d
      else if command = 12 then if len \<noteq> 0 then bad else ctl_reset em rlen ST_INFLATE (zl_inflateReset zl) d
      else if command = 13 then if len \<noteq> 0 then bad else ctl_end em rlen ST_INFLATE (zl_inflateEnd zl) d
      else if command = 14 then
        if len \<noteq> 4 then bad else ctl_data em rlen ST_INFLATE (zlib_inflate em zl fuel (i32 buf)) d
      else if command = 20 then zlib_value (driver_sizeq em d) rlen d
      else if command = 19 then zlib_value (binsz_need d) rlen d
      else if command = 18 then if len \<noteq> 4 then bad else ctl_set_bufsz em buf rlen d
      else if command = 15 then zlib_value (uint (crc d)) rlen d
      else if command = 16 then zlib_value (uint (zl_crc32 zl (zl_crc32 zl 0 []) buf)) rlen d
      else if command = 17 then
        if len < 4 then bad else zlib_value (uint (zl_crc32 zl (word_of_int (i32 buf)) (drop 4 buf))) rlen d
      else bad)"

definition zlib_outputv :: "byte list \<Rightarrow> 'z ZLibData \<Rightarrow> 'z ZLibData" where
  "zlib_outputv ev d = log_call (Enqv ev) d"

definition zlib_stop :: "'z zlib \<Rightarrow> 'z ZLibData \<Rightarrow> 'z ZLibData" where
  "zlib_stop zl d =
     (let d = (if zstate d = ST_DEFLATE then d\<lparr>zstrm := snd (zl_deflateEnd zl (zstrm d))\<rparr>
               else if zstate d = ST_INFLATE then d\<lparr>zstrm := snd (zl_inflateEnd zl (zstrm d))\<rparr>
               else d);
          d = (if zbin d \<noteq> None then log_call FreeBinary d else d)
      in log_call FreeMem d)"

end
