(* ===== verification/Zlib_Service.thy ===== *)
theory Zlib_Service
  imports Zlib_Pump Zlib_Control
begin

text \<open>
  What the requests of the compression driver do: a request to deflate or to inflate works off the
  queue, and the control interface moves between three states.  A small library for evaluations.
\<close>

section \<open>Deflating and inflating\<close>

text \<open>
  What is documented of \<^verbatim>\<open>deflate\<close>.  The states \<open>ok flush\<close> are those in which it may be called with \<open>flush\<close>: a stream
  that has been initialised may be called with any; one that is being flushed, until it returns with room to spare,
  with the same again; one that is being finished with \<^verbatim>\<open>Z_FINISH\<close> only, and one that is finished is not among them.  Where
  a call that does not flush may be made it succeeds if there is input and room.  Nothing is said of a call that
  fails.  What is \<open>left\<close> to be put out depends on how the call flushes.
\<close>

definition deflate_ok :: "(int \<Rightarrow> 'z \<Rightarrow> bool) \<Rightarrow> ('z \<Rightarrow> byte list) \<Rightarrow> ('z \<Rightarrow> byte list) \<Rightarrow> (int \<Rightarrow> 'z \<Rightarrow> nat) \<Rightarrow> (int \<Rightarrow> 'z zcall) \<Rightarrow> bool" where
  "deflate_ok ok taken given left f \<longleftrightarrow>
     (\<forall>flush. stream_ok (ok flush) (\<lambda>_. False) taken given (left flush) flush (f flush)) \<and>
     (\<forall>flush z. ok Z_NO_FLUSH z \<longrightarrow> ok flush z) \<and>
     (\<forall>inp room z. ok Z_NO_FLUSH z \<and> inp \<noteq> [] \<and> 0 < room \<longrightarrow> fst (fst (f Z_NO_FLUSH inp room z)) = Z_OK)"

text \<open>
  And of \<^verbatim>\<open>inflate\<close>: the states \<open>ok\<close> are those of a stream that has been initialised, however it is called; \<open>asks\<close> tells whether the data
  taken so far asks for a dictionary, and only then does the library return \<^verbatim>\<open>Z_NEED_DICT\<close>.
\<close>

definition inflate_ok :: "('z \<Rightarrow> bool) \<Rightarrow> (byte list \<Rightarrow> bool) \<Rightarrow> ('z \<Rightarrow> byte list) \<Rightarrow> ('z \<Rightarrow> byte list) \<Rightarrow> (int \<Rightarrow> 'z \<Rightarrow> nat) \<Rightarrow>
    (int \<Rightarrow> 'z zcall) \<Rightarrow> bool" where
  "inflate_ok ok asks taken given left f \<longleftrightarrow> (\<forall>flush. stream_ok ok asks taken given (left flush) flush (f flush))"

lemma deflate_processed:
  assumes "deflate_ok ok taken given left (zl_deflate zl)" "good_env em zl" "can_work em d" "ok Z_NO_FLUSH (zstrm d)" "6 < binsz_need d"
  shows "\<exists>N res d'. (\<forall>n \<ge> N. zlib_deflate em zl n flush d = Inr (res, d')) \<and>
    (let Q = em_queue em (calls d) in
       fed False em zl taken given (length Q) (length Q) d d' \<and> (flush = Z_NO_FLUSH \<longrightarrow> res = Z_OK) \<and>
       (flush \<noteq> Z_NO_FLUSH \<and> 0 \<le> res \<longrightarrow> unsent d' = []))"
proof -
  let ?f = "zl_deflate zl"
  have f: "\<And>flush. stream_ok (ok flush) (\<lambda>_. False) taken given (left flush) flush (?f flush)"
    and ready: "\<And>flush z. ok Z_NO_FLUSH z \<Longrightarrow> ok flush z"
    using assms(1) by (simp_all add: deflate_ok_def)
  have none: "unasked (\<lambda>_. False) taken (zstrm d) (em_queue em (calls d))" by (simp add: unasked_def)
  obtain N res d' j k r where p: "\<forall>n \<ge> N. process False em zl ?f n flush d = Inr (res, d')"
    "process_done (ok Z_NO_FLUSH) False em zl taken given (?f Z_NO_FLUSH) flush d res d' j k r"
    using process_ends [where f = ?f, OF f assms(2-4) none assms(5) ready] by blast
  have "r = Z_OK" using p(2) assms(1) unfolding process_done_def result_of_def deflate_ok_def by auto
  then have k: "k = length (em_queue em (calls d))" "flush = Z_NO_FLUSH \<longrightarrow> res = Z_OK"
    "flush \<noteq> Z_NO_FLUSH \<and> 0 \<le> res \<longrightarrow> unsent d' = []"
    using p(2) by (simp_all add: process_done_def)
  moreover have "j = k" using p(2) k(1) by (simp add: process_done_def fed_def Let_def)
  ultimately show ?thesis using p unfolding zlib_deflate_process process_done_def Let_def by blast
qed

lemma inflate_processed:
  assumes "inflate_ok ok asks taken given left (zl_inflate zl)" "good_env em zl" "can_work em d" "ok (zstrm d)"
    and "unasked asks taken (zstrm d) (em_queue em (calls d))" "6 < binsz_need d"
  shows "\<exists>N res d' j k. (\<forall>n \<ge> N. zlib_inflate em zl n flush d = Inr (res, d')) \<and>
    fed True em zl taken given j k d d' \<and>
    (flush = Z_NO_FLUSH \<and> 0 \<le> res \<longrightarrow> res = Z_STREAM_END \<or> em_queue em (calls d') = []) \<and>
    (flush \<noteq> Z_NO_FLUSH \<and> 0 \<le> res \<longrightarrow> unsent d' = [])"
proof -
  let ?f = "zl_inflate zl"
  have f: "\<And>flush. stream_ok ok asks taken given (left flush) flush (?f flush)"
    using assms(1) by (simp add: inflate_ok_def)
  obtain N res d' j k r where p: "\<forall>n \<ge> N. process True em zl ?f n flush d = Inr (res, d')"
    "process_done ok True em zl taken given (?f Z_NO_FLUSH) flush d res d' j k r"
    using process_ends [where f = ?f and ok = "\<lambda>_. ok", OF f assms(2-6)] by blast
  have fed: "fed True em zl taken given j k d d'" using p(2) by (simp add: process_done_def)
  have "flush = Z_NO_FLUSH \<and> 0 \<le> res \<longrightarrow> res = Z_STREAM_END \<or> em_queue em (calls d') = []"
    "flush \<noteq> Z_NO_FLUSH \<and> 0 \<le> res \<longrightarrow> unsent d' = []"
    using p(2) by (auto simp: process_done_def fed_def Let_def split: if_splits)
  then show ?thesis using p(1) fed unfolding zlib_inflate_process by blast
qed

section \<open>A stream that needs a dictionary\<close>

lemma block_stuck:
  assumes "\<And>inp room. zl_inflate zl Z_NO_FLUSH inp room (zstrm d) = ((Z_NEED_DICT, 0, []), zstrm d)"
    and "out_inv d" "0 < avail_out d" "next_in d \<noteq> []" "in_live d" "res \<noteq> Z_STREAM_END"
  shows "inflate_block em zl n res d = Inl Diverges"
  using assms(6)
proof (induction n arbitrary: res)
  case (Suc n)
  obtain b where b: "zbin d = Some b" "binsz d = int (length b)" "avail_out d \<le> binsz d"
    using assms(2) by (auto simp: out_inv_def split: option.splits)
  have "zcall (zl_inflate zl Z_NO_FLUSH) d = Inr (Z_NEED_DICT, d)"
    using assms(3-5) b by (simp add: zcall_def assms(1) writing_def put_at_def)
  then show ?case using Suc assms(3,4) by simp
qed simp

lemma inflate_stuck:
  assumes "\<And>inp room. zl_inflate zl Z_NO_FLUSH inp room (zstrm d) = ((Z_NEED_DICT, 0, []), zstrm d)"
    and "good_env em zl" "can_work em d" "em_queue em (calls d) \<noteq> []"
  shows "zlib_inflate em zl n flush d = Inl Diverges"
proof -
  obtain d0 where d0: "(if zbin d = None then zlib_output_init em d else (0, d)) = (0, d0)" "out_inv d0"
    "0 < avail_out d0" "zstrm d0 = zstrm d" "em_queue em (calls d0) = em_queue em (calls d)"
  proof (cases "zbin d = None")
    case True
    have "0 < binsz_need d" using assms(3) by (simp add: can_work_def)
    then show ?thesis using output_init_fed [OF assms(2) True, of False "\<lambda>_. []" "\<lambda>_. []"] True that assms(2)
      by (fastforce simp: zlib_output_init_def driver_alloc_binary_def Let_def good_env_def)
  next
    case False
    then show ?thesis using assms(3) that [of d] by (auto simp: can_work_def)
  qed
  let ?d1 = "snd (next_block em zl d0)"
  have d1: "out_inv ?d1" "0 < avail_out ?d1" "next_in ?d1 \<noteq> []" "in_live ?d1" "zstrm ?d1 = zstrm d"
    using d0 assms(2,4) by (simp_all add: next_block_def Let_def out_inv_upd good_env_def)
  have "inflate_queue em zl n Z_OK d0 = Inl Diverges"
  proof (cases n)
    case (Suc m)
    have "inflate_block em zl m Z_OK ?d1 = Inl Diverges"
      by (rule block_stuck) (use assms(1) d1 in simp_all)
    then show ?thesis using Suc d0(5) assms(4) by (simp add: case_prod_unfold driver_sizeq_def)
  qed simp
  then show ?thesis using d0(1) by (simp add: zlib_inflate_def)
qed

section \<open>The states of a stream\<close>

text \<open>Working on the queue does not change the state.\<close>

lemma run_ok_crc_output: "(\<And>d'. zstate d' = zstate d \<Longrightarrow> Q () d') \<Longrightarrow> run_ok UNIV Q (crc_output zl d)"
  by (auto simp: crc_output_def deref_def reading_def split: option.split)

lemma run_ok_zlib_output: "(\<And>r d'. zstate d' = zstate d \<Longrightarrow> Q r d') \<Longrightarrow> run_ok UNIV Q (zlib_output em d)"
  by (auto simp: zlib_output_def zlib_output_init_def driver_alloc_binary_def driver_call_def reading_def Let_def
      split: option.split)

lemma run_ok_zcall: "(\<And>r d'. zstate d' = zstate d \<Longrightarrow> Q r d') \<Longrightarrow> run_ok UNIV Q (zcall f d)"
  by (auto simp: zcall_def writing_def Let_def split: option.split prod.split)

abbreviation keeps_zstate :: "ZLibState \<Rightarrow> ('a, 'z ZLibData) outcome \<Rightarrow> bool" where
  "keeps_zstate st m \<equiv> run_ok UNIV (\<lambda>_ d'. zstate d' = st) m"

lemma keeps_zstateD: "keeps_zstate st m \<Longrightarrow> (\<And>r d'. zstate d' = st \<Longrightarrow> Q r d') \<Longrightarrow> run_ok UNIV Q m"
  by (auto elim: run_ok_mono)

lemma keeps_block_step: "zstate d = st \<Longrightarrow> keeps_zstate st (block_step oc em zl f d)"
  by (auto simp: block_step_def emit_def intro!: run_ok_zcall run_ok_zlib_output run_ok_crc_output)

lemma keeps_pump: "zstate d = st \<Longrightarrow> keeps_zstate st (pump (block_step oc em zl f) n res d)"
  by (induction n arbitrary: res d) (auto intro!: keeps_zstateD [OF keeps_block_step])

lemma keeps_pump_queue: "zstate d = st \<Longrightarrow> keeps_zstate st (pump_queue oc em zl (block_step oc em zl f) n res d)"
proof (induction n arbitrary: res d)
  case (Suc n)
  have "zstate (snd (next_block em zl d)) = st" using Suc.prems by (simp add: next_block_def Let_def)
  then show ?case using Suc
    by (auto simp: case_prod_unfold Let_def driver_deq_def intro!: keeps_zstateD [OF keeps_pump])
qed simp

lemma keeps_pump_flush: "zstate d = st \<Longrightarrow> keeps_zstate st (pump_flush oc em zl f n res d)"
  by (induction n arbitrary: res d)
     (auto simp: emit_def intro!: run_ok_zcall run_ok_zlib_output run_ok_crc_output)

lemma keeps_process: "zstate d = st \<Longrightarrow> keeps_zstate st (process oc em zl f n flush d)"
  by (auto simp: process_def zlib_output_init_def driver_alloc_binary_def case_prod_unfold Let_def
      intro!: run_ok_zcall keeps_zstateD [OF keeps_pump_queue] keeps_pump_flush)

text \<open>
  The contract: which requests a stream accepts in a state, and the state after one that was accepted,
  given whether the library returned \<^verbatim>\<open>Z_OK\<close>.
\<close>

definition zlib_accepts :: "ZLibState \<Rightarrow> nat \<Rightarrow> byte list \<Rightarrow> bool" where
  "zlib_accepts st cmd buf \<longleftrightarrow>
     (case st of
        ST_NONE \<Rightarrow> (cmd, length buf) \<in> {(1, 4), (2, 20), (8, 0), (9, 4)}
      | ST_DEFLATE \<Rightarrow> cmd = 3 \<or> (cmd, length buf) \<in> {(4, 0), (5, 0), (6, 8), (7, 4)}
      | ST_INFLATE \<Rightarrow> cmd = 10 \<or> (cmd, length buf) \<in> {(11, 0), (12, 0), (13, 0), (14, 4)}) \<or>
     cmd \<in> {15, 16, 19, 20} \<or> cmd = 17 \<and> 4 \<le> length buf \<or>
     cmd = 18 \<and> length buf = 4 \<and> 16 \<le> i32 buf \<and> i32 buf \<le> 0x00ffffff"

definition zlib_next :: "ZLibState \<Rightarrow> nat \<Rightarrow> bool \<Rightarrow> ZLibState" where
  "zlib_next st cmd ok =
     (if cmd \<in> {1, 2} then (if ok then ST_DEFLATE else ST_NONE)
      else if cmd \<in> {8, 9} then (if ok then ST_INFLATE else ST_NONE)
      else if cmd \<in> {5, 13} then ST_NONE
      else st)"

text \<open>The answer \<^verbatim>\<open>ok\<close>: the byte 0 and the two letters.\<close>

definition ok_reply :: "reply \<Rightarrow> bool" where
  "ok_reply r \<longleftrightarrow> snd r = [0, 111, 107]"

lemma run_ok_zlib_return:
  assumes "3 \<le> rlen" "\<And>r. ok_reply r \<longleftrightarrow> code = Z_OK \<Longrightarrow> Q r d"
  shows "run_ok UNIV Q (zlib_return em code rlen d)"
proof -
  obtain n where n: "rlen = 3 + int n" using assms(1) by (metis zle_iff_zadd)
  then have t: "nat (rlen - 1) = Suc (Suc n)" by simp
  show ?thesis using assms
    by (auto simp: zlib_return_def zlib_reason_def case_prod_unfold Let_def t ok_reply_def intro!: assms(2))
qed

lemma run_ok_zlib_value: "(\<And>r. Q r d) \<Longrightarrow> run_ok UNIV Q (zlib_value v rlen d)"
  by (simp add: zlib_value_def)

lemma command_cases:
  obtains "cmd = 1" | "cmd = 2" | "cmd = 3" | "cmd = 4" | "cmd = 5" | "cmd = 6" | "cmd = 7" | "cmd = 8" | "cmd = 9"
    | "cmd = 10" | "cmd = 11" | "cmd = 12" | "cmd = 13" | "cmd = 14" | "cmd = 15" | "cmd = 16" | "cmd = 17"
    | "cmd = 18" | "cmd = 19" | "cmd = 20" | "cmd \<notin> {1, 2, 3, 4, 5, 6, 7, 8, 9, 10, 11, 12, 13, 14, 15, 16, 17, 18, 19, 20 :: nat}"
  by blast

lemma zlib_ctl_refused:
  assumes "\<not> zlib_accepts (zstate d) cmd buf"
  shows "zlib_ctl em zl fuel cmd buf rlen d = badarg em rlen d"
  using assms
  by (cases cmd rule: command_cases; cases "zstate d")
     (simp_all add: zlib_accepts_def zlib_ctl_def ctl_init_def ctl_lib_def ctl_reset_def ctl_end_def ctl_data_def
        ctl_set_bufsz_def not_le not_less Let_def)

lemma zlib_ctl_next:
  assumes "3 \<le> rlen" "zlib_accepts (zstate d) cmd buf"
  shows "run_ok UNIV (\<lambda>r d'. zstate d' = zlib_next (zstate d) cmd (ok_reply r)) (zlib_ctl em zl fuel cmd buf rlen d)"
  using assms(2)
  by (cases cmd rule: command_cases; cases "zstate d")
     (simp_all add: zlib_accepts_def zlib_ctl_def ctl_init_def ctl_lib_def ctl_reset_def ctl_end_def ctl_data_def
        ctl_set_bufsz_def drop_queue_def driver_deq_def zlib_next_def not_le not_less Let_def case_prod_unfold
        zlib_deflate_process zlib_inflate_process,
      auto intro!: run_ok_zlib_return [OF assms(1)] run_ok_zlib_value run_ok_zcall run_ok_zlib_output
        keeps_zstateD [OF keeps_process])

section \<open>A library for evaluations\<close>

text \<open>
  The stream holds the bytes taken and those given; it copies its input while there is room.  The
  checksum adds up the bytes.
\<close>

type_synonym copier = "byte list \<times> byte list"

definition copy_call :: "int \<Rightarrow> copier zcall" where
  "copy_call flush inp room st =
     (let out = take (nat room) inp;
          res = (if flush = 4 \<and> length inp \<le> nat room \<and> 0 < room then Z_STREAM_END
                 else if out = [] then Z_BUF_ERROR else Z_OK)
      in ((res, length out, out), (fst st @ out, snd st @ out)))"

definition demo_zlib :: "copier zlib" where
  "demo_zlib =
     \<lparr>zl_zero = ([], []), zl_deflate = copy_call, zl_inflate = copy_call,
      zl_deflateParams = (\<lambda>_ _. copy_call 0), zl_inflateSync = copy_call 0,
      zl_deflateInit = (\<lambda>_ z. (0, z)), zl_deflateInit2 = (\<lambda>_ _ _ _ _ z. (0, z)),
      zl_inflateInit = (\<lambda>z. (0, z)), zl_inflateInit2 = (\<lambda>_ z. (0, z)),
      zl_deflateSetDictionary = (\<lambda>_ z. (0, z)), zl_inflateSetDictionary = (\<lambda>_ z. (0, z)),
      zl_deflateReset = (\<lambda>z. (0, ([], []))), zl_inflateReset = (\<lambda>z. (0, ([], []))),
      zl_deflateEnd = (\<lambda>z. (0, z)), zl_inflateEnd = (\<lambda>z. (0, z)),
      zl_crc32 = (\<lambda>c bs. fold (\<lambda>b c. c + ucast b) bs c), zl_iov0 = (\<lambda>_. 6)\<rparr>"

definition demo_stream :: "byte list \<Rightarrow> ZLibState \<Rightarrow> copier ZLibData" where
  "demo_stream q st =
     \<lparr>calls = [Enqv q], zstrm = ([], []), next_in = [], in_live = False, avail_out = 0, zstate = st,
      zbin = None, binsz = 0, binsz_need = 4, crc = 0, want_crc = True, zerrno = EINVAL\<rparr>"

text \<open>It asks for a dictionary as a stream does, with the sixth bit of the second byte.\<close>

lemma copy_call_ok: "stream_ok (\<lambda>_. True) asks fst snd (\<lambda>_. 0) flush (copy_call flush)"
  by (auto simp: stream_ok_def copy_call_def Let_def min_def split: if_splits)

lemma demo_zlib_ok:
  "deflate_ok (\<lambda>_ _. True) fst snd (\<lambda>_ _. 0) (zl_deflate demo_zlib)"
  "inflate_ok (\<lambda>_. True) (\<lambda>bs. 1 < length bs \<and> bit (bs ! 1) 5) fst snd (\<lambda>_ _. 0) (zl_inflate demo_zlib)"
  "good_env demo_emulator demo_zlib" "can_work demo_emulator (demo_stream (a # q) st)"
  using copy_call_ok replayed.driver_queue_axioms
  by (auto simp: deflate_ok_def inflate_ok_def demo_zlib_def good_env_def crc_ok_def can_work_def demo_stream_def
      copy_call_def Let_def)

end
