(* ===== verification/Unixdom.thy ===== *)
theory Unixdom
  imports Driver_Api
begin

text \<open>
  The Unix domain socket driver (\<^verbatim>\<open>unixdom/c_src/unixdom_drv.c\<close>): its data, its messages and its
  data path.  The driver keeps one descriptor per port in a table that all ports share, since an
  accepting port changes the descriptor of the port it accepts from; so the state is that table,
  a descriptor is named by its index, and the log records which port each call is made for.  The
  operating system and the emulator are the parameter \<open>sockets\<close>, whose fields are functions of
  the log.  The sizes are those of a 64-bit Linux: an \<^verbatim>\<open>unsigned long\<close> has 64 bits and an \<^verbatim>\<open>errno\<close>
  has its Linux number.
\<close>

section \<open>Calls and parameters\<close>

datatype ud_call =
    Drv call
  | PortExit int                       \<comment> \<open>\<^verbatim>\<open>driver_exit(port, err)\<close>\<close>
  | SelectEv int "32 word" bool        \<comment> \<open>\<^verbatim>\<open>driver_select(port, event, flags, onoff)\<close>\<close>
  | SkSocket
  | SkConnect int "byte list"
  | SkBind int "byte list"
  | SkListen int int
  | SkAccept int
  | SkPeer int
  | SkSendv int "byte list"
  | SkWrite int "byte list"
  | SkRecv int int
  | SkNonblock int
  | SkClose int

type_synonym ulog = "(int \<times> ud_call) list"

record sockets =
  so_alloc :: "ulog \<Rightarrow> bool"                \<comment> \<open>does the allocation just called succeed\<close>
  so_junk :: "ulog \<Rightarrow> nat \<Rightarrow> byte"         \<comment> \<open>memory not yet written\<close>
  so_queue :: "call list \<Rightarrow> byte list"      \<comment> \<open>a port's queue, after the port's driver calls\<close>
  so_window :: "ulog \<Rightarrow> nat"                \<comment> \<open>bytes in the first 16 elements of the queue\<close>
  so_ok :: "ulog \<Rightarrow> bool"                   \<comment> \<open>do \<^verbatim>\<open>connect\<close>, \<^verbatim>\<open>bind\<close>, \<^verbatim>\<open>listen\<close>, \<^verbatim>\<open>getpeername\<close> succeed\<close>
  so_fd :: "ulog \<Rightarrow> int"                    \<comment> \<open>the result of \<^verbatim>\<open>socket\<close> and \<^verbatim>\<open>accept\<close>\<close>
  so_count :: "ulog \<Rightarrow> int"                 \<comment> \<open>the result of \<^verbatim>\<open>writev\<close> and \<^verbatim>\<open>write\<close>\<close>
  so_bytes :: "ulog \<Rightarrow> byte list option"    \<comment> \<open>what \<^verbatim>\<open>recv\<close> returns, if it succeeds\<close>
  so_errno :: "ulog \<Rightarrow> int"                 \<comment> \<open>\<^verbatim>\<open>errno\<close> after a call that failed\<close>
  so_id :: "int \<Rightarrow> string"                  \<comment> \<open>\<^verbatim>\<open>erl_errno_id\<close>\<close>
  so_atom :: "int \<Rightarrow> string"                \<comment> \<open>the atom with this number\<close>
  so_lsb :: bool                            \<comment> \<open>is the machine little-endian\<close>
  so_avg :: "64 word \<Rightarrow> int \<Rightarrow> 64 word \<Rightarrow> 64 word"
    \<comment> \<open>\<open>avg + (len - avg) / n\<close> on doubles\<close>
  so_dvi :: "64 word \<Rightarrow> int \<Rightarrow> 64 word \<Rightarrow> 64 word \<Rightarrow> 64 word"
    \<comment> \<open>\<open>dvi + ((len - avg) - dvi) / n\<close> on doubles\<close>

abbreviation (input) U_EINTR :: int where "U_EINTR \<equiv> 4"
abbreviation (input) U_EBADF :: int where "U_EBADF \<equiv> 9"
abbreviation (input) U_EAGAIN :: int where "U_EAGAIN \<equiv> 11"
abbreviation (input) U_ENOMEM :: int where "U_ENOMEM \<equiv> 12"
abbreviation (input) U_EINVAL :: int where "U_EINVAL \<equiv> 22"
abbreviation (input) U_EPIPE :: int where "U_EPIPE \<equiv> 32"
abbreviation (input) U_EOVERFLOW :: int where "U_EOVERFLOW \<equiv> 75"
abbreviation (input) U_ECONNRESET :: int where "U_ECONNRESET \<equiv> 104"
abbreviation (input) U_EISCONN :: int where "U_EISCONN \<equiv> 106"
abbreviation (input) U_ENOTCONN :: int where "U_ENOTCONN \<equiv> 107"
abbreviation (input) U_EINPROGRESS :: int where "U_EINPROGRESS \<equiv> 115"

section \<open>Descriptors\<close>

abbreviation (input) F_OPEN :: "32 word" where "F_OPEN \<equiv> 0x0001"
abbreviation (input) F_BOUND :: "32 word" where "F_BOUND \<equiv> 0x0002"
abbreviation (input) F_ACTIVE :: "32 word" where "F_ACTIVE \<equiv> 0x0004"
abbreviation (input) F_LISTEN :: "32 word" where "F_LISTEN \<equiv> 0x0008"
abbreviation (input) F_CON :: "32 word" where "F_CON \<equiv> 0x0010"
abbreviation (input) F_ACC :: "32 word" where "F_ACC \<equiv> 0x0020"
abbreviation (input) F_LST :: "32 word" where "F_LST \<equiv> 0x0040"
abbreviation (input) F_BUSY :: "32 word" where "F_BUSY \<equiv> 0x0080"

definition STATE_CLOSED :: "32 word" where "STATE_CLOSED = 0"
definition STATE_OPEN :: "32 word" where "STATE_OPEN = F_OPEN"
definition STATE_BOUND :: "32 word" where "STATE_BOUND = STATE_OPEN OR F_BOUND"
definition STATE_CONNECTED :: "32 word" where "STATE_CONNECTED = STATE_BOUND OR F_ACTIVE"
definition STATE_CONNECTING :: "32 word" where "STATE_CONNECTING = STATE_BOUND OR F_CON"
definition STATE_ACCEPTING :: "32 word" where "STATE_ACCEPTING = F_ACC"
definition STATE_LISTEN :: "32 word" where "STATE_LISTEN = STATE_BOUND OR F_LISTEN"
definition STATE_LISTENING :: "32 word" where "STATE_LISTENING = STATE_LISTEN OR F_LST"

lemmas ud_states = STATE_CLOSED_def STATE_OPEN_def STATE_BOUND_def STATE_CONNECTED_def
  STATE_CONNECTING_def STATE_ACCEPTING_def STATE_LISTEN_def STATE_LISTENING_def

abbreviation (input) FD_READ :: "32 word" where "FD_READ \<equiv> 1"
abbreviation (input) FD_WRITE :: "32 word" where "FD_WRITE \<equiv> 2"
abbreviation (input) FD_CLOSE :: "32 word" where "FD_CLOSE \<equiv> 0"
abbreviation (input) FD_CONNECT :: "32 word" where "FD_CONNECT \<equiv> 2"
abbreviation (input) FD_ACCEPT :: "32 word" where "FD_ACCEPT \<equiv> 1"
abbreviation (input) UD_SOCK_STREAM :: int where "UD_SOCK_STREAM \<equiv> 1"
abbreviation (input) UD_MAX_BUFSIZ :: int where "UD_MAX_BUFSIZ \<equiv> 65536"
abbreviation (input) UD_INFINITY :: "64 word" where "UD_INFINITY \<equiv> 0xffffffff"
abbreviation (input) MAX_VSIZE :: nat where "MAX_VSIZE \<equiv> 16"

text \<open>
  The pointer \<^verbatim>\<open>i_bufp\<close> is NULL or, while there is an \<^verbatim>\<open>i_buf\<close>, points to its first byte;
  \<open>ud_i_bufp\<close> says whether it is not NULL.  Doubles are their bit patterns.
\<close>

record descriptor =
  ud_s :: int
  ud_event :: int
  ud_event_mask :: "32 word"
  ud_port :: int
  ud_state :: "32 word"
  ud_prebound :: int
  ud_mode :: int
  ud_exitf :: int
  ud_active :: int
  ud_stype :: int
  ud_htype :: int
  ud_ix :: int
  ud_backlog :: int
  ud_bufsz :: int
  ud_i_buf :: "binary option"
  ud_i_bufsz :: int
  ud_i_bufp :: bool
  ud_low :: int
  ud_high :: int
  ud_send_timeout :: int
  ud_busy_on_send :: int
  ud_i_ix :: int
  ud_recv_oct0 :: "64 word"
  ud_recv_oct1 :: "64 word"
  ud_recv_cnt :: "64 word"
  ud_recv_max :: "64 word"
  ud_recv_avg :: "64 word"
  ud_recv_dvi :: "64 word"
  ud_send_oct0 :: "64 word"
  ud_send_oct1 :: "64 word"
  ud_send_cnt :: "64 word"
  ud_send_max :: "64 word"
  ud_send_avg :: "64 word"

record unixdom =
  desc_table :: "descriptor option list"
  desc_ix :: nat
  uerrno :: int
  ulog :: ulog

definition UD_IS_OPEN :: "descriptor \<Rightarrow> bool" where
  "UD_IS_OPEN d \<longleftrightarrow> ud_state d AND F_OPEN = F_OPEN"

definition UD_IS_BOUND :: "descriptor \<Rightarrow> bool" where
  "UD_IS_BOUND d \<longleftrightarrow> ud_state d AND F_BOUND = F_BOUND"

definition UD_IS_CONNECTED :: "descriptor \<Rightarrow> bool" where
  "UD_IS_CONNECTED d \<longleftrightarrow> ud_state d AND STATE_CONNECTED = STATE_CONNECTED"

definition UD_IS_CONNECTING :: "descriptor \<Rightarrow> bool" where
  "UD_IS_CONNECTING d \<longleftrightarrow> ud_state d AND F_CON = F_CON"

definition UD_IS_BUSY :: "descriptor \<Rightarrow> bool" where
  "UD_IS_BUSY d \<longleftrightarrow> ud_state d AND F_BUSY = F_BUSY"

text \<open>
  \<open>dsc s i\<close> is the descriptor at index \<open>i\<close> and \<open>upd i f s\<close> changes it; they are used where the
  code holds a pointer to it, and \<open>desc_at\<close> is the access to the table by an index, which must
  lie within it.
\<close>

definition dsc :: "unixdom \<Rightarrow> nat \<Rightarrow> descriptor" where
  "dsc s i = the (desc_table s ! i)"

definition upd :: "nat \<Rightarrow> (descriptor \<Rightarrow> descriptor) \<Rightarrow> unixdom \<Rightarrow> unixdom" where
  "upd i f s = s\<lparr>desc_table := (desc_table s)[i := Some (f (dsc s i))]\<rparr>"

definition desc_at :: "unixdom \<Rightarrow> int \<Rightarrow> (nat option \<Rightarrow> fault + 'a) \<Rightarrow> fault + 'a" where
  "desc_at s ix k =
     (if 0 \<le> ix \<and> ix < int (length (desc_table s)) then
        k (if desc_table s ! nat ix = None then None else Some (nat ix))
      else Inl OutOfBounds)"

definition pcall :: "nat \<Rightarrow> ud_call \<Rightarrow> unixdom \<Rightarrow> unixdom" where
  "pcall i c s = s\<lparr>ulog := (ud_port (dsc s i), c) # ulog s\<rparr>"

text \<open>A system call: if it fails, it sets \<^verbatim>\<open>errno\<close>.\<close>

definition sys_call :: "sockets \<Rightarrow> nat \<Rightarrow> ud_call \<Rightarrow> (ulog \<Rightarrow> bool) \<Rightarrow> unixdom \<Rightarrow> unixdom" where
  "sys_call sk i c ok s =
     (let s = pcall i c s in if ok (ulog s) then s else s\<lparr>uerrno := so_errno sk (ulog s)\<rparr>)"

definition sock_select :: "nat \<Rightarrow> 32 word \<Rightarrow> bool \<Rightarrow> unixdom \<Rightarrow> unixdom" where
  "sock_select i flags on s =
     (let s = upd i (\<lambda>d. d\<lparr>ud_event_mask := if on then ud_event_mask d OR flags
                             else ud_event_mask d AND NOT flags\<rparr>) s
      in pcall i (SelectEv (ud_event (dsc s i)) flags on) s)"

text \<open>The driver calls made for a port, and its queue.\<close>

fun port_calls :: "int \<Rightarrow> ulog \<Rightarrow> call list" where
  "port_calls p [] = []"
| "port_calls p ((q, Drv c) # h) = (if q = p then c # port_calls p h else port_calls p h)"
| "port_calls p (x # h) = port_calls p h"

definition ud_queue :: "sockets \<Rightarrow> nat \<Rightarrow> unixdom \<Rightarrow> byte list" where
  "ud_queue sk i s = so_queue sk (port_calls (ud_port (dsc s i)) (ulog s))"

definition ud_deq :: "nat \<Rightarrow> int \<Rightarrow> unixdom \<Rightarrow> unixdom" where
  "ud_deq i n s = pcall i (Drv (Deq n)) s"

definition ud_sizeq :: "sockets \<Rightarrow> nat \<Rightarrow> unixdom \<Rightarrow> int" where
  "ud_sizeq sk i s = int (length (ud_queue sk i s))"

section \<open>Messages to the owner of a port\<close>

definition ud_output_term :: "nat \<Rightarrow> titem list \<Rightarrow> unixdom \<Rightarrow> unixdom" where
  "ud_output_term i spec s = pcall i (Drv (OutputTerm spec)) s"

definition ud_reply_ok :: "nat \<Rightarrow> unixdom \<Rightarrow> unixdom" where
  "ud_reply_ok i s =
     ud_output_term i [TAtom ''unixdom_reply'', TPort, TAtom ''ok'', TTuple 3] s"

definition ud_reply_closed :: "nat \<Rightarrow> unixdom \<Rightarrow> unixdom" where
  "ud_reply_closed i s = ud_output_term i [TAtom ''closed'', TPort, TTuple 2] s"

definition ud_reply_error_am :: "nat \<Rightarrow> string \<Rightarrow> unixdom \<Rightarrow> unixdom" where
  "ud_reply_error_am i reason s =
     ud_output_term i
       [TAtom ''unixdom_reply'', TPort, TAtom ''error'', TAtom reason, TTuple 2, TTuple 3] s"

definition ud_error_atom :: "sockets \<Rightarrow> int \<Rightarrow> string" where
  "ud_error_atom sk err = map to_lower (so_id sk err)"

definition ud_reply_data :: "nat \<Rightarrow> int \<Rightarrow> unixdom \<Rightarrow> (int, unixdom) outcome" where
  "ud_reply_data i nbytes s =
     deref (ud_i_buf (dsc s i)) (\<lambda>b. reading (orig_bytes b) 0 nbytes (\<lambda>bs.
       let s = ud_output_term i [TAtom ''unixdom'', TPort, TBinary bs, TTuple 3] s;
           s = pcall i (Drv FreeBinary) s
       in Inr (nbytes, upd i (\<lambda>d. d\<lparr>ud_i_buf := None\<rparr>) s)))"

section \<open>Closing and clearing\<close>

definition desc_close :: "nat \<Rightarrow> unixdom \<Rightarrow> unixdom" where
  "desc_close i s =
     (if ud_s (dsc s i) \<noteq> -1 then
        let s = sock_select i (FD_READ OR FD_WRITE OR FD_CLOSE) False s;
            s = pcall i (SkClose (ud_s (dsc s i))) s
        in upd i (\<lambda>d. d\<lparr>ud_s := -1, ud_event := -1, ud_event_mask := 0\<rparr>) s
      else s)"

definition clear_input :: "nat \<Rightarrow> unixdom \<Rightarrow> unixdom" where
  "clear_input i s =
     (let s = (if ud_i_buf (dsc s i) \<noteq> None then pcall i (Drv FreeBinary) s else s)
      in upd i (\<lambda>d. d\<lparr>ud_i_buf := None, ud_i_bufp := False, ud_i_bufsz := 0\<rparr>) s)"

definition clear_output :: "sockets \<Rightarrow> nat \<Rightarrow> unixdom \<Rightarrow> unixdom" where
  "clear_output sk i s = ud_deq i (ud_sizeq sk i s) s"

definition unixdom_close :: "nat \<Rightarrow> unixdom \<Rightarrow> unixdom" where
  "unixdom_close i s =
     (if ud_prebound (dsc s i) = 0 \<and> ud_state (dsc s i) AND F_OPEN \<noteq> 0 then
        upd i (\<lambda>d. d\<lparr>ud_state := STATE_CLOSED\<rparr>) (desc_close i s)
      else s)"

definition ud_set_busy :: "nat \<Rightarrow> bool \<Rightarrow> unixdom \<Rightarrow> unixdom" where
  "ud_set_busy i on s =
     (if on then pcall i (Drv (SetBusy 1)) (upd i (\<lambda>d. d\<lparr>ud_state := ud_state d OR F_BUSY\<rparr>) s)
      else pcall i (Drv (SetBusy 0)) (upd i (\<lambda>d. d\<lparr>ud_state := ud_state d AND NOT F_BUSY\<rparr>) s))"

definition ud_exit_or_close :: "nat \<Rightarrow> int \<Rightarrow> unixdom \<Rightarrow> unixdom" where
  "ud_exit_or_close i err s =
     (if ud_exitf (dsc s i) \<noteq> 0 then pcall i (PortExit err) s else desc_close i s)"

text \<open>\<^verbatim>\<open>reply_error\<close> takes the error from \<^verbatim>\<open>errno\<close>: its second argument is not used.\<close>

definition ud_reply_error :: "sockets \<Rightarrow> nat \<Rightarrow> int \<Rightarrow> unixdom \<Rightarrow> unixdom" where
  "ud_reply_error sk i err s =
     (let s = (if UD_IS_BUSY (dsc s i) then
                 ud_set_busy i False
                   (if ud_busy_on_send (dsc s i) \<noteq> 0 then
                      upd i (\<lambda>d. d\<lparr>ud_busy_on_send := 0\<rparr>) (pcall i (Drv CancelTimer) s)
                    else s)
               else s);
          s = sys_call sk i (SkPeer (ud_s (dsc s i))) (so_ok sk) s
      in if \<not> so_ok sk (ulog s) \<and> (uerrno s = U_ENOTCONN \<or> uerrno s = U_EPIPE) then
           if ud_active (dsc s i) \<noteq> 0 then
             ud_exit_or_close i 0 (ud_reply_error_am i ''closed'' (ud_reply_closed i s))
           else
             ud_reply_error_am i ''closed'' (unixdom_close i (clear_output sk i s))
         else ud_reply_error_am i (ud_error_atom sk (uerrno s)) s)"

section \<open>Statistics\<close>

definition ud_input_count :: "sockets \<Rightarrow> int \<Rightarrow> descriptor \<Rightarrow> descriptor" where
  "ud_input_count sk len d =
     (let n = ud_recv_cnt d + 1; t = ud_recv_oct0 d + word_of_int len;
          c = (if t < ud_recv_oct0 d then 1 else 0); avg = ud_recv_avg d;
          d = d\<lparr>ud_recv_oct0 := t, ud_recv_oct1 := ud_recv_oct1 d + c\<rparr>;
          n = (if n = 0 then 1 else n);
          avg = so_avg sk avg len n;
          d = d\<lparr>ud_recv_avg := avg\<rparr>;
          d = (if word_of_int len > ud_recv_max d then d\<lparr>ud_recv_max := word_of_int len\<rparr> else d);
          dvi = ud_recv_dvi d;
          d = d\<lparr>ud_recv_dvi := so_dvi sk dvi len avg n\<rparr>
      in d\<lparr>ud_recv_cnt := n\<rparr>)"

definition ud_output_count :: "sockets \<Rightarrow> int \<Rightarrow> descriptor \<Rightarrow> descriptor" where
  "ud_output_count sk len d =
     (let n = ud_send_cnt d + 1; t = ud_send_oct0 d + word_of_int len;
          c = (if t < ud_send_oct0 d then 1 else 0); avg = ud_send_avg d;
          d = d\<lparr>ud_send_oct0 := t, ud_send_oct1 := ud_send_oct1 d + c\<rparr>;
          n = (if n = 0 then 1 else n);
          d = d\<lparr>ud_send_avg := so_avg sk avg len n\<rparr>;
          d = (if word_of_int len > ud_send_max d then d\<lparr>ud_send_max := word_of_int len\<rparr> else d)
      in d\<lparr>ud_send_cnt := n\<rparr>)"

section \<open>Writing\<close>

text \<open>
  An \<^verbatim>\<open>ErlIOVec\<close> is the list of its blocks; \<^verbatim>\<open>writev\<close> is given at most 16 of them.
  \<^verbatim>\<open>driver_enqv(ix, ev, n)\<close> puts all but the first \<open>n\<close> bytes into the queue.  The int that
  \<^verbatim>\<open>do_outputv\<close> returns tells whether the caller gets its answer now.
\<close>

definition ud_enqv :: "nat \<Rightarrow> byte list list \<Rightarrow> int \<Rightarrow> unixdom \<Rightarrow> unixdom" where
  "ud_enqv i ev n s = pcall i (Drv (Enqv (drop (nat n) (concat ev)))) s"

definition ud_sendv :: "sockets \<Rightarrow> nat \<Rightarrow> byte list \<Rightarrow> unixdom \<Rightarrow> int \<times> unixdom" where
  "ud_sendv sk i bs s =
     (let s = sys_call sk i (SkSendv (ud_s (dsc s i)) bs) (\<lambda>h. so_count sk h \<noteq> -1) s
      in (so_count sk (ulog s), s))"

definition do_outputv :: "sockets \<Rightarrow> nat \<Rightarrow> byte list list \<Rightarrow> unixdom \<Rightarrow> int \<times> unixdom" where
  "do_outputv sk i ev s =
     (let len = int (length (concat ev)) in
      if len = 0 then (0, s)
      else
        let s = upd i (ud_output_count sk len) s; sz = ud_sizeq sk i s in
        if sz > 0 then
          let s = ud_enqv i ev 0 s in
          if sz + len \<ge> ud_high (dsc s i) then
            let s = ud_set_busy i True s in
            if word_of_int (ud_send_timeout (dsc s i)) \<noteq> (0xffffffff :: 32 word) then
              (1, pcall i (Drv (SetTimer (ud_send_timeout (dsc s i))))
                    (upd i (\<lambda>d. d\<lparr>ud_busy_on_send := 1\<rparr>) s))
            else (0, s)
          else (0, s)
        else
          (case ud_sendv sk i (concat (take MAX_VSIZE ev)) s of (n, s) \<Rightarrow>
             if n = -1 \<and> uerrno s \<noteq> U_EAGAIN \<and> uerrno s \<noteq> U_EINTR then
               (-1, ud_reply_error sk i (uerrno s) s)
             else
               let n = (if n = -1 then 0 else n) in
               if n = len then (0, s)
               else (0, sock_select i (FD_WRITE OR FD_CLOSE) True (ud_enqv i ev n s))))"

definition unixdom_outputv :: "sockets \<Rightarrow> nat \<Rightarrow> byte list list \<Rightarrow> unixdom \<Rightarrow> unixdom" where
  "unixdom_outputv sk i ev s =
     (if \<not> UD_IS_CONNECTED (dsc s i) then ud_reply_error sk i U_ENOTCONN s
      else case do_outputv sk i ev s of (r, s) \<Rightarrow> if r = 0 then ud_reply_ok i s else s)"

text \<open>
  The loop of \<^verbatim>\<open>unixdom_ready_output\<close>, on fuel.  \<^verbatim>\<open>driver_peekq\<close> returns NULL exactly if nothing
  is queued.
\<close>

definition below_low :: "sockets \<Rightarrow> nat \<Rightarrow> unixdom \<Rightarrow> unixdom" where
  "below_low sk i s =
     (if ud_sizeq sk i s \<le> ud_low (dsc s i) \<and> UD_IS_BUSY (dsc s i) then
        let s = ud_set_busy i False s in
        if ud_busy_on_send (dsc s i) \<noteq> 0 then
          ud_reply_ok i
            (upd i (\<lambda>d. d\<lparr>ud_busy_on_send := 0\<rparr>) (pcall i (Drv CancelTimer) s))
        else s
      else s)"

fun send_queue :: "sockets \<Rightarrow> nat \<Rightarrow> nat \<Rightarrow> unixdom \<Rightarrow> (unit, unixdom) outcome" where
  "send_queue sk i fuel s =
     (if ud_queue sk i s = [] then Inr ((), sock_select i FD_WRITE False s)
      else case fuel of
        0 \<Rightarrow> Inl Diverges
      | Suc fuel \<Rightarrow>
          (case ud_sendv sk i (take (so_window sk (ulog s)) (ud_queue sk i s)) s of (n, s) \<Rightarrow>
             if n = -1 then
               Inr ((), if uerrno s \<noteq> U_EAGAIN \<and> uerrno s \<noteq> U_EINTR
                        then ud_reply_error sk i (uerrno s) s else s)
             else send_queue sk i fuel (below_low sk i (ud_deq i n s))))"

declare send_queue.simps [simp del]

definition unixdom_ready_output ::
  "sockets \<Rightarrow> nat \<Rightarrow> unixdom \<Rightarrow> (unit, unixdom) outcome" where
  "unixdom_ready_output sk i s =
     (if ud_state (dsc s i) = STATE_CONNECTING then
        Inr ((), ud_reply_ok i (upd i (\<lambda>d. d\<lparr>ud_state := STATE_CONNECTED\<rparr>) s))
      else if UD_IS_CONNECTED (dsc s i) then
        let s = ud_deq i 0 s in send_queue sk i (Suc (length (ud_queue sk i s))) s
      else Inr ((), s))"

section \<open>Reading\<close>

definition unblock :: "sockets \<Rightarrow> nat \<Rightarrow> unixdom \<Rightarrow> unixdom" where
  "unblock sk i s =
     (if UD_IS_BUSY (dsc s i) then
        let s = clear_output sk i s; s = pcall i (Drv CancelTimer) s;
            s = upd i (\<lambda>d. d\<lparr>ud_busy_on_send := 0\<rparr>) s
        in ud_reply_error_am i ''closed'' (ud_set_busy i False s)
      else s)"

definition unixdom_recv_closed :: "sockets \<Rightarrow> nat \<Rightarrow> unixdom \<Rightarrow> int \<times> unixdom" where
  "unixdom_recv_closed sk i s =
     (-2,
      if ud_active (dsc s i) = 0 then
        ud_reply_error_am i ''closed'' (desc_close i (clear_input i (pcall i (Drv CancelTimer) s)))
      else
        ud_exit_or_close i 0 (sock_select i (FD_WRITE OR FD_READ) False (clear_input i (unblock sk i s))))"

text \<open>
  A passive port is told of an error with the number of the error in place of an atom.
\<close>

definition unixdom_recv_error :: "sockets \<Rightarrow> nat \<Rightarrow> int \<Rightarrow> unixdom \<Rightarrow> int \<times> unixdom" where
  "unixdom_recv_error sk i err s =
     (if err \<noteq> U_EAGAIN then
        (-1,
         if ud_active (dsc s i) = 0 then
           ud_reply_error_am i (so_atom sk err) (clear_input i (pcall i (Drv CancelTimer) s))
         else
           ud_exit_or_close i err (ud_reply_closed i (ud_reply_error sk i err
             (clear_input i (unblock sk i s)))))
      else (0, s))"

definition ud_alloc_buf :: "sockets \<Rightarrow> nat \<Rightarrow> int \<Rightarrow> unixdom \<Rightarrow> bool \<times> unixdom" where
  "ud_alloc_buf sk i sz s =
     (if ud_i_buf (dsc s i) = None then
        let s = sys_call sk i (Drv (AllocBinary sz)) (so_alloc sk) s in
        if so_alloc sk (ulog s) then
          (True, upd i (\<lambda>d. d\<lparr>ud_i_buf := Some \<lparr>orig_bytes = map (so_junk sk (ulog s)) [0..<nat sz],
                                                 refc = 1\<rparr>,
                               ud_i_bufsz := sz, ud_i_bufp := True\<rparr>) s)
        else (False, s)
      else (True, s))"

definition ud_received ::
  "sockets \<Rightarrow> nat \<Rightarrow> byte list \<Rightarrow> unixdom \<Rightarrow> (int, unixdom) outcome" where
  "ud_received sk i bs s =
     deref (ud_i_buf (dsc s i)) (\<lambda>b. writing (orig_bytes b) 0 bs (\<lambda>m.
       let s = upd i (\<lambda>d. d\<lparr>ud_i_buf := Some (b\<lparr>orig_bytes := m\<rparr>)\<rparr>) s in
       if bs = [] then Inr (unixdom_recv_closed sk i s)
       else Inr (int (length bs), upd i (ud_input_count sk (int (length bs))) s)))"

definition unixdom_recv :: "sockets \<Rightarrow> nat \<Rightarrow> int \<Rightarrow> unixdom \<Rightarrow> (int, unixdom) outcome" where
  "unixdom_recv sk i request_len s =
     (let sz = (if request_len > 0 then request_len else ud_bufsz (dsc s i)) in
      case ud_alloc_buf sk i sz s of (ok, s) \<Rightarrow>
        if \<not> ok then Inr (-1, s)
        else
          let s = sys_call sk i (SkRecv (ud_s (dsc s i)) sz) (\<lambda>h. so_bytes sk h \<noteq> None) s in
          case so_bytes sk (ulog s) of
            None \<Rightarrow>
              Inr (if uerrno s = U_ECONNRESET \<or> uerrno s = U_EPIPE then unixdom_recv_closed sk i s
                   else if uerrno s = U_EAGAIN then (0, s)
                   else unixdom_recv_error sk i (uerrno s) s)
          | Some bs \<Rightarrow> ud_received sk i (take (nat sz) bs) s)"

end
