(* ===== verification/Unixdom_Control.thy ===== *)
theory Unixdom_Control
  imports Unixdom
begin

text \<open>
  The entry points of the Unix domain socket driver: the control commands, start and stop of a
  port, the input and timer callbacks.  The result of a command is the bytes of its reply,
  none where the code returns a negative length.  A socket is never the invalid event -1, so the branches
  for that are left out.  A
  pointer to the data of a command is the list of its bytes from there to its end, so that a read
  beyond the end is a fault, as is a path that does not fit its array.
\<close>

section \<open>Replies to commands\<close>

abbreviation (input) UNIXDOM_REP_OK :: byte where "UNIXDOM_REP_OK \<equiv> 1"
abbreviation (input) UNIXDOM_REP_ERROR :: byte where "UNIXDOM_REP_ERROR \<equiv> 2"
abbreviation (input) UNIXDOM_REP_WOULDBLOCK :: byte where "UNIXDOM_REP_WOULDBLOCK \<equiv> 3"

definition ud_ctl_reply ::
  "sockets \<Rightarrow> nat \<Rightarrow> byte \<Rightarrow> byte list \<Rightarrow> int \<Rightarrow> unixdom \<Rightarrow> (byte list, unixdom) outcome" where
  "ud_ctl_reply sk i rep buf rbuflen s =
     (let n = int (length buf) + 1 in
      if n > rbuflen then
        let s = pcall i (Drv (AllocMem n)) s
        in if so_alloc sk (ulog s) then Inr (rep # buf, s) else Inl NullPtr
      else Inr (rep # buf, s))"

definition ud_ctl_error ::
  "sockets \<Rightarrow> nat \<Rightarrow> int \<Rightarrow> int \<Rightarrow> unixdom \<Rightarrow> (byte list, unixdom) outcome" where
  "ud_ctl_error sk i err rbuflen s =
     ud_ctl_reply sk i UNIXDOM_REP_ERROR (bytes_of (ud_error_atom sk err)) rbuflen s"

definition ud_ctl_xerror ::
  "sockets \<Rightarrow> nat \<Rightarrow> string \<Rightarrow> int \<Rightarrow> unixdom \<Rightarrow> (byte list, unixdom) outcome" where
  "ud_ctl_xerror sk i xerr rbuflen s =
     ud_ctl_reply sk i UNIXDOM_REP_ERROR (bytes_of xerr) rbuflen s"

definition ud_ctl_ok ::
  "sockets \<Rightarrow> nat \<Rightarrow> int \<Rightarrow> unixdom \<Rightarrow> (byte list, unixdom) outcome" where
  "ud_ctl_ok sk i rbuflen s = ud_ctl_reply sk i UNIXDOM_REP_OK [] rbuflen s"

text \<open>The bytes of an \<^verbatim>\<open>int\<close> as they lie in memory.\<close>

definition native_int32 :: "sockets \<Rightarrow> int \<Rightarrow> byte list" where
  "native_int32 sk i = (if so_lsb sk then rev (put_int32 i) else put_int32 i)"

section \<open>Commands\<close>

definition ud_ctl_endian ::
  "sockets \<Rightarrow> nat \<Rightarrow> int \<Rightarrow> unixdom \<Rightarrow> (byte list, unixdom) outcome" where
  "ud_ctl_endian sk i rbuflen s =
     ud_ctl_reply sk i UNIXDOM_REP_OK [if so_lsb sk then 254 else 255] rbuflen s"

definition knuth_hash :: "byte list \<Rightarrow> 32 word" where
  "knuth_hash path = foldl (\<lambda>n b. (push_bit 3 n XOR drop_bit 5 n) XOR w32 b) 0 path"

definition ud_ctl_knuthhash ::
  "sockets \<Rightarrow> nat \<Rightarrow> byte list \<Rightarrow> int \<Rightarrow> unixdom \<Rightarrow> (byte list, unixdom) outcome" where
  "ud_ctl_knuthhash sk i path rbuflen s =
     ud_ctl_reply sk i UNIXDOM_REP_OK (native_int32 sk (uint (knuth_hash path))) rbuflen s"

definition ud_ctl_open ::
  "sockets \<Rightarrow> nat \<Rightarrow> int \<Rightarrow> unixdom \<Rightarrow> (byte list, unixdom) outcome" where
  "ud_ctl_open sk i rbuflen s =
     (if ud_state (dsc s i) \<noteq> STATE_CLOSED then ud_ctl_xerror sk i ''exbadseq'' rbuflen s
      else
        let s = sys_call sk i SkSocket (\<lambda>h. so_fd sk h \<noteq> -1) s; fd = so_fd sk (ulog s);
            s = upd i (\<lambda>d. d\<lparr>ud_s := fd\<rparr>) s
        in if fd = -1 then ud_ctl_error sk i (uerrno s) rbuflen s
           else
             let s = upd i (\<lambda>d. d\<lparr>ud_event := fd\<rparr>) s; s = pcall i (SkNonblock fd) s;
                 s = upd i (\<lambda>d. d\<lparr>ud_state := STATE_OPEN, ud_stype := UD_SOCK_STREAM\<rparr>) s
             in ud_ctl_ok sk i rbuflen s)"

text \<open>
  The path of a command is copied into an array of 8192 bytes, with a zero behind it, and from
  there as a C string into the 108 bytes of \<^verbatim>\<open>sun_path\<close>.
\<close>

definition sock_path :: "byte list \<Rightarrow> (byte list \<Rightarrow> fault + 'a) \<Rightarrow> fault + 'a" where
  "sock_path p k =
     (if length p + 1 \<le> 8192 \<and> length (c_string p) + 1 \<le> 108 then k (c_string p)
      else Inl OutOfBounds)"

definition ud_unconnected ::
  "sockets \<Rightarrow> nat \<Rightarrow> int \<Rightarrow> (unixdom \<Rightarrow> (byte list, unixdom) outcome) \<Rightarrow> unixdom \<Rightarrow>
   (byte list, unixdom) outcome" where
  "ud_unconnected sk i rbuflen k s =
     (if \<not> UD_IS_OPEN (dsc s i) then ud_ctl_xerror sk i ''exbadport'' rbuflen s
      else if UD_IS_CONNECTED (dsc s i) then ud_ctl_error sk i U_EISCONN rbuflen s
      else if UD_IS_CONNECTING (dsc s i) then ud_ctl_error sk i U_EINVAL rbuflen s
      else k s)"

definition ud_set_timer :: "nat \<Rightarrow> 64 word \<Rightarrow> unixdom \<Rightarrow> unixdom" where
  "ud_set_timer i timeout s =
     (if timeout \<noteq> UD_INFINITY then pcall i (Drv (SetTimer (uint timeout))) s else s)"

definition ud_connect_to ::
  "sockets \<Rightarrow> nat \<Rightarrow> 64 word \<Rightarrow> byte list \<Rightarrow> int \<Rightarrow> unixdom \<Rightarrow> (byte list, unixdom) outcome" where
  "ud_connect_to sk i timeout path rbuflen s =
     (let s = sock_select i FD_CONNECT True s;
          s = sys_call sk i (SkConnect (ud_s (dsc s i)) path) (so_ok sk) s
      in if \<not> so_ok sk (ulog s) then
           if uerrno s = U_EINPROGRESS then
             ud_ctl_error sk i U_EINVAL rbuflen
               (ud_set_timer i timeout (upd i (\<lambda>d. d\<lparr>ud_state := STATE_CONNECTING\<rparr>) s))
           else ud_ctl_error sk i (uerrno s) rbuflen s
         else
           let s = sock_select i FD_CONNECT False s;
               s = upd i (\<lambda>d. d\<lparr>ud_state := STATE_CONNECTED\<rparr>) s;
               s = (if ud_active (dsc s i) \<noteq> 0 then sock_select i (FD_READ OR FD_CLOSE) True s
                    else s)
           in ud_ctl_ok sk i rbuflen s)"

definition ud_ctl_connect ::
  "sockets \<Rightarrow> nat \<Rightarrow> byte list \<Rightarrow> int \<Rightarrow> unixdom \<Rightarrow> (byte list, unixdom) outcome" where
  "ud_ctl_connect sk i p rbuflen s =
     ud_unconnected sk i rbuflen (\<lambda>s.
       reading p 0 4 (\<lambda>t. sock_path (drop 4 p) (\<lambda>path.
         ud_connect_to sk i (word_of_int (get_int32 t)) path rbuflen s))) s"

definition ud_bind_to ::
  "sockets \<Rightarrow> nat \<Rightarrow> int \<Rightarrow> byte list \<Rightarrow> int \<Rightarrow> unixdom \<Rightarrow> (byte list, unixdom) outcome" where
  "ud_bind_to sk i backlog path rbuflen s =
     (let s = sys_call sk i (SkBind (ud_s (dsc s i)) path) (so_ok sk) s in
      if \<not> so_ok sk (ulog s) then
        if uerrno s = U_EINPROGRESS then ud_ctl_error sk i U_EINVAL rbuflen s
        else ud_ctl_error sk i (uerrno s) rbuflen s
      else
        let s = sys_call sk i (SkListen (ud_s (dsc s i)) backlog) (so_ok sk) s in
        if \<not> so_ok sk (ulog s) then ud_ctl_error sk i (uerrno s) rbuflen s
        else
          let s = upd i (\<lambda>d. d\<lparr>ud_active := 0\<rparr>) s; s = sock_select i FD_ACCEPT False s;
              s = upd i (\<lambda>d. d\<lparr>ud_state := STATE_LISTEN\<rparr>) s
          in ud_ctl_ok sk i rbuflen s)"

definition ud_ctl_bind ::
  "sockets \<Rightarrow> nat \<Rightarrow> byte list \<Rightarrow> int \<Rightarrow> unixdom \<Rightarrow> (byte list, unixdom) outcome" where
  "ud_ctl_bind sk i buf rbuflen s =
     ud_unconnected sk i rbuflen (\<lambda>s.
       reading buf 0 4 (\<lambda>t.
         if get_int32 t < 0 then Inl Aborts
         else sock_path (drop 4 buf) (\<lambda>path. ud_bind_to sk i (get_int32 t) path rbuflen s))) s"

text \<open>\<^verbatim>\<open>ctl_close\<close> goes on after the error reply of a port that is closed already.\<close>

definition ud_ctl_close ::
  "sockets \<Rightarrow> nat \<Rightarrow> int \<Rightarrow> unixdom \<Rightarrow> (byte list, unixdom) outcome" where
  "ud_ctl_close sk i rbuflen s =
     andthen (if ud_state (dsc s i) = STATE_CLOSED then ud_ctl_error sk i U_EINVAL rbuflen s
              else Inr ([], s)) (\<lambda>_ s.
       ud_ctl_ok sk i rbuflen
         (upd i (\<lambda>d. d\<lparr>ud_state := STATE_CLOSED\<rparr>) (desc_close i (clear_input i s))))"

definition ud_ctl_write ::
  "sockets \<Rightarrow> nat \<Rightarrow> byte list \<Rightarrow> int \<Rightarrow> unixdom \<Rightarrow> (byte list, unixdom) outcome" where
  "ud_ctl_write sk i buf rbuflen s =
     (if UD_IS_CONNECTING (dsc s i) then ud_ctl_error sk i U_EINVAL rbuflen s
      else if UD_IS_CONNECTED (dsc s i) then
        let s = sys_call sk i (SkWrite (ud_s (dsc s i)) buf) (\<lambda>h. so_count sk h \<ge> 0) s;
            n = so_count sk (ulog s)
        in if n < 0 then ud_ctl_error sk i (uerrno s) rbuflen s
           else if n \<noteq> int (length buf) then ud_ctl_error sk i U_EOVERFLOW rbuflen s
           else ud_ctl_reply sk i UNIXDOM_REP_OK (native_int32 sk (int (length buf))) rbuflen s
      else ud_ctl_error sk i U_EINVAL rbuflen (sock_select i FD_CONNECT False s))"

definition ud_ctl_recv ::
  "sockets \<Rightarrow> nat \<Rightarrow> int \<Rightarrow> 64 word \<Rightarrow> int \<Rightarrow> unixdom \<Rightarrow> (byte list, unixdom) outcome" where
  "ud_ctl_recv sk i bytes timeout rbuflen s =
     (if \<not> UD_IS_CONNECTED (dsc s i) then
        case unixdom_recv_error sk i U_EBADF s of (n, s) \<Rightarrow> Inr ([], s)
      else andthen (unixdom_recv sk i bytes s) (\<lambda>n s.
        if n > 0 then andthen (ud_reply_data i n s) (\<lambda>_ s. ud_ctl_ok sk i rbuflen s)
        else if n = 0 then
          if timeout = 0 then ud_ctl_ok sk i rbuflen (ud_reply_error_am i ''timeout'' s)
          else ud_ctl_ok sk i rbuflen
                 (sock_select i (FD_READ OR FD_CLOSE) True (ud_set_timer i timeout s))
        else if n = -1 then ud_ctl_error sk i (uerrno s) rbuflen s
        else if n = -2 then ud_ctl_xerror sk i ''closed'' rbuflen s
        else Inr ([], s)))"

abbreviation (input) UNIXDOM_OPT_ENDOFLIST :: byte where "UNIXDOM_OPT_ENDOFLIST \<equiv> 0"
abbreviation (input) UNIXDOM_OPT_IGNORE :: byte where "UNIXDOM_OPT_IGNORE \<equiv> 1"
abbreviation (input) UNIXDOM_OPT_ACTIVE :: byte where "UNIXDOM_OPT_ACTIVE \<equiv> 2"
abbreviation (input) UNIXDOM_OPT_BACKLOG :: byte where "UNIXDOM_OPT_BACKLOG \<equiv> 3"

definition ud_set_active :: "nat \<Rightarrow> byte \<Rightarrow> unixdom \<Rightarrow> unixdom" where
  "ud_set_active i a s =
     (let s = upd i (\<lambda>d. d\<lparr>ud_active := sint a\<rparr>) s in
      sock_select i (FD_READ OR FD_CLOSE) (ud_active (dsc s i) \<noteq> 0) s)"

fun ud_ctl_setopts ::
  "sockets \<Rightarrow> nat \<Rightarrow> byte list \<Rightarrow> int \<Rightarrow> unixdom \<Rightarrow> (byte list, unixdom) outcome" where
  "ud_ctl_setopts sk i [] rbuflen s = Inl OutOfBounds"
| "ud_ctl_setopts sk i (b # bs) rbuflen s =
     (if b = UNIXDOM_OPT_ENDOFLIST then ud_ctl_ok sk i rbuflen s
      else if b = UNIXDOM_OPT_IGNORE then ud_ctl_setopts sk i bs rbuflen s
      else if b = UNIXDOM_OPT_ACTIVE then
        (case bs of [] \<Rightarrow> Inl OutOfBounds
         | a # bs \<Rightarrow> ud_ctl_setopts sk i bs rbuflen (ud_set_active i a s))
      else if b = UNIXDOM_OPT_BACKLOG then
        if \<not> UD_IS_OPEN (dsc s i) then ud_ctl_xerror sk i ''exbadport'' rbuflen s
        else if \<not> UD_IS_BOUND (dsc s i) then ud_ctl_xerror sk i ''exbadseq'' rbuflen s
        else reading bs 0 4 (\<lambda>l.
          let s = sys_call sk i (SkListen (ud_s (dsc s i)) (get_int32 l)) (so_ok sk) s in
          if \<not> so_ok sk (ulog s) then ud_ctl_xerror sk i ''exbadport'' rbuflen s
          else ud_ctl_setopts sk i (drop 4 bs) rbuflen
                 (upd i (\<lambda>d. d\<lparr>ud_backlog := get_int32 l\<rparr>) s))
      else ud_ctl_xerror sk i ''exbadport'' rbuflen s)"

text \<open>One requested option of \<^verbatim>\<open>ctl_getopts\<close>; the reply area has 9 bytes for each.\<close>

definition ud_opt :: "descriptor \<Rightarrow> byte \<Rightarrow> byte list" where
  "ud_opt d cmd =
     (if cmd = UNIXDOM_OPT_ENDOFLIST \<or> cmd = UNIXDOM_OPT_IGNORE then [cmd]
      else if cmd = UNIXDOM_OPT_ACTIVE then [cmd, word_of_int (ud_active d)]
      else if cmd = UNIXDOM_OPT_BACKLOG then cmd # put_int32 (ud_backlog d)
      else [])"

definition ud_ctl_getopts ::
  "sockets \<Rightarrow> nat \<Rightarrow> byte list \<Rightarrow> int \<Rightarrow> unixdom \<Rightarrow> (byte list, unixdom) outcome" where
  "ud_ctl_getopts sk i buf rbuflen s =
     checked (int (length buf) * 9 + 1) (\<lambda>dstlen.
       if dstlen > UD_MAX_BUFSIZ then ud_ctl_error sk i U_EINVAL rbuflen s
       else
         let rep = UNIXDOM_REP_OK # concat (map (ud_opt (dsc s i)) buf) in
         if dstlen > rbuflen then
           let s = pcall i (Drv (AllocMem dstlen)) s in
           if \<not> so_alloc sk (ulog s) then ud_ctl_error sk i U_ENOMEM rbuflen s
           else writing (replicate (nat dstlen) 0) 0 rep (\<lambda>_. Inr (rep, s))
         else writing (replicate (nat rbuflen) 0) 0 rep (\<lambda>_. Inr (rep, s)))"

section \<open>Accepting\<close>

text \<open>
  \<open>clear_listener\<close> gives the port that waits for a connection for \<open>i\<close> its state back: the first
  one of the table whose \<^verbatim>\<open>i_ix\<close> is the index of \<open>i\<close>.
\<close>

definition waits_for :: "int \<Rightarrow> descriptor option \<Rightarrow> bool" where
  "waits_for ix l = (case l of None \<Rightarrow> False | Some d \<Rightarrow> ud_stype d = UD_SOCK_STREAM \<and> ud_i_ix d = ix)"

definition clear_listener :: "nat \<Rightarrow> unixdom \<Rightarrow> (unit, unixdom) outcome" where
  "clear_listener i s =
     (if ud_state (dsc s i) \<noteq> STATE_ACCEPTING then Inl Aborts
      else Inr ((),
        case find (\<lambda>l. waits_for (ud_ix (dsc s i)) (desc_table s ! l)) [0..<length (desc_table s)] of
          None \<Rightarrow> s
        | Some l \<Rightarrow>
            upd l (\<lambda>d. d\<lparr>ud_i_ix := -1\<rparr>)
              (if ud_state (dsc s l) = STATE_LISTENING then
                 sock_select l FD_ACCEPT False (upd l (\<lambda>d. d\<lparr>ud_state := STATE_LISTEN\<rparr>) s)
               else s)))"

text \<open>The accepted socket \<open>fd\<close> becomes that of the accepting port.\<close>

definition ud_take_socket :: "nat \<Rightarrow> int \<Rightarrow> unixdom \<Rightarrow> unixdom" where
  "ud_take_socket i fd s =
     (let s = upd i (\<lambda>d. d\<lparr>ud_s := fd, ud_event := fd\<rparr>) s; s = pcall i (SkNonblock fd) s;
          s = upd i (\<lambda>d. d\<lparr>ud_state := STATE_CONNECTED\<rparr>) s; s = sock_select i FD_CONNECT False s
      in sock_select i (FD_READ OR FD_CLOSE) (ud_active (dsc s i) \<noteq> 0) s)"

definition ud_accept :: "sockets \<Rightarrow> nat \<Rightarrow> unixdom \<Rightarrow> int \<times> unixdom" where
  "ud_accept sk l s =
     (let s = sys_call sk l (SkAccept (ud_s (dsc s l))) (\<lambda>h. so_fd sk h \<noteq> -1) s
      in (so_fd sk (ulog s), s))"

definition ud_inherit :: "descriptor \<Rightarrow> descriptor \<Rightarrow> descriptor" where
  "ud_inherit l d =
     d\<lparr>ud_mode := ud_mode l, ud_exitf := ud_exitf l, ud_active := 0, ud_stype := ud_stype l,
       ud_htype := ud_htype l, ud_bufsz := ud_bufsz l, ud_i_bufsz := ud_i_bufsz l,
       ud_high := ud_high l, ud_low := ud_low l, ud_send_timeout := ud_send_timeout l\<rparr>"

definition ud_accept_from ::
  "sockets \<Rightarrow> nat \<Rightarrow> nat \<Rightarrow> 64 word \<Rightarrow> int \<Rightarrow> unixdom \<Rightarrow> (byte list, unixdom) outcome" where
  "ud_accept_from sk i l timeout rbuflen s =
     (if ud_state (dsc s l) \<noteq> STATE_LISTEN then ud_ctl_error sk i U_EINVAL rbuflen s
      else if ud_i_buf (dsc s i) \<noteq> None \<or> ud_i_bufp (dsc s i) then Inl Aborts
      else case ud_accept sk l (upd i (ud_inherit (dsc s l)) s) of (fd, s) \<Rightarrow>
        if fd = -1 then
          if uerrno s = U_EAGAIN then
            let s = upd i (\<lambda>d. d\<lparr>ud_state := STATE_ACCEPTING\<rparr>) s;
                s = upd l (\<lambda>d. d\<lparr>ud_state := STATE_LISTENING, ud_i_ix := ud_ix (dsc s i)\<rparr>) s;
                s = sock_select l FD_ACCEPT True s
            in ud_ctl_reply sk i UNIXDOM_REP_WOULDBLOCK [] rbuflen (ud_set_timer i timeout s)
          else ud_ctl_error sk i (uerrno s) rbuflen s
        else ud_ctl_ok sk i rbuflen (ud_take_socket i fd s))"

definition ud_ctl_accept ::
  "sockets \<Rightarrow> nat \<Rightarrow> byte list \<Rightarrow> int \<Rightarrow> unixdom \<Rightarrow> (byte list, unixdom) outcome" where
  "ud_ctl_accept sk i buf rbuflen s =
     (if ud_state (dsc s i) \<noteq> STATE_CLOSED then ud_ctl_xerror sk i ''exbadport'' rbuflen s
      else reading buf 0 4 (\<lambda>ixb. reading buf 4 4 (\<lambda>tb.
        if get_int32 ixb \<ge> int (length (desc_table s)) then ud_ctl_error sk i U_EINVAL rbuflen s
        else desc_at s (get_int32 ixb) (\<lambda>l. case l of
            None \<Rightarrow> ud_ctl_error sk i U_EINVAL rbuflen s
          | Some l \<Rightarrow> ud_accept_from sk i l (word_of_int (get_int32 tb)) rbuflen s))))"

definition unixdom_ctl ::
  "sockets \<Rightarrow> nat \<Rightarrow> int \<Rightarrow> byte list \<Rightarrow> int \<Rightarrow> unixdom \<Rightarrow> (byte list, unixdom) outcome" where
  "unixdom_ctl sk i cmd buf rbuflen s =
     (if cmd = 1 then ud_ctl_endian sk i rbuflen s
      else if cmd = 2 then ud_ctl_knuthhash sk i buf rbuflen s
      else if cmd = 3 then ud_ctl_open sk i rbuflen s
      else if cmd = 4 then ud_ctl_connect sk i buf rbuflen s
      else if cmd = 5 then ud_ctl_close sk i rbuflen s
      else if cmd = 6 then ud_ctl_write sk i buf rbuflen s
      else if cmd = 7 then
        reading buf 0 4 (\<lambda>b.
          ud_ctl_recv sk i (get_int32 b) (word_of_int (get_int32 b)) rbuflen s)
      else if cmd = 8 then ud_ctl_setopts sk i buf rbuflen s
      else if cmd = 9 then ud_ctl_bind sk i buf rbuflen s
      else if cmd = 10 then ud_ctl_accept sk i buf rbuflen s
      else if cmd = 11 then
        ud_ctl_reply sk i UNIXDOM_REP_OK (put_int32 (ud_ix (dsc s i))) rbuflen s
      else if cmd = 12 then ud_ctl_getopts sk i buf rbuflen s
      else ud_ctl_xerror sk i ''exbadport'' rbuflen s)"

section \<open>Start and stop of a port\<close>

definition ud_driver_init :: "sockets \<Rightarrow> nat \<Rightarrow> unixdom option" where
  "ud_driver_init sk desc_size =
     (if so_alloc sk [] then
        Some \<lparr>desc_table = replicate desc_size None, desc_ix = 0, uerrno = 0, ulog = []\<rparr>
      else None)"

text \<open>The search for a free entry, on fuel: it comes back to where it started at the latest.\<close>

fun find_slot :: "nat \<Rightarrow> descriptor option list \<Rightarrow> nat \<Rightarrow> nat \<Rightarrow> nat option" where
  "find_slot 0 t save ix = None"
| "find_slot (Suc fuel) t save ix =
     (if t ! ix = None then Some ix
      else
        let ix = (ix + 1) mod length t in
        if ix = save then Some ix else find_slot fuel t save ix)"

definition ud_new :: "int \<Rightarrow> nat \<Rightarrow> descriptor" where
  "ud_new port ix =
     \<lparr>ud_s = -1, ud_event = -1, ud_event_mask = 0, ud_port = port, ud_state = STATE_CLOSED,
      ud_prebound = 0, ud_mode = 1, ud_exitf = 1, ud_active = 0, ud_stype = -1, ud_htype = 0,
      ud_ix = int ix, ud_backlog = -1, ud_bufsz = 4096, ud_i_buf = None, ud_i_bufsz = 0,
      ud_i_bufp = False, ud_low = 4096, ud_high = 8192, ud_send_timeout = 5000,
      ud_busy_on_send = 0, ud_i_ix = -1, ud_recv_oct0 = 0, ud_recv_oct1 = 0, ud_recv_cnt = 0,
      ud_recv_max = 0, ud_recv_avg = 0, ud_recv_dvi = 0, ud_send_oct0 = 0, ud_send_oct1 = 0,
      ud_send_cnt = 0, ud_send_max = 0, ud_send_avg = 0\<rparr>"

text \<open>
  The result is the index of the new descriptor, or \<open>None\<close> for a NULL pointer; 24 is \<^verbatim>\<open>EMFILE\<close>.  The size
  of a descriptor is left out of the log.
\<close>

definition unixdom_start ::
  "sockets \<Rightarrow> int \<Rightarrow> unixdom \<Rightarrow> (nat option, unixdom) outcome" where
  "unixdom_start sk port s =
     (case find_slot (length (desc_table s)) (desc_table s) (desc_ix s) (desc_ix s) of
        None \<Rightarrow> Inl Diverges
      | Some ix \<Rightarrow>
          if desc_table s ! ix \<noteq> None then Inr (None, s\<lparr>uerrno := 24\<rparr>)
          else
            let s = s\<lparr>desc_ix := (ix + 1) mod length (desc_table s)\<rparr>;
                s = s\<lparr>ulog := (port, Drv (AllocMem 0)) # ulog s\<rparr>
            in if so_alloc sk (ulog s) then
                 Inr (Some ix, s\<lparr>desc_table := (desc_table s)[ix := Some (ud_new port ix)]\<rparr>)
               else Inr (None, s))"

definition ud_stop_notify :: "sockets \<Rightarrow> nat \<Rightarrow> unixdom \<Rightarrow> (unit, unixdom) outcome" where
  "ud_stop_notify sk i s =
     (let state = ud_state (dsc s i) in
      if state = STATE_LISTENING \<and> ud_i_ix (dsc s i) \<noteq> -1 then
        desc_at s (ud_i_ix (dsc s i)) (\<lambda>a. Inr ((), case a of
            None \<Rightarrow> s
          | Some a \<Rightarrow> if ud_state (dsc s a) = STATE_ACCEPTING
                      then ud_reply_error sk a U_EINVAL s else s))
      else if state = STATE_ACCEPTING then
        andthen (clear_listener i s) (\<lambda>_ s. Inr ((), ud_reply_error_am i ''closed'' s))
      else if state = STATE_CONNECTED then Inr ((), ud_reply_error_am i ''closed'' s)
      else Inr ((), s))"

definition ud_stop_close :: "nat \<Rightarrow> unixdom \<Rightarrow> unixdom" where
  "ud_stop_close i s =
     pcall i (Drv FreeMem)
       (if ud_state (dsc s i) AND F_OPEN \<noteq> 0
        then upd i (\<lambda>d. d\<lparr>ud_state := STATE_CLOSED\<rparr>) (desc_close i s) else s)"

definition unixdom_stop :: "sockets \<Rightarrow> nat \<Rightarrow> unixdom \<Rightarrow> (unit, unixdom) outcome" where
  "unixdom_stop sk i s =
     (let s = (if ud_i_buf (dsc s i) \<noteq> None
               then upd i (\<lambda>d. d\<lparr>ud_i_buf := None\<rparr>) (pcall i (Drv FreeMem) s) else s)
      in andthen (ud_stop_notify sk i s) (\<lambda>_ s.
           let s = ud_stop_close i s in
           desc_at s (ud_ix (dsc s i)) (\<lambda>_.
             Inr ((), s\<lparr>desc_table := (desc_table s)[nat (ud_ix (dsc s i)) := None]\<rparr>))))"

section \<open>Callbacks\<close>

definition unixdom_ready_input :: "sockets \<Rightarrow> nat \<Rightarrow> unixdom \<Rightarrow> (unit, unixdom) outcome" where
  "unixdom_ready_input sk i s =
     (if ud_state (dsc s i) = STATE_LISTENING then
        let s = sock_select i FD_ACCEPT False s; ix = ud_i_ix (dsc s i);
            s = upd i (\<lambda>d. d\<lparr>ud_state := STATE_LISTEN, ud_i_ix := -1\<rparr>) s
        in desc_at s ix (\<lambda>a. Inr ((), case a of
               None \<Rightarrow> s
             | Some a \<Rightarrow>
                 if ud_state (dsc s a) \<noteq> STATE_ACCEPTING then s
                 else case ud_accept sk i s of (fd, s) \<Rightarrow>
                   if fd = -1 then desc_close a (ud_reply_error sk a (uerrno s) s)
                   else ud_reply_ok i (ud_take_socket a fd s)))
      else if UD_IS_CONNECTED (dsc s i) then
        andthen (unixdom_recv sk i 0 s) (\<lambda>n s.
          andthen (if n > 0 then ud_reply_data i n s else Inr (n, s)) (\<lambda>_ s.
            Inr ((), if ud_active (dsc s i) = 0 then sock_select i (FD_READ OR FD_CLOSE) False s
                     else s)))
      else Inr ((), sock_select i FD_ACCEPT False s))"

definition unixdom_timeout :: "nat \<Rightarrow> unixdom \<Rightarrow> (unit, unixdom) outcome" where
  "unixdom_timeout i s =
     (let state = ud_state (dsc s i) in
      if state AND STATE_CONNECTED = STATE_CONNECTED then
        if ud_busy_on_send (dsc s i) \<noteq> 0 then
          Inr ((), ud_reply_error_am i ''timeout'' (upd i (\<lambda>d. d\<lparr>ud_busy_on_send := 0\<rparr>) s))
        else if ud_active (dsc s i) \<noteq> 0 then Inl Aborts
        else Inr ((), ud_reply_error_am i ''timeout'' (sock_select i (FD_READ OR FD_CLOSE) False s))
      else if state AND STATE_CONNECTING = STATE_CONNECTING then
        Inr ((), ud_reply_error_am i ''timeout'' (unixdom_close i s))
      else if state AND STATE_ACCEPTING = STATE_ACCEPTING then
        andthen (clear_listener i s) (\<lambda>_ s. Inr ((), ud_reply_error_am i ''timeout'' s))
      else Inr ((), s))"

section \<open>Events\<close>

text \<open>
  What the emulator calls: the driver's entry points, each on the data of a port that has been
  started and not stopped; a call on another would follow a pointer to freed memory.
\<close>

datatype ud_event =
    UStart int
  | UStop nat
  | UCtl nat int "byte list" int
  | UOutputv nat "byte list list"
  | UReadyInput nat
  | UReadyOutput nat
  | UTimeout nat

definition live :: "nat \<Rightarrow> unixdom \<Rightarrow> bool" where
  "live i s \<longleftrightarrow> i < length (desc_table s) \<and> desc_table s ! i \<noteq> None"

definition on_port ::
  "nat \<Rightarrow> (unixdom \<Rightarrow> (byte list, unixdom) outcome) \<Rightarrow> unixdom \<Rightarrow> (byte list, unixdom) outcome" where
  "on_port i f s = (if live i s then f s else Inl NullPtr)"

abbreviation no_reply :: "('a, unixdom) outcome \<Rightarrow> (byte list, unixdom) outcome" where
  "no_reply m \<equiv> andthen m (\<lambda>_ s. Inr ([], s))"

fun ud_step :: "sockets \<Rightarrow> ud_event \<Rightarrow> unixdom \<Rightarrow> (byte list, unixdom) outcome" where
  "ud_step sk (UStart port) s = no_reply (unixdom_start sk port s)"
| "ud_step sk (UStop i) s = on_port i (\<lambda>s. no_reply (unixdom_stop sk i s)) s"
| "ud_step sk (UCtl i cmd buf rbuflen) s = on_port i (unixdom_ctl sk i cmd buf rbuflen) s"
| "ud_step sk (UOutputv i ev) s = on_port i (\<lambda>s. Inr ([], unixdom_outputv sk i ev s)) s"
| "ud_step sk (UReadyInput i) s = on_port i (\<lambda>s. no_reply (unixdom_ready_input sk i s)) s"
| "ud_step sk (UReadyOutput i) s = on_port i (\<lambda>s. no_reply (unixdom_ready_output sk i s)) s"
| "ud_step sk (UTimeout i) s = on_port i (\<lambda>s. no_reply (unixdom_timeout i s)) s"

fun ud_run :: "sockets \<Rightarrow> ud_event list \<Rightarrow> unixdom \<Rightarrow> (byte list list, unixdom) outcome" where
  "ud_run sk [] s = Inr ([], s)"
| "ud_run sk (e # es) s =
     andthen (ud_step sk e s) (\<lambda>r s. andthen (ud_run sk es s) (\<lambda>rs s. Inr (r # rs, s)))"

end
