(* ===== verification/Unixdom_Table.thy ===== *)
theory Unixdom_Table
  imports Unixdom_Control
begin

text \<open>
  The descriptor table: what holds of every descriptor in it whatever the emulator calls, the
  faults each call may run into, and that no other fault occurs.
\<close>

section \<open>What one call leaves alone\<close>

lemma desc_simps [simp]:
  "ulog (upd i f s) = ulog s" "uerrno (upd i f s) = uerrno s" "desc_ix (upd i f s) = desc_ix s"
  "length (desc_table (upd i f s)) = length (desc_table s)"
  "desc_table (pcall i c s) = desc_table s" "uerrno (pcall i c s) = uerrno s"
  "desc_ix (pcall i c s) = desc_ix s" "dsc (pcall i c s) j = dsc s j"
  by (simp_all add: upd_def pcall_def dsc_def)

lemma dsc_upd [simp]: "i < length (desc_table s) \<Longrightarrow> dsc (upd i f s) i = f (dsc s i)"
  by (simp add: upd_def dsc_def)

lemma dsc_upd_other [simp]: "j \<noteq> i \<Longrightarrow> dsc (upd i f s) j = dsc s j"
  by (simp add: upd_def dsc_def)

lemma dsc_errno [simp]: "dsc (s\<lparr>uerrno := e\<rparr>) i = dsc s i" "dsc (s\<lparr>ulog := h\<rparr>) i = dsc s i"
  by (simp_all add: dsc_def)

lemma ulog_pcall [simp]: "ulog (pcall i c s) = (ud_port (dsc s i), c) # ulog s"
  by (simp add: pcall_def)

definition legal_state :: "32 word \<Rightarrow> bool" where
  "legal_state st \<longleftrightarrow> st \<in> {0, 1, 7, 0x87, 0x13, 0x20, 0xb, 0x4b}"

definition good_desc :: "nat \<Rightarrow> nat \<Rightarrow> descriptor \<Rightarrow> bool" where
  "good_desc n i d \<longleftrightarrow>
     ud_ix d = int i \<and> legal_state (ud_state d) \<and>
     (ud_state d = STATE_CLOSED \<or> ud_state d = STATE_ACCEPTING \<longrightarrow> ud_s d = -1) \<and>
     ud_event d = ud_s d \<and>
     (\<forall>b. ud_i_buf d = Some b \<longrightarrow> ud_i_bufp d \<and> orig_size b = ud_i_bufsz d) \<and>
     -1 \<le> ud_i_ix d \<and> ud_i_ix d < int n \<and> (ud_state d = STATE_LISTENING \<longrightarrow> 0 \<le> ud_i_ix d) \<and>
     ud_prebound d = 0 \<and> ud_exitf d = 1 \<and> ud_bufsz d = 4096"

definition others_ok :: "nat \<Rightarrow> unixdom \<Rightarrow> bool" where
  "others_ok i s \<longleftrightarrow>
     i < length (desc_table s) \<and> desc_ix s < length (desc_table s) \<and>
     (\<forall>j d. j < length (desc_table s) \<longrightarrow> j \<noteq> i \<longrightarrow> desc_table s ! j = Some d \<longrightarrow>
        good_desc (length (desc_table s)) j d)"

definition ud_inv :: "unixdom \<Rightarrow> bool" where
  "ud_inv s \<longleftrightarrow>
     desc_ix s < length (desc_table s) \<and>
     (\<forall>j d. j < length (desc_table s) \<longrightarrow> desc_table s ! j = Some d \<longrightarrow>
        good_desc (length (desc_table s)) j d)"

definition well :: "nat \<Rightarrow> unixdom \<Rightarrow> bool" where
  "well i s \<longleftrightarrow> ud_inv s \<and> live i s"

lemma live_simps [simp]:
  "live j (pcall i c s) = live j s" "live j (s\<lparr>uerrno := e\<rparr>) = live j s"
  "live i s \<Longrightarrow> live j (upd i f s) = live j s"
  by (auto simp: live_def upd_def nth_list_update)

lemma live_length: "live i s \<Longrightarrow> i < length (desc_table s)"
  by (simp add: live_def)

lemma others_simps [simp]:
  "others_ok i (pcall j c s) = others_ok i s" "others_ok i (s\<lparr>uerrno := e\<rparr>) = others_ok i s"
  "others_ok i (upd i f s) = others_ok i s"
  by (auto simp: others_ok_def upd_def)

lemma well_iff:
  "well i s \<longleftrightarrow> live i s \<and> others_ok i s \<and> good_desc (length (desc_table s)) i (dsc s i)"
  unfolding well_def ud_inv_def others_ok_def live_def dsc_def
  by (metis option.exhaust_sel option.sel)

lemma well_others:
  assumes "well i s" "live j s"
  shows "well j s"
  using assms by (simp add: well_def)

lemma well_simps [simp]:
  "well i (pcall j c s) = well i s" "well i (s\<lparr>uerrno := e\<rparr>) = well i s"
  by (auto simp: well_def ud_inv_def)

lemma well_upd:
  "well i s \<Longrightarrow> (good_desc (length (desc_table s)) i (dsc s i) \<Longrightarrow>
     good_desc (length (desc_table s)) i (f (dsc s i))) \<Longrightarrow> well i (upd i f s)"
  by (auto simp: well_iff live_length)

lemma wellD: "well i s \<Longrightarrow> good_desc (length (desc_table s)) i (dsc s i)" "well i s \<Longrightarrow> live i s"
    "well i s \<Longrightarrow> i < length (desc_table s)"
  by (simp_all add: well_iff live_length)

section \<open>The states\<close>

lemma legal_simps [simp]:
  "legal_state STATE_CLOSED" "legal_state STATE_OPEN" "legal_state STATE_CONNECTED" "legal_state STATE_CONNECTING"
  "legal_state STATE_ACCEPTING" "legal_state STATE_LISTEN" "legal_state STATE_LISTENING"
  by (simp_all add: legal_state_def ud_states)

lemma states_distinct [simp]:
  "STATE_OPEN \<noteq> STATE_CLOSED" "STATE_CONNECTED \<noteq> STATE_CLOSED" "STATE_CONNECTING \<noteq> STATE_CLOSED"
  "STATE_ACCEPTING \<noteq> STATE_CLOSED" "STATE_LISTEN \<noteq> STATE_CLOSED" "STATE_LISTENING \<noteq> STATE_CLOSED"
  "STATE_OPEN \<noteq> STATE_ACCEPTING" "STATE_CONNECTED \<noteq> STATE_ACCEPTING"
  "STATE_CONNECTING \<noteq> STATE_ACCEPTING" "STATE_LISTEN \<noteq> STATE_ACCEPTING"
  "STATE_LISTENING \<noteq> STATE_ACCEPTING" "STATE_CLOSED \<noteq> STATE_ACCEPTING"
  "STATE_CLOSED \<noteq> STATE_LISTENING" "STATE_OPEN \<noteq> STATE_LISTENING"
  "STATE_CONNECTED \<noteq> STATE_LISTENING" "STATE_CONNECTING \<noteq> STATE_LISTENING"
  "STATE_ACCEPTING \<noteq> STATE_LISTENING" "STATE_LISTEN \<noteq> STATE_LISTENING"
  "STATE_LISTEN \<noteq> STATE_CONNECTED" "STATE_ACCEPTING \<noteq> STATE_LISTEN"
  by (simp_all add: ud_states)

lemma legal_cases:
  assumes "legal_state st"
  shows "st AND STATE_CONNECTED = STATE_CONNECTED \<longleftrightarrow> st = 7 \<or> st = 0x87"
    and "st AND F_BUSY = F_BUSY \<longleftrightarrow> st = 0x87"
    and "st AND STATE_CONNECTING = STATE_CONNECTING \<longleftrightarrow> st = 0x13"
    and "st AND F_CON = F_CON \<longleftrightarrow> st = 0x13"
    and "st AND STATE_ACCEPTING = STATE_ACCEPTING \<longleftrightarrow> st = STATE_ACCEPTING"
    and "st AND F_OPEN = F_OPEN \<longleftrightarrow> st \<noteq> STATE_CLOSED \<and> st \<noteq> STATE_ACCEPTING"
    and "st AND F_OPEN = 0 \<longleftrightarrow> st = STATE_CLOSED \<or> st = STATE_ACCEPTING"
  using assms by (auto simp: legal_state_def ud_states)

lemma busy_states:
  "(0x87 :: 32 word) AND NOT 0x80 = 7" "(7 :: 32 word) OR 0x80 = 0x87" "(0x87 :: 32 word) OR 0x80 = 0x87"
  by simp_all

lemma is_flags:
  assumes "good_desc n i d"
  shows "UD_IS_CONNECTED d \<longleftrightarrow> ud_state d = 7 \<or> ud_state d = 0x87"
    and "UD_IS_BUSY d \<longleftrightarrow> ud_state d = 0x87"
    and "UD_IS_CONNECTING d \<longleftrightarrow> ud_state d = 0x13"
    and "UD_IS_OPEN d \<longleftrightarrow> ud_state d \<noteq> STATE_CLOSED \<and> ud_state d \<noteq> STATE_ACCEPTING"
  using assms legal_cases [of "ud_state d"]
  by (simp_all add: good_desc_def UD_IS_CONNECTED_def UD_IS_BUSY_def UD_IS_CONNECTING_def UD_IS_OPEN_def)

lemma seven: "7 = STATE_CONNECTED" "legal_state 7" "legal_state 0x87" "0x87 \<noteq> STATE_CLOSED" "0x87 \<noteq> STATE_ACCEPTING"
    "0x87 \<noteq> STATE_LISTENING"
  by (simp_all add: ud_states legal_state_def)

section \<open>Every operation keeps the table in order\<close>

text \<open>
  Each operation on a port that is alive keeps the table in order and changes neither its size nor
  which ports are alive.
\<close>

lemma well_fields [simp]:
  "well i s \<Longrightarrow> well i (upd i (\<lambda>d. d\<lparr>ud_event_mask := g1 d\<rparr>) s)"
  "well i s \<Longrightarrow> well i (upd i (\<lambda>d. d\<lparr>ud_busy_on_send := g2 d\<rparr>) s)"
  "well i s \<Longrightarrow> well i (upd i (\<lambda>d. d\<lparr>ud_active := g2 d\<rparr>) s)"
  "well i s \<Longrightarrow> well i (upd i (\<lambda>d. d\<lparr>ud_backlog := g2 d\<rparr>) s)"
  "well i s \<Longrightarrow> well i (upd i (\<lambda>d. d\<lparr>ud_i_buf := None\<rparr>) s)"
  "well i s \<Longrightarrow> well i (upd i (\<lambda>d. d\<lparr>ud_i_buf := None, ud_i_bufp := b, ud_i_bufsz := n\<rparr>) s)"
  "well i s \<Longrightarrow> well i (upd i (ud_input_count sk len) s)"
  "well i s \<Longrightarrow> well i (upd i (ud_output_count sk len) s)"
  by (rule well_upd; simp add: good_desc_def ud_input_count_def ud_output_count_def Let_def)+

lemma sys_call_ok [simp]:
  "well i s \<Longrightarrow> well i (sys_call sk j c ok s)" "live k (sys_call sk j c ok s) = live k s"
  "desc_table (sys_call sk j c ok s) = desc_table s" "dsc (sys_call sk j c ok s) k = dsc s k"
  by (simp_all add: sys_call_def Let_def)

lemma sock_select_ok [simp]:
  "well i s \<Longrightarrow> well i (sock_select i flags on s)"
  "live i s \<Longrightarrow> live k (sock_select i flags on s) = live k s"
  "length (desc_table (sock_select i flags on s)) = length (desc_table s)"
  by (simp_all add: sock_select_def Let_def)

lemma dsc_select [simp]:
  "i < length (desc_table s) \<Longrightarrow> dsc (sock_select i flags on s) i =
     (dsc s i)\<lparr>ud_event_mask := if on then ud_event_mask (dsc s i) OR flags
                                else ud_event_mask (dsc s i) AND NOT flags\<rparr>"
  "j \<noteq> i \<Longrightarrow> dsc (sock_select i flags on s) j = dsc s j"
  by (simp_all add: sock_select_def Let_def)

lemma output_term_ok [simp]:
  "well i (ud_output_term j spec s) = well i s" "live k (ud_output_term j spec s) = live k s"
  "desc_table (ud_output_term j spec s) = desc_table s" "dsc (ud_output_term j spec s) k = dsc s k"
  by (simp_all add: ud_output_term_def)

lemma reply_ok_ok [simp]:
  "well i (ud_reply_ok j s) = well i s" "live k (ud_reply_ok j s) = live k s"
  "desc_table (ud_reply_ok j s) = desc_table s" "dsc (ud_reply_ok j s) k = dsc s k"
  by (simp_all add: ud_reply_ok_def)

lemma reply_closed_ok [simp]:
  "well i (ud_reply_closed j s) = well i s" "live k (ud_reply_closed j s) = live k s"
  "desc_table (ud_reply_closed j s) = desc_table s" "dsc (ud_reply_closed j s) k = dsc s k"
  by (simp_all add: ud_reply_closed_def)

lemma reply_error_am_ok [simp]:
  "well i (ud_reply_error_am j r s) = well i s" "live k (ud_reply_error_am j r s) = live k s"
  "desc_table (ud_reply_error_am j r s) = desc_table s" "dsc (ud_reply_error_am j r s) k = dsc s k"
  by (simp_all add: ud_reply_error_am_def)

lemma desc_close_ok [simp]:
  "well i s \<Longrightarrow> well i (desc_close i s)" "live i s \<Longrightarrow> live k (desc_close i s) = live k s"
  "length (desc_table (desc_close i s)) = length (desc_table s)"
  by (auto simp: desc_close_def Let_def good_desc_def intro!: well_upd)

lemma dsc_close [simp]:
  "i < length (desc_table s) \<Longrightarrow> ud_s (dsc (desc_close i s) i) = -1"
  "i < length (desc_table s) \<Longrightarrow> ud_state (dsc (desc_close i s) i) = ud_state (dsc s i)"
  "j \<noteq> i \<Longrightarrow> dsc (desc_close i s) j = dsc s j"
  by (auto simp: desc_close_def Let_def)

lemma clear_input_ok [simp]:
  "well i s \<Longrightarrow> well i (clear_input i s)" "live i s \<Longrightarrow> live k (clear_input i s) = live k s"
  "length (desc_table (clear_input i s)) = length (desc_table s)"
  by (simp_all add: clear_input_def Let_def)

lemma clear_output_ok [simp]:
  "well i (clear_output sk j s) = well i s" "live k (clear_output sk j s) = live k s"
  "desc_table (clear_output sk j s) = desc_table s" "dsc (clear_output sk j s) k = dsc s k"
  by (simp_all add: clear_output_def ud_deq_def)

lemma well_closed: "well i s \<Longrightarrow> ud_s (dsc s i) = -1 \<Longrightarrow> well i (upd i (\<lambda>d. d\<lparr>ud_state := STATE_CLOSED\<rparr>) s)"
  by (rule well_upd) (auto simp: good_desc_def)

lemma unixdom_close_ok [simp]:
  "well i s \<Longrightarrow> well i (unixdom_close i s)" "live i s \<Longrightarrow> live k (unixdom_close i s) = live k s"
  "length (desc_table (unixdom_close i s)) = length (desc_table s)"
  by (auto simp: unixdom_close_def intro!: well_closed simp: wellD)

lemma set_busy_ok [simp]:
  "well i s \<Longrightarrow> UD_IS_CONNECTED (dsc s i) \<or> \<not> on \<Longrightarrow> well i (ud_set_busy i on s)"
  "live i s \<Longrightarrow> live k (ud_set_busy i on s) = live k s"
  "length (desc_table (ud_set_busy i on s)) = length (desc_table s)"
  by (cases on; auto simp: ud_set_busy_def is_flags legal_state_def good_desc_def ud_states intro!: well_upd)+

lemma enqv_ok [simp]:
  "well i (ud_enqv j ev n s) = well i s" "live k (ud_enqv j ev n s) = live k s"
  "desc_table (ud_enqv j ev n s) = desc_table s" "dsc (ud_enqv j ev n s) k = dsc s k"
  by (simp_all add: ud_enqv_def)

lemma deq_ok [simp]:
  "well i (ud_deq j n s) = well i s" "live k (ud_deq j n s) = live k s"
  "desc_table (ud_deq j n s) = desc_table s" "dsc (ud_deq j n s) k = dsc s k"
  by (simp_all add: ud_deq_def)

lemma exit_or_close_ok [simp]:
  "well i s \<Longrightarrow> well i (ud_exit_or_close i err s)"
  "live i s \<Longrightarrow> live k (ud_exit_or_close i err s) = live k s"
  "length (desc_table (ud_exit_or_close i err s)) = length (desc_table s)"
  by (simp_all add: ud_exit_or_close_def)

lemma reply_error_ok [simp]:
  "well i s \<Longrightarrow> well i (ud_reply_error sk i err s)"
  "live i s \<Longrightarrow> live k (ud_reply_error sk i err s) = live k s"
  "length (desc_table (ud_reply_error sk i err s)) = length (desc_table s)"
  by (simp_all add: ud_reply_error_def Let_def)

lemma unblock_ok [simp]:
  "well i s \<Longrightarrow> well i (unblock sk i s)" "live i s \<Longrightarrow> live k (unblock sk i s) = live k s"
  "length (desc_table (unblock sk i s)) = length (desc_table s)"
  by (simp_all add: unblock_def Let_def)

lemma recv_closed_ok [simp]:
  "well i s \<Longrightarrow> well i (snd (unixdom_recv_closed sk i s))"
  "live i s \<Longrightarrow> live k (snd (unixdom_recv_closed sk i s)) = live k s"
  "length (desc_table (snd (unixdom_recv_closed sk i s))) = length (desc_table s)"
  "fst (unixdom_recv_closed sk i s) = -2"
  by (simp_all add: unixdom_recv_closed_def)

lemma recv_error_ok [simp]:
  "well i s \<Longrightarrow> well i (snd (unixdom_recv_error sk i err s))"
  "live i s \<Longrightarrow> live k (snd (unixdom_recv_error sk i err s)) = live k s"
  "length (desc_table (snd (unixdom_recv_error sk i err s))) = length (desc_table s)"
  "\<not> 0 < fst (unixdom_recv_error sk i err s)"
  by (simp_all add: unixdom_recv_error_def)

section \<open>Writing and reading keep the table in order\<close>

lemma sendv_ok [simp]:
  "well i s \<Longrightarrow> well i (snd (ud_sendv sk j bs s))" "live k (snd (ud_sendv sk j bs s)) = live k s"
  "desc_table (snd (ud_sendv sk j bs s)) = desc_table s" "dsc (snd (ud_sendv sk j bs s)) k = dsc s k"
  by (simp_all add: ud_sendv_def Let_def)

lemma connected_count [simp]:
  "UD_IS_CONNECTED (ud_output_count sk len d) = UD_IS_CONNECTED d"
  by (simp add: UD_IS_CONNECTED_def ud_output_count_def Let_def)

lemma do_outputv_ok:
  assumes "well i s" "UD_IS_CONNECTED (dsc s i)"
  shows "well i (snd (do_outputv sk i ev s))" "live k (snd (do_outputv sk i ev s)) = live k s"
  using assms wellD(2,3) [OF assms(1)]
  by (auto simp: do_outputv_def Let_def case_prod_unfold)

lemma outputv_ok:
  assumes "well i s"
  shows "well i (unixdom_outputv sk i ev s)" "live k (unixdom_outputv sk i ev s) = live k s"
  using assms wellD(2) [OF assms] do_outputv_ok [OF assms]
  by (auto simp: unixdom_outputv_def case_prod_unfold)

lemma below_low_ok [simp]:
  "well i s \<Longrightarrow> well i (below_low sk i s)" "live i s \<Longrightarrow> live k (below_low sk i s) = live k s"
  "length (desc_table (below_low sk i s)) = length (desc_table s)"
  by (simp_all add: below_low_def Let_def)

text \<open>
  What the driver relies on: the queue behaves as documented, and \<^verbatim>\<open>writev\<close> either fails or takes
  some of the bytes it is offered, at least one if there is any; nor is a first part of a queue
  that is not empty empty.
\<close>

definition sockets_ok :: "sockets \<Rightarrow> bool" where
  "sockets_ok sk \<longleftrightarrow>
     driver_queue (so_queue sk) \<and>
     (\<forall>h. 0 < so_window sk h) \<and>
     (\<forall>p fd bs h. -1 \<le> so_count sk ((p, SkSendv fd bs) # h) \<and>
        so_count sk ((p, SkSendv fd bs) # h) \<le> int (length bs) \<and>
        (bs \<noteq> [] \<longrightarrow> so_count sk ((p, SkSendv fd bs) # h) \<noteq> 0))"

lemma sockets_queue: "sockets_ok sk \<Longrightarrow> driver_queue (so_queue sk)"
  by (simp add: sockets_ok_def)

lemma queue_pcall:
  assumes "sockets_ok sk"
  shows "ud_queue sk i (pcall i c s) =
    (case c of Drv (Enq bs) \<Rightarrow> ud_queue sk i s @ bs | Drv (Enqv bs) \<Rightarrow> ud_queue sk i s @ bs
     | Drv (Deq n) \<Rightarrow> drop (nat n) (ud_queue sk i s) | _ \<Rightarrow> ud_queue sk i s)"
  using driver_queue.q_simps [OF sockets_queue [OF assms]] driver_queue.q_frame [OF sockets_queue [OF assms]]
  by (simp add: ud_queue_def split: ud_call.split call.split)

lemma queue_simps [simp]:
  assumes "sockets_ok sk"
  shows "ud_queue sk i (ud_enqv i ev n s) = ud_queue sk i s @ drop (nat n) (concat ev)"
    and "ud_queue sk i (ud_deq i n s) = drop (nat n) (ud_queue sk i s)"
    and "ud_queue sk i (pcall i (Drv (SetBusy n)) s) = ud_queue sk i s"
    and "ud_queue sk i (pcall i (Drv (SetTimer n)) s) = ud_queue sk i s"
    and "ud_queue sk i (pcall i (Drv CancelTimer) s) = ud_queue sk i s"
    and "ud_queue sk i (pcall i (SelectEv e m on) s) = ud_queue sk i s"
    and "ud_queue sk i (ud_output_term i spec s) = ud_queue sk i s"
    and "ud_queue sk i (snd (ud_sendv sk i bs s)) = ud_queue sk i s"
proof -
  have e: "ud_queue sk i (s'\<lparr>uerrno := n\<rparr>) = ud_queue sk i s'" for s' n
    by (simp add: ud_queue_def)
  show "ud_queue sk i (snd (ud_sendv sk i bs s)) = ud_queue sk i s"
    by (simp add: ud_sendv_def sys_call_def Let_def queue_pcall [OF assms] e)
qed (simp_all add: ud_enqv_def ud_deq_def ud_output_term_def queue_pcall [OF assms])

lemma queue_upd [simp]:
  "i < length (desc_table s) \<Longrightarrow> ud_port (f (dsc s i)) = ud_port (dsc s i) \<Longrightarrow>
     ud_queue sk i (upd i f s) = ud_queue sk i s"
  by (simp add: ud_queue_def)

lemma queue_select [simp]:
  "sockets_ok sk \<Longrightarrow> i < length (desc_table s) \<Longrightarrow>
     ud_queue sk i (sock_select i m on s) = ud_queue sk i s"
  by (simp add: sock_select_def Let_def)

lemma queue_below_low [simp]:
  "sockets_ok sk \<Longrightarrow> i < length (desc_table s) \<Longrightarrow> ud_queue sk i (below_low sk i s) = ud_queue sk i s"
  by (simp add: below_low_def ud_set_busy_def ud_reply_ok_def Let_def)

lemma sendv_count:
  assumes "sockets_ok sk"
  shows "-1 \<le> fst (ud_sendv sk i bs s)" "fst (ud_sendv sk i bs s) \<le> int (length bs)"
    and "bs \<noteq> [] \<Longrightarrow> fst (ud_sendv sk i bs s) \<noteq> 0"
  using assms unfolding sockets_ok_def by (simp_all add: ud_sendv_def sys_call_def Let_def)

text \<open>
  The loop that empties the queue: an invariant that one round keeps holds at its end, and the
  fuel is enough.
\<close>

lemma send_queue_rule:
  assumes ok: "sockets_ok sk" and fuel: "length (ud_queue sk i s) < fuel" and start: "P s"
    and range: "\<And>s. P s \<Longrightarrow> i < length (desc_table s)"
    and empty: "\<And>s. P s \<Longrightarrow> ud_queue sk i s = [] \<Longrightarrow> Q (sock_select i FD_WRITE False s)"
    and blocked: "\<And>s bs. P s \<Longrightarrow> ud_queue sk i s \<noteq> [] \<Longrightarrow> fst (ud_sendv sk i bs s) = -1 \<Longrightarrow>
      Q (let s' = snd (ud_sendv sk i bs s) in
         if uerrno s' \<noteq> U_EAGAIN \<and> uerrno s' \<noteq> U_EINTR then ud_reply_error sk i (uerrno s') s' else s')"
    and sent: "\<And>s k n. P s \<Longrightarrow> ud_queue sk i s \<noteq> [] \<Longrightarrow>
      fst (ud_sendv sk i (take k (ud_queue sk i s)) s) = n \<Longrightarrow> 0 < n \<Longrightarrow>
      n \<le> int (length (ud_queue sk i s)) \<Longrightarrow> n \<le> int k \<Longrightarrow>
      P (below_low sk i (ud_deq i n (snd (ud_sendv sk i (take k (ud_queue sk i s)) s))))"
  shows "run_ok {} (\<lambda>_ s. Q s) (send_queue sk i fuel s)"
  using fuel start
proof (induction fuel arbitrary: s)
  case (Suc fuel)
  let ?k = "so_window sk (ulog s)" and ?q = "ud_queue sk i s"
  obtain n s' where r: "ud_sendv sk i (take ?k ?q) s = (n, s')" by fastforce
  show ?case
  proof (cases "?q = [] \<or> n = -1")
    case True
    then show ?thesis using empty [OF Suc.prems(2)] blocked [OF Suc.prems(2), of "take ?k ?q"] r
      by (auto simp: send_queue.simps Let_def)
  next
    case False
    have "take ?k ?q \<noteq> []" using False ok by (simp add: sockets_ok_def)
    then have n: "0 < n" "n \<le> int (length ?q)" "n \<le> int ?k"
      using sendv_count [OF ok, where i = i and bs = "take ?k ?q" and s = s] r False by auto
    have s': "s' = snd (ud_sendv sk i (take ?k ?q) s)" using r by simp
    have q: "ud_queue sk i (below_low sk i (ud_deq i n s')) = drop (nat n) ?q"
      unfolding s' using range [OF Suc.prems(2)] ok by simp
    have P: "P (below_low sk i (ud_deq i n s'))"
      unfolding s' by (rule sent [OF Suc.prems(2) _ _ n]) (use False r in simp_all)
    have "send_queue sk i (Suc fuel) s = send_queue sk i fuel (below_low sk i (ud_deq i n s'))"
      using False r by (simp add: send_queue.simps [of sk i "Suc fuel"])
    moreover have "length (ud_queue sk i (below_low sk i (ud_deq i n s'))) < fuel"
      using Suc.prems(1) n by (simp add: q)
    ultimately show ?thesis using Suc.IH [OF _ P] by simp
  qed
qed simp

lemma ready_output_ok:
  assumes "sockets_ok sk" "well i s"
  shows "run_ok {} (\<lambda>_ s'. well i s' \<and> (\<forall>k. live k s' = live k s)) (unixdom_ready_output sk i s)"
proof -
  let ?P = "\<lambda>s'. well i s' \<and> (\<forall>k. live k s' = live k s)"
  have "run_ok {} (\<lambda>_ s'. ?P s') (send_queue sk i (Suc (length (ud_queue sk i (ud_deq i 0 s)))) (ud_deq i 0 s))"
    by (rule send_queue_rule [OF assms(1), where P = ?P])
       (use assms in \<open>auto simp: wellD Let_def\<close>)
  moreover have "well i (upd i (\<lambda>d. d\<lparr>ud_state := STATE_CONNECTED\<rparr>) s)"
    by (rule well_upd [OF assms(2)]) (auto simp: good_desc_def)
  ultimately show ?thesis using assms(2) by (simp add: unixdom_ready_output_def Let_def wellD)
qed

section \<open>Receiving\<close>

lemma alloc_buf_ok:
  assumes "well i s" "0 \<le> sz"
  shows "well i (snd (ud_alloc_buf sk i sz s))" "live k (snd (ud_alloc_buf sk i sz s)) = live k s"
    and "fst (ud_alloc_buf sk i sz s) \<Longrightarrow> ud_i_buf (dsc (snd (ud_alloc_buf sk i sz s)) i) \<noteq> None"
    and "ud_active (dsc (snd (ud_alloc_buf sk i sz s)) i) = ud_active (dsc s i)"
  using assms wellD(2,3) [OF assms(1)]
  by (auto simp: ud_alloc_buf_def Let_def good_desc_def intro!: well_upd split: if_splits)

definition recv_post :: "nat \<Rightarrow> unixdom \<Rightarrow> int \<Rightarrow> unixdom \<Rightarrow> bool" where
  "recv_post i s n s' \<longleftrightarrow>
     well i s' \<and> (\<forall>k. live k s' = live k s) \<and>
     (n > 0 \<longrightarrow> (\<exists>b. ud_i_buf (dsc s' i) = Some b \<and> n \<le> orig_size b))"

lemma run_ok_pair: "run_ok F Q (Inr p) \<longleftrightarrow> Q (fst p) (snd p)"
  by (simp add: run_ok_def case_prod_unfold)

lemma received_ok:
  assumes "well i s" "ud_i_buf (dsc s i) \<noteq> None"
  shows "run_ok {OutOfBounds} (recv_post i s) (ud_received sk i bs s)"
proof -
  obtain b where b: "ud_i_buf (dsc s i) = Some b" using assms(2) by blast
  let ?s = "upd i (\<lambda>d. d\<lparr>ud_i_buf := Some (b\<lparr>orig_bytes := put_at 0 bs (orig_bytes b)\<rparr>)\<rparr>) s"
  have "well i ?s \<and> live i ?s" if "length bs \<le> length (orig_bytes b)"
    using that b assms(1) by (auto simp: good_desc_def wellD intro!: well_upd)
  moreover have "ud_i_buf (dsc (upd i (ud_input_count sk n) ?s) i) = Some (b\<lparr>orig_bytes := put_at 0 bs (orig_bytes b)\<rparr>)" for n
    using wellD(3) [OF assms(1)] by (simp add: ud_input_count_def Let_def)
  ultimately show ?thesis using b wellD(2) [OF assms(1)]
    by (auto simp: ud_received_def recv_post_def Let_def run_ok_pair)
qed

lemma ud_recv_ok:
  assumes "well i s"
  shows "run_ok {OutOfBounds} (recv_post i s) (unixdom_recv sk i req s)"
proof -
  let ?sz = "if req > 0 then req else ud_bufsz (dsc s i)"
  obtain ok s1 where a: "ud_alloc_buf sk i ?sz s = (ok, s1)" by fastforce
  have "0 \<le> ?sz" using wellD(1) [OF assms] by (auto simp: good_desc_def)
  from alloc_buf_ok [OF assms this, where sk = sk] a
  have w: "well i s1" "\<And>k. live k s1 = live k s" "ok \<Longrightarrow> ud_i_buf (dsc s1 i) \<noteq> None" by simp_all
  have l: "live i s1" using w(1) by (rule wellD)
  have "run_ok {OutOfBounds} (recv_post i s) (ud_received sk i bs (sys_call sk i c k s1))" if ok for bs c k
  proof -
    have "recv_post i (sys_call sk i c k s1) = recv_post i s"
      by (intro ext) (simp add: recv_post_def w(2))
    then show ?thesis
      using received_ok [where i = i and s = "sys_call sk i c k s1" and sk = sk and bs = bs] w that by simp
  qed
  moreover have "run_ok {OutOfBounds} (recv_post i s) (Inr (unixdom_recv_error sk i e (sys_call sk i c k s1)))" for e c k
    using recv_error_ok [where i = i and sk = sk and err = e and s = "sys_call sk i c k s1"] w l
    by (auto simp: run_ok_def recv_post_def case_prod_unfold)
  moreover have "run_ok {OutOfBounds} (recv_post i s) (Inr (unixdom_recv_closed sk i (sys_call sk i c k s1)))" for c k
    using recv_closed_ok [where i = i and sk = sk and s = "sys_call sk i c k s1"] w l
    by (auto simp: run_ok_def recv_post_def case_prod_unfold)
  ultimately show ?thesis using w a
    by (auto simp: unixdom_recv_def Let_def recv_post_def split: option.split)
qed

lemma reply_data_ok:
  assumes "well i s" "ud_i_buf (dsc s i) = Some b" "0 \<le> n" "n \<le> orig_size b"
  shows "run_ok {} (\<lambda>_ s'. well i s' \<and> (\<forall>k. live k s' = live k s)) (ud_reply_data i n s)"
  using assms by (simp add: ud_reply_data_def Let_def wellD)

section \<open>Commands keep the table in order\<close>

definition stays :: "nat \<Rightarrow> unixdom \<Rightarrow> unixdom \<Rightarrow> bool" where
  "stays i s s' \<longleftrightarrow> well i s' \<and> (\<forall>k. live k s' = live k s)"

lemma ctl_reply_ok:
  assumes "well i s'" "\<And>k. live k s' = live k s"
  shows "run_ok {NullPtr} (\<lambda>_. stays i s) (ud_ctl_reply sk i rep buf rbuflen s')"
  using assms by (simp add: ud_ctl_reply_def Let_def stays_def)

lemmas ctl_replies = ud_ctl_error_def ud_ctl_xerror_def ud_ctl_ok_def

lemma ctl_reply_weak:
  assumes "well i s'" "\<And>k. live k s' = live k s" "NullPtr \<in> F"
  shows "run_ok F (\<lambda>_. stays i s) (ud_ctl_reply sk i rep buf rbuflen s')"
  by (rule run_ok_weaken [OF ctl_reply_ok [OF assms(1,2)]]) (use assms(3) in auto)

lemma others_select [simp]:
  "others_ok i (sock_select i flags on s) = others_ok i s"
  "others_ok i (sys_call sk j c ok s) = others_ok i s"
  by (simp_all add: sock_select_def sys_call_def Let_def)

lemma good_ix: "good_desc n i d \<Longrightarrow> -1 \<le> ud_i_ix d \<and> ud_i_ix d < int n"
  by (simp add: good_desc_def)

lemma open_ok:
  assumes "well i s"
  shows "run_ok {NullPtr} (\<lambda>_. stays i s) (ud_ctl_open sk i rbuflen s)"
proof -
  have "well i (upd i (\<lambda>d. d\<lparr>ud_state := STATE_OPEN, ud_stype := t\<rparr>) (pcall i c
          (upd i (\<lambda>d. d\<lparr>ud_event := fd\<rparr>) (upd i (\<lambda>d. d\<lparr>ud_s := fd\<rparr>) s'))))"
    if "well i s'" for t c fd s'
    using that by (auto simp: well_iff good_desc_def live_length)
  moreover have "well i (upd i (\<lambda>d. d\<lparr>ud_s := -1\<rparr>) (sys_call sk i c ok s))"
    if "ud_state (dsc s i) = STATE_CLOSED" for c ok
    using assms that by (auto simp: good_desc_def intro!: well_upd)
  ultimately show ?thesis using assms wellD(2) [OF assms]
    by (auto simp: ud_ctl_open_def ctl_replies Let_def intro!: ctl_reply_weak)
qed

text \<open>The states a port that is open can go to.\<close>

lemma well_state:
  assumes "well i s" "legal_state st" "st \<noteq> STATE_CLOSED" "st \<noteq> STATE_ACCEPTING" "st \<noteq> STATE_LISTENING"
  shows "well i (upd i (\<lambda>d. d\<lparr>ud_state := st\<rparr>) s)"
  by (rule well_upd [OF assms(1)]) (use assms(2-) in \<open>simp add: good_desc_def\<close>)

lemma set_timer_ok [simp]:
  "well i (ud_set_timer j n s) = well i s" "live k (ud_set_timer j n s) = live k s"
  "desc_table (ud_set_timer j n s) = desc_table s" "dsc (ud_set_timer j n s) k = dsc s k"
  by (simp_all add: ud_set_timer_def)

lemma connect_ok:
  assumes "well i s"
  shows "run_ok {NullPtr, OutOfBounds} (\<lambda>_. stays i s) (ud_ctl_connect sk i p rbuflen s)"
proof -
  have "run_ok {NullPtr, OutOfBounds} (\<lambda>_. stays i s) (ud_connect_to sk i timeout path rbuflen s)"
    for timeout path
    using assms wellD(2) [OF assms]
    by (auto simp: ud_connect_to_def ctl_replies Let_def well_state intro!: ctl_reply_weak)
  then show ?thesis using assms wellD(2) [OF assms]
    by (auto simp: ud_ctl_connect_def ud_unconnected_def sock_path_def ctl_replies intro!: ctl_reply_weak)
qed

lemma bind_ok:
  assumes "well i s"
  shows "run_ok {NullPtr, OutOfBounds, Aborts} (\<lambda>_. stays i s) (ud_ctl_bind sk i buf rbuflen s)"
proof -
  have "run_ok {NullPtr, OutOfBounds, Aborts} (\<lambda>_. stays i s) (ud_bind_to sk i backlog path rbuflen s)"
    for backlog path
    using assms wellD(2) [OF assms]
    by (auto simp: ud_bind_to_def ctl_replies Let_def well_state intro!: ctl_reply_weak)
  then show ?thesis using assms wellD(2) [OF assms]
    by (auto simp: ud_ctl_bind_def ud_unconnected_def sock_path_def ctl_replies intro!: ctl_reply_weak)
qed

lemma close_ok:
  assumes "well i s"
  shows "run_ok {NullPtr} (\<lambda>_. stays i s) (ud_ctl_close sk i rbuflen s)"
proof -
  have "run_ok {NullPtr} (\<lambda>_. stays i s) (ud_ctl_ok sk i rbuflen
         (upd i (\<lambda>d. d\<lparr>ud_state := STATE_CLOSED\<rparr>) (desc_close i (clear_input i s'))))"
    if "stays i s s'" for s'
  proof -
    have "well i s'" "live k s' = live k s" for k using that by (simp_all add: stays_def)
    then show ?thesis unfolding ud_ctl_ok_def using wellD [of i s']
      by (intro ctl_reply_weak) (simp_all add: well_closed)
  qed
  moreover have "stays i s s" using assms by (simp add: stays_def)
  moreover have "run_ok {NullPtr} (\<lambda>_. stays i s) (ud_ctl_error sk i U_EINVAL rbuflen s)"
    using assms by (auto simp: ud_ctl_error_def intro!: ctl_reply_weak)
  ultimately show ?thesis
    by (auto simp: ud_ctl_close_def elim: run_ok_mono)
qed

lemma write_ok:
  assumes "well i s"
  shows "run_ok {NullPtr} (\<lambda>_. stays i s) (ud_ctl_write sk i buf rbuflen s)"
  using assms wellD(2) [OF assms]
  by (auto simp: ud_ctl_write_def ctl_replies Let_def intro!: ctl_reply_weak)

lemma ctl_recv_ok:
  assumes "well i s"
  shows "run_ok {NullPtr, OutOfBounds} (\<lambda>_. stays i s) (ud_ctl_recv sk i n timeout rbuflen s)"
proof -
  have data: "run_ok {NullPtr, OutOfBounds} (\<lambda>_. stays i s)
      (andthen (ud_reply_data i n s') (\<lambda>_ s. ud_ctl_ok sk i rbuflen s))"
    if post: "recv_post i s n s'" "0 < n" for s' n
  proof -
    obtain b where b: "ud_i_buf (dsc s' i) = Some b" "n \<le> orig_size b" "well i s'"
      using post by (auto simp: recv_post_def)
    have l: "live k s' = live k s" for k using post(1) by (simp add: recv_post_def)
    from b have "run_ok {NullPtr, OutOfBounds} (\<lambda>_ s''. well i s'' \<and> (\<forall>k. live k s'' = live k s')) (ud_reply_data i n s')"
      using reply_data_ok [of i s' b n] post(2) by (auto elim: run_ok_weaken)
    then show ?thesis using l
      by (auto simp: ud_ctl_ok_def elim!: run_ok_mono intro!: ctl_reply_weak)
  qed
  have handle: "run_ok {NullPtr, OutOfBounds} (\<lambda>_. stays i s)
     (if n > 0 then andthen (ud_reply_data i n s') (\<lambda>_ s. ud_ctl_ok sk i rbuflen s)
        else if n = 0 then
          if timeout = 0 then ud_ctl_ok sk i rbuflen (ud_reply_error_am i ''timeout'' s')
          else ud_ctl_ok sk i rbuflen
                 (sock_select i (FD_READ OR FD_CLOSE) True (ud_set_timer i timeout s'))
        else if n = -1 then ud_ctl_error sk i (uerrno s') rbuflen s'
        else if n = -2 then ud_ctl_xerror sk i ''closed'' rbuflen s'
        else Inr ([], s'))" if "recv_post i s n s'" for n s'
  proof -
    have w: "well i s'" and l: "live k s' = live k s" for k using that by (simp_all add: recv_post_def)
    have reply: "run_ok {NullPtr, OutOfBounds} (\<lambda>_. stays i s) (ud_ctl_reply sk i rep buf rbuflen s'')"
      if "well i s''" "\<And>k. live k s'' = live k s'" for rep buf s''
      by (rule ctl_reply_weak) (use that l in simp_all)
    have "stays i s s'" using w l by (simp add: stays_def)
    then show ?thesis using data [OF that] w wellD(2) [OF w] by (simp add: ctl_replies reply)
  qed
  have recv: "run_ok {NullPtr, OutOfBounds} (recv_post i s) (unixdom_recv sk i n s)"
    by (rule run_ok_weaken [OF ud_recv_ok [OF assms]]) auto
  show ?thesis
  proof (cases "UD_IS_CONNECTED (dsc s i)")
    case True
    then show ?thesis unfolding ud_ctl_recv_def
      by (simp only: not_True_eq_False if_False run_ok_andthen)
         (rule run_ok_mono [OF recv], rule handle)
  next
    case False
    then show ?thesis using assms wellD(2) [OF assms]
      by (simp add: ud_ctl_recv_def case_prod_unfold stays_def)
  qed
qed

lemma set_active_ok [simp]:
  "well i s \<Longrightarrow> well i (ud_set_active i a s)" "live i s \<Longrightarrow> live k (ud_set_active i a s) = live k s"
  by (simp_all add: ud_set_active_def Let_def)

lemma stays_trans: "stays i s s' \<Longrightarrow> stays i s' s'' \<Longrightarrow> stays i s s''"
  by (simp add: stays_def)

lemma setopts_ok:
  "well i s \<Longrightarrow> run_ok {NullPtr, OutOfBounds} (\<lambda>_. stays i s) (ud_ctl_setopts sk i bs rbuflen s)"
proof (induction sk i bs rbuflen s rule: ud_ctl_setopts.induct)
  case (2 sk i b bs rbuflen s)
  have reply: "run_ok {NullPtr, OutOfBounds} (\<lambda>_. stays i s) (ud_ctl_reply sk i rep buf rbuflen s')"
    if "well i s'" "\<And>k. live k s' = live k s" for rep buf s'
    by (rule ctl_reply_weak) (use that in simp_all)
  have l: "live i s" using "2.prems" by (rule wellD)
  have IH: "run_ok {NullPtr, OutOfBounds} (\<lambda>_. stays i s) (ud_ctl_setopts sk i bs' rbuflen s')"
    if "run_ok {NullPtr, OutOfBounds} (\<lambda>_. stays i s') (ud_ctl_setopts sk i bs' rbuflen s')" "stays i s s'"
    for bs' s'
    by (rule run_ok_mono [OF that(1)]) (rule stays_trans [OF that(2)])
  consider "b = 0" | "b = 1" | "b = 2" | "b = 3" | "b \<noteq> 0" "b \<noteq> 1" "b \<noteq> 2" "b \<noteq> 3" by blast
  then show ?case
  proof cases
    case 3
    have "run_ok {NullPtr, OutOfBounds} (\<lambda>_. stays i s) (ud_ctl_setopts sk i r rbuflen (ud_set_active i a s))"
      if "bs = a # r" for a r
      by (rule IH, rule "2.IH"(2)) (use 3 that "2.prems" l in \<open>simp_all add: stays_def\<close>)
    then show ?thesis using 3 by (simp split: list.split)
  next
    case 4
    let ?l = "bytes_at 0 4 bs"
    let ?s = "sys_call sk i (SkListen (ud_s (dsc s i)) (get_int32 ?l)) (so_ok sk) s"
    have "run_ok {NullPtr, OutOfBounds} (\<lambda>_. stays i s)
        (ud_ctl_setopts sk i (drop 4 bs) rbuflen (upd i (\<lambda>d. d\<lparr>ud_backlog := get_int32 ?l\<rparr>) ?s))"
      if "UD_IS_OPEN (dsc s i)" "UD_IS_BOUND (dsc s i)" "so_ok sk (ulog ?s)"
      by (rule IH, rule "2.IH"(3)) (use 4 that "2.prems" l in \<open>simp_all add: stays_def\<close>)
    then show ?thesis using 4 "2.prems" l by (simp add: ctl_replies reply Let_def)
  qed (use "2.prems" "2.IH"(1) l in \<open>simp_all add: ctl_replies reply\<close>)
qed simp

lemma take_socket_ok:
  assumes "well i s"
  shows "well i (ud_take_socket i fd s)" "live k (ud_take_socket i fd s) = live k s"
  using assms
  by (auto simp: ud_take_socket_def Let_def well_iff good_desc_def live_length)

lemma accept_call_ok [simp]:
  "well i s \<Longrightarrow> well i (snd (ud_accept sk l s))" "live k (snd (ud_accept sk l s)) = live k s"
  "dsc (snd (ud_accept sk l s)) j = dsc s j" "desc_table (snd (ud_accept sk l s)) = desc_table s"
  by (simp_all add: ud_accept_def Let_def)

lemma accept_ok:
  assumes "well i s"
  shows "run_ok {NullPtr, OutOfBounds, Aborts} (\<lambda>_. stays i s) (ud_ctl_accept sk i buf rbuflen s)"
proof -
  have reply: "run_ok {NullPtr, OutOfBounds, Aborts} (\<lambda>_. stays i s) (ud_ctl_reply sk i rep bs rbuflen s')"
    if "well i s'" "\<And>k. live k s' = live k s" for rep bs s'
    by (rule ctl_reply_weak) (use that in simp_all)
  have "run_ok {NullPtr, OutOfBounds, Aborts} (\<lambda>_. stays i s) (ud_accept_from sk i l timeout rbuflen s)"
    if l: "live l s" and closed: "ud_state (dsc s i) = STATE_CLOSED" for l timeout
  proof -
    have wl: "well l s" using well_others [OF assms l] .
    let ?s1 = "upd i (ud_inherit (dsc s l)) s"
    have w1: "well i ?s1" "\<And>k. live k ?s1 = live k s" if "ud_i_buf (dsc s i) = None"
      using that wellD [OF assms] wellD(1) [OF wl]
      by (auto intro!: well_upd [OF assms] simp: good_desc_def ud_inherit_def)
    obtain fd s2 where a: "ud_accept sk l ?s1 = (fd, s2)" by fastforce
    have s2: "s2 = snd (ud_accept sk l ?s1)" using a by simp
    let ?s3 = "upd l (\<lambda>d. d\<lparr>ud_state := STATE_LISTENING,
        ud_i_ix := ud_ix (dsc (upd i (\<lambda>d. d\<lparr>ud_state := STATE_ACCEPTING\<rparr>) s2) i)\<rparr>)
        (upd i (\<lambda>d. d\<lparr>ud_state := STATE_ACCEPTING\<rparr>) s2)"
    show ?thesis
    proof (cases "ud_state (dsc s l) = STATE_LISTEN \<and> ud_i_buf (dsc s i) = None")
      case True
      then have il: "l \<noteq> i" using closed by auto
      have w2: "well i s2" "\<And>k. live k s2 = live k s" using w1 True by (simp_all add: s2)
      have d: "dsc s2 i = ud_inherit (dsc s l) (dsc s i)" "dsc s2 l = dsc s l"
        "length (desc_table s2) = length (desc_table s)"
        using il wellD(3) [OF assms] by (simp_all add: s2)
      have "ud_s (dsc s2 i) = -1"
        using wellD(1) [OF assms] closed by (simp add: d ud_inherit_def good_desc_def)
      then have wi: "well i (upd i (\<lambda>d. d\<lparr>ud_state := STATE_ACCEPTING\<rparr>) s2)"
        by (intro well_upd [OF w2(1)]) (simp add: good_desc_def)
      have live: "live l s2" "live i s2" "live l (upd i (\<lambda>d. d\<lparr>ud_state := STATE_ACCEPTING\<rparr>) s2)"
        using l wellD(2) [OF assms] by (simp_all add: w2(2))
      have ix: "0 \<le> ud_ix (dsc s2 i)" "ud_ix (dsc s2 i) < int (length (desc_table s2))"
        using wellD(1) [OF w2(1)] wellD(3) [OF w2(1)] by (simp_all add: good_desc_def)
      have "well l ?s3"
        by (rule well_upd [OF well_others [OF wi live(3)]])
           (use ix live_length [OF live(2)] in \<open>simp add: good_desc_def\<close>)
      then have w3: "well l (sock_select l FD_ACCEPT True ?s3)"
          "\<And>k. live k (sock_select l FD_ACCEPT True ?s3) = live k s"
        using w2(2) live by simp_all
      then have "well i (sock_select l FD_ACCEPT True ?s3)"
        using well_others wellD(2) [OF assms] by blast
      then show ?thesis using True a w2 w3(2)
        by (auto simp: ud_accept_from_def ctl_replies Let_def reply take_socket_ok)
    qed (auto simp: ud_accept_from_def ctl_replies reply assms)
  qed
  then show ?thesis
    by (auto simp: ud_ctl_accept_def desc_at_def ctl_replies reply assms live_def nat_less_iff)
qed

lemma length_ud_opt: "length (ud_opt d cmd) \<le> 9"
  by (simp add: ud_opt_def)

lemma getopts_ok:
  assumes "well i s"
  shows "run_ok {NullPtr, IntOverflow} (\<lambda>_. stays i s) (ud_ctl_getopts sk i buf rbuflen s)"
proof -
  have "length (concat (map (ud_opt d) buf)) \<le> length buf * 9" for d
    by (induction buf) (auto intro: add_mono length_ud_opt)
  then have "int (length (concat (map (ud_opt d) buf))) \<le> int (length buf) * 9" for d
    by (metis of_nat_le_iff of_nat_mult of_nat_numeral)
  moreover have "run_ok {NullPtr, IntOverflow} (\<lambda>_. stays i s) (ud_ctl_reply sk i rep bs rbuflen s')"
    if "well i s'" "\<And>k. live k s' = live k s" for rep bs s'
    by (rule ctl_reply_weak) (use that in simp_all)
  ultimately show ?thesis using assms
    by (simp add: ud_ctl_getopts_def ctl_replies Let_def stays_def) (smt (verit))
qed

text \<open>The faults each call may run into.\<close>

fun ud_faults :: "ud_event \<Rightarrow> fault set" where
  "ud_faults (UCtl i cmd buf rbuflen) =
     (if cmd = 4 \<or> cmd = 7 \<or> cmd = 8 then {NullPtr, OutOfBounds}
      else if cmd = 9 \<or> cmd = 10 then {NullPtr, OutOfBounds, Aborts}
      else if cmd = 12 then {NullPtr, IntOverflow}
      else {NullPtr})"
| "ud_faults (UReadyInput i) = {OutOfBounds}"
| "ud_faults (UTimeout i) = {Aborts}"
| "ud_faults _ = {}"

lemma ctl_ok:
  assumes "well i s"
  shows "run_ok (ud_faults (UCtl i cmd buf rbuflen)) (\<lambda>_. stays i s) (unixdom_ctl sk i cmd buf rbuflen s)"
proof -
  have "run_ok {NullPtr} (\<lambda>_. stays i s) (ud_ctl_reply sk i rep bs rbuflen s)" for rep bs
    by (rule ctl_reply_weak) (use assms in simp_all)
  then show ?thesis
    by (simp add: unixdom_ctl_def ud_ctl_endian_def ud_ctl_knuthhash_def ctl_replies
          open_ok [OF assms] connect_ok [OF assms] bind_ok [OF assms] close_ok [OF assms] write_ok [OF assms]
          ctl_recv_ok [OF assms] setopts_ok [OF assms] accept_ok [OF assms] getopts_ok [OF assms])
qed

section \<open>Start, stop and callbacks keep the table in order\<close>

text \<open>The search comes back to where it started after as many steps as the table has entries.\<close>

lemma find_slot_ends:
  assumes "save < length t" "ix = (save + k) mod length t" "fuel + k = length t" "0 < fuel"
  shows "\<exists>j. find_slot fuel t save ix = Some j \<and> j < length t"
  using assms
proof (induction fuel arbitrary: ix k)
  case (Suc fuel)
  have nxt: "(ix + 1) mod length t = (save + Suc k) mod length t"
    using Suc.prems(2) by (simp add: mod_Suc_eq)
  have lt: "ix < length t" "(ix + 1) mod length t < length t"
    using Suc.prems(1,2) by (auto intro: mod_less_divisor)
  show ?case
  proof (cases fuel)
    case 0
    then have "save + Suc k = save + length t" using Suc.prems(3) by simp
    then have "(ix + 1) mod length t = save" using nxt Suc.prems(1) by (simp del: add_Suc_right)
    then show ?thesis using lt 0 Suc.prems(1) by (simp add: Let_def)
  next
    case (Suc f)
    then show ?thesis using Suc.IH [OF Suc.prems(1) nxt] Suc.prems lt by (simp add: Let_def)
  qed
qed simp

lemma start_ok:
  assumes "ud_inv s"
  shows "run_ok {} (\<lambda>_. ud_inv) (unixdom_start sk port s)"
proof -
  have "desc_ix s < length (desc_table s)" using assms by (simp add: ud_inv_def)
  then obtain j where j: "find_slot (length (desc_table s)) (desc_table s) (desc_ix s) (desc_ix s) = Some j"
      "j < length (desc_table s)"
    using find_slot_ends [of "desc_ix s" "desc_table s" "desc_ix s" 0 "length (desc_table s)"]
    by (cases "desc_table s = []") auto
  have "good_desc n j (ud_new port j)" if "0 < n" for n
    using that by (simp add: good_desc_def ud_new_def)
  moreover have "0 < length (desc_table s)" using j(2) by linarith
  ultimately show ?thesis using assms j
    by (auto simp: unixdom_start_def Let_def ud_inv_def nth_list_update intro: mod_less_divisor)
qed

lemma clear_listener_ok:
  assumes "well i s" "ud_state (dsc s i) = STATE_ACCEPTING"
  shows "run_ok {} (\<lambda>_ s'. stays i s s' \<and> ud_ix (dsc s' i) = ud_ix (dsc s i)) (clear_listener i s)"
proof -
  let ?w = "\<lambda>l. waits_for (ud_ix (dsc s i)) (desc_table s ! l)"
  have "stays i s (upd l (\<lambda>d. d\<lparr>ud_i_ix := -1\<rparr>) s') \<and>
      ud_ix (dsc (upd l (\<lambda>d. d\<lparr>ud_i_ix := -1\<rparr>) s') i) = ud_ix (dsc s i)"
    if "find ?w [0..<length (desc_table s)] = Some l"
      and s': "s' = (if ud_state (dsc s l) = STATE_LISTENING then
         sock_select l FD_ACCEPT False (upd l (\<lambda>d. d\<lparr>ud_state := STATE_LISTEN\<rparr>) s) else s)" for l s'
  proof -
    have l: "l < length (desc_table s)" "?w l"
      using that(1) by (auto simp: find_Some_iff)
    then have live: "live l s" by (auto simp: live_def waits_for_def split: option.splits)
    then have wl: "well l s" by (rule well_others [OF assms(1)])
    have w: "well l s'" "\<And>k. live k s' = live k s" "ud_state (dsc s' l) \<noteq> STATE_LISTENING"
      using wl live l(1) by (auto simp: s' well_state)
    have "well l (upd l (\<lambda>d. d\<lparr>ud_i_ix := -1\<rparr>) s')"
      by (rule well_upd [OF w(1)]) (use w(3) in \<open>auto simp: good_desc_def\<close>)
    then have "stays i s (upd l (\<lambda>d. d\<lparr>ud_i_ix := -1\<rparr>) s')"
      using w(2) live wellD(2) [OF assms(1)] by (simp add: stays_def) (metis live_simps(3) well_others)
    moreover have "ud_ix (dsc (upd l (\<lambda>d. d\<lparr>ud_i_ix := -1\<rparr>) s') i) = ud_ix (dsc s i)"
      using l(1) by (cases "l = i") (auto simp: s')
    ultimately show ?thesis by blast
  qed
  then show ?thesis using assms
    by (auto simp: clear_listener_def stays_def split: option.split)
qed

lemma timeout_ok:
  assumes "well i s"
  shows "run_ok {Aborts} (\<lambda>_. stays i s) (unixdom_timeout i s)"
proof -
  have "run_ok {Aborts} (\<lambda>_ s'. stays i s s') (clear_listener i s)"
    if "ud_state (dsc s i) = STATE_ACCEPTING"
    by (rule run_ok_weaken [OF clear_listener_ok [OF assms that]]) auto
  moreover have "legal_state (ud_state (dsc s i))" using wellD(1) [OF assms] by (simp add: good_desc_def)
  ultimately show ?thesis using assms wellD(2) [OF assms]
    by (auto simp: unixdom_timeout_def Let_def stays_def legal_cases(5) elim!: run_ok_mono)
qed

lemma ready_input_ok:
  assumes "well i s"
  shows "run_ok {OutOfBounds} (\<lambda>_. stays i s) (unixdom_ready_input sk i s)"
proof (cases "ud_state (dsc s i) = STATE_LISTENING")
  case True
  let ?ix = "ud_i_ix (dsc s i)"
  let ?s = "upd i (\<lambda>d. d\<lparr>ud_state := STATE_LISTEN, ud_i_ix := -1\<rparr>) (sock_select i FD_ACCEPT False s)"
  have l: "live i s" "i < length (desc_table s)" using wellD [OF assms] by simp_all
  have w: "well i ?s" and lv: "live k ?s = live k s" for k
    using assms l by (auto simp: good_desc_def intro!: well_upd)
  have "stays i s (desc_close a (ud_reply_error sk a e (snd (ud_accept sk i ?s))))"
    and "stays i s (ud_reply_ok i (ud_take_socket a fd (snd (ud_accept sk i ?s))))"
    if "live a s" for a e fd
  proof -
    have la: "live k (snd (ud_accept sk i ?s)) = live k s" for k using lv by simp
    have wa: "well a (snd (ud_accept sk i ?s))"
      by (rule well_others [OF accept_call_ok(1) [OF w]]) (simp only: la that)
    have "live a (snd (ud_accept sk i ?s))" using la that by simp
    then have "well a (desc_close a (ud_reply_error sk a e (snd (ud_accept sk i ?s))))"
      "live k (desc_close a (ud_reply_error sk a e (snd (ud_accept sk i ?s)))) = live k s" for k
      using wa la by simp_all
    then show "stays i s (desc_close a (ud_reply_error sk a e (snd (ud_accept sk i ?s))))"
      using l(1) unfolding stays_def by (metis well_others)
    have "well a (ud_reply_ok i (ud_take_socket a fd (snd (ud_accept sk i ?s))))"
      "live k (ud_reply_ok i (ud_take_socket a fd (snd (ud_accept sk i ?s)))) = live k s" for k
      using take_socket_ok [OF wa] la by simp_all
    then show "stays i s (ud_reply_ok i (ud_take_socket a fd (snd (ud_accept sk i ?s))))"
      using l(1) unfolding stays_def by (metis well_others)
  qed
  moreover have "live (nat ix) s" if "0 \<le> ix" "ix < int (length (desc_table s))" "desc_table ?s ! nat ix = Some y" for ix y
    using that lv [of "nat ix"] by (simp add: live_def nat_less_iff)
  ultimately show ?thesis using True w lv
    by (auto simp: unixdom_ready_input_def Let_def desc_at_def case_prod_unfold stays_def)
next
  case False
  have l: "live i s" using wellD [OF assms] by simp
  have rest: "run_ok {OutOfBounds} (\<lambda>_. stays i s) (andthen (if n > 0 then ud_reply_data i n s' else Inr (n, s')) (\<lambda>_ s.
            Inr ((), if ud_active (dsc s i) = 0 then sock_select i (FD_READ OR FD_CLOSE) False s
                     else s)))" if post: "recv_post i s n s'" for n s'
  proof -
    have w: "well i s'" "live k s' = live k s" for k using post by (simp_all add: recv_post_def)
    have "run_ok {OutOfBounds} (\<lambda>_ s''. well i s'' \<and> (\<forall>k. live k s'' = live k s'))
        (if n > 0 then ud_reply_data i n s' else Inr (n, s'))"
    proof (cases "n > 0")
      case True
      then obtain b where b: "ud_i_buf (dsc s' i) = Some b" "n \<le> orig_size b"
        using post by (auto simp: recv_post_def)
      show ?thesis using run_ok_weaken [OF reply_data_ok [OF w(1) b(1) _ b(2)]] True by simp
    qed (use w in simp)
    then show ?thesis using w l by (auto simp: stays_def elim!: run_ok_mono)
  qed
  have "run_ok {OutOfBounds} (\<lambda>_. stays i s) (andthen (unixdom_recv sk i 0 s) (\<lambda>n s'.
      andthen (if n > 0 then ud_reply_data i n s' else Inr (n, s')) (\<lambda>_ s.
            Inr ((), if ud_active (dsc s i) = 0 then sock_select i (FD_READ OR FD_CLOSE) False s
                     else s))))"
    by (subst run_ok_andthen) (rule run_ok_mono [OF ud_recv_ok [OF assms]], rule rest)
  then show ?thesis using False assms l by (simp add: unixdom_ready_input_def stays_def)
qed

lemma stop_notify_ok:
  assumes "well i s"
  shows "run_ok {} (\<lambda>_. stays i s) (ud_stop_notify sk i s)"
proof -
  have "stays i s (ud_reply_error sk a e s)" if "live a s" for a e
  proof -
    have "well a (ud_reply_error sk a e s)" "live k (ud_reply_error sk a e s) = live k s" for k
      using well_others [OF assms that] that by simp_all
    then show ?thesis using wellD(2) [OF assms] well_others by (simp only: stays_def) blast
  qed
  moreover have "live (nat ix) s" if "0 \<le> ix" "ix < int (length (desc_table s))" "desc_table s ! nat ix = Some y"
    for ix y
    using that by (simp add: live_def nat_less_iff)
  moreover have "0 \<le> ud_i_ix (dsc s i)" "ud_i_ix (dsc s i) < int (length (desc_table s))"
    if "ud_state (dsc s i) = STATE_LISTENING"
    using wellD(1) [OF assms] that by (simp_all add: good_desc_def)
  moreover have "run_ok {} (\<lambda>_ s'. stays i s (ud_reply_error_am i r s')) (clear_listener i s)"
    if "ud_state (dsc s i) = STATE_ACCEPTING" for r
    by (rule run_ok_mono [OF clear_listener_ok [OF assms that]]) (simp add: stays_def)
  moreover have "stays i s s" using assms by (simp add: stays_def)
  ultimately show ?thesis using assms
    by (auto simp: ud_stop_notify_def desc_at_def Let_def stays_def [of i s "ud_reply_error_am i r s" for r])
qed

lemma stop_close_ok:
  assumes "well i s"
  shows "well i (ud_stop_close i s)"
  using assms wellD(3) [OF assms] by (simp add: ud_stop_close_def well_closed)

lemma stop_ok:
  assumes "well i s"
  shows "run_ok {} (\<lambda>_. ud_inv) (unixdom_stop sk i s)"
proof -
  have last: "run_ok {} (\<lambda>_. ud_inv) (let s = ud_stop_close i s' in
      desc_at s (ud_ix (dsc s i)) (\<lambda>_.
        Inr ((), s\<lparr>desc_table := (desc_table s)[nat (ud_ix (dsc s i)) := None]\<rparr>)))"
    if "stays i s'' s'" for s' s''
  proof -
    have w: "well i (ud_stop_close i s')" using that by (simp add: stays_def stop_close_ok)
    have "ud_ix (dsc (ud_stop_close i s') i) = int i" "i < length (desc_table (ud_stop_close i s'))"
      using wellD [OF w] by (simp_all add: good_desc_def)
    then show ?thesis using w
      by (auto simp: desc_at_def well_def ud_inv_def Let_def nth_list_update)
  qed
  have "run_ok {} (\<lambda>_. ud_inv) (andthen (ud_stop_notify sk i s') (\<lambda>_ s. let s = ud_stop_close i s in
      desc_at s (ud_ix (dsc s i)) (\<lambda>_.
        Inr ((), s\<lparr>desc_table := (desc_table s)[nat (ud_ix (dsc s i)) := None]\<rparr>))))"
    if "well i s'" for s'
    by (subst run_ok_andthen) (rule run_ok_mono [OF stop_notify_ok [OF that]], rule last)
  then show ?thesis using assms wellD(2) [OF assms] by (simp add: unixdom_stop_def Let_def)
qed

section \<open>Every event\<close>

definition on_live :: "ud_event \<Rightarrow> unixdom \<Rightarrow> bool" where
  "on_live e s \<longleftrightarrow> (case e of UStart p \<Rightarrow> True | UStop i \<Rightarrow> live i s | UCtl i c b n \<Rightarrow> live i s
     | UOutputv i ev \<Rightarrow> live i s | UReadyInput i \<Rightarrow> live i s | UReadyOutput i \<Rightarrow> live i s
     | UTimeout i \<Rightarrow> live i s)"

lemma step_ok:
  assumes "sockets_ok sk" "ud_inv s" "on_live e s"
  shows "run_ok (ud_faults e) (\<lambda>_. ud_inv) (ud_step sk e s)"
proof (cases e)
  case (UCtl i cmd buf n)
  then have "well i s" using assms by (simp add: on_live_def well_def)
  then show ?thesis using UCtl assms(3) ctl_ok [of i s cmd buf n sk]
    by (auto simp: on_port_def on_live_def stays_def well_def elim!: run_ok_mono simp del: ud_faults.simps)
next
  case (UOutputv i ev)
  then have "well i s" using assms by (simp add: on_live_def well_def)
  then show ?thesis using UOutputv assms(3) outputv_ok [where i = i and s = s and sk = sk and ev = ev]
    by (simp add: on_port_def on_live_def well_def)
next
  case (UReadyOutput i)
  then have "well i s" using assms by (simp add: on_live_def well_def)
  from ready_output_ok [OF assms(1) this] show ?thesis using UReadyOutput assms(3)
    by (auto simp: on_port_def on_live_def well_def elim!: run_ok_mono)
next
  case (UReadyInput i)
  then have "well i s" using assms by (simp add: on_live_def well_def)
  from ready_input_ok [OF this, where sk = sk] show ?thesis using UReadyInput assms(3)
    by (auto simp: on_port_def on_live_def stays_def well_def elim!: run_ok_mono)
next
  case (UTimeout i)
  then have "well i s" using assms by (simp add: on_live_def well_def)
  from timeout_ok [OF this] show ?thesis using UTimeout assms(3)
    by (auto simp: on_port_def on_live_def stays_def well_def elim!: run_ok_mono)
next
  case (UStop i)
  then have "well i s" using assms by (simp add: on_live_def well_def)
  from stop_ok [OF this, where sk = sk] show ?thesis using UStop assms(3)
    by (auto simp: on_port_def on_live_def elim!: run_ok_mono)
next
  case (UStart p)
  from start_ok [OF assms(2), where sk = sk and port = p] show ?thesis using UStart by (auto elim!: run_ok_mono)
qed

inductive ud_reachable :: "sockets \<Rightarrow> nat \<Rightarrow> unixdom \<Rightarrow> bool" for sk n where
  ud_init: "ud_driver_init sk n = Some s \<Longrightarrow> ud_reachable sk n s"
| ud_next: "ud_reachable sk n s \<Longrightarrow> on_live e s \<Longrightarrow> ud_step sk e s = Inr (r, s') \<Longrightarrow> ud_reachable sk n s'"

lemma reachable_ud_inv:
  assumes "sockets_ok sk" "0 < n" "ud_reachable sk n s"
  shows "ud_inv s"
  using assms(3)
proof induction
  case (ud_init s)
  then show ?case using assms(2) by (auto simp: ud_driver_init_def ud_inv_def split: if_splits)
next
  case (ud_next s e r s')
  then show ?case using step_ok [OF assms(1), of s e] by simp
qed

end
