(* ===== verification/Unixdom_Service.thy ===== *)
theory Unixdom_Service
  imports Unixdom_Table
begin

text \<open>
  What the Unix domain socket driver does with what is written to a connected port, how a
  connection is accepted, and what becomes of the timers it never cancels.
\<close>

section \<open>Written data\<close>

text \<open>The bytes that \<^verbatim>\<open>writev\<close> has taken for a port so far.\<close>

fun ud_taken :: "sockets \<Rightarrow> int \<Rightarrow> ulog \<Rightarrow> byte list" where
  "ud_taken sk p [] = []"
| "ud_taken sk p ((q, SkSendv fd bs) # h) =
     ud_taken sk p h @
     (if q = p then take (nat (so_count sk ((q, SkSendv fd bs) # h))) bs else [])"
| "ud_taken sk p (x # h) = ud_taken sk p h"

text \<open>
  \<open>ud_line sk i w s\<close>: the port is connected and passive; what \<^verbatim>\<open>writev\<close> has taken, followed by what
  is queued, is \<open>w\<close>; while something is queued the port waits for the socket to become writable;
  and it is marked as busy only while more than \<^verbatim>\<open>low\<close> bytes are queued.
\<close>

definition ud_line :: "sockets \<Rightarrow> nat \<Rightarrow> byte list \<Rightarrow> unixdom \<Rightarrow> bool" where
  "ud_line sk i w s \<longleftrightarrow>
     live i s \<and> (ud_state (dsc s i) = STATE_CONNECTED \<or> ud_state (dsc s i) = STATE_CONNECTED OR F_BUSY) \<and>
     ud_active (dsc s i) = 0 \<and> 0 \<le> ud_low (dsc s i) \<and> ud_low (dsc s i) < ud_high (dsc s i) \<and>
     ud_taken sk (ud_port (dsc s i)) (ulog s) @ ud_queue sk i s = w \<and>
     (ud_queue sk i s \<noteq> [] \<longrightarrow> ud_event_mask (dsc s i) AND FD_WRITE \<noteq> 0) \<and>
     (UD_IS_BUSY (dsc s i) \<longrightarrow> ud_low (dsc s i) < int (length (ud_queue sk i s)))"

text \<open>\<^verbatim>\<open>writev\<close> fails only because the socket takes nothing now.\<close>

definition only_blocks :: "sockets \<Rightarrow> bool" where
  "only_blocks sk \<longleftrightarrow> (\<forall>p fd bs h. so_count sk ((p, SkSendv fd bs) # h) = -1 \<longrightarrow>
     so_errno sk ((p, SkSendv fd bs) # h) = U_EAGAIN \<or> so_errno sk ((p, SkSendv fd bs) # h) = U_EINTR)"

lemma taken_simps [simp]:
  "ud_taken sk p (ulog (ud_enqv j ev n s)) = ud_taken sk p (ulog s)"
  "ud_taken sk p (ulog (ud_deq j n s)) = ud_taken sk p (ulog s)"
  "ud_taken sk p (ulog (ud_output_term j spec s)) = ud_taken sk p (ulog s)"
  "ud_taken sk p (ulog (ud_reply_ok j s)) = ud_taken sk p (ulog s)"
  "ud_taken sk p (ulog (sock_select j m on s)) = ud_taken sk p (ulog s)"
  by (simp_all add: ud_enqv_def ud_deq_def ud_output_term_def ud_reply_ok_def sock_select_def Let_def)

lemma taken_busy [simp]:
  "ud_taken sk p (ulog (ud_set_busy j on s)) = ud_taken sk p (ulog s)"
  "ud_taken sk p (ulog (below_low sk j s)) = ud_taken sk p (ulog s)"
  by (simp_all add: ud_set_busy_def below_low_def Let_def)

lemma taken_sendv:
  "ud_taken sk (ud_port (dsc s i)) (ulog (snd (ud_sendv sk i bs s))) =
     ud_taken sk (ud_port (dsc s i)) (ulog s) @ take (nat (fst (ud_sendv sk i bs s))) bs"
  by (simp add: ud_sendv_def sys_call_def Let_def)

lemma sendv_blocks:
  assumes "only_blocks sk" "fst (ud_sendv sk i bs s) = -1"
  shows "uerrno (snd (ud_sendv sk i bs s)) = U_EAGAIN \<or> uerrno (snd (ud_sendv sk i bs s)) = U_EINTR"
  using assms by (simp add: ud_sendv_def sys_call_def Let_def only_blocks_def split: if_splits)

lemma dsc_set_busy [simp]:
  "i < length (desc_table s) \<Longrightarrow> dsc (ud_set_busy i on s) i =
     (dsc s i)\<lparr>ud_state := if on then ud_state (dsc s i) OR F_BUSY else ud_state (dsc s i) AND NOT F_BUSY\<rparr>"
  by (simp add: ud_set_busy_def)

lemma queue_busy [simp]:
  "sockets_ok sk \<Longrightarrow> i < length (desc_table s) \<Longrightarrow> ud_queue sk i (ud_set_busy i on s) = ud_queue sk i s"
  by (simp add: ud_set_busy_def)

lemma dsc_count [simp]:
  "ud_port (ud_output_count sk n d) = ud_port d" "ud_state (ud_output_count sk n d) = ud_state d"
  "ud_active (ud_output_count sk n d) = ud_active d" "ud_low (ud_output_count sk n d) = ud_low d"
  "ud_high (ud_output_count sk n d) = ud_high d"
  "ud_event_mask (ud_output_count sk n d) = ud_event_mask d"
  by (simp_all add: ud_output_count_def Let_def)

lemma and_not_and: "(x AND NOT m) AND m = (0 :: 32 word)"
  by (rule bit_word_eqI) (simp add: bit_simps)

lemma line_states:
  "ud_state d = STATE_CONNECTED \<or> ud_state d = STATE_CONNECTED OR F_BUSY \<Longrightarrow> UD_IS_CONNECTED d"
  "ud_state d = STATE_CONNECTED \<or> ud_state d = STATE_CONNECTED OR F_BUSY \<Longrightarrow>
     ud_state d \<noteq> STATE_CONNECTING"
  "ud_state d = STATE_CONNECTED \<or> ud_state d = STATE_CONNECTED OR F_BUSY \<Longrightarrow>
     (ud_state d OR F_BUSY = STATE_CONNECTED OR F_BUSY) \<and> ud_state d AND NOT F_BUSY = STATE_CONNECTED"
  "\<not> UD_IS_BUSY (d\<lparr>ud_state := ud_state d AND NOT F_BUSY\<rparr>)"
  "UD_IS_BUSY (d\<lparr>ud_busy_on_send := n\<rparr>) = UD_IS_BUSY d"
  using and_not_and [of "ud_state d" F_BUSY]
  by (auto simp: UD_IS_CONNECTED_def UD_IS_BUSY_def ud_states)

lemma mask_set: "(m OR (2 OR 0)) AND (2 :: 32 word) \<noteq> 0"
proof
  assume "(m OR (2 OR 0)) AND (2 :: 32 word) = 0"
  moreover have "bit ((m OR (2 OR 0)) AND (2 :: 32 word)) 1" by (simp add: bit_simps)
  ultimately show False by simp
qed

lemma mask_kept: "(m AND NOT 1) AND (2 :: 32 word) = m AND 2"
  by (rule bit_word_eqI) (auto simp: bit_simps bit_1_iff)

lemma line_frame [simp]:
  assumes "sockets_ok sk"
  shows "ud_line sk i w (ud_reply_ok j s) = ud_line sk i w s"
    and "ud_line sk i w (ud_reply_error_am j r s) = ud_line sk i w s"
    and "ud_line sk i w (pcall j (Drv (SetTimer n)) s) = ud_line sk i w s"
    and "ud_line sk i w (pcall j (Drv CancelTimer) s) = ud_line sk i w s"
    and "ud_line sk i w (ud_deq j 0 s) = ud_line sk i w s"
proof -
  have q: "ud_queue sk i (pcall j c s) = ud_queue sk i s" "ud_taken sk p (ulog (pcall j c s)) = ud_taken sk p (ulog s)"
    if "c = Drv (SetTimer n) \<or> c = Drv CancelTimer \<or> c = Drv (Deq 0) \<or> (\<exists>sp. c = Drv (OutputTerm sp))" for c p
    using that driver_queue.q_deq [OF sockets_queue [OF assms], of 0]
      driver_queue.q_frame [OF sockets_queue [OF assms]] by (auto simp: ud_queue_def)
  show "ud_line sk i w (ud_reply_ok j s) = ud_line sk i w s"
    "ud_line sk i w (ud_reply_error_am j r s) = ud_line sk i w s"
    "ud_line sk i w (pcall j (Drv (SetTimer n)) s) = ud_line sk i w s"
    "ud_line sk i w (pcall j (Drv CancelTimer) s) = ud_line sk i w s"
    "ud_line sk i w (ud_deq j 0 s) = ud_line sk i w s"
    by (simp_all only: ud_line_def ud_reply_ok_def ud_reply_error_am_def ud_output_term_def ud_deq_def
        live_simps desc_simps) (simp_all add: q)
qed

lemma line_upd:
  assumes "live i s" "\<And>d. ud_port (f d) = ud_port d \<and> ud_state (f d) = ud_state d \<and>
    ud_active (f d) = ud_active d \<and> ud_low (f d) = ud_low d \<and> ud_high (f d) = ud_high d \<and>
    ud_event_mask (f d) = ud_event_mask d"
  shows "ud_line sk i w (upd i f s) = ud_line sk i w s"
  using assms live_length [OF assms(1)] by (simp add: ud_line_def UD_IS_BUSY_def)

lemma line_length: "ud_line sk i w s \<Longrightarrow> i < length (desc_table s)"
  by (simp add: ud_line_def live_def)

lemma line_busy:
  assumes "sockets_ok sk" "ud_line sk i w s" "ud_high (dsc s i) \<le> int (length (ud_queue sk i s))"
  shows "ud_line sk i w (ud_set_busy i True s)"
  using assms line_length [OF assms(2)] line_states(3) [of "dsc s i"]
  by (auto simp: ud_line_def)

lemma line_queued:
  assumes ok: "sockets_ok sk" and l: "ud_line sk i w s" and q: "ud_queue sk i s \<noteq> []"
  shows "ud_line sk i (w @ bs) (pcall i (Drv (Enqv bs)) s)"
  using l q by (auto simp: ud_line_def queue_pcall [OF ok])

lemma line_below_low:
  assumes ok: "sockets_ok sk"
    and "live i s" "ud_state (dsc s i) = STATE_CONNECTED \<or> ud_state (dsc s i) = STATE_CONNECTED OR F_BUSY"
    "ud_active (dsc s i) = 0" "0 \<le> ud_low (dsc s i)" "ud_low (dsc s i) < ud_high (dsc s i)"
    "ud_taken sk (ud_port (dsc s i)) (ulog s) @ ud_queue sk i s = w"
    "ud_event_mask (dsc s i) AND FD_WRITE \<noteq> 0"
  shows "ud_line sk i w (below_low sk i s)"
proof -
  have up: "ud_line sk i w (upd i (\<lambda>d. d\<lparr>ud_busy_on_send := n\<rparr>) s') = ud_line sk i w s'" if "live i s'" for s' n
    by (rule line_upd) (use that in simp_all)
  have "ud_line sk i w (ud_set_busy i False s)"
    using assms live_length [OF assms(2)] line_states(3,4) [of "dsc s i"] by (simp add: ud_line_def)
  moreover have "ud_line sk i w s" if "\<not> (ud_sizeq sk i s \<le> ud_low (dsc s i) \<and> UD_IS_BUSY (dsc s i))"
    using assms that by (auto simp: ud_line_def ud_sizeq_def)
  ultimately show ?thesis using ok assms(2)
    by (auto simp: below_low_def Let_def up)
qed

lemma line_outputv:
  assumes ok: "sockets_ok sk" "only_blocks sk" and l: "ud_line sk i w s"
  shows "ud_line sk i (w @ concat ev) (unixdom_outputv sk i ev s)"
proof -
  let ?len = "int (length (concat ev))" and ?s1 = "upd i (ud_output_count sk (int (length (concat ev)))) s"
  have r: "i < length (desc_table s)" using line_length [OF l] .
  have c: "UD_IS_CONNECTED (dsc s i)" using l by (simp add: ud_line_def line_states(1))
  have l1: "ud_line sk i w ?s1"
    by (subst line_upd) (use l in \<open>simp_all add: ud_line_def\<close>)
  have up: "ud_line sk i x (upd i (\<lambda>d. d\<lparr>ud_busy_on_send := k\<rparr>) s') = ud_line sk i x s'"
    if "live i s'" for s' k x
    by (rule line_upd) (use that in simp_all)
  have "ud_line sk i (w @ concat ev) (snd (do_outputv sk i ev s))"
  proof (cases "?len = 0")
    case True
    then have e: "concat ev = []" by (simp del: concat_eq_Nil_conv)
    show ?thesis unfolding do_outputv_def e using l by simp
  next
    case len: False
    show ?thesis
    proof (cases "ud_queue sk i ?s1 = []")
      case False
      let ?s2 = "ud_enqv i ev 0 ?s1"
      have l2: "ud_line sk i (w @ concat ev) ?s2"
        using line_queued [OF ok(1) l1 False] by (simp add: ud_enqv_def)
      have "ud_line sk i (w @ concat ev) (ud_set_busy i True ?s2)"
        if "ud_high (dsc s i) \<le> ud_sizeq sk i ?s1 + ?len"
        by (rule line_busy [OF ok(1) l2]) (use that r ok in \<open>simp add: ud_sizeq_def\<close>)
      then show ?thesis using len l2 False r ok
        using l by (simp add: do_outputv_def Let_def ud_sizeq_def up ud_line_def [of sk i w s] del: concat_eq_Nil_conv)
    next
      case True
      let ?bs = "concat (take MAX_VSIZE ev)"
      obtain n s2 where s2: "ud_sendv sk i ?bs ?s1 = (n, s2)" by fastforce
      have e: "s2 = snd (ud_sendv sk i ?bs ?s1)" "n = fst (ud_sendv sk i ?bs ?s1)" using s2 by simp_all
      have n: "-1 \<le> n" "n \<le> int (length ?bs)"
        using sendv_count(1,2) [OF ok(1), where i = i and bs = ?bs and s = ?s1] by (simp_all add: e)
      have all: "take (nat n) ?bs @ drop (nat n) (concat ev) = concat ev"
      proof -
        have "concat ev = ?bs @ concat (drop MAX_VSIZE ev)" by (metis append_take_drop_id concat_append)
        moreover have "nat n \<le> length ?bs" using n by linarith
        ultimately show ?thesis by (metis append_take_drop_id take_append diff_is_0_eq take_0 append_Nil2)
      qed
      have s2_facts: "dsc s2 i = dsc ?s1 i" "live i s2" "ud_queue sk i s2 = []"
        "ud_taken sk (ud_port (dsc ?s1 i)) (ulog s2) = w @ take (nat n) ?bs"
        using l1 True ok(1) by (simp_all add: e taken_sendv ud_line_def)
      have sent: "ud_line sk i (w @ concat ev) s2" if "n = ?len"
        using l1 True s2_facts all that by (simp add: ud_line_def)
      have "\<not> UD_IS_BUSY (dsc ?s1 i)" using l1 True by (auto simp: ud_line_def)
      then have "ud_line sk i (w @ concat ev) (sock_select i (FD_WRITE OR FD_CLOSE) True (ud_enqv i ev n s2))"
        using l1 True s2_facts all ok(1) live_length [OF s2_facts(2)] mask_set
        by (simp add: ud_line_def UD_IS_BUSY_def)
      moreover have "ud_enqv i ev (-1) s2 = ud_enqv i ev 0 s2" by (simp add: ud_enqv_def)
      moreover have "uerrno s2 = U_EAGAIN \<or> uerrno s2 = U_EINTR" if "n = -1"
        using sendv_blocks [OF ok(2)] that by (simp add: e)
      ultimately show ?thesis using len sent s2 True r
        by (auto simp: do_outputv_def Let_def ud_sizeq_def simp del: concat_eq_Nil_conv)
    qed
  qed
  then show ?thesis using c ok by (simp add: unixdom_outputv_def case_prod_unfold)
qed

lemma line_ready_output:
  assumes ok: "sockets_ok sk" "only_blocks sk" and l: "ud_line sk i w s"
  shows "run_ok {} (\<lambda>_. ud_line sk i w) (unixdom_ready_output sk i s)"
proof -
  let ?P = "ud_line sk i w"
  have "run_ok {} (\<lambda>_. ?P) (send_queue sk i (Suc (length (ud_queue sk i (ud_deq i 0 s)))) (ud_deq i 0 s))"
  proof (rule send_queue_rule [OF ok(1), where P = ?P])
    show "?P (ud_deq i 0 s)" using l ok(1) by simp
  next
    fix s assume "?P s"
    then show "i < length (desc_table s)" by (rule line_length)
  next
    fix s assume "?P s" "ud_queue sk i s = []"
    then show "?P (sock_select i FD_WRITE False s)"
      using ok(1) line_length [OF \<open>?P s\<close>] by (simp add: ud_line_def UD_IS_BUSY_def)
  next
    fix s bs assume "?P s" "fst (ud_sendv sk i bs s) = -1"
    then show "?P (let s' = snd (ud_sendv sk i bs s) in
        if uerrno s' \<noteq> U_EAGAIN \<and> uerrno s' \<noteq> U_EINTR then ud_reply_error sk i (uerrno s') s' else s')"
      using sendv_blocks [OF ok(2), of i bs s] ok(1)
      by (auto simp: ud_line_def taken_sendv Let_def)
  next
    fix s k n
    assume l: "?P s" and q: "ud_queue sk i s \<noteq> []" and n: "fst (ud_sendv sk i (take k (ud_queue sk i s)) s) = n"
      "0 < n" "n \<le> int (length (ud_queue sk i s))" "n \<le> int k"
    let ?s = "snd (ud_sendv sk i (take k (ud_queue sk i s)) s)"
    have "min (nat n) k = nat n" using n by linarith
    then have "ud_taken sk (ud_port (dsc s i)) (ulog ?s) @ drop (nat n) (ud_queue sk i s) =
        ud_taken sk (ud_port (dsc s i)) (ulog s) @ ud_queue sk i s"
      using n(1) by (simp add: taken_sendv)
    then show "?P (below_low sk i (ud_deq i n ?s))"
      using l q ok(1) by (intro line_below_low) (simp_all add: ud_line_def)
  qed simp
  then show ?thesis using l line_states(1,2) [of "dsc s i"]
    by (simp add: unixdom_ready_output_def Let_def ud_line_def)
qed

lemma line_timeout:
  assumes ok: "sockets_ok sk" and l: "ud_line sk i w s"
  shows "run_ok {} (\<lambda>_. ud_line sk i w) (unixdom_timeout i s)"
proof -
  have "ud_line sk i w (upd i (\<lambda>d. d\<lparr>ud_busy_on_send := n\<rparr>) s)" for n
    by (subst line_upd) (use l in \<open>simp_all add: ud_line_def\<close>)
  moreover have "ud_line sk i w (sock_select i (FD_READ OR FD_CLOSE) False s)"
    using l ok line_length [OF l] mask_kept by (simp add: ud_line_def UD_IS_BUSY_def)
  ultimately show ?thesis using l ok line_states(1) [of "dsc s i"]
    by (simp add: unixdom_timeout_def Let_def ud_line_def [of sk i w s] UD_IS_CONNECTED_def)
qed

text \<open>The calls of a port that is written to: writes, the socket becoming writable, the timer.\<close>

fun writes_to :: "nat \<Rightarrow> ud_event \<Rightarrow> bool" where
  "writes_to i (UOutputv j ev) \<longleftrightarrow> j = i"
| "writes_to i (UReadyOutput j) \<longleftrightarrow> j = i"
| "writes_to i (UTimeout j) \<longleftrightarrow> j = i"
| "writes_to i _ \<longleftrightarrow> False"

fun ud_written :: "ud_event \<Rightarrow> byte list" where
  "ud_written (UOutputv j ev) = concat ev"
| "ud_written _ = []"

lemma line_step:
  assumes ok: "sockets_ok sk" "only_blocks sk" and l: "ud_line sk i w s" and e: "writes_to i e"
  shows "run_ok {} (\<lambda>_. ud_line sk i (w @ ud_written e)) (ud_step sk e s)"
proof -
  have "live i s" using l by (simp add: ud_line_def)
  then show ?thesis using e line_outputv [OF ok l] line_ready_output [OF ok l] line_timeout [OF ok(1) l]
    by (cases e) (auto simp: on_port_def elim!: run_ok_mono)
qed

lemma line_run:
  assumes ok: "sockets_ok sk" "only_blocks sk"
  shows "ud_line sk i w s \<Longrightarrow> \<forall>e \<in> set es. writes_to i e \<Longrightarrow>
    run_ok {} (\<lambda>_. ud_line sk i (w @ concat (map ud_written es))) (ud_run sk es s)"
proof (induction es arbitrary: w s)
  case (Cons e es)
  have "run_ok {} (\<lambda>_ s'. run_ok {} (\<lambda>_. ud_line sk i (w @ concat (map ud_written (e # es)))) (ud_run sk es s'))
      (ud_step sk e s)"
    by (rule run_ok_mono [OF line_step [OF ok Cons.prems(1)]]) (use Cons.IH Cons.prems(2) in force)+
  then show ?case by simp
qed simp

section \<open>Accepting a connection\<close>

text \<open>Is a timer of the port running, as far as the log tells?\<close>

fun timer_pending :: "int \<Rightarrow> ulog \<Rightarrow> bool" where
  "timer_pending p [] = False"
| "timer_pending p ((q, Drv (SetTimer n)) # h) = (q = p \<or> timer_pending p h)"
| "timer_pending p ((q, Drv CancelTimer) # h) = (q \<noteq> p \<and> timer_pending p h)"
| "timer_pending p (x # h) = timer_pending p h"

text \<open>
  The accepting port \<open>i\<close> waits for a connection on \<open>l\<close>: the state between the command and the
  connection.
\<close>

definition waiting :: "nat \<Rightarrow> nat \<Rightarrow> unixdom \<Rightarrow> bool" where
  "waiting i l s \<longleftrightarrow>
     well i s \<and> live l s \<and> i \<noteq> l \<and> ud_state (dsc s i) = STATE_ACCEPTING \<and> ud_active (dsc s i) = 0 \<and>
     ud_state (dsc s l) = STATE_LISTENING \<and> ud_i_ix (dsc s l) = int i"

lemma get_ixs:
  assumes "- (2 ^ 31) \<le> a" "a < 2 ^ 31" "- (2 ^ 31) \<le> b" "b < 2 ^ 31"
  shows "get_int32 (bytes_at 0 4 (put_int32 a @ put_int32 b)) = a"
    and "get_int32 (bytes_at 4 4 (put_int32 a @ put_int32 b)) = b"
  using get_put_int32 [OF assms(1,2), of "[]"] get_put_int32 [OF assms(3,4), of "[]"]
  by (simp_all add: bytes_at_def)

lemma accept_blocks:
  assumes inv: "ud_inv s" and live: "live i s" "live l s"
    and st: "ud_state (dsc s i) = STATE_CLOSED" "ud_i_buf (dsc s i) = None" "\<not> ud_i_bufp (dsc s i)"
      "ud_state (dsc s l) = STATE_LISTEN"
    and acc: "so_fd sk ((ud_port (dsc s l), SkAccept (ud_s (dsc s l))) # ulog s) = -1"
      "so_errno sk ((ud_port (dsc s l), SkAccept (ud_s (dsc s l))) # ulog s) = U_EAGAIN"
    and args: "l < 2 ^ 31" "- (2 ^ 31) \<le> t" "t < 2 ^ 31" "1 \<le> rbuflen"
  shows "\<exists>s'. ud_step sk (UCtl i 10 (put_int32 (int l) @ put_int32 t) rbuflen) s = Inr ([UNIXDOM_REP_WOULDBLOCK], s') \<and>
    waiting i l s' \<and> timer_pending (ud_port (dsc s i)) (ulog s') \<and>
    ud_port (dsc s' i) = ud_port (dsc s i) \<and> ud_port (dsc s' l) = ud_port (dsc s l) \<and>
    ud_s (dsc s' l) = ud_s (dsc s l) \<and> length (ulog s) < length (ulog s') \<and>
    ud_busy_on_send (dsc s' i) = ud_busy_on_send (dsc s i)"
proof -
  have ne: "i \<noteq> l" "l \<noteq> i" using st by auto
  have len: "i < length (desc_table s)" "l < length (desc_table s)" "desc_table s ! l \<noteq> None"
    using live by (simp_all add: live_def)
  let ?buf = "put_int32 (int l) @ put_int32 t"
  have ix: "get_int32 (bytes_at 0 4 ?buf) = int l" "get_int32 (bytes_at 4 4 ?buf) = t"
    using get_ixs [of "int l" t] args by simp_all
  have w: "well i s" using inv live by (simp add: well_def)
  have big: "word_of_int t \<noteq> (0xffffffff :: 64 word)"
  proof
    assume "word_of_int t = (0xffffffff :: 64 word)"
    moreover have "sint (word_of_int t :: 64 word) = t"
      using args by (subst sint_sbintrunc') (auto intro!: signed_take_bit_int_eq_self)
    ultimately show False using args by simp
  qed
  obtain y where y: "desc_table s ! l = Some y" using len(3) by blast
  have by_from: "unixdom_ctl sk i 10 ?buf rbuflen s = ud_accept_from sk i l (word_of_int t) rbuflen s"
    using st(1) len ix y by (simp add: unixdom_ctl_def ud_ctl_accept_def reading_def desc_at_def)
  obtain s2 where acc2: "ud_accept sk l (upd i (ud_inherit (dsc s l)) s) = (-1, s2)" and e: "uerrno s2 = U_EAGAIN"
    and d2: "dsc s2 i = ud_inherit (dsc s l) (dsc s i)" "dsc s2 l = dsc s l" "length (desc_table s2) = length (desc_table s)"
      "ulog s2 = (ud_port (dsc s l), SkAccept (ud_s (dsc s l))) # ulog s"
    using acc ne len by (simp add: ud_accept_def sys_call_def Let_def)
  obtain s' where s': "unixdom_ctl sk i 10 ?buf rbuflen s = Inr ([UNIXDOM_REP_WOULDBLOCK], s')"
    and facts: "ud_state (dsc s' i) = STATE_ACCEPTING" "ud_active (dsc s' i) = 0"
      "ud_state (dsc s' l) = STATE_LISTENING" "ud_i_ix (dsc s' l) = ud_ix (dsc s i)"
      "timer_pending (ud_port (dsc s i)) (ulog s')"
      "ud_port (dsc s' i) = ud_port (dsc s i)" "ud_port (dsc s' l) = ud_port (dsc s l)"
      "ud_s (dsc s' l) = ud_s (dsc s l)" "length (ulog s) < length (ulog s')"
      "ud_busy_on_send (dsc s' i) = ud_busy_on_send (dsc s i)"
    unfolding by_from using st args(4) ne len big d2 e
    by (simp add: ud_accept_from_def acc2 Let_def ud_ctl_reply_def ud_set_timer_def ud_inherit_def sock_select_def)
  have "stays i s s'"
    using ctl_ok [OF w, of 10 ?buf rbuflen sk] s' by simp
  moreover have "ud_ix (dsc s i) = int i" using wellD(1) [OF w] by (simp add: good_desc_def)
  ultimately show ?thesis using s' facts live ne
    by (auto simp: on_port_def waiting_def stays_def)
qed

text \<open>The connection arrives.\<close>

lemma accept_completes:
  assumes w: "waiting i l s"
    and fd: "so_fd sk ((ud_port (dsc s l), SkAccept (ud_s (dsc s l))) # (ud_port (dsc s l), SelectEv (ud_event (dsc s l)) FD_ACCEPT False) # ulog s) = fd"
      "fd \<noteq> -1"
  shows "\<exists>s'. ud_step sk (UReadyInput l) s = Inr ([], s') \<and> well i s' \<and> live l s' \<and>
    ud_state (dsc s' i) = STATE_CONNECTED \<and> ud_s (dsc s' i) = fd \<and> ud_active (dsc s' i) = 0 \<and>
    ud_state (dsc s' l) = STATE_LISTEN \<and> ud_i_ix (dsc s' l) = -1 \<and>
    ud_port (dsc s' i) = ud_port (dsc s i) \<and>
    ud_busy_on_send (dsc s' i) = ud_busy_on_send (dsc s i) \<and>
    (timer_pending (ud_port (dsc s i)) (ulog s) \<longrightarrow> timer_pending (ud_port (dsc s i)) (ulog s')) \<and>
    hd (ulog s') = (ud_port (dsc s l), Drv (OutputTerm [TAtom ''unixdom_reply'', TPort, TAtom ''ok'', TTuple 3]))"
proof -
  let ?s1 = "upd l (\<lambda>d. d\<lparr>ud_state := STATE_LISTEN, ud_i_ix := -1\<rparr>) (sock_select l FD_ACCEPT False s)"
  have ne: "i \<noteq> l" and wi: "well i s" and ll: "live l s"
    and st: "ud_state (dsc s i) = STATE_ACCEPTING" "ud_active (dsc s i) = 0"
      "ud_state (dsc s l) = STATE_LISTENING" "ud_i_ix (dsc s l) = int i"
    using w by (simp_all add: waiting_def)
  have len: "i < length (desc_table s)" "l < length (desc_table s)" using wi ll by (simp_all add: wellD live_def)
  have wl: "well l s" using wi ll by (rule well_others)
  have "live i ?s1" using ll wellD(2) [OF wi] by simp
  then have "desc_table ?s1 ! i \<noteq> None" by (simp add: live_def)
  then obtain y where y: "desc_table ?s1 ! i = Some y" by blast
  obtain s2 where acc: "ud_accept sk l ?s1 = (fd, s2)"
    and d2: "dsc s2 i = dsc s i" "dsc s2 l = dsc ?s1 l" "length (desc_table s2) = length (desc_table s)"
      "ulog s2 = (ud_port (dsc s l), SkAccept (ud_s (dsc s l))) # (ud_port (dsc s l), SelectEv (ud_event (dsc s l)) FD_ACCEPT False) # ulog s"
    using fd ne len by (simp add: ud_accept_def sys_call_def sock_select_def Let_def)
  let ?s' = "ud_reply_ok l (ud_take_socket i fd s2)"
  have "unixdom_ready_input sk l s = Inr ((), ?s')"
    using st len ne acc fd(2) y by (simp add: unixdom_ready_input_def Let_def desc_at_def)
  then have step: "ud_step sk (UReadyInput l) s = Inr ([], ?s')" using ll by (simp add: on_port_def)
  have stays: "stays l s ?s'"
    using ready_input_ok [OF wl, where sk = sk] \<open>unixdom_ready_input sk l s = Inr ((), ?s')\<close> by simp
  then have "well i ?s'" "live l ?s'"
    using wellD(2) [OF wi] ll well_others by (simp_all only: stays_def) blast
  moreover have "ud_state (dsc ?s' i) = STATE_CONNECTED" "ud_s (dsc ?s' i) = fd" "ud_active (dsc ?s' i) = 0"
    "ud_state (dsc ?s' l) = STATE_LISTEN" "ud_i_ix (dsc ?s' l) = -1" "ud_port (dsc ?s' i) = ud_port (dsc s i)"
    "ud_busy_on_send (dsc ?s' i) = ud_busy_on_send (dsc s i)"
    "hd (ulog ?s') = (ud_port (dsc s l), Drv (OutputTerm [TAtom ''unixdom_reply'', TPort, TAtom ''ok'', TTuple 3]))"
    "timer_pending p (ulog s) \<Longrightarrow> timer_pending p (ulog ?s')" for p
    using d2 ne len st
    by (simp_all add: ud_take_socket_def Let_def ud_reply_ok_def ud_output_term_def sock_select_def)
  ultimately show ?thesis using step by blast
qed

text \<open>
  The timer of the accepting port is left running: it expires on a connected port, which \<open>assert\<close>s
  that it is passive.
\<close>

lemma stale_timer:
  assumes "live i s" "ud_state (dsc s i) = STATE_CONNECTED" "ud_busy_on_send (dsc s i) = 0" "1 \<le> rbuflen"
  shows "ud_run sk [UCtl i 8 [UNIXDOM_OPT_ACTIVE, 1, UNIXDOM_OPT_ENDOFLIST] rbuflen, UTimeout i] s = Inl Aborts"
  using assms live_length [OF assms(1)]
  by (simp add: on_port_def unixdom_ctl_def ud_ctl_ok_def ud_ctl_reply_def ud_set_active_def Let_def
      unixdom_timeout_def)

section \<open>A request for less than a buffer\<close>

text \<open>
  A request to read \<open>n\<close> bytes that has to wait leaves a buffer of \<open>n\<close> bytes behind; what arrives
  later is read into it with the default size.
\<close>

definition ud_message :: "byte list \<Rightarrow> ud_call" where
  "ud_message bs = Drv (OutputTerm [TAtom ''unixdom'', TPort, TBinary bs, TTuple 3])"

lemma recv_waits:
  assumes w: "well i s" and st: "UD_IS_CONNECTED (dsc s i)" "ud_i_buf (dsc s i) = None"
    and mem: "\<And>h. so_alloc sk h"
    and no_data: "\<And>h. so_bytes sk ((ud_port (dsc s i), SkRecv (ud_s (dsc s i)) n) # h) = None"
      "\<And>h. so_errno sk ((ud_port (dsc s i), SkRecv (ud_s (dsc s i)) n) # h) = U_EAGAIN"
    and n: "0 < n" "n < 2 ^ 31" "1 \<le> rbuflen"
  shows "\<exists>s' b. ud_step sk (UCtl i 7 (put_int32 n) rbuflen) s = Inr ([UNIXDOM_REP_OK], s') \<and>
    well i s' \<and> UD_IS_CONNECTED (dsc s' i) \<and> ud_i_buf (dsc s' i) = Some b \<and> orig_size b = n \<and>
    ud_active (dsc s' i) = ud_active (dsc s i) \<and>
    ud_port (dsc s' i) = ud_port (dsc s i) \<and> ud_s (dsc s' i) = ud_s (dsc s i)"
proof -
  have l: "live i s" "i < length (desc_table s)" using wellD [OF w] by simp_all
  have a: "get_int32 (bytes_at 0 4 (put_int32 n)) = n"
    using get_put_int32 [of n "[]"] n by (simp add: bytes_at_def)
  have t: "word_of_int n \<noteq> (0 :: 64 word)"
  proof
    assume "word_of_int n = (0 :: 64 word)"
    moreover have "sint (word_of_int n :: 64 word) = n"
      using n by (subst sint_sbintrunc') (auto intro!: signed_take_bit_int_eq_self)
    ultimately show False using n by simp
  qed
  let ?b = "\<lparr>orig_bytes = map (so_junk sk ((ud_port (dsc s i), Drv (AllocBinary n)) # ulog s)) [0..<nat n], refc = 1\<rparr>"
  let ?s1 = "upd i (\<lambda>d. d\<lparr>ud_i_buf := Some ?b, ud_i_bufsz := n, ud_i_bufp := True\<rparr>)
      (pcall i (Drv (AllocBinary n)) s)"
  let ?s2 = "(pcall i (SkRecv (ud_s (dsc s i)) n) ?s1)\<lparr>uerrno := U_EAGAIN\<rparr>"
  let ?s' = "sock_select i (FD_READ OR FD_CLOSE) True (ud_set_timer i (word_of_int n) ?s2)"
  have "unixdom_recv sk i n s = Inr (0, ?s2)"
    using st(2) mem no_data n l(2)
    by (simp add: unixdom_recv_def ud_alloc_buf_def sys_call_def Let_def)
  then have c: "unixdom_ctl sk i 7 (put_int32 n) rbuflen s = Inr ([UNIXDOM_REP_OK], ?s')"
    using st n a t by (simp add: unixdom_ctl_def reading_def ud_ctl_recv_def ud_ctl_ok_def ud_ctl_reply_def)
  have "ud_i_buf (dsc ?s' i) = Some ?b" "orig_size ?b = n"
      "UD_IS_CONNECTED (dsc ?s' i)" "ud_active (dsc ?s' i) = ud_active (dsc s i)"
      "ud_port (dsc ?s' i) = ud_port (dsc s i)" "ud_s (dsc ?s' i) = ud_s (dsc s i)"
    using st n l(2) by (simp_all add: UD_IS_CONNECTED_def)
  moreover have "stays i s ?s'" using ctl_ok [OF w, of 7 "put_int32 n" rbuflen sk] by (simp add: c)
  ultimately show ?thesis using l(1) c
    by (intro exI [of _ ?s'] exI [of _ ?b]) (simp add: on_port_def stays_def)
qed

lemma data_arrives:
  assumes w: "well i s" and st: "UD_IS_CONNECTED (dsc s i)" "ud_i_buf (dsc s i) = Some b"
    and data: "\<And>h. so_bytes sk ((ud_port (dsc s i), SkRecv (ud_s (dsc s i)) 4096) # h) = Some bs"
      "bs \<noteq> []" "length bs \<le> 4096"
  shows "orig_size b < int (length bs) \<Longrightarrow> ud_step sk (UReadyInput i) s = Inl OutOfBounds"
    and "int (length bs) \<le> orig_size b \<Longrightarrow> \<exists>s'. ud_step sk (UReadyInput i) s = Inr ([], s') \<and>
       (ud_port (dsc s i), ud_message bs) \<in> set (ulog s')"
proof -
  have l: "live i s" "i < length (desc_table s)" using wellD [OF w] by simp_all
  have sz: "ud_bufsz (dsc s i) = 4096" using wellD(1) [OF w] by (simp add: good_desc_def)
  have ns: "ud_state (dsc s i) \<noteq> STATE_LISTENING"
    using st(1) by (auto simp: UD_IS_CONNECTED_def ud_states)
  have recv: "unixdom_recv sk i 0 s = ud_received sk i bs (pcall i (SkRecv (ud_s (dsc s i)) 4096) s)"
    using st data sz by (simp add: unixdom_recv_def ud_alloc_buf_def sys_call_def Let_def)
  show "orig_size b < int (length bs) \<Longrightarrow> ud_step sk (UReadyInput i) s = Inl OutOfBounds"
    using st l ns by (simp add: on_port_def unixdom_ready_input_def recv ud_received_def writing_def andthen_def)
  show "int (length bs) \<le> orig_size b \<Longrightarrow> \<exists>s'. ud_step sk (UReadyInput i) s = Inr ([], s') \<and>
       (ud_port (dsc s i), ud_message bs) \<in> set (ulog s')"
    using st l ns data(2)
    by (simp add: on_port_def unixdom_ready_input_def recv ud_received_def writing_def ud_reply_data_def
        reading_def Let_def ud_input_count_def ud_output_term_def sock_select_def ud_message_def bytes_at_def)
qed

end
