(* ===== verification/Intl.thy ===== *)
theory Intl
  imports Driver_Api
begin

text \<open>
  The driver in front of gettext (\<^verbatim>\<open>intl/c_src/intl_drv.c\<close>).  A control call carries the arguments of one
  function of the C library, each with a tag in front; the driver parses them, calls the library and
  replies with the string it returns.  The library is the parameter \<open>gettext\<close>.  A pointer into the
  arguments is the list of the bytes from there to their end, so that a read beyond it is a fault; the
  driver also keeps a count of the bytes it thinks are left.
\<close>

section \<open>The library\<close>

datatype intl_call =
    Gettext "byte list"
  | Ngettext "byte list" "byte list" "32 word"
  | Dgettext "byte list" "byte list"
  | Dngettext "byte list" "byte list" "byte list" "32 word"
  | Dcgettext "byte list" "byte list" int
  | Dcngettext "byte list" "byte list" "byte list" "32 word" int
  | Textdomain "byte list option"
  | Bindtextdomain "byte list" "byte list"
  | Bind_textdomain_codeset "byte list" "byte list"
  | Setlocale int "byte list"

text \<open>A function returns a string, or NULL and has set \<^verbatim>\<open>errno\<close> to the given value.\<close>

record 'l gettext =
  gt_call :: "intl_call \<Rightarrow> 'l \<Rightarrow> (int + byte list) \<times> 'l"
  gt_id :: "int \<Rightarrow> string"     \<comment> \<open>\<^verbatim>\<open>erl_errno_id\<close>\<close>

record 'l intl = world +
  il_lib :: 'l

section \<open>Replies\<close>

abbreviation (input) INTL_OK :: byte where "INTL_OK \<equiv> 0"
abbreviation (input) INTL_ERROR :: byte where "INTL_ERROR \<equiv> 1"
abbreviation (input) INTL_INTEGER :: byte where "INTL_INTEGER \<equiv> 2"
abbreviation (input) INTL_UINTEGER :: byte where "INTL_UINTEGER \<equiv> 3"
abbreviation (input) INTL_STRING :: byte where "INTL_STRING \<equiv> 4"
abbreviation (input) INTL_EINVAL :: int where "INTL_EINVAL \<equiv> 22"

type_synonym intl_result = "int \<times> byte list"

definition intl_reason :: "'l gettext \<Rightarrow> int \<Rightarrow> byte \<times> byte list" where
  "intl_reason g code =
     (if code = 0 then (INTL_OK, bytes_of ''ok'') else (INTL_ERROR, bytes_of (gt_id g code)))"

text \<open>The reply area has \<open>rlen\<close> bytes; the reason is cut off to fit, its tag is not.\<close>

definition ret_code :: "'l gettext \<Rightarrow> int \<Rightarrow> int \<Rightarrow> 'l intl \<Rightarrow> (intl_result, 'l intl) outcome" where
  "ret_code g code rlen s =
     (case intl_reason g code of (tag, src) \<Rightarrow>
        if rlen < 1 then Inl OutOfBounds
        else let rep = tag # take (nat (rlen - 1)) src in Inr ((int (length rep), rep), s))"

definition ret_string ::
  "emulator \<Rightarrow> 'l gettext \<Rightarrow> int + byte list \<Rightarrow> int \<Rightarrow> 'l intl \<Rightarrow> (intl_result, 'l intl) outcome" where
  "ret_string em g v rlen s =
     (case v of
        Inl err \<Rightarrow> ret_code g err rlen s
      | Inr value \<Rightarrow>
          let n = int (length value) + 1 in
          if rlen < n then
            let s = log_call (AllocMem n) s
            in if em_alloc em (calls s) then Inr ((n, INTL_STRING # value), s) else Inr ((-1, []), s)
          else Inr ((n, INTL_STRING # value), s))"

section \<open>Arguments\<close>

text \<open>
  The search of \<^verbatim>\<open>get_string\<close> for the end of a string, at most \<open>n\<close> bytes on: the rest and the count
  that is left.  The count is never negative.
\<close>

fun scan_string :: "byte list \<Rightarrow> nat \<Rightarrow> fault + byte list \<times> nat" where
  "scan_string p 0 = Inr (p, 0)"
| "scan_string [] (Suc n) = Inl OutOfBounds"
| "scan_string (b # p) (Suc n) = (if b = 0 then Inr (b # p, Suc n) else scan_string p n)"

definition intl_string :: "byte list \<Rightarrow> nat \<Rightarrow> fault + (byte list \<times> byte list \<times> nat) option" where
  "intl_string p n =
     (case p of
        [] \<Rightarrow> Inl OutOfBounds
      | tag # src \<Rightarrow>
          if tag \<noteq> INTL_STRING then Inr None
          else case scan_string src n of
              Inl e \<Rightarrow> Inl e
            | Inr (q, m) \<Rightarrow> if m = 0 then Inr None else Inr (Some (c_string src, tl q, m - 1)))"

definition intl_word :: "byte \<Rightarrow> byte list \<Rightarrow> nat \<Rightarrow> fault + (32 word \<times> byte list \<times> nat) option" where
  "intl_word tag p n =
     (case p of
        [] \<Rightarrow> Inl OutOfBounds
      | t # src \<Rightarrow>
          if t \<noteq> tag \<or> n < 5 then Inr None
          else reading src 0 4 (\<lambda>b. Inr (Some (cint (get_int32 b), drop 4 src, n - 5))))"

text \<open>Argument by argument, with the answer \<^verbatim>\<open>einval\<close> to one that is not there.\<close>

definition want ::
  "'l gettext \<Rightarrow> int \<Rightarrow> fault + ('a \<times> byte list \<times> nat) option \<Rightarrow>
   ('a \<Rightarrow> byte list \<Rightarrow> nat \<Rightarrow> 'l intl \<Rightarrow> (intl_result, 'l intl) outcome) \<Rightarrow> 'l intl \<Rightarrow>
   (intl_result, 'l intl) outcome" where
  "want g rlen m k s =
     (case m of
        Inl e \<Rightarrow> Inl e
      | Inr None \<Rightarrow> ret_code g INTL_EINVAL rlen s
      | Inr (Some (x, p, n)) \<Rightarrow> k x p n s)"

text \<open>The categories of the C library on Linux have the numbers of the protocol.\<close>

definition get_category :: "int \<Rightarrow> int" where
  "get_category ecode = (if 0 \<le> ecode \<and> ecode \<le> 12 then ecode else -1)"

definition want_category ::
  "'l gettext \<Rightarrow> int \<Rightarrow> 32 word \<Rightarrow> (int \<Rightarrow> 'l intl \<Rightarrow> (intl_result, 'l intl) outcome) \<Rightarrow> 'l intl \<Rightarrow>
   (intl_result, 'l intl) outcome" where
  "want_category g rlen w k s =
     (let c = get_category (sint w) in if c < 0 then ret_code g INTL_EINVAL rlen s else k c s)"

section \<open>The control call\<close>

definition call_lib ::
  "emulator \<Rightarrow> 'l gettext \<Rightarrow> int \<Rightarrow> intl_call \<Rightarrow> 'l intl \<Rightarrow> (intl_result, 'l intl) outcome" where
  "call_lib em g rlen c s =
     (case gt_call g c (il_lib s) of (v, l) \<Rightarrow> ret_string em g v rlen (s\<lparr>il_lib := l\<rparr>))"

definition want_strings ::
  "'l gettext \<Rightarrow> int \<Rightarrow> byte list \<Rightarrow> nat \<Rightarrow>
   (byte list \<Rightarrow> byte list \<Rightarrow> byte list \<Rightarrow> nat \<Rightarrow> 'l intl \<Rightarrow> (intl_result, 'l intl) outcome) \<Rightarrow>
   'l intl \<Rightarrow> (intl_result, 'l intl) outcome" where
  "want_strings g rlen p n k =
     want g rlen (intl_string p n) (\<lambda>str1 p n.
       want g rlen (intl_string p n) (\<lambda>str2 p n. k str1 str2 p n))"

definition intl_ctl ::
  "emulator \<Rightarrow> 'l gettext \<Rightarrow> int \<Rightarrow> byte list \<Rightarrow> int \<Rightarrow> 'l intl \<Rightarrow> (intl_result, 'l intl) outcome" where
  "intl_ctl em g command buf rlen s =
     (let n = length buf in
      if command = 1 then
        want g rlen (intl_string buf n) (\<lambda>str1 p n. call_lib em g rlen (Gettext str1)) s
      else if command = 4 then
        want_strings g rlen buf n (\<lambda>str1 str2 p n.
          want g rlen (intl_word INTL_UINTEGER p n) (\<lambda>u p n.
            call_lib em g rlen (Ngettext str1 str2 u))) s
      else if command = 2 then
        want_strings g rlen buf n (\<lambda>str1 str2 p n. call_lib em g rlen (Dgettext str1 str2)) s
      else if command = 5 then
        want_strings g rlen buf n (\<lambda>str1 str2 p n.
          want g rlen (intl_string p n) (\<lambda>str3 p n.
            want g rlen (intl_word INTL_UINTEGER p n) (\<lambda>u p n.
              call_lib em g rlen (Dngettext str1 str2 str3 u)))) s
      else if command = 3 then
        want_strings g rlen buf n (\<lambda>str1 str2 p n.
          want g rlen (intl_word INTL_INTEGER p n) (\<lambda>i p n.
            want_category g rlen i (\<lambda>c. call_lib em g rlen (Dcgettext str1 str2 c)))) s
      else if command = 6 then
        want_strings g rlen buf n (\<lambda>str1 str2 p n.
          want g rlen (intl_string p n) (\<lambda>str3 p n.
            want g rlen (intl_word INTL_UINTEGER p n) (\<lambda>u p n.
              want g rlen (intl_word INTL_INTEGER p n) (\<lambda>i p n.
                want_category g rlen i (\<lambda>c. call_lib em g rlen (Dcngettext str1 str2 str3 u c)))))) s
      else if command = 7 then
        if buf = [] then call_lib em g rlen (Textdomain None) s
        else want g rlen (intl_string buf n) (\<lambda>str1 p n. call_lib em g rlen (Textdomain (Some str1))) s
      else if command = 8 then
        if buf = [] then call_lib em g rlen (Textdomain None) s
        else want_strings g rlen buf n (\<lambda>str1 str2 p n. call_lib em g rlen (Bindtextdomain str1 str2)) s
      else if command = 9 then
        if buf = [] then call_lib em g rlen (Textdomain None) s
        else want_strings g rlen buf n (\<lambda>str1 str2 p n.
          call_lib em g rlen (Bind_textdomain_codeset str1 str2)) s
      else if command = 10 then
        want g rlen (intl_word INTL_INTEGER buf n) (\<lambda>i p n.
          want_category g rlen i (\<lambda>c s.
            want g rlen (intl_string p n) (\<lambda>str1 p n. call_lib em g rlen (Setlocale c str1)) s)) s
      else Inr ((-1, []), s))"

section \<open>What intl.erl sends\<close>

definition string_arg :: "byte list \<Rightarrow> byte list" where
  "string_arg bs = INTL_STRING # bs @ [0]"

definition integer_arg :: "int \<Rightarrow> byte list" where
  "integer_arg i = INTL_INTEGER # put_int32 i"

definition uinteger_arg :: "32 word \<Rightarrow> byte list" where
  "uinteger_arg u = INTL_UINTEGER # put_int32 (uint u)"

fun intl_command :: "intl_call \<Rightarrow> int" where
  "intl_command (Gettext _) = 1"
| "intl_command (Dgettext _ _) = 2"
| "intl_command (Dcgettext _ _ _) = 3"
| "intl_command (Ngettext _ _ _) = 4"
| "intl_command (Dngettext _ _ _ _) = 5"
| "intl_command (Dcngettext _ _ _ _ _) = 6"
| "intl_command (Textdomain _) = 7"
| "intl_command (Bindtextdomain _ _) = 8"
| "intl_command (Bind_textdomain_codeset _ _) = 9"
| "intl_command (Setlocale _ _) = 10"

fun intl_args :: "intl_call \<Rightarrow> byte list" where
  "intl_args (Gettext a) = string_arg a"
| "intl_args (Dgettext a b) = string_arg a @ string_arg b"
| "intl_args (Dcgettext a b c) = string_arg a @ string_arg b @ integer_arg c"
| "intl_args (Ngettext a b u) = string_arg a @ string_arg b @ uinteger_arg u"
| "intl_args (Dngettext a b c u) = string_arg a @ string_arg b @ string_arg c @ uinteger_arg u"
| "intl_args (Dcngettext a b c u i) =
     string_arg a @ string_arg b @ string_arg c @ uinteger_arg u @ integer_arg i"
| "intl_args (Textdomain None) = []"
| "intl_args (Textdomain (Some a)) = string_arg a"
| "intl_args (Bindtextdomain a b) = string_arg a @ string_arg b"
| "intl_args (Bind_textdomain_codeset a b) = string_arg a @ string_arg b"
| "intl_args (Setlocale i a) = integer_arg i @ string_arg a"

text \<open>Strings hold no zero byte, a category is one of the thirteen.\<close>

definition plain_string :: "byte list \<Rightarrow> bool" where
  "plain_string bs \<longleftrightarrow> 0 \<notin> set bs"

fun proper :: "intl_call \<Rightarrow> bool" where
  "proper (Gettext a) = plain_string a"
| "proper (Dgettext a b) = (plain_string a \<and> plain_string b)"
| "proper (Dcgettext a b c) = (plain_string a \<and> plain_string b \<and> 0 \<le> c \<and> c \<le> 12)"
| "proper (Ngettext a b u) = (plain_string a \<and> plain_string b)"
| "proper (Dngettext a b c u) = (plain_string a \<and> plain_string b \<and> plain_string c)"
| "proper (Dcngettext a b c u i) = (plain_string a \<and> plain_string b \<and> plain_string c \<and> 0 \<le> i \<and> i \<le> 12)"
| "proper (Textdomain a) = (case a of None \<Rightarrow> True | Some a \<Rightarrow> plain_string a)"
| "proper (Bindtextdomain a b) = (plain_string a \<and> plain_string b)"
| "proper (Bind_textdomain_codeset a b) = (plain_string a \<and> plain_string b)"
| "proper (Setlocale i a) = (0 \<le> i \<and> i \<le> 12 \<and> plain_string a)"

section \<open>Arguments are read back\<close>

lemma scan_plain:
  "0 \<notin> set bs \<Longrightarrow> length bs < n \<Longrightarrow> scan_string (bs @ 0 # r) n = Inr (0 # r, n - length bs)"
proof (induction bs arbitrary: n)
  case Nil
  then show ?case by (cases n) auto
next
  case (Cons b bs)
  then show ?case by (cases n) auto
qed

lemma scan_short:
  "0 \<notin> set bs \<Longrightarrow> length bs < n \<Longrightarrow> scan_string bs n = Inl OutOfBounds"
proof (induction bs arbitrary: n)
  case Nil
  then show ?case by (cases n) auto
next
  case (Cons b bs)
  then show ?case by (cases n) auto
qed

lemma c_string_plain: "0 \<notin> set bs \<Longrightarrow> c_string (bs @ 0 # r) = bs"
  unfolding c_string_def by (subst takeWhile_append2) auto

text \<open>A string in front of \<open>r\<close>; the tag is not taken off the count.\<close>

lemma intl_string_arg:
  assumes "plain_string bs" "length bs < n"
  shows "intl_string (string_arg bs @ r) n = Inr (Some (bs, r, n - length bs - 1))"
  using assms scan_plain [of bs n r] c_string_plain [of bs r]
  by (simp add: intl_string_def string_arg_def plain_string_def)

lemma intl_string_cut:
  assumes "plain_string bs" "length bs < n"
  shows "intl_string (butlast (string_arg bs)) n = Inl OutOfBounds"
  using assms scan_short [of bs n] by (simp add: intl_string_def string_arg_def plain_string_def butlast_append)

lemma intl_word_arg:
  assumes "5 \<le> n" "- (2 ^ 31) \<le> i" "i < 2 ^ 32"
  shows "intl_word tag (tag # put_int32 i @ r) n = Inr (Some (cint i, r, n - 5))"
proof -
  have "bytes_at 0 4 (put_int32 i @ r) = put_int32 i" by (simp add: bytes_at_def)
  moreover have "cint (get_int32 (put_int32 i)) = cint i"
    using get_put_int32_word [of i "[]"] by simp
  ultimately show ?thesis using assms(1) by (simp add: intl_word_def reading_def)
qed

lemma intl_word_cut:
  assumes "5 \<le> n"
  shows "intl_word tag (butlast (tag # put_int32 i)) n = Inl OutOfBounds"
  using assms by (simp add: intl_word_def reading_def put_int32_def)

lemma want_simps [simp]:
  "want g rlen (Inl e) k s = Inl e"
  "want g rlen (Inr None) k s = ret_code g INTL_EINVAL rlen s"
  "want g rlen (Inr (Some (x, p, n))) k s = k x p n s"
  by (simp_all add: want_def)

lemma length_args [simp]:
  "length (string_arg a) = length a + 2" "length (integer_arg i) = 5" "length (uinteger_arg u) = 5"
  by (simp_all add: string_arg_def integer_arg_def uinteger_arg_def)

lemma args_nonempty [simp]: "string_arg a \<noteq> []" "string_arg a @ r \<noteq> []" "butlast (string_arg a) \<noteq> []"
  by (simp_all add: string_arg_def)

lemma want_category_arg:
  "0 \<le> i \<Longrightarrow> i \<le> 12 \<Longrightarrow> want_category g rlen (cint i) k s = k i s"
  by (simp add: want_category_def get_category_def sint_cint)

text \<open>A word argument with its tag, as it stands in the arguments.\<close>

lemma word_args:
  assumes "5 \<le> n"
  shows "intl_word INTL_UINTEGER (uinteger_arg u @ r) n = Inr (Some (u, r, n - 5))"
    and "intl_word INTL_UINTEGER (uinteger_arg u) n = Inr (Some (u, [], n - 5))"
    and "0 \<le> i \<Longrightarrow> i \<le> 12 \<Longrightarrow> intl_word INTL_INTEGER (integer_arg i @ r) n = Inr (Some (cint i, r, n - 5))"
    and "0 \<le> i \<Longrightarrow> i \<le> 12 \<Longrightarrow> intl_word INTL_INTEGER (integer_arg i) n = Inr (Some (cint i, [], n - 5))"
proof -
  have u: "- (2 ^ 31) \<le> uint u" "uint u < 2 ^ 32"
    using uint_lt2p [of u] order_trans [OF _ uint_ge_0, of "- (2 ^ 31)" u] by simp_all
  show "intl_word INTL_UINTEGER (uinteger_arg u @ r) n = Inr (Some (u, r, n - 5))"
    "intl_word INTL_UINTEGER (uinteger_arg u) n = Inr (Some (u, [], n - 5))"
    using intl_word_arg [OF assms u, of INTL_UINTEGER r] intl_word_arg [OF assms u, of INTL_UINTEGER "[]"]
    by (simp_all add: uinteger_arg_def)
  show "0 \<le> i \<Longrightarrow> i \<le> 12 \<Longrightarrow> intl_word INTL_INTEGER (integer_arg i @ r) n = Inr (Some (cint i, r, n - 5))"
    "0 \<le> i \<Longrightarrow> i \<le> 12 \<Longrightarrow> intl_word INTL_INTEGER (integer_arg i) n = Inr (Some (cint i, [], n - 5))"
    using intl_word_arg [OF assms, of i INTL_INTEGER r] intl_word_arg [OF assms, of i INTL_INTEGER "[]"]
    by (simp_all add: integer_arg_def)
qed

lemma string_alone:
  assumes "plain_string bs" "length bs < n"
  shows "intl_string (string_arg bs) n = Inr (Some (bs, [], n - length bs - 1))"
  using intl_string_arg [OF assms, of "[]"] by simp

lemma word_cut:
  assumes "5 \<le> n"
  shows "intl_word INTL_UINTEGER (butlast (uinteger_arg u)) n = Inl OutOfBounds"
    and "intl_word INTL_INTEGER (butlast (integer_arg i)) n = Inl OutOfBounds"
  using intl_word_cut [OF assms] by (simp_all add: uinteger_arg_def integer_arg_def)

lemma nonempty_words [simp]: "uinteger_arg u \<noteq> []" "integer_arg i \<noteq> []"
  by (simp_all add: uinteger_arg_def integer_arg_def)

lemmas intl_parse = intl_string_arg string_alone word_args word_cut intl_string_cut want_category_arg
  want_strings_def

lemma intl_ctl_args:
  assumes "proper c"
  shows "intl_ctl em g (intl_command c) (intl_args c) rlen s = call_lib em g rlen c s"
  using assms by (cases c) (simp_all add: intl_ctl_def intl_parse Let_def split: option.splits)

lemma intl_ctl_cut:
  assumes "proper c" "intl_args c \<noteq> []"
  shows "intl_ctl em g (intl_command c) (butlast (intl_args c)) rlen s = Inl OutOfBounds"
  using assms
  by (cases c) (simp_all add: intl_ctl_def intl_parse Let_def butlast_append split: option.splits)

end
