(* ===== verification/Fd_Send.thy ===== *)
theory Fd_Send
  imports Driver_Api "HOL-Library.Multiset"
begin

text \<open>
  The driver that hands file descriptors to other processes (\<^verbatim>\<open>fd_server/c_src/fdsend_drv.c\<close>, with the
  functions of \<^verbatim>\<open>fdlib.c\<close> it uses).  It keeps a table of 64 slaves: the Unix domain sockets it listens
  on, each with an allocated copy of its path, and the connections it has accepted.  The operating
  system is the parameter \<open>fd_os\<close>; its calls and those of the emulator go into one log, newest first.
\<close>

section \<open>State and calls\<close>

datatype fd_call =
    FdDrv call
  | FdSocket
  | FdBind int "byte list"
  | FdChmod "byte list"
  | FdChown "byte list"
  | FdListen int
  | FdAccept int
  | FdSendmsg int int
  | FdClose int
  | FdConnect int "byte list"
  | FdRecvmsg int
  | FdSelect int bool

type_synonym fd_log = "fd_call list"

text \<open>
  What \<^verbatim>\<open>recvmsg\<close> brings: nothing but an error; a wrong number of bytes; a message with no descriptor in
  it; one whose ancillary data is of another level or type; a descriptor.
\<close>

datatype fd_received = RecvFails | RecvCount | RecvNone | RecvOther | RecvFd int

record fd_os =
  fo_fd :: "fd_log \<Rightarrow> int"             \<comment> \<open>the result of \<^verbatim>\<open>socket\<close> and \<^verbatim>\<open>accept\<close>\<close>
  fo_ok :: "fd_log \<Rightarrow> bool"            \<comment> \<open>do \<^verbatim>\<open>bind\<close>, \<^verbatim>\<open>connect\<close> and \<^verbatim>\<open>sendmsg\<close> succeed\<close>
  fo_recv :: "fd_log \<Rightarrow> fd_received"
  fo_alloc :: "fd_log \<Rightarrow> bool"         \<comment> \<open>does the allocation just called succeed\<close>
  fo_strerror :: "fd_log \<Rightarrow> byte list" \<comment> \<open>\<^verbatim>\<open>strerror(errno)\<close>\<close>

datatype slave_type = SLAVE_LISTEN | SLAVE_ACCEPT

record slave =
  sl_fd :: int
  sl_path :: "byte list option"
  sl_type :: slave_type

record fd_world =
  fd_log :: fd_log

record fd_state = fd_world +
  fd_instance :: int
  slaves :: "slave list"

abbreviation MAXSLAVES :: nat where "MAXSLAVES \<equiv> 64"

definition fd_do :: "fd_call \<Rightarrow> 'a fd_world_scheme \<Rightarrow> 'a fd_world_scheme" where
  "fd_do c s = s\<lparr>fd_log := c # fd_log s\<rparr>"

definition fd_output :: "byte list \<Rightarrow> 'a fd_world_scheme \<Rightarrow> 'a fd_world_scheme" where
  "fd_output bs s = fd_do (FdDrv (Output bs)) s"

section \<open>Replies\<close>

definition fd_reply_int :: "int \<Rightarrow> 'a fd_world_scheme \<Rightarrow> 'a fd_world_scheme" where
  "fd_reply_int i s = fd_output (1 # put_int32 i) s"

definition fd_reply_ok :: "'a fd_world_scheme \<Rightarrow> 'a fd_world_scheme" where
  "fd_reply_ok s = fd_output [1] s"

definition fd_reply_err :: "'a fd_world_scheme \<Rightarrow> 'a fd_world_scheme" where
  "fd_reply_err s = fd_output [0] s"

definition fd_reply_err_string :: "byte list \<Rightarrow> 'a fd_world_scheme \<Rightarrow> 'a fd_world_scheme" where
  "fd_reply_err_string t s = fd_output (0 # take 8191 t) s"

definition fd_reply_err_errno :: "fd_os \<Rightarrow> 'a fd_world_scheme \<Rightarrow> 'a fd_world_scheme" where
  "fd_reply_err_errno os s = fd_output (0 # take 8191 (fo_strerror os (fd_log s))) s"

section \<open>Sockets\<close>

text \<open>
  \<^verbatim>\<open>fd_listen_path\<close>.  The path is a C string in the bytes it is given; the check against the 108 bytes of
  \<^verbatim>\<open>sun_path\<close> lets two lengths through that do not fit.
\<close>

definition fd_listen_path ::
  "fd_os \<Rightarrow> byte list \<Rightarrow> fd_state \<Rightarrow> (int, fd_state) outcome" where
  "fd_listen_path os path s =
     (let s = fd_do FdSocket s; fd = fo_fd os (fd_log s); p = c_string path in
      if 0 \<notin> set path then Inl OutOfBounds
      else if length p > 109 then Inr (-1, s)
      else if length p + 1 > 108 then Inl OutOfBounds
      else
        let s = fd_do (FdBind fd p) s in
        if \<not> fo_ok os (fd_log s) then Inr (-1, fd_reply_err_errno os s)
        else Inr (fd, fd_do (FdListen fd) (fd_do (FdChown p) (fd_do (FdChmod p) s))))"

definition fd_accept_path :: "fd_os \<Rightarrow> int \<Rightarrow> fd_state \<Rightarrow> int \<times> fd_state" where
  "fd_accept_path os fd s =
     (let s = fd_do (FdAccept fd) s; c = fo_fd os (fd_log s) in
      if c < 0 then (-1, fd_reply_err_errno os s) else (c, s))"

definition send_fd :: "fd_os \<Rightarrow> int \<Rightarrow> int \<Rightarrow> fd_state \<Rightarrow> int \<times> fd_state" where
  "send_fd os fd sock s =
     (let s = fd_do (FdSendmsg fd sock) s in (if fo_ok os (fd_log s) then 1 else -1, s))"

section \<open>The table\<close>

definition find_slave :: "int \<Rightarrow> slave list \<Rightarrow> nat option" where
  "find_slave fd t = find (\<lambda>i. sl_fd (t ! i) = fd) [0..<length t]"

definition find_free_slave :: "slave list \<Rightarrow> nat option" where
  "find_free_slave t = find_slave (-1) t"

definition set_slave :: "nat \<Rightarrow> slave \<Rightarrow> fd_state \<Rightarrow> fd_state" where
  "set_slave i v s = s\<lparr>slaves := (slaves s)[i := v]\<rparr>"

text \<open>Only one instance is meant to be allowed, but nothing ever sets \<^verbatim>\<open>instance\<close>.\<close>

definition fdsend_start :: "fd_state \<Rightarrow> bool \<times> fd_state" where
  "fdsend_start s =
     (if fd_instance s \<noteq> -1 then (False, s)
      else (True, s\<lparr>slaves := map (\<lambda>v. v\<lparr>sl_fd := -1, sl_path := None\<rparr>) (slaves s)\<rparr>))"

definition fd_command_listen :: "fd_os \<Rightarrow> byte list \<Rightarrow> fd_state \<Rightarrow> (unit, fd_state) outcome" where
  "fd_command_listen os buf s =
     andthen (fd_listen_path os buf s) (\<lambda>fd s.
       case find_free_slave (slaves s) of
         None \<Rightarrow> Inr ((), fd_reply_err s)
       | Some i \<Rightarrow>
           if fd > 0 then
             let s = fd_do (FdDrv (AllocMem (int (length buf) + 1))) s in
             if fo_alloc os (fd_log s) then
               Inr ((), fd_reply_int fd
                 (set_slave i \<lparr>sl_fd = fd, sl_path = Some (c_string buf), sl_type = SLAVE_LISTEN\<rparr> s))
             else Inr ((), fd_reply_err s)
           else Inr ((), fd_reply_err s))"

definition fd_command_accept :: "fd_os \<Rightarrow> int \<Rightarrow> fd_state \<Rightarrow> fd_state" where
  "fd_command_accept os fd s =
     (case find_slave fd (slaves s) of
        None \<Rightarrow> fd_reply_err s
      | Some i \<Rightarrow>
          (case find_free_slave (slaves s) of
             None \<Rightarrow> fd_reply_err s
           | Some j \<Rightarrow>
               (case fd_accept_path os fd s of (afd, s) \<Rightarrow>
                  if afd > 0 then
                    fd_reply_int afd
                      (set_slave j \<lparr>sl_fd = afd, sl_path = sl_path (slaves s ! i), sl_type = SLAVE_ACCEPT\<rparr> s)
                  else fd_reply_err s)))"

definition fd_command_close :: "int \<Rightarrow> fd_state \<Rightarrow> fd_state" where
  "fd_command_close fd s =
     (case find_slave fd (slaves s) of
        None \<Rightarrow> fd_reply_err s
      | Some i \<Rightarrow>
          let v = slaves s ! i;
              s = (if sl_path v \<noteq> None \<and> sl_type v = SLAVE_LISTEN then fd_do (FdDrv FreeMem) s else s);
              s = fd_do (FdClose fd) s
          in fd_reply_ok (set_slave i (v\<lparr>sl_path := None, sl_fd := -1\<rparr>) s))"

text \<open>\<^verbatim>\<open>from_erlang\<close>: 76 is \<open>L\<close>, 65 \<open>A\<close>, 108 \<open>l\<close>, 83 \<open>S\<close> and 67 \<open>C\<close>.\<close>

definition fdsend_from_erlang :: "fd_os \<Rightarrow> byte list \<Rightarrow> fd_state \<Rightarrow> (unit, fd_state) outcome" where
  "fdsend_from_erlang os msg s =
     (case msg of
        [] \<Rightarrow> Inl OutOfBounds
      | c # buf \<Rightarrow>
          if c = 76 then fd_command_listen os buf s
          else if c = 65 then
            reading buf 0 4 (\<lambda>b. Inr ((), fd_command_accept os (get_int32 b) s))
          else if c = 108 \<or> c = 83 then
            reading buf 0 4 (\<lambda>b. reading buf 4 4 (\<lambda>b'.
              case send_fd os (get_int32 b) (get_int32 b') s of (r, s) \<Rightarrow>
                Inr ((), if r = -1 then fd_reply_err s else fd_reply_ok s)))
          else if c = 67 then reading buf 0 4 (\<lambda>b. Inr ((), fd_command_close (get_int32 b) s))
          else Inr ((), s))"

definition stop_slave :: "nat \<Rightarrow> fd_state \<Rightarrow> fd_state" where
  "stop_slave i s =
     (let v = slaves s ! i in
      if sl_fd v > 0 then
        let s = (if sl_type v = SLAVE_LISTEN then fd_do (FdDrv FreeMem) s else s)
        in fd_do (FdClose (sl_fd v)) (set_slave i (v\<lparr>sl_path := None\<rparr>) s)
      else s)"

definition fdsend_stop :: "fd_state \<Rightarrow> fd_state" where
  "fdsend_stop s = (fold stop_slave [0..<length (slaves s)] s)\<lparr>fd_instance := -1\<rparr>"

section \<open>Descriptors and memory\<close>

text \<open>
  The descriptors the driver has got, in the log: those of a new socket and of a connection; and those it has
  closed, the invalid one apart.
\<close>

fun fd_opened :: "fd_os \<Rightarrow> fd_log \<Rightarrow> int multiset" where
  "fd_opened os [] = {#}"
| "fd_opened os (FdSocket # h) =
     (if fo_fd os (FdSocket # h) > 0 then {#fo_fd os (FdSocket # h)#} else {#}) + fd_opened os h"
| "fd_opened os (FdAccept fd # h) =
     (if fo_fd os (FdAccept fd # h) > 0 then {#fo_fd os (FdAccept fd # h)#} else {#}) + fd_opened os h"
| "fd_opened os (_ # h) = fd_opened os h"

fun fd_closed :: "fd_log \<Rightarrow> int multiset" where
  "fd_closed [] = {#}"
| "fd_closed (FdClose fd # h) = (if fd > 0 then {#fd#} else {#}) + fd_closed h"
| "fd_closed (_ # h) = fd_closed h"

text \<open>
  The sockets the driver loses: those that could not be bound, and those for whose path there was no memory.
  Nobody knows their descriptors then.
\<close>

fun fd_lost :: "fd_os \<Rightarrow> fd_log \<Rightarrow> int multiset" where
  "fd_lost os [] = {#}"
| "fd_lost os (FdBind fd p # h) =
     (if 0 < fd \<and> \<not> fo_ok os (FdBind fd p # h) then {#fd#} else {#}) + fd_lost os h"
| "fd_lost os (FdDrv (AllocMem n) # FdListen fd # h) =
     (if \<not> fo_alloc os (FdDrv (AllocMem n) # FdListen fd # h) then {#fd#} else {#}) + fd_lost os h"
| "fd_lost os (_ # h) = fd_lost os h"

text \<open>Paths allocated and freed.\<close>

fun fd_allocs :: "fd_os \<Rightarrow> fd_log \<Rightarrow> nat" where
  "fd_allocs os [] = 0"
| "fd_allocs os (FdDrv (AllocMem n) # h) =
     (if fo_alloc os (FdDrv (AllocMem n) # h) then Suc (fd_allocs os h) else fd_allocs os h)"
| "fd_allocs os (_ # h) = fd_allocs os h"

fun fd_frees :: "fd_log \<Rightarrow> nat" where
  "fd_frees [] = 0"
| "fd_frees (FdDrv FreeMem # h) = Suc (fd_frees h)"
| "fd_frees (_ # h) = fd_frees h"

text \<open>What the slaves hold.\<close>

definition held_fd :: "slave \<Rightarrow> int multiset" where
  "held_fd v = (if sl_fd v > 0 then {#sl_fd v#} else {#})"

definition held_path :: "slave \<Rightarrow> nat" where
  "held_path v = (if sl_fd v > 0 \<and> sl_type v = SLAVE_LISTEN then 1 else 0)"

definition held :: "slave list \<Rightarrow> int multiset" where
  "held t = sum_list (map held_fd t)"

definition held_paths :: "slave list \<Rightarrow> nat" where
  "held_paths t = sum_list (map held_path t)"

text \<open>
  The system returns positive descriptors or -1.  The descriptor 0 is taken: the emulator has its standard
  input open.
\<close>

definition fd_os_ok :: "fd_os \<Rightarrow> bool" where
  "fd_os_ok os \<longleftrightarrow> (\<forall>h. fo_fd os h > 0 \<or> fo_fd os h = -1)"

definition good_slave :: "slave \<Rightarrow> bool" where
  "good_slave v \<longleftrightarrow> (sl_fd v = -1 \<and> sl_path v = None) \<or>
     (sl_fd v > 0 \<and> (sl_type v = SLAVE_LISTEN \<longrightarrow> sl_path v \<noteq> None))"

definition used :: "slave list \<Rightarrow> nat" where
  "used t = length (filter (\<lambda>v. sl_fd v \<noteq> -1) t)"

definition fd_inv :: "fd_os \<Rightarrow> fd_state \<Rightarrow> bool" where
  "fd_inv os s \<longleftrightarrow>
     length (slaves s) = MAXSLAVES \<and> (\<forall>v \<in> set (slaves s). good_slave v) \<and>
     fd_opened os (fd_log s) = fd_closed (fd_log s) + fd_lost os (fd_log s) + held (slaves s) \<and>
     fd_allocs os (fd_log s) = fd_frees (fd_log s) + held_paths (slaves s)"

lemma fd_log_do [simp]: "fd_log (fd_do c s) = c # fd_log s"
  by (simp add: fd_do_def)

lemma fd_do_simps [simp]:
  "slaves (fd_do c s) = slaves s"
  "fd_instance (fd_do c s) = fd_instance s"
  by (simp_all add: fd_do_def)

lemma set_slave_simps [simp]:
  "fd_log (set_slave i v s) = fd_log s" "slaves (set_slave i v s) = (slaves s)[i := v]"
  by (simp_all add: set_slave_def)

lemma fd_inv_reply [simp]:
  "fd_inv os (fd_reply_int n s) = fd_inv os s" "fd_inv os (fd_reply_ok s) = fd_inv os s"
  "fd_inv os (fd_reply_err s) = fd_inv os s" "fd_inv os (fd_reply_err_errno os' s) = fd_inv os s"
  "slaves (fd_reply_int n s) = slaves s" "slaves (fd_reply_ok s) = slaves s"
  "slaves (fd_reply_err s) = slaves s" "slaves (fd_reply_err_errno os' s) = slaves s"
  by (simp_all add: fd_inv_def fd_reply_int_def fd_reply_ok_def fd_reply_err_def
      fd_reply_err_errno_def fd_output_def)

lemma held_update:
  "i < length t \<Longrightarrow> held (t[i := v]) + held_fd (t ! i) = held t + held_fd v"
  "i < length t \<Longrightarrow> held_paths (t[i := v]) + held_path (t ! i) = held_paths t + held_path v"
  by (induction t arbitrary: i) (auto simp: held_def held_paths_def nth_Cons split: nat.splits)

lemma used_update:
  "i < length t \<Longrightarrow> used (t[i := v]) \<le> Suc (used t)"
  "i < length t \<Longrightarrow> sl_fd v = -1 \<Longrightarrow> used (t[i := v]) \<le> used t"
  by (induction t arbitrary: i) (auto simp: used_def nth_Cons split: nat.splits)

lemma find_slave_Some: "find_slave fd t = Some i \<Longrightarrow> i < length t \<and> sl_fd (t ! i) = fd"
  by (auto simp: find_slave_def find_Some_iff)

lemma find_free_None: "find_free_slave t = None \<Longrightarrow> used t = length t"
  by (auto simp: find_free_slave_def find_slave_def find_None_iff used_def all_set_conv_all_nth filter_id_conv)

lemma good_update:
  "\<forall>v \<in> set t. good_slave v \<Longrightarrow> good_slave w \<Longrightarrow> \<forall>v \<in> set (t[i := w]). good_slave v"
  using set_update_subset_insert [of t i w] by blast

section \<open>Every command keeps them accounted for\<close>

text \<open>A command that can be read, with a path that fits.\<close>

definition proper_msg :: "byte list \<Rightarrow> bool" where
  "proper_msg msg \<longleftrightarrow> (case msg of
      [] \<Rightarrow> False
    | c # buf \<Rightarrow> if c = 76 then 0 \<in> set buf \<and> length (c_string buf) < 108
                 else if c = 65 \<or> c = 67 then 4 \<le> length buf
                 else if c = 108 \<or> c = 83 then 8 \<le> length buf else True)"

definition takes_slot :: "byte list \<Rightarrow> nat" where
  "takes_slot msg = (case msg of [] \<Rightarrow> 0 | c # buf \<Rightarrow> if c = 76 \<or> c = 65 then 1 else 0)"

lemma fill_slot:
  assumes "fd_inv os s" "find_free_slave (slaves s) = Some i" "good_slave v"
  shows "length ((slaves s)[i := v]) = MAXSLAVES" "\<forall>w \<in> set ((slaves s)[i := v]). good_slave w"
    and "held ((slaves s)[i := v]) = held (slaves s) + held_fd v"
    and "held_paths ((slaves s)[i := v]) = held_paths (slaves s) + held_path v"
    and "used ((slaves s)[i := v]) \<le> Suc (used (slaves s))"
proof -
  have i: "i < length (slaves s)" "sl_fd (slaves s ! i) = -1"
    using find_slave_Some assms(2) by (auto simp: find_free_slave_def)
  show "length ((slaves s)[i := v]) = MAXSLAVES" "\<forall>w \<in> set ((slaves s)[i := v]). good_slave w"
    using assms(1,3) good_update by (auto simp: fd_inv_def)
  show "held ((slaves s)[i := v]) = held (slaves s) + held_fd v"
    "held_paths ((slaves s)[i := v]) = held_paths (slaves s) + held_path v"
    using held_update [OF i(1), of v] i(2) by (simp_all add: held_fd_def held_path_def)
  show "used ((slaves s)[i := v]) \<le> Suc (used (slaves s))" by (rule used_update(1) [OF i(1)])
qed

lemma fd_os_okD: "fd_os_ok os \<Longrightarrow> \<not> 0 < fo_fd os h \<Longrightarrow> fo_fd os h = -1"
  by (auto simp: fd_os_ok_def)

lemma good_new: "0 < fd \<Longrightarrow> good_slave \<lparr>sl_fd = fd, sl_path = Some p, sl_type = SLAVE_LISTEN\<rparr>"
  "0 < fd \<Longrightarrow> good_slave \<lparr>sl_fd = fd, sl_path = q, sl_type = SLAVE_ACCEPT\<rparr>"
  by (simp_all add: good_slave_def)

text \<open>A socket that cannot be bound is answered twice and stays open.\<close>

lemma listen_bind_fails:
  assumes "0 \<in> set buf" "length (c_string buf) < 108" "find_free_slave (slaves s) \<noteq> None"
    and "fo_fd os (FdSocket # fd_log s) = fd"
    and "\<not> fo_ok os (FdBind fd (c_string buf) # FdSocket # fd_log s)"
  shows "fd_command_listen os buf s =
    Inr ((), fd_reply_err (fd_reply_err_errno os (fd_do (FdBind fd (c_string buf)) (fd_do FdSocket s))))"
  using assms by (auto simp: fd_command_listen_def fd_listen_path_def Let_def)

lemma find_free_room: "used t < length t \<Longrightarrow> \<exists>i. find_free_slave t = Some i"
  using find_free_None [of t] by (cases "find_free_slave t") auto

lemma fd_listen_ok:
  assumes os: "fd_os_ok os" and inv: "fd_inv os s" and room: "used (slaves s) < MAXSLAVES"
    and buf: "0 \<in> set buf" "length (c_string buf) < 108"
  shows "run_ok {} (\<lambda>_ s'. fd_inv os s' \<and> used (slaves s') \<le> Suc (used (slaves s)))
    (fd_command_listen os buf s)"
proof -
  obtain i where i: "find_free_slave (slaves s) = Some i"
    using find_free_room [of "slaves s"] room inv by (auto simp: fd_inv_def)
  have "\<not> 0 < fo_fd os (FdSocket # fd_log s) \<Longrightarrow> fo_fd os (FdSocket # fd_log s) = -1"
    by (rule fd_os_okD [OF os])
  moreover note fill_slot [OF inv i good_new(1)]
  ultimately show ?thesis
    using i inv buf
    apply (cases "0 < fo_fd os (FdSocket # fd_log s)")
    subgoal by (simp add: fd_command_listen_def fd_listen_path_def Let_def)
        (simp add: fd_inv_def held_fd_def held_path_def)
    subgoal by (simp add: fd_command_listen_def fd_listen_path_def Let_def)
        (simp add: fd_inv_def)
    done
qed

lemma fd_accept_ok:
  assumes os: "fd_os_ok os" and inv: "fd_inv os s"
  shows "fd_inv os (fd_command_accept os fd s) \<and>
    used (slaves (fd_command_accept os fd s)) \<le> Suc (used (slaves s))"
proof (cases "find_slave fd (slaves s)")
  case None
  then show ?thesis using inv by (simp add: fd_command_accept_def)
next
  case i: (Some i)
  show ?thesis
  proof (cases "find_free_slave (slaves s)")
    case None
    then show ?thesis using inv i by (simp add: fd_command_accept_def)
  next
    case j: (Some j)
    note fill = fill_slot [OF inv j good_new(2)]
    show ?thesis
    proof (cases "0 < fo_fd os (FdAccept fd # fd_log s)")
      case True
      then show ?thesis using inv i j fill [OF True]
        by (simp add: fd_command_accept_def fd_accept_path_def Let_def)
          (simp add: fd_inv_def held_fd_def held_path_def)
    next
      case False
      then show ?thesis using inv i j fd_os_okD [OF os False]
        by (simp add: fd_command_accept_def fd_accept_path_def Let_def) (simp add: fd_inv_def)
    qed
  qed
qed

lemma fd_close_ok:
  assumes inv: "fd_inv os s"
  shows "fd_inv os (fd_command_close fd s) \<and>
    used (slaves (fd_command_close fd s)) \<le> used (slaves s)"
proof (cases "find_slave fd (slaves s)")
  case None
  then show ?thesis using inv by (simp add: fd_command_close_def)
next
  case (Some i)
  then have i: "i < length (slaves s)" "sl_fd (slaves s ! i) = fd" using find_slave_Some by auto
  let ?v = "slaves s ! i" and ?w = "(slaves s ! i)\<lparr>sl_path := None, sl_fd := -1\<rparr>"
  have good: "good_slave ?v" using inv i by (auto simp: fd_inv_def)
  have "good_slave ?w" by (simp add: good_slave_def)
  then have "\<forall>v \<in> set ((slaves s)[i := ?w]). good_slave v"
    using inv good_update by (auto simp: fd_inv_def)
  moreover have "held (slaves s) = held ((slaves s)[i := ?w]) + held_fd ?v"
    "held_paths (slaves s) = held_paths ((slaves s)[i := ?w]) + held_path ?v"
    using held_update [OF i(1), of ?w] by (simp_all add: held_fd_def held_path_def)
  moreover have "used ((slaves s)[i := ?w]) \<le> used (slaves s)"
    by (rule used_update(2) [OF i(1)]) simp
  ultimately show ?thesis
    using inv good i Some
    apply (simp add: fd_command_close_def Let_def)
    apply (cases "sl_type ?v")
    by (auto simp: fd_inv_def good_slave_def held_fd_def held_path_def)
qed

lemma from_erlang_ok:
  assumes os: "fd_os_ok os" and inv: "fd_inv os s" and msg: "proper_msg msg"
    and room: "used (slaves s) + takes_slot msg \<le> MAXSLAVES"
  shows "run_ok {} (\<lambda>_ s'. fd_inv os s' \<and> used (slaves s') \<le> used (slaves s) + takes_slot msg)
    (fdsend_from_erlang os msg s)"
proof -
  obtain c buf where m: "msg = c # buf" using msg by (cases msg) (auto simp: proper_msg_def)
  consider "c = 76" | "c = 65" | "c = 67" | "c = 108 \<or> c = 83" | "c \<notin> {76, 65, 67, 108, 83}" by blast
  then show ?thesis
  proof cases
    case 1
    then show ?thesis using fd_listen_ok [OF os inv] msg room m
      by (simp add: fdsend_from_erlang_def proper_msg_def takes_slot_def)
  next
    case 2
    then show ?thesis using fd_accept_ok [OF os inv] msg room m
      by (simp add: fdsend_from_erlang_def proper_msg_def takes_slot_def reading_def)
  next
    case 3
    then show ?thesis using fd_close_ok [OF inv] msg room m
      by (simp add: fdsend_from_erlang_def proper_msg_def takes_slot_def reading_def)
  next
    case 4
    then show ?thesis using inv msg m
      by (auto simp: fdsend_from_erlang_def proper_msg_def takes_slot_def reading_def send_fd_def Let_def)
        (simp_all add: fd_inv_def)
  next
    case 5
    then show ?thesis using inv m by (simp add: fdsend_from_erlang_def)
  qed
qed

section \<open>A session\<close>

fun fdsend_run :: "fd_os \<Rightarrow> byte list list \<Rightarrow> fd_state \<Rightarrow> (unit, fd_state) outcome" where
  "fdsend_run os [] s = Inr ((), s)"
| "fdsend_run os (m # ms) s = andthen (fdsend_from_erlang os m s) (\<lambda>_ s. fdsend_run os ms s)"

lemma fdsend_run_ok:
  assumes "fd_os_ok os" "fd_inv os s" "\<forall>m \<in> set ms. proper_msg m"
    and "used (slaves s) + sum_list (map takes_slot ms) \<le> MAXSLAVES"
  shows "run_ok {} (\<lambda>_. fd_inv os) (fdsend_run os ms s)"
  using assms(2-4)
proof (induction ms arbitrary: s)
  case Nil
  then show ?case by simp
next
  case (Cons m ms)
  have "run_ok {} (\<lambda>_ s'. fd_inv os s' \<and> used (slaves s') \<le> used (slaves s) + takes_slot m)
    (fdsend_from_erlang os m s)"
    by (rule from_erlang_ok [OF assms(1)]) (use Cons.prems in auto)
  then show ?case
    unfolding fdsend_run.simps
    apply (subst run_ok_andthen)
    apply (erule run_ok_mono)
    using Cons.prems by (auto intro!: Cons.IH)
qed

text \<open>\<^verbatim>\<open>stop\<close> leaves the descriptors in the table; what is held beyond a place is what it has yet to close.\<close>

lemma stop_slave_frame:
  "length (slaves (stop_slave i s)) = length (slaves s)"
  "j \<noteq> i \<Longrightarrow> slaves (stop_slave i s) ! j = slaves s ! j"
  by (simp_all add: stop_slave_def Let_def)

lemma stop_slave_log:
  assumes "i < length (slaves s)" "good_slave (slaves s ! i)"
  shows "fd_opened os (fd_log (stop_slave i s)) = fd_opened os (fd_log s)"
    and "fd_allocs os (fd_log (stop_slave i s)) = fd_allocs os (fd_log s)"
    and "fd_lost os (fd_log (stop_slave i s)) = fd_lost os (fd_log s)"
    and "fd_closed (fd_log (stop_slave i s)) = fd_closed (fd_log s) + held_fd (slaves s ! i)"
    and "fd_frees (fd_log (stop_slave i s)) = fd_frees (fd_log s) + held_path (slaves s ! i)"
  by (cases "sl_type (slaves s ! i)";
      simp add: stop_slave_def Let_def held_fd_def held_path_def)+

lemma stop_fold:
  assumes "length t = length (slaves s)" "\<forall>j < length t. n \<le> j \<longrightarrow> slaves s ! j = t ! j"
    "\<forall>v \<in> set t. good_slave v" "n + k = length t"
  shows "fd_opened os (fd_log (fold stop_slave [n..<n + k] s)) = fd_opened os (fd_log s)"
    and "fd_allocs os (fd_log (fold stop_slave [n..<n + k] s)) = fd_allocs os (fd_log s)"
    and "fd_lost os (fd_log (fold stop_slave [n..<n + k] s)) = fd_lost os (fd_log s)"
    and "fd_closed (fd_log (fold stop_slave [n..<n + k] s)) = fd_closed (fd_log s) + held (drop n t)"
    and "fd_frees (fd_log (fold stop_slave [n..<n + k] s)) = fd_frees (fd_log s) + held_paths (drop n t)"
proof -
  have "fd_opened os (fd_log (fold stop_slave [n..<n + k] s)) = fd_opened os (fd_log s) \<and>
    fd_allocs os (fd_log (fold stop_slave [n..<n + k] s)) = fd_allocs os (fd_log s) \<and>
    fd_lost os (fd_log (fold stop_slave [n..<n + k] s)) = fd_lost os (fd_log s) \<and>
    fd_closed (fd_log (fold stop_slave [n..<n + k] s)) = fd_closed (fd_log s) + held (drop n t) \<and>
    fd_frees (fd_log (fold stop_slave [n..<n + k] s)) = fd_frees (fd_log s) + held_paths (drop n t)"
    using assms
  proof (induction k arbitrary: n s)
    case 0
    then show ?case by (simp add: held_def held_paths_def)
  next
    case (Suc k)
    have up: "[n..<Suc (n + k)] = n # [Suc n..<Suc (n + k)]" by (simp add: upt_rec)
    have n: "n < length (slaves s)" "slaves s ! n = t ! n" "good_slave (t ! n)"
      using Suc.prems by auto
    have d: "drop n t = t ! n # drop (Suc n) t" using n Suc.prems(1) by (simp add: Cons_nth_drop_Suc)
    note log = stop_slave_log [of n s, unfolded n(2), OF n(1,3)]
    have pre: "length t = length (slaves (stop_slave n s))"
      "\<forall>j < length t. Suc n \<le> j \<longrightarrow> slaves (stop_slave n s) ! j = t ! j" "Suc n + k = length t"
      using Suc.prems by (simp_all add: stop_slave_frame)
    show ?case
      using Suc.IH [OF pre(1,2) Suc.prems(3) pre(3)] log
      by (simp add: up d held_def held_paths_def del: upt_Suc)
  qed
  then show "fd_opened os (fd_log (fold stop_slave [n..<n + k] s)) = fd_opened os (fd_log s)"
    "fd_allocs os (fd_log (fold stop_slave [n..<n + k] s)) = fd_allocs os (fd_log s)"
    "fd_lost os (fd_log (fold stop_slave [n..<n + k] s)) = fd_lost os (fd_log s)"
    "fd_closed (fd_log (fold stop_slave [n..<n + k] s)) = fd_closed (fd_log s) + held (drop n t)"
    "fd_frees (fd_log (fold stop_slave [n..<n + k] s)) = fd_frees (fd_log s) + held_paths (drop n t)"
    by simp_all
qed

lemma fdsend_stop_ok:
  assumes "fd_inv os s"
  shows "fd_opened os (fd_log (fdsend_stop s)) = fd_closed (fd_log (fdsend_stop s)) + fd_lost os (fd_log (fdsend_stop s)) \<and>
    fd_allocs os (fd_log (fdsend_stop s)) = fd_frees (fd_log (fdsend_stop s))"
  using stop_fold [where t = "slaves s" and s = s and n = 0 and k = "length (slaves s)"] assms
  by (simp add: fdsend_stop_def fd_inv_def)

lemma fdsend_start_ok:
  assumes "length (slaves s) = MAXSLAVES" "fd_instance s = -1" "fd_log s = []"
  shows "fst (fdsend_start s)" "fd_inv os (snd (fdsend_start s))" "used (slaves (snd (fdsend_start s))) = 0"
  using assms
  by (auto simp: fdsend_start_def fd_inv_def good_slave_def used_def held_def held_paths_def
      held_fd_def held_path_def comp_def)

text \<open>A session from the start of the driver to its end.\<close>

lemma fdsend_session_ok:
  assumes "fd_os_ok os" "length (slaves s) = MAXSLAVES" "fd_instance s = -1" "fd_log s = []"
    and "\<forall>m \<in> set ms. proper_msg m" "sum_list (map takes_slot ms) \<le> MAXSLAVES"
  shows "\<exists>s'. fdsend_run os ms (snd (fdsend_start s)) = Inr ((), s') \<and>
    fd_opened os (fd_log (fdsend_stop s')) = fd_closed (fd_log (fdsend_stop s')) + fd_lost os (fd_log (fdsend_stop s')) \<and>
    fd_allocs os (fd_log (fdsend_stop s')) = fd_frees (fd_log (fdsend_stop s'))"
proof -
  have "run_ok {} (\<lambda>_. fd_inv os) (fdsend_run os ms (snd (fdsend_start s)))"
    using assms fdsend_start_ok [OF assms(2-4)] by (intro fdsend_run_ok) auto
  then obtain s' where "fdsend_run os ms (snd (fdsend_start s)) = Inr ((), s')" "fd_inv os s'"
    by (auto simp: run_ok_def split: sum.splits)
  then show ?thesis using fdsend_stop_ok by blast
qed

text \<open>A system to evaluate with: descriptors count up from 4.\<close>

definition demo_os :: fd_os where
  "demo_os = \<lparr>fo_fd = (\<lambda>h. int (length h) + 3), fo_ok = \<lambda>_. True, fo_recv = \<lambda>_. RecvNone,
     fo_alloc = \<lambda>_. True, fo_strerror = \<lambda>_. []\<rparr>"

definition demo_slaves :: fd_state where
  "demo_slaves = \<lparr>fd_log = [], fd_instance = -1,
     slaves = replicate MAXSLAVES \<lparr>sl_fd = 0, sl_path = None, sl_type = SLAVE_LISTEN\<rparr>\<rparr>"

text \<open>One where the path \<open>/b\<close> cannot be bound.\<close>

definition demo_os_bind :: fd_os where
  "demo_os_bind = demo_os\<lparr>fo_ok := \<lambda>h. case h of FdBind fd p # _ \<Rightarrow> p \<noteq> [47, 98] | _ \<Rightarrow> True\<rparr>"

lemma demo_os_bind_ok: "fd_os_ok demo_os_bind"
  by (simp add: fd_os_ok_def demo_os_bind_def demo_os_def)

end
