(* ===== verification/Fd_Receive.thy ===== *)
theory Fd_Receive
  imports Fd_Send
begin

text \<open>
  The driver that receives file descriptors (\<^verbatim>\<open>fd_server/c_src/fdsrv_drv.c\<close>, without its test program):
  it connects to the Unix domain socket of the server that opens them and passes each on to Erlang.
\<close>

section \<open>State and entry points\<close>

record fdsrv_state = fd_world +
  fr_instance :: int
  fdsrv :: int

text \<open>The path is what follows the last space of the command.\<close>

definition fdsrv_path :: "byte list \<Rightarrow> byte list" where
  "fdsrv_path buf = rev (takeWhile (\<lambda>b. b \<noteq> 32) (rev buf))"

text \<open>\<open>buf\<close> is the command without the byte that ends it.  The driver refuses with -1.\<close>

definition fdsrv_start :: "fd_os \<Rightarrow> int \<Rightarrow> byte list \<Rightarrow> fdsrv_state \<Rightarrow> (int, fdsrv_state) outcome" where
  "fdsrv_start os port buf s =
     (if fr_instance s \<noteq> -1 then Inr (-1, s)
      else if length buf > 109 then Inr (-1, s)
      else
        let path = fdsrv_path buf; s = fd_do FdSocket (s\<lparr>fr_instance := port\<rparr>); fd = fo_fd os (fd_log s) in
        if length path + 1 > 108 then Inl OutOfBounds
        else
          let s = fd_do (FdConnect fd path) s in
          if \<not> fo_ok os (fd_log s) then Inr (-1, s\<lparr>fr_instance := -1\<rparr>)
          else Inr (port, fd_do (FdSelect fd True) (s\<lparr>fdsrv := fd\<rparr>)))"

definition recv_fd :: "fd_os \<Rightarrow> int \<Rightarrow> fdsrv_state \<Rightarrow> int \<times> fdsrv_state" where
  "recv_fd os sock s =
     (let s = fd_do (FdRecvmsg sock) s in
      case fo_recv os (fd_log s) of
        RecvFails \<Rightarrow> (-1, fd_reply_err_errno os s)
      | RecvCount \<Rightarrow> (-1, fd_reply_err_string (bytes_of ''recvmsg() unexpected return value'') s)
      | RecvNone \<Rightarrow> (-1, fd_reply_err_string (bytes_of ''error in received fd'') s)
      | RecvOther \<Rightarrow> (-1, fd_reply_err_string (bytes_of ''level or controle type error!'' @ [10]) s)
      | RecvFd fd \<Rightarrow> (fd, s))"

definition fd_is_ready :: "fd_os \<Rightarrow> int \<Rightarrow> int \<Rightarrow> fdsrv_state \<Rightarrow> fdsrv_state" where
  "fd_is_ready os port event s =
     (if port \<noteq> fr_instance s \<or> event \<noteq> fdsrv s then s
      else case recv_fd os (fdsrv s) s of (fd, s) \<Rightarrow>
        if fd < 0 then fd_reply_err (fd_do (FdSelect (fdsrv s) False) (fd_do (FdClose (fdsrv s)) s))
        else fd_reply_int fd s)"

definition fdsrv_stop :: "fdsrv_state \<Rightarrow> fdsrv_state" where
  "fdsrv_stop s = (fd_do (FdClose (fdsrv s)) (fd_do (FdSelect (fdsrv s) False) s))\<lparr>fr_instance := -1\<rparr>"

section \<open>A session\<close>

fun fdsrv_run :: "fd_os \<Rightarrow> int \<Rightarrow> nat \<Rightarrow> fdsrv_state \<Rightarrow> fdsrv_state" where
  "fdsrv_run os port 0 s = s"
| "fdsrv_run os port (Suc n) s = fdsrv_run os port n (fd_is_ready os port (fdsrv s) s)"

text \<open>The messages, oldest first.\<close>

fun fd_messages :: "fd_log \<Rightarrow> byte list list" where
  "fd_messages [] = []"
| "fd_messages (FdDrv (Output bs) # h) = fd_messages h @ [bs]"
| "fd_messages (_ # h) = fd_messages h"

text \<open>The descriptors that \<^verbatim>\<open>recvmsg\<close> has brought, oldest first.\<close>

fun fd_brought :: "fd_os \<Rightarrow> fd_log \<Rightarrow> int list" where
  "fd_brought os [] = []"
| "fd_brought os (FdRecvmsg k # h) =
     fd_brought os h @ (case fo_recv os (FdRecvmsg k # h) of RecvFd fd \<Rightarrow> [fd] | _ \<Rightarrow> [])"
| "fd_brought os (_ # h) = fd_brought os h"

definition brings :: "fd_os \<Rightarrow> bool" where
  "brings os \<longleftrightarrow> (\<forall>k h. case fo_recv os (FdRecvmsg k # h) of RecvFd fd \<Rightarrow> 0 \<le> fd | _ \<Rightarrow> False)"

lemma fdsrv_do_simps [simp]:
  "fdsrv (fd_do c s) = fdsrv s" "fr_instance (fd_do c s) = fr_instance s"
  by (simp_all add: fd_do_def)

lemma fdsrv_replies [simp]:
  "fdsrv (fd_reply_int n s) = fdsrv s" "fr_instance (fd_reply_int n s) = fr_instance s"
  "fdsrv (fd_reply_err s) = fdsrv s" "fdsrv (fd_reply_err_errno os s) = fdsrv s"
  "fdsrv (fd_reply_err_string t s) = fdsrv s"
  by (simp_all add: fd_reply_int_def fd_reply_err_def fd_reply_err_errno_def fd_reply_err_string_def
      fd_output_def)

lemma fdsrv_run_brings:
  assumes "brings os" "fr_instance s = port"
    and "fd_messages (fd_log s) = map (\<lambda>fd. 1 # put_int32 fd) (fd_brought os (fd_log s))"
  shows "fd_messages (fd_log (fdsrv_run os port n s)) =
      map (\<lambda>fd. 1 # put_int32 fd) (fd_brought os (fd_log (fdsrv_run os port n s))) \<and>
    length (fd_brought os (fd_log (fdsrv_run os port n s))) = length (fd_brought os (fd_log s)) + n \<and>
    fd_closed (fd_log (fdsrv_run os port n s)) = fd_closed (fd_log s) \<and>
    fdsrv (fdsrv_run os port n s) = fdsrv s"
  using assms(2,3)
proof (induction n arbitrary: s)
  case 0
  then show ?case by simp
next
  case (Suc n)
  let ?s = "fd_do (FdRecvmsg (fdsrv s)) s"
  obtain fd where fd: "fo_recv os (fd_log ?s) = RecvFd fd" "0 \<le> fd"
    using assms(1) [unfolded brings_def, rule_format, of "fdsrv s" "fd_log s"]
    by (cases "fo_recv os (fd_log ?s)") simp_all
  then have r: "fd_is_ready os port (fdsrv s) s = fd_reply_int fd ?s"
    using Suc.prems(1) by (simp add: fd_is_ready_def recv_fd_def Let_def)
  have "fd_messages (fd_log (fd_reply_int fd ?s)) =
      map (\<lambda>fd. 1 # put_int32 fd) (fd_brought os (fd_log (fd_reply_int fd ?s)))"
    and "fd_brought os (fd_log (fd_reply_int fd ?s)) = fd_brought os (fd_log s) @ [fd]"
    and "fd_closed (fd_log (fd_reply_int fd ?s)) = fd_closed (fd_log s)"
    using fd(1) Suc.prems(2) by (simp_all add: fd_reply_int_def fd_output_def)
  then show ?case using Suc.IH [of "fd_reply_int fd ?s"] Suc.prems(1) by (simp add: r)
qed

text \<open>
  What is received after an error: the connection is closed, the caller is told twice, and stopping
  closes the descriptor again, which may be another one by then.
\<close>

lemma closed_twice:
  assumes "fr_instance s = port" "0 < fdsrv s" "fo_recv os (FdRecvmsg (fdsrv s) # fd_log s) = RecvNone"
  shows "fd_closed (fd_log (fdsrv_stop (fd_is_ready os port (fdsrv s) s))) =
      fd_closed (fd_log s) + {#fdsrv s, fdsrv s#}"
    and "fd_messages (fd_log (fdsrv_stop (fd_is_ready os port (fdsrv s) s))) =
      fd_messages (fd_log s) @ [0 # bytes_of ''error in received fd'', [0]]"
  using assms
  by (simp_all add: fd_is_ready_def recv_fd_def Let_def fdsrv_stop_def fd_reply_err_def
      fd_reply_err_string_def fd_output_def bytes_of_def)

text \<open>A session in which every message brings a descriptor: each is passed on, and the socket closed once.\<close>

lemma fdsrv_session:
  assumes "brings os" "fr_instance s = -1" "fd_log s = []"
    and "length buf \<le> 109" "length (fdsrv_path buf) < 108"
    and "fo_fd os [FdSocket] = fd" "0 < fd" "fo_ok os [FdConnect fd (fdsrv_path buf), FdSocket]"
  shows "\<exists>s1. fdsrv_start os port buf s = Inr (port, s1) \<and>
    length (fd_brought os (fd_log (fdsrv_run os port n s1))) = n \<and>
    fd_messages (fd_log (fdsrv_run os port n s1)) =
      map (\<lambda>fd. 1 # put_int32 fd) (fd_brought os (fd_log (fdsrv_run os port n s1))) \<and>
    fd_closed (fd_log (fdsrv_stop (fdsrv_run os port n s1))) = {#fd#}"
proof -
  let ?s1 = "fd_do (FdSelect fd True)
    (fd_do (FdConnect fd (fdsrv_path buf)) (fd_do FdSocket (s\<lparr>fr_instance := port\<rparr>))\<lparr>fdsrv := fd\<rparr>)"
  have "fdsrv_start os port buf s = Inr (port, ?s1)"
    using assms by (simp add: fdsrv_start_def Let_def)
  moreover have "fr_instance ?s1 = port" "fdsrv ?s1 = fd" "fd_brought os (fd_log ?s1) = []"
    "fd_messages (fd_log ?s1) = []" "fd_closed (fd_log ?s1) = {#}"
    using assms(3) by simp_all
  ultimately show ?thesis
    using fdsrv_run_brings [OF assms(1), of ?s1 port n] assms(7)
    by (intro exI [of _ ?s1]) (simp add: fdsrv_stop_def)
qed

end
