(* ===== verification/Tun.thy ===== *)
theory Tun
  imports Driver_Api "HOL-Library.Sublist"
begin

text \<open>
  The driver of tunnel devices (\<^verbatim>\<open>tuntap/c_src/tun_drv.c\<close>): a port is connected to a tun or tap
  interface; packets from it are sent to Erlang, all of them, none, or only the next one.  The system is
  the parameter \<open>tun_os\<close>; its calls and those of the emulator go into one log, newest first.
\<close>

section \<open>State and calls\<close>

datatype tun_call =
    TunAlloc
  | TunFree
  | TunOpen
  | TunSetIff int int "byte list"
  | TunClose int
  | TunRead int
  | TunWrite int "byte list"
  | TunSelect int bool
  | TunPacket "byte list"
  | TunFailure

type_synonym tun_log = "tun_call list"

record tun_os =
  to_alloc :: "tun_log \<Rightarrow> bool"
  to_fresh :: "tun_log \<Rightarrow> byte list"            \<comment> \<open>what the 16 bytes of the name hold at first\<close>
  to_open :: "tun_log \<Rightarrow> int"
  to_setiff :: "tun_log \<Rightarrow> byte list option"    \<comment> \<open>\<^verbatim>\<open>ifr_name\<close> after the request, None when it fails\<close>
  to_read :: "tun_log \<Rightarrow> byte list option"      \<comment> \<open>None when \<^verbatim>\<open>read\<close> fails\<close>
  to_write :: "tun_log \<Rightarrow> bool"

record tun_state =
  tun_log :: tun_log
  tun_fd :: int
  tun_dev :: "byte list"
  tun_active :: int

abbreviation (input) ACTIVE_FALSE :: int where "ACTIVE_FALSE \<equiv> 0"
abbreviation (input) ACTIVE_TRUE :: int where "ACTIVE_TRUE \<equiv> 1"
abbreviation (input) ACTIVE_ONCE :: int where "ACTIVE_ONCE \<equiv> 2"
abbreviation (input) IFF_TUN :: int where "IFF_TUN \<equiv> 1"
abbreviation (input) IFF_TAP :: int where "IFF_TAP \<equiv> 2"
abbreviation (input) IFF_NO_PI :: int where "IFF_NO_PI \<equiv> 4096"
abbreviation IFNAMSIZ :: nat where "IFNAMSIZ \<equiv> 16"
abbreviation TUNNEL_BUF_SIZE :: nat where "TUNNEL_BUF_SIZE \<equiv> 2048"

definition tun_do :: "tun_call \<Rightarrow> tun_state \<Rightarrow> tun_state" where
  "tun_do c s = s\<lparr>tun_log := c # tun_log s\<rparr>"

section \<open>Starting\<close>

text \<open>\<^verbatim>\<open>strncpy\<close>: at most \<open>n\<close> bytes of the string, filled up with zeros.\<close>

definition strncpy :: "byte list \<Rightarrow> nat \<Rightarrow> byte list" where
  "strncpy str n = take n (c_string str @ replicate n 0)"

text \<open>
  The arguments are the bytes of a C string without its end.  The result is the mode and the bytes
  \<^verbatim>\<open>strncpy\<close> writes to \<^verbatim>\<open>dev_name\<close>.
\<close>

definition tun_parse_args :: "byte list \<Rightarrow> nat \<Rightarrow> (int \<times> byte list) option" where
  "tun_parse_args str max_name_len =
     (let str = dropWhile (\<lambda>b. b = 32) (dropWhile (\<lambda>b. b \<noteq> 32) str);
          rest = dropWhile (\<lambda>b. b = 32) (drop 3 str) in
      if str = [] then None
      else if take 3 str = bytes_of ''tun'' then Some (IFF_TUN, strncpy rest max_name_len)
      else if take 3 str = bytes_of ''tap'' then Some (IFF_TAP, strncpy rest max_name_len)
      else None)"

text \<open>\<open>make_if\<close> returns the descriptor and the name of the interface, or fails; the log grows.\<close>

definition make_if :: "tun_os \<Rightarrow> int \<Rightarrow> byte list \<Rightarrow> tun_log \<Rightarrow> fault + (int \<times> byte list) option \<times> tun_log" where
  "make_if os mode dev h =
     (let h = TunOpen # h; fd = to_open os h in
      if fd < 0 then Inr (None, h)
      else
        let ifr_name = (if hd dev \<noteq> 0 then strncpy dev IFNAMSIZ else replicate IFNAMSIZ 0);
            h = TunSetIff fd (mode + IFF_NO_PI) ifr_name # h in
        case to_setiff os h of
          None \<Rightarrow> Inr (None, TunClose fd # h)
        | Some name \<Rightarrow>
            if 0 \<notin> set (take IFNAMSIZ name) then Inl OutOfBounds
            else Inr (Some (fd, c_string name @ 0 # drop (Suc (length (c_string name))) dev), h))"

datatype tun_started = TunErrno | TunBadArg | TunGeneral | TunStarted tun_state

definition tun_start :: "tun_os \<Rightarrow> byte list \<Rightarrow> tun_log \<Rightarrow> fault + tun_started \<times> tun_log" where
  "tun_start os args h =
     (let h = TunAlloc # h in
      if \<not> to_alloc os h then Inr (TunErrno, h)
      else case tun_parse_args args (IFNAMSIZ - 1) of
          None \<Rightarrow> Inr (TunBadArg, h)
        | Some (mode, name) \<Rightarrow>
            (case make_if os mode (name @ drop (IFNAMSIZ - 1) (to_fresh os h)) h of
               Inl e \<Rightarrow> Inl e
             | Inr (None, h) \<Rightarrow> Inr (TunGeneral, h)
             | Inr (Some (fd, dev), h) \<Rightarrow>
                 let s = \<lparr>tun_log = TunSelect fd False # h, tun_fd = fd, tun_dev = dev, tun_active = ACTIVE_FALSE\<rparr>
                 in Inr (TunStarted s, tun_log s)))"

section \<open>Requests and packets\<close>

definition tun_ctl_reply ::
  "tun_os \<Rightarrow> byte \<Rightarrow> byte list \<Rightarrow> int \<Rightarrow> tun_state \<Rightarrow> (int \<times> byte list, tun_state) outcome" where
  "tun_ctl_reply os rep buf rsize s =
     (let n = int (length buf) + 1 in
      if n > rsize then
        let s = tun_do TunAlloc s in
        if to_alloc os (tun_log s) then Inr ((n, rep # buf), s) else Inl Aborts
      else Inr ((n, rep # buf), s))"

definition set_input :: "bool \<Rightarrow> tun_state \<Rightarrow> tun_state" where
  "set_input flag s = tun_do (TunSelect (tun_fd s) flag) s"

text \<open>What \<^verbatim>\<open>read\<close> leaves in \<^verbatim>\<open>buf\<close>: nothing on an error.\<close>

definition tun_read :: "tun_os \<Rightarrow> tun_state \<Rightarrow> byte list \<times> tun_state" where
  "tun_read os s =
     (let s = tun_do (TunRead (tun_fd s)) s in
      (case to_read os (tun_log s) of None \<Rightarrow> [] | Some bs \<Rightarrow> take TUNNEL_BUF_SIZE bs, s))"

definition tun_ctl ::
  "tun_os \<Rightarrow> int \<Rightarrow> byte list \<Rightarrow> int \<Rightarrow> tun_state \<Rightarrow> (int \<times> byte list, tun_state) outcome" where
  "tun_ctl os cmd buf rsize s =
     (if cmd = 0 then
        if 0 \<notin> set (tun_dev s) then Inl OutOfBounds
        else tun_ctl_reply os 1 (c_string (tun_dev s)) rsize s
      else if cmd = 2 then
        (case buf of
           [] \<Rightarrow> Inl OutOfBounds
         | b # _ \<Rightarrow>
             let s = s\<lparr>tun_active := sint b\<rparr> in
             if tun_active s = ACTIVE_FALSE then tun_ctl_reply os 1 [] rsize (set_input False s)
             else if tun_active s = ACTIVE_TRUE then tun_ctl_reply os 1 [] rsize (set_input True s)
             else if tun_active s = ACTIVE_ONCE then
               (case tun_read os s of (bs, s) \<Rightarrow>
                  if bs \<noteq> [] then
                    tun_ctl_reply os 1 [] rsize
                      (set_input False ((tun_do (TunPacket bs) s)\<lparr>tun_active := ACTIVE_FALSE\<rparr>))
                  else tun_ctl_reply os 1 [] rsize (set_input True s))
             else Inl Aborts)
      else tun_ctl_reply os 0 [] rsize s)"

definition tun_output :: "tun_os \<Rightarrow> byte list \<Rightarrow> tun_state \<Rightarrow> tun_state" where
  "tun_output os buf s =
     (let s = tun_do (TunWrite (tun_fd s) buf) s in
      if to_write os (tun_log s) then s else tun_do TunFailure s)"

definition tun_input :: "tun_os \<Rightarrow> tun_state \<Rightarrow> tun_state" where
  "tun_input os s =
     (case tun_read os s of (bs, s) \<Rightarrow>
        let s = (if bs \<noteq> [] then tun_do (TunPacket bs) s else s) in
        if tun_active s = ACTIVE_ONCE then set_input False (s\<lparr>tun_active := ACTIVE_FALSE\<rparr>) else s)"

definition tun_stop :: "tun_state \<Rightarrow> tun_log" where
  "tun_stop s = TunFree # TunClose (tun_fd s) # tun_log (set_input False s)"

section \<open>What the emulator may call\<close>

fun tun_selected :: "tun_log \<Rightarrow> bool" where
  "tun_selected [] = False"
| "tun_selected (TunSelect _ flag # h) = flag"
| "tun_selected (_ # h) = tun_selected h"

text \<open>Packets sent to Erlang and packets read from the device, oldest first.\<close>

fun tun_packets :: "tun_log \<Rightarrow> byte list list" where
  "tun_packets [] = []"
| "tun_packets (TunPacket bs # h) = tun_packets h @ [bs]"
| "tun_packets (_ # h) = tun_packets h"

fun tun_reads :: "tun_os \<Rightarrow> tun_log \<Rightarrow> byte list list" where
  "tun_reads os [] = []"
| "tun_reads os (TunRead fd # h) =
     tun_reads os h @ (case to_read os (TunRead fd # h) of
       None \<Rightarrow> [] | Some bs \<Rightarrow> if bs = [] then [] else [take TUNNEL_BUF_SIZE bs])"
| "tun_reads os (_ # h) = tun_reads os h"

text \<open>
  A call other than a request for a mode; the emulator reports input only when it was asked to.
\<close>

inductive tun_quiet :: "tun_os \<Rightarrow> tun_state \<Rightarrow> tun_state \<Rightarrow> bool" for os where
  other: "cmd \<noteq> 2 \<Longrightarrow> tun_ctl os cmd buf rsize s = Inr (r, s') \<Longrightarrow> tun_quiet os s s'"
| written: "tun_quiet os s (tun_output os buf s)"
| ready: "tun_selected (tun_log s) \<Longrightarrow> tun_quiet os s (tun_input os s)"

inductive tun_step :: "tun_os \<Rightarrow> tun_state \<Rightarrow> tun_state \<Rightarrow> bool" for os where
  quiet: "tun_quiet os s s' \<Longrightarrow> tun_step os s s'"
| mode: "tun_ctl os 2 buf rsize s = Inr (r, s') \<Longrightarrow> tun_step os s s'"

definition tun_ok :: "tun_os \<Rightarrow> tun_state \<Rightarrow> bool" where
  "tun_ok os s \<longleftrightarrow> tun_active s \<in> {ACTIVE_FALSE, ACTIVE_TRUE, ACTIVE_ONCE} \<and>
     (tun_selected (tun_log s) \<longleftrightarrow> tun_active s \<noteq> ACTIVE_FALSE) \<and>
     tun_packets (tun_log s) = tun_reads os (tun_log s)"

text \<open>How many packets may still be sent without a request: none, any number, or one.\<close>

definition tun_allowance :: "int \<Rightarrow> nat option" where
  "tun_allowance a = (if a = ACTIVE_FALSE then Some 0 else if a = ACTIVE_ONCE then Some 1 else None)"

section \<open>Every call\<close>

lemma tun_do_simps [simp]:
  "tun_log (tun_do c s) = c # tun_log s" "tun_fd (tun_do c s) = tun_fd s"
  "tun_dev (tun_do c s) = tun_dev s" "tun_active (tun_do c s) = tun_active s"
  by (simp_all add: tun_do_def)

lemma set_input_simps [simp]:
  "tun_log (set_input b s) = TunSelect (tun_fd s) b # tun_log s" "tun_active (set_input b s) = tun_active s"
  by (simp_all add: set_input_def)

text \<open>A reply only allocates.\<close>

lemma tun_reply:
  assumes "tun_ctl_reply os rep buf rsize s = Inr (r, s')"
  shows "r = (int (length buf) + 1, rep # buf) \<and> tun_active s' = tun_active s \<and>
    tun_selected (tun_log s') = tun_selected (tun_log s) \<and>
    tun_packets (tun_log s') = tun_packets (tun_log s) \<and> tun_reads os (tun_log s') = tun_reads os (tun_log s)"
  using assms by (auto simp: tun_ctl_reply_def Let_def split: if_splits)

lemma tun_read_effect:
  assumes "tun_read os s = (bs, s')"
  shows "tun_active s' = tun_active s \<and> tun_fd s' = tun_fd s \<and>
    tun_selected (tun_log s') = tun_selected (tun_log s) \<and>
    tun_packets (tun_log s') = tun_packets (tun_log s) \<and>
    tun_reads os (tun_log s') = tun_reads os (tun_log s) @ (if bs = [] then [] else [bs])"
  using assms by (auto simp: tun_read_def Let_def split: option.splits)

lemma tun_input_effect:
  assumes "tun_ok os s" "tun_selected (tun_log s)"
  shows "tun_ok os (tun_input os s)"
    and "tun_active (tun_input os s) = (if tun_active s = ACTIVE_ONCE then ACTIVE_FALSE else tun_active s)"
    and "\<exists>bs. tun_packets (tun_log (tun_input os s)) = tun_packets (tun_log s) @ (if bs = [] then [] else [bs])"
proof -
  obtain bs s1 where r: "tun_read os s = (bs, s1)" by fastforce
  note e = tun_read_effect [OF r]
  show "tun_ok os (tun_input os s)"
    using assms e by (auto simp: tun_input_def r Let_def tun_ok_def)
  show "tun_active (tun_input os s) = (if tun_active s = ACTIVE_ONCE then ACTIVE_FALSE else tun_active s)"
    using e by (simp add: tun_input_def r Let_def)
  show "\<exists>bs. tun_packets (tun_log (tun_input os s)) = tun_packets (tun_log s) @ (if bs = [] then [] else [bs])"
    using e by (intro exI [of _ bs]) (simp add: tun_input_def r Let_def)
qed

lemma tun_quiet_effect:
  assumes "tun_quiet os s s'" "tun_ok os s"
  shows "tun_ok os s' \<and>
    ((tun_active s' = tun_active s \<and> tun_packets (tun_log s') = tun_packets (tun_log s)) \<or>
     (tun_active s \<noteq> ACTIVE_FALSE \<and>
      tun_active s' = (if tun_active s = ACTIVE_ONCE then ACTIVE_FALSE else tun_active s) \<and>
      (\<exists>bs. tun_packets (tun_log s') = tun_packets (tun_log s) @ (if bs = [] then [] else [bs]))))"
  using assms
proof (induction rule: tun_quiet.induct)
  case (other cmd buf rsize s r s')
  then obtain rep b where "tun_ctl_reply os rep b rsize s = Inr (r, s')"
    by (auto simp: tun_ctl_def split: if_splits)
  from tun_reply [OF this] other.prems show ?case by (simp add: tun_ok_def)
next
  case (written s buf)
  then show ?case by (simp add: tun_output_def Let_def tun_ok_def)
next
  case (ready s)
  then show ?case using tun_input_effect [OF ready.prems ready.hyps] by (simp add: tun_ok_def)
qed

lemma tun_mode_effect:
  assumes "tun_ctl os 2 [b] rsize s = Inr (r, s')" "tun_ok os s"
  shows "tun_ok os s' \<and> r = (1, [1]) \<and>
    ((tun_active s' = sint b \<and> tun_packets (tun_log s') = tun_packets (tun_log s)) \<or>
     (sint b = ACTIVE_ONCE \<and> tun_active s' = ACTIVE_FALSE \<and>
      (\<exists>bs. tun_packets (tun_log s') = tun_packets (tun_log s) @ [bs])))"
proof -
  define t where "t = s\<lparr>tun_active := sint b\<rparr>"
  have t: "tun_log t = tun_log s" "tun_active t = sint b" by (simp_all add: t_def)
  obtain bs u where read: "tun_read os t = (bs, u)" by fastforce
  note e = tun_read_effect [OF read]
  consider "sint b = ACTIVE_FALSE" | "sint b = ACTIVE_TRUE" | "sint b = ACTIVE_ONCE" "bs = []"
    | "sint b = ACTIVE_ONCE" "bs \<noteq> []" | "sint b \<notin> {ACTIVE_FALSE, ACTIVE_TRUE, ACTIVE_ONCE}" by blast
  then show ?thesis
  proof cases
    case 1
    then have "tun_ctl_reply os 1 [] rsize (set_input False t) = Inr (r, s')"
      using assms(1) by (simp add: tun_ctl_def t_def)
    from tun_reply [OF this] show ?thesis using t 1 assms(2) by (simp add: tun_ok_def)
  next
    case 2
    then have "tun_ctl_reply os 1 [] rsize (set_input True t) = Inr (r, s')"
      using assms(1) by (simp add: tun_ctl_def t_def)
    from tun_reply [OF this] show ?thesis using t 2 assms(2) by (simp add: tun_ok_def)
  next
    case 3
    then have "tun_ctl_reply os 1 [] rsize (set_input True u) = Inr (r, s')"
      using assms(1) read by (simp add: tun_ctl_def t_def)
    from tun_reply [OF this] show ?thesis using e t 3 assms(2) by (simp add: tun_ok_def)
  next
    case 4
    then have "tun_ctl_reply os 1 [] rsize (set_input False ((tun_do (TunPacket bs) u)\<lparr>tun_active := ACTIVE_FALSE\<rparr>))
      = Inr (r, s')"
      using assms(1) read by (simp add: tun_ctl_def t_def)
    from tun_reply [OF this] show ?thesis using e t 4 assms(2) by (simp add: tun_ok_def)
  next
    case 5
    then show ?thesis using assms(1) by (simp add: tun_ctl_def)
  qed
qed

section \<open>From the start\<close>

lemma tun_started_ok:
  assumes "tun_start os args [] = Inr (TunStarted s, h)"
  shows "tun_ok os s"
  using assms
  by (auto simp: tun_start_def make_if_def Let_def tun_ok_def split: if_splits option.splits prod.splits sum.splits)

lemma tun_steps_ok:
  assumes "(tun_step os)\<^sup>*\<^sup>* s s'" "tun_ok os s"
  shows "tun_ok os s'"
  using assms
proof (induction rule: rtranclp_induct)
  case base
  then show ?case .
next
  case (step s1 s2)
  from step.hyps(2) show ?case
  proof cases
    case quiet
    then show ?thesis using tun_quiet_effect step by blast
  next
    case (mode buf rsize r)
    obtain b bs where buf: "buf = b # bs" using mode by (cases buf) (auto simp: tun_ctl_def)
    then have "tun_ctl os 2 [b] rsize s1 = Inr (r, s2)" using mode by (simp add: tun_ctl_def)
    then show ?thesis using tun_mode_effect step by blast
  qed
qed

lemma tun_quiet_allowance:
  assumes "(tun_quiet os)\<^sup>*\<^sup>* s s'" "tun_ok os s" "tun_allowance (tun_active s) = Some n"
  shows "\<exists>m. tun_ok os s' \<and> tun_allowance (tun_active s') = Some m \<and>
    length (tun_packets (tun_log s')) + m \<le> length (tun_packets (tun_log s)) + n"
  using assms
proof (induction rule: rtranclp_induct)
  case base
  then show ?case by auto
next
  case (step s1 s2)
  then obtain m where m: "tun_ok os s1" "tun_allowance (tun_active s1) = Some m"
    "length (tun_packets (tun_log s1)) + m \<le> length (tun_packets (tun_log s)) + n" by blast
  from tun_quiet_effect [OF step.hyps(2) m(1)] m(2,3) show ?case
    by (auto simp: tun_allowance_def split: if_splits)
qed

lemma tun_flow_ok:
  assumes "tun_start os args [] = Inr (TunStarted s0, h)" "(tun_step os)\<^sup>*\<^sup>* s0 s"
  shows "tun_packets (tun_log s) = tun_reads os (tun_log s)"
    and "tun_selected (tun_log s) \<longleftrightarrow> tun_active s \<noteq> ACTIVE_FALSE"
    and "tun_ctl os 2 [b] rsize s = Inr (r, s1) \<Longrightarrow> (tun_quiet os)\<^sup>*\<^sup>* s1 s2 \<Longrightarrow>
      tun_allowance (sint b) = Some n \<Longrightarrow>
      length (tun_packets (tun_log s2)) \<le> length (tun_packets (tun_log s)) + n"
proof -
  have ok: "tun_ok os s" by (rule tun_steps_ok [OF assms(2) tun_started_ok [OF assms(1)]])
  then show "tun_packets (tun_log s) = tun_reads os (tun_log s)"
    "tun_selected (tun_log s) \<longleftrightarrow> tun_active s \<noteq> ACTIVE_FALSE" by (simp_all add: tun_ok_def)
  assume mode: "tun_ctl os 2 [b] rsize s = Inr (r, s1)" and quiet: "(tun_quiet os)\<^sup>*\<^sup>* s1 s2"
    and n: "tun_allowance (sint b) = Some n"
  have e: "tun_ok os s1"
    "(tun_active s1 = sint b \<and> tun_packets (tun_log s1) = tun_packets (tun_log s)) \<or>
     (sint b = ACTIVE_ONCE \<and> tun_active s1 = ACTIVE_FALSE \<and>
      (\<exists>bs. tun_packets (tun_log s1) = tun_packets (tun_log s) @ [bs]))"
    using tun_mode_effect [OF mode ok] by blast+
  then have "\<exists>m. tun_allowance (tun_active s1) = Some m \<and>
      length (tun_packets (tun_log s1)) + m \<le> length (tun_packets (tun_log s)) + n"
    using n by (auto simp: tun_allowance_def split: if_splits)
  then obtain m where m: "tun_allowance (tun_active s1) = Some m"
    "length (tun_packets (tun_log s1)) + m \<le> length (tun_packets (tun_log s)) + n" by blast
  from tun_quiet_allowance [OF quiet e(1) m(1)] m(2)
  show "length (tun_packets (tun_log s2)) \<le> length (tun_packets (tun_log s)) + n" by auto
qed

text \<open>
  A request for the next packet is forgotten when the device has nothing after all: the port is passive
  again and has sent nothing.
\<close>

lemma once_forgotten:
  assumes "tun_active s = ACTIVE_ONCE" "to_read os (TunRead (tun_fd s) # tun_log s) = None"
  shows "tun_active (tun_input os s) = ACTIVE_FALSE" "\<not> tun_selected (tun_log (tun_input os s))"
    and "tun_packets (tun_log (tun_input os s)) = tun_packets (tun_log s)"
  using assms by (simp_all add: tun_input_def tun_read_def Let_def)

text \<open>A system to evaluate with: every read brings a packet.\<close>

definition demo_tun :: tun_os where
  "demo_tun = \<lparr>to_alloc = \<lambda>_. True, to_fresh = \<lambda>_. replicate 16 255, to_open = \<lambda>_. 5,
     to_setiff = \<lambda>_. Some (strncpy [116, 117, 110, 48] 16), to_read = \<lambda>_. Some [1, 2, 3],
     to_write = \<lambda>_. True\<rparr>"

definition demo_tunnel :: tun_state where
  "demo_tunnel = \<lparr>tun_log = [TunSelect 5 False, TunSetIff 5 4097 (replicate 16 0), TunOpen, TunAlloc],
     tun_fd = 5, tun_dev = [116, 117, 110, 48] @ replicate 11 0 @ [255], tun_active = ACTIVE_FALSE\<rparr>"

lemma demo_tunnel_started:
  "tun_start demo_tun (bytes_of ''tun_drv tun'') [] = Inr (TunStarted demo_tunnel, tun_log demo_tunnel)"
  by code_simp

text \<open>Asked for one packet, it reads and sends one at once.\<close>

definition demo_tunnel_once :: tun_state where
  "demo_tunnel_once =
     demo_tunnel\<lparr>tun_log := TunSelect 5 False # TunPacket [1, 2, 3] # TunRead 5 # tun_log demo_tunnel\<rparr>"

lemma demo_tunnel_asked: "tun_ctl demo_tun 2 [2] 64 demo_tunnel = Inr ((1, [1]), demo_tunnel_once)"
  by code_simp

end
