(* ===== verification/Edtk.thy ===== *)
theory Edtk
  imports Driver_Api
begin

text \<open>
  What the drivers made with the Erlang driver toolkit share (\<^verbatim>\<open>erl_driver_tk.c\<close> and \<^verbatim>\<open>erl_driver_tk.h\<close>, here
  those of \<^verbatim>\<open>spread_drv\<close>; the copies in \<^verbatim>\<open>posix_drv\<close> and \<^verbatim>\<open>gd1_drv\<close> differ in a comment): the arguments of a
  command are read off the pieces of an I/O vector with a cursor, and a term is written item by item.
\<close>

section \<open>The cursor\<close>

text \<open>
  A vector is the list of its pieces.  A cursor is an offset \<open>p\<close> into piece \<open>q\<close>.  The macros look at piece
  \<open>q\<close> without comparing \<open>q\<close> with \<^verbatim>\<open>vsize\<close>.
\<close>

type_synonym iovec = "byte list list"
type_synonym cursor = "nat \<times> nat"

definition ev_get :: "nat \<Rightarrow> iovec \<Rightarrow> cursor \<Rightarrow> fault + (byte list \<times> cursor) option" where
  "ev_get k ev c =
     (case c of (p, q) \<Rightarrow>
        if length ev \<le> q then Inl OutOfBounds
        else if p + k \<le> length (ev ! q) then
          Inr (Some (take k (drop p (ev ! q)), if p + k < length (ev ! q) then (p + k, q) else (0, q + 1)))
        else Inr None)"

definition ev_value ::
  "(byte list \<Rightarrow> 'a) \<Rightarrow> fault + (byte list \<times> cursor) option \<Rightarrow> fault + ('a \<times> cursor) option" where
  "ev_value f m = (case m of Inl e \<Rightarrow> Inl e | Inr None \<Rightarrow> Inr None | Inr (Some (bs, c)) \<Rightarrow> Inr (Some (f bs, c)))"

definition EV_GET_CHAR :: "iovec \<Rightarrow> cursor \<Rightarrow> fault + (byte \<times> cursor) option" where
  "EV_GET_CHAR ev c = ev_value hd (ev_get 1 ev c)"

definition EV_GET_UINT16 :: "iovec \<Rightarrow> cursor \<Rightarrow> fault + (16 word \<times> cursor) option" where
  "EV_GET_UINT16 ev c = ev_value (\<lambda>bs. word_of_int (get_int16 bs)) (ev_get 2 ev c)"

text \<open>The four bytes make an int, which is then widened to an \<^verbatim>\<open>unsigned long\<close> of 64 bits.\<close>

definition EV_GET_UINT32 :: "iovec \<Rightarrow> cursor \<Rightarrow> fault + (64 word \<times> cursor) option" where
  "EV_GET_UINT32 ev c = ev_value (\<lambda>bs. word_of_int (get_int32 bs)) (ev_get 4 ev c)"

text \<open>The bytes from the position to the end of its piece, or NULL.\<close>

definition EV_GETPOS :: "iovec \<Rightarrow> cursor \<Rightarrow> byte list option" where
  "EV_GETPOS ev c = (case c of (p, q) \<Rightarrow> if q < length ev then Some (drop p (ev ! q)) else None)"

text \<open>
  \<^verbatim>\<open>edtk_ev_forward_N\<close>.  The new offset is an int that is compared with the length as an unsigned number
  of 64 bits, so a negative one is beyond every piece.
\<close>

definition usize :: "int \<Rightarrow> int" where
  "usize i = i mod 2 ^ 64"

function edtk_ev_forward_N :: "iovec \<Rightarrow> int \<Rightarrow> cursor \<Rightarrow> bool \<Rightarrow> fault + int \<times> cursor" where
  "edtk_ev_forward_N ev n (p, q) want_contiguous =
     checked (int p + n) (\<lambda>forward_pos.
       if length ev \<le> q then Inr (-1, (p, q))
       else if usize forward_pos < int (length (ev ! q)) then Inr (1, (nat forward_pos, q))
       else if usize forward_pos = int (length (ev ! q)) then
         Inr (if q + 1 < length ev then 1 else 0, (0, q + 1))
       else if q + 1 < length ev \<and> \<not> want_contiguous then
         edtk_ev_forward_N ev (n - (int (length (ev ! q)) - int p)) (0, q + 1) want_contiguous
       else Inr (-1, (0, q + 1)))"
  by pat_completeness auto

text \<open>The calls go on to the next piece of the vector.\<close>

termination edtk_ev_forward_N
  by (relation "measure (\<lambda>(ev, n, (p, q), w). length ev - q)") auto

section \<open>The bytes in front of the cursor\<close>

definition ev_rest :: "iovec \<Rightarrow> cursor \<Rightarrow> byte list" where
  "ev_rest ev c = (case c of (p, q) \<Rightarrow> if q < length ev then drop p (ev ! q) @ concat (drop (q + 1) ev) else [])"

definition ev_valid :: "iovec \<Rightarrow> cursor \<Rightarrow> bool" where
  "ev_valid ev c \<longleftrightarrow> (case c of (p, q) \<Rightarrow> q < length ev \<longrightarrow> p \<le> length (ev ! q))"

lemma ev_rest_next: "ev_rest ev (0, q) = concat (drop q ev)"
  by (auto simp: ev_rest_def Cons_nth_drop_Suc [symmetric])

text \<open>What is read is what comes next, if the piece holds it.\<close>

lemma ev_get_rest:
  assumes "ev_get k ev c = Inr (Some (bs, c'))"
  shows "length bs = k" "ev_rest ev c = bs @ ev_rest ev c'" "ev_valid ev c'"
proof -
  obtain p q where c: "c = (p, q)" by fastforce
  have q: "q < length ev" "p + k \<le> length (ev ! q)" and bs: "bs = take k (drop p (ev ! q))"
    and c': "c' = (if p + k < length (ev ! q) then (p + k, q) else (0, q + 1))"
    using assms by (auto simp: ev_get_def c split: if_splits)
  have split: "drop p (ev ! q) = bs @ drop (p + k) (ev ! q)"
    by (simp add: bs add.commute flip: drop_drop)
  show "length bs = k" using q by (simp add: bs)
  show "ev_rest ev c = bs @ ev_rest ev c'"
    using q split by (auto simp: c' c ev_rest_next) (auto simp: ev_rest_def)
  show "ev_valid ev c'" by (auto simp: c' ev_valid_def)
qed

lemma usize_small: "0 \<le> i \<Longrightarrow> i < 2 ^ 64 \<Longrightarrow> usize i = i"
  by (simp add: usize_def)

text \<open>Where a forward of a number of bytes that is not negative ends.\<close>

definition ev_forwarded :: "iovec \<Rightarrow> int \<Rightarrow> cursor \<Rightarrow> bool \<Rightarrow> int \<times> cursor \<Rightarrow> bool" where
  "ev_forwarded ev n c w res \<longleftrightarrow> (case res of (r, c') \<Rightarrow>
     if r = -1 then w \<or> length ev \<le> snd c \<or> int (length (ev_rest ev c)) < n
     else snd c < length ev \<and> n \<le> int (length (ev_rest ev c)) \<and> ev_rest ev c' = drop (nat n) (ev_rest ev c) \<and>
       ev_valid ev c' \<and> r = (if snd c' < length ev then 1 else 0))"

lemma ev_rest_piece:
  "q < length ev \<Longrightarrow> ev_rest ev (p, q) = drop p (ev ! q) @ ev_rest ev (0, q + 1)"
  by (simp add: ev_rest_next) (simp add: ev_rest_def)

lemma ev_forward_rest:
  assumes "edtk_ev_forward_N ev n c w = Inr res" "0 \<le> n" "ev_valid ev c"
  shows "ev_forwarded ev n c w res"
  using assms
proof (induction ev n c w rule: edtk_ev_forward_N.induct)
  case (1 ev n p q w)
  let ?l = "int (length (ev ! q))"
  have small: "int p + n \<le> 2147483647" using "1.prems"(1) by (simp add: checked_def split: if_splits)
  then have pos: "usize (int p + n) = int p + n" using "1.prems"(2) by (simp add: usize_small)
  consider "length ev \<le> q" | "q < length ev" "int p + n < ?l" | "q < length ev" "int p + n = ?l"
    | "q < length ev" "?l < int p + n" by linarith
  then show ?case
  proof cases
    case 1
    then show ?thesis using "1.prems"(1) by (auto simp: checked_def ev_forwarded_def split: if_splits)
  next
    case 2
    then have "res = (1, (nat (int p + n), q))" using "1.prems" pos by (simp add: checked_def split: if_splits)
    moreover have "nat (int p + n) = nat n + p" using "1.prems"(2) by simp
    ultimately show ?thesis using 2 "1.prems"(2)
      by (simp add: ev_forwarded_def ev_rest_piece ev_valid_def flip: drop_drop)
  next
    case 3
    then have "res = (if q + 1 < length ev then 1 else 0, (0, q + 1))"
      using "1.prems" pos by (simp add: checked_def split: if_splits)
    moreover have "nat n = length (drop p (ev ! q))" using 3 "1.prems"(2) by simp
    ultimately show ?thesis using 3 "1.prems"(2)
      by (simp add: ev_forwarded_def ev_rest_piece) (simp add: ev_valid_def)
  next
    case 4
    have p: "p \<le> length (ev ! q)" using "1.prems"(3) 4 by (simp add: ev_valid_def)
    note unfolded = "1.prems"(1) [unfolded edtk_ev_forward_N.simps [of ev n p q w]]
    show ?thesis
    proof (cases "q + 1 < length ev \<and> \<not> w")
      case True
      let ?n = "n - (?l - int p)"
      obtain r c' where res: "res = (r, c')" by (cases res)
      have rec: "edtk_ev_forward_N ev ?n (0, q + 1) w = Inr res"
        using unfolded pos 4 True by (simp add: checked_def del: edtk_ev_forward_N.simps split: if_splits)
      have "ev_forwarded ev ?n (0, q + 1) w res"
        by (rule "1.IH" [of "int p + n", OF _ _ _ _ rec]) (use pos 4 True in \<open>auto simp: ev_valid_def\<close>)
      then have IH: "ev_forwarded ev ?n (0, q + 1) w (r, c')" by (simp add: res)
      define D R where D: "D = drop p (ev ! q)" and R: "R = ev_rest ev (0, q + 1)"
      have "int (length D) = ?l - int p" using p by (simp add: D)
      then have n: "nat n = length D + nat ?n" "?n = n - int (length D)" "int (length D) < n"
        using 4 by simp_all
      have "ev_rest ev (p, q) = D @ R" unfolding D R by (rule ev_rest_piece) (rule 4)
      moreover have "ev_forwarded ev (n - int (length D)) (0, q + 1) w (r, c')"
        "nat n = length D + nat (n - int (length D))"
        using IH n(1) unfolding n(2) by simp_all
      ultimately show ?thesis using n(3) 4 True unfolding res ev_forwarded_def
        by (simp add: R split: if_splits)
    next
      case False
      then have "res = (-1, (0, q + 1))"
        using unfolded pos 4 by (simp add: checked_def del: edtk_ev_forward_N.simps split: if_splits)
      then show ?thesis using 4 p False by (auto simp: ev_forwarded_def ev_rest_piece ev_rest_next)
    qed
  qed
qed

text \<open>Whatever the pieces are, as long as no value is cut in two, the values are read back one by one.\<close>

fun ev_fields :: "nat list \<Rightarrow> iovec \<Rightarrow> cursor \<Rightarrow> fault + (byte list list \<times> cursor) option" where
  "ev_fields [] ev c = Inr (Some ([], c))"
| "ev_fields (k # ks) ev c =
     (case ev_get k ev c of
        Inl e \<Rightarrow> Inl e
      | Inr None \<Rightarrow> Inr None
      | Inr (Some (bs, c)) \<Rightarrow>
          (case ev_fields ks ev c of
             Inr (Some (bss, c)) \<Rightarrow> Inr (Some (bs # bss, c))
           | r \<Rightarrow> r))"

lemma ev_fields_piece:
  assumes "ev = before @ (xs @ concat fs) # after" "[] \<notin> set fs" "fs \<noteq> []"
  shows "ev_fields (map length fs @ ks) ev (length xs, length before) =
    (case ev_fields ks ev (0, length before + 1) of
       Inr (Some (bss, c)) \<Rightarrow> Inr (Some (fs @ bss, c)) | r \<Rightarrow> r)"
  using assms
proof (induction fs arbitrary: xs)
  case Nil
  then show ?case by simp
next
  case (Cons f fs)
  show ?case
  proof (cases "fs = []")
    case True
    then show ?thesis using Cons.prems by (simp add: ev_get_def nth_append split: sum.splits option.splits)
  next
    case False
    then have "concat fs \<noteq> []" using Cons.prems by (cases fs) auto
    then have "ev_get (length f) ev (length xs, length before) = Inr (Some (f, (length (xs @ f), length before)))"
      using Cons.prems by (simp add: ev_get_def nth_append)
    then show ?thesis using Cons.IH [of "xs @ f"] Cons.prems False
      by (simp split: sum.splits option.splits)
  qed
qed

lemma ev_fields_pieces:
  assumes "ev = before @ map concat groups" "[] \<notin> set groups" "\<forall>fs \<in> set groups. [] \<notin> set fs"
  shows "ev_fields (map length (concat groups)) ev (0, length before) = Inr (Some (concat groups, (0, length ev)))"
  using assms
proof (induction groups arbitrary: before)
  case Nil
  then show ?case by simp
next
  case (Cons fs groups)
  have "ev_fields (map length (concat groups)) ev (0, length (before @ [concat fs])) =
      Inr (Some (concat groups, (0, length ev)))"
    by (rule Cons.IH) (use Cons.prems in auto)
  moreover have "ev_fields (map length fs @ map length (concat groups)) ev (length [], length before) =
    (case ev_fields (map length (concat groups)) ev (0, length before + 1) of
       Inr (Some (bss, c)) \<Rightarrow> Inr (Some (fs @ bss, c)) | r \<Rightarrow> r)"
    using ev_fields_piece [where ev = ev and before = before and xs = "[]" and fs = fs
        and after = "map concat groups" and ks = "map length (concat groups)"] Cons.prems by auto
  ultimately show ?case by simp
qed

text \<open>A field as it stands in its piece, with what follows it there.\<close>

lemma ev_get_at:
  assumes "ev = before @ (xs @ f @ ys) # after"
  shows "ev_get (length f) ev (length xs, length before) =
    Inr (Some (f, if ys = [] then (0, length before + 1) else (length xs + length f, length before)))"
  using assms by (simp add: ev_get_def nth_append)

lemma ev_forward_at:
  assumes "ev = before @ (xs @ f @ ys) # after" "length xs + length f \<le> 2147483647"
  shows "edtk_ev_forward_N ev (int (length f)) (length xs, length before) w =
    (if ys = [] then Inr (if after = [] then 0 else 1, (0, length before + 1))
     else Inr (1, (length xs + length f, length before)))"
  using assms by (simp add: checked_def usize_small nth_append nat_add_distrib)

text \<open>The fields that are still to be read, none of them empty and none cut in two.\<close>

definition ev_at :: "iovec \<Rightarrow> cursor \<Rightarrow> byte list list \<Rightarrow> bool" where
  "ev_at ev c fs \<longleftrightarrow> [] \<notin> set fs \<and>
     (if fs = [] then c = (0, length ev)
      else \<exists>before xs g gs. ev = before @ (xs @ concat g) # map concat gs \<and> c = (length xs, length before) \<and>
        g \<noteq> [] \<and> [] \<notin> set gs \<and> fs = g @ concat gs)"

lemma ev_atI:
  assumes "ev = before @ (xs @ concat g) # map concat gs" "g \<noteq> []" "[] \<notin> set gs" "[] \<notin> set (g @ concat gs)"
  shows "ev_at ev (length xs, length before) (g @ concat gs)"
  using assms unfolding ev_at_def by auto

lemma ev_at_start:
  assumes "[] \<notin> set groups" "[] \<notin> set (concat groups)"
  shows "ev_at (hdr # map concat groups) (0, 1) (concat groups)"
proof (cases groups)
  case Nil
  then show ?thesis by (simp add: ev_at_def)
next
  case (Cons g gs)
  then show ?thesis
    using ev_atI [of "hdr # map concat groups" "[hdr]" "[]" g gs] assms by auto
qed

lemma ev_at_cases:
  assumes "ev_at ev c (f # fs)"
  shows "\<exists>before xs ys after. ev = before @ (xs @ f @ ys) # after \<and> c = (length xs, length before) \<and>
    ev_at ev (if ys = [] then (0, length before + 1) else (length xs + length f, length before)) fs"
proof -
  obtain before xs g gs where ev: "ev = before @ (xs @ concat g) # map concat gs" "c = (length xs, length before)"
    "g \<noteq> []" "[] \<notin> set gs" "f # fs = g @ concat gs" and ne: "[] \<notin> set (f # fs)"
    using assms unfolding ev_at_def if_not_P [OF list.distinct(2)] by blast
  then obtain g' where g: "g = f # g'" "fs = g' @ concat gs" by (cases g) auto
  have g': "concat g' = [] \<longleftrightarrow> g' = []" using ne g by (cases g') auto
  have "ev_at ev (if concat g' = [] then (0, length before + 1) else (length xs + length f, length before)) fs"
  proof (cases "concat g' = []")
    case False
    then have "g' \<noteq> []" using g' by blast
    then show ?thesis
      using ev_atI [of ev before "xs @ f" g' gs] ev(1,4) g False ne by (simp del: concat_eq_Nil_conv)
  next
    case empty: True
    show ?thesis
    proof (cases gs)
      case Nil
      then show ?thesis using ev(1) g g' empty ne by (simp add: ev_at_def)
    next
      case (Cons h hs)
      then show ?thesis
        using ev_atI [of ev "before @ [xs @ concat g]" "[]" h hs] ev(1,4) g g' empty ne by auto
    qed
  qed
  then show ?thesis using ev(1,2) g(1)
    by (intro exI [of _ before] exI [of _ xs] exI [of _ "concat g'"] exI [of _ "map concat gs"]) simp
qed

lemma ev_at_get:
  assumes "ev_at ev c (f # fs)"
  shows "\<exists>c'. ev_get (length f) ev c = Inr (Some (f, c')) \<and> ev_at ev c' fs"
proof -
  from ev_at_cases [OF assms] obtain before xs ys after
    where *: "ev = before @ (xs @ f @ ys) # after" "c = (length xs, length before)"
      "ev_at ev (if ys = [] then (0, length before + 1) else (length xs + length f, length before)) fs" by blast
  show ?thesis using ev_get_at [OF *(1)] *(2,3) by auto
qed

text \<open>A binary: where it is, and the cursor behind it.\<close>

lemma ev_at_binary:
  assumes "ev_at ev c (f # fs)" "\<forall>piece \<in> set ev. length piece \<le> 2147483647"
  shows "\<exists>r c' ptr. edtk_ev_forward_N ev (int (length f)) c w = Inr (r, c') \<and> 0 \<le> r \<and> ev_at ev c' fs \<and>
    EV_GETPOS ev c = Some ptr \<and> take (length f) ptr = f \<and> snd c < length ev"
proof -
  from ev_at_cases [OF assms(1)] obtain before xs ys after
    where *: "ev = before @ (xs @ f @ ys) # after" "c = (length xs, length before)"
      "ev_at ev (if ys = [] then (0, length before + 1) else (length xs + length f, length before)) fs" by blast
  have "length xs + length f \<le> 2147483647" using assms(2) *(1) by auto
  from ev_forward_at [OF *(1) this, of w] *(2,3)
  have "\<exists>r c'. edtk_ev_forward_N ev (int (length f)) c w = Inr (r, c') \<and> 0 \<le> r \<and> ev_at ev c' fs"
    by (cases "ys = []") auto
  moreover have "EV_GETPOS ev c = Some (f @ ys)" "snd c < length ev"
    using *(1,2) by (simp_all add: EV_GETPOS_def nth_append)
  ultimately show ?thesis by auto
qed

text \<open>An empty binary at the end of a command is an error: there is no piece for it.\<close>

lemma empty_at_end: "edtk_ev_forward_N ev 0 (0, length ev) w = Inr (-1, (0, length ev))"
  by (simp add: checked_def)

text \<open>A number with its top bit set is read as one of 64 bits with all upper bits set.\<close>

lemma uint32_extended:
  "EV_GET_UINT32 [[], [128, 0, 0, 0]] (0, 1) = Inr (Some (0xFFFFFFFF80000000, (0, 2)))"
  by code_simp

section \<open>Terms\<close>

text \<open>The items of a term, written with the macros \<^verbatim>\<open>LOAD_PORT\<close>, \<^verbatim>\<open>LOAD_ATOM\<close> and so on, and their words.\<close>

datatype tk_item =
    LOAD_PORT | LOAD_ATOM string | LOAD_INT int | LOAD_BINARY "byte list" | LOAD_NIL | LOAD_LIST nat | LOAD_TUPLE nat

fun tk_words :: "tk_item \<Rightarrow> nat" where
  "tk_words (LOAD_BINARY _) = 4"
| "tk_words LOAD_NIL = 1"
| "tk_words _ = 2"

definition tk_size :: "tk_item list \<Rightarrow> nat" where
  "tk_size items = sum_list (map tk_words items)"

text \<open>
  \<^verbatim>\<open>driver_output_term\<close> runs the items as a program for a stack.  A list takes as many terms as it says, the
  last of them the tail.
\<close>

datatype tk_term =
    TkPort | TkAtom string | TkInt int | TkBinary "byte list" | TkList "tk_term list" | TkTuple "tk_term list"

fun tk_push :: "tk_item \<Rightarrow> tk_term list \<Rightarrow> tk_term list option" where
  "tk_push LOAD_PORT st = Some (TkPort # st)"
| "tk_push (LOAD_ATOM a) st = Some (TkAtom a # st)"
| "tk_push (LOAD_INT i) st = Some (TkInt i # st)"
| "tk_push (LOAD_BINARY b) st = Some (TkBinary b # st)"
| "tk_push LOAD_NIL st = Some (TkList [] # st)"
| "tk_push (LOAD_LIST n) st =
     (case st of
        TkList ts # st' \<Rightarrow>
          if n = 0 \<or> length st' < n - 1 then None
          else Some (TkList (rev (take (n - 1) st') @ ts) # drop (n - 1) st')
      | _ \<Rightarrow> None)"
| "tk_push (LOAD_TUPLE n) st =
     (if length st < n then None else Some (TkTuple (rev (take n st)) # drop n st))"

fun tk_eval :: "tk_item list \<Rightarrow> tk_term list \<Rightarrow> tk_term list option" where
  "tk_eval [] st = Some st"
| "tk_eval (i # is) st = (case tk_push i st of None \<Rightarrow> None | Some st \<Rightarrow> tk_eval is st)"

definition tk_denotes :: "tk_item list \<Rightarrow> tk_term \<Rightarrow> bool" where
  "tk_denotes items t \<longleftrightarrow> tk_eval items [] = Some [t]"

lemma tk_eval_append:
  "tk_eval (is @ js) st = (case tk_eval is st of None \<Rightarrow> None | Some st \<Rightarrow> tk_eval js st)"
  by (induction "is" arbitrary: st) (simp_all split: option.split)

lemma tk_eval_binaries: "tk_eval (map LOAD_BINARY bs) st = Some (rev (map TkBinary bs) @ st)"
  by (induction bs arbitrary: st) simp_all

lemma tk_size_simps [simp]:
  "tk_size [] = 0" "tk_size (i # is) = tk_words i + tk_size is" "tk_size (is @ js) = tk_size is + tk_size js"
  by (simp_all add: tk_size_def)

lemma tk_size_binaries [simp]: "tk_size (map LOAD_BINARY bs) = 4 * length bs"
  by (induction bs) simp_all

end
