(* ===== verification/Spread.thy ===== *)
theory Spread
  imports Edtk
begin

text \<open>
  The driver for the Spread toolkit: its descriptor, the library, the messages to Erlang, and the functions
  of \<^verbatim>\<open>spread_drv/c_src/my-spread.c\<close>, which send what arrives to Erlang and send a message to a list of
  groups.  The library is the parameter \<open>spread\<close>; its calls and those of the emulator go into one log,
  newest first.
\<close>

section \<open>Calls, library and descriptor\<close>

record sp_message =
  sm_service :: int
  sm_sender :: "byte list"
  sm_groups :: "byte list list"
  sm_type :: int
  sm_endian :: int
  sm_mess :: "byte list"

text \<open>
  What \<^verbatim>\<open>SP_receive\<close> gives: a message, or an error with what it has put into \<^verbatim>\<open>num_groups\<close> and
  \<^verbatim>\<open>endian_mismatch\<close>.
\<close>

datatype sp_received = SpGot sp_message | SpError int int int

text \<open>The other functions of the library, with their arguments; a message is its length and where it is.\<close>

datatype sp_request =
    SP_connect "byte list" "byte list option" int int
  | SP_disconnect int
  | SP_join int "byte list"
  | SP_leave int "byte list"
  | SP_multicast int int "byte list" int int "byte list"
  | SP_multigroup_multicast int int "byte list list" int int "byte list"
  | SP_get_gid_offset_memb_mess
  | SP_get_num_vs_offset_memb_mess
  | SP_get_vs_set_offset_memb_mess

datatype sp_call =
    SpRead int
  | SpSelect int bool
  | SpPoll int
  | SpReceive int int int
  | SpRequest sp_request
  | SpAlloc int
  | SpFree
  | SpCFree
  | SpAllocBinary int
  | SpRefBinary
  | SpFreeBinary
  | SpAsync
  | SpOutput "tk_item list"

type_synonym sp_log = "sp_call list"

text \<open>\<open>sp_opened\<close> is what a connect writes to the mailbox and the name of the private group.\<close>

record 'l spread =
  sp_poll :: "int \<Rightarrow> 'l \<Rightarrow> int"
  sp_receive :: "int \<Rightarrow> int \<Rightarrow> int \<Rightarrow> 'l \<Rightarrow> sp_received \<times> 'l"
  sp_request :: "sp_request \<Rightarrow> 'l \<Rightarrow> int \<times> 'l"
  sp_opened :: "'l \<Rightarrow> int \<times> byte list"
  sp_alive :: "sp_log \<Rightarrow> bool"                     \<comment> \<open>the test \<^verbatim>\<open>read\<close> of no bytes returns 0\<close>
  sp_alloc :: "sp_log \<Rightarrow> bool"
  sp_GROUPS_TOO_SHORT :: int
  sp_BUFFER_TOO_SHORT :: int
  sp_ACCEPT_SESSION :: int
  sp_ILLEGAL_SESSION :: int
  sp_EINVAL :: int
  sp_ENOMEM :: int
  sp_pipe :: bool                                  \<comment> \<open>\<^verbatim>\<open>pipe_driver_p\<close>\<close>
  sp_unset :: int                                  \<comment> \<open>what a variable holds that is not yet assigned\<close>
  sp_callsize :: int                               \<comment> \<open>\<^verbatim>\<open>sizeof(callstate_t)\<close>\<close>

record 'l sp_desc =
  sp_log :: sp_log
  sp_lib :: 'l
  sp_mbox_init :: bool
  sp_mbox :: int
  sp_private_group :: "byte list"
  sp_sender :: "byte list"
  sp_active :: bool

abbreviation MAX_MULTIGROUPS :: nat where "MAX_MULTIGROUPS \<equiv> 64"
abbreviation MAX_GROUP_NAME :: nat where "MAX_GROUP_NAME \<equiv> 32"
abbreviation MAX_RETURN_TERMS :: nat where "MAX_RETURN_TERMS \<equiv> 64"

definition sp_do :: "sp_call \<Rightarrow> ('l, 'x) sp_desc_scheme \<Rightarrow> ('l, 'x) sp_desc_scheme" where
  "sp_do c s = s\<lparr>sp_log := c # sp_log s\<rparr>"

text \<open>An allocation that has just been asked for.\<close>

definition sp_got :: "'l spread \<Rightarrow> ('l, 'x) sp_desc_scheme \<Rightarrow> bool" where
  "sp_got lib s = sp_alloc lib (sp_log s)"

section \<open>The message to Erlang\<close>

text \<open>A binary is allocated for each group; when one cannot be, the items end there and count as none.\<close>

fun sp_group_items ::
  "'l spread \<Rightarrow> byte list list \<Rightarrow> ('l, 'x) sp_desc_scheme \<Rightarrow> bool \<times> tk_item list \<times> ('l, 'x) sp_desc_scheme" where
  "sp_group_items lib [] s = (True, [], s)"
| "sp_group_items lib (g # gs) s =
     (let s = sp_do (SpAllocBinary (int (length g))) s in
      if \<not> sp_got lib s then (False, [], s)
      else case sp_group_items lib gs s of (ok, items, s) \<Rightarrow> (ok, LOAD_BINARY g # items, s))"

definition make_xret_group_list ::
  "'l spread \<Rightarrow> byte list list \<Rightarrow> ('l, 'x) sp_desc_scheme \<Rightarrow> tk_item list \<times> nat \<times> ('l, 'x) sp_desc_scheme" where
  "make_xret_group_list lib gs s =
     (case sp_group_items lib gs s of (ok, items, s) \<Rightarrow>
        if ok then (items @ [LOAD_NIL], length gs + 1, s) else (items, 0, s))"

text \<open>The binaries of a message are in \<^verbatim>\<open>tofree\<close>.\<close>

definition sp_tofree :: "tk_item list \<Rightarrow> nat" where
  "sp_tofree items = length (filter (\<lambda>i. case i of LOAD_BINARY _ \<Rightarrow> True | _ \<Rightarrow> False) items)"

definition sp_free_binaries :: "nat \<Rightarrow> ('l, 'x) sp_desc_scheme \<Rightarrow> ('l, 'x) sp_desc_scheme" where
  "sp_free_binaries n s = s\<lparr>sp_log := replicate n SpFreeBinary @ sp_log s\<rparr>"

text \<open>\<^verbatim>\<open>msg\<close> has 64 words.\<close>

definition sp_send ::
  "tk_item list \<Rightarrow> ('l, 'x) sp_desc_scheme \<Rightarrow> (unit, ('l, 'x) sp_desc_scheme) outcome" where
  "sp_send items s =
     (if MAX_RETURN_TERMS < tk_size items then Inl OutOfBounds
      else Inr ((), sp_free_binaries (sp_tofree items) (sp_do (SpOutput items) s)))"

text \<open>
  A message received, with \<^verbatim>\<open>active\<close> or \<^verbatim>\<open>ok\<close> in front.  The name of the sender is in the descriptor.  \<open>fail\<close> is
  what happens when there is no memory for it.
\<close>

definition sp_reply_message ::
  "'l spread \<Rightarrow> string \<Rightarrow> sp_message \<Rightarrow>
   (('l, 'x) sp_desc_scheme \<Rightarrow> (unit, ('l, 'x) sp_desc_scheme) outcome) \<Rightarrow>
   ('l, 'x) sp_desc_scheme \<Rightarrow> (unit, ('l, 'x) sp_desc_scheme) outcome" where
  "sp_reply_message lib tag m fail s =
     (let s = sp_do (SpAllocBinary (int (length (sp_sender s)))) s in
      if \<not> sp_got lib s then fail s
      else case make_xret_group_list lib (sm_groups m) s of (gitems, members, s) \<Rightarrow>
        sp_send ([LOAD_PORT, LOAD_ATOM tag, LOAD_INT (sm_service m), LOAD_BINARY (sp_sender s)] @ gitems @
          [LOAD_LIST members, LOAD_INT (sm_type m), LOAD_INT (sm_endian m), LOAD_BINARY (sm_mess m),
           LOAD_TUPLE 6, LOAD_TUPLE 3]) s)"

definition my_reply_xtra_xret_receive ::
  "'l spread \<Rightarrow> sp_message \<Rightarrow> ('l, 'x) sp_desc_scheme \<Rightarrow> (unit, ('l, 'x) sp_desc_scheme) outcome" where
  "my_reply_xtra_xret_receive lib m s = sp_reply_message lib ''active'' m (\<lambda>s. Inr ((), s)) s"

section \<open>Receiving\<close>

text \<open>\<^verbatim>\<open>SP_receive\<close> writes the name of the sender to the descriptor, whoever calls it.\<close>

definition sp_do_receive ::
  "'l spread \<Rightarrow> int \<Rightarrow> int \<Rightarrow> int \<Rightarrow> ('l, 'x) sp_desc_scheme \<Rightarrow> sp_received \<times> ('l, 'x) sp_desc_scheme" where
  "sp_do_receive lib mbox max_groups max_len s =
     (case sp_receive lib mbox max_groups max_len (sp_lib s) of (r, l) \<Rightarrow>
        let s = (sp_do (SpReceive mbox max_groups max_len) s)\<lparr>sp_lib := l\<rparr> in
        (r, case r of SpGot m \<Rightarrow> s\<lparr>sp_sender := sm_sender m\<rparr> | _ \<Rightarrow> s))"

text \<open>
  From the label \<^verbatim>\<open>retry\<close> on: \<open>have_groups\<close> and \<open>have_mess\<close> say whether \<^verbatim>\<open>groups\<close> and \<^verbatim>\<open>mess\<close> point to memory.
  The result says whether the loop goes on.
\<close>

fun sp_retry ::
  "nat \<Rightarrow> 'l spread \<Rightarrow> bool \<Rightarrow> bool \<Rightarrow> int \<Rightarrow> int \<Rightarrow> ('l, 'x) sp_desc_scheme \<Rightarrow>
   (bool, ('l, 'x) sp_desc_scheme) outcome" where
  "sp_retry 0 lib have_groups have_mess num_groups mess_len s = Inl Diverges"
| "sp_retry (Suc fuel) lib have_groups have_mess num_groups mess_len s =
     checked (num_groups * int MAX_GROUP_NAME) (\<lambda>size.
       let s = (if have_groups then s else sp_do (SpAlloc size) s) in
       if \<not> have_groups \<and> \<not> sp_got lib s then Inr (False, s)
       else
         let s = (if have_mess then s else sp_do (SpAllocBinary mess_len) s) in
         if \<not> have_mess \<and> \<not> sp_got lib s then Inr (False, sp_do SpCFree s)
         else
           case sp_do_receive lib (sp_mbox s) num_groups mess_len s of (r, s) \<Rightarrow>
             case r of
               SpGot m \<Rightarrow> andthen (my_reply_xtra_xret_receive lib m s) (\<lambda>_ s. Inr (True, sp_do SpFree s))
             | SpError ret groups endian \<Rightarrow>
                 if ret = sp_GROUPS_TOO_SHORT lib then
                   sp_retry fuel lib False True (- groups) mess_len (sp_do SpFree s)
                 else if ret = sp_BUFFER_TOO_SHORT lib then
                   sp_retry fuel lib True False num_groups (- endian) (sp_do SpFreeBinary s)
                 else Inr (False, sp_do SpFreeBinary (sp_do SpFree s)))"

fun sp_drain :: "nat \<Rightarrow> 'l spread \<Rightarrow> ('l, 'x) sp_desc_scheme \<Rightarrow> (unit, ('l, 'x) sp_desc_scheme) outcome" where
  "sp_drain 0 lib s = Inl Diverges"
| "sp_drain (Suc fuel) lib s =
     (let ret = sp_poll lib (sp_mbox s) (sp_lib s); s = sp_do (SpPoll (sp_mbox s)) s in
      if ret > 0 then
        andthen (sp_retry (Suc fuel) lib False False (int MAX_MULTIGROUPS) ret s)
          (\<lambda>more s. if more then sp_drain fuel lib s else Inr ((), s))
      else Inr ((), s))"

definition my_ready_input ::
  "nat \<Rightarrow> 'l spread \<Rightarrow> ('l, 'x) sp_desc_scheme \<Rightarrow> (unit, ('l, 'x) sp_desc_scheme) outcome" where
  "my_ready_input fuel lib s =
     (let s = sp_do (SpRead (sp_mbox s)) s;
          s = (if sp_alive lib (sp_log s) then s
               else
                 let s = (sp_do (SpSelect (sp_mbox s) False) s)\<lparr>sp_active := False\<rparr>;
                     s = sp_do (SpRequest (SP_disconnect (sp_mbox s))) s
                 in s\<lparr>sp_lib := snd (sp_request lib (SP_disconnect (sp_mbox s)) (sp_lib s)), sp_mbox_init := False\<rparr>)
      in sp_drain fuel lib s)"

definition my_set_active :: "int \<Rightarrow> ('l, 'x) sp_desc_scheme \<Rightarrow> int \<times> ('l, 'x) sp_desc_scheme" where
  "my_set_active value s =
     (let v = (value \<noteq> 0) in
      (if v then 1 else 0, if v = sp_active s then s else (sp_do (SpSelect (sp_mbox s) v) s)\<lparr>sp_active := v\<rparr>))"

section \<open>Sending to a list of groups\<close>

text \<open>
  The names are C strings one behind the other, up to an empty one; each is copied to a row of 32 bytes of
  an array of 64 rows, before the number of rows is looked at.
\<close>

function sp_group_names :: "nat \<Rightarrow> byte list \<Rightarrow> fault + byte list list" where
  "sp_group_names i groups =
     (case groups of
        [] \<Rightarrow> Inl OutOfBounds
      | b # _ \<Rightarrow>
          if b = 0 then Inr []
          else if 0 \<notin> set groups then Inl OutOfBounds
          else let name = c_string groups in
            if MAX_MULTIGROUPS \<le> i \<or> MAX_GROUP_NAME \<le> length name then Inl OutOfBounds
            else case sp_group_names (i + 1) (drop (length name + 1) groups) of
                Inl e \<Rightarrow> Inl e
              | Inr names \<Rightarrow> Inr (name # names))"
  by pat_completeness auto

termination sp_group_names
  by (relation "measure (\<lambda>(i, groups). length groups)") auto

end
