(* ===== verification/Spread_Receive.thy ===== *)
theory Spread_Receive
  imports Spread
begin

text \<open>
  What the Spread driver sends to Erlang: the term of a message, every message of a library that keeps a
  queue, and the memory it takes; and that the names of a group list are read back.
\<close>

section \<open>The term of a message\<close>

definition sp_message_term :: "string \<Rightarrow> sp_message \<Rightarrow> tk_term" where
  "sp_message_term tag m = TkTuple [TkPort, TkAtom tag, TkTuple
     [TkInt (sm_service m), TkBinary (sm_sender m), TkList (map TkBinary (sm_groups m)),
      TkInt (sm_type m), TkInt (sm_endian m), TkBinary (sm_mess m)]]"

definition sp_message_items :: "string \<Rightarrow> sp_message \<Rightarrow> tk_item list" where
  "sp_message_items tag m =
     [LOAD_PORT, LOAD_ATOM tag, LOAD_INT (sm_service m), LOAD_BINARY (sm_sender m)] @
     map LOAD_BINARY (sm_groups m) @
     [LOAD_NIL, LOAD_LIST (length (sm_groups m) + 1), LOAD_INT (sm_type m), LOAD_INT (sm_endian m),
      LOAD_BINARY (sm_mess m), LOAD_TUPLE 6, LOAD_TUPLE 3]"

lemma sp_message_denotes: "tk_denotes (sp_message_items tag m) (sp_message_term tag m)"
  by (simp add: tk_denotes_def sp_message_items_def sp_message_term_def tk_eval_append tk_eval_binaries)

lemma sp_message_size: "tk_size (sp_message_items tag m) = 25 + 4 * length (sm_groups m)"
  by (simp add: sp_message_items_def)

lemma sp_tofree_simps [simp]:
  "sp_tofree [] = 0" "sp_tofree (i # is) = (case i of LOAD_BINARY _ \<Rightarrow> Suc (sp_tofree is) | _ \<Rightarrow> sp_tofree is)"
  "sp_tofree (is @ js) = sp_tofree is + sp_tofree js" "sp_tofree (map LOAD_BINARY bs) = length bs"
  by (auto simp: sp_tofree_def filter_map comp_def split: tk_item.split)

section \<open>The log\<close>

fun sp_outputs :: "sp_log \<Rightarrow> tk_item list list" where
  "sp_outputs [] = []"
| "sp_outputs (SpOutput items # h) = sp_outputs h @ [items]"
| "sp_outputs (_ # h) = sp_outputs h"

text \<open>Blocks and references to binaries obtained and not given back, when every allocation succeeds.\<close>

fun sp_blocks :: "sp_log \<Rightarrow> int" where
  "sp_blocks [] = 0"
| "sp_blocks (SpAlloc _ # h) = sp_blocks h + 1"
| "sp_blocks (SpFree # h) = sp_blocks h - 1"
| "sp_blocks (SpCFree # h) = sp_blocks h - 1"
| "sp_blocks (_ # h) = sp_blocks h"

fun sp_binaries :: "sp_log \<Rightarrow> int" where
  "sp_binaries [] = 0"
| "sp_binaries (SpAllocBinary _ # h) = sp_binaries h + 1"
| "sp_binaries (SpRefBinary # h) = sp_binaries h + 1"
| "sp_binaries (SpFreeBinary # h) = sp_binaries h - 1"
| "sp_binaries (_ # h) = sp_binaries h"

lemma sp_do_simps [simp]:
  "sp_log (sp_do c s) = c # sp_log s" "sp_lib (sp_do c s) = sp_lib s" "sp_mbox (sp_do c s) = sp_mbox s"
  "sp_sender (sp_do c s) = sp_sender s" "sp_active (sp_do c s) = sp_active s"
  "sp_mbox_init (sp_do c s) = sp_mbox_init s"
  "sp_private_group (sp_do c s) = sp_private_group s" "sp_desc.more (sp_do c s) = sp_desc.more s"
  by (simp_all add: sp_do_def)

lemma sp_free_binaries_simps [simp]:
  "sp_log (sp_free_binaries n s) = replicate n SpFreeBinary @ sp_log s"
  "sp_lib (sp_free_binaries n s) = sp_lib s" "sp_mbox (sp_free_binaries n s) = sp_mbox s"
  "sp_sender (sp_free_binaries n s) = sp_sender s" "sp_active (sp_free_binaries n s) = sp_active s"
  "sp_mbox_init (sp_free_binaries n s) = sp_mbox_init s"
  "sp_private_group (sp_free_binaries n s) = sp_private_group s"
  "sp_desc.more (sp_free_binaries n s) = sp_desc.more s"
  by (simp_all add: sp_free_binaries_def)

lemma sp_freed [simp]:
  "sp_outputs (replicate n SpFreeBinary @ h) = sp_outputs h"
  "sp_blocks (replicate n SpFreeBinary @ h) = sp_blocks h"
  "sp_binaries (replicate n SpFreeBinary @ h) = sp_binaries h - int n"
  by (induction n) simp_all

definition sp_allocs :: "'l spread \<Rightarrow> bool" where
  "sp_allocs lib \<longleftrightarrow> (\<forall>h. sp_alloc lib h)"

lemma sp_gotten: "sp_allocs lib \<Longrightarrow> sp_got lib s"
  by (simp add: sp_allocs_def sp_got_def)

text \<open>\<open>t\<close> differs from \<open>s\<close> in the log only, and there by binaries allocated.\<close>

definition sp_more_binaries :: "nat \<Rightarrow> ('l, 'x) sp_desc_scheme \<Rightarrow> ('l, 'x) sp_desc_scheme \<Rightarrow> bool" where
  "sp_more_binaries n s t \<longleftrightarrow> t = s\<lparr>sp_log := sp_log t\<rparr> \<and> sp_outputs (sp_log t) = sp_outputs (sp_log s) \<and>
     sp_blocks (sp_log t) = sp_blocks (sp_log s) \<and> sp_binaries (sp_log t) = sp_binaries (sp_log s) + int n"

lemma sp_group_items_ok:
  assumes "sp_allocs lib"
  shows "\<exists>t. sp_group_items lib gs s = (True, map LOAD_BINARY gs, t) \<and> sp_more_binaries (length gs) s t"
proof (induction gs arbitrary: s)
  case Nil
  then show ?case by (simp add: sp_more_binaries_def)
next
  case (Cons g gs)
  from Cons.IH [of "sp_do (SpAllocBinary (int (length g))) s"]
  obtain t where t: "sp_group_items lib gs (sp_do (SpAllocBinary (int (length g))) s) = (True, map LOAD_BINARY gs, t)"
    "sp_more_binaries (length gs) (sp_do (SpAllocBinary (int (length g))) s) t" by blast
  then have "sp_more_binaries (length (g # gs)) s t"
    by (simp add: sp_more_binaries_def) (simp add: sp_do_def)
  then show ?case using t(1) by (simp add: sp_gotten [OF assms])
qed

text \<open>The message goes out with the sender of the descriptor, and only the message's own memory is freed.\<close>

lemma sp_reply_message_ok:
  assumes "sp_allocs lib" "length (sm_groups m) \<le> 9"
  shows "\<exists>t. sp_reply_message lib tag m fail s = Inr ((), t) \<and> t = s\<lparr>sp_log := sp_log t\<rparr> \<and>
    sp_outputs (sp_log t) = sp_outputs (sp_log s) @ [sp_message_items tag (m\<lparr>sm_sender := sp_sender s\<rparr>)] \<and>
    sp_blocks (sp_log t) = sp_blocks (sp_log s) \<and> sp_binaries (sp_log t) = sp_binaries (sp_log s) - 1"
proof -
  let ?s = "sp_do (SpAllocBinary (int (length (sp_sender s)))) s"
  let ?items = "sp_message_items tag (m\<lparr>sm_sender := sp_sender s\<rparr>)"
  obtain t where t: "sp_group_items lib (sm_groups m) ?s = (True, map LOAD_BINARY (sm_groups m), t)"
    "sp_more_binaries (length (sm_groups m)) ?s t" using sp_group_items_ok [OF assms(1)] by blast
  have upd: "t = ?s\<lparr>sp_log := sp_log t\<rparr>" using t(2) by (simp only: sp_more_binaries_def)
  have sender: "sp_sender t = sp_sender s" by (subst upd) simp
  have "sp_reply_message lib tag m fail s = sp_send ?items t"
    using t(1) sender
    by (simp add: sp_reply_message_def Let_def sp_gotten [OF assms(1)] make_xret_group_list_def sp_message_items_def)
  moreover have "tk_size ?items \<le> 64" using assms(2) by (simp add: sp_message_size)
  ultimately have "sp_reply_message lib tag m fail s =
      Inr ((), sp_free_binaries (length (sm_groups m) + 2) (sp_do (SpOutput ?items) t))"
    by (simp add: sp_send_def) (simp add: sp_message_items_def)
  moreover have "t = s\<lparr>sp_log := sp_log t\<rparr>" using upd by (simp add: sp_do_def)
  then have "sp_free_binaries n (sp_do c t) = s\<lparr>sp_log := replicate n SpFreeBinary @ c # sp_log t\<rparr>" for n c
    by (metis sp_do_def sp_free_binaries_def sp_do_simps(1) sp_desc.surjective sp_desc.update_convs(1))
  ultimately show ?thesis using t(2) by (simp add: sp_more_binaries_def)
qed

text \<open>More than nine groups do not fit into the message.\<close>

lemma sp_reply_message_overflow:
  assumes "sp_allocs lib" "9 < length (sm_groups m)"
  shows "sp_reply_message lib tag m fail s = Inl OutOfBounds"
proof -
  obtain t where t: "sp_group_items lib (sm_groups m) (sp_do (SpAllocBinary (int (length (sp_sender s)))) s) =
      (True, map LOAD_BINARY (sm_groups m), t)" using sp_group_items_ok [OF assms(1)] by blast
  show ?thesis using assms(2)
    by (simp add: sp_reply_message_def Let_def sp_gotten [OF assms(1)] make_xret_group_list_def t sp_send_def)
qed

section \<open>A library with a queue\<close>

text \<open>
  As the manual of the library describes it: \<^verbatim>\<open>SP_poll\<close> tells whether there is a message, \<^verbatim>\<open>SP_receive\<close> gives
  the first if there is room for it, and otherwise the room it needs, as a negative number.
\<close>

definition sp_gives ::
  "'l spread \<Rightarrow> ('l \<Rightarrow> sp_message list) \<Rightarrow> sp_message \<Rightarrow> sp_message list \<Rightarrow> int \<Rightarrow> int \<Rightarrow> sp_received \<Rightarrow> 'l \<Rightarrow> bool" where
  "sp_gives lib pending m ms g n r l \<longleftrightarrow>
     (if g < int (length (sm_groups m)) then
        (\<exists>e. r = SpError (sp_GROUPS_TOO_SHORT lib) (- int (length (sm_groups m))) e) \<and> pending l = m # ms
      else if n < int (length (sm_mess m)) then
        (\<exists>k. r = SpError (sp_BUFFER_TOO_SHORT lib) k (- int (length (sm_mess m)))) \<and> pending l = m # ms
      else r = SpGot m \<and> pending l = ms)"

definition sp_serves :: "'l spread \<Rightarrow> int \<Rightarrow> ('l \<Rightarrow> sp_message list) \<Rightarrow> bool" where
  "sp_serves lib mbox pending \<longleftrightarrow> sp_GROUPS_TOO_SHORT lib \<noteq> sp_BUFFER_TOO_SHORT lib \<and>
     (\<forall>l. if pending l = [] then sp_poll lib mbox l = 0 else 0 < sp_poll lib mbox l) \<and>
     (\<forall>l m ms g n. pending l = m # ms \<longrightarrow>
        (case sp_receive lib mbox g n l of (r, l') \<Rightarrow> sp_gives lib pending m ms g n r l'))"

lemma sp_servesD:
  assumes "sp_serves lib mbox pending"
  shows "pending l = [] \<Longrightarrow> sp_poll lib mbox l = 0" "pending l = m # ms \<Longrightarrow> 0 < sp_poll lib mbox l"
    and "sp_GROUPS_TOO_SHORT lib \<noteq> sp_BUFFER_TOO_SHORT lib"
  using assms unfolding sp_serves_def by (metis list.distinct(1))+

text \<open>One call: what it returns, what is left, and what becomes of the descriptor.\<close>

lemma sp_served:
  assumes "sp_serves lib (sp_mbox s) pending" "pending (sp_lib s) = m # ms"
    and "sp_do_receive lib (sp_mbox s) g n s = (r, t)"
  shows "sp_gives lib pending m ms g n r (sp_lib t)"
    and "t = s\<lparr>sp_log := SpReceive (sp_mbox s) g n # sp_log s, sp_lib := sp_lib t,
      sp_sender := (case r of SpGot m \<Rightarrow> sm_sender m | _ \<Rightarrow> sp_sender s)\<rparr>"
proof -
  obtain r' l where l: "sp_receive lib (sp_mbox s) g n (sp_lib s) = (r', l)"
    by (cases "sp_receive lib (sp_mbox s) g n (sp_lib s)")
  then have t: "r = r'" "t = (case r of SpGot m \<Rightarrow> ((sp_do (SpReceive (sp_mbox s) g n) s)\<lparr>sp_lib := l\<rparr>)\<lparr>sp_sender := sm_sender m\<rparr>
      | _ \<Rightarrow> (sp_do (SpReceive (sp_mbox s) g n) s)\<lparr>sp_lib := l\<rparr>)"
    using assms(3) by (auto simp: sp_do_receive_def Let_def)
  then have "sp_lib t = l" by (simp split: sp_received.split)
  moreover have "case sp_receive lib (sp_mbox s) g n (sp_lib s) of (r, l) \<Rightarrow> sp_gives lib pending m ms g n r l"
    using assms(1,2) by (simp add: sp_serves_def)
  ultimately show "sp_gives lib pending m ms g n r (sp_lib t)" using l t(1) by simp
  show "t = s\<lparr>sp_log := SpReceive (sp_mbox s) g n # sp_log s, sp_lib := sp_lib t,
      sp_sender := (case r of SpGot m \<Rightarrow> sm_sender m | _ \<Rightarrow> sp_sender s)\<rparr>"
    using t by (simp add: sp_do_def split: sp_received.split)
qed

section \<open>All messages are delivered\<close>

text \<open>What a round of the loop, or several, does to the descriptor.\<close>

definition sp_delivered :: "sp_message list \<Rightarrow> ('l, 'x) sp_desc_scheme \<Rightarrow> ('l, 'x) sp_desc_scheme \<Rightarrow> bool" where
  "sp_delivered ms s t \<longleftrightarrow>
     sp_outputs (sp_log t) = sp_outputs (sp_log s) @ map (sp_message_items ''active'') ms \<and>
     sp_blocks (sp_log t) = sp_blocks (sp_log s) \<and> sp_binaries (sp_log t) = sp_binaries (sp_log s) \<and>
     sp_mbox t = sp_mbox s \<and> sp_active t = sp_active s \<and> sp_mbox_init t = sp_mbox_init s"

text \<open>The memory \<^verbatim>\<open>retry\<close> asks for, and the call after it.\<close>

definition sp_prepared :: "bool \<Rightarrow> bool \<Rightarrow> int \<Rightarrow> ('l, 'x) sp_desc_scheme \<Rightarrow> ('l, 'x) sp_desc_scheme" where
  "sp_prepared hg hm n s =
     (let s = (if hg then s else sp_do (SpAlloc 2048) s) in if hm then s else sp_do (SpAllocBinary n) s)"

lemma sp_prepared_simps [simp]:
  "sp_mbox (sp_prepared hg hm n s) = sp_mbox s" "sp_lib (sp_prepared hg hm n s) = sp_lib s"
  "sp_active (sp_prepared hg hm n s) = sp_active s" "sp_mbox_init (sp_prepared hg hm n s) = sp_mbox_init s"
  "sp_outputs (sp_log (sp_prepared hg hm n s)) = sp_outputs (sp_log s)"
  "sp_blocks (sp_log (sp_prepared hg hm n s)) = sp_blocks (sp_log s) + (if hg then 0 else 1)"
  "sp_binaries (sp_log (sp_prepared hg hm n s)) = sp_binaries (sp_log s) + (if hm then 0 else 1)"
  by (simp_all add: sp_prepared_def)

lemma sp_retry_step:
  assumes "sp_allocs lib" "sp_do_receive lib (sp_mbox s) 64 n (sp_prepared hg hm n s) = (r, u)"
  shows "sp_retry (Suc f) lib hg hm 64 n s =
    (case r of
       SpGot m \<Rightarrow> andthen (my_reply_xtra_xret_receive lib m u) (\<lambda>_ s. Inr (True, sp_do SpFree s))
     | SpError ret groups endian \<Rightarrow>
         if ret = sp_GROUPS_TOO_SHORT lib then sp_retry f lib False True (- groups) n (sp_do SpFree u)
         else if ret = sp_BUFFER_TOO_SHORT lib then sp_retry f lib True False 64 (- endian) (sp_do SpFreeBinary u)
         else Inr (False, sp_do SpFreeBinary (sp_do SpFree u)))"
  using assms(2)
  by (cases hg; cases hm) (simp_all add: checked_def Let_def sp_prepared_def sp_gotten [OF assms(1)])

text \<open>The last call of \<^verbatim>\<open>SP_receive\<close> for a message, with memory for groups and message at hand.\<close>

lemma sp_retry_got:
  assumes "sp_serves lib (sp_mbox s) pending" "pending (sp_lib s) = m # ms" "sp_allocs lib"
    and "length (sm_groups m) \<le> 9" "int (length (sm_mess m)) \<le> n"
  shows "\<exists>t. sp_retry (Suc f) lib hg hm 64 n s = Inr (True, t) \<and> pending (sp_lib t) = ms \<and>
    sp_outputs (sp_log t) = sp_outputs (sp_log s) @ [sp_message_items ''active'' m] \<and>
    sp_blocks (sp_log t) = sp_blocks (sp_log s) - (if hg then 1 else 0) \<and>
    sp_binaries (sp_log t) = sp_binaries (sp_log s) - (if hm then 1 else 0) \<and>
    sp_mbox t = sp_mbox s \<and> sp_active t = sp_active s \<and> sp_mbox_init t = sp_mbox_init s"
proof -
  let ?s = "sp_prepared hg hm n s"
  obtain r u where u: "sp_do_receive lib (sp_mbox s) 64 n ?s = (r, u)" by (cases "sp_do_receive lib (sp_mbox s) 64 n ?s")
  have served: "sp_gives lib pending m ms 64 n r (sp_lib u)"
    "u = ?s\<lparr>sp_log := SpReceive (sp_mbox s) 64 n # sp_log ?s, sp_lib := sp_lib u,
       sp_sender := (case r of SpGot m \<Rightarrow> sm_sender m | _ \<Rightarrow> sp_sender ?s)\<rparr>"
    using sp_served [where s = ?s, OF _ _ u [folded sp_prepared_simps(1) [of hg hm n s]]] assms(1,2) by simp_all
  then have r: "r = SpGot m" "pending (sp_lib u) = ms" using assms(4,5) by (simp_all add: sp_gives_def)
  have u': "sp_sender u = sm_sender m" "sp_mbox u = sp_mbox s" "sp_active u = sp_active s"
    "sp_mbox_init u = sp_mbox_init s" "sp_log u = SpReceive (sp_mbox s) 64 n # sp_log ?s"
    by (subst served(2), simp add: r)+
  obtain t where t: "my_reply_xtra_xret_receive lib m u = Inr ((), t)" "t = u\<lparr>sp_log := sp_log t\<rparr>"
    "sp_outputs (sp_log t) = sp_outputs (sp_log u) @ [sp_message_items ''active'' (m\<lparr>sm_sender := sp_sender u\<rparr>)]"
    "sp_blocks (sp_log t) = sp_blocks (sp_log u)" "sp_binaries (sp_log t) = sp_binaries (sp_log u) - 1"
    using sp_reply_message_ok [OF assms(3,4), of "''active''" "\<lambda>s. Inr ((), s)" u]
    unfolding my_reply_xtra_xret_receive_def by blast
  have t': "sp_lib t = sp_lib u" "sp_mbox t = sp_mbox u" "sp_active t = sp_active u" "sp_mbox_init t = sp_mbox_init u"
    by (subst t(2), simp)+
  have "sp_retry (Suc f) lib hg hm 64 n s = Inr (True, sp_do SpFree t)"
    using sp_retry_step [OF assms(3) u] r t(1) by (simp del: sp_retry.simps)
  then show ?thesis using t(3-5) t' u' r(2) by (intro exI [of _ "sp_do SpFree t"]) simp
qed

text \<open>The first call may find the buffer too short; the second does not.\<close>

lemma sp_retry_ok:
  assumes "sp_serves lib (sp_mbox s) pending" "pending (sp_lib s) = m # ms" "sp_allocs lib"
    and "length (sm_groups m) \<le> 9"
  shows "\<exists>t. sp_retry (Suc (Suc f)) lib False False 64 n s = Inr (True, t) \<and> pending (sp_lib t) = ms \<and>
    sp_delivered [m] s t"
proof (cases "int (length (sm_mess m)) \<le> n")
  case True
  from sp_retry_got [OF assms this, of "Suc f" False False] show ?thesis
    by (auto simp: sp_delivered_def)
next
  case False
  let ?s = "sp_prepared False False n s"
  obtain r u where u: "sp_do_receive lib (sp_mbox s) 64 n ?s = (r, u)" by (cases "sp_do_receive lib (sp_mbox s) 64 n ?s")
  have served: "sp_gives lib pending m ms 64 n r (sp_lib u)"
    "u = ?s\<lparr>sp_log := SpReceive (sp_mbox s) 64 n # sp_log ?s, sp_lib := sp_lib u,
       sp_sender := (case r of SpGot m \<Rightarrow> sm_sender m | _ \<Rightarrow> sp_sender ?s)\<rparr>"
    using sp_served [where s = ?s, OF _ _ u [folded sp_prepared_simps(1) [of False False n s]]] assms(1,2) by simp_all
  then obtain k where r: "r = SpError (sp_BUFFER_TOO_SHORT lib) k (- int (length (sm_mess m)))"
    "pending (sp_lib u) = m # ms" using assms(4) False by (auto simp: sp_gives_def)
  have u': "sp_mbox u = sp_mbox s" "sp_active u = sp_active s" "sp_mbox_init u = sp_mbox_init s"
    "sp_log u = SpReceive (sp_mbox s) 64 n # sp_log ?s"
    by (subst served(2), simp add: r)+
  let ?u = "sp_do SpFreeBinary u"
  have "sp_retry (Suc (Suc f)) lib False False 64 n s = sp_retry (Suc f) lib True False 64 (int (length (sm_mess m))) ?u"
    using sp_retry_step [OF assms(3) u] r(1) sp_servesD(3) [OF assms(1)] by (simp del: sp_retry.simps)
  moreover have "sp_serves lib (sp_mbox ?u) pending" "pending (sp_lib ?u) = m # ms"
    using assms(1) u' r by simp_all
  note sp_retry_got [OF this assms(3,4) order_refl, of f True False]
  ultimately show ?thesis using u' by (auto simp: sp_delivered_def)
qed

lemma sp_delivered_trans: "sp_delivered ms s t \<Longrightarrow> sp_delivered ns t u \<Longrightarrow> sp_delivered (ms @ ns) s u"
  by (simp add: sp_delivered_def)

lemma sp_drain_ok:
  assumes "sp_serves lib (sp_mbox s) pending" "sp_allocs lib"
    and "pending (sp_lib s) = ms" "\<forall>m \<in> set ms. length (sm_groups m) \<le> 9" "length ms + 2 \<le> fuel"
  shows "\<exists>t. sp_drain fuel lib s = Inr ((), t) \<and> pending (sp_lib t) = [] \<and> sp_delivered ms s t"
  using assms(1,3-)
proof (induction ms arbitrary: s fuel)
  case Nil
  then obtain f where f: "fuel = Suc f" by (cases fuel) auto
  have "sp_poll lib (sp_mbox s) (sp_lib s) = 0" using sp_servesD(1) [OF Nil.prems(1,2)] .
  then show ?case using Nil.prems(2) by (simp add: f Let_def sp_delivered_def)
next
  case (Cons m ms)
  then obtain f where f: "fuel = Suc (Suc f)" by (cases fuel; cases "fuel - 1") auto
  let ?n = "sp_poll lib (sp_mbox s) (sp_lib s)" and ?s = "sp_do (SpPoll (sp_mbox s)) s"
  have n: "0 < ?n" using sp_servesD(2) [OF Cons.prems(1,2)] .
  have "sp_serves lib (sp_mbox ?s) pending" "pending (sp_lib ?s) = m # ms" "length (sm_groups m) \<le> 9"
    using Cons.prems by simp_all
  from sp_retry_ok [OF this(1,2) assms(2) this(3), of f ?n] obtain u where
    u: "sp_retry (Suc (Suc f)) lib False False 64 ?n ?s = Inr (True, u)" "pending (sp_lib u) = ms" "sp_delivered [m] ?s u"
    by blast
  have "sp_serves lib (sp_mbox u) pending" using u(3) Cons.prems(1) by (simp add: sp_delivered_def)
  moreover have "\<forall>m \<in> set ms. length (sm_groups m) \<le> 9" "length ms + 2 \<le> Suc f" using Cons.prems f by simp_all
  ultimately obtain t where t: "sp_drain (Suc f) lib u = Inr ((), t)" "pending (sp_lib t) = []" "sp_delivered ms u t"
    using Cons.IH [of u "Suc f"] u(2) by blast
  have "sp_delivered (m # ms) s t"
    using sp_delivered_trans [OF u(3) t(3)] by (simp add: sp_delivered_def)
  moreover have "sp_drain fuel lib s = Inr ((), t)"
    using u(1) t(1) n unfolding f sp_drain.simps(2) [of "Suc f"]
    by (simp add: Let_def andthen_def del: sp_retry.simps sp_drain.simps)
  ultimately show ?case using t(2) by blast
qed

section \<open>Group lists are read back\<close>

definition sp_group_list :: "byte list list \<Rightarrow> byte list" where
  "sp_group_list gs = concat (map (\<lambda>g. g @ [0]) gs) @ [0]"

definition sp_group_name :: "byte list \<Rightarrow> bool" where
  "sp_group_name g \<longleftrightarrow> g \<noteq> [] \<and> 0 \<notin> set g \<and> length g < MAX_GROUP_NAME"

lemma sp_group_name_step:
  assumes "sp_group_name g"
  shows "sp_group_names i (g @ 0 # r) =
    (if MAX_MULTIGROUPS \<le> i then Inl OutOfBounds
     else case sp_group_names (i + 1) r of Inl e \<Rightarrow> Inl e | Inr names \<Rightarrow> Inr (g # names))"
proof -
  obtain b bs where g: "g = b # bs" "b \<noteq> 0" using assms by (cases g) (auto simp: sp_group_name_def)
  have "c_string (g @ 0 # r) = g"
    using assms unfolding c_string_def sp_group_name_def by (subst takeWhile_append2) auto
  then show ?thesis using assms g(2) unfolding g(1)
    by (subst sp_group_names.simps) (simp add: sp_group_name_def del: sp_group_names.simps)
qed

lemma sp_group_names_back:
  assumes "\<forall>g \<in> set gs. sp_group_name g"
  shows "sp_group_names i (sp_group_list gs @ r) =
    (if i + length gs \<le> MAX_MULTIGROUPS \<or> gs = [] then Inr gs else Inl OutOfBounds)"
  using assms
proof (induction gs arbitrary: i)
  case Nil
  then show ?case by (simp add: sp_group_list_def)
next
  case (Cons g gs)
  have "sp_group_list (g # gs) @ r = g @ 0 # (sp_group_list gs @ r)" by (simp add: sp_group_list_def)
  moreover have "sp_group_names (i + 1) (sp_group_list gs @ r) =
      (if i + 1 + length gs \<le> MAX_MULTIGROUPS \<or> gs = [] then Inr gs else Inl OutOfBounds)"
    using Cons by simp
  ultimately show ?case using Cons.prems sp_group_name_step [of g i "sp_group_list gs @ r"]
    by (auto simp del: sp_group_names.simps)
qed

end
