(* ===== verification/Edtk_Command.thy ===== *)
theory Edtk_Command
  imports Edtk
begin

text \<open>
  The arguments of a command of a driver made with the Erlang driver toolkit, read off an I/O vector and
  checked against the value maps of the driver; and how the answers to the commands are counted.
\<close>

section \<open>Numbers\<close>

text \<open>
  The results of the macros are not looked at: a number that cannot be read is what the variable was.  The macro
  stores an \<^verbatim>\<open>unsigned long\<close> through a pointer to the variable, which is an int in most places; this is the model for
  a platform whose \<^verbatim>\<open>long\<close> has four bytes.  With eight bytes the store also overwrites the four bytes behind the
  variable, which is not modelled.
\<close>

definition tk_uint32 :: "iovec \<Rightarrow> int \<Rightarrow> cursor \<Rightarrow> (int \<Rightarrow> cursor \<Rightarrow> fault + 'a) \<Rightarrow> fault + 'a" where
  "tk_uint32 ev old c k =
     (case EV_GET_UINT32 ev c of
        Inl e \<Rightarrow> Inl e
      | Inr None \<Rightarrow> k old c
      | Inr (Some (v, c)) \<Rightarrow> k (sint (ucast v :: 32 word)) c)"

definition tk_uint16 :: "iovec \<Rightarrow> int \<Rightarrow> cursor \<Rightarrow> (int \<Rightarrow> cursor \<Rightarrow> fault + 'a) \<Rightarrow> fault + 'a" where
  "tk_uint16 ev old c k =
     (case EV_GET_UINT16 ev c of
        Inl e \<Rightarrow> Inl e
      | Inr None \<Rightarrow> k old c
      | Inr (Some (v, c)) \<Rightarrow> k (sint v) c)"

lemma narrow_word: "(ucast (word_of_int x :: 64 word) :: 32 word) = word_of_int x"
  by (rule bit_word_eqI) (simp add: bit_simps)

lemma tk_uint32_at:
  assumes "ev_at ev c (put_int32 i # fs)"
  shows "\<exists>c'. EV_GET_UINT32 ev c = Inr (Some (word_of_int (sint (cint i)), c')) \<and> ev_at ev c' fs"
proof -
  obtain c' where "ev_get (length (put_int32 i)) ev c = Inr (Some (put_int32 i, c'))" "ev_at ev c' fs"
    using ev_at_get [OF assms] by blast
  then show ?thesis using get_put_int32_word [of i "[]"]
    by (intro exI [of _ c']) (simp add: EV_GET_UINT32_def ev_value_def)
qed

lemma tk_uint32_read:
  assumes "EV_GET_UINT32 ev c = Inr (Some (word_of_int (sint (cint i)), c'))" "- (2 ^ 31) \<le> i" "i < 2 ^ 31"
  shows "tk_uint32 ev old c k = k i c'"
  using assms(1) by (simp add: tk_uint32_def narrow_word sint_cint [OF assms(2,3)])

lemma tk_uint16_at:
  assumes "ev_at ev c (put_int16 i # fs)"
  shows "\<exists>c'. EV_GET_UINT16 ev c = Inr (Some (word_of_int i, c')) \<and> ev_at ev c' fs"
proof -
  obtain c' where "ev_get (length (put_int16 i)) ev c = Inr (Some (put_int16 i, c'))" "ev_at ev c' fs"
    using ev_at_get [OF assms] by blast
  moreover have "(word_of_int (i mod 65536) :: 16 word) = word_of_int i"
    by (rule bit_word_eqI) (simp add: bit_simps flip: take_bit_eq_mod [of 16, simplified])
  ultimately show ?thesis using get_put_int16 [of i "[]"]
    by (intro exI [of _ c']) (simp add: EV_GET_UINT16_def ev_value_def)
qed

lemma tk_uint16_read:
  assumes "EV_GET_UINT16 ev c = Inr (Some (word_of_int i, c'))" "- (2 ^ 15) \<le> i" "i < 2 ^ 15"
  shows "tk_uint16 ev old c k = k i c'"
proof -
  have "sint (word_of_int i :: 16 word) = i" using assms(2,3)
    by (subst sint_sbintrunc') (auto intro!: signed_take_bit_int_eq_self)
  then show ?thesis using assms(1) by (simp add: tk_uint16_def)
qed

text \<open>No piece is so long that a position in it is not an int.\<close>

definition ev_small :: "iovec \<Rightarrow> bool" where
  "ev_small ev \<longleftrightarrow> (\<forall>piece \<in> set ev. length piece \<le> 2147483647)"

lemma ev_at_small:
  assumes "ev_at ev c (f # fs)" "ev_small ev"
  shows "length f \<le> 2147483647"
proof -
  from ev_at_cases [OF assms(1)] obtain before xs ys after where "ev = before @ (xs @ f @ ys) # after" by blast
  then show ?thesis using assms(2) by (auto simp: ev_small_def)
qed

definition int32_ok :: "int \<Rightarrow> bool" where
  "int32_ok i \<longleftrightarrow> - (2 ^ 31) \<le> i \<and> i < 2 ^ 31"

definition int16_ok :: "int \<Rightarrow> bool" where
  "int16_ok i \<longleftrightarrow> - (2 ^ 15) \<le> i \<and> i < 2 ^ 15"

definition tk_len :: "byte list \<Rightarrow> byte list" where
  "tk_len bs = put_int32 (int (length bs))"

text \<open>A string argument is the string and its end, with whatever follows in the piece.\<close>

lemma string_ptr:
  assumes "take (length (bs @ [0])) ptr = bs @ [0]" "0 \<notin> set bs"
  shows "c_string ptr = bs" "0 \<in> set ptr"
proof -
  have "ptr = (bs @ [0]) @ drop (length (bs @ [0])) ptr"
    using append_take_drop_id [of "length (bs @ [0])" ptr] unfolding assms(1) by simp
  then obtain r where r: "ptr = bs @ 0 # r" by auto
  show "c_string ptr = bs" "0 \<in> set ptr"
    using assms(2) unfolding r c_string_def by (subst takeWhile_append2, auto)
qed

section \<open>Argument lists\<close>

text \<open>
  Most commands read their arguments one after the other: a number, the length of some bytes and the bytes,
  or an index into a value map of the driver.  A value map is an array of pointers, an entry that is not in
  use is NULL.  Bytes are given by where they start, up to the end of their piece, with the length read
  for them; what is taken from a map, by the map, the index and the pointer.
\<close>

datatype tk_kind = KInt | KBytes | KMap nat

datatype tk_arg = AInt int | ABytes int "byte list" | APtr nat nat nat

definition tk_cons :: "tk_arg \<Rightarrow> fault + tk_arg list option \<Rightarrow> fault + tk_arg list option" where
  "tk_cons a m = (case m of Inl e \<Rightarrow> Inl e | Inr None \<Rightarrow> Inr None | Inr (Some as) \<Rightarrow> Inr (Some (a # as)))"

text \<open>
  \<open>u\<close> is what a variable holds that has not been set, \<open>bl\<close> and \<open>ix\<close> what \<^verbatim>\<open>binlen\<close> and \<^verbatim>\<open>index\<close> hold.  The index
  is not compared with the size of the map.  None is the jump to the label \<^verbatim>\<open>error\<close>.
\<close>

fun tk_args ::
  "int \<Rightarrow> nat option list list \<Rightarrow> iovec \<Rightarrow> int \<Rightarrow> int \<Rightarrow> tk_kind list \<Rightarrow> cursor \<Rightarrow> fault + tk_arg list option" where
  "tk_args u maps ev bl ix [] c = Inr (Some [])"
| "tk_args u maps ev bl ix (KInt # ks) c =
     tk_uint32 ev u c (\<lambda>v c. tk_cons (AInt v) (tk_args u maps ev bl ix ks c))"
| "tk_args u maps ev bl ix (KBytes # ks) c =
     tk_uint32 ev bl c (\<lambda>bl c.
       (case edtk_ev_forward_N ev bl c True of
          Inl e \<Rightarrow> Inl e
        | Inr (r, c') \<Rightarrow>
            if r < 0 then Inr None
            else (case EV_GETPOS ev c of
                None \<Rightarrow> Inl NullPtr
              | Some p \<Rightarrow> tk_cons (ABytes bl p) (tk_args u maps ev bl ix ks c'))))"
| "tk_args u maps ev bl ix (KMap m # ks) c =
     tk_uint32 ev ix c (\<lambda>ix c.
       if ix < 0 \<or> int (length (maps ! m)) \<le> ix then Inl OutOfBounds
       else (case maps ! m ! nat ix of
           None \<Rightarrow> Inr None
         | Some p \<Rightarrow> tk_cons (APtr m (nat ix) p) (tk_args u maps ev bl ix ks c)))"

text \<open>What a client asks for, the fields it writes, and what it means to the driver.\<close>

datatype tk_value = CInt int | CBytes "byte list" | CMap nat nat

fun tk_kind_of :: "tk_value \<Rightarrow> tk_kind" where
  "tk_kind_of (CInt _) = KInt"
| "tk_kind_of (CBytes _) = KBytes"
| "tk_kind_of (CMap m _) = KMap m"

fun tk_fields :: "tk_value \<Rightarrow> byte list list" where
  "tk_fields (CInt i) = [put_int32 i]"
| "tk_fields (CBytes bs) = [tk_len bs, bs]"
| "tk_fields (CMap _ i) = [put_int32 (int i)]"

fun tk_value_ok :: "nat option list list \<Rightarrow> tk_value \<Rightarrow> bool" where
  "tk_value_ok maps (CInt i) = int32_ok i"
| "tk_value_ok maps (CBytes bs) = True"
| "tk_value_ok maps (CMap m i) = (i < length (maps ! m) \<and> maps ! m ! i \<noteq> None \<and> int32_ok (int i))"

fun tk_means :: "nat option list list \<Rightarrow> tk_value \<Rightarrow> tk_arg \<Rightarrow> bool" where
  "tk_means maps (CInt i) a = (a = AInt i)"
| "tk_means maps (CBytes bs) a = (\<exists>p. a = ABytes (int (length bs)) p \<and> take (length bs) p = bs)"
| "tk_means maps (CMap m i) a = (\<exists>p. a = APtr m i p \<and> maps ! m ! i = Some p)"

lemma tk_args_back:
  assumes "ev_at ev c (concat (map tk_fields vs) @ fs)" "ev_small ev" "\<forall>v \<in> set vs. tk_value_ok maps v"
  shows "\<exists>as. tk_args u maps ev bl ix (map tk_kind_of vs) c = Inr (Some as) \<and> list_all2 (tk_means maps) vs as"
  using assms
proof (induction vs arbitrary: c bl ix)
  case Nil
  then show ?case by simp
next
  case (Cons v vs)
  show ?case
  proof (cases v)
    case (CInt i)
    from tk_uint32_at [of ev c i "concat (map tk_fields vs) @ fs"] Cons.prems(1) obtain c' where
      c': "EV_GET_UINT32 ev c = Inr (Some (word_of_int (sint (cint i)), c'))" "ev_at ev c' (concat (map tk_fields vs) @ fs)"
      by (auto simp: CInt)
    have i: "- (2 ^ 31) \<le> i" "i < 2 ^ 31" using Cons.prems(3) by (simp_all add: CInt int32_ok_def)
    from Cons.IH [OF c'(2) Cons.prems(2), of bl ix] Cons.prems(3) show ?thesis
      by (auto simp: CInt tk_uint32_read [OF c'(1) i] tk_cons_def)
  next
    case (CBytes bs)
    from tk_uint32_at [of ev c "int (length bs)" "bs # concat (map tk_fields vs) @ fs"] Cons.prems(1) obtain c1 where
      c1: "EV_GET_UINT32 ev c = Inr (Some (word_of_int (sint (cint (int (length bs)))), c1))"
        "ev_at ev c1 (bs # concat (map tk_fields vs) @ fs)"
      by (auto simp: CBytes tk_len_def)
    have n: "- (2 ^ 31) \<le> int (length bs)" "int (length bs) < 2 ^ 31"
      using ev_at_small [OF c1(2) Cons.prems(2)] by simp_all
    from ev_at_binary [OF c1(2), of True] Cons.prems(2) obtain r c' ptr where
      r: "edtk_ev_forward_N ev (int (length bs)) c1 True = Inr (r, c')" "0 \<le> r"
        "ev_at ev c' (concat (map tk_fields vs) @ fs)" "EV_GETPOS ev c1 = Some ptr" "take (length bs) ptr = bs"
      unfolding ev_small_def by blast
    from Cons.IH [OF r(3) Cons.prems(2), of "int (length bs)" ix] Cons.prems(3) show ?thesis
      using r by (auto simp: CBytes tk_uint32_read [OF c1(1) n] tk_cons_def)
  next
    case (CMap m i)
    from tk_uint32_at [of ev c "int i" "concat (map tk_fields vs) @ fs"] Cons.prems(1) obtain c' where
      c': "EV_GET_UINT32 ev c = Inr (Some (word_of_int (sint (cint (int i))), c'))" "ev_at ev c' (concat (map tk_fields vs) @ fs)"
      by (auto simp: CMap)
    have i: "- (2 ^ 31) \<le> int i" "int i < 2 ^ 31" "i < length (maps ! m)" "maps ! m ! i \<noteq> None"
      using Cons.prems(3) by (simp_all add: CMap int32_ok_def)
    then obtain p where p: "maps ! m ! i = Some p" by blast
    from Cons.IH [OF c'(2) Cons.prems(2), of bl "int i"] Cons.prems(3) show ?thesis
      using i(3) p by (auto simp: CMap tk_uint32_read [OF c'(1) i(1,2)] tk_cons_def)
  qed
qed

text \<open>An index within its map, of an entry in use or not, is enough for the command to be read or refused.\<close>

fun tk_value_in :: "nat option list list \<Rightarrow> tk_value \<Rightarrow> bool" where
  "tk_value_in maps (CInt i) = int32_ok i"
| "tk_value_in maps (CBytes bs) = True"
| "tk_value_in maps (CMap m i) = (i < length (maps ! m) \<and> int32_ok (int i))"

lemma tk_args_returns:
  assumes "ev_at ev c (concat (map tk_fields vs) @ fs)" "ev_small ev" "\<forall>v \<in> set vs. tk_value_in maps v"
  shows "\<exists>m. tk_args u maps ev bl ix (map tk_kind_of vs) c = Inr m \<and> (\<forall>as. m = Some as \<longrightarrow> list_all2 (tk_means maps) vs as)"
  using assms
proof (induction vs arbitrary: c bl ix)
  case Nil
  then show ?case by simp
next
  case (Cons v vs)
  have cons: "\<exists>m. tk_cons a r = Inr m \<and> (\<forall>as. m = Some as \<longrightarrow> list_all2 (tk_means maps) (v # vs) as)"
    if "\<exists>m. r = Inr m \<and> (\<forall>as. m = Some as \<longrightarrow> list_all2 (tk_means maps) vs as)" "tk_means maps v a" for a r
    using that by (auto simp: tk_cons_def split: option.split)
  show ?case
  proof (cases v)
    case (CInt i)
    from tk_uint32_at [of ev c i "concat (map tk_fields vs) @ fs"] Cons.prems(1) obtain c' where
      c': "EV_GET_UINT32 ev c = Inr (Some (word_of_int (sint (cint i)), c'))" "ev_at ev c' (concat (map tk_fields vs) @ fs)"
      by (auto simp: CInt)
    have i: "- (2 ^ 31) \<le> i" "i < 2 ^ 31" using Cons.prems(3) by (simp_all add: CInt int32_ok_def)
    from cons [OF Cons.IH [OF c'(2) Cons.prems(2), of bl ix], of "AInt i"] Cons.prems(3) show ?thesis
      by (simp add: CInt tk_uint32_read [OF c'(1) i])
  next
    case (CBytes bs)
    from tk_uint32_at [of ev c "int (length bs)" "bs # concat (map tk_fields vs) @ fs"] Cons.prems(1) obtain c1 where
      c1: "EV_GET_UINT32 ev c = Inr (Some (word_of_int (sint (cint (int (length bs)))), c1))"
        "ev_at ev c1 (bs # concat (map tk_fields vs) @ fs)"
      by (auto simp: CBytes tk_len_def)
    have n: "- (2 ^ 31) \<le> int (length bs)" "int (length bs) < 2 ^ 31"
      using ev_at_small [OF c1(2) Cons.prems(2)] by simp_all
    from ev_at_binary [OF c1(2), of True] Cons.prems(2) obtain r c' ptr where
      r: "edtk_ev_forward_N ev (int (length bs)) c1 True = Inr (r, c')" "0 \<le> r"
        "ev_at ev c' (concat (map tk_fields vs) @ fs)" "EV_GETPOS ev c1 = Some ptr" "take (length bs) ptr = bs"
      unfolding ev_small_def by blast
    from cons [OF Cons.IH [OF r(3) Cons.prems(2), of "int (length bs)" ix], of "ABytes (int (length bs)) ptr"] Cons.prems(3)
    show ?thesis using r by (simp add: CBytes tk_uint32_read [OF c1(1) n])
  next
    case (CMap m i)
    from tk_uint32_at [of ev c "int i" "concat (map tk_fields vs) @ fs"] Cons.prems(1) obtain c' where
      c': "EV_GET_UINT32 ev c = Inr (Some (word_of_int (sint (cint (int i))), c'))" "ev_at ev c' (concat (map tk_fields vs) @ fs)"
      by (auto simp: CMap)
    have i: "- (2 ^ 31) \<le> int i" "int i < 2 ^ 31" "i < length (maps ! m)"
      using Cons.prems(3) by (simp_all add: CMap int32_ok_def)
    show ?thesis
    proof (cases "maps ! m ! i")
      case None
      then show ?thesis using i(3) by (simp add: CMap tk_uint32_read [OF c'(1) i(1,2)])
    next
      case (Some p)
      from cons [OF Cons.IH [OF c'(2) Cons.prems(2), of bl "int i"], of "APtr m i p"] Cons.prems(3) show ?thesis
        using i(3) Some by (simp add: CMap tk_uint32_read [OF c'(1) i(1,2)])
    qed
  qed
qed

text \<open>Whatever the command looks like, what comes out is of the kinds, and from the maps.\<close>

fun tk_fits :: "nat option list list \<Rightarrow> tk_kind \<Rightarrow> tk_arg \<Rightarrow> bool" where
  "tk_fits maps KInt a = (\<exists>v. a = AInt v)"
| "tk_fits maps KBytes a = (\<exists>n p. a = ABytes n p)"
| "tk_fits maps (KMap m) a = (\<exists>i p. a = APtr m i p \<and> i < length (maps ! m) \<and> maps ! m ! i = Some p)"

lemma tk_cons_Some: "tk_cons a m = Inr (Some as) \<longleftrightarrow> (\<exists>bs. m = Inr (Some bs) \<and> as = a # bs)"
  by (auto simp: tk_cons_def split: sum.splits option.splits)

lemma tk_args_fits:
  assumes "tk_args u maps ev bl ix ks c = Inr (Some as)"
  shows "list_all2 (tk_fits maps) ks as"
  using assms
proof (induction ks arbitrary: c bl ix as)
  case Nil
  then show ?case by simp
next
  case (Cons k ks)
  then show ?case
    by (cases c; cases k) (auto simp: tk_uint32_def tk_cons_Some split: sum.splits option.splits if_splits prod.splits)
qed

section \<open>Answers\<close>

text \<open>
  A command is answered at once, or in a driver whose calls are made by threads becomes a job that is answered later;
  \<open>due\<close> is the number of answers and jobs.  \<open>edtk_reach\<close> counts the commands on the way to a state.
\<close>

inductive edtk_reach :: "('s \<Rightarrow> bool) \<Rightarrow> ('c option \<Rightarrow> 's \<Rightarrow> 's \<Rightarrow> bool) \<Rightarrow> nat \<Rightarrow> 's \<Rightarrow> bool" for start step where
  started: "start s \<Longrightarrow> edtk_reach start step 0 s"
| command: "edtk_reach start step n s \<Longrightarrow> step (Some c) s t \<Longrightarrow> edtk_reach start step (Suc n) t"
| other: "edtk_reach start step n s \<Longrightarrow> step None s t \<Longrightarrow> edtk_reach start step n t"

locale edtk_server =
  fixes start :: "'s \<Rightarrow> bool" and step :: "'c option \<Rightarrow> 's \<Rightarrow> 's \<Rightarrow> bool" and due :: "'s \<Rightarrow> nat"
  assumes start_due: "start s \<Longrightarrow> due s = 0"
    and step_due: "step c s t \<Longrightarrow> due t = due s + (case c of None \<Rightarrow> 0 | Some _ \<Rightarrow> 1)"
begin

lemma reach_due: "edtk_reach start step n s \<Longrightarrow> due s = n"
  by (induction rule: edtk_reach.induct) (auto simp: start_due dest: step_due)

end

end
