(* ===== verification/Spread_Driver.thy ===== *)
theory Spread_Driver
  imports Spread Edtk_Command
begin

text \<open>
  The entry points of the Spread driver (\<^verbatim>\<open>spread_drv/c_src/spread_drv.c\<close>).  A command is decoded, checked and
  turned into a job; a thread of the emulator runs it, and when it has, the emulator calls \<^verbatim>\<open>_ready_async\<close>,
  which answers.  Several jobs may be waiting or finished at a time.
\<close>

section \<open>Jobs\<close>

text \<open>A string or binary argument is the bytes from where it starts to the end of its piece.\<close>

datatype sp_work =
    WConnect "byte list" "byte list option" int int
  | WDisconnect int
  | WJoin int "byte list"
  | WLeave int "byte list"
  | WMulticast int int "byte list" int int "byte list"
  | WMultigroup int int "byte list" int int "byte list"
  | WPoll int
  | WReceive int int int
  | WGidOffset
  | WNumVsOffset
  | WVsSetOffset
  | WSetActive int

datatype sp_out = OutInt int | OutReceived sp_received

record sp_job =
  job_work :: sp_work
  job_refs :: nat
  job_out :: "sp_out option"

text \<open>\<open>sp_debug\<close> is \<^verbatim>\<open>edtk_debug_flag\<close>, a variable that all ports of the driver share.\<close>

record 'l sp_port = "'l sp_desc" +
  sp_debug :: int
  sp_jobs :: "sp_job list"

text \<open>\<^verbatim>\<open>_start\<close>: the descriptor is all zero.\<close>

definition spread_start :: "'l spread \<Rightarrow> 'l \<Rightarrow> sp_log \<Rightarrow> 'l sp_port option" where
  "spread_start lib l h =
     (if sp_alloc lib (SpAlloc (sp_callsize lib) # h) then
        Some \<lparr>sp_log = SpAlloc (sp_callsize lib) # h, sp_lib = l, sp_mbox_init = False, sp_mbox = 0,
          sp_private_group = [], sp_sender = [], sp_active = False, sp_debug = 0, sp_jobs = []\<rparr>
      else None)"

section \<open>Replies\<close>

definition sp_put :: "tk_item list \<Rightarrow> 'l sp_port \<Rightarrow> 'l sp_port" where
  "sp_put items s = sp_do (SpOutput items) s"

definition reply_ok_num :: "int \<Rightarrow> 'l sp_port \<Rightarrow> 'l sp_port" where
  "reply_ok_num n s = sp_put [LOAD_PORT, LOAD_ATOM ''ok'', LOAD_INT n, LOAD_TUPLE 3] s"

definition reply_error :: "int \<Rightarrow> 'l sp_port \<Rightarrow> 'l sp_port" where
  "reply_error n s = sp_put [LOAD_PORT, LOAD_ATOM ''error'', LOAD_INT n, LOAD_TUPLE 3] s"

definition reply_error_atom :: "string \<Rightarrow> 'l sp_port \<Rightarrow> 'l sp_port" where
  "reply_error_atom a s = sp_put [LOAD_PORT, LOAD_ATOM ''error'', LOAD_ATOM a, LOAD_TUPLE 3] s"

definition reply_xtra_xret_connect :: "'l spread \<Rightarrow> int \<Rightarrow> 'l sp_port \<Rightarrow> (unit, 'l sp_port) outcome" where
  "reply_xtra_xret_connect lib ret s =
     (if ret = sp_ACCEPT_SESSION lib then
        let s = sp_do (SpAllocBinary (int (length (sp_private_group s)))) s in
        if \<not> sp_got lib s then Inr ((), reply_error (sp_ENOMEM lib) s)
        else sp_send [LOAD_PORT, LOAD_ATOM ''ok'', LOAD_BINARY (sp_private_group s), LOAD_TUPLE 1, LOAD_TUPLE 3] s
      else sp_send [LOAD_PORT, LOAD_ATOM ''error'', LOAD_INT ret, LOAD_TUPLE 1, LOAD_TUPLE 3] s)"

text \<open>When there is no message, the memory for it is not in \<^verbatim>\<open>tofree\<close>.\<close>

definition reply_xtra_xret_receive ::
  "'l spread \<Rightarrow> sp_received \<Rightarrow> 'l sp_port \<Rightarrow> (unit, 'l sp_port) outcome" where
  "reply_xtra_xret_receive lib r s =
     (case r of
        SpGot m \<Rightarrow> sp_reply_message lib ''ok'' m (\<lambda>s. Inr ((), reply_error (sp_ENOMEM lib) s)) s
      | SpError ret num_groups endian \<Rightarrow>
          sp_send [LOAD_PORT, LOAD_ATOM ''error'', LOAD_INT ret, LOAD_INT num_groups, LOAD_INT endian,
            LOAD_TUPLE 3, LOAD_TUPLE 3] s)"

section \<open>Decoding\<close>

datatype sp_args =
    ADebug int
  | AConnect "byte list" "byte list" int int
  | ADisconnect
  | AJoin "byte list"
  | ALeave "byte list"
  | AMulticast int "byte list" int int "byte list"
  | AMultigroup int "byte list" int int "byte list"
  | APoll
  | AReceive int int
  | AGidOffset
  | ANumVsOffset
  | AVsSetOffset
  | ASetActive int

text \<open>
  The arguments with the number of binaries referred to.  A call that may run in a thread counts one more
  reference to the binary of each argument, and reads \<^verbatim>\<open>binv[q]\<close> for it before it has been found out whether
  there is a piece \<open>q\<close>.
\<close>

datatype sp_parsed = ParsedBad nat | Parsed sp_args nat

definition sp_binary ::
  "'l spread \<Rightarrow> iovec \<Rightarrow> int \<Rightarrow> nat \<Rightarrow> cursor \<Rightarrow>
   (int \<Rightarrow> byte list \<Rightarrow> nat \<Rightarrow> cursor \<Rightarrow> fault + sp_parsed) \<Rightarrow> fault + sp_parsed" where
  "sp_binary lib ev old refs c k =
     tk_uint32 ev old c (\<lambda>binlen c.
       if \<not> sp_pipe lib \<and> refs = 24 then Inr (ParsedBad refs)
       else if \<not> sp_pipe lib \<and> length ev \<le> snd c then Inl OutOfBounds
       else
         let refs = (if sp_pipe lib then refs else Suc refs) in
         case edtk_ev_forward_N ev binlen c True of
           Inl e \<Rightarrow> Inl e
         | Inr (r, c') \<Rightarrow>
             if r < 0 then Inr (ParsedBad refs)
             else case EV_GETPOS ev c of None \<Rightarrow> Inl NullPtr | Some p \<Rightarrow> k binlen p refs c')"

definition sp_parse :: "'l spread \<Rightarrow> int \<Rightarrow> byte \<Rightarrow> iovec \<Rightarrow> cursor \<Rightarrow> fault + sp_parsed" where
  "sp_parse lib dbg cmd ev c =
     (let u = sp_unset lib in
      if cmd = 0 then tk_uint32 ev dbg c (\<lambda>v c. Inr (Parsed (ADebug v) 0))
      else if cmd = 1 then
        sp_binary lib ev u 0 c (\<lambda>len name refs c.
          sp_binary lib ev len refs c (\<lambda>len private refs c.
            tk_uint32 ev u c (\<lambda>priority c.
              tk_uint32 ev u c (\<lambda>membership c. Inr (Parsed (AConnect name private priority membership) refs)))))
      else if cmd = 2 then Inr (Parsed ADisconnect 0)
      else if cmd = 3 then sp_binary lib ev u 0 c (\<lambda>len grp refs c. Inr (Parsed (AJoin grp) refs))
      else if cmd = 4 then sp_binary lib ev u 0 c (\<lambda>len grp refs c. Inr (Parsed (ALeave grp) refs))
      else if cmd = 5 then
        tk_uint32 ev u c (\<lambda>service c.
          sp_binary lib ev u 0 c (\<lambda>len grp refs c.
            tk_uint16 ev u c (\<lambda>type c.
              sp_binary lib ev len refs c (\<lambda>len mess refs c.
                Inr (Parsed (AMulticast service grp type len mess) refs)))))
      else if cmd = 6 then
        tk_uint32 ev u c (\<lambda>service c.
          sp_binary lib ev u 0 c (\<lambda>len groups refs c.
            tk_uint16 ev u c (\<lambda>type c.
              sp_binary lib ev len refs c (\<lambda>len mess refs c.
                Inr (Parsed (AMultigroup service groups type len mess) refs)))))
      else if cmd = 7 then Inr (Parsed APoll 0)
      else if cmd = 8 then
        tk_uint32 ev u c (\<lambda>max_groups c.
          tk_uint32 ev u c (\<lambda>max_len c. Inr (Parsed (AReceive max_groups max_len) 0)))
      else if cmd = 9 then Inr (Parsed AGidOffset 0)
      else if cmd = 10 then Inr (Parsed ANumVsOffset 0)
      else if cmd = 11 then Inr (Parsed AVsSetOffset 0)
      else if cmd = 12 then tk_uint32 ev u c (\<lambda>value c. Inr (Parsed (ASetActive value) 0))
      else Inr (ParsedBad 0))"

section \<open>Checks\<close>

text \<open>
  What the command does before its job is started.  Without a job it has been answered; the call state is not
  freed then.
\<close>

definition sp_connected ::
  "'l spread \<Rightarrow> sp_work \<Rightarrow> 'l sp_port \<Rightarrow> (sp_work option, 'l sp_port) outcome" where
  "sp_connected lib w s =
     (if sp_mbox_init s then Inr (Some w, s) else Inr (None, reply_error (sp_ILLEGAL_SESSION lib) s))"

definition sp_check :: "'l spread \<Rightarrow> sp_args \<Rightarrow> 'l sp_port \<Rightarrow> (sp_work option, 'l sp_port) outcome" where
  "sp_check lib args s =
     (let mbox = sp_mbox s in
      case args of
        ADebug v \<Rightarrow> Inr (None, sp_do SpFree (reply_ok_num v (s\<lparr>sp_debug := v\<rparr>)))
      | AConnect name private priority membership \<Rightarrow>
          if sp_mbox_init s then Inr (None, reply_error (sp_ILLEGAL_SESSION lib) s)
          else if 0 \<notin> set private then Inl OutOfBounds
          else Inr (Some (WConnect name (if c_string private = [] then None else Some private) priority membership), s)
      | ADisconnect \<Rightarrow> Inr (Some (WDisconnect mbox), s)
      | AJoin grp \<Rightarrow> sp_connected lib (WJoin mbox grp) s
      | ALeave grp \<Rightarrow> sp_connected lib (WLeave mbox grp) s
      | AMulticast service grp type len mess \<Rightarrow> sp_connected lib (WMulticast mbox service grp type len mess) s
      | AMultigroup service groups type len mess \<Rightarrow> sp_connected lib (WMultigroup mbox service groups type len mess) s
      | APoll \<Rightarrow> sp_connected lib (WPoll mbox) s
      | AReceive max_groups max_len \<Rightarrow>
          if \<not> sp_mbox_init s then Inr (None, reply_error (sp_ILLEGAL_SESSION lib) s)
          else
            andthen (checked (max_groups * int MAX_GROUP_NAME) (\<lambda>size. Inr (size, s))) (\<lambda>size s.
              let s = sp_do (SpAlloc size) s in
              if \<not> sp_got lib s then Inr (None, reply_error (sp_ENOMEM lib) s)
              else
                let s = sp_do (SpAllocBinary max_len) s in
                if \<not> sp_got lib s then Inr (None, reply_error (sp_ENOMEM lib) (sp_do SpCFree s))
                else Inr (Some (WReceive mbox max_groups max_len), s))
      | AGidOffset \<Rightarrow> Inr (Some WGidOffset, s)
      | ANumVsOffset \<Rightarrow> Inr (Some WNumVsOffset, s)
      | AVsSetOffset \<Rightarrow> Inr (Some WVsSetOffset, s)
      | ASetActive value \<Rightarrow> Inr (Some (WSetActive value), s))"

section \<open>Running a job\<close>

text \<open>The call of the library a job makes; reading a string that has no end is a fault.\<close>

fun sp_work_request :: "sp_work \<Rightarrow> fault + sp_request" where
  "sp_work_request (WConnect name private priority membership) =
     (if 0 \<notin> set name then Inl OutOfBounds
      else Inr (SP_connect (c_string name) (map_option c_string private) priority membership))"
| "sp_work_request (WDisconnect mbox) = Inr (SP_disconnect mbox)"
| "sp_work_request (WJoin mbox grp) =
     (if 0 \<notin> set grp then Inl OutOfBounds else Inr (SP_join mbox (c_string grp)))"
| "sp_work_request (WLeave mbox grp) =
     (if 0 \<notin> set grp then Inl OutOfBounds else Inr (SP_leave mbox (c_string grp)))"
| "sp_work_request (WMulticast mbox service grp type len mess) =
     (if 0 \<notin> set grp then Inl OutOfBounds
      else Inr (SP_multicast mbox service (c_string grp) type len (take (nat len) mess)))"
| "sp_work_request (WMultigroup mbox service groups type len mess) =
     (case sp_group_names 0 groups of
        Inl e \<Rightarrow> Inl e
      | Inr names \<Rightarrow> Inr (SP_multigroup_multicast mbox service names type len (take (nat len) mess)))"
| "sp_work_request WGidOffset = Inr SP_get_gid_offset_memb_mess"
| "sp_work_request WNumVsOffset = Inr SP_get_num_vs_offset_memb_mess"
| "sp_work_request WVsSetOffset = Inr SP_get_vs_set_offset_memb_mess"
| "sp_work_request _ = Inl Aborts"

definition sp_invoke :: "'l spread \<Rightarrow> sp_work \<Rightarrow> 'l sp_port \<Rightarrow> (sp_out, 'l sp_port) outcome" where
  "sp_invoke lib w s =
     (case w of
        WPoll mbox \<Rightarrow> Inr (OutInt (sp_poll lib mbox (sp_lib s)), sp_do (SpPoll mbox) s)
      | WReceive mbox max_groups max_len \<Rightarrow>
          (case sp_do_receive lib mbox max_groups max_len s of (r, s) \<Rightarrow> Inr (OutReceived r, s))
      | WSetActive value \<Rightarrow> (case my_set_active value s of (v, s) \<Rightarrow> Inr (OutInt v, s))
      | _ \<Rightarrow>
          (case sp_work_request w of
             Inl e \<Rightarrow> Inl e
           | Inr req \<Rightarrow>
               (case sp_request lib req (sp_lib s) of (ret, l) \<Rightarrow>
                  let s = (sp_do (SpRequest req) s)\<lparr>sp_lib := l\<rparr>;
                      s = (case w of
                             WConnect _ _ _ _ \<Rightarrow>
                               if ret = sp_ACCEPT_SESSION lib then
                                 s\<lparr>sp_mbox := fst (sp_opened lib l), sp_private_group := snd (sp_opened lib l)\<rparr>
                               else s
                           | _ \<Rightarrow> s)
                  in Inr (OutInt ret, s))))"

section \<open>Answering\<close>

definition reply_expected :: "bool \<Rightarrow> int \<Rightarrow> 'l sp_port \<Rightarrow> 'l sp_port" where
  "reply_expected ok ret s = (if ok then reply_ok_num ret s else reply_error ret s)"

definition sp_answer :: "'l spread \<Rightarrow> sp_work \<Rightarrow> sp_out \<Rightarrow> 'l sp_port \<Rightarrow> (unit, 'l sp_port) outcome" where
  "sp_answer lib w out s =
     (case out of
        OutReceived r \<Rightarrow>
          andthen (reply_xtra_xret_receive lib r s) (\<lambda>_ s. Inr ((), sp_do SpFree s))
      | OutInt ret \<Rightarrow>
          (case w of
             WConnect _ _ _ _ \<Rightarrow>
               reply_xtra_xret_connect lib ret
                 (if ret = sp_ACCEPT_SESSION lib then s\<lparr>sp_mbox_init := True\<rparr> else s)
           | WDisconnect _ \<Rightarrow>
               Inr ((), reply_expected (ret = 0) ret (if ret = 0 then s\<lparr>sp_mbox_init := False\<rparr> else s))
           | WJoin _ _ \<Rightarrow> Inr ((), reply_expected (ret = 0) ret s)
           | WLeave _ _ \<Rightarrow> Inr ((), reply_expected (ret = 0) ret s)
           | WMulticast _ _ _ _ _ _ \<Rightarrow> Inr ((), reply_expected (0 \<le> ret) ret s)
           | WMultigroup _ _ _ _ _ _ \<Rightarrow> Inr ((), reply_expected (0 \<le> ret) ret s)
           | _ \<Rightarrow> Inr ((), reply_ok_num ret s)))"

definition spread_ready_async :: "'l spread \<Rightarrow> sp_job \<Rightarrow> sp_out \<Rightarrow> 'l sp_port \<Rightarrow> (unit, 'l sp_port) outcome" where
  "spread_ready_async lib job out s =
     andthen (sp_answer lib (job_work job) out s)
       (\<lambda>_ s. Inr ((), sp_do SpFree (sp_free_binaries (job_refs job) s)))"

section \<open>Commands\<close>

definition sp_refer :: "nat \<Rightarrow> 'l sp_port \<Rightarrow> 'l sp_port" where
  "sp_refer n s = s\<lparr>sp_log := replicate n SpRefBinary @ sp_log s\<rparr>"

definition sp_dispatch :: "'l spread \<Rightarrow> sp_work \<Rightarrow> nat \<Rightarrow> 'l sp_port \<Rightarrow> (unit, 'l sp_port) outcome" where
  "sp_dispatch lib w refs s =
     (if \<not> sp_pipe lib \<and> (\<forall>mbox. w \<noteq> WPoll mbox) then
        Inr ((), (sp_do SpAsync s)\<lparr>sp_jobs := sp_jobs s @ [\<lparr>job_work = w, job_refs = refs, job_out = None\<rparr>]\<rparr>)
      else andthen (sp_invoke lib w s) (\<lambda>out s.
        spread_ready_async lib \<lparr>job_work = w, job_refs = refs, job_out = Some out\<rparr> out s))"

definition spread_outputv :: "'l spread \<Rightarrow> iovec \<Rightarrow> 'l sp_port \<Rightarrow> (unit, 'l sp_port) outcome" where
  "spread_outputv lib ev s =
     (if length (concat ev) < 1 then Inr ((), s)
      else case EV_GET_CHAR ev (0, 1) of
          Inl e \<Rightarrow> Inl e
        | Inr got \<Rightarrow>
            let (cmd, c, s) = (case got of
                  None \<Rightarrow> (word_of_int (sp_unset lib), (0, 1), reply_error (sp_EINVAL lib) s)
                | Some (b, c) \<Rightarrow> (b, c, s));
                s = sp_do (SpAlloc (sp_callsize lib)) s
            in if \<not> sp_got lib s then Inr ((), reply_error (sp_ENOMEM lib) s)
               else case sp_parse lib (sp_debug s) cmd ev c of
                   Inl e \<Rightarrow> Inl e
                 | Inr (ParsedBad refs) \<Rightarrow> Inr ((), reply_error_atom ''badarg'' (sp_do SpFree (sp_refer refs s)))
                 | Inr (Parsed args refs) \<Rightarrow>
                     andthen (sp_check lib args (sp_refer refs s)) (\<lambda>w s.
                       case w of None \<Rightarrow> Inr ((), s) | Some w \<Rightarrow> sp_dispatch lib w refs s))"

definition spread_stop :: "'l spread \<Rightarrow> 'l sp_port \<Rightarrow> sp_log" where
  "spread_stop lib s =
     (let s = (if sp_active s then sp_do (SpSelect (sp_mbox s) False) s else s);
          s = (if sp_mbox_init s then sp_do (SpRequest (SP_disconnect (sp_mbox s))) s else s)
      in sp_log (sp_do SpFree s))"

section \<open>What the emulator does\<close>

text \<open>
  A step is a command, a thread that runs a waiting job, an answer to a job that has been run, or the report of
  input on a port that is active.
\<close>

inductive sp_step :: "'l spread \<Rightarrow> nat \<Rightarrow> iovec option \<Rightarrow> 'l sp_port \<Rightarrow> 'l sp_port \<Rightarrow> bool" for lib fuel where
  command: "spread_outputv lib ev s = Inr ((), s') \<Longrightarrow> sp_step lib fuel (Some ev) s s'"
| thread: "i < length (sp_jobs s) \<Longrightarrow> job_out (sp_jobs s ! i) = None \<Longrightarrow>
    sp_invoke lib (job_work (sp_jobs s ! i)) s = Inr (out, s') \<Longrightarrow>
    sp_step lib fuel None s (s'\<lparr>sp_jobs := (sp_jobs s')[i := (sp_jobs s ! i)\<lparr>job_out := Some out\<rparr>]\<rparr>)"
| ready: "i < length (sp_jobs s) \<Longrightarrow> job_out (sp_jobs s ! i) = Some out \<Longrightarrow>
    spread_ready_async lib (sp_jobs s ! i) out
      (s\<lparr>sp_jobs := take i (sp_jobs s) @ drop (Suc i) (sp_jobs s)\<rparr>) = Inr ((), s') \<Longrightarrow>
    sp_step lib fuel None s s'"
| input: "sp_active s \<Longrightarrow> my_ready_input fuel lib s = Inr ((), s') \<Longrightarrow> sp_step lib fuel None s s'"

inductive_cases sp_step_elims: "sp_step lib fuel c s s'"

end
