(* ===== verification/Spread_Service.thy ===== *)
theory Spread_Service
  imports Spread_Receive Spread_Driver
begin

text \<open>
  What the Spread driver does for its clients: the commands of \<^verbatim>\<open>spread_drv.erl\<close>, however the emulator cuts
  them into pieces, become the jobs they ask for; every command is answered once; and what goes wrong when
  two receives are under way.
\<close>

section \<open>Arguments are read back\<close>

lemma sp_binary_at:
  assumes "ev_at ev c (put_int32 (int (length f)) # f # fs)" "ev_small ev" "\<not> sp_pipe lib" "refs < 24"
  shows "\<exists>c' ptr. (\<forall>old k. sp_binary lib ev old refs c k = k (int (length f)) ptr (Suc refs) c') \<and>
    take (length f) ptr = f \<and> ev_at ev c' fs"
proof -
  have f: "length f \<le> 2147483647"
  proof -
    obtain c' where "ev_at ev c' (f # fs)" using ev_at_get [OF assms(1)] by blast
    then show ?thesis using ev_at_small assms(2) by blast
  qed
  obtain c1 where c1: "EV_GET_UINT32 ev c = Inr (Some (word_of_int (sint (cint (int (length f)))), c1))"
    "ev_at ev c1 (f # fs)" using tk_uint32_at [OF assms(1)] by blast
  obtain r c' ptr where "edtk_ev_forward_N ev (int (length f)) c1 True = Inr (r, c')" "0 \<le> r" "ev_at ev c' fs"
    "EV_GETPOS ev c1 = Some ptr" "take (length f) ptr = f" "snd c1 < length ev"
    using ev_at_binary [OF c1(2), of True] assms(2) unfolding ev_small_def by blast
  then show ?thesis using f assms(3,4)
    by (intro exI [of _ c'] exI [of _ ptr]) (simp add: sp_binary_def tk_uint32_read [OF c1(1)])
qed

section \<open>Clients\<close>

datatype sp_client = CRequest sp_request | CPoll | CReceive int int | CSetActive int

text \<open>The mailbox of a request is the port's.\<close>

fun sp_with_mbox :: "int \<Rightarrow> sp_request \<Rightarrow> sp_request" where
  "sp_with_mbox mbox (SP_disconnect _) = SP_disconnect mbox"
| "sp_with_mbox mbox (SP_join _ g) = SP_join mbox g"
| "sp_with_mbox mbox (SP_leave _ g) = SP_leave mbox g"
| "sp_with_mbox mbox (SP_multicast _ service g type len mess) = SP_multicast mbox service g type len mess"
| "sp_with_mbox mbox (SP_multigroup_multicast _ service gs type len mess) =
     SP_multigroup_multicast mbox service gs type len mess"
| "sp_with_mbox _ r = r"

text \<open>The fields of a command, as \<^verbatim>\<open>spread_drv.erl\<close> writes them.\<close>

fun sp_fields :: "sp_client \<Rightarrow> byte list list" where
  "sp_fields (CRequest (SP_connect name private priority membership)) =
     (let p = (case private of None \<Rightarrow> [] | Some p \<Rightarrow> p) in
      [[1], tk_len (name @ [0]), name @ [0], tk_len (p @ [0]), p @ [0], put_int32 priority, put_int32 membership])"
| "sp_fields (CRequest (SP_disconnect _)) = [[2]]"
| "sp_fields (CRequest (SP_join _ g)) = [[3], tk_len (g @ [0]), g @ [0]]"
| "sp_fields (CRequest (SP_leave _ g)) = [[4], tk_len (g @ [0]), g @ [0]]"
| "sp_fields (CRequest (SP_multicast _ service g type len mess)) =
     [[5], put_int32 service, tk_len (g @ [0]), g @ [0], put_int16 type, tk_len mess, mess]"
| "sp_fields (CRequest (SP_multigroup_multicast _ service gs type len mess)) =
     [[6], put_int32 service, tk_len (sp_group_list gs), sp_group_list gs, put_int16 type, tk_len mess, mess]"
| "sp_fields (CRequest SP_get_gid_offset_memb_mess) = [[9]]"
| "sp_fields (CRequest SP_get_num_vs_offset_memb_mess) = [[10]]"
| "sp_fields (CRequest SP_get_vs_set_offset_memb_mess) = [[11]]"
| "sp_fields CPoll = [[7]]"
| "sp_fields (CReceive max_groups max_len) = [[8], put_int32 max_groups, put_int32 max_len]"
| "sp_fields (CSetActive value) = [[12], put_int32 value]"

fun sp_proper :: "sp_client \<Rightarrow> bool" where
  "sp_proper (CRequest (SP_connect name private priority membership)) =
     (0 \<notin> set name \<and> (case private of None \<Rightarrow> True | Some p \<Rightarrow> p \<noteq> [] \<and> 0 \<notin> set p) \<and> int32_ok priority \<and> int32_ok membership)"
| "sp_proper (CRequest (SP_join _ g)) = (0 \<notin> set g)"
| "sp_proper (CRequest (SP_leave _ g)) = (0 \<notin> set g)"
| "sp_proper (CRequest (SP_multicast _ service g type len mess)) =
     (int32_ok service \<and> 0 \<notin> set g \<and> int16_ok type \<and> len = int (length mess))"
| "sp_proper (CRequest (SP_multigroup_multicast _ service gs type len mess)) =
     (int32_ok service \<and> (\<forall>g \<in> set gs. sp_group_name g) \<and> length gs \<le> MAX_MULTIGROUPS \<and> int16_ok type \<and>
      len = int (length mess))"
| "sp_proper (CReceive max_groups max_len) = (0 \<le> max_groups \<and> max_groups < 2 ^ 26 \<and> int32_ok max_len)"
| "sp_proper (CSetActive value) = int32_ok value"
| "sp_proper _ = True"

text \<open>What decoded arguments mean.\<close>

definition sp_string :: "byte list \<Rightarrow> byte list \<Rightarrow> bool" where
  "sp_string bs ptr \<longleftrightarrow> c_string ptr = bs \<and> 0 \<in> set ptr"

fun sp_decoded :: "sp_client \<Rightarrow> sp_args \<Rightarrow> bool" where
  "sp_decoded (CRequest (SP_connect name private priority membership)) a =
     (\<exists>n p. a = AConnect n p priority membership \<and> sp_string name n \<and>
        sp_string (case private of None \<Rightarrow> [] | Some p \<Rightarrow> p) p)"
| "sp_decoded (CRequest (SP_disconnect _)) a = (a = ADisconnect)"
| "sp_decoded (CRequest (SP_join _ g)) a = (\<exists>p. a = AJoin p \<and> sp_string g p)"
| "sp_decoded (CRequest (SP_leave _ g)) a = (\<exists>p. a = ALeave p \<and> sp_string g p)"
| "sp_decoded (CRequest (SP_multicast _ service g type len mess)) a =
     (\<exists>p m. a = AMulticast service p type len m \<and> sp_string g p \<and> take (nat len) m = mess)"
| "sp_decoded (CRequest (SP_multigroup_multicast _ service gs type len mess)) a =
     (\<exists>p m. a = AMultigroup service p type len m \<and> sp_group_names 0 p = Inr gs \<and> take (nat len) m = mess)"
| "sp_decoded (CRequest SP_get_gid_offset_memb_mess) a = (a = AGidOffset)"
| "sp_decoded (CRequest SP_get_num_vs_offset_memb_mess) a = (a = ANumVsOffset)"
| "sp_decoded (CRequest SP_get_vs_set_offset_memb_mess) a = (a = AVsSetOffset)"
| "sp_decoded CPoll a = (a = APoll)"
| "sp_decoded (CReceive g n) a = (a = AReceive g n)"
| "sp_decoded (CSetActive v) a = (a = ASetActive v)"

lemma sp_string_ptr: "take (Suc (length bs)) ptr = bs @ [0] \<Longrightarrow> 0 \<notin> set bs \<Longrightarrow> sp_string bs ptr"
  using string_ptr [of bs ptr] by (simp add: sp_string_def)

lemma sp_groups_ptr:
  assumes "take (length (sp_group_list gs)) ptr = sp_group_list gs" "\<forall>g \<in> set gs. sp_group_name g"
    and "length gs \<le> MAX_MULTIGROUPS"
  shows "sp_group_names 0 ptr = Inr gs"
proof -
  have "ptr = sp_group_list gs @ drop (length (sp_group_list gs)) ptr"
    using append_take_drop_id [of "length (sp_group_list gs)" ptr] unfolding assms(1) by simp
  then show ?thesis
    using sp_group_names_back [OF assms(2), of 0 "drop (length (sp_group_list gs)) ptr"] assms(3) by simp
qed

text \<open>Fields behind the command byte.\<close>

lemma sp_binary_field:
  assumes "ev_at ev c (tk_len f # f # fs)" "ev_small ev" "\<not> sp_pipe lib" "refs < 24"
  shows "\<exists>c' ptr. (\<forall>old k. sp_binary lib ev old refs c k = k (int (length f)) ptr (Suc refs) c') \<and>
    take (length f) ptr = f \<and> ev_at ev c' fs"
  using sp_binary_at [OF assms(1) [unfolded tk_len_def] assms(2-4)] .

lemma sp_parse_one_string:
  assumes "ev_at ev c [tk_len (g @ [0]), g @ [0]]" "ev_small ev" "\<not> sp_pipe lib" "0 \<notin> set g"
  shows "\<exists>p. sp_parse lib dbg 3 ev c = Inr (Parsed (AJoin p) 1) \<and>
    sp_parse lib dbg 4 ev c = Inr (Parsed (ALeave p) 1) \<and> sp_string g p"
proof -
  obtain c' p where p: "\<forall>old k. sp_binary lib ev old 0 c k = k (int (length (g @ [0]))) p (Suc 0) c'"
    "take (length (g @ [0])) p = g @ [0]"
    using sp_binary_field [OF assms(1-3), of 0] by auto
  then show ?thesis using sp_string_ptr [of g p] assms(4)
    by (intro exI [of _ p]) (simp add: sp_parse_def)
qed

lemma sp_parse_connect:
  assumes "ev_at ev c [tk_len (name @ [0]), name @ [0], tk_len (p @ [0]), p @ [0], put_int32 i, put_int32 j]"
    and "ev_small ev" "\<not> sp_pipe lib" "0 \<notin> set name" "0 \<notin> set p" "int32_ok i" "int32_ok j"
  shows "\<exists>n q. sp_parse lib dbg 1 ev c = Inr (Parsed (AConnect n q i j) (Suc (Suc 0))) \<and> sp_string name n \<and> sp_string p q"
proof -
  obtain c1 n where n: "\<forall>old k. sp_binary lib ev old 0 c k = k (int (length (name @ [0]))) n (Suc 0) c1"
    "take (length (name @ [0])) n = name @ [0]" "ev_at ev c1 [tk_len (p @ [0]), p @ [0], put_int32 i, put_int32 j]"
    using sp_binary_field [OF assms(1-3), of 0] by auto
  obtain c2 q where q: "\<forall>old k. sp_binary lib ev old (Suc 0) c1 k = k (int (length (p @ [0]))) q (Suc (Suc 0)) c2"
    "take (length (p @ [0])) q = p @ [0]" "ev_at ev c2 [put_int32 i, put_int32 j]"
    using sp_binary_field [OF n(3) assms(2,3), of "Suc 0"] by auto
  obtain c3 where c3: "EV_GET_UINT32 ev c2 = Inr (Some (word_of_int (sint (cint i)), c3))" "ev_at ev c3 [put_int32 j]"
    using tk_uint32_at [OF q(3)] by blast
  obtain c4 where c4: "EV_GET_UINT32 ev c3 = Inr (Some (word_of_int (sint (cint j)), c4))"
    using tk_uint32_at [OF c3(2)] by blast
  have "sp_parse lib dbg 1 ev c = Inr (Parsed (AConnect n q i j) (Suc (Suc 0)))"
    using assms(6,7) by (simp add: sp_parse_def n(1) q(1) tk_uint32_read [OF c3(1)] tk_uint32_read [OF c4]
        int32_ok_def)
  then show ?thesis using sp_string_ptr [of name n] sp_string_ptr [of p q] n(2) q(2) assms(4,5) by auto
qed

lemma sp_parse_multicast:
  assumes "ev_at ev c [put_int32 i, tk_len g, g, put_int16 t, tk_len mess, mess]"
    and "ev_small ev" "\<not> sp_pipe lib" "int32_ok i" "int16_ok t"
  shows "\<exists>p m. sp_parse lib dbg 5 ev c = Inr (Parsed (AMulticast i p t (int (length mess)) m) (Suc (Suc 0))) \<and>
    sp_parse lib dbg 6 ev c = Inr (Parsed (AMultigroup i p t (int (length mess)) m) (Suc (Suc 0))) \<and>
    take (length g) p = g \<and> take (length mess) m = mess"
proof -
  obtain c1 where c1: "EV_GET_UINT32 ev c = Inr (Some (word_of_int (sint (cint i)), c1))"
    "ev_at ev c1 [tk_len g, g, put_int16 t, tk_len mess, mess]" using tk_uint32_at [OF assms(1)] by blast
  obtain c2 p where p: "\<forall>old k. sp_binary lib ev old 0 c1 k = k (int (length g)) p (Suc 0) c2"
    "take (length g) p = g" "ev_at ev c2 [put_int16 t, tk_len mess, mess]"
    using sp_binary_field [OF c1(2) assms(2,3), of 0] by auto
  obtain c3 where c3: "EV_GET_UINT16 ev c2 = Inr (Some (word_of_int t, c3))" "ev_at ev c3 [tk_len mess, mess]"
    using tk_uint16_at [OF p(3)] by blast
  obtain c4 m where m: "\<forall>old k. sp_binary lib ev old (Suc 0) c3 k = k (int (length mess)) m (Suc (Suc 0)) c4"
    "take (length mess) m = mess" using sp_binary_field [OF c3(2) assms(2,3), of "Suc 0"] by auto
  show ?thesis using assms(4,5) p(2) m(2)
    by (intro exI [of _ p] exI [of _ m]) (simp add: sp_parse_def tk_uint32_read [OF c1(1)] p(1)
        tk_uint16_read [OF c3(1)] m(1) int32_ok_def int16_ok_def)
qed

lemma sp_parse_receive:
  assumes "ev_at ev c [put_int32 i, put_int32 j]" "int32_ok i" "int32_ok j"
  shows "sp_parse lib dbg 8 ev c = Inr (Parsed (AReceive i j) 0)"
proof -
  obtain c1 where c1: "EV_GET_UINT32 ev c = Inr (Some (word_of_int (sint (cint i)), c1))" "ev_at ev c1 [put_int32 j]"
    using tk_uint32_at [OF assms(1)] by blast
  obtain c2 where c2: "EV_GET_UINT32 ev c1 = Inr (Some (word_of_int (sint (cint j)), c2))"
    using tk_uint32_at [OF c1(2)] by blast
  show ?thesis using assms(2,3)
    by (simp add: sp_parse_def tk_uint32_read [OF c1(1)] tk_uint32_read [OF c2] int32_ok_def)
qed

lemma sp_parse_active:
  assumes "ev_at ev c [put_int32 i]" "int32_ok i"
  shows "sp_parse lib dbg 12 ev c = Inr (Parsed (ASetActive i) 0)"
proof -
  obtain c1 where c1: "EV_GET_UINT32 ev c = Inr (Some (word_of_int (sint (cint i)), c1))"
    using tk_uint32_at [OF assms(1)] by blast
  show ?thesis using assms(2) by (simp add: sp_parse_def tk_uint32_read [OF c1] int32_ok_def)
qed

lemma sp_parse_ok:
  assumes "sp_fields cl = [cmd] # fs" "ev_at ev c fs" "ev_small ev" "\<not> sp_pipe lib" "sp_proper cl"
  shows "\<exists>args refs. sp_parse lib dbg cmd ev c = Inr (Parsed args refs) \<and> sp_decoded cl args"
proof (cases cl)
  case (CRequest r)
  show ?thesis
  proof (cases r)
    case (SP_connect name priv i j)
    define p where "p = (case priv of None \<Rightarrow> [] | Some p \<Rightarrow> p)"
    have "0 \<notin> set p" using assms(5) CRequest SP_connect by (auto simp: p_def split: option.splits)
    then show ?thesis using assms CRequest SP_connect sp_parse_connect [of ev c name p i j lib dbg]
      by (auto simp: p_def Let_def)
  next
    case (SP_join m g)
    then show ?thesis using assms CRequest sp_parse_one_string [of ev c g lib dbg] by auto
  next
    case (SP_leave m g)
    then show ?thesis using assms CRequest sp_parse_one_string [of ev c g lib dbg] by auto
  next
    case (SP_multicast mb i g t len mess)
    then obtain p m where "sp_parse lib dbg 5 ev c = Inr (Parsed (AMulticast i p t (int (length mess)) m) (Suc (Suc 0)))"
      "take (length (g @ [0])) p = g @ [0]" "take (length mess) m = mess"
      using assms CRequest sp_parse_multicast [of ev c i "g @ [0]" t mess lib dbg] by auto
    then show ?thesis using assms CRequest SP_multicast sp_string_ptr [of g p] by auto
  next
    case (SP_multigroup_multicast mb i gs t len mess)
    then obtain p m where "sp_parse lib dbg 6 ev c = Inr (Parsed (AMultigroup i p t (int (length mess)) m) (Suc (Suc 0)))"
      "take (length (sp_group_list gs)) p = sp_group_list gs" "take (length mess) m = mess"
      using assms CRequest sp_parse_multicast [of ev c i "sp_group_list gs" t mess lib dbg] by auto
    then show ?thesis using assms CRequest SP_multigroup_multicast sp_groups_ptr [of gs p]
      by (auto simp del: sp_group_names.simps)
  qed (use assms CRequest in \<open>auto simp: sp_parse_def\<close>)
next
  case CPoll
  then show ?thesis using assms by (auto simp: sp_parse_def)
next
  case (CReceive g n)
  then show ?thesis using assms sp_parse_receive [of ev c g n lib dbg] by (auto simp: int32_ok_def)
next
  case (CSetActive v)
  then show ?thesis using assms sp_parse_active [of ev c v lib dbg] by auto
qed

section \<open>A command becomes the job it asks for\<close>

text \<open>What a job does for its client.\<close>

fun sp_does :: "int \<Rightarrow> sp_client \<Rightarrow> sp_work \<Rightarrow> bool" where
  "sp_does mbox (CRequest r) w = (sp_work_request w = Inr (sp_with_mbox mbox r))"
| "sp_does mbox CPoll w = (w = WPoll mbox)"
| "sp_does mbox (CReceive g n) w = (w = WReceive mbox g n)"
| "sp_does mbox (CSetActive v) w = (w = WSetActive v)"

text \<open>Commands that need a session, or need that there is none.\<close>

fun sp_session :: "sp_client \<Rightarrow> bool \<Rightarrow> bool" where
  "sp_session (CRequest (SP_connect _ _ _ _)) init = (\<not> init)"
| "sp_session _ init = init"

lemma sp_check_ok:
  assumes "sp_decoded cl args" "sp_proper cl" "sp_allocs lib" "sp_session cl (sp_mbox_init s)"
  shows "\<exists>w t. sp_check lib args s = Inr (Some w, t) \<and> sp_does (sp_mbox s) cl w \<and> t = s\<lparr>sp_log := sp_log t\<rparr>"
proof (cases cl)
  case (CRequest r)
  show ?thesis
  proof (cases r)
    case (SP_connect name priv i j)
    then obtain n p where args: "args = AConnect n p i j" "sp_string name n"
      "sp_string (case priv of None \<Rightarrow> [] | Some p \<Rightarrow> p) p" using assms(1) CRequest by auto
    then show ?thesis using assms CRequest SP_connect
      by (auto simp: sp_check_def sp_string_def split: option.splits)
  qed (use assms CRequest in \<open>auto simp: sp_check_def sp_connected_def sp_string_def simp del: sp_group_names.simps\<close>)
next
  case (CReceive g n)
  have "- 2147483648 \<le> g * 32 \<and> g * 32 \<le> 2147483647" using assms(2) CReceive by auto
  then show ?thesis using assms CReceive
    by (auto simp: sp_check_def checked_def Let_def andthen_def sp_gotten [OF assms(3)] sp_do_def)
qed (use assms in \<open>auto simp: sp_check_def sp_connected_def\<close>)

lemma sp_fields_cmd: "\<exists>cmd fs. sp_fields cl = [cmd] # fs"
proof (cases cl)
  case (CRequest r)
  then show ?thesis by (cases r) (auto simp: Let_def)
qed auto

lemma spread_outputv_ok:
  assumes groups: "concat groups = sp_fields cl" "[] \<notin> set groups" "[] \<notin> set (sp_fields cl)"
    and small: "ev_small (hdr # map concat groups)"
    and "\<not> sp_pipe lib" "sp_allocs lib" "sp_proper cl" "sp_session cl (sp_mbox_init s)" "cl \<noteq> CPoll"
  shows "\<exists>w refs t. spread_outputv lib (hdr # map concat groups) s = Inr ((), t) \<and> sp_does (sp_mbox s) cl w \<and>
    t = s\<lparr>sp_log := sp_log t, sp_jobs := sp_jobs s @ [\<lparr>job_work = w, job_refs = refs, job_out = None\<rparr>]\<rparr>"
proof -
  let ?ev = "hdr # map concat groups"
  obtain cmd fs where fs: "sp_fields cl = [cmd] # fs" using sp_fields_cmd by blast
  have "ev_at ?ev (0, 1) ([cmd] # fs)" using ev_at_start [of groups hdr] groups fs by simp
  then obtain c where c: "ev_get (length [cmd]) ?ev (0, 1) = Inr (Some ([cmd], c))" "ev_at ?ev c fs"
    using ev_at_get by blast
  have char: "EV_GET_CHAR ?ev (0, 1) = Inr (Some (cmd, c))" using c(1) by (simp add: EV_GET_CHAR_def ev_value_def)
  have "concat groups \<noteq> []" "\<forall>f \<in> set (concat groups). f \<noteq> []" using groups(1,3) fs by auto
  then have size: "\<not> length (concat ?ev) < 1" by fastforce
  define s1 where "s1 = sp_do (SpAlloc (sp_callsize lib)) s"
  obtain args refs where args: "sp_parse lib (sp_debug s1) cmd ?ev c = Inr (Parsed args refs)" "sp_decoded cl args"
    using sp_parse_ok [OF fs c(2) small assms(5,7)] by blast
  have "sp_session cl (sp_mbox_init (sp_refer refs s1))" using assms(8) by (simp add: s1_def sp_refer_def)
  from sp_check_ok [OF args(2) assms(7,6) this] obtain w u where
    w: "sp_check lib args (sp_refer refs s1) = Inr (Some w, u)" "sp_does (sp_mbox (sp_refer refs s1)) cl w"
      "u = (sp_refer refs s1)\<lparr>sp_log := sp_log u\<rparr>" by blast
  let ?t = "(sp_do SpAsync u)\<lparr>sp_jobs := sp_jobs u @ [\<lparr>job_work = w, job_refs = refs, job_out = None\<rparr>]\<rparr>"
  have mbox: "sp_mbox (sp_refer refs s1) = sp_mbox s" by (simp add: s1_def sp_refer_def)
  have "\<forall>mbox. w \<noteq> WPoll mbox"
    using w(2) assms(9) by (cases cl) auto
  then have "sp_dispatch lib w refs u = Inr ((), ?t)" using assms(5) by (simp add: sp_dispatch_def)
  then have "spread_outputv lib ?ev s = Inr ((), ?t)"
    using char args(1) w(1) unfolding spread_outputv_def if_not_P [OF size]
    by (simp add: Let_def sp_gotten [OF assms(6)] andthen_def s1_def)
  moreover obtain h where "u = s\<lparr>sp_log := h\<rparr>" using w(3) by (simp add: s1_def sp_refer_def sp_do_def)
  then have "?t = s\<lparr>sp_log := SpAsync # h, sp_jobs := sp_jobs s @ [\<lparr>job_work = w, job_refs = refs, job_out = None\<rparr>]\<rparr>"
    by (simp add: sp_do_def)
  ultimately show ?thesis using w(2) mbox
    by (intro exI [of _ w] exI [of _ refs] exI [of _ ?t]) simp
qed

text \<open>
  A message with no bytes leaves nothing behind its length: \<^verbatim>\<open>binv[q]\<close> is read behind the end of the vector.
\<close>

lemma spread_empty_message:
  assumes "concat groups = butlast (sp_fields (CRequest (SP_multicast mb i g t 0 [])))" "[] \<notin> set groups"
    and "ev_small (hdr # map concat groups)" "\<not> sp_pipe lib" "sp_allocs lib" "int32_ok i" "int16_ok t"
  shows "spread_outputv lib (hdr # map concat groups) s = Inl OutOfBounds"
proof -
  let ?ev = "hdr # map concat groups"
  have fields: "concat groups = [[5], put_int32 i, tk_len (g @ [0]), g @ [0], put_int16 t, put_int32 0]"
    using assms(1) by (simp add: tk_len_def)
  have "[] \<notin> set (concat groups)" unfolding fields by (auto simp: put_int32_def put_int16_def tk_len_def)
  from ev_at_start [OF assms(2) this, of hdr]
  have "ev_at ?ev (0, 1) ([5] # [put_int32 i, tk_len (g @ [0]), g @ [0], put_int16 t, put_int32 0])"
    unfolding fields .
  then obtain c where c: "ev_get (length [5 :: byte]) ?ev (0, 1) = Inr (Some ([5], c))"
    "ev_at ?ev c [put_int32 i, tk_len (g @ [0]), g @ [0], put_int16 t, put_int32 0]"
    using ev_at_get by blast
  obtain c1 where c1: "EV_GET_UINT32 ?ev c = Inr (Some (word_of_int (sint (cint i)), c1))"
    "ev_at ?ev c1 [tk_len (g @ [0]), g @ [0], put_int16 t, put_int32 0]" using tk_uint32_at [OF c(2)] by blast
  obtain c2 p where p: "\<forall>old k. sp_binary lib ?ev old 0 c1 k = k (int (length (g @ [0]))) p (Suc 0) c2"
    "ev_at ?ev c2 [put_int16 t, put_int32 0]"
    using sp_binary_field [OF c1(2) assms(3,4), of 0] by auto
  obtain c3 where c3: "EV_GET_UINT16 ?ev c2 = Inr (Some (word_of_int t, c3))" "ev_at ?ev c3 [put_int32 0]"
    using tk_uint16_at [OF p(2)] by blast
  obtain c4 where c4: "EV_GET_UINT32 ?ev c3 = Inr (Some (word_of_int (sint (cint 0)), c4))" "ev_at ?ev c4 []"
    using tk_uint32_at [OF c3(2)] by blast
  have "length ?ev \<le> snd c4" using c4(2) by (simp add: ev_at_def)
  then have last: "sp_binary lib ?ev old (Suc 0) c3 k = Inl OutOfBounds" for old k
    using assms(4) by (simp add: sp_binary_def tk_uint32_read [OF c4(1)])
  have parse: "sp_parse lib dbg 5 ?ev c = Inl OutOfBounds" for dbg
    using assms(6,7) by (simp add: sp_parse_def tk_uint32_read [OF c1(1)] p(1) tk_uint16_read [OF c3(1)] last
        int32_ok_def int16_ok_def)
  have char: "EV_GET_CHAR ?ev (0, 1) = Inr (Some (5, c))" using c(1) by (simp add: EV_GET_CHAR_def ev_value_def)
  have "length (concat (map concat groups)) = length (concat (concat groups))" by (induction groups) simp_all
  then have size: "\<not> length (concat ?ev) < 1" unfolding fields by simp
  show ?thesis using char parse unfolding spread_outputv_def if_not_P [OF size]
    by (simp add: Let_def sp_gotten [OF assms(5)])
qed

section \<open>Every command is answered once\<close>

text \<open>What is sent when a message arrives is no answer.\<close>

definition sp_is_answer :: "tk_item list \<Rightarrow> bool" where
  "sp_is_answer items \<longleftrightarrow> items ! 1 \<noteq> LOAD_ATOM ''active''"

definition sp_answered :: "sp_log \<Rightarrow> nat" where
  "sp_answered h = length (filter sp_is_answer (sp_outputs h))"

text \<open>\<open>k\<close> answers more, and the same jobs.\<close>

definition sp_more :: "nat \<Rightarrow> 'l sp_port \<Rightarrow> 'l sp_port \<Rightarrow> bool" where
  "sp_more k s t \<longleftrightarrow> sp_answered (sp_log t) = sp_answered (sp_log s) + k \<and> sp_jobs t = sp_jobs s"

fun sp_silent :: "sp_call \<Rightarrow> bool" where
  "sp_silent (SpOutput items) = (\<not> sp_is_answer items)"
| "sp_silent _ = True"

lemma sp_answered_simps [simp]:
  "sp_answered [] = 0"
  "sp_is_answer items \<Longrightarrow> sp_answered (SpOutput items # h) = sp_answered h + 1"
  "sp_answered (replicate n SpFreeBinary @ h) = sp_answered h"
  by (simp_all add: sp_answered_def)

lemma sp_answered_silent [simp]: "sp_silent c \<Longrightarrow> sp_answered (c # h) = sp_answered h"
  by (cases c) (simp_all add: sp_answered_def)

lemma sp_answered_ref [simp]: "sp_answered (replicate n SpRefBinary @ h) = sp_answered h"
  by (induction n) simp_all

lemma sp_jobs_simps [simp]:
  "sp_jobs (sp_do c s) = sp_jobs s" "sp_jobs (sp_free_binaries n s) = sp_jobs s"
  by (simp_all add: sp_do_def sp_free_binaries_def)

lemma sp_more_intros:
  "sp_more 0 s s" "sp_silent c \<Longrightarrow> sp_more k s t \<Longrightarrow> sp_more k s (sp_do c t)"
  "sp_more k s t \<Longrightarrow> sp_more k s (sp_free_binaries n t)"
  "sp_more j s t \<Longrightarrow> sp_more k t u \<Longrightarrow> sp_more (j + k) s u"
  by (simp_all add: sp_more_def)

lemma sp_replies:
  "sp_more 1 s (reply_ok_num n s)" "sp_more 1 s (reply_error n s)" "sp_more 1 s (reply_error_atom a s)"
  "sp_more 1 s (reply_expected b n s)"
  by (simp_all add: sp_more_def reply_ok_num_def reply_error_def reply_error_atom_def reply_expected_def
      sp_put_def sp_is_answer_def)

lemma sp_send_more:
  assumes "sp_send items s = Inr ((), t)"
  shows "sp_more (if sp_is_answer items then 1 else 0) s t"
  using assms by (auto simp: sp_send_def sp_more_def split: if_splits)

lemma sp_group_items_more:
  "sp_group_items lib gs s = (ok, items, t) \<Longrightarrow> sp_more 0 s t"
proof (induction gs arbitrary: s ok items t)
  case Nil
  then show ?case by (simp add: sp_more_def)
next
  case (Cons g gs)
  let ?s = "sp_do (SpAllocBinary (int (length g))) s"
  obtain ok' items' t' where rec: "sp_group_items lib gs ?s = (ok', items', t')" by (metis surj_pair)
  from Cons.IH [OF this] have "sp_more 0 s t'" by (simp add: sp_more_def)
  moreover have "sp_more 0 s ?s" by (simp add: sp_more_def)
  ultimately show ?case using Cons.prems rec by (auto simp: Let_def split: if_splits)
qed

lemma sp_reply_message_more:
  assumes "sp_reply_message lib tag m fail s = Inr ((), t)"
    and "\<And>u. fail u = Inr ((), t) \<Longrightarrow> sp_more (if tag = ''active'' then 0 else 1) u t"
  shows "sp_more (if tag = ''active'' then 0 else 1) s t"
proof -
  let ?s = "sp_do (SpAllocBinary (int (length (sp_sender s)))) s"
  have s: "sp_more 0 s ?s" by (simp add: sp_more_def)
  show ?thesis
  proof (cases "sp_got lib ?s")
    case False
    then show ?thesis using assms sp_more_intros(4) [OF s] by (simp add: sp_reply_message_def Let_def)
  next
    case True
    obtain ok items u where g: "sp_group_items lib (sm_groups m) ?s = (ok, items, u)" by (metis surj_pair)
    have "sp_more 0 s u" using sp_more_intros(4) [OF s sp_group_items_more [OF g]] by simp
    moreover have "sp_more (if tag = ''active'' then 0 else 1) u t"
      using assms(1) True
      by (auto simp: sp_reply_message_def Let_def make_xret_group_list_def g sp_is_answer_def
          dest!: sp_send_more split: if_splits)
    ultimately show ?thesis using sp_more_intros(4) by fastforce
  qed
qed

lemma sp_do_receive_more: "sp_do_receive lib mb g n s = (r, t) \<Longrightarrow> sp_more 0 s t"
  by (auto simp: sp_do_receive_def sp_more_def Let_def split: prod.splits sp_received.splits)

lemma sp_more_zero: "sp_more 0 s t \<Longrightarrow> sp_more k t u \<Longrightarrow> sp_more k s u" "sp_more 0 s (sp_do SpFree s)"
  "sp_more 0 s (sp_do SpCFree s)" "sp_more 0 s (sp_do SpFreeBinary s)" "sp_more 0 s (sp_do (SpPoll i) s)"
  "sp_more 0 s (sp_do (SpAlloc i) s)" "sp_more 0 s (sp_do (SpAllocBinary i) s)"
  by (simp_all add: sp_more_def)

lemma checked_range: "checked i k = Inr x \<Longrightarrow> - 2147483648 \<le> i \<and> i \<le> 2147483647"
  by (simp add: checked_def split: if_splits)

lemma sp_retry_more: "sp_retry fuel lib hg hm g n s = Inr (b, t) \<Longrightarrow> sp_more 0 s t"
proof (induction fuel arbitrary: hg hm g n s)
  case 0
  then show ?case by simp
next
  case (Suc fuel)
  have ok: "- 2147483648 \<le> g * int MAX_GROUP_NAME \<and> g * int MAX_GROUP_NAME \<le> 2147483647"
    using checked_range [OF Suc.prems [unfolded sp_retry.simps]] .
  define s1 where "s1 = (if hg then s else sp_do (SpAlloc (g * int MAX_GROUP_NAME)) s)"
  define s2 where "s2 = (if hm then s1 else sp_do (SpAllocBinary n) s1)"
  have s1: "sp_more 0 s s1" and s2: "sp_more 0 s1 s2" by (simp_all add: s1_def s2_def sp_more_def)
  obtain r u where u: "sp_do_receive lib (sp_mbox s2) g n s2 = (r, u)" by (metis surj_pair)
  have u2: "sp_more 0 s u" using sp_more_zero(1) s1 s2 sp_do_receive_more [OF u] by blast
  have run: "(if \<not> hg \<and> \<not> sp_got lib s1 then Inr (False, s1)
     else if \<not> hm \<and> \<not> sp_got lib s2 then Inr (False, sp_do SpCFree s2)
     else case r of
        SpGot m \<Rightarrow> andthen (my_reply_xtra_xret_receive lib m u) (\<lambda>_ s. Inr (True, sp_do SpFree s))
      | SpError ret groups endian \<Rightarrow>
          if ret = sp_GROUPS_TOO_SHORT lib then sp_retry fuel lib False True (- groups) n (sp_do SpFree u)
          else if ret = sp_BUFFER_TOO_SHORT lib then sp_retry fuel lib True False g (- endian) (sp_do SpFreeBinary u)
          else Inr (False, sp_do SpFreeBinary (sp_do SpFree u))) = Inr (b, t)"
    using Suc.prems unfolding sp_retry.simps checked_def if_P [OF ok] Let_def
      s1_def [symmetric] s2_def [symmetric] u prod.case .
  have again: "sp_more 0 s t" if "sp_retry fuel lib hg hm g n v = Inr (b, t)" "sp_more 0 u v" for hg hm g n v
    using Suc.IH [OF that(1)] that(2) u2 sp_more_zero(1) by blast
  show ?case
  proof (cases r)
    case (SpGot m)
    have "sp_more 0 u v" if "my_reply_xtra_xret_receive lib m u = Inr ((), v)" for v
      using sp_reply_message_more [OF that [unfolded my_reply_xtra_xret_receive_def]] by (simp add: sp_more_def)
    then show ?thesis using run s1 s2 u2 unfolding SpGot
      by (auto simp: sp_more_def andthen_def split: if_splits sum.splits)
  next
    case (SpError ret groups endian)
    then show ?thesis using run s1 s2 u2 again [OF _ sp_more_zero(2)] again [OF _ sp_more_zero(4)]
      by (auto simp: sp_more_def split: if_splits)
  qed
qed

lemma sp_drain_more: "sp_drain fuel lib s = Inr ((), t) \<Longrightarrow> sp_more 0 s t"
proof (induction fuel arbitrary: s)
  case 0
  then show ?case by simp
next
  case (Suc fuel)
  let ?s = "sp_do (SpPoll (sp_mbox s)) s"
  have s: "sp_more 0 s ?s" by (simp add: sp_more_def)
  show ?case
  proof (cases "sp_poll lib (sp_mbox s) (sp_lib s) > 0")
    case False
    then show ?thesis using Suc.prems s by (simp add: Let_def)
  next
    case True
    then obtain more u where u: "sp_retry (Suc fuel) lib False False 64 (sp_poll lib (sp_mbox s) (sp_lib s)) ?s = Inr (more, u)"
      "(if more then sp_drain fuel lib u else Inr ((), u)) = Inr ((), t)"
      using Suc.prems by (auto simp: Let_def andthen_def simp del: sp_retry.simps split: sum.splits prod.splits)
    have su: "sp_more 0 s u" using sp_more_zero(1) [OF s sp_retry_more [OF u(1)]] .
    then show ?thesis using u(2) Suc.IH [of u] sp_more_zero(1) [OF su] by (auto split: if_splits)
  qed
qed

lemma my_ready_input_more:
  assumes "my_ready_input fuel lib s = Inr ((), t)"
  shows "sp_more 0 s t"
proof -
  obtain u where "sp_drain fuel lib u = Inr ((), t)" "sp_more 0 s u"
    using assms unfolding my_ready_input_def Let_def by (auto simp: sp_more_def split: if_splits)
  then show ?thesis using sp_more_zero(1) sp_drain_more by blast
qed

lemma sp_invoke_more: "sp_invoke lib w s = Inr (out, t) \<Longrightarrow> sp_more 0 s t"
  by (cases w) (auto simp: sp_invoke_def sp_more_def Let_def my_set_active_def
      dest: sp_do_receive_more [unfolded sp_more_def] simp del: sp_group_names.simps
      split: prod.splits sum.splits if_splits)

lemma sp_connect_more: "reply_xtra_xret_connect lib ret s = Inr ((), t) \<Longrightarrow> sp_more 1 s t"
  by (auto simp: reply_xtra_xret_connect_def Let_def sp_more_def sp_is_answer_def reply_error_def sp_put_def
      dest!: sp_send_more split: if_splits)

lemma sp_receive_more: "reply_xtra_xret_receive lib r s = Inr ((), t) \<Longrightarrow> sp_more 1 s t"
proof (cases r)
  case (SpGot m)
  assume "reply_xtra_xret_receive lib r s = Inr ((), t)"
  then have "sp_reply_message lib ''ok'' m (\<lambda>s. Inr ((), reply_error (sp_ENOMEM lib) s)) s = Inr ((), t)"
    by (simp add: reply_xtra_xret_receive_def SpGot)
  from sp_reply_message_more [OF this] show ?thesis using sp_replies(2) by auto
next
  case (SpError ret groups endian)
  assume "reply_xtra_xret_receive lib r s = Inr ((), t)"
  then show ?thesis using sp_send_more by (fastforce simp: reply_xtra_xret_receive_def SpError sp_is_answer_def)
qed

lemma sp_answer_more: "sp_answer lib w out s = Inr ((), t) \<Longrightarrow> sp_more 1 s t"
proof (cases out)
  case (OutReceived r)
  assume "sp_answer lib w out s = Inr ((), t)"
  then obtain u where "reply_xtra_xret_receive lib r s = Inr ((), u)" "t = sp_do SpFree u"
    by (auto simp: sp_answer_def OutReceived andthen_def split: sum.splits)
  then show ?thesis using sp_receive_more by (simp add: sp_more_def)
next
  case (OutInt ret)
  assume *: "sp_answer lib w out s = Inr ((), t)"
  then show ?thesis
    by (cases w) (auto simp: sp_answer_def OutInt sp_more_def reply_expected_def reply_ok_num_def reply_error_def
        sp_put_def sp_is_answer_def dest!: sp_connect_more [unfolded sp_more_def] split: if_splits)
qed

lemma spread_ready_more: "spread_ready_async lib job out s = Inr ((), t) \<Longrightarrow> sp_more 1 s t"
  by (auto simp: spread_ready_async_def andthen_def sp_more_def dest!: sp_answer_more split: sum.splits)

text \<open>A command has been answered, or has become a job.\<close>

definition sp_due :: "'l sp_port \<Rightarrow> nat" where
  "sp_due s = sp_answered (sp_log s) + length (sp_jobs s)"

lemma sp_more_due: "sp_more k s t \<Longrightarrow> sp_due t = sp_due s + k"
  by (simp add: sp_more_def sp_due_def)

lemma sp_check_due:
  "sp_check lib args s = Inr (w, t) \<Longrightarrow> sp_due t = sp_due s + (case w of None \<Rightarrow> 1 | Some _ \<Rightarrow> 0)"
  by (cases args) (auto simp: sp_check_def sp_connected_def sp_due_def Let_def andthen_def checked_def
      reply_error_def reply_ok_num_def sp_put_def sp_is_answer_def split: if_splits)

lemma sp_dispatch_due:
  assumes "sp_dispatch lib w refs s = Inr ((), t)"
  shows "sp_due t = sp_due s + 1"
proof (cases "\<not> sp_pipe lib \<and> (\<forall>mbox. w \<noteq> WPoll mbox)")
  case True
  then show ?thesis using assms by (auto simp: sp_dispatch_def sp_due_def)
next
  case False
  then obtain out u where "sp_invoke lib w s = Inr (out, u)"
    "spread_ready_async lib \<lparr>job_work = w, job_refs = refs, job_out = Some out\<rparr> out u = Inr ((), t)"
    using assms by (auto simp: sp_dispatch_def andthen_def split: sum.splits if_splits)
  then show ?thesis using sp_more_due [OF sp_invoke_more] sp_more_due [OF spread_ready_more] by fastforce
qed

definition sp_command_ok :: "iovec \<Rightarrow> bool" where
  "sp_command_ok ev \<longleftrightarrow> 1 < length ev \<and> ev ! 1 \<noteq> []"

lemma spread_outputv_due:
  assumes "spread_outputv lib ev s = Inr ((), t)" "sp_command_ok ev"
  shows "sp_due t = sp_due s + 1"
proof -
  obtain b c where char: "EV_GET_CHAR ev (0, 1) = Inr (Some (b, c))"
    using assms(2) by (cases "ev ! 1") (auto simp: EV_GET_CHAR_def ev_value_def ev_get_def sp_command_ok_def)
  have "ev ! 1 \<in> set ev" using assms(2) by (simp add: sp_command_ok_def)
  then have size: "\<not> length (concat ev) < 1" using assms(2) by (auto simp: sp_command_ok_def)
  define s1 where "s1 = sp_do (SpAlloc (sp_callsize lib)) s"
  have s1: "sp_due s1 = sp_due s" by (simp add: s1_def sp_due_def)
  have refer: "sp_due (sp_refer n s1) = sp_due s1" for n by (simp add: sp_refer_def sp_due_def)
  have run: "(if \<not> sp_got lib s1 then Inr ((), reply_error (sp_ENOMEM lib) s1)
     else case sp_parse lib (sp_debug s1) b ev c of
         Inl e \<Rightarrow> Inl e
       | Inr (ParsedBad refs) \<Rightarrow> Inr ((), reply_error_atom ''badarg'' (sp_do SpFree (sp_refer refs s1)))
       | Inr (Parsed args refs) \<Rightarrow> andthen (sp_check lib args (sp_refer refs s1)) (\<lambda>w s.
           case w of None \<Rightarrow> Inr ((), s) | Some w \<Rightarrow> sp_dispatch lib w refs s)) = Inr ((), t)"
    using assms(1) char unfolding spread_outputv_def if_not_P [OF size] s1_def by (simp add: Let_def)
  have "sp_due t = sp_due s1 + 1" if "sp_check lib args (sp_refer refs s1) = Inr (w, u)"
    "(case w of None \<Rightarrow> Inr ((), u) | Some w \<Rightarrow> sp_dispatch lib w refs u) = Inr ((), t)" for args refs w u
  proof (cases w)
    case None
    then show ?thesis using that sp_check_due [OF that(1)] refer [of refs] by simp
  next
    case (Some v)
    with that(2) have "sp_dispatch lib v refs u = Inr ((), t)" by simp
    from sp_dispatch_due [OF this] show ?thesis using sp_check_due [OF that(1)] refer [of refs] Some by simp
  qed
  moreover have "sp_due (reply_error n s1) = sp_due s1 + 1"
    "sp_due (reply_error_atom a (sp_do SpFree (sp_refer m s1))) = sp_due s1 + 1" for n a m
    using refer [of m] by (simp_all add: sp_more_due [OF sp_replies(2)] sp_more_due [OF sp_replies(3)])
      (simp add: sp_due_def)
  ultimately have "sp_due t = sp_due s1 + 1"
    using run by (auto simp: andthen_def split: if_splits sum.splits sp_parsed.splits)
  then show ?thesis using s1 by simp
qed

definition sp_started :: "'l spread \<Rightarrow> 'l sp_port \<Rightarrow> bool" where
  "sp_started lib s \<longleftrightarrow> (\<exists>l. spread_start lib l [] = Some s)"

definition sp_stepped :: "'l spread \<Rightarrow> nat \<Rightarrow> iovec option \<Rightarrow> 'l sp_port \<Rightarrow> 'l sp_port \<Rightarrow> bool" where
  "sp_stepped lib fuel c s t \<longleftrightarrow> sp_step lib fuel c s t \<and> (\<forall>ev. c = Some ev \<longrightarrow> sp_command_ok ev)"

abbreviation sp_reach :: "'l spread \<Rightarrow> nat \<Rightarrow> nat \<Rightarrow> 'l sp_port \<Rightarrow> bool" where
  "sp_reach lib fuel \<equiv> edtk_reach (sp_started lib) (sp_stepped lib fuel)"

lemma sp_step_due:
  assumes "sp_step lib fuel c s t" "\<And>ev. c = Some ev \<Longrightarrow> sp_command_ok ev"
  shows "sp_due t = sp_due s + (case c of None \<Rightarrow> 0 | Some _ \<Rightarrow> 1)"
  using assms(1)
proof cases
  case (command ev)
  then show ?thesis using spread_outputv_due assms(2) by simp
next
  case (thread i out s')
  then show ?thesis using sp_more_due [OF sp_invoke_more] by (simp add: sp_due_def)
next
  case (ready i out)
  let ?u = "s\<lparr>sp_jobs := take i (sp_jobs s) @ drop (Suc i) (sp_jobs s)\<rparr>"
  have "sp_due t = sp_due ?u + 1" using sp_more_due [OF spread_ready_more] ready by blast
  moreover have "sp_due s = sp_due ?u + 1" using ready by (simp add: sp_due_def)
  ultimately show ?thesis using ready by simp
next
  case input
  then show ?thesis using sp_more_due [OF my_ready_input_more] by fastforce
qed

interpretation spread_server: edtk_server "sp_started lib" "sp_stepped lib fuel" sp_due for lib fuel
proof
  show "sp_due s = 0" if "sp_started lib s" for s
    using that by (auto simp: sp_started_def spread_start_def sp_due_def split: if_splits)
  show "sp_due t = sp_due s + (case c of None \<Rightarrow> 0 | Some _ \<Rightarrow> 1)" if "sp_stepped lib fuel c s t" for c s t
    using that sp_step_due unfolding sp_stepped_def by blast
qed

end
