(* ===== verification/Spread_Limits.thy ===== *)
theory Spread_Limits
  imports Spread_Service
begin

text \<open>
  Where the Spread driver fails its clients: messages for too many groups, and two receives under way at once.
  At the end a small library to evaluate with.
\<close>

section \<open>Running a job\<close>

lemma sp_request_run:
  assumes "sp_work_request w = Inr req"
  shows "\<exists>v. sp_invoke lib w u = Inr (OutInt (fst (sp_request lib req (sp_lib u))), v) \<and>
    sp_lib v = snd (sp_request lib req (sp_lib u)) \<and> sp_log v = SpRequest req # sp_log u"
  using assms
  by (cases w) (auto simp: sp_invoke_def Let_def simp del: sp_group_names.simps split: if_splits prod.splits sum.splits)

lemma sp_receive_run:
  assumes "sp_invoke lib (WReceive mb g n) s = Inr (OutReceived (SpGot m), t)"
  shows "sp_sender t = sm_sender m" "sp_outputs (sp_log t) = sp_outputs (sp_log s)"
  using assms by (auto simp: sp_invoke_def sp_do_receive_def Let_def split: prod.splits sp_received.splits)

section \<open>Two receives\<close>

text \<open>Whichever message is answered, it carries the sender of the message received last.\<close>

lemma sp_receives_mixed:
  assumes "sp_invoke lib (WReceive mb g n) s = Inr (OutReceived (SpGot m1), s1)"
    and "sp_invoke lib (WReceive mb' g' n') s1 = Inr (OutReceived (SpGot m2), s2)"
    and "sp_allocs lib" "length (sm_groups m1) \<le> 9"
  shows "\<exists>t. sp_answer lib (WReceive mb g n) (OutReceived (SpGot m1)) s2 = Inr ((), t) \<and>
    sp_outputs (sp_log t) =
      sp_outputs (sp_log s) @ [sp_message_items ''ok'' (m1\<lparr>sm_sender := sm_sender m2\<rparr>)]"
proof -
  obtain t where "sp_reply_message lib ''ok'' m1 (\<lambda>s. Inr ((), reply_error (sp_ENOMEM lib) s)) s2 = Inr ((), t)"
    "sp_outputs (sp_log t) = sp_outputs (sp_log s2) @ [sp_message_items ''ok'' (m1\<lparr>sm_sender := sp_sender s2\<rparr>)]"
    using sp_reply_message_ok [OF assms(3,4), of "''ok''" "\<lambda>s. Inr ((), reply_error (sp_ENOMEM lib) s)" s2] by blast
  then show ?thesis using sp_receive_run [OF assms(1)] sp_receive_run [OF assms(2)]
    by (simp add: sp_answer_def reply_xtra_xret_receive_def andthen_def)
qed

section \<open>Messages for many groups\<close>

lemma sp_retry_many_now:
  assumes "sp_serves lib (sp_mbox s) pending" "pending (sp_lib s) = m # ms" "sp_allocs lib"
    and "9 < length (sm_groups m)" "length (sm_groups m) \<le> 64" "int (length (sm_mess m)) \<le> n"
  shows "sp_retry (Suc f) lib hg hm 64 n s = Inl OutOfBounds"
proof -
  let ?s = "sp_prepared hg hm n s"
  obtain r u where u: "sp_do_receive lib (sp_mbox s) 64 n ?s = (r, u)" by (cases "sp_do_receive lib (sp_mbox s) 64 n ?s")
  have "sp_gives lib pending m ms 64 n r (sp_lib u)"
    using sp_served(1) [where s = ?s, OF _ _ u [folded sp_prepared_simps(1) [of hg hm n s]]] assms(1,2) by simp
  then have "r = SpGot m" using assms(5,6) by (simp add: sp_gives_def)
  then show ?thesis using sp_retry_step [OF assms(3) u]
    by (simp add: sp_reply_message_overflow [OF assms(3,4)] my_reply_xtra_xret_receive_def andthen_def
        del: sp_retry.simps)
qed

lemma sp_retry_many:
  assumes "sp_serves lib (sp_mbox s) pending" "pending (sp_lib s) = m # ms" "sp_allocs lib"
    and "9 < length (sm_groups m)" "length (sm_groups m) \<le> 64"
  shows "sp_retry (Suc (Suc f)) lib False False 64 n s = Inl OutOfBounds"
proof (cases "int (length (sm_mess m)) \<le> n")
  case True
  from sp_retry_many_now [OF assms this] show ?thesis .
next
  case False
  let ?s = "sp_prepared False False n s"
  obtain r u where u: "sp_do_receive lib (sp_mbox s) 64 n ?s = (r, u)" by (cases "sp_do_receive lib (sp_mbox s) 64 n ?s")
  have served: "sp_gives lib pending m ms 64 n r (sp_lib u)"
    "u = ?s\<lparr>sp_log := SpReceive (sp_mbox s) 64 n # sp_log ?s, sp_lib := sp_lib u,
       sp_sender := (case r of SpGot m \<Rightarrow> sm_sender m | _ \<Rightarrow> sp_sender ?s)\<rparr>"
    using sp_served [where s = ?s, OF _ _ u [folded sp_prepared_simps(1) [of False False n s]]] assms(1,2) by simp_all
  then obtain k where r: "r = SpError (sp_BUFFER_TOO_SHORT lib) k (- int (length (sm_mess m)))"
    "pending (sp_lib u) = m # ms" using assms(5) False by (auto simp: sp_gives_def)
  have mbox: "sp_mbox u = sp_mbox s" by (subst served(2), simp)
  let ?u = "sp_do SpFreeBinary u"
  have "sp_retry (Suc (Suc f)) lib False False 64 n s = sp_retry (Suc f) lib True False 64 (int (length (sm_mess m))) ?u"
    using sp_retry_step [OF assms(3) u] r(1) sp_servesD(3) [OF assms(1)] by (simp del: sp_retry.simps)
  moreover have "sp_serves lib (sp_mbox ?u) pending" "pending (sp_lib ?u) = m # ms"
    using assms(1) mbox r by simp_all
  note sp_retry_many_now [OF this assms(3-5) order_refl]
  ultimately show ?thesis by (simp del: sp_retry.simps)
qed

lemma my_ready_input_alive:
  "sp_alive lib (SpRead (sp_mbox s) # sp_log s) \<Longrightarrow>
   my_ready_input fuel lib s = sp_drain fuel lib (sp_do (SpRead (sp_mbox s)) s)"
  by (simp add: my_ready_input_def Let_def)

lemma my_ready_input_many:
  assumes "sp_serves lib (sp_mbox s) pending" "pending (sp_lib s) = m # ms" "sp_allocs lib"
    and "9 < length (sm_groups m)" "length (sm_groups m) \<le> 64" "2 \<le> fuel"
    and "sp_alive lib (SpRead (sp_mbox s) # sp_log s)"
  shows "my_ready_input fuel lib s = Inl OutOfBounds"
proof -
  obtain f where f: "fuel = Suc (Suc f)" using assms(6) by (cases fuel; cases "fuel - 1") auto
  let ?n = "sp_poll lib (sp_mbox s) (sp_lib s)"
  let ?s = "sp_do (SpPoll (sp_mbox s)) (sp_do (SpRead (sp_mbox s)) s)"
  have "sp_retry (Suc (Suc f)) lib False False 64 ?n ?s = Inl OutOfBounds"
    by (rule sp_retry_many [where pending = pending and ms = ms, OF _ _ assms(3-5)]) (use assms(1,2) in simp_all)
  then show ?thesis using sp_servesD(2) [OF assms(1,2)] unfolding my_ready_input_alive [OF assms(7)] f sp_drain.simps
    by (simp add: Let_def andthen_def del: sp_retry.simps sp_drain.simps)
qed

lemma my_ready_input_ok:
  assumes "sp_serves lib (sp_mbox s) pending" "sp_allocs lib"
    and "\<forall>m \<in> set (pending (sp_lib s)). length (sm_groups m) \<le> 9" "length (pending (sp_lib s)) + 2 \<le> fuel"
    and "sp_alive lib (SpRead (sp_mbox s) # sp_log s)"
  shows "\<exists>t. my_ready_input fuel lib s = Inr ((), t) \<and> pending (sp_lib t) = [] \<and>
    sp_delivered (pending (sp_lib s)) s t"
proof -
  let ?s = "sp_do (SpRead (sp_mbox s)) s"
  have "\<exists>t. sp_drain fuel lib ?s = Inr ((), t) \<and> pending (sp_lib t) = [] \<and> sp_delivered (pending (sp_lib s)) ?s t"
    by (rule sp_drain_ok) (use assms in simp_all)
  then show ?thesis unfolding my_ready_input_alive [OF assms(5)] by (simp add: sp_delivered_def)
qed

section \<open>A small library\<close>

text \<open>Its state is the messages that wait; \<^verbatim>\<open>SP_poll\<close> never tells of more than one byte.\<close>

definition demo_spread :: "sp_message list spread" where
  "demo_spread = \<lparr>
     sp_poll = \<lambda>_ l. case l of [] \<Rightarrow> 0 | m # _ \<Rightarrow> 1,
     sp_receive = \<lambda>_ g n l. (case l of
         [] \<Rightarrow> (SpError (-1) 0 0, [])
       | m # ms \<Rightarrow>
           if g < int (length (sm_groups m)) then (SpError (-16) (- int (length (sm_groups m))) 0, l)
           else if n < int (length (sm_mess m)) then (SpError (-15) 0 (- int (length (sm_mess m))), l)
           else (SpGot m, ms)),
     sp_request = \<lambda>_ l. (0, l),
     sp_opened = \<lambda>_. (5, [35]),
     sp_alive = \<lambda>_. True,
     sp_alloc = \<lambda>_. True,
     sp_GROUPS_TOO_SHORT = -16,
     sp_BUFFER_TOO_SHORT = -15,
     sp_ACCEPT_SESSION = 1,
     sp_ILLEGAL_SESSION = -11,
     sp_EINVAL = 22,
     sp_ENOMEM = 12,
     sp_pipe = False,
     sp_unset = 0,
     sp_callsize = 200\<rparr>"

definition demo_mail :: "byte list \<Rightarrow> byte list \<Rightarrow> sp_message" where
  "demo_mail from' bs = \<lparr>sm_service = 2, sm_sender = from', sm_groups = [[103]], sm_type = 7, sm_endian = 0, sm_mess = bs\<rparr>"

definition demo_sp_port :: "sp_message list \<Rightarrow> sp_message list sp_port" where
  "demo_sp_port l = \<lparr>sp_log = [SpAlloc 200], sp_lib = l, sp_mbox_init = True, sp_mbox = 5, sp_private_group = [35],
     sp_sender = [], sp_active = True, sp_debug = 0, sp_jobs = []\<rparr>"

lemma demo_spread_simps [simp]:
  "sp_pipe demo_spread = False" "sp_callsize demo_spread = 200" "sp_unset demo_spread = 0"
  "sp_alive demo_spread h" "sp_alloc demo_spread h" "sp_request demo_spread r l = (0, l)"
  by (simp_all add: demo_spread_def)

lemma demo_spread_serves: "sp_serves demo_spread mbox (\<lambda>l. l)"
  by (auto simp: sp_serves_def demo_spread_def sp_gives_def split: list.split)

lemma demo_spread_allocs: "sp_allocs demo_spread"
  by (simp add: sp_allocs_def)

end
