(* ===== verification/Gd.thy ===== *)
theory Gd
  imports Edtk_Command
begin

text \<open>
  The driver for the graphics library gd (\<^verbatim>\<open>gd1_drv/c_src/gd1_drv.c\<close>), made with the Erlang driver toolkit.  Its 63
  commands differ in the arguments they read, the function they call and what they answer; these are the
  tables of this theory, one row for each command, in the order of the commands.  The rows are as
  \<^verbatim>\<open>_outputv\<close>, the \<^verbatim>\<open>invoke__\<close> functions and \<^verbatim>\<open>_ready_async\<close> have them.
\<close>

section \<open>Arguments\<close>

text \<open>The driver has three value maps: images, files and fonts.\<close>

abbreviation KImage :: tk_kind where "KImage \<equiv> KMap 0"
abbreviation KFile :: tk_kind where "KFile \<equiv> KMap 1"
abbreviation KFont :: tk_kind where "KFont \<equiv> KMap 2"

definition gd_args_create :: "tk_kind list list" where
  "gd_args_create = [
     [KInt, KInt],   \<comment> \<open>gdImageCreate\<close>
     [KBytes],   \<comment> \<open>gdImageCreateFromJpeg\<close>
     [KBytes],   \<comment> \<open>gdImageCreateFromPng\<close>
     [KBytes],   \<comment> \<open>gdImageCreateFromGd\<close>
     [KBytes],   \<comment> \<open>gdImageCreateFromGd2\<close>
     [KBytes, KInt, KInt, KInt, KInt],   \<comment> \<open>gdImageCreateFromGd2Part\<close>
     [KBytes]]"   \<comment> \<open>gdImageCreateFromXpm\<close>

definition gd_args_color :: "tk_kind list list" where
  "gd_args_color = [
     [KImage, KInt, KInt, KInt],   \<comment> \<open>gdImageColorAllocate\<close>
     [KImage, KInt, KInt, KInt],   \<comment> \<open>gdImageColorClosest\<close>
     [KImage, KInt, KInt, KInt],   \<comment> \<open>gdImageColorExact\<close>
     [KImage, KInt, KInt, KInt],   \<comment> \<open>gdImageColorResolve\<close>
     [KImage],   \<comment> \<open>gdImageColorsTotal\<close>
     [KImage],   \<comment> \<open>gdImageGetInterlaced\<close>
     [KImage]]"   \<comment> \<open>gdImageGetTransparent\<close>

definition gd_args_draw :: "tk_kind list list" where
  "gd_args_draw = [
     [KImage, KInt],   \<comment> \<open>gdImageColorDeallocate\<close>
     [KImage, KInt],   \<comment> \<open>gdImageColorTransparent\<close>
     [KImage, KInt, KInt, KInt],   \<comment> \<open>gdImageSetPixel\<close>
     [KImage, KInt, KInt, KInt, KInt, KInt],   \<comment> \<open>gdImageLine\<close>
     [KImage, KBytes, KInt, KInt]]"   \<comment> \<open>gdImagePolygon\<close>

definition gd_args_fill :: "tk_kind list list" where
  "gd_args_fill = [
     [KImage, KBytes, KInt, KInt],   \<comment> \<open>gdImageFilledPolygon\<close>
     [KImage, KInt, KInt, KInt, KInt, KInt],   \<comment> \<open>gdImageRectangle\<close>
     [KImage, KInt, KInt, KInt, KInt, KInt],   \<comment> \<open>gdImageFilledRectangle\<close>
     [KImage, KInt, KInt, KInt, KInt, KInt, KInt, KInt],   \<comment> \<open>gdImageArc\<close>
     [KImage, KInt, KInt, KInt, KInt],   \<comment> \<open>gdImageFillToBorder\<close>
     [KImage, KInt, KInt, KInt]]"   \<comment> \<open>gdImageFill\<close>

definition gd_args_style :: "tk_kind list list" where
  "gd_args_style = [
     [KImage, KImage],   \<comment> \<open>gdImageSetBrush\<close>
     [KImage, KImage],   \<comment> \<open>gdImageSetTile\<close>
     [KImage, KBytes, KInt],   \<comment> \<open>gdImageSetStyle\<close>
     [KImage, KInt, KInt]]"   \<comment> \<open>gdImageGetPixel\<close>

definition gd_args_query :: "tk_kind list list" where
  "gd_args_query = [
     [KImage, KInt],   \<comment> \<open>gdImageRed\<close>
     [KImage, KInt],   \<comment> \<open>gdImageGreen\<close>
     [KImage, KInt],   \<comment> \<open>gdImageBlue\<close>
     [KImage, KInt, KInt],   \<comment> \<open>gdImageBoundsSafe\<close>
     [KImage],   \<comment> \<open>gdImageSX\<close>
     [KImage]]"   \<comment> \<open>gdImageSY\<close>

definition gd_args_write :: "tk_kind list list" where
  "gd_args_write = [
     [KImage, KBytes],   \<comment> \<open>gdImagePng\<close>
     [KImage],   \<comment> \<open>gdImagePngPtr\<close>
     [KImage],   \<comment> \<open>gdImagePngPtr_QQQ_deleteme\<close>
     [KImage, KBytes, KInt],   \<comment> \<open>gdImageJpeg\<close>
     [KImage, KInt],   \<comment> \<open>gdImageJpegPtr\<close>
     [KImage, KInt, KBytes],   \<comment> \<open>gdImageWBMP\<close>
     [KImage, KInt]]"   \<comment> \<open>gdImageWBMPPtr\<close>

definition gd_args_files :: "tk_kind list list" where
  "gd_args_files = [
     [KImage, KBytes],   \<comment> \<open>gdImageGd\<close>
     [KImage],   \<comment> \<open>gdImageGdPtr\<close>
     [KImage, KBytes, KInt, KInt],   \<comment> \<open>gdImageGd2\<close>
     [KImage, KInt, KInt],   \<comment> \<open>gdImageGd2Ptr\<close>
     [KBytes, KBytes],   \<comment> \<open>fopen\<close>
     [KFile]]"   \<comment> \<open>fclose\<close>

definition gd_args_text :: "tk_kind list list" where
  "gd_args_text = [
     [KImage, KFile],   \<comment> \<open>gdImagePngFILE\<close>
     [KImage, KFile, KInt],   \<comment> \<open>gdImageJpegFILE\<close>
     [KImage],   \<comment> \<open>gdImageDestroy\<close>
     [KInt],   \<comment> \<open>getFontPtr\<close>
     [KImage, KFont, KInt, KInt, KInt, KInt],   \<comment> \<open>gdImageChar\<close>
     [KImage, KFont, KInt, KInt, KInt, KInt]]"   \<comment> \<open>gdImageCharUp\<close>

definition gd_args_strings :: "tk_kind list list" where
  "gd_args_strings = [
     [KImage, KFont, KInt, KInt, KBytes, KInt],   \<comment> \<open>gdImageString\<close>
     [KImage, KFont, KInt, KInt, KBytes, KInt],   \<comment> \<open>gdImageStringUp\<close>
     [KImage, KImage, KInt, KInt, KInt, KInt, KInt, KInt]]"   \<comment> \<open>gdImageCopy\<close>

definition gd_args_merge :: "tk_kind list list" where
  "gd_args_merge = [
     [KImage, KImage, KInt, KInt, KInt, KInt, KInt, KInt, KInt, KInt],   \<comment> \<open>gdImageCopyResized\<close>
     [KImage, KImage, KInt, KInt, KInt, KInt, KInt, KInt, KInt],   \<comment> \<open>gdImageCopyMerge\<close>
     [KImage, KImage, KInt, KInt, KInt, KInt, KInt, KInt, KInt]]"   \<comment> \<open>gdImageCopyMergeGray\<close>

definition gd_args_palette :: "tk_kind list list" where
  "gd_args_palette = [
     [KImage, KImage],   \<comment> \<open>gdImagePaletteCopy\<close>
     [KImage, KImage],   \<comment> \<open>gdImageCompare\<close>
     [KImage, KInt]]"   \<comment> \<open>gdImageInterlace\<close>

definition gd_kinds :: "tk_kind list list" where
  "gd_kinds = gd_args_create @ gd_args_color @ gd_args_draw @ gd_args_fill @ gd_args_style @ gd_args_query @
     gd_args_write @ gd_args_files @ gd_args_text @ gd_args_strings @ gd_args_merge @ gd_args_palette"

section \<open>Calls\<close>

text \<open>
  A function of the library with the arguments in the order they are read, or one of \<^verbatim>\<open>my-gd1.c\<close> that stands
  before it: \<open>GdCreate\<close> for those that open a file and read it, \<open>GdWrite\<close> for those that open a file and write it.
\<close>

datatype gd_fun = Gd string | GdCreate string | GdWrite string | GdPolygon string | GdStyle string | GdFont

text \<open>What a function returns.\<close>

datatype gd_result = RPtr | RInt | RData | RVoid

text \<open>When a call has done as expected, and otherwise the number of the error.\<close>

datatype gd_errval = ErrConst int | ErrStatus | ErrRet | ErrErrno
datatype gd_expect = EAlways | ENotNull gd_errval | ENonneg gd_errval | EZero gd_errval

definition gd_calls_create :: "(gd_fun \<times> gd_result \<times> gd_expect) list" where
  "gd_calls_create = [
     (Gd ''gdImageCreate'', RPtr, ENotNull (ErrConst 0)),
     (GdCreate ''gdImageCreateFromJpeg'', RPtr, ENotNull ErrStatus),
     (GdCreate ''gdImageCreateFromPng'', RPtr, ENotNull ErrStatus),
     (GdCreate ''gdImageCreateFromGd'', RPtr, ENotNull ErrStatus),
     (GdCreate ''gdImageCreateFromGd2'', RPtr, ENotNull ErrStatus),
     (GdCreate ''gdImageCreateFromGd2Part'', RPtr, ENotNull ErrStatus)]"

definition gd_calls_color :: "(gd_fun \<times> gd_result \<times> gd_expect) list" where
  "gd_calls_color = [
     (GdCreate ''gdImageCreateFromXpm'', RPtr, ENotNull ErrStatus),
     (Gd ''gdImageColorAllocate'', RInt, ENonneg (ErrConst (-1))),
     (Gd ''gdImageColorClosest'', RInt, ENonneg (ErrConst (-1))),
     (Gd ''gdImageColorExact'', RInt, ENonneg (ErrConst (-1))),
     (Gd ''gdImageColorResolve'', RInt, ENonneg (ErrConst (-1))),
     (Gd ''gdImageColorsTotal'', RInt, ENonneg (ErrConst (-1)))]"

definition gd_calls_draw :: "(gd_fun \<times> gd_result \<times> gd_expect) list" where
  "gd_calls_draw = [
     (Gd ''gdImageGetInterlaced'', RInt, ENonneg (ErrConst (-1))),
     (Gd ''gdImageGetTransparent'', RInt, ENonneg (ErrConst (-1))),
     (Gd ''gdImageColorDeallocate'', RVoid, EAlways),
     (Gd ''gdImageColorTransparent'', RVoid, EAlways),
     (Gd ''gdImageSetPixel'', RVoid, EAlways),
     (Gd ''gdImageLine'', RVoid, EAlways)]"

definition gd_calls_fill :: "(gd_fun \<times> gd_result \<times> gd_expect) list" where
  "gd_calls_fill = [
     (GdPolygon ''gdImagePolygon'', RInt, EZero (ErrConst (-1))),
     (GdPolygon ''gdImageFilledPolygon'', RInt, EZero (ErrConst (-1))),
     (Gd ''gdImageRectangle'', RVoid, EAlways),
     (Gd ''gdImageFilledRectangle'', RVoid, EAlways),
     (Gd ''gdImageArc'', RVoid, EAlways)]"

definition gd_calls_style :: "(gd_fun \<times> gd_result \<times> gd_expect) list" where
  "gd_calls_style = [
     (Gd ''gdImageFillToBorder'', RVoid, EAlways),
     (Gd ''gdImageFill'', RVoid, EAlways),
     (Gd ''gdImageSetBrush'', RVoid, EAlways),
     (Gd ''gdImageSetTile'', RVoid, EAlways),
     (GdStyle ''gdImageSetStyle'', RInt, EZero (ErrConst (-1))),
     (Gd ''gdImageGetPixel'', RInt, EAlways),
     (Gd ''gdImageRed'', RInt, EAlways),
     (Gd ''gdImageGreen'', RInt, EAlways)]"

definition gd_calls_query :: "(gd_fun \<times> gd_result \<times> gd_expect) list" where
  "gd_calls_query = [
     (Gd ''gdImageBlue'', RInt, EAlways),
     (Gd ''gdImageBoundsSafe'', RInt, EAlways),
     (Gd ''gdImageSX'', RInt, EAlways),
     (Gd ''gdImageSY'', RInt, EAlways),
     (GdWrite ''gdImagePng'', RInt, EZero ErrRet),
     (Gd ''gdImagePngPtr'', RData, ENotNull (ErrConst (-1)))]"

definition gd_calls_write :: "(gd_fun \<times> gd_result \<times> gd_expect) list" where
  "gd_calls_write = [
     (Gd ''gdImagePngPtr'', RData, ENotNull (ErrConst (-1))),
     (GdWrite ''gdImageJpeg'', RInt, EZero ErrRet),
     (Gd ''gdImageJpegPtr'', RData, ENotNull (ErrConst (-1))),
     (GdWrite ''gdImageWBMP'', RInt, EZero ErrRet),
     (Gd ''gdImageWBMPPtr'', RData, ENotNull (ErrConst (-1)))]"

definition gd_calls_files :: "(gd_fun \<times> gd_result \<times> gd_expect) list" where
  "gd_calls_files = [
     (GdWrite ''gdImageGd'', RInt, EZero ErrRet),
     (Gd ''gdImageGdPtr'', RData, ENotNull (ErrConst (-1))),
     (GdWrite ''gdImageGd2'', RInt, EZero ErrRet),
     (Gd ''gdImageGd2Ptr'', RData, ENotNull (ErrConst (-1)))]"

definition gd_calls_close :: "(gd_fun \<times> gd_result \<times> gd_expect) list" where
  "gd_calls_close = [
     (Gd ''fopen'', RPtr, ENotNull ErrErrno),
     (Gd ''fclose'', RInt, EZero ErrErrno),
     (Gd ''gdImagePng'', RVoid, EAlways),
     (Gd ''gdImageJpeg'', RVoid, EAlways),
     (Gd ''gdImageDestroy'', RVoid, EAlways)]"

definition gd_calls_text :: "(gd_fun \<times> gd_result \<times> gd_expect) list" where
  "gd_calls_text = [
     (GdFont, RPtr, ENotNull (ErrConst 0)),
     (Gd ''gdImageChar'', RVoid, EAlways),
     (Gd ''gdImageCharUp'', RVoid, EAlways),
     (Gd ''gdImageString'', RVoid, EAlways),
     (Gd ''gdImageStringUp'', RVoid, EAlways),
     (Gd ''gdImageCopy'', RVoid, EAlways)]"

definition gd_calls_copy :: "(gd_fun \<times> gd_result \<times> gd_expect) list" where
  "gd_calls_copy = [
     (Gd ''gdImageCopyResized'', RVoid, EAlways),
     (Gd ''gdImageCopyMerge'', RVoid, EAlways),
     (Gd ''gdImageCopyMergeGray'', RVoid, EAlways),
     (Gd ''gdImagePaletteCopy'', RVoid, EAlways),
     (Gd ''gdImageCompare'', RInt, EAlways),
     (Gd ''gdImageInterlace'', RVoid, EAlways)]"

definition gd_calls :: "(gd_fun \<times> gd_result \<times> gd_expect) list" where
  "gd_calls = gd_calls_create @ gd_calls_color @ gd_calls_draw @ gd_calls_fill @ gd_calls_style @ gd_calls_query @
     gd_calls_write @ gd_calls_files @ gd_calls_close @ gd_calls_text @ gd_calls_copy"

section \<open>Answers\<close>

text \<open>
  \<open>ReplyNew m\<close> enters the pointer into map \<open>m\<close>; \<open>ReplyClose\<close> and \<open>ReplyDestroy\<close> take the file or image out of its
  map; \<open>ReplyNumAlways\<close> does not look whether the call has done as expected.
\<close>

datatype gd_reply =
    ReplyNew nat | ReplyNum | ReplyNumAlways | ReplyOk | ReplyBinary | ReplyXtra | ReplyClose | ReplyDestroy

definition gd_replies_create :: "gd_reply list" where
  "gd_replies_create = [
     ReplyNew 0,   \<comment> \<open>gdImageCreate\<close>
     ReplyNew 0,   \<comment> \<open>gdImageCreateFromJpeg\<close>
     ReplyNew 0,   \<comment> \<open>gdImageCreateFromPng\<close>
     ReplyNew 0,   \<comment> \<open>gdImageCreateFromGd\<close>
     ReplyNew 0,   \<comment> \<open>gdImageCreateFromGd2\<close>
     ReplyNew 0,   \<comment> \<open>gdImageCreateFromGd2Part\<close>
     ReplyNew 0]"   \<comment> \<open>gdImageCreateFromXpm\<close>

definition gd_replies_color :: "gd_reply list" where
  "gd_replies_color = [
     ReplyNum,   \<comment> \<open>gdImageColorAllocate\<close>
     ReplyNum,   \<comment> \<open>gdImageColorClosest\<close>
     ReplyNum,   \<comment> \<open>gdImageColorExact\<close>
     ReplyNum,   \<comment> \<open>gdImageColorResolve\<close>
     ReplyNum,   \<comment> \<open>gdImageColorsTotal\<close>
     ReplyNum,   \<comment> \<open>gdImageGetInterlaced\<close>
     ReplyNum,   \<comment> \<open>gdImageGetTransparent\<close>
     ReplyOk,   \<comment> \<open>gdImageColorDeallocate\<close>
     ReplyOk,   \<comment> \<open>gdImageColorTransparent\<close>
     ReplyOk,   \<comment> \<open>gdImageSetPixel\<close>
     ReplyOk,   \<comment> \<open>gdImageLine\<close>
     ReplyNum,   \<comment> \<open>gdImagePolygon\<close>
     ReplyNum]"   \<comment> \<open>gdImageFilledPolygon\<close>

definition gd_replies_draw :: "gd_reply list" where
  "gd_replies_draw = [
     ReplyOk,   \<comment> \<open>gdImageRectangle\<close>
     ReplyOk,   \<comment> \<open>gdImageFilledRectangle\<close>
     ReplyOk,   \<comment> \<open>gdImageArc\<close>
     ReplyOk,   \<comment> \<open>gdImageFillToBorder\<close>
     ReplyOk,   \<comment> \<open>gdImageFill\<close>
     ReplyOk,   \<comment> \<open>gdImageSetBrush\<close>
     ReplyOk,   \<comment> \<open>gdImageSetTile\<close>
     ReplyNum,   \<comment> \<open>gdImageSetStyle\<close>
     ReplyNumAlways,   \<comment> \<open>gdImageGetPixel\<close>
     ReplyNumAlways,   \<comment> \<open>gdImageRed\<close>
     ReplyNumAlways,   \<comment> \<open>gdImageGreen\<close>
     ReplyNumAlways,   \<comment> \<open>gdImageBlue\<close>
     ReplyNumAlways,   \<comment> \<open>gdImageBoundsSafe\<close>
     ReplyNumAlways,   \<comment> \<open>gdImageSX\<close>
     ReplyNumAlways,   \<comment> \<open>gdImageSY\<close>
     ReplyNum]"   \<comment> \<open>gdImagePng\<close>

definition gd_replies_data :: "gd_reply list" where
  "gd_replies_data = [
     ReplyBinary,   \<comment> \<open>gdImagePngPtr\<close>
     ReplyXtra,   \<comment> \<open>gdImagePngPtr_QQQ_deleteme\<close>
     ReplyNum,   \<comment> \<open>gdImageJpeg\<close>
     ReplyBinary,   \<comment> \<open>gdImageJpegPtr\<close>
     ReplyNum,   \<comment> \<open>gdImageWBMP\<close>
     ReplyBinary,   \<comment> \<open>gdImageWBMPPtr\<close>
     ReplyNum,   \<comment> \<open>gdImageGd\<close>
     ReplyBinary,   \<comment> \<open>gdImageGdPtr\<close>
     ReplyNum,   \<comment> \<open>gdImageGd2\<close>
     ReplyBinary]"   \<comment> \<open>gdImageGd2Ptr\<close>

definition gd_replies_files :: "gd_reply list" where
  "gd_replies_files = [
     ReplyNew 1,   \<comment> \<open>fopen\<close>
     ReplyClose,   \<comment> \<open>fclose\<close>
     ReplyOk,   \<comment> \<open>gdImagePngFILE\<close>
     ReplyOk,   \<comment> \<open>gdImageJpegFILE\<close>
     ReplyDestroy,   \<comment> \<open>gdImageDestroy\<close>
     ReplyNew 2,   \<comment> \<open>getFontPtr\<close>
     ReplyOk,   \<comment> \<open>gdImageChar\<close>
     ReplyOk,   \<comment> \<open>gdImageCharUp\<close>
     ReplyOk,   \<comment> \<open>gdImageString\<close>
     ReplyOk,   \<comment> \<open>gdImageStringUp\<close>
     ReplyOk,   \<comment> \<open>gdImageCopy\<close>
     ReplyOk,   \<comment> \<open>gdImageCopyResized\<close>
     ReplyOk,   \<comment> \<open>gdImageCopyMerge\<close>
     ReplyOk,   \<comment> \<open>gdImageCopyMergeGray\<close>
     ReplyOk,   \<comment> \<open>gdImagePaletteCopy\<close>
     ReplyNumAlways,   \<comment> \<open>gdImageCompare\<close>
     ReplyOk]"   \<comment> \<open>gdImageInterlace\<close>

definition gd_replies :: "gd_reply list" where
  "gd_replies = gd_replies_create @ gd_replies_color @ gd_replies_draw @ gd_replies_data @ gd_replies_files"

section \<open>The tables together\<close>

text \<open>
  What the answers rely on: only the two commands that take something out of a map call a function that
  releases it, and with what is taken out; and what enters a map has just been made.
\<close>

definition gd_releases :: "string \<Rightarrow> bool" where
  "gd_releases f \<longleftrightarrow> f = ''gdImageDestroy'' \<or> f = ''fclose''"

fun gd_row_ok :: "tk_kind list \<Rightarrow> gd_fun \<times> gd_result \<times> gd_expect \<Rightarrow> gd_reply \<Rightarrow> bool" where
  "gd_row_ok ks (fn, res, ex) (ReplyNew m) =
     (if m = 2 then fn = GdFont
      else m < 2 \<and> (case fn of Gd f \<Rightarrow> res = RPtr \<and> \<not> gd_releases f | GdCreate f \<Rightarrow> \<not> gd_releases f \<and> ks \<noteq> [] | _ \<Rightarrow> False))"
| "gd_row_ok ks (fn, res, ex) ReplyClose = (ks = [KFile] \<and> fn = Gd ''fclose'' \<and> res = RInt \<and> ex = EZero ErrErrno)"
| "gd_row_ok ks (fn, res, ex) ReplyDestroy = (ks = [KImage] \<and> fn = Gd ''gdImageDestroy'' \<and> res = RVoid)"
| "gd_row_ok ks (fn, res, ex) rep =
     (case fn of Gd f \<Rightarrow> \<not> gd_releases f | GdWrite f \<Rightarrow> \<not> gd_releases f
      | GdPolygon f \<Rightarrow> \<not> gd_releases f \<and> ks \<noteq> [] \<and> hd ks = KImage
      | GdStyle f \<Rightarrow> \<not> gd_releases f \<and> ks \<noteq> [] \<and> hd ks = KImage | _ \<Rightarrow> False)"

lemma gd_tables_length: "length gd_kinds = 63" "length gd_calls = 63" "length gd_replies = 63"
  by code_simp+

lemma gd_rows_check:
  "list_all (\<lambda>(ks, call, rep). gd_row_ok ks call rep \<and> list_all (\<lambda>k. case k of KMap m \<Rightarrow> m < 3 | _ \<Rightarrow> True) ks)
     (zip gd_kinds (zip gd_calls gd_replies))"
  by code_simp

lemma gd_rows:
  assumes "i < 63"
  shows "gd_row_ok (gd_kinds ! i) (gd_calls ! i) (gd_replies ! i)" "KMap m \<in> set (gd_kinds ! i) \<Longrightarrow> m < 3"
proof -
  have "(\<lambda>(ks, call, rep). gd_row_ok ks call rep \<and> list_all (\<lambda>k. case k of KMap m \<Rightarrow> m < 3 | _ \<Rightarrow> True) ks)
      (zip gd_kinds (zip gd_calls gd_replies) ! i)"
    using gd_rows_check assms gd_tables_length unfolding list_all_length by simp
  then show "gd_row_ok (gd_kinds ! i) (gd_calls ! i) (gd_replies ! i)" "KMap m \<in> set (gd_kinds ! i) \<Longrightarrow> m < 3"
    using assms gd_tables_length by (auto simp: list_all_iff)
qed

end
