(* ===== verification/Gd_Driver.thy ===== *)
theory Gd_Driver
  imports Gd
begin

text \<open>
  The gd driver itself: its descriptor with the value maps, the functions of \<^verbatim>\<open>my-gd1.c\<close>, making a call,
  the answers and the entry points.  The library is the parameter \<open>gd\<close>; pointers are numbers.
\<close>

section \<open>Library, log and descriptor\<close>

text \<open>Fonts are constants of the library, they are neither made nor released.\<close>

datatype gd_value =
    VInt int | VPtr nat | VFont nat | VString "byte list" | VPoints "(int \<times> int) list" | VInts "int list"

text \<open>A pointer may be NULL; data are a pointer, NULL or to bytes, and what the call left in \<^verbatim>\<open>size\<close>.\<close>

datatype gd_ret = RetPtr "nat option" | RetInt int | RetData "byte list option" int | RetVoid

datatype gd_log_entry =
    GdCall string "gd_value list" gd_ret
  | GdAlloc
  | GdFree
  | GdAllocBinary int
  | GdFreeBinary
  | GdFreeData
  | GdOutput "tk_item list"

type_synonym gd_log = "gd_log_entry list"

record 'l gd =
  gd_ptr :: "string \<Rightarrow> gd_value list \<Rightarrow> 'l \<Rightarrow> nat option \<times> 'l"
  gd_int :: "string \<Rightarrow> gd_value list \<Rightarrow> 'l \<Rightarrow> int \<times> 'l"
  gd_data :: "string \<Rightarrow> gd_value list \<Rightarrow> 'l \<Rightarrow> (byte list option \<times> int) \<times> 'l"
  gd_void :: "string \<Rightarrow> gd_value list \<Rightarrow> 'l \<Rightarrow> 'l"
  gd_errno :: "'l \<Rightarrow> int"
  gd_font :: "int \<Rightarrow> nat"                      \<comment> \<open>\<^verbatim>\<open>gdFontTiny\<close> and so on\<close>
  gd_alloc :: "gd_log \<Rightarrow> bool"
  gd_unset :: int
  gd_EINVAL :: int
  gd_ENOMEM :: int

record gd_out =
  out_ok :: bool                                \<comment> \<open>\<^verbatim>\<open>__expect\<close>\<close>
  out_err :: int                                \<comment> \<open>\<^verbatim>\<open>__expect_errval\<close>\<close>
  out_ret :: gd_ret

record gd_job =
  gj_cmd :: byte
  gj_args :: "tk_arg list"

record 'l gd_port =
  gd_log :: gd_log
  gd_lib :: 'l
  gd_maps :: "nat option list list"
  gd_debug :: int                               \<comment> \<open>\<^verbatim>\<open>edtk_debug_flag\<close>, shared by all ports\<close>

definition gd_do :: "gd_log_entry \<Rightarrow> 'l gd_port \<Rightarrow> 'l gd_port" where
  "gd_do c s = s\<lparr>gd_log := c # gd_log s\<rparr>"

definition gd_got :: "'l gd \<Rightarrow> 'l gd_port \<Rightarrow> bool" where
  "gd_got lib s = gd_alloc lib (gd_log s)"

definition gd_start :: "'l gd \<Rightarrow> 'l \<Rightarrow> 'l gd_port option" where
  "gd_start lib l =
     (if gd_alloc lib [GdAlloc] then
        Some \<lparr>gd_log = [GdAlloc], gd_lib = l, gd_maps = [replicate 32 None, replicate 8 None, replicate 32 None],
          gd_debug = 0\<rparr>
      else None)"

section \<open>Calls of the library\<close>

definition gd_call_ptr :: "'l gd \<Rightarrow> string \<Rightarrow> gd_value list \<Rightarrow> 'l gd_port \<Rightarrow> nat option \<times> 'l gd_port" where
  "gd_call_ptr lib f vs s =
     (case gd_ptr lib f vs (gd_lib s) of (r, l) \<Rightarrow> (r, (gd_do (GdCall f vs (RetPtr r)) s)\<lparr>gd_lib := l\<rparr>))"

definition gd_call_int :: "'l gd \<Rightarrow> string \<Rightarrow> gd_value list \<Rightarrow> 'l gd_port \<Rightarrow> int \<times> 'l gd_port" where
  "gd_call_int lib f vs s =
     (case gd_int lib f vs (gd_lib s) of (r, l) \<Rightarrow> (r, (gd_do (GdCall f vs (RetInt r)) s)\<lparr>gd_lib := l\<rparr>))"

definition gd_call_data :: "'l gd \<Rightarrow> string \<Rightarrow> gd_value list \<Rightarrow> 'l gd_port \<Rightarrow> (byte list option \<times> int) \<times> 'l gd_port" where
  "gd_call_data lib f vs s =
     (case gd_data lib f vs (gd_lib s) of ((p, n), l) \<Rightarrow>
        ((p, n), (gd_do (GdCall f vs (RetData p n)) s)\<lparr>gd_lib := l\<rparr>))"

definition gd_call_void :: "'l gd \<Rightarrow> string \<Rightarrow> gd_value list \<Rightarrow> 'l gd_port \<Rightarrow> 'l gd_port" where
  "gd_call_void lib f vs s =
     (gd_do (GdCall f vs RetVoid) s)\<lparr>gd_lib := gd_void lib f vs (gd_lib s)\<rparr>"

section \<open>The functions of \<^verbatim>\<open>my-gd1.c\<close>\<close>

text \<open>
  Those that read an image from a file return the pointer and what they leave in \<^verbatim>\<open>status\<close>.  When the library
  cannot make an image the file is not closed.
\<close>

definition my_gdImageCreateFrom ::
  "'l gd \<Rightarrow> string \<Rightarrow> gd_value list \<Rightarrow> 'l gd_port \<Rightarrow> (nat option \<times> int) \<times> 'l gd_port" where
  "my_gdImageCreateFrom lib f vs s =
     (let (fp, s) = gd_call_ptr lib ''fopen'' [hd vs, VString [114, 98]] s in
      case fp of
        None \<Rightarrow> ((None, gd_errno lib (gd_lib s)), s)
      | Some fp \<Rightarrow>
          let (im, s) = gd_call_ptr lib f (VPtr fp # tl vs) s in
          (case im of
             None \<Rightarrow> ((None, -1), s)
           | Some im \<Rightarrow>
               let (r, s) = gd_call_int lib ''fclose'' [VPtr fp] s in
               if r = -1 then ((None, gd_errno lib (gd_lib s)), s) else ((Some im, gd_unset lib), s)))"

text \<open>Those that write to a file: the file takes the place of its name.\<close>

definition gd_with_file :: "nat \<Rightarrow> gd_value list \<Rightarrow> gd_value list" where
  "gd_with_file fp vs = map (\<lambda>v. case v of VString _ \<Rightarrow> VPtr fp | _ \<Rightarrow> v) vs"

definition gd_file_names :: "gd_value list \<Rightarrow> gd_value list" where
  "gd_file_names vs = filter (\<lambda>v. case v of VString _ \<Rightarrow> True | _ \<Rightarrow> False) vs"

definition my_gdImageWrite :: "'l gd \<Rightarrow> string \<Rightarrow> gd_value list \<Rightarrow> 'l gd_port \<Rightarrow> int \<times> 'l gd_port" where
  "my_gdImageWrite lib f vs s =
     (case gd_call_ptr lib ''fopen'' (gd_file_names vs @ [VString [119, 98]]) s of (fp, s) \<Rightarrow>
        (case fp of
           None \<Rightarrow> (gd_errno lib (gd_lib s), s)
         | Some fp \<Rightarrow>
             let s = gd_call_void lib f (gd_with_file fp vs) s;
                 (r, s) = gd_call_int lib ''fclose'' [VPtr fp] s
             in (if r = -1 then gd_errno lib (gd_lib s) else 0, s)))"

text \<open>Eight bytes for a point, four for a number; no more than 512 of them.  The bytes are read without a check.\<close>

fun gd_points :: "nat \<Rightarrow> byte list \<Rightarrow> (int \<times> int) list option" where
  "gd_points 0 bs = Some []"
| "gd_points (Suc n) bs =
     (if length bs < 8 then None
      else map_option ((#) (get_int32 bs, get_int32 (drop 4 bs))) (gd_points n (drop 8 bs)))"

fun gd_ints :: "nat \<Rightarrow> byte list \<Rightarrow> int list option" where
  "gd_ints 0 bs = Some []"
| "gd_ints (Suc n) bs =
     (if length bs < 4 then None else map_option ((#) (get_int32 bs)) (gd_ints n (drop 4 bs)))"

definition my_gdImagePolygon ::
  "'l gd \<Rightarrow> string \<Rightarrow> nat \<Rightarrow> byte list \<Rightarrow> int \<Rightarrow> int \<Rightarrow> 'l gd_port \<Rightarrow> (int, 'l gd_port) outcome" where
  "my_gdImagePolygon lib f im vertices pointsTotal color s =
     (if pointsTotal > 512 then Inr (-1, s)
      else case gd_points (nat pointsTotal) vertices of
          None \<Rightarrow> Inl OutOfBounds
        | Some v \<Rightarrow> Inr (0, gd_call_void lib f [VPtr im, VPoints v, VInt pointsTotal, VInt color] s))"

definition my_gdImageSetStyle ::
  "'l gd \<Rightarrow> string \<Rightarrow> nat \<Rightarrow> byte list \<Rightarrow> int \<Rightarrow> 'l gd_port \<Rightarrow> (int, 'l gd_port) outcome" where
  "my_gdImageSetStyle lib f im style styleLength s =
     (if styleLength > 512 then Inr (-1, s)
      else case gd_ints (nat styleLength) style of
          None \<Rightarrow> Inl OutOfBounds
        | Some v \<Rightarrow> Inr (0, gd_call_void lib f [VPtr im, VInts v, VInt styleLength] s))"

definition my_GetFontPtr :: "'l gd \<Rightarrow> int \<Rightarrow> nat option" where
  "my_GetFontPtr lib font_idx = (if 1 \<le> font_idx \<and> font_idx \<le> 5 then Some (gd_font lib font_idx) else None)"

section \<open>Making a call\<close>

text \<open>Bytes that are not points or numbers are read as a string, which must have an end.\<close>

fun gd_value_of :: "tk_arg \<Rightarrow> fault + gd_value" where
  "gd_value_of (AInt v) = Inr (VInt v)"
| "gd_value_of (ABytes n p) = (if 0 \<in> set p then Inr (VString (c_string p)) else Inl OutOfBounds)"
| "gd_value_of (APtr m i p) = Inr (if m = 2 then VFont p else VPtr p)"

fun gd_values :: "tk_arg list \<Rightarrow> fault + gd_value list" where
  "gd_values [] = Inr []"
| "gd_values (a # as) =
     (case gd_value_of a of
        Inl e \<Rightarrow> Inl e
      | Inr v \<Rightarrow> (case gd_values as of Inl e \<Rightarrow> Inl e | Inr vs \<Rightarrow> Inr (v # vs)))"

definition gd_apply :: "'l gd \<Rightarrow> string \<Rightarrow> gd_result \<Rightarrow> gd_value list \<Rightarrow> 'l gd_port \<Rightarrow> gd_ret \<times> 'l gd_port" where
  "gd_apply lib f res vs s =
     (case res of
        RPtr \<Rightarrow> (case gd_call_ptr lib f vs s of (p, s) \<Rightarrow> (RetPtr p, s))
      | RInt \<Rightarrow> (case gd_call_int lib f vs s of (r, s) \<Rightarrow> (RetInt r, s))
      | RData \<Rightarrow> (case gd_call_data lib f vs s of ((p, n), s) \<Rightarrow> (RetData p n, s))
      | RVoid \<Rightarrow> (RetVoid, gd_call_void lib f vs s))"

text \<open>What the call returns, what is in \<^verbatim>\<open>status\<close>.\<close>

definition gd_run ::
  "'l gd \<Rightarrow> gd_fun \<Rightarrow> gd_result \<Rightarrow> tk_arg list \<Rightarrow> 'l gd_port \<Rightarrow> (gd_ret \<times> int, 'l gd_port) outcome" where
  "gd_run lib fn res args s =
     (case fn of
        Gd f \<Rightarrow>
          (case gd_values args of
             Inl e \<Rightarrow> Inl e
           | Inr vs \<Rightarrow> (case gd_apply lib f res vs s of (r, s) \<Rightarrow> Inr ((r, gd_unset lib), s)))
      | GdCreate f \<Rightarrow>
          (case gd_values args of
             Inl e \<Rightarrow> Inl e
           | Inr vs \<Rightarrow> (case my_gdImageCreateFrom lib f vs s of ((p, status), s) \<Rightarrow> Inr ((RetPtr p, status), s)))
      | GdWrite f \<Rightarrow>
          (case gd_values args of
             Inl e \<Rightarrow> Inl e
           | Inr vs \<Rightarrow> (case my_gdImageWrite lib f vs s of (r, s) \<Rightarrow> Inr ((RetInt r, gd_unset lib), s)))
      | GdPolygon f \<Rightarrow>
          (case args of
             [APtr _ _ im, ABytes _ p, AInt n, AInt color] \<Rightarrow>
               andthen (my_gdImagePolygon lib f im p n color s) (\<lambda>r s. Inr ((RetInt r, gd_unset lib), s))
           | _ \<Rightarrow> Inl Aborts)
      | GdStyle f \<Rightarrow>
          (case args of
             [APtr _ _ im, ABytes _ p, AInt n] \<Rightarrow>
               andthen (my_gdImageSetStyle lib f im p n s) (\<lambda>r s. Inr ((RetInt r, gd_unset lib), s))
           | _ \<Rightarrow> Inl Aborts)
      | GdFont \<Rightarrow>
          (case args of
             [AInt i] \<Rightarrow> Inr ((RetPtr (my_GetFontPtr lib i), gd_unset lib), s)
           | _ \<Rightarrow> Inl Aborts))"

definition gd_errnum :: "gd_errval \<Rightarrow> gd_ret \<Rightarrow> int \<Rightarrow> int \<Rightarrow> int" where
  "gd_errnum e r status errno =
     (case e of
        ErrConst i \<Rightarrow> i
      | ErrStatus \<Rightarrow> status
      | ErrRet \<Rightarrow> (case r of RetInt i \<Rightarrow> i | _ \<Rightarrow> 0)
      | ErrErrno \<Rightarrow> errno)"

definition gd_expected :: "'l gd \<Rightarrow> gd_expect \<Rightarrow> gd_ret \<Rightarrow> int \<Rightarrow> int \<Rightarrow> gd_out" where
  "gd_expected lib ex r status errno =
     (case ex of
        EAlways \<Rightarrow> \<lparr>out_ok = True, out_err = gd_unset lib, out_ret = r\<rparr>
      | ENotNull e \<Rightarrow>
          \<lparr>out_ok = (case r of RetPtr p \<Rightarrow> p \<noteq> None | RetData p _ \<Rightarrow> p \<noteq> None | _ \<Rightarrow> True),
           out_err = gd_errnum e r status errno, out_ret = r\<rparr>
      | ENonneg e \<Rightarrow>
          \<lparr>out_ok = (case r of RetInt i \<Rightarrow> 0 \<le> i | _ \<Rightarrow> True), out_err = gd_errnum e r status errno, out_ret = r\<rparr>
      | EZero e \<Rightarrow>
          \<lparr>out_ok = (case r of RetInt i \<Rightarrow> i = 0 | _ \<Rightarrow> True), out_err = gd_errnum e r status errno, out_ret = r\<rparr>)"

definition gd_invoke :: "'l gd \<Rightarrow> byte \<Rightarrow> tk_arg list \<Rightarrow> 'l gd_port \<Rightarrow> (gd_out, 'l gd_port) outcome" where
  "gd_invoke lib cmd args s =
     (case gd_calls ! (unat cmd - 1) of (fn, res, ex) \<Rightarrow>
        andthen (gd_run lib fn res args s) (\<lambda>(r, status) s.
          Inr (gd_expected lib ex r status (gd_errno lib (gd_lib s)), s)))"

section \<open>Answering\<close>

definition gd_put :: "tk_item list \<Rightarrow> 'l gd_port \<Rightarrow> 'l gd_port" where
  "gd_put items s = gd_do (GdOutput items) s"

definition gd_reply_ok :: "'l gd_port \<Rightarrow> 'l gd_port" where
  "gd_reply_ok s = gd_put [LOAD_PORT, LOAD_ATOM ''ok'', LOAD_TUPLE 2] s"

definition gd_reply_ok_num :: "int \<Rightarrow> 'l gd_port \<Rightarrow> 'l gd_port" where
  "gd_reply_ok_num n s = gd_put [LOAD_PORT, LOAD_ATOM ''ok'', LOAD_INT n, LOAD_TUPLE 3] s"

definition gd_reply_ok_binary :: "byte list \<Rightarrow> 'l gd_port \<Rightarrow> 'l gd_port" where
  "gd_reply_ok_binary bs s =
     gd_do GdFreeBinary (gd_put [LOAD_PORT, LOAD_ATOM ''ok'', LOAD_BINARY bs, LOAD_TUPLE 3] s)"

definition gd_reply_ok_valmap :: "string \<Rightarrow> nat \<Rightarrow> 'l gd_port \<Rightarrow> 'l gd_port" where
  "gd_reply_ok_valmap atom i s =
     gd_put [LOAD_PORT, LOAD_ATOM ''ok'', LOAD_ATOM atom, LOAD_INT (int i), LOAD_TUPLE 2, LOAD_TUPLE 3] s"

definition gd_reply_error :: "int \<Rightarrow> 'l gd_port \<Rightarrow> 'l gd_port" where
  "gd_reply_error n s = gd_put [LOAD_PORT, LOAD_ATOM ''error'', LOAD_INT n, LOAD_TUPLE 3] s"

definition gd_reply_error_atom :: "string \<Rightarrow> 'l gd_port \<Rightarrow> 'l gd_port" where
  "gd_reply_error_atom a s = gd_put [LOAD_PORT, LOAD_ATOM ''error'', LOAD_ATOM a, LOAD_TUPLE 3] s"

text \<open>The value maps: the first entry not in use, taking one out.\<close>

fun find_unused_index :: "nat option list \<Rightarrow> nat option" where
  "find_unused_index [] = None"
| "find_unused_index (None # m) = Some 0"
| "find_unused_index (Some _ # m) = map_option Suc (find_unused_index m)"

definition gd_set :: "nat \<Rightarrow> nat \<Rightarrow> nat option \<Rightarrow> 'l gd_port \<Rightarrow> 'l gd_port" where
  "gd_set m i p s = s\<lparr>gd_maps := (gd_maps s)[m := (gd_maps s ! m)[i := p]]\<rparr>"

definition cleanup_valmap_index :: "nat \<Rightarrow> tk_arg list \<Rightarrow> 'l gd_port \<Rightarrow> 'l gd_port" where
  "cleanup_valmap_index m args s = (case args of [APtr _ i _] \<Rightarrow> gd_set m i None s | _ \<Rightarrow> s)"

definition gd_map_atom :: "nat \<Rightarrow> string" where
  "gd_map_atom m = [''valmap_imageptr'', ''valmap_FILE_P'', ''valmap_fontptr''] ! m"

definition gd_ret_ptr :: "gd_ret \<Rightarrow> nat option" where
  "gd_ret_ptr r = (case r of RetPtr p \<Rightarrow> p | _ \<Rightarrow> None)"

definition gd_ret_int :: "gd_ret \<Rightarrow> int" where
  "gd_ret_int r = (case r of RetInt i \<Rightarrow> i | _ \<Rightarrow> 0)"

text \<open>The bytes copied; the pointer may be NULL, and the size is whatever it is then.\<close>

definition gd_ret_bytes :: "gd_ret \<Rightarrow> fault + byte list" where
  "gd_ret_bytes r =
     (case r of
        RetData p n \<Rightarrow>
          if n = 0 then Inr []
          else (case p of
              None \<Rightarrow> Inl NullPtr
            | Some bs \<Rightarrow> if 0 < n \<and> n \<le> int (length bs) then Inr (take (nat n) bs) else Inl OutOfBounds)
      | _ \<Rightarrow> Inr [])"

definition gd_ret_size :: "gd_ret \<Rightarrow> int" where
  "gd_ret_size r = (case r of RetData p n \<Rightarrow> n | _ \<Rightarrow> 0)"

definition gd_free_data :: "gd_ret \<Rightarrow> 'l gd_port \<Rightarrow> 'l gd_port" where
  "gd_free_data r s = (case r of RetData (Some _) _ \<Rightarrow> gd_do GdFreeData s | _ \<Rightarrow> s)"

text \<open>The answers with data; that of \<^verbatim>\<open>reply_xtra_void_p_and_size\<close> looks whether there are any.\<close>

definition gd_reply_data :: "'l gd \<Rightarrow> gd_ret \<Rightarrow> 'l gd_port \<Rightarrow> (unit, 'l gd_port) outcome" where
  "gd_reply_data lib r s =
     (let s = gd_do (GdAllocBinary (gd_ret_size r)) s in
      if \<not> gd_got lib s then Inr ((), gd_free_data r (gd_reply_error (gd_ENOMEM lib) s))
      else case gd_ret_bytes r of
          Inl e \<Rightarrow> Inl e
        | Inr bs \<Rightarrow> Inr ((), gd_free_data r (gd_reply_ok_binary bs s)))"

definition reply_xtra_void_p_and_size :: "'l gd \<Rightarrow> gd_out \<Rightarrow> 'l gd_port \<Rightarrow> (unit, 'l gd_port) outcome" where
  "reply_xtra_void_p_and_size lib out s =
     (if out_ok out then
        let s = gd_do (GdAllocBinary (gd_ret_size (out_ret out))) s in
        if \<not> gd_got lib s then Inr ((), gd_reply_error (gd_ENOMEM lib) s)
        else case gd_ret_bytes (out_ret out) of
            Inl e \<Rightarrow> Inl e
          | Inr bs \<Rightarrow> Inr ((), gd_do GdFreeBinary
              (gd_put [LOAD_PORT, LOAD_ATOM ''ok'', LOAD_BINARY bs, LOAD_TUPLE 1, LOAD_TUPLE 3] s))
      else Inr ((), gd_put [LOAD_PORT, LOAD_ATOM ''error'', LOAD_INT (-1), LOAD_TUPLE 1, LOAD_TUPLE 3] s))"

definition gd_answer :: "'l gd \<Rightarrow> gd_job \<Rightarrow> gd_out \<Rightarrow> 'l gd_port \<Rightarrow> (unit, 'l gd_port) outcome" where
  "gd_answer lib job out s =
     (case gd_replies ! (unat (gj_cmd job) - 1) of
        ReplyNew m \<Rightarrow>
          if \<not> out_ok out then Inr ((), gd_reply_error (out_err out) s)
          else (case find_unused_index (gd_maps s ! m) of
              None \<Rightarrow> Inr ((), gd_reply_error (gd_ENOMEM lib) s)
            | Some i \<Rightarrow> Inr ((), gd_reply_ok_valmap (gd_map_atom m) i (gd_set m i (gd_ret_ptr (out_ret out)) s)))
      | ReplyNum \<Rightarrow>
          Inr ((), if out_ok out then gd_reply_ok_num (gd_ret_int (out_ret out)) s else gd_reply_error (out_err out) s)
      | ReplyNumAlways \<Rightarrow> Inr ((), gd_reply_ok_num (gd_ret_int (out_ret out)) s)
      | ReplyOk \<Rightarrow> Inr ((), gd_reply_ok s)
      | ReplyBinary \<Rightarrow> gd_reply_data lib (out_ret out) s
      | ReplyXtra \<Rightarrow>
          andthen (reply_xtra_void_p_and_size lib out s) (\<lambda>_ s. Inr ((), gd_free_data (out_ret out) s))
      | ReplyClose \<Rightarrow>
          Inr ((), if \<not> out_ok out then gd_reply_error (out_err out) s
            else gd_reply_ok_num (gd_ret_int (out_ret out)) (cleanup_valmap_index 1 (gj_args job) s))
      | ReplyDestroy \<Rightarrow> Inr ((), gd_reply_ok (cleanup_valmap_index 0 (gj_args job) s)))"

definition gd_ready_async :: "'l gd \<Rightarrow> gd_job \<Rightarrow> gd_out \<Rightarrow> 'l gd_port \<Rightarrow> (unit, 'l gd_port) outcome" where
  "gd_ready_async lib job out s = andthen (gd_answer lib job out s) (\<lambda>_ s. Inr ((), gd_do GdFree s))"

section \<open>Commands\<close>

text \<open>
  The vertices of a polygon are checked against the length of the bytes, which is divided by twice the size
  of a long, four bytes here.
\<close>

definition gd_bad_polygon :: "byte \<Rightarrow> tk_arg list \<Rightarrow> bool" where
  "gd_bad_polygon cmd args \<longleftrightarrow>
     cmd = 19 \<and>
     (case args of
        [_, ABytes n _, AInt points, _] \<Rightarrow> points mod 2 ^ 32 \<noteq> n mod 2 ^ 32 div (4 * 2)
      | _ \<Rightarrow> False)"

definition gd_badarg :: "'l gd_port \<Rightarrow> 'l gd_port" where
  "gd_badarg s = gd_reply_error_atom ''badarg'' (gd_do GdFree s)"

text \<open>
  Reading a command into the call state: None when the command has been answered and there is nothing left
  to run (\<^verbatim>\<open>c\<close> is NULL, or the function has returned).
\<close>

definition gd_decode :: "'l gd \<Rightarrow> iovec \<Rightarrow> 'l gd_port \<Rightarrow> (gd_job option, 'l gd_port) outcome" where
  "gd_decode lib ev s =
     (if length (concat ev) < 1 then Inr (None, s)
      else case EV_GET_CHAR ev (0, 1) of
          Inl e \<Rightarrow> Inl e
        | Inr got \<Rightarrow>
            let u = gd_unset lib;
                (cmd, c, s) = (case got of
                  None \<Rightarrow> (word_of_int u, (0, 1), gd_reply_error (gd_EINVAL lib) s)
                | Some (b, c) \<Rightarrow> (b, c, s));
                s = gd_do GdAlloc s
            in if \<not> gd_got lib s then Inr (None, gd_reply_error (gd_ENOMEM lib) s)
               else if cmd = 0 then
                 (case tk_uint32 ev (gd_debug s) c (\<lambda>v _. Inr v) of
                    Inl e \<Rightarrow> Inl e
                  | Inr v \<Rightarrow> Inr (None, gd_do GdFree (gd_reply_ok_num v (s\<lparr>gd_debug := v\<rparr>))))
               else if 63 < cmd then Inr (None, gd_badarg s)
               else
                 (case tk_args u (gd_maps s) ev u u (gd_kinds ! (unat cmd - 1)) c of
                    Inl e \<Rightarrow> Inl e
                  | Inr None \<Rightarrow> Inr (None, gd_badarg s)
                  | Inr (Some args) \<Rightarrow>
                      if gd_bad_polygon cmd args then Inr (None, gd_badarg s)
                      else Inr (Some \<lparr>gj_cmd = cmd, gj_args = args\<rparr>, s)))"

text \<open>
  \<^verbatim>\<open>default_async_calls\<close> is 0 in this driver and nothing sets it, so \<^verbatim>\<open>do_async_call\<close> is always 0: the call is made
  and answered before \<^verbatim>\<open>_outputv\<close> returns.
\<close>

definition gd_outputv :: "'l gd \<Rightarrow> iovec \<Rightarrow> 'l gd_port \<Rightarrow> (unit, 'l gd_port) outcome" where
  "gd_outputv lib ev s =
     andthen (gd_decode lib ev s) (\<lambda>job s.
       case job of
         None \<Rightarrow> Inr ((), s)
       | Some job \<Rightarrow>
           andthen (gd_invoke lib (gj_cmd job) (gj_args job) s) (\<lambda>out s. gd_ready_async lib job out s))"

text \<open>Stopping releases what is in the maps of images and files.\<close>

fun gd_destroy_all :: "'l gd \<Rightarrow> nat option list \<Rightarrow> 'l gd_port \<Rightarrow> 'l gd_port" where
  "gd_destroy_all lib [] s = s"
| "gd_destroy_all lib (None # m) s = gd_destroy_all lib m s"
| "gd_destroy_all lib (Some p # m) s = gd_destroy_all lib m (gd_call_void lib ''gdImageDestroy'' [VPtr p] s)"

fun gd_close_all :: "'l gd \<Rightarrow> nat option list \<Rightarrow> 'l gd_port \<Rightarrow> 'l gd_port" where
  "gd_close_all lib [] s = s"
| "gd_close_all lib (None # m) s = gd_close_all lib m s"
| "gd_close_all lib (Some p # m) s = gd_close_all lib m (snd (gd_call_int lib ''fclose'' [VPtr p] s))"

definition gd_stop :: "'l gd \<Rightarrow> 'l gd_port \<Rightarrow> 'l gd_port" where
  "gd_stop lib s = gd_do GdFree (gd_close_all lib (gd_maps s ! 1) (gd_destroy_all lib (gd_maps s ! 0) s))"

text \<open>The commands of a client, one after the other.\<close>

fun gd_session :: "'l gd \<Rightarrow> iovec list \<Rightarrow> 'l gd_port \<Rightarrow> (unit, 'l gd_port) outcome" where
  "gd_session lib [] s = Inr ((), s)"
| "gd_session lib (ev # evs) s = andthen (gd_outputv lib ev s) (\<lambda>_ s. gd_session lib evs s)"

end
