(* ===== verification/Gd_Service.thy ===== *)
theory Gd_Service
  imports Gd_Driver
begin

text \<open>
  What the gd driver does for its clients: a command becomes the call it asks for, and every command is
  answered once, before the next is read.
\<close>

section \<open>A command becomes a call\<close>

definition gd_allocs :: "'l gd \<Rightarrow> bool" where
  "gd_allocs lib \<longleftrightarrow> (\<forall>h. gd_alloc lib h)"

lemma gd_gotten: "gd_allocs lib \<Longrightarrow> gd_got lib s"
  by (simp add: gd_allocs_def gd_got_def)

lemma gd_do_simps [simp]:
  "gd_log (gd_do c s) = c # gd_log s" "gd_lib (gd_do c s) = gd_lib s" "gd_maps (gd_do c s) = gd_maps s"
  "gd_debug (gd_do c s) = gd_debug s"
  by (simp_all add: gd_do_def)

text \<open>What decoding comes to when the arguments are those of a command that is well formed.\<close>

lemma gd_decode_args:
  assumes groups: "concat groups = [cmd] # concat (map tk_fields vs)" "[] \<notin> set groups"
    "[] \<notin> set (concat (map tk_fields vs))"
    and "ev_small (hdr # map concat groups)" "gd_allocs lib" "0 < cmd" "cmd \<le> 63"
    and "map tk_kind_of vs = gd_kinds ! (unat cmd - 1)" "\<forall>v \<in> set vs. tk_value_ok (gd_maps s) v"
  shows "\<exists>args. list_all2 (tk_means (gd_maps s)) vs args \<and>
    gd_decode lib (hdr # map concat groups) s =
      (if gd_bad_polygon cmd args then Inr (None, gd_badarg (gd_do GdAlloc s))
       else Inr (Some \<lparr>gj_cmd = cmd, gj_args = args\<rparr>, gd_do GdAlloc s))"
proof -
  let ?ev = "hdr # map concat groups"
  have "[] \<notin> set (concat groups)" using groups by auto
  from ev_at_start [OF groups(2) this, of hdr] have "ev_at ?ev (0, 1) ([cmd] # concat (map tk_fields vs))"
    unfolding groups(1) .
  then obtain c where c: "ev_get (length [cmd]) ?ev (0, 1) = Inr (Some ([cmd], c))" "ev_at ?ev c (concat (map tk_fields vs))"
    using ev_at_get by blast
  have char: "EV_GET_CHAR ?ev (0, 1) = Inr (Some (cmd, c))" using c(1) by (simp add: EV_GET_CHAR_def ev_value_def)
  have "concat groups \<noteq> []" "\<forall>f \<in> set (concat groups). f \<noteq> []" using groups by auto
  then have size: "\<not> length (concat ?ev) < 1" by fastforce
  have cmd: "cmd \<noteq> 0" "\<not> 63 < cmd" using assms(6,7) by auto
  obtain args where args: "tk_args (gd_unset lib) (gd_maps s) ?ev (gd_unset lib) (gd_unset lib) (gd_kinds ! (unat cmd - 1)) c =
      Inr (Some args)" "list_all2 (tk_means (gd_maps s)) vs args"
    using tk_args_back [of ?ev c vs "[]" "gd_maps s"] c(2) assms(4,8,9) by fastforce
  show ?thesis using args char cmd unfolding gd_decode_def if_not_P [OF size]
    by (intro exI [of _ args]) (simp add: Let_def gd_gotten [OF assms(5)])
qed

text \<open>The arguments as the library gets them; strings end with a zero byte.\<close>

fun gd_client :: "nat option list list \<Rightarrow> tk_value \<Rightarrow> gd_value" where
  "gd_client maps (CInt i) = VInt i"
| "gd_client maps (CBytes bs) = VString (butlast bs)"
| "gd_client maps (CMap m i) = (if m = 2 then VFont (the (maps ! m ! i)) else VPtr (the (maps ! m ! i)))"

fun gd_string_ok :: "tk_value \<Rightarrow> bool" where
  "gd_string_ok (CBytes bs) = (bs \<noteq> [] \<and> last bs = 0 \<and> 0 \<notin> set (butlast bs))"
| "gd_string_ok _ = True"

lemma gd_values_back:
  assumes "list_all2 (tk_means maps) vs args" "\<forall>v \<in> set vs. gd_string_ok v"
  shows "gd_values args = Inr (map (gd_client maps) vs)"
  using assms
proof (induction rule: list_all2_induct)
  case Nil
  then show ?case by simp
next
  case (Cons v vs a args)
  then have rec: "gd_values args = Inr (map (gd_client maps) vs)" by simp
  show ?case
  proof (cases v)
    case (CBytes bs)
    then obtain p where p: "a = ABytes (int (length bs)) p" "take (length bs) p = bs" using Cons.hyps by auto
    have bs: "bs = butlast bs @ [0]" "0 \<notin> set (butlast bs)"
      using Cons.prems CBytes append_butlast_last_id [of bs] by auto
    have "take (length (butlast bs @ [0])) p = butlast bs @ [0]" using p(2) bs(1) by simp
    from string_ptr [OF this bs(2)] show ?thesis using rec by (simp add: CBytes p(1))
  qed (use Cons.hyps rec in auto)
qed

lemma gd_apply_log:
  "\<exists>r t. gd_apply lib f res vs s = (r, t) \<and> gd_log t = GdCall f vs r # gd_log s"
  by (cases res) (auto simp: gd_apply_def gd_call_ptr_def gd_call_int_def gd_call_data_def gd_call_void_def
      split: prod.splits)

lemma gd_expected_ret [simp]: "out_ret (gd_expected lib ex r status errno) = r"
  by (simp add: gd_expected_def split: gd_expect.split)

lemma gd_invoke_calls:
  assumes "gd_calls ! (unat cmd - 1) = (Gd f, res, ex)" "list_all2 (tk_means maps) vs args" "\<forall>v \<in> set vs. gd_string_ok v"
  shows "\<exists>out t. gd_invoke lib cmd args s = Inr (out, t) \<and>
    gd_log t = GdCall f (map (gd_client maps) vs) (out_ret out) # gd_log s"
proof -
  obtain r t where rt: "gd_apply lib f res (map (gd_client maps) vs) s = (r, t)"
    "gd_log t = GdCall f (map (gd_client maps) vs) r # gd_log s" using gd_apply_log by blast
  have "gd_run lib (Gd f) res args s = Inr ((r, gd_unset lib), t)"
    by (simp add: gd_run_def gd_values_back [OF assms(2,3)] rt(1))
  then show ?thesis unfolding gd_invoke_def assms(1) prod.case by (auto simp: andthen_def rt(2))
qed

text \<open>The check of a polygon: points of eight bytes pass it.\<close>

lemma gd_polygon_check:
  assumes "list_all2 (tk_means maps) [CMap 0 i, CBytes pts, CInt n, CInt color] args"
    and "length pts = 8 * nat n" "0 < n" "n < 2 ^ 28"
  shows "\<not> gd_bad_polygon 19 args"
proof -
  obtain p q where args: "args = [p, ABytes (int (length pts)) q, AInt n, AInt color]"
    using assms(1) by (auto simp: list_all2_Cons1)
  have "int (length pts) = 8 * n" using assms(2,3) by simp
  then show ?thesis using assms(3,4) by (auto simp: args gd_bad_polygon_def)
qed

text \<open>The points the client wrote are those that are read, whatever follows them.\<close>

definition gd_vertices :: "(int \<times> int) list \<Rightarrow> byte list" where
  "gd_vertices ps = concat (map (\<lambda>(x, y). put_int32 x @ put_int32 y) ps)"

lemma gd_vertices_length: "length (gd_vertices ps) = 8 * length ps"
  by (induction ps) (auto simp: gd_vertices_def)

lemma gd_points_back:
  "\<forall>(x, y) \<in> set ps. int32_ok x \<and> int32_ok y \<Longrightarrow> gd_points (length ps) (gd_vertices ps @ r) = Some ps"
proof (induction ps)
  case Nil
  then show ?case by (simp add: gd_vertices_def)
next
  case (Cons p ps)
  obtain x y where p: "p = (x, y)" by fastforce
  let ?r = "gd_vertices ps @ r"
  have "get_int32 (put_int32 x @ put_int32 y @ ?r) = x" "get_int32 (put_int32 y @ ?r) = y"
    using Cons.prems by (auto simp: p int32_ok_def intro!: get_put_int32)
  moreover have "drop 4 (put_int32 x @ put_int32 y @ ?r) = put_int32 y @ ?r"
    "drop 8 (put_int32 x @ put_int32 y @ ?r) = ?r" by (simp_all add: drop_append)
  moreover have "gd_vertices (p # ps) @ r = put_int32 x @ put_int32 y @ ?r" by (simp add: gd_vertices_def p)
  ultimately show ?case using Cons by (simp add: p)
qed

text \<open>Drawing one.\<close>

lemma gd_polygon_run:
  assumes "list_all2 (tk_means maps) [CMap 0 i, CBytes (gd_vertices ps), CInt (int (length ps)), CInt color] args"
    and "\<forall>(x, y) \<in> set ps. int32_ok x \<and> int32_ok y" "length ps \<le> 512" "maps ! 0 ! i = Some im"
  shows "\<exists>v. gd_run lib (GdPolygon f) res args u = Inr ((RetInt 0, gd_unset lib), v) \<and>
    gd_log v = GdCall f [VPtr im, VPoints ps, VInt (int (length ps)), VInt color] RetVoid # gd_log u"
proof -
  obtain q where q: "args = [APtr 0 i im, ABytes (int (length (gd_vertices ps))) q, AInt (int (length ps)), AInt color]"
    "take (length (gd_vertices ps)) q = gd_vertices ps"
    using assms(1,4) by (auto simp: list_all2_Cons1)
  have "gd_points (length ps) q = Some ps"
    using gd_points_back [OF assms(2), of "drop (length (gd_vertices ps)) q"] append_take_drop_id [of "length (gd_vertices ps)" q]
    unfolding q(2) by simp
  then show ?thesis using assms(3)
    by (simp add: q(1) gd_run_def my_gdImagePolygon_def andthen_def gd_call_void_def)
qed

section \<open>Every command is answered once\<close>

definition gd_answered :: "gd_log \<Rightarrow> nat" where
  "gd_answered h = length (filter (\<lambda>c. case c of GdOutput _ \<Rightarrow> True | _ \<Rightarrow> False) h)"

lemma gd_answered_simps [simp]:
  "gd_answered [] = 0"
  "gd_answered (c # h) = (case c of GdOutput _ \<Rightarrow> Suc (gd_answered h) | _ \<Rightarrow> gd_answered h)"
  by (simp_all add: gd_answered_def split: gd_log_entry.split)

text \<open>\<open>gd_more k\<close>: \<open>k\<close> answers more.\<close>

definition gd_more :: "nat \<Rightarrow> 'l gd_port \<Rightarrow> 'l gd_port \<Rightarrow> bool" where
  "gd_more k s t \<longleftrightarrow> gd_answered (gd_log t) = gd_answered (gd_log s) + k"

lemma gd_calls_more:
  "gd_call_ptr lib f vs s = (p, t) \<Longrightarrow> gd_more 0 s t" "gd_call_int lib f vs s = (i, t) \<Longrightarrow> gd_more 0 s t"
  "gd_call_data lib f vs s = (d, t) \<Longrightarrow> gd_more 0 s t" "gd_more 0 s (gd_call_void lib f vs s)"
  by (auto simp: gd_call_ptr_def gd_call_int_def gd_call_data_def gd_call_void_def gd_more_def split: prod.splits)

lemma gd_more_trans: "gd_more 0 s t \<Longrightarrow> gd_more k t u \<Longrightarrow> gd_more k s u"
  by (simp add: gd_more_def)

lemma my_gdImageCreateFrom_more: "my_gdImageCreateFrom lib f vs s = (r, t) \<Longrightarrow> gd_more 0 s t"
  by (auto simp: my_gdImageCreateFrom_def Let_def split: prod.splits option.splits if_splits
      dest!: gd_calls_more(1,2) intro: gd_more_trans)

lemma my_gdImageWrite_more: "my_gdImageWrite lib f vs s = (r, t) \<Longrightarrow> gd_more 0 s t"
  by (auto simp: my_gdImageWrite_def Let_def split: prod.splits option.splits if_splits
      dest!: gd_calls_more(1,2) intro: gd_more_trans gd_more_trans [OF gd_calls_more(4)])

lemma gd_apply_more: "gd_apply lib f res vs s = (r, t) \<Longrightarrow> gd_more 0 s t"
  by (cases res) (auto simp: gd_apply_def split: prod.splits intro: gd_calls_more)

lemma gd_run_polygon:
  assumes "gd_run lib (GdPolygon f) res args s = Inr (r, t)"
  shows "\<exists>m i im k p n color. args = [APtr m i im, ABytes k p, AInt n, AInt color] \<and>
    my_gdImagePolygon lib f im p n color s = Inr (gd_ret_int (fst r), t)"
proof -
  have "\<exists>m i im k p n color. args = [APtr m i im, ABytes k p, AInt n, AInt color]"
    using assms by (simp add: gd_run_def split: list.split_asm tk_arg.split_asm)
  then obtain m i im k p n color where args: "args = [APtr m i im, ABytes k p, AInt n, AInt color]" by blast
  then show ?thesis using assms by (auto simp: gd_run_def andthen_def gd_ret_int_def split: sum.splits)
qed

lemma gd_run_style:
  assumes "gd_run lib (GdStyle f) res args s = Inr (r, t)"
  shows "\<exists>m i im k p n. args = [APtr m i im, ABytes k p, AInt n] \<and>
    my_gdImageSetStyle lib f im p n s = Inr (gd_ret_int (fst r), t)"
proof -
  have "\<exists>m i im k p n. args = [APtr m i im, ABytes k p, AInt n]"
    using assms by (simp add: gd_run_def split: list.split_asm tk_arg.split_asm)
  then obtain m i im k p n where args: "args = [APtr m i im, ABytes k p, AInt n]" by blast
  then show ?thesis using assms by (auto simp: gd_run_def andthen_def gd_ret_int_def split: sum.splits)
qed

lemma gd_run_font:
  "gd_run lib GdFont res args s = Inr (r, t) \<Longrightarrow> t = s \<and> (\<exists>i. args = [AInt i] \<and> fst r = RetPtr (my_GetFontPtr lib i))"
  by (auto simp: gd_run_def split: list.split_asm tk_arg.split_asm)

lemma gd_run_int:
  "gd_run lib fn res args s = Inr (r, t) \<Longrightarrow> (\<exists>f. fn = GdPolygon f \<or> fn = GdStyle f) \<Longrightarrow> \<exists>i. fst r = RetInt i"
  by (auto simp: gd_run_def andthen_def split: list.split_asm tk_arg.split_asm sum.split_asm prod.split_asm)

lemma gd_run_more:
  assumes "gd_run lib fn res args s = Inr (r, t)"
  shows "gd_more 0 s t"
proof -
  have same: "gd_more 0 s s" by (simp add: gd_more_def)
  show ?thesis
  proof (cases fn)
    case (GdPolygon f)
    then obtain im p n color where "my_gdImagePolygon lib f im p n color s = Inr (gd_ret_int (fst r), t)"
      using gd_run_polygon assms by metis
    then show ?thesis using same gd_calls_more(4) by (auto simp: my_gdImagePolygon_def split: if_splits option.splits)
  next
    case (GdStyle f)
    then obtain im p n where "my_gdImageSetStyle lib f im p n s = Inr (gd_ret_int (fst r), t)"
      using gd_run_style assms by metis
    then show ?thesis using same gd_calls_more(4) by (auto simp: my_gdImageSetStyle_def split: if_splits option.splits)
  next
    case GdFont
    then show ?thesis using gd_run_font assms same by metis
  qed (use assms in \<open>auto simp: gd_run_def split: sum.splits prod.splits
    intro: gd_apply_more my_gdImageCreateFrom_more my_gdImageWrite_more\<close>)
qed

lemma gd_invoke_more: "gd_invoke lib cmd args s = Inr (out, t) \<Longrightarrow> gd_more 0 s t"
  by (auto simp: gd_invoke_def andthen_def split: prod.splits sum.splits dest: gd_run_more)

lemma gd_replies_more:
  "gd_more 1 s (gd_reply_ok s)" "gd_more 1 s (gd_reply_ok_num n s)" "gd_more 1 s (gd_reply_error n s)"
  "gd_more 1 s (gd_reply_ok_binary bs s)" "gd_more 1 s (gd_reply_ok_valmap a i s)" "gd_more 1 s (gd_badarg s)"
  by (simp_all add: gd_more_def gd_reply_ok_def gd_reply_ok_num_def gd_reply_error_def gd_reply_ok_binary_def
      gd_reply_ok_valmap_def gd_badarg_def gd_reply_error_atom_def gd_put_def)

lemma gd_sets_more [simp]:
  "gd_log (gd_set m i p s) = gd_log s" "gd_log (cleanup_valmap_index m args s) = gd_log s"
  by (simp_all add: gd_set_def cleanup_valmap_index_def split: list.split tk_arg.split)

lemma gd_free_data_more [simp]:
  "gd_answered (gd_log (gd_free_data r s)) = gd_answered (gd_log s)"
  by (simp_all add: gd_free_data_def split: gd_ret.split option.split)

lemma gd_answer_more: "gd_answer lib job out s = Inr ((), t) \<Longrightarrow> gd_more 1 s t"
  by (auto simp: gd_answer_def gd_more_def gd_reply_data_def reply_xtra_void_p_and_size_def andthen_def Let_def
      gd_reply_ok_def gd_reply_ok_num_def gd_reply_error_def gd_reply_ok_binary_def gd_reply_ok_valmap_def gd_put_def
      split: gd_reply.splits if_splits option.splits sum.splits)

lemma gd_ready_more: "gd_ready_async lib job out s = Inr ((), t) \<Longrightarrow> gd_more 1 s t"
  by (auto simp: gd_ready_async_def andthen_def gd_more_def dest!: gd_answer_more split: sum.splits)

text \<open>A command that is read is answered there, or its call is made and answered.\<close>

lemma gd_decode_more:
  assumes "gd_decode lib ev s = Inr (job, t)" "1 < length ev" "ev ! 1 \<noteq> []"
  shows "gd_more (case job of None \<Rightarrow> 1 | Some _ \<Rightarrow> 0) s t"
proof -
  obtain b c where char: "EV_GET_CHAR ev (0, 1) = Inr (Some (b, c))"
    using assms(2,3) by (cases "ev ! 1") (auto simp: EV_GET_CHAR_def ev_value_def ev_get_def)
  have "ev ! 1 \<in> set ev" using assms(2) by simp
  then have size: "\<not> length (concat ev) < 1" using assms(3) by auto
  show ?thesis using assms(1) char unfolding gd_decode_def if_not_P [OF size]
    by (auto simp: Let_def gd_more_def gd_reply_error_def gd_reply_ok_num_def gd_badarg_def gd_reply_error_atom_def gd_put_def
        split: if_splits sum.splits option.splits)
qed

lemma gd_outputv_cases:
  assumes "gd_outputv lib ev s = Inr ((), t)"
  obtains (answered) "gd_decode lib ev s = Inr (None, t)"
    | (called) job u out v where "gd_decode lib ev s = Inr (Some job, u)"
      "gd_invoke lib (gj_cmd job) (gj_args job) u = Inr (out, v)" "gd_ready_async lib job out v = Inr ((), t)"
  using assms by (auto simp: gd_outputv_def andthen_def split: sum.splits option.splits)

lemma gd_outputv_more:
  assumes "gd_outputv lib ev s = Inr ((), t)" "1 < length ev" "ev ! 1 \<noteq> []"
  shows "gd_more 1 s t"
  using assms(1)
proof (cases rule: gd_outputv_cases)
  case answered
  then show ?thesis using gd_decode_more [OF _ assms(2,3)] by fastforce
next
  case (called job u out v)
  from gd_decode_more [OF called(1) assms(2,3)] gd_invoke_more [OF called(2)] gd_ready_more [OF called(3)]
  show ?thesis by (simp add: gd_more_def)
qed

definition gd_started :: "'l gd \<Rightarrow> 'l gd_port \<Rightarrow> bool" where
  "gd_started lib s \<longleftrightarrow> (\<exists>l. gd_start lib l = Some s)"

text \<open>A step is a command that is not empty; there are no others.\<close>

fun gd_stepped :: "'l gd \<Rightarrow> iovec option \<Rightarrow> 'l gd_port \<Rightarrow> 'l gd_port \<Rightarrow> bool" where
  "gd_stepped lib None s t = False"
| "gd_stepped lib (Some ev) s t = (1 < length ev \<and> ev ! 1 \<noteq> [] \<and> gd_outputv lib ev s = Inr ((), t))"

interpretation gd_server: edtk_server "gd_started lib" "gd_stepped lib" "\<lambda>s. gd_answered (gd_log s)" for lib
proof
  show "gd_answered (gd_log s) = 0" if "gd_started lib s" for s
    using that by (auto simp: gd_started_def gd_start_def split: if_splits)
  show "gd_answered (gd_log t) = gd_answered (gd_log s) + (case c of None \<Rightarrow> 0 | Some _ \<Rightarrow> 1)"
    if "gd_stepped lib c s t" for c s t
    using that gd_outputv_more [of lib _ s t] by (cases c) (auto simp: gd_more_def)
qed

end
