(* ===== verification/Gd_Safety.thy ===== *)
theory Gd_Safety
  imports Gd_Service
begin

text \<open>
  Which images and files the library has made and not released, according to the log, and what a command
  does to them.
\<close>

section \<open>Objects\<close>

fun gd_pointers :: "gd_value list \<Rightarrow> nat set" where
  "gd_pointers [] = {}"
| "gd_pointers (VPtr p # vs) = insert p (gd_pointers vs)"
| "gd_pointers (_ # vs) = gd_pointers vs"

lemma gd_pointers_iff: "p \<in> gd_pointers vs \<longleftrightarrow> VPtr p \<in> set vs"
  by (induction vs rule: gd_pointers.induct) auto

lemma gd_pointers_append [simp]: "gd_pointers (vs @ ws) = gd_pointers vs \<union> gd_pointers ws"
  by (auto simp: gd_pointers_iff)

text \<open>Objects made and not released.\<close>

fun gd_live :: "gd_log \<Rightarrow> nat set" where
  "gd_live [] = {}"
| "gd_live (GdCall f vs r # h) =
     (let l = (if gd_releases f then gd_live h - gd_pointers vs else gd_live h) in
      case r of RetPtr (Some p) \<Rightarrow> insert p l | _ \<Rightarrow> l)"
| "gd_live (_ # h) = gd_live h"

text \<open>Every call was given objects that were alive then.\<close>

fun gd_safe :: "gd_log \<Rightarrow> bool" where
  "gd_safe [] = True"
| "gd_safe (GdCall f vs r # h) = (gd_pointers vs \<subseteq> gd_live h \<and> gd_safe h)"
| "gd_safe (_ # h) = gd_safe h"

text \<open>
  What is assumed of the libraries: \<open>live\<close> are the objects that exist; a new object is none of them, only the two
  functions that release objects do so, and \<^verbatim>\<open>fclose\<close> does not fail.
\<close>

definition gd_sound :: "'l gd \<Rightarrow> ('l \<Rightarrow> nat set) \<Rightarrow> bool" where
  "gd_sound lib live \<longleftrightarrow>
     (\<forall>f vs l. case gd_ptr lib f vs l of (r, l') \<Rightarrow>
        (case r of None \<Rightarrow> live l' = live l | Some p \<Rightarrow> p \<notin> live l \<and> live l' = insert p (live l))) \<and>
     (\<forall>f vs l. live (snd (gd_int lib f vs l)) = (if gd_releases f then live l - gd_pointers vs else live l)) \<and>
     (\<forall>f vs l. live (gd_void lib f vs l) = (if gd_releases f then live l - gd_pointers vs else live l)) \<and>
     (\<forall>f vs l. live (snd (gd_data lib f vs l)) = live l) \<and>
     (\<forall>vs l. fst (gd_int lib ''fclose'' vs l) = 0)"

definition gd_fine :: "'l gd \<Rightarrow> ('l \<Rightarrow> nat set) \<Rightarrow> 'l gd_port \<Rightarrow> bool" where
  "gd_fine lib live s \<longleftrightarrow> gd_safe (gd_log s) \<and> gd_live (gd_log s) \<subseteq> live (gd_lib s)"

section \<open>Calls\<close>

lemma gd_call_ptr_fine:
  assumes "gd_sound lib live" "gd_fine lib live s" "gd_pointers vs \<subseteq> gd_live (gd_log s)" "\<not> gd_releases f"
    and "gd_call_ptr lib f vs s = (r, t)"
  shows "gd_fine lib live t" "gd_maps t = gd_maps s"
    and "r = None \<Longrightarrow> gd_live (gd_log t) = gd_live (gd_log s)"
    and "r = Some p \<Longrightarrow> p \<notin> gd_live (gd_log s) \<and> gd_live (gd_log t) = insert p (gd_live (gd_log s))"
proof -
  obtain r' l where l: "gd_ptr lib f vs (gd_lib s) = (r', l)" by fastforce
  then have t: "r' = r" "t = (gd_do (GdCall f vs (RetPtr r)) s)\<lparr>gd_lib := l\<rparr>"
    using assms(5) by (auto simp: gd_call_ptr_def)
  have "case gd_ptr lib f vs (gd_lib s) of (r, l') \<Rightarrow>
      (case r of None \<Rightarrow> live l' = live (gd_lib s) | Some p \<Rightarrow> p \<notin> live (gd_lib s) \<and> live l' = insert p (live (gd_lib s)))"
    by (rule assms(1) [unfolded gd_sound_def, THEN conjunct1, THEN spec, THEN spec, THEN spec])
  then have live: "case r of None \<Rightarrow> live l = live (gd_lib s) | Some p \<Rightarrow> p \<notin> live (gd_lib s) \<and> live l = insert p (live (gd_lib s))"
    using l t(1) by simp
  show "gd_maps t = gd_maps s" by (simp add: t(2))
  show "gd_fine lib live t" "r = None \<Longrightarrow> gd_live (gd_log t) = gd_live (gd_log s)"
    "r = Some p \<Longrightarrow> p \<notin> gd_live (gd_log s) \<and> gd_live (gd_log t) = insert p (gd_live (gd_log s))"
    using live assms(2-4) by (auto simp: t(2) gd_fine_def split: option.splits)
qed

lemma gd_call_int_fine:
  assumes "gd_sound lib live" "gd_fine lib live s" "gd_pointers vs \<subseteq> gd_live (gd_log s)"
    and "gd_call_int lib f vs s = (r, t)"
  shows "gd_fine lib live t" "gd_maps t = gd_maps s"
    and "gd_live (gd_log t) = gd_live (gd_log s) - (if gd_releases f then gd_pointers vs else {})"
    and "f = ''fclose'' \<Longrightarrow> r = 0"
proof -
  obtain l where l: "gd_int lib f vs (gd_lib s) = (r, l)" and t: "t = (gd_do (GdCall f vs (RetInt r)) s)\<lparr>gd_lib := l\<rparr>"
    using assms(4) by (auto simp: gd_call_int_def split: prod.splits)
  have "live (snd (gd_int lib f vs (gd_lib s))) = (if gd_releases f then live (gd_lib s) - gd_pointers vs else live (gd_lib s))"
    "fst (gd_int lib ''fclose'' vs (gd_lib s)) = 0"
    using assms(1) unfolding gd_sound_def by blast+
  then have live: "live l = (if gd_releases f then live (gd_lib s) - gd_pointers vs else live (gd_lib s))"
    "f = ''fclose'' \<Longrightarrow> r = 0"
    using l by (auto simp: l)
  show "gd_maps t = gd_maps s" "f = ''fclose'' \<Longrightarrow> r = 0" by (simp_all add: t live(2))
  show "gd_fine lib live t" "gd_live (gd_log t) = gd_live (gd_log s) - (if gd_releases f then gd_pointers vs else {})"
    using live(1) assms(2,3) by (auto simp: t gd_fine_def)
qed

lemma gd_call_void_fine:
  assumes "gd_sound lib live" "gd_fine lib live s" "gd_pointers vs \<subseteq> gd_live (gd_log s)"
  shows "gd_fine lib live (gd_call_void lib f vs s)" "gd_maps (gd_call_void lib f vs s) = gd_maps s"
    and "gd_live (gd_log (gd_call_void lib f vs s)) = gd_live (gd_log s) - (if gd_releases f then gd_pointers vs else {})"
proof -
  have "live (gd_void lib f vs (gd_lib s)) = (if gd_releases f then live (gd_lib s) - gd_pointers vs else live (gd_lib s))"
    using assms(1) unfolding gd_sound_def by blast
  then show "gd_fine lib live (gd_call_void lib f vs s)"
    using assms(2,3) by (auto simp: gd_fine_def gd_call_void_def)
qed (simp_all add: gd_call_void_def Let_def)

lemma gd_call_data_fine:
  assumes "gd_sound lib live" "gd_fine lib live s" "gd_pointers vs \<subseteq> gd_live (gd_log s)"
    and "gd_call_data lib f vs s = (d, t)"
  shows "gd_fine lib live t" "gd_maps t = gd_maps s"
    and "gd_live (gd_log t) = gd_live (gd_log s) - (if gd_releases f then gd_pointers vs else {})"
proof -
  obtain p n l where l: "gd_data lib f vs (gd_lib s) = ((p, n), l)"
    and t: "t = (gd_do (GdCall f vs (RetData p n)) s)\<lparr>gd_lib := l\<rparr>"
    using assms(4) by (auto simp: gd_call_data_def split: prod.splits)
  have "live (snd (gd_data lib f vs (gd_lib s))) = live (gd_lib s)"
    using assms(1) unfolding gd_sound_def by blast
  then show "gd_fine lib live t" "gd_live (gd_log t) = gd_live (gd_log s) - (if gd_releases f then gd_pointers vs else {})"
    using assms(2,3) by (auto simp: t l gd_fine_def)
qed (use assms(4) in \<open>auto simp: gd_call_data_def split: prod.splits\<close>)

section \<open>Calls of a command\<close>

text \<open>What a run does: \<open>gone\<close> is released, and a pointer that is returned is new.\<close>

definition gd_effect :: "'l gd \<Rightarrow> ('l \<Rightarrow> nat set) \<Rightarrow> nat set \<Rightarrow> gd_ret \<Rightarrow> 'l gd_port \<Rightarrow> 'l gd_port \<Rightarrow> bool" where
  "gd_effect lib live gone r s t \<longleftrightarrow> gd_fine lib live t \<and> gd_maps t = gd_maps s \<and>
     gd_live (gd_log s) - gone \<subseteq> gd_live (gd_log t) \<and>
     (\<forall>p. r = RetPtr (Some p) \<longrightarrow> p \<notin> gd_live (gd_log s) \<and> p \<in> gd_live (gd_log t))"

lemma gd_fclose: "gd_releases ''fclose''" "\<not> gd_releases ''fopen''" "gd_releases ''gdImageDestroy''"
  by (simp_all add: gd_releases_def)

lemma gd_apply_effect:
  assumes "gd_sound lib live" "gd_fine lib live s" "gd_pointers vs \<subseteq> gd_live (gd_log s)"
    and "gd_apply lib f res vs s = (r, t)" "res = RPtr \<Longrightarrow> \<not> gd_releases f"
  shows "gd_effect lib live (if gd_releases f then gd_pointers vs else {}) r s t"
proof (cases res)
  case RPtr
  then obtain p where p: "gd_call_ptr lib f vs s = (p, t)" "r = RetPtr p"
    using assms(4) by (auto simp: gd_apply_def split: prod.splits)
  show ?thesis using gd_call_ptr_fine [OF assms(1-3) _ p(1)] assms(5) RPtr p(2)
    by (cases p) (auto simp: gd_effect_def)
next
  case RInt
  then obtain i where i: "gd_call_int lib f vs s = (i, t)" "r = RetInt i"
    using assms(4) by (auto simp: gd_apply_def split: prod.splits)
  show ?thesis using gd_call_int_fine [OF assms(1-3) i(1)] i(2) by (simp add: gd_effect_def)
next
  case RData
  then obtain p n where d: "gd_call_data lib f vs s = ((p, n), t)" "r = RetData p n"
    using assms(4) by (auto simp: gd_apply_def split: prod.splits)
  show ?thesis using gd_call_data_fine [OF assms(1-3) d(1)] d(2) by (simp add: gd_effect_def)
next
  case RVoid
  then show ?thesis using gd_call_void_fine [OF assms(1-3)] assms(4) by (auto simp: gd_effect_def gd_apply_def)
qed

lemma my_gdImageCreateFrom_effect:
  assumes "gd_sound lib live" "gd_fine lib live s" "gd_pointers vs \<subseteq> gd_live (gd_log s)" "\<not> gd_releases f"
    and "my_gdImageCreateFrom lib f vs s = ((r, status), t)" "vs \<noteq> []"
  shows "gd_effect lib live {} (RetPtr r) s t"
proof -
  have vs: "gd_pointers [hd vs, VString b] \<subseteq> gd_pointers vs" "gd_pointers (tl vs) \<subseteq> gd_pointers vs" for b
    using assms(6) by (cases vs; cases "hd vs"; auto simp: gd_pointers_iff)+
  obtain fp s1 where s1: "gd_call_ptr lib ''fopen'' [hd vs, VString [114, 98]] s = (fp, s1)" by fastforce
  note f1 = gd_call_ptr_fine [OF assms(1,2) subset_trans [OF vs(1) assms(3)] gd_fclose(2) s1]
  show ?thesis
  proof (cases fp)
    case None
    then show ?thesis using assms(5) s1 f1 by (auto simp: my_gdImageCreateFrom_def gd_effect_def)
  next
    case (Some q)
    obtain im s2 where s2: "gd_call_ptr lib f (VPtr q # tl vs) s1 = (im, s2)" by fastforce
    have "gd_pointers (VPtr q # tl vs) \<subseteq> gd_live (gd_log s1)" using f1(4) [OF Some] vs(2) assms(3) by auto
    note f2 = gd_call_ptr_fine [OF assms(1) f1(1) this assms(4) s2]
    show ?thesis
    proof (cases im)
      case None
      then show ?thesis using assms(5) s1 s2 Some f1(2) f1(4) [OF Some] f2
        by (auto simp: my_gdImageCreateFrom_def gd_effect_def)
    next
      case im: (Some p)
      obtain i s3 where s3: "gd_call_int lib ''fclose'' [VPtr q] s2 = (i, s3)" by fastforce
      have "gd_pointers [VPtr q] \<subseteq> gd_live (gd_log s2)" using f1(4) [OF Some] f2(4) [OF im] by auto
      note f3 = gd_call_int_fine [OF assms(1) f2(1) this s3]
      have t: "r = Some p" "t = s3"
        using assms(5) s1 s2 s3 Some im f3(4) by (simp_all add: my_gdImageCreateFrom_def)
      show ?thesis using f1(2) f1(4) [OF Some] f2(2) f2(4) [OF im] f3(1-3)
        by (auto simp: t gd_effect_def gd_fclose)
    qed
  qed
qed

lemma gd_with_file_pointers: "gd_pointers (gd_with_file fp vs) \<subseteq> insert fp (gd_pointers vs)"
  by (auto simp: gd_pointers_iff gd_with_file_def split: gd_value.splits)

lemma gd_file_names_pointers: "gd_pointers (gd_file_names vs @ [VString b]) = {}"
  by (auto simp: gd_pointers_iff gd_file_names_def)

lemma my_gdImageWrite_effect:
  assumes "gd_sound lib live" "gd_fine lib live s" "gd_pointers vs \<subseteq> gd_live (gd_log s)" "\<not> gd_releases f"
    and "my_gdImageWrite lib f vs s = (r, t)"
  shows "gd_effect lib live {} (RetInt r) s t"
proof -
  obtain fp s1 where s1: "gd_call_ptr lib ''fopen'' (gd_file_names vs @ [VString [119, 98]]) s = (fp, s1)" by fastforce
  have "gd_pointers (gd_file_names vs @ [VString [119, 98]]) \<subseteq> gd_live (gd_log s)"
    by (simp only: gd_file_names_pointers empty_subsetI)
  note f1 = gd_call_ptr_fine [OF assms(1,2) this gd_fclose(2) s1]
  show ?thesis
  proof (cases fp)
    case None
    then show ?thesis using assms(5) s1 f1 by (auto simp: my_gdImageWrite_def gd_effect_def)
  next
    case (Some q)
    let ?s2 = "gd_call_void lib f (gd_with_file q vs) s1"
    have "gd_pointers (gd_with_file q vs) \<subseteq> gd_live (gd_log s1)"
      using gd_with_file_pointers [of q vs] f1(4) [OF Some] assms(3) by blast
    note f2 = gd_call_void_fine [OF assms(1) f1(1) this, of f]
    obtain i s3 where s3: "gd_call_int lib ''fclose'' [VPtr q] ?s2 = (i, s3)" by fastforce
    have "gd_pointers [VPtr q] \<subseteq> gd_live (gd_log ?s2)" using f1(4) [OF Some] f2(3) assms(4) by auto
    note f3 = gd_call_int_fine [OF assms(1) f2(1) this s3]
    have t: "t = s3" using assms(5) s1 s3 Some by (auto simp: my_gdImageWrite_def Let_def split: if_splits)
    show ?thesis using f1(2) f1(4) [OF Some] f2(2,3) f3(1-3) assms(4)
      by (auto simp: t gd_effect_def gd_fclose)
  qed
qed

section \<open>What the maps hold\<close>

definition gd_entries :: "nat option list \<Rightarrow> nat list" where
  "gd_entries m = map the (filter (\<lambda>x. x \<noteq> None) m)"

text \<open>The images and files; fonts are not objects.\<close>

definition gd_held :: "'l gd_port \<Rightarrow> nat list" where
  "gd_held s = gd_entries (gd_maps s ! 0) @ gd_entries (gd_maps s ! 1)"

lemma gd_entries_simps [simp]:
  "gd_entries [] = []" "gd_entries (None # m) = gd_entries m" "gd_entries (Some p # m) = p # gd_entries m"
  "gd_entries (m @ n) = gd_entries m @ gd_entries n" "gd_entries (replicate k None) = []"
  by (simp_all add: gd_entries_def)

lemma gd_entries_set: "set (gd_entries m) = {p. Some p \<in> set m}"
  by (force simp: gd_entries_def)

lemma gd_entries_out:
  assumes "i < length m" "m ! i = Some p" "distinct (gd_entries m)"
  shows "distinct (gd_entries (m[i := None]))" "set (gd_entries (m[i := None])) = set (gd_entries m) - {p}"
proof -
  have m: "gd_entries m = gd_entries (take i m) @ p # gd_entries (drop (Suc i) m)"
    using assms(1,2) by (subst id_take_nth_drop [OF assms(1)]) simp
  then show "distinct (gd_entries (m[i := None]))" "set (gd_entries (m[i := None])) = set (gd_entries m) - {p}"
    using assms(1,3) by (auto simp: upd_conv_take_nth_drop)
qed

lemma gd_entries_in:
  assumes "i < length m" "m ! i = None" "distinct (gd_entries m)" "p \<notin> set (gd_entries m)"
  shows "distinct (gd_entries (m[i := Some p]))" "set (gd_entries (m[i := Some p])) = insert p (set (gd_entries m))"
proof -
  have m: "gd_entries m = gd_entries (take i m) @ gd_entries (drop (Suc i) m)"
    using assms(1,2) by (subst id_take_nth_drop [OF assms(1)]) simp
  then show "distinct (gd_entries (m[i := Some p]))" "set (gd_entries (m[i := Some p])) = insert p (set (gd_entries m))"
    using assms(1,3,4) by (auto simp: upd_conv_take_nth_drop)
qed

lemma find_unused_None: "find_unused_index m = Some i \<Longrightarrow> i < length m \<and> m ! i = None"
  by (induction m arbitrary: i rule: find_unused_index.induct) auto

text \<open>Arguments from the maps are among what the maps hold.\<close>

lemma gd_values_held:
  assumes "gd_values args = Inr vs" "list_all2 (tk_fits (gd_maps s)) ks args" "\<forall>m. KMap m \<in> set ks \<longrightarrow> m < 3"
  shows "gd_pointers vs \<subseteq> set (gd_held s)"
  using assms(2,1,3)
proof (induction arbitrary: vs rule: list_all2_induct)
  case Nil
  then show ?case by simp
next
  case (Cons k ks a as)
  from Cons.prems(1) obtain v ws where v: "gd_value_of a = Inr v" "gd_values as = Inr ws" "vs = v # ws"
    by (auto split: sum.splits)
  have rec: "gd_pointers ws \<subseteq> set (gd_held s)" using Cons.IH [OF v(2)] Cons.prems(2) by simp
  show ?case
  proof (cases k)
    case (KMap m)
    then obtain i p where a: "a = APtr m i p" "i < length (gd_maps s ! m)" "gd_maps s ! m ! i = Some p"
      using Cons.hyps(1) by auto
    then have "p \<in> set (gd_entries (gd_maps s ! m))" using nth_mem [OF a(2)] by (simp add: gd_entries_set)
    moreover have "m < 3" using Cons.prems(2) KMap by simp
    ultimately have "m \<noteq> 2 \<longrightarrow> p \<in> set (gd_held s)" by (auto simp: gd_held_def less_Suc_eq numeral_3_eq_3)
    then show ?thesis using v a rec by (cases "m = 2") auto
  qed (use Cons.hyps(1) v rec in \<open>auto split: if_splits simp: subset_iff\<close>)
qed

section \<open>One command at a time\<close>

definition gd_inv :: "'l gd \<Rightarrow> ('l \<Rightarrow> nat set) \<Rightarrow> 'l gd_port \<Rightarrow> bool" where
  "gd_inv lib live s \<longleftrightarrow> gd_fine lib live s \<and> length (gd_maps s) = 3 \<and> distinct (gd_held s) \<and>
     set (gd_held s) \<subseteq> gd_live (gd_log s)"

text \<open>Nothing happens but entries of the log that are not calls.\<close>

definition gd_quiet :: "'l gd_port \<Rightarrow> 'l gd_port \<Rightarrow> bool" where
  "gd_quiet s t \<longleftrightarrow> gd_lib t = gd_lib s \<and> gd_maps t = gd_maps s \<and> gd_live (gd_log t) = gd_live (gd_log s) \<and>
     gd_safe (gd_log t) = gd_safe (gd_log s)"

lemma gd_inv_quiet: "gd_inv lib live s \<Longrightarrow> gd_quiet s t \<Longrightarrow> gd_inv lib live t"
  by (simp add: gd_inv_def gd_quiet_def gd_fine_def gd_held_def)

lemma gd_fine_quiet: "gd_fine lib live s \<Longrightarrow> gd_quiet s t \<Longrightarrow> gd_fine lib live t"
  by (simp add: gd_quiet_def gd_fine_def)

lemmas gd_reply_defs = gd_reply_ok_def gd_reply_ok_num_def gd_reply_error_def gd_reply_ok_binary_def
  gd_reply_ok_valmap_def gd_badarg_def gd_reply_error_atom_def gd_put_def

lemma gd_replies_quiet:
  "gd_quiet s (gd_reply_ok s)" "gd_quiet s (gd_reply_ok_num n s)" "gd_quiet s (gd_reply_error n s)"
  "gd_quiet s (gd_reply_ok_binary bs s)" "gd_quiet s (gd_reply_ok_valmap a i s)" "gd_quiet s (gd_badarg s)"
  "gd_quiet s (gd_free_data r s)"
  by (auto simp: gd_quiet_def gd_reply_defs gd_free_data_def split: gd_ret.split option.split)

lemma gd_quiet_trans: "gd_quiet s t \<Longrightarrow> gd_quiet t u \<Longrightarrow> gd_quiet s u"
  by (simp add: gd_quiet_def)

lemma gd_decode_quiet:
  assumes "gd_decode lib ev s = Inr (job, t)"
  shows "gd_quiet s t \<and> (\<forall>cmd args. job = Some \<lparr>gj_cmd = cmd, gj_args = args\<rparr> \<longrightarrow> 0 < cmd \<and> cmd \<le> 63 \<and>
      list_all2 (tk_fits (gd_maps s)) (gd_kinds ! (unat cmd - 1)) args)"
proof (cases "length (concat ev) < 1")
  case True
  then show ?thesis using assms by (simp add: gd_decode_def gd_quiet_def)
next
  case False
  obtain got where got: "EV_GET_CHAR ev (0, 1) = Inr got"
    using assms unfolding gd_decode_def if_not_P [OF False] by (auto split: sum.splits)
  define cmd where "cmd = (case got of None \<Rightarrow> word_of_int (gd_unset lib) | Some (b, c) \<Rightarrow> b)"
  define c where "c = (case got of None \<Rightarrow> (0, 1) | Some (b, c) \<Rightarrow> c)"
  define u where "u = gd_do GdAlloc (case got of None \<Rightarrow> gd_reply_error (gd_EINVAL lib) s | Some _ \<Rightarrow> s)"
  have u: "gd_quiet s u" "gd_maps u = gd_maps s"
    by (auto simp: u_def gd_quiet_def gd_reply_defs split: option.split)
  have run: "(if \<not> gd_got lib u then Inr (None, gd_reply_error (gd_ENOMEM lib) u)
     else if cmd = 0 then
       (case tk_uint32 ev (gd_debug u) c (\<lambda>v _. Inr v) of
          Inl e \<Rightarrow> Inl e
        | Inr v \<Rightarrow> Inr (None, gd_do GdFree (gd_reply_ok_num v (u\<lparr>gd_debug := v\<rparr>))))
     else if 63 < cmd then Inr (None, gd_badarg u)
     else
       (case tk_args (gd_unset lib) (gd_maps u) ev (gd_unset lib) (gd_unset lib) (gd_kinds ! (unat cmd - 1)) c of
          Inl e \<Rightarrow> Inl e
        | Inr None \<Rightarrow> Inr (None, gd_badarg u)
        | Inr (Some args) \<Rightarrow>
            if gd_bad_polygon cmd args then Inr (None, gd_badarg u)
            else Inr (Some \<lparr>gj_cmd = cmd, gj_args = args\<rparr>, u)))
      = Inr (job, t)"
  proof (cases got)
    case None
    then show ?thesis using assms unfolding gd_decode_def if_not_P [OF False] cmd_def c_def u_def
      by (simp only: got None Let_def option.case prod.case sum.case)
  next
    case (Some bc)
    then obtain b d where "got = Some (b, d)" by (cases bc) auto
    then show ?thesis using assms unfolding gd_decode_def if_not_P [OF False] cmd_def c_def u_def
      by (simp only: got Let_def option.case prod.case sum.case)
  qed
  have replies: "gd_quiet u (gd_reply_error n u)" "gd_quiet u (gd_badarg u)"
    "gd_quiet u (gd_do GdFree (gd_reply_ok_num v (u\<lparr>gd_debug := v\<rparr>)))" for n v
    by (simp_all add: gd_quiet_def gd_reply_defs)
  consider "gd_quiet u t" "job = None"
    | args where "tk_args (gd_unset lib) (gd_maps u) ev (gd_unset lib) (gd_unset lib) (gd_kinds ! (unat cmd - 1)) c = Inr (Some args)"
      "cmd \<noteq> 0" "\<not> 63 < cmd" "t = u" "job = Some \<lparr>gj_cmd = cmd, gj_args = args\<rparr>"
    using run replies by (auto split: if_splits sum.splits option.splits)
  then show ?thesis
  proof cases
    case 1
    then show ?thesis using u gd_quiet_trans by blast
  next
    case (2 args)
    have "list_all2 (tk_fits (gd_maps s)) (gd_kinds ! (unat cmd - 1)) args" using tk_args_fits [OF 2(1)] u(2) by simp
    moreover have "0 < cmd" "cmd \<le> 63" using 2(2,3) by (simp_all add: word_gt_0)
    ultimately show ?thesis using u(1) 2(4,5) by auto
  qed
qed

lemma gd_run_effect:
  assumes "gd_sound lib live" "gd_inv lib live s" "list_all2 (tk_fits (gd_maps s)) ks args"
    and "\<forall>m. KMap m \<in> set ks \<longrightarrow> m < 3" "gd_run lib fn res args s = Inr ((r, status), t)" "gd_row_ok ks (fn, res, ex) rep"
    and "fn \<noteq> GdFont"
  shows "\<exists>gone. gd_effect lib live gone r s t \<and>
    (gone = {} \<or> (\<exists>m p i. args = [APtr m i p] \<and> gone = {p} \<and>
       (rep = ReplyClose \<and> m = 1 \<and> r = RetInt 0 \<or> rep = ReplyDestroy \<and> m = 0)))"
proof -
  have fine: "gd_fine lib live s" and held: "set (gd_held s) \<subseteq> gd_live (gd_log s)"
    using assms(2) by (simp_all add: gd_inv_def)
  have ptrs: "gd_pointers vs \<subseteq> gd_live (gd_log s)" if "gd_values args = Inr vs" for vs
    using gd_values_held [OF that assms(3,4)] held by blast
  have first: "p \<in> gd_live (gd_log s)" if "args = APtr m i p # as" "m < 2" for m i p as
  proof -
    have "list_all2 (tk_fits (gd_maps s)) ks (APtr m i p # as)" using assms(3) that(1) by simp
    then obtain k ks' where "ks = k # ks'" "tk_fits (gd_maps s) k (APtr m i p)" by (auto simp: list_all2_Cons2)
    then have ks: "ks = KMap m # ks'" "i < length (gd_maps s ! m)" "gd_maps s ! m ! i = Some p" by (cases k; simp)+
    then have "p \<in> set (gd_entries (gd_maps s ! m))" using nth_mem [OF ks(2)] by (simp add: gd_entries_set)
    then show ?thesis using that(2) held by (auto simp: gd_held_def less_2_cases_iff)
  qed
  show ?thesis
  proof (cases fn)
    case (Gd f)
    then obtain vs where vs: "gd_values args = Inr vs" "gd_apply lib f res vs s = (r, t)"
      using assms(5) by (auto simp: gd_run_def split: sum.splits prod.splits)
    consider "\<not> gd_releases f" | "rep = ReplyClose" "f = ''fclose''" "ks = [KFile]" "res = RInt"
      | "rep = ReplyDestroy" "f = ''gdImageDestroy''" "ks = [KImage]" "res = RVoid"
      using assms(6) Gd by (cases rep) (auto split: if_splits)
    then show ?thesis
    proof cases
      case 1
      then show ?thesis using gd_apply_effect [OF assms(1) fine ptrs [OF vs(1)] vs(2)] by auto
    next
      case 2
      then obtain i p where args: "args = [APtr 1 i p]" using assms(3) by (auto simp: list_all2_Cons1)
      then have v: "vs = [VPtr p]" using vs(1) by simp
      have "gd_effect lib live {p} r s t"
        using gd_apply_effect [OF assms(1) fine ptrs [OF vs(1)] vs(2)] 2 v by (simp add: gd_fclose)
      moreover obtain q where q: "gd_call_int lib f vs s = (q, t)" "r = RetInt q"
        using vs(2) 2(4) by (auto simp: gd_apply_def split: prod.splits)
      have "q = 0" using gd_call_int_fine(4) [OF assms(1) fine ptrs [OF vs(1)] q(1)] 2(2) by simp
      ultimately show ?thesis using 2(1) args q(2) by blast
    next
      case 3
      then obtain i p where args: "args = [APtr 0 i p]" using assms(3) by (auto simp: list_all2_Cons1)
      then have "vs = [VPtr p]" using vs(1) by simp
      then have "gd_effect lib live {p} r s t"
        using gd_apply_effect [OF assms(1) fine ptrs [OF vs(1)] vs(2)] 3 by (simp add: gd_fclose)
      then show ?thesis using 3(1) args by blast
    qed
  next
    case (GdCreate f)
    then obtain vs p where vs: "gd_values args = Inr vs" "my_gdImageCreateFrom lib f vs s = ((p, status), t)" "r = RetPtr p"
      using assms(5) by (auto simp: gd_run_def split: sum.splits prod.splits)
    have f: "\<not> gd_releases f" using assms(6) GdCreate by (cases rep) (auto split: if_splits)
    have "ks \<noteq> []" using assms(6) GdCreate by (cases rep) (auto split: if_splits)
    then obtain a as where "args = a # as" using assms(3) by (cases args) auto
    then have "vs \<noteq> []" using vs(1) by (auto split: sum.splits)
    then show ?thesis using my_gdImageCreateFrom_effect [OF assms(1) fine ptrs [OF vs(1)] f vs(2)] vs(3) by blast
  next
    case (GdWrite f)
    then obtain vs i where vs: "gd_values args = Inr vs" "my_gdImageWrite lib f vs s = (i, t)" "r = RetInt i"
      using assms(5) by (auto simp: gd_run_def split: sum.splits prod.splits)
    have f: "\<not> gd_releases f" using assms(6) GdWrite by (cases rep) (auto split: if_splits)
    show ?thesis using my_gdImageWrite_effect [OF assms(1) fine ptrs [OF vs(1)] f vs(2)] vs(3) by blast
  next
    case (GdPolygon f)
    have ret: "\<And>q. r \<noteq> RetPtr q"
      using gd_run_int [of lib fn res args s "(r, status)" t] assms(5) GdPolygon by auto
    from GdPolygon obtain m i im k p n color where args: "args = [APtr m i im, ABytes k p, AInt n, AInt color]"
      "my_gdImagePolygon lib f im p n color s = Inr (gd_ret_int r, t)" using gd_run_polygon [of lib f res args s "(r, status)" t] assms(5) by auto
    have row: "\<not> gd_releases f" "ks \<noteq> []" "hd ks = KImage" using assms(6) GdPolygon by (cases rep; auto split: if_splits)+
    have im: "im \<in> gd_live (gd_log s)" using first [OF args(1)] row assms(3) by (cases ks) (auto simp: args(1))
    have "gd_effect lib live {} r s t"
    proof (cases "n > 512")
      case True
      then show ?thesis using args(2) fine ret by (auto simp: my_gdImagePolygon_def gd_effect_def)
    next
      case False
      then obtain v where t: "t = gd_call_void lib f [VPtr im, VPoints v, VInt n, VInt color] s"
        using args(2) by (auto simp: my_gdImagePolygon_def split: option.splits)
      have "gd_pointers [VPtr im, VPoints v, VInt n, VInt color] \<subseteq> gd_live (gd_log s)" using im by simp
      from gd_call_void_fine [OF assms(1) fine this, of f] row(1) ret GdPolygon show ?thesis
        by (simp add: gd_effect_def t)
    qed
    then show ?thesis by blast
  next
    case (GdStyle f)
    have ret: "\<And>q. r \<noteq> RetPtr q"
      using gd_run_int [of lib fn res args s "(r, status)" t] assms(5) GdStyle by auto
    from GdStyle obtain m i im k p n where args: "args = [APtr m i im, ABytes k p, AInt n]"
      "my_gdImageSetStyle lib f im p n s = Inr (gd_ret_int r, t)" using gd_run_style [of lib f res args s "(r, status)" t] assms(5) by auto
    have row: "\<not> gd_releases f" "ks \<noteq> []" "hd ks = KImage" using assms(6) GdStyle by (cases rep; auto split: if_splits)+
    have im: "im \<in> gd_live (gd_log s)" using first [OF args(1)] row assms(3) by (cases ks) (auto simp: args(1))
    have "gd_effect lib live {} r s t"
    proof (cases "n > 512")
      case True
      then show ?thesis using args(2) fine ret by (auto simp: my_gdImageSetStyle_def gd_effect_def)
    next
      case False
      then obtain v where t: "t = gd_call_void lib f [VPtr im, VInts v, VInt n] s"
        using args(2) by (auto simp: my_gdImageSetStyle_def split: option.splits)
      have "gd_pointers [VPtr im, VInts v, VInt n] \<subseteq> gd_live (gd_log s)" using im by simp
      from gd_call_void_fine [OF assms(1) fine this, of f] row(1) ret GdStyle show ?thesis
        by (simp add: gd_effect_def t)
    qed
    then show ?thesis by blast
  next
    case GdFont
    then show ?thesis using assms(7) by simp
  qed
qed

end
