(* ===== verification/Gd_Sessions.thy ===== *)
theory Gd_Sessions
  imports Gd_Safety
begin

text \<open>
  Sessions: no client makes the driver hand a released image or file to the library, up to and including
  the stop of the port; and a small library to evaluate with.
\<close>

section \<open>Answers and the maps\<close>

lemma gd_set_simps [simp]:
  "gd_lib (gd_set m i x s) = gd_lib s" "length (gd_maps (gd_set m i x s)) = length (gd_maps s)"
  by (simp_all add: gd_set_def)

lemma gd_held_set:
  assumes "length (gd_maps s) = 3"
  shows "gd_held (gd_set m i x s) =
    (if m = 0 then gd_entries ((gd_maps s ! 0)[i := x]) @ gd_entries (gd_maps s ! 1)
     else if m = 1 then gd_entries (gd_maps s ! 0) @ gd_entries ((gd_maps s ! 1)[i := x])
     else gd_held s)"
  using assms by (auto simp: gd_held_def gd_set_def nth_list_update)

lemma gd_held_out:
  assumes "length (gd_maps s) = 3" "distinct (gd_held s)" "m < 2" "i < length (gd_maps s ! m)" "gd_maps s ! m ! i = Some p"
  shows "distinct (gd_held (gd_set m i None s))" "set (gd_held (gd_set m i None s)) = set (gd_held s) - {p}"
proof -
  have d: "distinct (gd_entries (gd_maps s ! m))" using assms(2,3) by (auto simp: gd_held_def less_2_cases_iff)
  note out = gd_entries_out [OF assms(4,5) d]
  have p: "p \<in> set (gd_entries (gd_maps s ! m))" using assms(4,5) nth_mem [OF assms(4)] by (simp add: gd_entries_set)
  show "distinct (gd_held (gd_set m i None s))"
    using out assms(2,3) unfolding gd_held_set [OF assms(1)] by (auto simp: gd_held_def less_2_cases_iff)
  show "set (gd_held (gd_set m i None s)) = set (gd_held s) - {p}"
    using out p assms(2,3) unfolding gd_held_set [OF assms(1)] by (auto simp: gd_held_def less_2_cases_iff)
qed

lemma gd_held_in:
  assumes "length (gd_maps s) = 3" "distinct (gd_held s)" "m < 2" "find_unused_index (gd_maps s ! m) = Some i"
    and "p \<notin> set (gd_held s)"
  shows "distinct (gd_held (gd_set m i (Some p) s))" "set (gd_held (gd_set m i (Some p) s)) = insert p (set (gd_held s))"
proof -
  have d: "distinct (gd_entries (gd_maps s ! m))" "p \<notin> set (gd_entries (gd_maps s ! m))"
    using assms(2,3,5) by (auto simp: gd_held_def less_2_cases_iff)
  have i: "i < length (gd_maps s ! m)" "gd_maps s ! m ! i = None" using find_unused_None [OF assms(4)] by simp_all
  note out = gd_entries_in [OF i d]
  show "distinct (gd_held (gd_set m i (Some p) s))" "set (gd_held (gd_set m i (Some p) s)) = insert p (set (gd_held s))"
    using out assms(2,3,5) unfolding gd_held_set [OF assms(1)] by (auto simp: gd_held_def less_2_cases_iff)
qed

text \<open>Setting an unused entry to NULL, or a font, does not matter.\<close>

lemma gd_set_unused:
  assumes "find_unused_index (gd_maps s ! m) = Some i"
  shows "gd_set m i None s = s"
proof -
  have "(gd_maps s ! m)[i := None] = gd_maps s ! m" using find_unused_None [OF assms] by (metis list_update_id)
  then show ?thesis by (cases s) (simp add: gd_set_def)
qed

lemma gd_inv_set_font: "gd_inv lib live s \<Longrightarrow> gd_inv lib live (gd_set 2 i x s)"
  using gd_held_set [of s 2 i x] by (simp add: gd_inv_def gd_fine_def)

lemma gd_inv_out:
  assumes "gd_inv lib live s" "gd_fine lib live t" "gd_maps t = gd_maps s" "gd_live (gd_log s) - {p} \<subseteq> gd_live (gd_log t)"
    and "m < 2" "i < length (gd_maps s ! m)" "gd_maps s ! m ! i = Some p"
  shows "gd_inv lib live (gd_set m i None t)"
proof -
  have t: "length (gd_maps t) = 3" "distinct (gd_held t)" "i < length (gd_maps t ! m)" "gd_maps t ! m ! i = Some p"
    "gd_held t = gd_held s"
    using assms by (simp_all add: gd_inv_def gd_held_def)
  note out = gd_held_out [OF t(1,2) assms(5) t(3,4)]
  then show ?thesis using assms(1,2,4) t by (auto simp: gd_inv_def gd_fine_def)
qed

lemma gd_inv_in:
  assumes "gd_inv lib live s" "m < 2" "find_unused_index (gd_maps s ! m) = Some i"
    and "p \<notin> set (gd_held s)" "p \<in> gd_live (gd_log s)"
  shows "gd_inv lib live (gd_set m i (Some p) s)"
  using gd_held_in [of s m i p] assms by (auto simp: gd_inv_def gd_fine_def)

text \<open>Answers that leave the maps alone.\<close>

lemma gd_answer_quiet:
  assumes "gd_answer lib job out s = Inr ((), t)"
    and "gd_replies ! (unat (gj_cmd job) - 1) \<in> {ReplyNum, ReplyNumAlways, ReplyOk, ReplyBinary, ReplyXtra}"
  shows "gd_quiet s t"
  using assms
  by (auto simp: gd_answer_def gd_quiet_def gd_reply_data_def reply_xtra_void_p_and_size_def andthen_def Let_def gd_reply_defs
      gd_free_data_def split: if_splits option.splits sum.splits gd_ret.splits)

section \<open>A command\<close>

lemma gd_effect_inv:
  "gd_inv lib live s \<Longrightarrow> gd_effect lib live {} r s t \<Longrightarrow> gd_inv lib live t"
  by (auto simp: gd_inv_def gd_effect_def gd_held_def)

lemma gd_job_inv:
  assumes sound: "gd_sound lib live" and inv: "gd_inv lib live s"
    and cmd: "0 < cmd" "cmd \<le> 63" and fits: "list_all2 (tk_fits (gd_maps s)) (gd_kinds ! (unat cmd - 1)) args"
    and run: "gd_invoke lib cmd args s = Inr (out, t)"
    and answer: "gd_answer lib \<lparr>gj_cmd = cmd, gj_args = args\<rparr> out t = Inr ((), u)"
  shows "gd_inv lib live u"
proof -
  let ?i = "unat cmd - 1" and ?ks = "gd_kinds ! (unat cmd - 1)" and ?rep = "gd_replies ! (unat cmd - 1)"
  have "unat cmd \<le> 63" using cmd(2) by (simp add: word_le_nat_alt)
  moreover have "0 < unat cmd" using cmd(1) by (simp add: word_less_nat_alt)
  ultimately have i: "?i < 63" by simp
  obtain fn res ex where call: "gd_calls ! ?i = (fn, res, ex)" by (metis surj_pair)
  have row: "gd_row_ok ?ks (fn, res, ex) ?rep" using gd_rows(1) [OF i] call by simp
  have ks: "\<forall>m. KMap m \<in> set ?ks \<longrightarrow> m < 3" using gd_rows(2) [OF i] by blast
  obtain r status where r: "gd_run lib fn res args s = Inr ((r, status), t)"
    "out = gd_expected lib ex r status (gd_errno lib (gd_lib t))"
    using run unfolding gd_invoke_def call prod.case by (auto simp: andthen_def split: sum.splits prod.splits)
  have ret: "out_ret out = r" by (simp add: r(2))
  show ?thesis
  proof (cases "fn = GdFont")
    case True
    then obtain m where "?rep = ReplyNew m" using row by (cases ?rep) (auto split: if_splits)
    then have rep: "?rep = ReplyNew 2" using row True by (auto split: if_splits)
    have t: "t = s" using gd_run_font r(1) True by fastforce
    have inv': "gd_inv lib live t" using inv t by simp
    show ?thesis using answer rep gd_inv_quiet [OF inv' gd_replies_quiet(3)]
        gd_inv_quiet [OF gd_inv_set_font [OF inv'] gd_replies_quiet(5)]
      by (auto simp: gd_answer_def split: if_splits option.splits)
  next
    case False
    from gd_run_effect [OF sound inv fits ks r(1) row False] obtain gone where
      eff: "gd_effect lib live gone r s t" and gone: "gone = {} \<or> (\<exists>m p i. args = [APtr m i p] \<and> gone = {p} \<and>
       (?rep = ReplyClose \<and> m = 1 \<and> r = RetInt 0 \<or> ?rep = ReplyDestroy \<and> m = 0))" by blast
    have fine: "gd_fine lib live t" "gd_maps t = gd_maps s" "gd_live (gd_log s) - gone \<subseteq> gd_live (gd_log t)"
      using eff by (simp_all add: gd_effect_def gd_fine_def)
    have out: "gd_inv lib live (cleanup_valmap_index m args t)"
      if "args = [APtr m i p]" "gone = {} \<or> gone = {p}" "m < 2" "?ks = [KMap m]" for m i p
    proof -
      have "i < length (gd_maps s ! m)" "gd_maps s ! m ! i = Some p" using fits that(1,4) by simp_all
      from gd_inv_out [OF inv fine(1,2) _ that(3) this] show ?thesis
        using fine(3) that(1,2) by (auto simp: cleanup_valmap_index_def)
    qed
    show ?thesis
    proof (cases ?rep)
      case (ReplyNew m)
      then have m: "m < 2" using row False by (auto split: if_splits)
      have "gone = {}" using gone ReplyNew by auto
      then have inv': "gd_inv lib live t" using gd_effect_inv [OF inv] eff by simp
      have new: "gd_inv lib live (gd_set m i (gd_ret_ptr r) t)" if "find_unused_index (gd_maps t ! m) = Some i" for i
      proof (cases "gd_ret_ptr r")
        case None
        then show ?thesis using gd_set_unused [OF that] inv' by simp
      next
        case (Some p)
        then have "r = RetPtr (Some p)" by (simp add: gd_ret_ptr_def split: gd_ret.splits)
        then have p: "p \<notin> gd_live (gd_log s)" "p \<in> gd_live (gd_log t)" using eff by (simp_all add: gd_effect_def)
        have "set (gd_held t) \<subseteq> gd_live (gd_log s)" using inv fine(2) by (simp add: gd_inv_def gd_held_def)
        then have "p \<notin> set (gd_held t)" using p(1) by blast
        from gd_inv_in [OF inv' m that this p(2)] show ?thesis by (simp add: Some)
      qed
      show ?thesis using answer ReplyNew gd_inv_quiet [OF inv' gd_replies_quiet(3)]
          gd_inv_quiet [OF new gd_replies_quiet(5)]
        by (auto simp: gd_answer_def ret split: if_splits option.splits)
    next
      case ReplyClose
      then have row': "?ks = [KFile]" "fn = Gd ''fclose''" "res = RInt" "ex = EZero ErrErrno" using row by simp_all
      then obtain j p where args: "args = [APtr 1 j p]" using fits by (auto simp: list_all2_Cons1)
      obtain q where q: "gd_call_int lib ''fclose'' [VPtr p] s = (q, t)" "r = RetInt q"
        using r(1) row'(2,3) args by (auto simp: gd_run_def gd_apply_def split: prod.splits)
      have "j < length (gd_maps s ! 1)" "gd_maps s ! 1 ! j = Some p" using fits row'(1) args by simp_all
      then have "p \<in> set (gd_entries (gd_maps s ! 1))" using nth_mem [of j "gd_maps s ! 1"]
        by (simp only: gd_entries_set mem_Collect_eq)
      then have "gd_pointers [VPtr p] \<subseteq> gd_live (gd_log s)" using inv by (auto simp: gd_inv_def gd_held_def)
      with gd_call_int_fine(4) [OF sound _ _ q(1)] inv have "q = 0" by (simp add: gd_inv_def)
      then have ok: "out_ok out" using q(2) row'(4) by (simp add: r(2) gd_expected_def)
      have "gone = {} \<or> gone = {p}" using gone args by auto
      from out [OF args this _ row'(1)] have "gd_inv lib live (cleanup_valmap_index 1 args t)" by simp
      from gd_inv_quiet [OF this gd_replies_quiet(2)] show ?thesis
        using answer ReplyClose ok by (auto simp: gd_answer_def)
    next
      case ReplyDestroy
      then have row': "?ks = [KImage]" using row by simp
      then obtain j p where args: "args = [APtr 0 j p]" using fits by (auto simp: list_all2_Cons1)
      have "gone = {} \<or> gone = {p}" using gone args by auto
      from out [OF args this _ row'] have "gd_inv lib live (cleanup_valmap_index 0 args t)" by simp
      from gd_inv_quiet [OF this gd_replies_quiet(1)] show ?thesis
        using answer ReplyDestroy by (auto simp: gd_answer_def)
    qed (use gone eff gd_effect_inv [OF inv] gd_inv_quiet [OF _ gd_answer_quiet [OF answer]]
      in auto)
  qed
qed

lemma gd_outputv_inv:
  assumes "gd_sound lib live" "gd_inv lib live s" "gd_outputv lib ev s = Inr ((), t)"
  shows "gd_inv lib live t"
  using assms(3)
proof (cases rule: gd_outputv_cases)
  case answered
  then show ?thesis using gd_decode_quiet gd_inv_quiet [OF assms(2)] by blast
next
  case (called job u out v)
  obtain cmd args where job: "job = \<lparr>gj_cmd = cmd, gj_args = args\<rparr>" by (cases job)
  have quiet: "gd_quiet s u" and fits: "0 < cmd" "cmd \<le> 63" "list_all2 (tk_fits (gd_maps u)) (gd_kinds ! (unat cmd - 1)) args"
    using gd_decode_quiet [OF called(1)] by (auto simp: job gd_quiet_def)
  obtain w where w: "gd_answer lib \<lparr>gj_cmd = cmd, gj_args = args\<rparr> out v = Inr ((), w)" "t = gd_do GdFree w"
    using called(3) by (auto simp: job gd_ready_async_def andthen_def split: sum.splits)
  have "gd_quiet w t" by (simp add: w(2) gd_quiet_def)
  moreover have "gd_inv lib live w"
    using gd_job_inv [OF assms(1) gd_inv_quiet [OF assms(2) quiet] fits _ w(1)] called(2) by (simp add: job)
  ultimately show ?thesis using gd_inv_quiet by blast
qed

lemma gd_session_inv:
  "gd_sound lib live \<Longrightarrow> gd_inv lib live s \<Longrightarrow> gd_session lib evs s = Inr ((), t) \<Longrightarrow> gd_inv lib live t"
proof (induction evs arbitrary: s)
  case Nil
  then show ?case by simp
next
  case (Cons ev evs)
  then obtain s1 where s1: "gd_outputv lib ev s = Inr ((), s1)" "gd_session lib evs s1 = Inr ((), t)"
    by (auto simp: andthen_def split: sum.splits)
  from gd_outputv_inv [OF Cons.prems(1,2) s1(1)] show ?case using Cons.IH [of s1] Cons.prems(1) s1(2) by blast
qed

lemma gd_start_inv: "gd_start lib l = Some s \<Longrightarrow> gd_inv lib live s"
  by (auto simp: gd_start_def gd_inv_def gd_fine_def gd_held_def split: if_splits)

section \<open>Stopping\<close>

lemma gd_destroy_all_inv:
  assumes "gd_sound lib live" "gd_fine lib live s" "distinct (gd_entries m)" "set (gd_entries m) \<subseteq> gd_live (gd_log s)"
  shows "gd_fine lib live (gd_destroy_all lib m s) \<and>
    gd_live (gd_log s) - set (gd_entries m) = gd_live (gd_log (gd_destroy_all lib m s))"
  using assms
proof (induction m arbitrary: s)
  case Nil
  then show ?case by simp
next
  case (Cons x m)
  show ?case
  proof (cases x)
    case None
    then show ?thesis using Cons by simp
  next
    case (Some p)
    let ?s = "gd_call_void lib ''gdImageDestroy'' [VPtr p] s"
    have "gd_pointers [VPtr p] \<subseteq> gd_live (gd_log s)" using Cons.prems(4) Some by simp
    note d = gd_call_void_fine [OF Cons.prems(1,2) this, of "''gdImageDestroy''"]
    have "gd_live (gd_log ?s) = gd_live (gd_log s) - {p}" using d(3) by (simp add: gd_fclose)
    then show ?thesis using Cons.IH [OF Cons.prems(1) d(1)] Cons.prems(3,4) Some by auto
  qed
qed

lemma gd_close_all_inv:
  assumes "gd_sound lib live" "gd_fine lib live s" "distinct (gd_entries m)" "set (gd_entries m) \<subseteq> gd_live (gd_log s)"
  shows "gd_fine lib live (gd_close_all lib m s) \<and>
    gd_live (gd_log s) - set (gd_entries m) = gd_live (gd_log (gd_close_all lib m s))"
  using assms
proof (induction m arbitrary: s)
  case Nil
  then show ?case by simp
next
  case (Cons x m)
  show ?case
  proof (cases x)
    case None
    then show ?thesis using Cons by simp
  next
    case (Some p)
    obtain r t where t: "gd_call_int lib ''fclose'' [VPtr p] s = (r, t)" by fastforce
    have "gd_pointers [VPtr p] \<subseteq> gd_live (gd_log s)" using Cons.prems(4) Some by simp
    note d = gd_call_int_fine [OF Cons.prems(1,2) this t]
    have "gd_live (gd_log t) = gd_live (gd_log s) - {p}" using d(3) by (simp add: gd_fclose)
    then show ?thesis using Cons.IH [OF Cons.prems(1) d(1)] Cons.prems(3,4) Some t by auto
  qed
qed

text \<open>What is alive afterwards is what was alive and in no map.\<close>

lemma gd_stop_inv:
  assumes "gd_sound lib live" "gd_inv lib live s"
  shows "gd_safe (gd_log (gd_stop lib s)) \<and>
    gd_live (gd_log (gd_stop lib s)) = gd_live (gd_log s) - set (gd_held s)"
proof -
  have s: "gd_fine lib live s" "distinct (gd_entries (gd_maps s ! 0))" "distinct (gd_entries (gd_maps s ! 1))"
    "set (gd_entries (gd_maps s ! 0)) \<subseteq> gd_live (gd_log s)" "set (gd_entries (gd_maps s ! 1)) \<subseteq> gd_live (gd_log s)"
    "set (gd_entries (gd_maps s ! 0)) \<inter> set (gd_entries (gd_maps s ! 1)) = {}"
    using assms(2) by (auto simp: gd_inv_def gd_held_def)
  let ?s = "gd_destroy_all lib (gd_maps s ! 0) s"
  note d = gd_destroy_all_inv [OF assms(1) s(1,2,4)]
  have "set (gd_entries (gd_maps s ! 1)) \<subseteq> gd_live (gd_log ?s)" using d s(5,6) by blast
  note c = gd_close_all_inv [OF assms(1) _ s(3) this]
  show ?thesis using c d by (auto simp: gd_stop_def gd_fine_def gd_held_def)
qed

lemma gd_polygon_row:
  "gd_calls ! (unat (19 :: byte) - 1) = (GdPolygon ''gdImagePolygon'', RInt, EZero (ErrConst (-1)))"
  "gd_kinds ! (unat (19 :: byte) - 1) = [KImage, KBytes, KInt, KInt]"
  "gd_replies ! (unat (19 :: byte) - 1) = ReplyNum"
  by code_simp+

section \<open>A library to evaluate with\<close>

text \<open>It makes numbers, from the next one on, and keeps those that have not been released.\<close>

definition demo_gd_release :: "string \<Rightarrow> gd_value list \<Rightarrow> nat \<times> nat list \<Rightarrow> nat \<times> nat list" where
  "demo_gd_release f vs l =
     (if gd_releases f then (fst l, filter (\<lambda>p. VPtr p \<notin> set vs) (snd l)) else l)"

definition demo_gd :: "(nat \<times> nat list) gd" where
  "demo_gd = \<lparr>
     gd_ptr = \<lambda>f vs l. (Some (fst l), (Suc (fst l), fst l # snd l)),
     gd_int = \<lambda>f vs l. (0, demo_gd_release f vs l),
     gd_data = \<lambda>f vs l. ((Some [1, 2, 3], 3), l),
     gd_void = \<lambda>f vs l. demo_gd_release f vs l,
     gd_errno = \<lambda>l. 5, gd_font = \<lambda>i. nat i, gd_alloc = \<lambda>h. True,
     gd_unset = 0, gd_EINVAL = 22, gd_ENOMEM = 12\<rparr>"

definition demo_gd_live :: "nat \<times> nat list \<Rightarrow> nat set" where
  "demo_gd_live l = set (snd l) \<inter> {..<fst l}"

lemma demo_gd_allocs: "gd_allocs demo_gd"
  by (simp add: gd_allocs_def demo_gd_def)

lemma demo_gd_sound: "gd_sound demo_gd demo_gd_live"
  by (auto simp: gd_sound_def demo_gd_def demo_gd_live_def demo_gd_release_def gd_pointers_iff less_Suc_eq)

text \<open>A port with one image, the number 0.\<close>

definition demo_gd_port :: "(nat \<times> nat list) gd_port" where
  "demo_gd_port = \<lparr>gd_log = [GdCall ''gdImageCreate'' [VInt 4, VInt 3] (RetPtr (Some 0)), GdAlloc], gd_lib = (1, [0]),
     gd_maps = [Some 0 # replicate 31 None, replicate 8 None, replicate 32 None], gd_debug = 0\<rparr>"

end
