(* ===== verification/Gd_Client.thy ===== *)
theory Gd_Client
  imports Gd_Sessions
begin

text \<open>
  The functions of \<^verbatim>\<open>gd1_drv.erl\<close>, the client's side of the gd driver: the number of the command (from
  \<^verbatim>\<open>gd1_drv.hrl\<close>), the name and the fields that are sent.  This is what the rows of the driver's tables are compared
  with: a command calls the function of the library it is named after.
\<close>

section \<open>The functions\<close>

text \<open>
  Fifteen stand for more than one call of the library (those that take the name of a file, polygons and
  styles) or for none (fonts); the others for the function of their name, but for three whose names differ.
\<close>

datatype gd_api = Calls string | Wraps string

definition gd_functions_create :: "(nat \<times> gd_api \<times> tk_kind list) list" where
  "gd_functions_create = [
     (1, Calls ''gdImageCreate'', [KInt, KInt]),
     (2, Wraps ''gdImageCreateFromJpeg'', [KBytes]),
     (3, Wraps ''gdImageCreateFromPng'', [KBytes]),
     (4, Wraps ''gdImageCreateFromGd'', [KBytes]),
     (5, Wraps ''gdImageCreateFromGd2'', [KBytes]),
     (6, Wraps ''gdImageCreateFromGd2Part'', [KBytes, KInt, KInt, KInt, KInt]),
     (7, Wraps ''gdImageCreateFromXpm'', [KBytes]),
     (8, Calls ''gdImageColorAllocate'', [KImage, KInt, KInt, KInt]),
     (9, Calls ''gdImageColorClosest'', [KImage, KInt, KInt, KInt]),
     (10, Calls ''gdImageColorExact'', [KImage, KInt, KInt, KInt]),
     (11, Calls ''gdImageColorResolve'', [KImage, KInt, KInt, KInt]),
     (12, Calls ''gdImageColorsTotal'', [KImage]),
     (13, Calls ''gdImageGetInterlaced'', [KImage]),
     (14, Calls ''gdImageGetTransparent'', [KImage])]"

definition gd_functions_draw :: "(nat \<times> gd_api \<times> tk_kind list) list" where
  "gd_functions_draw = [
     (15, Calls ''gdImageColorDeallocate'', [KImage, KInt]),
     (16, Calls ''gdImageColorTransparent'', [KImage, KInt]),
     (17, Calls ''gdImageSetPixel'', [KImage, KInt, KInt, KInt]),
     (18, Calls ''gdImageLine'', [KImage, KInt, KInt, KInt, KInt, KInt]),
     (19, Wraps ''gdImagePolygon'', [KImage, KBytes, KInt, KInt]),
     (20, Wraps ''gdImageFilledPolygon'', [KImage, KBytes, KInt, KInt]),
     (21, Calls ''gdImageRectangle'', [KImage, KInt, KInt, KInt, KInt, KInt]),
     (22, Calls ''gdImageFilledRectangle'', [KImage, KInt, KInt, KInt, KInt, KInt]),
     (23, Calls ''gdImageArc'', [KImage, KInt, KInt, KInt, KInt, KInt, KInt, KInt]),
     (24, Calls ''gdImageFillToBorder'', [KImage, KInt, KInt, KInt, KInt]),
     (25, Calls ''gdImageFill'', [KImage, KInt, KInt, KInt]),
     (26, Calls ''gdImageSetBrush'', [KImage, KImage]),
     (27, Calls ''gdImageSetTile'', [KImage, KImage]),
     (28, Wraps ''gdImageSetStyle'', [KImage, KBytes, KInt]),
     (29, Calls ''gdImageGetPixel'', [KImage, KInt, KInt])]"

definition gd_functions_write :: "(nat \<times> gd_api \<times> tk_kind list) list" where
  "gd_functions_write = [
     (30, Calls ''gdImageRed'', [KImage, KInt]),
     (31, Calls ''gdImageGreen'', [KImage, KInt]),
     (32, Calls ''gdImageBlue'', [KImage, KInt]),
     (33, Calls ''gdImageBoundsSafe'', [KImage, KInt, KInt]),
     (34, Calls ''gdImageSX'', [KImage]),
     (35, Calls ''gdImageSY'', [KImage]),
     (36, Wraps ''gdImagePng'', [KImage, KBytes]),
     (37, Calls ''gdImagePngPtr'', [KImage]),
     (38, Calls ''gdImagePngPtr'', [KImage]),   \<comment> \<open>gdImagePngPtr_QQQ_deleteme\<close>
     (39, Wraps ''gdImageJpeg'', [KImage, KBytes, KInt]),
     (40, Calls ''gdImageJpegPtr'', [KImage, KInt]),
     (41, Wraps ''gdImageWBMP'', [KImage, KInt, KBytes]),
     (42, Calls ''gdImageWBMPPtr'', [KImage, KInt]),
     (43, Wraps ''gdImageGd'', [KImage, KBytes]),
     (44, Calls ''gdImageGdPtr'', [KImage]),
     (45, Wraps ''gdImageGd2'', [KImage, KBytes, KInt, KInt]),
     (46, Calls ''gdImageGd2Ptr'', [KImage, KInt, KInt]),
     (47, Calls ''fopen'', [KBytes, KBytes]),
     (48, Calls ''fclose'', [KFile])]"

definition gd_functions_text :: "(nat \<times> gd_api \<times> tk_kind list) list" where
  "gd_functions_text = [
     (49, Calls ''gdImagePng'', [KImage, KFile]),   \<comment> \<open>gdImagePngFILE\<close>
     (50, Calls ''gdImageJpeg'', [KImage, KFile, KInt]),   \<comment> \<open>gdImageJpegFILE\<close>
     (51, Calls ''gdImageDestroy'', [KImage]),
     (52, Wraps ''getFontPtr'', [KInt]),
     (53, Calls ''gdImageChar'', [KImage, KFont, KInt, KInt, KInt, KInt]),
     (54, Calls ''gdImageCharUp'', [KImage, KFont, KInt, KInt, KInt, KInt]),
     (55, Calls ''gdImageString'', [KImage, KFont, KInt, KInt, KBytes, KInt]),
     (56, Calls ''gdImageStringUp'', [KImage, KFont, KInt, KInt, KBytes, KInt]),
     (57, Calls ''gdImageCopy'', [KImage, KImage, KInt, KInt, KInt, KInt, KInt, KInt]),
     (58, Calls ''gdImageCopyResized'', [KImage, KImage, KInt, KInt, KInt, KInt, KInt, KInt, KInt, KInt]),
     (59, Calls ''gdImageCopyMerge'', [KImage, KImage, KInt, KInt, KInt, KInt, KInt, KInt, KInt]),
     (60, Calls ''gdImageCopyMergeGray'', [KImage, KImage, KInt, KInt, KInt, KInt, KInt, KInt, KInt]),
     (61, Calls ''gdImagePaletteCopy'', [KImage, KImage]),
     (62, Calls ''gdImageCompare'', [KImage, KImage]),
     (63, Calls ''gdImageInterlace'', [KImage, KInt])]"

definition gd_functions :: "(nat \<times> gd_api \<times> tk_kind list) list" where
  "gd_functions = gd_functions_create @ gd_functions_draw @ gd_functions_write @ gd_functions_text"

section \<open>The driver's tables\<close>

fun gd_api_row :: "nat \<times> gd_api \<times> tk_kind list \<Rightarrow> gd_fun \<times> gd_result \<times> gd_expect \<Rightarrow> bool" where
  "gd_api_row (n, Calls f, ks) (fn, res, ex) = (fn = Gd f)"
| "gd_api_row (n, Wraps f, ks) (fn, res, ex) = (\<forall>g. fn \<noteq> Gd g)"

lemmas gd_functions_defs = gd_functions_def gd_functions_create_def gd_functions_draw_def gd_functions_write_def
  gd_functions_text_def

lemma gd_functions_numbers: "map fst gd_functions = [1..<64]"
  by (simp add: gd_functions_defs upt_rec)

lemma gd_functions_kinds: "map (snd \<circ> snd) gd_functions = gd_kinds"
  by (simp add: gd_functions_defs gd_kinds_def gd_args_create_def gd_args_color_def gd_args_draw_def gd_args_fill_def
      gd_args_style_def gd_args_query_def gd_args_write_def gd_args_files_def gd_args_text_def gd_args_strings_def
      gd_args_merge_def gd_args_palette_def)

lemma gd_functions_calls: "list_all2 gd_api_row gd_functions gd_calls"
  by (simp add: gd_functions_defs gd_calls_def gd_calls_create_def gd_calls_color_def gd_calls_draw_def gd_calls_fill_def
      gd_calls_style_def gd_calls_query_def gd_calls_write_def gd_calls_files_def gd_calls_close_def gd_calls_text_def
      gd_calls_copy_def)

lemma gd_function_row:
  assumes "(n, Calls f, ks) \<in> set gd_functions"
  shows "0 < n" "n \<le> 63" "gd_kinds ! (n - 1) = ks" "\<exists>res ex. gd_calls ! (n - 1) = (Gd f, res, ex)"
proof -
  have len: "length gd_functions = 63" using arg_cong [OF gd_functions_numbers, of length] by simp
  then obtain i where i: "i < 63" "gd_functions ! i = (n, Calls f, ks)" using assms by (auto simp: in_set_conv_nth)
  have "map fst gd_functions ! i = n" using i len by simp
  then have n: "n = Suc i" using i(1) by (simp add: gd_functions_numbers)
  have "map (snd \<circ> snd) gd_functions ! i = ks" using i len by simp
  then have "gd_kinds ! i = ks" by (simp only: gd_functions_kinds)
  moreover have "gd_api_row (gd_functions ! i) (gd_calls ! i)"
    using list_all2_nthD [OF gd_functions_calls] i(1) len by simp
  then have "\<exists>res ex. gd_calls ! i = (Gd f, res, ex)" unfolding i(2) by (cases "gd_calls ! i") simp
  ultimately show "0 < n" "n \<le> 63" "gd_kinds ! (n - 1) = ks" "\<exists>res ex. gd_calls ! (n - 1) = (Gd f, res, ex)"
    using i(1) by (simp_all add: n)
qed

section \<open>The calls made\<close>

fun gd_made :: "gd_log \<Rightarrow> (string \<times> gd_value list) list" where
  "gd_made [] = []"
| "gd_made (GdCall f vs r # h) = (f, vs) # gd_made h"
| "gd_made (_ # h) = gd_made h"

lemma gd_reply_made [simp]:
  "gd_made (gd_log (gd_reply_ok s)) = gd_made (gd_log s)" "gd_made (gd_log (gd_reply_ok_num n s)) = gd_made (gd_log s)"
  "gd_made (gd_log (gd_reply_error n s)) = gd_made (gd_log s)"
  "gd_made (gd_log (gd_reply_ok_binary bs s)) = gd_made (gd_log s)"
  "gd_made (gd_log (gd_reply_ok_valmap a i s)) = gd_made (gd_log s)"
  "gd_made (gd_log (gd_free_data r s)) = gd_made (gd_log s)"
  by (auto simp: gd_reply_defs gd_free_data_def split: gd_ret.split option.split)

lemma gd_ready_made: "gd_ready_async lib job out s = Inr ((), t) \<Longrightarrow> gd_made (gd_log t) = gd_made (gd_log s)"
  by (auto simp: gd_ready_async_def gd_answer_def gd_reply_data_def reply_xtra_void_p_and_size_def andthen_def Let_def gd_put_def
      split: gd_reply.splits if_splits option.splits sum.splits)

text \<open>An answer can be given when the data of the library, if there are any, are as long as it says.\<close>

lemma gd_ready_returns:
  assumes "gd_ret_bytes (out_ret out) = Inr bs"
  shows "\<exists>t. gd_ready_async lib job out s = Inr ((), t)"
  using assms
  by (auto simp: gd_ready_async_def gd_answer_def gd_reply_data_def reply_xtra_void_p_and_size_def andthen_def Let_def
      split: gd_reply.split option.split)

text \<open>A command that is decoded: the call, and the answer before the next command.\<close>

lemma gd_outputv_called:
  assumes "gd_decode lib ev s = Inr (Some job, u)" "gd_invoke lib (gj_cmd job) (gj_args job) u = Inr (out, v)"
  shows "gd_outputv lib ev s = gd_ready_async lib job out v"
  using assms by (simp add: gd_outputv_def andthen_def)

end
