(* ===== verification/Gd_Requests.thy ===== *)
theory Gd_Requests
  imports Gd_Client
begin

text \<open>
  Requests to the gd driver that cannot make it reach outside its memory: each is called and answered, or refused.
\<close>

section \<open>The sizes of the maps\<close>

definition gd_sized :: "'l gd_port \<Rightarrow> bool" where
  "gd_sized s \<longleftrightarrow> map length (gd_maps s) = [32, 8, 32]"

lemma gd_sized_nth: "gd_sized s \<Longrightarrow> m < 3 \<Longrightarrow> length (gd_maps s ! m) = [32, 8, 32] ! m"
  by (metis gd_sized_def length_map length_Cons list.size(3) nth_map numeral_3_eq_3)

lemma gd_sized_set [simp]: "gd_sized (gd_set m i x s) = gd_sized s"
proof -
  have "map length (gd_maps (gd_set m i x s)) = map length (gd_maps s)"
  proof (cases "m < length (gd_maps s)")
    case True
    then show ?thesis by (simp add: gd_set_def map_update list_update_same_conv)
  next
    case False
    then show ?thesis by (simp add: gd_set_def not_less list_update_beyond)
  qed
  then show ?thesis by (simp add: gd_sized_def)
qed

lemma gd_sized_same: "gd_maps t = gd_maps s \<Longrightarrow> gd_sized t = gd_sized s"
  by (simp add: gd_sized_def)

lemma gd_sized_quiet: "gd_quiet s t \<Longrightarrow> gd_sized t = gd_sized s"
  by (simp add: gd_quiet_def gd_sized_def)

lemma gd_sized_do [simp]: "gd_sized (gd_do c s) = gd_sized s"
  by (simp add: gd_sized_def)

lemma gd_sized_cleanup [simp]: "gd_sized (cleanup_valmap_index m args s) = gd_sized s"
  by (simp add: cleanup_valmap_index_def split: list.split tk_arg.split)

lemma gd_call_maps:
  "gd_call_ptr lib f vs s = (p, t) \<Longrightarrow> gd_maps t = gd_maps s" "gd_call_int lib f vs s = (i, t) \<Longrightarrow> gd_maps t = gd_maps s"
  "gd_call_data lib f vs s = (d, t) \<Longrightarrow> gd_maps t = gd_maps s" "gd_maps (gd_call_void lib f vs s) = gd_maps s"
  by (auto simp: gd_call_ptr_def gd_call_int_def gd_call_data_def gd_call_void_def split: prod.splits)

lemma gd_apply_maps: "gd_apply lib f res vs s = (r, t) \<Longrightarrow> gd_maps t = gd_maps s"
  by (cases res) (auto simp: gd_apply_def gd_call_maps(4) split: prod.splits dest: gd_call_maps(1-3))

lemma my_gdImageCreateFrom_maps: "my_gdImageCreateFrom lib f vs s = (r, t) \<Longrightarrow> gd_maps t = gd_maps s"
  by (auto simp: my_gdImageCreateFrom_def Let_def split: prod.splits option.splits if_splits dest!: gd_call_maps(1,2))

lemma my_gdImageWrite_maps: "my_gdImageWrite lib f vs s = (r, t) \<Longrightarrow> gd_maps t = gd_maps s"
  by (auto simp: my_gdImageWrite_def Let_def gd_call_maps(4) split: prod.splits option.splits if_splits dest!: gd_call_maps(1,2))

lemma gd_invoke_maps: 
  assumes "gd_invoke lib cmd args s = Inr (out, t)"
  shows "gd_maps t = gd_maps s"
proof -
  obtain fn res ex r where run: "gd_run lib fn res args s = Inr (r, t)"
    using assms by (auto simp: gd_invoke_def andthen_def split: prod.splits sum.splits)
  show ?thesis
  proof (cases fn)
    case (GdPolygon f)
    then obtain im p n color where "my_gdImagePolygon lib f im p n color s = Inr (gd_ret_int (fst r), t)"
      using gd_run_polygon run by metis
    then show ?thesis by (auto simp: my_gdImagePolygon_def gd_call_maps(4) split: if_splits option.splits)
  next
    case (GdStyle f)
    then obtain im p n where "my_gdImageSetStyle lib f im p n s = Inr (gd_ret_int (fst r), t)"
      using gd_run_style run by metis
    then show ?thesis by (auto simp: my_gdImageSetStyle_def gd_call_maps(4) split: if_splits option.splits)
  next
    case GdFont
    then show ?thesis using gd_run_font run by metis
  qed (use run in \<open>auto simp: gd_run_def split: sum.splits prod.splits
    intro: gd_apply_maps my_gdImageCreateFrom_maps my_gdImageWrite_maps\<close>)
qed

lemma gd_ready_sized: "gd_ready_async lib job out s = Inr ((), t) \<Longrightarrow> gd_sized t = gd_sized s"
  by (auto simp: gd_ready_async_def gd_answer_def gd_reply_data_def reply_xtra_void_p_and_size_def andthen_def Let_def
      gd_sized_quiet [OF gd_replies_quiet(1)] gd_sized_quiet [OF gd_replies_quiet(2)] gd_sized_quiet [OF gd_replies_quiet(3)]
      gd_sized_quiet [OF gd_replies_quiet(4)] gd_sized_quiet [OF gd_replies_quiet(5)] gd_sized_quiet [OF gd_replies_quiet(7)]
      gd_put_def split: gd_reply.splits if_splits option.splits sum.splits)

section \<open>Arguments in range\<close>

text \<open>
  Indices within the maps, in use or not; strings with an end; bytes enough for the points or numbers that are read,
  unless there are more than 512 of them, which is refused.
\<close>

fun gd_value_in :: "tk_value \<Rightarrow> bool" where
  "gd_value_in (CInt i) = int32_ok i"
| "gd_value_in (CBytes bs) = True"
| "gd_value_in (CMap m i) = (m < 3 \<and> i < [32, 8, 32] ! m)"

fun gd_terminated :: "tk_value \<Rightarrow> bool" where
  "gd_terminated (CBytes bs) = (0 \<in> set bs)"
| "gd_terminated _ = True"

definition gd_bytes_ok :: "byte \<Rightarrow> tk_value list \<Rightarrow> bool" where
  "gd_bytes_ok cmd vs =
     (if cmd = 19 \<or> cmd = 20 \<or> cmd = 28 then
        (case vs of
           _ # CBytes bs # CInt n # _ \<Rightarrow> n \<le> 512 \<longrightarrow> (if cmd = 28 then 4 else 8) * nat n \<le> length bs
         | _ \<Rightarrow> True)
      else \<forall>v \<in> set vs. gd_terminated v)"

definition gd_request :: "iovec \<Rightarrow> bool" where
  "gd_request ev \<longleftrightarrow> (\<exists>hdr groups cmd vs. ev = hdr # map concat groups \<and> ev_small ev \<and> [] \<notin> set groups \<and>
     concat groups = [cmd] # concat (map tk_fields vs) \<and> [] \<notin> set (concat (map tk_fields vs)) \<and>
     0 < cmd \<and> cmd \<le> 63 \<and> map tk_kind_of vs = gd_kinds ! (unat cmd - 1) \<and> (\<forall>v \<in> set vs. gd_value_in v) \<and> gd_bytes_ok cmd vs)"

lemma gd_decode_request:
  assumes "gd_request ev" "gd_sized s"
  shows "\<exists>job t. gd_decode lib ev s = Inr (job, t) \<and> gd_sized t \<and>
    (\<forall>j. job = Some j \<longrightarrow> (\<exists>vs. 0 < gj_cmd j \<and> gj_cmd j \<le> 63 \<and> map tk_kind_of vs = gd_kinds ! (unat (gj_cmd j) - 1) \<and>
      gd_bytes_ok (gj_cmd j) vs \<and> list_all2 (tk_means (gd_maps s)) vs (gj_args j)))"
proof -
  obtain hdr groups cmd vs where ev: "ev = hdr # map concat groups" "ev_small ev" "[] \<notin> set groups"
    "concat groups = [cmd] # concat (map tk_fields vs)" "[] \<notin> set (concat (map tk_fields vs))"
    "0 < cmd" "cmd \<le> 63" "map tk_kind_of vs = gd_kinds ! (unat cmd - 1)" "\<forall>v \<in> set vs. gd_value_in v" "gd_bytes_ok cmd vs"
    using assms(1) unfolding gd_request_def by blast
  have fields: "[] \<notin> set (concat groups)" unfolding ev(4) using ev(5) by auto
  from ev_at_start [OF ev(3) this, of hdr] have "ev_at ev (0, 1) ([cmd] # concat (map tk_fields vs))"
    unfolding ev(4) ev(1) [symmetric] .
  then obtain c where c: "ev_get (length [cmd]) ev (0, 1) = Inr (Some ([cmd], c))" "ev_at ev c (concat (map tk_fields vs))"
    using ev_at_get by blast
  have char: "EV_GET_CHAR ev (0, 1) = Inr (Some (cmd, c))" using c(1) by (simp add: EV_GET_CHAR_def ev_value_def)
  have "concat groups \<noteq> []" "\<forall>f \<in> set (concat groups). f \<noteq> []" using fields ev(4) by auto
  then have size: "\<not> length (concat ev) < 1" unfolding ev(1) by fastforce
  let ?u = "gd_unset lib" and ?s = "gd_do GdAlloc s"
  have sized: "gd_sized ?s" using assms(2) by (simp add: gd_sized_def)
  have "tk_value_in (gd_maps s) v" if "gd_value_in v" for v
  proof (cases v)
    case (CMap m i)
    have "[32, 8, 32] ! m \<le> (32 :: nat)" if "m < 3" using that by (cases m; cases "m - 1") (auto simp: less_Suc_eq numeral_eq_Suc)
    then show ?thesis using that gd_sized_nth [OF assms(2)] by (auto simp: CMap int32_ok_def)
  qed (use that in auto)
  then have "\<forall>v \<in> set vs. tk_value_in (gd_maps s) v" using ev(9) by blast
  then obtain m where m: "tk_args ?u (gd_maps s) ev ?u ?u (gd_kinds ! (unat cmd - 1)) c = Inr m"
    "\<forall>as. m = Some as \<longrightarrow> list_all2 (tk_means (gd_maps s)) vs as"
    using tk_args_returns [of ev c vs "[]" "gd_maps s" ?u ?u ?u] c(2) ev(2) unfolding ev(8) by auto
  have cmd: "cmd \<noteq> 0" "\<not> 63 < cmd" using ev(6,7) by auto
  have run: "gd_decode lib ev s =
     (if \<not> gd_got lib ?s then Inr (None, gd_reply_error (gd_ENOMEM lib) ?s)
      else (case m of
          None \<Rightarrow> Inr (None, gd_badarg ?s)
        | Some args \<Rightarrow> if gd_bad_polygon cmd args then Inr (None, gd_badarg ?s)
            else Inr (Some \<lparr>gj_cmd = cmd, gj_args = args\<rparr>, ?s)))"
    using char m(1) cmd unfolding gd_decode_def if_not_P [OF size] by (simp add: Let_def split: option.split)
  have quiet: "gd_sized (gd_badarg ?s)" "gd_sized (gd_reply_error n ?s)" for n
    using sized gd_sized_quiet [OF gd_replies_quiet(6), of ?s] gd_sized_quiet [OF gd_replies_quiet(3), of n ?s] by simp_all
  show ?thesis
  proof (cases m)
    case None
    then show ?thesis unfolding run using quiet by simp
  next
    case (Some args)
    have "list_all2 (tk_means (gd_maps s)) vs args" using m(2) Some by simp
    then show ?thesis unfolding run Some using quiet sized ev(6-8,10) by auto
  qed
qed

section \<open>Calls that return\<close>

text \<open>The data that the library returns are as long as it says, and there if they are not empty.\<close>

definition gd_true :: "'l gd \<Rightarrow> bool" where
  "gd_true lib \<longleftrightarrow> (\<forall>f vs l. case fst (gd_data lib f vs l) of
     (p, n) \<Rightarrow> n = 0 \<or> (case p of None \<Rightarrow> False | Some bs \<Rightarrow> 0 < n \<and> n \<le> int (length bs)))"

fun gd_shape :: "nat \<Rightarrow> tk_kind list \<Rightarrow> gd_fun \<Rightarrow> bool" where
  "gd_shape n ks (GdPolygon f) = ((n = 19 \<or> n = 20) \<and> ks = [KImage, KBytes, KInt, KInt])"
| "gd_shape n ks (GdStyle f) = (n = 28 \<and> ks = [KImage, KBytes, KInt])"
| "gd_shape n ks GdFont = (ks = [KInt])"
| "gd_shape n ks _ = (n \<noteq> 19 \<and> n \<noteq> 20 \<and> n \<noteq> 28)"

lemma gd_shapes_check: "list_all2 (\<lambda>(n, api, ks) (fn, _). gd_shape n ks fn) gd_functions gd_calls"
  by (simp add: gd_functions_defs gd_calls_def gd_calls_create_def gd_calls_color_def gd_calls_draw_def gd_calls_fill_def
      gd_calls_style_def gd_calls_query_def gd_calls_write_def gd_calls_files_def gd_calls_close_def gd_calls_text_def
      gd_calls_copy_def)

lemma gd_shapes:
  assumes "0 < n" "n \<le> 63" "gd_calls ! (n - 1) = (fn, res, ex)"
  shows "gd_shape n (gd_kinds ! (n - 1)) fn"
proof -
  have len: "length gd_functions = 63" using arg_cong [OF gd_functions_numbers, of length] by simp
  obtain m api ks where row: "gd_functions ! (n - 1) = (m, api, ks)" by (metis prod.exhaust)
  have "map fst gd_functions ! (n - 1) = m" "map (snd \<circ> snd) gd_functions ! (n - 1) = ks"
    using assms(1,2) len row by simp_all
  moreover have "map fst gd_functions ! (n - 1) = n" using assms(1,2) by (simp add: gd_functions_numbers)
  ultimately have "m = n" "ks = gd_kinds ! (n - 1)" unfolding gd_functions_kinds by simp_all
  moreover have "(\<lambda>(n, api, ks) (fn, _). gd_shape n ks fn) (gd_functions ! (n - 1)) (gd_calls ! (n - 1))"
    using list_all2_nthD [OF gd_shapes_check] assms(1,2) len by simp
  ultimately show ?thesis unfolding row assms(3) by simp
qed

lemma gd_values_terminated:
  assumes "list_all2 (tk_means maps) vs args" "\<forall>v \<in> set vs. gd_terminated v"
  shows "\<exists>ws. gd_values args = Inr ws"
  using assms
proof (induction rule: list_all2_induct)
  case Nil
  then show ?case by simp
next
  case (Cons v vs a args)
  then obtain ws where ws: "gd_values args = Inr ws" by auto
  have "\<exists>w. gd_value_of a = Inr w"
  proof (cases v)
    case (CBytes bs)
    then obtain p where p: "a = ABytes (int (length bs)) p" "take (length bs) p = bs" using Cons.hyps by auto
    have "0 \<in> set p" using Cons.prems CBytes p(2) set_take_subset [of "length bs" p] by auto
    then show ?thesis by (simp add: p(1))
  qed (use Cons.hyps in auto)
  then show ?case using ws by auto
qed

lemma gd_points_enough: "8 * n \<le> length bs \<Longrightarrow> \<exists>ps. gd_points n bs = Some ps"
  by (induction n bs rule: gd_points.induct) auto

lemma gd_ints_enough: "4 * n \<le> length bs \<Longrightarrow> \<exists>is. gd_ints n bs = Some is"
  by (induction n bs rule: gd_ints.induct) auto

lemma gd_true_bytes:
  assumes "gd_true lib" "gd_data lib f vs l = ((p, n), l')"
  shows "\<exists>bs. gd_ret_bytes (RetData p n) = Inr bs"
proof -
  have "case fst (gd_data lib f vs l) of
      (p, n) \<Rightarrow> n = 0 \<or> (case p of None \<Rightarrow> False | Some bs \<Rightarrow> 0 < n \<and> n \<le> int (length bs))"
    using assms(1) unfolding gd_true_def by (elim allE)
  then show ?thesis by (auto simp: assms(2) gd_ret_bytes_def split: option.splits)
qed

lemma gd_apply_bytes:
  assumes "gd_true lib" "gd_apply lib f res vs s = (r, t)"
  shows "\<exists>bs. gd_ret_bytes r = Inr bs"
proof (cases res)
  case RData
  obtain p n l where d: "gd_data lib f vs (gd_lib s) = ((p, n), l)" by (metis prod.exhaust)
  then have "r = RetData p n" using assms(2) by (simp add: RData gd_apply_def gd_call_data_def)
  then show ?thesis using gd_true_bytes [OF assms(1) d] by simp
qed (use assms(2) in \<open>auto simp: gd_apply_def gd_ret_bytes_def split: prod.splits\<close>)

lemma gd_run_request:
  assumes "gd_true lib" "0 < cmd" "cmd \<le> 63" "gd_calls ! (unat cmd - 1) = (fn, res, ex)"
    and "map tk_kind_of vs = gd_kinds ! (unat cmd - 1)" "gd_bytes_ok cmd vs" "list_all2 (tk_means maps) vs args"
  shows "\<exists>r st t bs. gd_run lib fn res args s = Inr ((r, st), t) \<and> gd_ret_bytes r = Inr bs"
proof -
  have n: "0 < unat cmd" "unat cmd \<le> 63" using assms(2,3) by (simp_all add: word_less_nat_alt word_le_nat_alt)
  note shape = gd_shapes [OF n assms(4), folded assms(5)]
  have bytes: "\<exists>ws. gd_values args = Inr ws" if "unat cmd \<noteq> 19 \<and> unat cmd \<noteq> 20 \<and> unat cmd \<noteq> 28"
  proof -
    have "cmd \<noteq> 19" "cmd \<noteq> 20" "cmd \<noteq> 28" using that by auto
    then show ?thesis using gd_values_terminated [OF assms(7)] assms(6) by (simp add: gd_bytes_ok_def)
  qed
  show ?thesis
  proof (cases fn)
    case (Gd f)
    then obtain ws where ws: "gd_values args = Inr ws" using bytes shape by auto
    obtain r t where r: "gd_apply lib f res ws s = (r, t)" by fastforce
    from gd_apply_bytes [OF assms(1) r] show ?thesis by (auto simp: Gd gd_run_def ws r)
  next
    case (GdCreate f)
    then obtain ws where "gd_values args = Inr ws" using bytes shape by auto
    then show ?thesis by (auto simp: GdCreate gd_run_def gd_ret_bytes_def split: prod.split)
  next
    case (GdWrite f)
    then obtain ws where "gd_values args = Inr ws" using bytes shape by auto
    then show ?thesis by (auto simp: GdWrite gd_run_def gd_ret_bytes_def split: prod.split)
  next
    case (GdPolygon f)
    then have k: "map tk_kind_of vs = [KImage, KBytes, KInt, KInt]" "unat cmd = 19 \<or> unat cmd = 20" using shape by auto
    then obtain i bs n color where vs: "vs = [CMap 0 i, CBytes bs, CInt n, CInt color]"
      by (auto simp: map_eq_Cons_conv elim!: tk_kind_of.elims)
    then obtain im p where args: "args = [APtr 0 i im, ABytes (int (length bs)) p, AInt n, AInt color]" "take (length bs) p = bs"
      using assms(7) by (auto simp: list_all2_Cons1)
    have "cmd = 19 \<or> cmd = 20" using k(2) by (simp add: word_unat_eq_iff)
    then have "8 * nat n \<le> length p" if "n \<le> 512"
      using assms(6) that arg_cong [OF args(2), of length] by (auto simp: vs gd_bytes_ok_def)
    then have "\<exists>ps. gd_points (nat n) p = Some ps" if "n \<le> 512" using gd_points_enough that by blast
    then show ?thesis by (auto simp: GdPolygon args(1) gd_run_def my_gdImagePolygon_def andthen_def gd_ret_bytes_def)
  next
    case (GdStyle f)
    then have k: "map tk_kind_of vs = [KImage, KBytes, KInt]" "unat cmd = 28" using shape by auto
    then obtain i bs n where vs: "vs = [CMap 0 i, CBytes bs, CInt n]"
      by (auto simp: map_eq_Cons_conv elim!: tk_kind_of.elims)
    then obtain im p where args: "args = [APtr 0 i im, ABytes (int (length bs)) p, AInt n]" "take (length bs) p = bs"
      using assms(7) by (auto simp: list_all2_Cons1)
    have "cmd = 28" using k(2) by (simp add: word_unat_eq_iff)
    then have "4 * nat n \<le> length p" if "n \<le> 512"
      using assms(6) that arg_cong [OF args(2), of length] by (auto simp: vs gd_bytes_ok_def)
    then have "\<exists>is. gd_ints (nat n) p = Some is" if "n \<le> 512" using gd_ints_enough that by blast
    then show ?thesis by (auto simp: GdStyle args(1) gd_run_def my_gdImageSetStyle_def andthen_def gd_ret_bytes_def)
  next
    case GdFont
    then have "map tk_kind_of vs = [KInt]" using shape by auto
    then obtain n where "vs = [CInt n]" by (auto simp: map_eq_Cons_conv elim!: tk_kind_of.elims)
    then have "args = [AInt n]" using assms(7) by (auto simp: list_all2_Cons1)
    then show ?thesis by (simp add: GdFont gd_run_def gd_ret_bytes_def)
  qed
qed

lemma gd_outputv_request:
  assumes "gd_true lib" "gd_sized s" "gd_request ev"
  shows "\<exists>t. gd_outputv lib ev s = Inr ((), t) \<and> gd_sized t"
proof -
  from gd_decode_request [OF assms(3,2), of lib] obtain job u where
    u: "gd_decode lib ev s = Inr (job, u)" "gd_sized u"
      "\<forall>j. job = Some j \<longrightarrow> (\<exists>vs. 0 < gj_cmd j \<and> gj_cmd j \<le> 63 \<and> map tk_kind_of vs = gd_kinds ! (unat (gj_cmd j) - 1) \<and>
        gd_bytes_ok (gj_cmd j) vs \<and> list_all2 (tk_means (gd_maps s)) vs (gj_args j))"
    by auto
  show ?thesis
  proof (cases job)
    case None
    then show ?thesis using u by (simp add: gd_outputv_def andthen_def)
  next
    case (Some j)
    then obtain vs where vs: "0 < gj_cmd j" "gj_cmd j \<le> 63" "map tk_kind_of vs = gd_kinds ! (unat (gj_cmd j) - 1)"
      "gd_bytes_ok (gj_cmd j) vs" "list_all2 (tk_means (gd_maps s)) vs (gj_args j)"
      using u(3) by blast
    obtain fn res ex where call: "gd_calls ! (unat (gj_cmd j) - 1) = (fn, res, ex)" by (metis prod.exhaust)
    from gd_run_request [OF assms(1) vs(1,2) call vs(3-5), of u] obtain r st v bs where
      r: "gd_run lib fn res (gj_args j) u = Inr ((r, st), v)" "gd_ret_bytes r = Inr bs" by blast
    obtain out where out: "gd_invoke lib (gj_cmd j) (gj_args j) u = Inr (out, v)" "out_ret out = r"
      unfolding gd_invoke_def call prod.case by (simp add: r(1) andthen_def)
    obtain t where t: "gd_ready_async lib j out v = Inr ((), t)" using gd_ready_returns r(2) out(2) by blast
    have "gd_outputv lib ev s = Inr ((), t)" using gd_outputv_called [OF _ out(1)] u(1) Some t by simp
    then show ?thesis using gd_ready_sized [OF t] gd_sized_same [OF gd_invoke_maps [OF out(1)]] u(2) by simp
  qed
qed

lemma gd_session_returns:
  "gd_true lib \<Longrightarrow> gd_sized s \<Longrightarrow> \<forall>ev \<in> set evs. gd_request ev \<Longrightarrow> \<exists>t. gd_session lib evs s = Inr ((), t)"
proof (induction evs arbitrary: s)
  case Nil
  then show ?case by simp
next
  case (Cons ev evs)
  then obtain u where u: "gd_outputv lib ev s = Inr ((), u)" "gd_sized u" using gd_outputv_request [of lib s ev] by auto
  from Cons.IH [OF Cons.prems(1) u(2)] Cons.prems(3) u(1) show ?case by (auto simp: andthen_def)
qed

lemma gd_start_sized: "gd_start lib l = Some s \<Longrightarrow> gd_sized s"
  by (auto simp: gd_start_def gd_sized_def split: if_splits)

end
