(* ===== verification/Posix.thy ===== *)
theory Posix
  imports Edtk_Command
begin

text \<open>
  The driver for POSIX calls, \<^verbatim>\<open>posix_drv/c_src/posix_drv.c\<close> and \<^verbatim>\<open>my-posix.c\<close>, made with the Erlang driver toolkit:
  its eighteen commands, the calls they make and their answers.  The system is the parameter \<open>posix\<close>.
\<close>

section \<open>The system\<close>

datatype px_call =
    PX_getgid | PX_getegid | PX_getgrnam "byte list" | PX_getgrgid int | PX_getgroups
  | PX_getpwnam "byte list" | PX_getpwuid int | PX_getuid | PX_geteuid | PX_getlogin | PX_getpgrp | PX_getppid
  | PX_getsid int | PX_kill int int | PX_lstat "byte list" | PX_mkfifo "byte list" int
  | PX_mknod "byte list" int int | PX_umask int

text \<open>What the pointers point to that the calls return; the members may be NULL.\<close>

record px_group =
  gr_name :: "byte list"
  gr_passwd :: "byte list"
  gr_gid :: int
  gr_mem :: "byte list list option"

record px_passwd =
  pw_name :: "byte list"
  pw_passwd :: "byte list"
  pw_uid :: int
  pw_gid :: int
  pw_gecos :: "byte list"
  pw_dir :: "byte list"
  pw_shell :: "byte list"

record px_stat =
  st_dev :: int
  st_ino :: int
  st_mode :: int
  st_nlink :: int
  st_uid :: int
  st_gid :: int
  st_rdev :: int
  st_atime :: int
  st_mtime :: int
  st_ctime :: int
  st_size :: int
  st_blocks :: int
  st_blksize :: int

datatype px_event =
    PxCall px_call
  | PxAlloc
  | PxFree
  | PxAllocBinary int
  | PxFreeBinary
  | PxOutput "tk_item list"

text \<open>
  \<open>px_ptr\<close> is of the calls that return a pointer, NULL or to memory of the C library, which is read when the
  answer is made: \<open>px_group_at\<close> and so on.
\<close>

record 'l posix =
  px_num :: "px_call \<Rightarrow> 'l \<Rightarrow> int \<times> 'l"
  px_ptr :: "px_call \<Rightarrow> 'l \<Rightarrow> nat option \<times> 'l"
  px_gids :: "'l \<Rightarrow> int list option \<times> 'l"            \<comment> \<open>\<^verbatim>\<open>getgroups\<close>, None is -1\<close>
  px_lstat :: "byte list \<Rightarrow> 'l \<Rightarrow> (int \<times> px_stat) \<times> 'l"
  px_group_at :: "nat \<Rightarrow> 'l \<Rightarrow> px_group"
  px_passwd_at :: "nat \<Rightarrow> 'l \<Rightarrow> px_passwd"
  px_string_at :: "nat \<Rightarrow> 'l \<Rightarrow> byte list"
  px_errno :: "'l \<Rightarrow> int"
  px_alloc :: "px_event list \<Rightarrow> bool"
  px_unset :: int
  px_EINVAL :: int
  px_ENOMEM :: int

datatype px_ret =
    RetNum int | RetAt "nat option" | RetGids "int list option" | RetStat int px_stat

record px_out =
  po_ok :: bool                                 \<comment> \<open>\<^verbatim>\<open>__expect\<close>\<close>
  po_err :: int                                 \<comment> \<open>\<^verbatim>\<open>__expect_errval\<close>\<close>
  po_ret :: px_ret

record px_job =
  pj_cmd :: byte
  pj_args :: "tk_arg list"

record 'l px_port =
  px_log :: "px_event list"
  px_lib :: 'l
  px_debug :: int                               \<comment> \<open>\<^verbatim>\<open>edtk_debug_flag\<close>, shared by all ports\<close>

definition px_do :: "px_event \<Rightarrow> 'l px_port \<Rightarrow> 'l px_port" where
  "px_do c s = s\<lparr>px_log := c # px_log s\<rparr>"

definition px_got :: "'l posix \<Rightarrow> 'l px_port \<Rightarrow> bool" where
  "px_got lib s = px_alloc lib (px_log s)"

definition posix_start :: "'l posix \<Rightarrow> 'l \<Rightarrow> 'l px_port option" where
  "posix_start lib l =
     (if px_alloc lib [PxAlloc] then Some \<lparr>px_log = [PxAlloc], px_lib = l, px_debug = 0\<rparr> else None)"

definition posix_stop :: "'l px_port \<Rightarrow> 'l px_port" where
  "posix_stop s = px_do PxFree s"

section \<open>The commands\<close>

definition px_kinds :: "tk_kind list list" where
  "px_kinds = [
     [],   \<comment> \<open>getgid\<close>
     [],   \<comment> \<open>getegid\<close>
     [KBytes],   \<comment> \<open>getgrnam\<close>
     [KInt],   \<comment> \<open>getgrgid\<close>
     [],   \<comment> \<open>getgroups\<close>
     [KBytes],   \<comment> \<open>getpwnam\<close>
     [KInt],   \<comment> \<open>getpwuid\<close>
     [],   \<comment> \<open>getuid\<close>
     [],   \<comment> \<open>geteuid\<close>
     [],   \<comment> \<open>getlogin\<close>
     [],   \<comment> \<open>getpgrp\<close>
     [],   \<comment> \<open>getppid\<close>
     [],   \<comment> \<open>getsid\<close>
     [KInt, KInt],   \<comment> \<open>kill\<close>
     [KBytes],   \<comment> \<open>lstat\<close>
     [KBytes, KInt],   \<comment> \<open>mkfifo\<close>
     [KBytes, KInt, KInt],   \<comment> \<open>mknod\<close>
     [KInt]]"   \<comment> \<open>umask\<close>

text \<open>
  The calls, made of the strings and of the numbers among the arguments; \<^verbatim>\<open>gid_t\<close>, \<^verbatim>\<open>uid_t\<close> and \<^verbatim>\<open>mode_t\<close> are unsigned, of
  32 bits, \<^verbatim>\<open>dev_t\<close> unsigned, of 64.
\<close>

definition px_calls_groups :: "(byte list list \<Rightarrow> int list \<Rightarrow> px_call) list" where
  "px_calls_groups = [
     \<lambda>strs nums. PX_getgid,
     \<lambda>strs nums. PX_getegid,
     \<lambda>strs nums. PX_getgrnam (hd strs),
     \<lambda>strs nums. PX_getgrgid (hd nums mod 2 ^ 32),
     \<lambda>strs nums. PX_getgroups,
     \<lambda>strs nums. PX_getpwnam (hd strs),
     \<lambda>strs nums. PX_getpwuid (hd nums mod 2 ^ 32)]"

definition px_calls_process :: "(byte list list \<Rightarrow> int list \<Rightarrow> px_call) list" where
  "px_calls_process = [
     \<lambda>strs nums. PX_getuid,
     \<lambda>strs nums. PX_geteuid,
     \<lambda>strs nums. PX_getlogin,
     \<lambda>strs nums. PX_getpgrp,
     \<lambda>strs nums. PX_getppid,
     \<lambda>strs nums. PX_getsid 0,
     \<lambda>strs nums. PX_kill (nums ! 0) (nums ! 1)]"

definition px_calls_files :: "(byte list list \<Rightarrow> int list \<Rightarrow> px_call) list" where
  "px_calls_files = [
     \<lambda>strs nums. PX_lstat (hd strs),
     \<lambda>strs nums. PX_mkfifo (hd strs) (hd nums mod 2 ^ 32),
     \<lambda>strs nums. PX_mknod (hd strs) (nums ! 0 mod 2 ^ 32) (nums ! 1 mod 2 ^ 64),
     \<lambda>strs nums. PX_umask (hd nums mod 2 ^ 32)]"

definition px_calls :: "(byte list list \<Rightarrow> int list \<Rightarrow> px_call) list" where
  "px_calls = px_calls_groups @ px_calls_process @ px_calls_files"

fun px_nums :: "tk_arg list \<Rightarrow> int list" where
  "px_nums [] = []"
| "px_nums (AInt v # as) = v # px_nums as"
| "px_nums (_ # as) = px_nums as"

text \<open>A string is read up to its end, which must be there.\<close>

fun px_strs :: "tk_arg list \<Rightarrow> fault + byte list list" where
  "px_strs [] = Inr []"
| "px_strs (ABytes n p # as) =
     (if 0 \<in> set p then (case px_strs as of Inl e \<Rightarrow> Inl e | Inr ss \<Rightarrow> Inr (c_string p # ss)) else Inl OutOfBounds)"
| "px_strs (_ # as) = px_strs as"

section \<open>Making a call\<close>

definition px_run_num :: "'l posix \<Rightarrow> px_call \<Rightarrow> 'l px_port \<Rightarrow> px_ret \<times> 'l px_port" where
  "px_run_num lib call s = (case px_num lib call (px_lib s) of (r, l) \<Rightarrow> (RetNum r, s\<lparr>px_lib := l\<rparr>))"

text \<open>Group and user ids are unsigned.\<close>

definition px_run_id :: "'l posix \<Rightarrow> px_call \<Rightarrow> 'l px_port \<Rightarrow> px_ret \<times> 'l px_port" where
  "px_run_id lib call s =
     (case px_num lib call (px_lib s) of (r, l) \<Rightarrow> (RetNum (r mod 2 ^ 32), s\<lparr>px_lib := l\<rparr>))"

definition px_run_ptr :: "'l posix \<Rightarrow> px_call \<Rightarrow> 'l px_port \<Rightarrow> px_ret \<times> 'l px_port" where
  "px_run_ptr lib call s = (case px_ptr lib call (px_lib s) of (p, l) \<Rightarrow> (RetAt p, s\<lparr>px_lib := l\<rparr>))"

fun px_run :: "'l posix \<Rightarrow> px_call \<Rightarrow> 'l px_port \<Rightarrow> px_ret \<times> 'l px_port" where
  "px_run lib PX_getgid s = px_run_id lib PX_getgid s"
| "px_run lib PX_getegid s = px_run_id lib PX_getegid s"
| "px_run lib PX_getuid s = px_run_id lib PX_getuid s"
| "px_run lib PX_geteuid s = px_run_id lib PX_geteuid s"
| "px_run lib (PX_getgrnam n) s = px_run_ptr lib (PX_getgrnam n) s"
| "px_run lib (PX_getgrgid g) s = px_run_ptr lib (PX_getgrgid g) s"
| "px_run lib (PX_getpwnam n) s = px_run_ptr lib (PX_getpwnam n) s"
| "px_run lib (PX_getpwuid u) s = px_run_ptr lib (PX_getpwuid u) s"
| "px_run lib PX_getlogin s = px_run_ptr lib PX_getlogin s"
| "px_run lib PX_getgroups s = (case px_gids lib (px_lib s) of (gs, l) \<Rightarrow> (RetGids gs, s\<lparr>px_lib := l\<rparr>))"
| "px_run lib (PX_lstat path) s =
     (case px_lstat lib path (px_lib s) of ((r, st), l) \<Rightarrow> (RetStat r st, s\<lparr>px_lib := l\<rparr>))"
| "px_run lib call s = px_run_num lib call s"

text \<open>\<^verbatim>\<open>__expect\<close>, and the number that goes with it when it is false.\<close>

fun px_expected :: "px_ret \<Rightarrow> int \<Rightarrow> px_out" where
  "px_expected (RetNum r) errno = \<lparr>po_ok = (0 \<le> r), po_err = errno, po_ret = RetNum r\<rparr>"
| "px_expected (RetAt p) errno = \<lparr>po_ok = (p \<noteq> None), po_err = 0, po_ret = RetAt p\<rparr>"
| "px_expected (RetGids gs) errno = \<lparr>po_ok = (gs \<noteq> None), po_err = errno, po_ret = RetGids gs\<rparr>"
| "px_expected (RetStat r st) errno = \<lparr>po_ok = (0 \<le> r), po_err = r, po_ret = RetStat r st\<rparr>"

definition px_invoke :: "'l posix \<Rightarrow> byte \<Rightarrow> tk_arg list \<Rightarrow> 'l px_port \<Rightarrow> (px_out, 'l px_port) outcome" where
  "px_invoke lib cmd args s =
     (case px_strs args of
        Inl e \<Rightarrow> Inl e
      | Inr strs \<Rightarrow>
          let call = (px_calls ! (unat cmd - 1)) strs (px_nums args) in
          (case px_run lib call (px_do (PxCall call) s) of (r, s) \<Rightarrow>
             Inr (px_expected r (px_errno lib (px_lib s)), s)))"

section \<open>Answers\<close>

definition px_put :: "tk_item list \<Rightarrow> 'l px_port \<Rightarrow> 'l px_port" where
  "px_put items s = px_do (PxOutput items) s"

definition px_reply_ok_num :: "int \<Rightarrow> 'l px_port \<Rightarrow> 'l px_port" where
  "px_reply_ok_num n s = px_put [LOAD_PORT, LOAD_ATOM ''ok'', LOAD_INT n, LOAD_TUPLE 3] s"

definition px_reply_ok_binary :: "byte list \<Rightarrow> 'l px_port \<Rightarrow> 'l px_port" where
  "px_reply_ok_binary bs s =
     px_do PxFreeBinary (px_put [LOAD_PORT, LOAD_ATOM ''ok'', LOAD_BINARY bs, LOAD_TUPLE 3] s)"

definition px_reply_error :: "int \<Rightarrow> 'l px_port \<Rightarrow> 'l px_port" where
  "px_reply_error n s = px_put [LOAD_PORT, LOAD_ATOM ''error'', LOAD_INT n, LOAD_TUPLE 3] s"

definition px_reply_error_atom :: "string \<Rightarrow> 'l px_port \<Rightarrow> 'l px_port" where
  "px_reply_error_atom a s = px_put [LOAD_PORT, LOAD_ATOM ''error'', LOAD_ATOM a, LOAD_TUPLE 3] s"

text \<open>The answers with more than a number are built in an array of 64 words; \<open>n\<close> binaries are in \<^verbatim>\<open>tofree\<close>.\<close>

definition px_send :: "tk_item list \<Rightarrow> nat \<Rightarrow> 'l px_port \<Rightarrow> (unit, 'l px_port) outcome" where
  "px_send items n s =
     (if 64 < tk_size items then Inl OutOfBounds
      else Inr ((), (px_put items s)\<lparr>px_log := replicate n PxFreeBinary @ px_log (px_put items s)\<rparr>))"

definition px_xtra_error :: "int \<Rightarrow> 'l px_port \<Rightarrow> (unit, 'l px_port) outcome" where
  "px_xtra_error n s = px_send [LOAD_PORT, LOAD_ATOM ''error'', LOAD_INT n, LOAD_TUPLE 1, LOAD_TUPLE 3] 0 s"

text \<open>Copies of strings, until there is no memory for one; \<open>extra\<close> bytes are asked for besides its own.\<close>

fun px_copies :: "'l posix \<Rightarrow> int \<Rightarrow> byte list list \<Rightarrow> 'l px_port \<Rightarrow> bool \<times> tk_item list \<times> 'l px_port" where
  "px_copies lib extra [] s = (True, [], s)"
| "px_copies lib extra (b # bs) s =
     (let s = px_do (PxAllocBinary (int (length b) + extra)) s in
      if \<not> px_got lib s then (False, [], s)
      else case px_copies lib extra bs s of (ok, items, s) \<Rightarrow> (ok, LOAD_BINARY b # items, s))"

definition make_groups_list :: "'l posix \<Rightarrow> px_group \<Rightarrow> 'l px_port \<Rightarrow> tk_item list \<times> nat \<times> 'l px_port" where
  "make_groups_list lib g s =
     (let names = (case gr_mem g of None \<Rightarrow> [] | Some ms \<Rightarrow> ms) in
      case px_copies lib 1 names s of (ok, items, s) \<Rightarrow>
        if ok then (items @ [LOAD_NIL, LOAD_LIST (length names + 1)], 1, s) else (items, 0, s))"

definition make_getgroups_list :: "int list \<Rightarrow> tk_item list \<times> nat" where
  "make_getgroups_list gids = (map LOAD_INT gids @ [LOAD_NIL, LOAD_LIST (length gids + 1)], 1)"

definition reply_xtra_group :: "'l posix \<Rightarrow> nat \<Rightarrow> 'l px_port \<Rightarrow> (unit, 'l px_port) outcome" where
  "reply_xtra_group lib p s =
     (let g = px_group_at lib p (px_lib s) in
      case px_copies lib 0 [gr_name g, gr_passwd g] s of (ok, names, s) \<Rightarrow>
        if \<not> ok then Inr ((), px_reply_error (px_ENOMEM lib) s)
        else case make_groups_list lib g s of (items, members, s) \<Rightarrow>
          px_send ([LOAD_PORT, LOAD_ATOM ''ok'', LOAD_ATOM ''group''] @ names @ [LOAD_INT (gr_gid g)] @ items @
            [LOAD_LIST members, LOAD_TUPLE 5, LOAD_TUPLE 1, LOAD_TUPLE 3]) 2 s)"

definition reply_xtra_passwd :: "'l posix \<Rightarrow> nat \<Rightarrow> 'l px_port \<Rightarrow> (unit, 'l px_port) outcome" where
  "reply_xtra_passwd lib p s =
     (let w = px_passwd_at lib p (px_lib s) in
      case px_copies lib 0 [pw_name w, pw_passwd w] s of (ok, names, s) \<Rightarrow>
        if \<not> ok then Inr ((), px_reply_error (px_ENOMEM lib) s)
        else case px_copies lib 0 [pw_gecos w, pw_dir w, pw_shell w] s of (ok, others, s) \<Rightarrow>
          if \<not> ok then Inr ((), px_reply_error (px_ENOMEM lib) s)
          else px_send ([LOAD_PORT, LOAD_ATOM ''ok'', LOAD_ATOM ''passwd''] @ names @
            [LOAD_INT (pw_uid w), LOAD_INT (pw_gid w)] @ others @ [LOAD_TUPLE 8, LOAD_TUPLE 1, LOAD_TUPLE 3]) 5 s)"

definition reply_xtra_getgroups :: "int list \<Rightarrow> 'l px_port \<Rightarrow> (unit, 'l px_port) outcome" where
  "reply_xtra_getgroups gids s =
     (case make_getgroups_list gids of (items, members) \<Rightarrow>
        px_send ([LOAD_PORT, LOAD_ATOM ''ok'', LOAD_INT (int (length gids))] @ items @
          [LOAD_LIST members, LOAD_TUPLE 2, LOAD_TUPLE 1, LOAD_TUPLE 3]) 0 s)"

definition reply_xtra_stat :: "px_stat \<Rightarrow> 'l px_port \<Rightarrow> (unit, 'l px_port) outcome" where
  "reply_xtra_stat st s =
     px_send [LOAD_PORT, LOAD_ATOM ''ok'', LOAD_ATOM ''stat'', LOAD_INT (st_dev st), LOAD_INT (st_ino st),
       LOAD_INT (st_mode st), LOAD_INT (st_nlink st), LOAD_INT (st_uid st), LOAD_INT (st_gid st), LOAD_INT (st_rdev st),
       LOAD_INT (st_atime st), LOAD_INT (st_mtime st), LOAD_INT (st_ctime st), LOAD_INT (st_size st),
       LOAD_INT (st_blocks st), LOAD_INT (st_blksize st), LOAD_TUPLE 14, LOAD_TUPLE 1, LOAD_TUPLE 3] 0 s"

text \<open>The name of the user: whether there is one is not looked at.\<close>

definition px_reply_login :: "'l posix \<Rightarrow> nat option \<Rightarrow> 'l px_port \<Rightarrow> (unit, 'l px_port) outcome" where
  "px_reply_login lib p s =
     (case p of
        None \<Rightarrow> Inl NullPtr
      | Some p \<Rightarrow>
          let name = px_string_at lib p (px_lib s); s = px_do (PxAllocBinary (int (length name))) s in
          Inr ((), if \<not> px_got lib s then px_reply_error (px_ENOMEM lib) s else px_reply_ok_binary name s))"

text \<open>
  The error of \<^verbatim>\<open>getgroups\<close> and of \<^verbatim>\<open>lstat\<close> is what \<^verbatim>\<open>errno\<close> is by now; that of the others has been kept.
\<close>

definition px_answer :: "'l posix \<Rightarrow> byte \<Rightarrow> px_out \<Rightarrow> 'l px_port \<Rightarrow> (unit, 'l px_port) outcome" where
  "px_answer lib cmd out s =
     (case po_ret out of
        RetNum r \<Rightarrow> Inr ((), if po_ok out then px_reply_ok_num r s else px_reply_error (po_err out) s)
      | RetAt p \<Rightarrow>
          if cmd = 10 then px_reply_login lib p s
          else (case p of
              None \<Rightarrow> px_xtra_error (po_err out) s
            | Some p \<Rightarrow> if cmd = 3 \<or> cmd = 4 then reply_xtra_group lib p s else reply_xtra_passwd lib p s)
      | RetGids gs \<Rightarrow>
          (case gs of None \<Rightarrow> px_xtra_error (px_errno lib (px_lib s)) s | Some gids \<Rightarrow> reply_xtra_getgroups gids s)
      | RetStat r st \<Rightarrow>
          if po_ok out then reply_xtra_stat st s else px_xtra_error (px_errno lib (px_lib s)) s)"

definition posix_ready_async :: "'l posix \<Rightarrow> byte \<Rightarrow> px_out \<Rightarrow> 'l px_port \<Rightarrow> (unit, 'l px_port) outcome" where
  "posix_ready_async lib cmd out s = andthen (px_answer lib cmd out s) (\<lambda>_ s. Inr ((), px_do PxFree s))"

section \<open>The entry points\<close>

definition px_badarg :: "'l px_port \<Rightarrow> 'l px_port" where
  "px_badarg s = px_reply_error_atom ''badarg'' (px_do PxFree s)"

text \<open>Reading a command into the call state; None when it has been answered already.\<close>

definition posix_decode :: "'l posix \<Rightarrow> iovec \<Rightarrow> 'l px_port \<Rightarrow> (px_job option, 'l px_port) outcome" where
  "posix_decode lib ev s =
     (if length (concat ev) < 1 then Inr (None, s)
      else case EV_GET_CHAR ev (0, 1) of
          Inl e \<Rightarrow> Inl e
        | Inr got \<Rightarrow>
            let u = px_unset lib;
                (cmd, c, s) = (case got of
                  None \<Rightarrow> (word_of_int u, (0, 1), px_reply_error (px_EINVAL lib) s)
                | Some (b, c) \<Rightarrow> (b, c, s));
                s = px_do PxAlloc s
            in if \<not> px_got lib s then Inr (None, px_reply_error (px_ENOMEM lib) s)
               else if cmd = 0 then
                 (case tk_uint32 ev (px_debug s) c (\<lambda>v _. Inr v) of
                    Inl e \<Rightarrow> Inl e
                  | Inr v \<Rightarrow> Inr (None, px_do PxFree (px_reply_ok_num v (s\<lparr>px_debug := v\<rparr>))))
               else if 18 < cmd then Inr (None, px_badarg s)
               else
                 (case tk_args u [] ev u u (px_kinds ! (unat cmd - 1)) c of
                    Inl e \<Rightarrow> Inl e
                  | Inr None \<Rightarrow> Inr (None, px_badarg s)
                  | Inr (Some args) \<Rightarrow> Inr (Some \<lparr>pj_cmd = cmd, pj_args = args\<rparr>, s)))"

text \<open>
  \<^verbatim>\<open>default_async_calls\<close> is 0 in this driver and nothing sets it: the call is made and answered before \<^verbatim>\<open>_outputv\<close>
  returns.
\<close>

definition posix_outputv :: "'l posix \<Rightarrow> iovec \<Rightarrow> 'l px_port \<Rightarrow> (unit, 'l px_port) outcome" where
  "posix_outputv lib ev s =
     andthen (posix_decode lib ev s) (\<lambda>job s.
       case job of
         None \<Rightarrow> Inr ((), s)
       | Some job \<Rightarrow>
           andthen (px_invoke lib (pj_cmd job) (pj_args job) s) (\<lambda>out s.
             posix_ready_async lib (pj_cmd job) out s))"

end
