(* ===== verification/Posix_Service.thy ===== *)
theory Posix_Service
  imports Posix
begin

text \<open>
  What the driver for POSIX calls does for its clients: a request becomes the call it asks for and is answered
  once, before the next is read; the answer is the one term of the result, unless there is too much of it.
\<close>

section \<open>A command becomes a call\<close>

definition px_allocs :: "'l posix \<Rightarrow> bool" where
  "px_allocs lib \<longleftrightarrow> (\<forall>h. px_alloc lib h)"

lemma px_gotten: "px_allocs lib \<Longrightarrow> px_got lib s"
  by (simp add: px_allocs_def px_got_def)

lemma px_do_simps [simp]:
  "px_log (px_do c s) = c # px_log s" "px_lib (px_do c s) = px_lib s" "px_debug (px_do c s) = px_debug s"
  by (simp_all add: px_do_def)

text \<open>The requests of \<^verbatim>\<open>posix_drv.erl\<close>: the command and the arguments; a string ends with a zero byte.\<close>

fun px_cmd :: "px_call \<Rightarrow> byte" where
  "px_cmd PX_getgid = 1" | "px_cmd PX_getegid = 2" | "px_cmd (PX_getgrnam _) = 3" | "px_cmd (PX_getgrgid _) = 4"
| "px_cmd PX_getgroups = 5" | "px_cmd (PX_getpwnam _) = 6" | "px_cmd (PX_getpwuid _) = 7" | "px_cmd PX_getuid = 8"
| "px_cmd PX_geteuid = 9" | "px_cmd PX_getlogin = 10" | "px_cmd PX_getpgrp = 11" | "px_cmd PX_getppid = 12"
| "px_cmd (PX_getsid _) = 13" | "px_cmd (PX_kill _ _) = 14" | "px_cmd (PX_lstat _) = 15" | "px_cmd (PX_mkfifo _ _) = 16"
| "px_cmd (PX_mknod _ _ _) = 17" | "px_cmd (PX_umask _) = 18"

text \<open>The four bytes of an unsigned number are those of a signed one.\<close>

definition CUns :: "int \<Rightarrow> tk_value" where
  "CUns i = CInt (if i < 2 ^ 31 then i else i - 2 ^ 32)"

definition CStr :: "byte list \<Rightarrow> tk_value" where
  "CStr bs = CBytes (bs @ [0])"

fun px_values :: "px_call \<Rightarrow> tk_value list" where
  "px_values (PX_getgrnam n) = [CStr n]"
| "px_values (PX_getgrgid g) = [CUns g]"
| "px_values (PX_getpwnam n) = [CStr n]"
| "px_values (PX_getpwuid u) = [CUns u]"
| "px_values (PX_kill pid sig) = [CInt pid, CInt sig]"
| "px_values (PX_lstat path) = [CStr path]"
| "px_values (PX_mkfifo path mode) = [CStr path, CUns mode]"
| "px_values (PX_mknod path mode dev) = [CStr path, CUns mode, CInt dev]"
| "px_values (PX_umask numask) = [CUns numask]"
| "px_values _ = []"

definition uint32_ok :: "int \<Rightarrow> bool" where
  "uint32_ok i \<longleftrightarrow> 0 \<le> i \<and> i < 2 ^ 32"

text \<open>The device must be one that is not made negative; the session asked for is always that of the caller.\<close>

fun px_call_ok :: "px_call \<Rightarrow> bool" where
  "px_call_ok (PX_getgrnam n) = (0 \<notin> set n)"
| "px_call_ok (PX_getgrgid g) = uint32_ok g"
| "px_call_ok (PX_getpwnam n) = (0 \<notin> set n)"
| "px_call_ok (PX_getpwuid u) = uint32_ok u"
| "px_call_ok (PX_getsid pid) = (pid = 0)"
| "px_call_ok (PX_kill pid sig) = (int32_ok pid \<and> int32_ok sig)"
| "px_call_ok (PX_lstat path) = (0 \<notin> set path)"
| "px_call_ok (PX_mkfifo path mode) = (0 \<notin> set path \<and> uint32_ok mode)"
| "px_call_ok (PX_mknod path mode dev) = (0 \<notin> set path \<and> uint32_ok mode \<and> 0 \<le> dev \<and> dev < 2 ^ 31)"
| "px_call_ok (PX_umask numask) = uint32_ok numask"
| "px_call_ok _ = True"

lemma CUns_means: "uint32_ok i \<Longrightarrow> tk_means maps (CUns i) a \<Longrightarrow> \<exists>v. a = AInt v \<and> v mod 2 ^ 32 = i"
  by (auto simp: CUns_def uint32_ok_def split: if_splits)

lemma CStr_means: "0 \<notin> set bs \<Longrightarrow> tk_means maps (CStr bs) a \<Longrightarrow> \<exists>n p. a = ABytes n p \<and> 0 \<in> set p \<and> c_string p = bs"
  using string_ptr by (fastforce simp: CStr_def)

lemma CUns_ok: "uint32_ok i \<Longrightarrow> tk_value_ok maps (CUns i)"
  by (simp add: CUns_def uint32_ok_def int32_ok_def)

lemma px_values_ok: "px_call_ok call \<Longrightarrow> \<forall>v \<in> set (px_values call). tk_value_ok maps v"
  by (cases call) (auto simp: CUns_ok CStr_def int32_ok_def)

lemma px_fields: "[] \<notin> set (concat (map tk_fields (px_values call)))"
  by (cases call) (auto simp: CUns_def CStr_def put_int32_def tk_len_def)

lemma px_values_kinds: "map tk_kind_of (px_values call) = px_kinds ! (unat (px_cmd call) - 1)"
  by (cases call) (simp_all add: px_kinds_def CUns_def CStr_def)

lemma px_cmd_range: "px_cmd call \<noteq> 0" "\<not> 18 < px_cmd call"
  by (cases call; simp)+

text \<open>The arguments that come out of decoding make the call again.\<close>

lemma px_call_back:
  assumes "list_all2 (tk_means maps) (px_values call) args" "px_call_ok call"
  shows "\<exists>strs. px_strs args = Inr strs \<and> (px_calls ! (unat (px_cmd call) - 1)) strs (px_nums args) = call"
  using assms
  by (cases call) (auto simp: px_calls_def px_calls_groups_def px_calls_process_def px_calls_files_def list_all2_Cons1 int32_ok_def dest!: CUns_means CStr_means)

lemma px_invoke_call:
  assumes "px_strs args = Inr strs" "(px_calls ! (unat cmd - 1)) strs (px_nums args) = call"
  shows "px_invoke lib cmd args s =
    (case px_run lib call (px_do (PxCall call) s) of (r, s) \<Rightarrow> Inr (px_expected r (px_errno lib (px_lib s)), s))"
  unfolding px_invoke_def assms(1) sum.case Let_def assms(2) ..

lemma px_expected_ret [simp]: "po_ret (px_expected r e) = r"
  by (cases r) simp_all

lemma px_run_log: "px_run lib call s = (r, t) \<Longrightarrow> px_log t = px_log s"
  by (cases call) (auto simp: px_run_num_def px_run_id_def px_run_ptr_def split: prod.splits)

lemma posix_decode_call:
  assumes "concat groups = [px_cmd call] # concat (map tk_fields (px_values call))" "[] \<notin> set groups"
    and "ev_small (hdr # map concat groups)" "px_allocs lib" "px_call_ok call"
  shows "\<exists>args. list_all2 (tk_means []) (px_values call) args \<and> posix_decode lib (hdr # map concat groups) s =
    Inr (Some \<lparr>pj_cmd = px_cmd call, pj_args = args\<rparr>, px_do PxAlloc s)"
proof -
  let ?ev = "hdr # map concat groups" and ?vs = "px_values call" and ?u = "px_unset lib"
  have fields: "[] \<notin> set (concat groups)" unfolding assms(1) using px_fields by auto
  from ev_at_start [OF assms(2) this, of hdr] have "ev_at ?ev (0, 1) ([px_cmd call] # concat (map tk_fields ?vs))"
    unfolding assms(1) .
  then obtain c where c: "ev_get (length [px_cmd call]) ?ev (0, 1) = Inr (Some ([px_cmd call], c))"
    "ev_at ?ev c (concat (map tk_fields ?vs))"
    using ev_at_get by blast
  have char: "EV_GET_CHAR ?ev (0, 1) = Inr (Some (px_cmd call, c))" using c(1) by (simp add: EV_GET_CHAR_def ev_value_def)
  have "concat groups \<noteq> []" "\<forall>f \<in> set (concat groups). f \<noteq> []" using fields assms(1) by auto
  then have size: "\<not> length (concat ?ev) < 1" by fastforce
  obtain args where args: "tk_args ?u [] ?ev ?u ?u (px_kinds ! (unat (px_cmd call) - 1)) c = Inr (Some args)"
    "list_all2 (tk_means []) ?vs args"
    using tk_args_back [of ?ev c ?vs "[]" "[]" ?u ?u ?u] c(2) assms(3) px_values_ok [OF assms(5)] px_values_kinds [of call]
    by fastforce
  show ?thesis using args char px_cmd_range [of call] unfolding posix_decode_def if_not_P [OF size]
    by (intro exI [of _ args]) (simp add: Let_def px_gotten [OF assms(4)])
qed

section \<open>The terms of the answers\<close>

lemma px_copies_ok:
  assumes "px_allocs lib"
  shows "\<exists>t. px_copies lib extra bs s = (True, map LOAD_BINARY bs, t) \<and>
    px_log t = rev (map (\<lambda>b. PxAllocBinary (int (length b) + extra)) bs) @ px_log s \<and> px_lib t = px_lib s"
proof (induction bs arbitrary: s)
  case Nil
  then show ?case by simp
next
  case (Cons b bs)
  from Cons [of "px_do (PxAllocBinary (int (length b) + extra)) s"] show ?case
    by (auto simp: px_gotten [OF assms])
qed

definition px_group_term :: "px_group \<Rightarrow> tk_term" where
  "px_group_term g = TkTuple [TkPort, TkAtom ''ok'', TkTuple [TkTuple [TkAtom ''group'', TkBinary (gr_name g),
     TkBinary (gr_passwd g), TkInt (gr_gid g), TkList (map TkBinary (case gr_mem g of None \<Rightarrow> [] | Some ms \<Rightarrow> ms))]]]"

definition px_group_items :: "px_group \<Rightarrow> tk_item list" where
  "px_group_items g = (let names = (case gr_mem g of None \<Rightarrow> [] | Some ms \<Rightarrow> ms) in
     [LOAD_PORT, LOAD_ATOM ''ok'', LOAD_ATOM ''group'', LOAD_BINARY (gr_name g), LOAD_BINARY (gr_passwd g), LOAD_INT (gr_gid g)] @
     map LOAD_BINARY names @ [LOAD_NIL, LOAD_LIST (length names + 1), LOAD_LIST 1, LOAD_TUPLE 5, LOAD_TUPLE 1, LOAD_TUPLE 3])"

lemma px_group_denotes: "tk_denotes (px_group_items g) (px_group_term g)"
  by (simp add: px_group_items_def px_group_term_def tk_denotes_def Let_def tk_eval_append tk_eval_binaries)

lemma px_group_size: "tk_size (px_group_items g) = 27 + 4 * length (case gr_mem g of None \<Rightarrow> [] | Some ms \<Rightarrow> ms)"
  by (simp add: px_group_items_def Let_def)

lemma px_group_reply:
  assumes "px_allocs lib"
  shows "\<exists>u. reply_xtra_group lib p s = px_send (px_group_items (px_group_at lib p (px_lib s))) 2 u \<and>
    px_log u = rev (map (\<lambda>b. PxAllocBinary (int (length b) + 1)) (case gr_mem (px_group_at lib p (px_lib s)) of None \<Rightarrow> [] | Some ms \<Rightarrow> ms)) @
      [PxAllocBinary (int (length (gr_passwd (px_group_at lib p (px_lib s))))), PxAllocBinary (int (length (gr_name (px_group_at lib p (px_lib s)))))] @ px_log s \<and>
    px_lib u = px_lib s"
proof -
  let ?g = "px_group_at lib p (px_lib s)"
  let ?names = "case gr_mem ?g of None \<Rightarrow> [] | Some ms \<Rightarrow> ms"
  obtain t where t: "px_copies lib 0 [gr_name ?g, gr_passwd ?g] s = (True, map LOAD_BINARY [gr_name ?g, gr_passwd ?g], t)"
    "px_log t = rev (map (\<lambda>b. PxAllocBinary (int (length b) + 0)) [gr_name ?g, gr_passwd ?g]) @ px_log s"
    "px_lib t = px_lib s"
    using px_copies_ok [OF assms, of 0 "[gr_name ?g, gr_passwd ?g]" s] by blast
  obtain u where u: "px_copies lib 1 ?names t = (True, map LOAD_BINARY ?names, u)"
    "px_log u = rev (map (\<lambda>b. PxAllocBinary (int (length b) + 1)) ?names) @ px_log t" "px_lib u = px_lib t"
    using px_copies_ok [OF assms, of 1 ?names t] by blast
  have "reply_xtra_group lib p s = px_send (px_group_items ?g) 2 u"
    unfolding reply_xtra_group_def make_groups_list_def Let_def t(1) u(1) prod.case
    by (simp add: px_group_items_def Let_def)
  then show ?thesis using t u by auto
qed

text \<open>What has been sent, and the binaries made and not released.\<close>

definition px_outputs :: "px_event list \<Rightarrow> tk_item list list" where
  "px_outputs h = rev (concat (map (\<lambda>c. case c of PxOutput items \<Rightarrow> [items] | _ \<Rightarrow> []) h))"

fun px_binaries :: "px_event list \<Rightarrow> int" where
  "px_binaries [] = 0"
| "px_binaries (PxAllocBinary n # h) = px_binaries h + 1"
| "px_binaries (PxFreeBinary # h) = px_binaries h - 1"
| "px_binaries (_ # h) = px_binaries h"

lemma px_outputs_simps [simp]:
  "px_outputs [] = []" "px_outputs (PxOutput items # h) = px_outputs h @ [items]" "px_outputs (PxAllocBinary n # h) = px_outputs h"
  "px_outputs (PxFreeBinary # h) = px_outputs h" "px_outputs (PxCall c # h) = px_outputs h" "px_outputs (PxAlloc # h) = px_outputs h"
  "px_outputs (PxFree # h) = px_outputs h"
  "px_outputs (replicate k PxFreeBinary @ h) = px_outputs h" "px_outputs (rev (map (\<lambda>b. PxAllocBinary (f b)) bs) @ h) = px_outputs h"
proof -
  show "px_outputs (replicate k PxFreeBinary @ h) = px_outputs h" by (induction k) (simp_all add: px_outputs_def)
  show "px_outputs (rev (map (\<lambda>b. PxAllocBinary (f b)) bs) @ h) = px_outputs h"
    by (induction bs rule: rev_induct) (simp_all add: px_outputs_def)
qed (simp_all add: px_outputs_def)

lemma px_binaries_simps [simp]:
  "px_binaries (rev (map (\<lambda>b. PxAllocBinary (f b)) bs) @ h) = px_binaries h + int (length bs)"
  "px_binaries (replicate k PxFreeBinary @ h) = px_binaries h - int k"
proof -
  show "px_binaries (rev (map (\<lambda>b. PxAllocBinary (f b)) bs) @ h) = px_binaries h + int (length bs)"
    by (induction bs rule: rev_induct) simp_all
  show "px_binaries (replicate k PxFreeBinary @ h) = px_binaries h - int k" by (induction k) simp_all
qed

lemma px_group_answer:
  assumes "px_allocs lib" "px_group_at lib p (px_lib s) = g"
  shows "length (case gr_mem g of None \<Rightarrow> [] | Some ms \<Rightarrow> ms) \<le> 9 \<Longrightarrow>
      \<exists>t. reply_xtra_group lib p s = Inr ((), t) \<and> px_outputs (px_log t) = px_outputs (px_log s) @ [px_group_items g] \<and>
        px_binaries (px_log t) = px_binaries (px_log s) + int (length (case gr_mem g of None \<Rightarrow> [] | Some ms \<Rightarrow> ms))"
    and "9 < length (case gr_mem g of None \<Rightarrow> [] | Some ms \<Rightarrow> ms) \<Longrightarrow> reply_xtra_group lib p s = Inl OutOfBounds"
proof -
  let ?names = "case gr_mem g of None \<Rightarrow> [] | Some ms \<Rightarrow> ms"
  obtain u where u: "reply_xtra_group lib p s = px_send (px_group_items g) 2 u"
    "px_log u = rev (map (\<lambda>b. PxAllocBinary (int (length b) + 1)) ?names) @
      [PxAllocBinary (int (length (gr_passwd g))), PxAllocBinary (int (length (gr_name g)))] @ px_log s"
    using px_group_reply [OF assms(1), of p s] unfolding assms(2) by blast
  show "\<exists>t. reply_xtra_group lib p s = Inr ((), t) \<and> px_outputs (px_log t) = px_outputs (px_log s) @ [px_group_items g] \<and>
        px_binaries (px_log t) = px_binaries (px_log s) + int (length ?names)" if "length ?names \<le> 9"
    using that unfolding u(1) px_send_def px_group_size by (simp add: px_put_def u(2))
  show "reply_xtra_group lib p s = Inl OutOfBounds" if "9 < length ?names"
    using that unfolding u(1) px_send_def px_group_size by simp
qed

section \<open>Every command is answered once\<close>

definition px_more :: "nat \<Rightarrow> 'l px_port \<Rightarrow> 'l px_port \<Rightarrow> bool" where
  "px_more k s t \<longleftrightarrow> length (px_outputs (px_log t)) = length (px_outputs (px_log s)) + k"

lemmas px_reply_defs = px_reply_ok_num_def px_reply_ok_binary_def px_reply_error_def px_reply_error_atom_def px_put_def

lemma px_more_trans: "px_more 0 s t \<Longrightarrow> px_more k t u \<Longrightarrow> px_more k s u"
  by (simp add: px_more_def)

lemma px_copies_more: "px_copies lib extra bs s = (ok, items, t) \<Longrightarrow> px_more 0 s t"
proof (induction bs arbitrary: s ok items)
  case Nil
  then show ?case by (simp add: px_more_def)
next
  case (Cons b bs)
  then show ?case by (fastforce simp: px_more_def Let_def split: if_splits prod.splits)
qed

lemma px_send_more: "px_send items n s = Inr ((), t) \<Longrightarrow> px_more 1 s t"
  by (auto simp: px_send_def px_more_def px_put_def split: if_splits)

lemma px_error_more: "px_more 1 s (px_reply_error n s)" "px_more 1 s (px_reply_ok_num n s)" "px_more 1 s (px_badarg s)"
  by (simp_all add: px_more_def px_reply_defs px_badarg_def)

lemma reply_xtra_group_more: "reply_xtra_group lib p s = Inr ((), t) \<Longrightarrow> px_more 1 s t"
  by (auto simp: reply_xtra_group_def make_groups_list_def Let_def simp del: px_copies.simps One_nat_def
      split: prod.splits if_splits
      dest!: px_copies_more px_send_more intro: px_more_trans px_error_more)

lemma reply_xtra_passwd_more: "reply_xtra_passwd lib p s = Inr ((), t) \<Longrightarrow> px_more 1 s t"
  by (auto simp: reply_xtra_passwd_def Let_def simp del: px_copies.simps One_nat_def split: prod.splits if_splits
      dest!: px_copies_more px_send_more intro: px_more_trans px_error_more)

lemma px_login_more: "px_reply_login lib p s = Inr ((), t) \<Longrightarrow> px_more 1 s t"
  by (auto simp: px_reply_login_def px_more_def px_reply_defs Let_def split: option.splits if_splits)

lemma px_answer_more: "px_answer lib cmd out s = Inr ((), t) \<Longrightarrow> px_more 1 s t"
  by (auto simp: px_answer_def reply_xtra_getgroups_def make_getgroups_list_def reply_xtra_stat_def px_xtra_error_def
      simp del: One_nat_def split: px_ret.splits if_splits option.splits
      dest: reply_xtra_group_more reply_xtra_passwd_more px_login_more px_send_more intro: px_error_more)

lemma posix_ready_more: "posix_ready_async lib cmd out s = Inr ((), t) \<Longrightarrow> px_more 1 s t"
  by (auto simp: posix_ready_async_def andthen_def px_more_def dest!: px_answer_more split: sum.splits)

lemma px_run_more: "px_run lib call s = (r, t) \<Longrightarrow> px_more 0 s t"
  by (cases call) (auto simp: px_run_num_def px_run_id_def px_run_ptr_def px_more_def split: prod.splits)

lemma px_invoke_more: "px_invoke lib cmd args s = Inr (out, t) \<Longrightarrow> px_more 0 s t"
  by (auto simp: px_invoke_def Let_def px_more_def dest!: px_run_more split: sum.splits prod.splits)

lemma posix_decode_more:
  assumes "posix_decode lib ev s = Inr (job, t)" "1 < length ev" "ev ! 1 \<noteq> []"
  shows "px_more (case job of None \<Rightarrow> 1 | Some _ \<Rightarrow> 0) s t"
proof -
  obtain b c where char: "EV_GET_CHAR ev (0, 1) = Inr (Some (b, c))"
    using assms(2,3) by (cases "ev ! 1") (auto simp: EV_GET_CHAR_def ev_value_def ev_get_def)
  have "ev ! 1 \<in> set ev" using assms(2) by simp
  then have size: "\<not> length (concat ev) < 1" using assms(3) by auto
  show ?thesis using assms(1) char unfolding posix_decode_def if_not_P [OF size]
    by (auto simp: Let_def px_more_def px_reply_defs px_badarg_def split: if_splits sum.splits option.splits)
qed

lemma posix_outputv_more:
  assumes "posix_outputv lib ev s = Inr ((), t)" "1 < length ev" "ev ! 1 \<noteq> []"
  shows "px_more 1 s t"
proof -
  obtain job u where u: "posix_decode lib ev s = Inr (job, u)"
    using assms(1) by (auto simp: posix_outputv_def andthen_def split: sum.splits)
  note more = posix_decode_more [OF u assms(2,3)]
  show ?thesis
  proof (cases job)
    case None
    then show ?thesis using assms(1) u more by (simp add: posix_outputv_def andthen_def)
  next
    case (Some j)
    then obtain out v where v: "px_invoke lib (pj_cmd j) (pj_args j) u = Inr (out, v)"
      "posix_ready_async lib (pj_cmd j) out v = Inr ((), t)"
      using assms(1) u by (auto simp: posix_outputv_def andthen_def split: sum.splits)
    from more px_invoke_more [OF v(1)] posix_ready_more [OF v(2)] show ?thesis by (simp add: Some px_more_def)
  qed
qed

definition px_started :: "'l posix \<Rightarrow> 'l px_port \<Rightarrow> bool" where
  "px_started lib s \<longleftrightarrow> (\<exists>l. posix_start lib l = Some s)"

text \<open>A step is a command that is not empty; there are no others.\<close>

fun px_stepped :: "'l posix \<Rightarrow> iovec option \<Rightarrow> 'l px_port \<Rightarrow> 'l px_port \<Rightarrow> bool" where
  "px_stepped lib None s t = False"
| "px_stepped lib (Some ev) s t = (1 < length ev \<and> ev ! 1 \<noteq> [] \<and> posix_outputv lib ev s = Inr ((), t))"

interpretation posix_server: edtk_server "px_started lib" "px_stepped lib" "\<lambda>s. length (px_outputs (px_log s))" for lib
proof
  show "length (px_outputs (px_log s)) = 0" if "px_started lib s" for s
    using that by (auto simp: px_started_def posix_start_def split: if_splits)
  show "length (px_outputs (px_log t)) = length (px_outputs (px_log s)) + (case c of None \<Rightarrow> 0 | Some _ \<Rightarrow> 1)"
    if "px_stepped lib c s t" for c s t
    using that posix_outputv_more [of lib _ s t] by (cases c) (auto simp: px_more_def)
qed

section \<open>The calls made\<close>

fun px_made :: "px_event list \<Rightarrow> px_call list" where
  "px_made [] = []"
| "px_made (PxCall c # h) = c # px_made h"
| "px_made (_ # h) = px_made h"

lemma px_made_append [simp]: "px_made (h @ h') = px_made h @ px_made h'"
  by (induction h rule: px_made.induct) simp_all

lemma px_made_free [simp]: "px_made (replicate n PxFreeBinary) = []"
  by (induction n) simp_all

lemma px_copies_made: "px_copies lib extra bs s = (ok, items, t) \<Longrightarrow> px_made (px_log t) = px_made (px_log s)"
proof (induction bs arbitrary: s ok items)
  case Nil
  then show ?case by simp
next
  case (Cons b bs)
  then show ?case by (fastforce simp: Let_def split: if_splits prod.splits)
qed

lemma px_send_made: "px_send items n s = Inr ((), t) \<Longrightarrow> px_made (px_log t) = px_made (px_log s)"
  by (auto simp: px_send_def px_put_def split: if_splits)

lemma px_answer_made:
  assumes "px_answer lib cmd out s = Inr ((), t)"
  shows "px_made (px_log t) = px_made (px_log s)"
proof -
  have group: "reply_xtra_group lib p s = Inr ((), t) \<Longrightarrow> px_made (px_log t) = px_made (px_log s)" for p
    by (auto simp: reply_xtra_group_def make_groups_list_def Let_def px_reply_defs simp del: px_copies.simps
        split: prod.splits if_splits dest!: px_copies_made px_send_made)
  have passwd: "reply_xtra_passwd lib p s = Inr ((), t) \<Longrightarrow> px_made (px_log t) = px_made (px_log s)" for p
    by (auto simp: reply_xtra_passwd_def Let_def px_reply_defs simp del: px_copies.simps
        split: prod.splits if_splits dest!: px_copies_made px_send_made)
  show ?thesis using assms group passwd
    by (auto simp: px_answer_def reply_xtra_getgroups_def make_getgroups_list_def reply_xtra_stat_def px_xtra_error_def
        px_reply_login_def Let_def px_reply_defs
        split: px_ret.splits if_splits option.splits dest!: px_send_made)
qed

lemma px_ready_made: "posix_ready_async lib cmd out s = Inr ((), t) \<Longrightarrow> px_made (px_log t) = px_made (px_log s)"
  by (auto simp: posix_ready_async_def andthen_def dest!: px_answer_made split: sum.splits)

text \<open>The requests for a group.\<close>

fun px_for_group :: "px_call \<Rightarrow> bool" where
  "px_for_group (PX_getgrnam _) = True"
| "px_for_group (PX_getgrgid _) = True"
| "px_for_group _ = False"

lemma px_group_answers:
  assumes "px_for_group call"
  shows "px_answer lib (px_cmd call) \<lparr>po_ok = True, po_err = 0, po_ret = RetAt (Some p)\<rparr> s = reply_xtra_group lib p s"
  using assms by (cases call) (simp_all add: px_answer_def)

section \<open>A system to evaluate with\<close>

text \<open>Its state is the group asked for last; the group with the number \<open>n\<close> has \<open>n\<close> members.\<close>

definition demo_px_group :: "px_call \<Rightarrow> px_group" where
  "demo_px_group c = (case c of
     PX_getgrgid n \<Rightarrow> \<lparr>gr_name = [103], gr_passwd = [120], gr_gid = n, gr_mem = Some (replicate (nat n) [97])\<rparr>
   | _ \<Rightarrow> \<lparr>gr_name = [114], gr_passwd = [120], gr_gid = 0, gr_mem = None\<rparr>)"

definition demo_posix :: "px_group posix" where
  "demo_posix = \<lparr>
     px_num = \<lambda>c l. (7, l),
     px_ptr = \<lambda>c l. (if px_for_group c then (Some 1, demo_px_group c) else (None, l)),
     px_gids = \<lambda>l. (Some [1, 2], l),
     px_lstat = \<lambda>path l. ((-1, undefined), l),
     px_group_at = \<lambda>p l. l,
     px_passwd_at = \<lambda>p l. undefined,
     px_string_at = \<lambda>p l. [],
     px_errno = \<lambda>l. 2, px_alloc = \<lambda>h. True, px_unset = 0, px_EINVAL = 22, px_ENOMEM = 12\<rparr>"

lemma demo_posix_allocs: "px_allocs demo_posix"
  by (simp add: px_allocs_def demo_posix_def)

definition demo_px_port :: "px_group px_port" where
  "demo_px_port = \<lparr>px_log = [PxAlloc], px_lib = demo_px_group PX_getgid, px_debug = 0\<rparr>"

end
