(* ===== verification/Edtk_Unix.thy ===== *)
theory Edtk_Unix
  imports Edtk_Command
begin

text \<open>
  The driver for Unix domain sockets made with the Erlang driver toolkit, \<^verbatim>\<open>unixdom_drv/c_src/unixdom_drv.c\<close> and
  \<^verbatim>\<open>my-unixdom.c\<close>: a value map of descriptors, and descriptors passed over sockets.  (It is another driver than
  that of \<open>Unixdom\<close>.)  The operating system is the parameter \<open>s1_os\<close>.
\<close>

section \<open>The system\<close>

datatype s1_event =
    S1Stat "byte list"
  | S1Socket int                                \<comment> \<open>the descriptor that was made, or -1\<close>
  | S1Bind int "byte list"
  | S1Connect int "byte list"
  | S1Sendmsg int int
  | S1Recvmsg int
  | S1Close int int                             \<comment> \<open>the descriptor and the result\<close>
  | S1Write int "byte list"
  | S1Read int int
  | S1Alloc
  | S1Free
  | S1AllocBinary int
  | S1FreeBinary
  | S1Output "tk_item list"
  | S1BadOutput int                             \<comment> \<open>a binary of this length, which is negative\<close>

record 'l s1_os =
  s1_exists :: "byte list \<Rightarrow> 'l \<Rightarrow> bool \<times> 'l"
  s1_socket :: "'l \<Rightarrow> int \<times> 'l"
  s1_bind :: "int \<Rightarrow> byte list \<Rightarrow> 'l \<Rightarrow> int \<times> 'l"
  s1_connect :: "int \<Rightarrow> byte list \<Rightarrow> 'l \<Rightarrow> int \<times> 'l"
  s1_sendmsg :: "int \<Rightarrow> int \<Rightarrow> 'l \<Rightarrow> int \<times> 'l"
  s1_recvmsg :: "int \<Rightarrow> 'l \<Rightarrow> (int \<times> int) \<times> 'l"      \<comment> \<open>the result and what is at \<^verbatim>\<open>fdp\<close> then\<close>
  s1_close :: "int \<Rightarrow> 'l \<Rightarrow> int \<times> 'l"
  s1_write :: "int \<Rightarrow> byte list \<Rightarrow> 'l \<Rightarrow> int \<times> 'l"
  s1_read :: "int \<Rightarrow> int \<Rightarrow> 'l \<Rightarrow> (int \<times> byte list) \<times> 'l"
  s1_errno :: "'l \<Rightarrow> int"
  s1_alloc :: "s1_event list \<Rightarrow> bool"
  s1_unset :: int
  s1_EEXIST :: int
  s1_EINVAL :: int
  s1_ENOMEM :: int

record s1_out =
  sout_ok :: bool                                 \<comment> \<open>\<^verbatim>\<open>__expect\<close>\<close>
  sout_err :: int                                 \<comment> \<open>\<^verbatim>\<open>__expect_errval\<close>\<close>
  sout_ret :: int
  sout_bytes :: "byte list"                       \<comment> \<open>what \<^verbatim>\<open>read\<close> left at \<^verbatim>\<open>ptr\<close>\<close>

record s1_job =
  sj_cmd :: byte
  sj_args :: "tk_arg list"

text \<open>An entry of \<^verbatim>\<open>valmap_fd\<close> is None where the code has -1.\<close>

record 'l s1_port =
  s1_log :: "s1_event list"
  s1_lib :: 'l
  s1_map :: "nat option list"
  s1_debug :: int                               \<comment> \<open>\<^verbatim>\<open>edtk_debug_flag\<close>, shared by all ports\<close>

definition s1_do :: "s1_event \<Rightarrow> 'l s1_port \<Rightarrow> 'l s1_port" where
  "s1_do c s = s\<lparr>s1_log := c # s1_log s\<rparr>"

definition s1_got :: "'l s1_os \<Rightarrow> 'l s1_port \<Rightarrow> bool" where
  "s1_got lib s = s1_alloc lib (s1_log s)"

definition s1_start :: "'l s1_os \<Rightarrow> 'l \<Rightarrow> 'l s1_port option" where
  "s1_start lib l =
     (if s1_alloc lib [S1Alloc] then
        Some \<lparr>s1_log = [S1Alloc], s1_lib = l, s1_map = replicate 32 None, s1_debug = 0\<rparr>
      else None)"

section \<open>The functions of \<^verbatim>\<open>my-unixdom.c\<close>\<close>

definition s1_do_close :: "'l s1_os \<Rightarrow> int \<Rightarrow> 'l s1_port \<Rightarrow> int \<times> 'l s1_port" where
  "s1_do_close lib fd s =
     (case s1_close lib fd (s1_lib s) of (r, l) \<Rightarrow> (r, (s1_do (S1Close fd r) s)\<lparr>s1_lib := l\<rparr>))"

text \<open>
  \<^verbatim>\<open>sun_path\<close> has 108 bytes, the path is copied to it with its end.  Results are with the number of the error;
  when the socket cannot be bound or connected it stays open.
\<close>

definition my_open :: "'l s1_os \<Rightarrow> byte list \<Rightarrow> int \<Rightarrow> 'l s1_port \<Rightarrow> (int \<times> int, 'l s1_port) outcome" where
  "my_open lib path is_server s =
     (let (exists, s) = (if is_server \<noteq> 0 then
            (case s1_exists lib path (s1_lib s) of (e, l) \<Rightarrow> (e, (s1_do (S1Stat path) s)\<lparr>s1_lib := l\<rparr>))
          else (False, s)) in
      if exists then Inr ((-1, s1_EEXIST lib), s)
      else
        let (fd, l) = s1_socket lib (s1_lib s); s = (s1_do (S1Socket fd) s)\<lparr>s1_lib := l\<rparr> in
        if fd < 0 then Inr ((-1, s1_errno lib (s1_lib s)), s)
        else if 108 < length path + 1 then Inl OutOfBounds
        else
          let (res, l) = (if is_server \<noteq> 0 then s1_bind lib fd path (s1_lib s) else s1_connect lib fd path (s1_lib s));
              s = (s1_do (if is_server \<noteq> 0 then S1Bind fd path else S1Connect fd path) s)\<lparr>s1_lib := l\<rparr>
          in Inr ((if res < 0 then -1 else fd, s1_errno lib (s1_lib s)), s))"

definition my_sendfd :: "'l s1_os \<Rightarrow> int \<Rightarrow> int \<Rightarrow> 'l s1_port \<Rightarrow> int \<times> 'l s1_port" where
  "my_sendfd lib fd wfd s =
     (case s1_sendmsg lib fd wfd (s1_lib s) of (r, l) \<Rightarrow>
        (if 0 \<le> r then 0 else -1, (s1_do (S1Sendmsg fd wfd) s)\<lparr>s1_lib := l\<rparr>))"

definition my_receivefd :: "'l s1_os \<Rightarrow> int \<Rightarrow> 'l s1_port \<Rightarrow> int \<times> 'l s1_port" where
  "my_receivefd lib fd s =
     (case s1_recvmsg lib fd (s1_lib s) of ((r, passed), l) \<Rightarrow>
        (if r < 0 then -1 else passed, (s1_do (S1Recvmsg fd) s)\<lparr>s1_lib := l\<rparr>))"

section \<open>Making a call\<close>

definition s1_result :: "bool \<Rightarrow> int \<Rightarrow> int \<Rightarrow> s1_out" where
  "s1_result ok err r = \<lparr>sout_ok = ok, sout_err = err, sout_ret = r, sout_bytes = []\<rparr>"

text \<open>The command, by its number, and the arguments; those with two descriptors have them as numbers.\<close>

definition s1_invoke :: "'l s1_os \<Rightarrow> byte \<Rightarrow> tk_arg list \<Rightarrow> 'l s1_port \<Rightarrow> (s1_out, 'l s1_port) outcome" where
  "s1_invoke lib cmd args s =
     (if cmd = 1 then Inr (s1_result True 0 0, s)
      else if cmd = 2 then
        (case args of
           [ABytes _ p, AInt flags] \<Rightarrow>
             if 0 \<notin> set p then Inl OutOfBounds
             else andthen (my_open lib (c_string p) flags s) (\<lambda>(fd, e) s. Inr (s1_result (0 \<le> fd) e fd, s))
         | _ \<Rightarrow> Inl Aborts)
      else if cmd = 3 then
        (case args of [APtr _ _ fd] \<Rightarrow> Inr (s1_result True 0 (int fd), s) | _ \<Rightarrow> Inl Aborts)
      else if cmd = 4 then
        (case args of
           [AInt fd, AInt wfd] \<Rightarrow>
             (case my_sendfd lib fd wfd s of (r, s) \<Rightarrow> Inr (s1_result (r = 0) (s1_errno lib (s1_lib s)) r, s))
         | _ \<Rightarrow> Inl Aborts)
      else if cmd = 5 then
        (case args of
           [AInt fd] \<Rightarrow>
             (case my_receivefd lib fd s of (r, s) \<Rightarrow> Inr (s1_result (0 \<le> r) (s1_errno lib (s1_lib s)) r, s))
         | _ \<Rightarrow> Inl Aborts)
      else if cmd = 6 then
        (case args of
           [APtr _ _ fd] \<Rightarrow>
             (case s1_do_close lib (int fd) s of (r, s) \<Rightarrow> Inr (s1_result (r = 0) (s1_errno lib (s1_lib s)) r, s))
         | _ \<Rightarrow> Inl Aborts)
      else if cmd = 7 then
        (case args of
           [APtr _ _ fd, ABytes n p] \<Rightarrow>
             if n < 0 \<or> int (length p) < n then Inl OutOfBounds
             else (case s1_write lib (int fd) (take (nat n) p) (s1_lib s) of (r, l) \<Rightarrow>
               Inr (s1_result True 0 r, (s1_do (S1Write (int fd) (take (nat n) p)) s)\<lparr>s1_lib := l\<rparr>))
         | _ \<Rightarrow> Inl Aborts)
      else
        (case args of
           [APtr _ _ fd, AInt len] \<Rightarrow>
             (case s1_read lib (int fd) len (s1_lib s) of ((r, bs), l) \<Rightarrow>
               Inr ((s1_result True 0 r)\<lparr>sout_bytes := bs\<rparr>, (s1_do (S1Read (int fd) len) s)\<lparr>s1_lib := l\<rparr>))
         | _ \<Rightarrow> Inl Aborts))"

section \<open>Answers\<close>

definition s1_put :: "tk_item list \<Rightarrow> 'l s1_port \<Rightarrow> 'l s1_port" where
  "s1_put items s = s1_do (S1Output items) s"

definition s1_reply_ok :: "'l s1_port \<Rightarrow> 'l s1_port" where
  "s1_reply_ok s = s1_put [LOAD_PORT, LOAD_ATOM ''ok'', LOAD_TUPLE 2] s"

definition s1_reply_ok_num :: "int \<Rightarrow> 'l s1_port \<Rightarrow> 'l s1_port" where
  "s1_reply_ok_num n s = s1_put [LOAD_PORT, LOAD_ATOM ''ok'', LOAD_INT n, LOAD_TUPLE 3] s"

definition s1_reply_ok_valmap :: "nat \<Rightarrow> 'l s1_port \<Rightarrow> 'l s1_port" where
  "s1_reply_ok_valmap i s =
     s1_put [LOAD_PORT, LOAD_ATOM ''ok'', LOAD_ATOM ''valmap_fd'', LOAD_INT (int i), LOAD_TUPLE 2, LOAD_TUPLE 3] s"

definition s1_reply_error :: "int \<Rightarrow> 'l s1_port \<Rightarrow> 'l s1_port" where
  "s1_reply_error n s = s1_put [LOAD_PORT, LOAD_ATOM ''error'', LOAD_INT n, LOAD_TUPLE 3] s"

definition s1_reply_error_atom :: "string \<Rightarrow> 'l s1_port \<Rightarrow> 'l s1_port" where
  "s1_reply_error_atom a s = s1_put [LOAD_PORT, LOAD_ATOM ''error'', LOAD_ATOM a, LOAD_TUPLE 3] s"

text \<open>What has been read, of the length that \<^verbatim>\<open>read\<close> returned, -1 included.  The binary is released.\<close>

definition reply_xtra_1_ptr_ssize_t :: "s1_out \<Rightarrow> 'l s1_port \<Rightarrow> 'l s1_port" where
  "reply_xtra_1_ptr_ssize_t out s = s1_do S1FreeBinary
     (if sout_ret out < 0 then s1_do (S1BadOutput (sout_ret out)) s
      else s1_put [LOAD_PORT, LOAD_ATOM ''ok'', LOAD_BINARY (take (nat (sout_ret out)) (sout_bytes out)), LOAD_TUPLE 1, LOAD_TUPLE 3] s)"

fun find_unused_fd_index :: "nat option list \<Rightarrow> nat option" where
  "find_unused_fd_index [] = None"
| "find_unused_fd_index (None # m) = Some 0"
| "find_unused_fd_index (Some _ # m) = map_option Suc (find_unused_fd_index m)"

definition cleanup_valmap_fd_index :: "tk_arg list \<Rightarrow> 'l s1_port \<Rightarrow> 'l s1_port" where
  "cleanup_valmap_fd_index args s =
     (case args of [APtr _ i _] \<Rightarrow> s\<lparr>s1_map := (s1_map s)[i := None]\<rparr> | _ \<Rightarrow> s)"

definition s1_answer :: "'l s1_os \<Rightarrow> s1_job \<Rightarrow> s1_out \<Rightarrow> 'l s1_port \<Rightarrow> 'l s1_port" where
  "s1_answer lib job out s =
     (if sj_cmd job = 1 then s1_reply_ok s
      else if sj_cmd job = 2 then
        (if \<not> sout_ok out then s1_reply_error (sout_err out) s
         else case find_unused_fd_index (s1_map s) of
             None \<Rightarrow> s1_reply_error (s1_ENOMEM lib) s
           | Some i \<Rightarrow> s1_reply_ok_valmap i (s\<lparr>s1_map := (s1_map s)[i := Some (nat (sout_ret out))]\<rparr>))
      else if sj_cmd job = 6 then
        (if \<not> sout_ok out then s1_reply_error (sout_err out) s
         else s1_reply_ok_num (sout_ret out) (cleanup_valmap_fd_index (sj_args job) s))
      else if sj_cmd job = 4 \<or> sj_cmd job = 5 then
        (if sout_ok out then s1_reply_ok_num (sout_ret out) s else s1_reply_error (sout_err out) s)
      else if sj_cmd job = 8 then reply_xtra_1_ptr_ssize_t out s
      else s1_reply_ok_num (sout_ret out) s)"

definition s1_ready_async :: "'l s1_os \<Rightarrow> s1_job \<Rightarrow> s1_out \<Rightarrow> 'l s1_port \<Rightarrow> 'l s1_port" where
  "s1_ready_async lib job out s = s1_do S1Free (s1_answer lib job out s)"

section \<open>The entry points\<close>

definition s1_kinds :: "tk_kind list list" where
  "s1_kinds = [
     [],   \<comment> \<open>null\<close>
     [KBytes, KInt],   \<comment> \<open>open\<close>
     [KMap 0],   \<comment> \<open>getfd\<close>
     [KInt, KInt],   \<comment> \<open>sendfd\<close>
     [KInt],   \<comment> \<open>receivefd\<close>
     [KMap 0],   \<comment> \<open>close\<close>
     [KMap 0, KBytes],   \<comment> \<open>write\<close>
     [KMap 0, KInt]]"   \<comment> \<open>read\<close>

definition s1_badarg :: "'l s1_port \<Rightarrow> 'l s1_port" where
  "s1_badarg s = s1_reply_error_atom ''badarg'' (s1_do S1Free s)"

text \<open>The memory \<^verbatim>\<open>read\<close> is to fill is obtained before the call is made.\<close>

definition s1_prepare :: "'l s1_os \<Rightarrow> byte \<Rightarrow> tk_arg list \<Rightarrow> 'l s1_port \<Rightarrow> bool \<times> 'l s1_port" where
  "s1_prepare lib cmd args s =
     (case args of
        [_, AInt len] \<Rightarrow>
          if cmd = 8 then (let s = s1_do (S1AllocBinary len) s in (s1_got lib s, s)) else (True, s)
      | _ \<Rightarrow> (True, s))"

text \<open>Reading a command into the call state; None when it has been answered already.\<close>

definition s1_decode :: "'l s1_os \<Rightarrow> iovec \<Rightarrow> 'l s1_port \<Rightarrow> (s1_job option, 'l s1_port) outcome" where
  "s1_decode lib ev s =
     (if length (concat ev) < 1 then Inr (None, s)
      else case EV_GET_CHAR ev (0, 1) of
          Inl e \<Rightarrow> Inl e
        | Inr got \<Rightarrow>
            let u = s1_unset lib;
                (cmd, c, s) = (case got of
                  None \<Rightarrow> (word_of_int u, (0, 1), s1_reply_error (s1_EINVAL lib) s)
                | Some (b, c) \<Rightarrow> (b, c, s));
                s = s1_do S1Alloc s
            in if \<not> s1_got lib s then Inr (None, s1_reply_error (s1_ENOMEM lib) s)
               else if cmd = 0 then
                 (case tk_uint32 ev (s1_debug s) c (\<lambda>v _. Inr v) of
                    Inl e \<Rightarrow> Inl e
                  | Inr v \<Rightarrow> Inr (None, s1_do S1Free (s1_reply_ok_num v (s\<lparr>s1_debug := v\<rparr>))))
               else if 8 < cmd then Inr (None, s1_badarg s)
               else
                 (case tk_args u [s1_map s] ev u u (s1_kinds ! (unat cmd - 1)) c of
                    Inl e \<Rightarrow> Inl e
                  | Inr None \<Rightarrow> Inr (None, s1_badarg s)
                  | Inr (Some args) \<Rightarrow>
                      (case s1_prepare lib cmd args s of (ok, s) \<Rightarrow>
                         Inr (if \<not> ok then (None, s1_badarg s) else (Some \<lparr>sj_cmd = cmd, sj_args = args\<rparr>, s)))))"

text \<open>
  \<^verbatim>\<open>default_async_calls\<close> is 0 in this driver and nothing sets it: the call is made and answered before \<^verbatim>\<open>_outputv\<close>
  returns.
\<close>

definition s1_outputv :: "'l s1_os \<Rightarrow> iovec \<Rightarrow> 'l s1_port \<Rightarrow> (unit, 'l s1_port) outcome" where
  "s1_outputv lib ev s =
     andthen (s1_decode lib ev s) (\<lambda>job s.
       case job of
         None \<Rightarrow> Inr ((), s)
       | Some job \<Rightarrow>
           andthen (s1_invoke lib (sj_cmd job) (sj_args job) s) (\<lambda>out s. Inr ((), s1_ready_async lib job out s)))"

text \<open>Stopping closes what is in the map.\<close>

fun s1_close_all :: "'l s1_os \<Rightarrow> nat option list \<Rightarrow> 'l s1_port \<Rightarrow> 'l s1_port" where
  "s1_close_all lib [] s = s"
| "s1_close_all lib (None # m) s = s1_close_all lib m s"
| "s1_close_all lib (Some fd # m) s = s1_close_all lib m (snd (s1_do_close lib (int fd) s))"

definition s1_stop :: "'l s1_os \<Rightarrow> 'l s1_port \<Rightarrow> 'l s1_port" where
  "s1_stop lib s = s1_do S1Free (s1_close_all lib (s1_map s) s)"

text \<open>The commands of a client, one after the other.\<close>

fun s1_session :: "'l s1_os \<Rightarrow> iovec list \<Rightarrow> 'l s1_port \<Rightarrow> (unit, 'l s1_port) outcome" where
  "s1_session lib [] s = Inr ((), s)"
| "s1_session lib (ev # evs) s = andthen (s1_outputv lib ev s) (\<lambda>_ s. s1_session lib evs s)"

end
