(* ===== verification/Edtk_Unix_Service.thy ===== *)
theory Edtk_Unix_Service
  imports Edtk_Unix
begin

text \<open>
  The descriptors of the driver: no client makes it close, read or write a descriptor it does not have, and
  stopping closes all of them; but for those of sockets that could not be bound or connected.
\<close>

section \<open>Descriptors\<close>

text \<open>Those made and not closed, by the log; those that are received belong to the client.\<close>

fun s1_opened :: "s1_event list \<Rightarrow> int set" where
  "s1_opened [] = {}"
| "s1_opened (S1Socket fd # h) = (if fd < 0 then s1_opened h else insert fd (s1_opened h))"
| "s1_opened (S1Close fd r # h) = s1_opened h - {fd}"
| "s1_opened (_ # h) = s1_opened h"

fun s1_proper :: "s1_event list \<Rightarrow> bool" where
  "s1_proper [] = True"
| "s1_proper (S1Close fd r # h) = (fd \<in> s1_opened h \<and> s1_proper h)"
| "s1_proper (S1Write fd bs # h) = (fd \<in> s1_opened h \<and> s1_proper h)"
| "s1_proper (S1Read fd n # h) = (fd \<in> s1_opened h \<and> s1_proper h)"
| "s1_proper (_ # h) = s1_proper h"

text \<open>
  What is assumed of the system: \<open>live\<close> are the descriptors in use; a new one is none of them, only closing gives
  one back, which succeeds.
\<close>

definition s1_sound :: "'l s1_os \<Rightarrow> ('l \<Rightarrow> int set) \<Rightarrow> bool" where
  "s1_sound lib live \<longleftrightarrow>
     (\<forall>l. case s1_socket lib l of (fd, l') \<Rightarrow>
        if fd < 0 then live l \<subseteq> live l' else fd \<notin> live l \<and> insert fd (live l) \<subseteq> live l') \<and>
     (\<forall>path l. live l \<subseteq> live (snd (s1_exists lib path l))) \<and>
     (\<forall>fd path l. live l \<subseteq> live (snd (s1_bind lib fd path l)) \<and> live l \<subseteq> live (snd (s1_connect lib fd path l))) \<and>
     (\<forall>fd wfd l. live l \<subseteq> live (snd (s1_sendmsg lib fd wfd l)) \<and> live l \<subseteq> live (snd (s1_recvmsg lib fd l))) \<and>
     (\<forall>fd bs n l. live l \<subseteq> live (snd (s1_write lib fd bs l)) \<and> live l \<subseteq> live (snd (s1_read lib fd n l))) \<and>
     (\<forall>fd l. fd \<in> live l \<longrightarrow> (case s1_close lib fd l of (r, l') \<Rightarrow> r = 0 \<and> live l - {fd} \<subseteq> live l'))"

definition s1_entries :: "nat option list \<Rightarrow> int list" where
  "s1_entries m = map (\<lambda>x. int (the x)) (filter (\<lambda>x. x \<noteq> None) m)"

lemma s1_entries_simps [simp]:
  "s1_entries [] = []" "s1_entries (None # m) = s1_entries m" "s1_entries (Some p # m) = int p # s1_entries m"
  "s1_entries (m @ n) = s1_entries m @ s1_entries n" "s1_entries (replicate k None) = []"
  by (simp_all add: s1_entries_def)

lemma s1_entries_out:
  assumes "i < length m" "m ! i = Some p" "distinct (s1_entries m)"
  shows "distinct (s1_entries (m[i := None]))" "set (s1_entries (m[i := None])) = set (s1_entries m) - {int p}"
    "length (s1_entries (m[i := None])) \<le> length (s1_entries m)" "int p \<in> set (s1_entries m)"
proof -
  have m: "s1_entries m = s1_entries (take i m) @ int p # s1_entries (drop (Suc i) m)"
    using assms(1,2) by (subst id_take_nth_drop [OF assms(1)]) simp
  then show "distinct (s1_entries (m[i := None]))" "set (s1_entries (m[i := None])) = set (s1_entries m) - {int p}"
    "length (s1_entries (m[i := None])) \<le> length (s1_entries m)" "int p \<in> set (s1_entries m)"
    using assms(1,3) by (auto simp: upd_conv_take_nth_drop)
qed

lemma s1_entries_in:
  assumes "i < length m" "m ! i = None" "distinct (s1_entries m)" "int p \<notin> set (s1_entries m)"
  shows "distinct (s1_entries (m[i := Some p]))" "set (s1_entries (m[i := Some p])) = insert (int p) (set (s1_entries m))"
    "length (s1_entries (m[i := Some p])) = Suc (length (s1_entries m))"
proof -
  have m: "s1_entries m = s1_entries (take i m) @ s1_entries (drop (Suc i) m)"
    using assms(1,2) by (subst id_take_nth_drop [OF assms(1)]) simp
  then show "distinct (s1_entries (m[i := Some p]))" "set (s1_entries (m[i := Some p])) = insert (int p) (set (s1_entries m))"
    "length (s1_entries (m[i := Some p])) = Suc (length (s1_entries m))"
    using assms(1,3,4) by (auto simp: upd_conv_take_nth_drop)
qed

lemma find_unused_fd_Some: "find_unused_fd_index m = Some i \<Longrightarrow> i < length m \<and> m ! i = None"
  by (induction m arbitrary: i rule: find_unused_fd_index.induct) auto

lemma find_unused_fd_None: "find_unused_fd_index m = None \<Longrightarrow> length (s1_entries m) = length m"
  by (induction m rule: find_unused_fd_index.induct) auto

section \<open>The invariant\<close>

text \<open>
  \<open>reliable\<close>: sockets can always be bound and connected.  Then the map has every descriptor there is, unless it is
  full; \<open>n\<close> bounds how many.
\<close>

definition s1_reliable :: "'l s1_os \<Rightarrow> bool" where
  "s1_reliable lib \<longleftrightarrow> (\<forall>fd path l. 0 \<le> fst (s1_bind lib fd path l) \<and> 0 \<le> fst (s1_connect lib fd path l))"

definition s1_inv :: "'l s1_os \<Rightarrow> ('l \<Rightarrow> int set) \<Rightarrow> nat \<Rightarrow> 'l s1_port \<Rightarrow> bool" where
  "s1_inv lib live n s \<longleftrightarrow> s1_proper (s1_log s) \<and> s1_opened (s1_log s) \<subseteq> live (s1_lib s) \<and>
     length (s1_map s) = 32 \<and> distinct (s1_entries (s1_map s)) \<and> set (s1_entries (s1_map s)) \<subseteq> s1_opened (s1_log s) \<and>
     length (s1_entries (s1_map s)) \<le> n \<and>
     (s1_reliable lib \<longrightarrow> n \<le> 32 \<longrightarrow> set (s1_entries (s1_map s)) = s1_opened (s1_log s))"

text \<open>Only events that are about no descriptor of the map, the map is left alone.\<close>

definition s1_quiet :: "('l \<Rightarrow> int set) \<Rightarrow> 'l s1_port \<Rightarrow> 'l s1_port \<Rightarrow> bool" where
  "s1_quiet live s t \<longleftrightarrow> (s1_proper (s1_log s) \<longrightarrow> s1_proper (s1_log t)) \<and> s1_opened (s1_log t) = s1_opened (s1_log s) \<and>
     live (s1_lib s) \<subseteq> live (s1_lib t) \<and> s1_map t = s1_map s"

lemma s1_inv_quiet: "s1_inv lib live n s \<Longrightarrow> s1_quiet live s t \<Longrightarrow> s1_inv lib live n t"
  by (auto simp: s1_inv_def s1_quiet_def)

lemma s1_quiet_trans: "s1_quiet live s t \<Longrightarrow> s1_quiet live t u \<Longrightarrow> s1_quiet live s u"
  by (auto simp: s1_quiet_def)

lemma s1_quiet_refl [simp]: "s1_quiet live s s"
  by (simp add: s1_quiet_def)

lemma s1_inv_more: "s1_inv lib live n s \<Longrightarrow> s1_inv lib live (Suc n) s"
  by (auto simp: s1_inv_def)

lemma s1_do_simps [simp]:
  "s1_log (s1_do c s) = c # s1_log s" "s1_lib (s1_do c s) = s1_lib s" "s1_map (s1_do c s) = s1_map s"
  "s1_debug (s1_do c s) = s1_debug s"
  by (simp_all add: s1_do_def)

lemmas s1_reply_defs = s1_reply_ok_def s1_reply_ok_num_def s1_reply_ok_valmap_def s1_reply_error_def
  s1_reply_error_atom_def s1_put_def s1_badarg_def reply_xtra_1_ptr_ssize_t_def

lemma s1_replies_quiet:
  "s1_quiet live s (s1_reply_ok s)" "s1_quiet live s (s1_reply_ok_num n s)" "s1_quiet live s (s1_reply_ok_valmap i s)"
  "s1_quiet live s (s1_reply_error n s)" "s1_quiet live s (s1_badarg s)" "s1_quiet live s (reply_xtra_1_ptr_ssize_t out s)"
  by (auto simp: s1_quiet_def s1_reply_defs)

lemma s1_decode_quiet:
  assumes "s1_decode lib ev s = Inr (job, t)"
  shows "s1_quiet live s t \<and> (\<forall>cmd args. job = Some \<lparr>sj_cmd = cmd, sj_args = args\<rparr> \<longrightarrow> 0 < cmd \<and> cmd \<le> 8 \<and>
      list_all2 (tk_fits [s1_map s]) (s1_kinds ! (unat cmd - 1)) args)"
proof (cases "length (concat ev) < 1")
  case True
  then show ?thesis using assms by (simp add: s1_decode_def)
next
  case False
  obtain got where got: "EV_GET_CHAR ev (0, 1) = Inr got"
    using assms unfolding s1_decode_def if_not_P [OF False] by (auto split: sum.splits)
  define cmd where "cmd = (case got of None \<Rightarrow> word_of_int (s1_unset lib) | Some (b, c) \<Rightarrow> b)"
  define c where "c = (case got of None \<Rightarrow> (0, 1) | Some (b, c) \<Rightarrow> c)"
  define u where "u = s1_do S1Alloc (case got of None \<Rightarrow> s1_reply_error (s1_EINVAL lib) s | Some _ \<Rightarrow> s)"
  have u: "s1_quiet live s u" "s1_map u = s1_map s"
    by (auto simp: u_def s1_quiet_def s1_reply_defs split: option.split)
  have run: "(if \<not> s1_got lib u then Inr (None, s1_reply_error (s1_ENOMEM lib) u)
     else if cmd = 0 then
       (case tk_uint32 ev (s1_debug u) c (\<lambda>v _. Inr v) of
          Inl e \<Rightarrow> Inl e
        | Inr v \<Rightarrow> Inr (None, s1_do S1Free (s1_reply_ok_num v (u\<lparr>s1_debug := v\<rparr>))))
     else if 8 < cmd then Inr (None, s1_badarg u)
     else
       (case tk_args (s1_unset lib) [s1_map u] ev (s1_unset lib) (s1_unset lib) (s1_kinds ! (unat cmd - 1)) c of
          Inl e \<Rightarrow> Inl e
        | Inr None \<Rightarrow> Inr (None, s1_badarg u)
        | Inr (Some args) \<Rightarrow>
            (case s1_prepare lib cmd args u of (ok, s) \<Rightarrow>
               Inr (if \<not> ok then (None, s1_badarg s) else (Some \<lparr>sj_cmd = cmd, sj_args = args\<rparr>, s)))))
      = Inr (job, t)"
  proof (cases got)
    case None
    then show ?thesis using assms unfolding s1_decode_def if_not_P [OF False] cmd_def c_def u_def
      by (simp only: got None Let_def option.case prod.case sum.case)
  next
    case (Some bc)
    then obtain b d where "got = Some (b, d)" by (cases bc) auto
    then show ?thesis using assms unfolding s1_decode_def if_not_P [OF False] cmd_def c_def u_def
      by (simp only: got Let_def option.case prod.case sum.case)
  qed
  have prep: "s1_quiet live u v" if "s1_prepare lib cmd args u = (ok, v)" for args ok v
    using that by (auto simp: s1_prepare_def s1_quiet_def Let_def split: list.splits tk_arg.splits if_splits)
  show ?thesis
  proof (cases "\<not> s1_got lib u \<or> cmd = 0 \<or> 8 < cmd")
    case True
    have "s1_quiet live u t \<and> job = None"
      using run True by (auto simp: s1_quiet_def s1_reply_defs split: if_splits sum.splits)
    then show ?thesis using u s1_quiet_trans by blast
  next
    case False
    then have cmd: "0 < cmd" "cmd \<le> 8" by (auto simp: word_neq_0_conv not_less)
    obtain m where m: "tk_args (s1_unset lib) [s1_map u] ev (s1_unset lib) (s1_unset lib) (s1_kinds ! (unat cmd - 1)) c = Inr m"
      using run False by (auto split: sum.splits)
    show ?thesis
    proof (cases m)
      case None
      then have "t = s1_badarg u \<and> job = None" using run False m by simp
      then have "s1_quiet live u t \<and> job = None" by (simp add: s1_quiet_def s1_reply_defs)
      then show ?thesis using u s1_quiet_trans by blast
    next
      case (Some args)
      obtain ok v where v: "s1_prepare lib cmd args u = (ok, v)" by fastforce
      then have t: "t = (if \<not> ok then s1_badarg v else v)" "job = (if \<not> ok then None else Some \<lparr>sj_cmd = cmd, sj_args = args\<rparr>)"
        using run False m Some by (simp_all split: if_splits)
      have "s1_quiet live v t" by (auto simp: t s1_quiet_def s1_reply_defs)
      then have "s1_quiet live s t" using u(1) prep [OF v] s1_quiet_trans by blast
      moreover have "list_all2 (tk_fits [s1_map s]) (s1_kinds ! (unat cmd - 1)) args"
        using tk_args_fits m Some u(2) by fastforce
      ultimately show ?thesis using cmd by (auto simp: t)
    qed
  qed
qed

section \<open>Jobs\<close>

lemma s1_close_fine:
  assumes "s1_sound lib live" "s1_proper (s1_log s)" "s1_opened (s1_log s) \<subseteq> live (s1_lib s)" "fd \<in> s1_opened (s1_log s)"
    and "s1_do_close lib fd s = (r, t)"
  shows "r = 0" "s1_proper (s1_log t)" "s1_opened (s1_log t) = s1_opened (s1_log s) - {fd}"
    "s1_opened (s1_log t) \<subseteq> live (s1_lib t)" "s1_map t = s1_map s"
proof -
  obtain l where l: "s1_close lib fd (s1_lib s) = (r, l)" "t = (s1_do (S1Close fd r) s)\<lparr>s1_lib := l\<rparr>"
    using assms(5) by (auto simp: s1_do_close_def split: prod.splits)
  have "fd \<in> live (s1_lib s)" using assms(3,4) by blast
  then have "case s1_close lib fd (s1_lib s) of (r, l') \<Rightarrow> r = 0 \<and> live (s1_lib s) - {fd} \<subseteq> live l'"
    by (rule assms(1) [unfolded s1_sound_def, THEN conjunct2, THEN conjunct2, THEN conjunct2, THEN conjunct2,
        THEN conjunct2, THEN spec, THEN spec, THEN mp])
  then have r: "r = 0" "live (s1_lib s) - {fd} \<subseteq> live l" using l(1) by simp_all
  show "r = 0" "s1_proper (s1_log t)" "s1_opened (s1_log t) = s1_opened (s1_log s) - {fd}" "s1_map t = s1_map s"
    using r(1) assms(2,4) by (simp_all add: l(2))
  show "s1_opened (s1_log t) \<subseteq> live (s1_lib t)" using r(2) assms(3) by (auto simp: l(2))
qed

text \<open>A result that is not negative is a new descriptor; otherwise nothing is new if sockets do not fail.\<close>

lemma my_open_fine:
  assumes "s1_sound lib live" "s1_proper (s1_log s)" "s1_opened (s1_log s) \<subseteq> live (s1_lib s)"
    and "my_open lib path flags s = Inr ((fd, e), t)"
  shows "s1_proper (s1_log t)" "s1_opened (s1_log t) \<subseteq> live (s1_lib t)" "s1_map t = s1_map s"
    and "0 \<le> fd \<Longrightarrow> fd \<notin> s1_opened (s1_log s) \<and> s1_opened (s1_log t) = insert fd (s1_opened (s1_log s))"
    and "fd < 0 \<Longrightarrow> s1_opened (s1_log s) \<subseteq> s1_opened (s1_log t) \<and> (s1_reliable lib \<longrightarrow> s1_opened (s1_log t) = s1_opened (s1_log s))"
proof -
  obtain ex u where u: "(if flags \<noteq> 0 then
      (case s1_exists lib path (s1_lib s) of (e, l) \<Rightarrow> (e, (s1_do (S1Stat path) s)\<lparr>s1_lib := l\<rparr>)) else (False, s)) = (ex, u)"
    by fastforce
  note others = assms(1) [unfolded s1_sound_def, THEN conjunct2]
  have "live l \<subseteq> live (snd (s1_exists lib path l))" for l by (rule others [THEN conjunct1, THEN spec, THEN spec])
  from this [of "s1_lib s"] u have q: "s1_quiet live s u" by (auto simp: s1_quiet_def split: if_splits prod.splits)
  obtain n l where n: "s1_socket lib (s1_lib u) = (n, l)" by fastforce
  have "case s1_socket lib (s1_lib u) of (fd, l') \<Rightarrow>
      if fd < 0 then live (s1_lib u) \<subseteq> live l' else fd \<notin> live (s1_lib u) \<and> insert fd (live (s1_lib u)) \<subseteq> live l'"
    by (rule assms(1) [unfolded s1_sound_def, THEN conjunct1, THEN spec])
  then have new: "if n < 0 then live (s1_lib u) \<subseteq> live l else n \<notin> live (s1_lib u) \<and> insert n (live (s1_lib u)) \<subseteq> live l"
    by (simp add: n)
  let ?v = "(s1_do (S1Socket n) u)\<lparr>s1_lib := l\<rparr>"
  obtain r l' where r: "(if flags \<noteq> 0 then s1_bind lib n path l else s1_connect lib n path l) = (r, l')" by fastforce
  have "live l \<subseteq> live (snd (s1_bind lib n path l)) \<and> live l \<subseteq> live (snd (s1_connect lib n path l))"
    by (rule others [THEN conjunct2, THEN conjunct1, THEN spec, THEN spec, THEN spec])
  then have l': "live l \<subseteq> live l'" using r by (auto split: if_splits)
  have rel: "s1_reliable lib \<Longrightarrow> 0 \<le> r" using r unfolding s1_reliable_def by (metis fst_conv)
  let ?w = "(s1_do (if flags \<noteq> 0 then S1Bind n path else S1Connect n path) ?v)\<lparr>s1_lib := l'\<rparr>"
  have run: "(if ex then Inr ((-1, s1_EEXIST lib), u)
      else if n < 0 then Inr ((-1, s1_errno lib l), ?v)
      else if 108 < length path + 1 then Inl OutOfBounds
      else Inr ((if r < 0 then -1 else n, s1_errno lib l'), ?w)) = Inr ((fd, e), t)"
    using assms(4) r unfolding my_open_def u Let_def prod.case n by (cases "flags = 0") (simp_all split: if_splits)
  consider (ex) "fd = -1" "t = u" | (sock) "n < 0" "fd = -1" "t = ?v" | (made) "\<not> n < 0" "t = ?w" "fd = (if r < 0 then -1 else n)"
    using run by (auto split: if_splits)
  then have "s1_proper (s1_log t) \<and> s1_opened (s1_log t) \<subseteq> live (s1_lib t) \<and> s1_map t = s1_map s \<and>
     (0 \<le> fd \<longrightarrow> fd \<notin> s1_opened (s1_log s) \<and> s1_opened (s1_log t) = insert fd (s1_opened (s1_log s))) \<and>
     (fd < 0 \<longrightarrow> s1_opened (s1_log s) \<subseteq> s1_opened (s1_log t) \<and> (s1_reliable lib \<longrightarrow> s1_opened (s1_log t) = s1_opened (s1_log s)))"
  proof cases
    case ex
    then show ?thesis using q assms(2,3) by (auto simp: s1_quiet_def)
  next
    case sock
    then show ?thesis using q assms(2,3) new by (auto simp: s1_quiet_def)
  next
    case made
    have "s1_opened (s1_log t) = insert n (s1_opened (s1_log s))" "s1_proper (s1_log t)" "s1_map t = s1_map s"
      using q made(1) assms(2) by (auto simp: s1_quiet_def made(2))
    moreover have "s1_opened (s1_log s) \<subseteq> live (s1_lib u)" using q assms(3) by (auto simp: s1_quiet_def)
    then have "n \<notin> s1_opened (s1_log s)" "insert n (s1_opened (s1_log s)) \<subseteq> live l'"
      using new made(1) l' by (auto simp: subset_iff)
    then have "n \<notin> s1_opened (s1_log s)" "insert n (s1_opened (s1_log s)) \<subseteq> live (s1_lib t)" by (simp_all add: made(2))
    ultimately show ?thesis using made(1,3) rel by auto
  qed
  then show "s1_proper (s1_log t)" "s1_opened (s1_log t) \<subseteq> live (s1_lib t)" "s1_map t = s1_map s"
    "0 \<le> fd \<Longrightarrow> fd \<notin> s1_opened (s1_log s) \<and> s1_opened (s1_log t) = insert fd (s1_opened (s1_log s))"
    "fd < 0 \<Longrightarrow> s1_opened (s1_log s) \<subseteq> s1_opened (s1_log t) \<and> (s1_reliable lib \<longrightarrow> s1_opened (s1_log t) = s1_opened (s1_log s))"
    by blast+
qed

text \<open>The descriptor of a command comes from the map.\<close>

lemma s1_arg:
  assumes "list_all2 (tk_fits [m]) ks args" "ks ! 0 = KMap 0" "ks \<noteq> []"
  shows "\<exists>i fd as. args = APtr 0 i fd # as \<and> i < length m \<and> m ! i = Some fd"
  using assms by (cases ks) (auto simp: list_all2_Cons1)

lemma s1_mapped: "i < length m \<Longrightarrow> m ! i = Some fd \<Longrightarrow> int fd \<in> set (s1_entries m)"
  by (force simp: s1_entries_def in_set_conv_nth)

lemma s1_cmds: "0 < cmd \<Longrightarrow> cmd \<le> 8 \<Longrightarrow> cmd \<in> {1, 2, 3, 4, 5, 6, 7, 8 :: byte}"
proof -
  assume "0 < cmd" "cmd \<le> 8"
  then have "unat cmd \<in> {1..8}" by (auto simp: word_less_nat_alt word_le_nat_alt)
  then have "unat cmd = 1 \<or> unat cmd = 2 \<or> unat cmd = 3 \<or> unat cmd = 4 \<or> unat cmd = 5 \<or> unat cmd = 6 \<or>
      unat cmd = 7 \<or> unat cmd = 8" by auto
  then show ?thesis by (simp add: word_unat_eq_iff)
qed

text \<open>A call that is made and answered keeps the invariant.\<close>

lemma s1_job_inv:
  assumes sound: "s1_sound lib live" and inv: "s1_inv lib live n s"
    and cmd: "0 < cmd" "cmd \<le> 8" and fits: "list_all2 (tk_fits [s1_map s]) (s1_kinds ! (unat cmd - 1)) args"
    and run: "s1_invoke lib cmd args s = Inr (out, t)"
  shows "s1_inv lib live (Suc n) (s1_answer lib \<lparr>sj_cmd = cmd, sj_args = args\<rparr> out t)"
    (is "s1_inv lib live _ (s1_answer lib ?job out t)")
proof -
  have owned: "int fd \<in> s1_opened (s1_log s)" if "i < length (s1_map s)" "s1_map s ! i = Some fd" for i fd
    using s1_mapped [OF that] inv by (auto simp: s1_inv_def)
  note others = sound [unfolded s1_sound_def, THEN conjunct2, THEN conjunct2, THEN conjunct2]
  have keeps: "live l \<subseteq> live (snd (s1_sendmsg lib fd wfd l))" "live l \<subseteq> live (snd (s1_recvmsg lib fd l))"
    "live l \<subseteq> live (snd (s1_write lib fd bs l))" "live l \<subseteq> live (snd (s1_read lib fd k l))" for fd wfd bs k l
    using others by blast+
  have quiet: "s1_inv lib live (Suc n) (s1_answer lib ?job out t)" if "s1_quiet live s t" "cmd \<notin> {2, 6}"
  proof -
    note that(1)
    moreover have "s1_quiet live t (s1_answer lib ?job out t)"
      using that(2) s1_replies_quiet by (auto simp: s1_answer_def)
    ultimately show ?thesis using s1_inv_quiet [OF s1_inv_more [OF inv]] s1_quiet_trans by blast
  qed
  from s1_cmds [OF cmd] consider "cmd = 1" | "cmd = 2" | "cmd = 3" | "cmd = 4" | "cmd = 5" | "cmd = 6" | "cmd = 7" | "cmd = 8"
    by blast
  then show ?thesis
  proof cases
    case 1
    then show ?thesis using run by (intro quiet) (simp_all add: s1_invoke_def)
  next
    case 2
    then obtain k p flags where args: "args = [ABytes k p, AInt flags]" using fits by (auto simp: s1_kinds_def list_all2_Cons1)
    obtain fd e where open': "my_open lib (c_string p) flags s = Inr ((fd, e), t)" "out = s1_result (0 \<le> fd) e fd"
      using run 2 args by (auto simp: s1_invoke_def andthen_def split: if_splits sum.splits)
    have s: "s1_proper (s1_log s)" "s1_opened (s1_log s) \<subseteq> live (s1_lib s)" using inv by (simp_all add: s1_inv_def)
    note fine = my_open_fine [OF sound s open'(1)]
    show ?thesis
    proof (cases "0 \<le> fd")
      case False
      then have "s1_inv lib live (Suc n) t" using fine(1-3) fine(5) inv by (auto simp: s1_inv_def)
      from s1_inv_quiet [OF this s1_replies_quiet(4)] show ?thesis using 2 False by (simp add: s1_answer_def open'(2) s1_result_def)
    next
      case True
      show ?thesis
      proof (cases "find_unused_fd_index (s1_map s)")
        case None
        then have "length (s1_entries (s1_map s)) = 32" using find_unused_fd_None inv by (fastforce simp: s1_inv_def)
        then have "\<not> Suc n \<le> 32" using inv by (simp add: s1_inv_def)
        then have "s1_inv lib live (Suc n) t" using fine(1-3) fine(4) [OF True] inv by (auto simp: s1_inv_def)
        from s1_inv_quiet [OF this s1_replies_quiet(4)] show ?thesis
          using 2 True None fine(3) by (simp add: s1_answer_def open'(2) s1_result_def)
      next
        case (Some i)
        let ?u = "t\<lparr>s1_map := (s1_map s)[i := Some (nat fd)]\<rparr>"
        have i: "i < length (s1_map s)" "s1_map s ! i = None" using find_unused_fd_Some [OF Some] by simp_all
        have new: "int (nat fd) \<notin> set (s1_entries (s1_map s))" using fine(4) [OF True] True inv by (auto simp: s1_inv_def)
        have d: "distinct (s1_entries (s1_map s))" using inv by (simp add: s1_inv_def)
        have "s1_inv lib live (Suc n) ?u"
          using s1_entries_in [OF i d new] fine(1-3) fine(4) [OF True] True inv by (auto simp: s1_inv_def)
        from s1_inv_quiet [OF this s1_replies_quiet(3)] show ?thesis
          using 2 True Some fine(3) by (simp add: s1_answer_def open'(2) s1_result_def)
      qed
    qed
  next
    case 3
    then show ?thesis using run by (intro quiet) (auto simp: s1_invoke_def split: list.splits tk_arg.splits)
  next
    case 4
    then obtain fd wfd where "args = [AInt fd, AInt wfd]" using fits by (auto simp: s1_kinds_def list_all2_Cons1)
    then have "s1_quiet live s t" using run 4 keeps(1) [of "s1_lib s" fd wfd]
      by (auto simp: s1_invoke_def my_sendfd_def s1_quiet_def split: prod.splits)
    then show ?thesis using 4 by (intro quiet) auto
  next
    case 5
    then obtain fd where "args = [AInt fd]" using fits by (auto simp: s1_kinds_def list_all2_Cons1)
    then have "s1_quiet live s t" using run 5 keeps(2) [of "s1_lib s" fd]
      by (auto simp: s1_invoke_def my_receivefd_def s1_quiet_def split: prod.splits)
    then show ?thesis using 5 by (intro quiet) auto
  next
    case 6
    then have "s1_kinds ! (unat cmd - 1) = [KMap 0]" by (simp add: s1_kinds_def)
    then obtain i fd where args: "args = [APtr 0 i fd]" "i < length (s1_map s)" "s1_map s ! i = Some fd"
      using fits by (auto simp: list_all2_Cons1)
    obtain r where r: "s1_do_close lib (int fd) s = (r, t)" "out = s1_result (r = 0) (s1_errno lib (s1_lib t)) r"
      using run 6 args(1) by (auto simp: s1_invoke_def split: prod.splits)
    have s: "s1_proper (s1_log s)" "s1_opened (s1_log s) \<subseteq> live (s1_lib s)" using inv by (simp_all add: s1_inv_def)
    note fine = s1_close_fine [OF sound s owned [OF args(2,3)] r(1)]
    let ?u = "t\<lparr>s1_map := (s1_map s)[i := None]\<rparr>"
    have d: "distinct (s1_entries (s1_map s))" using inv by (simp add: s1_inv_def)
    have "s1_inv lib live (Suc n) ?u"
      using s1_entries_out [OF args(2,3) d] fine(2-5) inv by (auto simp: s1_inv_def)
    from s1_inv_quiet [OF this s1_replies_quiet(2)] show ?thesis
      using 6 fine(1,5) by (simp add: s1_answer_def r(2) s1_result_def cleanup_valmap_fd_index_def args(1))
  next
    case 7
    then obtain i fd k p where args: "args = [APtr 0 i fd, ABytes k p]" "i < length (s1_map s)" "s1_map s ! i = Some fd"
      using fits by (auto simp: s1_kinds_def list_all2_Cons1)
    have "s1_quiet live s t" using run 7 args(1) owned [OF args(2,3)] keeps(3) [of "s1_lib s" "int fd" "take (nat k) p"]
      by (auto simp: s1_invoke_def s1_quiet_def split: prod.splits if_splits)
    then show ?thesis using 7 by (intro quiet) auto
  next
    case 8
    then obtain i fd k where args: "args = [APtr 0 i fd, AInt k]" "i < length (s1_map s)" "s1_map s ! i = Some fd"
      using fits by (auto simp: s1_kinds_def list_all2_Cons1)
    have "s1_quiet live s t" using run 8 args(1) owned [OF args(2,3)] keeps(4) [of "s1_lib s" "int fd" k]
      by (auto simp: s1_invoke_def s1_quiet_def split: prod.splits)
    then show ?thesis using 8 by (intro quiet) auto
  qed
qed

section \<open>Sessions\<close>

lemma s1_outputv_inv:
  assumes "s1_sound lib live" "s1_inv lib live n s" "s1_outputv lib ev s = Inr ((), t)"
  shows "s1_inv lib live (Suc n) t"
proof -
  obtain job u where u: "s1_decode lib ev s = Inr (job, u)"
    using assms(3) by (auto simp: s1_outputv_def andthen_def split: sum.splits)
  note quiet = s1_decode_quiet [OF u, of live]
  have inv: "s1_inv lib live n u" using s1_inv_quiet [OF assms(2)] quiet by blast
  show ?thesis
  proof (cases job)
    case None
    then show ?thesis using assms(3) u s1_inv_more [OF inv] by (simp add: s1_outputv_def andthen_def)
  next
    case (Some j)
    obtain cmd args where j: "j = \<lparr>sj_cmd = cmd, sj_args = args\<rparr>" by (cases j)
    have fits: "0 < cmd" "cmd \<le> 8" "list_all2 (tk_fits [s1_map u]) (s1_kinds ! (unat cmd - 1)) args"
      using quiet by (auto simp: Some j s1_quiet_def)
    obtain out v where v: "s1_invoke lib cmd args u = Inr (out, v)" "t = s1_ready_async lib j out v"
      using assms(3) u by (auto simp: s1_outputv_def andthen_def Some j split: sum.splits)
    have "s1_quiet live (s1_answer lib \<lparr>sj_cmd = cmd, sj_args = args\<rparr> out v) t"
      by (simp add: v(2) j s1_ready_async_def s1_quiet_def)
    then show ?thesis using s1_inv_quiet [OF s1_job_inv [OF assms(1) inv fits v(1)]] by blast
  qed
qed

lemma s1_session_inv:
  "s1_sound lib live \<Longrightarrow> s1_inv lib live n s \<Longrightarrow> s1_session lib evs s = Inr ((), t) \<Longrightarrow>
    s1_inv lib live (n + length evs) t"
proof (induction evs arbitrary: n s)
  case Nil
  then show ?case by simp
next
  case (Cons ev evs)
  then obtain u where u: "s1_outputv lib ev s = Inr ((), u)" "s1_session lib evs u = Inr ((), t)"
    by (auto simp: andthen_def split: sum.splits)
  from s1_outputv_inv [OF Cons.prems(1,2) u(1)] Cons.IH [of "Suc n" u] Cons.prems(1) u(2) show ?case by simp
qed

lemma s1_start_inv: "s1_start lib l = Some s \<Longrightarrow> s1_inv lib live 0 s"
  by (auto simp: s1_start_def s1_inv_def split: if_splits)

lemma s1_close_all_fine:
  assumes "s1_sound lib live" "s1_proper (s1_log s)" "s1_opened (s1_log s) \<subseteq> live (s1_lib s)"
    and "distinct (s1_entries m)" "set (s1_entries m) \<subseteq> s1_opened (s1_log s)"
  shows "s1_proper (s1_log (s1_close_all lib m s)) \<and>
    s1_opened (s1_log (s1_close_all lib m s)) = s1_opened (s1_log s) - set (s1_entries m)"
  using assms
proof (induction m arbitrary: s)
  case Nil
  then show ?case by simp
next
  case (Cons x m)
  show ?case
  proof (cases x)
    case None
    then show ?thesis using Cons by simp
  next
    case (Some fd)
    obtain r t where t: "s1_do_close lib (int fd) s = (r, t)" by fastforce
    have "int fd \<in> s1_opened (s1_log s)" using Cons.prems(5) Some by simp
    note fine = s1_close_fine [OF Cons.prems(1-3) this t]
    have "set (s1_entries m) \<subseteq> s1_opened (s1_log t)" "distinct (s1_entries m)"
      using Cons.prems(4,5) Some fine(3) by auto
    from Cons.IH [OF Cons.prems(1) fine(2,4) this(2,1)] show ?thesis using fine(3) by (auto simp: Some t)
  qed
qed

lemma s1_stop_inv:
  assumes "s1_sound lib live" "s1_inv lib live n s"
  shows "s1_proper (s1_log (s1_stop lib s)) \<and>
    s1_opened (s1_log (s1_stop lib s)) = s1_opened (s1_log s) - set (s1_entries (s1_map s))"
  using s1_close_all_fine [OF assms(1), of s "s1_map s"] assms(2) by (simp add: s1_stop_def s1_inv_def)

section \<open>A socket that cannot be bound\<close>

lemma my_open_leaks:
  assumes "s1_socket lib (s1_lib s) = (fd, l)" "0 \<le> fd" "length path \<le> 107"
    and "s1_connect lib fd path l = (r, l')" "r < 0"
  shows "\<exists>t. my_open lib path 0 s = Inr ((-1, s1_errno lib l'), t) \<and> s1_opened (s1_log t) = insert fd (s1_opened (s1_log s)) \<and>
    s1_map t = s1_map s"
  using assms by (simp add: my_open_def)

section \<open>Requests that return\<close>

text \<open>
  A request of \<^verbatim>\<open>unixdom_drv.erl\<close> whose indices are below 32, whether in use or not, whose path has an end and fits
  \<^verbatim>\<open>sun_path\<close>, and whose fields are not empty and whole, in whatever pieces they come.
\<close>

definition s1_value_in :: "tk_value \<Rightarrow> bool" where
  "s1_value_in v = (case v of CInt i \<Rightarrow> int32_ok i | CBytes bs \<Rightarrow> True | CMap m i \<Rightarrow> m = 0 \<and> i < 32)"

definition s1_path_ok :: "tk_value list \<Rightarrow> bool" where
  "s1_path_ok vs = (case vs of [CBytes bs, _] \<Rightarrow> 0 \<in> set bs \<and> length (c_string bs) \<le> 107 | _ \<Rightarrow> True)"

definition s1_request :: "iovec \<Rightarrow> bool" where
  "s1_request ev \<longleftrightarrow> (\<exists>hdr groups cmd vs. ev = hdr # map concat groups \<and> ev_small ev \<and> [] \<notin> set groups \<and>
     concat groups = [cmd] # concat (map tk_fields vs) \<and> [] \<notin> set (concat (map tk_fields vs)) \<and>
     0 < cmd \<and> cmd \<le> 8 \<and> map tk_kind_of vs = s1_kinds ! (unat cmd - 1) \<and> (\<forall>v \<in> set vs. s1_value_in v) \<and> s1_path_ok vs)"

lemma s1_decode_request:
  assumes "s1_request ev" "length (s1_map s) = 32"
  shows "\<exists>job t. s1_decode lib ev s = Inr (job, t) \<and> s1_map t = s1_map s \<and>
    (\<forall>j. job = Some j \<longrightarrow> (\<exists>vs. 0 < sj_cmd j \<and> sj_cmd j \<le> 8 \<and> map tk_kind_of vs = s1_kinds ! (unat (sj_cmd j) - 1) \<and>
      s1_path_ok vs \<and> list_all2 (tk_means [s1_map s]) vs (sj_args j)))"
proof -
  obtain hdr groups cmd vs where ev: "ev = hdr # map concat groups" "ev_small ev" "[] \<notin> set groups"
    "concat groups = [cmd] # concat (map tk_fields vs)" "[] \<notin> set (concat (map tk_fields vs))"
    "0 < cmd" "cmd \<le> 8" "map tk_kind_of vs = s1_kinds ! (unat cmd - 1)" "\<forall>v \<in> set vs. s1_value_in v" "s1_path_ok vs"
    using assms(1) unfolding s1_request_def by blast
  have fields: "[] \<notin> set (concat groups)" unfolding ev(4) using ev(5) by auto
  from ev_at_start [OF ev(3) this, of hdr] have "ev_at ev (0, 1) ([cmd] # concat (map tk_fields vs))"
    unfolding ev(4) ev(1) [symmetric] .
  then obtain c where c: "ev_get (length [cmd]) ev (0, 1) = Inr (Some ([cmd], c))" "ev_at ev c (concat (map tk_fields vs))"
    using ev_at_get by blast
  have char: "EV_GET_CHAR ev (0, 1) = Inr (Some (cmd, c))" using c(1) by (simp add: EV_GET_CHAR_def ev_value_def)
  have "concat groups \<noteq> []" "\<forall>f \<in> set (concat groups). f \<noteq> []" using fields ev(4) by auto
  then have size: "\<not> length (concat ev) < 1" unfolding ev(1) by fastforce
  let ?u = "s1_unset lib" and ?s = "s1_do S1Alloc s"
  have "tk_value_in [s1_map s] v" if "s1_value_in v" for v
    using that assms(2) by (cases v) (auto simp: s1_value_in_def int32_ok_def)
  then have "\<forall>v \<in> set vs. tk_value_in [s1_map s] v" using ev(9) by blast
  then obtain m where m: "tk_args ?u [s1_map s] ev ?u ?u (s1_kinds ! (unat cmd - 1)) c = Inr m"
    "\<forall>as. m = Some as \<longrightarrow> list_all2 (tk_means [s1_map s]) vs as"
    using tk_args_returns [of ev c vs "[]" "[s1_map s]" ?u ?u ?u] c(2) ev(2) unfolding ev(8) by auto
  have prep: "s1_map (snd (s1_prepare lib cmd args ?s)) = s1_map s" for args
    by (auto simp: s1_prepare_def Let_def split: list.split tk_arg.split)
  have c07: "cmd \<noteq> 0" "\<not> 8 < cmd" using ev(6,7) by auto
  have run: "s1_decode lib ev s =
     (if \<not> s1_got lib ?s then Inr (None, s1_reply_error (s1_ENOMEM lib) ?s)
      else (case m of
          None \<Rightarrow> Inr (None, s1_badarg ?s)
        | Some args \<Rightarrow> (case s1_prepare lib cmd args ?s of (ok, s) \<Rightarrow>
            Inr (if \<not> ok then (None, s1_badarg s) else (Some \<lparr>sj_cmd = cmd, sj_args = args\<rparr>, s)))))"
    using char m(1) c07 unfolding s1_decode_def if_not_P [OF size] by (simp add: Let_def split: option.split)
  show ?thesis
  proof (cases m)
    case None
    then show ?thesis unfolding run by (simp add: s1_reply_defs)
  next
    case (Some args)
    obtain ok t where t: "s1_prepare lib cmd args ?s = (ok, t)" by fastforce
    have "s1_map t = s1_map s" using prep [of args] by (simp add: t)
    moreover have "list_all2 (tk_means [s1_map s]) vs args" using m(2) Some by simp
    ultimately show ?thesis unfolding run Some using ev(6-8,10) by (auto simp: t s1_reply_defs)
  qed
qed

lemma my_open_returns: "length path \<le> 107 \<Longrightarrow> \<exists>r t. my_open lib path flags s = Inr (r, t)"
  by (auto simp: my_open_def Let_def split: prod.split)

lemma s1_invoke_request:
  assumes "0 < cmd" "cmd \<le> 8" "map tk_kind_of vs = s1_kinds ! (unat cmd - 1)" "s1_path_ok vs"
    and "list_all2 (tk_means maps) vs args"
  shows "\<exists>out t. s1_invoke lib cmd args s = Inr (out, t)"
proof -
  have "list_all2 (tk_means maps) vs args \<Longrightarrow> map tk_kind_of vs = [] \<Longrightarrow> args = []" by simp
  from s1_cmds [OF assms(1,2)] consider "cmd = 1" | "cmd = 2" | "cmd = 3" | "cmd = 4" | "cmd = 5" | "cmd = 6" | "cmd = 7" | "cmd = 8"
    by blast
  then show ?thesis
  proof cases
    case 2
    then obtain bs n where vs: "vs = [CBytes bs, CInt n]" using assms(3)
      by (auto simp: s1_kinds_def map_eq_Cons_conv elim!: tk_kind_of.elims)
    then obtain p where p: "args = [ABytes (int (length bs)) p, AInt n]" "take (length bs) p = bs"
      using assms(5) by (auto simp: list_all2_Cons1)
    have z: "0 \<in> set bs" "length (c_string bs) \<le> 107" using assms(4) by (simp_all add: vs s1_path_ok_def)
    obtain r where r: "p = bs @ r" using append_take_drop_id [of "length bs" p] unfolding p(2) by metis
    have "0 \<in> set p" "c_string p = c_string bs"
      unfolding r c_string_def using z(1) takeWhile_append1 [of 0 bs "\<lambda>b. b \<noteq> 0" r] by auto
    then show ?thesis using my_open_returns [of "c_string p" lib n s] z(2) 2
      by (auto simp: s1_invoke_def p(1) andthen_def)
  next
    case 7
    then obtain i bs where vs: "vs = [CMap 0 i, CBytes bs]" using assms(3)
      by (auto simp: s1_kinds_def map_eq_Cons_conv elim!: tk_kind_of.elims)
    then obtain fd p where p: "args = [APtr 0 i fd, ABytes (int (length bs)) p]" "take (length bs) p = bs"
      using assms(5) by (auto simp: list_all2_Cons1)
    have "length bs \<le> length p" using arg_cong [OF p(2), of length] by simp
    then show ?thesis using 7 by (simp add: s1_invoke_def p(1) split: prod.split)
  qed (use assms(3,5) in \<open>auto simp: s1_kinds_def s1_invoke_def map_eq_Cons_conv list_all2_Cons1 split: prod.split
      elim!: tk_kind_of.elims\<close>)
qed

lemma s1_session_returns:
  "s1_sound lib live \<Longrightarrow> s1_inv lib live n s \<Longrightarrow> \<forall>ev \<in> set evs. s1_request ev \<Longrightarrow> \<exists>t. s1_session lib evs s = Inr ((), t)"
proof (induction evs arbitrary: n s)
  case Nil
  then show ?case by simp
next
  case (Cons ev evs)
  have "length (s1_map s) = 32" using Cons.prems(2) by (simp add: s1_inv_def)
  from s1_decode_request [OF _ this, of ev lib] Cons.prems(3) obtain job t where
    t: "s1_decode lib ev s = Inr (job, t)"
      "\<forall>j. job = Some j \<longrightarrow> (\<exists>vs. 0 < sj_cmd j \<and> sj_cmd j \<le> 8 \<and> map tk_kind_of vs = s1_kinds ! (unat (sj_cmd j) - 1) \<and>
        s1_path_ok vs \<and> list_all2 (tk_means [s1_map s]) vs (sj_args j))"
    by auto
  have "\<exists>u. s1_outputv lib ev s = Inr ((), u)"
  proof (cases job)
    case None
    then show ?thesis using t(1) by (simp add: s1_outputv_def andthen_def)
  next
    case (Some j)
    with t(2) s1_invoke_request have "\<exists>out v. s1_invoke lib (sj_cmd j) (sj_args j) t = Inr (out, v)" by blast
    then show ?thesis using t(1) Some by (auto simp: s1_outputv_def andthen_def)
  qed
  then obtain u where u: "s1_outputv lib ev s = Inr ((), u)" by blast
  from Cons.IH [OF Cons.prems(1) s1_outputv_inv [OF Cons.prems(1,2) u]] Cons.prems(3) show ?case
    using u by (auto simp: andthen_def)
qed

section \<open>A system to evaluate with\<close>

text \<open>It numbers descriptors from 3 on; the state is the next one and those in use.\<close>

definition demo_s1 :: "(int \<times> int list) s1_os" where
  "demo_s1 = \<lparr>
     s1_exists = \<lambda>path l. (False, l),
     s1_socket = \<lambda>l. (fst l, (fst l + 1, fst l # snd l)),
     s1_bind = \<lambda>fd path l. (0, l),
     s1_connect = \<lambda>fd path l. (0, l),
     s1_sendmsg = \<lambda>fd wfd l. (1, l),
     s1_recvmsg = \<lambda>fd l. ((1, -1), l),
     s1_close = \<lambda>fd l. (0, (fst l, filter (\<lambda>x. x \<noteq> fd) (snd l))),
     s1_write = \<lambda>fd bs l. (int (length bs), l),
     s1_read = \<lambda>fd n l. ((-1, []), l),
     s1_errno = \<lambda>l. 5, s1_alloc = \<lambda>h. True, s1_unset = 0, s1_EEXIST = 17, s1_EINVAL = 22, s1_ENOMEM = 12\<rparr>"

definition demo_s1_live :: "int \<times> int list \<Rightarrow> int set" where
  "demo_s1_live l = set (snd l) \<inter> {..<fst l}"

lemma demo_s1_sound: "s1_sound demo_s1 demo_s1_live"
  by (auto simp: s1_sound_def demo_s1_def demo_s1_live_def)

lemma demo_s1_reliable: "s1_reliable demo_s1"
  by (simp add: s1_reliable_def demo_s1_def)

end
