(* ===== verification/Slang.thy ===== *)
theory Slang
  imports Driver_Api
begin

text \<open>
  The driver in front of the S-Lang library, \<^verbatim>\<open>slang/c_src/slang_drv.c\<close>: a command is a byte and arguments, most
  are one call of the library.  The library is the parameter \<open>slg_lib\<close>.
\<close>

section \<open>The library\<close>

text \<open>\<open>SShorts\<close> is the array \<^verbatim>\<open>mbuf\<close> as it is when the call is made.\<close>

datatype slg_value = SInt int | SByte byte | SString "byte list" | SShorts "int list" | SNull

datatype slg_event =
    SlgCall string "slg_value list"
  | SlgOut "byte list"
  | SlgSelect bool                              \<comment> \<open>\<^verbatim>\<open>driver_select\<close> for reading on descriptor 0\<close>
  | SlgSmash                                    \<comment> \<open>a byte written in front of the string last returned\<close>

record 'l slg_lib =
  slg_int :: "string \<Rightarrow> slg_value list \<Rightarrow> 'l \<Rightarrow> int \<times> 'l"
  slg_void :: "string \<Rightarrow> slg_value list \<Rightarrow> 'l \<Rightarrow> 'l"
  slg_str :: "string \<Rightarrow> slg_value list \<Rightarrow> 'l \<Rightarrow> byte list option \<times> 'l"
  slg_smash :: "'l \<Rightarrow> 'l"
  slg_pending :: "'l \<Rightarrow> bool"                    \<comment> \<open>\<^verbatim>\<open>SLang_input_pending\<close>\<close>
  slg_raw :: "int \<Rightarrow> 'l \<Rightarrow> int list \<times> 'l"          \<comment> \<open>\<^verbatim>\<open>SLsmg_read_raw\<close>\<close>
  slg_get :: "int \<Rightarrow> 'l \<Rightarrow> int"                   \<comment> \<open>the library's variables\<close>
  slg_set :: "int \<Rightarrow> int \<Rightarrow> 'l \<Rightarrow> 'l"
  slg_malloc :: "int \<Rightarrow> bool"
  slg_old :: bool                               \<comment> \<open>\<^verbatim>\<open>SLANG_VERSION < 10400\<close>\<close>
  slg_unset :: int
  slg_junk :: byte

text \<open>The static variables; \<^verbatim>\<open>wait_for\<close> is the command that waits for a key.\<close>

record 'l slg =
  slg_state :: 'l
  slg_log :: "slg_event list"
  slg_wait_for :: nat
  slg_caught :: int
  slg_mbuf :: "int list"

definition slg_do :: "slg_event \<Rightarrow> 'l slg \<Rightarrow> 'l slg" where
  "slg_do c s = s\<lparr>slg_log := c # slg_log s\<rparr>"

definition slg_call_int :: "'l slg_lib \<Rightarrow> string \<Rightarrow> slg_value list \<Rightarrow> 'l slg \<Rightarrow> int \<times> 'l slg" where
  "slg_call_int lib f vs s =
     (case slg_int lib f vs (slg_state s) of (r, l) \<Rightarrow> (r, (slg_do (SlgCall f vs) s)\<lparr>slg_state := l\<rparr>))"

definition slg_call_void :: "'l slg_lib \<Rightarrow> string \<Rightarrow> slg_value list \<Rightarrow> 'l slg \<Rightarrow> 'l slg" where
  "slg_call_void lib f vs s = (slg_do (SlgCall f vs) s)\<lparr>slg_state := slg_void lib f vs (slg_state s)\<rparr>"

section \<open>Signals\<close>

text \<open>The numbers of the signals are those of Linux.\<close>

definition sig_to_x :: "int \<Rightarrow> int" where
  "sig_to_x x = (if x = 2 then 1 else if x = 20 then 2 else if x = 3 then 3 else if x = 22 then 4 else if x = 21 then 5
     else if x = 28 then 6 else -1)"

definition x_to_sig :: "int \<Rightarrow> int" where
  "x_to_sig x = (if x = 1 then 2 else if x = 2 then 20 else if x = 3 then 3 else if x = 4 then 22 else if x = 5 then 21
     else if x = 6 then 28 else -1)"

definition slg_sig_handler :: "int \<Rightarrow> 'l slg \<Rightarrow> 'l slg" where
  "slg_sig_handler sig s = s\<lparr>slg_caught := sig_to_x sig\<rparr>"

section \<open>Answers\<close>

definition slg_ret_int :: "int \<Rightarrow> 'l slg \<Rightarrow> 'l slg" where
  "slg_ret_int i s = slg_do (SlgOut (1 # put_int32 i)) s"

text \<open>
  The answer with a string writes its tag in front of the string, and then sends the string and the zero behind it:
  the tag is not sent.
\<close>

definition slg_ret_string :: "'l slg_lib \<Rightarrow> byte list option \<Rightarrow> 'l slg \<Rightarrow> (unit, 'l slg) outcome" where
  "slg_ret_string lib str s =
     (case str of
        None \<Rightarrow> Inl NullPtr
      | Some bs \<Rightarrow>
          Inr ((), slg_do (SlgOut (bs @ [0])) ((slg_do SlgSmash s)\<lparr>slg_state := slg_smash lib (slg_state s)\<rparr>)))"

section \<open>Arguments\<close>

text \<open>
  A number; a number taken as a character; a byte; a string and what follows it; a string at the end; an array of
  shorts.  Nothing is compared with the length of the message.
\<close>

datatype slg_kind = SlgInt | SlgLow | SlgByte | SlgStr | SlgRest | SlgSmg

text \<open>
  \<^verbatim>\<open>decode_smg_char_type\<close>: \<^verbatim>\<open>i\<close> is incremented twice a round, so that every second place of the static \<^verbatim>\<open>mbuf\<close>, of 256, is
  left as it was.
\<close>

function slg_smg :: "int \<Rightarrow> int \<Rightarrow> byte list \<Rightarrow> int list \<Rightarrow> fault + byte list \<times> int list" where
  "slg_smg i len bs mbuf =
     (if i < len then
        if i < 0 \<or> 256 \<le> i \<or> length bs < 2 then Inl OutOfBounds
        else slg_smg (i + 2) len (drop 2 bs) (mbuf[nat i := get_int16 bs])
      else Inr (bs, mbuf))"
  by pat_completeness auto
termination by (relation "measure (\<lambda>(i, len, bs, mbuf). nat (len - i))") auto

declare slg_smg.simps [simp del]

definition decode_smg_char_type :: "byte list \<Rightarrow> int list \<Rightarrow> fault + byte list \<times> int list" where
  "decode_smg_char_type bs mbuf =
     (if length bs < 4 then Inl OutOfBounds else slg_smg 0 (get_int32 bs) (drop 4 bs) mbuf)"

text \<open>None stands for the pointer to \<^verbatim>\<open>mbuf\<close>.\<close>

fun slg_args :: "slg_kind list \<Rightarrow> byte list \<Rightarrow> int list \<Rightarrow> fault + slg_value option list \<times> int list" where
  "slg_args [] bs mbuf = Inr ([], mbuf)"
| "slg_args (SlgInt # ks) bs mbuf =
     (if length bs < 4 then Inl OutOfBounds
      else case slg_args ks (drop 4 bs) mbuf of
          Inl e \<Rightarrow> Inl e | Inr (vs, mbuf) \<Rightarrow> Inr (Some (SInt (get_int32 bs)) # vs, mbuf))"
| "slg_args (SlgLow # ks) bs mbuf =
     (if length bs < 4 then Inl OutOfBounds
      else case slg_args ks (drop 4 bs) mbuf of
          Inl e \<Rightarrow> Inl e | Inr (vs, mbuf) \<Rightarrow> Inr (Some (SByte (word_of_int (get_int32 bs))) # vs, mbuf))"
| "slg_args (SlgByte # ks) bs mbuf =
     (case bs of
        [] \<Rightarrow> Inl OutOfBounds
      | b # bs \<Rightarrow> (case slg_args ks bs mbuf of Inl e \<Rightarrow> Inl e | Inr (vs, mbuf) \<Rightarrow> Inr (Some (SByte b) # vs, mbuf)))"
| "slg_args (SlgStr # ks) bs mbuf =
     (if 0 \<notin> set bs then Inl OutOfBounds
      else case slg_args ks (drop (length (c_string bs) + 1) bs) mbuf of
          Inl e \<Rightarrow> Inl e | Inr (vs, mbuf) \<Rightarrow> Inr (Some (SString (c_string bs)) # vs, mbuf))"
| "slg_args (SlgRest # ks) bs mbuf =
     (if 0 \<notin> set bs then Inl OutOfBounds
      else case slg_args ks bs mbuf of
          Inl e \<Rightarrow> Inl e | Inr (vs, mbuf) \<Rightarrow> Inr (Some (SString (c_string bs)) # vs, mbuf))"
| "slg_args (SlgSmg # ks) bs mbuf =
     (case decode_smg_char_type bs mbuf of
        Inl e \<Rightarrow> Inl e
      | Inr (bs, mbuf) \<Rightarrow> (case slg_args ks bs mbuf of Inl e \<Rightarrow> Inl e | Inr (vs, mbuf) \<Rightarrow> Inr (None # vs, mbuf)))"

section \<open>The commands\<close>

text \<open>What is answered: nothing, the result, zero, or a string.\<close>

datatype slg_reply = SlgVoid | SlgResult | SlgZero | SlgString

text \<open>The commands that are one call, by number: their arguments, the call, the answer.\<close>

definition slg_tty_table :: "(nat \<times> slg_kind list \<times> string \<times> slg_reply) list" where
  "slg_tty_table = [
     (1, [SlgInt, SlgInt, SlgInt], ''SLang_init_tty'', SlgResult),
     (2, [], ''SLang_set_abort_signal'', SlgZero),
     (6, [SlgByte], ''SLang_ungetkey'', SlgVoid),
     (4, [], ''SLang_reset_tty'', SlgVoid),
     (9, [], ''SLkp_init'', SlgResult)]"

definition slg_smg_table :: "(nat \<times> slg_kind list \<times> string \<times> slg_reply) list" where
  "slg_smg_table = [
     (10, [SlgInt, SlgInt, SlgInt, SlgInt, SlgByte], ''SLsmg_fill_region'', SlgVoid),
     (11, [SlgInt], ''SLsmg_set_char_set'', SlgVoid),
     (12, [], ''SLsmg_suspend_smg'', SlgResult),
     (14, [], ''SLsmg_erase_eol'', SlgVoid),
     (15, [SlgInt, SlgInt], ''SLsmg_gotorc'', SlgVoid),
     (16, [], ''SLsmg_erase_eos'', SlgVoid),
     (17, [], ''SLsmg_reverse_video'', SlgVoid),
     (18, [SlgInt], ''SLsmg_set_color'', SlgVoid),
     (19, [], ''SLsmg_normal_video'', SlgVoid),
     (22, [SlgRest], ''SLsmg_write_string'', SlgVoid),
     (24, [SlgByte], ''SLsmg_write_char'', SlgVoid),
     (26, [SlgStr, SlgInt, SlgInt, SlgInt, SlgInt, SlgInt], ''SLsmg_write_wrapped_string'', SlgVoid),
     (27, [], ''SLsmg_cls'', SlgVoid),
     (28, [], ''SLsmg_refresh'', SlgVoid),
     (29, [SlgInt, SlgInt], ''SLsmg_touch_lines'', SlgVoid),
     (31, [], ''SLsmg_init_smg'', SlgResult),
     (33, [], ''SLsmg_reset_smg'', SlgVoid),
     (34, [], ''SLsmg_char_at'', SlgResult),
     (36, [SlgInt], ''SLsmg_draw_hline'', SlgVoid),
     (37, [SlgInt], ''SLsmg_draw_vline'', SlgVoid),
     (39, [SlgInt, SlgInt, SlgInt, SlgInt], ''SLsmg_draw_box'', SlgVoid),
     (40, [], ''SLsmg_get_column'', SlgResult),
     (41, [], ''SLsmg_get_row'', SlgResult),
     (42, [SlgInt], ''SLsmg_forward'', SlgVoid),
     (43, [SlgSmg, SlgInt], ''SLsmg_write_color_chars'', SlgVoid),
     (45, [SlgSmg, SlgInt], ''SLsmg_write_raw'', SlgResult),
     (46, [SlgInt, SlgInt, SlgInt, SlgInt, SlgInt], ''SLsmg_set_color_in_region'', SlgVoid)]"

definition slg_tt_table :: "(nat \<times> slg_kind list \<times> string \<times> slg_reply) list" where
  "slg_tt_table = [
     (50, [], ''SLtt_flush_output'', SlgResult),
     (51, [SlgInt, SlgInt], ''SLtt_set_scroll_region'', SlgVoid),
     (52, [], ''SLtt_reset_scroll_region'', SlgVoid),
     (53, [SlgInt], ''SLtt_reverse_video'', SlgVoid),
     (54, [], ''SLtt_begin_insert'', SlgVoid),   \<comment> \<open>\<^verbatim>\<open>TT_BOLD_VIDEO\<close>\<close>
     (55, [], ''SLtt_begin_insert'', SlgVoid),
     (56, [], ''SLtt_end_insert'', SlgVoid),
     (57, [], ''SLtt_del_eol'', SlgVoid),
     (58, [SlgInt, SlgInt], ''SLtt_goto_rc'', SlgVoid),
     (59, [SlgInt], ''SLtt_delete_nlines'', SlgVoid),
     (60, [], ''SLtt_delete_char'', SlgVoid),
     (61, [], ''SLtt_erase_line'', SlgVoid),
     (62, [], ''SLtt_normal_video'', SlgVoid),
     (63, [], ''SLtt_cls'', SlgVoid),
     (64, [], ''SLtt_beep'', SlgVoid),
     (65, [SlgInt], ''SLtt_reverse_index'', SlgVoid),
     (66, [SlgSmg, SlgSmg, SlgInt, SlgInt], ''SLtt_smart_puts'', SlgVoid),
     (67, [SlgRest], ''SLtt_write_string'', SlgVoid),
     (68, [SlgLow], ''SLtt_putchar'', SlgVoid),
     (69, [], ''SLtt_init_video'', SlgResult),
     (70, [], ''SLtt_reset_video'', SlgVoid),
     (71, [], ''SLtt_get_terminfo'', SlgVoid),
     (72, [], ''SLtt_get_screen_size'', SlgVoid),
     (73, [SlgInt], ''SLtt_set_cursor_visibility'', SlgResult),
     (74, [SlgInt, SlgInt], ''SLtt_set_mouse_mode'', SlgResult)]"

definition slg_term_table :: "(nat \<times> slg_kind list \<times> string \<times> slg_reply) list" where
  "slg_term_table = [
     (75, [SlgRest], ''SLtt_initialize'', SlgResult),
     (76, [], ''SLtt_enable_cursor_keys'', SlgVoid),
     (78, [SlgInt, SlgRest], ''SLtt_set_color_esc'', SlgVoid),
     (79, [], ''SLtt_narrow_width'', SlgVoid),   \<comment> \<open>\<^verbatim>\<open>TT_WIDE_WIDTH\<close>\<close>
     (80, [], ''SLtt_narrow_width'', SlgVoid),
     (81, [SlgInt], ''SLtt_set_alt_char_set'', SlgVoid),
     (83, [], ''SLtt_disable_status_line'', SlgVoid),
     (84, [SlgRest], ''SLtt_tgetstr'', SlgString),
     (85, [SlgRest], ''SLtt_tgetnum'', SlgResult),
     (86, [SlgRest], ''SLtt_tgetflag'', SlgResult),
     (87, [SlgRest], ''SLtt_tigetent'', SlgString),
     (90, [SlgInt], ''SLtt_get_color_object'', SlgResult),
     (91, [SlgInt, SlgInt], ''SLtt_set_color_object'', SlgVoid),
     (92, [SlgInt, SlgStr, SlgStr, SlgRest], ''SLtt_set_color'', SlgVoid),
     (93, [SlgInt, SlgStr, SlgInt], ''SLtt_set_mono'', SlgVoid),
     (94, [SlgInt, SlgInt], ''SLtt_add_color_attribute'', SlgVoid),
     (95, [SlgInt, SlgInt, SlgInt], ''SLtt_set_color_fgbg'', SlgVoid),
     (100, [SlgInt], ''isatty'', SlgResult),
     (101, [SlgRest], ''fprintf'', SlgVoid)]"

definition slg_table :: "(nat \<times> slg_kind list \<times> string \<times> slg_reply) list" where
  "slg_table = slg_tty_table @ slg_smg_table @ slg_tt_table @ slg_term_table"

definition slg_run :: "'l slg_lib \<Rightarrow> string \<Rightarrow> slg_reply \<Rightarrow> slg_value list \<Rightarrow> 'l slg \<Rightarrow> (unit, 'l slg) outcome" where
  "slg_run lib f rep vs s =
     (case rep of
        SlgVoid \<Rightarrow> Inr ((), slg_call_void lib f vs s)
      | SlgResult \<Rightarrow> (case slg_call_int lib f vs s of (r, s) \<Rightarrow> Inr ((), slg_ret_int r s))
      | SlgZero \<Rightarrow> Inr ((), slg_ret_int 0 (slg_call_void lib f [SNull] s))
      | SlgString \<Rightarrow>
          (case slg_str lib f vs (slg_state s) of (str, l) \<Rightarrow>
             slg_ret_string lib str ((slg_do (SlgCall f vs) s)\<lparr>slg_state := l\<rparr>)))"

text \<open>Reading the arguments; \<open>k\<close> is given the values, with \<^verbatim>\<open>mbuf\<close> as it is then.\<close>

definition slg_read ::
  "slg_kind list \<Rightarrow> byte list \<Rightarrow> (slg_value list \<Rightarrow> 'l slg \<Rightarrow> (unit, 'l slg) outcome) \<Rightarrow> 'l slg \<Rightarrow> (unit, 'l slg) outcome" where
  "slg_read ks bs k s =
     (case slg_args ks bs (slg_mbuf s) of
        Inl e \<Rightarrow> Inl e
      | Inr (vs, mbuf) \<Rightarrow>
          k (map (\<lambda>v. case v of Some v \<Rightarrow> v | None \<Rightarrow> SShorts mbuf) vs) (s\<lparr>slg_mbuf := mbuf\<rparr>))"

section \<open>Keys, variables and the screen\<close>

definition slg_getkey :: "'l slg_lib \<Rightarrow> nat \<Rightarrow> 'l slg \<Rightarrow> 'l slg" where
  "slg_getkey lib cmd s =
     (case slg_call_int lib (if cmd = 3 then ''SLang_getkey'' else ''SLkp_getkey'') [] s of (x, s) \<Rightarrow> slg_ret_int x s)"

definition slg_key :: "'l slg_lib \<Rightarrow> nat \<Rightarrow> 'l slg \<Rightarrow> 'l slg" where
  "slg_key lib cmd s =
     (if \<not> slg_pending lib (slg_state s) then slg_do (SlgSelect True) (s\<lparr>slg_wait_for := cmd\<rparr>) else slg_getkey lib cmd s)"

definition slg_settable :: "int \<Rightarrow> bool" where
  "slg_settable x \<longleftrightarrow> x \<in> {1, 3, 4, 5, 6, 7, 8, 9, 12, 13, 14, 16, 17}"

definition slg_setvar :: "'l slg_lib \<Rightarrow> int \<Rightarrow> int \<Rightarrow> 'l slg \<Rightarrow> 'l slg" where
  "slg_setvar lib x y s = (if slg_settable x then s\<lparr>slg_state := slg_set lib x y (slg_state s)\<rparr> else s)"

definition slg_getvar :: "'l slg_lib \<Rightarrow> int \<Rightarrow> 'l slg \<Rightarrow> 'l slg" where
  "slg_getvar lib x s = slg_ret_int (if 1 \<le> x \<and> x \<le> 17 then slg_get lib x (slg_state s) else -1) s"

text \<open>\<^verbatim>\<open>SMG_RESUME_SMG\<close> has no return and goes on with \<^verbatim>\<open>SMG_ERASE_EOL\<close>.\<close>

definition slg_resume :: "'l slg_lib \<Rightarrow> 'l slg \<Rightarrow> 'l slg" where
  "slg_resume lib s =
     (case slg_call_int lib ''SLsmg_resume_smg'' [] s of (r, s) \<Rightarrow>
        slg_call_void lib ''SLsmg_erase_eol'' [] (slg_ret_int r s))"

text \<open>
  \<^verbatim>\<open>SMG_DRAW_OBJECT\<close> reads the third number into \<^verbatim>\<open>x\<close>; \<^verbatim>\<open>z\<close> has no value.  \<^verbatim>\<open>SMG_SET_SCREEN_START\<close> writes through pointers
  that have none.
\<close>

definition slg_draw_object :: "'l slg_lib \<Rightarrow> byte list \<Rightarrow> 'l slg \<Rightarrow> (unit, 'l slg) outcome" where
  "slg_draw_object lib bs s =
     slg_read [SlgInt, SlgInt, SlgInt] bs (\<lambda>vs s.
       Inr ((), slg_call_void lib ''SLsmg_draw_object'' [vs ! 2, vs ! 1, SInt (slg_unset lib)] s)) s"

text \<open>
  \<^verbatim>\<open>SMG_READ_RAW\<close>: the shorts start at the third byte of what is sent, the second is the tag, the first has no
  value; and there are as many bytes sent as shorts read, and one.
\<close>

definition slg_shorts :: "int list \<Rightarrow> byte list" where
  "slg_shorts xs = concat (map (\<lambda>x. [word_of_int x, word_of_int (x div 256)]) xs)"

definition slg_read_raw :: "'l slg_lib \<Rightarrow> byte list \<Rightarrow> 'l slg \<Rightarrow> (unit, 'l slg) outcome" where
  "slg_read_raw lib bs s =
     (if length bs < 4 then Inl OutOfBounds
      else
        let x = get_int32 bs in
        let n = sint (word_of_int (2 * x + 2 + 1) :: 32 word) in
        if \<not> slg_malloc lib n then Inl NullPtr
        else (case slg_raw lib x (slg_state s) of (xs, l) \<Rightarrow>
          if n < 2 + 2 * int (length xs) then Inl OutOfBounds
          else Inr ((), slg_do (SlgOut (take (length xs + 1) ([slg_junk lib, 1] @ slg_shorts xs)))
            ((slg_do (SlgCall ''SLsmg_read_raw'' [SInt x]) s)\<lparr>slg_state := l\<rparr>))))"

section \<open>The entry points\<close>

text \<open>A signal that has been caught is reported before anything else.\<close>

definition slg_report :: "'l slg \<Rightarrow> 'l slg" where
  "slg_report s =
     (if slg_caught s \<noteq> 0 then (slg_do (SlgOut (0 # put_int32 (slg_caught s))) s)\<lparr>slg_caught := 0\<rparr> else s)"

definition slg_command :: "'l slg_lib \<Rightarrow> nat \<Rightarrow> byte list \<Rightarrow> 'l slg \<Rightarrow> (unit, 'l slg) outcome" where
  "slg_command lib cmd bs s =
     (case map_of slg_table cmd of
        Some (ks, f, rep) \<Rightarrow> slg_read ks bs (slg_run lib f rep) s
      | None \<Rightarrow>
          if cmd = 3 \<or> cmd = 5 then Inr ((), slg_key lib cmd s)
          else if cmd = 7 then
            (if length bs < 8 then Inl OutOfBounds else Inr ((), slg_setvar lib (get_int32 bs) (get_int32 (drop 4 bs)) s))
          else if cmd = 8 then (if length bs < 4 then Inl OutOfBounds else Inr ((), slg_getvar lib (get_int32 bs) s))
          else if cmd = 13 then Inr ((), slg_resume lib s)
          else if cmd = 30 then
            Inr ((), if slg_old lib then slg_ret_int (-1) s else slg_call_void lib ''SLsmg_touch_screen'' [] s)
          else if cmd = 32 then
            (if slg_old lib then Inr ((), slg_ret_int (-1) s) else slg_run lib ''SLsmg_reinit_smg'' SlgResult [] s)
          else if cmd = 35 then Inl OutOfBounds
          else if cmd = 38 then slg_draw_object lib bs s
          else if cmd = 44 then slg_read_raw lib bs s
          else if cmd = 82 then
            slg_read [SlgInt, SlgRest] bs (\<lambda>vs s. Inr ((), slg_call_void lib ''SLtt_write_to_status_line'' (rev vs) s)) s
          else if cmd = 102 then
            (if length bs < 4 then Inl OutOfBounds
             else Inr ((), slg_call_void lib ''SLsignal'' [SInt (x_to_sig (get_int32 bs))] s))
          else if cmd = 103 then (let s = s\<lparr>slg_caught := 0\<rparr> in Inr ((), slg_ret_int (slg_caught s) s))
          else Inr ((), s))"

definition slg_output :: "'l slg_lib \<Rightarrow> byte list \<Rightarrow> 'l slg \<Rightarrow> (unit, 'l slg) outcome" where
  "slg_output lib bs s =
     (let s = slg_report s in
      case bs of [] \<Rightarrow> Inl OutOfBounds | b # bs \<Rightarrow> slg_command lib (unat b) bs s)"

text \<open>There is input: the key that is waited for.\<close>

definition slg_ready_input :: "'l slg_lib \<Rightarrow> 'l slg \<Rightarrow> 'l slg" where
  "slg_ready_input lib s =
     (let s = slg_do (SlgSelect False) s in
      if slg_wait_for s = 3 \<or> slg_wait_for s = 5 then slg_getkey lib (slg_wait_for s) s else s)"

end
