(* ===== verification/Slang_Service.thy ===== *)
theory Slang_Service
  imports Slang
begin

text \<open>
  The requests of \<^verbatim>\<open>slang.erl\<close> and what becomes of them: the fields of a request, arrays of cells in the one buffer the
  driver has, sessions of commands and signals, and a library to evaluate them with.
\<close>

section \<open>The fields of a request\<close>

text \<open>\<^verbatim>\<open>mk_args\<close> of \<^verbatim>\<open>slang.erl\<close>: the length sent with an array of cells is twice their number.\<close>

definition slg_cells :: "int list \<Rightarrow> byte list" where
  "slg_cells xs = put_int32 (2 * int (length xs)) @ concat (map put_int16 xs)"

fun slg_field :: "slg_kind \<Rightarrow> slg_value \<Rightarrow> byte list option" where
  "slg_field SlgInt (SInt i) = (if - (2 ^ 31) \<le> i \<and> i < 2 ^ 31 then Some (put_int32 i) else None)"
| "slg_field SlgLow (SByte b) = Some (put_int32 (uint b))"
| "slg_field SlgByte (SByte b) = Some [b]"
| "slg_field SlgStr (SString bs) = (if 0 \<in> set bs then None else Some (bs @ [0]))"
| "slg_field SlgRest (SString bs) = (if 0 \<in> set bs then None else Some (bs @ [0]))"
| "slg_field SlgSmg (SShorts xs) =
     (if length xs \<le> 128 \<and> (\<forall>x \<in> set xs. 0 \<le> x \<and> x < 65536) then Some (slg_cells xs) else None)"
| "slg_field _ _ = None"

fun slg_pack :: "slg_kind list \<Rightarrow> slg_value list \<Rightarrow> byte list option" where
  "slg_pack [] [] = Some []"
| "slg_pack (k # ks) (v # vs) =
     (case slg_field k v of
        None \<Rightarrow> None
      | Some b \<Rightarrow> if k = SlgRest \<and> ks \<noteq> [] then None else map_option ((@) b) (slg_pack ks vs))"
| "slg_pack _ _ = None"

text \<open>What the arrays of a request leave in \<^verbatim>\<open>mbuf\<close>: cells in every second place.\<close>

fun slg_spread :: "nat \<Rightarrow> int list \<Rightarrow> int list \<Rightarrow> int list" where
  "slg_spread i [] mbuf = mbuf"
| "slg_spread i (x # xs) mbuf = slg_spread (i + 2) xs (mbuf[i := x])"

fun slg_arrays :: "slg_value list \<Rightarrow> int list \<Rightarrow> int list" where
  "slg_arrays [] mbuf = mbuf"
| "slg_arrays (SShorts xs # vs) mbuf = slg_arrays vs (slg_spread 0 xs mbuf)"
| "slg_arrays (_ # vs) mbuf = slg_arrays vs mbuf"

text \<open>The library is given \<^verbatim>\<open>mbuf\<close> for each array, after all have been read.\<close>

definition slg_seen :: "int list \<Rightarrow> slg_value \<Rightarrow> slg_value" where
  "slg_seen mbuf v = (case v of SShorts _ \<Rightarrow> SShorts mbuf | _ \<Rightarrow> v)"

definition slg_read_value :: "slg_value \<Rightarrow> slg_value option" where
  "slg_read_value v = (case v of SShorts _ \<Rightarrow> None | _ \<Rightarrow> Some v)"

lemma slg_value_seen: "(case slg_read_value v of Some v \<Rightarrow> v | None \<Rightarrow> SShorts mbuf) = slg_seen mbuf v"
  by (simp add: slg_read_value_def slg_seen_def split: slg_value.split)

lemma slg_spread_other: "j < i \<Longrightarrow> slg_spread i xs mbuf ! j = mbuf ! j"
  by (induction i xs mbuf rule: slg_spread.induct) auto

lemma slg_spread_length [simp]: "length (slg_spread i xs mbuf) = length mbuf"
  by (induction i xs mbuf rule: slg_spread.induct) auto

lemma slg_spread_cell:
  "k < length xs \<Longrightarrow> i + 2 * length xs \<le> length mbuf \<Longrightarrow> slg_spread i xs mbuf ! (i + 2 * k) = xs ! k"
proof (induction i xs mbuf arbitrary: k rule: slg_spread.induct)
  case (2 i x xs mbuf)
  then show ?case
  proof (cases k)
    case (Suc l)
    with 2 (1) [of l] 2 (2,3) show ?thesis by (simp add: algebra_simps)
  qed (simp add: slg_spread_other)
qed simp

text \<open>The places between two cells are not written.\<close>

lemma slg_spread_gap: "odd (j - i) \<Longrightarrow> i \<le> j \<Longrightarrow> slg_spread i xs mbuf ! j = mbuf ! j"
proof (induction i xs mbuf rule: slg_spread.induct)
  case (2 i x xs mbuf)
  show ?case
  proof (cases "i + 2 \<le> j")
    case True
    then have "odd (j - (i + 2))" using 2 (2) by (metis even_diff_nat diff_diff_left even_add even_numeral le_add_diff_inverse)
    with 2 (1) True show ?thesis by (auto simp: nth_list_update)
  next
    case False
    with 2 (2,3) have "j = i + 1" by (cases "j = i") auto
    then show ?thesis by (simp add: slg_spread_other)
  qed
qed simp

lemma slg_smg_cells:
  assumes "\<forall>x \<in> set xs. 0 \<le> x \<and> x < 65536" "i + 2 * length xs \<le> 256"
  shows "slg_smg (int i) (int i + 2 * int (length xs)) (concat (map put_int16 xs) @ r) mbuf = Inr (r, slg_spread i xs mbuf)"
  using assms
proof (induction i xs mbuf rule: slg_spread.induct)
  case (1 i mbuf)
  then show ?case by (simp add: slg_smg.simps)
next
  case (2 i x xs mbuf)
  have "slg_smg (int i) (int i + 2 * int (length (x # xs))) (concat (map put_int16 (x # xs)) @ r) mbuf =
      slg_smg (int (i + 2)) (int (i + 2) + 2 * int (length xs)) (concat (map put_int16 xs) @ r) (mbuf[i := x])"
    using 2 (2,3) by (subst slg_smg.simps) (simp add: algebra_simps)
  with 2 show ?case by simp
qed

lemma decode_smg_cells:
  assumes "length xs \<le> 128" "\<forall>x \<in> set xs. 0 \<le> x \<and> x < 65536"
  shows "decode_smg_char_type (slg_cells xs @ r) mbuf = Inr (r, slg_spread 0 xs mbuf)"
  using slg_smg_cells [OF assms(2), of 0 r mbuf] assms(1)
  by (simp add: decode_smg_char_type_def slg_cells_def get_put_int32)

lemma c_string_field [simp]: "0 \<notin> set bs \<Longrightarrow> c_string (bs @ 0 # r) = bs"
  by (subst c_string_def, subst takeWhile_append2) auto

lemma slg_args_pack:
  "slg_pack ks vs = Some bs \<Longrightarrow> slg_args ks (bs @ r) mbuf = Inr (map slg_read_value vs, slg_arrays vs mbuf)"
proof (induction ks vs arbitrary: bs mbuf rule: slg_pack.induct)
  case (2 k ks v vs)
  then obtain b c where bc: "slg_field k v = Some b" "\<not> (k = SlgRest \<and> ks \<noteq> [])" "slg_pack ks vs = Some c" "bs = b @ c"
    by (auto split: option.splits if_splits)
  note IH = 2 (1) [OF bc(1,2,3)]
  show ?case
  proof (cases k)
    case SlgInt
    with bc(1,4) IH [of mbuf] show ?thesis
      by (cases v) (auto simp: slg_read_value_def get_put_int32 split: if_splits)
  next
    case SlgLow
    have u: "get_int32 (put_int32 (uint w) @ q) = uint w" for w :: byte and q 
      by (rule get_put_int32) (rule order_trans [OF _ byte_bound(1)], simp, rule less_trans [OF byte_bound(2)], simp)
    from SlgLow bc(1,4) IH [of mbuf] show ?thesis
      by (cases v) (auto simp: slg_read_value_def u)
  next
    case SlgByte
    with bc(1,4) IH [of mbuf] show ?thesis by (cases v) (auto simp: slg_read_value_def)
  next
    case SlgStr
    with bc(1,4) IH [of mbuf] show ?thesis
      by (cases v) (auto simp: slg_read_value_def split: if_splits)
  next
    case SlgRest
    with bc have e: "ks = []" "vs = []" "c = []" by (cases vs; simp)+
    with SlgRest bc(1,4) show ?thesis by (cases v) (auto simp: slg_read_value_def split: if_splits)
  next
    case SlgSmg
    then obtain xs where xs: "v = SShorts xs" "length xs \<le> 128" "\<forall>x \<in> set xs. 0 \<le> x \<and> x < 65536" "b = slg_cells xs"
      using bc(1) by (cases v) (auto split: if_splits)
    have "slg_args ks (c @ r) (slg_spread 0 xs mbuf) = Inr (map slg_read_value vs, slg_arrays vs (slg_spread 0 xs mbuf))"
      using IH [of "slg_spread 0 xs mbuf"] by simp
    with SlgSmg xs bc(4) decode_smg_cells [OF xs(2,3), of "c @ r" mbuf] show ?thesis by (simp add: slg_read_value_def)
  qed
qed auto

lemma slg_read_pack:
  "slg_pack ks vs = Some bs \<Longrightarrow>
    slg_read ks bs k s =
      k (map (slg_seen (slg_arrays vs (slg_mbuf s))) vs) (s\<lparr>slg_mbuf := slg_arrays vs (slg_mbuf s)\<rparr>)"
  using slg_args_pack [of ks vs bs "[]"] by (simp add: slg_read_def slg_value_seen comp_def)

lemma slg_table_distinct: "distinct (map fst slg_table)" "list_all (\<lambda>r. fst r < 128) slg_table"
  by (code_simp, code_simp)

lemma slg_table_row:
  assumes "(cmd, ks, f, rep) \<in> set slg_table"
  shows "map_of slg_table cmd = Some (ks, f, rep)" "cmd < 128"
  using assms slg_table_distinct by (auto simp: list_all_iff)

lemma slg_no_signal [simp]: "slg_caught s = 0 \<Longrightarrow> slg_report s = s"
  by (simp add: slg_report_def)

section \<open>What every command keeps\<close>

text \<open>Only things happen that are logged; only a request for a key changes what is waited for.\<close>

definition slg_grows :: "'l slg \<Rightarrow> 'l slg \<Rightarrow> bool" where
  "slg_grows s t \<longleftrightarrow> (\<exists>evs. slg_log t = evs @ slg_log s) \<and> slg_caught t = slg_caught s \<and> slg_wait_for t = slg_wait_for s"

lemma slg_grows_refl [simp]: "slg_grows s s"
  by (simp add: slg_grows_def)

lemma slg_grows_trans: "slg_grows s t \<Longrightarrow> slg_grows t u \<Longrightarrow> slg_grows s u"
  by (auto simp: slg_grows_def)

lemma slg_grows_base [simp]:
  "slg_grows s (slg_do c t) \<longleftrightarrow> (\<exists>evs. c # slg_log t = evs @ slg_log s) \<and> slg_caught t = slg_caught s \<and> slg_wait_for t = slg_wait_for s"
  by (simp add: slg_grows_def slg_do_def)

lemma slg_do_simps [simp]:
  "slg_log (slg_do c s) = c # slg_log s" "slg_caught (slg_do c s) = slg_caught s"
  "slg_wait_for (slg_do c s) = slg_wait_for s" "slg_state (slg_do c s) = slg_state s" "slg_mbuf (slg_do c s) = slg_mbuf s"
  by (simp_all add: slg_do_def)

lemma slg_grows_call_void [simp]: "slg_grows s (slg_call_void lib f vs s)"
  by (simp add: slg_grows_def slg_call_void_def)

lemma slg_grows_call_int: "slg_call_int lib f vs s = (r, t) \<Longrightarrow> slg_grows s t"
  by (auto simp: slg_grows_def slg_call_int_def split: prod.splits)

lemma slg_grows_ret_int [simp]: "slg_grows s (slg_ret_int i s)"
  by (simp add: slg_ret_int_def)

lemma slg_grows_run: "slg_run lib f rep vs s = Inr ((), t) \<Longrightarrow> slg_grows s t"
  by (auto simp: slg_run_def slg_ret_string_def slg_grows_def slg_call_int_def slg_call_void_def slg_ret_int_def
      split: slg_reply.splits prod.splits option.splits)

lemma slg_grows_read:
  assumes "slg_read ks bs k s = Inr ((), t)" "\<And>vs s t. k vs s = Inr ((), t) \<Longrightarrow> slg_grows s t"
  shows "slg_grows s t"
proof -
  from assms(1) obtain vs m where "k vs (s\<lparr>slg_mbuf := m\<rparr>) = Inr ((), t)"
    by (auto simp: slg_read_def split: sum.splits)
  from assms(2) [OF this] show ?thesis by (simp add: slg_grows_def)
qed

lemma slg_grows_resume: "slg_grows s (slg_resume lib s)"
  unfolding slg_resume_def
  by (auto split: prod.split intro: slg_grows_trans [OF slg_grows_trans [OF slg_grows_call_int slg_grows_ret_int] slg_grows_call_void])

lemma slg_grows_read_raw: "slg_read_raw lib bs s = Inr ((), t) \<Longrightarrow> slg_grows s t"
  by (auto simp: slg_read_raw_def Let_def slg_grows_def split: if_splits prod.splits)

lemma slg_grows_draw_object: "slg_draw_object lib bs s = Inr ((), t) \<Longrightarrow> slg_grows s t"
  unfolding slg_draw_object_def by (erule slg_grows_read) auto

lemma slg_grows_vars: "slg_grows s (slg_setvar lib x y s)" "slg_grows s (slg_getvar lib x s)"
  by (simp_all add: slg_setvar_def slg_getvar_def slg_grows_def slg_ret_int_def)

lemma slg_grows_key: "slg_grows s (slg_getkey lib cmd s)"
  unfolding slg_getkey_def by (auto split: prod.split intro: slg_grows_trans [OF slg_grows_call_int slg_grows_ret_int])

lemma slg_table_keys: "map_of slg_table 3 = None" "map_of slg_table 5 = None" "map_of slg_table 103 = None"
    "map_of slg_table 7 = None" "map_of slg_table 8 = None"
  by (code_simp, code_simp, code_simp, code_simp, code_simp)

lemma slg_command_grows:
  assumes "slg_command lib cmd bs s = Inr ((), t)" "cmd \<noteq> 3" "cmd \<noteq> 5" "slg_caught s = 0"
  shows "slg_grows s t"
proof (cases "map_of slg_table cmd")
  case (Some row)
  obtain ks f rep where row: "row = (ks, f, rep)" by (cases row)
  with Some assms(1) have "slg_read ks bs (slg_run lib f rep) s = Inr ((), t)" by (simp add: slg_command_def)
  then show ?thesis by (rule slg_grows_read) (rule slg_grows_run)
next
  case None
  have sl: "slg_read [SlgInt, SlgRest] bs (\<lambda>vs s. Inr ((), slg_call_void lib f (rev vs) s)) s = Inr ((), t) \<Longrightarrow> slg_grows s t" for f
    by (erule slg_grows_read) auto
  have ch: "slg_grows s (slg_ret_int (slg_caught (s\<lparr>slg_caught := 0\<rparr>)) (s\<lparr>slg_caught := 0\<rparr>))"
    using assms(4) by (simp add: slg_grows_def slg_ret_int_def)
  from None assms show ?thesis
    by (auto simp: slg_command_def Let_def slg_grows_resume slg_grows_vars intro: slg_grows_run slg_grows_draw_object slg_grows_read_raw sl
        split: if_splits simp del: slg_grows_base) (use ch in \<open>simp add: Let_def\<close>)
qed

lemma slg_report_caught [simp]: "slg_caught (slg_report s) = 0" "slg_wait_for (slg_report s) = slg_wait_for s"
    "slg_state (slg_report s) = slg_state s" "slg_mbuf (slg_report s) = slg_mbuf s"
  by (simp_all add: slg_report_def)

lemma slg_report_log: "slg_log (slg_report s) = (if slg_caught s \<noteq> 0 then [SlgOut (0 # put_int32 (slg_caught s))] else []) @ slg_log s"
  by (simp add: slg_report_def)

lemma slg_output_cons: "slg_output lib (b # bs) s = slg_command lib (unat b) bs (slg_report s)"
  by (simp add: slg_output_def Let_def)

section \<open>Sessions of commands and signals\<close>

datatype slg_input = SlgMessage "byte list" | SlgSignal int

fun slg_session :: "'l slg_lib \<Rightarrow> slg_input list \<Rightarrow> 'l slg \<Rightarrow> (unit, 'l slg) outcome" where
  "slg_session lib [] s = Inr ((), s)"
| "slg_session lib (SlgMessage bs # evs) s = andthen (slg_output lib bs s) (\<lambda>_ s. slg_session lib evs s)"
| "slg_session lib (SlgSignal sig # evs) s = slg_session lib evs (slg_sig_handler sig s)"

definition slg_asks_key :: "slg_input \<Rightarrow> bool" where
  "slg_asks_key ev = (case ev of SlgMessage (b # bs) \<Rightarrow> b = 3 \<or> b = 5 | _ \<Rightarrow> False)"

lemma slg_byte_cmd: "unat (b :: byte) = 3 \<longleftrightarrow> b = 3" "unat b = 5 \<longleftrightarrow> b = 5"
  by (simp_all add: word_unat_eq_iff)

lemma slg_output_waits:
  assumes "slg_output lib bs s = Inr ((), t)" "\<not> slg_asks_key (SlgMessage bs)"
  shows "slg_wait_for t = slg_wait_for s"
proof (cases bs)
  case (Cons b r)
  with assms have "slg_command lib (unat b) r (slg_report s) = Inr ((), t)" "unat b \<noteq> 3" "unat b \<noteq> 5"
    by (auto simp: slg_output_cons slg_asks_key_def slg_byte_cmd)
  from slg_command_grows [OF this] show ?thesis by (simp add: slg_grows_def)
qed (use assms in \<open>simp add: slg_output_def\<close>)

lemma slg_session_waits:
  "slg_session lib evs s = Inr ((), t) \<Longrightarrow> \<forall>ev \<in> set evs. \<not> slg_asks_key ev \<Longrightarrow> slg_wait_for t = slg_wait_for s"
proof (induction lib evs s rule: slg_session.induct)
  case (2 lib bs evs s)
  then obtain u where u: "slg_output lib bs s = Inr ((), u)" "slg_session lib evs u = Inr ((), t)"
    by (auto simp: andthen_def split: sum.splits)
  with 2 slg_output_waits [OF u(1)] show ?case by auto
qed (auto simp: slg_sig_handler_def)

lemma slg_key_command: "c = 3 \<or> c = 5 \<Longrightarrow> slg_output lib (c # bs) s = Inr ((), slg_key lib (unat c) (slg_report s))"
  using slg_table_keys by (auto simp: slg_output_cons slg_command_def)

lemma slg_ready_key:
  assumes "slg_wait_for s = n" "n = 3 \<or> n = 5" "slg_int lib (if n = 3 then ''SLang_getkey'' else ''SLkp_getkey'') [] (slg_state s) = (k, l)"
  shows "slg_ready_input lib s =
    s\<lparr>slg_log := [SlgOut (1 # put_int32 k), SlgCall (if n = 3 then ''SLang_getkey'' else ''SLkp_getkey'') [], SlgSelect False] @ slg_log s,
      slg_state := l\<rparr>"
  using assms by (auto simp: slg_ready_input_def Let_def slg_getkey_def slg_call_int_def slg_ret_int_def slg_do_def)

lemma slg_signal_numbers: "1 \<le> x \<Longrightarrow> x \<le> 6 \<Longrightarrow> sig_to_x (x_to_sig x) = x"
  by (auto simp: sig_to_x_def x_to_sig_def)

lemma slg_check_zero: "slg_output lib (103 # bs) s = Inr ((), slg_ret_int 0 (slg_report s))"
proof -
  have e: "slg_report s\<lparr>slg_caught := 0\<rparr> = slg_report s" by (cases s) (simp add: slg_report_def slg_do_def)
  show ?thesis using slg_table_keys by (simp add: slg_output_cons slg_command_def Let_def e)
qed

text \<open>A caught signal is reported before anything the message does, and once.\<close>

lemma slg_output_reports:
  assumes "slg_output lib bs s = Inr ((), t)"
  shows "\<exists>evs. slg_log t = evs @ slg_log (slg_report s)" "slg_caught t = 0"
proof -
  from assms obtain b r where bs: "bs = b # r" by (cases bs) (auto simp: slg_output_def)
  show "\<exists>evs. slg_log t = evs @ slg_log (slg_report s)" "slg_caught t = 0"
  proof (atomize (full), cases "unat b = 3 \<or> unat b = 5")
    case True
    then have b: "b = 3 \<or> b = 5" by (simp add: slg_byte_cmd)
    have t: "t = slg_key lib (unat b) (slg_report s)" using assms bs by (simp add: slg_key_command [OF b])
    show "(\<exists>evs. slg_log t = evs @ slg_log (slg_report s)) \<and> slg_caught t = 0"
      using slg_grows_key [of "slg_report s" lib "unat b"] by (auto simp: t slg_key_def slg_grows_def)
  next
    case False
    with assms bs slg_command_grows [of lib "unat b" r "slg_report s" t] 
    show "(\<exists>evs. slg_log t = evs @ slg_log (slg_report s)) \<and> slg_caught t = 0"
      by (auto simp: slg_output_cons slg_grows_def)
  qed
qed

section \<open>Variables\<close>

lemma slg_setvar_output:
  "- (2 ^ 31) \<le> x \<Longrightarrow> x < 2 ^ 31 \<Longrightarrow> - (2 ^ 31) \<le> y \<Longrightarrow> y < 2 ^ 31 \<Longrightarrow>
    slg_output lib (7 # put_int32 x @ put_int32 y) s = Inr ((), slg_setvar lib x y (slg_report s))"
  using slg_table_keys get_put_int32 [of x "put_int32 y"] get_put_int32 [of y "[]"]
  by (simp add: slg_output_cons slg_command_def)

lemma slg_getvar_output:
  "- (2 ^ 31) \<le> x \<Longrightarrow> x < 2 ^ 31 \<Longrightarrow> slg_output lib (8 # put_int32 x) s = Inr ((), slg_getvar lib x (slg_report s))"
  using slg_table_keys get_put_int32 [of x "[]"] by (simp add: slg_output_cons slg_command_def)

section \<open>A library to evaluate with\<close>

text \<open>Its state is the keys to come and the variables; a call without an answer does nothing, one with a number gives
  the next key or zero.\<close>

definition demo_slg :: "(int list \<times> (int \<Rightarrow> int)) slg_lib" where
  "demo_slg = \<lparr>slg_int = (\<lambda>f vs l. case fst l of
        [] \<Rightarrow> (0, l)
      | k # ks \<Rightarrow> if f = ''SLang_getkey'' \<or> f = ''SLkp_getkey'' then (k, (ks, snd l)) else (0, l)),
     slg_void = (\<lambda>f vs l. l),
     slg_str = (\<lambda>f vs l. (Some [65], l)),
     slg_smash = (\<lambda>l. l),
     slg_pending = (\<lambda>l. fst l \<noteq> []),
     slg_raw = (\<lambda>n l. (replicate (nat n) 7, l)),
     slg_get = (\<lambda>x l. snd l x),
     slg_set = (\<lambda>x y l. (fst l, (snd l)(x := y))),
     slg_malloc = (\<lambda>n. 0 \<le> n),
     slg_old = True,
     slg_unset = 0,
     slg_junk = 0\<rparr>"

definition demo_slg_state :: "(int list \<times> (int \<Rightarrow> int)) slg" where
  "demo_slg_state = \<lparr>slg_state = ([], \<lambda>_. 0), slg_log = [], slg_wait_for = 0, slg_caught = 0, slg_mbuf = replicate 256 0\<rparr>"

end
