(* ===== verification/Slang_Client.thy ===== *)
theory Slang_Client
  imports Slang_Service
begin

text \<open>
  The functions of \<^verbatim>\<open>slang.erl\<close>, the client's side of the driver: the number of the command (from
  \<^verbatim>\<open>slang_int.hrl\<close>), the function of the S-Lang library it is named after, the fields it sends and the answer it waits for;
  and the call that the driver makes for each.
\<close>

section \<open>The functions\<close>

text \<open>
  The fields are those of the list given to \<^verbatim>\<open>p_cmd\<close>; \<open>WCharInt\<close> is the character that \<^verbatim>\<open>tt_putchar\<close> sends as a number.
  Left out are the functions with a handler of their own in the driver (keys, signals, variables, \<^verbatim>\<open>smg_resume_smg\<close>,
  \<^verbatim>\<open>smg_touch_screen\<close>, \<^verbatim>\<open>smg_reinit_smg\<close>, \<^verbatim>\<open>smg_set_screen_start\<close>, \<^verbatim>\<open>smg_draw_object\<close>, \<^verbatim>\<open>smg_read_raw\<close>,
  \<^verbatim>\<open>tt_write_to_status_line\<close>), those that end with \<^verbatim>\<open>exit(nyi)\<close>, and those that do not send what the driver reads
  (\<^verbatim>\<open>set_abort_signal\<close>, \<^verbatim>\<open>ungetkey\<close>, \<^verbatim>\<open>smg_draw_box\<close>, \<^verbatim>\<open>tt_goto_rc\<close>, \<^verbatim>\<open>tt_set_alt_char_set\<close>).
\<close>

datatype slg_wire = WInt | WCharInt | WChar | WString | WCells

datatype slg_expect = ExpectVoid | ExpectInt | ExpectString

definition slg_functions_smg :: "(nat \<times> string \<times> slg_wire list \<times> slg_expect) list" where
  "slg_functions_smg = [
     (1, ''SLang_init_tty'', [WInt, WInt, WInt], ExpectInt),
     (4, ''SLang_reset_tty'', [], ExpectVoid),
     (9, ''SLkp_init'', [], ExpectInt),
     (10, ''SLsmg_fill_region'', [WInt, WInt, WInt, WInt, WChar], ExpectVoid),
     (11, ''SLsmg_set_char_set'', [WInt], ExpectVoid),
     (12, ''SLsmg_suspend_smg'', [], ExpectInt),
     (14, ''SLsmg_erase_eol'', [], ExpectVoid),
     (15, ''SLsmg_gotorc'', [WInt, WInt], ExpectVoid),
     (16, ''SLsmg_erase_eos'', [], ExpectVoid),
     (17, ''SLsmg_reverse_video'', [], ExpectVoid),
     (18, ''SLsmg_set_color'', [WInt], ExpectVoid),
     (19, ''SLsmg_normal_video'', [], ExpectVoid),
     (22, ''SLsmg_write_string'', [WString], ExpectVoid),
     (24, ''SLsmg_write_char'', [WChar], ExpectVoid),
     (26, ''SLsmg_write_wrapped_string'', [WString, WInt, WInt, WInt, WInt, WInt], ExpectVoid),
     (27, ''SLsmg_cls'', [], ExpectVoid),
     (28, ''SLsmg_refresh'', [], ExpectVoid),
     (29, ''SLsmg_touch_lines'', [WInt, WInt], ExpectVoid),
     (31, ''SLsmg_init_smg'', [], ExpectInt),
     (33, ''SLsmg_reset_smg'', [], ExpectVoid),
     (34, ''SLsmg_char_at'', [], ExpectInt),
     (36, ''SLsmg_draw_hline'', [WInt], ExpectVoid),
     (37, ''SLsmg_draw_vline'', [WInt], ExpectVoid),
     (40, ''SLsmg_get_column'', [], ExpectInt),
     (41, ''SLsmg_get_row'', [], ExpectInt),
     (42, ''SLsmg_forward'', [WInt], ExpectVoid),
     (43, ''SLsmg_write_color_chars'', [WCells, WInt], ExpectVoid),
     (45, ''SLsmg_write_raw'', [WCells, WInt], ExpectInt),
     (46, ''SLsmg_set_color_in_region'', [WInt, WInt, WInt, WInt, WInt], ExpectVoid)]"

definition slg_functions_tt :: "(nat \<times> string \<times> slg_wire list \<times> slg_expect) list" where
  "slg_functions_tt = [
     (50, ''SLtt_flush_output'', [], ExpectInt),
     (51, ''SLtt_set_scroll_region'', [WInt, WInt], ExpectVoid),
     (52, ''SLtt_reset_scroll_region'', [], ExpectVoid),
     (53, ''SLtt_reverse_video'', [WInt], ExpectVoid),
     (54, ''SLtt_bold_video'', [], ExpectVoid),
     (55, ''SLtt_begin_insert'', [], ExpectVoid),
     (56, ''SLtt_end_insert'', [], ExpectVoid),
     (57, ''SLtt_del_eol'', [], ExpectVoid),
     (59, ''SLtt_delete_nlines'', [WInt], ExpectVoid),
     (60, ''SLtt_delete_char'', [], ExpectVoid),
     (61, ''SLtt_erase_line'', [], ExpectVoid),
     (62, ''SLtt_normal_video'', [], ExpectVoid),
     (63, ''SLtt_cls'', [], ExpectVoid),
     (64, ''SLtt_beep'', [], ExpectVoid),
     (65, ''SLtt_reverse_index'', [WInt], ExpectVoid),
     (66, ''SLtt_smart_puts'', [WCells, WCells, WInt, WInt], ExpectVoid),
     (67, ''SLtt_write_string'', [WString], ExpectVoid),
     (68, ''SLtt_putchar'', [WCharInt], ExpectVoid),
     (69, ''SLtt_init_video'', [], ExpectInt),
     (70, ''SLtt_reset_video'', [], ExpectVoid),
     (71, ''SLtt_get_terminfo'', [], ExpectVoid),
     (72, ''SLtt_get_screen_size'', [], ExpectVoid),
     (73, ''SLtt_set_cursor_visibility'', [WInt], ExpectInt),
     (74, ''SLtt_set_mouse_mode'', [WInt, WInt], ExpectInt)]"

definition slg_functions_term :: "(nat \<times> string \<times> slg_wire list \<times> slg_expect) list" where
  "slg_functions_term = [
     (75, ''SLtt_initialize'', [WString], ExpectInt),
     (76, ''SLtt_enable_cursor_keys'', [], ExpectVoid),
     (78, ''SLtt_set_color_esc'', [WInt, WString], ExpectVoid),
     (79, ''SLtt_wide_width'', [], ExpectVoid),
     (80, ''SLtt_narrow_width'', [], ExpectVoid),
     (83, ''SLtt_disable_status_line'', [], ExpectVoid),
     (84, ''SLtt_tgetstr'', [WString], ExpectString),
     (85, ''SLtt_tgetnum'', [WString], ExpectInt),
     (86, ''SLtt_tgetflag'', [WString], ExpectInt),
     (87, ''SLtt_tigetent'', [WString], ExpectString),
     (90, ''SLtt_get_color_object'', [WInt], ExpectInt),
     (91, ''SLtt_set_color_object'', [WInt, WInt], ExpectVoid),
     (92, ''SLtt_set_color'', [WInt, WString, WString, WString], ExpectVoid),
     (93, ''SLtt_set_mono'', [WInt, WString, WInt], ExpectVoid),
     (94, ''SLtt_add_color_attribute'', [WInt, WInt], ExpectVoid),
     (95, ''SLtt_set_color_fgbg'', [WInt, WInt, WInt], ExpectVoid),
     (100, ''isatty'', [WInt], ExpectInt),
     (101, ''fprintf'', [WString], ExpectVoid)]"

definition slg_functions :: "(nat \<times> string \<times> slg_wire list \<times> slg_expect) list" where
  "slg_functions = slg_functions_smg @ slg_functions_tt @ slg_functions_term"

section \<open>The request\<close>

text \<open>The pairs of the list given to \<^verbatim>\<open>p_cmd\<close>, and \<^verbatim>\<open>mk_args\<close>.\<close>

datatype slg_term = TermInt int | TermChar byte | TermString "byte list" | TermCells "int list"

fun mk_args :: "slg_term list \<Rightarrow> byte list" where
  "mk_args [] = []"
| "mk_args (TermInt i # ts) = put_int32 i @ mk_args ts"
| "mk_args (TermChar b # ts) = b # mk_args ts"
| "mk_args (TermString bs # ts) = bs @ [0] @ mk_args ts"
| "mk_args (TermCells xs # ts) = put_int32 (2 * int (length xs)) @ concat (map put_int16 xs) @ mk_args ts"

text \<open>
  Numbers of four bytes, strings without a zero, arrays of at most 128 cells of two bytes: what reaches the driver as it
  was meant.
\<close>

fun slg_term_ok :: "slg_wire \<Rightarrow> slg_term \<Rightarrow> bool" where
  "slg_term_ok WInt (TermInt i) = (- (2 ^ 31) \<le> i \<and> i < 2 ^ 31)"
| "slg_term_ok WCharInt (TermInt i) = (0 \<le> i \<and> i < 256)"
| "slg_term_ok WChar (TermChar b) = True"
| "slg_term_ok WString (TermString bs) = (0 \<notin> set bs)"
| "slg_term_ok WCells (TermCells xs) = (length xs \<le> 128 \<and> (\<forall>x \<in> set xs. 0 \<le> x \<and> x < 65536))"
| "slg_term_ok _ _ = False"

text \<open>What the library is given for a field.\<close>

fun slg_passed :: "slg_wire \<Rightarrow> slg_term \<Rightarrow> slg_value" where
  "slg_passed WInt (TermInt i) = SInt i"
| "slg_passed WCharInt (TermInt i) = SByte (word_of_int i)"
| "slg_passed WChar (TermChar b) = SByte b"
| "slg_passed WString (TermString bs) = SString bs"
| "slg_passed WCells (TermCells xs) = SShorts xs"
| "slg_passed _ _ = SNull"

definition slg_passes :: "slg_wire list \<Rightarrow> slg_term list \<Rightarrow> slg_value list" where
  "slg_passes ws ts = map (\<lambda>(w, t). slg_passed w t) (zip ws ts)"

section \<open>The driver's tables\<close>

fun slg_wire_kind :: "slg_wire \<Rightarrow> slg_kind \<Rightarrow> bool" where
  "slg_wire_kind WInt k = (k = SlgInt)"
| "slg_wire_kind WCharInt k = (k = SlgLow)"
| "slg_wire_kind WChar k = (k = SlgByte)"
| "slg_wire_kind WString k = (k = SlgStr \<or> k = SlgRest)"
| "slg_wire_kind WCells k = (k = SlgSmg)"

fun slg_agree :: "slg_wire list \<Rightarrow> slg_kind list \<Rightarrow> bool" where
  "slg_agree [] [] = True"
| "slg_agree (w # ws) (k # ks) = (slg_wire_kind w k \<and> (k = SlgRest \<longrightarrow> ks = []) \<and> slg_agree ws ks)"
| "slg_agree _ _ = False"

definition slg_reply_of :: "slg_expect \<Rightarrow> slg_reply" where
  "slg_reply_of e = (case e of ExpectVoid \<Rightarrow> SlgVoid | ExpectInt \<Rightarrow> SlgResult | ExpectString \<Rightarrow> SlgString)"

text \<open>Two commands are not the call they are named after: bold characters insert, and a wide terminal is made narrow.\<close>

definition slg_miscalled :: "nat \<Rightarrow> string \<Rightarrow> string" where
  "slg_miscalled n f = (if n = 54 then ''SLtt_begin_insert'' else if n = 79 then ''SLtt_narrow_width'' else f)"

fun slg_function_row :: "nat \<times> string \<times> slg_wire list \<times> slg_expect \<Rightarrow> nat \<times> slg_kind list \<times> string \<times> slg_reply \<Rightarrow> bool" where
  "slg_function_row (n, f, ws, e) (m, ks, g, rep) =
     (m = n \<and> g = slg_miscalled n f \<and> rep = slg_reply_of e \<and> slg_agree ws ks)"

text \<open>The driver's commands that are one call, less the five that do not get from \<^verbatim>\<open>slang.erl\<close> what they read.\<close>

definition slg_unmatched :: "nat \<times> slg_kind list \<times> string \<times> slg_reply \<Rightarrow> bool" where
  "slg_unmatched r = (fst r = 2 \<or> fst r = 6 \<or> fst r = 39 \<or> fst r = 58 \<or> fst r = 81)"

lemma slg_functions_rows:
  "list_all2 slg_function_row slg_functions_smg (filter (\<lambda>r. \<not> slg_unmatched r) (slg_tty_table @ slg_smg_table))"
  "list_all2 slg_function_row slg_functions_tt (filter (\<lambda>r. \<not> slg_unmatched r) slg_tt_table)"
  "list_all2 slg_function_row slg_functions_term (filter (\<lambda>r. \<not> slg_unmatched r) slg_term_table)"
  by (simp_all add: slg_functions_smg_def slg_functions_tt_def slg_functions_term_def slg_tty_table_def slg_smg_table_def
      slg_tt_table_def slg_term_table_def slg_unmatched_def slg_miscalled_def slg_reply_of_def)

lemma slg_functions_table: "list_all2 slg_function_row slg_functions (filter (\<lambda>r. \<not> slg_unmatched r) slg_table)"
  using list_all2_appendI [OF slg_functions_rows(1) list_all2_appendI [OF slg_functions_rows(2,3)]]
  by (simp add: slg_functions_def slg_table_def)

lemma slg_function_in_table:
  assumes "(n, f, ws, e) \<in> set slg_functions"
  shows "\<exists>ks. (n, ks, slg_miscalled n f, slg_reply_of e) \<in> set slg_table \<and> slg_agree ws ks"
proof -
  from assms obtain i where i: "i < length slg_functions" "slg_functions ! i = (n, f, ws, e)" by (auto simp: in_set_conv_nth)
  let ?r = "filter (\<lambda>r. \<not> slg_unmatched r) slg_table ! i"
  from list_all2_nthD [OF slg_functions_table i(1)] have "slg_function_row (n, f, ws, e) ?r" by (simp add: i(2))
  then obtain ks where "?r = (n, ks, slg_miscalled n f, slg_reply_of e)" "slg_agree ws ks" by (cases ?r) auto
  moreover have "?r \<in> set slg_table"
    using i(1) list_all2_lengthD [OF slg_functions_table] nth_mem [of i "filter (\<lambda>r. \<not> slg_unmatched r) slg_table"] by auto
  ultimately show ?thesis by metis
qed

lemma slg_passed_field:
  assumes "slg_wire_kind w k" "slg_term_ok w t"
  shows "slg_field k (slg_passed w t) = Some (mk_args [t])"
proof (cases "(w, t)" rule: slg_term_ok.cases)
  case (2 i)
  with assms have "uint (word_of_int i :: byte) = i" by (simp add: uint_word_of_int)
  with 2 assms show ?thesis by simp
qed (use assms in \<open>auto simp: slg_cells_def\<close>)

lemma mk_args_cons: "mk_args (t # ts) = mk_args [t] @ mk_args ts"
  by (cases t) auto

lemma slg_passes_cons: "slg_passes (w # ws) (t # ts) = slg_passed w t # slg_passes ws ts"
  by (simp add: slg_passes_def)

lemma slg_pack_passes:
  "slg_agree ws ks \<Longrightarrow> list_all2 slg_term_ok ws ts \<Longrightarrow> slg_pack ks (slg_passes ws ts) = Some (mk_args ts)"
proof (induction ws ks arbitrary: ts rule: slg_agree.induct)
  case 1
  then show ?case by (simp add: slg_passes_def)
next
  case (2 w ws k ks)
  then obtain t us where ts: "ts = t # us" "slg_term_ok w t" "list_all2 slg_term_ok ws us"
    by (auto simp: list_all2_Cons1)
  with 2 have IH: "slg_pack ks (slg_passes ws us) = Some (mk_args us)" by simp
  with 2 (2) show ?case
    by (simp add: ts(1) slg_passes_cons slg_passed_field [OF _ ts(2)] mk_args_cons [of t us])
qed auto

section \<open>What becomes of a call\<close>

text \<open>
  The call is made with the values, the library's state is what it leaves, and the answer is the kind of answer the
  client waits for: the number with a tag of 1, or the string and a zero.
\<close>

fun slg_called :: "'l slg_lib \<Rightarrow> string \<Rightarrow> slg_expect \<Rightarrow> slg_value list \<Rightarrow> 'l slg \<Rightarrow> 'l slg \<Rightarrow> bool" where
  "slg_called lib f ExpectVoid vs s t =
     (t = s\<lparr>slg_state := slg_void lib f vs (slg_state s), slg_log := SlgCall f vs # slg_log s\<rparr>)"
| "slg_called lib f ExpectInt vs s t =
     (\<exists>r l. slg_int lib f vs (slg_state s) = (r, l) \<and>
       t = s\<lparr>slg_state := l, slg_log := [SlgOut (1 # put_int32 r), SlgCall f vs] @ slg_log s\<rparr>)"
| "slg_called lib f ExpectString vs s t =
     (\<exists>str l. slg_str lib f vs (slg_state s) = (Some str, l) \<and>
       t = s\<lparr>slg_state := slg_smash lib l, slg_log := [SlgOut (str @ [0]), SlgSmash, SlgCall f vs] @ slg_log s\<rparr>)"

lemma slg_run_called:
  assumes "e = ExpectString \<longrightarrow> fst (slg_str lib f vs (slg_state s)) \<noteq> None"
  shows "\<exists>t. slg_run lib f (slg_reply_of e) vs s = Inr ((), t) \<and> slg_called lib f e vs s t"
  using assms
  by (cases e) (auto simp: slg_run_def slg_reply_of_def slg_call_void_def slg_call_int_def slg_ret_int_def slg_ret_string_def
      slg_do_def split: prod.splits option.splits)

end
