(* ===== verification/Spec2Isabelle.thy ===== *)
theory Spec2Isabelle
  imports Port Service Passive Md4 Serial_Service Url Iconv Zlib_Service Unixdom_Service Intl Fd_Receive Tun Spread_Limits Gd_Requests
    Posix_Service Edtk_Unix_Service Slang_Client
begin

text \<open>
  Verification of C drivers of jungerl.

  Jungerl is a collection of Erlang libraries, some of them with a C part that runs as a linked-in
  driver inside the Erlang emulator.  This development models sixteen of these drivers and proves what
  makes them correct: the loop driver of the SSH library, \<^verbatim>\<open>lib/ssh/c_src/loop_drv.c\<close>, the MD4
  digest of the SMB library with its driver, \<^verbatim>\<open>lib/esmb/c_src/md4.c\<close> and \<^verbatim>\<open>md4_drv.c\<close>, the serial
  driver \<^verbatim>\<open>lib/sl/c_src/sl_drv.c\<close>, the compression driver \<^verbatim>\<open>lib/zlib/c_src/zlib_drv.c\<close>, the driver
  for Unix domain sockets, \<^verbatim>\<open>lib/unixdom/c_src/unixdom_drv.c\<close>, three drivers in front of text
  conversions, \<^verbatim>\<open>lib/iconv/c_src/iconv_drv.c\<close>, \<^verbatim>\<open>lib/ibrowse/c_src/ibrowse_drv.c\<close> and
  \<^verbatim>\<open>lib/intl/c_src/intl_drv.c\<close>, the two that pass file descriptors between processes,
  \<^verbatim>\<open>lib/fd_server/c_src/fdsend_drv.c\<close> and \<^verbatim>\<open>fdsrv_drv.c\<close>, the driver of tunnel devices,
  \<^verbatim>\<open>lib/tuntap/c_src/tun_drv.c\<close>, the one for the Spread toolkit,
  \<^verbatim>\<open>lib/spread_drv/c_src/spread_drv.c\<close> and \<^verbatim>\<open>my-spread.c\<close>, the one for the graphics library gd,
  \<^verbatim>\<open>lib/gd1_drv/c_src/gd1_drv.c\<close> and \<^verbatim>\<open>my-gd1.c\<close>, two more made with the same toolkit,
  \<^verbatim>\<open>lib/posix_drv/c_src/posix_drv.c\<close> and \<^verbatim>\<open>lib/unixdom_drv/c_src/unixdom_drv.c\<close>, and the one for the screen library
  S-Lang, \<^verbatim>\<open>lib/slang/c_src/slang_drv.c\<close>.

  \<^bold>\<open>The loop driver\<close> imitates a TCP socket that is connected to itself: what is written to a port is
  queued, read back, cut into packets and delivered.  A port is opened, bound and connected by
  control calls; writes go through \<^verbatim>\<open>loop_drv_command\<close> or \<^verbatim>\<open>loop_drv_commandv\<close>; the packets come out
  as messages (active mode) or as answers to RECV requests (passive mode).  Its parts and the
  theories that model them, in the order of their dependencies:

  \<^item> \<open>Prelude\<close>: bytes, the integer macros \<^verbatim>\<open>get_int32\<close> and so on, outcomes (a fault or a result
    with a state), memory blocks and the checks of the accesses to them.
  \<^item> \<open>Driver_Api\<close>: the emulator.  It is not part of the repository, so its answers are a parameter,
    the record \<open>emulator\<close> of functions of the history of driver calls; a driver call extends that
    history, \<open>calls\<close>, newest first.  The locale \<open>driver_queue\<close> states what the documentation
    promises of the driver queue, and its interpretation is the queue the history determines.
    \<open>denote\<close> evaluates an array of term items to the Erlang term it describes.
  \<^item> \<open>Loop_State\<close>: the constants, the descriptors as records, the static variables, and starting.
  \<^item> \<open>Async\<close>: the ring \<^verbatim>\<open>op_queue\<close> of waiting requests and the functions that answer; the locale
    \<open>request_queue\<close> gives the loop that answers all of them.
  \<^item> \<open>Buffers\<close>: the input buffer \<^verbatim>\<open>i_buf\<close> with \<^verbatim>\<open>i_ptr_start\<close>, \<^verbatim>\<open>i_ptr\<close>, \<^verbatim>\<open>i_bufsz\<close>, \<^verbatim>\<open>i_remain\<close> and the
    stack of free buffers; \<open>buf_inv\<close> is the invariant, \<open>buffered\<close> the bytes read and not delivered.
  \<^item> \<open>Http\<close> and \<open>Reply\<close>: parsing of HTTP lines into events, and every message that can carry a
    packet, \<^verbatim>\<open>loop_reply_data\<close> and \<^verbatim>\<open>loop_reply_binary_data\<close> included.
  \<^item> \<open>Packet\<close>: \<^verbatim>\<open>loop_remain\<close>, which finds the packet at the front of the buffer, for all twelve
    packet types.
  \<^item> \<open>Stats\<close> and \<open>Options\<close>: counters, subscribers, options and addresses.
  \<^item> \<open>Deliver\<close>: \<^verbatim>\<open>loop_deliver\<close>, \<^verbatim>\<open>loop_recv\<close>, \<^verbatim>\<open>loop_send\<close>, and that they stay within their buffers.
  \<^item> \<open>Control\<close>: \<^verbatim>\<open>inet_ctl\<close>, \<^verbatim>\<open>loop_drv_ctl\<close> and the other entry points.
  \<^item> \<open>Data_Path\<close> and \<open>Port\<close>: the locale \<open>data_path\<close> collects what the data path may do to a port,
    \<open>control_path\<close> and \<open>entry_points\<close> extend it to the control calls and to all entry points; they
    are interpreted on the request ring, the connection state, the port invariant and the
    abstract connection machine.  \<open>reachable\<close> is the set of states the entry points reach.
  \<^item> \<open>Framing\<close>, \<open>Session\<close>, \<open>Service\<close>: active mode with one- or two-byte packet lengths, from the
    single packet (\<open>encode\<close>, \<open>complete\<close>) over one call of \<^verbatim>\<open>loop_recv\<close> to a sequence of writes.
  \<^item> \<open>Passive\<close>: passive mode with raw packets.

  \<^bold>\<open>The MD4 digest\<close> is \<open>Md4\<close>: the context, the transformation, the three operations, the driver,
  and the reference definition \<open>md4_reference\<close> written after RFC 1320.  The code's \<^verbatim>\<open>UINT4\<close> is
  \<^verbatim>\<open>unsigned long\<close>, so the model is parametric in its width.

  \<^bold>\<open>The serial driver\<close> connects a port to a serial line.  \<open>Serial_Line\<close> holds the structure \<^verbatim>\<open>sl_t\<close>, the
  table of rates and the functions that read and write one setting in the terminal attributes;
  \<open>Serial_Settings\<close> the contract of a setting, a locale interpreted for all thirteen, and that they do
  not disturb each other; \<open>Serial\<close> updating, opening, closing, reading and writing, with the device as
  a parameter, the record \<open>tty\<close> of the results of its system calls; \<open>Serial_Control\<close> the entry points and
  the control interface; \<open>Serial_Service\<close> the proofs about updates and about the bytes on the line.  The
  flags are those of the GNU C library on Linux (before its version 2.42, which keeps two speeds).

  \<^bold>\<open>The compression driver\<close> stands between a port and libz, which is a parameter, the record \<open>zlib\<close>:
  data written to the port is queued, a request feeds the queue to the library and sends what comes
  out.  \<open>Zlib\<close> holds the state and the loops, \<open>Zlib_Control\<close> the control interface, \<open>Zlib_Pump\<close> the
  common form of the loops of both directions and their proofs, \<open>Zlib_Service\<close> the results and a small
  library to evaluate with.  What is assumed of libz is in \<open>stream_ok\<close>, \<open>deflate_ok\<close> and \<open>inflate_ok\<close>: it
  is about streams that are initialised and, when deflating, not finished, about data that asks for no
  dictionary, and about buffers with room for more than the six bytes a flush may add.

  \<^bold>\<open>The converters.\<close>  \<open>Iconv\<close> is the driver in front of the C library's \<^verbatim>\<open>iconv\<close>, again a parameter, with the
  answer each request of \<^verbatim>\<open>iconv.erl\<close> must get; \<open>Url\<close> the URL encoding driver with a decoder; \<open>Intl\<close> the driver
  in front of \<^verbatim>\<open>gettext\<close>, with the requests of \<^verbatim>\<open>intl.erl\<close>.

  \<^bold>\<open>The drivers that pass file descriptors\<close> are \<open>Fd_Send\<close>, which listens on Unix domain sockets, accepts
  and sends descriptors, with an invariant \<open>fd_inv\<close> that accounts for every descriptor (closed, in the table, or lost, \<open>fd_lost\<close>) and every
  path, and
  \<open>Fd_Receive\<close>, which receives them.  The operating system is the parameter \<open>fd_os\<close>.

  \<^bold>\<open>The driver of tunnel devices\<close> is \<open>Tun\<close>: starting, the three modes of a port, packets in both
  directions; \<open>tun_step\<close> is what the emulator may call, with the system as the parameter \<open>tun_os\<close>.

  \<^bold>\<open>The Spread driver\<close> runs the calls of a group communication library in threads of the emulator.  \<open>Edtk\<close> is
  what the drivers made with the Erlang driver toolkit share: the cursor that reads arguments off an I/O
  vector, and terms; \<open>Edtk_Command\<close> the lists of arguments, the value maps, and the locale \<open>edtk_server\<close>: commands
  are each answered once, at once or, as in this driver, when a thread has run them; \<open>Spread\<close> the descriptor and \<^verbatim>\<open>my-spread.c\<close>; \<open>Spread_Receive\<close> that every message that
  waits is sent; \<open>Spread_Driver\<close> commands, jobs and answers, with \<open>sp_step\<close> for what emulator and threads do;
  \<open>Spread_Service\<close> the commands of \<^verbatim>\<open>spread_drv.erl\<close> and that each is answered once; \<open>Spread_Limits\<close> what goes
  wrong.  The library is the parameter \<open>spread\<close>; \<open>sp_serves\<close> is what is assumed of it.

  \<^bold>\<open>The gd driver\<close> hands out indices for the images, files and fonts of its library and keeps the pointers
  in value maps.  It is made with the same toolkit, but its \<^verbatim>\<open>default_async_calls\<close> is 0, and so is that of the next
  two drivers: a command is run and answered before \<^verbatim>\<open>_outputv\<close> returns, there are no threads.  \<open>Gd\<close> holds its 63 commands
  as tables: arguments, call, answer; \<open>Gd_Driver\<close> the descriptor, \<^verbatim>\<open>my-gd1.c\<close>, reading a command, making its call and
  answering it, with \<open>gd_session\<close> for the commands of a client; \<open>Gd_Service\<close> that every command is answered once;
  \<open>Gd_Safety\<close> which objects are alive, by the log of the calls, and the effect of a call; \<open>Gd_Sessions\<close> the
  invariant \<open>gd_inv\<close> over a session, and stopping; \<open>Gd_Client\<close> the functions of \<^verbatim>\<open>gd1_drv.erl\<close>, with which the rows of the
  tables are compared; \<open>Gd_Requests\<close> which requests cannot make the driver reach outside its memory.  The library is
  the parameter \<open>gd\<close>; \<open>gd_sound\<close> and \<open>gd_true\<close> are what is assumed of it.

  \<^bold>\<open>POSIX calls\<close> are those of \<open>Posix\<close>: eighteen commands, whose results may be memory of the C library that is read
  when the answer is made; \<open>Posix_Service\<close> has the requests of \<^verbatim>\<open>posix_drv.erl\<close>, the terms of the answers, and that each is
  answered once.  \<open>Edtk_Unix\<close> is the toolkit's driver for Unix domain sockets,
  with a value map of descriptors; \<open>Edtk_Unix_Service\<close> the invariant \<open>s1_inv\<close> of its descriptors, by the log of the
  system calls, over a session and stopping.  The systems are the parameters \<open>posix\<close> and \<open>s1_os\<close>.

  \<^bold>\<open>Where a long has eight bytes\<close> the toolkit's macro that reads a number stores eight bytes into a variable of four, and
  overwrites the next.  The theories of the four drivers made with it are for platforms whose \<^verbatim>\<open>long\<close> has four.

  \<^bold>\<open>The screen library\<close>: in \<open>Slang\<close> a command is a row of a table (its arguments, the call, the answer) or one of those
  with code of their own; \<open>Slang_Service\<close> has the fields of requests, sessions of commands and signals, and that
  no command but a request for a key changes what is waited for; \<open>Slang_Client\<close> the functions of \<^verbatim>\<open>slang.erl\<close>, with which
  the table is compared row by row.  The library is the parameter \<open>slg_lib\<close>.

  \<^bold>\<open>The Unix domain socket driver\<close> keeps all its ports in one table, because an accepting port acts on the
  port it accepts from.  \<open>Unixdom\<close> holds the descriptors, the messages, writing and reading; \<open>Unixdom_Control\<close>
  the commands, starting, stopping, accepting and the callbacks, with \<open>ud_step\<close> for what the emulator calls;
  \<open>Unixdom_Table\<close> the invariant \<open>ud_inv\<close> of the table and the faults of each call; \<open>Unixdom_Service\<close> the
  bytes written, the handshake of an accept, and what its timers and receive buffers do.  The operating
  system is the parameter \<open>sockets\<close>; \<open>sockets_ok\<close> is what is assumed of it.

  \<^bold>\<open>What the properties below say.\<close>  The service of an active port (nothing is lost, doubled or
  reordered; everything that fits is delivered), memory safety of the data path, the invariant of
  all reachable states, the refinement of the four-state connection machine and of a bounded
  request queue, answers on closing and on timeouts; round trips of HTTP lines, options and addresses;
  hash lookup as search; buffers; bounds of replies and counters;
  passive mode, including a defect; the digest against its reference, with the test vectors;
  rates, settings, conservation of the bytes
  written and a defect of the serial driver; what deflating and inflating do with the data, the
  states of a stream, and a request that does not end; the answers of the converters; the table of the
  Unix socket driver, what becomes of the bytes written to it, and two of its defects;
  the descriptors of the driver that sends them, the requests to gettext, the
  packets of a tunnel, the commands, messages and answers of the Spread driver, and the commands of the
  gd driver with the lifetime of the images and files it hands out; requests for POSIX calls; descriptors in a
  value map; the calls, keys and signals of the screen library.

  \<^bold>\<open>Fuel.\<close>  The loop of \<^verbatim>\<open>loop_deliver\<close> runs on fuel \<open>Suc (nat (i_ptr s))\<close>: a round delivers at least
  one byte of those between \<^verbatim>\<open>i_ptr_start\<close> and \<^verbatim>\<open>i_ptr\<close>, and \<open>recv_safe\<close> shows that the fuel never
  runs out there (the outcome \<open>Diverges\<close> is a fault it excludes).  \<^verbatim>\<open>async_error_am_all\<close> runs on
  \<open>Suc INET_MAX_ASYNC\<close>, enough for a full ring by \<open>close_answers_all\<close>.  The loops of the compression driver run on fuel that
  is an argument of \<open>zlib_ctl\<close>; \<open>deflate_conserves\<close> and \<open>inflate_conserves\<close> say that from some amount on
  the result is there and does not depend on it, for a library that makes progress, and
  \<open>dictionary_hangs\<close> that no amount is enough in one case.  The loop of \<^verbatim>\<open>unixdom_ready_output\<close> runs on one
  more than the bytes queued, and the search for a free descriptor on the size of the table; \<open>unixdom_table\<close>
  excludes that either runs out.  The loop of \<^verbatim>\<open>my_ready_input\<close> runs on fuel that is an argument; two more than
  the messages that wait are enough by \<open>spread_delivers\<close>.  Every other loop is a total function.

  \<^bold>\<open>Faults.\<close>  An access outside a block, a null pointer, an overflow of an int that the code computes
  from lengths, a failed \<^verbatim>\<open>assert\<close>, and running out of fuel are the values of \<open>fault\<close>; a function that cannot have one
  has no outcome type.  Values of uninitialised variables are taken from the emulator record
  (\<open>junk\<close>), so nothing can be proved about them.

  \<^bold>\<open>Not modelled.\<close>  In \<^verbatim>\<open>loop_drv.c\<close>: the averages of the statistics are values the emulator record
  gives (they are C doubles and only reported), IPv6 (\<^verbatim>\<open>HAVE_IN6\<close> is not defined by the build), the
  Windows address functions, \<^verbatim>\<open>realloc_buffer\<close>, \<^verbatim>\<open>load_ip_port\<close> and \<^verbatim>\<open>load_ip_address\<close>, which nothing
  calls, and debugging output.  In \<^verbatim>\<open>sl_drv.c\<close>: the Windows half.  In \<^verbatim>\<open>zlib_drv.c\<close>:
  \<^verbatim>\<open>zlib_failure\<close>, which nothing calls, and the library's callbacks for memory.  In \<^verbatim>\<open>unixdom_drv.c\<close>: \<^verbatim>\<open>reply_wouldblock\<close>,
  which nothing calls, and \<^verbatim>\<open>unixdom_finish\<close>, which is not compiled.  In \<^verbatim>\<open>intl_drv.c\<close>:
  \<^verbatim>\<open>ret_integer\<close>, which nothing calls.  In \<^verbatim>\<open>fdlib.c\<close>: the two functions of the program \<^verbatim>\<open>fdsrv.c\<close>.
  In \<^verbatim>\<open>spread_drv.c\<close>: the replies that nothing calls, the stubs \<^verbatim>\<open>_output\<close> and \<^verbatim>\<open>_control\<close>, debugging output.
  In \<^verbatim>\<open>posix_drv.c\<close> and the toolkit's \<^verbatim>\<open>unixdom_drv.c\<close>: the
  same.  In \<^verbatim>\<open>gd1_drv.c\<close>: the same.  In \<^verbatim>\<open>slang_drv.c\<close>: what follows a write
  through a pointer without a value.  The other C programs of the repository are glue around GTK, generated code,
  or small port programs.
\<close>

section \<open>The service of an active port\<close>

text \<open>
  A connected port in active mode with two-byte packets, as it is after OPEN, BIND, SETOPTS and
  CONNECT.
\<close>

definition echo_port :: drv where
  "echo_port = started\<lparr>d_state := INET_STATE_CONNECTED, d_active := 1, d_htype := 2,
     d_stype := SOCK_STREAM, d_sfamily := AF_INET\<rparr>"

lemma good_demo: "good demo_emulator"
  by (simp add: good_def replayed.driver_queue_axioms)

lemma echo_port_facts:
  "session echo_port" "IS_CONNECTED echo_port" "i_buf echo_port = None"
  "stream demo_emulator echo_port = []" "packet_type_of (d_htype echo_port) = TCP_PB_2"
  "d_bufsz echo_port = 1024" "calls echo_port = [AllocMem 512]" "d_mode echo_port = 0" "d_hsz echo_port = 0"
  by (simp_all add: echo_port_def started_def loop_drv_start_def inet_start_def loop_drv_init_def blank_def
      session_def active_def counted_def framed_def buf_inv_def stack_ok_def buffered_def Let_def
      packet_type_of_def hdr_len_def IS_CONNECTED_def inet_states stream_def)

text \<open>
  C1.  A connected port in active mode, with one- or two-byte packet lengths and an empty byte
  stream, is written a list of packets one after another through \<^verbatim>\<open>loop_drv_command\<close>.  No write
  faults or fails to return, and afterwards the messages the port has sent are those of a prefix of
  the packets, in order and unaltered, while the bytes still buffered or queued are exactly the
  encoding of the rest: the loop neither loses nor doubles nor reorders a byte, whatever the
  sizes of packets and buffer.
\<close>

theorem service_prefix:
  assumes "good em" "session s" "IS_CONNECTED s" "stream em s = []"
    and "\<forall>p \<in> set ps. fits (packet_type_of (d_htype s)) p"
  shows "run_ok {} (\<lambda>_ s'. \<exists>qs rest. ps = qs @ rest \<and>
           outputs (calls s') = outputs (calls s) @ map (tcp_message (d_mode s) (d_hsz s)) qs \<and>
           stream em s' = concat (map (encode (packet_type_of (d_htype s))) rest))
         (send_all em ps s)"
proof (rule run_ok_mono [OF send_all_counted [OF assms(1-3,5)]])
  fix u s'
  let ?pt = "packet_type_of (d_htype s)"
  assume "session s' \<and> IS_CONNECTED s' \<and> settings s' = settings s \<and>
      (\<exists>qs. (\<forall>q \<in> set qs. fits ?pt q) \<and>
         outputs (calls s') = outputs (calls s) @ map (tcp_message (d_mode s) (d_hsz s)) qs \<and>
         concat (map (encode ?pt) qs) @ stream em s' = stream em s @ concat (map (encode ?pt) ps))"
  then obtain qs where qs: "\<forall>q \<in> set qs. fits ?pt q"
      "outputs (calls s') = outputs (calls s) @ map (tcp_message (d_mode s) (d_hsz s)) qs"
      "concat (map (encode ?pt) qs) @ stream em s' = concat (map (encode ?pt) ps)"
    using assms(4) by auto
  have "counted ?pt" using assms(2) by (simp add: session_def)
  from stream_prefix [OF this qs(1) assms(5) qs(3)] qs(2)
  show "\<exists>qs rest. ps = qs @ rest \<and>
      outputs (calls s') = outputs (calls s) @ map (tcp_message (d_mode s) (d_hsz s)) qs \<and>
      stream em s' = concat (map (encode ?pt) rest)" by blast
qed

theorem service_prefix_witness:
  "run_ok {} (\<lambda>_ s'. \<exists>qs rest. [[1, 2], [], [3]] = qs @ rest \<and>
     outputs (calls s') = map (tcp_message 0 0) qs \<and>
     stream demo_emulator s' = concat (map (encode TCP_PB_2) rest))
   (send_all demo_emulator [[1, 2], [], [3]] echo_port)"
  using service_prefix [OF good_demo echo_port_facts(1,2,4), of "[[1, 2], [], [3]]"]
  by (simp add: echo_port_facts fits_def outputs_def map_filter_simps)

text \<open>
  C2.  If moreover the input buffer is not allocated and every packet fits the configured buffer
  with its header, every packet has been delivered as the message \<open>{tcp, S, Data}\<close> when the
  writes are done, and the port is as empty as before.
\<close>

theorem service_delivers:
  assumes "good em" "session s" "IS_CONNECTED s" "i_buf s = None" "stream em s = []"
    and "\<forall>p \<in> set ps. fits (packet_type_of (d_htype s)) p \<and>
      hdr_len (packet_type_of (d_htype s)) + int (length p) \<le> d_bufsz s"
  shows "run_ok {} (\<lambda>_ s'. map denote (outputs (calls s')) = map denote (outputs (calls s)) @
             map (\<lambda>p. Some (ETuple [EAtom ''tcp'', EPort, data_term (d_mode s) (d_hsz s) p])) ps \<and>
           stream em s' = [] \<and> i_buf s' = None)
         (send_all em ps s)"
  by (rule run_ok_mono [OF send_all_echo [OF assms]]) (simp add: denote_tcp_message)

theorem service_delivers_witness:
  "run_ok {} (\<lambda>_ s'. map denote (outputs (calls s')) =
       [Some (ETuple [EAtom ''tcp'', EPort, EString [1, 2]]),
        Some (ETuple [EAtom ''tcp'', EPort, EString []])] \<and>
     stream demo_emulator s' = [] \<and> i_buf s' = None)
   (send_all demo_emulator [[1, 2], []] echo_port)"
  using service_delivers [OF good_demo echo_port_facts(1-4), of "[[1, 2], []]"]
  by (simp add: echo_port_facts fits_def outputs_def map_filter_simps hdr_len_def data_term_def)

section \<open>Memory safety and termination of the data path\<close>

text \<open>
  C3.  As long as the emulator has memory for every buffer and binary the driver asks it for: whatever
  bytes the driver queue holds and in whatever mode the port is, a call of \<^verbatim>\<open>loop_recv\<close> on a port whose
  buffer is in order returns, reads and writes within its buffers only, dereferences no null pointer and
  leaves the buffer in order, for the raw, one-byte, two-byte, record-marking, line and TPKT packet types
  (and a length only with the raw type).  If it reports no error, the unread bytes start at the front of
  the buffer again.  The only fault left is the overflow of an int by a length near \<^verbatim>\<open>INT_MAX\<close>.  Without
  memory \<^verbatim>\<open>loop_deliver\<close> goes on with a null pointer.
\<close>

theorem recv_safe:
  assumes "\<And>h. em_alloc em h" "recv_inv s" "i_ptr_start s = 0"
    and "safe_type (packet_type_of (d_htype s))" "0 \<le> d_bufsz s"
    and "0 < request_len \<longrightarrow> packet_type_of (d_htype s) = TCP_PB_RAW"
  shows "run_ok {IntOverflow} (\<lambda>r s'. recv_inv s' \<and> d_htype s' = d_htype s \<and>
           (0 \<le> r \<longrightarrow> i_ptr_start s' = 0)) (loop_recv em request_len s)"
  using loop_recv_ok [OF assms] by (simp add: recv_ok_def [abs_def])

theorem recv_safe_witness:
  "run_ok {IntOverflow} (\<lambda>r s'. recv_inv s' \<and> d_htype s' = 2 \<and> (0 \<le> r \<longrightarrow> i_ptr_start s' = 0))
     (loop_recv demo_emulator 0 echo_port)"
  using recv_safe [of demo_emulator echo_port 0]
  by (simp add: echo_port_def started_def loop_drv_start_def inet_start_def loop_drv_init_def blank_def
      recv_inv_def buf_inv_def stack_ok_def safe_type_def plain_type_def packet_type_of_def)

section \<open>The protocol of a port\<close>

text \<open>
  C4.  In every state a port can get into from its start, through any sequence of control calls,
  writes and timeouts and whatever the emulator answers, the connection state is one of closed,
  open, bound and connected, the ring of requests is in order, the buffer size is at least one, the
  list header size is an unsigned 32-bit number, and an address that can be asked for was set.
\<close>

theorem reachable_port_inv:
  assumes "reachable em s"
  shows "port_inv s"
  using assms by (rule reachable_inv)

lemma started_reachable: "reachable demo_emulator started"
  by (rule reachable.start [of "loop_drv_init blank" _ 512])
    (simp_all add: started_def loop_drv_init_def blank_def loop_drv_start_def inet_start_def Let_def)

theorem reachable_port_inv_witness: "port_inv started"
  by (rule reachable_port_inv [OF started_reachable])

text \<open>
  C5.  The four requests that move the connection state refine the abstract machine
  \<open>accepted\<close>/\<open>next_phase\<close>: OPEN (1) takes a closed port to open, BIND (6) an open one to bound,
  CONNECT (3) a bound one to connected, CLOSE (2) any port to closed.  A request answered with
  \<^verbatim>\<open>INET_REP_OK\<close> was accepted and has made its move, one answered with an error has moved nothing,
  and with memory available each of them returns an answer: none faults.
\<close>

theorem protocol_refines:
  assumes "reachable em s" "\<And>h. em_alloc em h" "cmd \<in> {1, 2, 3, 6}"
  shows "run_ok {} (\<lambda>r s'.
           phase_of s' = (if replied_ok r then next_phase cmd (phase_of s) else phase_of s) \<and>
           (replied_ok r \<longrightarrow> accepted cmd (phase_of s)))
         (loop_drv_ctl em cmd buf rsize s)"
proof -
  have inv: "port_inv s" using assms(1) by (rule reachable_inv)
  have "run_ok {} (\<lambda>_ _. True) (loop_drv_ctl em cmd buf rsize s)"
    using protocol_returns [OF inv assms(2,3)] .
  then show ?thesis
    using ctl_phase [OF inv, of cmd em buf rsize]
    by (auto simp: run_ok_def phase_ok_def split: sum.splits)
qed

theorem protocol_refines_witness:
  "run_ok {} (\<lambda>r s'. phase_of s' = (if replied_ok r then Open else phase_of started) \<and>
     (replied_ok r \<longrightarrow> phase_of started = Closed)) (loop_drv_ctl demo_emulator 1 [1] 64 started)"
  using protocol_refines [OF started_reachable, of 1 "[1]" 64]
  by (simp add: next_phase_def accepted_def cong: if_cong)

text \<open>
  C6.  No other request of the control interface, no write and no timeout changes the connection
  state.
\<close>

theorem other_steps_keep_state:
  assumes "reachable em s" "port_step em s q s'"
    and "\<And>cmd buf rsize. q = Control cmd buf rsize \<Longrightarrow> cmd \<notin> {1, 2, 3, 6}"
  shows "d_state s' = d_state s"
proof -
  have "legal s" using reachable_inv [OF assms(1)] by (simp add: port_inv_def)
  then have st: "d_state s = d_state s \<and> \<not> IS_BUSY s" using legal_flags(1) by simp
  from assms(2) show ?thesis
  proof (cases rule: port_step.cases)
    case (control cmd buf rsize r)
    then have "cmd \<notin> {1, 2, 3, 6}" using assms(3) by blast
    from keepsD [OF phase.keeps_ctl_other [OF st this] control(2)] show ?thesis by simp
  next
    case command
    from keepsD [OF phase.keeps_command(1) [OF st] command(2)] show ?thesis by simp
  next
    case commandv
    from keepsD [OF phase.keeps_command(2) [OF st] commandv(2)] show ?thesis by simp
  next
    case timeout
    then show ?thesis using phase.P_timeout [OF st, of em] by simp
  qed
qed

theorem other_steps_keep_state_witness:
  "d_state (loop_drv_timeout demo_emulator started) = d_state started"
  using other_steps_keep_state [OF started_reachable port_step.timeout] by simp

text \<open>
  C7.  A port just started can be brought up: OPEN, BIND to any address and CONNECT to any address
  (a port number and four octets each) are all answered with \<^verbatim>\<open>INET_REP_OK\<close> and leave a connected
  port without a pending request, the connecting process having been sent
  \<open>{inet_async, S, Ref, ok}\<close> with the reference the reply names.
\<close>

theorem bring_up:
  assumes "loop_drv_start em sz s0 = Some s" "length (d_op_queue s0) = INET_MAX_ASYNC"
    and "\<And>h. em_alloc em h" "length local = 6" "length remote = 6" "length timeout = 4"
  shows "run_ok {} (\<lambda>rs s'. (\<forall>r \<in> set rs. replied_ok r) \<and> IS_CONNECTED s' \<and> pending s' = [] \<and>
           (\<exists>ref to h. calls s' = SendTerm to [TAtom ''inet_async'', TPort, TInt ref, TAtom ''ok'', TTuple 4] # h \<and>
             snd (last rs) = INET_REP_OK # put_int16 ref))
         (controls em [(1, [1]), (6, local), (3, timeout @ remote)] 64 s)"
proof -
  obtain x where x: "d_op_queue s0 = [x]"
    using assms(2) by (auto simp: length_Suc_conv)
  have s: "d_state s = INET_STATE_CLOSED" "d_op_queue s = [x]" "d_oph s = None" "d_opt s = None"
    using assms(1,3) x by (auto simp: loop_drv_start_def inet_start_def Let_def)
  let ?opened = "s\<lparr>d_state := INET_STATE_OPEN, d_stype := SOCK_STREAM, d_sfamily := AF_INET\<rparr>"
  have opn: "loop_drv_ctl em 1 [1] 64 s = Inr ((1, [INET_REP_OK]), ?opened)"
    by (simp add: loop_drv_ctl_def inet_ctl_open_def ctl_reply_def s)
  have bnd: "\<exists>port. loop_drv_ctl em 6 local 64 ?opened =
      Inr ((3, INET_REP_OK # put_int16 port), ?opened\<lparr>d_state := INET_STATE_BOUND\<rparr>)"
    using assms(4) by (simp add: loop_drv_ctl_def inet_ctl_def ctl_bind_def inet_set_address_def
        ctl_reply_def) blast
  then obtain port where bnd: "loop_drv_ctl em 6 local 64 ?opened =
      Inr ((3, INET_REP_OK # put_int16 port), ?opened\<lparr>d_state := INET_STATE_BOUND\<rparr>)" ..
  show ?thesis
    using assms(5,6) s
    by (simp add: opn bnd) (simp add: loop_drv_ctl_def ctl_connect_def inet_states IS_OPEN_def IS_BOUND_def
        IS_CONNECTED_def inet_set_address_def enq_async_def new_async_id_def async_ok_def deq_async_def
        send_async_ok_def driver_call_def Let_def ctl_reply_def replied_ok_def pending_def)
qed

theorem bring_up_witness:
  "run_ok {} (\<lambda>rs s'. (\<forall>r \<in> set rs. replied_ok r) \<and> IS_CONNECTED s' \<and> pending s' = [] \<and>
     (\<exists>ref to h. calls s' = SendTerm to [TAtom ''inet_async'', TPort, TInt ref, TAtom ''ok'', TTuple 4] # h \<and>
       snd (last rs) = INET_REP_OK # put_int16 ref))
   (controls demo_emulator
      [(1, [1]), (6, [0, 0, 127, 0, 0, 1]), (3, [0, 0, 0, 0] @ [0, 80, 127, 0, 0, 1])] 64 started)"
  by (rule bring_up [of demo_emulator 512 "loop_drv_init blank"])
    (simp_all add: started_def loop_drv_start_def inet_start_def loop_drv_init_def blank_def Let_def)

text \<open>
  C8.  CLOSE on a connected port answers every request that waits, oldest first, with
  \<open>{inet_async, S, Ref, {error, closed}}\<close> to the process that made it, and nothing else is sent;
  afterwards no request waits, nobody is subscribed and the port is closed.
\<close>

theorem close_answers_all:
  assumes "async_wf s" "d_state s = INET_STATE_CONNECTED" "1 \<le> rsize"
  shows "\<exists>s'. loop_drv_ctl em 2 buf rsize s = Inr ((1, [INET_REP_OK]), s') \<and> pending s' = [] \<and>
     d_subs s' = [] \<and> d_state s' = INET_STATE_CLOSED \<and>
     sends (calls s') = sends (calls s) @ map (\<lambda>opp. (op_caller opp,
       [TAtom ''inet_async'', TPort, TInt (op_id opp), TAtom ''error'', TAtom ''closed'', TTuple 2,
        TTuple 4])) (pending s)"
proof -
  obtain s1 where s1: "loop_close_check em s = Inr (0, s1)" "pending s1 = []"
    "calls s1 = rev (map (\<lambda>opp. SendTerm (op_caller opp)
       [TAtom ''inet_async'', TPort, TInt (op_id opp), TAtom ''error'', TAtom ''closed'', TTuple 2,
        TTuple 4]) (pending s)) @ calls s"
    using close_check_replies [OF assms(1,2)] by blast
  show ?thesis
    using assms(3) s1
    by (simp add: loop_drv_ctl_def ctl_reply_def erl_inet_close_def free_subscribers_def pending_def
        sends_replies sends_frees)
qed

theorem close_answers_all_witness:
  "\<exists>s'. loop_drv_ctl demo_emulator 2 [] 64 (echo_port\<lparr>d_oph := Some 0, d_opt := Some 0,
       d_op_queue := [\<lparr>op_id = 5, op_caller = 9, op_req = 32\<rparr>]\<rparr>) = Inr ((1, [INET_REP_OK]), s') \<and>
     sends (calls s') = [(9, [TAtom ''inet_async'', TPort, TInt 5, TAtom ''error'', TAtom ''closed'',
       TTuple 2, TTuple 4])]"
  using close_answers_all [of "echo_port\<lparr>d_oph := Some 0, d_opt := Some 0,
       d_op_queue := [\<lparr>op_id = 5, op_caller = 9, op_req = 32\<rparr>]\<rparr>" 64 demo_emulator "[]"]
  by (auto simp: async_wf_def pending_def echo_port_def started_def loop_drv_start_def inet_start_def
      loop_drv_init_def blank_def Let_def)

text \<open>
  C9.  The ring of requests with its two pointers is a bounded queue: enqueueing puts the request
  with a fresh reference behind those that wait, or refuses and leaves the queue as it is when
  \<^verbatim>\<open>INET_MAX_ASYNC\<close> of them wait; dequeueing takes the oldest, or nothing from an empty queue.
\<close>

theorem request_ring_refines:
  assumes "async_wf s"
  shows "(case enq_async em tbuf req s of (r, ref, s') \<Rightarrow> async_wf s' \<and>
           (if length (pending s) < INET_MAX_ASYNC
            then r = 0 \<and> ref = put_int16 (op_id (next_op em req s)) \<and>
                 pending s' = pending s @ [next_op em req s]
            else r = - 1 \<and> ref = tbuf \<and> pending s' = pending s)) \<and>
         (case deq_async s of (r, s') \<Rightarrow> async_wf s' \<and>
           (case pending s of [] \<Rightarrow> r = None \<and> s' = s | x # xs \<Rightarrow> r = Some x \<and> pending s' = xs))"
proof
  have le: "length (pending s) \<le> INET_MAX_ASYNC"
    using assms by (cases rule: async_wf_cases) simp_all
  then show "case enq_async em tbuf req s of (r, ref, s') \<Rightarrow> async_wf s' \<and>
           (if length (pending s) < INET_MAX_ASYNC
            then r = 0 \<and> ref = put_int16 (op_id (next_op em req s)) \<and>
                 pending s' = pending s @ [next_op em req s]
            else r = - 1 \<and> ref = tbuf \<and> pending s' = pending s)"
    using enq_async_full [OF assms, of em tbuf req] enq_async_free [OF assms, of em tbuf req] assms
    by (cases "length (pending s) < INET_MAX_ASYNC") auto
  show "case deq_async s of (r, s') \<Rightarrow> async_wf s' \<and>
           (case pending s of [] \<Rightarrow> r = None \<and> s' = s | x # xs \<Rightarrow> r = Some x \<and> pending s' = xs)"
    using deq_async_spec [OF assms] assms by (auto split: list.splits)
qed

theorem request_ring_refines_witness:
  "case enq_async demo_emulator [] 32 started of (r, ref, s') \<Rightarrow>
     r = 0 \<and> pending s' = [next_op demo_emulator 32 started]"
  using request_ring_refines [of started, where em = demo_emulator and tbuf = "[]" and req = 32]
  by (simp add: async_wf_def pending_def started_def loop_drv_start_def inet_start_def
      loop_drv_init_def blank_def Let_def split: prod.splits)

text \<open>
  C10.  When the timer of a RECV runs out on a connected port, the oldest request that waits is
  answered with \<open>{inet_async, S, Ref, {error, timeout}}\<close>, exactly once, and the number of bytes it
  asked for is forgotten; the bytes already buffered are kept.
\<close>

theorem recv_timeout:
  assumes "IS_CONNECTED s" "l_busy_on_send s = 0" "async_wf s" "pending s = opp # rest"
  shows "let s' = loop_drv_timeout em s in
     sends (calls s') = sends (calls s) @ [(op_caller opp, [TAtom ''inet_async'', TPort,
       TInt (op_id opp), TAtom ''error'', TAtom ''timeout'', TTuple 2, TTuple 4])] \<and>
     pending s' = rest \<and> i_remain s' = 0 \<and> buffered s' = buffered s"
proof -
  let ?s = "s\<lparr>i_remain := 0\<rparr>"
  have "async_wf ?s" "pending ?s = opp # rest"
    using assms(3,4) by (simp_all add: async_wf_def pending_def)
  then obtain s1 i j where "deq_async ?s = (Some opp, s1)" "pending s1 = rest"
      "s1 = ?s\<lparr>d_opt := j, d_oph := i\<rparr>"
    using deq_async_spec [of ?s] by auto
  then show ?thesis
    using assms(1,2)
    by (simp add: loop_drv_timeout_def async_error_am_def send_async_error_def driver_call_def
        buffered_def Let_def split: option.split)
qed

theorem recv_timeout_witness:
  "sends (calls (loop_drv_timeout demo_emulator (echo_port\<lparr>d_oph := Some 0, d_opt := Some 0,
       d_op_queue := [\<lparr>op_id = 5, op_caller = 9, op_req = 32\<rparr>]\<rparr>))) =
   [(9, [TAtom ''inet_async'', TPort, TInt 5, TAtom ''error'', TAtom ''timeout'', TTuple 2, TTuple 4])]"
  using recv_timeout [of "echo_port\<lparr>d_oph := Some 0, d_opt := Some 0,
       d_op_queue := [\<lparr>op_id = 5, op_caller = 9, op_req = 32\<rparr>]\<rparr>" "\<lparr>op_id = 5, op_caller = 9, op_req = 32\<rparr>" "[]"
       demo_emulator]
  by (simp add: async_wf_def pending_def echo_port_def started_def loop_drv_start_def inet_start_def
      loop_drv_init_def blank_def Let_def IS_CONNECTED_def inet_states)

section \<open>HTTP\<close>

text \<open>
  C11.  The lines of HTTP are parsed back into what they were made of.  A request line made of a
  method, a URI without blanks and a version, separated by single blanks, gives exactly these three,
  with the method looked up in the table of known methods; a status line gives its version, its
  status code and its reason phrase, for numbers that fit an int; and a header line whose name is any
  spelling in upper and lower case of a name in the table gives that name in its canonical spelling
  with its index, and the rest of the line behind the colon without leading blanks.
\<close>

theorem http_lines_round_trip:
  assumes "int major \<le> 2147483647" "int minor \<le> 2147483647"
  shows "(meth \<noteq> [] \<and> (\<forall>c \<in> set meth. \<not> is_tspecial c) \<and> uri \<noteq> [] \<and> (\<forall>c \<in> set uri. \<not> SP c) \<longrightarrow>
       http_start_line (meth @ 32 # uri @ 32 # bytes_of ''HTTP/'' @ version_bytes major minor) =
         Inr (HttpRequest (http_hash_lookup HTTP_METH_HASH_SIZE meth (hash_of meth) http_meth_hash)
                meth uri (int major) (int minor))) \<and>
     (int status \<le> 2147483647 \<and> \<not> starts_with SP phrase \<longrightarrow>
       http_start_line (bytes_of ''HTTP/'' @ version_bytes major minor @ 32 # num_bytes status @ 32 # phrase) =
         Inr (HttpResponse (int major) (int minor) (int status) phrase)) \<and>
     (k < length http_hdr_strings \<and> map tolower n = map tolower (bytes_of (http_hdr_strings ! k)) \<and>
      (\<forall>c \<in> set sp. SP c) \<and> \<not> starts_with SP v \<longrightarrow>
       http_header_line (n @ 58 # sp @ v) past =
         Inr (HttpHeader (Some (entry (http_hdr_strings ! k) k)) (bytes_of (http_hdr_strings ! k)) v,
              bytes_of (http_hdr_strings ! k)))"
  using http_request_line_bytes [OF assms] http_status_line_bytes [OF assms] http_header_line_bytes by blast

theorem http_lines_round_trip_witness:
  "http_start_line (bytes_of ''GET'' @ 32 # bytes_of ''/index'' @ 32 # bytes_of ''HTTP/'' @ version_bytes 1 1) =
     Inr (HttpRequest (Some (entry ''GET'' 1)) (bytes_of ''GET'') (bytes_of ''/index'') 1 1) \<and>
   http_start_line (bytes_of ''HTTP/'' @ version_bytes 1 1 @ 32 # num_bytes 404 @ 32 # bytes_of ''Not Found'') =
     Inr (HttpResponse 1 1 404 (bytes_of ''Not Found'')) \<and>
   http_header_line (bytes_of ''hOST'' @ 58 # [32, 9] @ bytes_of ''erlang.org'') [] =
     Inr (HttpHeader (Some (entry ''Host'' 13)) (bytes_of ''Host'') (bytes_of ''erlang.org''), bytes_of ''Host'')"
  using http_lines_round_trip [of 1 1 "bytes_of ''GET''" "bytes_of ''/index''" 404 "bytes_of ''Not Found''" 13
      "bytes_of ''hOST''" "[32, 9]" "bytes_of ''erlang.org''" "[]"] meth_lookup_known [of 1]
  by (simp add: is_tspecial_def tspecial_def SP_def http_meth_strings_def http_hdr_strings_def tolower_def isupper_def)

text \<open>
  Lookup in the two hash tables is search in the lists of names they were filled from: an
  entry is found exactly for a name of the list, it is the entry of that name with its position,
  and no collision of hash values or buckets can hide or invent one.
\<close>

theorem hash_lookup_is_search:
  "(http_hash_lookup HTTP_HDR_HASH_SIZE name (hash_of name) http_hdr_hash = Some a \<longleftrightarrow>
      (\<exists>k < length http_hdr_strings. name = bytes_of (http_hdr_strings ! k) \<and> a = entry (http_hdr_strings ! k) k)) \<and>
   (http_hash_lookup HTTP_METH_HASH_SIZE name (hash_of name) http_meth_hash = Some b \<longleftrightarrow>
      (\<exists>k < length http_meth_strings. name = bytes_of (http_meth_strings ! k) \<and> b = entry (http_meth_strings ! k) k))"
proof
  have unique: "xs ! i = xs ! j \<Longrightarrow> i < length xs \<Longrightarrow> j < length xs \<Longrightarrow> distinct xs \<Longrightarrow> i = j"
    for xs :: "string list" and i j by (simp add: nth_eq_iff_index_eq)
  show "http_hash_lookup HTTP_HDR_HASH_SIZE name (hash_of name) http_hdr_hash = Some a \<longleftrightarrow>
      (\<exists>k < length http_hdr_strings. name = bytes_of (http_hdr_strings ! k) \<and> a = entry (http_hdr_strings ! k) k)"
    using hdr_lookup_known hdr_lookup_unknown [of name]
    by (cases "name \<in> bytes_of ` set http_hdr_strings")
      (auto simp: in_set_conv_nth, metis option.sel unique distinct_http_strings(1))
  show "http_hash_lookup HTTP_METH_HASH_SIZE name (hash_of name) http_meth_hash = Some b \<longleftrightarrow>
      (\<exists>k < length http_meth_strings. name = bytes_of (http_meth_strings ! k) \<and> b = entry (http_meth_strings ! k) k)"
    using meth_lookup_known meth_lookup_unknown [of name]
    by (cases "name \<in> bytes_of ` set http_meth_strings")
      (auto simp: in_set_conv_nth, metis option.sel unique distinct_http_strings(2))
qed

text \<open>
  A parsed line of HTTP (a status line, a request line, a header, the end of the headers) is
  turned into exactly one message, whose items fit the array \<^verbatim>\<open>spec\<close> of its message function and
  denote one term.  In active mode this is the tuple of the tag, the port and the fields of the line,
  sent to the port's owner; in passive mode it answers the oldest request that waits, which is taken off
  the queue: its process is sent \<open>{inet_async, S, Ref, {ok, Line}}\<close>.  Only a port number in the URI that
  overflows an int stops it.
\<close>

theorem http_event_reported:
  assumes "answers_event ev" "\<not> uri_faults ev"
  shows "(d_active s \<noteq> INET_PASSIVE \<longrightarrow>
       run_ok {} (\<lambda>_ s'. \<exists>spec u. calls s' = OutputTerm spec # calls s \<and>
           one_term (event_array ev) (ETuple (EAtom (event_tag ev) # EPort # event_fields u ev)) spec)
         (http_event_message em ev s)) \<and>
     (d_active s = INET_PASSIVE \<and> async_wf s \<and> pending s = opp # rest \<longrightarrow>
       run_ok {} (\<lambda>_ s'. pending s' = rest \<and> (\<exists>spec u. calls s' = SendTerm (op_caller opp) spec # calls s \<and>
           one_term (event_array ev) (ETuple [EAtom ''inet_async'', EPort, EInt (op_id opp),
             ETuple [EAtom ''ok'', if ev = HttpEoh then EAtom (event_tag ev)
                                   else ETuple (EAtom (event_tag ev) # event_fields u ev)]]) spec))
         (http_event_message em ev s))"
  using http_event_active [OF _ assms] http_event_passive [OF _ assms] by blast

theorem http_event_reported_witness:
  "run_ok {} (\<lambda>_ s'. pending s' = [] \<and> (\<exists>spec u. calls s' = SendTerm 9 spec # calls started \<and>
     one_term 14 (ETuple [EAtom ''inet_async'', EPort, EInt 5, ETuple [EAtom ''ok'', EAtom ''http_eoh'']]) spec))
   (http_event_message demo_emulator HttpEoh (started\<lparr>d_oph := Some 0, d_opt := Some 0,
       d_op_queue := [\<lparr>op_id = 5, op_caller = 9, op_req = 32\<rparr>]\<rparr>))"
  using http_event_reported [of HttpEoh "started\<lparr>d_oph := Some 0, d_opt := Some 0,
       d_op_queue := [\<lparr>op_id = 5, op_caller = 9, op_req = 32\<rparr>]\<rparr>" demo_emulator
       "\<lparr>op_id = 5, op_caller = 9, op_req = 32\<rparr>" "[]"]
  by (simp add: answers_event_def async_wf_def pending_def started_def loop_drv_start_def inet_start_def
      loop_drv_init_def blank_def Let_def)

section \<open>Buffers\<close>

text \<open>
  UNRECV puts its bytes back in front of what is buffered: \<^verbatim>\<open>loop_push_buffer\<close> neither loses nor
  overwrites a buffered byte, whether there is room before \<^verbatim>\<open>i_ptr_start\<close> or a new buffer is needed,
  and stays within the buffers.
\<close>

theorem push_prepends:
  assumes "buf_inv s" "\<And>h. em_alloc em h"
  shows "run_ok {} (\<lambda>r s'. r = 0 \<and> buf_inv s' \<and> buffered s' = buf @ buffered s)
           (loop_push_buffer em buf s)"
  by (rule run_ok_mono [OF loop_push_buffer_ok [OF assms]]) simp

definition half_full :: drv where
  "half_full = started\<lparr>i_buf := Some \<lparr>orig_bytes = [9, 1, 2, 0], refc = 1\<rparr>, i_ptr_start := 1, i_ptr := 3,
     i_bufsz := 4\<rparr>"

lemma half_full_inv: "buf_inv half_full"
  by (simp add: half_full_def started_def loop_drv_start_def inet_start_def loop_drv_init_def blank_def
      Let_def buf_inv_def stack_ok_def)

lemma half_full_buffered: "buffered half_full = [1, 2]"
  by (simp add: half_full_def buffered_def bytes_at_def)

theorem push_prepends_witness:
  "run_ok {} (\<lambda>r s'. r = 0 \<and> buf_inv s' \<and> buffered s' = [7, 8, 1, 2]) (loop_push_buffer demo_emulator [7, 8] half_full)"
  using push_prepends [OF half_full_inv, of demo_emulator "[7, 8]"] by (simp add: half_full_buffered)

text \<open>
  \<^verbatim>\<open>loop_restart_input\<close> moves the unread bytes to the front of the buffer and
  \<^verbatim>\<open>loop_expand_buffer\<close> makes room for a packet of \<open>len\<close> bytes behind the packet start; both keep
  the unread bytes and the invariant of the buffer pointers, and only the size computation of the
  expansion can overflow.
\<close>

theorem buffer_moves_keep_bytes:
  assumes "buf_inv s" "i_buf s \<noteq> None"
  shows "run_ok {} (\<lambda>_ s'. buf_inv s' \<and> i_ptr_start s' = 0 \<and> buffered s' = buffered s) (loop_restart_input s) \<and>
     run_ok {IntOverflow} (\<lambda>r s'. buf_inv s' \<and> buffered s' = buffered s \<and>
         (r = 0 \<and> i_ptr_start s + len \<le> i_bufsz s' \<or> r = - 1 \<and> (\<exists>h. \<not> em_alloc em h)))
       (loop_expand_buffer em len s)"
  by (rule conjI; rule run_ok_mono [OF loop_restart_input_ok [OF assms]]
        run_ok_mono [OF loop_expand_buffer_ok [OF assms]]; simp)

theorem buffer_moves_keep_bytes_witness:
  "run_ok {} (\<lambda>_ s'. buf_inv s' \<and> i_ptr_start s' = 0 \<and> buffered s' = [1, 2]) (loop_restart_input half_full)"
  using buffer_moves_keep_bytes [OF half_full_inv, where em = demo_emulator and len = 3]
  by (simp add: half_full_buffered) (simp add: half_full_def)

text \<open>
  The stack of free buffers never holds more than \<^verbatim>\<open>BUFFER_STACK_SIZE\<close> buffers, none larger
  than \<^verbatim>\<open>INET_MAX_BUFFER\<close>, and none the emulator still refers to: \<^verbatim>\<open>alloc_buffer\<close>, \<^verbatim>\<open>free_buffer\<close> and
  \<^verbatim>\<open>loop_clear_input\<close> keep that, so a buffer taken from the stack can be overwritten without
  changing a message already sent; and a buffer handed out has at least the size asked for.
\<close>

theorem buffer_stack_bounds:
  assumes "stack_ok s" "0 \<le> minsz"
  shows "(case alloc_buffer em minsz s of (p, s') \<Rightarrow> stack_ok s' \<and>
            (case p of None \<Rightarrow> \<exists>h. \<not> em_alloc em h | Some b \<Rightarrow> minsz \<le> orig_size b \<and> refc b = 1)) \<and>
         stack_ok (free_buffer p s) \<and> stack_ok (loop_clear_input s)"
proof -
  have keep: "stack_ok (free_buffer p s)" "stack_ok (loop_clear_input s)"
    using loop_clear_input_ok(1) [OF assms(1)] free_buffer_stack_ok [OF assms(1)]
    by (simp_all add: buf_inv_def)
  from assms show ?thesis
    by (cases rule: alloc_buffer_cases [where em = em]) (use keep in auto)
qed

theorem buffer_stack_bounds_witness:
  "(case alloc_buffer demo_emulator 10 started of (p, s') \<Rightarrow> stack_ok s' \<and>
      (case p of None \<Rightarrow> False | Some b \<Rightarrow> 10 \<le> orig_size b \<and> refc b = 1))"
  using buffer_stack_bounds [of started 10 demo_emulator None]
  by (simp add: stack_ok_def started_def loop_drv_start_def inet_start_def loop_drv_init_def blank_def Let_def
      split: prod.splits option.splits)

section \<open>Options, addresses and reports\<close>

text \<open>
  C12.  Nine options of a stream port that are set by SETOPTS are read back by GETOPTS: the list header
  size, the mode, the delivery, the packet type, the active mode, the exit flag and the send timeout
  come back with any 32-bit value, the buffer size and the high watermark clipped to their range.
  Nothing is said of the low watermark, for which SETOPTS writes the high one, nor of the options a
  socket would have.
\<close>

theorem option_round_trip:
  assumes "- (2 ^ 31) \<le> i" "i < 2 ^ 31" "opc \<in> {20, 21, 22, 23, 24, 25, 26, 27, 30}"
    and "d_stype s = SOCK_STREAM"
  shows "case inet_set_opts (opc # put_int32 i) s of (code, s') \<Rightarrow> 0 \<le> code \<and>
     inet_fill_opts em [opc] s' = Some (INET_REP_OK # opc # put_int32 (stored_option opc i))"
proof -
  have "opc \<noteq> 3" using assms(3) by auto
  then show ?thesis
    using set_one_opt [OF assms(1,2), of opc s] set_opt_read [OF assms(3,4), of i em]
    by (auto simp: inet_set_opts_def Let_def split: if_splits)
qed

theorem option_round_trip_witness:
  "case inet_set_opts (20 # put_int32 70000) (started\<lparr>d_stype := SOCK_STREAM\<rparr>) of (code, s') \<Rightarrow> 0 \<le> code \<and>
     inet_fill_opts demo_emulator [20] s' = Some (1 # 20 # put_int32 65536)"
  using option_round_trip [of 70000 20 "started\<lparr>d_stype := SOCK_STREAM\<rparr>" demo_emulator]
  by (simp add: stored_option_def clip_def split: prod.splits)

text \<open>
  The peer address that SETPEER is given (a port number and four octets in network byte order)
  is the one PEER reports, behind the address family.
\<close>

theorem peer_round_trip:
  assumes "d_sfamily s = AF_INET" "IS_CONNECTED s" "length buf = 6" "8 \<le> rsize"
  shows "andthen (loop_drv_ctl em 20 buf rsize s) (\<lambda>r s. loop_drv_ctl em 4 [] rsize s) =
     Inr ((8, INET_REP_OK # 1 # buf),
          s\<lparr>d_peer_addr := the (inet_set_address AF_INET buf), d_peer_ptr := True\<rparr>)"
proof -
  obtain a where a: "inet_set_address AF_INET buf = Some a"
    using assms(3) by (auto simp: inet_set_address_def)
  have "d_state s AND INET_F_ACTIVE \<noteq> 0"
    using assms(2) connected_active by simp
  then show ?thesis
    using assms a address_round_trip [OF a]
    by (simp add: loop_drv_ctl_def inet_ctl_def ctl_setpeer_def ctl_peer_def ctl_reply_def)
qed

theorem peer_round_trip_witness:
  "\<exists>s'. andthen (loop_drv_ctl demo_emulator 20 [31, 144, 10, 0, 0, 1] 64 echo_port)
           (\<lambda>r s. loop_drv_ctl demo_emulator 4 [] 64 s) = Inr ((8, [1, 1, 31, 144, 10, 0, 0, 1]), s')"
  using peer_round_trip [of echo_port "[31, 144, 10, 0, 0, 1]" 64 demo_emulator] echo_port_facts(2)
  by (simp add: echo_port_def)

text \<open>
  C13.  The reports fit their reply areas: GETSTAT, GETOPTS and SUBSCRIBE compute the size of the
  reply in advance, and whatever codes they are asked for and whatever area the caller offers, what
  they write stays within the area used; the only fault possible is the overflow of the size.
\<close>

theorem reports_fit:
  assumes "\<And>h. em_alloc em h"
  shows "run_ok {IntOverflow} (\<lambda>_ _. True) (ctl_getstat em buf rsize s) \<and>
     run_ok {IntOverflow} (\<lambda>_ _. True) (ctl_getopts em buf rsize s) \<and>
     run_ok {IntOverflow} (\<lambda>_ _. True) (ctl_subscribe em buf rsize s)"
  using getstat_fits getopts_fits [OF assms] subscribe_fits by blast

theorem reports_fit_witness:
  "run_ok {IntOverflow} (\<lambda>_ _. True) (ctl_getstat demo_emulator [1, 9] 4 started) \<and>
   run_ok {IntOverflow} (\<lambda>_ _. True) (ctl_getopts demo_emulator [20] 4 started) \<and>
   run_ok {IntOverflow} (\<lambda>_ _. True) (ctl_subscribe demo_emulator [1] 4 started)"
  using reports_fit [of demo_emulator _ 4 started] by simp

text \<open>
  The counters of octets are exact: a write of \<open>len\<close> bytes adds \<open>len\<close> to the number the two
  64-bit words stand for, with the carry, as long as it stays below \<open>2 ^ 128\<close>; likewise for bytes
  received, and every one of them counts one packet.
\<close>

theorem octets_counted:
  assumes "0 \<le> len" "len < 2 ^ 64" "octets (d_send_oct1 s) (d_send_oct0 s) + len < 2 ^ 128"
    "octets (d_recv_oct1 s) (d_recv_oct0 s) + len < 2 ^ 128"
  shows "octets (d_send_oct1 (inet_output_count em len s)) (d_send_oct0 (inet_output_count em len s)) =
           octets (d_send_oct1 s) (d_send_oct0 s) + len \<and>
         octets (d_recv_oct1 (inet_input_count em len s)) (d_recv_oct0 (inet_input_count em len s)) =
           octets (d_recv_oct1 s) (d_recv_oct0 s) + len"
  using octets_add [OF assms(1,2,3)] octets_add [OF assms(1,2,4)]
  by (simp add: inet_output_count_def inet_input_count_def Let_def)

theorem octets_counted_witness:
  "octets (d_send_oct1 (inet_output_count demo_emulator 5 (started\<lparr>d_send_oct0 := - 2\<rparr>)))
          (d_send_oct0 (inet_output_count demo_emulator 5 (started\<lparr>d_send_oct0 := - 2\<rparr>))) = 2 ^ 64 + 3"
  using octets_counted [of 5 "started\<lparr>d_send_oct0 := - 2\<rparr>" demo_emulator]
  by (simp add: octets_def started_def loop_drv_start_def inet_start_def loop_drv_init_def blank_def Let_def)

text \<open>
  When the output queue is cleared, every process that subscribed to the empty queue is sent
  \<open>{empty_out_q, S}\<close> once, in the order of the list, nobody else is sent anything, and nobody
  remains subscribed.
\<close>

theorem subscribers_told_once:
  "let s' = loop_clear_output em s in
     sends (calls s') = sends (calls s) @ map (\<lambda>p. (p, [TAtom ''empty_out_q'', TPort, TTuple 2])) (d_subs s) \<and>
     d_subs s' = []"
  using send_to_subscribers_sends [of em True "[TAtom ''empty_out_q'', TPort, TTuple 2]"
      "log_call (Deq (driver_sizeq em s)) s"]
  by (auto simp: loop_clear_output_def send_empty_out_q_msgs_def Let_def)

section \<open>Passive mode\<close>

text \<open>
  C14.  RECV of \<open>n\<close> bytes, \<open>0 < n <= 16 MB\<close>, on a connected passive port with the raw packet type
  whose queue holds at least \<open>n\<close> bytes and which has nothing buffered: the process is sent
  \<open>{inet_async, S, Ref, {ok, Data}}\<close> with the reference of the reply and exactly the first \<open>n\<close> bytes
  of the queue, nothing else is sent, the rest of the queue stays, and no request is left waiting.
\<close>

theorem recv_exact:
  assumes "good em" "IS_CONNECTED s" "async_wf s" "raw_passive s" "stack_ok s" "i_buf s = None" "pending s = []"
    and "0 < n" "n \<le> TCP_MAX_PACKET_SIZE" "n \<le> int (length (em_queue em (calls s)))"
    and "length timeout = 4" "3 \<le> rsize"
  shows "run_ok {} (\<lambda>r s'. \<exists>ref. r = (3, INET_REP_OK # put_int16 ref) \<and> pending s' = [] \<and>
           em_queue em (calls s') = drop (nat n) (em_queue em (calls s)) \<and>
           outputs (calls s') = outputs (calls s) \<and> sends (calls s') = sends (calls s) @
             [(em_caller em (calls s), async_message ref (d_mode s) (d_hsz s) (take (nat n) (em_queue em (calls s))))])
         (loop_drv_ctl em 32 (timeout @ put_int32 n) rsize s)"
  by (rule run_ok_mono [OF ctl_recv_exact [OF assms]]) auto

definition raw_port :: drv where
  "raw_port = started\<lparr>d_state := INET_STATE_CONNECTED, d_stype := SOCK_STREAM, d_sfamily := AF_INET\<rparr>"

lemma raw_port_facts:
  "IS_CONNECTED raw_port" "async_wf raw_port" "raw_passive raw_port" "stack_ok raw_port" "i_buf raw_port = None"
  "pending raw_port = []" "d_bufsz raw_port = 1024" "calls raw_port = [AllocMem 512]" "d_mode raw_port = 0"
  "d_hsz raw_port = 0"
  by (simp_all add: raw_port_def started_def loop_drv_start_def inet_start_def loop_drv_init_def blank_def
      Let_def IS_CONNECTED_def inet_states async_wf_def raw_passive_def stack_ok_def pending_def packet_type_of_def)

theorem recv_exact_witness:
  "run_ok {} (\<lambda>r s'. \<exists>ref. r = (3, INET_REP_OK # put_int16 ref) \<and> queue_of (calls s') = [3] \<and>
     sends (calls s') = [(7, async_message ref 0 0 [1, 2])])
   (loop_drv_ctl demo_emulator 32 ([0, 0, 0, 0] @ put_int32 2) 64 (log_call (Enq [1, 2, 3]) raw_port))"
proof -
  let ?s = "log_call (Enq [1, 2, 3]) raw_port"
  have "async_wf ?s" "pending ?s = []" "raw_passive ?s" "stack_ok ?s" "IS_CONNECTED ?s" "i_buf ?s = None"
    using raw_port_facts queue_cong [of ?s raw_port]
    by (simp_all add: raw_passive_def stack_ok_def IS_CONNECTED_def)
  from recv_exact [OF good_demo this(5,1,3,4,6,2), of 2 "[0, 0, 0, 0]" 64] show ?thesis
    by (auto simp: raw_port_facts elim!: run_ok_mono)
qed

text \<open>
  C15.  What the driver does with data that arrives at a passive port while no RECV waits: it takes
  the bytes from the queue, hands them to nobody, forgets them, and tells the sender \<open>ok\<close>.  The
  data is lost; a later RECV does not get it.
\<close>

theorem passive_data_lost:
  assumes "good em" "IS_CONNECTED s" "async_wf s" "raw_passive s" "stack_ok s" "i_buf s = None" "pending s = []"
    and "em_queue em (calls s) = []" "0 < d_bufsz s" "d_bufsz s * 4 \<le> 2147483647"
    and "buf \<noteq> []" "int (length buf) \<le> d_bufsz s"
  shows "run_ok {} (\<lambda>_ s'. em_queue em (calls s') = [] \<and> i_buf s' = None \<and>
           outputs (calls s') = outputs (calls s) \<and> sends (calls s') = sends (calls s) @
             [(em_caller em (calls s), [TAtom ''inet_reply'', TPort, TAtom ''ok'', TTuple 3])])
         (loop_drv_command em buf s)"
  using assms by (rule passive_send)

theorem passive_data_lost_witness:
  "run_ok {} (\<lambda>_ s'. queue_of (calls s') = [] \<and> i_buf s' = None \<and> outputs (calls s') = [] \<and>
     sends (calls s') = [(7, [TAtom ''inet_reply'', TPort, TAtom ''ok'', TTuple 3])])
   (loop_drv_command demo_emulator [1, 2, 3] raw_port)"
  using passive_data_lost [OF good_demo raw_port_facts(1-6), of "[1, 2, 3]"]
  by (simp add: raw_port_facts outputs_def map_filter_simps)

text \<open>
  A passive port with a buffer of four bytes in line mode is written \<^verbatim>\<open>"a\nbc"\<close> and then
  \<^verbatim>\<open>"d"\<close>, with no RECV waiting: the line is dropped with \<^verbatim>\<open>i_ptr_start\<close> left behind it, and the second
  write makes \<^verbatim>\<open>loop_recv\<close> copy behind the end of its buffer.
\<close>

theorem passive_overflow:
  "andthen (loop_drv_command demo_emulator [97, 10, 98, 99] (raw_port\<lparr>d_bufsz := 4, d_htype := 8\<rparr>))
     (\<lambda>_ s. loop_drv_command demo_emulator [100] s) = Inl OutOfBounds"
  by code_simp

section \<open>Framing\<close>

text \<open>
  What \<^verbatim>\<open>loop_send\<close> puts in front of a packet is what \<^verbatim>\<open>loop_remain\<close> reads: bytes that begin
  with an encoded packet are complete, their front is that packet again, and two lists of packets
  with the same encoding are the same list: one- and two-byte framing is unambiguous.
\<close>

theorem framing_round_trip:
  assumes "counted pt" "\<forall>p \<in> set ps. fits pt p" "\<forall>q \<in> set qs. fits pt q"
  shows "(\<forall>p \<in> set ps. complete pt (encode pt p @ r) \<and> hdr_value pt (encode pt p @ r) = int (length p) \<and>
            drop (nat (hdr_len pt)) (encode pt p) = p) \<and>
         (concat (map (encode pt) ps) = concat (map (encode pt) qs) \<longleftrightarrow> ps = qs)"
proof
  show "\<forall>p \<in> set ps. complete pt (encode pt p @ r) \<and> hdr_value pt (encode pt p @ r) = int (length p) \<and>
            drop (nat (hdr_len pt)) (encode pt p) = p"
    using assms complete_encode [OF assms(1)] hdr_value_encode [OF assms(1)]
    by (auto simp: counted_def encode_def send_header_def hdr_len_def)
  show "concat (map (encode pt) ps) = concat (map (encode pt) qs) \<longleftrightarrow> ps = qs"
  proof
    assume eq: "concat (map (encode pt) ps) = concat (map (encode pt) qs)"
    then obtain rest where qs: "qs = ps @ rest" "concat (map (encode pt) rest) = []"
      using stream_prefix [OF assms, of "[]"] by auto
    have "encode pt q \<noteq> []" for q
      using length_encode [OF assms(1), of q] counted_hdr_len [OF assms(1)] by auto
    then have "rest = []" using qs(2) by (cases rest) auto
    then show "ps = qs" using qs by simp
  qed simp
qed

theorem framing_round_trip_witness:
  "(concat (map (encode TCP_PB_2) [[1, 2], []]) = concat (map (encode TCP_PB_2) [[1], [2]])) = False"
  using framing_round_trip [of TCP_PB_2 "[[1, 2], []]" "[[1], [2]]" "[]"]
  by (simp add: counted_def fits_def)

text \<open>
  The bytes still missing are computed exactly: on a port with one- or two-byte lengths whose
  buffer is in order, \<^verbatim>\<open>loop_remain\<close> returns 0 and the length of the packet if it is complete, the
  number of bytes missing if its header is, after making room for them, and otherwise how much to
  read for the header; it changes neither the bytes nor the pointers.
\<close>

theorem remain_exact:
  assumes "good em" "buf_inv s" "i_buf s = Some b" "counted (packet_type_of (d_htype s))"
    and "i_bufsz s \<le> 2 ^ 30"
  shows "run_ok {} (\<lambda>(code, len) s'. counted_answer s (i_bufsz s') code len \<and> buffered s' = buffered s \<and>
           i_ptr s' = i_ptr s \<and> i_ptr_start s' = i_ptr_start s)
         (loop_remain em s)"
  by (rule run_ok_mono [OF loop_remain_counted [OF assms]]) (auto simp: remain_ok_def Let_def)

theorem remain_exact_witness:
  "run_ok {} (\<lambda>(code, len) s'. counted_answer (half_full\<lparr>d_htype := 1\<rparr>) (i_bufsz s') code len \<and>
     buffered s' = [1, 2]) (loop_remain demo_emulator (half_full\<lparr>d_htype := 1\<rparr>))"
proof -
  have "buf_inv (half_full\<lparr>d_htype := 1\<rparr>)" "buffered (half_full\<lparr>d_htype := 1\<rparr>) = [1, 2]"
    using half_full_inv half_full_buffered
    by (simp_all add: buf_inv_def stack_ok_def buffered_def cong: option.case_cong)
  then show ?thesis
    using remain_exact [OF good_demo, of "half_full\<lparr>d_htype := 1\<rparr>"]
    by (simp add: half_full_def counted_def packet_type_of_def) (auto elim!: run_ok_mono)
qed

text \<open>
  The length fields of the other packet types are read as they are defined: a payload behind a
  record-marking, TPKT, GIOP (big and little endian), FastCGI or four-byte header, or behind an
  ASN.1 tag with a short or a long definite length, is announced with its length and the length of
  its header.
\<close>

theorem long_headers_read:
  assumes "long_header pt h (int (length p))" "length p \<le> 2147483647"
  shows "packet_label pt st full (length (h @ p)) (h @ p @ r) = Inr (L_remain (int (length p)) (int (length h)))"
  using assms by (intro packet_label_long_header) simp_all

theorem long_headers_read_witness:
  "packet_label TCP_PB_TPKT 0 False (length ([3, 0, 0, 6] @ [1, 2 :: byte])) [3, 0, 0, 6, 1, 2] = Inr (L_remain 2 4)"
  using long_headers_read [of TCP_PB_TPKT "[3, 0] @ put_int16 6" "[1, 2]" 0 False "[]"]
  by (simp add: long_header_def put_int16_def)

section \<open>MD4\<close>

text \<open>
  C16.  On a platform whose \<^verbatim>\<open>unsigned long\<close> has 32 bits, \<^verbatim>\<open>MD4Init\<close>, any sequence of \<^verbatim>\<open>MD4Update\<close> calls
  and \<^verbatim>\<open>MD4Final\<close> compute the digest of RFC 1320 of the concatenation of the pieces: the padded message
  folded block by block.  Neither the cutting into pieces nor the contents of the context before
  matter, and the 64-bit bit count is right for every length.
\<close>

theorem md4_incremental:
  fixes ctx :: "32 word MD4_CTX"
  assumes "length (md_buffer ctx) = 64" "\<forall>p \<in> set parts. length p < 2 ^ 32"
  shows "fst (MD4Final (md4_updates (MD4Init ctx) parts)) = md4_reference (concat parts)"
  using MD4Final_represents [OF md4_updates_represents [OF MD4Init_represents [OF assms(1)] assms(2)]]
  by simp

theorem md4_incremental_witness:
  "fst (MD4Final (md4_updates (MD4Init (local_context demo_emulator \<lparr>calls = []\<rparr> :: 32 word MD4_CTX))
     [[97], [], [98, 99]])) = md4_reference [97, 98, 99]"
  using md4_incremental [of "local_context demo_emulator \<lparr>calls = []\<rparr>" "[[97], [], [98, 99]]"]
  by (simp add: local_context_def)

text \<open>
  The reference digest is MD4: the test vectors of RFC 1320 for the empty string and for \<^verbatim>\<open>"abc"\<close>
  come out of it.
\<close>

theorem md4_test_vectors:
  "md4_reference [] = [0x31, 0xd6, 0xcf, 0xe0, 0xd1, 0x6a, 0xe9, 0x31, 0xb7, 0x3c, 0x59, 0xd7, 0xe0, 0xc0, 0x89, 0xc0] \<and>
   md4_reference [97, 98, 99] =
     [0xa4, 0x48, 0x01, 0x7a, 0xaf, 0x21, 0xd8, 0x52, 0x5f, 0xc1, 0x0a, 0xe8, 0x7a, 0xa6, 0x72, 0x9d]"
  by (rule conjI [OF md4_reference_empty md4_reference_abc])

text \<open>
  The MD4 driver answers every command with exactly one message to its caller: the port, \<^verbatim>\<open>value\<close>
  and the sixteen bytes of the digest, whose binary is then released, or, when there is no memory
  for the binary, the port, \<^verbatim>\<open>error\<close> and \<^verbatim>\<open>enomem\<close>; with a 32-bit \<^verbatim>\<open>unsigned long\<close> the digest is the one of RFC 1320.
\<close>

theorem md4drv_answers:
  assumes "length buf < 2 ^ 32"
  shows "let h = AllocBinary 16 # calls w in
     \<exists>spec t. calls (md4drv_from_erlang TYPE(32) em buf w) =
       (if em_alloc em h then [FreeBinary] else []) @ SendTerm (em_caller em h) spec # h \<and>
       one_term 10 t spec \<and>
       t = (if em_alloc em h then ETuple [EPort, EAtom ''value'', EBinary (md4_reference buf)]
            else ETuple [EPort, EAtom ''error'', EAtom ''enomem''])"
proof -
  have "represents (MD4Update (MD4Init (local_context em w :: 32 word MD4_CTX)) buf) ([] @ buf)"
    by (rule MD4Update_represents [OF MD4Init_represents assms]) (simp add: local_context_def)
  then have digest: "fst (MD4Final (MD4Update (MD4Init (local_context em w :: 32 word MD4_CTX)) buf)) =
      md4_reference buf" using MD4Final_represents by fastforce
  have len: "length (md4_reference buf) = 16"
    by (simp add: md4_reference_def transform_blocks_state md4_init_def)
  show ?thesis
    using len unfolding md4drv_from_erlang_def Let_def case_prod_unfold digest
    by (simp add: driver_alloc_binary_def Let_def driver_send_bin_def driver_send_error_def driver_call_def
        one_term_def denote_def)
qed

theorem md4drv_answers_witness:
  "\<exists>spec. calls (md4drv_from_erlang TYPE(32) demo_emulator [97] \<lparr>calls = []\<rparr>) =
     [FreeBinary, SendTerm 7 spec, AllocBinary 16]"
  using md4drv_answers [of "[97]" "\<lparr>calls = []\<rparr>" demo_emulator] by (auto simp: Let_def)

section \<open>The serial driver\<close>

text \<open>
  A baud rate set on a serial port is rounded up to the least rate of the table that is not
  below it, and to the greatest rate of the table if there is none; a rate of the table is kept.
\<close>

theorem rates_round:
  "let r = from_speed (to_speed baud) in r \<in> fst ` set rtab \<and>
     (if baud \<le> 4000000 then baud \<le> r \<and> Ball (fst ` set rtab) (\<lambda>b. b < baud \<or> r \<le> b) else r = 4000000)"
proof (cases "baud \<le> 4000000")
  case True
  let ?R = "{b \<in> fst ` set rtab. baud \<le> b}"
  have "4000000 \<in> ?R" using True by (simp add: rtab_def)
  then have R: "finite ?R" "?R \<noteq> {}" by (simp, blast)
  have min: "Min ?R \<in> ?R" by (rule Min_in [OF R])
  have le: "b < baud \<or> Min ?R \<le> b" if "b \<in> fst ` set rtab" for b
    using that Min_le [OF R(1), of b] by (cases "b < baud") auto
  have "from_speed (to_speed baud) = Min ?R"
    using min le by (intro to_speed_least) (auto simp: not_le)
  then show ?thesis using True min le by (simp add: Let_def)
next
  case False
  then have "\<forall>b \<in> fst ` set rtab. b < baud" by (simp add: rtab_def)
  then have "to_speed baud = 0x100f" unfolding to_speed_def
    by (subst find_rate_beyond) (simp_all add: rtab_def)
  then show ?thesis using False by (simp add: from_speed_def rtab_def)
qed

theorem rates_round_witness: "from_speed (to_speed 14400) = 19200 \<and> from_speed (to_speed 9600) = 9600"
proof -
  have "19200 \<in> fst ` set rtab" "9600 \<in> fst ` set rtab" by (simp_all add: rtab_def)
  moreover have "from_speed (to_speed 14400) \<in> {19200, 38400, 57600, 115200, 230400, 460800, 500000, 576000,
      921600, 1000000, 1152000, 1500000, 2000000, 2500000, 3000000, 3500000, 4000000}"
    using rates_round [of 14400] by (auto simp: Let_def rtab_def)
  ultimately show ?thesis using rates_round [of 14400] rates_round [of 9600] by (auto simp: Let_def)
qed

text \<open>
  C17.  \<^verbatim>\<open>SL_UPDATE\<close> on an open line with changes pending hands the device one new set of attributes
  and clears the flags, if every setting that is flagged is flagged with a value it can have.  The character
  size, the stop bits, the parity, the buffer size and time, the four special characters, hardware flow
  control and the echo read back the value they were flagged with, and what they were if they were not
  flagged and the mode does not change.  Software flow control reads back what it was flagged with, and
  so does the baud rate if software flow control is not set in the same update (it clears the flag of
  the high rates).
\<close>

theorem update_applies:
  assumes "wf_line s" "valid_settings s" "sl_com s \<noteq> - 1" "sl_flags s \<noteq> 0"
  shows "let s' = do_update tt s in
     sl_flags s' = 0 \<and> calls s' = Os (OsSetAttr (sl_tio s')) # calls s \<and>
     applied s s' FL_CSIZE sl_csize get_csize \<and> applied s s' FL_STOPB sl_stopb get_stopb \<and>
     applied s s' FL_PARITY sl_parity get_parity \<and> applied s s' FL_BUFSZ sl_bufsz get_bufsz \<and>
     applied s s' FL_BUFTM sl_buftm get_buftm \<and> applied s s' FL_XONCHAR sl_xonchar get_xonchar \<and>
     applied s s' FL_XOFFCHAR sl_xoffchar get_xoffchar \<and> applied s s' FL_EOLCHAR sl_eolchar get_eolchar \<and>
     applied s s' FL_EOL2CHAR sl_eol2char get_eol2char \<and> applied s s' FL_HWFLOW sl_hwflow get_hwflow \<and>
     applied s s' FL_ECHO sl_echo get_echo \<and>
     (sl_flags s AND FL_SWFLOW \<noteq> 0 \<longrightarrow> get_swflow s' = sl_swflow s) \<and>
     (sl_flags s AND FL_BAUD \<noteq> 0 \<and> sl_flags s AND FL_SWFLOW = 0 \<longrightarrow> get_baud s' = sl_baud s)"
  using settled_flags [OF assms(1,2)] settled_chars [OF assms(1,2)] settled_swflow [OF assms(1,2)]
    settled_baud [OF assms(2)]
  by (simp add: do_update_settled [OF assms(4,3)] applied_def cc_settings Let_def)

theorem update_applies_witness:
  "let s' = do_update demo_tty (open_line\<lparr>sl_flags := 0x15, sl_baud := 115200, sl_csize := 7, sl_parity := 1\<rparr>) in
     sl_flags s' = 0 \<and> get_baud s' = 115200 \<and> get_csize s' = 7 \<and> get_parity s' = 1"
proof -
  let ?s = "open_line\<lparr>sl_flags := 0x15, sl_baud := 115200, sl_csize := 7, sl_parity := 1\<rparr>"
  have "wf_line ?s" using open_line_facts(4) by (simp add: wf_line_def)
  moreover have "valid_settings ?s" by (simp add: valid_settings_def rtab_def)
  ultimately show ?thesis
    using update_applies [of ?s demo_tty] by (simp add: open_line_facts(1) applied_def Let_def)
qed

text \<open>
  A rate above 38400 does not survive the opening of a line: \<^verbatim>\<open>do_open\<close> clears software flow
  control in the word of flags that holds the rate, and with it the flag that marks the high
  rates.  Whatever the device, the rate read back is at most 38400; 115200 becomes 75.
\<close>

theorem high_rates_lost:
  assumes "sl_flags s AND FL_BAUD \<noteq> 0" "sl_baud s \<in> fst ` set rtab" "38400 < sl_baud s"
    and "sl_flags s AND FL_SWFLOW = 0" "do_open tt s = (0, s')"
  shows "get_baud s' \<le> 38400 \<and> (sl_baud s = 115200 \<longrightarrow> get_baud s' = 75)"
  using open_rate [OF assms] rtab_speeds(5) [OF assms(2,3)]
  by (auto simp: to_speed_def from_speed_def rtab_def)

theorem high_rates_lost_witness:
  "get_baud (snd (do_open demo_tty (open_line\<lparr>sl_flags := 1, sl_baud := 115200\<rparr>))) = 75"
proof -
  have "fst (do_open demo_tty (open_line\<lparr>sl_flags := 1, sl_baud := 115200\<rparr>)) = 0"
    by (simp add: do_open_def do_close_def open_line_facts demo_tty_ok get_com_state_def demo_tty_def Let_def)
  then show ?thesis
    using high_rates_lost [of "open_line\<lparr>sl_flags := 1, sl_baud := 115200\<rparr>" demo_tty]
    by (cases "do_open demo_tty (open_line\<lparr>sl_flags := 1, sl_baud := 115200\<rparr>)") (simp add: rtab_def)
qed

text \<open>
  C18.  On an open line whose device does not fail, whatever its owner writes and whenever the
  device becomes ready, in any order: no call faults, what the device has taken followed by what
  is queued is exactly what was written, in order, and as long as something is queued the driver
  waits for the device.
\<close>

theorem line_conserves:
  assumes "driver_queue (em_queue em)" "device_ok tt" "\<And>h. os_write tt h \<noteq> Inl EOTHER"
    and "sl_com s \<noteq> - 1" "sl_opending s = 0" "em_queue em (calls s) = []"
  shows "run_ok {} (\<lambda>_ s'. written tt (calls s') @ em_queue em (calls s') =
             written tt (calls s) @ concat (map event_bytes evs) \<and>
           (em_queue em (calls s') = [] \<or> write_selected (calls s')))
         (run_line em tt evs s)"
  using run_line_conserves [OF assms(1-3), of s evs] assms(4-6)
  by (auto simp: line_inv_def on_line_def elim!: run_ok_mono)

theorem line_conserves_witness:
  "run_ok {} (\<lambda>_ s'. written demo_tty (calls s') @ queue_of (calls s') = [1, 2, 3, 4] \<and>
       (queue_of (calls s') = [] \<or> write_selected (calls s')))
     (run_line demo_emulator demo_tty [Written [1, 2, 3], Written [4], Ready] open_line)"
  using line_conserves [of demo_emulator demo_tty open_line "[Written [1, 2, 3], Written [4], Ready]"]
    demo_tty_ok replayed.driver_queue_axioms
  by (simp add: open_line_facts)

text \<open>
  When the device fails with an error other than \<^verbatim>\<open>EAGAIN\<close>, for instance because the line was
  unplugged, the next write to an idle open port reads one byte in front of the data it was given.
\<close>

theorem write_failure_faults:
  assumes "sl_com s \<noteq> - 1" "sl_opending s = 0" "em_queue em (calls s) = []" "buf \<noteq> []"
    and "os_write tt (Os (OsWrite buf) # calls s) = Inl EOTHER"
  shows "sl_output em tt buf s = Inl OutOfBounds"
  using assms
  by (simp add: sl_output_def do_write_init_def do_write_buf_def driver_sizeq_def reading_def Let_def andthen_def)

theorem write_failure_faults_witness:
  "sl_output demo_emulator (demo_tty\<lparr>os_write := \<lambda>_. Inl EOTHER\<rparr>) [65] open_line = Inl OutOfBounds"
  by (rule write_failure_faults) (simp_all add: open_line_facts)

text \<open>
  A setting with an integer value that is set through the control interface is reported by the
  request that asks for it, open line or not, until it is updated, and nothing is done to the
  device.
\<close>

theorem set_then_get:
  assumes "cmd \<in> {22, 26, 30, 32, 34, 40, 42, 48, 50}" "- (2 ^ 31) \<le> i" "i < 2 ^ 31" "6 \<le> rsize"
  shows "\<exists>s'. andthen (sl_ctl em tt cmd (put_int32 i) rsize s) (\<lambda>_ s. sl_ctl em tt (cmd + 1) [] rsize s) =
       Inr ((6, [0, 0] @ put_int32 i), s') \<and> calls s' = calls s \<and> sl_tio s' = sl_tio s"
  using assms(1) set_get_values [OF assms(2-4)] by auto

theorem set_then_get_witness:
  "\<exists>s'. andthen (sl_ctl demo_emulator demo_tty 22 (put_int32 9600) 64 idle_line)
           (\<lambda>_ s. sl_ctl demo_emulator demo_tty 23 [] 64 s) = Inr ((6, [0, 0, 0, 0, 37, 128]), s')"
  using set_then_get [of 22 9600 64 demo_emulator demo_tty idle_line] by (auto simp: put_int32_def)

section \<open>The converters\<close>

text \<open>
  C19.  What the URL encoding driver answers decodes to the data it was given, if every byte of it is
  below 128 -- and cannot be decoded at all otherwise, because a \<^verbatim>\<open>char\<close> is extended by its sign before
  its first hexadecimal digit is computed.  No answer means that there is nothing to encode.
\<close>

theorem url_encoding:
  assumes "3 * length buf < 2 ^ 31" "\<And>h. em_alloc em h"
  shows "\<exists>n r s'. ibrowse_drv_control em buf s = Inr ((n, r), s') \<and>
    (case r of None \<Rightarrow> n = 0 | Some m \<Rightarrow> n = int (length m)) \<and>
    url_decode (case r of None \<Rightarrow> buf | Some m \<Rightarrow> m) = (if \<forall>b \<in> set buf. b < 128 then Some buf else None)"
proof (cases "encode_bytes buf = buf")
  case True
  then show ?thesis using control_reply [OF assms, of s] url_decode_encode [of buf]
    by (intro exI [of _ 0] exI [of _ None]) auto
next
  case False
  then show ?thesis using control_reply [OF assms, of s] url_decode_encode [of buf]
    by (intro exI [of _ "int (length (encode_bytes buf))"] exI [of _ "Some (encode_bytes buf)"]) auto
qed

theorem url_encoding_witness:
  "\<exists>n r s'. ibrowse_drv_control demo_emulator [97, 32] \<lparr>calls = [], ib_count = 0, ib_alloc_ptr = None\<rparr> = Inr ((n, r), s') \<and>
     url_decode (case r of None \<Rightarrow> [97, 32] | Some m \<Rightarrow> m) = Some [97, 32]"
  using url_encoding [of "[97, 32]" demo_emulator "\<lparr>calls = [], ib_count = 0, ib_alloc_ptr = None\<rparr>"] by auto

text \<open>
  C20.  A command of \<^verbatim>\<open>iconv.erl\<close> whose names have less than 64 bytes and whose descriptor is one is
  answered with exactly one message to the caller, the one the converter's result calls for; a name of
  64 bytes or more, or a descriptor that is too long, is written behind the end of a variable on the stack.
\<close>

theorem iconv_commands:
  assumes "converter_ok cv" "length (iv_outbuf s) = 2048" "\<forall>f \<in> set (iv_fields req). length f < 65536"
  shows "(iv_fits cv req \<longrightarrow>
       (\<exists>s'. iconvdrv_from_erlang em cv (iv_command req) s = Inr ((), s') \<and> length (iv_outbuf s') = 2048 \<and>
          iv_answered em s (iv_answer cv (\<lambda>n. em_alloc em (AllocBinary (int n) # calls s)) (iv_lib s) req) s')) \<and>
     (iv_overflows cv req \<longrightarrow> iconvdrv_from_erlang em cv (iv_command req) s = Inl OutOfBounds)"
  using iv_command_fits [OF assms] iv_command_overflows [OF assms(3)] by blast

theorem iconv_commands_witness:
  "\<exists>s'. iconvdrv_from_erlang demo_emulator demo_converter (iv_command (Iv_Conv [1, 0, 0, 0] [65]))
       \<lparr>calls = [], iv_lib = (), iv_outbuf = replicate 2048 0\<rparr> = Inr ((), s') \<and>
     iv_answered demo_emulator \<lparr>calls = [], iv_lib = (), iv_outbuf = replicate 2048 0\<rparr>
       (ETuple [EPort, EAtom ''value'', EBinary [0, 65]]) s'"
  using iconv_commands [of demo_converter "\<lparr>calls = [], iv_lib = (), iv_outbuf = replicate 2048 0\<rparr>"
      "Iv_Conv [1, 0, 0, 0] [65]" demo_emulator] demo_converter_ok
  by (auto simp: demo_converter_def OUTBUF_SZ_def)

section \<open>The compression driver\<close>

text \<open>
  C21.  A request to deflate, on a stream that is initialised and neither finished nor in the middle of being
  finished or flushed, ends.  The library is given
  the whole queue in order, and the queue is empty afterwards; what the library has put out has been sent to
  the port's owner, in order, behind what was sent before, except for what still waits in the buffer, which
  is nothing if the request was to flush and succeeded; and the checksum covers exactly the bytes that were
  in the queue.  This is for a library that is, on such streams, as \<open>deflate_ok\<close> says, and if memory does not run
  out, the emulator's functions succeed and the buffers have more than six bytes (the driver's have at least 16).
\<close>

theorem deflate_conserves:
  assumes "deflate_ok ok taken given left (zl_deflate zl)" "good_env em zl" "can_work em d" "ok 0 (zstrm d)" "6 < binsz_need d"
  shows "\<exists>N res d'. (\<forall>n \<ge> N. zlib_deflate em zl n flush d = Inr (res, d')) \<and>
    em_queue em (calls d') = [] \<and> taken (zstrm d') = taken (zstrm d) @ em_queue em (calls d) \<and>
    (\<exists>new. given (zstrm d') = given (zstrm d) @ new \<and>
       put_out (calls d') @ unsent d' = put_out (calls d) @ unsent d @ new) \<and>
    (want_crc d \<longrightarrow> crc d' = zl_crc32 zl (crc d) (em_queue em (calls d))) \<and>
    (flush = 0 \<longrightarrow> res = 0) \<and> (flush \<noteq> 0 \<and> 0 \<le> res \<longrightarrow> unsent d' = [])"
proof -
  obtain N res d' where d': "\<forall>n \<ge> N. zlib_deflate em zl n flush d = Inr (res, d')"
    "fed False em zl taken given (length (em_queue em (calls d))) (length (em_queue em (calls d))) d d'"
    "flush = 0 \<longrightarrow> res = 0" "flush \<noteq> 0 \<and> 0 \<le> res \<longrightarrow> unsent d' = []"
    using deflate_processed [OF assms, of flush] unfolding Let_def by blast
  then show ?thesis unfolding fed_def Let_def
    by (intro exI [of _ N] exI [of _ res] exI [of _ d']) auto
qed

theorem deflate_conserves_witness:
  "\<exists>N res d'. (\<forall>n \<ge> N. zlib_deflate demo_emulator demo_zlib n 4
      ((demo_stream [1, 2, 3, 4, 5, 6, 7] ST_DEFLATE)\<lparr>binsz_need := 16\<rparr>) = Inr (res, d')) \<and>
    queue_of (calls d') = [] \<and> fst (zstrm d') = [1, 2, 3, 4, 5, 6, 7]"
proof -
  let ?d = "(demo_stream [1, 2, 3, 4, 5, 6, 7] ST_DEFLATE)\<lparr>binsz_need := 16\<rparr>"
  have "can_work demo_emulator ?d" using demo_zlib_ok(4) [of 1 "[2, 3, 4, 5, 6, 7]" ST_DEFLATE]
    by (simp add: can_work_def demo_stream_def)
  then show ?thesis
    using deflate_conserves [OF demo_zlib_ok(1,3), of ?d 4] by (auto simp: demo_stream_def)
qed



text \<open>
  C23.  Compressed data that asks for a dictionary makes the driver, and with it the emulator, hang: the
  library returns \<^verbatim>\<open>Z_NEED_DICT\<close> without taking anything until it is given the dictionary, and the inner
  loop of \<^verbatim>\<open>zlib_inflate\<close> calls it again for as long as there is input.
\<close>

theorem dictionary_hangs:
  assumes "\<And>inp room. zl_inflate zl 0 inp room (zstrm d) = ((2, 0, []), zstrm d)"
    and "good_env em zl" "can_work em d" "em_queue em (calls d) \<noteq> []"
  shows "zlib_inflate em zl fuel flush d = Inl Diverges"
  using assms by (rule inflate_stuck)

theorem dictionary_hangs_witness:
  "zlib_inflate demo_emulator (demo_zlib\<lparr>zl_inflate := \<lambda>_ _ _ z. ((2, 0, []), z)\<rparr>) 1000 0
     (demo_stream [120, 187] ST_INFLATE) = Inl Diverges"
  by (rule dictionary_hangs)
     (use demo_zlib_ok(3,4) in \<open>simp_all add: good_env_def crc_ok_def demo_stream_def demo_zlib_def\<close>)

text \<open>
  C24.  A stream is idle, deflating or inflating.  A request that the state does not allow, or whose
  argument has the wrong size or value, is answered \<^verbatim>\<open>einval\<close> and changes nothing; any other request
  leads to the state the contract says, whatever the library does, unless it faults or does not end.
\<close>

theorem zlib_protocol:
  assumes "3 \<le> rlen"
  shows "(\<not> zlib_accepts (zstate d) cmd buf \<longrightarrow>
       zlib_ctl em zl fuel cmd buf rlen d = zlib_return em (- 1) rlen (d\<lparr>zerrno := EINVAL\<rparr>)) \<and>
     (zlib_accepts (zstate d) cmd buf \<longrightarrow>
       run_ok UNIV (\<lambda>r d'. zstate d' = zlib_next (zstate d) cmd (ok_reply r)) (zlib_ctl em zl fuel cmd buf rlen d))"
  using zlib_ctl_refused [of d cmd buf em zl fuel rlen] zlib_ctl_next [OF assms, of d cmd buf em zl fuel]
  by (auto simp: badarg_def)

theorem zlib_protocol_witness:
  "zlib_ctl demo_emulator demo_zlib 9 7 [0, 0, 0, 4] 64 (demo_stream [1] ST_NONE) =
     zlib_return demo_emulator (- 1) 64 ((demo_stream [1] ST_NONE)\<lparr>zerrno := EINVAL\<rparr>)"
  using zlib_protocol [of 64 "demo_stream [1] ST_NONE" 7 "[0, 0, 0, 4]" demo_emulator demo_zlib 9]
  by (simp add: zlib_accepts_def demo_stream_def)

text \<open>
  Data is compressed twice after a shortage of memory: with six bytes in the queue and a buffer of
  four, if the second buffer cannot be had the request fails, the four bytes the library has taken stay
  in the queue, and the next request gives them to it again.
\<close>

theorem deflate_repeats:
  "run_ok {} (\<lambda>_ d. fst (zstrm d) = [1, 2, 3, 4, 1, 2, 3, 4, 5, 6])
     (let em = demo_emulator\<lparr>em_alloc := \<lambda>h. \<not> (case h of c # FreeBinary # _ \<Rightarrow> length h = 5 | _ \<Rightarrow> False)\<rparr> in
      andthen (zlib_deflate em demo_zlib 9 0 (demo_stream [1, 2, 3, 4, 5, 6] ST_DEFLATE)) (\<lambda>res d.
        if res = - 5 then zlib_deflate em demo_zlib 9 0 d else Inl Diverges))"
  by code_simp

section \<open>The Unix domain socket driver\<close>

definition demo_sockets :: sockets where
  "demo_sockets =
     \<lparr>so_alloc = \<lambda>_. True, so_junk = \<lambda>_ _. 0, so_queue = queue_of, so_window = \<lambda>_. 1000,
      so_ok = \<lambda>_. True, so_fd = \<lambda>h. if length h \<le> 1 then -1 else 5,
      so_count = \<lambda>h. (case h of (p, SkSendv fd bs) # h' \<Rightarrow>
        if even (length h') then int (min 3 (length bs)) else -1 | _ \<Rightarrow> 0),
      so_bytes = \<lambda>h. (case h of (p, SkRecv fd n) # h' \<Rightarrow> if n = 4096 then Some [1, 2, 3] else None
        | _ \<Rightarrow> None),
      so_errno = \<lambda>_. 11, so_id = \<lambda>_. ''EAGAIN'', so_atom = \<lambda>_. ''x'', so_lsb = True,
      so_avg = \<lambda>avg len n. avg, so_dvi = \<lambda>dvi len avg n. dvi\<rparr>"

definition demo_table :: "descriptor list \<Rightarrow> unixdom" where
  "demo_table ds = \<lparr>desc_table = map Some ds, desc_ix = 0, uerrno = 0, ulog = []\<rparr>"

definition demo_connected :: descriptor where
  "demo_connected = (ud_new 70 0)\<lparr>ud_state := STATE_CONNECTED, ud_s := 3, ud_event := 3\<rparr>"

definition demo_listener :: descriptor where
  "demo_listener = (ud_new 71 1)\<lparr>ud_state := STATE_LISTEN, ud_s := 4, ud_event := 4, ud_stype := 1\<rparr>"

lemma demo_sockets_ok: "sockets_ok demo_sockets" "only_blocks demo_sockets"
  using replayed.driver_queue_axioms
  by (simp_all add: sockets_ok_def only_blocks_def demo_sockets_def)

lemma demo_table_facts:
  "ud_inv (demo_table [demo_connected])" "ud_inv (demo_table [ud_new 70 0, demo_listener])"
  "live 0 (demo_table [d])" "live 0 (demo_table [d, d'])" "live 1 (demo_table [d, d'])"
  "dsc (demo_table [d]) 0 = d" "dsc (demo_table [d, d']) 0 = d" "dsc (demo_table [d, d']) 1 = d'"
  "ulog (demo_table ds) = []"
  by (auto simp: demo_table_def ud_inv_def live_def dsc_def good_desc_def demo_connected_def
      demo_listener_def ud_new_def nth_Cons split: nat.splits)

text \<open>
  C25.  Nothing that is written to a connected port in passive mode is lost, doubled or put out of order:
  after any sequence of writes, of calls when the socket is writable and of expired timers, the bytes
  \<^verbatim>\<open>writev\<close> has taken and the bytes still queued are together what has been written, as long as \<^verbatim>\<open>writev\<close> fails
  only because the socket is full or the call was interrupted (after \<^verbatim>\<open>EPIPE\<close> the queue is cleared, and on
  a port in active mode an expired timer fails an assertion).  While something is queued the port waits for the socket, and it is marked
  as busy only while more than \<^verbatim>\<open>low\<close> bytes are queued.  A write that was answered with a timeout is
  sent all the same.
\<close>

theorem unixdom_conserves:
  assumes "sockets_ok sk" "only_blocks sk" "ud_line sk i w s" "\<forall>e \<in> set es. writes_to i e"
  shows "\<exists>rs s'. ud_run sk es s = Inr (rs, s') \<and> ud_line sk i (w @ concat (map ud_written es)) s'"
  using run_ok_returns [OF line_run [OF assms]] .

theorem unixdom_conserves_witness:
  "\<exists>rs s'. ud_run demo_sockets [UOutputv 0 [[1, 2], [3, 4, 5]], UOutputv 0 [[6]], UReadyOutput 0]
       (demo_table [demo_connected]) = Inr (rs, s') \<and>
     ud_line demo_sockets 0 [1, 2, 3, 4, 5, 6] s'"
  using unixdom_conserves [OF demo_sockets_ok, where s = "demo_table [demo_connected]" and i = 0 and w = "[]"
      and es = "[UOutputv 0 [[1, 2], [3, 4, 5]], UOutputv 0 [[6]], UReadyOutput 0]"]
  by (simp add: ud_line_def demo_table_facts)
     (simp add: demo_connected_def ud_new_def ud_queue_def demo_table_facts demo_sockets_def UD_IS_BUSY_def ud_states)

text \<open>
  C26.  In every state the driver can get into, each descriptor lies at its own index, is in one of the
  eight states, has no socket while it is closed or accepting, has a receive buffer of the recorded size
  if any, and names a valid index while it is listening for another port.  So no call on a port that is
  alive faults but in the ways \<open>ud_faults\<close> lists: starting, stopping, writing to a port and a socket that
  becomes writable never do, and only an expired timer, \<^verbatim>\<open>bind\<close> and \<^verbatim>\<open>accept\<close> can fail an assertion.
\<close>

theorem unixdom_table:
  assumes "sockets_ok sk" "0 < n" "ud_reachable sk n s" "on_live e s"
  shows "ud_inv s \<and> run_ok (ud_faults e) (\<lambda>_. ud_inv) (ud_step sk e s)"
  using reachable_ud_inv [OF assms(1-3)] step_ok [OF assms(1) _ assms(4)] by simp

theorem unixdom_table_witness:
  "run_ok {} (\<lambda>_. ud_inv)
     (ud_step demo_sockets (UStart 7) \<lparr>desc_table = [None, None], desc_ix = 0, uerrno = 0, ulog = []\<rparr>)"
proof -
  have "ud_reachable demo_sockets 2 \<lparr>desc_table = [None, None], desc_ix = 0, uerrno = 0, ulog = []\<rparr>"
    by (rule ud_init) (simp add: ud_driver_init_def demo_sockets_def numeral_2_eq_2)
  from unixdom_table [OF demo_sockets_ok(1) _ this, of "UStart 7"] show ?thesis
    by (simp add: on_live_def)
qed

text \<open>
  Accepting when no connection is there yet: the command is answered \<^verbatim>\<open>wouldblock\<close>, the port waits
  and the listening port listens for it; when a connection arrives the waiting port is connected to it,
  the listening port may be accepted from again and its owner is told.  But the timer of the request is
  never cancelled: if the owner of the new connection makes it active before the timer expires, the
  driver fails its assertion that the port is passive, and the emulator goes down.
\<close>

theorem accept_handshake:
  assumes "ud_inv s" "live i s" "live l s" "ud_state (dsc s i) = STATE_CLOSED" "ud_i_buf (dsc s i) = None"
    "\<not> ud_i_bufp (dsc s i)" "ud_busy_on_send (dsc s i) = 0" "ud_state (dsc s l) = STATE_LISTEN"
    and "so_fd sk ((ud_port (dsc s l), SkAccept (ud_s (dsc s l))) # ulog s) = -1"
      "so_errno sk ((ud_port (dsc s l), SkAccept (ud_s (dsc s l))) # ulog s) = U_EAGAIN"
    and later: "\<And>h. length (ulog s) < length h \<Longrightarrow> so_fd sk ((ud_port (dsc s l), SkAccept (ud_s (dsc s l))) # h) = fd"
      "fd \<noteq> -1"
    and "l < 2 ^ 31" "- (2 ^ 31) \<le> t" "t < 2 ^ 31" "1 \<le> rbuflen"
  shows "\<exists>s1 s2.
     ud_step sk (UCtl i 10 (put_int32 (int l) @ put_int32 t) rbuflen) s = Inr ([UNIXDOM_REP_WOULDBLOCK], s1) \<and>
     ud_state (dsc s1 i) = STATE_ACCEPTING \<and> ud_state (dsc s1 l) = STATE_LISTENING \<and>
     ud_step sk (UReadyInput l) s1 = Inr ([], s2) \<and>
     ud_state (dsc s2 i) = STATE_CONNECTED \<and> ud_s (dsc s2 i) = fd \<and> ud_state (dsc s2 l) = STATE_LISTEN \<and>
     hd (ulog s2) = (ud_port (dsc s l),
       Drv (OutputTerm [TAtom ''unixdom_reply'', TPort, TAtom ''ok'', TTuple 3])) \<and>
     timer_pending (ud_port (dsc s i)) (ulog s2) \<and>
     ud_run sk [UCtl i 8 [UNIXDOM_OPT_ACTIVE, 1, UNIXDOM_OPT_ENDOFLIST] rbuflen, UTimeout i] s2 = Inl Aborts"
proof -
  obtain s1 where s1: "ud_step sk (UCtl i 10 (put_int32 (int l) @ put_int32 t) rbuflen) s = Inr ([UNIXDOM_REP_WOULDBLOCK], s1)"
    "waiting i l s1" "timer_pending (ud_port (dsc s i)) (ulog s1)" "ud_port (dsc s1 i) = ud_port (dsc s i)"
    "ud_port (dsc s1 l) = ud_port (dsc s l)" "ud_s (dsc s1 l) = ud_s (dsc s l)" "length (ulog s) < length (ulog s1)"
    "ud_busy_on_send (dsc s1 i) = ud_busy_on_send (dsc s i)"
    using accept_blocks [OF assms(1-6,8-10,13-16)] by blast
  obtain s2 where s2: "ud_step sk (UReadyInput l) s1 = Inr ([], s2)" "well i s2"
    "ud_state (dsc s2 i) = STATE_CONNECTED" "ud_s (dsc s2 i) = fd" "ud_state (dsc s2 l) = STATE_LISTEN"
    "ud_busy_on_send (dsc s2 i) = ud_busy_on_send (dsc s1 i)" "timer_pending (ud_port (dsc s i)) (ulog s2)"
    "hd (ulog s2) = (ud_port (dsc s l), Drv (OutputTerm [TAtom ''unixdom_reply'', TPort, TAtom ''ok'', TTuple 3]))"
    using accept_completes [OF s1(2), of sk fd] later s1(3-7) by auto
  have "ud_run sk [UCtl i 8 [UNIXDOM_OPT_ACTIVE, 1, UNIXDOM_OPT_ENDOFLIST] rbuflen, UTimeout i] s2 = Inl Aborts"
    using stale_timer [OF wellD(2) [OF s2(2)] s2(3)] s2(6) s1(8) assms(7,16) by simp
  then show ?thesis using s1 s2 by (intro exI [of _ s1] exI [of _ s2]) (simp add: waiting_def)
qed

theorem accept_handshake_witness:
  "\<exists>s1 s2. ud_step demo_sockets (UCtl 0 10 (put_int32 1 @ put_int32 5000) 64)
       (demo_table [ud_new 70 0, demo_listener]) = Inr ([UNIXDOM_REP_WOULDBLOCK], s1) \<and>
     ud_step demo_sockets (UReadyInput 1) s1 = Inr ([], s2) \<and> ud_s (dsc s2 0) = 5 \<and>
     ud_run demo_sockets [UCtl 0 8 [UNIXDOM_OPT_ACTIVE, 1, UNIXDOM_OPT_ENDOFLIST] 64, UTimeout 0] s2 = Inl Aborts"
proof -
  have "ud_state demo_listener = STATE_LISTEN" by (simp add: demo_listener_def)
  from accept_handshake [OF demo_table_facts(2,4,5), of demo_sockets 5 5000 64] this show ?thesis
    unfolding demo_table_facts by (simp add: demo_sockets_def ud_new_def) blast
qed

text \<open>
  A request to read \<open>n\<close> bytes that has to wait leaves a buffer of \<open>n\<close> bytes behind, but what arrives
  is read with the default size of 4096: at most \<open>n\<close> bytes are delivered as they are, more are written
  behind the end of the buffer.
\<close>

theorem recv_overflow:
  assumes "ud_inv s" "live i s" "UD_IS_CONNECTED (dsc s i)" "ud_i_buf (dsc s i) = None"
    and "\<And>h. so_alloc sk h"
    and "\<And>h. so_bytes sk ((ud_port (dsc s i), SkRecv (ud_s (dsc s i)) n) # h) = None"
      "\<And>h. so_errno sk ((ud_port (dsc s i), SkRecv (ud_s (dsc s i)) n) # h) = U_EAGAIN"
    and "0 < n" "n < 4096" "1 \<le> rbuflen"
    and "\<And>h. so_bytes sk ((ud_port (dsc s i), SkRecv (ud_s (dsc s i)) 4096) # h) = Some bs"
      "bs \<noteq> []" "length bs \<le> 4096"
  shows "\<exists>s1. ud_step sk (UCtl i 7 (put_int32 n) rbuflen) s = Inr ([UNIXDOM_REP_OK], s1) \<and>
     (if int (length bs) \<le> n
      then \<exists>s2. ud_step sk (UReadyInput i) s1 = Inr ([], s2) \<and> (ud_port (dsc s i), ud_message bs) \<in> set (ulog s2)
      else ud_step sk (UReadyInput i) s1 = Inl OutOfBounds)"
proof -
  have w: "well i s" and n: "n < 2 ^ 31" using assms by (simp_all add: well_def)
  obtain s1 b where s1: "ud_step sk (UCtl i 7 (put_int32 n) rbuflen) s = Inr ([UNIXDOM_REP_OK], s1)"
    "well i s1" "UD_IS_CONNECTED (dsc s1 i)" "ud_i_buf (dsc s1 i) = Some b" "orig_size b = n"
    "ud_port (dsc s1 i) = ud_port (dsc s i)" "ud_s (dsc s1 i) = ud_s (dsc s i)"
    using recv_waits [OF w assms(3-8) n assms(10)] by blast
  from data_arrives [OF s1(2-4), of sk bs] s1(5-7) assms(11-13)
  show ?thesis by (intro exI [of _ s1]) (auto simp: s1(1) simp del: ud_step.simps)
qed

theorem recv_overflow_witness:
  "\<exists>s1. ud_step demo_sockets (UCtl 0 7 (put_int32 2) 64) (demo_table [demo_connected]) = Inr ([UNIXDOM_REP_OK], s1) \<and>
     ud_step demo_sockets (UReadyInput 0) s1 = Inl OutOfBounds"
  using recv_overflow [OF demo_table_facts(1,3), of demo_sockets 2 64 "[1, 2, 3]"]
  by (simp add: demo_table_facts UD_IS_CONNECTED_def demo_connected_def ud_new_def demo_sockets_def)

section \<open>Descriptors, gettext and tunnel devices\<close>

text \<open>
  C27.  In a session of the driver that sends file descriptors, from its start to its end, with any
  well-formed commands of which no more than 64 listen or accept, whatever system calls fail, every
  descriptor the driver got from the system is closed exactly once, but for the sockets that could not be
  bound and those for whose path there was no memory, which stay open for ever; and every path it allocated
  is freed.
\<close>

theorem fdsend_closes_all:
  assumes "fd_os_ok os" "length (slaves s) = MAXSLAVES" "fd_instance s = -1" "fd_log s = []"
    and "\<forall>m \<in> set ms. proper_msg m" "sum_list (map takes_slot ms) \<le> MAXSLAVES"
  shows "\<exists>s'. fdsend_run os ms (snd (fdsend_start s)) = Inr ((), s') \<and>
    fd_opened os (fd_log (fdsend_stop s')) = fd_closed (fd_log (fdsend_stop s')) + fd_lost os (fd_log (fdsend_stop s')) \<and>
    fd_allocs os (fd_log (fdsend_stop s')) = fd_frees (fd_log (fdsend_stop s'))"
  by (rule fdsend_session_ok [OF assms])

theorem fdsend_closes_all_witness:
  "\<exists>s'. fdsend_run demo_os_bind [[76, 47, 97, 0], [76, 47, 98, 0], [65, 0, 0, 0, 4], [67, 0, 0, 0, 4]]
      (snd (fdsend_start demo_slaves)) = Inr ((), s') \<and>
    fd_opened demo_os_bind (fd_log (fdsend_stop s')) =
      fd_closed (fd_log (fdsend_stop s')) + fd_lost demo_os_bind (fd_log (fdsend_stop s')) \<and>
    fd_allocs demo_os_bind (fd_log (fdsend_stop s')) = fd_frees (fd_log (fdsend_stop s'))"
  by (rule fdsend_closes_all [OF demo_os_bind_ok])
    (simp_all add: demo_slaves_def proper_msg_def takes_slot_def c_string_def)

text \<open>There the second socket cannot be bound, and is lost.\<close>

theorem fdsend_loses_socket:
  "run_ok {} (\<lambda>_ s. fd_lost demo_os_bind (fd_log (fdsend_stop s)) = {#11#})
     (fdsend_run demo_os_bind [[76, 47, 97, 0], [76, 47, 98, 0]] (snd (fdsend_start demo_slaves)))"
  by code_simp

text \<open>
  C28.  The gettext driver calls exactly the function that a request of \<^verbatim>\<open>intl.erl\<close> asks for, with its
  arguments, and replies with its result.  But the driver counts one byte too many for each string, so
  that a request with its last byte missing is not refused: it is read past its end.
\<close>

theorem intl_requests:
  assumes "proper c"
  shows "intl_ctl em g (intl_command c) (intl_args c) rlen s = call_lib em g rlen c s \<and>
    (intl_args c \<noteq> [] \<longrightarrow> intl_ctl em g (intl_command c) (butlast (intl_args c)) rlen s = Inl OutOfBounds)"
  using intl_ctl_args [OF assms] intl_ctl_cut [OF assms] by blast

theorem intl_requests_witness:
  "intl_ctl demo_emulator \<lparr>gt_call = \<lambda>c l. (Inr [104, 101, 106], l), gt_id = \<lambda>_. ''einval''\<rparr> 4
      [4, 97, 0, 4, 98, 0, 3, 0, 0, 0, 2] 64 \<lparr>calls = [], il_lib = ()\<rparr> =
     Inr ((4, [4, 104, 101, 106]), \<lparr>calls = [], il_lib = ()\<rparr>) \<and>
   intl_ctl demo_emulator \<lparr>gt_call = \<lambda>c l. (Inr [104, 101, 106], l), gt_id = \<lambda>_. ''einval''\<rparr> 4
      [4, 97, 0, 4, 98, 0, 3, 0, 0, 0] 64 \<lparr>calls = [], il_lib = ()\<rparr> = Inl OutOfBounds"
  using intl_requests [of "Ngettext [97] [98] 2" demo_emulator
      "\<lparr>gt_call = \<lambda>c l. (Inr [104, 101, 106], l), gt_id = \<lambda>_. ''einval''\<rparr>" 64 "\<lparr>calls = [], il_lib = ()\<rparr>"]
  by (simp add: plain_string_def string_arg_def uinteger_arg_def put_int32_def call_lib_def ret_string_def)

text \<open>
  C29.  A tunnel port sends the packets it reads from its device, all of them and in order, and has the
  emulator watch the device exactly while it may send; after a request for one packet it sends at most
  one, and after it was made passive none, until the next such request.
\<close>

theorem tun_flow:
  assumes "tun_start os args [] = Inr (TunStarted s0, h)" "(tun_step os)\<^sup>*\<^sup>* s0 s"
  shows "tun_packets (tun_log s) = tun_reads os (tun_log s) \<and>
    (tun_selected (tun_log s) \<longleftrightarrow> tun_active s \<noteq> ACTIVE_FALSE) \<and>
    (\<forall>b rsize r s1 s2 n. tun_ctl os 2 [b] rsize s = Inr (r, s1) \<longrightarrow> (tun_quiet os)\<^sup>*\<^sup>* s1 s2 \<longrightarrow>
      tun_allowance (sint b) = Some n \<longrightarrow>
      length (tun_packets (tun_log s2)) \<le> length (tun_packets (tun_log s)) + n)"
  using tun_flow_ok [OF assms] by blast

theorem tun_flow_witness:
  "tun_ctl demo_tun 2 [2] 64 demo_tunnel = Inr ((1, [1]), demo_tunnel_once) \<and>
   length (tun_packets (tun_log (tun_output demo_tun [9] demo_tunnel_once))) \<le> 1"
proof -
  have "(tun_quiet demo_tun)\<^sup>*\<^sup>* demo_tunnel_once (tun_output demo_tun [9] demo_tunnel_once)"
    using tun_quiet.written by blast
  moreover have "tun_packets (tun_log demo_tunnel) = []" "tun_allowance (sint (2 :: byte)) = Some 1"
    by (simp_all add: demo_tunnel_def tun_allowance_def)
  ultimately show ?thesis
    using tun_flow [OF demo_tunnel_started rtranclp.rtrancl_refl] demo_tunnel_asked by fastforce
qed

section \<open>Group communication\<close>





text \<open>
  Whatever the emulator does and in whatever order its threads finish, every command is answered
  once: the answers sent and the jobs that wait or are finished and not yet answered are together as many
  as the commands received.
\<close>

theorem spread_answers:
  assumes "sp_reach lib fuel n s"
  shows "sp_answered (sp_log s) + length (sp_jobs s) = n"
  using spread_server.reach_due [OF assms] by (simp add: sp_due_def)

theorem spread_answers_witness:
  "\<exists>s t. spread_start demo_spread [] [] = Some s \<and> spread_outputv demo_spread [[], [9]] s = Inr ((), t) \<and>
    sp_answered (sp_log t) + length (sp_jobs t) = 1"
proof -
  obtain s where s: "spread_start demo_spread [] [] = Some s" by (simp add: spread_start_def)
  have "spread_outputv demo_spread [[], [9]] s =
      Inr ((), (sp_do SpAsync (sp_do (SpAlloc 200) s))\<lparr>sp_jobs := sp_jobs s @ [\<lparr>job_work = WGidOffset, job_refs = 0, job_out = None\<rparr>]\<rparr>)"
    by (simp add: spread_outputv_def EV_GET_CHAR_def ev_value_def ev_get_def sp_got_def sp_parse_def sp_check_def
        sp_dispatch_def sp_refer_def andthen_def)
  then obtain t where t: "spread_outputv demo_spread [[], [9]] s = Inr ((), t)" by blast
  have "sp_started demo_spread s" using s by (auto simp: sp_started_def)
  moreover have "sp_stepped demo_spread 1 (Some [[], [9]]) s t"
    using sp_step.command [OF t] by (simp add: sp_stepped_def sp_command_ok_def)
  ultimately have "sp_reach demo_spread 1 (Suc 0) t" by (rule edtk_reach.command [OF edtk_reach.started])
  from spread_answers [OF this] show ?thesis using s t by auto
qed

text \<open>
  The name of the sender is kept once for the port, not with the message: when two receives have been
  run before the first is answered, the answer to the first carries the sender of the second message.
\<close>

theorem spread_sender_mixed:
  assumes "sp_invoke lib (WReceive mb g n) s = Inr (OutReceived (SpGot m1), s1)"
    and "sp_invoke lib (WReceive mb' g' n') s1 = Inr (OutReceived (SpGot m2), s2)"
    and "sp_allocs lib" "length (sm_groups m1) \<le> 9"
  shows "\<exists>t. sp_answer lib (WReceive mb g n) (OutReceived (SpGot m1)) s2 = Inr ((), t) \<and>
    sp_outputs (sp_log t) =
      sp_outputs (sp_log s) @ [sp_message_items ''ok'' (m1\<lparr>sm_sender := sm_sender m2\<rparr>)]"
  by (rule sp_receives_mixed [OF assms])

theorem spread_sender_mixed_witness:
  "\<exists>s1 s2 t. sp_invoke demo_spread (WReceive 5 4 9) (demo_sp_port [demo_mail [97] [1], demo_mail [98] [2]]) =
      Inr (OutReceived (SpGot (demo_mail [97] [1])), s1) \<and>
    sp_invoke demo_spread (WReceive 5 4 9) s1 = Inr (OutReceived (SpGot (demo_mail [98] [2])), s2) \<and>
    sp_answer demo_spread (WReceive 5 4 9) (OutReceived (SpGot (demo_mail [97] [1]))) s2 = Inr ((), t) \<and>
    sp_outputs (sp_log t) = [sp_message_items ''ok'' (demo_mail [98] [1])]"
proof -
  obtain s1 s2 where s: "sp_invoke demo_spread (WReceive 5 4 9) (demo_sp_port [demo_mail [97] [1], demo_mail [98] [2]]) =
      Inr (OutReceived (SpGot (demo_mail [97] [1])), s1)"
    "sp_invoke demo_spread (WReceive 5 4 9) s1 = Inr (OutReceived (SpGot (demo_mail [98] [2])), s2)"
    by (simp add: sp_invoke_def sp_do_receive_def demo_spread_def demo_sp_port_def demo_mail_def)
  from spread_sender_mixed [OF s demo_spread_allocs] show ?thesis
    using s by (auto simp: demo_mail_def demo_sp_port_def)
qed

section \<open>Images and files\<close>

text \<open>
  C32.  A client of the gd driver cannot make the driver hand the library an image or a file that has been
  released, as long as \<^verbatim>\<open>fclose\<close> does not fail; nor when the port is stopped, which releases all that is in
  the maps.  This is for sessions in which nothing makes the driver reach outside its memory.  All sessions of
  such requests are of this kind: the indices are within the maps, in use or not (the driver compares them with
  nothing); strings have an end and there are bytes for the points or numbers announced; the fields are whole and
  not empty, in whatever pieces they come; and the library's data are there and as long as it says.
  A long has four bytes.
\<close>

theorem gd_no_dangling:
  assumes "gd_sound lib objs" "gd_start lib l = Some s0"
  shows "(gd_true lib \<and> (\<forall>ev \<in> set evs. gd_request ev) \<longrightarrow> (\<exists>s. gd_session lib evs s0 = Inr ((), s))) \<and>
    (\<forall>s. gd_session lib evs s0 = Inr ((), s) \<longrightarrow> gd_safe (gd_log (gd_stop lib s)) \<and>
       gd_live (gd_log (gd_stop lib s)) = gd_live (gd_log s) - (set (gd_entries (gd_maps s ! 0)) \<union> set (gd_entries (gd_maps s ! 1))))"
proof (intro conjI impI allI)
  assume "gd_true lib \<and> (\<forall>ev \<in> set evs. gd_request ev)"
  then show "\<exists>s. gd_session lib evs s0 = Inr ((), s)" using gd_session_returns gd_start_sized [OF assms(2)] by blast
next
  fix s assume "gd_session lib evs s0 = Inr ((), s)"
  from gd_session_inv [OF assms(1) gd_start_inv [OF assms(2)] this] have "gd_inv lib objs s" .
  from gd_stop_inv [OF assms(1) this] show "gd_safe (gd_log (gd_stop lib s))"
    "gd_live (gd_log (gd_stop lib s)) = gd_live (gd_log s) - (set (gd_entries (gd_maps s ! 0)) \<union> set (gd_entries (gd_maps s ! 1)))"
    by (simp_all add: gd_held_def)
qed

theorem gd_no_dangling_witness:
  "\<exists>s0 s. gd_start demo_gd (0, []) = Some s0 \<and>
    gd_session demo_gd [[[], [1, 0, 0, 0, 4, 0, 0, 0, 3]], [[], [1, 0, 0, 0, 4, 0, 0, 0, 3]], [[], [51, 0, 0, 0, 0]]] s0 = Inr ((), s) \<and>
    gd_maps s ! 0 ! 1 = Some 1 \<and> gd_safe (gd_log (gd_stop demo_gd s)) \<and> gd_live (gd_log (gd_stop demo_gd s)) = {}"
proof -
  obtain s0 where s0: "gd_start demo_gd (0, []) = Some s0" by (simp add: gd_start_def demo_gd_def)
  have "case gd_start demo_gd (0, []) of None \<Rightarrow> False | Some s0 \<Rightarrow>
      (case gd_session demo_gd [[[], [1, 0, 0, 0, 4, 0, 0, 0, 3]], [[], [1, 0, 0, 0, 4, 0, 0, 0, 3]], [[], [51, 0, 0, 0, 0]]] s0 of
         Inl e \<Rightarrow> False
       | Inr (u, s) \<Rightarrow> gd_maps s ! 0 ! 1 = Some 1 \<and> gd_live (gd_log s) = set (gd_entries (gd_maps s ! 0)))"
    by code_simp
  then obtain s where s: "gd_session demo_gd
      [[[], [1, 0, 0, 0, 4, 0, 0, 0, 3]], [[], [1, 0, 0, 0, 4, 0, 0, 0, 3]], [[], [51, 0, 0, 0, 0]]] s0 = Inr ((), s)"
    "gd_maps s ! 0 ! 1 = Some 1" "gd_live (gd_log s) = set (gd_entries (gd_maps s ! 0))"
    unfolding s0 by (auto split: sum.splits)
  from gd_no_dangling [OF demo_gd_sound s0, THEN conjunct2, THEN spec, THEN mp, OF s(1)] show ?thesis using s0 s by blast
qed

text \<open>
  C33.  A request of \<^verbatim>\<open>gd1_drv.erl\<close> that stands for one function of the library (48 of the 63 do), with its
  arguments in range, its strings with an end and its fields not empty and cut into pieces in any way that
  leaves them whole, calls that function, and no other, with the client's numbers and strings and with the
  images, files and fonts the indices stood for; it is answered once before the next command is read, unless
  the data that the library returned are shorter than it says.  Memory does not run out, and a long has
  four bytes.
\<close>

theorem gd_commands:
  assumes "(n, Calls f, map tk_kind_of vs) \<in> set gd_functions"
    and "concat groups = [word_of_nat n] # concat (map tk_fields vs)" "[] \<notin> set groups"
    and "[] \<notin> set (concat (map tk_fields vs))" "ev_small (hdr # map concat groups)" "gd_allocs lib"
    and "\<forall>v \<in> set vs. tk_value_ok (gd_maps s) v \<and> gd_string_ok v"
  shows "\<exists>job out t. gd_log t = GdCall f (map (gd_client (gd_maps s)) vs) (out_ret out) # GdAlloc # gd_log s \<and>
    gj_cmd job = word_of_nat n \<and> gd_outputv lib (hdr # map concat groups) s = gd_ready_async lib job out t \<and>
    (\<forall>bs. gd_ret_bytes (out_ret out) = Inr bs \<longrightarrow>
       (\<exists>u. gd_outputv lib (hdr # map concat groups) s = Inr ((), u) \<and>
          gd_made (gd_log u) = (f, map (gd_client (gd_maps s)) vs) # gd_made (gd_log s) \<and>
          gd_answered (gd_log u) = Suc (gd_answered (gd_log s))))"
proof -
  let ?ev = "hdr # map concat groups" and ?cmd = "word_of_nat n :: byte"
  note row = gd_function_row [OF assms(1)]
  have unat: "unat ?cmd = n" using row(2) by (simp add: unat_of_nat)
  then have cmd: "0 < ?cmd" "?cmd \<le> 63" using row(1,2) by (simp_all add: word_less_nat_alt word_le_nat_alt)
  have kinds: "map tk_kind_of vs = gd_kinds ! (unat ?cmd - 1)" using row(3) by (simp add: unat)
  obtain res ex where call: "gd_calls ! (unat ?cmd - 1) = (Gd f, res, ex)" using row(4) by (auto simp: unat)
  have ok: "\<forall>v \<in> set vs. tk_value_ok (gd_maps s) v" "\<forall>v \<in> set vs. gd_string_ok v" using assms(7) by blast+
  obtain args where args: "list_all2 (tk_means (gd_maps s)) vs args"
    "gd_decode lib ?ev s =
      (if gd_bad_polygon ?cmd args then Inr (None, gd_badarg (gd_do GdAlloc s))
       else Inr (Some \<lparr>gj_cmd = ?cmd, gj_args = args\<rparr>, gd_do GdAlloc s))"
    using gd_decode_args [OF assms(2-6) cmd kinds ok(1)] by blast
  have "?cmd \<noteq> 19" using call gd_polygon_row(1) by auto
  then have job: "gd_decode lib ?ev s = Inr (Some \<lparr>gj_cmd = ?cmd, gj_args = args\<rparr>, gd_do GdAlloc s)"
    using args(2) by (simp add: gd_bad_polygon_def)
  obtain out t where t: "gd_invoke lib ?cmd args (gd_do GdAlloc s) = Inr (out, t)"
    "gd_log t = GdCall f (map (gd_client (gd_maps s)) vs) (out_ret out) # GdAlloc # gd_log s"
    using gd_invoke_calls [OF call args(1) ok(2), of lib "gd_do GdAlloc s"] by auto
  have run: "gd_outputv lib ?ev s = gd_ready_async lib \<lparr>gj_cmd = ?cmd, gj_args = args\<rparr> out t"
    using gd_outputv_called [OF job] t(1) by simp
  have "\<exists>u. gd_outputv lib ?ev s = Inr ((), u) \<and> gd_made (gd_log u) = (f, map (gd_client (gd_maps s)) vs) # gd_made (gd_log s) \<and>
      gd_answered (gd_log u) = Suc (gd_answered (gd_log s))" if bs: "gd_ret_bytes (out_ret out) = Inr bs" for bs
  proof -
    obtain u where u: "gd_ready_async lib \<lparr>gj_cmd = ?cmd, gj_args = args\<rparr> out t = Inr ((), u)"
      using gd_ready_returns [OF bs] by blast
    show ?thesis using run u gd_ready_made [OF u] gd_ready_more [OF u] t(2) by (simp add: gd_more_def)
  qed
  then show ?thesis using t(2) run by (intro exI [of _ "\<lparr>gj_cmd = ?cmd, gj_args = args\<rparr>"] exI conjI) auto
qed

theorem gd_commands_witness:
  "\<exists>job out t. gd_outputv demo_gd [[], [12, 0, 0, 0, 0]] demo_gd_port = gd_ready_async demo_gd job out t \<and>
    gd_log t = GdCall ''gdImageColorsTotal'' [VPtr 0] (out_ret out) # GdAlloc # gd_log demo_gd_port"
proof -
  have row: "(12, Calls ''gdImageColorsTotal'', map tk_kind_of [CMap 0 0]) \<in> set gd_functions"
    by (simp add: gd_functions_defs)
  have groups: "concat [[[12 :: byte], [0, 0, 0, 0]]] = [word_of_nat 12] # concat (map tk_fields [CMap 0 0])"
    by (simp add: put_int32_def)
  have vals: "\<forall>v \<in> set [CMap 0 0]. tk_value_ok (gd_maps demo_gd_port) v \<and> gd_string_ok v"
    by (simp add: demo_gd_port_def int32_ok_def)
  have ev: "[] # map concat [[[12 :: byte], [0, 0, 0, 0]]] = [[], [12, 0, 0, 0, 0]]" by simp
  have "map (gd_client (gd_maps demo_gd_port)) [CMap 0 0] = [VPtr 0]"
    by (simp add: demo_gd_port_def)
  then show ?thesis
    using gd_commands [OF row groups _ _ _ demo_gd_allocs vals, of "[]", unfolded ev]
    by (fastforce simp: put_int32_def ev_small_def)
qed

text \<open>Every command to the gd driver is answered once, before the next is read.\<close>

theorem gd_answers:
  assumes "edtk_reach (gd_started lib) (gd_stepped lib) n s"
  shows "gd_answered (gd_log s) = n"
  by (rule gd_server.reach_due [OF assms])

theorem gd_answers_witness:
  "\<exists>s t. gd_start demo_gd (0, []) = Some s \<and> gd_outputv demo_gd [[], [64]] s = Inr ((), t) \<and> gd_answered (gd_log t) = 1"
proof -
  obtain s where s: "gd_start demo_gd (0, []) = Some s" by (simp add: gd_start_def demo_gd_def)
  obtain t where t: "gd_outputv demo_gd [[], [64]] s = Inr ((), t)"
    by (simp add: gd_outputv_def gd_decode_def EV_GET_CHAR_def ev_value_def ev_get_def Let_def andthen_def
        gd_gotten [OF demo_gd_allocs])
  have "gd_started demo_gd s" using s by (auto simp: gd_started_def)
  moreover have "gd_stepped demo_gd (Some [[], [64]]) s t" using t by simp
  ultimately have "edtk_reach (gd_started demo_gd) (gd_stepped demo_gd) (Suc 0) t"
    by (rule edtk_reach.command [OF edtk_reach.started])
  from gd_answers [OF this] show ?thesis using s t by auto
qed

text \<open>
  C34.  A polygon of up to 512 points is drawn with the points the client wrote, on the image it named and in
  its colour, and answered with \<^verbatim>\<open>{ok, 0}\<close> before the next command is read; nothing else is done.  Its
  coordinates and colour are in range, memory does not run out, and a long has four bytes (where it has eight
  every polygon is refused).
\<close>

theorem gd_polygons:
  assumes "concat groups = [19] # concat (map tk_fields [CMap 0 i, CBytes (gd_vertices ps), CInt (int (length ps)), CInt color])"
    and "[] \<notin> set groups" "ev_small (hdr # map concat groups)" "gd_allocs lib"
    and "ps \<noteq> []" "length ps \<le> 512" "\<forall>(x, y) \<in> set ps. int32_ok x \<and> int32_ok y" "int32_ok color"
    and "tk_value_ok (gd_maps s) (CMap 0 i)" "gd_maps s ! 0 ! i = Some im"
  shows "\<exists>t. gd_outputv lib (hdr # map concat groups) s = Inr ((), t) \<and>
    gd_log t = [GdFree, GdOutput [LOAD_PORT, LOAD_ATOM ''ok'', LOAD_INT 0, LOAD_TUPLE 3],
      GdCall ''gdImagePolygon'' [VPtr im, VPoints ps, VInt (int (length ps)), VInt color] RetVoid, GdAlloc] @ gd_log s"
proof -
  let ?vs = "[CMap 0 i, CBytes (gd_vertices ps), CInt (int (length ps)), CInt color]"
  have len: "length (gd_vertices ps) = 8 * nat (int (length ps))" "0 < int (length ps)" "int (length ps) < 2 ^ 28"
    using assms(5,6) by (simp_all add: gd_vertices_length)
  then have "gd_vertices ps \<noteq> []" using assms(5) by auto
  then have fields: "[] \<notin> set (concat (map tk_fields ?vs))" by (simp add: put_int32_def tk_len_def)
  have vals: "\<forall>v \<in> set ?vs. tk_value_ok (gd_maps s) v" using assms(6,8,9) by (simp add: int32_ok_def)
  have kinds: "map tk_kind_of ?vs = gd_kinds ! (unat (19 :: byte) - 1)" unfolding gd_polygon_row(2) by simp
  obtain args where args: "list_all2 (tk_means (gd_maps s)) ?vs args"
    "gd_decode lib (hdr # map concat groups) s =
      (if gd_bad_polygon 19 args then Inr (None, gd_badarg (gd_do GdAlloc s))
       else Inr (Some \<lparr>gj_cmd = 19, gj_args = args\<rparr>, gd_do GdAlloc s))"
    using gd_decode_args [OF assms(1,2) fields assms(3,4) _ _ kinds vals] by auto
  have job: "gd_decode lib (hdr # map concat groups) s = Inr (Some \<lparr>gj_cmd = 19, gj_args = args\<rparr>, gd_do GdAlloc s)"
    using args(2) gd_polygon_check [OF args(1) len] by simp
  obtain out v where v: "gd_invoke lib 19 args (gd_do GdAlloc s) = Inr (out, v)" "out_ok out" "out_ret out = RetInt 0"
      "gd_log v = GdCall ''gdImagePolygon'' [VPtr im, VPoints ps, VInt (int (length ps)), VInt color] RetVoid # GdAlloc # gd_log s"
    using gd_polygon_run [OF args(1) assms(7,6,10), of lib "''gdImagePolygon''" RInt "gd_do GdAlloc s"]
    unfolding gd_invoke_def gd_polygon_row(1) prod.case by (auto simp: andthen_def gd_expected_def)
  have "gd_outputv lib (hdr # map concat groups) s = gd_ready_async lib \<lparr>gj_cmd = 19, gj_args = args\<rparr> out v"
    using gd_outputv_called [OF job] v(1) by simp
  moreover have "gd_replies ! 18 = ReplyNum" using gd_polygon_row(3) by simp
  ultimately show ?thesis using v(2-4)
    by (simp add: gd_ready_async_def gd_answer_def andthen_def gd_reply_defs gd_ret_int_def)
qed

theorem gd_polygons_witness:
  "\<exists>t. gd_outputv demo_gd [[], [19] @ put_int32 0, tk_len (gd_vertices [(1, 2), (3, -4)]) @ gd_vertices [(1, 2), (3, -4)] @
      put_int32 2 @ put_int32 5] demo_gd_port = Inr ((), t) \<and>
    gd_log t = [GdFree, GdOutput [LOAD_PORT, LOAD_ATOM ''ok'', LOAD_INT 0, LOAD_TUPLE 3],
      GdCall ''gdImagePolygon'' [VPtr 0, VPoints [(1, 2), (3, -4)], VInt 2, VInt 5] RetVoid, GdAlloc] @ gd_log demo_gd_port"
  using gd_polygons [of "[[[19], put_int32 0], [tk_len (gd_vertices [(1, 2), (3, -4)]), gd_vertices [(1, 2), (3, -4)], put_int32 2, put_int32 5]]"
      0 "[(1, 2), (3, -4)]" 5 "[]" demo_gd demo_gd_port 0] demo_gd_allocs
  by (simp add: demo_gd_port_def int32_ok_def ev_small_def gd_vertices_length tk_len_def)

section \<open>POSIX calls\<close>



text \<open>
  C36.  The answer to a request for a group is the one term of its name, password, number and members if it has
  no more than nine members, and as many binaries as members are never released; with ten members or more
  the term does not fit the array it is built in.
\<close>

theorem posix_group_answer:
  assumes "px_allocs lib" "px_for_group call" "px_group_at lib p (px_lib s) = g" "gr_mem g = Some names"
    and "out = \<lparr>po_ok = True, po_err = 0, po_ret = RetAt (Some p)\<rparr>"
  shows "(length names \<le> 9 \<longrightarrow> (\<exists>t. px_answer lib (px_cmd call) out s = Inr ((), t) \<and>
      px_outputs (px_log t) = px_outputs (px_log s) @ [px_group_items g] \<and> tk_denotes (px_group_items g) (px_group_term g) \<and>
      px_binaries (px_log t) = px_binaries (px_log s) + int (length names))) \<and>
    (9 < length names \<longrightarrow> px_answer lib (px_cmd call) out s = Inl OutOfBounds)"
  using px_group_answer [OF assms(1,3)] px_group_denotes [of g] unfolding assms(5) px_group_answers [OF assms(2)]
  by (simp add: assms(4))

theorem posix_group_answer_witness:
  "(\<exists>t. px_answer demo_posix 4 \<lparr>po_ok = True, po_err = 0, po_ret = RetAt (Some 1)\<rparr>
      (demo_px_port\<lparr>px_lib := demo_px_group (PX_getgrgid 2)\<rparr>) = Inr ((), t) \<and>
     px_outputs (px_log t) = [px_group_items (demo_px_group (PX_getgrgid 2))] \<and> px_binaries (px_log t) = 2) \<and>
   px_answer demo_posix 4 \<lparr>po_ok = True, po_err = 0, po_ret = RetAt (Some 1)\<rparr>
     (demo_px_port\<lparr>px_lib := demo_px_group (PX_getgrgid 10)\<rparr>) = Inl OutOfBounds"
proof -
  have at: "px_group_at demo_posix 1 (px_lib (demo_px_port\<lparr>px_lib := g\<rparr>)) = g" for g by (simp add: demo_posix_def)
  have mem: "gr_mem (demo_px_group (PX_getgrgid n)) = Some (replicate (nat n) [97])" for n by (simp add: demo_px_group_def)
  have "px_outputs (px_log demo_px_port) = []" "px_binaries (px_log demo_px_port) = 0" by (simp_all add: demo_px_port_def)
  then show ?thesis
    using posix_group_answer [OF demo_posix_allocs _ at mem refl, of "PX_getgrgid 0" 2]
      posix_group_answer [OF demo_posix_allocs _ at mem refl, of "PX_getgrgid 0" 10]
    by auto
qed

text \<open>Every command to this driver is answered once as well.\<close>

theorem posix_answers:
  assumes "edtk_reach (px_started lib) (px_stepped lib) n s"
  shows "length (px_outputs (px_log s)) = n"
  by (rule posix_server.reach_due [OF assms])

text \<open>A process without a login name brings the emulator down: \<^verbatim>\<open>getlogin\<close> returns NULL.\<close>

theorem posix_no_login:
  "px_answer lib 10 (px_expected (RetAt None) e) s = Inl NullPtr"
  by (simp add: px_answer_def px_reply_login_def)

section \<open>Descriptors in a value map\<close>

text \<open>
  C37.  A client of the toolkit's socket driver cannot make it close, write or read a descriptor that it does not
  have, and stopping closes every descriptor in the map; none stays open then if sockets can always be bound
  and connected and no more than 32 commands have been sent.  This is for sessions in which nothing makes the
  driver reach outside its memory, as in all sessions of requests whose indices are below 32, whose fields
  are whole and not empty, in whatever pieces they come, and whose paths have an end and at most 107
  bytes.  (The driver compares an index or a length with nothing: an index above 31 is read from behind the
  map, where a zero is taken for descriptor 0.)  Closing an open descriptor succeeds, and a long has four bytes.
\<close>

theorem s1_closes_all:
  assumes "s1_sound lib objs" "s1_start lib l = Some s0"
  shows "((\<forall>ev \<in> set evs. s1_request ev) \<longrightarrow> (\<exists>s. s1_session lib evs s0 = Inr ((), s))) \<and>
    (\<forall>s. s1_session lib evs s0 = Inr ((), s) \<longrightarrow>
       s1_proper (s1_log (s1_stop lib s)) \<and>
       s1_opened (s1_log (s1_stop lib s)) = s1_opened (s1_log s) - set (s1_entries (s1_map s)) \<and>
       (s1_reliable lib \<longrightarrow> length evs \<le> 32 \<longrightarrow> s1_opened (s1_log (s1_stop lib s)) = {}))"
proof (intro conjI impI allI)
  assume "\<forall>ev \<in> set evs. s1_request ev"
  from s1_session_returns [OF assms(1) s1_start_inv [OF assms(2)] this] show "\<exists>s. s1_session lib evs s0 = Inr ((), s)" .
next
  fix s assume "s1_session lib evs s0 = Inr ((), s)"
  from s1_session_inv [OF assms(1) s1_start_inv [OF assms(2)] this] have inv: "s1_inv lib objs (length evs) s" by simp
  note stop = s1_stop_inv [OF assms(1) inv]
  then show "s1_proper (s1_log (s1_stop lib s))"
    "s1_opened (s1_log (s1_stop lib s)) = s1_opened (s1_log s) - set (s1_entries (s1_map s))" by simp_all
  show "s1_opened (s1_log (s1_stop lib s)) = {}" if "s1_reliable lib" "length evs \<le> 32"
    using stop inv that by (simp add: s1_inv_def)
qed

theorem s1_closes_all_witness:
  "\<exists>s0 s. s1_start demo_s1 (3, []) = Some s0 \<and>
    s1_session demo_s1 [[[], [2, 0, 0, 0, 2, 97, 0, 0, 0, 0, 0]], [[], [2, 0, 0, 0, 2, 98, 0, 0, 0, 0, 1]], [[], [6, 0, 0, 0, 0]]] s0 = Inr ((), s) \<and>
    s1_map s ! 1 = Some 4 \<and> s1_proper (s1_log (s1_stop demo_s1 s)) \<and> s1_opened (s1_log (s1_stop demo_s1 s)) = {}"
proof -
  obtain s0 where s0: "s1_start demo_s1 (3, []) = Some s0" by (simp add: s1_start_def demo_s1_def)
  have "case s1_start demo_s1 (3, []) of None \<Rightarrow> False | Some s0 \<Rightarrow>
      (case s1_session demo_s1 [[[], [2, 0, 0, 0, 2, 97, 0, 0, 0, 0, 0]], [[], [2, 0, 0, 0, 2, 98, 0, 0, 0, 0, 1]], [[], [6, 0, 0, 0, 0]]] s0 of
         Inl e \<Rightarrow> False
       | Inr (u, s) \<Rightarrow> s1_map s ! 1 = Some 4)"
    by code_simp
  then obtain s where s: "s1_session demo_s1
      [[[], [2, 0, 0, 0, 2, 97, 0, 0, 0, 0, 0]], [[], [2, 0, 0, 0, 2, 98, 0, 0, 0, 0, 1]], [[], [6, 0, 0, 0, 0]]] s0 = Inr ((), s)"
    "s1_map s ! 1 = Some 4"
    unfolding s0 by (auto split: sum.splits)
  from s1_closes_all [OF demo_s1_sound s0, THEN conjunct2, THEN spec, THEN mp, OF s(1)] demo_s1_reliable
  show ?thesis using s0 s by auto
qed

text \<open>A socket that cannot be connected stays open, and is in no map that stopping could close it from.\<close>

theorem s1_open_leaks:
  assumes "s1_socket lib (s1_lib s) = (fd, l)" "0 \<le> fd" "length path \<le> 107"
    and "s1_connect lib fd path l = (r, l')" "r < 0"
  shows "\<exists>t. my_open lib path 0 s = Inr ((-1, s1_errno lib l'), t) \<and> fd \<in> s1_opened (s1_log t) \<and> s1_map t = s1_map s"
  using my_open_leaks [OF assms] by auto

text \<open>The answer to a read that fails is given to the emulator with a length of -1.\<close>

theorem s1_read_fails:
  assumes "sj_cmd job = 8" "sout_ret out = -1"
  shows "s1_log (s1_answer lib job out s) = S1FreeBinary # S1BadOutput (-1) # s1_log s"
  using assms by (simp add: s1_answer_def reply_xtra_1_ptr_ssize_t_def s1_do_def)

section \<open>The screen library\<close>



text \<open>\<^verbatim>\<open>SLtt_smart_puts\<close> draws the difference between two arrays of cells; it is given the same array twice, by any message.\<close>

theorem slang_smart_puts:
  assumes "slg_output lib (66 # bs) s = Inr ((), t)"
  shows "\<exists>v x y. slg_log t = SlgCall ''SLtt_smart_puts'' [v, v, x, y] # slg_log (slg_report s)"
proof -
  have "map_of slg_table 66 = Some ([SlgSmg, SlgSmg, SlgInt, SlgInt], ''SLtt_smart_puts'', SlgVoid)" by code_simp
  with assms have "slg_read [SlgSmg, SlgSmg, SlgInt, SlgInt] bs (slg_run lib ''SLtt_smart_puts'' SlgVoid) (slg_report s) = Inr ((), t)"
    by (simp add: slg_output_cons slg_command_def)
  then show ?thesis
    by (auto simp: slg_read_def slg_run_def slg_call_void_def split: sum.splits if_splits)
qed

text \<open>
  The answer with a string is the string and a zero: \<^verbatim>\<open>rec_loop\<close> of \<^verbatim>\<open>slang.erl\<close>, which waits for a 1 in front, takes no
  notice of it.
\<close>

theorem slang_string_untagged:
  assumes "slg_str lib f vs (slg_state s) = (Some str, l)" "slg_run lib f SlgString vs s = Inr ((), t)"
  shows "slg_log t = SlgOut (str @ [0]) # SlgSmash # SlgCall f vs # slg_log s"
  using assms by (auto simp: slg_run_def slg_ret_string_def)

text \<open>
  C39.  A key that is asked for while there is none is not answered, whatever the driver is asked meanwhile, other
  keys apart, and whatever signals come; when there is input the answer is the key, by the call that was asked for.
\<close>

theorem slang_keys:
  assumes "c = 3 \<or> c = 5" "\<not> slg_pending lib (slg_state s)" "slg_output lib (c # bs) s = Inr ((), t)"
    and "slg_session lib evs t = Inr ((), u)" "\<forall>ev \<in> set evs. \<not> slg_asks_key ev"
    and "slg_int lib (if c = 3 then ''SLang_getkey'' else ''SLkp_getkey'') [] (slg_state u) = (k, l)"
  shows "slg_log t = SlgSelect True # slg_log (slg_report s) \<and>
    slg_ready_input lib u = u\<lparr>slg_log := [SlgOut (1 # put_int32 k),
      SlgCall (if c = 3 then ''SLang_getkey'' else ''SLkp_getkey'') [], SlgSelect False] @ slg_log u, slg_state := l\<rparr>"
proof -
  have t: "t = slg_do (SlgSelect True) (slg_report s\<lparr>slg_wait_for := unat c\<rparr>)"
    using assms(2,3) by (simp add: slg_key_command [OF assms(1)] slg_key_def)
  have w: "slg_wait_for u = unat c" using slg_session_waits [OF assms(4,5)] by (simp add: t)
  have c: "unat c = 3 \<or> unat c = 5" "(unat c = 3) = (c = 3)" using assms(1) by (simp_all add: slg_byte_cmd)
  from slg_ready_key [OF w c(1), unfolded c(2), OF assms(6)] show ?thesis by (simp add: t)
qed

theorem slang_keys_witness:
  "\<exists>t u. slg_output demo_slg [3] demo_slg_state = Inr ((), t) \<and>
    slg_session demo_slg [SlgSignal 2, SlgMessage [27]] t = Inr ((), u) \<and> slg_log t = [SlgSelect True] \<and>
    slg_log (slg_ready_input demo_slg u) = [SlgOut [1, 0, 0, 0, 0], SlgCall ''SLang_getkey'' [], SlgSelect False] @ slg_log u"
proof -
  define t where "t = slg_key demo_slg 3 demo_slg_state"
  have r: "slg_report demo_slg_state = demo_slg_state" by (simp add: demo_slg_state_def)
  have t: "slg_output demo_slg [3] demo_slg_state = Inr ((), t)" using slg_key_command [of 3 demo_slg "[]" demo_slg_state] by (simp add: t_def r)
  have "map_of slg_table 27 = Some ([], ''SLsmg_cls'', SlgVoid)" by code_simp
  then obtain u where u: "slg_session demo_slg [SlgSignal 2, SlgMessage [27]] t = Inr ((), u)" "slg_state u = ([], \<lambda>_. 0)"
    by (simp add: andthen_def slg_output_cons slg_command_def slg_read_def slg_run_def slg_call_void_def t_def slg_key_def
        demo_slg_def demo_slg_state_def slg_sig_handler_def slg_do_def slg_report_def sig_to_x_def)
  have k: "slg_int demo_slg (if (3 :: byte) = 3 then ''SLang_getkey'' else ''SLkp_getkey'') [] (slg_state u) = (0, slg_state u)"
    by (simp add: demo_slg_def u(2))
  have z: "put_int32 0 = [0, 0, 0, 0]" by code_simp
  have "\<not> slg_pending demo_slg (slg_state demo_slg_state)" by (simp add: demo_slg_def demo_slg_state_def)
  from slang_keys [OF _ this t u(1) _ k] t u(1) r show ?thesis by (auto simp: slg_asks_key_def z demo_slg_state_def)
qed

text \<open>
  C40.  A signal that the client has asked for by number reaches it as that number, in front of anything that the next
  message, of whatever kind, brings about, and once; a check for signals is answered with zero, always.
\<close>

theorem slang_signals:
  assumes "1 \<le> x" "x \<le> 6" "slg_output lib bs (slg_sig_handler (x_to_sig x) s) = Inr ((), t)"
  shows "slg_caught t = 0 \<and> (\<exists>evs. slg_log t = evs @ SlgOut (0 # put_int32 x) # slg_log s) \<and>
    slg_output lib [103] (slg_sig_handler (x_to_sig x) s) =
      Inr ((), (slg_do (SlgOut (1 # put_int32 0)) (slg_do (SlgOut (0 # put_int32 x)) s))\<lparr>slg_caught := 0\<rparr>)"
proof -
  have x: "sig_to_x (x_to_sig x) = x" by (rule slg_signal_numbers [OF assms(1,2)])
  from assms(1) have r: "slg_report (slg_sig_handler (x_to_sig x) s) = (slg_do (SlgOut (0 # put_int32 x)) s)\<lparr>slg_caught := 0\<rparr>"
    by (simp add: slg_report_def slg_sig_handler_def x slg_do_def)
  from slg_output_reports [OF assms(3)] show ?thesis
    by (auto simp: r slg_check_zero slg_ret_int_def slg_do_def)
qed

theorem slang_signals_witness:
  "\<exists>t. slg_output demo_slg [12] (slg_sig_handler (x_to_sig 6) demo_slg_state) = Inr ((), t) \<and> slg_caught t = 0 \<and>
    (\<exists>evs. slg_log t = evs @ [SlgOut (0 # put_int32 6)])"
proof -
  have "map_of slg_table 12 = Some ([], ''SLsmg_suspend_smg'', SlgResult)" by code_simp
  then obtain t where t: "slg_output demo_slg [12] (slg_sig_handler (x_to_sig 6) demo_slg_state) = Inr ((), t)"
    by (simp add: slg_output_cons slg_command_def slg_read_def slg_run_def slg_call_int_def demo_slg_def
        demo_slg_state_def slg_sig_handler_def)
  from slang_signals [OF _ _ t] t show ?thesis by (auto simp: demo_slg_state_def)
qed

text \<open>A variable that can be set is read back as it was set; the others are not changed.\<close>

theorem slang_variables:
  assumes "\<And>l. slg_get lib x (slg_set lib x y l) = y" "1 \<le> x" "x \<le> 17" "- (2 ^ 31) \<le> y" "y < 2 ^ 31" "slg_caught s = 0"
  shows "\<exists>t. slg_output lib (7 # put_int32 x @ put_int32 y) s = Inr ((), t) \<and>
    slg_output lib (8 # put_int32 x) t = Inr ((), slg_ret_int (if slg_settable x then y else slg_get lib x (slg_state s)) t)"
proof -
  have b: "- (2 ^ 31) \<le> x" "x < 2 ^ 31" using assms(2,3) by auto
  have "slg_report (slg_setvar lib x y s) = slg_setvar lib x y s" using assms(6) by (simp add: slg_report_def slg_setvar_def)
  then show ?thesis using assms
    by (simp add: slg_setvar_output [OF b assms(4,5)] slg_getvar_output [OF b] slg_getvar_def) (simp add: slg_setvar_def)
qed

end
